(* ===== verification/Prelude.thy ===== *)
theory Prelude
  imports
    Complex_Main
    "HOL-Library.Product_Lexorder"
    "HOL-Library.List_Lexorder"
    "HOL-Library.Char_ord"
    "HOL-Library.Option_ord"
begin

text \<open>
  Shared vocabulary of the development.

  \<^item> A SQLite table is the list of its rows, in insertion order. \<open>sql_update\<close>,
    \<open>sql_delete\<close>, \<open>rowcount\<close>, \<open>sql_exists\<close> and \<open>sql_first\<close> are the statements the stores
    issue, each with its \<^verbatim>\<open>WHERE\<close> clause as a Boolean function of the row;
    \<open>sql_order\<close> and \<open>sql_limit\<close> are \<^verbatim>\<open>ORDER BY\<close> and \<^verbatim>\<open>LIMIT ... OFFSET\<close>.
  \<^item> A Python function that can raise has a result of type \<open>'e + 'a\<close>: \<open>Inl\<close> is the
    exception, \<open>Inr\<close> the returned value.
  \<^item> \<open>instant\<close> is a stored timestamp: microseconds of UTC time. Every timestamp the code
    writes comes from one UTC clock, and the theory \<open>Timestamps\<close> proves that the text
    comparison SQLite makes on the ISO strings is this order.
  \<^item> \<open>seconds\<close> is a Python float that counts seconds, taken as an exact rational.
  \<^item> \<open>invariant_system\<close> is the interface of a component with state: what holds at the
    start and is kept by every step holds in every reachable state.
\<close>

type_synonym instant = int

type_synonym seconds = rat

type_synonym 'r table = "'r list"

named_theorems sql_defs \<open>the definitions of the SQL statements\<close>

section \<open>SQL statements over a list of rows\<close>

definition sql_update :: "('r \<Rightarrow> bool) \<Rightarrow> ('r \<Rightarrow> 'r) \<Rightarrow> 'r table \<Rightarrow> 'r table" where
  [sql_defs]: "sql_update P f t = map (\<lambda>r. if P r then f r else r) t"

definition sql_delete :: "('r \<Rightarrow> bool) \<Rightarrow> 'r table \<Rightarrow> 'r table" where
  [sql_defs]: "sql_delete P t = filter (\<lambda>r. \<not> P r) t"

definition rowcount :: "('r \<Rightarrow> bool) \<Rightarrow> 'r table \<Rightarrow> nat" where
  [sql_defs]: "rowcount P t = length (filter P t)"

definition sql_exists :: "('r \<Rightarrow> bool) \<Rightarrow> 'r table \<Rightarrow> bool" where
  [sql_defs]: "sql_exists P t = list_ex P t"

definition sql_first :: "('r \<Rightarrow> bool) \<Rightarrow> 'r table \<Rightarrow> 'r option" where
  [sql_defs]: "sql_first P t = List.find P t"

definition sql_order :: "('r \<Rightarrow> 'k::linorder) \<Rightarrow> 'r table \<Rightarrow> 'r table" where
  [sql_defs]: "sql_order k t = sort_key k t"

definition sql_limit :: "nat \<Rightarrow> nat \<Rightarrow> 'r table \<Rightarrow> 'r table" where
  [sql_defs]: "sql_limit n off t = take n (drop off t)"

definition sql_coalesce :: "'a option \<Rightarrow> 'a option \<Rightarrow> 'a option" where
  [sql_defs]: "sql_coalesce a b = (case a of None \<Rightarrow> b | Some x \<Rightarrow> Some x)"

text \<open>A comparison with \<^verbatim>\<open>NULL\<close> is not true.\<close>

definition null_le :: "'a::linorder option \<Rightarrow> 'a \<Rightarrow> bool" where
  [sql_defs]: "null_le a t = (case a of None \<Rightarrow> False | Some x \<Rightarrow> x \<le> t)"

definition null_gt :: "'a::linorder option \<Rightarrow> 'a \<Rightarrow> bool" where
  [sql_defs]: "null_gt a t = (case a of None \<Rightarrow> False | Some x \<Rightarrow> x > t)"

text \<open>A key is unique in a table, the content of a primary key or a unique constraint.\<close>

definition unique_on :: "('r \<Rightarrow> 'k) \<Rightarrow> 'r table \<Rightarrow> bool" where
  "unique_on key t = distinct (map key t)"

section \<open>Lemmas on tables\<close>

lemma null_le_simps [simp]: "null_le None t = False" "null_le (Some x) t = (x \<le> t)"
  by (simp_all add: null_le_def)

lemma null_gt_simps [simp]: "null_gt None t = False" "null_gt (Some x) t = (x > t)"
  by (simp_all add: null_gt_def)

lemma set_sql_update: "set (sql_update P f t) = (\<lambda>r. if P r then f r else r) ` set t"
  by (simp add: sql_update_def)

lemma in_sql_update:
  "r' \<in> set (sql_update P f t) \<longleftrightarrow> (\<exists>r \<in> set t. (P r \<and> r' = f r) \<or> (\<not> P r \<and> r' = r))"
  by (auto simp: sql_update_def)

lemma length_sql_update [simp]: "length (sql_update P f t) = length t"
  by (simp add: sql_update_def)

lemma sql_update_Nil [simp]: "sql_update P f [] = []"
  by (simp add: sql_update_def)

lemma sql_update_Cons:
  "sql_update P f (r # t) = (if P r then f r else r) # sql_update P f t"
  by (simp add: sql_update_def)

lemma set_sql_delete [simp]: "set (sql_delete P t) = {r \<in> set t. \<not> P r}"
  by (auto simp: sql_delete_def)

lemma sql_exists_iff: "sql_exists P t \<longleftrightarrow> (\<exists>r \<in> set t. P r)"
  by (simp add: sql_exists_def list_ex_iff)

lemma sql_first_Some: "sql_first P t = Some r \<Longrightarrow> r \<in> set t \<and> P r"
  by (auto simp: sql_first_def find_Some_iff)

lemma sql_first_None: "sql_first P t = None \<longleftrightarrow> (\<forall>r \<in> set t. \<not> P r)"
  by (auto simp: sql_first_def find_None_iff)

lemma sql_update_cong_key:
  assumes "\<And>r. key (f r) = key r"
  shows "map key (sql_update P f t) = map key t"
  using assms by (induction t) (simp_all add: sql_update_Cons)

lemma sql_update_no_match: "(\<And>r. r \<in> set t \<Longrightarrow> \<not> P r) \<Longrightarrow> sql_update P f t = t"
  by (induction t) (simp_all add: sql_update_Cons)

lemma unique_on_update:
  assumes "\<And>r. key (f r) = key r"
  shows "unique_on key (sql_update P f t) = unique_on key t"
  by (simp add: unique_on_def sql_update_cong_key [of key f, OF assms])

lemma unique_on_delete: "unique_on key t \<Longrightarrow> unique_on key (sql_delete P t)"
  by (auto simp: unique_on_def sql_delete_def distinct_map inj_on_def)

lemma unique_on_append:
  "unique_on key (t @ [r]) \<longleftrightarrow> unique_on key t \<and> (\<forall>x \<in> set t. key x \<noteq> key r)"
  by (auto simp: unique_on_def image_iff)

lemma unique_onD:
  "unique_on key t \<Longrightarrow> r \<in> set t \<Longrightarrow> s \<in> set t \<Longrightarrow> key r = key s \<Longrightarrow> r = s"
  by (auto simp: unique_on_def distinct_map inj_on_def)

lemma sql_first_key:
  assumes "unique_on key t" and "r \<in> set t" and "P r" and "\<And>x. P x \<Longrightarrow> key x = key r"
  shows "sql_first P t = Some r"
proof (cases "sql_first P t")
  case None
  with assms(2,3) show ?thesis by (auto simp: sql_first_None)
next
  case (Some s)
  then have "s \<in> set t" and "P s" by (auto dest: sql_first_Some)
  with assms have "s = r" by (auto intro: unique_onD [of key t])
  with Some show ?thesis by simp
qed

lemma rowcount_0: "rowcount P t = 0 \<longleftrightarrow> (\<forall>r \<in> set t. \<not> P r)"
  by (auto simp: rowcount_def filter_empty_conv)

lemma rowcount_key_le_1:
  assumes "unique_on key t" and "\<And>x y. P x \<Longrightarrow> P y \<Longrightarrow> key x = key y"
  shows "rowcount P t \<le> 1"
proof -
  have d: "distinct (map key (filter P t))"
    using assms(1) by (auto simp: unique_on_def distinct_map inj_on_def)
  have c: "\<And>x y. x \<in> set (map key (filter P t)) \<Longrightarrow> y \<in> set (map key (filter P t)) \<Longrightarrow> x = y"
    using assms(2) by auto
  have "length (map key (filter P t)) \<le> 1"
  proof (cases "map key (filter P t)")
    case Nil
    then show ?thesis by simp
  next
    case (Cons k ks)
    then have "ks = []"
      using d c by (metis distinct.simps(2) list.set_intros(1,2) neq_Nil_conv)
    with Cons show ?thesis by simp
  qed
  then show ?thesis by (simp add: rowcount_def)
qed

lemma rowcount_key_1:
  assumes "unique_on key t" and "\<And>x y. P x \<Longrightarrow> P y \<Longrightarrow> key x = key y"
  shows "rowcount P t = 1 \<longleftrightarrow> (\<exists>r \<in> set t. P r)"
proof -
  have "rowcount P t \<le> 1" by (rule rowcount_key_le_1 [OF assms])
  moreover have "rowcount P t = 0 \<longleftrightarrow> \<not> (\<exists>r \<in> set t. P r)"
    by (simp add: rowcount_0)
  ultimately show ?thesis by linarith
qed

lemma rowcount_append [simp]: "rowcount P (t @ u) = rowcount P t + rowcount P u"
  by (simp add: rowcount_def)

lemma rowcount_Nil [simp]: "rowcount P [] = 0"
  by (simp add: rowcount_def)

lemma rowcount_Cons [simp]: "rowcount P (r # t) = (if P r then 1 else 0) + rowcount P t"
  by (simp add: rowcount_def)

lemma rowcount_update_le:
  assumes "\<And>r. r \<in> set t \<Longrightarrow> Q r \<Longrightarrow> P (f r) \<Longrightarrow> P r"
  shows "rowcount P (sql_update Q f t) \<le> rowcount P t"
  using assms by (induction t) (auto simp: sql_update_Cons)

lemma rowcount_update_eq:
  assumes "\<And>r. r \<in> set t \<Longrightarrow> Q r \<Longrightarrow> P (f r) \<longleftrightarrow> P r"
  shows "rowcount P (sql_update Q f t) = rowcount P t"
  using assms by (induction t) (auto simp: sql_update_Cons)

lemma rowcount_delete_le: "rowcount P (sql_delete Q t) \<le> rowcount P t"
  by (induction t) (auto simp: sql_delete_def)

section \<open>Tables as maps\<close>

text \<open>A table with a unique key is a finite map from the key to what a client sees of the row.\<close>

definition tmap :: "('r \<Rightarrow> 'k) \<Rightarrow> ('r \<Rightarrow> 'v) \<Rightarrow> 'r table \<Rightarrow> ('k \<rightharpoonup> 'v)" where
  "tmap key v t = map_of (map (\<lambda>r. (key r, v r)) t)"

lemma tmap_Nil [simp]: "tmap key v [] = Map.empty"
  by (simp add: tmap_def)

lemma finite_dom_tmap [simp]: "finite (dom (tmap key v t))"
  by (simp add: tmap_def finite_dom_map_of)

lemma tmap_None: "tmap key v t k = None \<longleftrightarrow> (\<forall>r \<in> set t. key r \<noteq> k)"
  by (auto simp: tmap_def map_of_eq_None_iff image_iff)

lemma tmap_in: "unique_on key t \<Longrightarrow> r \<in> set t \<Longrightarrow> tmap key v t (key r) = Some (v r)"
  by (induction t) (auto simp: tmap_def unique_on_def image_iff)

lemma tmap_SomeD: "tmap key v t k = Some w \<Longrightarrow> \<exists>r \<in> set t. key r = k \<and> v r = w"
  by (induction t) (auto simp: tmap_def split: if_splits)

lemma tmap_Some: "unique_on key t \<Longrightarrow> tmap key v t k = Some w \<longleftrightarrow> (\<exists>r \<in> set t. key r = k \<and> v r = w)"
  by (auto simp: tmap_in dest: tmap_SomeD)

lemma tmap_append:
  assumes "\<And>x. x \<in> set t \<Longrightarrow> key x \<noteq> key r"
  shows "tmap key v (t @ [r]) = (tmap key v t)(key r \<mapsto> v r)"
proof
  fix k
  have "tmap key v t (key r) = None" using assms by (auto simp: tmap_None)
  then show "tmap key v (t @ [r]) k = ((tmap key v t)(key r \<mapsto> v r)) k"
    by (auto simp: tmap_def map_add_def split: option.splits)
qed

lemma tmap_update_same:
  assumes "\<And>r. r \<in> set t \<Longrightarrow> P r \<Longrightarrow> key (f r) = key r \<and> v (f r) = v r"
  shows "tmap key v (sql_update P f t) = tmap key v t"
  using assms by (induction t) (auto simp: tmap_def sql_update_Cons)

lemma tmap_update:
  assumes u: "unique_on key t" and r: "r \<in> set t" "P r"
    and one: "\<And>x. P x \<Longrightarrow> key x = key r" and key: "\<And>x. key (f x) = key x"
  shows "tmap key v (sql_update P f t) = (tmap key v t)(key r \<mapsto> v (f r))"
proof
  fix k
  have u': "unique_on key (sql_update P f t)"
    using u by (simp add: unique_on_update [of key f, OF key])
  have fr: "f r \<in> set (sql_update P f t)"
    using r by (auto simp: in_sql_update)
  show "tmap key v (sql_update P f t) k = ((tmap key v t)(key r \<mapsto> v (f r))) k"
  proof (cases "k = key r")
    case True
    with tmap_in [OF u' fr, of v] show ?thesis by (simp add: key)
  next
    case False
    have rows: "x \<in> set (sql_update P f t) \<and> key x = k \<longleftrightarrow> x \<in> set t \<and> key x = k" for x
      using False one by (auto simp: in_sql_update key)
    have "tmap key v (sql_update P f t) k = Some w \<longleftrightarrow> tmap key v t k = Some w" for w
      unfolding tmap_Some [OF u'] tmap_Some [OF u] using rows by blast
    then have "tmap key v (sql_update P f t) k = tmap key v t k"
      by (metis not_None_eq)
    with False show ?thesis by simp
  qed
qed

lemma tmap_delete:
  assumes "unique_on key t"
  shows "tmap key v (sql_delete P t) k =
    (if \<exists>r \<in> set t. key r = k \<and> P r then None else tmap key v t k)"
proof (cases "\<exists>r \<in> set t. key r = k \<and> P r")
  case True
  then have "\<forall>r \<in> set (sql_delete P t). key r \<noteq> k"
    using assms by (auto dest: unique_onD)
  with True show ?thesis by (simp add: tmap_None)
next
  case False
  have "tmap key v (sql_delete P t) k = Some w \<longleftrightarrow> tmap key v t k = Some w" for w
    using False unfolding tmap_Some [OF unique_on_delete [OF assms]] tmap_Some [OF assms] by auto
  then show ?thesis using False by (metis not_None_eq)
qed

section \<open>Components with state\<close>

locale invariant_system =
  fixes init :: "'s \<Rightarrow> bool"
    and step :: "'s \<Rightarrow> 's \<Rightarrow> bool"
    and inv :: "'s \<Rightarrow> bool"
  assumes init_inv: "init s \<Longrightarrow> inv s"
    and step_inv: "inv s \<Longrightarrow> step s t \<Longrightarrow> inv t"
begin

lemma steps_inv: "step\<^sup>*\<^sup>* s t \<Longrightarrow> inv s \<Longrightarrow> inv t"
  by (induction rule: rtranclp_induct) (auto intro: step_inv)

lemma reachable_inv: "init s \<Longrightarrow> step\<^sup>*\<^sup>* s t \<Longrightarrow> inv t"
  by (rule steps_inv) (auto intro: init_inv)

end

end
