(* ===== verification/Job_Model.thy ===== *)
theory Job_Model
  imports Prelude
begin

text \<open>
  The domain model (\<^verbatim>\<open>models/job.py\<close>), the typed store outcomes
  (\<^verbatim>\<open>storage/types.py\<close>) and the state of \<^verbatim>\<open>jobs.db\<close>: one record per table row and
  \<open>jobs_db\<close>, the record of its five tables. \<open>env\<close> holds what the stores take from outside
  \<^verbatim>\<open>jobs.db\<close>: the SHA-256 digest, the authenticated encryption of \<^verbatim>\<open>secret_envelope.py\<close>,
  the service settings and the sampled memory headroom.

  A store operation has type \<open>jobs_db \<Rightarrow> store_error + ('a \<times> jobs_db)\<close>. It runs in one
  transaction: an exception rolls everything back, so \<open>Inl\<close> carries no state and
  \<open>db_transaction\<close> puts the old one back; a compare-and-set that calls \<^verbatim>\<open>db.rollback()\<close>
  and returns gives the old state itself.
\<close>

section \<open>Enumerations and models of \<^verbatim>\<open>models/job.py\<close>\<close>

datatype job_status = Queued | Running | Complete | Partial | Failed | Cancelled | Deleting

definition status_value :: "job_status \<Rightarrow> string" where
  "status_value s = (case s of Queued \<Rightarrow> ''queued'' | Running \<Rightarrow> ''running''
     | Complete \<Rightarrow> ''complete'' | Partial \<Rightarrow> ''partial'' | Failed \<Rightarrow> ''failed''
     | Cancelled \<Rightarrow> ''cancelled'' | Deleting \<Rightarrow> ''deleting'')"

datatype error_type = Content_empty | Blocked_response | Challenge_page | Consent_gate
  | Login_gate | Rendered_empty | Selector_miss | Selector_engine_error | Navigation_timeout
  | Proxy_rejected | Http_not_found | Http_error | Network_error | Browser_error | Timeout
  | Budget_exceeded | Cache_miss | Domain_daily_limit | Domain_cooldown

datatype action_taken = Retry | Warn | Fail | Skip | Circuit_break

record job =
  job_id :: string
  project :: string
  name :: string
  status :: job_status
  config_yaml :: string
  created_at :: instant
  updated_at :: "instant option"
  schedule_cron :: "string option"
  schedule_timezone :: string
  schedule_enabled :: bool
  current_run_id :: "string option"
  current_trigger :: "string option"
  deletion_requested_at :: "instant option"
  delete_results_on_delete :: "bool option"
  schedule_failure_at :: "instant option"
  schedule_failure_code :: "string option"
  schedule_consecutive_failures :: int

section \<open>Store outcomes of \<^verbatim>\<open>storage/types.py\<close>\<close>

datatype idempotent_job_action = Idem_created | Idem_matched | Idem_conflict

record idempotent_job_outcome =
  io_action :: idempotent_job_action
  io_job :: job
  io_run_id :: string
  io_response_mode :: string

datatype scheduled_mutation_action = Sm_updated | Sm_unchanged | Sm_missing | Sm_not_scheduled
  | Sm_project_conflict | Sm_active_conflict | Sm_lifecycle_conflict

record scheduled_mutation_outcome =
  sm_action :: scheduled_mutation_action
  sm_previous :: "job option"
  sm_current :: "job option"

datatype cancellation_action = Ca_cancelled | Ca_already_cancelled | Ca_missing | Ca_conflict
  | Ca_run_conflict

record cancellation_outcome =
  co_action :: cancellation_action
  co_job_id :: string
  co_run_id :: "string option"
  co_prior_status :: "job_status option"
  co_resulting_status :: "job_status option"

definition queue_quiescence_required :: "cancellation_outcome \<Rightarrow> bool" where
  "queue_quiescence_required c \<longleftrightarrow>
     co_action c \<in> {Ca_cancelled, Ca_already_cancelled} \<and> co_run_id c \<noteq> None"

datatype deletion_reservation_action = Dr_created | Dr_resumed | Dr_missing | Dr_active_conflict
  | Dr_policy_conflict | Dr_pending_webhook_conflict

record deletion_reservation_outcome =
  dr_action :: deletion_reservation_action
  dr_job_id :: string
  dr_run_id :: "string option"
  dr_prior_status :: "job_status option"
  dr_delete_results :: bool
  dr_owned_run_ids :: "string list"

datatype deletion_finalization_action = Df_deleted | Df_missing | Df_not_reserved
  | Df_policy_conflict | Df_pending_webhook_conflict | Df_unexpired_idempotency_conflict

record deletion_finalization_outcome =
  df_action :: deletion_finalization_action
  df_job_id :: string

record history_prune_result =
  hp_pruned :: bool
  hp_webhook_tombstones_deleted :: nat

datatype recovery_action = Failed_missing_run | Reconciled_terminal_run | Failed_stale_heartbeat

record run_recovery =
  rr_job_id :: string
  rr_run_id :: "string option"
  rr_action :: recovery_action
  rr_last_heartbeat_at :: "instant option"

record stale_queued_job =
  sq_job_id :: string
  sq_run_id :: string
  sq_config_yaml :: string
  sq_queued_at :: instant
  sq_trigger :: string
  sq_schedule_cron :: "string option"
  sq_schedule_enabled :: bool

datatype terminal_intent_action = Ti_created | Ti_existing | Ti_not_required | Ti_race_noop

record terminal_intent_result =
  ti_action :: terminal_intent_action
  ti_parent_converged :: bool
  ti_delivery_id :: "string option"

record cleanup_backlog =
  cb_eligible_count :: nat
  cb_oldest_eligible_at :: "instant option"

section \<open>The rows of \<^verbatim>\<open>jobs.db\<close>\<close>

record job_row =
  j_job_id :: string
  j_project :: string
  j_name :: string
  j_status :: job_status
  j_config_yaml :: string
  j_config_hash :: string
  j_created_at :: instant
  j_updated_at :: "instant option"
  j_schedule_cron :: "string option"
  j_schedule_timezone :: string
  j_schedule_enabled :: bool
  j_current_run_id :: "string option"
  j_current_trigger :: "string option"
  j_deletion_requested_at :: "instant option"
  j_delete_results_on_delete :: "bool option"
  j_schedule_failure_at :: "instant option"
  j_schedule_failure_code :: "string option"
  j_schedule_consecutive_failures :: int
  j_lifetime_run_count :: nat
  j_last_run_at :: "instant option"

record run_row =
  r_run_id :: string
  r_job_id :: string
  r_status :: job_status
  r_trigger :: string
  r_config_hash :: string
  r_config_yaml :: "string option"
  r_started_at :: instant
  r_heartbeat_at :: "instant option"
  r_completed_at :: "instant option"
  r_record_count :: "int option"
  r_error_count :: int
  r_failure_code :: "string option"
  r_webhook_reconciled_at :: "instant option"
  r_webhook_reconciliation_failed_at :: "instant option"

record snapshot_row =
  q_run_id :: string
  q_job_id :: string
  q_trigger :: string
  q_config_hash :: string
  q_config_yaml :: string
  q_queued_at :: instant

record idempotency_row =
  i_caller_scope :: string
  i_key_digest :: string
  i_request_hash :: string
  i_job_id :: string
  i_run_id :: string
  i_response_mode :: string
  i_created_at :: instant
  i_expires_at :: instant

datatype delivery_status = Pending | Delivered | Dead

datatype failure_reason = Attempt_exhausted | Age_exhausted | Permanent_http_response
  | Unsafe_url | Non_retryable_failure | Decode_failure

record delivery_row =
  d_delivery_id :: string
  d_job_id :: string
  d_run_id :: "string option"
  d_event :: string
  d_url :: string
  d_headers_json :: string
  d_timeout_seconds :: seconds
  d_payload_json :: string
  d_status :: delivery_status
  d_attempts :: int
  d_next_attempt_at :: instant
  d_last_attempt_at :: "instant option"
  d_delivered_at :: "instant option"
  d_failed_at :: "instant option"
  d_failure_reason :: "failure_reason option"
  d_last_error :: "string option"
  d_scrubbed_at :: "instant option"
  d_created_at :: instant
  d_updated_at :: instant

record jobs_db =
  jobs :: "job_row table"
  job_runs :: "run_row table"
  queued_run_snapshots :: "snapshot_row table"
  webhook_deliveries :: "delivery_row table"
  scrape_idempotency :: "idempotency_row table"

definition empty_db :: jobs_db where
  "empty_db = \<lparr>jobs = [], job_runs = [], queued_run_snapshots = [],
     webhook_deliveries = [], scrape_idempotency = []\<rparr>"

section \<open>Errors, environment, transactions\<close>

datatype store_error =
    ValueError string
  | KeyError string
  | RuntimeError string
  | IntegrityError string
  | SecretDecryptionError
  | DuplicateJobError string string
  | AdmissionCapacityError string
  | RunOwnershipError string string string

record env =
  sha256 :: "string \<Rightarrow> string"
  protect_text :: "string \<Rightarrow> string \<Rightarrow> string"
  reveal_text :: "string \<Rightarrow> string \<Rightarrow> string option"
  workers_max_accepted_runs :: nat
  workers_memory_limit_mb :: int
  memory_headroom_mb :: "int \<Rightarrow> rat option"

text \<open>
  The documented contract of the authenticated encryption: what was protected for a
  purpose is revealed for that purpose. The first argument is the purpose, \<open>None\<close> is
  \<^verbatim>\<open>SecretDecryptionError\<close>.
\<close>

definition envelope_ok :: "env \<Rightarrow> bool" where
  "envelope_ok e \<longleftrightarrow> (\<forall>p x. reveal_text e p (protect_text e p x) = Some x)"

definition db_transaction :: "jobs_db \<Rightarrow> store_error + ('a \<times> jobs_db) \<Rightarrow> (store_error + 'a) \<times> jobs_db" where
  "db_transaction db r = (case r of Inl e \<Rightarrow> (Inl e, db) | Inr (a, db') \<Rightarrow> (Inr a, db'))"

definition terminal_run_statuses :: "job_status list" where
  "terminal_run_statuses = [Complete, Partial, Failed]"

abbreviation terminal :: "job_status \<Rightarrow> bool" where
  "terminal s \<equiv> s \<in> set terminal_run_statuses"

section \<open>Statements with constraints\<close>

fun str_contains :: "string \<Rightarrow> string \<Rightarrow> bool" where
  "str_contains sub [] = (sub = [])"
| "str_contains sub (c # cs) = (take (length sub) (c # cs) = sub \<or> str_contains sub cs)"

definition is_duplicate_job_integrity_error :: "string \<Rightarrow> bool" where
  "is_duplicate_job_integrity_error message \<longleftrightarrow>
     str_contains ''UNIQUE constraint failed: jobs.project, jobs.name'' message
     \<or> str_contains ''jobs.project, jobs.name'' message"

text \<open>\<^verbatim>\<open>INSERT INTO jobs\<close>, with the primary key and the \<^verbatim>\<open>UNIQUE (project, name)\<close> constraint.\<close>

definition insert_jobs_row :: "job_row \<Rightarrow> jobs_db \<Rightarrow> store_error + jobs_db" where
  "insert_jobs_row r db =
     (if sql_exists (\<lambda>x. j_job_id x = j_job_id r) (jobs db)
      then Inl (IntegrityError ''UNIQUE constraint failed: jobs.job_id'')
      else if sql_exists (\<lambda>x. j_project x = j_project r \<and> j_name x = j_name r) (jobs db)
      then Inl (IntegrityError ''UNIQUE constraint failed: jobs.project, jobs.name'')
      else Inr (db\<lparr>jobs := jobs db @ [r]\<rparr>))"

text \<open>
  The trigger of migration 017: every inserted run bumps its parent's lifetime counter
  and last start.
\<close>

definition lifetime_summary :: "run_row \<Rightarrow> job_row \<Rightarrow> job_row" where
  "lifetime_summary n j = j\<lparr>j_lifetime_run_count := j_lifetime_run_count j + 1,
     j_last_run_at := (case j_last_run_at j of None \<Rightarrow> Some (r_started_at n)
        | Some l \<Rightarrow> if r_started_at n > l then Some (r_started_at n) else Some l)\<rparr>"

definition add_run_row :: "run_row \<Rightarrow> jobs_db \<Rightarrow> jobs_db" where
  "add_run_row n db = db\<lparr>job_runs := job_runs db @ [n],
     jobs := sql_update (\<lambda>j. j_job_id j = r_job_id n) (lifetime_summary n) (jobs db)\<rparr>"

definition insert_run_row :: "run_row \<Rightarrow> jobs_db \<Rightarrow> store_error + jobs_db" where
  "insert_run_row n db =
     (if sql_exists (\<lambda>x. r_run_id x = r_run_id n) (job_runs db)
      then Inl (IntegrityError ''UNIQUE constraint failed: job_runs.run_id'')
      else Inr (add_run_row n db))"

definition insert_snapshot_row :: "snapshot_row \<Rightarrow> jobs_db \<Rightarrow> store_error + jobs_db" where
  "insert_snapshot_row q db =
     (if sql_exists (\<lambda>x. q_run_id x = q_run_id q) (queued_run_snapshots db)
      then Inl (IntegrityError ''UNIQUE constraint failed: queued_run_snapshots.run_id'')
      else if \<not> sql_exists (\<lambda>j. j_job_id j = q_job_id q) (jobs db)
      then Inl (IntegrityError ''FOREIGN KEY constraint failed'')
      else Inr (db\<lparr>queued_run_snapshots := queued_run_snapshots db @ [q]\<rparr>))"

definition insert_idempotency_row :: "idempotency_row \<Rightarrow> jobs_db \<Rightarrow> store_error + jobs_db" where
  "insert_idempotency_row i db =
     (if sql_exists (\<lambda>x. i_caller_scope x = i_caller_scope i \<and> i_key_digest x = i_key_digest i)
           (scrape_idempotency db)
      then Inl (IntegrityError
        ''UNIQUE constraint failed: scrape_idempotency.caller_scope, scrape_idempotency.key_digest'')
      else if \<not> sql_exists (\<lambda>j. j_job_id j = i_job_id i) (jobs db)
      then Inl (IntegrityError ''FOREIGN KEY constraint failed'')
      else Inr (db\<lparr>scrape_idempotency := scrape_idempotency db @ [i]\<rparr>))"

text \<open>
  \<^verbatim>\<open>DELETE FROM jobs\<close>: the foreign keys of \<^verbatim>\<open>queued_run_snapshots\<close> and
  \<^verbatim>\<open>scrape_idempotency\<close> cascade (\<^verbatim>\<open>PRAGMA foreign_keys = ON\<close>).
\<close>

definition delete_jobs :: "(job_row \<Rightarrow> bool) \<Rightarrow> jobs_db \<Rightarrow> jobs_db" where
  "delete_jobs P db =
     (let gone = map j_job_id (filter P (jobs db)) in
      db\<lparr>jobs := sql_delete P (jobs db),
         queued_run_snapshots := sql_delete (\<lambda>q. q_job_id q \<in> set gone) (queued_run_snapshots db),
         scrape_idempotency := sql_delete (\<lambda>i. i_job_id i \<in> set gone) (scrape_idempotency db)\<rparr>)"

definition update_jobs :: "(job_row \<Rightarrow> bool) \<Rightarrow> (job_row \<Rightarrow> job_row) \<Rightarrow> jobs_db \<Rightarrow> jobs_db" where
  "update_jobs P f db = db\<lparr>jobs := sql_update P f (jobs db)\<rparr>"

definition update_runs :: "(run_row \<Rightarrow> bool) \<Rightarrow> (run_row \<Rightarrow> run_row) \<Rightarrow> jobs_db \<Rightarrow> jobs_db" where
  "update_runs P f db = db\<lparr>job_runs := sql_update P f (job_runs db)\<rparr>"

definition delete_snapshots :: "(snapshot_row \<Rightarrow> bool) \<Rightarrow> jobs_db \<Rightarrow> jobs_db" where
  "delete_snapshots P db = db\<lparr>queued_run_snapshots := sql_delete P (queued_run_snapshots db)\<rparr>"

section \<open>Row mapping\<close>

definition jobs_purpose :: "string \<Rightarrow> string" where
  "jobs_purpose jid = ''jobs.config_yaml:'' @ jid"

definition queued_purpose :: "string \<Rightarrow> string" where
  "queued_purpose rid = ''queued_run_snapshots.config_yaml:'' @ rid"

definition runs_purpose :: "string \<Rightarrow> string" where
  "runs_purpose rid = ''job_runs.config_yaml:'' @ rid"

definition row_to_job :: "env \<Rightarrow> job_row \<Rightarrow> store_error + job" where
  "row_to_job e r = (case reveal_text e (jobs_purpose (j_job_id r)) (j_config_yaml r) of
       None \<Rightarrow> Inl SecretDecryptionError
     | Some yaml \<Rightarrow> Inr \<lparr>job_id = j_job_id r, project = j_project r, name = j_name r,
         status = j_status r, config_yaml = yaml, created_at = j_created_at r,
         updated_at = j_updated_at r, schedule_cron = j_schedule_cron r,
         schedule_timezone = (if j_schedule_timezone r = [] then ''UTC'' else j_schedule_timezone r),
         schedule_enabled = j_schedule_enabled r, current_run_id = j_current_run_id r,
         current_trigger = j_current_trigger r,
         deletion_requested_at = j_deletion_requested_at r,
         delete_results_on_delete = j_delete_results_on_delete r,
         schedule_failure_at = j_schedule_failure_at r,
         schedule_failure_code = j_schedule_failure_code r,
         schedule_consecutive_failures = j_schedule_consecutive_failures r\<rparr>)"

definition reveal_verified :: "env \<Rightarrow> string \<Rightarrow> string \<Rightarrow> string \<Rightarrow> store_error + string option" where
  "reveal_verified e stored purpose expected_hash =
     (case reveal_text e purpose stored of
        None \<Rightarrow> Inl SecretDecryptionError
      | Some yaml \<Rightarrow> Inr (if sha256 e yaml \<noteq> expected_hash then None else Some yaml))"

definition find_job :: "jobs_db \<Rightarrow> string \<Rightarrow> job_row option" where
  "find_job db jid = sql_first (\<lambda>j. j_job_id j = jid) (jobs db)"

definition find_run :: "jobs_db \<Rightarrow> string \<Rightarrow> string \<Rightarrow> run_row option" where
  "find_run db jid rid = sql_first (\<lambda>r. r_job_id r = jid \<and> r_run_id r = rid) (job_runs db)"

definition find_snapshot :: "jobs_db \<Rightarrow> string \<Rightarrow> string \<Rightarrow> snapshot_row option" where
  "find_snapshot db jid rid =
     sql_first (\<lambda>q. q_job_id q = jid \<and> q_run_id q = rid) (queued_run_snapshots db)"

end
