(* ===== verification/Lifecycle.thy ===== *)
theory Lifecycle
  imports Job_Model
begin

text \<open>
  The abstract specification of the job store: what a job, a run and a queued snapshot are
  to the rest of the service, without columns, timestamps and encryption. A job is its
  status and current run, a run is its parent and status, a snapshot is the job it belongs
  to. \<open>life_step n\<close> has one rule per kind of lifecycle change the store makes, with
  \<open>n\<close> the admission ceiling. \<open>displace_step n\<close> is the one more change that \<open>queue_run\<close> makes when its caller
  expects the job to be running: the job is queued again under a new run, and the old run stays running
  without an owner.

  \<open>life_inv\<close> is what the service relies on: the current run of a running job is running,
  every queued delivery has its configuration snapshot, runs and
  snapshots have a parent, and at most \<open>n\<close> jobs hold an accepted run.
  \<open>allowed_status\<close> and \<open>allowed_run_status\<close> are the transition tables of the lifecycle.
  The theory \<open>Store_Refinement\<close> shows that the store's transactions implement these steps.
\<close>

record lifecycle =
  job_state :: "string \<rightharpoonup> job_status \<times> string option"
  run_state :: "string \<rightharpoonup> string \<times> job_status"
  snap_state :: "string \<rightharpoonup> string"

definition empty_lifecycle :: lifecycle where
  "empty_lifecycle = \<lparr>job_state = Map.empty, run_state = Map.empty, snap_state = Map.empty\<rparr>"

definition active_jobs :: "lifecycle \<Rightarrow> string set" where
  "active_jobs s = {jid. \<exists>st rid. job_state s jid = Some (st, Some rid) \<and> st \<in> {Queued, Running}}"

definition drop_job :: "string \<Rightarrow> ('k \<rightharpoonup> 'v) \<Rightarrow> ('v \<Rightarrow> string) \<Rightarrow> ('k \<rightharpoonup> 'v)" where
  "drop_job jid m parent = (\<lambda>k. case m k of None \<Rightarrow> None
     | Some v \<Rightarrow> if parent v = jid then None else Some v)"

definition drop_snap :: "string \<Rightarrow> string \<Rightarrow> (string \<rightharpoonup> string) \<Rightarrow> (string \<rightharpoonup> string)" where
  "drop_snap jid rid m = (if m rid = Some jid then m(rid := None) else m)"

definition fail_running :: "string set \<Rightarrow> lifecycle \<Rightarrow> lifecycle" where
  "fail_running F s = s\<lparr>
     job_state := (\<lambda>jid. if jid \<in> F then map_option (\<lambda>(st, r). (Failed, r)) (job_state s jid)
        else job_state s jid),
     run_state := (\<lambda>rid. case run_state s rid of None \<Rightarrow> None
        | Some (jid, st) \<Rightarrow> Some (jid, if jid \<in> F \<and> st = Running \<and> (\<exists>st'. job_state s jid = Some (st', Some rid)) then Failed else st))\<rparr>"

inductive life_step :: "nat \<Rightarrow> lifecycle \<Rightarrow> lifecycle \<Rightarrow> bool" for n where
  submit_idle: "job_state s jid = None \<Longrightarrow>
     life_step n s (s\<lparr>job_state := (job_state s)(jid \<mapsto> (Queued, None))\<rparr>)"
| submit_run: "job_state s jid = None \<Longrightarrow> snap_state s rid = None \<Longrightarrow>
     card (insert jid (active_jobs s)) \<le> n \<Longrightarrow>
     life_step n s (s\<lparr>job_state := (job_state s)(jid \<mapsto> (Queued, Some rid)),
                      snap_state := (snap_state s)(rid \<mapsto> jid)\<rparr>)"
| enqueue: "job_state s jid = Some (st, r) \<Longrightarrow> terminal st \<or> st = Queued \<Longrightarrow>
     snap_state s rid = None \<Longrightarrow> card (insert jid (active_jobs s)) \<le> n \<Longrightarrow>
     life_step n s (s\<lparr>job_state := (job_state s)(jid \<mapsto> (Queued, Some rid)),
                      snap_state := (snap_state s)(rid \<mapsto> jid)\<rparr>)"
| claim: "job_state s jid = Some (Queued, Some rid) \<Longrightarrow> run_state s rid = None \<Longrightarrow>
     life_step n s (s\<lparr>job_state := (job_state s)(jid \<mapsto> (Running, Some rid)),
                      run_state := (run_state s)(rid \<mapsto> (jid, Running)),
                      snap_state := drop_snap jid rid (snap_state s)\<rparr>)"
| settle: "job_state s jid = Some (Running, Some rid) \<Longrightarrow> run_state s rid = Some (jid, Running) \<Longrightarrow>
     terminal st \<or> st = Cancelled \<Longrightarrow>
     life_step n s (s\<lparr>job_state := (job_state s)(jid \<mapsto> (st, Some rid)),
                      run_state := (run_state s)(rid \<mapsto> (jid, st))\<rparr>)"
| abort_queued: "job_state s jid = Some (Queued, Some rid) \<Longrightarrow> run_state s rid = None \<Longrightarrow>
     life_step n s (s\<lparr>job_state := (job_state s)(jid \<mapsto> (Failed, Some rid)),
                      run_state := (run_state s)(rid \<mapsto> (jid, Failed)),
                      snap_state := drop_snap jid rid (snap_state s)\<rparr>)"
| cancel_queued: "job_state s jid = Some (Queued, r) \<Longrightarrow>
     life_step n s (s\<lparr>job_state := (job_state s)(jid \<mapsto> (Cancelled, r))\<rparr>)"
| sweep: "\<forall>jid \<in> F. \<exists>rid. job_state s jid = Some (Running, Some rid) \<and> run_state s rid = Some (jid, Running) \<Longrightarrow>
     life_step n s (fail_running F s)"
| missed_fire: "job_state s jid = Some (st, r) \<Longrightarrow> st \<notin> {Cancelled, Deleting} \<Longrightarrow>
     run_state s rid = None \<Longrightarrow>
     life_step n s (s\<lparr>run_state := (run_state s)(rid \<mapsto> (jid, Failed))\<rparr>)"
| missed_fail: "job_state s jid = Some (st, r) \<Longrightarrow>
     terminal st \<or> (st = Queued \<and> r \<in> {None, Some rid}) \<Longrightarrow> run_state s rid \<in> {None, Some (jid, Failed)} \<Longrightarrow>
     life_step n s (s\<lparr>job_state := (job_state s)(jid \<mapsto> (Failed, Some rid)),
                      run_state := (run_state s)(rid \<mapsto> (jid, Failed))\<rparr>)"
| reserve: "job_state s jid = Some (st, r) \<Longrightarrow> terminal st \<or> st = Cancelled \<Longrightarrow>
     life_step n s (s\<lparr>job_state := (job_state s)(jid \<mapsto> (Deleting, r))\<rparr>)"
| purge: "job_state s jid = Some (Deleting, r) \<Longrightarrow>
     life_step n s (s\<lparr>job_state := (job_state s)(jid := None),
                      run_state := drop_job jid (run_state s) fst,
                      snap_state := drop_job jid (snap_state s) id\<rparr>)"
| rollback: "job_state s jid = Some (Queued, r) \<Longrightarrow> (\<forall>rid st. run_state s rid \<noteq> Some (jid, st)) \<Longrightarrow>
     life_step n s (s\<lparr>job_state := (job_state s)(jid := None),
                      snap_state := drop_job jid (snap_state s) id\<rparr>)"
| prune: "run_state s rid = Some (jid, st) \<Longrightarrow> terminal st \<Longrightarrow> job_state s jid = Some (st', r) \<Longrightarrow>
     r \<noteq> Some rid \<Longrightarrow>
     life_step n s (s\<lparr>run_state := (run_state s)(rid := None)\<rparr>)"

inductive_cases life_stepE: "life_step n s t"

inductive displace_step :: "nat \<Rightarrow> lifecycle \<Rightarrow> lifecycle \<Rightarrow> bool" for n where
  displace: "job_state s jid = Some (Running, r) \<Longrightarrow> snap_state s rid = None \<Longrightarrow> card (insert jid (active_jobs s)) \<le> n \<Longrightarrow>
     displace_step n s (s\<lparr>job_state := (job_state s)(jid \<mapsto> (Queued, Some rid)),
                          snap_state := (snap_state s)(rid \<mapsto> jid)\<rparr>)"

definition any_step :: "nat \<Rightarrow> lifecycle \<Rightarrow> lifecycle \<Rightarrow> bool" where
  "any_step n s t \<longleftrightarrow> life_step n s t \<or> displace_step n s t"

section \<open>What the service relies on\<close>

definition lease_inv :: "lifecycle \<Rightarrow> bool" where
  "lease_inv s \<longleftrightarrow>
     (\<forall>jid rid. job_state s jid = Some (Running, Some rid) \<longrightarrow> run_state s rid = Some (jid, Running))
     \<and> (\<forall>jid. job_state s jid \<noteq> Some (Running, None))"

definition snapshot_inv :: "lifecycle \<Rightarrow> bool" where
  "snapshot_inv s \<longleftrightarrow>
     (\<forall>jid rid. job_state s jid = Some (Queued, Some rid) \<longrightarrow> snap_state s rid = Some jid)"

definition parent_inv :: "lifecycle \<Rightarrow> bool" where
  "parent_inv s \<longleftrightarrow>
     (\<forall>rid jid st. run_state s rid = Some (jid, st) \<longrightarrow>
        job_state s jid \<noteq> None \<and> st \<notin> {Queued, Deleting})
     \<and> (\<forall>rid jid. snap_state s rid = Some jid \<longrightarrow> job_state s jid \<noteq> None)"

definition admission_inv :: "nat \<Rightarrow> lifecycle \<Rightarrow> bool" where
  "admission_inv n s \<longleftrightarrow> finite (dom (job_state s)) \<and> card (active_jobs s) \<le> n"

definition life_inv :: "nat \<Rightarrow> lifecycle \<Rightarrow> bool" where
  "life_inv n s \<longleftrightarrow> lease_inv s \<and> snapshot_inv s \<and> parent_inv s \<and> admission_inv n s"

section \<open>Transition tables\<close>

definition allowed_status :: "job_status \<Rightarrow> job_status \<Rightarrow> bool" where
  "allowed_status a b \<longleftrightarrow> a = b \<or> (case a of
       Queued \<Rightarrow> b \<in> {Running, Failed, Cancelled}
     | Running \<Rightarrow> terminal b \<or> b = Cancelled
     | Cancelled \<Rightarrow> b = Deleting
     | Deleting \<Rightarrow> False
     | _ \<Rightarrow> b \<in> {Queued, Failed, Deleting})"

definition allowed_run_status :: "job_status \<Rightarrow> job_status \<Rightarrow> bool" where
  "allowed_run_status a b \<longleftrightarrow> a = b \<or> (a = Running \<and> (terminal b \<or> b = Cancelled))"

section \<open>Lemmas\<close>

lemmas life_inv_defs = life_inv_def lease_inv_def snapshot_inv_def parent_inv_def admission_inv_def

lemma drop_job_simps [simp]:
  "drop_job jid m parent k = Some v \<longleftrightarrow> m k = Some v \<and> parent v \<noteq> jid"
  "drop_job jid m parent k = None \<longleftrightarrow> m k = None \<or> (\<exists>v. m k = Some v \<and> parent v = jid)"
  by (auto simp: drop_job_def split: option.splits)

lemma drop_snap_Some:
  "drop_snap jid rid m k = Some v \<longleftrightarrow> m k = Some v \<and> \<not> (k = rid \<and> v = jid)"
  by (auto simp: drop_snap_def)

lemma fail_running_simps [simp]:
  "snap_state (fail_running F s) = snap_state s"
  "job_state (fail_running F s) jid = Some (st, r) \<longleftrightarrow>
     (if jid \<in> F then st = Failed \<and> (\<exists>st'. job_state s jid = Some (st', r)) else job_state s jid = Some (st, r))"
  "run_state (fail_running F s) rid = Some (jid, st) \<longleftrightarrow>
     (if jid \<in> F \<and> (\<exists>st'. job_state s jid = Some (st', Some rid)) then st \<noteq> Running \<and> (run_state s rid = Some (jid, st)
        \<or> (st = Failed \<and> run_state s rid = Some (jid, Running))) else run_state s rid = Some (jid, st))"
  "job_state (fail_running F s) jid = None \<longleftrightarrow> job_state s jid = None"
  "dom (job_state (fail_running F s)) = dom (job_state s)"
  by (auto simp: fail_running_def split: option.splits if_splits)

lemma terminal_iff: "terminal s \<longleftrightarrow> s = Complete \<or> s = Partial \<or> s = Failed"
  by (auto simp: terminal_run_statuses_def)

lemma finite_active_jobs: "finite (dom (job_state s)) \<Longrightarrow> finite (active_jobs s)"
  by (rule finite_subset [of _ "dom (job_state s)"]) (auto simp: active_jobs_def)

lemma active_jobs_upd:
  "active_jobs (s\<lparr>job_state := (job_state s)(jid \<mapsto> (st, r)), snap_state := y\<rparr>) =
     (if st \<in> {Queued, Running} \<and> r \<noteq> None then insert jid (active_jobs s) else active_jobs s - {jid})"
  by (auto simp: active_jobs_def split: if_splits)

lemma lease_invD:
  assumes "lease_inv s"
  shows "job_state s jid = Some (Running, Some rid) \<Longrightarrow> run_state s rid = Some (jid, Running)"
    and "job_state s jid \<noteq> Some (Running, None)"
  using assms by (auto simp: lease_inv_def)

lemma lease_invI:
  assumes "\<And>jid rid. job_state s jid = Some (Running, Some rid) \<Longrightarrow> run_state s rid = Some (jid, Running)"
    and "\<And>jid. job_state s jid \<noteq> Some (Running, None)"
  shows "lease_inv s"
  using assms by (simp add: lease_inv_def)

lemma lease_inv_step: "life_step n s t \<Longrightarrow> lease_inv s \<Longrightarrow> lease_inv t"
proof (induction rule: life_step.induct)
  case (settle s jid rid st)
  show ?case
  proof (rule lease_invI)
    fix jid' rid'
    assume "job_state (s\<lparr>job_state := (job_state s)(jid \<mapsto> (st, Some rid)),
      run_state := (run_state s)(rid \<mapsto> (jid, st))\<rparr>) jid' = Some (Running, Some rid')"
    then have "jid' \<noteq> jid" "job_state s jid' = Some (Running, Some rid')"
      using settle by (auto simp: terminal_iff split: if_splits)
    then show "run_state (s\<lparr>job_state := (job_state s)(jid \<mapsto> (st, Some rid)),
      run_state := (run_state s)(rid \<mapsto> (jid, st))\<rparr>) rid' = Some (jid', Running)"
      using settle lease_invD(1) [of s jid' rid'] by auto
  qed (use settle in \<open>auto simp: terminal_iff lease_invD split: if_splits\<close>)
next
  case (sweep F s)
  then show ?case by (fastforce simp: lease_inv_def split: if_splits)
next
  case (missed_fail s jid st r rid)
  have "rid' \<noteq> rid" if "job_state s jid' = Some (Running, Some rid')" for jid' rid'
    using missed_fail lease_invD(1) [OF _ that] by auto
  with missed_fail show ?case by (intro lease_invI) (auto simp: lease_invD split: if_splits)
next
  case (prune s rid jid st st' r)
  then show ?case by (intro lease_invI) (auto simp: lease_invD terminal_iff dest: lease_invD(1))
qed (fastforce simp: lease_inv_def terminal_iff split: if_splits)+

lemma snapshot_inv_step: "life_step n s t \<Longrightarrow> snapshot_inv s \<Longrightarrow> snapshot_inv t"
  by (induction rule: life_step.induct)
    (auto simp: snapshot_inv_def drop_snap_Some drop_job_simps(1) terminal_iff split: if_splits)

lemma parent_inv_step: "life_step n s t \<Longrightarrow> parent_inv s \<Longrightarrow> parent_inv t"
  by (induction rule: life_step.induct)
    (auto simp: parent_inv_def drop_snap_Some drop_job_simps(1) terminal_iff split: if_splits)

lemma active_shrinks:
  assumes "admission_inv n s" and "finite (dom (job_state t))" and "active_jobs t \<subseteq> active_jobs s"
  shows "admission_inv n t"
proof -
  have "card (active_jobs t) \<le> card (active_jobs s)"
    using assms by (intro card_mono finite_active_jobs) (auto simp: admission_inv_def)
  with assms show ?thesis by (simp add: admission_inv_def)
qed

lemma admission_inv_step: "life_step n s t \<Longrightarrow> admission_inv n s \<Longrightarrow> admission_inv n t"
proof (induction rule: life_step.induct)
  case (submit_run s jid rid)
  then show ?case by (simp add: admission_inv_def active_jobs_upd)
next
  case (enqueue s jid st r rid)
  then show ?case by (simp add: admission_inv_def active_jobs_upd)
qed (rule active_shrinks, assumption, simp add: admission_inv_def,
     fastforce simp: active_jobs_def terminal_iff split: if_splits)+

lemma displace_inv: "displace_step n s t \<Longrightarrow> life_inv n s \<Longrightarrow> life_inv n t"
proof (induction rule: displace_step.induct)
  case (displace s jid r rid)
  let ?t = "s\<lparr>job_state := (job_state s)(jid \<mapsto> (Queued, Some rid)), snap_state := (snap_state s)(rid \<mapsto> jid)\<rparr>"
  have "lease_inv ?t" "snapshot_inv ?t" "parent_inv ?t"
    using displace by (auto simp: life_inv_defs)
  moreover have "admission_inv n ?t" using displace by (simp add: life_inv_def admission_inv_def active_jobs_upd)
  ultimately show ?case by (simp add: life_inv_def)
qed

lemma life_inv_step: "life_inv n s \<Longrightarrow> any_step n s t \<Longrightarrow> life_inv n t"
  by (auto simp: any_step_def displace_inv) (simp add: life_inv_def lease_inv_step snapshot_inv_step parent_inv_step admission_inv_step)

lemma life_inv_empty: "life_inv n empty_lifecycle"
  by (simp add: life_inv_defs empty_lifecycle_def active_jobs_def)

interpretation life: invariant_system "\<lambda>s. s = empty_lifecycle" "any_step n" "life_inv n" for n
  by unfold_locales (auto intro: life_inv_empty life_inv_step)

lemma status_step:
  assumes "life_step n s t" and "lease_inv s"
    and "job_state s jid = Some (a, r)" and "job_state t jid = Some (b, r')"
  shows "allowed_status a b"
  using assms by (induction rule: life_step.induct)
    (auto simp: allowed_status_def terminal_iff split: if_splits)

lemma run_status_step:
  assumes "life_step n s t" and "run_state s rid = Some (jid, a)" and "run_state t rid = Some (jid', b)"
  shows "jid' = jid \<and> allowed_run_status a b"
  using assms by (induction rule: life_step.induct)
    (auto simp: allowed_run_status_def terminal_iff split: if_splits)

lemma orphan_step:
  assumes "life_step n s t" and "run_state t rid = Some (jid, Running)"
    and "job_state t jid \<noteq> Some (Running, Some rid)"
  shows "run_state s rid = Some (jid, Running) \<and> job_state s jid \<noteq> Some (Running, Some rid)"
  using assms by (induction rule: life_step.induct)
    (auto simp: terminal_iff split: if_splits)

end
