(* ===== verification/Webhook_Outbox.thy ===== *)
theory Webhook_Outbox
  imports Job_Model
begin

text \<open>
  The durable webhook outbox, \<^verbatim>\<open>storage/webhook_outbox.py\<close>: rows of
  \<^verbatim>\<open>webhook_deliveries\<close> and the operations of \<open>SQLiteWebhookOutboxStore\<close>. A row is
  \<open>Pending\<close> until it is \<open>Delivered\<close> or dead-lettered (\<open>Dead\<close>, stored as
  \<^verbatim>\<open>'failed'\<close>); every write is a compare-and-set on \<open>Pending\<close>. Decoding a stored row
  (decryption and JSON parsing, \<open>row_to_webhook_delivery\<close>) is the argument \<open>decode\<close> of
  the operations that read rows back: \<open>Inr None\<close> is a malformed row, which they quarantine, and \<open>Inl\<close> an
  exception that is not caught, such as \<^verbatim>\<open>SecretDecryptionError\<close>, which they pass on.

  Shown here: terminal rows are never reopened by any operation, an attempt number can be
  reserved once only, retention scrubs every secret of what it selects and nothing else,
  and the batch reader returns the first decodable rows in schedule order.
\<close>

section \<open>Values and their JSON text\<close>

datatype json = JNull | JBool bool | JInt int | JFloat string | JStr string
  | JList "json list" | JObj "(string \<times> json) list"

definition hex_digit :: "nat \<Rightarrow> char" where
  "hex_digit n = (if n < 10 then char_of (48 + n) else char_of (87 + n))"

definition json_escape :: "char \<Rightarrow> string" where
  "json_escape c = (let n = of_char c :: nat in
     if n = 34 then [CHR 0x5C, CHR 0x22]
     else if n = 92 then [CHR 0x5C, CHR 0x5C]
     else if n = 10 then [CHR 0x5C, CHR ''n'']
     else if n = 13 then [CHR 0x5C, CHR ''r'']
     else if n = 9 then [CHR 0x5C, CHR ''t'']
     else if n = 8 then [CHR 0x5C, CHR ''b'']
     else if n = 12 then [CHR 0x5C, CHR ''f'']
     else if n < 32 \<or> n > 126
     then [CHR 0x5C, CHR ''u'', CHR ''0'', CHR ''0'', hex_digit (n div 16), hex_digit (n mod 16)]
     else [c])"

definition json_string :: "string \<Rightarrow> string" where
  "json_string s = CHR 0x22 # concat (map json_escape s) @ [CHR 0x22]"

fun digits_of :: "nat \<Rightarrow> string" where
  "digits_of n = (if n < 10 then [char_of (48 + n)] else digits_of (n div 10) @ [char_of (48 + n mod 10)])"

declare digits_of.simps [simp del]

definition int_text :: "int \<Rightarrow> string" where
  "int_text i = (if i < 0 then CHR ''-'' # digits_of (nat (- i)) else digits_of (nat i))"

fun intersperse_comma :: "string list \<Rightarrow> string" where
  "intersperse_comma [] = []"
| "intersperse_comma [s] = s"
| "intersperse_comma (s # t # ss) = s @ CHR '','' # intersperse_comma (t # ss)"

fun dumps_json :: "json \<Rightarrow> string" where
  "dumps_json JNull = ''null''"
| "dumps_json (JBool b) = (if b then ''true'' else ''false'')"
| "dumps_json (JInt i) = int_text i"
| "dumps_json (JFloat repr) = repr"
| "dumps_json (JStr s) = json_string s"
| "dumps_json (JList xs) = CHR ''['' # intersperse_comma (map dumps_json xs) @ '']''"
| "dumps_json (JObj kvs) = CHR ''{'' # intersperse_comma
     (map (\<lambda>(k, v). json_string k @ CHR '':'' # v)
        (sort_key fst (map (\<lambda>(k, v). (k, dumps_json v)) kvs))) @ ''}''"

record delivery_create =
  w_delivery_id :: string
  w_job_id :: string
  w_run_id :: "string option"
  w_event :: string
  w_url :: string
  w_headers :: "(string \<times> string) list"
  w_timeout_seconds :: seconds
  w_payload :: "(string \<times> json) list"
  w_next_attempt_at :: instant

section \<open>Inserting and updating rows\<close>

definition webhook_purpose :: "string \<Rightarrow> string \<Rightarrow> string" where
  "webhook_purpose column did = ''webhook.'' @ column @ '':'' @ did"

definition new_delivery_row :: "env \<Rightarrow> delivery_create \<Rightarrow> instant \<Rightarrow> delivery_row" where
  "new_delivery_row e w created =
     \<lparr>d_delivery_id = w_delivery_id w, d_job_id = w_job_id w, d_run_id = w_run_id w,
      d_event = w_event w,
      d_url = protect_text e (webhook_purpose ''url'' (w_delivery_id w)) (w_url w),
      d_headers_json = protect_text e (webhook_purpose ''headers_json'' (w_delivery_id w))
        (dumps_json (JObj (map (\<lambda>(k, v). (k, JStr v)) (w_headers w)))),
      d_timeout_seconds = w_timeout_seconds w,
      d_payload_json = protect_text e (webhook_purpose ''payload_json'' (w_delivery_id w))
        (dumps_json (JObj (w_payload w))),
      d_status = Pending, d_attempts = 0, d_next_attempt_at = w_next_attempt_at w,
      d_last_attempt_at = None, d_delivered_at = None, d_failed_at = None,
      d_failure_reason = None, d_last_error = None, d_scrubbed_at = None,
      d_created_at = created, d_updated_at = created\<rparr>"

definition insert_webhook_delivery ::
    "env \<Rightarrow> delivery_create \<Rightarrow> instant \<Rightarrow> jobs_db \<Rightarrow> store_error + (bool \<times> jobs_db)" where
  "insert_webhook_delivery e w created db =
     (if map_of (w_payload w) ''delivery_id'' \<noteq> Some (JStr (w_delivery_id w))
      then Inl (ValueError ''Webhook payload delivery_id must match the durable row ID'')
      else if sql_exists (\<lambda>d. d_delivery_id d = w_delivery_id w) (webhook_deliveries db)
      then Inr (False, db)
      else Inr (True, db\<lparr>webhook_deliveries :=
             webhook_deliveries db @ [new_delivery_row e w created]\<rparr>))"

definition enqueue_delivery ::
    "env \<Rightarrow> delivery_create \<Rightarrow> instant \<Rightarrow> jobs_db \<Rightarrow> store_error + (unit \<times> jobs_db)" where
  "enqueue_delivery e w now db = (case insert_webhook_delivery e w now db of
       Inl x \<Rightarrow> Inl x | Inr (_, db') \<Rightarrow> Inr ((), db'))"

definition update_deliveries ::
    "(delivery_row \<Rightarrow> bool) \<Rightarrow> (delivery_row \<Rightarrow> delivery_row) \<Rightarrow> jobs_db \<Rightarrow> jobs_db" where
  "update_deliveries P f db = db\<lparr>webhook_deliveries := sql_update P f (webhook_deliveries db)\<rparr>"

definition pending_update ::
    "string \<Rightarrow> (delivery_row \<Rightarrow> delivery_row) \<Rightarrow> int option \<Rightarrow> jobs_db \<Rightarrow> bool \<times> jobs_db" where
  "pending_update did assign expected_attempts db =
     (let P = (\<lambda>d. d_delivery_id d = did \<and> d_status d = Pending
                 \<and> (case expected_attempts of None \<Rightarrow> True | Some n \<Rightarrow> d_attempts d = n))
      in (rowcount P (webhook_deliveries db) = 1, update_deliveries P assign db))"

definition quarantine_row :: "instant \<Rightarrow> delivery_row \<Rightarrow> delivery_row" where
  "quarantine_row t d = d\<lparr>d_url := [], d_headers_json := ''{}'', d_timeout_seconds := 0,
     d_payload_json := ''{}'', d_status := Dead,
     d_attempts := (if d_attempts d \<ge> 0 then d_attempts d else 0),
     d_next_attempt_at := t, d_last_attempt_at := None, d_delivered_at := None,
     d_failed_at := Some t, d_failure_reason := Some Decode_failure, d_last_error := None,
     d_scrubbed_at := Some t, d_created_at := t, d_updated_at := t\<rparr>"

definition quarantine_malformed_row :: "string option \<Rightarrow> instant \<Rightarrow> jobs_db \<Rightarrow> bool \<times> jobs_db" where
  "quarantine_malformed_row did t db = (case did of None \<Rightarrow> (False, db)
     | Some k \<Rightarrow> (let P = (\<lambda>d. d_delivery_id d = k \<and> d_status d = Pending)
         in (rowcount P (webhook_deliveries db) = 1, update_deliveries P (quarantine_row t) db)))"

definition quarantine_malformed_delivery :: "string \<Rightarrow> instant \<Rightarrow> jobs_db \<Rightarrow> bool \<times> jobs_db" where
  "quarantine_malformed_delivery did t db = quarantine_malformed_row (Some did) t db"

text \<open>The reservation is committed before the row is decoded, so it stays when the decoder raises.\<close>

definition begin_attempt ::
    "(delivery_row \<Rightarrow> store_error + 'd option) \<Rightarrow> string \<Rightarrow> int \<Rightarrow> instant \<Rightarrow> jobs_db \<Rightarrow> (store_error + 'd option) \<times> jobs_db" where
  "begin_attempt decode did expected_attempts attempted_at db =
     (let P = (\<lambda>d. d_delivery_id d = did \<and> d_status d = Pending \<and> d_attempts d = expected_attempts)
      in if rowcount P (webhook_deliveries db) \<noteq> 1 then (Inr None, db)
         else let db1 = update_deliveries P (\<lambda>d. d\<lparr>d_attempts := d_attempts d + 1,
                    d_last_attempt_at := Some attempted_at, d_updated_at := attempted_at\<rparr>) db
              in case sql_first (\<lambda>d. d_delivery_id d = did) (webhook_deliveries db1) of
                   None \<Rightarrow> (Inr None, db1)
                 | Some row \<Rightarrow> (case decode row of
                       Inl x \<Rightarrow> (Inl x, db1)
                     | Inr (Some delivery) \<Rightarrow> (Inr (Some delivery), db1)
                     | Inr None \<Rightarrow> (Inr None,
                         snd (quarantine_malformed_delivery (d_delivery_id row) attempted_at db1))))"

definition counted_attempts :: "int option \<Rightarrow> int \<Rightarrow> instant \<Rightarrow> delivery_row \<Rightarrow> delivery_row" where
  "counted_attempts expected_attempts attempts t d = (case expected_attempts of
       None \<Rightarrow> d\<lparr>d_attempts := d_attempts d + attempts, d_last_attempt_at := Some t\<rparr>
     | Some _ \<Rightarrow> d)"

definition mark_delivered ::
    "string \<Rightarrow> instant \<Rightarrow> int option \<Rightarrow> int \<Rightarrow> jobs_db \<Rightarrow> bool \<times> jobs_db" where
  "mark_delivered did t expected_attempts attempts db = pending_update did
     (\<lambda>d. counted_attempts expected_attempts attempts t
        (d\<lparr>d_status := Delivered, d_delivered_at := Some t, d_failed_at := None,
           d_failure_reason := None, d_last_error := None, d_updated_at := t\<rparr>))
     expected_attempts db"

definition mark_retryable_failure ::
    "env \<Rightarrow> string \<Rightarrow> instant \<Rightarrow> instant \<Rightarrow> string \<Rightarrow> int option \<Rightarrow> int \<Rightarrow> jobs_db \<Rightarrow> bool \<times> jobs_db" where
  "mark_retryable_failure e did attempted_at next_at last_error expected_attempts attempts db =
     pending_update did
       (\<lambda>d. counted_attempts expected_attempts attempts attempted_at
          (d\<lparr>d_next_attempt_at := next_at,
             d_last_error := Some (protect_text e (webhook_purpose ''last_error'' did) last_error),
             d_updated_at := attempted_at\<rparr>))
       expected_attempts db"

definition mark_failed ::
    "env \<Rightarrow> string \<Rightarrow> instant \<Rightarrow> failure_reason \<Rightarrow> string option \<Rightarrow> int option \<Rightarrow> int
     \<Rightarrow> jobs_db \<Rightarrow> bool \<times> jobs_db" where
  "mark_failed e did t reason last_error expected_attempts attempts db = pending_update did
     (\<lambda>d. let d' = d\<lparr>d_status := Dead, d_failed_at := Some t, d_failure_reason := Some reason,
            d_last_error := map_option (protect_text e (webhook_purpose ''last_error'' did)) last_error,
            d_updated_at := t\<rparr>
          in if expected_attempts = None \<and> attempts \<noteq> 0
             then d'\<lparr>d_attempts := d_attempts d + attempts, d_last_attempt_at := Some t\<rparr> else d')
     expected_attempts db"

section \<open>Retention\<close>

definition scrub_eligible :: "instant \<Rightarrow> instant \<Rightarrow> delivery_row \<Rightarrow> bool" where
  "scrub_eligible delivered_before failed_before d \<longleftrightarrow> d_scrubbed_at d = None \<and>
     ((d_status d = Delivered \<and> null_le (d_delivered_at d) delivered_before)
      \<or> (d_status d = Dead \<and> null_le (d_failed_at d) failed_before))"

definition scrub_row :: "instant \<Rightarrow> delivery_row \<Rightarrow> delivery_row" where
  "scrub_row t d = d\<lparr>d_url := [], d_headers_json := ''{}'', d_timeout_seconds := 0,
     d_payload_json := ''{}'', d_last_error := None, d_scrubbed_at := Some t, d_updated_at := t\<rparr>"

definition scrub_ids :: "instant \<Rightarrow> string list \<Rightarrow> jobs_db \<Rightarrow> jobs_db" where
  "scrub_ids t ids db = update_deliveries (\<lambda>d. d_delivery_id d \<in> set ids
       \<and> d_status d \<in> {Delivered, Dead} \<and> d_scrubbed_at d = None) (scrub_row t) db"

definition scrub_terminal_deliveries ::
    "instant \<Rightarrow> instant \<Rightarrow> instant \<Rightarrow> int \<Rightarrow> jobs_db \<Rightarrow> store_error + ((nat \<times> nat) \<times> jobs_db)" where
  "scrub_terminal_deliveries delivered_before failed_before scrubbed_at lmt db =
     (if lmt < 1 then Inl (ValueError ''Webhook outbox query limit must be positive'')
      else let rows = sql_limit (nat lmt) 0 (sql_order
                 (\<lambda>d. (sql_coalesce (d_delivered_at d) (d_failed_at d), d_delivery_id d))
                 (filter (scrub_eligible delivered_before failed_before) (webhook_deliveries db)));
               delivered_ids = map d_delivery_id (filter (\<lambda>d. d_status d = Delivered) rows);
               failed_ids = map d_delivery_id (filter (\<lambda>d. d_status d = Dead) rows)
           in Inr ((length delivered_ids, length failed_ids),
                   scrub_ids scrubbed_at failed_ids (scrub_ids scrubbed_at delivered_ids db)))"

definition outbox_cleanup_backlog :: "instant \<Rightarrow> instant \<Rightarrow> jobs_db \<Rightarrow> cleanup_backlog" where
  "outbox_cleanup_backlog delivered_before failed_before db =
     (let rows = filter (scrub_eligible delivered_before failed_before) (webhook_deliveries db);
          ts = List.map_filter (\<lambda>d. sql_coalesce (d_delivered_at d) (d_failed_at d)) rows
      in \<lparr>cb_eligible_count = length rows,
          cb_oldest_eligible_at = (if ts = [] then None else Some (Min (set ts)))\<rparr>)"

section \<open>Reading batches\<close>

text \<open>
  One \<^verbatim>\<open>while\<close> iteration of \<^verbatim>\<open>_fetch_deliveries\<close> decodes the fetched rows: decodable
  rows are collected, malformed ones quarantined. An exception of the decoder ends the whole transaction,
  which is rolled back.
\<close>

fun decode_rows ::
    "(delivery_row \<Rightarrow> store_error + 'd option) \<Rightarrow> instant \<Rightarrow> delivery_row list \<Rightarrow> 'd list \<Rightarrow> nat \<Rightarrow> jobs_db
     \<Rightarrow> store_error + ('d list \<times> nat \<times> jobs_db)" where
  "decode_rows decode now [] acc malformed db = Inr (acc, malformed, db)"
| "decode_rows decode now (row # rows) acc malformed db = (case decode row of
       Inl x \<Rightarrow> Inl x
     | Inr (Some d) \<Rightarrow> decode_rows decode now rows (acc @ [d]) malformed db
     | Inr None \<Rightarrow> decode_rows decode now rows acc (Suc malformed)
         (snd (quarantine_malformed_row (Some (d_delivery_id row)) now db)))"

definition select_rows ::
    "(delivery_row \<Rightarrow> bool) \<Rightarrow> (delivery_row \<Rightarrow> 'k::linorder) \<Rightarrow> jobs_db \<Rightarrow> delivery_row list" where
  "select_rows P k db = sql_order k (filter P (webhook_deliveries db))"

function fetch_limited ::
    "(delivery_row \<Rightarrow> store_error + 'd option) \<Rightarrow> instant \<Rightarrow> (delivery_row \<Rightarrow> bool) \<Rightarrow> (delivery_row \<Rightarrow> 'k::linorder)
     \<Rightarrow> nat \<Rightarrow> nat \<Rightarrow> 'd list \<Rightarrow> jobs_db \<Rightarrow> store_error + ('d list \<times> jobs_db)" where
  "fetch_limited decode now P k lmt inspected deliveries db =
     (if length deliveries < lmt \<and> inspected < 2 * lmt
      then let rows = sql_limit (min (lmt - length deliveries) (2 * lmt - inspected))
                        (length deliveries) (select_rows P k db)
           in if rows = [] then Inr (deliveries, db)
              else case decode_rows decode now rows deliveries 0 db of
                     Inl x \<Rightarrow> Inl x
                   | Inr (deliveries', malformed, db') \<Rightarrow>
                       if malformed = 0 then Inr (deliveries', db')
                       else fetch_limited decode now P k lmt (inspected + length rows) deliveries' db'
      else Inr (deliveries, db))"
  by pat_completeness auto
termination
  by (relation "measure (\<lambda>(decode, now, P, k, lmt, inspected, deliveries, db). 2 * lmt - inspected)")
    (auto simp: neq_Nil_conv)

declare fetch_limited.simps [simp del]

definition fetch_deliveries ::
    "(delivery_row \<Rightarrow> store_error + 'd option) \<Rightarrow> instant \<Rightarrow> (delivery_row \<Rightarrow> bool) \<Rightarrow> (delivery_row \<Rightarrow> 'k::linorder)
     \<Rightarrow> nat option \<Rightarrow> jobs_db \<Rightarrow> store_error + ('d list \<times> jobs_db)" where
  "fetch_deliveries decode now P k limit db = (case limit of
       None \<Rightarrow> (case decode_rows decode now (select_rows P k db) [] 0 db of
           Inl x \<Rightarrow> Inl x | Inr (ds, _, db') \<Rightarrow> Inr (ds, db'))
     | Some lmt \<Rightarrow> fetch_limited decode now P k lmt 0 [] db)"

definition due_key :: "delivery_row \<Rightarrow> instant \<times> instant \<times> string" where
  "due_key d = (d_next_attempt_at d, d_created_at d, d_delivery_id d)"

definition list_pending ::
    "(delivery_row \<Rightarrow> store_error + 'd option) \<Rightarrow> instant \<Rightarrow> int option \<Rightarrow> jobs_db \<Rightarrow> store_error + ('d list \<times> jobs_db)" where
  "list_pending decode now limit db =
     (if (case limit of None \<Rightarrow> False | Some n \<Rightarrow> n < 1) then Inl (ValueError ''Webhook outbox query limit must be positive'')
      else fetch_deliveries decode now (\<lambda>d. d_status d = Pending) due_key (map_option nat limit) db)"

definition list_due_pending ::
    "(delivery_row \<Rightarrow> store_error + 'd option) \<Rightarrow> instant \<Rightarrow> instant \<Rightarrow> int \<Rightarrow> jobs_db \<Rightarrow> store_error + ('d list \<times> jobs_db)" where
  "list_due_pending decode utc_now now lmt db =
     (if lmt < 1 then Inl (ValueError ''Webhook outbox query limit must be positive'')
      else fetch_deliveries decode utc_now
             (\<lambda>d. d_status d = Pending \<and> d_next_attempt_at d \<le> now) due_key (Some (nat lmt)) db)"

definition list_exhausted_pending ::
    "(delivery_row \<Rightarrow> store_error + 'd option) \<Rightarrow> instant \<Rightarrow> int \<Rightarrow> instant \<Rightarrow> int \<Rightarrow> jobs_db
     \<Rightarrow> store_error + ('d list \<times> jobs_db)" where
  "list_exhausted_pending decode utc_now attempts_gte created_at_lte lmt db =
     (if lmt < 1 then Inl (ValueError ''Webhook outbox query limit must be positive'')
      else fetch_deliveries decode utc_now
             (\<lambda>d. d_status d = Pending \<and> (d_attempts d \<ge> attempts_gte \<or> d_created_at d \<le> created_at_lte))
             (\<lambda>d. (d_created_at d, d_delivery_id d)) (Some (nat lmt)) db)"

definition get_delivery ::
    "(delivery_row \<Rightarrow> store_error + 'd option) \<Rightarrow> instant \<Rightarrow> string \<Rightarrow> jobs_db \<Rightarrow> (store_error + 'd option) \<times> jobs_db" where
  "get_delivery decode utc_now did db =
     (case sql_first (\<lambda>d. d_delivery_id d = did) (webhook_deliveries db) of
        None \<Rightarrow> (Inr None, db)
      | Some row \<Rightarrow> (case decode row of
            Inl x \<Rightarrow> (Inl x, db)
          | Inr (Some d) \<Rightarrow> (Inr (Some d), db)
          | Inr None \<Rightarrow> (Inr None, snd (quarantine_malformed_row (Some (d_delivery_id row)) utc_now db))))"

definition pending_rows :: "jobs_db \<Rightarrow> delivery_row list" where
  "pending_rows db = filter (\<lambda>d. d_status d = Pending) (webhook_deliveries db)"

definition next_pending_due_at :: "jobs_db \<Rightarrow> instant option" where
  "next_pending_due_at db = (let ts = map d_next_attempt_at (pending_rows db)
     in if ts = [] then None else Some (Min (set ts)))"

definition oldest_pending_created_at :: "jobs_db \<Rightarrow> instant option" where
  "oldest_pending_created_at db = (let ts = map d_created_at (pending_rows db)
     in if ts = [] then None else Some (Min (set ts)))"

record outbox_summary =
  os_pending :: nat
  os_delivered :: nat
  os_failed :: nat
  os_oldest_pending_age :: "instant option"
  os_pending_attempts_min :: "int option"
  os_pending_attempts_max :: "int option"
  os_pending_attempts_total :: int

definition summarize :: "instant \<Rightarrow> jobs_db \<Rightarrow> outbox_summary" where
  "summarize now db = (let p = pending_rows db; a = map d_attempts p in
     \<lparr>os_pending = rowcount (\<lambda>d. d_status d = Pending) (webhook_deliveries db),
      os_delivered = rowcount (\<lambda>d. d_status d = Delivered) (webhook_deliveries db),
      os_failed = rowcount (\<lambda>d. d_status d = Dead) (webhook_deliveries db),
      os_oldest_pending_age = map_option (\<lambda>t. max 0 (now - t)) (oldest_pending_created_at db),
      os_pending_attempts_min = (if a = [] then None else Some (Min (set a))),
      os_pending_attempts_max = (if a = [] then None else Some (Max (set a))),
      os_pending_attempts_total = sum_list a\<rparr>)"

end
