(* ===== verification/Job_Terminal.thy ===== *)
theory Job_Terminal
  imports Webhook_Outbox
begin

text \<open>
  Terminal webhook intents and their reconciliation,
  \<^verbatim>\<open>storage/job_terminal_reconciliation.py\<close>. A run that reaches a terminal status gets its
  webhook intent in the same transaction (\<open>commit_terminal_intent\<close>); a run that became
  terminal on a recovery path stays unreconciled and is listed by
  \<open>terminal_webhook_candidate_rows\<close> until \<open>reconcile_terminal_webhook_candidate\<close> marks it.
\<close>

definition terminal_event :: "job_status \<Rightarrow> string" where
  "terminal_event s = ''job.'' @ status_value s"

definition validate_terminal_delivery ::
    "delivery_create \<Rightarrow> string \<Rightarrow> string \<Rightarrow> job_status \<Rightarrow> store_error + unit" where
  "validate_terminal_delivery w jid rid s =
     (let event = terminal_event s in
      if w_job_id w \<noteq> jid \<or> w_run_id w \<noteq> Some rid \<or> w_event w \<noteq> event
         \<or> map_of (w_payload w) ''job_id'' \<noteq> Some (JStr jid)
         \<or> map_of (w_payload w) ''run_id'' \<noteq> Some (JStr rid)
         \<or> map_of (w_payload w) ''event'' \<noteq> Some (JStr event)
         \<or> map_of (w_payload w) ''status'' \<noteq> Some (JStr (status_value s))
      then Inl (ValueError ''Terminal webhook delivery does not match the owned job/run/status'')
      else Inr ())"

definition validate_optional_delivery ::
    "delivery_create option \<Rightarrow> string \<Rightarrow> string \<Rightarrow> job_status \<Rightarrow> store_error + unit" where
  "validate_optional_delivery w jid rid s =
     (case w of None \<Rightarrow> Inr () | Some d \<Rightarrow> validate_terminal_delivery d jid rid s)"

text \<open>The commit itself is the return of the transaction; the log line is not modelled.\<close>

definition commit_terminal_intent ::
    "env \<Rightarrow> delivery_create option \<Rightarrow> instant \<Rightarrow> jobs_db \<Rightarrow> store_error + (unit \<times> jobs_db)" where
  "commit_terminal_intent e w created db = (case w of
       None \<Rightarrow> Inr ((), db)
     | Some d \<Rightarrow> (case insert_webhook_delivery e d created db of
           Inl x \<Rightarrow> Inl x | Inr (_, db') \<Rightarrow> Inr ((), db')))"

record terminal_candidate =
  tc_job_id :: string
  tc_run_id :: string
  tc_status :: job_status
  tc_project :: string
  tc_name :: string
  tc_config_yaml :: string
  tc_has_config_snapshot :: bool
  tc_config_hash :: string
  tc_started_at :: instant
  tc_heartbeat_at :: instant
  tc_completed_at :: "instant option"
  tc_record_count :: "int option"
  tc_error_count :: int
  tc_parent_status :: job_status
  tc_current_run_id :: "string option"
  tc_existing_delivery :: "delivery_row option"

definition candidate_time :: "terminal_candidate \<Rightarrow> instant" where
  "candidate_time c = (case tc_completed_at c of None \<Rightarrow> tc_heartbeat_at c | Some t \<Rightarrow> t)"

definition mark_terminal_webhook_reconciled ::
    "terminal_candidate \<Rightarrow> jobs_db \<Rightarrow> store_error + jobs_db" where
  "mark_terminal_webhook_reconciled c db =
     (let P = (\<lambda>r. r_job_id r = tc_job_id c \<and> r_run_id r = tc_run_id c
                 \<and> r_status r = tc_status c \<and> r_config_hash r = tc_config_hash c)
      in if rowcount P (job_runs db) \<noteq> 1
         then Inl (RuntimeError ''Terminal webhook reconciliation lost run ownership'')
         else Inr (update_runs P (\<lambda>r. r\<lparr>r_webhook_reconciled_at :=
                sql_coalesce (r_webhook_reconciled_at r) (Some (candidate_time c))\<rparr>) db))"

text \<open>
  The earliest delivery of a run's terminal event, the correlated subquery of the
  candidate query.
\<close>

definition first_delivery :: "jobs_db \<Rightarrow> string \<Rightarrow> string \<Rightarrow> string \<Rightarrow> delivery_row option" where
  "first_delivery db jid rid event =
     (case sql_order (\<lambda>d. (d_created_at d, d_delivery_id d))
        (filter (\<lambda>d. d_job_id d = jid \<and> d_run_id d = Some rid \<and> d_event d = event)
          (webhook_deliveries db))
      of [] \<Rightarrow> None | d # _ \<Rightarrow> Some d)"

definition is_terminal_candidate :: "run_row \<Rightarrow> job_row \<Rightarrow> bool" where
  "is_terminal_candidate r j \<longleftrightarrow> r_job_id r = j_job_id j \<and> terminal (r_status r)
     \<and> j_status j \<noteq> Deleting
     \<and> (r_webhook_reconciled_at r = None
        \<or> (j_status j = Running \<and> j_current_run_id j = Some (r_run_id r)))"

definition candidate_order :: "run_row \<Rightarrow> nat \<times> instant \<times> string \<times> string" where
  "candidate_order r =
     (case r_webhook_reconciliation_failed_at r of None \<Rightarrow> 0 | Some _ \<Rightarrow> 1,
      case r_webhook_reconciliation_failed_at r of Some t \<Rightarrow> t
        | None \<Rightarrow> (case r_completed_at r of Some t \<Rightarrow> t | None \<Rightarrow> r_started_at r),
      r_job_id r, r_run_id r)"

definition candidate_pairs :: "jobs_db \<Rightarrow> (run_row \<times> job_row) list" where
  "candidate_pairs db = sql_order (\<lambda>(r, j). candidate_order r)
     (filter (\<lambda>(r, j). is_terminal_candidate r j) (List.product (job_runs db) (jobs db)))"

definition terminal_webhook_candidate_rows ::
    "int option \<Rightarrow> jobs_db \<Rightarrow> store_error + (run_row \<times> job_row) list" where
  "terminal_webhook_candidate_rows limit db = (case limit of
       None \<Rightarrow> Inr (candidate_pairs db)
     | Some n \<Rightarrow> (if n < 1 then Inl (ValueError ''limit must be positive'')
         else Inr (sql_limit (nat n) 0 (candidate_pairs db))))"

definition terminal_webhook_candidate ::
    "env \<Rightarrow> jobs_db \<Rightarrow> run_row \<times> job_row \<Rightarrow> store_error + terminal_candidate" where
  "terminal_webhook_candidate e db rj = (let (r, j) = rj in
     case r_heartbeat_at r of
       None \<Rightarrow> Inl (ValueError ''Terminal run is missing required lifecycle timestamps'')
     | Some hb \<Rightarrow> (case (case r_config_yaml r of
             None \<Rightarrow> reveal_text e (jobs_purpose (j_job_id j)) (j_config_yaml j)
           | Some stored \<Rightarrow> reveal_text e (runs_purpose (r_run_id r)) stored) of
         None \<Rightarrow> Inl SecretDecryptionError
       | Some yaml \<Rightarrow> Inr \<lparr>tc_job_id = r_job_id r, tc_run_id = r_run_id r, tc_status = r_status r,
           tc_project = j_project j, tc_name = j_name j, tc_config_yaml = yaml,
           tc_has_config_snapshot = (r_config_yaml r \<noteq> None), tc_config_hash = r_config_hash r,
           tc_started_at = r_started_at r, tc_heartbeat_at = hb,
           tc_completed_at = r_completed_at r, tc_record_count = r_record_count r,
           tc_error_count = r_error_count r, tc_parent_status = j_status j,
           tc_current_run_id = j_current_run_id j,
           tc_existing_delivery =
             first_delivery db (r_job_id r) (r_run_id r) (terminal_event (r_status r))\<rparr>))"

fun terminal_webhook_candidates ::
    "env \<Rightarrow> jobs_db \<Rightarrow> (run_row \<times> job_row) list \<Rightarrow> store_error + terminal_candidate list" where
  "terminal_webhook_candidates e db [] = Inr []"
| "terminal_webhook_candidates e db (rj # rest) =
     (case terminal_webhook_candidate e db rj of Inl x \<Rightarrow> Inl x
      | Inr c \<Rightarrow> (case terminal_webhook_candidates e db rest of Inl x \<Rightarrow> Inl x
           | Inr cs \<Rightarrow> Inr (c # cs)))"

definition candidate_config_matches ::
    "env \<Rightarrow> terminal_candidate \<Rightarrow> run_row \<Rightarrow> job_row \<Rightarrow> store_error + bool" where
  "candidate_config_matches e c r j =
     (if tc_has_config_snapshot c
      then (case r_config_yaml r of None \<Rightarrow> Inr False
            | Some stored \<Rightarrow> (case reveal_text e (runs_purpose (tc_run_id c)) stored of
                 None \<Rightarrow> Inl SecretDecryptionError | Some y \<Rightarrow> Inr (y = tc_config_yaml c)))
      else (case r_config_yaml r of Some _ \<Rightarrow> Inr False
            | None \<Rightarrow> (case reveal_text e (jobs_purpose (tc_job_id c)) (j_config_yaml j) of
                 None \<Rightarrow> Inl SecretDecryptionError | Some y \<Rightarrow> Inr (y = tc_config_yaml c))))"

definition race_noop :: "jobs_db \<Rightarrow> store_error + (terminal_intent_result \<times> jobs_db)" where
  "race_noop db = Inr (\<lparr>ti_action = Ti_race_noop, ti_parent_converged = False,
     ti_delivery_id = None\<rparr>, db)"

text \<open>
  After the ownership checks: the parent converges if it still runs this run, and the
  terminal intent is ensured and marked.
\<close>

definition ensure_terminal_intent ::
    "env \<Rightarrow> terminal_candidate \<Rightarrow> delivery_create option \<Rightarrow> bool \<Rightarrow> jobs_db
     \<Rightarrow> store_error + (terminal_intent_result \<times> jobs_db)" where
  "ensure_terminal_intent e c w converged db =
     (let event = terminal_event (tc_status c);
          done = (\<lambda>a did db1. case mark_terminal_webhook_reconciled c db1 of
              Inl x \<Rightarrow> Inl x
            | Inr db2 \<Rightarrow> Inr (\<lparr>ti_action = a, ti_parent_converged = converged, ti_delivery_id = did\<rparr>, db2))
      in case first_delivery db (tc_job_id c) (tc_run_id c) event of
           Some d \<Rightarrow> done Ti_existing (Some (d_delivery_id d)) db
         | None \<Rightarrow> (case w of
               None \<Rightarrow> done Ti_not_required None db
             | Some wd \<Rightarrow> (case validate_terminal_delivery wd (tc_job_id c) (tc_run_id c) (tc_status c) of
                   Inl x \<Rightarrow> Inl x
                 | Inr _ \<Rightarrow> (case insert_webhook_delivery e wd (candidate_time c) db of
                       Inl x \<Rightarrow> Inl x
                     | Inr (created, db1) \<Rightarrow>
                         if created then done Ti_created (Some (w_delivery_id wd)) db1
                         else (case sql_first (\<lambda>d. d_delivery_id d = w_delivery_id wd) (webhook_deliveries db1) of
                             None \<Rightarrow> Inl (RuntimeError ''Deterministic webhook delivery ID collided with another event'')
                           | Some k \<Rightarrow> if d_job_id k \<noteq> tc_job_id c \<or> d_run_id k \<noteq> Some (tc_run_id c)
                                         \<or> d_event k \<noteq> event
                               then Inl (RuntimeError ''Deterministic webhook delivery ID collided with another event'')
                               else done Ti_existing (Some (w_delivery_id wd)) db1)))))"

definition reconcile_terminal_webhook_candidate ::
    "env \<Rightarrow> terminal_candidate \<Rightarrow> delivery_create option \<Rightarrow> jobs_db
     \<Rightarrow> store_error + (terminal_intent_result \<times> jobs_db)" where
  "reconcile_terminal_webhook_candidate e c w db =
     (case find_run db (tc_job_id c) (tc_run_id c) of
        None \<Rightarrow> race_noop db
      | Some r \<Rightarrow> (case find_job db (tc_job_id c) of
          None \<Rightarrow> race_noop db
        | Some j \<Rightarrow>
            if r_status r \<noteq> tc_status c \<or> \<not> terminal (r_status r)
               \<or> r_config_hash r \<noteq> tc_config_hash c \<or> j_status j = Deleting
            then race_noop db
            else (case candidate_config_matches e c r j of
                Inl x \<Rightarrow> Inl x
              | Inr False \<Rightarrow> race_noop db
              | Inr True \<Rightarrow>
                  if j_current_run_id j = Some (tc_run_id c) \<and> j_status j = Running
                  then let P = (\<lambda>x. j_job_id x = tc_job_id c \<and> j_status x = Running
                                  \<and> j_current_run_id x = Some (tc_run_id c))
                       in if rowcount P (jobs db) \<noteq> 1 then race_noop db
                          else ensure_terminal_intent e c w True
                                 (update_jobs P (\<lambda>x. x\<lparr>j_status := tc_status c,
                                    j_updated_at := Some (candidate_time c)\<rparr>) db)
                  else ensure_terminal_intent e c w False db)))"

definition mark_terminal_webhook_reconciliation_failure ::
    "string \<Rightarrow> string \<Rightarrow> instant \<Rightarrow> jobs_db \<Rightarrow> bool \<times> jobs_db" where
  "mark_terminal_webhook_reconciliation_failure jid rid t db =
     (let P = (\<lambda>r. r_job_id r = jid \<and> r_run_id r = rid \<and> terminal (r_status r)
                 \<and> r_webhook_reconciled_at r = None)
      in (rowcount P (job_runs db) = 1,
          update_runs P (\<lambda>r. r\<lparr>r_webhook_reconciliation_failed_at := Some t\<rparr>) db))"

end
