(* ===== verification/Job_Recovery.thy ===== *)
theory Job_Recovery
  imports Job_Terminal
begin

text \<open>
  Queued-delivery and stale-run recovery, \<^verbatim>\<open>storage/job_recovery.py\<close>: the failed run row
  written for a delivery that never started, the reservation and failure of stale queued
  deliveries, and the recovery of a running job whose run is missing, already terminal or
  without a fresh heartbeat.
\<close>

definition or_else :: "'a option \<Rightarrow> 'a \<Rightarrow> 'a" where
  "or_else a d = (case a of None \<Rightarrow> d | Some x \<Rightarrow> x)"

text \<open>Python's \<^verbatim>\<open>or\<close> on an optional string: \<open>None\<close> and the empty string are false.\<close>

definition str_or :: "string option \<Rightarrow> string option \<Rightarrow> string option" where
  "str_or a b = (case a of Some s \<Rightarrow> if s = [] then b else Some s | None \<Rightarrow> b)"

definition failed_queued_config ::
    "env \<Rightarrow> string \<Rightarrow> string \<Rightarrow> job_row \<Rightarrow> snapshot_row option \<Rightarrow> string \<Rightarrow> string option" where
  "failed_queued_config e jid rid j q hash =
     (let queued = (case q of None \<Rightarrow> None
             | Some s \<Rightarrow> reveal_text e (queued_purpose rid) (q_config_yaml s));
          yaml = (case queued of Some y \<Rightarrow> Some y
             | None \<Rightarrow> if j_config_hash j = hash
                 then reveal_text e (jobs_purpose jid) (j_config_yaml j) else None)
      in case yaml of None \<Rightarrow> None | Some y \<Rightarrow> if sha256 e y \<noteq> hash then None else Some y)"

definition failed_queued_row ::
    "env \<Rightarrow> string \<Rightarrow> string \<Rightarrow> instant \<Rightarrow> int \<Rightarrow> string \<Rightarrow> job_row \<Rightarrow> snapshot_row option \<Rightarrow> run_row" where
  "failed_queued_row e jid rid failed_at errors code j q =
     (let hash = or_else (str_or (map_option q_config_hash q) (Some (j_config_hash j))) [];
          started = or_else (map_option q_queued_at q) failed_at
      in \<lparr>r_run_id = rid, r_job_id = jid, r_status = Failed,
          r_trigger = or_else (str_or (str_or (map_option q_trigger q) (j_current_trigger j)) None) ''adhoc'',
          r_config_hash = hash,
          r_config_yaml = map_option (protect_text e (runs_purpose rid))
            (failed_queued_config e jid rid j q hash),
          r_started_at = started, r_heartbeat_at = Some started,
          r_completed_at = Some failed_at, r_record_count = Some 0, r_error_count = errors,
          r_failure_code = Some code, r_webhook_reconciled_at = None,
          r_webhook_reconciliation_failed_at = None\<rparr>)"

definition insert_failed_queued_run ::
    "env \<Rightarrow> string \<Rightarrow> string \<Rightarrow> instant \<Rightarrow> int \<Rightarrow> string \<Rightarrow> jobs_db \<Rightarrow> store_error + jobs_db" where
  "insert_failed_queued_run e jid rid failed_at errors code db =
     (case sql_first (\<lambda>j. j_job_id j = jid \<and> j_current_run_id j = Some rid) (jobs db) of
        None \<Rightarrow> Inl (RunOwnershipError ''fail queued snapshot'' jid rid)
      | Some j \<Rightarrow> (case insert_run_row
             (failed_queued_row e jid rid failed_at errors code j (find_snapshot db jid rid)) db of
          Inl x \<Rightarrow> Inl x
        | Inr db' \<Rightarrow> Inr (delete_snapshots (\<lambda>q. q_job_id q = jid \<and> q_run_id q = rid) db')))"

section \<open>Stale queued deliveries\<close>

definition stale_queued_rows ::
    "instant \<Rightarrow> nat option \<Rightarrow> nat \<Rightarrow> jobs_db \<Rightarrow> (job_row \<times> snapshot_row option) list" where
  "stale_queued_rows stale_before limit off db =
     (let rows = sql_order (\<lambda>j. (j_updated_at j, j_job_id j))
            (filter (\<lambda>j. j_status j = Queued \<and> j_current_run_id j \<noteq> None
                       \<and> null_le (j_updated_at j) stale_before) (jobs db));
          page = (case limit of None \<Rightarrow> rows | Some n \<Rightarrow> sql_limit n off rows)
      in map (\<lambda>j. (j, case j_current_run_id j of None \<Rightarrow> None
                     | Some rid \<Rightarrow> find_snapshot db (j_job_id j) rid)) page)"

fun stale_queued_jobs ::
    "env \<Rightarrow> (job_row \<times> snapshot_row option) list \<Rightarrow> store_error + stale_queued_job list" where
  "stale_queued_jobs e [] = Inr []"
| "stale_queued_jobs e ((j, q) # rows) =
     (case (j_updated_at j, j_current_run_id j) of
        (Some queued_at, Some rid) \<Rightarrow>
          (case (case q of Some s \<Rightarrow> reveal_text e (queued_purpose rid) (q_config_yaml s)
                 | None \<Rightarrow> reveal_text e (jobs_purpose (j_job_id j)) (j_config_yaml j)) of
             None \<Rightarrow> Inl SecretDecryptionError
           | Some yaml \<Rightarrow> (case stale_queued_jobs e rows of Inl x \<Rightarrow> Inl x
                | Inr rest \<Rightarrow> Inr (\<lparr>sq_job_id = j_job_id j, sq_run_id = rid, sq_config_yaml = yaml,
                    sq_queued_at = queued_at,
                    sq_trigger = (case j_current_trigger j of Some t \<Rightarrow> t
                      | None \<Rightarrow> if j_schedule_cron j \<noteq> None then ''scheduled'' else ''adhoc''),
                    sq_schedule_cron = j_schedule_cron j,
                    sq_schedule_enabled = j_schedule_enabled j\<rparr> # rest)))
      | _ \<Rightarrow> stale_queued_jobs e rows)"

definition reserve_queued_run_recovery ::
    "string \<Rightarrow> string \<Rightarrow> instant \<Rightarrow> instant \<Rightarrow> instant \<Rightarrow> jobs_db \<Rightarrow> bool \<times> jobs_db" where
  "reserve_queued_run_recovery jid rid expected_queued_at stale_before reserved_at db =
     (let P = (\<lambda>j. j_job_id j = jid \<and> j_status j = Queued \<and> j_current_run_id j = Some rid
                 \<and> j_updated_at j = Some expected_queued_at \<and> null_le (j_updated_at j) stale_before)
      in if rowcount P (jobs db) \<noteq> 1 then (False, db)
         else (True, update_jobs P (\<lambda>j. j\<lparr>j_updated_at := Some reserved_at\<rparr>) db))"

definition fail_queued_run_recovery ::
    "env \<Rightarrow> string \<Rightarrow> string \<Rightarrow> instant \<Rightarrow> instant \<Rightarrow> jobs_db \<Rightarrow> store_error + (bool \<times> jobs_db)" where
  "fail_queued_run_recovery e jid rid expected_queued_at failed_at db =
     (let P = (\<lambda>j. j_job_id j = jid \<and> j_status j = Queued \<and> j_current_run_id j = Some rid
                 \<and> j_updated_at j = Some expected_queued_at)
      in if rowcount P (jobs db) \<noteq> 1 then Inr (False, db)
         else (case insert_failed_queued_run e jid rid failed_at 1 ''queued_reconciliation_failure''
                 (update_jobs P (\<lambda>j. j\<lparr>j_status := Failed, j_updated_at := Some failed_at\<rparr>) db) of
             Inl x \<Rightarrow> Inl x
           | Inr db' \<Rightarrow> Inr (True, db')))"

section \<open>Stale running runs\<close>

definition heartbeat_is_stale :: "instant option \<Rightarrow> instant \<Rightarrow> bool" where
  "heartbeat_is_stale hb cutoff = (case hb of None \<Rightarrow> True | Some t \<Rightarrow> t \<le> cutoff)"

definition current_run :: "jobs_db \<Rightarrow> job_row \<Rightarrow> run_row option" where
  "current_run db j = (case j_current_run_id j of None \<Rightarrow> None
     | Some rid \<Rightarrow> find_run db (j_job_id j) rid)"

definition settle_parent ::
    "string \<Rightarrow> string option \<Rightarrow> job_status \<Rightarrow> instant \<Rightarrow> recovery_action \<Rightarrow> instant option \<Rightarrow> jobs_db
     \<Rightarrow> run_recovery option \<times> jobs_db" where
  "settle_parent jid rid s t act hb db =
     (let P = (\<lambda>j. j_job_id j = jid \<and> j_status j = Running \<and> j_current_run_id j = rid)
      in if rowcount P (jobs db) \<noteq> 1 then (None, db)
         else (Some \<lparr>rr_job_id = jid, rr_run_id = rid, rr_action = act, rr_last_heartbeat_at = hb\<rparr>,
               update_jobs P (\<lambda>j. j\<lparr>j_status := s, j_updated_at := Some t\<rparr>) db))"

definition recover_current_run ::
    "string \<Rightarrow> string option \<Rightarrow> instant \<Rightarrow> instant \<Rightarrow> jobs_db
     \<Rightarrow> store_error + (run_recovery option \<times> jobs_db)" where
  "recover_current_run jid expected_run_id cutoff recovered_at db =
     (case find_job db jid of
        None \<Rightarrow> Inr (None, db)
      | Some j \<Rightarrow>
          if j_status j \<noteq> Running \<or> j_current_run_id j \<noteq> expected_run_id then Inr (None, db)
          else (case (j_current_run_id j, current_run db j) of
              (Some rid, Some r) \<Rightarrow>
                if terminal (r_status r)
                then Inr (settle_parent jid (Some rid) (r_status r) recovered_at
                            Reconciled_terminal_run (r_heartbeat_at r) db)
                else if r_status r \<noteq> Running \<or> \<not> heartbeat_is_stale (r_heartbeat_at r) cutoff
                then Inr (None, db)
                else let P = (\<lambda>x. r_job_id x = jid \<and> r_run_id x = rid \<and> r_status x = Running)
                     in if rowcount P (job_runs db) \<noteq> 1 then Inr (None, db)
                        else (case settle_parent jid (Some rid) Failed recovered_at
                                Failed_stale_heartbeat (r_heartbeat_at r)
                                (update_runs P (\<lambda>x. x\<lparr>r_status := Failed,
                                   r_completed_at := Some recovered_at\<rparr>) db) of
                            (None, _) \<Rightarrow>
                              Inl (RuntimeError ''Stale recovery lost job ownership inside transaction'')
                          | (Some rec, db') \<Rightarrow> Inr (Some rec, db'))
            | (rid, _) \<Rightarrow> Inr (settle_parent jid rid Failed recovered_at Failed_missing_run None db)))"

definition recover_stale_run ::
    "string \<Rightarrow> string option \<Rightarrow> instant \<Rightarrow> instant \<Rightarrow> jobs_db \<Rightarrow> store_error + (bool \<times> jobs_db)" where
  "recover_stale_run jid rid cutoff recovered_at db =
     (case recover_current_run jid rid cutoff recovered_at db of
        Inl x \<Rightarrow> Inl x
      | Inr (rec, db') \<Rightarrow> Inr (rec \<noteq> None, db'))"

definition is_recovery_candidate :: "jobs_db \<Rightarrow> instant \<Rightarrow> job_row \<Rightarrow> bool" where
  "is_recovery_candidate db cutoff j \<longleftrightarrow> j_status j = Running \<and>
     (case j_current_run_id j of None \<Rightarrow> True
      | Some _ \<Rightarrow> (case current_run db j of None \<Rightarrow> True
          | Some r \<Rightarrow> r_status r \<noteq> Running \<or> r_heartbeat_at r = None
                      \<or> null_le (r_heartbeat_at r) cutoff))"

definition recovery_order :: "jobs_db \<Rightarrow> job_row \<Rightarrow> instant option \<times> string" where
  "recovery_order db j =
     (case current_run db j of None \<Rightarrow> j_updated_at j
      | Some r \<Rightarrow> sql_coalesce (r_heartbeat_at r) (j_updated_at j), j_job_id j)"

fun recover_each ::
    "instant \<Rightarrow> instant \<Rightarrow> (string \<times> string option) list \<Rightarrow> run_recovery list \<Rightarrow> jobs_db
     \<Rightarrow> store_error + (run_recovery list \<times> jobs_db)" where
  "recover_each cutoff recovered_at [] acc db = Inr (acc, db)"
| "recover_each cutoff recovered_at ((jid, rid) # rows) acc db =
     (case recover_current_run jid rid cutoff recovered_at db of
        Inl x \<Rightarrow> Inl x
      | Inr (None, db') \<Rightarrow> recover_each cutoff recovered_at rows acc db'
      | Inr (Some rec, db') \<Rightarrow> recover_each cutoff recovered_at rows (acc @ [rec]) db')"

definition recover_stale_running_jobs ::
    "instant \<Rightarrow> instant \<Rightarrow> int option \<Rightarrow> jobs_db \<Rightarrow> store_error + (run_recovery list \<times> jobs_db)" where
  "recover_stale_running_jobs cutoff recovered_at limit db =
     (let rows = map (\<lambda>j. (j_job_id j, j_current_run_id j)) (sql_order (recovery_order db)
            (filter (is_recovery_candidate db cutoff) (jobs db)))
      in case limit of
           None \<Rightarrow> recover_each cutoff recovered_at rows [] db
         | Some n \<Rightarrow> if n < 1 then Inl (ValueError ''limit must be positive'')
             else recover_each cutoff recovered_at (sql_limit (nat n) 0 rows) [] db)"

end
