(* ===== verification/Job_Store.thy ===== *)
theory Job_Store
  imports Job_Recovery
begin

text \<open>
  \<open>SQLiteJobStore\<close>, \<^verbatim>\<open>storage/job_store.py\<close>: submission and idempotent submission,
  schedule changes, the claim of a queued delivery, heartbeats, finalisation and failure of
  an owned run, and queueing a replacement. Every operation is one transaction on
  \<open>jobs_db\<close>; its \<^verbatim>\<open>WHERE\<close> clause is the compare-and-set that decides ownership.
\<close>

section \<open>Submission\<close>

definition is_active :: "job_row \<Rightarrow> bool" where
  "is_active j \<longleftrightarrow> j_status j \<in> {Queued, Running} \<and> j_current_run_id j \<noteq> None"

definition check_admission :: "env \<Rightarrow> jobs_db \<Rightarrow> store_error + unit" where
  "check_admission e db =
     (if rowcount is_active (jobs db) > workers_max_accepted_runs e
      then Inl (AdmissionCapacityError ''backlog'')
      else (case memory_headroom_mb e (workers_memory_limit_mb e) of
          Some h \<Rightarrow> if h \<le> 0 then Inl (AdmissionCapacityError ''memory'') else Inr ()
        | None \<Rightarrow> Inr ()))"

definition new_job_row :: "env \<Rightarrow> job \<Rightarrow> string option \<Rightarrow> job_row" where
  "new_job_row e b trig = \<lparr>j_job_id = job_id b, j_project = project b, j_name = name b,
     j_status = status b, j_config_yaml = protect_text e (jobs_purpose (job_id b)) (config_yaml b),
     j_config_hash = sha256 e (config_yaml b), j_created_at = created_at b,
     j_updated_at = updated_at b, j_schedule_cron = schedule_cron b,
     j_schedule_timezone = schedule_timezone b, j_schedule_enabled = schedule_enabled b,
     j_current_run_id = current_run_id b, j_current_trigger = trig,
     j_deletion_requested_at = deletion_requested_at b,
     j_delete_results_on_delete = delete_results_on_delete b,
     j_schedule_failure_at = schedule_failure_at b,
     j_schedule_failure_code = schedule_failure_code b,
     j_schedule_consecutive_failures = schedule_consecutive_failures b,
     j_lifetime_run_count = 0, j_last_run_at = None\<rparr>"

definition accepted_trigger :: "job \<Rightarrow> string option" where
  "accepted_trigger b = (case current_trigger b of Some t \<Rightarrow> Some t
     | None \<Rightarrow> if current_run_id b \<noteq> None
         then Some (if schedule_cron b \<noteq> None then ''scheduled'' else ''adhoc'') else None)"

definition insert_job :: "env \<Rightarrow> job \<Rightarrow> jobs_db \<Rightarrow> store_error + jobs_db" where
  "insert_job e b db = (let trig = accepted_trigger b in
     case insert_jobs_row (new_job_row e b trig) db of
       Inl x \<Rightarrow> Inl x
     | Inr db1 \<Rightarrow> (case (status b, current_run_id b) of
         (Queued, Some rid) \<Rightarrow> (case check_admission e db1 of
             Inl x \<Rightarrow> Inl x
           | Inr _ \<Rightarrow> insert_snapshot_row \<lparr>q_run_id = rid, q_job_id = job_id b,
                 q_trigger = or_else (str_or trig None) ''adhoc'',
                 q_config_hash = sha256 e (config_yaml b),
                 q_config_yaml = protect_text e (queued_purpose rid) (config_yaml b),
                 q_queued_at = or_else (updated_at b) (created_at b)\<rparr> db1)
       | _ \<Rightarrow> Inr db1))"

definition translate_duplicate :: "string \<Rightarrow> string \<Rightarrow> store_error \<Rightarrow> store_error" where
  "translate_duplicate p n x = (case x of
       IntegrityError m \<Rightarrow> if is_duplicate_job_integrity_error m then DuplicateJobError p n else x
     | _ \<Rightarrow> x)"

definition save_job :: "env \<Rightarrow> job \<Rightarrow> jobs_db \<Rightarrow> store_error + (string \<times> jobs_db)" where
  "save_job e b db = (case insert_job e b db of
       Inl x \<Rightarrow> Inl (translate_duplicate (project b) (name b) x)
     | Inr db' \<Rightarrow> Inr (job_id b, db'))"

definition live_key :: "string \<Rightarrow> string \<Rightarrow> idempotency_row \<Rightarrow> bool" where
  "live_key scope key i \<longleftrightarrow> i_caller_scope i = scope \<and> i_key_digest i = key"

definition create_idempotent_job ::
    "env \<Rightarrow> job \<Rightarrow> string \<Rightarrow> string \<Rightarrow> string \<Rightarrow> string \<Rightarrow> instant \<Rightarrow> jobs_db
     \<Rightarrow> store_error + (idempotent_job_outcome \<times> jobs_db)" where
  "create_idempotent_job e b scope key request_hash mode expires db =
     (case current_run_id b of
        None \<Rightarrow> Inl (ValueError ''Idempotent ad-hoc jobs require current_run_id'')
      | Some rid \<Rightarrow>
          (let db1 = db\<lparr>scrape_idempotency := sql_delete
                 (\<lambda>i. live_key scope key i \<and> i_expires_at i \<le> created_at b) (scrape_idempotency db)\<rparr>
           in case sql_first (\<lambda>(i, j). live_key scope key i \<and> i_job_id i = j_job_id j)
                (List.product (scrape_idempotency db1) (jobs db1)) of
              Some (i, j) \<Rightarrow> (case row_to_job e j of
                  Inl x \<Rightarrow> Inl x
                | Inr existing \<Rightarrow> Inr (\<lparr>io_action =
                      (if i_request_hash i = request_hash \<and> i_response_mode i = mode
                       then Idem_matched else Idem_conflict),
                    io_job = existing, io_run_id = i_run_id i,
                    io_response_mode = i_response_mode i\<rparr>, db1))
            | None \<Rightarrow> (case insert_job e b db1 of
                  Inl x \<Rightarrow> Inl (translate_duplicate (project b) (name b) x)
                | Inr db2 \<Rightarrow> (case insert_idempotency_row \<lparr>i_caller_scope = scope, i_key_digest = key,
                      i_request_hash = request_hash, i_job_id = job_id b, i_run_id = rid,
                      i_response_mode = mode, i_created_at = created_at b, i_expires_at = expires\<rparr> db2 of
                    Inl x \<Rightarrow> Inl x
                  | Inr db3 \<Rightarrow> Inr (\<lparr>io_action = Idem_created, io_job = b, io_run_id = rid,
                      io_response_mode = mode\<rparr>, db3)))))"

definition get_submission_receipt ::
    "string \<Rightarrow> string \<Rightarrow> instant \<Rightarrow> jobs_db \<Rightarrow> (idempotency_row \<times> string) option" where
  "get_submission_receipt scope key observed db =
     map_option (\<lambda>(i, j). (i, j_project j))
       (sql_first (\<lambda>(i, j). live_key scope key i \<and> i_expires_at i > observed \<and> j_job_id j = i_job_id i)
          (List.product (scrape_idempotency db) (jobs db)))"

definition delete_expired_idempotency_records ::
    "instant \<Rightarrow> int \<Rightarrow> jobs_db \<Rightarrow> store_error + (nat \<times> jobs_db)" where
  "delete_expired_idempotency_records expired_before lmt db =
     (if lmt < 1 then Inl (ValueError ''Idempotency cleanup limit must be positive'')
      else let rows = sql_limit (nat lmt) 0 (sql_order
                 (\<lambda>i. (i_expires_at i, i_caller_scope i, i_key_digest i))
                 (filter (\<lambda>i. i_expires_at i \<le> expired_before) (scrape_idempotency db)));
               keys = map (\<lambda>i. (i_caller_scope i, i_key_digest i)) rows
           in Inr (length rows, db\<lparr>scrape_idempotency := sql_delete
                (\<lambda>i. (i_caller_scope i, i_key_digest i) \<in> set keys) (scrape_idempotency db)\<rparr>))"

section \<open>Schedules\<close>

definition sm_outcome ::
    "scheduled_mutation_action \<Rightarrow> job option \<Rightarrow> job option \<Rightarrow> scheduled_mutation_outcome" where
  "sm_outcome a p c = \<lparr>sm_action = a, sm_previous = p, sm_current = c\<rparr>"

text \<open>\<^verbatim>\<open>UPDATE jobs\<close> of \<^verbatim>\<open>project\<close> and \<^verbatim>\<open>name\<close>, with the unique constraint.\<close>

definition name_taken :: "string \<Rightarrow> string \<Rightarrow> string \<Rightarrow> jobs_db \<Rightarrow> bool" where
  "name_taken jid p n db = sql_exists
     (\<lambda>x. j_job_id x \<noteq> jid \<and> j_project x = p \<and> j_name x = n) (jobs db)"

definition update_scheduled_job ::
    "env \<Rightarrow> string \<Rightarrow> string \<Rightarrow> string \<Rightarrow> string \<Rightarrow> string \<Rightarrow> string \<Rightarrow> bool \<Rightarrow> instant \<Rightarrow> jobs_db
     \<Rightarrow> store_error + (scheduled_mutation_outcome \<times> jobs_db)" where
  "update_scheduled_job e jid p n yaml cron tz enabled t db =
     (case find_job db jid of
        None \<Rightarrow> Inr (sm_outcome Sm_missing None None, db)
      | Some row \<Rightarrow> (case row_to_job e row of
          Inl x \<Rightarrow> Inl x
        | Inr previous \<Rightarrow>
            if schedule_cron previous = None
            then Inr (sm_outcome Sm_not_scheduled (Some previous) (Some previous), db)
            else if project previous \<noteq> p
            then Inr (sm_outcome Sm_project_conflict (Some previous) (Some previous), db)
            else if status previous \<in> {Cancelled, Deleting}
            then Inr (sm_outcome Sm_lifecycle_conflict (Some previous) (Some previous), db)
            else if status previous = Running
                    \<or> (status previous = Queued \<and> current_run_id previous \<noteq> None)
            then Inr (sm_outcome Sm_active_conflict (Some previous) (Some previous), db)
            else if name_taken jid p n db then Inl (DuplicateJobError p n)
            else let db' = update_jobs (\<lambda>j. j_job_id j = jid) (\<lambda>j. j\<lparr>j_project := p, j_name := n,
                       j_config_yaml := protect_text e (jobs_purpose jid) yaml,
                       j_config_hash := sha256 e yaml, j_schedule_cron := Some cron,
                       j_schedule_timezone := tz, j_schedule_enabled := enabled,
                       j_updated_at := Some t\<rparr>) db
                 in (case find_job db' jid of
                       None \<Rightarrow> Inl (RuntimeError ''Scheduled job disappeared during update'')
                     | Some row' \<Rightarrow> (case row_to_job e row' of
                           Inl x \<Rightarrow> Inl x
                         | Inr current \<Rightarrow>
                             Inr (sm_outcome Sm_updated (Some previous) (Some current), db')))))"

definition set_schedule_enabled ::
    "env \<Rightarrow> string \<Rightarrow> bool \<Rightarrow> instant \<Rightarrow> jobs_db
     \<Rightarrow> store_error + (scheduled_mutation_outcome \<times> jobs_db)" where
  "set_schedule_enabled e jid enabled t db =
     (case find_job db jid of
        None \<Rightarrow> Inr (sm_outcome Sm_missing None None, db)
      | Some row \<Rightarrow> (case row_to_job e row of
          Inl x \<Rightarrow> Inl x
        | Inr previous \<Rightarrow>
            if schedule_cron previous = None
            then Inr (sm_outcome Sm_not_scheduled (Some previous) (Some previous), db)
            else if status previous \<in> {Cancelled, Deleting}
            then Inr (sm_outcome Sm_lifecycle_conflict (Some previous) (Some previous), db)
            else if schedule_enabled previous = enabled
            then Inr (sm_outcome Sm_unchanged (Some previous) (Some previous), db)
            else Inr (sm_outcome Sm_updated (Some previous)
                        (Some (previous\<lparr>schedule_enabled := enabled, updated_at := Some t\<rparr>)),
                      update_jobs (\<lambda>j. j_job_id j = jid)
                        (\<lambda>j. j\<lparr>j_schedule_enabled := enabled, j_updated_at := Some t\<rparr>) db)))"

definition restore_scheduled_job :: "env \<Rightarrow> job \<Rightarrow> job \<Rightarrow> jobs_db \<Rightarrow> store_error + (bool \<times> jobs_db)" where
  "restore_scheduled_job e expected previous db =
     (let P = (\<lambda>j. j_job_id j = job_id expected \<and> j_project j = project expected
                 \<and> j_name j = name expected \<and> j_config_hash j = sha256 e (config_yaml expected)
                 \<and> j_schedule_cron j = schedule_cron expected
                 \<and> j_schedule_timezone j = schedule_timezone expected
                 \<and> j_schedule_enabled j = schedule_enabled expected
                 \<and> j_updated_at j = updated_at expected \<and> j_status j = status expected
                 \<and> j_current_run_id j = current_run_id expected)
      in if rowcount P (jobs db) \<noteq> 0 \<and> name_taken (job_id expected) (project previous) (name previous) db
         then Inl (IntegrityError ''UNIQUE constraint failed: jobs.project, jobs.name'')
         else Inr (rowcount P (jobs db) = 1, update_jobs P (\<lambda>j. j\<lparr>j_project := project previous,
                j_name := name previous,
                j_config_yaml := protect_text e (jobs_purpose (job_id previous)) (config_yaml previous),
                j_config_hash := sha256 e (config_yaml previous),
                j_schedule_cron := schedule_cron previous,
                j_schedule_timezone := schedule_timezone previous,
                j_schedule_enabled := schedule_enabled previous,
                j_updated_at := updated_at previous\<rparr>) db))"

definition no_history :: "jobs_db \<Rightarrow> job_row \<Rightarrow> bool" where
  "no_history db j \<longleftrightarrow> \<not> sql_exists (\<lambda>r. r_job_id r = j_job_id j) (job_runs db)
     \<and> \<not> sql_exists (\<lambda>d. d_job_id d = j_job_id j) (webhook_deliveries db)"

definition rollback_scheduled_job_creation :: "string \<Rightarrow> jobs_db \<Rightarrow> bool \<times> jobs_db" where
  "rollback_scheduled_job_creation jid db =
     (let P = (\<lambda>j. j_job_id j = jid \<and> j_schedule_cron j \<noteq> None \<and> j_status j = Queued
                 \<and> j_current_run_id j = None \<and> no_history db j)
      in (rowcount P (jobs db) = 1, delete_jobs P db))"

section \<open>Reads\<close>

definition get_job :: "env \<Rightarrow> string \<Rightarrow> jobs_db \<Rightarrow> store_error + job" where
  "get_job e jid db = (case find_job db jid of
       None \<Rightarrow> Inl (KeyError jid) | Some row \<Rightarrow> row_to_job e row)"

definition get_job_project :: "string \<Rightarrow> jobs_db \<Rightarrow> store_error + string" where
  "get_job_project jid db = (case find_job db jid of
       None \<Rightarrow> Inl (KeyError jid) | Some row \<Rightarrow> Inr (j_project row))"

definition get_job_with_stats ::
    "env \<Rightarrow> string \<Rightarrow> jobs_db \<Rightarrow> store_error + (job \<times> nat \<times> instant option)" where
  "get_job_with_stats e jid db = (case find_job db jid of
       None \<Rightarrow> Inl (KeyError jid)
     | Some row \<Rightarrow> (case row_to_job e row of Inl x \<Rightarrow> Inl x
         | Inr b \<Rightarrow> Inr (b, j_lifetime_run_count row, j_last_run_at row)))"

definition run_is_active :: "string \<Rightarrow> string \<Rightarrow> jobs_db \<Rightarrow> bool" where
  "run_is_active jid rid db = sql_exists
     (\<lambda>(j, r). r_job_id r = j_job_id j \<and> Some (r_run_id r) = j_current_run_id j
        \<and> j_job_id j = jid \<and> j_current_run_id j = Some rid \<and> j_status j = Running
        \<and> r_status r = Running) (List.product (jobs db) (job_runs db))"

definition result_run_is_active :: "string \<Rightarrow> string \<Rightarrow> string \<Rightarrow> jobs_db \<Rightarrow> bool" where
  "result_run_is_active p n rid db = sql_exists
     (\<lambda>j. j_project j = p \<and> j_name j = n \<and> j_current_run_id j = Some rid
        \<and> j_status j \<in> {Queued, Running}) (jobs db)"

definition get_job_runs :: "string \<Rightarrow> nat \<Rightarrow> jobs_db \<Rightarrow> run_row list" where
  "get_job_runs jid lmt db = sql_limit lmt 0
     (sql_order (\<lambda>r. - r_started_at r) (filter (\<lambda>r. r_job_id r = jid) (job_runs db)))"

definition get_job_run_stats :: "string \<Rightarrow> jobs_db \<Rightarrow> nat \<times> instant option" where
  "get_job_run_stats jid db = (case find_job db jid of None \<Rightarrow> (0, None)
     | Some row \<Rightarrow> (j_lifetime_run_count row, j_last_run_at row))"

definition get_queued_run_config :: "env \<Rightarrow> string \<Rightarrow> string \<Rightarrow> jobs_db \<Rightarrow> store_error + string" where
  "get_queued_run_config e jid rid db =
     (case sql_first (\<lambda>(q, j). j_job_id j = q_job_id q \<and> q_job_id q = jid \<and> q_run_id q = rid
             \<and> j_status j = Queued \<and> j_current_run_id j = Some (q_run_id q))
             (List.product (queued_run_snapshots db) (jobs db)) of
        Some (q, j) \<Rightarrow> (case reveal_verified e (q_config_yaml q) (queued_purpose rid) (q_config_hash q) of
            Inl x \<Rightarrow> Inl x
          | Inr None \<Rightarrow> Inl (ValueError ''Queued run configuration hash mismatch'')
          | Inr (Some yaml) \<Rightarrow> Inr yaml)
      | None \<Rightarrow> (case sql_first (\<lambda>j. j_job_id j = jid \<and> j_status j = Queued
               \<and> j_current_run_id j = Some rid) (jobs db) of
            None \<Rightarrow> Inl (RunOwnershipError ''load queued config'' jid rid)
          | Some j \<Rightarrow> (case reveal_verified e (j_config_yaml j) (jobs_purpose jid) (j_config_hash j) of
                Inl x \<Rightarrow> Inl x
              | Inr None \<Rightarrow> Inl (ValueError ''Legacy queued configuration hash mismatch'')
              | Inr (Some yaml) \<Rightarrow> Inr yaml)))"

definition list_stale_queued_jobs ::
    "env \<Rightarrow> instant \<Rightarrow> nat option \<Rightarrow> nat \<Rightarrow> jobs_db \<Rightarrow> store_error + stale_queued_job list" where
  "list_stale_queued_jobs e stale_before limit off db =
     stale_queued_jobs e (stale_queued_rows stale_before limit off db)"

definition list_terminal_webhook_candidates ::
    "env \<Rightarrow> int option \<Rightarrow> jobs_db \<Rightarrow> store_error + terminal_candidate list" where
  "list_terminal_webhook_candidates e limit db =
     (case terminal_webhook_candidate_rows limit db of
        Inl x \<Rightarrow> Inl x | Inr rows \<Rightarrow> terminal_webhook_candidates e db rows)"

definition list_scheduled_jobs :: "jobs_db \<Rightarrow> (string \<times> string option \<times> string \<times> bool) list" where
  "list_scheduled_jobs db =
     map (\<lambda>j. (j_job_id j, j_schedule_cron j, j_schedule_timezone j, j_schedule_enabled j))
       (filter (\<lambda>j. j_schedule_cron j \<noteq> None \<and> j_status j \<notin> {Cancelled, Deleting}) (jobs db))"

section \<open>The life of a run\<close>

definition claimed_run_row ::
    "env \<Rightarrow> string \<Rightarrow> string \<Rightarrow> string \<Rightarrow> string \<Rightarrow> string \<Rightarrow> instant \<Rightarrow> run_row" where
  "claimed_run_row e rid jid trig hash yaml t =
     \<lparr>r_run_id = rid, r_job_id = jid, r_status = Running, r_trigger = trig, r_config_hash = hash,
      r_config_yaml = Some (protect_text e (runs_purpose rid) yaml), r_started_at = t,
      r_heartbeat_at = Some t, r_completed_at = None, r_record_count = None, r_error_count = 0,
      r_failure_code = None, r_webhook_reconciled_at = None,
      r_webhook_reconciliation_failed_at = None\<rparr>"

definition claim_run ::
    "env \<Rightarrow> string \<Rightarrow> string \<Rightarrow> string \<Rightarrow> string \<Rightarrow> instant \<Rightarrow> jobs_db \<Rightarrow> store_error + (bool \<times> jobs_db)" where
  "claim_run e rid jid trig hash started_at db =
     (let P = (\<lambda>j. j_job_id j = jid \<and> j_status j = Queued \<and> j_current_run_id j = Some rid
                 \<and> (j_current_trigger j = Some trig \<or> j_current_trigger j = None))
      in if rowcount P (jobs db) \<noteq> 1 then Inr (False, db)
         else let db1 = update_jobs P (\<lambda>j. j\<lparr>j_status := Running, j_updated_at := Some started_at,
                          j_current_trigger := Some trig\<rparr>) db;
                  config = (case find_snapshot db1 jid rid of
                      None \<Rightarrow> map_option (\<lambda>j. (j_config_yaml j, j_config_hash j, jobs_purpose jid, True))
                                (find_job db1 jid)
                    | Some q \<Rightarrow> Some (q_config_yaml q, q_config_hash q, queued_purpose rid, q_trigger q = trig))
              in (case config of
                    None \<Rightarrow> Inr (False, db)
                  | Some (stored, stored_hash, purpose, trigger_ok) \<Rightarrow>
                      if \<not> trigger_ok \<or> stored_hash \<noteq> hash then Inr (False, db)
                      else (case reveal_verified e stored purpose hash of
                          Inl x \<Rightarrow> Inl x
                        | Inr None \<Rightarrow> Inr (False, db)
                        | Inr (Some yaml) \<Rightarrow>
                            (case insert_run_row (claimed_run_row e rid jid trig hash yaml started_at) db1 of
                               Inl x \<Rightarrow> Inl x
                             | Inr db2 \<Rightarrow> Inr (True,
                                 delete_snapshots (\<lambda>q. q_job_id q = jid \<and> q_run_id q = rid) db2)))))"

definition valid_failure_code :: "string \<Rightarrow> bool" where
  "valid_failure_code s = (case s of [] \<Rightarrow> False
     | c # cs \<Rightarrow> CHR ''a'' \<le> c \<and> c \<le> CHR ''z'' \<and> length cs \<le> 63
         \<and> list_all (\<lambda>x. (CHR ''a'' \<le> x \<and> x \<le> CHR ''z'') \<or> (CHR ''0'' \<le> x \<and> x \<le> CHR ''9'') \<or> x = CHR ''_'') cs)"

definition missed_fire_row :: "string \<Rightarrow> string \<Rightarrow> string \<Rightarrow> instant \<Rightarrow> string \<Rightarrow> run_row" where
  "missed_fire_row rid jid hash t code =
     \<lparr>r_run_id = rid, r_job_id = jid, r_status = Failed, r_trigger = ''scheduled'',
      r_config_hash = hash, r_config_yaml = None, r_started_at = t, r_heartbeat_at = Some t,
      r_completed_at = Some t, r_record_count = Some 0, r_error_count = 1,
      r_failure_code = Some code, r_webhook_reconciled_at = Some t,
      r_webhook_reconciliation_failed_at = None\<rparr>"

definition parent_can_converge :: "job_row \<Rightarrow> string \<Rightarrow> bool" where
  "parent_can_converge j rid \<longleftrightarrow> j_status j \<notin> {Queued, Running, Cancelled, Deleting}
     \<or> (j_status j = Queued \<and> j_current_run_id j \<in> {None, Some rid})"

definition record_scheduled_trigger_failure ::
    "string \<Rightarrow> string \<Rightarrow> instant \<Rightarrow> string \<Rightarrow> jobs_db \<Rightarrow> store_error + (bool \<times> jobs_db)" where
  "record_scheduled_trigger_failure jid rid t code db =
     (if \<not> valid_failure_code code
      then Inl (ValueError ''Scheduled failure code must be a bounded safe identifier'')
      else case sql_first (\<lambda>j. j_job_id j = jid \<and> j_schedule_cron j \<noteq> None \<and> j_schedule_enabled j
                 \<and> j_status j \<notin> {Cancelled, Deleting}) (jobs db) of
        None \<Rightarrow> Inr (False, db)
      | Some row \<Rightarrow>
          (let exists = sql_exists (\<lambda>r. r_run_id r = rid) (job_runs db);
               db1 = (if exists then db
                      else add_run_row (missed_fire_row rid jid (j_config_hash row) t code) db);
               degrade = (\<lambda>j. let j1 = j\<lparr>j_schedule_failure_at := Some t,
                      j_schedule_failure_code := Some code,
                      j_schedule_consecutive_failures := j_schedule_consecutive_failures j + 1\<rparr>
                    in if parent_can_converge row rid
                       then j1\<lparr>j_status := Failed, j_current_run_id := Some rid,
                               j_current_trigger := Some ''scheduled'', j_updated_at := Some t\<rparr>
                       else j1)
           in if exists \<and> (case find_run db jid rid of None \<Rightarrow> True | Some r \<Rightarrow> r_status r \<noteq> Failed)
              then Inr (False, db)
              else Inr (True, update_jobs (\<lambda>j. j_job_id j = jid) degrade db1)))"

definition clear_scheduled_trigger_failure :: "string \<Rightarrow> jobs_db \<Rightarrow> bool \<times> jobs_db" where
  "clear_scheduled_trigger_failure jid db =
     (let P = (\<lambda>j. j_job_id j = jid \<and> j_schedule_cron j \<noteq> None \<and> j_schedule_failure_at j \<noteq> None)
      in (rowcount P (jobs db) = 1, update_jobs P (\<lambda>j. j\<lparr>j_schedule_failure_at := None,
            j_schedule_failure_code := None, j_schedule_consecutive_failures := 0\<rparr>) db))"

definition list_scheduled_trigger_failures :: "jobs_db \<Rightarrow> (string \<times> string option) list" where
  "list_scheduled_trigger_failures db = map (\<lambda>j. (j_job_id j, j_schedule_failure_code j))
     (sql_order (\<lambda>j. (j_schedule_failure_at j, j_job_id j))
       (filter (\<lambda>j. j_schedule_cron j \<noteq> None \<and> j_schedule_enabled j
          \<and> j_status j \<notin> {Cancelled, Deleting} \<and> j_schedule_failure_at j \<noteq> None
          \<and> j_schedule_failure_code j \<noteq> None) (jobs db)))"

definition heartbeat_run :: "string \<Rightarrow> string \<Rightarrow> instant \<Rightarrow> jobs_db \<Rightarrow> store_error + (unit \<times> jobs_db)" where
  "heartbeat_run jid rid t db =
     (let P = (\<lambda>r. r_job_id r = jid \<and> r_run_id r = rid \<and> r_status r = Running
                 \<and> sql_exists (\<lambda>j. j_job_id j = r_job_id r \<and> j_status j = Running
                      \<and> j_current_run_id j = Some (r_run_id r)) (jobs db))
      in if rowcount P (job_runs db) \<noteq> 1 then Inl (RunOwnershipError ''heartbeat'' jid rid)
         else Inr ((), update_runs P (\<lambda>r. r\<lparr>r_heartbeat_at := Some t\<rparr>) db))"

text \<open>The parent half of a terminal transition: exactly one owned running job, or ownership is lost.\<close>

definition settle_owned_parent ::
    "string \<Rightarrow> string \<Rightarrow> string \<Rightarrow> job_status \<Rightarrow> job_status \<Rightarrow> instant \<Rightarrow> jobs_db \<Rightarrow> store_error + jobs_db" where
  "settle_owned_parent op jid rid from s t db =
     (let P = (\<lambda>j. j_job_id j = jid \<and> j_status j = from \<and> j_current_run_id j = Some rid)
      in if rowcount P (jobs db) \<noteq> 1 then Inl (RunOwnershipError op jid rid)
         else Inr (update_jobs P (\<lambda>j. j\<lparr>j_status := s, j_updated_at := Some t\<rparr>) db))"

definition finalize_owned_run ::
    "env \<Rightarrow> string \<Rightarrow> string \<Rightarrow> job_status \<Rightarrow> int \<Rightarrow> int \<Rightarrow> instant \<Rightarrow> instant \<Rightarrow> delivery_create option
     \<Rightarrow> jobs_db \<Rightarrow> store_error + (unit \<times> jobs_db)" where
  "finalize_owned_run e jid rid s records errors completed_at cutoff w db =
     (if \<not> terminal s then Inl (ValueError ''Invalid terminal run status'')
      else case validate_optional_delivery w jid rid s of
        Inl x \<Rightarrow> Inl x
      | Inr _ \<Rightarrow>
          (let P = (\<lambda>r. r_job_id r = jid \<and> r_run_id r = rid \<and> r_status r = Running
                      \<and> null_gt (r_heartbeat_at r) cutoff)
           in if rowcount P (job_runs db) \<noteq> 1 then Inl (RunOwnershipError ''finalize'' jid rid)
              else case settle_owned_parent ''finalize'' jid rid Running s completed_at
                     (update_runs P (\<lambda>r. r\<lparr>r_status := s, r_completed_at := Some completed_at,
                        r_record_count := Some records, r_error_count := errors,
                        r_webhook_reconciled_at := Some completed_at\<rparr>) db) of
                  Inl x \<Rightarrow> Inl x
                | Inr db2 \<Rightarrow> commit_terminal_intent e w completed_at db2))"

definition fail_owned_run ::
    "env \<Rightarrow> string \<Rightarrow> string \<Rightarrow> instant \<Rightarrow> instant option \<Rightarrow> int \<Rightarrow> delivery_create option
     \<Rightarrow> jobs_db \<Rightarrow> store_error + (unit \<times> jobs_db)" where
  "fail_owned_run e jid rid t cutoff errors w db =
     (case validate_optional_delivery w jid rid Failed of
        Inl x \<Rightarrow> Inl x
      | Inr _ \<Rightarrow> (case sql_first (\<lambda>j. j_job_id j = jid \<and> j_current_run_id j = Some rid) (jobs db) of
          None \<Rightarrow> Inl (RunOwnershipError ''fail'' jid rid)
        | Some j \<Rightarrow>
            if j_status j = Queued
            then (case insert_failed_queued_run e jid rid t errors ''preclaim_execution_failure'' db of
                Inl x \<Rightarrow> Inl x
              | Inr db1 \<Rightarrow> (case settle_owned_parent ''fail'' jid rid Queued Failed t db1 of
                    Inl x \<Rightarrow> Inl x
                  | Inr db2 \<Rightarrow> commit_terminal_intent e w t db2))
            else if j_status j \<noteq> Running then Inl (RunOwnershipError ''fail'' jid rid)
            else let P = (\<lambda>r. r_job_id r = jid \<and> r_run_id r = rid \<and> r_status r = Running
                            \<and> (case cutoff of None \<Rightarrow> True | Some c \<Rightarrow> null_gt (r_heartbeat_at r) c))
                 in if rowcount P (job_runs db) \<noteq> 1 then Inl (RunOwnershipError ''fail'' jid rid)
                    else case settle_owned_parent ''fail'' jid rid Running Failed t
                           (update_runs P (\<lambda>r. r\<lparr>r_status := Failed, r_completed_at := Some t,
                              r_record_count := sql_coalesce (r_record_count r) (Some 0),
                              r_error_count := errors, r_webhook_reconciled_at := Some t\<rparr>) db) of
                        Inl x \<Rightarrow> Inl x
                      | Inr db2 \<Rightarrow> commit_terminal_intent e w t db2))"

definition queue_run ::
    "env \<Rightarrow> string \<Rightarrow> job_status \<Rightarrow> string option \<Rightarrow> string \<Rightarrow> string \<Rightarrow> instant \<Rightarrow> instant option
     \<Rightarrow> string option \<Rightarrow> bool \<Rightarrow> jobs_db \<Rightarrow> store_error + (bool \<times> jobs_db)" where
  "queue_run e jid expected_status expected_run_id new_run_id new_trigger queued_at stale_before
       expected_yaml require_enabled db =
     (if expected_status \<in> {Cancelled, Deleting} then Inr (False, db)
      else let P = (\<lambda>j. j_job_id j = jid \<and> j_status j = expected_status
                      \<and> j_current_run_id j = expected_run_id
                      \<and> (case stale_before of None \<Rightarrow> True
                         | Some t \<Rightarrow> j_updated_at j = None \<or> null_le (j_updated_at j) t)
                      \<and> (case expected_yaml of None \<Rightarrow> True | Some y \<Rightarrow> j_config_hash j = sha256 e y)
                      \<and> (require_enabled \<longrightarrow> j_schedule_enabled j))
           in if rowcount P (jobs db) \<noteq> 1 then Inr (False, db)
              else let db1 = update_jobs P (\<lambda>j. j\<lparr>j_status := Queued, j_updated_at := Some queued_at,
                          j_current_run_id := Some new_run_id, j_current_trigger := Some new_trigger\<rparr>) db
                   in (case check_admission e db1 of
                         Inl x \<Rightarrow> Inl x
                       | Inr _ \<Rightarrow> (case find_job db1 jid of
                           None \<Rightarrow> Inl (RuntimeError ''Queued parent disappeared inside its transaction'')
                         | Some j \<Rightarrow>
                             (case reveal_verified e (j_config_yaml j) (jobs_purpose jid) (j_config_hash j) of
                                Inl x \<Rightarrow> Inl x
                              | Inr None \<Rightarrow> Inl (ValueError ''Queued parent configuration hash mismatch'')
                              | Inr (Some yaml) \<Rightarrow>
                                  (case insert_snapshot_row \<lparr>q_run_id = new_run_id, q_job_id = jid,
                                       q_trigger = new_trigger, q_config_hash = j_config_hash j,
                                       q_config_yaml = protect_text e (queued_purpose new_run_id) yaml,
                                       q_queued_at = queued_at\<rparr> db1 of
                                     Inl x \<Rightarrow> Inl x
                                   | Inr db2 \<Rightarrow> Inr (True, db2))))))"

definition fail_queued_run ::
    "env \<Rightarrow> string \<Rightarrow> string \<Rightarrow> instant \<Rightarrow> jobs_db \<Rightarrow> store_error + (bool \<times> jobs_db)" where
  "fail_queued_run e jid rid t db =
     (let P = (\<lambda>j. j_job_id j = jid \<and> j_status j = Queued \<and> j_current_run_id j = Some rid)
      in if rowcount P (jobs db) \<noteq> 1 then Inr (False, db)
         else (case insert_failed_queued_run e jid rid t 1 ''enqueue_failure''
                 (update_jobs P (\<lambda>j. j\<lparr>j_status := Failed, j_updated_at := Some t\<rparr>) db) of
             Inl x \<Rightarrow> Inl x
           | Inr db' \<Rightarrow> Inr (True, db')))"

definition rollback_queued_submission ::
    "string \<Rightarrow> string \<Rightarrow> jobs_db \<Rightarrow> store_error + (bool \<times> jobs_db)" where
  "rollback_queued_submission jid rid db =
     (let owned = (\<lambda>j. j_job_id j = jid \<and> j_status j = Queued \<and> j_current_run_id j = Some rid)
      in if \<not> sql_exists (\<lambda>j. owned j \<and> no_history db j) (jobs db) then Inr (False, db)
         else let db1 = db\<lparr>scrape_idempotency := sql_delete
                    (\<lambda>i. i_job_id i = jid \<and> i_run_id i = rid) (scrape_idempotency db)\<rparr>;
                  db2 = delete_snapshots (\<lambda>q. q_job_id q = jid \<and> q_run_id q = rid) db1
              in if rowcount owned (jobs db2) \<noteq> 1
                 then Inl (RuntimeError ''Queued submission rollback lost ownership'')
                 else Inr (True, delete_jobs owned db2))"

end
