(* ===== verification/Store_Abs.thy ===== *)
theory Store_Abs
  imports Lifecycle Job_Store
begin

text \<open>
  The abstraction from \<open>jobs_db\<close> to the lifecycle of \<open>Lifecycle\<close>, the
  well-formedness of the tables (the primary keys and unique constraints of the schema),
  and what each primitive statement does to both.
\<close>

definition job_view :: "job_row \<Rightarrow> job_status \<times> string option" where
  "job_view j = (j_status j, j_current_run_id j)"

definition run_view :: "run_row \<Rightarrow> string \<times> job_status" where
  "run_view r = (r_job_id r, r_status r)"

definition abs_db :: "jobs_db \<Rightarrow> lifecycle" where
  "abs_db db = \<lparr>job_state = tmap j_job_id job_view (jobs db),
     run_state = tmap r_run_id run_view (job_runs db),
     snap_state = tmap q_run_id q_job_id (queued_run_snapshots db)\<rparr>"

definition job_name :: "job_row \<Rightarrow> string \<times> string" where
  "job_name j = (j_project j, j_name j)"

definition idem_key :: "idempotency_row \<Rightarrow> string \<times> string" where
  "idem_key i = (i_caller_scope i, i_key_digest i)"

definition wf_db :: "jobs_db \<Rightarrow> bool" where
  "wf_db db \<longleftrightarrow> unique_on j_job_id (jobs db) \<and> unique_on job_name (jobs db)
     \<and> unique_on r_run_id (job_runs db) \<and> unique_on q_run_id (queued_run_snapshots db)
     \<and> unique_on d_delivery_id (webhook_deliveries db) \<and> unique_on idem_key (scrape_idempotency db)"

text \<open>One store step is one lifecycle step or leaves the lifecycle alone, and keeps the constraints.\<close>

definition simulated :: "nat \<Rightarrow> jobs_db \<Rightarrow> jobs_db \<Rightarrow> bool" where
  "simulated n db db' \<longleftrightarrow> wf_db db' \<and> (life_step n)\<^sup>=\<^sup>= (abs_db db) (abs_db db')"

named_theorems abs_simps \<open>the abstraction of each primitive statement\<close>

lemma wf_dbD:
  assumes "wf_db db"
  shows "unique_on j_job_id (jobs db)" "unique_on job_name (jobs db)"
    "unique_on r_run_id (job_runs db)" "unique_on q_run_id (queued_run_snapshots db)"
    "unique_on d_delivery_id (webhook_deliveries db)" "unique_on idem_key (scrape_idempotency db)"
  using assms by (simp_all add: wf_db_def)

lemma simulated_stutter: "wf_db db' \<Longrightarrow> abs_db db' = abs_db db \<Longrightarrow> simulated n db db'"
  by (simp add: simulated_def)

lemma simulated_step: "wf_db db' \<Longrightarrow> life_step n (abs_db db) (abs_db db') \<Longrightarrow> simulated n db db'"
  by (simp add: simulated_def)

lemma simulated_step_eq:
  "wf_db db' \<Longrightarrow> life_step n (abs_db db) s \<Longrightarrow> abs_db db' = s \<Longrightarrow> simulated n db db'"
  by (simp add: simulated_def)

section \<open>Reading through the abstraction\<close>

lemma job_state_in: "wf_db db \<Longrightarrow> j \<in> set (jobs db) \<Longrightarrow> job_state (abs_db db) (j_job_id j) = Some (j_status j, j_current_run_id j)"
  by (simp add: abs_db_def tmap_in [OF wf_dbD(1)] job_view_def)

lemma run_state_in: "wf_db db \<Longrightarrow> r \<in> set (job_runs db) \<Longrightarrow> run_state (abs_db db) (r_run_id r) = Some (r_job_id r, r_status r)"
  by (simp add: abs_db_def tmap_in [OF wf_dbD(3)] run_view_def)

lemma job_state_None: "job_state (abs_db db) jid = None \<longleftrightarrow> (\<forall>j \<in> set (jobs db). j_job_id j \<noteq> jid)"
  by (simp add: abs_db_def tmap_None)

lemma run_state_None: "run_state (abs_db db) rid = None \<longleftrightarrow> (\<forall>r \<in> set (job_runs db). r_run_id r \<noteq> rid)"
  by (simp add: abs_db_def tmap_None)

lemma snap_state_None: "snap_state (abs_db db) rid = None \<longleftrightarrow> (\<forall>q \<in> set (queued_run_snapshots db). q_run_id q \<noteq> rid)"
  by (simp add: abs_db_def tmap_None)

lemma job_state_Some:
  "wf_db db \<Longrightarrow> job_state (abs_db db) jid = Some (st, r) \<longleftrightarrow>
     (\<exists>j \<in> set (jobs db). j_job_id j = jid \<and> j_status j = st \<and> j_current_run_id j = r)"
  by (simp add: abs_db_def tmap_Some [OF wf_dbD(1)] job_view_def)

lemma run_state_Some:
  "wf_db db \<Longrightarrow> run_state (abs_db db) rid = Some (jid, st) \<longleftrightarrow>
     (\<exists>r \<in> set (job_runs db). r_run_id r = rid \<and> r_job_id r = jid \<and> r_status r = st)"
  by (auto simp: abs_db_def tmap_Some [OF wf_dbD(3)] run_view_def)

lemma snap_state_Some:
  "wf_db db \<Longrightarrow> snap_state (abs_db db) rid = Some jid \<longleftrightarrow>
     (\<exists>q \<in> set (queued_run_snapshots db). q_run_id q = rid \<and> q_job_id q = jid)"
  by (simp add: abs_db_def tmap_Some [OF wf_dbD(4)])

lemma find_job_Some: "find_job db jid = Some j \<Longrightarrow> j \<in> set (jobs db) \<and> j_job_id j = jid"
  by (auto simp: find_job_def dest: sql_first_Some)

lemma find_job_None: "find_job db jid = None \<longleftrightarrow> job_state (abs_db db) jid = None"
  by (auto simp: find_job_def sql_first_None job_state_None)

lemma find_job_state:
  "wf_db db \<Longrightarrow> find_job db jid = Some j \<Longrightarrow> job_state (abs_db db) jid = Some (j_status j, j_current_run_id j)"
  using find_job_Some job_state_in by blast

lemma find_job_in: "wf_db db \<Longrightarrow> j \<in> set (jobs db) \<Longrightarrow> find_job db (j_job_id j) = Some j"
  unfolding find_job_def by (rule sql_first_key [OF wf_dbD(1)]) auto

lemma find_run_Some: "find_run db jid rid = Some r \<Longrightarrow> r \<in> set (job_runs db) \<and> r_job_id r = jid \<and> r_run_id r = rid"
  by (auto simp: find_run_def dest: sql_first_Some)

lemma find_run_in: "wf_db db \<Longrightarrow> r \<in> set (job_runs db) \<Longrightarrow> find_run db (r_job_id r) (r_run_id r) = Some r"
  unfolding find_run_def by (rule sql_first_key [OF wf_dbD(3)]) auto

lemma owned_job:
  assumes "wf_db db" and "rowcount P (jobs db) = 1" and "\<And>x. P x \<Longrightarrow> j_job_id x = jid"
  obtains j where "j \<in> set (jobs db)" "P j" "j_job_id j = jid" "find_job db jid = Some j"
proof -
  have "\<exists>j \<in> set (jobs db). P j"
    using rowcount_key_1 [OF wf_dbD(1) [OF assms(1)], of P] assms(2,3) by auto
  then show thesis using that assms(3) find_job_in [OF assms(1)] by metis
qed

lemma owned_run:
  assumes "wf_db db" and "rowcount P (job_runs db) = 1" and "\<And>x. P x \<Longrightarrow> r_run_id x = rid"
  obtains r where "r \<in> set (job_runs db)" "P r" "r_run_id r = rid"
proof -
  have "\<exists>r \<in> set (job_runs db). P r"
    using rowcount_key_1 [OF wf_dbD(3) [OF assms(1)], of P] assms(2,3) by auto
  then show thesis using that assms(3) by metis
qed

section \<open>What each statement does to the abstraction\<close>

lemma abs_webhook_deliveries [abs_simps]: "abs_db (db\<lparr>webhook_deliveries := t\<rparr>) = abs_db db"
  by (simp add: abs_db_def)

lemma abs_scrape_idempotency [abs_simps]: "abs_db (db\<lparr>scrape_idempotency := t\<rparr>) = abs_db db"
  by (simp add: abs_db_def)

lemma abs_update_jobs:
  assumes "wf_db db" and "j \<in> set (jobs db)" and "P j"
    and "\<And>x. P x \<Longrightarrow> j_job_id x = j_job_id j" and "\<And>x. j_job_id (f x) = j_job_id x"
  shows "abs_db (update_jobs P f db) = (abs_db db)\<lparr>job_state :=
    (job_state (abs_db db))(j_job_id j \<mapsto> (j_status (f j), j_current_run_id (f j)))\<rparr>"
proof -
  have "tmap j_job_id job_view (sql_update P f (jobs db)) =
      (tmap j_job_id job_view (jobs db))(j_job_id j \<mapsto> job_view (f j))"
    by (rule tmap_update) (use assms(2-5) wf_dbD(1) [OF assms(1)] in \<open>blast+\<close>)
  then show ?thesis by (simp add: abs_db_def update_jobs_def job_view_def)
qed

lemma abs_update_jobs_same [abs_simps]:
  assumes "\<And>x. j_job_id (f x) = j_job_id x" and "\<And>x. j_status (f x) = j_status x"
    and "\<And>x. j_current_run_id (f x) = j_current_run_id x"
  shows "abs_db (update_jobs P f db) = abs_db db"
  using assms by (simp add: abs_db_def update_jobs_def tmap_update_same job_view_def)

lemma abs_update_runs:
  assumes "wf_db db" and "r \<in> set (job_runs db)" and "P r"
    and "\<And>x. P x \<Longrightarrow> r_run_id x = r_run_id r" and "\<And>x. r_run_id (f x) = r_run_id x"
  shows "abs_db (update_runs P f db) = (abs_db db)\<lparr>run_state :=
    (run_state (abs_db db))(r_run_id r \<mapsto> (r_job_id (f r), r_status (f r)))\<rparr>"
proof -
  have "tmap r_run_id run_view (sql_update P f (job_runs db)) =
      (tmap r_run_id run_view (job_runs db))(r_run_id r \<mapsto> run_view (f r))"
    by (rule tmap_update) (use assms(2-5) wf_dbD(3) [OF assms(1)] in \<open>blast+\<close>)
  then show ?thesis by (simp add: abs_db_def update_runs_def run_view_def)
qed

lemma abs_update_runs_same [abs_simps]:
  assumes "\<And>x. r_run_id (f x) = r_run_id x" and "\<And>x. r_status (f x) = r_status x"
    and "\<And>x. r_job_id (f x) = r_job_id x"
  shows "abs_db (update_runs P f db) = abs_db db"
  using assms by (simp add: abs_db_def update_runs_def tmap_update_same run_view_def)

lemma lifetime_summary_simps [simp]:
  "j_job_id (lifetime_summary n j) = j_job_id j" "j_status (lifetime_summary n j) = j_status j"
  "j_current_run_id (lifetime_summary n j) = j_current_run_id j"
  "j_project (lifetime_summary n j) = j_project j" "j_name (lifetime_summary n j) = j_name j"
  by (simp_all add: lifetime_summary_def)

lemma abs_add_run_row:
  assumes "run_state (abs_db db) (r_run_id n) = None"
  shows "abs_db (add_run_row n db) = (abs_db db)\<lparr>run_state :=
    (run_state (abs_db db))(r_run_id n \<mapsto> (r_job_id n, r_status n))\<rparr>"
  using assms by (simp add: abs_db_def add_run_row_def tmap_None tmap_append tmap_update_same
      job_view_def run_view_def)

lemma insert_run_rowE:
  assumes "insert_run_row n db = Inr db'"
  shows "db' = add_run_row n db" and "run_state (abs_db db) (r_run_id n) = None"
  using assms by (auto simp: insert_run_row_def sql_exists_iff run_state_None split: if_splits)

lemma insert_jobs_rowE:
  assumes "insert_jobs_row r db = Inr db'"
  shows "db' = db\<lparr>jobs := jobs db @ [r]\<rparr>" and "job_state (abs_db db) (j_job_id r) = None"
    and "\<forall>x \<in> set (jobs db). job_name x \<noteq> job_name r"
  using assms by (auto simp: insert_jobs_row_def sql_exists_iff job_state_None job_name_def split: if_splits)

lemma insert_snapshot_rowE:
  assumes "insert_snapshot_row q db = Inr db'"
  shows "db' = db\<lparr>queued_run_snapshots := queued_run_snapshots db @ [q]\<rparr>"
    and "snap_state (abs_db db) (q_run_id q) = None"
  using assms by (auto simp: insert_snapshot_row_def sql_exists_iff snap_state_None split: if_splits)

lemma insert_idempotency_rowE:
  assumes "insert_idempotency_row i db = Inr db'"
  shows "db' = db\<lparr>scrape_idempotency := scrape_idempotency db @ [i]\<rparr>"
    and "\<forall>x \<in> set (scrape_idempotency db). idem_key x \<noteq> idem_key i"
  using assms by (auto simp: insert_idempotency_row_def sql_exists_iff idem_key_def split: if_splits)

lemma abs_append_job:
  assumes "job_state (abs_db db) (j_job_id r) = None"
  shows "abs_db (db\<lparr>jobs := jobs db @ [r]\<rparr>) = (abs_db db)\<lparr>job_state :=
    (job_state (abs_db db))(j_job_id r \<mapsto> (j_status r, j_current_run_id r))\<rparr>"
  using assms by (simp add: abs_db_def tmap_None tmap_append job_view_def)

lemma abs_append_snapshot:
  assumes "snap_state (abs_db db) (q_run_id q) = None"
  shows "abs_db (db\<lparr>queued_run_snapshots := queued_run_snapshots db @ [q]\<rparr>) = (abs_db db)\<lparr>snap_state :=
    (snap_state (abs_db db))(q_run_id q \<mapsto> q_job_id q)\<rparr>"
  using assms by (simp add: abs_db_def tmap_None tmap_append)

lemma abs_delete_snapshot:
  assumes "wf_db db"
  shows "abs_db (delete_snapshots (\<lambda>q. q_job_id q = jid \<and> q_run_id q = rid) db) =
    (abs_db db)\<lparr>snap_state := drop_snap jid rid (snap_state (abs_db db))\<rparr>"
proof -
  have "tmap q_run_id q_job_id (sql_delete (\<lambda>q. q_job_id q = jid \<and> q_run_id q = rid) (queued_run_snapshots db))
      = drop_snap jid rid (tmap q_run_id q_job_id (queued_run_snapshots db))"
    by (rule ext) (auto simp: tmap_delete [OF wf_dbD(4) [OF assms]] drop_snap_def
        tmap_Some [OF wf_dbD(4) [OF assms]])
  then show ?thesis by (simp add: abs_db_def delete_snapshots_def)
qed

section \<open>Constraints\<close>

lemma wf_webhooks: "wf_db (db\<lparr>webhook_deliveries := t\<rparr>) \<longleftrightarrow>
    wf_db (db\<lparr>webhook_deliveries := []\<rparr>) \<and> unique_on d_delivery_id t"
  by (auto simp: wf_db_def unique_on_def)

lemma wf_update_jobs:
  assumes "wf_db db" and "\<And>x. j_job_id (f x) = j_job_id x"
    and "\<And>x. j_project (f x) = j_project x" and "\<And>x. j_name (f x) = j_name x"
  shows "wf_db (update_jobs P f db)"
  using assms by (simp add: wf_db_def update_jobs_def unique_on_update job_name_def)

lemma wf_update_runs:
  assumes "wf_db db" and "\<And>x. r_run_id (f x) = r_run_id x"
  shows "wf_db (update_runs P f db)"
  using assms by (simp add: wf_db_def update_runs_def unique_on_update)

lemma wf_delete_snapshots: "wf_db db \<Longrightarrow> wf_db (delete_snapshots P db)"
  by (simp add: wf_db_def delete_snapshots_def unique_on_delete)

lemma wf_add_run_row:
  "wf_db db \<Longrightarrow> run_state (abs_db db) (r_run_id n) = None \<Longrightarrow> wf_db (add_run_row n db)"
  by (auto simp: wf_db_def add_run_row_def unique_on_append run_state_None unique_on_update job_name_def)

lemma wf_append_job:
  "wf_db db \<Longrightarrow> job_state (abs_db db) (j_job_id r) = None \<Longrightarrow> \<forall>x \<in> set (jobs db). job_name x \<noteq> job_name r
   \<Longrightarrow> wf_db (db\<lparr>jobs := jobs db @ [r]\<rparr>)"
  by (simp add: wf_db_def unique_on_append job_state_None)

lemma wf_append_snapshot:
  "wf_db db \<Longrightarrow> snap_state (abs_db db) (q_run_id q) = None
   \<Longrightarrow> wf_db (db\<lparr>queued_run_snapshots := queued_run_snapshots db @ [q]\<rparr>)"
  by (simp add: wf_db_def unique_on_append snap_state_None)

lemma wf_append_idempotency:
  "wf_db db \<Longrightarrow> \<forall>x \<in> set (scrape_idempotency db). idem_key x \<noteq> idem_key i
   \<Longrightarrow> wf_db (db\<lparr>scrape_idempotency := scrape_idempotency db @ [i]\<rparr>)"
  by (simp add: wf_db_def unique_on_append)

lemma wf_delete_idempotency:
  "wf_db db \<Longrightarrow> wf_db (db\<lparr>scrape_idempotency := sql_delete P (scrape_idempotency db)\<rparr>)"
  by (simp add: wf_db_def unique_on_delete)

lemma wf_delete_jobs: "wf_db db \<Longrightarrow> wf_db (delete_jobs P db)"
  by (simp add: wf_db_def delete_jobs_def unique_on_delete Let_def)

lemma wf_update_deliveries:
  assumes "wf_db db" and "\<And>x. d_delivery_id (f x) = d_delivery_id x"
  shows "wf_db (update_deliveries P f db)"
  using assms by (simp add: wf_db_def update_deliveries_def unique_on_update)

lemma abs_update_deliveries [abs_simps]: "abs_db (update_deliveries P f db) = abs_db db"
  by (simp add: abs_db_def update_deliveries_def)

lemma wf_empty_db: "wf_db empty_db"
  by (simp add: wf_db_def empty_db_def unique_on_def)

lemma abs_empty_db: "abs_db empty_db = empty_lifecycle"
  by (simp add: abs_db_def empty_db_def empty_lifecycle_def)

text \<open>Counting admitted rows is counting active jobs.\<close>

lemma rowcount_active:
  assumes "wf_db db"
  shows "rowcount is_active (jobs db) = card (active_jobs (abs_db db))"
proof -
  have "active_jobs (abs_db db) = set (map j_job_id (filter is_active (jobs db)))"
    by (auto simp: active_jobs_def job_state_Some [OF assms] is_active_def image_iff)
  moreover have "distinct (map j_job_id (filter is_active (jobs db)))"
    using wf_dbD(1) [OF assms] by (simp add: unique_on_def distinct_map inj_on_def)
  ultimately show ?thesis
    by (simp only: distinct_card rowcount_def length_map)
qed

lemma admitted:
  assumes "check_admission e db = Inr u" and "wf_db db"
  shows "card (active_jobs (abs_db db)) \<le> workers_max_accepted_runs e"
  using assms rowcount_active [OF assms(2)] by (auto simp: check_admission_def split: if_splits)

section \<open>Compare-and-set\<close>

text \<open>The \<^verbatim>\<open>UPDATE ... WHERE\<close> on a key that changed one row, on jobs and on runs.\<close>

lemma job_cas:
  assumes "rowcount P (jobs db) = 1" and "wf_db db" and "\<And>x. P x \<Longrightarrow> j_job_id x = jid"
    and "\<And>x. j_job_id (f x) = j_job_id x"
    and "\<And>x. j_project (f x) = j_project x" and "\<And>x. j_name (f x) = j_name x"
  obtains j where "j \<in> set (jobs db)" "P j" "j_job_id j = jid" "find_job db jid = Some j"
    "job_state (abs_db db) jid = Some (j_status j, j_current_run_id j)"
    "abs_db (update_jobs P f db) = (abs_db db)\<lparr>job_state :=
       (job_state (abs_db db))(jid \<mapsto> (j_status (f j), j_current_run_id (f j)))\<rparr>"
    "wf_db (update_jobs P f db)"
proof -
  obtain j where j: "j \<in> set (jobs db)" "P j" "j_job_id j = jid" "find_job db jid = Some j"
    by (rule owned_job [OF assms(2,1,3)])
  show thesis
  proof (rule that [OF j])
    show "job_state (abs_db db) jid = Some (j_status j, j_current_run_id j)"
      using job_state_in [OF assms(2) j(1)] j(3) by simp
    show "abs_db (update_jobs P f db) = (abs_db db)\<lparr>job_state :=
       (job_state (abs_db db))(jid \<mapsto> (j_status (f j), j_current_run_id (f j)))\<rparr>"
      using abs_update_jobs [of db j P f] assms(2-4) j by auto
    show "wf_db (update_jobs P f db)"
      by (rule wf_update_jobs [OF assms(2,4,5,6)])
  qed
qed

lemma run_cas:
  assumes "rowcount P (job_runs db) = 1" and "wf_db db" and "\<And>x. P x \<Longrightarrow> r_run_id x = rid"
    and "\<And>x. r_run_id (f x) = r_run_id x"
  obtains r where "r \<in> set (job_runs db)" "P r" "r_run_id r = rid"
    "run_state (abs_db db) rid = Some (r_job_id r, r_status r)"
    "abs_db (update_runs P f db) = (abs_db db)\<lparr>run_state :=
       (run_state (abs_db db))(rid \<mapsto> (r_job_id (f r), r_status (f r)))\<rparr>"
    "wf_db (update_runs P f db)"
proof -
  obtain r where r: "r \<in> set (job_runs db)" "P r" "r_run_id r = rid"
    by (rule owned_run [OF assms(2,1,3)])
  show thesis
  proof (rule that [OF r])
    show "run_state (abs_db db) rid = Some (r_job_id r, r_status r)"
      using run_state_in [OF assms(2) r(1)] r(3) by simp
    show "abs_db (update_runs P f db) = (abs_db db)\<lparr>run_state :=
       (run_state (abs_db db))(rid \<mapsto> (r_job_id (f r), r_status (f r)))\<rparr>"
      using abs_update_runs [of db r P f] assms(2-4) r by auto
    show "wf_db (update_runs P f db)"
      by (rule wf_update_runs [OF assms(2,4)])
  qed
qed

lemma jobs_update_runs [simp]: "jobs (update_runs P f db) = jobs db"
  by (simp add: update_runs_def)

lemma runs_update_jobs [simp]: "job_runs (update_jobs P f db) = job_runs db"
  by (simp add: update_jobs_def)

end
