(* ===== verification/Job_Deletion.thy ===== *)
theory Job_Deletion
  imports Job_Model
begin

text \<open>
  Cancellation and resumable deletion, \<^verbatim>\<open>storage/job_deletion.py\<close>. Cancelling ends the
  exact accepted run; deletion is a reservation (\<open>Deleting\<close>, with an immutable result
  policy) followed by a finalisation that removes every row of the job in one transaction.
\<close>

definition cancel_outcome ::
    "cancellation_action \<Rightarrow> string \<Rightarrow> string option \<Rightarrow> job_status option \<Rightarrow> job_status option
     \<Rightarrow> cancellation_outcome" where
  "cancel_outcome a jid rid prior result = \<lparr>co_action = a, co_job_id = jid, co_run_id = rid,
     co_prior_status = prior, co_resulting_status = result\<rparr>"

definition cancel_parent ::
    "string \<Rightarrow> string option \<Rightarrow> job_status \<Rightarrow> instant \<Rightarrow> jobs_db
     \<Rightarrow> store_error + (cancellation_outcome \<times> jobs_db)" where
  "cancel_parent jid rid prior t db =
     (let P = (\<lambda>j. j_job_id j = jid \<and> j_status j = prior \<and> j_current_run_id j = rid)
      in if rowcount P (jobs db) \<noteq> 1
         then Inl (RuntimeError ''Job cancellation lost ownership inside its transaction'')
         else Inr (cancel_outcome Ca_cancelled jid rid (Some prior) (Some Cancelled),
                   update_jobs P (\<lambda>j. j\<lparr>j_status := Cancelled, j_schedule_enabled := False,
                     j_updated_at := Some t\<rparr>) db))"

definition cancel_job ::
    "string \<Rightarrow> instant \<Rightarrow> string option \<Rightarrow> jobs_db \<Rightarrow> store_error + (cancellation_outcome \<times> jobs_db)" where
  "cancel_job jid t expected_run_id db =
     (case find_job db jid of
        None \<Rightarrow> Inr (cancel_outcome Ca_missing jid None None None, db)
      | Some j \<Rightarrow>
          (let prior = j_status j; rid = j_current_run_id j in
           if expected_run_id \<noteq> None \<and> rid \<noteq> expected_run_id
           then Inr (cancel_outcome Ca_run_conflict jid rid (Some prior) (Some prior), db)
           else if prior = Cancelled
           then Inr (cancel_outcome Ca_already_cancelled jid rid (Some prior) (Some Cancelled), db)
           else if prior \<notin> {Queued, Running}
           then Inr (cancel_outcome Ca_conflict jid rid (Some prior) (Some prior), db)
           else if prior = Running
           then (case rid of
               None \<Rightarrow> Inl (RuntimeError ''Running job cannot be cancelled without current_run_id'')
             | Some r \<Rightarrow>
                 (let P = (\<lambda>x. r_job_id x = jid \<and> r_run_id x = r \<and> r_status x = Running)
                  in if rowcount P (job_runs db) \<noteq> 1
                     then Inl (RuntimeError ''Running job cancellation could not update its exact run'')
                     else cancel_parent jid rid prior t
                            (update_runs P (\<lambda>x. x\<lparr>r_status := Cancelled, r_completed_at := Some t\<rparr>) db)))
           else cancel_parent jid rid prior t db))"

definition reservation ::
    "deletion_reservation_action \<Rightarrow> string \<Rightarrow> string option \<Rightarrow> job_status option \<Rightarrow> bool \<Rightarrow> string list
     \<Rightarrow> deletion_reservation_outcome" where
  "reservation a jid rid prior policy owned = \<lparr>dr_action = a, dr_job_id = jid, dr_run_id = rid,
     dr_prior_status = prior, dr_delete_results = policy, dr_owned_run_ids = owned\<rparr>"

definition owned_run_ids :: "jobs_db \<Rightarrow> string \<Rightarrow> string option \<Rightarrow> string list" where
  "owned_run_ids db jid rid =
     sorted_list_of_set (set (map r_run_id (filter (\<lambda>r. r_job_id r = jid) (job_runs db)))
       \<union> set_option rid)"

definition has_pending_webhook :: "jobs_db \<Rightarrow> string \<Rightarrow> bool" where
  "has_pending_webhook db jid =
     sql_exists (\<lambda>d. d_job_id d = jid \<and> d_status d = Pending) (webhook_deliveries db)"

definition reserve_job_deletion ::
    "string \<Rightarrow> bool \<Rightarrow> instant \<Rightarrow> jobs_db \<Rightarrow> store_error + (deletion_reservation_outcome \<times> jobs_db)" where
  "reserve_job_deletion jid policy t db =
     (case find_job db jid of
        None \<Rightarrow> Inr (reservation Dr_missing jid None None policy [], db)
      | Some j \<Rightarrow>
          (let prior = j_status j; rid = j_current_run_id j in
           if prior \<in> {Queued, Running}
           then Inr (reservation Dr_active_conflict jid rid (Some prior) policy [], db)
           else if prior = Deleting \<and> j_delete_results_on_delete j \<noteq> Some policy
           then Inr (reservation Dr_policy_conflict jid rid (Some prior) policy [], db)
           else if has_pending_webhook db jid
           then Inr (reservation Dr_pending_webhook_conflict jid rid (Some prior) policy [], db)
           else if prior = Deleting
           then Inr (reservation Dr_resumed jid rid (Some prior) policy (owned_run_ids db jid rid), db)
           else let P = (\<lambda>x. j_job_id x = jid \<and> j_status x = prior \<and> j_current_run_id x = rid)
                in if rowcount P (jobs db) \<noteq> 1
                   then Inl (RuntimeError ''Deletion reservation lost ownership inside transaction'')
                   else Inr (reservation Dr_created jid rid (Some prior) policy (owned_run_ids db jid rid),
                             update_jobs P (\<lambda>x. x\<lparr>j_status := Deleting, j_schedule_enabled := False,
                               j_updated_at := Some t, j_deletion_requested_at := Some t,
                               j_delete_results_on_delete := Some policy\<rparr>) db)))"

definition finalization :: "deletion_finalization_action \<Rightarrow> string \<Rightarrow> deletion_finalization_outcome" where
  "finalization a jid = \<lparr>df_action = a, df_job_id = jid\<rparr>"

definition remove_job_rows :: "string \<Rightarrow> jobs_db \<Rightarrow> jobs_db" where
  "remove_job_rows jid db = db\<lparr>
     webhook_deliveries := sql_delete (\<lambda>d. d_job_id d = jid) (webhook_deliveries db),
     scrape_idempotency := sql_delete (\<lambda>i. i_job_id i = jid) (scrape_idempotency db),
     queued_run_snapshots := sql_delete (\<lambda>q. q_job_id q = jid) (queued_run_snapshots db),
     job_runs := sql_delete (\<lambda>r. r_job_id r = jid) (job_runs db)\<rparr>"

definition finalize_job_deletion ::
    "string \<Rightarrow> bool \<Rightarrow> instant option \<Rightarrow> jobs_db
     \<Rightarrow> store_error + (deletion_finalization_outcome \<times> jobs_db)" where
  "finalize_job_deletion jid policy preserve_after db =
     (case find_job db jid of
        None \<Rightarrow> Inr (finalization Df_missing jid, db)
      | Some j \<Rightarrow>
          if j_status j \<noteq> Deleting then Inr (finalization Df_not_reserved jid, db)
          else if j_delete_results_on_delete j \<noteq> Some policy
          then Inr (finalization Df_policy_conflict jid, db)
          else if has_pending_webhook db jid
          then Inr (finalization Df_pending_webhook_conflict jid, db)
          else if (case preserve_after of None \<Rightarrow> False
                   | Some t \<Rightarrow> sql_exists (\<lambda>i. i_job_id i = jid \<and> i_expires_at i > t) (scrape_idempotency db))
          then Inr (finalization Df_unexpired_idempotency_conflict jid, db)
          else let P = (\<lambda>x. j_job_id x = jid \<and> j_status x = Deleting
                          \<and> j_delete_results_on_delete x = Some policy);
                   db1 = remove_job_rows jid db
               in if rowcount P (jobs db1) \<noteq> 1
                  then Inl (RuntimeError ''Final job deletion lost its persisted reservation'')
                  else Inr (finalization Df_deleted jid, delete_jobs P db1))"

end
