(* ===== verification/Job_Retention.thy ===== *)
theory Job_Retention
  imports Job_Model
begin

text \<open>
  History retention, \<^verbatim>\<open>storage/job_retention.py\<close>: which ad-hoc jobs may be compacted and
  which scheduled runs may be pruned, and the pruning of one run with its delivery
  tombstones.
\<close>

definition settled_delivery :: "instant \<Rightarrow> delivery_row \<Rightarrow> bool" where
  "settled_delivery tombstone_before d \<longleftrightarrow>
     \<not> (d_status d \<notin> {Delivered, Dead} \<or> d_scrubbed_at d = None \<or> null_gt (d_scrubbed_at d) tombstone_before)"

definition adhoc_age :: "job_row \<Rightarrow> instant" where
  "adhoc_age j = (case j_deletion_requested_at j of Some t \<Rightarrow> t
     | None \<Rightarrow> (case j_updated_at j of Some t \<Rightarrow> t | None \<Rightarrow> j_created_at j))"

definition adhoc_retention_eligible ::
    "instant \<Rightarrow> instant \<Rightarrow> instant \<Rightarrow> jobs_db \<Rightarrow> job_row \<Rightarrow> bool" where
  "adhoc_retention_eligible expired_before tombstone_before observed_at db j \<longleftrightarrow>
     j_schedule_cron j = None
     \<and> ((j_status j \<in> {Complete, Partial, Failed, Cancelled}
          \<and> (case j_updated_at j of Some t \<Rightarrow> t | None \<Rightarrow> j_created_at j) \<le> expired_before)
        \<or> (j_status j = Deleting \<and> j_delete_results_on_delete j = Some False))
     \<and> \<not> sql_exists (\<lambda>d. d_job_id d = j_job_id j \<and> \<not> settled_delivery tombstone_before d)
           (webhook_deliveries db)
     \<and> \<not> sql_exists (\<lambda>i. i_job_id i = j_job_id j \<and> i_expires_at i > observed_at)
           (scrape_idempotency db)"

definition list_adhoc_jobs_for_retention ::
    "instant \<Rightarrow> instant \<Rightarrow> instant \<Rightarrow> int \<Rightarrow> jobs_db \<Rightarrow> store_error + string list" where
  "list_adhoc_jobs_for_retention expired_before observed_at tombstone_before lmt db =
     (if lmt < 1 then Inl (ValueError ''Ad-hoc job cleanup limit must be positive'')
      else Inr (map j_job_id (sql_limit (nat lmt) 0 (sql_order (\<lambda>j. (adhoc_age j, j_job_id j))
             (filter (adhoc_retention_eligible expired_before tombstone_before observed_at db) (jobs db))))))"

text \<open>Terminal runs of the same job that started later (ties by identifier).\<close>

definition newer_terminal_runs :: "jobs_db \<Rightarrow> run_row \<Rightarrow> nat" where
  "newer_terminal_runs db r = rowcount
     (\<lambda>n. r_job_id n = r_job_id r \<and> terminal (r_status n)
        \<and> (r_started_at n > r_started_at r
           \<or> (r_started_at n = r_started_at r \<and> r_run_id n > r_run_id r))) (job_runs db)"

definition run_age :: "run_row \<Rightarrow> instant" where
  "run_age r = (case r_completed_at r of Some t \<Rightarrow> t | None \<Rightarrow> r_started_at r)"

definition scheduled_history_eligible ::
    "instant \<Rightarrow> instant \<Rightarrow> nat \<Rightarrow> jobs_db \<Rightarrow> job_row \<Rightarrow> run_row \<Rightarrow> bool" where
  "scheduled_history_eligible tombstone_before expired_before keep db j r \<longleftrightarrow>
     j_schedule_cron j \<noteq> None \<and> terminal (r_status r) \<and> j_current_run_id j \<noteq> Some (r_run_id r)
     \<and> r_webhook_reconciled_at r \<noteq> None
     \<and> \<not> sql_exists (\<lambda>d. d_job_id d = r_job_id r \<and> d_run_id d = Some (r_run_id r)
             \<and> \<not> settled_delivery tombstone_before d) (webhook_deliveries db)
     \<and> (run_age r \<le> expired_before \<or> newer_terminal_runs db r \<ge> keep)"

definition list_scheduled_runs_for_retention ::
    "instant \<Rightarrow> instant \<Rightarrow> int \<Rightarrow> int \<Rightarrow> jobs_db \<Rightarrow> store_error + (string \<times> string) list" where
  "list_scheduled_runs_for_retention expired_before tombstone_before max_runs lmt db =
     (if max_runs < 1 \<or> lmt < 1 then Inl (ValueError ''Scheduled run retention bounds must be positive'')
      else Inr (map (\<lambda>(j, r). (r_job_id r, r_run_id r)) (sql_limit (nat lmt) 0
             (sql_order (\<lambda>(j, r). (run_age r, r_job_id r, r_run_id r))
               (filter (\<lambda>(j, r). r_job_id r = j_job_id j
                  \<and> scheduled_history_eligible tombstone_before expired_before (nat max_runs) db j r)
                 (List.product (jobs db) (job_runs db)))))))"

definition prune_result :: "bool \<Rightarrow> nat \<Rightarrow> history_prune_result" where
  "prune_result b n = \<lparr>hp_pruned = b, hp_webhook_tombstones_deleted = n\<rparr>"

definition prune_scheduled_run_for_retention ::
    "string \<Rightarrow> string \<Rightarrow> instant \<Rightarrow> instant \<Rightarrow> int \<Rightarrow> jobs_db
     \<Rightarrow> store_error + (history_prune_result \<times> jobs_db)" where
  "prune_scheduled_run_for_retention jid rid expired_before tombstone_before max_runs db =
     (if max_runs < 1 then Inl (ValueError ''Scheduled run retention count must be positive'')
      else if \<not> sql_exists (\<lambda>(r, j). j_job_id j = r_job_id r \<and> r_job_id r = jid \<and> r_run_id r = rid
             \<and> scheduled_history_eligible tombstone_before expired_before (nat max_runs) db j r)
             (List.product (job_runs db) (jobs db))
      then Inr (prune_result False 0, db)
      else let D = (\<lambda>d. d_job_id d = jid \<and> d_run_id d = Some rid \<and> d_status d \<in> {Delivered, Dead}
                      \<and> null_le (d_scrubbed_at d) tombstone_before);
               R = (\<lambda>r. r_job_id r = jid \<and> r_run_id r = rid \<and> terminal (r_status r))
           in if rowcount R (job_runs db) \<noteq> 1
              then Inl (RuntimeError ''Scheduled history pruning lost its selected run'')
              else Inr (prune_result True (rowcount D (webhook_deliveries db)),
                        db\<lparr>webhook_deliveries := sql_delete D (webhook_deliveries db),
                           job_runs := sql_delete R (job_runs db)\<rparr>))"

definition backlog_of :: "'r list \<Rightarrow> ('r \<Rightarrow> instant) \<Rightarrow> cleanup_backlog" where
  "backlog_of rows t = \<lparr>cb_eligible_count = length rows,
     cb_oldest_eligible_at = (if rows = [] then None else Some (Min (set (map t rows))))\<rparr>"

definition summarize_cleanup_backlog ::
    "instant \<Rightarrow> instant \<Rightarrow> instant \<Rightarrow> instant \<Rightarrow> nat \<Rightarrow> jobs_db
     \<Rightarrow> cleanup_backlog \<times> cleanup_backlog \<times> cleanup_backlog" where
  "summarize_cleanup_backlog observed_at adhoc_before scheduled_before tombstone_before max_runs db =
     (backlog_of (filter (\<lambda>i. i_expires_at i \<le> observed_at) (scrape_idempotency db)) i_expires_at,
      backlog_of (filter (adhoc_retention_eligible adhoc_before tombstone_before observed_at db) (jobs db))
        adhoc_age,
      backlog_of (map snd (filter (\<lambda>(j, r). r_job_id r = j_job_id j
          \<and> scheduled_history_eligible tombstone_before scheduled_before max_runs db j r)
          (List.product (jobs db) (job_runs db)))) run_age)"

end
