(* ===== verification/Store_Refinement.thy ===== *)
theory Store_Refinement
  imports Store_Abs Job_Deletion Job_Retention
begin

text \<open>
  Every state-changing operation of the job store is one step of the abstract lifecycle, or
  leaves it alone, and keeps the constraints of the schema: submission, claim, queueing,
  settling a run, rollback, deletion, cancellation and reservation. The recovery, retention
  and outbox operations follow in \<open>Store_Steps\<close>. Each operation has an elimination rule (\<open>_runE\<close> and so on) that
  gives the exact new database of every successful branch.
\<close>

section \<open>Submission\<close>

lemma insert_job_sim:
  assumes "insert_job e b db = Inr db'" and "wf_db db" and "status b = Queued"
  shows "simulated (workers_max_accepted_runs e) db db'"
proof -
  define row where "row = new_job_row e b (accepted_trigger b)"
  have row: "j_job_id row = job_id b" "j_status row = Queued" "j_current_run_id row = current_run_id b"
    by (simp_all add: row_def new_job_row_def assms(3))
  obtain db1 where ins: "insert_jobs_row row db = Inr db1"
    using assms(1) by (auto simp: insert_job_def Let_def row_def split: sum.splits)
  note db1 = insert_jobs_rowE [OF ins]
  have wf1: "wf_db db1" using wf_append_job [OF assms(2) db1(2,3)] db1(1) by simp
  have abs1: "abs_db db1 = (abs_db db)\<lparr>job_state :=
      (job_state (abs_db db))(job_id b \<mapsto> (Queued, current_run_id b))\<rparr>"
    using abs_append_job [OF db1(2)] db1(1) row by simp
  show ?thesis
  proof (cases "current_run_id b")
    case None
    then have "db' = db1"
      using assms(1,3) ins by (simp add: insert_job_def row_def [symmetric])
    then show ?thesis
      using wf1 abs1 None life_step.submit_idle [of "abs_db db" "job_id b"] db1(2) row
      by (intro simulated_step) simp_all
  next
    case (Some rid)
    then obtain q where q: "insert_snapshot_row q db1 = Inr db'" "q_run_id q = rid" "q_job_id q = job_id b"
      and adm: "check_admission e db1 = Inr ()"
      using assms(1,3) ins by (fastforce simp: insert_job_def Let_def row_def [symmetric] split: sum.splits)
    note db2 = insert_snapshot_rowE [OF q(1)]
    have act: "active_jobs (abs_db db1) = insert (job_id b) (active_jobs (abs_db db))"
      using db1(2) row Some by (auto simp: abs1 active_jobs_def)
    have "life_step (workers_max_accepted_runs e) (abs_db db)
       ((abs_db db)\<lparr>job_state := (job_state (abs_db db))(job_id b \<mapsto> (Queued, Some rid)),
                  snap_state := (snap_state (abs_db db))(rid \<mapsto> job_id b)\<rparr>)"
      using admitted [OF adm wf1] act db1(2) db2(2) q row
      by (intro life_step.submit_run) (simp_all add: abs1)
    then show ?thesis
      using wf_append_snapshot [OF wf1 db2(2)] abs_append_snapshot [OF db2(2)] db2(1) q abs1 Some
      by (intro simulated_step) simp_all
  qed
qed

lemma save_job_sim:
  assumes "save_job e b db = Inr (x, db')" and "wf_db db" and "status b = Queued"
  shows "simulated (workers_max_accepted_runs e) db db'"
  using assms by (auto simp: save_job_def intro: insert_job_sim split: sum.splits)

lemma simulated_trans_left: "abs_db db1 = abs_db db \<Longrightarrow> simulated n db1 db' \<Longrightarrow> simulated n db db'"
  by (simp add: simulated_def)

lemma simulated_trans_right:
  "simulated n db db1 \<Longrightarrow> abs_db db' = abs_db db1 \<Longrightarrow> wf_db db' \<Longrightarrow> simulated n db db'"
  by (simp add: simulated_def)

lemma create_idempotent_job_sim:
  assumes "create_idempotent_job e b scope key h mode ex db = Inr (x, db')" and "wf_db db"
    and "status b = Queued"
  shows "simulated (workers_max_accepted_runs e) db db'"
proof -
  obtain rid where rid: "current_run_id b = Some rid"
    using assms(1) by (auto simp: create_idempotent_job_def split: option.splits)
  define db1 where "db1 = db\<lparr>scrape_idempotency := sql_delete
     (\<lambda>i. live_key scope key i \<and> i_expires_at i \<le> created_at b) (scrape_idempotency db)\<rparr>"
  have wf1: "wf_db db1" and abs1: "abs_db db1 = abs_db db"
    using assms(2) by (simp_all add: db1_def wf_delete_idempotency abs_simps)
  consider "db' = db1" | (new) db2 i where "insert_job e b db1 = Inr db2" "insert_idempotency_row i db2 = Inr db'"
    using assms(1) rid
    by (auto simp: create_idempotent_job_def Let_def db1_def split: option.splits sum.splits prod.splits)
  then show ?thesis
  proof cases
    case 1
    then show ?thesis using wf1 abs1 by (intro simulated_stutter) simp_all
  next
    case (new db2 i)
    have sim: "simulated (workers_max_accepted_runs e) db1 db2"
      by (rule insert_job_sim [OF new(1) wf1 assms(3)])
    have "wf_db db'" and "abs_db db' = abs_db db2"
      using insert_idempotency_rowE [OF new(2)] sim
      by (auto simp: wf_append_idempotency abs_simps simulated_def)
    with sim abs1 show ?thesis by (auto intro: simulated_trans_left simulated_trans_right)
  qed
qed

section \<open>Claim and queue\<close>

lemma claim_runE:
  assumes "claim_run e rid jid trig h t db = Inr (b, db')"
  obtains "b = False" "db' = db"
  | P f n where "b = True"
      "P = (\<lambda>j. j_job_id j = jid \<and> j_status j = Queued \<and> j_current_run_id j = Some rid
          \<and> (j_current_trigger j = Some trig \<or> j_current_trigger j = None))"
      "f = (\<lambda>j. j\<lparr>j_status := Running, j_updated_at := Some t, j_current_trigger := Some trig\<rparr>)"
      "rowcount P (jobs db) = 1"
      "r_run_id n = rid" "r_job_id n = jid" "r_status n = Running"
      "run_state (abs_db (update_jobs P f db)) rid = None"
      "db' = delete_snapshots (\<lambda>q. q_job_id q = jid \<and> q_run_id q = rid)
         (add_run_row n (update_jobs P f db))"
proof -
  define P where "P = (\<lambda>j :: job_row. j_job_id j = jid \<and> j_status j = Queued \<and> j_current_run_id j = Some rid
          \<and> (j_current_trigger j = Some trig \<or> j_current_trigger j = None))"
  define f where "f = (\<lambda>j :: job_row. j\<lparr>j_status := Running, j_updated_at := Some t, j_current_trigger := Some trig\<rparr>)"
  consider "b = False" "db' = db"
    | yaml db2 where "b = True" "rowcount P (jobs db) = 1"
      "insert_run_row (claimed_run_row e rid jid trig h yaml t) (update_jobs P f db) = Inr db2"
      "db' = delete_snapshots (\<lambda>q. q_job_id q = jid \<and> q_run_id q = rid) db2"
    using assms unfolding claim_run_def P_def [symmetric] f_def [symmetric] Let_def
    by (auto split: if_splits option.splits sum.splits prod.splits)
  then show thesis
  proof cases
    case 1
    then show thesis by (rule that(1))
  next
    case (2 yaml db2)
    note r = insert_run_rowE [OF 2(3)]
    show thesis
      by (rule that(2) [OF 2(1) P_def f_def 2(2)])
        (use r 2(4) in \<open>auto simp: claimed_run_row_def\<close>)
  qed
qed

lemma claim_run_sim:
  assumes "claim_run e rid jid trig h t db = Inr (b, db')" and "wf_db db"
  shows "simulated n db db'"
  using assms(1)
proof (cases rule: claim_runE)
  case 1
  then show ?thesis using assms(2) by (intro simulated_stutter) simp_all
next
  case (2 P f m)
  define db1 where "db1 = update_jobs P f db"
  from 2(4) obtain j where j: "P j" "job_state (abs_db db) jid = Some (j_status j, j_current_run_id j)"
    "abs_db db1 = (abs_db db)\<lparr>job_state :=
       (job_state (abs_db db))(jid \<mapsto> (j_status (f j), j_current_run_id (f j)))\<rparr>" "wf_db db1"
    unfolding db1_def by (rule job_cas [where jid = jid and f = f]) (auto simp: assms(2) 2(2,3))
  have jq: "j_status j = Queued" "j_current_run_id j = Some rid" "f j = j\<lparr>j_status := Running, j_updated_at := Some t, j_current_trigger := Some trig\<rparr>"
    using j(1) by (auto simp: 2(2,3))
  have none: "run_state (abs_db db1) (r_run_id m) = None" using 2(8) 2(5) by (simp add: db1_def)
  have wf2: "wf_db (add_run_row m db1)" by (rule wf_add_run_row [OF j(4) none])
  have "life_step n (abs_db db) ((abs_db db)\<lparr>job_state := (job_state (abs_db db))(jid \<mapsto> (Running, Some rid)),
                      run_state := (run_state (abs_db db))(rid \<mapsto> (jid, Running)),
                      snap_state := drop_snap jid rid (snap_state (abs_db db))\<rparr>)"
    using j(2) jq none 2(5) by (intro life_step.claim) (simp_all add: j(3))
  moreover have "abs_db db' = (abs_db db)\<lparr>job_state := (job_state (abs_db db))(jid \<mapsto> (Running, Some rid)),
                      run_state := (run_state (abs_db db))(rid \<mapsto> (jid, Running)),
                      snap_state := drop_snap jid rid (snap_state (abs_db db))\<rparr>"
    unfolding 2(9) db1_def [symmetric] abs_delete_snapshot [OF wf2] abs_add_run_row [OF none] j(3)
    using 2(5,6,7) jq by simp
  moreover have "wf_db db'"
    unfolding 2(9) db1_def [symmetric] by (rule wf_delete_snapshots [OF wf2])
  ultimately show ?thesis by (intro simulated_step) simp_all
qed

lemma queue_runE:
  assumes "queue_run e jid est er rid trig t sb ey req db = Inr (b, db')"
  obtains "b = False" "db' = db"
  | P f q where "b = True" "est \<notin> {Cancelled, Deleting}"
      "\<And>j. P j \<Longrightarrow> j_job_id j = jid \<and> j_status j = est \<and> j_current_run_id j = er"
      "f = (\<lambda>j. j\<lparr>j_status := Queued, j_updated_at := Some t,
                j_current_run_id := Some rid, j_current_trigger := Some trig\<rparr>)"
      "rowcount P (jobs db) = 1" "check_admission e (update_jobs P f db) = Inr ()"
      "q_run_id q = rid" "q_job_id q = jid"
      "insert_snapshot_row q (update_jobs P f db) = Inr db'"
proof -
  define P where "P = (\<lambda>j :: job_row. j_job_id j = jid \<and> j_status j = est
                      \<and> j_current_run_id j = er
                      \<and> (case sb of None \<Rightarrow> True
                         | Some t \<Rightarrow> j_updated_at j = None \<or> null_le (j_updated_at j) t)
                      \<and> (case ey of None \<Rightarrow> True | Some y \<Rightarrow> j_config_hash j = sha256 e y)
                      \<and> (req \<longrightarrow> j_schedule_enabled j))"
  define f where "f = (\<lambda>j :: job_row. j\<lparr>j_status := Queued, j_updated_at := Some t,
                j_current_run_id := Some rid, j_current_trigger := Some trig\<rparr>)"
  consider "b = False" "db' = db"
    | (go) yaml and j :: job_row where "b = True" "est \<notin> {Cancelled, Deleting}" "rowcount P (jobs db) = 1"
      "check_admission e (update_jobs P f db) = Inr ()"
      "insert_snapshot_row \<lparr>q_run_id = rid, q_job_id = jid,
                                       q_trigger = trig, q_config_hash = j_config_hash j,
                                       q_config_yaml = protect_text e (queued_purpose rid) yaml,
                                       q_queued_at = t\<rparr> (update_jobs P f db) = Inr db'"
    using assms unfolding queue_run_def P_def [symmetric] f_def [symmetric] Let_def
    by (auto split: if_splits option.splits sum.splits)
  then show thesis
  proof cases
    case 1
    then show thesis by (rule that(1))
  next
    case (go yaml j)
    show thesis
      by (rule that(2) [OF go(1,2) _ f_def go(3,4) _ _ go(5)]) (simp_all add: P_def)
  qed
qed

lemma queue_run_abs:
  assumes "queue_run e jid est er rid trig t sb ey req db = Inr (b, db')" and "wf_db db"
  obtains (kept) "b = False" "db' = db"
  | (queued) "b = True" "wf_db db'" "job_state (abs_db db) jid = Some (est, er)" "est \<notin> {Cancelled, Deleting}"
      "snap_state (abs_db db) rid = None" "card (insert jid (active_jobs (abs_db db))) \<le> workers_max_accepted_runs e"
      "abs_db db' = (abs_db db)\<lparr>job_state := (job_state (abs_db db))(jid \<mapsto> (Queued, Some rid)),
         snap_state := (snap_state (abs_db db))(rid \<mapsto> jid)\<rparr>"
  using assms(1)
proof (cases rule: queue_runE)
  case 1
  then show ?thesis by (rule that(1))
next
  case (2 P f q)
  define db1 where "db1 = update_jobs P f db"
  from 2(5) obtain j where j: "P j" "job_state (abs_db db) jid = Some (j_status j, j_current_run_id j)"
    "abs_db db1 = (abs_db db)\<lparr>job_state :=
       (job_state (abs_db db))(jid \<mapsto> (j_status (f j), j_current_run_id (f j)))\<rparr>" "wf_db db1"
    unfolding db1_def by (rule job_cas [where jid = jid and f = f]) (auto simp: assms(2) 2(4) dest: 2(3))
  have abs1: "abs_db db1 = (abs_db db)\<lparr>job_state := (job_state (abs_db db))(jid \<mapsto> (Queued, Some rid))\<rparr>"
    using j(3) by (simp add: 2(4))
  have st: "job_state (abs_db db) jid = Some (est, er)" using j(2) 2(3) [OF j(1)] by simp
  note q = insert_snapshot_rowE [OF 2(9) [folded db1_def]]
  have act: "active_jobs (abs_db db1) = insert jid (active_jobs (abs_db db))"
    by (auto simp: abs1 active_jobs_def)
  show ?thesis
  proof (rule that(2) [OF 2(1) _ st 2(2)])
    show "wf_db db'" using wf_append_snapshot [OF j(4) q(2)] q(1) by simp
    show "snap_state (abs_db db) rid = None" using q(2) 2(7) by (simp add: abs1)
    show "card (insert jid (active_jobs (abs_db db))) \<le> workers_max_accepted_runs e"
      using admitted [OF 2(6) [folded db1_def] j(4)] act by simp
    show "abs_db db' = (abs_db db)\<lparr>job_state := (job_state (abs_db db))(jid \<mapsto> (Queued, Some rid)),
         snap_state := (snap_state (abs_db db))(rid \<mapsto> jid)\<rparr>"
      using abs_append_snapshot [OF q(2)] q(1) 2(7,8) abs1 by simp
  qed
qed

lemma queue_run_sim:
  assumes "queue_run e jid est er rid trig t sb ey req db = Inr (b, db')" and "wf_db db" and "est \<noteq> Running"
  shows "simulated (workers_max_accepted_runs e) db db'"
  using assms(1,2)
proof (cases rule: queue_run_abs)
  case kept
  then show ?thesis using assms(2) by (intro simulated_stutter) simp_all
next
  case queued
  have "terminal est \<or> est = Queued" using queued(4) assms(3) by (cases est) (auto simp: terminal_iff)
  from life_step.enqueue [OF queued(3) this queued(5,6)] show ?thesis
    using queued(2,7) by (intro simulated_step) simp_all
qed

lemma queue_run_displaces:
  assumes "queue_run e jid Running er rid trig t sb ey req db = Inr (b, db')" and "wf_db db"
  shows "db' = db \<or> wf_db db' \<and> displace_step (workers_max_accepted_runs e) (abs_db db) (abs_db db')"
  using assms
proof (cases rule: queue_run_abs)
  case queued
  from displace_step.displace [OF queued(3,5,6)] show ?thesis using queued(2,7) by simp
qed simp

section \<open>Settling a run\<close>

text \<open>A run and its parent reach the same status in one transaction.\<close>

lemma settle_running:
  assumes "wf_db db"
    and "rowcount R (job_runs db) = 1" and "\<And>x. R x \<Longrightarrow> r_job_id x = jid \<and> r_run_id x = rid \<and> r_status x = Running"
    and "\<And>x. r_run_id (g x) = r_run_id x \<and> r_job_id (g x) = r_job_id x \<and> r_status (g x) = st"
    and "rowcount P (jobs db) = 1"
    and "\<And>x. P x \<Longrightarrow> j_job_id x = jid \<and> j_status x = Running \<and> j_current_run_id x = Some rid"
    and "\<And>x. j_job_id (f x) = j_job_id x \<and> j_status (f x) = st \<and> j_current_run_id (f x) = j_current_run_id x
        \<and> j_project (f x) = j_project x \<and> j_name (f x) = j_name x"
  defines "s \<equiv> abs_db db" and "db' \<equiv> update_jobs P f (update_runs R g db)"
  shows "wf_db db'" and "job_state s jid = Some (Running, Some rid)" and "run_state s rid = Some (jid, Running)"
    and "abs_db db' = s\<lparr>job_state := (job_state s)(jid \<mapsto> (st, Some rid)),
           run_state := (run_state s)(rid \<mapsto> (jid, st))\<rparr>"
proof -
  from assms(2) obtain r where r: "R r" "run_state s rid = Some (r_job_id r, r_status r)"
    "abs_db (update_runs R g db) = s\<lparr>run_state := (run_state s)(rid \<mapsto> (r_job_id (g r), r_status (g r)))\<rparr>"
    "wf_db (update_runs R g db)"
    unfolding s_def by (rule run_cas [where rid = rid and f = g]) (use assms(1,3,4) in auto)
  have "rowcount P (jobs (update_runs R g db)) = 1" using assms(5) by simp
  then obtain j where j: "P j" "job_state (abs_db (update_runs R g db)) jid = Some (j_status j, j_current_run_id j)"
    "abs_db db' = (abs_db (update_runs R g db))\<lparr>job_state :=
       (job_state (abs_db (update_runs R g db)))(jid \<mapsto> (j_status (f j), j_current_run_id (f j)))\<rparr>" "wf_db db'"
    unfolding db'_def by (rule job_cas [where jid = jid and f = f]) (use r(4) assms(6,7) in auto)
  show "wf_db db'" by (rule j(4))
  show "run_state s rid = Some (jid, Running)" using r(1,2) assms(3) by auto
  show "job_state s jid = Some (Running, Some rid)" using j(1,2) r(3) assms(6) by auto
  show "abs_db db' = s\<lparr>job_state := (job_state s)(jid \<mapsto> (st, Some rid)),
           run_state := (run_state s)(rid \<mapsto> (jid, st))\<rparr>"
    using j(1,3) r(1,3) assms(3,4,6,7) by simp
qed

lemma settle_running_sim:
  assumes "wf_db db"
    and "rowcount R (job_runs db) = 1" and "\<And>x. R x \<Longrightarrow> r_job_id x = jid \<and> r_run_id x = rid \<and> r_status x = Running"
    and "\<And>x. r_run_id (g x) = r_run_id x \<and> r_job_id (g x) = r_job_id x \<and> r_status (g x) = st"
    and "rowcount P (jobs db) = 1"
    and "\<And>x. P x \<Longrightarrow> j_job_id x = jid \<and> j_status x = Running \<and> j_current_run_id x = Some rid"
    and "\<And>x. j_job_id (f x) = j_job_id x \<and> j_status (f x) = st \<and> j_current_run_id (f x) = j_current_run_id x
        \<and> j_project (f x) = j_project x \<and> j_name (f x) = j_name x"
    and "terminal st \<or> st = Cancelled"
  shows "simulated n db (update_jobs P f (update_runs R g db))"
  using settle_running [OF assms(1-7)] assms(8)
  by (intro simulated_step_eq [OF _ life_step.settle [of "abs_db db" jid rid st]]) simp_all

lemma insert_webhook_delivery_frame:
  assumes "insert_webhook_delivery e w t db = Inr (b, db')"
  shows "abs_db db' = abs_db db" and "wf_db db \<Longrightarrow> wf_db db'"
  using assms by (auto simp: insert_webhook_delivery_def abs_simps wf_db_def unique_on_append
      sql_exists_iff new_delivery_row_def split: if_splits)

lemma commit_terminal_intent_frame:
  assumes "commit_terminal_intent e w t db = Inr (u, db')"
  shows "abs_db db' = abs_db db" and "wf_db db \<Longrightarrow> wf_db db'"
  using assms insert_webhook_delivery_frame
  by (auto simp: commit_terminal_intent_def split: option.splits sum.splits)

lemma settle_owned_parentE:
  assumes "settle_owned_parent op jid rid from st t db = Inr db'"
  shows "rowcount (\<lambda>j. j_job_id j = jid \<and> j_status j = from \<and> j_current_run_id j = Some rid) (jobs db) = 1"
    and "db' = update_jobs (\<lambda>j. j_job_id j = jid \<and> j_status j = from \<and> j_current_run_id j = Some rid)
           (\<lambda>j. j\<lparr>j_status := st, j_updated_at := Some t\<rparr>) db"
  using assms by (auto simp: settle_owned_parent_def Let_def split: if_splits)

lemma heartbeat_run_sim:
  assumes "heartbeat_run jid rid t db = Inr (u, db')" and "wf_db db"
  shows "simulated n db db'"
  using assms by (intro simulated_stutter)
    (auto simp: heartbeat_run_def Let_def abs_update_runs_same wf_update_runs split: if_splits)

lemma finalize_owned_runE:
  assumes "finalize_owned_run e jid rid st recs errs t cutoff w db = Inr (u, db')"
  obtains R g db2 where "terminal st" "rowcount R (job_runs db) = 1"
    "R = (\<lambda>r. r_job_id r = jid \<and> r_run_id r = rid \<and> r_status r = Running \<and> null_gt (r_heartbeat_at r) cutoff)"
    "g = (\<lambda>r. r\<lparr>r_status := st, r_completed_at := Some t, r_record_count := Some recs,
        r_error_count := errs, r_webhook_reconciled_at := Some t\<rparr>)"
    "settle_owned_parent ''finalize'' jid rid Running st t (update_runs R g db) = Inr db2"
    "commit_terminal_intent e w t db2 = Inr (u, db')"
    "validate_optional_delivery w jid rid st = Inr ()"
  using assms by (auto simp: finalize_owned_run_def Let_def split: if_splits sum.splits)

lemma finalize_owned_run_sim:
  assumes "finalize_owned_run e jid rid st recs errs t cutoff w db = Inr (u, db')" and "wf_db db"
  shows "simulated n db db'"
  using assms(1)
proof (cases rule: finalize_owned_runE)
  case (1 R g db2)
  note p = settle_owned_parentE [OF 1(5)]
  have "simulated n db db2"
    unfolding p(2) by (rule settle_running_sim [where jid = jid and rid = rid and st = st])
      (use assms(2) 1(1,2) p(1) in \<open>auto simp: 1(3,4)\<close>)
  then show ?thesis
    using commit_terminal_intent_frame [OF 1(6)]
    by (auto intro: simulated_trans_right simp: simulated_def)
qed

text \<open>A queued delivery that never started gets its failed run.\<close>

lemma insert_failed_queued_runE:
  assumes "insert_failed_queued_run e jid rid t errs code db = Inr db'"
  obtains r where "r_run_id r = rid" "r_job_id r = jid" "r_status r = Failed"
    "run_state (abs_db db) rid = None"
    "db' = delete_snapshots (\<lambda>q. q_job_id q = jid \<and> q_run_id q = rid) (add_run_row r db)"
proof -
  from assms obtain j db1 where
    ins: "insert_run_row (failed_queued_row e jid rid t errs code j (find_snapshot db jid rid)) db = Inr db1"
    and db': "db' = delete_snapshots (\<lambda>q. q_job_id q = jid \<and> q_run_id q = rid) db1"
    by (auto simp: insert_failed_queued_run_def split: option.splits sum.splits)
  show thesis
    by (rule that [of "failed_queued_row e jid rid t errs code j (find_snapshot db jid rid)"])
      (use insert_run_rowE [OF ins] db' in \<open>simp_all add: failed_queued_row_def Let_def\<close>)
qed

lemma insert_failed_queued_run_abs:
  assumes "insert_failed_queued_run e jid rid t errs code db = Inr db'" and "wf_db db"
  shows "wf_db db'" and "run_state (abs_db db) rid = None"
    and "abs_db db' = (abs_db db)\<lparr>run_state := (run_state (abs_db db))(rid \<mapsto> (jid, Failed)),
           snap_state := drop_snap jid rid (snap_state (abs_db db))\<rparr>"
proof -
  from assms(1) obtain r where r: "r_run_id r = rid" "r_job_id r = jid" "r_status r = Failed"
    "run_state (abs_db db) rid = None"
    "db' = delete_snapshots (\<lambda>q. q_job_id q = jid \<and> q_run_id q = rid) (add_run_row r db)"
    by (rule insert_failed_queued_runE)
  have wf1: "wf_db (add_run_row r db)" using wf_add_run_row [OF assms(2)] r by simp
  show "wf_db db'" unfolding r(5) by (rule wf_delete_snapshots [OF wf1])
  show "run_state (abs_db db) rid = None" by (rule r(4))
  show "abs_db db' = (abs_db db)\<lparr>run_state := (run_state (abs_db db))(rid \<mapsto> (jid, Failed)),
           snap_state := drop_snap jid rid (snap_state (abs_db db))\<rparr>"
    unfolding r(5) abs_delete_snapshot [OF wf1] using abs_add_run_row [of db r] r by simp
qed

lemma abort_queued_sim:
  assumes "wf_db db" and "rowcount P (jobs db) = 1"
    and "\<And>j. P j \<Longrightarrow> j_job_id j = jid \<and> j_status j = Queued \<and> j_current_run_id j = Some rid"
    and "insert_failed_queued_run e jid rid t errs code
           (update_jobs P (\<lambda>j. j\<lparr>j_status := Failed, j_updated_at := Some t'\<rparr>) db) = Inr db'"
  shows "simulated n db db'"
proof -
  define f where "f = (\<lambda>j :: job_row. j\<lparr>j_status := Failed, j_updated_at := Some t'\<rparr>)"
  from assms(2) obtain j where j: "P j" "job_state (abs_db db) jid = Some (j_status j, j_current_run_id j)"
    "abs_db (update_jobs P f db) = (abs_db db)\<lparr>job_state :=
       (job_state (abs_db db))(jid \<mapsto> (j_status (f j), j_current_run_id (f j)))\<rparr>" "wf_db (update_jobs P f db)"
    by (rule job_cas [where jid = jid and f = f]) (use assms(1,3) in \<open>auto simp: f_def\<close>)
  have st: "job_state (abs_db db) jid = Some (Queued, Some rid)" using j(1,2) assms(3) by auto
  note ins = insert_failed_queued_run_abs [OF assms(4) [folded f_def] j(4)]
  have none: "run_state (abs_db db) rid = None" using ins(2) j(3) by simp
  have "j_current_run_id j = Some rid" using j(1) assms(3) by auto
  then show ?thesis
    using ins(1,3) j(3) by (intro simulated_step_eq [OF _ life_step.abort_queued [OF st none]]) (simp_all add: f_def)
qed

lemma fail_queued_run_sim:
  assumes "fail_queued_run e jid rid t db = Inr (b, db')" and "wf_db db"
  shows "simulated n db db'"
proof (cases "db' = db")
  case True
  then show ?thesis using assms(2) by (auto intro: simulated_stutter)
next
  case False
  then show ?thesis
    using assms by (auto simp: fail_queued_run_def Let_def split: if_splits sum.splits
        intro!: abort_queued_sim [where jid = jid and rid = rid])
qed

lemma fail_queued_run_recovery_sim:
  assumes "fail_queued_run_recovery e jid rid x t db = Inr (b, db')" and "wf_db db"
  shows "simulated n db db'"
proof (cases "db' = db")
  case True
  then show ?thesis using assms(2) by (auto intro: simulated_stutter)
next
  case False
  then show ?thesis
    using assms by (auto simp: fail_queued_run_recovery_def Let_def split: if_splits sum.splits
        intro!: abort_queued_sim [where jid = jid and rid = rid])
qed

lemma fail_owned_runE:
  assumes "fail_owned_run e jid rid t cutoff errs w db = Inr (u, db')"
  obtains (queued) db1 db2 where
    "insert_failed_queued_run e jid rid t errs ''preclaim_execution_failure'' db = Inr db1"
    "settle_owned_parent ''fail'' jid rid Queued Failed t db1 = Inr db2"
    "commit_terminal_intent e w t db2 = Inr (u, db')"
  | (running) R g db2 where "rowcount R (job_runs db) = 1"
    "R = (\<lambda>r. r_job_id r = jid \<and> r_run_id r = rid \<and> r_status r = Running
        \<and> (case cutoff of None \<Rightarrow> True | Some c \<Rightarrow> null_gt (r_heartbeat_at r) c))"
    "g = (\<lambda>r. r\<lparr>r_status := Failed, r_completed_at := Some t,
        r_record_count := sql_coalesce (r_record_count r) (Some 0),
        r_error_count := errs, r_webhook_reconciled_at := Some t\<rparr>)"
    "settle_owned_parent ''fail'' jid rid Running Failed t (update_runs R g db) = Inr db2"
    "commit_terminal_intent e w t db2 = Inr (u, db')"
proof -
  define R where "R = (\<lambda>r :: run_row. r_job_id r = jid \<and> r_run_id r = rid \<and> r_status r = Running
        \<and> (case cutoff of None \<Rightarrow> True | Some c \<Rightarrow> null_gt (r_heartbeat_at r) c))"
  define g where "g = (\<lambda>r :: run_row. r\<lparr>r_status := Failed, r_completed_at := Some t,
        r_record_count := sql_coalesce (r_record_count r) (Some 0),
        r_error_count := errs, r_webhook_reconciled_at := Some t\<rparr>)"
  show thesis
    using assms that(1) that(2) [OF _ R_def g_def]
    unfolding fail_owned_run_def R_def [symmetric] g_def [symmetric] Let_def
    by (auto split: if_splits option.splits sum.splits)
qed

lemma fail_owned_run_sim:
  assumes "fail_owned_run e jid rid t cutoff errs w db = Inr (u, db')" and "wf_db db"
  shows "simulated n db db'"
  using assms(1)
proof (cases rule: fail_owned_runE)
  case (queued db1 db2)
  note ins = insert_failed_queued_run_abs [OF queued(1) assms(2)]
  note p = settle_owned_parentE [OF queued(2)]
  define P where "P = (\<lambda>j :: job_row. j_job_id j = jid \<and> j_status j = Queued \<and> j_current_run_id j = Some rid)"
  define f where "f = (\<lambda>j :: job_row. j\<lparr>j_status := Failed, j_updated_at := Some t\<rparr>)"
  from p(1) [folded P_def] obtain j where
    j: "P j" "job_state (abs_db db1) jid = Some (j_status j, j_current_run_id j)"
    "abs_db (update_jobs P f db1) = (abs_db db1)\<lparr>job_state :=
       (job_state (abs_db db1))(jid \<mapsto> (j_status (f j), j_current_run_id (f j)))\<rparr>" "wf_db (update_jobs P f db1)"
    by (rule job_cas [where jid = jid and f = f]) (use ins(1) in \<open>auto simp: f_def P_def\<close>)
  have st: "job_state (abs_db db) jid = Some (Queued, Some rid)" using j(1,2) ins(3) by (auto simp: P_def)
  have "simulated n db db2"
    using j(1,3,4) ins(3) p(2)
    by (intro simulated_step_eq [OF _ life_step.abort_queued [OF st ins(2)]]) (simp_all add: f_def P_def)
  then show ?thesis
    using commit_terminal_intent_frame [OF queued(3)]
    by (auto intro: simulated_trans_right simp: simulated_def)
next
  case (running R g db2)
  note p = settle_owned_parentE [OF running(4)]
  have "simulated n db db2"
    unfolding p(2) by (rule settle_running_sim [where jid = jid and rid = rid and st = Failed])
      (use assms(2) running(1) p(1) in \<open>auto simp: running(2,3) terminal_iff\<close>)
  then show ?thesis
    using commit_terminal_intent_frame [OF running(5)]
    by (auto intro: simulated_trans_right simp: simulated_def)
qed

section \<open>Removing jobs\<close>

lemma drop_job_idem: "drop_job jid (drop_job jid m p) p = drop_job jid m p"
  by (rule ext) (auto simp: drop_job_def split: option.splits)

lemma drop_job_drop_snap: "drop_job jid (drop_snap jid rid m) id = drop_job jid m id"
  by (rule ext) (auto simp: drop_job_def drop_snap_def split: option.splits)

lemma tmap_drop_job:
  assumes "unique_on key t" and "\<And>r. parent (v r) = owner r"
  shows "tmap key v (sql_delete (\<lambda>r. owner r = jid) t) = drop_job jid (tmap key v t) parent"
proof
  fix k
  show "tmap key v (sql_delete (\<lambda>r. owner r = jid) t) k = drop_job jid (tmap key v t) parent k"
  proof (cases "tmap key v t k")
    case None
    then show ?thesis by (auto simp: tmap_delete [OF assms(1)] drop_job_def)
  next
    case (Some w)
    then obtain r where r: "r \<in> set t" "key r = k" "v r = w" by (auto dest: tmap_SomeD)
    have "(\<exists>x \<in> set t. key x = k \<and> owner x = jid) \<longleftrightarrow> owner r = jid"
      using r by (auto dest: unique_onD [OF assms(1)])
    with Some r assms(2) [of r] show ?thesis by (simp add: tmap_delete [OF assms(1)] drop_job_def)
  qed
qed

lemma abs_delete_jobs:
  assumes wf: "wf_db db" and j: "j \<in> set (jobs db)" and pj: "P j" and k: "\<And>x. P x \<Longrightarrow> j_job_id x = jid"
  shows "abs_db (delete_jobs P db) = (abs_db db)\<lparr>
     job_state := (job_state (abs_db db))(jid := None),
     snap_state := drop_job (jid) (snap_state (abs_db db)) id\<rparr>"
proof -
  have gone: "set (map j_job_id (filter P (jobs db))) = {jid}"
    using j pj by (auto dest: k simp: k [OF pj] image_iff intro: exI [of _ j])
  have "tmap j_job_id job_view (sql_delete P (jobs db)) = (tmap j_job_id job_view (jobs db))(jid := None)"
  proof
    fix k
    have "(\<exists>r \<in> set (jobs db). j_job_id r = k \<and> P r) \<longleftrightarrow> k = jid"
      using j pj by (auto dest: k)
    then show "tmap j_job_id job_view (sql_delete P (jobs db)) k = ((tmap j_job_id job_view (jobs db))(jid := None)) k"
      by (simp add: tmap_delete [OF wf_dbD(1) [OF wf]])
  qed
  moreover have "tmap q_run_id q_job_id (sql_delete (\<lambda>q. q_job_id q = jid) (queued_run_snapshots db)) =
      drop_job (jid) (tmap q_run_id q_job_id (queued_run_snapshots db)) id"
    by (rule tmap_drop_job [OF wf_dbD(4) [OF wf]]) simp
  ultimately show ?thesis
    using gone by (simp add: delete_jobs_def Let_def abs_db_def)
qed

lemma rollback_sim:
  assumes "wf_db db" and "j \<in> set (jobs db)" and "P j" and "\<And>x. P x \<Longrightarrow> j_job_id x = jid"
    and "j_status j = Queued" and "\<forall>r \<in> set (job_runs db). r_job_id r \<noteq> jid"
  shows "simulated n db (delete_jobs P db)"
proof -
  have jid: "j_job_id j = jid" using assms(3,4) by auto
  have "job_state (abs_db db) jid = Some (Queued, j_current_run_id j)"
    using job_state_in [OF assms(1,2)] jid assms(5) by simp
  moreover have "\<forall>rid st. run_state (abs_db db) rid \<noteq> Some (jid, st)"
    using assms(6) by (auto simp: run_state_Some [OF assms(1)])
  ultimately have "life_step n (abs_db db) ((abs_db db)\<lparr>
     job_state := (job_state (abs_db db))(jid := None), snap_state := drop_job jid (snap_state (abs_db db)) id\<rparr>)"
    by (rule life_step.rollback)
  then show ?thesis
    using wf_delete_jobs [OF assms(1)] abs_delete_jobs [of db j P jid] assms(1-4)
    by (intro simulated_step_eq) auto
qed

lemma rollback_scheduled_job_creation_sim:
  assumes "rollback_scheduled_job_creation jid db = (b, db')" and "wf_db db"
  shows "simulated n db db'"
proof -
  define P where "P = (\<lambda>j. j_job_id j = jid \<and> j_schedule_cron j \<noteq> None \<and> j_status j = Queued
                 \<and> j_current_run_id j = None \<and> no_history db j)"
  have db': "db' = delete_jobs P db"
    using assms(1) by (simp add: rollback_scheduled_job_creation_def Let_def P_def)
  show ?thesis
  proof (cases "\<exists>j \<in> set (jobs db). P j")
    case True
    then obtain j where "j \<in> set (jobs db)" "P j" by auto
    then show ?thesis unfolding db'
      by (intro rollback_sim [where jid = jid and j = j])
        (use assms(2) in \<open>auto simp: P_def no_history_def sql_exists_iff\<close>)
  next
    case False
    then have "filter P (jobs db) = []" by (auto simp: filter_empty_conv)
    moreover have "sql_delete P (jobs db) = jobs db" using False by (auto simp: sql_delete_def filter_id_conv)
    ultimately have "delete_jobs P db = db"
      by (simp add: delete_jobs_def Let_def sql_delete_def)
    then show ?thesis using assms(2) db' by (auto intro: simulated_stutter)
  qed
qed

lemma rollback_queued_submission_sim:
  assumes "rollback_queued_submission jid rid db = Inr (b, db')" and "wf_db db"
  shows "simulated n db db'"
proof (cases "db' = db")
  case True
  then show ?thesis using assms(2) by (auto intro: simulated_stutter)
next
  case False
  define P where "P = (\<lambda>j :: job_row. j_job_id j = jid \<and> j_status j = Queued \<and> j_current_run_id j = Some rid)"
  define db2 where "db2 = delete_snapshots (\<lambda>q. q_job_id q = jid \<and> q_run_id q = rid)
     (db\<lparr>scrape_idempotency := sql_delete (\<lambda>i. i_job_id i = jid \<and> i_run_id i = rid) (scrape_idempotency db)\<rparr>)"
  from False assms(1) have ex: "\<exists>j \<in> set (jobs db). P j \<and> no_history db j" and db': "db' = delete_jobs P db2"
    unfolding rollback_queued_submission_def P_def [symmetric] db2_def [symmetric] Let_def
    by (auto simp: sql_exists_iff split: if_splits)
  then obtain j where j: "j \<in> set (jobs db)" "P j" "no_history db j" by auto
  have wf1: "wf_db (db\<lparr>scrape_idempotency := sql_delete (\<lambda>i. i_job_id i = jid \<and> i_run_id i = rid) (scrape_idempotency db)\<rparr>)"
    by (rule wf_delete_idempotency [OF assms(2)])
  have wf2: "wf_db db2" unfolding db2_def by (rule wf_delete_snapshots [OF wf1])
  have jobs2: "jobs db2 = jobs db" by (simp add: db2_def delete_snapshots_def)
  have jid: "j_job_id j = jid" using j(2) by (simp add: P_def)
  have no_run: "\<forall>r \<in> set (job_runs db). r_job_id r \<noteq> jid"
    using j(3) jid by (simp add: no_history_def sql_exists_iff)
  have st: "job_state (abs_db db) jid = Some (Queued, Some rid)"
    using job_state_in [OF assms(2) j(1)] j(2) by (simp add: P_def)
  have abs2: "abs_db db2 = (abs_db db)\<lparr>snap_state := drop_snap jid rid (snap_state (abs_db db))\<rparr>"
    unfolding db2_def abs_delete_snapshot [OF wf1] by (simp add: abs_simps)
  have "abs_db db' = (abs_db db2)\<lparr>job_state := (job_state (abs_db db2))(jid := None),
     snap_state := drop_job jid (snap_state (abs_db db2)) id\<rparr>"
    unfolding db' by (rule abs_delete_jobs [of db2 j P jid]) (use wf2 j jobs2 in \<open>auto simp: P_def\<close>)
  also have "\<dots> = (abs_db db)\<lparr>job_state := (job_state (abs_db db))(jid := None),
     snap_state := drop_job jid (snap_state (abs_db db)) id\<rparr>"
    by (simp add: abs2 drop_job_drop_snap)
  finally have abs': "abs_db db' = \<dots>" .
  have "\<forall>r st. run_state (abs_db db) r \<noteq> Some (jid, st)"
    using no_run by (auto simp: run_state_Some [OF assms(2)])
  then show ?thesis
    using abs' wf_delete_jobs [OF wf2, of P] db'
    by (intro simulated_step_eq [OF _ life_step.rollback [OF st]]) simp_all
qed

lemma outcome_simps [simp]:
  "df_action (finalization a jid) = a" "co_action (cancel_outcome c jid r p q) = c"
  "dr_action (reservation d jid r p b ids) = d"
  by (simp_all add: finalization_def cancel_outcome_def reservation_def)

lemma finalize_job_deletionE:
  assumes "finalize_job_deletion jid policy pa db = Inr (o', db')"
  obtains (keep) "db' = db" "df_action o' \<noteq> Df_deleted"
  | (gone) P where "P = (\<lambda>x. j_job_id x = jid \<and> j_status x = Deleting \<and> j_delete_results_on_delete x = Some policy)"
      "\<not> has_pending_webhook db jid" "rowcount P (jobs db) = 1" "o' = finalization Df_deleted jid"
      "db' = delete_jobs P (remove_job_rows jid db)"
proof (cases "df_action o' = Df_deleted")
  case False
  with assms have "db' = db"
    by (auto simp: finalize_job_deletion_def Let_def split: if_splits option.splits)
  with False show ?thesis by (rule that(1) [rotated])
next
  case True
  have jobs: "jobs (remove_job_rows jid db) = jobs db" by (simp add: remove_job_rows_def)
  show ?thesis
    by (rule that(2) [OF refl]; insert assms True)
      (auto simp: finalize_job_deletion_def jobs Let_def split: if_splits option.splits)
qed

lemma abs_remove_job_rows:
  assumes "wf_db db"
  shows "abs_db (remove_job_rows jid db) = (abs_db db)\<lparr>run_state := drop_job jid (run_state (abs_db db)) fst,
     snap_state := drop_job jid (snap_state (abs_db db)) id\<rparr>"
    and "wf_db (remove_job_rows jid db)"
proof -
  have "tmap r_run_id run_view (sql_delete (\<lambda>r. r_job_id r = jid) (job_runs db)) =
      drop_job jid (tmap r_run_id run_view (job_runs db)) fst"
    by (rule tmap_drop_job [OF wf_dbD(3) [OF assms]]) (simp add: run_view_def)
  moreover have "tmap q_run_id q_job_id (sql_delete (\<lambda>q. q_job_id q = jid) (queued_run_snapshots db)) =
      drop_job jid (tmap q_run_id q_job_id (queued_run_snapshots db)) id"
    by (rule tmap_drop_job [OF wf_dbD(4) [OF assms]]) simp
  ultimately show "abs_db (remove_job_rows jid db) = (abs_db db)\<lparr>run_state := drop_job jid (run_state (abs_db db)) fst,
     snap_state := drop_job jid (snap_state (abs_db db)) id\<rparr>"
    by (simp add: remove_job_rows_def abs_db_def)
  show "wf_db (remove_job_rows jid db)"
    using assms by (simp add: wf_db_def remove_job_rows_def unique_on_delete)
qed

lemma finalize_job_deletion_sim:
  assumes "finalize_job_deletion jid policy pa db = Inr (o', db')" and "wf_db db"
  shows "simulated n db db'"
  using assms(1)
proof (cases rule: finalize_job_deletionE)
  case keep
  then show ?thesis using assms(2) by (auto intro: simulated_stutter)
next
  case (gone P)
  define db1 where "db1 = remove_job_rows jid db"
  have jobs1: "jobs db1 = jobs db" by (simp add: db1_def remove_job_rows_def)
  note r = abs_remove_job_rows [OF assms(2), of jid, folded db1_def]
  from assms(2) gone(3) obtain j where j: "j \<in> set (jobs db)" "P j" "j_job_id j = jid"
    by (rule owned_job [where jid = jid]) (auto simp: gone(1))
  have st: "job_state (abs_db db) jid = Some (Deleting, j_current_run_id j)"
    using job_state_in [OF assms(2) j(1)] j(2,3) by (simp add: gone(1))
  have "abs_db db' = (abs_db db1)\<lparr>job_state := (job_state (abs_db db1))(jid := None),
     snap_state := drop_job jid (snap_state (abs_db db1)) id\<rparr>"
    unfolding gone(5) db1_def [symmetric]
    by (rule abs_delete_jobs [of db1 j P jid]) (use r(2) j jobs1 in \<open>auto simp: gone(1)\<close>)
  also have "\<dots> = (abs_db db)\<lparr>job_state := (job_state (abs_db db))(jid := None),
     run_state := drop_job jid (run_state (abs_db db)) fst,
     snap_state := drop_job jid (snap_state (abs_db db)) id\<rparr>"
    by (simp add: r(1) drop_job_idem)
  finally have abs': "abs_db db' = \<dots>" .
  show ?thesis
    using abs' wf_delete_jobs [OF r(2), of P] gone(5)
    by (intro simulated_step_eq [OF _ life_step.purge [OF st]]) (simp_all add: db1_def)
qed

section \<open>Cancellation, reservation, pruning\<close>

lemma job_cas_sim:
  assumes "rowcount P (jobs db) = 1" and "wf_db db" and "\<And>x. P x \<Longrightarrow> j_job_id x = jid \<and> j_status x = a \<and> j_current_run_id x = r"
    and "\<And>x. j_job_id (f x) = j_job_id x \<and> j_status (f x) = b \<and> j_current_run_id (f x) = j_current_run_id x
        \<and> j_project (f x) = j_project x \<and> j_name (f x) = j_name x"
    and "\<And>s. job_state s jid = Some (a, r) \<Longrightarrow> life_step n s (s\<lparr>job_state := (job_state s)(jid \<mapsto> (b, r))\<rparr>)"
  shows "simulated n db (update_jobs P f db)"
proof -
  from assms(1) obtain j where j: "P j" "job_state (abs_db db) jid = Some (j_status j, j_current_run_id j)"
    "abs_db (update_jobs P f db) = (abs_db db)\<lparr>job_state :=
       (job_state (abs_db db))(jid \<mapsto> (j_status (f j), j_current_run_id (f j)))\<rparr>" "wf_db (update_jobs P f db)"
    by (rule job_cas [where jid = jid and f = f]) (use assms(2,3,4) in auto)
  then show ?thesis
    using assms(3) [OF j(1)] assms(4) by (intro simulated_step_eq [OF _ assms(5)]) simp_all
qed

lemma cancel_jobE:
  assumes "cancel_job jid t er db = Inr (c, db')"
  obtains (keep) "db' = db" "co_action c \<noteq> Ca_cancelled"
  | (queued) r P where "P = (\<lambda>j. j_job_id j = jid \<and> j_status j = Queued \<and> j_current_run_id j = r)"
      "rowcount P (jobs db) = 1" "c = cancel_outcome Ca_cancelled jid r (Some Queued) (Some Cancelled)"
      "db' = update_jobs P (\<lambda>j. j\<lparr>j_status := Cancelled, j_schedule_enabled := False, j_updated_at := Some t\<rparr>) db"
  | (running) rid P R where "P = (\<lambda>j. j_job_id j = jid \<and> j_status j = Running \<and> j_current_run_id j = Some rid)"
      "R = (\<lambda>x. r_job_id x = jid \<and> r_run_id x = rid \<and> r_status x = Running)"
      "rowcount R (job_runs db) = 1" "rowcount P (jobs db) = 1"
      "c = cancel_outcome Ca_cancelled jid (Some rid) (Some Running) (Some Cancelled)"
      "db' = update_jobs P (\<lambda>j. j\<lparr>j_status := Cancelled, j_schedule_enabled := False, j_updated_at := Some t\<rparr>)
         (update_runs R (\<lambda>x. x\<lparr>r_status := Cancelled, r_completed_at := Some t\<rparr>) db)"
proof (cases "find_job db jid")
  case None
  with assms have "db' = db" "c = cancel_outcome Ca_missing jid None None None"
    by (simp_all add: cancel_job_def)
  then show ?thesis using that(1) by simp
next
  case (Some j)
  note def = assms [unfolded cancel_job_def Some option.case Let_def]
  consider "db' = db" "co_action c \<noteq> Ca_cancelled"
    | "j_status j = Queued" "cancel_parent jid (j_current_run_id j) Queued t db = Inr (c, db')"
    | rid where "rowcount (\<lambda>x. r_job_id x = jid \<and> r_run_id x = rid \<and> r_status x = Running) (job_runs db) = 1"
      "cancel_parent jid (Some rid) Running t (update_runs (\<lambda>x. r_job_id x = jid \<and> r_run_id x = rid \<and> r_status x = Running)
         (\<lambda>x. x\<lparr>r_status := Cancelled, r_completed_at := Some t\<rparr>) db) = Inr (c, db')"
    using def by (cases "j_status j"; cases "j_current_run_id j") (auto split: if_splits)
  then show ?thesis
  proof cases
    case 1
    then show ?thesis by (rule that(1))
  next
    case 2
    then show ?thesis using that(2) [OF refl] by (simp add: cancel_parent_def Let_def split: if_splits)
  next
    case 3
    then show ?thesis using that(3) [OF refl refl] by (simp add: cancel_parent_def Let_def split: if_splits)
  qed
qed

lemma cancel_job_sim:
  assumes "cancel_job jid t er db = Inr (c, db')" and "wf_db db"
  shows "simulated n db db'"
  using assms(1)
proof (cases rule: cancel_jobE)
  case keep
  then show ?thesis using assms(2) by (auto intro: simulated_stutter)
next
  case (queued r P)
  show ?thesis unfolding queued(4)
    by (rule job_cas_sim [where jid = jid and a = Queued and r = r and b = Cancelled, OF queued(2) assms(2)])
      (auto simp: queued(1) intro: life_step.cancel_queued)
next
  case (running rid P R)
  show ?thesis unfolding running(6)
    by (rule settle_running_sim [where jid = jid and rid = rid and st = Cancelled])
      (use assms(2) running(3,4) in \<open>auto simp: running(1,2)\<close>)
qed

lemma reserve_job_deletionE:
  assumes "reserve_job_deletion jid policy t db = Inr (x, db')"
  obtains (keep) "db' = db" "dr_action x \<noteq> Dr_created"
  | (reserved) st r P where "P = (\<lambda>j. j_job_id j = jid \<and> j_status j = st \<and> j_current_run_id j = r)"
      "st \<notin> {Queued, Running, Deleting}" "\<not> has_pending_webhook db jid" "rowcount P (jobs db) = 1"
      "x = reservation Dr_created jid r (Some st) policy (owned_run_ids db jid r)"
      "db' = update_jobs P (\<lambda>x. x\<lparr>j_status := Deleting, j_schedule_enabled := False,
        j_updated_at := Some t, j_deletion_requested_at := Some t, j_delete_results_on_delete := Some policy\<rparr>) db"
proof (cases "dr_action x = Dr_created")
  case False
  with assms have "db' = db"
    by (auto simp: reserve_job_deletion_def Let_def split: if_splits option.splits)
  with False show ?thesis by (rule that(1) [rotated])
next
  case True
  with assms obtain j where "find_job db jid = Some j"
    by (auto simp: reserve_job_deletion_def split: option.splits)
  then show ?thesis
    by (intro that(2) [OF refl, of "j_status j" "j_current_run_id j"]; insert assms True)
      (auto simp: reserve_job_deletion_def Let_def split: if_splits)
qed

lemma reserve_job_deletion_sim:
  assumes "reserve_job_deletion jid policy t db = Inr (x, db')" and "wf_db db"
  shows "simulated n db db'"
  using assms(1)
proof (cases rule: reserve_job_deletionE)
  case keep
  then show ?thesis using assms(2) by (auto intro: simulated_stutter)
next
  case (reserved st r P)
  have tm: "terminal st \<or> st = Cancelled" using reserved(2) by (cases st) (auto simp: terminal_iff)
  show ?thesis unfolding reserved(6)
    by (rule job_cas_sim [where jid = jid and a = st and r = r and b = Deleting, OF reserved(4) assms(2)])
      (use tm in \<open>auto simp: reserved(1) intro!: life_step.reserve\<close>)
qed

end
