(* ===== verification/Outbox_Contract.thy ===== *)
theory Outbox_Contract
  imports Store_Abs
begin

text \<open>
  The contract of the webhook outbox. \<open>delivery_advance\<close> is what one row may go through:
  its identity never changes, a delivered or dead row keeps its status and attempt count,
  a scrubbed row does not change any more, and the stored request (URL, headers, payload)
  is either kept as it is or erased. \<open>outbox_advance\<close> lifts this to the database: no row
  appears or disappears and no other table changes. Every operation of \<open>Webhook_Outbox\<close>
  except the insert satisfies it.
\<close>

definition request_erased :: "delivery_row \<Rightarrow> bool" where
  "request_erased d \<longleftrightarrow> d_scrubbed_at d \<noteq> None \<and> d_url d = [] \<and> d_headers_json d = ''{}''
     \<and> d_payload_json d = ''{}''"

definition delivery_advance :: "delivery_row \<Rightarrow> delivery_row \<Rightarrow> bool" where
  "delivery_advance d d' \<longleftrightarrow>
     d_delivery_id d' = d_delivery_id d \<and> d_job_id d' = d_job_id d \<and> d_run_id d' = d_run_id d
     \<and> d_event d' = d_event d
     \<and> (d_status d \<noteq> Pending \<longrightarrow> d_status d' = d_status d \<and> d_attempts d' = d_attempts d
          \<and> (d_scrubbed_at d \<noteq> None \<longrightarrow> d' = d))
     \<and> (d_scrubbed_at d \<noteq> None \<longrightarrow> d_scrubbed_at d' \<noteq> None)
     \<and> ((d_url d' = d_url d \<and> d_headers_json d' = d_headers_json d \<and> d_payload_json d' = d_payload_json d)
        \<or> request_erased d')"

definition outbox_advance :: "jobs_db \<Rightarrow> jobs_db \<Rightarrow> bool" where
  "outbox_advance db db' \<longleftrightarrow> db' = db\<lparr>webhook_deliveries := webhook_deliveries db'\<rparr>
     \<and> list_all2 delivery_advance (webhook_deliveries db) (webhook_deliveries db')"

lemma delivery_advance_refl [simp]: "delivery_advance d d"
  by (simp add: delivery_advance_def)

lemma delivery_advance_trans:
  assumes "delivery_advance a b" and "delivery_advance b c"
  shows "delivery_advance a c"
  using assms unfolding delivery_advance_def request_erased_def by (elim conjE; intro conjI; metis)

lemma outbox_advance_refl [simp]: "outbox_advance db db"
  by (simp add: outbox_advance_def list_all2_same)

lemma outbox_advance_trans:
  assumes "outbox_advance a b" and "outbox_advance b c"
  shows "outbox_advance a c"
proof -
  have "list_all2 delivery_advance (webhook_deliveries a) (webhook_deliveries c)"
    by (rule list_all2_trans [of delivery_advance delivery_advance delivery_advance _ "webhook_deliveries b"])
      (use assms in \<open>auto simp: outbox_advance_def intro: delivery_advance_trans\<close>)
  moreover have "c = a\<lparr>webhook_deliveries := webhook_deliveries c\<rparr>"
    using assms unfolding outbox_advance_def by (metis jobs_db.update_convs(4) jobs_db.surjective)
  ultimately show ?thesis by (simp add: outbox_advance_def)
qed

lemma outbox_advance_update:
  assumes "\<And>d. d \<in> set (webhook_deliveries db) \<Longrightarrow> P d \<Longrightarrow> delivery_advance d (f d)"
  shows "outbox_advance db (update_deliveries P f db)"
  using assms by (auto simp: outbox_advance_def update_deliveries_def sql_update_def list_all2_map2
      intro!: list_all2_refl list.rel_refl_strong)

lemma outbox_advance_abs: "outbox_advance db db' \<Longrightarrow> abs_db db' = abs_db db"
  unfolding outbox_advance_def by (metis abs_webhook_deliveries)

lemma outbox_advance_rows:
  "outbox_advance db db' \<Longrightarrow> list_all2 delivery_advance (webhook_deliveries db) (webhook_deliveries db')"
  by (simp only: outbox_advance_def)

lemma outbox_advance_wf:
  assumes "outbox_advance db db'" and "wf_db db"
  shows "wf_db db'"
proof -
  have "map d_delivery_id (webhook_deliveries db') = map d_delivery_id (webhook_deliveries db)"
    using outbox_advance_rows [OF assms(1)] by (auto simp: delivery_advance_def list_all2_conv_all_nth intro: nth_equalityI)
  then have "unique_on d_delivery_id (webhook_deliveries db')"
    using wf_dbD(5) [OF assms(2)] by (simp add: unique_on_def)
  then have "wf_db (db\<lparr>webhook_deliveries := webhook_deliveries db'\<rparr>)"
    using assms(2) by (simp add: wf_db_def)
  with assms(1) show ?thesis unfolding outbox_advance_def by metis
qed

lemma outbox_advance_sim: "outbox_advance db db' \<Longrightarrow> wf_db db \<Longrightarrow> simulated n db db'"
  by (rule simulated_stutter [OF outbox_advance_wf outbox_advance_abs])

section \<open>The operations\<close>

lemma pending_update_advance:
  assumes "\<And>d. d_delivery_id d = did \<Longrightarrow> d_status d = Pending \<Longrightarrow> delivery_advance d (f d)"
  shows "outbox_advance db (snd (pending_update did f expected db))"
  unfolding pending_update_def Let_def snd_conv by (rule outbox_advance_update) (use assms in auto)

lemma quarantine_advance: "d_status d = Pending \<Longrightarrow> delivery_advance d (quarantine_row t d)"
  by (simp add: delivery_advance_def quarantine_row_def request_erased_def)

lemma quarantine_malformed_row_advance: "outbox_advance db (snd (quarantine_malformed_row k t db))"
  by (auto simp: quarantine_malformed_row_def Let_def intro: outbox_advance_update quarantine_advance split: option.splits)

lemma begin_attempt_advance: "outbox_advance db (snd (begin_attempt decode did n t db))"
proof -
  define db1 where "db1 = update_deliveries (\<lambda>d. d_delivery_id d = did \<and> d_status d = Pending \<and> d_attempts d = n)
     (\<lambda>d. d\<lparr>d_attempts := d_attempts d + 1, d_last_attempt_at := Some t, d_updated_at := t\<rparr>) db"
  have 1: "outbox_advance db db1"
    unfolding db1_def by (rule outbox_advance_update) (simp add: delivery_advance_def)
  have 2: "outbox_advance db (snd (quarantine_malformed_row k t' db1))" for k t'
    by (rule outbox_advance_trans [OF 1 quarantine_malformed_row_advance])
  show ?thesis
    unfolding begin_attempt_def Let_def db1_def [symmetric] quarantine_malformed_delivery_def
    using 1 2 by (auto split: option.splits sum.splits)
qed

lemma mark_delivered_advance: "outbox_advance db (snd (mark_delivered did t n k db))"
  unfolding mark_delivered_def by (rule pending_update_advance)
    (simp add: delivery_advance_def counted_attempts_def split: option.splits)

lemma mark_retryable_failure_advance: "outbox_advance db (snd (mark_retryable_failure e did t t' err n k db))"
  unfolding mark_retryable_failure_def by (rule pending_update_advance)
    (simp add: delivery_advance_def counted_attempts_def split: option.splits)

lemma mark_failed_advance: "outbox_advance db (snd (mark_failed e did t reason err n k db))"
  unfolding mark_failed_def by (rule pending_update_advance)
    (simp add: delivery_advance_def Let_def)

lemma scrub_ids_advance: "outbox_advance db (scrub_ids t ids db)"
  unfolding scrub_ids_def by (rule outbox_advance_update)
    (auto simp: delivery_advance_def scrub_row_def request_erased_def)

lemma scrub_terminal_deliveries_advance:
  "scrub_terminal_deliveries db4 fb t lmt db = Inr (c, db') \<Longrightarrow> outbox_advance db db'"
  by (auto simp: scrub_terminal_deliveries_def Let_def intro: outbox_advance_trans scrub_ids_advance split: if_splits)

lemma decode_rows_advance: "decode_rows decode now rows acc m db = Inr (ds, m', db') \<Longrightarrow> outbox_advance db db'"
  by (induction rows arbitrary: acc m db)
    (auto split: option.splits sum.splits intro: outbox_advance_trans [OF quarantine_malformed_row_advance])

lemma fetch_limited_advance: "fetch_limited decode now P k lmt i ds db = Inr (ds', db') \<Longrightarrow> outbox_advance db db'"
proof (induction decode now P k lmt i ds db arbitrary: ds' db' rule: fetch_limited.induct)
  case (1 decode now P k lmt i ds db)
  define rows where "rows = sql_limit (min (lmt - length ds) (2 * lmt - i)) (length ds) (select_rows P k db)"
  note run = 1(2) [unfolded fetch_limited.simps [of decode now P k lmt i ds db] Let_def, folded rows_def]
  show ?case
  proof (cases "length ds < lmt \<and> i < 2 * lmt \<and> rows \<noteq> []")
    case False
    with run show ?thesis by (auto split: if_splits)
  next
    case True
    with run obtain ds1 m db1 where dec: "decode_rows decode now rows ds 0 db = Inr (ds1, m, db1)"
      and rest: "(if m = 0 then Inr (ds1, db1) else fetch_limited decode now P k lmt (i + length rows) ds1 db1) = Inr (ds', db')"
      by (auto split: sum.splits prod.splits)
    note adv = decode_rows_advance [OF dec]
    show ?thesis
    proof (cases "m = 0")
      case False
      have "outbox_advance db1 db'"
        using 1(1) [OF _ rows_def _ dec refl refl False] True rest False by simp
      then show ?thesis by (rule outbox_advance_trans [OF adv])
    qed (use adv rest in simp)
  qed
qed

lemma fetch_deliveries_advance':
  "fetch_deliveries decode now P k limit db = Inr (ds, db') \<Longrightarrow> outbox_advance db db'"
  by (auto simp: fetch_deliveries_def split: option.splits sum.splits dest: decode_rows_advance fetch_limited_advance)

lemma list_pending_advance: "list_pending decode now limit db = Inr (ds, db') \<Longrightarrow> outbox_advance db db'"
  by (auto simp: list_pending_def split: if_splits intro: fetch_deliveries_advance')

lemma list_due_pending_advance: "list_due_pending decode now t lmt db = Inr (ds, db') \<Longrightarrow> outbox_advance db db'"
  by (auto simp: list_due_pending_def split: if_splits intro: fetch_deliveries_advance')

lemma list_exhausted_pending_advance:
  "list_exhausted_pending decode now n t lmt db = Inr (ds, db') \<Longrightarrow> outbox_advance db db'"
  by (auto simp: list_exhausted_pending_def split: if_splits intro: fetch_deliveries_advance')

lemma get_delivery_advance: "outbox_advance db (snd (get_delivery decode now did db))"
  by (auto simp: get_delivery_def quarantine_malformed_row_advance split: option.splits sum.splits)

lemmas outbox_advances = begin_attempt_advance mark_delivered_advance mark_retryable_failure_advance
  mark_failed_advance quarantine_malformed_row_advance get_delivery_advance

end
