(* ===== verification/Store_Steps.thy ===== *)
theory Store_Steps
  imports Store_Refinement Outbox_Contract
begin

text \<open>
  The remaining simulations (schedules, recovery, retention, outbox), and \<open>store_step\<close>: the
  transition relation of \<^verbatim>\<open>jobs.db\<close>, one rule per state-changing operation of the stores,
  with the guards their callers establish. \<open>store\<close> interprets \<open>invariant_system\<close> with the
  constraints of the schema and the lifecycle invariant.
\<close>

lemma find_run_state:
  "wf_db db \<Longrightarrow> find_run db jid rid = Some r \<Longrightarrow> run_state (abs_db db) rid = Some (jid, r_status r)"
  using find_run_Some run_state_in by blast

section \<open>Schedules\<close>

lemma unique_on_rename:
  assumes "unique_on key t" and "unique_on nm t" and "\<And>x. P x \<Longrightarrow> key x = k"
    and "\<And>x. nm (f x) = v" and "\<forall>x \<in> set t. key x \<noteq> k \<longrightarrow> nm x \<noteq> v"
  shows "unique_on nm (sql_update P f t)"
  using assms(1,2,5)
proof (induction t)
  case (Cons r t)
  have keyP: "\<And>x. P x \<Longrightarrow> key x = k" by (rule assms(3))
  from Cons.prems have u: "unique_on key t" "unique_on nm t" and rt: "key r \<notin> key ` set t" "nm r \<notin> nm ` set t"
    by (auto simp: unique_on_def)
  have IH: "unique_on nm (sql_update P f t)" using Cons.IH [OF u] Cons.prems(3) by simp
  show ?case
  proof (cases "P r")
    case True
    then have "key r = k" by (rule keyP)
    then have other: "\<And>x. x \<in> set t \<Longrightarrow> key x \<noteq> k" using rt(1) by blast
    have "sql_update P f t = t"
      by (rule sql_update_no_match) (use other keyP in blast)
    moreover have "v \<notin> nm ` set t"
    proof
      assume "v \<in> nm ` set t"
      then obtain x where "x \<in> set t" "nm x = v" by blast
      with other [of x] Cons.prems(3) show False by simp
    qed
    ultimately show ?thesis using \<open>P r\<close> u by (simp add: sql_update_Cons unique_on_def assms(4))
  next
    case False
    have "nm r \<notin> nm ` set (sql_update P f t)"
    proof
      assume "nm r \<in> nm ` set (sql_update P f t)"
      then obtain y where y: "y \<in> set (sql_update P f t)" "nm y = nm r" by force
      from y(1) obtain x where x: "x \<in> set t" "P x \<and> y = f x \<or> \<not> P x \<and> y = x"
        unfolding in_sql_update by blast
      have "nm x \<noteq> nm r" using x(1) rt(2) by (metis imageI)
      with x(2) y(2) have "P x" "nm r = v" using assms(4) by auto
      then have "key r \<noteq> k" using keyP [of x] x(1) rt(1) by (metis imageI)
      with Cons.prems(3) \<open>nm r = v\<close> show False by simp
    qed
    with False IH show ?thesis by (simp add: sql_update_Cons unique_on_def)
  qed
qed (simp add: unique_on_def)

lemma wf_rename_job:
  assumes "wf_db db" and "\<And>x. P x \<Longrightarrow> j_job_id x = jid" and "\<And>x. j_job_id (f x) = j_job_id x"
    and "\<And>x. j_project (f x) = p \<and> j_name (f x) = m" and "\<not> name_taken jid p m db"
  shows "wf_db (update_jobs P f db)"
proof -
  have "unique_on job_name (sql_update P f (jobs db))"
    by (rule unique_on_rename [OF wf_dbD(1,2) [OF assms(1)], where k = jid and v = "(p, m)"])
      (use assms(2,4,5) in \<open>auto simp: job_name_def name_taken_def sql_exists_iff\<close>)
  then show ?thesis
    using assms(1,3) by (simp add: wf_db_def update_jobs_def unique_on_update)
qed

lemma update_scheduled_job_sim:
  assumes "update_scheduled_job e jid p m yaml cron tz en t db = Inr (x, db')" and "wf_db db"
  shows "simulated n db db'"
proof (cases "db' = db")
  case True
  then show ?thesis using assms(2) by (auto intro: simulated_stutter)
next
  case False
  define f where "f = (\<lambda>j :: job_row. j\<lparr>j_project := p, j_name := m,
                       j_config_yaml := protect_text e (jobs_purpose jid) yaml,
                       j_config_hash := sha256 e yaml, j_schedule_cron := Some cron,
                       j_schedule_timezone := tz, j_schedule_enabled := en,
                       j_updated_at := Some t\<rparr>)"
  from False assms(1) have nt: "\<not> name_taken jid p m db" and db': "db' = update_jobs (\<lambda>j. j_job_id j = jid) f db"
    unfolding update_scheduled_job_def f_def [symmetric] Let_def
    by (auto split: option.splits sum.splits if_splits)
  show ?thesis unfolding db'
    by (rule simulated_stutter [OF wf_rename_job [OF assms(2) _ _ _ nt]])
      (auto simp: f_def abs_update_jobs_same)
qed

lemma set_schedule_enabled_sim:
  assumes "set_schedule_enabled e jid en t db = Inr (x, db')" and "wf_db db"
  shows "simulated n db db'"
proof (cases "db' = db")
  case True
  then show ?thesis using assms(2) by (auto intro: simulated_stutter)
next
  case False
  with assms(1) have "db' = update_jobs (\<lambda>j. j_job_id j = jid)
      (\<lambda>j. j\<lparr>j_schedule_enabled := en, j_updated_at := Some t\<rparr>) db"
    by (auto simp: set_schedule_enabled_def split: option.splits sum.splits if_splits)
  then show ?thesis
    using assms(2) by (intro simulated_stutter) (simp_all add: abs_update_jobs_same wf_update_jobs)
qed

lemma restore_scheduled_job_sim:
  assumes "restore_scheduled_job e ex prev db = Inr (b, db')" and "wf_db db"
  shows "simulated n db db'"
proof -
  define P where "P = (\<lambda>j :: job_row. j_job_id j = job_id ex \<and> j_project j = project ex
                 \<and> j_name j = name ex \<and> j_config_hash j = sha256 e (config_yaml ex)
                 \<and> j_schedule_cron j = schedule_cron ex
                 \<and> j_schedule_timezone j = schedule_timezone ex
                 \<and> j_schedule_enabled j = schedule_enabled ex
                 \<and> j_updated_at j = updated_at ex \<and> j_status j = status ex
                 \<and> j_current_run_id j = current_run_id ex)"
  define f where "f = (\<lambda>j :: job_row. j\<lparr>j_project := project prev,
                j_name := name prev,
                j_config_yaml := protect_text e (jobs_purpose (job_id prev)) (config_yaml prev),
                j_config_hash := sha256 e (config_yaml prev),
                j_schedule_cron := schedule_cron prev,
                j_schedule_timezone := schedule_timezone prev,
                j_schedule_enabled := schedule_enabled prev,
                j_updated_at := updated_at prev\<rparr>)"
  have nt: "rowcount P (jobs db) = 0 \<or> \<not> name_taken (job_id ex) (project prev) (name prev) db"
    and db': "db' = update_jobs P f db"
    using assms(1) unfolding restore_scheduled_job_def P_def [symmetric] f_def [symmetric] Let_def
    by (auto split: if_splits)
  have abs: "abs_db db' = abs_db db" unfolding db' by (rule abs_update_jobs_same) (simp_all add: f_def)
  have "wf_db db'"
    using nt
  proof
    assume "rowcount P (jobs db) = 0"
    then have "db' = db" unfolding db' update_jobs_def
      by (simp add: rowcount_0 sql_update_no_match)
    with assms(2) show "wf_db db'" by simp
  next
    assume "\<not> name_taken (job_id ex) (project prev) (name prev) db"
    then show "wf_db db'" unfolding db'
      by (intro wf_rename_job [OF assms(2)]) (auto simp: P_def f_def)
  qed
  with abs show ?thesis by (intro simulated_stutter)
qed

lemma clear_scheduled_trigger_failure_sim:
  assumes "clear_scheduled_trigger_failure jid db = (b, db')" and "wf_db db"
  shows "simulated n db db'"
  using assms by (intro simulated_stutter)
    (auto simp: clear_scheduled_trigger_failure_def Let_def abs_update_jobs_same wf_update_jobs)

lemma reserve_queued_run_recovery_sim:
  assumes "reserve_queued_run_recovery jid rid x sb t db = (b, db')" and "wf_db db"
  shows "simulated n db db'"
  using assms by (intro simulated_stutter)
    (auto simp: reserve_queued_run_recovery_def Let_def abs_update_jobs_same wf_update_jobs split: if_splits)

lemma delete_expired_idempotency_records_sim:
  assumes "delete_expired_idempotency_records x lmt db = Inr (k, db')" and "wf_db db"
  shows "simulated n db db'"
  using assms by (intro simulated_stutter)
    (auto simp: delete_expired_idempotency_records_def Let_def abs_simps wf_delete_idempotency split: if_splits)

text \<open>A missed fire leaves a failed run; an idle parent converges to it.\<close>

lemma record_scheduled_trigger_failureE:
  assumes "record_scheduled_trigger_failure jid rid t code db = Inr (b, db')"
  obtains (keep) "db' = db"
  | (recorded) row f db1 where "row \<in> set (jobs db)" "j_job_id row = jid" "j_status row \<notin> {Cancelled, Deleting}"
      "f = (\<lambda>j. let j1 = j\<lparr>j_schedule_failure_at := Some t, j_schedule_failure_code := Some code,
                      j_schedule_consecutive_failures := j_schedule_consecutive_failures j + 1\<rparr>
                    in if parent_can_converge row rid
                       then j1\<lparr>j_status := Failed, j_current_run_id := Some rid,
                               j_current_trigger := Some ''scheduled'', j_updated_at := Some t\<rparr>
                       else j1)"
      "db' = update_jobs (\<lambda>j. j_job_id j = jid) f db1"
      "(\<exists>r. find_run db jid rid = Some r \<and> r_status r = Failed) \<and> db1 = db
       \<or> (\<forall>r \<in> set (job_runs db). r_run_id r \<noteq> rid)
          \<and> db1 = add_run_row (missed_fire_row rid jid (j_config_hash row) t code) db"
proof (cases "sql_first (\<lambda>j. j_job_id j = jid \<and> j_schedule_cron j \<noteq> None \<and> j_schedule_enabled j
                 \<and> j_status j \<notin> {Cancelled, Deleting}) (jobs db)")
  case None
  have "db' = db"
    using assms unfolding record_scheduled_trigger_failure_def None by (simp split: if_splits)
  then show ?thesis by (rule that(1))
next
  case (Some row)
  note row = sql_first_Some [OF Some]
  define f where "f = (\<lambda>j :: job_row. let j1 = j\<lparr>j_schedule_failure_at := Some t, j_schedule_failure_code := Some code,
                      j_schedule_consecutive_failures := j_schedule_consecutive_failures j + 1\<rparr>
                    in if parent_can_converge row rid
                       then j1\<lparr>j_status := Failed, j_current_run_id := Some rid,
                               j_current_trigger := Some ''scheduled'', j_updated_at := Some t\<rparr>
                       else j1)"
  define ex where "ex = sql_exists (\<lambda>r. r_run_id r = rid) (job_runs db)"
  have def: "(if ex \<and> (case find_run db jid rid of None \<Rightarrow> True | Some r \<Rightarrow> r_status r \<noteq> Failed)
              then Inr (False, db)
              else Inr (True, update_jobs (\<lambda>j. j_job_id j = jid) f
                (if ex then db else add_run_row (missed_fire_row rid jid (j_config_hash row) t code) db)))
      = (Inr (b, db') :: store_error + bool \<times> jobs_db)"
    using assms unfolding record_scheduled_trigger_failure_def Some f_def ex_def Let_def
    by (simp split: if_splits)
  show ?thesis
  proof (cases "ex \<and> (case find_run db jid rid of None \<Rightarrow> True | Some r \<Rightarrow> r_status r \<noteq> Failed)")
    case True
    with def show ?thesis using that(1) by simp
  next
    case False
    then have "db' = update_jobs (\<lambda>j. j_job_id j = jid) f
        (if ex then db else add_run_row (missed_fire_row rid jid (j_config_hash row) t code) db)"
      using def unfolding if_not_P [OF False] by simp
    with False row show ?thesis
      by (intro that(2) [of row f "if ex then db
            else add_run_row (missed_fire_row rid jid (j_config_hash row) t code) db", OF _ _ _ f_def]) (auto simp: ex_def sql_exists_iff split: option.splits)
  qed
qed

lemma parent_can_converge_iff:
  "parent_can_converge j rid \<longleftrightarrow> terminal (j_status j) \<or> (j_status j = Queued \<and> j_current_run_id j \<in> {None, Some rid})"
  by (cases "j_status j") (auto simp: parent_can_converge_def terminal_iff)

lemma record_scheduled_trigger_failure_sim:
  assumes "record_scheduled_trigger_failure jid rid t code db = Inr (b, db')" and "wf_db db"
  shows "simulated n db db'"
  using assms(1)
proof (cases rule: record_scheduled_trigger_failureE)
  case keep
  then show ?thesis using assms(2) by (auto intro: simulated_stutter)
next
  case (recorded row f db1)
  let ?s = "abs_db db"
  have st: "job_state ?s jid = Some (j_status row, j_current_run_id row)"
    using job_state_in [OF assms(2) recorded(1)] recorded(2) by simp
  have rs: "run_state ?s rid \<in> {None, Some (jid, Failed)}"
    using recorded(6) find_run_state [OF assms(2)] by (auto simp: run_state_None [symmetric])
  have wf1: "wf_db db1" and abs1: "abs_db db1 = ?s\<lparr>run_state := (run_state ?s)(rid \<mapsto> (jid, Failed))\<rparr>"
    using recorded(6) wf_add_run_row [OF assms(2)] abs_add_run_row [of db] assms(2) find_run_state [OF assms(2)]
    by (auto simp: missed_fire_row_def run_state_None [symmetric] fun_upd_idem)
  have wf': "wf_db db'" unfolding recorded(5) by (rule wf_update_jobs [OF wf1]) (simp_all add: recorded(4) Let_def)
  have abs': "abs_db db' = (abs_db db1)\<lparr>job_state := (job_state (abs_db db1))(jid \<mapsto> (j_status (f row'), j_current_run_id (f row')))\<rparr>"
    if "row' \<in> set (jobs db1)" "j_job_id row' = jid" for row'
    unfolding recorded(5) using abs_update_jobs [OF wf1 that(1), of "\<lambda>j. j_job_id j = jid" f] that(2)
    by (simp add: recorded(4) Let_def)
  have "job_state (abs_db db1) jid = Some (j_status row, j_current_run_id row)" using st abs1 by simp
  then obtain row' where row': "row' \<in> set (jobs db1)" "j_job_id row' = jid"
    "j_status row' = j_status row" "j_current_run_id row' = j_current_run_id row"
    by (auto simp: job_state_Some [OF wf1])
  show ?thesis
  proof (cases "parent_can_converge row rid")
    case True
    then have "life_step n ?s (?s\<lparr>job_state := (job_state ?s)(jid \<mapsto> (Failed, Some rid)),
                      run_state := (run_state ?s)(rid \<mapsto> (jid, Failed))\<rparr>)"
      using rs by (intro life_step.missed_fail [OF st]) (simp_all add: parent_can_converge_iff)
    moreover have "abs_db db' = ?s\<lparr>job_state := (job_state ?s)(jid \<mapsto> (Failed, Some rid)),
                      run_state := (run_state ?s)(rid \<mapsto> (jid, Failed))\<rparr>"
      using abs' [OF row'(1,2)] True by (cases ?s) (simp add: recorded(4) abs1)
    ultimately show ?thesis using wf' by (intro simulated_step_eq)
  next
    case False
    have upd: "abs_db db' = abs_db db1"
      unfolding recorded(5) using False by (intro abs_update_jobs_same) (simp_all add: recorded(4) Let_def)
    show ?thesis
    proof (cases "run_state ?s rid")
      case None
      then show ?thesis
        using wf' upd abs1 recorded(3) by (intro simulated_step_eq [OF _ life_step.missed_fire [OF st _ None]]) simp_all
    next
      case (Some a)
      then show ?thesis using rs wf' upd abs1 by (intro simulated_stutter) (simp_all add: fun_upd_idem)
    qed
  qed
qed

section \<open>Retention\<close>

lemma prune_scheduled_run_for_retentionE:
  assumes "prune_scheduled_run_for_retention jid rid xb tb k db = Inr (h, db')"
  obtains (keep) "db' = db" "h = prune_result False 0"
  | (pruned) r j D R where "r \<in> set (job_runs db)" "j \<in> set (jobs db)" "j_job_id j = jid" "r_job_id r = jid" "r_run_id r = rid"
      "scheduled_history_eligible tb xb (nat k) db j r"
      "D = (\<lambda>d. d_job_id d = jid \<and> d_run_id d = Some rid \<and> d_status d \<in> {Delivered, Dead}
                      \<and> null_le (d_scrubbed_at d) tb)"
      "R = (\<lambda>r. r_job_id r = jid \<and> r_run_id r = rid \<and> terminal (r_status r))"
      "db' = db\<lparr>webhook_deliveries := sql_delete D (webhook_deliveries db), job_runs := sql_delete R (job_runs db)\<rparr>"
      "h = prune_result True (rowcount D (webhook_deliveries db))"
proof (cases "sql_exists (\<lambda>(r, j). j_job_id j = r_job_id r \<and> r_job_id r = jid \<and> r_run_id r = rid
             \<and> scheduled_history_eligible tb xb (nat k) db j r) (List.product (job_runs db) (jobs db))")
  case False
  then show ?thesis
    using assms that(1) by (simp add: prune_scheduled_run_for_retention_def split: if_splits)
next
  case True
  then obtain r j where rj: "r \<in> set (job_runs db)" "j \<in> set (jobs db)" "j_job_id j = jid" "r_job_id r = jid"
    "r_run_id r = rid" "scheduled_history_eligible tb xb (nat k) db j r"
    by (auto simp: sql_exists_iff)
  show ?thesis
    by (rule that(2) [OF rj refl refl]; insert assms True)
      (simp_all add: prune_scheduled_run_for_retention_def Let_def split: if_splits)
qed

lemma prune_scheduled_run_for_retention_sim:
  assumes "prune_scheduled_run_for_retention jid rid xb tb k db = Inr (h, db')" and "wf_db db"
  shows "simulated n db db'"
  using assms(1)
proof (cases rule: prune_scheduled_run_for_retentionE)
  case keep
  then show ?thesis using assms(2) by (auto intro: simulated_stutter)
next
  case (pruned r j D R)
  let ?s = "abs_db db"
  have t: "terminal (r_status r)" and ne: "j_current_run_id j \<noteq> Some rid"
    using pruned(5,6) by (auto simp: scheduled_history_eligible_def)
  have rs: "run_state ?s rid = Some (jid, r_status r)" using run_state_in [OF assms(2) pruned(1)] pruned(4,5) by simp
  have js: "job_state ?s jid = Some (j_status j, j_current_run_id j)" using job_state_in [OF assms(2) pruned(2)] pruned(3) by simp
  have rid: "(\<exists>x \<in> set (job_runs db). r_run_id x = k \<and> R x) \<longleftrightarrow> k = rid" for k
    using pruned(1,4,5) t by (auto simp: pruned(8))
  have "tmap r_run_id run_view (sql_delete R (job_runs db)) = (tmap r_run_id run_view (job_runs db))(rid := None)"
    by (rule ext) (simp add: tmap_delete [OF wf_dbD(3) [OF assms(2)]] rid)
  then have "abs_db db' = ?s\<lparr>run_state := (run_state ?s)(rid := None)\<rparr>"
    by (simp add: pruned(9) abs_db_def)
  moreover have "wf_db db'" using assms(2) by (simp add: pruned(9) wf_db_def unique_on_delete)
  ultimately show ?thesis
    by (intro simulated_step_eq [OF _ life_step.prune [OF rs t js ne]])
qed

section \<open>Recovery\<close>

text \<open>
  When leases are consistent, the only running job that recovery can change is one whose run
  has a stale heartbeat: the missing-run and terminal-run branches are for databases that
  an earlier version left behind.
\<close>

lemma recover_current_runE:
  assumes "recover_current_run jid er cutoff t db = Inr (rec, db')" and "wf_db db" and "lease_inv (abs_db db)"
  obtains (keep) "db' = db" "rec = None"
  | (failed) rid r P R where "P = (\<lambda>j. j_job_id j = jid \<and> j_status j = Running \<and> j_current_run_id j = Some rid)"
      "R = (\<lambda>x. r_job_id x = jid \<and> r_run_id x = rid \<and> r_status x = Running)" "er = Some rid"
      "r \<in> set (job_runs db)" "R r" "heartbeat_is_stale (r_heartbeat_at r) cutoff"
      "rowcount R (job_runs db) = 1" "rowcount P (jobs db) = 1"
      "db' = update_jobs P (\<lambda>j. j\<lparr>j_status := Failed, j_updated_at := Some t\<rparr>)
         (update_runs R (\<lambda>x. x\<lparr>r_status := Failed, r_completed_at := Some t\<rparr>) db)"
      "rec = Some \<lparr>rr_job_id = jid, rr_run_id = Some rid, rr_action = Failed_stale_heartbeat,
         rr_last_heartbeat_at = r_heartbeat_at r\<rparr>"
proof (cases "\<exists>j. find_job db jid = Some j \<and> j_status j = Running \<and> j_current_run_id j = er")
  case False
  then have "db' = db" "rec = None"
    using assms(1) by (auto simp: recover_current_run_def split: option.splits)
  then show ?thesis by (rule that(1))
next
  case True
  then obtain j where j: "find_job db jid = Some j" "j_status j = Running" "j_current_run_id j = er" by auto
  have st: "job_state (abs_db db) jid = Some (Running, er)" using find_job_state [OF assms(2) j(1)] j(2,3) by simp
  with lease_invD(2) [OF assms(3), of jid] obtain rid where er: "er = Some rid" by (cases er) auto
  with st have "run_state (abs_db db) rid = Some (jid, Running)" by (simp add: lease_invD(1) [OF assms(3)])
  then obtain r where r: "r \<in> set (job_runs db)" "r_run_id r = rid" "r_job_id r = jid" "r_status r = Running"
    by (auto simp: run_state_Some [OF assms(2)])
  have cur: "current_run db j = Some r"
    using find_run_in [OF assms(2) r(1)] find_job_Some [OF j(1)] j(3) er r(2,3) by (simp add: current_run_def)
  have jid: "j_job_id j = jid" using find_job_Some [OF j(1)] by simp
  show ?thesis
  proof (cases "heartbeat_is_stale (r_heartbeat_at r) cutoff")
    case False
    then have "db' = db" "rec = None"
      using assms(1) j er r cur by (simp_all add: recover_current_run_def terminal_iff)
    then show ?thesis by (rule that(1))
  next
    case True
    have "rowcount (\<lambda>x. r_job_id x = jid \<and> r_run_id x = rid \<and> r_status x = Running) (job_runs db) = 1"
      using r by (subst rowcount_key_1 [OF wf_dbD(3) [OF assms(2)]]) auto
    then show ?thesis
      by (intro that(2) [OF refl refl er r(1) _ True]; insert assms(1) j er r cur True)
        (auto simp: recover_current_run_def settle_parent_def Let_def terminal_iff
          split: if_splits option.splits prod.splits)
  qed
qed

lemma fail_running_one:
  assumes "job_state s jid = Some (Running, Some rid)" and "run_state s rid = Some (jid, Running)"
  shows "s\<lparr>job_state := (job_state s)(jid \<mapsto> (Failed, Some rid)), run_state := (run_state s)(rid \<mapsto> (jid, Failed))\<rparr>
    = fail_running {jid} s"
proof -
  have "(run_state s)(rid \<mapsto> (jid, Failed)) = run_state (fail_running {jid} s)"
    using assms by (intro ext) (auto simp: fail_running_def split: option.splits)
  moreover have "(job_state s)(jid \<mapsto> (Failed, Some rid)) = job_state (fail_running {jid} s)"
    using assms(1) by (auto simp: fail_running_def)
  ultimately show ?thesis by (cases s) (simp add: fail_running_def)
qed

lemma fail_running_union: "fail_running F (fail_running G s) = fail_running (F \<union> G) s"
proof -
  have "job_state (fail_running F (fail_running G s)) = job_state (fail_running (F \<union> G) s)"
    by (rule ext) (auto simp: fail_running_def map_option_case split: option.splits)
  moreover have "run_state (fail_running F (fail_running G s)) = run_state (fail_running (F \<union> G) s)"
    by (rule ext) (auto simp: fail_running_def split: option.splits)
  ultimately show ?thesis by (cases s) (simp add: fail_running_def)
qed

definition sweeps :: "string set \<Rightarrow> lifecycle \<Rightarrow> bool" where
  "sweeps F s \<longleftrightarrow> (\<forall>jid \<in> F. \<exists>rid. job_state s jid = Some (Running, Some rid) \<and> run_state s rid = Some (jid, Running))"

lemma fail_running_empty [simp]: "fail_running {} s = s"
  by (cases s) (auto simp: fail_running_def split: option.splits)

lemma recover_current_run_sweep:
  assumes "recover_current_run jid er cutoff t db = Inr (rec, db')" and "wf_db db" and "lease_inv (abs_db db)"
  shows "\<exists>F. sweeps F (abs_db db) \<and> abs_db db' = fail_running F (abs_db db) \<and> wf_db db'"
  using assms
proof (cases rule: recover_current_runE)
  case keep
  then show ?thesis using assms(2) by (intro exI [of _ "{}"]) (simp add: sweeps_def)
next
  case (failed rid r P R)
  note settle_running [where db = db and R = R and jid = jid and rid = rid and st = Failed and P = P
      and g = "\<lambda>x. x\<lparr>r_status := Failed, r_completed_at := Some t\<rparr>"
      and f = "\<lambda>j. j\<lparr>j_status := Failed, j_updated_at := Some t\<rparr>"]
  note s = this [OF assms(2) failed(7) _ _ failed(8)]
  have "wf_db db'" unfolding failed(9) by (rule s(1)) (auto simp: failed(1,2))
  moreover have "sweeps {jid} (abs_db db)"
    using s(2,3) by (auto simp: sweeps_def failed(1,2))
  moreover have "abs_db db' = fail_running {jid} (abs_db db)"
    unfolding failed(9)
    by (subst s(4)) (use s(2,3) in \<open>auto simp: failed(1,2) intro!: fail_running_one\<close>)
  ultimately show ?thesis by blast
qed

lemma sweeps_union:
  assumes "sweeps G s" and "sweeps F (fail_running G s)"
  shows "sweeps (F \<union> G) s"
  using assms by (fastforce simp: sweeps_def split: if_splits)

lemma recover_each_sweep:
  assumes "recover_each cutoff t rows acc db = Inr (recs, db')" and "wf_db db" and "lease_inv (abs_db db)"
  shows "\<exists>F. sweeps F (abs_db db) \<and> abs_db db' = fail_running F (abs_db db) \<and> wf_db db'"
  using assms
proof (induction rows arbitrary: acc db)
  case Nil
  then show ?case by (intro exI [of _ "{}"]) (simp add: sweeps_def)
next
  case (Cons row rows)
  obtain jid er where row: "row = (jid, er)" by (cases row)
  from Cons.prems(1) obtain rec db1 acc1 where one: "recover_current_run jid er cutoff t db = Inr (rec, db1)"
    and rest: "recover_each cutoff t rows acc1 db1 = Inr (recs, db')"
    by (auto simp: row split: sum.splits prod.splits option.splits)
  from recover_current_run_sweep [OF one Cons.prems(2,3)] obtain G where
    G: "sweeps G (abs_db db)" "abs_db db1 = fail_running G (abs_db db)" "wf_db db1" by auto
  have "lease_inv (abs_db db1)"
    unfolding G(2) by (rule lease_inv_step [OF life_step.sweep Cons.prems(3)]) (use G(1) in \<open>simp add: sweeps_def\<close>)
  from Cons.IH [OF rest G(3) this] obtain F where
    F: "sweeps F (abs_db db1)" "abs_db db' = fail_running F (abs_db db1)" "wf_db db'" by auto
  show ?case
    using sweeps_union [OF G(1)] F G(2) fail_running_union by (intro exI [of _ "F \<union> G"]) simp
qed

lemma sweep_sim:
  assumes "\<exists>F. sweeps F (abs_db db) \<and> abs_db db' = fail_running F (abs_db db) \<and> wf_db db'"
  shows "simulated n db db'"
  using assms by (auto simp: sweeps_def intro!: simulated_step life_step.sweep)

lemma recover_stale_run_sim:
  assumes "recover_stale_run jid er cutoff t db = Inr (b, db')" and "wf_db db" and "lease_inv (abs_db db)"
  shows "simulated n db db'"
  using assms by (intro sweep_sim) (auto simp: recover_stale_run_def split: sum.splits prod.splits dest: recover_current_run_sweep)

lemma recover_stale_running_jobs_sim:
  assumes "recover_stale_running_jobs cutoff t limit db = Inr (recs, db')" and "wf_db db" and "lease_inv (abs_db db)"
  shows "simulated n db db'"
  using assms by (intro sweep_sim)
    (auto simp: recover_stale_running_jobs_def Let_def split: option.splits if_splits intro: recover_each_sweep)

section \<open>Terminal intents\<close>

lemma mark_terminal_webhook_reconciled_frame:
  assumes "mark_terminal_webhook_reconciled c db = Inr db'"
  shows "abs_db db' = abs_db db" and "wf_db db \<Longrightarrow> wf_db db'"
  using assms by (auto simp: mark_terminal_webhook_reconciled_def Let_def abs_update_runs_same wf_update_runs
      split: if_splits)

lemma ensure_terminal_intent_frame:
  assumes "ensure_terminal_intent e c w conv db = Inr (x, db')" and "wf_db db"
  shows "abs_db db' = abs_db db \<and> wf_db db'"
proof -
  obtain db1 where ins: "db1 = db \<or> (\<exists>d b. insert_webhook_delivery e d (candidate_time c) db = Inr (b, db1))"
    and mark: "mark_terminal_webhook_reconciled c db1 = Inr db'"
    using assms(1) unfolding ensure_terminal_intent_def Let_def
    by (auto split: option.splits sum.splits if_splits; blast)
  have "abs_db db1 = abs_db db \<and> wf_db db1"
    using ins insert_webhook_delivery_frame assms(2) by blast
  with mark_terminal_webhook_reconciled_frame [OF mark] show ?thesis by simp
qed

lemma reconcile_terminal_webhook_candidateE:
  assumes "reconcile_terminal_webhook_candidate e c w db = Inr (x, db')" and "wf_db db" and "lease_inv (abs_db db)"
  obtains (keep) "db' = db" "ti_action x = Ti_race_noop"
  | (intent) "ensure_terminal_intent e c w False db = Inr (x, db')"
proof (cases "find_run db (tc_job_id c) (tc_run_id c)")
  case None
  then show ?thesis using assms(1) that(1)
    by (auto simp: reconcile_terminal_webhook_candidate_def race_noop_def)
next
  case run: (Some r)
  show ?thesis
  proof (cases "find_job db (tc_job_id c)")
    case None
    with run show ?thesis using assms(1) that(1)
      by (auto simp: reconcile_terminal_webhook_candidate_def race_noop_def)
  next
    case (Some j)
    have "\<not> (j_current_run_id j = Some (tc_run_id c) \<and> j_status j = Running)" if t: "terminal (r_status r)"
    proof
      assume "j_current_run_id j = Some (tc_run_id c) \<and> j_status j = Running"
      then have "job_state (abs_db db) (tc_job_id c) = Some (Running, Some (tc_run_id c))"
        using find_job_state [OF assms(2) Some] by simp
      with find_run_state [OF assms(2) run] t lease_invD(1) [OF assms(3), of "tc_job_id c" "tc_run_id c"]
      show False by (simp add: terminal_iff)
    qed
    then show ?thesis using assms(1) that run Some
      by (auto simp: reconcile_terminal_webhook_candidate_def race_noop_def split: sum.splits bool.splits if_splits)
  qed
qed

lemma reconcile_terminal_webhook_candidate_sim:
  assumes "reconcile_terminal_webhook_candidate e c w db = Inr (x, db')" and "wf_db db" and "lease_inv (abs_db db)"
  shows "simulated n db db'"
  using assms
proof (cases rule: reconcile_terminal_webhook_candidateE)
  case keep
  then show ?thesis using assms(2) by (auto intro: simulated_stutter)
next
  case intent
  from ensure_terminal_intent_frame [OF this assms(2)] show ?thesis by (auto intro: simulated_stutter)
qed

lemma mark_terminal_webhook_reconciliation_failure_sim:
  assumes "mark_terminal_webhook_reconciliation_failure jid rid t db = (b, db')" and "wf_db db"
  shows "simulated n db db'"
  using assms by (intro simulated_stutter)
    (auto simp: mark_terminal_webhook_reconciliation_failure_def Let_def abs_update_runs_same wf_update_runs)

lemma enqueue_delivery_sim:
  assumes "enqueue_delivery e w t db = Inr (u, db')" and "wf_db db"
  shows "simulated n db db'"
  using assms insert_webhook_delivery_frame
  by (intro simulated_stutter) (auto simp: enqueue_delivery_def split: sum.splits)

section \<open>The transition relation of the database\<close>

text \<open>
  One rule per transaction that writes \<^verbatim>\<open>jobs.db\<close>. The only guard is that a job that is
  inserted is \<open>Queued\<close>: the two callers of \<open>save_job\<close> and \<open>create_idempotent_job\<close>
  (\<^verbatim>\<open>api/routes.py\<close> and \<^verbatim>\<open>api/scrape_submission.py\<close>) build the job with its default status.
  \<open>queue_run\<close> is called with any expected status and any expected run: the scheduler calls it with
  the status and run it last read, which can be a running job. \<open>N\<close> is the admission ceiling \<^verbatim>\<open>workers_max_accepted_runs\<close>; everything else the
  callers pass is arbitrary. What a delivery row decodes to does not change the database,
  only whether it decodes, so the decoder's result type is \<open>unit option\<close> here.
\<close>

inductive store_step :: "nat \<Rightarrow> jobs_db \<Rightarrow> jobs_db \<Rightarrow> bool" for N where
  save: "save_job e b db = Inr (x, db') \<Longrightarrow> status b = Queued \<Longrightarrow> workers_max_accepted_runs e = N \<Longrightarrow> store_step N db db'"
| create: "create_idempotent_job e b scope key h mode ex db = Inr (x1, db') \<Longrightarrow> status b = Queued \<Longrightarrow>
     workers_max_accepted_runs e = N \<Longrightarrow> store_step N db db'"
| expire: "delete_expired_idempotency_records t lmt db = Inr (x2, db') \<Longrightarrow> store_step N db db'"
| update: "update_scheduled_job e jid p m yaml cron tz en t db = Inr (x3, db') \<Longrightarrow> store_step N db db'"
| enable: "set_schedule_enabled e jid en t db = Inr (x3, db') \<Longrightarrow> store_step N db db'"
| restore: "restore_scheduled_job e expected previous db = Inr (x4, db') \<Longrightarrow> store_step N db db'"
| rollback_creation: "rollback_scheduled_job_creation jid db = (x4, db') \<Longrightarrow> store_step N db db'"
| claim: "claim_run e rid jid trig h t db = Inr (x4, db') \<Longrightarrow> store_step N db db'"
| trigger_failure: "record_scheduled_trigger_failure jid rid t code db = Inr (x4, db') \<Longrightarrow> store_step N db db'"
| clear_failure: "clear_scheduled_trigger_failure jid db = (x4, db') \<Longrightarrow> store_step N db db'"
| heartbeat: "heartbeat_run jid rid t db = Inr (x5, db') \<Longrightarrow> store_step N db db'"
| finalize: "finalize_owned_run e jid rid st recs errs t cutoff w db = Inr (x5, db') \<Longrightarrow> store_step N db db'"
| fail: "fail_owned_run e jid rid t cutoff' errs w db = Inr (x5, db') \<Longrightarrow> store_step N db db'"
| queue: "queue_run e jid est er rid trig t sb ey req db = Inr (x4, db') \<Longrightarrow>
     workers_max_accepted_runs e = N \<Longrightarrow> store_step N db db'"
| fail_queued: "fail_queued_run e jid rid t db = Inr (x4, db') \<Longrightarrow> store_step N db db'"
| rollback_submission: "rollback_queued_submission jid rid db = Inr (x4, db') \<Longrightarrow> store_step N db db'"
| reserve_recovery: "reserve_queued_run_recovery jid rid t1 t2 t3 db = (x4, db') \<Longrightarrow> store_step N db db'"
| fail_recovery: "fail_queued_run_recovery e jid rid t1 t2 db = Inr (x4, db') \<Longrightarrow> store_step N db db'"
| recover: "recover_stale_run jid er cutoff t db = Inr (x4, db') \<Longrightarrow> store_step N db db'"
| recover_all: "recover_stale_running_jobs cutoff t limit db = Inr (x6, db') \<Longrightarrow> store_step N db db'"
| reconcile: "reconcile_terminal_webhook_candidate e c w db = Inr (x7, db') \<Longrightarrow> store_step N db db'"
| reconcile_failed: "mark_terminal_webhook_reconciliation_failure jid rid t db = (x4, db') \<Longrightarrow> store_step N db db'"
| cancel: "cancel_job jid t er db = Inr (x8, db') \<Longrightarrow> store_step N db db'"
| reserve: "reserve_job_deletion jid policy t db = Inr (x9, db') \<Longrightarrow> store_step N db db'"
| delete: "finalize_job_deletion jid policy pa db = Inr (x10, db') \<Longrightarrow> store_step N db db'"
| prune: "prune_scheduled_run_for_retention jid rid t1 t2 k db = Inr (x11, db') \<Longrightarrow> store_step N db db'"
| enqueue: "enqueue_delivery e w' t db = Inr (x5, db') \<Longrightarrow> store_step N db db'"
| attempt: "begin_attempt (decode :: delivery_row \<Rightarrow> store_error + unit option) did k t db = (x12, db') \<Longrightarrow> store_step N db db'"
| delivered: "mark_delivered did t ea att db = (x4, db') \<Longrightarrow> store_step N db db'"
| retry: "mark_retryable_failure e did t1 t2 err ea att db = (x4, db') \<Longrightarrow> store_step N db db'"
| dead: "mark_failed e did t reason err' ea att db = (x4, db') \<Longrightarrow> store_step N db db'"
| quarantine: "quarantine_malformed_delivery did t db = (x4, db') \<Longrightarrow> store_step N db db'"
| scrub: "scrub_terminal_deliveries t1 t2 t3 lmt db = Inr (x13, db') \<Longrightarrow> store_step N db db'"
| pending: "list_pending (decode :: delivery_row \<Rightarrow> store_error + unit option) t limit db = Inr (x14, db') \<Longrightarrow> store_step N db db'"
| due: "list_due_pending (decode :: delivery_row \<Rightarrow> store_error + unit option) t1 t2 lmt db = Inr (x14, db') \<Longrightarrow> store_step N db db'"
| exhausted: "list_exhausted_pending (decode :: delivery_row \<Rightarrow> store_error + unit option) t1 k t2 lmt db = Inr (x14, db') \<Longrightarrow> store_step N db db'"
| get: "get_delivery (decode :: delivery_row \<Rightarrow> store_error + unit option) t did db = (x12, db') \<Longrightarrow> store_step N db db'"

lemma outbox_sims:
  assumes "wf_db db"
  shows "begin_attempt decode did k t db = (a, db') \<Longrightarrow> simulated n db db'"
    and "mark_delivered did t ea att db = (b, db') \<Longrightarrow> simulated n db db'"
    and "mark_retryable_failure e did t t2 err ea att db = (b, db') \<Longrightarrow> simulated n db db'"
    and "mark_failed e did t reason err' ea att db = (b, db') \<Longrightarrow> simulated n db db'"
    and "quarantine_malformed_delivery did t db = (b, db') \<Longrightarrow> simulated n db db'"
    and "get_delivery decode t did db = (a, db') \<Longrightarrow> simulated n db db'"
  using outbox_advance_sim [OF _ assms] outbox_advances [where db = db] unfolding quarantine_malformed_delivery_def
  by (metis snd_conv)+

lemma outbox_batch_sims:
  assumes "wf_db db"
  shows "scrub_terminal_deliveries t1 t2 t3 lmt db = Inr (c, db') \<Longrightarrow> simulated n db db'"
    and "list_pending decode t limit db = Inr (ds, db') \<Longrightarrow> simulated n db db'"
    and "list_due_pending decode t t2 lmt db = Inr (ds, db') \<Longrightarrow> simulated n db db'"
    and "list_exhausted_pending decode t k t2 lmt db = Inr (ds, db') \<Longrightarrow> simulated n db db'"
  using outbox_advance_sim [OF _ assms] scrub_terminal_deliveries_advance list_pending_advance
    list_due_pending_advance list_exhausted_pending_advance by metis+

lemmas store_sims = save_job_sim create_idempotent_job_sim delete_expired_idempotency_records_sim
  update_scheduled_job_sim set_schedule_enabled_sim restore_scheduled_job_sim rollback_scheduled_job_creation_sim
  claim_run_sim record_scheduled_trigger_failure_sim clear_scheduled_trigger_failure_sim heartbeat_run_sim
  finalize_owned_run_sim fail_owned_run_sim fail_queued_run_sim rollback_queued_submission_sim
  reserve_queued_run_recovery_sim fail_queued_run_recovery_sim mark_terminal_webhook_reconciliation_failure_sim
  cancel_job_sim reserve_job_deletion_sim finalize_job_deletion_sim prune_scheduled_run_for_retention_sim
  enqueue_delivery_sim outbox_sims outbox_batch_sims

text \<open>
  \<open>displacing db db'\<close>: the transaction is a \<open>queue_run\<close> that expects the job to be running. It is the
  only one that the lifecycle's own rules do not simulate.
\<close>

definition displacing :: "nat \<Rightarrow> string \<Rightarrow> string option \<Rightarrow> jobs_db \<Rightarrow> jobs_db \<Rightarrow> bool" where
  "displacing N jid er db db' \<longleftrightarrow> (\<exists>e rid trig t sb ey req. workers_max_accepted_runs e = N
     \<and> queue_run e jid Running er rid trig t sb ey req db = Inr (True, db'))"

lemma queue_runs_split:
  assumes "queue_run e jid est er rid trig t sb ey req db = Inr (b, db')" and "wf_db db"
    and "workers_max_accepted_runs e = N"
  shows "simulated N db db' \<or> displacing N jid er db db'"
proof (cases "est = Running \<and> b")
  case True
  then show ?thesis using assms(1,3) by (auto simp: displacing_def)
next
  case False
  from assms(1,2) show ?thesis
  proof (cases rule: queue_run_abs)
    case kept
    then show ?thesis using assms(2) by (simp add: simulated_stutter)
  next
    case queued
    then show ?thesis using queue_run_sim [OF assms(1,2)] False assms(3) by auto
  qed
qed

lemma store_step_simulated:
  assumes "store_step N db db'" and "wf_db db" and "lease_inv (abs_db db)"
  shows "simulated N db db' \<or> (\<exists>jid er. displacing N jid er db db')"
  using assms
proof (induction rule: store_step.induct)
  case (recover jid er cutoff t db x4 db')
  then show ?case using recover_stale_run_sim by blast
next
  case (recover_all cutoff t limit db x6 db')
  then show ?case using recover_stale_running_jobs_sim by blast
next
  case (reconcile e c w db x7 db')
  then show ?case using reconcile_terminal_webhook_candidate_sim by blast
next
  case (queue e jid est er rid trig t sb ey req db x4 db')
  then show ?case using queue_runs_split [OF queue(1)] by blast
qed (blast intro: store_sims)+

lemma displacing_step:
  assumes "displacing N jid er db db'" and "wf_db db"
  obtains rid where "wf_db db'" "displace_step N (abs_db db) (abs_db db')"
    "job_state (abs_db db) jid = Some (Running, er)"
    "abs_db db' = (abs_db db)\<lparr>job_state := (job_state (abs_db db))(jid \<mapsto> (Queued, Some rid)),
       snap_state := (snap_state (abs_db db))(rid \<mapsto> jid)\<rparr>"
proof -
  from assms(1) obtain e rid trig t sb ey req where q:
    "queue_run e jid Running er rid trig t sb ey req db = Inr (True, db')" and N: "workers_max_accepted_runs e = N"
    by (auto simp: displacing_def)
  from q assms(2) show thesis
  proof (cases rule: queue_run_abs)
    case queued
    from displace_step.displace [OF queued(3,5,6)] show ?thesis
      using queued(2,3,7) N by (intro that [of rid]) simp_all
  qed simp
qed

definition store_inv :: "nat \<Rightarrow> jobs_db \<Rightarrow> bool" where
  "store_inv N db \<longleftrightarrow> wf_db db \<and> life_inv N (abs_db db)"

lemma store_inv_empty: "store_inv N empty_db"
  by (simp add: store_inv_def wf_empty_db abs_empty_db life_inv_empty)

lemma life_inv_lease: "life_inv n s \<Longrightarrow> lease_inv s"
  by (simp add: life_inv_def)

lemma store_step_any:
  assumes "store_step N db db'" and "store_inv N db"
  shows "wf_db db' \<and> (abs_db db' = abs_db db \<or> any_step N (abs_db db) (abs_db db'))"
proof -
  have wf: "wf_db db" and lease: "lease_inv (abs_db db)" using assms(2) by (auto simp: store_inv_def life_inv_lease)
  from store_step_simulated [OF assms(1) wf lease] show ?thesis
    by (auto simp: simulated_def any_step_def elim: displacing_step [OF _ wf])
qed

lemma store_inv_step: "store_inv N db \<Longrightarrow> store_step N db db' \<Longrightarrow> store_inv N db'"
  using store_step_any [of N db db'] life_inv_step [of N "abs_db db" "abs_db db'"]
  by (auto simp: store_inv_def)

interpretation store: invariant_system "\<lambda>db. db = empty_db" "store_step N" "store_inv N" for N
  by unfold_locales (auto intro: store_inv_empty store_inv_step)

end
