(* ===== verification/Sample.thy ===== *)
theory Sample
  imports Store_Steps
begin

text \<open>
  A concrete environment and a small concrete history of \<^verbatim>\<open>jobs.db\<close>, on which the properties
  are instantiated: the cipher prefixes the purpose, the digest is the text itself.
\<close>

definition sample_env :: env where
  "sample_env = \<lparr>sha256 = (\<lambda>x. x), protect_text = (\<lambda>p x. p @ x),
     reveal_text = (\<lambda>p y. if take (length p) y = p then Some (drop (length p) y) else None),
     workers_max_accepted_runs = 2, workers_memory_limit_mb = 0, memory_headroom_mb = (\<lambda>_. None)\<rparr>"

definition sample_job :: "string \<Rightarrow> string option \<Rightarrow> job" where
  "sample_job jid rid = \<lparr>job_id = jid, project = ''p'', name = jid, status = Queued, config_yaml = ''y'',
     created_at = 1, updated_at = Some 1, schedule_cron = None, schedule_timezone = ''UTC'',
     schedule_enabled = True, current_run_id = rid, current_trigger = None,
     deletion_requested_at = None, delete_results_on_delete = None, schedule_failure_at = None,
     schedule_failure_code = None, schedule_consecutive_failures = 0\<rparr>"

definition after :: "store_error + ('a \<times> jobs_db) \<Rightarrow> jobs_db" where
  "after r = (case r of Inr (_, db) \<Rightarrow> db | Inl _ \<Rightarrow> empty_db)"

definition sample_queued :: jobs_db where
  "sample_queued = after (save_job sample_env (sample_job ''j'' (Some ''r'')) empty_db)"

definition sample_running :: jobs_db where
  "sample_running = after (claim_run sample_env ''r'' ''j'' ''adhoc'' ''y'' 5 sample_queued)"

lemma sample_save: "save_job sample_env (sample_job ''j'' (Some ''r'')) empty_db = Inr (''j'', sample_queued)"
  by code_simp

lemma sample_claim: "claim_run sample_env ''r'' ''j'' ''adhoc'' ''y'' 5 sample_queued = Inr (True, sample_running)"
  by code_simp

lemma sample_queued_reachable: "(store_step 2)\<^sup>*\<^sup>* empty_db sample_queued"
  by (rule r_into_rtranclp, rule store_step.save [OF sample_save]) (simp_all add: sample_job_def sample_env_def)

lemma sample_running_reachable: "(store_step 2)\<^sup>*\<^sup>* empty_db sample_running"
  by (rule rtranclp.rtrancl_into_rtrancl [OF sample_queued_reachable store_step.claim [OF sample_claim]])

definition sample_done :: jobs_db where
  "sample_done = after (finalize_owned_run sample_env ''j'' ''r'' Complete 3 0 9 4 None sample_running)"

lemma sample_finalize:
  "finalize_owned_run sample_env ''j'' ''r'' Complete 3 0 9 4 None sample_running = Inr ((), sample_done)"
  by code_simp

lemma sample_done_reachable: "(store_step 2)\<^sup>*\<^sup>* empty_db sample_done"
  by (rule rtranclp.rtrancl_into_rtrancl [OF sample_running_reachable store_step.finalize [OF sample_finalize]])

definition sample_cancelled :: jobs_db where
  "sample_cancelled = after (cancel_job ''j'' 8 None sample_running)"

lemma sample_cancel: "cancel_job ''j'' 8 None sample_running =
    Inr (cancel_outcome Ca_cancelled ''j'' (Some ''r'') (Some Running) (Some Cancelled), sample_cancelled)"
  by code_simp

end
