(* ===== verification/Store_Properties.thy ===== *)
theory Store_Properties
  imports Sample
begin

text \<open>
  What the job store guarantees in every reachable database, and what its terminal,
  cancellation and deletion operations do. A database is reachable when transactions of
  \<open>store_step\<close> lead to it from the empty one.
\<close>

section \<open>Invariants of reachable databases\<close>

lemma reachable_store_inv: "(store_step N)\<^sup>*\<^sup>* empty_db db \<Longrightarrow> store_inv N db"
  by (rule store.reachable_inv [of empty_db]) simp_all

lemma reachable_wf: "(store_step N)\<^sup>*\<^sup>* empty_db db \<Longrightarrow> wf_db db"
  and reachable_lease: "(store_step N)\<^sup>*\<^sup>* empty_db db \<Longrightarrow> lease_inv (abs_db db)"
  and reachable_snapshot: "(store_step N)\<^sup>*\<^sup>* empty_db db \<Longrightarrow> snapshot_inv (abs_db db)"
  and reachable_parent: "(store_step N)\<^sup>*\<^sup>* empty_db db \<Longrightarrow> parent_inv (abs_db db)"
  and reachable_admission: "(store_step N)\<^sup>*\<^sup>* empty_db db \<Longrightarrow> admission_inv N (abs_db db)"
  using reachable_store_inv [of N db] by (auto simp: store_inv_def life_inv_def)

text \<open>
  Claim C1. Every write transaction of the job store is one step of the abstract lifecycle, or
  leaves the lifecycle alone, in every database that satisfies the store invariant, and the
  constraints of the schema are kept; the one exception is a \<open>queue_run\<close> whose caller expects the job to be
  running, which is the lifecycle's displacing step. New jobs are inserted as \<open>Queued\<close>, as both callers build them;
  the other arguments of the transactions are arbitrary.
\<close>

theorem store_refines_lifecycle:
  assumes "store_step N db db'" and "store_inv N db"
  shows "wf_db db' \<and> (abs_db db' = abs_db db \<or> life_step N (abs_db db) (abs_db db')
     \<or> (\<exists>jid er. displacing N jid er db db' \<and> displace_step N (abs_db db) (abs_db db')))"
proof -
  have wf: "wf_db db" and lease: "lease_inv (abs_db db)" using assms(2) by (auto simp: store_inv_def life_inv_lease)
  from store_step_simulated [OF assms(1) wf lease] show ?thesis
    using displacing_step [OF _ wf] by (auto simp: simulated_def) metis+
qed

theorem store_refines_lifecycle_witness:
  "wf_db sample_running \<and> (abs_db sample_running = abs_db sample_queued
     \<or> life_step 2 (abs_db sample_queued) (abs_db sample_running)
     \<or> (\<exists>jid er. displacing 2 jid er sample_queued sample_running
          \<and> displace_step 2 (abs_db sample_queued) (abs_db sample_running)))"
  by (rule store_refines_lifecycle [OF store_step.claim [OF sample_claim]
        reachable_store_inv [OF sample_queued_reachable]])

text \<open>
  \<open>displaced N jid rid db\<close>: earlier in the history of \<open>db\<close> a caller of \<open>queue_run\<close> that expected the job
  to be running its run \<open>rid\<close> queued the job again.
\<close>

definition displaced :: "nat \<Rightarrow> string \<Rightarrow> string \<Rightarrow> jobs_db \<Rightarrow> bool" where
  "displaced N jid rid db \<longleftrightarrow> (\<exists>db1 db2. (store_step N)\<^sup>*\<^sup>* empty_db db1 \<and> displacing N jid (Some rid) db1 db2
     \<and> (store_step N)\<^sup>*\<^sup>* db2 db)"

lemma displaced_later: "displaced N jid rid db \<Longrightarrow> store_step N db db' \<Longrightarrow> displaced N jid rid db'"
  unfolding displaced_def by (meson rtranclp.rtrancl_into_rtrancl)

lemma orphan_was_displaced:
  assumes "(store_step N)\<^sup>*\<^sup>* empty_db db" and "run_state (abs_db db) rid = Some (jid, Running)"
    and "job_state (abs_db db) jid \<noteq> Some (Running, Some rid)"
  shows "displaced N jid rid db"
  using assms
proof (induction rule: rtranclp_induct)
  case base
  then show ?case by (simp add: abs_empty_db empty_lifecycle_def)
next
  case (step db db')
  note wf = reachable_wf [OF step(1)] and lease = reachable_lease [OF step(1)]
  have old: "displaced N jid rid db'"
    if "run_state (abs_db db) rid = Some (jid, Running)" "job_state (abs_db db) jid \<noteq> Some (Running, Some rid)"
    using displaced_later [OF step.IH [OF that] step(2)] .
  from store_step_simulated [OF step(2) wf lease] show ?case
  proof
    assume "simulated N db db'"
    then have "run_state (abs_db db) rid = Some (jid, Running) \<and> job_state (abs_db db) jid \<noteq> Some (Running, Some rid)"
      using step.prems orphan_step [of N "abs_db db" "abs_db db'"] by (auto simp: simulated_def)
    then show ?thesis using old by simp
  next
    assume "\<exists>jid er. displacing N jid er db db'"
    then obtain jid' er where d: "displacing N jid' er db db'" by auto
    from d wf obtain rid' where j: "job_state (abs_db db) jid' = Some (Running, er)"
      and t: "abs_db db' = (abs_db db)\<lparr>job_state := (job_state (abs_db db))(jid' \<mapsto> (Queued, Some rid')),
         snap_state := (snap_state (abs_db db))(rid' \<mapsto> jid')\<rparr>"
      by (rule displacing_step)
    show ?thesis
    proof (cases "job_state (abs_db db) jid = Some (Running, Some rid)")
      case True
      then have "jid' = jid" "er = Some rid" using step.prems j by (auto simp: t split: if_splits)
      then show ?thesis using d step(1) unfolding displaced_def by blast
    next
      case False
      then show ?thesis using old step.prems by (simp add: t)
    qed
  qed
qed

text \<open>
  Claim C2. Leases: in a reachable database a running job names a current run, and that run is its own and is
  running; and a run that is running is the current run of its running job, unless a caller of \<open>queue_run\<close> that
  expected the job to be running this very run has queued the job again since.
\<close>

theorem running_lease:
  assumes "(store_step N)\<^sup>*\<^sup>* empty_db db" and "j \<in> set (jobs db)"
  shows "(j_status j = Running \<longrightarrow> (\<exists>r \<in> set (job_runs db). j_current_run_id j = Some (r_run_id r)
            \<and> r_job_id r = j_job_id j \<and> r_status r = Running))
       \<and> (\<forall>r \<in> set (job_runs db). r_job_id r = j_job_id j \<and> r_status r = Running \<longrightarrow>
            (j_status j = Running \<and> j_current_run_id j = Some (r_run_id r)) \<or> displaced N (j_job_id j) (r_run_id r) db)"
proof
  note wf = reachable_wf [OF assms(1)]
  note lease = lease_invD [OF reachable_lease [OF assms(1)]]
  have j: "job_state (abs_db db) (j_job_id j) = Some (j_status j, j_current_run_id j)"
    by (rule job_state_in [OF wf assms(2)])
  show "j_status j = Running \<longrightarrow> (\<exists>r \<in> set (job_runs db). j_current_run_id j = Some (r_run_id r)
            \<and> r_job_id r = j_job_id j \<and> r_status r = Running)"
  proof
    assume run: "j_status j = Running"
    obtain rid where rid: "j_current_run_id j = Some rid"
      using lease(2) [of "j_job_id j"] j run by (cases "j_current_run_id j") auto
    then have "run_state (abs_db db) rid = Some (j_job_id j, Running)" using j run by (simp add: lease(1))
    then show "\<exists>r \<in> set (job_runs db). j_current_run_id j = Some (r_run_id r)
            \<and> r_job_id r = j_job_id j \<and> r_status r = Running" using rid by (auto simp: run_state_Some [OF wf])
  qed
  show "\<forall>r \<in> set (job_runs db). r_job_id r = j_job_id j \<and> r_status r = Running \<longrightarrow>
      (j_status j = Running \<and> j_current_run_id j = Some (r_run_id r)) \<or> displaced N (j_job_id j) (r_run_id r) db"
    using run_state_in [OF wf] j orphan_was_displaced [OF assms(1)] by fastforce
qed

theorem running_lease_witness:
  "\<exists>r \<in> set (job_runs sample_running). r_job_id r = ''j'' \<and> r_status r = Running"
proof -
  have "\<exists>j \<in> set (jobs sample_running). j_job_id j = ''j'' \<and> j_status j = Running" by code_simp
  then show ?thesis using running_lease [OF sample_running_reachable] by metis
qed

text \<open>
  Claim C3. Admission control: in a reachable database at most \<^verbatim>\<open>workers_max_accepted_runs\<close> jobs hold an
  accepted run.
\<close>

theorem admission_bound:
  assumes "(store_step N)\<^sup>*\<^sup>* empty_db db"
  shows "rowcount is_active (jobs db) \<le> N"
  using rowcount_active [OF reachable_wf [OF assms]] reachable_admission [OF assms]
  by (simp add: admission_inv_def)

theorem admission_bound_witness: "rowcount is_active (jobs sample_running) \<le> 2"
  by (rule admission_bound [OF sample_running_reachable])

text \<open>
  Claim C4. In a reachable database every queued delivery has its own configuration snapshot, so the
  legacy fallback to the parent's current configuration is never taken for it.
\<close>

theorem queued_delivery_has_snapshot:
  assumes "(store_step N)\<^sup>*\<^sup>* empty_db db" and "find_job db jid = Some j"
    and "j_status j = Queued" and "j_current_run_id j = Some rid"
  shows "\<exists>q. find_snapshot db jid rid = Some q"
proof -
  note wf = reachable_wf [OF assms(1)]
  have "snap_state (abs_db db) rid = Some jid"
    using reachable_snapshot [OF assms(1)] find_job_state [OF wf assms(2)] assms(3,4)
    by (simp add: snapshot_inv_def)
  then have "find_snapshot db jid rid \<noteq> None"
    by (auto simp: find_snapshot_def sql_first_None snap_state_Some [OF wf])
  then show ?thesis by simp
qed

theorem queued_delivery_has_snapshot_witness: "\<exists>q. find_snapshot sample_queued ''j'' ''r'' = Some q"
proof -
  obtain j where "find_job sample_queued ''j'' = Some j" by (cases "find_job sample_queued ''j''") (code_simp, simp)
  moreover have "map_option j_status (find_job sample_queued ''j'') = Some Queued"
    "map_option j_current_run_id (find_job sample_queued ''j'') = Some (Some ''r'')" by code_simp+
  ultimately show ?thesis
    using queued_delivery_has_snapshot [OF sample_queued_reachable, of "''j''" j "''r''"] by simp
qed

text \<open>
  Claim C7. The status of a job only moves along the lifecycle's transition table: a cancelled job can
  only become \<open>Deleting\<close>, a job being deleted never comes back, and only a terminal or
  queued job is queued again. The one exception is a running job that a \<open>queue_run\<close> queues again because its
  caller expected it to be running its current run.
\<close>

theorem job_status_transitions:
  assumes "(store_step N)\<^sup>*\<^sup>* empty_db db" and "store_step N db db'"
    and "find_job db jid = Some j" and "find_job db' jid = Some j'"
  shows "allowed_status (j_status j) (j_status j')
    \<or> (j_status j = Running \<and> j_status j' = Queued \<and> displacing N jid (j_current_run_id j) db db')"
proof -
  note inv = reachable_store_inv [OF assms(1)] and wf = reachable_wf [OF assms(1)]
  have inv': "store_inv N db'" by (rule store_inv_step [OF inv assms(2)])
  have s: "job_state (abs_db db) jid = Some (j_status j, j_current_run_id j)"
    "job_state (abs_db db') jid = Some (j_status j', j_current_run_id j')"
    using find_job_state wf assms(3,4) inv' by (auto simp: store_inv_def)
  from store_step_simulated [OF assms(2) wf reachable_lease [OF assms(1)]] show ?thesis
  proof
    assume "simulated N db db'"
    then show ?thesis
      using s status_step [OF _ reachable_lease [OF assms(1)] s] by (auto simp: simulated_def allowed_status_def)
  next
    assume "\<exists>jid er. displacing N jid er db db'"
    then obtain jid' er where d: "displacing N jid' er db db'" by auto
    from d wf show ?thesis
      by (rule displacing_step) (use d s in \<open>auto simp: allowed_status_def split: if_splits\<close>)
  qed
qed

theorem job_status_transitions_witness: "allowed_status Queued Running"
proof -
  obtain j where j: "find_job sample_queued ''j'' = Some j" by (cases "find_job sample_queued ''j''") (code_simp, simp)
  obtain j' where j': "find_job sample_running ''j'' = Some j'" by (cases "find_job sample_running ''j''") (code_simp, simp)
  have "map_option j_status (find_job sample_queued ''j'') = Some Queued"
    "map_option j_status (find_job sample_running ''j'') = Some Running" by code_simp+
  then show ?thesis
    using job_status_transitions [OF sample_queued_reachable store_step.claim [OF sample_claim] j j'] j j' by simp
qed

text \<open>
  A run keeps its job, and its status only moves from \<open>Running\<close> to a terminal status or
  \<open>Cancelled\<close>: terminal and cancelled runs are immutable.
\<close>

theorem run_status_transitions:
  assumes "(store_step N)\<^sup>*\<^sup>* empty_db db" and "store_step N db db'"
    and "r \<in> set (job_runs db)" and "r' \<in> set (job_runs db')" and "r_run_id r' = r_run_id r"
  shows "r_job_id r' = r_job_id r \<and> allowed_run_status (r_status r) (r_status r')"
proof -
  note inv = reachable_store_inv [OF assms(1)] and wf = reachable_wf [OF assms(1)]
  have wf': "wf_db db'" using store_inv_step [OF inv assms(2)] by (simp add: store_inv_def)
  have s: "run_state (abs_db db) (r_run_id r) = Some (r_job_id r, r_status r)"
    "run_state (abs_db db') (r_run_id r) = Some (r_job_id r', r_status r')"
    using run_state_in [OF wf assms(3)] run_state_in [OF wf' assms(4)] assms(5) by simp_all
  from store_step_simulated [OF assms(2) wf reachable_lease [OF assms(1)]] show ?thesis
  proof
    assume "simulated N db db'"
    then show ?thesis using s run_status_step [OF _ s] by (auto simp: simulated_def allowed_run_status_def)
  next
    assume "\<exists>jid er. displacing N jid er db db'"
    then show ?thesis using s by (auto simp: allowed_run_status_def elim!: displacing_step [OF _ wf])
  qed
qed

theorem run_status_transitions_witness: "allowed_run_status Running Complete"
proof -
  obtain r where r: "job_runs sample_running = [r]" "r_run_id r = ''r''" "r_status r = Running"
  proof (rule that [of "hd (job_runs sample_running)"])
    show "job_runs sample_running = [hd (job_runs sample_running)]"
      "r_run_id (hd (job_runs sample_running)) = ''r''"
      "r_status (hd (job_runs sample_running)) = Running" by code_simp+
  qed
  obtain r' where r': "job_runs sample_done = [r']" "r_run_id r' = ''r''" "r_status r' = Complete"
  proof (rule that [of "hd (job_runs sample_done)"])
    show "job_runs sample_done = [hd (job_runs sample_done)]"
      "r_run_id (hd (job_runs sample_done)) = ''r''"
      "r_status (hd (job_runs sample_done)) = Complete" by code_simp+
  qed
  show ?thesis
    using run_status_transitions [OF sample_running_reachable store_step.finalize [OF sample_finalize], of r r'] r r' by simp
qed

section \<open>Terminal transitions\<close>

lemma commit_terminal_intent_row:
  assumes "commit_terminal_intent e (Some d) t db = Inr (u, db')"
  shows "\<exists>row \<in> set (webhook_deliveries db'). d_delivery_id row = w_delivery_id d"
  using assms by (auto simp: commit_terminal_intent_def insert_webhook_delivery_def sql_exists_iff
      new_delivery_row_def split: if_splits sum.splits)

lemma commit_terminal_intent_tables:
  assumes "commit_terminal_intent e w t db = Inr (u, db')"
  shows "jobs db' = jobs db" "job_runs db' = job_runs db" "queued_run_snapshots db' = queued_run_snapshots db"
  using assms by (auto simp: commit_terminal_intent_def insert_webhook_delivery_def split: if_splits option.splits sum.splits)

lemma find_run_updated:
  assumes "wf_db db" and "r \<in> set (job_runs db)" and "R r" and "\<And>x. r_run_id (g x) = r_run_id x \<and> r_job_id (g x) = r_job_id x"
  shows "find_run (update_runs R g db) (r_job_id r) (r_run_id r) = Some (g r)"
proof -
  have "wf_db (update_runs R g db)" using assms(1,4) by (simp add: wf_update_runs)
  moreover have "g r \<in> set (job_runs (update_runs R g db))"
    using assms(2,3) by (auto simp: update_runs_def in_sql_update)
  ultimately show ?thesis using find_run_in [of "update_runs R g db" "g r"] assms(4) by simp
qed

lemma find_job_updated:
  assumes "wf_db db" and "j \<in> set (jobs db)" and "P j"
    and "\<And>x. j_job_id (f x) = j_job_id x \<and> j_project (f x) = j_project x \<and> j_name (f x) = j_name x"
  shows "find_job (update_jobs P f db) (j_job_id j) = Some (f j)"
proof -
  have "wf_db (update_jobs P f db)" using assms(1,4) by (simp add: wf_update_jobs)
  moreover have "f j \<in> set (jobs (update_jobs P f db))"
    using assms(2,3) by (auto simp: update_jobs_def in_sql_update)
  ultimately show ?thesis using find_job_in [of "update_jobs P f db" "f j"] assms(4) by simp
qed

text \<open>
  Claim C19. Finalising an owned run is one atomic change: the run gets its terminal status, counts and
  reconciliation mark, the job gets the same status, and the webhook intent is stored.
\<close>

theorem finalize_owned_run_atomic:
  assumes "finalize_owned_run e jid rid st recs errs t cutoff w db = Inr (u, db')" and "wf_db db"
  shows "terminal st
    \<and> (\<exists>r. find_run db' jid rid = Some r \<and> r_status r = st \<and> r_completed_at r = Some t
         \<and> r_record_count r = Some recs \<and> r_error_count r = errs \<and> r_webhook_reconciled_at r = Some t)
    \<and> (\<exists>j. find_job db' jid = Some j \<and> j_status j = st \<and> j_current_run_id j = Some rid)
    \<and> (\<forall>d. w = Some d \<longrightarrow> (\<exists>row \<in> set (webhook_deliveries db'). d_delivery_id row = w_delivery_id d))"
  using assms(1)
proof (cases rule: finalize_owned_runE)
  case (1 R g db2)
  note p = settle_owned_parentE [OF 1(5)]
  let ?db1 = "update_runs R g db"
  have keep: "\<And>x. r_run_id (g x) = r_run_id x \<and> r_job_id (g x) = r_job_id x" by (simp add: 1(4))
  have wf1: "wf_db ?db1" using assms(2) keep by (simp add: wf_update_runs)
  from assms(2) 1(2) obtain r where r: "r \<in> set (job_runs db)" "R r" "r_run_id r = rid"
    by (rule owned_run [where rid = rid]) (auto simp: 1(3))
  from wf1 p(1) obtain j where j: "j \<in> set (jobs ?db1)" "j_job_id j = jid" "j_status j = Running" "j_current_run_id j = Some rid"
    by (rule owned_job [where jid = jid]) auto
  have "find_run ?db1 jid rid = Some (g r)"
    using find_run_updated [of db r R g, OF assms(2) r(1,2)] keep r(2,3) by (simp add: 1(3))
  then have "find_run db' jid rid = Some (g r)"
    unfolding find_run_def commit_terminal_intent_tables [OF 1(6)] by (simp add: p(2))
  moreover have "find_job db2 jid = Some (j\<lparr>j_status := st, j_updated_at := Some t\<rparr>)"
    using find_job_updated [of ?db1 j "\<lambda>j. j_job_id j = jid \<and> j_status j = Running \<and> j_current_run_id j = Some rid"
        "\<lambda>j. j\<lparr>j_status := st, j_updated_at := Some t\<rparr>"] wf1 j by (simp add: p(2))
  then have "find_job db' jid = Some (j\<lparr>j_status := st, j_updated_at := Some t\<rparr>)"
    unfolding find_job_def commit_terminal_intent_tables [OF 1(6)] .
  ultimately show ?thesis
    using 1(1,6) j(4) commit_terminal_intent_row by (auto simp: 1(4))
qed

theorem finalize_owned_run_atomic_witness:
  "\<exists>j. find_job sample_done ''j'' = Some j \<and> j_status j = Complete \<and> j_current_run_id j = Some ''r''"
  using finalize_owned_run_atomic [OF sample_finalize reachable_wf [OF sample_running_reachable]] by blast

text \<open>The fence: who is not the running owner of a run cannot change it.\<close>

lemma not_running_rowcount:
  assumes "wf_db db" and "run_state (abs_db db) rid \<noteq> Some (jid, Running)"
    and "\<And>x. R x \<Longrightarrow> r_job_id x = jid \<and> r_run_id x = rid \<and> r_status x = Running"
  shows "rowcount R (job_runs db) = 0"
proof -
  have "\<not> R x" if "x \<in> set (job_runs db)" for x
  proof
    assume "R x"
    with assms(3) have "r_job_id x = jid" "r_run_id x = rid" "r_status x = Running" by auto
    with run_state_in [OF assms(1) that] assms(2) show False by simp
  qed
  then show ?thesis by (simp add: rowcount_0)
qed

lemma fence_heartbeat:
  assumes "wf_db db" and "run_state (abs_db db) rid \<noteq> Some (jid, Running)"
  shows "heartbeat_run jid rid t db = Inl (RunOwnershipError ''heartbeat'' jid rid)"
  unfolding heartbeat_run_def Let_def by (subst not_running_rowcount [OF assms]) auto

lemma fence_finalize:
  assumes "wf_db db" and "run_state (abs_db db) rid \<noteq> Some (jid, Running)"
    and "terminal st" and "validate_optional_delivery w jid rid st = Inr ()"
  shows "finalize_owned_run e jid rid st recs errs t cutoff w db = Inl (RunOwnershipError ''finalize'' jid rid)"
  unfolding finalize_owned_run_def Let_def assms(4) sum.case
  by (subst not_running_rowcount [OF assms(1,2)]) (auto simp: assms(3))

text \<open>The same fence from the job's side: a run that is not the current run of its running job.\<close>

lemma not_owned_rowcount:
  assumes "wf_db db" and "job_state (abs_db db) jid \<noteq> Some (Running, Some rid)"
  shows "rowcount (\<lambda>j. j_job_id j = jid \<and> j_status j = Running \<and> j_current_run_id j = Some rid) (jobs db) = 0"
  using job_state_in [OF assms(1)] assms(2) by (subst rowcount_0) auto

lemma unowned_heartbeat:
  assumes "wf_db db" and "job_state (abs_db db) jid \<noteq> Some (Running, Some rid)"
  shows "heartbeat_run jid rid t db = Inl (RunOwnershipError ''heartbeat'' jid rid)"
proof -
  have "rowcount (\<lambda>r. r_job_id r = jid \<and> r_run_id r = rid \<and> r_status r = Running
                 \<and> sql_exists (\<lambda>j. j_job_id j = r_job_id r \<and> j_status j = Running
                      \<and> j_current_run_id j = Some (r_run_id r)) (jobs db)) (job_runs db) = 0"
    using job_state_in [OF assms(1)] assms(2) by (subst rowcount_0) (fastforce simp: sql_exists_iff)
  then show ?thesis by (simp add: heartbeat_run_def Let_def)
qed

lemma unowned_finalize:
  assumes "wf_db db" and "job_state (abs_db db) jid \<noteq> Some (Running, Some rid)"
    and "terminal st" and "validate_optional_delivery w jid rid st = Inr ()"
  shows "finalize_owned_run e jid rid st recs errs t cutoff w db = Inl (RunOwnershipError ''finalize'' jid rid)"
  using not_owned_rowcount [OF assms(1,2)] assms(3,4)
  by (simp add: finalize_owned_run_def settle_owned_parent_def Let_def update_runs_def)

text \<open>
  A run is finalised at most once: after a successful finalisation every further finalisation
  and heartbeat of that run is refused with \<^verbatim>\<open>RunOwnershipError\<close>, whatever its arguments.
\<close>

theorem finalize_at_most_once:
  assumes "finalize_owned_run e jid rid st recs errs t cutoff w db = Inr (u, db')" and "wf_db db"
    and "terminal st'" and "validate_optional_delivery w' jid rid st' = Inr ()"
  shows "finalize_owned_run e' jid rid st' recs' errs' t' cutoff' w' db' = Inl (RunOwnershipError ''finalize'' jid rid)
    \<and> heartbeat_run jid rid t' db' = Inl (RunOwnershipError ''heartbeat'' jid rid)"
proof -
  have wf': "wf_db db'" using finalize_owned_run_sim [OF assms(1,2)] by (simp add: simulated_def)
  obtain R g db2 where "terminal st" and r: "rowcount R (job_runs db) = 1"
    "R = (\<lambda>r. r_job_id r = jid \<and> r_run_id r = rid \<and> r_status r = Running \<and> null_gt (r_heartbeat_at r) cutoff)"
    "g = (\<lambda>r. r\<lparr>r_status := st, r_completed_at := Some t, r_record_count := Some recs,
        r_error_count := errs, r_webhook_reconciled_at := Some t\<rparr>)"
    and p: "settle_owned_parent ''finalize'' jid rid Running st t (update_runs R g db) = Inr db2"
    and c: "commit_terminal_intent e w t db2 = Inr (u, db')"
    using assms(1) by (rule finalize_owned_runE)
  note p' = settle_owned_parentE [OF p]
  have "abs_db db2 = (abs_db db)\<lparr>job_state := (job_state (abs_db db))(jid \<mapsto> (st, Some rid)),
           run_state := (run_state (abs_db db))(rid \<mapsto> (jid, st))\<rparr>"
    unfolding p'(2) by (rule settle_running(4)) (use assms(2) r(1) p'(1) in \<open>auto simp: r(2,3)\<close>)
  then have "run_state (abs_db db') rid = Some (jid, st)"
    using commit_terminal_intent_frame(1) [OF c] by simp
  then have "run_state (abs_db db') rid \<noteq> Some (jid, Running)"
    using \<open>terminal st\<close> by (auto simp: terminal_iff)
  with wf' assms(3,4) show ?thesis by (simp add: fence_finalize fence_heartbeat)
qed

theorem finalize_at_most_once_witness:
  "heartbeat_run ''j'' ''r'' 10 sample_done = Inl (RunOwnershipError ''heartbeat'' ''j'' ''r'')"
  using finalize_at_most_once [OF sample_finalize reachable_wf [OF sample_running_reachable], of Failed None sample_env 0 0 10 0]
  by (simp add: terminal_iff validate_optional_delivery_def)

end
