(* ===== verification/Store_Effects.thy ===== *)
theory Store_Effects
  imports Store_Properties
begin

text \<open>
  What the cancellation, deletion, submission, recovery and retention operations of the job
  store achieve, beyond the invariants of \<open>Store_Properties\<close>.
\<close>

section \<open>Cancellation\<close>

lemma job_not_queued_rowcount:
  assumes "wf_db db" and "job_state (abs_db db) jid = Some (st, r)" and "\<And>x. P x \<Longrightarrow> j_job_id x = jid \<and> j_status x \<noteq> st"
  shows "rowcount P (jobs db) = 0"
proof -
  have "\<not> P x" if "x \<in> set (jobs db)" for x
  proof
    assume "P x"
    with assms(3) have "j_job_id x = jid" "j_status x \<noteq> st" by auto
    with job_state_in [OF assms(1) that] assms(2) show False by simp
  qed
  then show ?thesis by (simp add: rowcount_0)
qed

lemma cancelled_claim:
  assumes "wf_db db" and "job_state (abs_db db) jid = Some (Cancelled, r)"
  shows "claim_run e rid jid trig h t db = Inr (False, db)"
  unfolding claim_run_def Let_def by (subst job_not_queued_rowcount [OF assms]) auto

lemma cancelled_queue:
  assumes "wf_db db" and "job_state (abs_db db) jid = Some (Cancelled, r)"
  shows "queue_run e jid est er rid trig t sb ey req db = Inr (False, db)"
proof (cases "est \<in> {Cancelled, Deleting}")
  case True
  then show ?thesis by (simp add: queue_run_def)
next
  case False
  then show ?thesis
    unfolding queue_run_def Let_def by (subst job_not_queued_rowcount [OF assms]) auto
qed

lemma cancelled_fail:
  assumes "wf_db db" and "job_state (abs_db db) jid = Some (Cancelled, r)"
    and "validate_optional_delivery w jid rid Failed = Inr ()"
  shows "fail_owned_run e jid rid t cutoff errs w db = Inl (RunOwnershipError ''fail'' jid rid)"
proof (cases "sql_first (\<lambda>j. j_job_id j = jid \<and> j_current_run_id j = Some rid) (jobs db)")
  case None
  then show ?thesis by (simp add: fail_owned_run_def assms(3))
next
  case (Some j)
  with job_state_in [OF assms(1), of j] assms(2) have "j_status j = Cancelled"
    by (auto dest!: sql_first_Some)
  with Some show ?thesis by (simp add: fail_owned_run_def assms(3))
qed

lemma cancel_job_state:
  assumes "cancel_job jid t er db = Inr (c, db')" and "co_action c = Ca_cancelled" and "wf_db db"
  shows "\<exists>r. job_state (abs_db db') jid = Some (Cancelled, r)"
  using assms(1)
proof (cases rule: cancel_jobE)
  case keep
  with assms(2) show ?thesis by simp
next
  case (queued r P)
  define f where "f = (\<lambda>j :: job_row. j\<lparr>j_status := Cancelled, j_schedule_enabled := False, j_updated_at := Some t\<rparr>)"
  from queued(2) obtain j where "abs_db (update_jobs P f db) = (abs_db db)\<lparr>job_state :=
       (job_state (abs_db db))(jid \<mapsto> (j_status (f j), j_current_run_id (f j)))\<rparr>"
    by (rule job_cas [where jid = jid and f = f]) (auto simp: assms(3) queued(1) f_def)
  then show ?thesis by (simp add: queued(4) f_def)
next
  case (running rid P R)
  have "abs_db db' = (abs_db db)\<lparr>job_state := (job_state (abs_db db))(jid \<mapsto> (Cancelled, Some rid)),
           run_state := (run_state (abs_db db))(rid \<mapsto> (jid, Cancelled))\<rparr>"
    unfolding running(6) by (rule settle_running(4)) (use assms(3) running(3,4) in \<open>auto simp: running(1,2)\<close>)
  then show ?thesis by simp
qed

text \<open>
  Claim C20. Cancellation fences the job: after it, from a reachable database, no delivery of the job can be
  claimed, queued, heartbeaten, finalised or failed, whatever the arguments.
\<close>

theorem cancel_job_fences:
  assumes "(store_step N)\<^sup>*\<^sup>* empty_db db" and "cancel_job jid t er db = Inr (c, db')" and "co_action c = Ca_cancelled"
  shows "claim_run e rid jid trig h t' db' = Inr (False, db')
    \<and> queue_run e jid est er' rid trig t' sb ey req db' = Inr (False, db')
    \<and> heartbeat_run jid rid t' db' = Inl (RunOwnershipError ''heartbeat'' jid rid)
    \<and> (terminal st \<and> validate_optional_delivery w jid rid st = Inr () \<longrightarrow>
         finalize_owned_run e jid rid st recs errs t' cutoff w db' = Inl (RunOwnershipError ''finalize'' jid rid))
    \<and> (validate_optional_delivery w jid rid Failed = Inr () \<longrightarrow>
         fail_owned_run e jid rid t' cutoff' errs w db' = Inl (RunOwnershipError ''fail'' jid rid))"
proof -
  have inv: "store_inv N db'"
    by (rule store_inv_step [OF reachable_store_inv [OF assms(1)] store_step.cancel [OF assms(2)]])
  then have wf: "wf_db db'" by (simp add: store_inv_def)
  obtain r where st: "job_state (abs_db db') jid = Some (Cancelled, r)"
    using cancel_job_state [OF assms(2,3) reachable_wf [OF assms(1)]] by auto
  then have "job_state (abs_db db') jid \<noteq> Some (Running, Some rid)" by simp
  with wf st show ?thesis
    by (simp add: cancelled_claim cancelled_queue cancelled_fail unowned_heartbeat unowned_finalize)
qed

theorem cancel_job_fences_witness:
  "heartbeat_run ''j'' ''r'' 9 sample_cancelled = Inl (RunOwnershipError ''heartbeat'' ''j'' ''r'')"
  using cancel_job_fences [OF sample_running_reachable sample_cancel] by simp

section \<open>Deletion\<close>

text \<open>
  Claim C21. A finalised deletion removes every row of the job from every table in one transaction,
  touches no row of any other job, and never happens while a webhook is still pending.
\<close>

theorem deletion_is_complete:
  assumes "finalize_job_deletion jid policy pa db = Inr (o', db')" and "df_action o' = Df_deleted" and "wf_db db"
  shows "\<not> has_pending_webhook db jid
    \<and> jobs db' = filter (\<lambda>j. j_job_id j \<noteq> jid) (jobs db)
    \<and> job_runs db' = filter (\<lambda>r. r_job_id r \<noteq> jid) (job_runs db)
    \<and> queued_run_snapshots db' = filter (\<lambda>q. q_job_id q \<noteq> jid) (queued_run_snapshots db)
    \<and> webhook_deliveries db' = filter (\<lambda>d. d_job_id d \<noteq> jid) (webhook_deliveries db)
    \<and> scrape_idempotency db' = filter (\<lambda>i. i_job_id i \<noteq> jid) (scrape_idempotency db)"
  using assms(1)
proof (cases rule: finalize_job_deletionE)
  case keep
  with assms(2) show ?thesis by simp
next
  case (gone P)
  from assms(3) gone(3) obtain j where j: "j \<in> set (jobs db)" "P j" "j_job_id j = jid"
    by (rule owned_job [where jid = jid]) (auto simp: gone(1))
  have P: "P x \<longleftrightarrow> j_job_id x = jid" if "x \<in> set (jobs db)" for x
    using unique_onD [OF wf_dbD(1) [OF assms(3)] that j(1)] j(2,3) by (auto simp: gone(1))
  have "filter P (jobs db) = filter (\<lambda>j. j_job_id j = jid) (jobs db)"
    using P by (rule filter_cong [OF refl])
  moreover have "filter (\<lambda>x. \<not> P x) (jobs db) = filter (\<lambda>j. j_job_id j \<noteq> jid) (jobs db)"
    using P by (intro filter_cong) auto
  moreover have "j_job_id ` {x \<in> set (jobs db). j_job_id x = jid} = {jid}" using j by auto
  ultimately show ?thesis
    using gone(2) by (simp add: gone(5) delete_jobs_def remove_job_rows_def sql_delete_def conj_commute)
qed

definition sample_deleting :: jobs_db where
  "sample_deleting = after (reserve_job_deletion ''j'' True 12 sample_done)"

theorem deletion_is_complete_witness:
  "jobs (after (finalize_job_deletion ''j'' True None sample_deleting)) = []"
proof -
  have "finalize_job_deletion ''j'' True None sample_deleting =
      Inr (finalization Df_deleted ''j'', after (finalize_job_deletion ''j'' True None sample_deleting))" by code_simp
  moreover have "reserve_job_deletion ''j'' True 12 sample_done =
      Inr (reservation Dr_created ''j'' (Some ''r'') (Some Complete) True [''r''], sample_deleting)" by code_simp
  then have "wf_db sample_deleting"
    using reserve_job_deletion_sim reachable_wf [OF sample_done_reachable] by (auto simp: simulated_def)
  ultimately have "jobs (after (finalize_job_deletion ''j'' True None sample_deleting)) =
      filter (\<lambda>j. j_job_id j \<noteq> ''j'') (jobs sample_deleting)"
    using deletion_is_complete by fastforce
  moreover have "filter (\<lambda>j. j_job_id j \<noteq> ''j'') (jobs sample_deleting) = []" by code_simp
  ultimately show ?thesis by simp
qed

section \<open>Idempotent submission\<close>

lemma sql_first_unique:
  assumes "x \<in> set t" and "P x" and "\<And>y. y \<in> set t \<Longrightarrow> P y \<Longrightarrow> y = x"
  shows "sql_first P t = Some x"
proof (cases "sql_first P t")
  case None
  with assms(1,2) show ?thesis by (auto simp: sql_first_None)
next
  case (Some y)
  with assms(3) sql_first_Some [OF Some] show ?thesis by simp
qed

lemma insert_job_row:
  assumes "insert_job e b db = Inr db'"
  shows "jobs db' = jobs db @ [new_job_row e b (accepted_trigger b)]" and "scrape_idempotency db' = scrape_idempotency db"
    and "webhook_deliveries db' = webhook_deliveries db" and "job_runs db' = job_runs db"
  using assms by (auto simp: insert_job_def Let_def insert_jobs_row_def insert_snapshot_row_def
      split: if_splits sum.splits option.splits job_status.splits)

lemma row_to_new_job:
  assumes "envelope_ok e"
  shows "\<exists>b'. row_to_job e (new_job_row e b trig) = Inr b' \<and> job_id b' = job_id b \<and> config_yaml b' = config_yaml b"
  using assms by (simp add: row_to_job_def new_job_row_def envelope_ok_def)

lemma create_idempotent_job_createdE:
  assumes "create_idempotent_job e b scope key h mode ex db = Inr (x, db')" and "io_action x = Idem_created"
  obtains rid db1 db2 i where "current_run_id b = Some rid" "io_run_id x = rid" "io_job x = b" "io_response_mode x = mode"
    "i = \<lparr>i_caller_scope = scope, i_key_digest = key, i_request_hash = h, i_job_id = job_id b, i_run_id = rid,
        i_response_mode = mode, i_created_at = created_at b, i_expires_at = ex\<rparr>"
    "db1 = db\<lparr>scrape_idempotency := sql_delete
                 (\<lambda>i. live_key scope key i \<and> i_expires_at i \<le> created_at b) (scrape_idempotency db)\<rparr>"
    "insert_job e b db1 = Inr db2" "insert_idempotency_row i db2 = Inr db'"
proof -
  obtain rid where rid: "current_run_id b = Some rid"
    using assms(1) by (auto simp: create_idempotent_job_def split: option.splits)
  show thesis
    using that [OF rid _ _ _ refl refl] assms unfolding create_idempotent_job_def rid option.case Let_def
    by (auto split: option.splits sum.splits prod.splits if_splits)
qed

text \<open>
  Replaying an accepted idempotent submission before its key expires creates nothing: it returns
  the job and run of the first submission, \<open>Idem_matched\<close> for the same request and \<open>Idem_conflict\<close> for a
  different one.
\<close>

theorem idempotent_replay:
  assumes "create_idempotent_job e b scope key h mode ex db = Inr (x, db')" and "io_action x = Idem_created"
    and "wf_db db" and "status b = Queued" and "envelope_ok e"
    and "current_run_id b' \<noteq> None" and "created_at b' < ex"
  shows "\<exists>y. create_idempotent_job e b' scope key h' mode' ex' db' = Inr (y, db')
    \<and> io_action y = (if h' = h \<and> mode' = mode then Idem_matched else Idem_conflict)
    \<and> job_id (io_job y) = job_id b \<and> config_yaml (io_job y) = config_yaml b
    \<and> io_run_id y = io_run_id x \<and> io_response_mode y = mode"
proof -
  obtain rid db1 db2 i where x: "current_run_id b = Some rid" "io_run_id x = rid" "io_job x = b" "io_response_mode x = mode"
    and i: "i = \<lparr>i_caller_scope = scope, i_key_digest = key, i_request_hash = h, i_job_id = job_id b, i_run_id = rid,
        i_response_mode = mode, i_created_at = created_at b, i_expires_at = ex\<rparr>"
    and db1: "db1 = db\<lparr>scrape_idempotency := sql_delete
                 (\<lambda>i. live_key scope key i \<and> i_expires_at i \<le> created_at b) (scrape_idempotency db)\<rparr>"
    and ins: "insert_job e b db1 = Inr db2" "insert_idempotency_row i db2 = Inr db'"
    by (rule create_idempotent_job_createdE [OF assms(1,2)])
  obtain rid' where rid': "current_run_id b' = Some rid'" using assms(6) by auto
  have wf': "wf_db db'" using create_idempotent_job_sim [OF assms(1,3,4)] by (simp add: simulated_def)
  define j where "j = new_job_row e b (accepted_trigger b)"
  note row = insert_idempotency_rowE [OF ins(2)]
  have i_in: "i \<in> set (scrape_idempotency db')" and j_in: "j \<in> set (jobs db')"
    using row(1) insert_job_row(1) [OF ins(1)] by (simp_all add: j_def)
  have only_i: "k = i" if "k \<in> set (scrape_idempotency db')" "live_key scope key k" for k
    using unique_onD [OF wf_dbD(6) [OF wf'] that(1) i_in] that(2) by (simp add: live_key_def idem_key_def i)
  have only_j: "k = j" if "k \<in> set (jobs db')" "j_job_id k = job_id b" for k
    using unique_onD [OF wf_dbD(1) [OF wf'] that(1) j_in] that(2) by (simp add: j_def new_job_row_def)
  have "\<not> (live_key scope key k \<and> i_expires_at k \<le> created_at b')" if "k \<in> set (scrape_idempotency db')" for k
    using only_i [OF that] assms(7) by (auto simp: i)
  then have purge: "sql_delete (\<lambda>i. live_key scope key i \<and> i_expires_at i \<le> created_at b') (scrape_idempotency db') =
      scrape_idempotency db'" by (auto simp: sql_delete_def filter_id_conv)
  have first: "sql_first (\<lambda>(i, j). live_key scope key i \<and> i_job_id i = j_job_id j)
      (List.product (scrape_idempotency db') (jobs db')) = Some (i, j)"
  proof (rule sql_first_unique)
    show "(i, j) \<in> set (List.product (scrape_idempotency db') (jobs db'))" using i_in j_in by simp
    show "case (i, j) of (i, j) \<Rightarrow> live_key scope key i \<and> i_job_id i = j_job_id j"
      by (simp add: live_key_def i j_def new_job_row_def)
    fix y assume y: "y \<in> set (List.product (scrape_idempotency db') (jobs db'))"
      and P: "case y of (i, j) \<Rightarrow> live_key scope key i \<and> i_job_id i = j_job_id j"
    obtain k l where kl: "y = (k, l)" by (cases y)
    have k: "k = i" by (rule only_i) (use y P kl in auto)
    have "l = j" by (rule only_j) (use y P kl k in \<open>auto simp: i\<close>)
    with k kl show "y = (i, j)" by simp
  qed
  obtain b2 where b2: "row_to_job e j = Inr b2" "job_id b2 = job_id b" "config_yaml b2 = config_yaml b"
    using row_to_new_job [OF assms(5)] j_def by blast
  show ?thesis
    unfolding create_idempotent_job_def rid' option.case Let_def purge
    using b2 first x(2) by (auto simp: i)
qed

theorem idempotent_replay_witness:
  "\<exists>y. create_idempotent_job sample_env (sample_job ''k'' (Some ''s'')) ''alice'' ''key'' ''other'' ''async'' 90
      (after (create_idempotent_job sample_env (sample_job ''j'' (Some ''r'')) ''alice'' ''key'' ''h'' ''async'' 50 empty_db))
     = Inr (y, after (create_idempotent_job sample_env (sample_job ''j'' (Some ''r'')) ''alice'' ''key'' ''h'' ''async'' 50 empty_db))
     \<and> io_action y = Idem_conflict \<and> job_id (io_job y) = ''j'' \<and> io_run_id y = ''r''"
proof -
  define db' where "db' = after (create_idempotent_job sample_env (sample_job ''j'' (Some ''r'')) ''alice'' ''key'' ''h'' ''async'' 50 empty_db)"
  have first: "create_idempotent_job sample_env (sample_job ''j'' (Some ''r'')) ''alice'' ''key'' ''h'' ''async'' 50 empty_db
     = Inr (\<lparr>io_action = Idem_created, io_job = sample_job ''j'' (Some ''r''), io_run_id = ''r'', io_response_mode = ''async''\<rparr>, db')"
    unfolding db'_def by code_simp
  have env: "envelope_ok sample_env" by (simp add: envelope_ok_def sample_env_def)
  show ?thesis
    using idempotent_replay [OF first _ wf_empty_db _ env, of "sample_job ''k'' (Some ''s'')" "''other''" "''async''" 90]
    unfolding db'_def [symmetric] by (auto simp: sample_job_def)
qed

section \<open>Stale-run recovery\<close>

definition stale_running :: "instant \<Rightarrow> run_row \<Rightarrow> bool" where
  "stale_running cutoff r \<longleftrightarrow> r_status r = Running \<and> heartbeat_is_stale (r_heartbeat_at r) cutoff"

definition abandon :: "instant \<Rightarrow> run_row \<Rightarrow> run_row" where
  "abandon t r = r\<lparr>r_status := Failed, r_completed_at := Some t\<rparr>"

lemma abandon_fun: "(\<lambda>r :: run_row. r\<lparr>r_status := Failed, r_completed_at := Some t\<rparr>) = abandon t"
  by (rule ext) (simp add: abandon_def)

text \<open>The run that a running job names as its current one.\<close>

definition owns_lease :: "lifecycle \<Rightarrow> run_row \<Rightarrow> bool" where
  "owns_lease s r \<longleftrightarrow> job_state s (r_job_id r) = Some (Running, Some (r_run_id r))"

definition stale_owned :: "instant \<Rightarrow> lifecycle \<Rightarrow> (string \<times> string option) set \<Rightarrow> run_row \<Rightarrow> bool" where
  "stale_owned cutoff s rows r \<longleftrightarrow> stale_running cutoff r \<and> owns_lease s r \<and> (r_job_id r, Some (r_run_id r)) \<in> rows"

lemma recover_current_run_exact:
  assumes "wf_db db" and "lease_inv (abs_db db)"
  shows "\<exists>rec db'. recover_current_run jid er cutoff t db = Inr (rec, db')
    \<and> job_runs db' = sql_update (stale_owned cutoff (abs_db db) {(jid, er)}) (abandon t) (job_runs db)
    \<and> (job_state (abs_db db') = job_state (abs_db db) \<or> (job_state (abs_db db) jid = Some (Running, er)
         \<and> job_state (abs_db db') = (job_state (abs_db db))(jid \<mapsto> (Failed, er))))"
proof (cases "job_state (abs_db db) jid = Some (Running, er)")
  case False
  then have "\<not> (\<exists>j. find_job db jid = Some j \<and> j_status j = Running \<and> j_current_run_id j = er)"
    using find_job_state [OF assms(1)] by fastforce
  then have "recover_current_run jid er cutoff t db = Inr (None, db)"
    by (cases "find_job db jid") (auto simp: recover_current_run_def)
  moreover have "\<not> stale_owned cutoff (abs_db db) {(jid, er)} r" for r
    using False by (auto simp: stale_owned_def owns_lease_def)
  ultimately show ?thesis by (simp add: sql_update_no_match)
next
  case st: True
  with lease_invD(2) [OF assms(2), of jid] obtain rid where er: "er = Some rid" by (cases er) auto
  from st obtain j where j: "j \<in> set (jobs db)" "j_job_id j = jid" "j_status j = Running" "j_current_run_id j = er"
    by (auto simp: job_state_Some [OF assms(1)])
  have fj: "find_job db jid = Some j" using find_job_in [OF assms(1) j(1)] j(2) by simp
  have "run_state (abs_db db) rid = Some (jid, Running)" using lease_invD(1) [OF assms(2)] st er by simp
  then obtain r where r: "r \<in> set (job_runs db)" "r_run_id r = rid" "r_job_id r = jid" "r_status r = Running"
    by (auto simp: run_state_Some [OF assms(1)])
  have cur: "current_run db j = Some r"
    using find_run_in [OF assms(1) r(1)] r j er by (simp add: current_run_def)
  have only: "stale_owned cutoff (abs_db db) {(jid, er)} x \<longleftrightarrow> x = r \<and> heartbeat_is_stale (r_heartbeat_at r) cutoff"
    if "x \<in> set (job_runs db)" for x
    using unique_onD [OF wf_dbD(3) [OF assms(1)] that r(1)] r st er
    by (auto simp: stale_owned_def owns_lease_def stale_running_def)
  show ?thesis
  proof (cases "heartbeat_is_stale (r_heartbeat_at r) cutoff")
    case False
    then have "recover_current_run jid er cutoff t db = Inr (None, db)"
      using fj j er r cur by (simp add: recover_current_run_def terminal_iff)
    moreover have "sql_update (stale_owned cutoff (abs_db db) {(jid, er)}) (abandon t) (job_runs db) = job_runs db"
      using only False by (intro sql_update_no_match) auto
    ultimately show ?thesis by simp
  next
    case True
    let ?R = "\<lambda>x. r_job_id x = jid \<and> r_run_id x = rid \<and> r_status x = Running"
    let ?P = "\<lambda>j. j_job_id j = jid \<and> j_status j = Running \<and> j_current_run_id j = Some rid"
    have R1: "rowcount ?R (job_runs db) = 1"
      using r by (subst rowcount_key_1 [OF wf_dbD(3) [OF assms(1)]]) auto
    have P1: "rowcount ?P (jobs db) = 1"
      using j er by (subst rowcount_key_1 [OF wf_dbD(1) [OF assms(1)]]) auto
    define db' where "db' = update_jobs ?P (\<lambda>j. j\<lparr>j_status := Failed, j_updated_at := Some t\<rparr>)
      (update_runs ?R (\<lambda>x. x\<lparr>r_status := Failed, r_completed_at := Some t\<rparr>) db)"
    have rec: "\<exists>rec. recover_current_run jid er cutoff t db = Inr (rec, db')"
      using fj j cur r er R1 P1 True
      by (simp add: recover_current_run_def settle_parent_def Let_def terminal_iff db'_def update_runs_def)
    have "?R x \<longleftrightarrow> x = r" if "x \<in> set (job_runs db)" for x
      using unique_onD [OF wf_dbD(3) [OF assms(1)] that r(1)] r by auto
    then have runs: "job_runs db' = sql_update (stale_owned cutoff (abs_db db) {(jid, er)}) (abandon t) (job_runs db)"
      using only True by (auto simp: db'_def update_jobs_def update_runs_def sql_update_def abandon_fun)
    have "abs_db db' = (abs_db db)\<lparr>job_state := (job_state (abs_db db))(jid \<mapsto> (Failed, Some rid)),
           run_state := (run_state (abs_db db))(rid \<mapsto> (jid, Failed))\<rparr>"
      unfolding db'_def by (rule settle_running(4)) (use assms(1) R1 P1 in auto)
    then show ?thesis using rec runs st er by auto
  qed
qed

lemma recover_each_exact:
  assumes "wf_db db" and "lease_inv (abs_db db)"
  shows "\<exists>recs db'. recover_each cutoff t rows acc db = Inr (recs, db')
    \<and> job_runs db' = sql_update (stale_owned cutoff (abs_db db) (set rows)) (abandon t) (job_runs db)"
  using assms
proof (induction rows arbitrary: acc db)
  case Nil
  then show ?case by (simp add: sql_update_no_match stale_owned_def)
next
  case (Cons row rows)
  obtain jid er where row: "row = (jid, er)" by (cases row)
  from recover_current_run_exact [OF Cons.prems, of jid er cutoff t] obtain rec db1
    where one: "recover_current_run jid er cutoff t db = Inr (rec, db1)"
      and runs1: "job_runs db1 = sql_update (stale_owned cutoff (abs_db db) {(jid, er)}) (abandon t) (job_runs db)"
      and jobs1: "job_state (abs_db db1) = job_state (abs_db db) \<or> (job_state (abs_db db) jid = Some (Running, er)
         \<and> job_state (abs_db db1) = (job_state (abs_db db))(jid \<mapsto> (Failed, er)))"
    by auto
  from recover_current_run_sweep [OF one Cons.prems] obtain G where
    G: "sweeps G (abs_db db)" "abs_db db1 = fail_running G (abs_db db)" "wf_db db1" by auto
  have lease1: "lease_inv (abs_db db1)"
    unfolding G(2) by (rule lease_inv_step [OF life_step.sweep Cons.prems(2)]) (use G(1) in \<open>simp add: sweeps_def\<close>)
  define acc1 where "acc1 = (case rec of None \<Rightarrow> acc | Some x \<Rightarrow> acc @ [x])"
  from Cons.IH [OF G(3) lease1, of acc1] obtain recs db' where
    rest: "recover_each cutoff t rows acc1 db1 = Inr (recs, db')"
    and runs: "job_runs db' = sql_update (stale_owned cutoff (abs_db db1) (set rows)) (abandon t) (job_runs db1)"
    by auto
  have gone: "\<not> stale_owned cutoff s X (abandon t r)" for s X r by (simp add: stale_owned_def stale_running_def abandon_def)
  have same: "stale_owned cutoff (abs_db db1) (set rows) r \<longleftrightarrow> stale_owned cutoff (abs_db db) (set (row # rows)) r"
    if "\<not> stale_owned cutoff (abs_db db) {(jid, er)} r" for r
    using that jobs1 by (auto simp: stale_owned_def owns_lease_def row split: if_splits)
  have "job_runs db' = sql_update (stale_owned cutoff (abs_db db) (set (row # rows))) (abandon t) (job_runs db)"
    unfolding runs runs1 using gone same by (auto simp: sql_update_def) (auto simp: stale_owned_def row)
  moreover have "recover_each cutoff t (row # rows) acc db = Inr (recs, db')"
    using rest one by (auto simp: row acc1_def split: option.splits)
  ultimately show ?case by blast
qed

lemma recovery_exact:
  assumes "wf_db db" and "lease_inv (abs_db db)"
  shows "\<exists>recs db'. recover_stale_running_jobs cutoff t None db = Inr (recs, db')
    \<and> job_runs db' = sql_update (\<lambda>r. stale_running cutoff r \<and> owns_lease (abs_db db) r) (abandon t) (job_runs db)"
proof -
  define rows where "rows = map (\<lambda>j. (j_job_id j, j_current_run_id j)) (sql_order (recovery_order db)
            (filter (is_recovery_candidate db cutoff) (jobs db)))"
  have listed: "(r_job_id r, Some (r_run_id r)) \<in> set rows"
    if "r \<in> set (job_runs db)" "stale_running cutoff r" "owns_lease (abs_db db) r" for r
  proof -
    from that(3) obtain j where j: "j \<in> set (jobs db)" "j_job_id j = r_job_id r" "j_status j = Running" "j_current_run_id j = Some (r_run_id r)"
      by (auto simp: owns_lease_def job_state_Some [OF assms(1)])
    have "current_run db j = Some r" using find_run_in [OF assms(1) that(1)] j by (simp add: current_run_def)
    then have "is_recovery_candidate db cutoff j"
      using j that(2) by (auto simp: is_recovery_candidate_def stale_running_def heartbeat_is_stale_def split: option.splits)
    then show ?thesis using j by (force simp: rows_def sql_order_def)
  qed
  from recover_each_exact [OF assms, of cutoff t rows "[]"] obtain recs db' where
    rec: "recover_each cutoff t rows [] db = Inr (recs, db')"
    and runs: "job_runs db' = sql_update (stale_owned cutoff (abs_db db) (set rows)) (abandon t) (job_runs db)"
    by auto
  have "job_runs db' = sql_update (\<lambda>r. stale_running cutoff r \<and> owns_lease (abs_db db) r) (abandon t) (job_runs db)"
    unfolding runs sql_update_def using listed by (auto simp: stale_owned_def)
  with rec show ?thesis by (auto simp: recover_stale_running_jobs_def rows_def Let_def)
qed

text \<open>
  Claim C22. Startup recovery of a reachable database always succeeds and fails exactly those running
  runs that are the current run of their running job and whose last heartbeat is not newer than the cutoff;
  every other run row is untouched (a running run whose job a trigger has queued again is not recovered).
\<close>

theorem recovery_fails_exactly_stale_runs:
  assumes "(store_step N)\<^sup>*\<^sup>* empty_db db"
  shows "\<exists>recs db'. recover_stale_running_jobs cutoff t None db = Inr (recs, db')
    \<and> job_runs db' = map (\<lambda>r. if r_status r = Running \<and> heartbeat_is_stale (r_heartbeat_at r) cutoff
           \<and> (\<exists>j \<in> set (jobs db). j_job_id j = r_job_id r \<and> j_status j = Running \<and> j_current_run_id j = Some (r_run_id r))
         then r\<lparr>r_status := Failed, r_completed_at := Some t\<rparr> else r) (job_runs db)"
proof -
  note wf = reachable_wf [OF assms]
  have "owns_lease (abs_db db) r \<longleftrightarrow> (\<exists>j \<in> set (jobs db). j_job_id j = r_job_id r \<and> j_status j = Running
      \<and> j_current_run_id j = Some (r_run_id r))" for r
    by (auto simp: owns_lease_def job_state_Some [OF wf])
  then show ?thesis
    using recovery_exact [OF wf reachable_lease [OF assms], of cutoff t]
    by (simp add: sql_update_def stale_running_def abandon_def conj_assoc cong: if_cong)
qed

theorem recovery_fails_exactly_stale_runs_witness:
  "\<exists>recs db'. recover_stale_running_jobs 7 8 None sample_running = Inr (recs, db') \<and> map r_status (job_runs db') = [Failed]"
proof -
  have "map (\<lambda>r. r_status (if r_status r = Running \<and> heartbeat_is_stale (r_heartbeat_at r) 7
           \<and> (\<exists>j \<in> set (jobs sample_running). j_job_id j = r_job_id r \<and> j_status j = Running \<and> j_current_run_id j = Some (r_run_id r))
         then r\<lparr>r_status := Failed, r_completed_at := Some 8\<rparr> else r)) (job_runs sample_running) = [Failed]" by code_simp
  then show ?thesis
    using recovery_fails_exactly_stale_runs [OF sample_running_reachable, of 7 8] by (auto simp: o_def)
qed

end
