(* ===== verification/Queue_Reconciliation.thy ===== *)
theory Queue_Reconciliation
  imports Store_Effects
begin

text \<open>
  Reconciliation of stale queued deliveries, \<^verbatim>\<open>queue/reconciliation.py\<close>: each stale row of
  \<^verbatim>\<open>jobs.db\<close> is compared with the delivery state in Redis and left alone, failed, or reserved
  and enqueued again under its accepted run.

  The worker pool is the record \<open>delivery_port\<close>: what \<^verbatim>\<open>inspect_delivery\<close> reports for a run
  (\<open>None\<close> is an exception), whether \<^verbatim>\<open>load_config\<close> accepts the stored configuration, and
  how \<^verbatim>\<open>enqueue\<close> ends (\<open>None\<close> is success).
\<close>

datatype queue_delivery_state = D_queued | D_deferred | D_in_progress | D_complete | D_missing

datatype enqueue_failure = Enqueue_memory | Enqueue_other

record delivery_port =
  dp_inspect :: "string \<Rightarrow> queue_delivery_state option"
  dp_config_ok :: "string \<Rightarrow> bool"
  dp_enqueue :: "string \<Rightarrow> enqueue_failure option"

definition active_delivery_states :: "queue_delivery_state list" where
  "active_delivery_states = [D_queued, D_deferred, D_in_progress]"

record reconciliation_summary =
  rs_inspected :: nat
  rs_queue_present :: nat
  rs_recovered :: nat
  rs_failed :: nat
  rs_race_noop :: nat

datatype reconciliation_error = Queued_reconciliation_error string | Store_failure store_error

definition summary_of :: "nat \<Rightarrow> nat \<Rightarrow> nat \<Rightarrow> nat \<Rightarrow> nat \<Rightarrow> reconciliation_summary" where
  "summary_of i q r f n = \<lparr>rs_inspected = i, rs_queue_present = q, rs_recovered = r, rs_failed = f, rs_race_noop = n\<rparr>"

definition conditionally_fail_delivery ::
    "env \<Rightarrow> stale_queued_job \<Rightarrow> instant \<Rightarrow> instant option \<Rightarrow> jobs_db
     \<Rightarrow> (reconciliation_error + reconciliation_summary) \<times> jobs_db" where
  "conditionally_fail_delivery e q failed_at expected db =
     (case fail_queued_run_recovery e (sq_job_id q) (sq_run_id q)
             (or_else expected (sq_queued_at q)) failed_at db of
        Inl x \<Rightarrow> (Inl (Store_failure x), db)
      | Inr (did_fail, db') \<Rightarrow>
          (Inr (if did_fail then summary_of 1 0 0 1 0 else summary_of 1 0 0 0 1), db'))"

definition reconcile_stale_queued_job ::
    "env \<Rightarrow> delivery_port \<Rightarrow> instant \<Rightarrow> instant \<Rightarrow> stale_queued_job \<Rightarrow> jobs_db
     \<Rightarrow> (reconciliation_error + reconciliation_summary) \<times> jobs_db" where
  "reconcile_stale_queued_job e port stale_before inspected_at q db =
     (case dp_inspect port (sq_run_id q) of
        None \<Rightarrow> (Inl (Queued_reconciliation_error (sq_run_id q)), db)
      | Some state \<Rightarrow>
          if state \<in> set active_delivery_states then (Inr (summary_of 1 1 0 0 0), db)
          else if state = D_complete then conditionally_fail_delivery e q inspected_at None db
          else if \<not> dp_config_ok port (sq_config_yaml q)
          then conditionally_fail_delivery e q inspected_at None db
          else (case reserve_queued_run_recovery (sq_job_id q) (sq_run_id q) (sq_queued_at q)
                       stale_before inspected_at db of
              (False, db1) \<Rightarrow> (Inr (summary_of 1 0 0 0 1), db1)
            | (True, db1) \<Rightarrow>
                if dp_enqueue port (sq_run_id q) = None then (Inr (summary_of 1 0 1 0 0), db1)
                else conditionally_fail_delivery e q inspected_at (Some inspected_at) db1))"

fun reconcile_each ::
    "env \<Rightarrow> delivery_port \<Rightarrow> instant \<Rightarrow> instant \<Rightarrow> stale_queued_job list \<Rightarrow> reconciliation_summary \<Rightarrow> jobs_db
     \<Rightarrow> (reconciliation_error + reconciliation_summary) \<times> jobs_db" where
  "reconcile_each e port stale_before inspected_at [] acc db = (Inr acc, db)"
| "reconcile_each e port stale_before inspected_at (q # qs) acc db =
     (case reconcile_stale_queued_job e port stale_before inspected_at q db of
        (Inl x, db') \<Rightarrow> (Inl x, db')
      | (Inr s, db') \<Rightarrow> reconcile_each e port stale_before inspected_at qs
          (acc\<lparr>rs_queue_present := rs_queue_present acc + rs_queue_present s,
               rs_recovered := rs_recovered acc + rs_recovered s,
               rs_failed := rs_failed acc + rs_failed s,
               rs_race_noop := rs_race_noop acc + rs_race_noop s\<rparr>) db')"

definition reconcile_stale_queued_jobs ::
    "env \<Rightarrow> delivery_port \<Rightarrow> int \<Rightarrow> instant \<Rightarrow> nat option \<Rightarrow> nat \<Rightarrow> jobs_db
     \<Rightarrow> (reconciliation_error + reconciliation_summary) \<times> jobs_db" where
  "reconcile_stale_queued_jobs e port timeout_us inspected_at batch off db =
     (case list_stale_queued_jobs e (inspected_at - timeout_us) batch off db of
        Inl x \<Rightarrow> (Inl (Store_failure x), db)
      | Inr qs \<Rightarrow> reconcile_each e port (inspected_at - timeout_us) inspected_at qs
                    (summary_of (length qs) 0 0 0 0) db)"

text \<open>One iteration of the periodic loop: where the next page starts.\<close>

definition next_batch_offset :: "nat \<Rightarrow> nat \<Rightarrow> reconciliation_summary \<Rightarrow> nat" where
  "next_batch_offset batch_size off s =
     (if rs_inspected s = batch_size then off + rs_queue_present s else 0)"

section \<open>Properties\<close>

lemma conditionally_fail_delivery_balance:
  "conditionally_fail_delivery e q t x db = (Inr s, db') \<Longrightarrow>
     rs_queue_present s + rs_recovered s + rs_failed s + rs_race_noop s = 1"
  by (auto simp: conditionally_fail_delivery_def summary_of_def split: sum.splits prod.splits)

lemma reconcile_stale_queued_job_balance:
  assumes "reconcile_stale_queued_job e port sb t q db = (Inr s, db')"
  shows "rs_queue_present s + rs_recovered s + rs_failed s + rs_race_noop s = 1"
  using assms by (auto simp: reconcile_stale_queued_job_def summary_of_def dest: conditionally_fail_delivery_balance
      split: option.splits if_splits prod.splits bool.splits)

lemma reconcile_each_balance:
  assumes "reconcile_each e port sb t qs acc db = (Inr s, db')"
  shows "rs_inspected s = rs_inspected acc
    \<and> rs_queue_present s + rs_recovered s + rs_failed s + rs_race_noop s =
        rs_queue_present acc + rs_recovered acc + rs_failed acc + rs_race_noop acc + length qs"
  using assms
proof (induction qs arbitrary: acc db)
  case (Cons q qs)
  then show ?case
    by (fastforce split: sum.splits prod.splits dest: reconcile_stale_queued_job_balance)
qed simp

text \<open>
  The counters of a reconciliation pass account for every inspected delivery exactly once.
\<close>

theorem reconciliation_counts_balance:
  assumes "reconcile_stale_queued_jobs e port timeout t batch off db = (Inr s, db')"
  shows "rs_queue_present s + rs_recovered s + rs_failed s + rs_race_noop s = rs_inspected s"
  using assms by (auto simp: reconcile_stale_queued_jobs_def summary_of_def split: sum.splits prod.splits dest!: reconcile_each_balance)

definition sample_port :: delivery_port where
  "sample_port = \<lparr>dp_inspect = (\<lambda>_. Some D_missing), dp_config_ok = (\<lambda>_. True), dp_enqueue = (\<lambda>_. None)\<rparr>"

theorem reconciliation_counts_balance_witness:
  "\<exists>s db'. reconcile_stale_queued_jobs sample_env sample_port 10 100 None 0 sample_queued = (Inr s, db')
     \<and> rs_queue_present s + rs_recovered s + rs_failed s + rs_race_noop s = 1"
proof -
  have "(case reconcile_stale_queued_jobs sample_env sample_port 10 100 None 0 sample_queued of
      (Inr s, _) \<Rightarrow> rs_inspected s = 1 | (Inl _, _) \<Rightarrow> False)" by code_simp
  then obtain s db' where "reconcile_stale_queued_jobs sample_env sample_port 10 100 None 0 sample_queued = (Inr s, db')"
    "rs_inspected s = 1" by (auto split: sum.splits prod.splits)
  then show ?thesis using reconciliation_counts_balance by fastforce
qed

lemma conditionally_fail_delivery_steps:
  "conditionally_fail_delivery e q t y db = (x, db') \<Longrightarrow> (store_step N)\<^sup>*\<^sup>* db db'"
  by (auto simp: conditionally_fail_delivery_def split: sum.splits prod.splits intro!: r_into_rtranclp store_step.fail_recovery)

lemma reconcile_stale_queued_job_steps:
  assumes "reconcile_stale_queued_job e port sb t q db = (x, db')"
  shows "(store_step N)\<^sup>*\<^sup>* db db'"
proof -
  obtain b db1 where res: "reserve_queued_run_recovery (sq_job_id q) (sq_run_id q) (sq_queued_at q) sb t db = (b, db1)"
    by (cases "reserve_queued_run_recovery (sq_job_id q) (sq_run_id q) (sq_queued_at q) sb t db")
  have one: "store_step N db db1" by (rule store_step.reserve_recovery [OF res])
  show ?thesis
    using assms one conditionally_fail_delivery_steps [where N = N]
    by (auto simp: reconcile_stale_queued_job_def res split: option.splits if_splits bool.splits
        intro: converse_rtranclp_into_rtranclp)
qed

lemma reconcile_each_steps:
  "reconcile_each e port sb t qs acc db = (x, db') \<Longrightarrow> (store_step N)\<^sup>*\<^sup>* db db'"
proof (induction qs arbitrary: acc db)
  case (Cons q qs)
  then show ?case
    by (auto split: sum.splits prod.splits dest!: reconcile_stale_queued_job_steps [where N = N] intro: rtranclp_trans)
qed simp

text \<open>
  A reconciliation pass is a sequence of store transactions, so it keeps the store invariant
  whatever Redis reports and however the pass ends.
\<close>

theorem reconciliation_keeps_store_inv:
  assumes "reconcile_stale_queued_jobs e port timeout t batch off db = (x, db')" and "store_inv N db"
  shows "store_inv N db'"
proof -
  have "(store_step N)\<^sup>*\<^sup>* db db'"
    using assms(1) by (auto simp: reconcile_stale_queued_jobs_def split: sum.splits prod.splits intro: reconcile_each_steps)
  then show ?thesis by (rule store.steps_inv [OF _ assms(2)])
qed

theorem reconciliation_keeps_store_inv_witness:
  "\<exists>s db'. reconcile_stale_queued_jobs sample_env sample_port 10 100 None 0 sample_queued = (Inr s, db') \<and> store_inv 2 db'"
proof -
  have "\<not> isl (fst (reconcile_stale_queued_jobs sample_env sample_port 10 100 None 0 sample_queued))" by code_simp
  then obtain s db' where eq: "reconcile_stale_queued_jobs sample_env sample_port 10 100 None 0 sample_queued = (Inr s, db')"
    by (cases "reconcile_stale_queued_jobs sample_env sample_port 10 100 None 0 sample_queued"; cases "fst (reconcile_stale_queued_jobs sample_env sample_port 10 100 None 0 sample_queued)") auto
  with reconciliation_keeps_store_inv [OF eq reachable_store_inv [OF sample_queued_reachable]] show ?thesis by blast
qed

section \<open>Progress\<close>

lemma fail_queued_run_recovery_state:
  assumes "fail_queued_run_recovery e jid rid x t db = Inr (True, db')" and "wf_db db"
  shows "job_state (abs_db db') jid = Some (Failed, Some rid)"
proof -
  define P where "P = (\<lambda>j :: job_row. j_job_id j = jid \<and> j_status j = Queued \<and> j_current_run_id j = Some rid
                 \<and> j_updated_at j = Some x)"
  define f where "f = (\<lambda>j :: job_row. j\<lparr>j_status := Failed, j_updated_at := Some t\<rparr>)"
  from assms(1) have one: "rowcount P (jobs db) = 1"
    and ins: "insert_failed_queued_run e jid rid t 1 ''queued_reconciliation_failure'' (update_jobs P f db) = Inr db'"
    unfolding fail_queued_run_recovery_def P_def [symmetric] f_def [symmetric] Let_def
    by (auto split: if_splits sum.splits)
  from one obtain j where j: "P j" "abs_db (update_jobs P f db) = (abs_db db)\<lparr>job_state :=
       (job_state (abs_db db))(jid \<mapsto> (j_status (f j), j_current_run_id (f j)))\<rparr>" "wf_db (update_jobs P f db)"
    by (rule job_cas [where jid = jid and f = f]) (auto simp: assms(2) P_def f_def)
  then show ?thesis
    using insert_failed_queued_run_abs(3) [OF ins j(3)] by (simp add: P_def f_def)
qed

definition listed_stale :: "instant \<Rightarrow> string \<Rightarrow> jobs_db \<Rightarrow> bool" where
  "listed_stale stale_before jid db \<longleftrightarrow> jid \<in> set (map (j_job_id \<circ> fst) (stale_queued_rows stale_before None 0 db))"

lemma listed_stale_iff:
  "listed_stale sb jid db \<longleftrightarrow> (\<exists>j \<in> set (jobs db). j_job_id j = jid \<and> j_status j = Queued
     \<and> j_current_run_id j \<noteq> None \<and> null_le (j_updated_at j) sb)"
  by (force simp: listed_stale_def stale_queued_rows_def sql_order_def)

lemma conditionally_fail_leaves_stale_set:
  assumes "conditionally_fail_delivery e q t x db = (Inr s, db')" and "wf_db db" and "rs_failed s = 1"
  shows "\<not> listed_stale sb (sq_job_id q) db'"
proof -
  from assms(1,3) have fail: "fail_queued_run_recovery e (sq_job_id q) (sq_run_id q) (or_else x (sq_queued_at q)) t db = Inr (True, db')"
    by (auto simp: conditionally_fail_delivery_def summary_of_def split: sum.splits prod.splits if_splits)
  have wf': "wf_db db'" using fail_queued_run_recovery_sim [OF fail assms(2)] by (simp add: simulated_def)
  have "job_state (abs_db db') (sq_job_id q) = Some (Failed, Some (sq_run_id q))"
    by (rule fail_queued_run_recovery_state [OF fail assms(2)])
  then show ?thesis
    by (auto simp: listed_stale_iff dest!: job_state_in [OF wf'])
qed

lemma reserve_leaves_stale_set:
  assumes "reserve_queued_run_recovery jid rid x sb t db = (True, db')" and "wf_db db" and "sb < t"
  shows "\<not> listed_stale sb jid db'"
proof -
  define P where "P = (\<lambda>j :: job_row. j_job_id j = jid \<and> j_status j = Queued \<and> j_current_run_id j = Some rid
                 \<and> j_updated_at j = Some x \<and> null_le (j_updated_at j) sb)"
  from assms(1) have one: "rowcount P (jobs db) = 1"
    and db': "db' = update_jobs P (\<lambda>j. j\<lparr>j_updated_at := Some t\<rparr>) db"
    unfolding reserve_queued_run_recovery_def P_def [symmetric] Let_def by (auto split: if_splits)
  from assms(2) one obtain j where j: "j \<in> set (jobs db)" "P j" "j_job_id j = jid"
    by (rule owned_job [where jid = jid]) (auto simp: P_def)
  have only: "k = j" if "k \<in> set (jobs db)" "j_job_id k = jid" for k
    using unique_onD [OF wf_dbD(1) [OF assms(2)] that(1) j(1)] that(2) j(3) by simp
  have "\<not> null_le (j_updated_at k) sb" if k: "k \<in> set (jobs db')" "j_job_id k = jid" for k
  proof -
    from k(1) obtain k0 where k0: "k0 \<in> set (jobs db)" "P k0 \<and> k = k0\<lparr>j_updated_at := Some t\<rparr> \<or> \<not> P k0 \<and> k = k0"
      unfolding db' update_jobs_def by (auto simp: in_sql_update)
    with k(2) have "k0 = j" by (intro only) auto
    with k0 j(2) assms(3) show ?thesis by auto
  qed
  then show ?thesis by (auto simp: listed_stale_iff)
qed

text \<open>
  A delivery that a pass recovers or fails leaves the stale set, so the paging of the
  periodic loop only has to skip the deliveries that are still present in the queue.
\<close>

theorem reconciled_delivery_leaves_stale_set:
  assumes "reconcile_stale_queued_job e port sb t q db = (Inr s, db')" and "wf_db db" and "sb < t"
    and "rs_recovered s = 1 \<or> rs_failed s = 1"
  shows "\<not> listed_stale sb (sq_job_id q) db'"
proof -
  obtain b db1 where res: "reserve_queued_run_recovery (sq_job_id q) (sq_run_id q) (sq_queued_at q) sb t db = (b, db1)"
    by (cases "reserve_queued_run_recovery (sq_job_id q) (sq_run_id q) (sq_queued_at q) sb t db")
  have wf1: "wf_db db1" using reserve_queued_run_recovery_sim [OF res assms(2)] by (simp add: simulated_def)
  have fail: "\<not> listed_stale sb (sq_job_id q) db'"
    if "conditionally_fail_delivery e q t x d = (Inr s, db')" "wf_db d" for x d
    using conditionally_fail_leaves_stale_set [OF that] conditionally_fail_delivery_balance [OF that(1)] assms(4) that(1)
    by (auto simp: conditionally_fail_delivery_def summary_of_def split: sum.splits prod.splits if_splits)
  show ?thesis
    using assms(1,3,4) fail [OF _ assms(2)] fail [OF _ wf1] reserve_leaves_stale_set [OF _ assms(2,3)] res
    by (auto simp: reconcile_stale_queued_job_def summary_of_def split: option.splits if_splits bool.splits)
qed

definition sample_stale :: stale_queued_job where
  "sample_stale = \<lparr>sq_job_id = ''j'', sq_run_id = ''r'', sq_config_yaml = ''y'', sq_queued_at = 1, sq_trigger = ''adhoc'',
     sq_schedule_cron = None, sq_schedule_enabled = True\<rparr>"

theorem reconciled_delivery_leaves_stale_set_witness:
  "\<exists>s db'. reconcile_stale_queued_job sample_env sample_port 90 100 sample_stale sample_queued = (Inr s, db')
     \<and> listed_stale 90 ''j'' sample_queued \<and> \<not> listed_stale 90 ''j'' db'"
proof -
  have "(case reconcile_stale_queued_job sample_env sample_port 90 100 sample_stale sample_queued of
      (Inr s, _) \<Rightarrow> rs_recovered s = 1 | (Inl _, _) \<Rightarrow> False)" "listed_stale 90 ''j'' sample_queued" by code_simp+
  then obtain s db' where eq: "reconcile_stale_queued_job sample_env sample_port 90 100 sample_stale sample_queued = (Inr s, db')"
    "rs_recovered s = 1" by (auto split: sum.splits prod.splits)
  have "sq_job_id sample_stale = ''j''" by (simp add: sample_stale_def)
  with reconciled_delivery_leaves_stale_set [OF eq(1) reachable_wf [OF sample_queued_reachable]] eq
    \<open>listed_stale 90 ''j'' sample_queued\<close> show ?thesis by auto
qed

end
