(* ===== verification/Scheduler.thy ===== *)
theory Scheduler
  imports Queue_Reconciliation
begin

text \<open>
  The scheduled and manual triggers of \<^verbatim>\<open>scheduler/cron.py\<close> over the job store:
  \<open>_job_has_active_run\<close>, \<open>_trigger_job\<close>, the failure codes and the contained callback.

  \<^verbatim>\<open>_trigger_job\<close> is a sequence of awaited transactions, so it is split where other tasks can
  run: \<open>trigger_check\<close> (the reads and the recovery decision), \<open>recover_stale_run\<close>, and
  \<open>trigger_queue\<close> (the queue replacement with the job as it was last read).
  \<open>trigger_job\<close> is their composition when nothing interferes.
\<close>

definition run_lease_is_active :: "instant option \<Rightarrow> int \<Rightarrow> instant \<Rightarrow> bool" where
  "run_lease_is_active updated lease_us now = (case updated of None \<Rightarrow> False | Some t \<Rightarrow> now - t < lease_us)"

record scheduler_config =
  sc_queued_claim_timeout :: int
  sc_running_heartbeat_timeout :: int

datatype activity = Active | Inactive | Needs_queued_reconciliation stale_queued_job

definition stale_queued_of :: "job \<Rightarrow> string \<Rightarrow> instant \<Rightarrow> stale_queued_job" where
  "stale_queued_of b rid queued_at = \<lparr>sq_job_id = job_id b, sq_run_id = rid, sq_config_yaml = config_yaml b,
     sq_queued_at = queued_at,
     sq_trigger = (case current_trigger b of Some t \<Rightarrow> t
        | None \<Rightarrow> if schedule_cron b \<noteq> None then ''scheduled'' else ''adhoc''),
     sq_schedule_cron = schedule_cron b, sq_schedule_enabled = schedule_enabled b\<rparr>"

definition job_activity :: "scheduler_config \<Rightarrow> instant \<Rightarrow> job \<Rightarrow> jobs_db \<Rightarrow> activity" where
  "job_activity c now b db =
     (case (status b, current_run_id b) of
        (Queued, None) \<Rightarrow> Inactive
      | (Queued, Some rid) \<Rightarrow> (case updated_at b of
            None \<Rightarrow> Active
          | Some t \<Rightarrow> if run_lease_is_active (Some t) (sc_queued_claim_timeout c) now then Active
              else Needs_queued_reconciliation (stale_queued_of b rid t))
      | (Running, None) \<Rightarrow> Inactive
      | (Running, Some rid) \<Rightarrow> (case find_run db (job_id b) rid of
            None \<Rightarrow> Inactive
          | Some r \<Rightarrow> if r_status r \<noteq> Running then Inactive
              else if run_lease_is_active (r_heartbeat_at r) (sc_running_heartbeat_timeout c) now
              then Active else Inactive)
      | _ \<Rightarrow> Inactive)"

text \<open>
  \<open>_job_has_active_run\<close>: a stale queued delivery is reconciled and then counts as active.
\<close>

definition job_has_active_run ::
    "env \<Rightarrow> delivery_port \<Rightarrow> scheduler_config \<Rightarrow> instant \<Rightarrow> job \<Rightarrow> jobs_db \<Rightarrow> (reconciliation_error + bool) \<times> jobs_db" where
  "job_has_active_run e port c now b db = (case job_activity c now b db of
       Active \<Rightarrow> (Inr True, db)
     | Inactive \<Rightarrow> (Inr False, db)
     | Needs_queued_reconciliation q \<Rightarrow>
         (case reconcile_stale_queued_job e port (now - sc_queued_claim_timeout c) now q db of
            (Inl x, db') \<Rightarrow> (Inl x, db')
          | (Inr _, db') \<Rightarrow> (Inr True, db')))"

datatype trigger_error =
    Scheduler_unavailable
  | Store_error store_error
  | Enqueue_error enqueue_failure

datatype trigger_decision =
    Trigger_stop
  | Trigger_remove
  | Trigger_recover job
  | Trigger_queue job

definition reconciliation_failure :: "reconciliation_error \<Rightarrow> trigger_error" where
  "reconciliation_failure x = (case x of Queued_reconciliation_error _ \<Rightarrow> Scheduler_unavailable
     | Store_failure s \<Rightarrow> Store_error s)"

definition trigger_check ::
    "env \<Rightarrow> delivery_port \<Rightarrow> scheduler_config \<Rightarrow> string \<Rightarrow> string \<Rightarrow> instant \<Rightarrow> jobs_db
     \<Rightarrow> (trigger_error + trigger_decision) \<times> jobs_db" where
  "trigger_check e port c jid trigger now db =
     (case get_job e jid db of
        Inl (KeyError _) \<Rightarrow> (Inr Trigger_remove, db)
      | Inl x \<Rightarrow> (Inl (Store_error x), db)
      | Inr b \<Rightarrow>
          if status b \<in> {Cancelled, Deleting} then (Inr Trigger_remove, db)
          else if trigger = ''scheduled'' \<and> \<not> schedule_enabled b then (Inr Trigger_stop, db)
          else (case job_has_active_run e port c now b db of
              (Inl x, db') \<Rightarrow> (Inl (reconciliation_failure x), db')
            | (Inr True, db') \<Rightarrow> (Inr Trigger_stop, db')
            | (Inr False, db') \<Rightarrow>
                (Inr (if status b = Running then Trigger_recover b else Trigger_queue b), db')))"

definition trigger_recover :: "scheduler_config \<Rightarrow> job \<Rightarrow> instant \<Rightarrow> jobs_db \<Rightarrow> store_error + (bool \<times> jobs_db)" where
  "trigger_recover c b now db =
     recover_stale_run (job_id b) (current_run_id b) (now - sc_running_heartbeat_timeout c) now db"

definition trigger_queue ::
    "env \<Rightarrow> delivery_port \<Rightarrow> string \<Rightarrow> bool \<Rightarrow> string \<Rightarrow> instant \<Rightarrow> instant \<Rightarrow> job \<Rightarrow> jobs_db
     \<Rightarrow> trigger_error option \<times> (string \<times> string) option \<times> jobs_db" where
  "trigger_queue e port trigger raise_errors rid now later b db =
     (if \<not> dp_config_ok port (config_yaml b) then (Some (Store_error (ValueError ''invalid stored config'')), None, db)
      else case queue_run e (job_id b) (status b) (current_run_id b) rid trigger now None
             (Some (config_yaml b)) (trigger = ''scheduled'') db of
        Inl x \<Rightarrow> (Some (Store_error x), None, db)
      | Inr (False, db') \<Rightarrow> (None, None, db')
      | Inr (True, db') \<Rightarrow>
          (case dp_enqueue port rid of
             None \<Rightarrow> (None, Some (rid, sha256 e (config_yaml b)), db')
           | Some x \<Rightarrow> (case fail_queued_run e (job_id b) rid later db' of
                 Inl y \<Rightarrow> (Some (Store_error y), None, db')
               | Inr (_, db'') \<Rightarrow>
                   (if trigger = ''scheduled'' \<or> raise_errors then Some (Enqueue_error x) else None, None, db''))))"

text \<open>
  The whole trigger. \<open>interlude\<close> is what happens to the database between the recovery and the
  second read: the terminal webhook reconciliation and whatever other tasks commit while it
  is awaited.
\<close>

definition trigger_job ::
    "env \<Rightarrow> delivery_port \<Rightarrow> scheduler_config \<Rightarrow> (jobs_db \<Rightarrow> jobs_db) \<Rightarrow> string \<Rightarrow> string \<Rightarrow> bool \<Rightarrow> string
     \<Rightarrow> instant \<Rightarrow> instant \<Rightarrow> jobs_db \<Rightarrow> trigger_error option \<times> (string \<times> string) option \<times> jobs_db" where
  "trigger_job e port c interlude jid trigger raise_errors rid now later db =
     (case trigger_check e port c jid trigger now db of
        (Inl x, db1) \<Rightarrow> (Some x, None, db1)
      | (Inr d, db1) \<Rightarrow> (case d of
          Trigger_stop \<Rightarrow> (None, None, db1)
        | Trigger_remove \<Rightarrow> (None, None, db1)
        | Trigger_queue b \<Rightarrow> trigger_queue e port trigger raise_errors rid now later b db1
        | Trigger_recover b \<Rightarrow>
            (case trigger_recover c b now db1 of
               Inl x \<Rightarrow> (Some (Store_error x), None, db1)
             | Inr (False, db2) \<Rightarrow> (None, None, db2)
             | Inr (True, db2) \<Rightarrow> (case get_job e jid (interlude db2) of
                   Inl x \<Rightarrow> (Some (Store_error x), None, interlude db2)
                 | Inr b' \<Rightarrow> trigger_queue e port trigger raise_errors rid now later b' (interlude db2)))))"

definition failure_code :: "trigger_error \<Rightarrow> string" where
  "failure_code x = (case x of
       Scheduler_unavailable \<Rightarrow> ''queue_state_unavailable''
     | Store_error (AdmissionCapacityError reason) \<Rightarrow> ''admission_'' @ reason
     | Store_error SecretDecryptionError \<Rightarrow> ''persisted_config_unavailable''
     | Store_error (ValueError _) \<Rightarrow> ''persisted_config_invalid''
     | Enqueue_error Enqueue_memory \<Rightarrow> ''enqueue_resource_exhausted''
     | _ \<Rightarrow> ''scheduled_callback_failed'')"

text \<open>
  \<open>_run_scheduled_callback\<close>: the process-local failure map and the database after one fire.
\<close>

definition run_scheduled_callback ::
    "env \<Rightarrow> delivery_port \<Rightarrow> scheduler_config \<Rightarrow> (jobs_db \<Rightarrow> jobs_db) \<Rightarrow> string \<Rightarrow> string \<Rightarrow> instant \<Rightarrow> instant
     \<Rightarrow> (string \<rightharpoonup> string) \<times> jobs_db \<Rightarrow> (string \<rightharpoonup> string) \<times> jobs_db" where
  "run_scheduled_callback e port c interlude jid rid now later s =
     (let (failures, db) = s in
      case trigger_job e port c interlude jid ''scheduled'' False rid now later db of
        (Some x, _, db1) \<Rightarrow>
          (case record_scheduled_trigger_failure jid rid later (failure_code x) db1 of
             Inl _ \<Rightarrow> (failures(jid \<mapsto> failure_code x), db1)
           | Inr (True, db2) \<Rightarrow> (failures(jid \<mapsto> failure_code x), db2)
           | Inr (False, db2) \<Rightarrow> (failures(jid := None), db2))
      | (None, None, db1) \<Rightarrow> (failures, db1)
      | (None, Some _, db1) \<Rightarrow> (failures(jid := None), snd (clear_scheduled_trigger_failure jid db1)))"

section \<open>Properties\<close>

text \<open>
  Every failure code the callback derives is a bounded safe identifier, so recording the
  missed fire is never refused for its code.
\<close>

theorem failure_code_is_valid:
  assumes "\<And>reason. x = Store_error (AdmissionCapacityError reason) \<Longrightarrow> reason \<in> {''backlog'', ''memory''}"
  shows "valid_failure_code (failure_code x)"
  using assms by (cases x) (auto simp: failure_code_def valid_failure_code_def less_eq_char_def of_char_def
      split: store_error.splits enqueue_failure.splits)

theorem failure_code_is_valid_witness: "valid_failure_code (failure_code (Store_error (AdmissionCapacityError ''backlog'')))"
  by (rule failure_code_is_valid) simp

lemma get_job_row:
  assumes "get_job e jid db = Inr b"
  obtains j where "find_job db jid = Some j" "job_id b = jid" "status b = j_status j" "current_run_id b = j_current_run_id j"
proof -
  from assms obtain j where "find_job db jid = Some j" "row_to_job e j = Inr b"
    by (auto simp: get_job_def split: option.splits)
  moreover have "j_job_id j = jid" using find_job_Some [OF calculation(1)] by simp
  ultimately show thesis using that by (auto simp: row_to_job_def split: option.splits)
qed

lemma trigger_check_steps:
  assumes "trigger_check e port c jid trigger now db = (d, db1)"
  shows "(store_step N)\<^sup>*\<^sup>* db db1"
proof -
  have "(store_step N)\<^sup>*\<^sup>* db db1" if "job_has_active_run e port c now b db = (x, db1)" for b x
    using that by (auto simp: job_has_active_run_def intro: reconcile_stale_queued_job_steps
        split: activity.splits sum.splits prod.splits)
  with assms show ?thesis
    by (auto simp: trigger_check_def split: sum.splits store_error.splits if_splits prod.splits bool.splits)
qed

lemma trigger_queue_steps:
  assumes "trigger_queue e port trigger re rid now later b db = (x, y, db')" and "workers_max_accepted_runs e = N"
  shows "(store_step N)\<^sup>*\<^sup>* db db'"
proof (cases "queue_run e (job_id b) (status b) (current_run_id b) rid trigger now None
             (Some (config_yaml b)) (trigger = ''scheduled'') db")
  case (Inl a)
  with assms(1) show ?thesis by (auto simp: trigger_queue_def split: if_splits)
next
  case (Inr p)
  obtain ok db1 where p: "p = (ok, db1)" by (cases p)
  have one: "store_step N db db1" by (rule store_step.queue [OF Inr [unfolded p] assms(2)])
  have two: "(store_step N)\<^sup>*\<^sup>* db db2" if "fail_queued_run e (job_id b) rid later db1 = Inr (z, db2)" for z db2
    using one store_step.fail_queued [OF that] by (meson converse_rtranclp_into_rtranclp r_into_rtranclp)
  show ?thesis
    using assms(1) one two unfolding trigger_queue_def Inr p
    by (auto split: if_splits bool.splits option.splits sum.splits)
qed

text \<open>
  A trigger is a sequence of transactions of the store, whatever other transactions run between the
  stale-run recovery and the second read of the job.
\<close>

theorem trigger_job_steps:
  assumes "workers_max_accepted_runs e = N" and "\<And>d. (store_step N)\<^sup>*\<^sup>* d (interlude d)"
    and "trigger_job e port c interlude jid trigger re rid now later db = (x, y, db')"
  shows "(store_step N)\<^sup>*\<^sup>* db db'"
proof -
  obtain a db1 where p: "trigger_check e port c jid trigger now db = (a, db1)"
    by (cases "trigger_check e port c jid trigger now db")
  note one = trigger_check_steps [OF p, of N] and run = assms(3) [unfolded trigger_job_def p]
  note queue = trigger_queue_steps [OF _ assms(1)]
  show ?thesis
  proof (cases "\<exists>b. a = Inr (Trigger_recover b)")
    case False
    with run one show ?thesis
      by (auto split: sum.splits trigger_decision.splits dest!: queue elim: rtranclp_trans)
  next
    case True
    then obtain b where b: "a = Inr (Trigger_recover b)" by auto
    show ?thesis
    proof (cases "trigger_recover c b now db1")
      case (Inl e)
      with run one b show ?thesis by simp
    next
      case rec: (Inr q)
      obtain ok db2 where q: "q = (ok, db2)" by (cases q)
      have "store_step N db1 db2"
        using store_step.recover rec q unfolding trigger_recover_def by simp
      with one have two: "(store_step N)\<^sup>*\<^sup>* db db2" by (rule rtranclp.rtrancl_into_rtrancl)
      have three: "(store_step N)\<^sup>*\<^sup>* db (interlude db2)" by (rule rtranclp_trans [OF two assms(2)])
      show ?thesis
        using run b rec q two three by (auto split: bool.splits sum.splits dest!: queue elim: rtranclp_trans)
    qed
  qed
qed

section \<open>A trigger that displaces an active run\<close>

definition sample_sched :: scheduler_config where
  "sample_sched = \<lparr>sc_queued_claim_timeout = 10, sc_running_heartbeat_timeout = 10\<rparr>"

definition sample_schedule :: jobs_db where
  "sample_schedule = after (save_job sample_env ((sample_job ''j'' None)\<lparr>schedule_cron := Some ''* * * * *''\<rparr>) empty_db)"

definition start_run :: "string \<Rightarrow> job_status \<Rightarrow> string option \<Rightarrow> instant \<Rightarrow> jobs_db \<Rightarrow> jobs_db" where
  "start_run rid expected owner t db = after (claim_run sample_env rid ''j'' ''manual'' ''y'' t
     (after (queue_run sample_env ''j'' expected owner rid ''manual'' t None None False db)))"

definition sample_first_run :: jobs_db where
  "sample_first_run = start_run ''r1'' Queued None 5 sample_schedule"

text \<open>
  While the scheduled trigger awaits the terminal reconciliation, a manual trigger queues run
  \<^verbatim>\<open>r2\<close> of the recovered job and a worker claims it.
\<close>

definition sample_interlude :: "jobs_db \<Rightarrow> jobs_db" where
  "sample_interlude db = start_run ''r2'' Failed (Some ''r1'') 99 db"

definition sample_displaced :: "trigger_error option \<times> (string \<times> string) option \<times> jobs_db" where
  "sample_displaced = trigger_job sample_env sample_port sample_sched sample_interlude ''j'' ''scheduled'' False
     ''r3'' 100 101 sample_first_run"

lemma sample_first_run_steps: "(store_step 2)\<^sup>*\<^sup>* empty_db sample_first_run"
proof -
  let ?q = "after (queue_run sample_env ''j'' Queued None ''r1'' ''manual'' 5 None None False sample_schedule)"
  have N: "workers_max_accepted_runs sample_env = 2" by (simp add: sample_env_def)
  have "save_job sample_env ((sample_job ''j'' None)\<lparr>schedule_cron := Some ''* * * * *''\<rparr>) empty_db = Inr (''j'', sample_schedule)"
    by code_simp
  then have 1: "store_step 2 empty_db sample_schedule"
    by (rule store_step.save) (simp_all add: sample_job_def N)
  have "queue_run sample_env ''j'' Queued None ''r1'' ''manual'' 5 None None False sample_schedule = Inr (True, ?q)"
    by code_simp
  then have 2: "store_step 2 sample_schedule ?q" by (rule store_step.queue) (rule N)
  have "claim_run sample_env ''r1'' ''j'' ''manual'' ''y'' 5 ?q = Inr (True, sample_first_run)" by code_simp
  then have 3: "store_step 2 ?q sample_first_run" by (rule store_step.claim)
  from 1 2 3 show ?thesis by (simp add: converse_rtranclp_into_rtranclp)
qed

theorem trigger_job_steps_witness:
  "(store_step 2)\<^sup>*\<^sup>* sample_first_run (snd (snd (trigger_job sample_env sample_port sample_sched (\<lambda>d. d) ''j'' ''scheduled''
        False ''r3'' 100 101 sample_first_run)))"
  by (rule trigger_job_steps [of sample_env 2 "\<lambda>d. d" sample_port sample_sched "''j''" "''scheduled''" False "''r3''" 100 101 sample_first_run,
        OF _ _ prod.collapse [symmetric, THEN trans, OF arg_cong [OF prod.collapse [symmetric], of "Pair _"]]])
    (simp_all add: sample_env_def)

text \<open>
  Claim C24. The second read of a trigger is not checked for an active run: whenever a trigger has recovered a
  stale run and other tasks have meanwhile brought the job to a new running run \<open>r2\<close>, a trigger that still queues
  its run puts it in the place of \<open>r2\<close>. Run \<open>r2\<close> is left running without an owner: its heartbeats and its
  finalisation are refused from then on.
\<close>

theorem trigger_displaces_running_run:
  assumes "(store_step N)\<^sup>*\<^sup>* empty_db db" and "workers_max_accepted_runs e = N"
    and "trigger_check e port c jid trigger now db = (Inr (Trigger_recover b), db1)"
    and "trigger_recover c b now db1 = Inr (True, db2)" and "(store_step N)\<^sup>*\<^sup>* db2 (interlude db2)"
    and "find_job (interlude db2) jid = Some j" and "j_status j = Running" and "j_current_run_id j = Some r2"
    and "trigger_job e port c interlude jid trigger re rid now later db = (None, Some (rid', h), db')"
  shows "map_option r_status (find_run db' jid r2) = Some Running
    \<and> map_option (\<lambda>j. (j_status j, j_current_run_id j)) (find_job db' jid) = Some (Queued, Some rid)
    \<and> heartbeat_run jid r2 t db' = Inl (RunOwnershipError ''heartbeat'' jid r2)
    \<and> (terminal st \<and> validate_optional_delivery w jid r2 st = Inr () \<longrightarrow>
         finalize_owned_run e' jid r2 st recs errs t' cutoff w db' = Inl (RunOwnershipError ''finalize'' jid r2))"
proof -
  let ?d = "interlude db2"
  have one: "(store_step N)\<^sup>*\<^sup>* empty_db db1" by (rule rtranclp_trans [OF assms(1) trigger_check_steps [OF assms(3)]])
  have "(store_step N)\<^sup>*\<^sup>* empty_db db2"
    by (rule rtranclp.rtrancl_into_rtrancl [OF one store_step.recover [OF assms(4) [unfolded trigger_recover_def]]])
  then have reach: "(store_step N)\<^sup>*\<^sup>* empty_db ?d" using assms(5) by (rule rtranclp_trans)
  note wf = reachable_wf [OF reach]
  have s: "job_state (abs_db ?d) jid = Some (Running, Some r2)"
    using find_job_state [OF wf assms(6)] assms(7,8) by simp
  then have r: "run_state (abs_db ?d) r2 = Some (jid, Running)" by (rule lease_invD(1) [OF reachable_lease [OF reach]])
  obtain b' where b': "get_job e jid ?d = Inr b'"
    and q: "trigger_queue e port trigger re rid now later b' ?d = (None, Some (rid', h), db')"
    using assms(9) by (auto simp: trigger_job_def assms(3,4) split: sum.splits)
  from b' have "job_id b' = jid" "status b' = Running" "current_run_id b' = Some r2"
    using assms(6-8) by (auto elim!: get_job_row)
  with q have "queue_run e jid Running (Some r2) rid trigger now None (Some (config_yaml b')) (trigger = ''scheduled'') ?d
     = Inr (True, db')"
    by (auto simp: trigger_queue_def split: if_splits sum.splits prod.splits bool.splits option.splits)
  then show ?thesis
    using wf
  proof (cases rule: queue_run_abs)
    case queued
    have j': "job_state (abs_db db') jid = Some (Queued, Some rid)" and r': "run_state (abs_db db') r2 = Some (jid, Running)"
      using r by (simp_all add: queued(7))
    from r' obtain x where x: "x \<in> set (job_runs db')" "r_run_id x = r2" "r_job_id x = jid" "r_status x = Running"
      by (auto simp: run_state_Some [OF queued(2)])
    from j' obtain y where y: "y \<in> set (jobs db')" "j_job_id y = jid" "j_status y = Queued" "j_current_run_id y = Some rid"
      by (auto simp: job_state_Some [OF queued(2)])
    show ?thesis
      using find_run_in [OF queued(2) x(1)] x find_job_in [OF queued(2) y(1)] y j' queued(2)
      by (simp add: unowned_heartbeat unowned_finalize)
  qed simp
qed

theorem trigger_displaces_running_run_witness:
  "\<exists>db'. sample_displaced = (None, Some (''r3'', ''y''), db')
     \<and> map_option r_status (find_run db' ''j'' ''r2'') = Some Running
     \<and> heartbeat_run ''j'' ''r2'' 102 db' = Inl (RunOwnershipError ''heartbeat'' ''j'' ''r2'')"
proof -
  let ?r = "after (recover_stale_run ''j'' (Some ''r1'') 90 100 sample_first_run)"
  let ?q = "after (queue_run sample_env ''j'' Failed (Some ''r1'') ''r2'' ''manual'' 99 None None False ?r)"
  define db' where "db' = snd (snd sample_displaced)"
  have N: "workers_max_accepted_runs sample_env = 2" by (simp add: sample_env_def)
  have out: "sample_displaced = (None, Some (''r3'', ''y''), db')" unfolding db'_def by code_simp
  have "(case trigger_check sample_env sample_port sample_sched ''j'' ''scheduled'' 100 sample_first_run of
       (Inr (Trigger_recover b), db1) \<Rightarrow> trigger_recover sample_sched b 100 db1 = Inr (True, ?r) | _ \<Rightarrow> False)" by code_simp
  then obtain b db1 where chk: "trigger_check sample_env sample_port sample_sched ''j'' ''scheduled'' 100 sample_first_run
      = (Inr (Trigger_recover b), db1)" and rec: "trigger_recover sample_sched b 100 db1 = Inr (True, ?r)"
    by (auto split: prod.splits sum.splits trigger_decision.splits)
  have "queue_run sample_env ''j'' Failed (Some ''r1'') ''r2'' ''manual'' 99 None None False ?r = Inr (True, ?q)" by code_simp
  then have 1: "store_step 2 ?r ?q" by (rule store_step.queue) (rule N)
  have "claim_run sample_env ''r2'' ''j'' ''manual'' ''y'' 99 ?q = Inr (True, sample_interlude ?r)" by code_simp
  then have 2: "store_step 2 ?q (sample_interlude ?r)" by (rule store_step.claim)
  from 1 2 have steps: "(store_step 2)\<^sup>*\<^sup>* ?r (sample_interlude ?r)" by (simp add: converse_rtranclp_into_rtranclp)
  have "map_option (\<lambda>j. (j_status j, j_current_run_id j)) (find_job (sample_interlude ?r) ''j'') = Some (Running, Some ''r2'')"
    by code_simp
  then obtain j where j: "find_job (sample_interlude ?r) ''j'' = Some j" "j_status j = Running" "j_current_run_id j = Some ''r2''"
    by auto
  show ?thesis
    using trigger_displaces_running_run [OF sample_first_run_steps N chk rec steps j out [unfolded sample_displaced_def],
        of 102 Queued None sample_env 0 0 0 0] out
    by blast
qed

end
