(* ===== verification/Budgets.thy ===== *)
theory Budgets
  imports Prelude
begin

text \<open>
  \<open>RunBudget\<close>, \<^verbatim>\<open>common/budgets.py\<close>: the hard limits of one run, its counters, the monotonic
  deadline and the sticky \<open>exhausted\<close> error.

  A method returns its result (\<open>Inl\<close> is the raised exception) and the budget afterwards,
  because a refused reservation still records the exhaustion. Every call of the clock takes
  the next reading of \<open>clock\<close>. The locks serialise the methods, so a run is a sequence of
  calls; the two \<^verbatim>\<open>wait_for\<close> methods are modelled by how the awaited work ends.
\<close>

datatype budget_limit_name = Run_duration_seconds | Requests | Fetched_bytes | Extracted_records
  | Serialized_result_bytes | Browser_debug_bytes

record budget_exceeded =
  limit_name :: budget_limit_name
  configured_limit :: rat
  observed_amount :: rat

datatype budget_error = Budget_value_error string | Budget_exceeded budget_exceeded

record run_budget =
  max_duration_seconds :: rat
  max_requests :: int
  max_fetched_bytes :: int
  max_extracted_records :: int
  max_serialized_result_bytes :: int
  max_browser_debug_bytes :: int
  clock :: "nat \<Rightarrow> rat"
  ticks :: nat
  started_monotonic :: rat
  deadline_monotonic :: rat
  b_fetched_bytes :: int
  b_requests :: int
  b_extracted_records :: int
  b_browser_debug_bytes :: int
  b_estimated_result_bytes :: int
  exhausted :: "budget_exceeded option"

type_synonym 'a budget_result = "(budget_error + 'a) \<times> run_budget"

definition init_budget :: "rat \<Rightarrow> int \<Rightarrow> int \<Rightarrow> int \<Rightarrow> int \<Rightarrow> int \<Rightarrow> (nat \<Rightarrow> rat) \<Rightarrow> run_budget" where
  "init_budget duration fetched records serialized debug reqs clk =
     \<lparr>max_duration_seconds = duration, max_requests = reqs, max_fetched_bytes = fetched,
      max_extracted_records = records, max_serialized_result_bytes = serialized,
      max_browser_debug_bytes = debug, clock = clk, ticks = 1, started_monotonic = clk 0,
      deadline_monotonic = clk 0 + duration, b_fetched_bytes = 0, b_requests = 0,
      b_extracted_records = 0, b_browser_debug_bytes = 0, b_estimated_result_bytes = 0,
      exhausted = None\<rparr>"

text \<open>The per-run overrides of \<^verbatim>\<open>from_settings\<close>: a run may only lower the service's limits.\<close>

definition lower_limit :: "int \<Rightarrow> int option \<Rightarrow> int" where
  "lower_limit service run = (case run of None \<Rightarrow> service | Some v \<Rightarrow> min service v)"

record execution_limits =
  x_max_requests :: "int option"
  x_max_fetched_bytes :: "int option"
  x_max_extracted_records :: "int option"
  x_max_serialized_result_bytes :: "int option"

definition from_settings ::
    "rat \<Rightarrow> int \<Rightarrow> int \<Rightarrow> int \<Rightarrow> int \<Rightarrow> int \<Rightarrow> execution_limits \<Rightarrow> (nat \<Rightarrow> rat) \<Rightarrow> run_budget" where
  "from_settings duration fetched records serialized debug reqs x clk =
     (let b = init_budget duration fetched records serialized debug reqs clk in
      b\<lparr>max_requests := lower_limit (max_requests b) (x_max_requests x),
        max_fetched_bytes := lower_limit (max_fetched_bytes b) (x_max_fetched_bytes x),
        max_extracted_records := lower_limit (max_extracted_records b) (x_max_extracted_records x),
        max_serialized_result_bytes := lower_limit (max_serialized_result_bytes b) (x_max_serialized_result_bytes x)\<rparr>)"

section \<open>Deadline\<close>

definition read_clock :: "run_budget \<Rightarrow> rat \<times> run_budget" where
  "read_clock b = (clock b (ticks b), b\<lparr>ticks := Suc (ticks b)\<rparr>)"

definition elapsed_seconds :: "run_budget \<Rightarrow> rat \<times> run_budget" where
  "elapsed_seconds b = (let (t, b') = read_clock b in (max 0 (t - started_monotonic b), b'))"

definition remaining_seconds :: "run_budget \<Rightarrow> rat \<times> run_budget" where
  "remaining_seconds b = (let (t, b') = read_clock b in (max 0 (deadline_monotonic b - t), b'))"

definition remaining_fetched_bytes :: "run_budget \<Rightarrow> int" where
  "remaining_fetched_bytes b = max 0 (max_fetched_bytes b - b_fetched_bytes b)"

definition exceed :: "budget_limit_name \<Rightarrow> rat \<Rightarrow> rat \<Rightarrow> run_budget \<Rightarrow> 'a budget_result" where
  "exceed n limit observed b =
     (let x = \<lparr>limit_name = n, configured_limit = limit, observed_amount = observed\<rparr>
      in (Inl (Budget_exceeded x), b\<lparr>exhausted := Some x\<rparr>))"

definition raise_duration :: "run_budget \<Rightarrow> 'a budget_result" where
  "raise_duration b = (let (t, b') = elapsed_seconds b
     in exceed Run_duration_seconds (max_duration_seconds b) t b')"

definition check_deadline :: "run_budget \<Rightarrow> unit budget_result" where
  "check_deadline b = (case exhausted b of
       Some x \<Rightarrow> (Inl (Budget_exceeded x), b)
     | None \<Rightarrow> (let (t, b') = read_clock b
         in if t \<ge> deadline_monotonic b then raise_duration b' else (Inr (), b')))"

definition exhaust_duration :: "run_budget \<Rightarrow> 'a budget_result" where
  "exhaust_duration b = (case exhausted b of
       Some x \<Rightarrow> (Inl (Budget_exceeded x), b)
     | None \<Rightarrow> raise_duration b)"

definition and_then :: "unit budget_result \<Rightarrow> (run_budget \<Rightarrow> 'a budget_result) \<Rightarrow> 'a budget_result" where
  "and_then r k = (case r of (Inl x, b) \<Rightarrow> (Inl x, b) | (Inr _, b) \<Rightarrow> k b)"

text \<open>
  \<^verbatim>\<open>wait_for\<close> and \<^verbatim>\<open>wait_for_owned\<close> for work that ends with \<open>outcome\<close>, or does not end
  within the remaining time (\<open>None\<close>).
\<close>

definition wait_for :: "'a option \<Rightarrow> run_budget \<Rightarrow> 'a budget_result" where
  "wait_for outcome b = and_then (check_deadline b) (\<lambda>b1.
     let (_, b2) = remaining_seconds b1
     in case outcome of Some v \<Rightarrow> (Inr v, b2) | None \<Rightarrow> raise_duration b2)"

definition budget_sleep :: "rat \<Rightarrow> bool \<Rightarrow> run_budget \<Rightarrow> unit budget_result" where
  "budget_sleep delay finishes b =
     (if delay \<le> 0 then check_deadline b else wait_for (if finishes then Some () else None) b)"

section \<open>Counters\<close>

definition reserve_requests :: "int \<Rightarrow> run_budget \<Rightarrow> unit budget_result" where
  "reserve_requests amount b =
     (if amount < 1 then (Inl (Budget_value_error ''Request reservation must be positive''), b)
      else and_then (check_deadline b) (\<lambda>b.
        let observed = b_requests b + amount
        in if observed > max_requests b then exceed Requests (of_int (max_requests b)) (of_int observed) b
           else (Inr (), b\<lparr>b_requests := observed\<rparr>)))"

definition settle_requests :: "int \<Rightarrow> int \<Rightarrow> run_budget \<Rightarrow> unit budget_result" where
  "settle_requests reserved issued b =
     (if \<not> (0 \<le> issued \<and> issued \<le> reserved) then (Inl (Budget_value_error ''Invalid settled request reservation''), b)
      else (Inr (), b\<lparr>b_requests := b_requests b - (reserved - issued)\<rparr>))"

definition check_fetched_capacity :: "int \<Rightarrow> run_budget \<Rightarrow> unit budget_result" where
  "check_fetched_capacity amount b =
     (if amount < 0 then (Inl (Budget_value_error ''Fetched byte amount cannot be negative''), b)
      else and_then (check_deadline b) (\<lambda>b.
        let observed = b_fetched_bytes b + amount
        in if observed > max_fetched_bytes b
           then exceed Fetched_bytes (of_int (max_fetched_bytes b)) (of_int observed) b else (Inr (), b)))"

definition consume_fetched_bytes :: "int \<Rightarrow> run_budget \<Rightarrow> unit budget_result" where
  "consume_fetched_bytes amount b =
     (if amount < 0 then (Inl (Budget_value_error ''Fetched byte amount cannot be negative''), b)
      else and_then (check_deadline b) (\<lambda>b. and_then (check_deadline b) (\<lambda>b.
        let observed = b_fetched_bytes b + amount
        in if observed > max_fetched_bytes b
           then exceed Fetched_bytes (of_int (max_fetched_bytes b)) (of_int observed) b
           else (Inr (), b\<lparr>b_fetched_bytes := observed\<rparr>))))"

definition reserve_extracted_records :: "int \<Rightarrow> run_budget \<Rightarrow> unit budget_result" where
  "reserve_extracted_records amount b =
     (if amount < 0 then (Inl (Budget_value_error ''Extracted record amount cannot be negative''), b)
      else and_then (check_deadline b) (\<lambda>b. and_then (check_deadline b) (\<lambda>b.
        let observed = b_extracted_records b + amount
        in if observed > max_extracted_records b
           then exceed Extracted_records (of_int (max_extracted_records b)) (of_int observed) b
           else (Inr (), b\<lparr>b_extracted_records := observed\<rparr>))))"

definition enforce_serialized_result_bytes :: "int \<Rightarrow> run_budget \<Rightarrow> unit budget_result" where
  "enforce_serialized_result_bytes amount b = and_then (check_deadline b) (\<lambda>b.
     if amount > max_serialized_result_bytes b
     then exceed Serialized_result_bytes (of_int (max_serialized_result_bytes b)) (of_int amount) b
     else (Inr (), b))"

definition reserve_estimated_result_bytes :: "int \<Rightarrow> run_budget \<Rightarrow> unit budget_result" where
  "reserve_estimated_result_bytes amount b =
     (if amount < 0 then (Inl (Budget_value_error ''Estimated result byte amount cannot be negative''), b)
      else and_then (check_deadline b) (\<lambda>b. and_then (check_deadline b) (\<lambda>b.
        let observed = b_estimated_result_bytes b + amount
        in if observed > max_serialized_result_bytes b
           then exceed Serialized_result_bytes (of_int (max_serialized_result_bytes b)) (of_int observed) b
           else (Inr (), b\<lparr>b_estimated_result_bytes := observed\<rparr>))))"

definition reserve_browser_debug_bytes :: "int \<Rightarrow> bool \<Rightarrow> run_budget \<Rightarrow> int budget_result" where
  "reserve_browser_debug_bytes requested allow_partial b =
     (if requested < 0 then (Inl (Budget_value_error ''Browser debug byte amount cannot be negative''), b)
      else and_then (check_deadline b) (\<lambda>b. and_then (check_deadline b) (\<lambda>b.
        let remaining = max_browser_debug_bytes b - b_browser_debug_bytes b;
            granted = (if allow_partial then min requested remaining
                       else if requested \<le> remaining then requested else 0)
        in (Inr granted, b\<lparr>b_browser_debug_bytes := b_browser_debug_bytes b + granted\<rparr>))))"

definition release_browser_debug_bytes :: "int \<Rightarrow> run_budget \<Rightarrow> unit budget_result" where
  "release_browser_debug_bytes amount b =
     (if amount < 0 then (Inl (Budget_value_error ''Browser debug byte amount cannot be negative''), b)
      else (Inr (), b\<lparr>b_browser_debug_bytes := max 0 (b_browser_debug_bytes b - amount)\<rparr>))"

section \<open>Sequences of calls\<close>

text \<open>The methods of a budget that a run calls, in any order and from any of its targets.\<close>

datatype budget_op =
    Op_reserve_requests int
  | Op_settle_requests int int
  | Op_check_fetched int
  | Op_consume_fetched int
  | Op_reserve_records int
  | Op_reserve_estimated int
  | Op_enforce_serialized int
  | Op_reserve_debug int bool
  | Op_release_debug int
  | Op_check_deadline
  | Op_wait "unit option"
  | Op_exhaust_duration

text \<open>Whether the call returned, and the budget afterwards.\<close>

definition returned :: "'a budget_result \<Rightarrow> bool \<times> run_budget" where
  "returned r = (\<not> isl (fst r), snd r)"

fun perform :: "budget_op \<Rightarrow> run_budget \<Rightarrow> bool \<times> run_budget" where
  "perform (Op_reserve_requests n) b = returned (reserve_requests n b)"
| "perform (Op_settle_requests r i) b = returned (settle_requests r i b)"
| "perform (Op_check_fetched n) b = returned (check_fetched_capacity n b)"
| "perform (Op_consume_fetched n) b = returned (consume_fetched_bytes n b)"
| "perform (Op_reserve_records n) b = returned (reserve_extracted_records n b)"
| "perform (Op_reserve_estimated n) b = returned (reserve_estimated_result_bytes n b)"
| "perform (Op_enforce_serialized n) b = returned (enforce_serialized_result_bytes n b)"
| "perform (Op_reserve_debug n p) b = returned (reserve_browser_debug_bytes n p b)"
| "perform (Op_release_debug n) b = returned (release_browser_debug_bytes n b)"
| "perform Op_check_deadline b = returned (check_deadline b)"
| "perform (Op_wait w) b = returned (wait_for w b)"
| "perform Op_exhaust_duration b = returned (exhaust_duration b :: unit budget_result)"

text \<open>The calls that returned, in order.\<close>

fun perform_all :: "budget_op list \<Rightarrow> run_budget \<Rightarrow> budget_op list \<times> run_budget" where
  "perform_all [] b = ([], b)"
| "perform_all (op # ops) b = (let (ok, b1) = perform op b; (rest, b2) = perform_all ops b1
     in (if ok then op # rest else rest, b2))"

text \<open>What a call that returned adds to each account; settling gives back what was reserved and not issued.\<close>

fun request_amount :: "budget_op \<Rightarrow> int" where
  "request_amount (Op_reserve_requests n) = n"
| "request_amount (Op_settle_requests r i) = - (r - i)"
| "request_amount _ = 0"

fun fetched_amount :: "budget_op \<Rightarrow> int" where
  "fetched_amount (Op_consume_fetched n) = n"
| "fetched_amount _ = 0"

fun record_amount :: "budget_op \<Rightarrow> int" where
  "record_amount (Op_reserve_records n) = n"
| "record_amount _ = 0"

fun estimated_amount :: "budget_op \<Rightarrow> int" where
  "estimated_amount (Op_reserve_estimated n) = n"
| "estimated_amount _ = 0"

section \<open>The contract of an account\<close>

text \<open>
  An account is kept by the calls if each call that returns adds its amount and stays within the cap, and one that is refused
  changes nothing: then the account is the sum of what was granted, and never above the cap.
\<close>

locale kept_account =
  fixes used :: "run_budget \<Rightarrow> int"
    and cap :: "run_budget \<Rightarrow> int"
    and amount :: "budget_op \<Rightarrow> int"
  assumes booked: "perform op b = (ok, b') \<Longrightarrow> used b' = used b + (if ok then amount op else 0)"
    and capped: "perform op b = (ok, b') \<Longrightarrow> used b \<le> cap b \<Longrightarrow> used b' \<le> cap b"
    and cap_kept: "perform op b = (ok, b') \<Longrightarrow> cap b' = cap b"
begin

lemma account_is_sum:
  assumes "perform_all ops b = (granted, b')" and "used b \<le> cap b"
  shows "used b' = used b + sum_list (map amount granted) \<and> used b' \<le> cap b \<and> cap b' = cap b"
  using assms
proof (induction ops arbitrary: b granted)
  case (Cons op ops)
  obtain ok b1 where one: "perform op b = (ok, b1)" by fastforce
  obtain rest where rest: "perform_all ops b1 = (rest, b')" "granted = (if ok then op # rest else rest)"
    using Cons.prems(1) by (auto simp: one split: prod.splits)
  have "used b1 \<le> cap b1" using capped [OF one Cons.prems(2)] cap_kept [OF one] by simp
  from Cons.IH [OF rest(1) this] show ?case using booked [OF one] cap_kept [OF one] rest(2) by auto
qed simp

end

section \<open>The counters satisfy the contract\<close>

text \<open>What checking the deadline leaves alone: the limits and the counters.\<close>

definition same_accounts :: "run_budget \<Rightarrow> run_budget \<Rightarrow> bool" where
  "same_accounts b b' \<longleftrightarrow> b_requests b' = b_requests b \<and> b_fetched_bytes b' = b_fetched_bytes b
     \<and> b_extracted_records b' = b_extracted_records b \<and> b_estimated_result_bytes b' = b_estimated_result_bytes b
     \<and> b_browser_debug_bytes b' = b_browser_debug_bytes b \<and> max_requests b' = max_requests b
     \<and> max_fetched_bytes b' = max_fetched_bytes b \<and> max_extracted_records b' = max_extracted_records b
     \<and> max_serialized_result_bytes b' = max_serialized_result_bytes b
     \<and> max_browser_debug_bytes b' = max_browser_debug_bytes b"

lemma same_accounts_refl: "same_accounts b b"
  by (simp add: same_accounts_def)

lemma same_accounts_trans: "same_accounts a b \<Longrightarrow> same_accounts b c \<Longrightarrow> same_accounts a c"
  by (simp add: same_accounts_def)

lemma raise_duration_keeps: "raise_duration b = (r, b') \<Longrightarrow> same_accounts b b'"
  by (auto simp: same_accounts_def read_clock_def raise_duration_def elapsed_seconds_def exceed_def Let_def)

lemma check_deadline_keeps: "check_deadline b = (r, b') \<Longrightarrow> same_accounts b b'"
  by (auto simp: same_accounts_def check_deadline_def read_clock_def raise_duration_def elapsed_seconds_def exceed_def
      Let_def split: option.splits if_splits)

lemma and_then_cases:
  assumes "and_then r k = (x, b')"
  obtains (raised) y where "r = (Inl y, b')" "x = Inl y"
  | (passed) b1 where "r = (Inr (), b1)" "k b1 = (x, b')"
  using assms by (cases r) (auto simp: and_then_def split: sum.splits)

lemma wait_for_keeps: "wait_for w b = (r, b') \<Longrightarrow> same_accounts b b'"
  by (auto simp: wait_for_def remaining_seconds_def read_clock_def Let_def split: option.splits elim!: and_then_cases
      dest!: check_deadline_keeps raise_duration_keeps) (auto simp: same_accounts_def)

lemma exhaust_duration_keeps: "exhaust_duration b = (r, b') \<Longrightarrow> same_accounts b b'"
  by (auto simp: exhaust_duration_def same_accounts_refl dest: raise_duration_keeps split: option.splits)

lemma returnedE:
  assumes "returned r = (ok, b')"
  obtains (raised) x where "r = (Inl x, b')" "\<not> ok" | (returns) v where "r = (Inr v, b')" "ok"
  using assms by (cases r; cases "fst r") (auto simp: returned_def)

text \<open>Each call books its amount on its own account, stays within that account's cap, and leaves the other accounts alone.\<close>

definition books :: "budget_op \<Rightarrow> bool \<Rightarrow> run_budget \<Rightarrow> run_budget \<Rightarrow> bool" where
  "books op ok b b' \<longleftrightarrow> b_requests b' = b_requests b + (if ok then request_amount op else 0)
     \<and> b_fetched_bytes b' = b_fetched_bytes b + (if ok then fetched_amount op else 0)
     \<and> b_extracted_records b' = b_extracted_records b + (if ok then record_amount op else 0)
     \<and> b_estimated_result_bytes b' = b_estimated_result_bytes b + (if ok then estimated_amount op else 0)
     \<and> (b_requests b \<le> max_requests b \<longrightarrow> b_requests b' \<le> max_requests b)
     \<and> (b_fetched_bytes b \<le> max_fetched_bytes b \<longrightarrow> b_fetched_bytes b' \<le> max_fetched_bytes b)
     \<and> (b_extracted_records b \<le> max_extracted_records b \<longrightarrow> b_extracted_records b' \<le> max_extracted_records b)
     \<and> (b_estimated_result_bytes b \<le> max_serialized_result_bytes b \<longrightarrow> b_estimated_result_bytes b' \<le> max_serialized_result_bytes b)
     \<and> (0 \<le> b_browser_debug_bytes b \<and> b_browser_debug_bytes b \<le> max_browser_debug_bytes b \<longrightarrow>
          0 \<le> b_browser_debug_bytes b' \<and> b_browser_debug_bytes b' \<le> max_browser_debug_bytes b)
     \<and> max_requests b' = max_requests b \<and> max_fetched_bytes b' = max_fetched_bytes b
     \<and> max_extracted_records b' = max_extracted_records b \<and> max_serialized_result_bytes b' = max_serialized_result_bytes b
     \<and> max_browser_debug_bytes b' = max_browser_debug_bytes b"

lemma books_same: "same_accounts b b' \<Longrightarrow> books op False b b'"
  by (simp add: books_def same_accounts_def)

lemma books_after: "books op ok b1 b' \<Longrightarrow> same_accounts b b1 \<Longrightarrow> books op ok b b'"
  by (auto simp: books_def same_accounts_def)

lemma books_checked:
  assumes "and_then (check_deadline b) k = (x, b')" and "\<And>b1. k b1 = (x, b') \<Longrightarrow> books op (\<not> isl x) b1 b'"
  shows "books op (\<not> isl x) b b'"
  using assms(1)
proof (cases rule: and_then_cases)
  case (raised y)
  then show ?thesis using books_same check_deadline_keeps by auto
next
  case (passed b1)
  then show ?thesis using assms(2) books_after check_deadline_keeps by blast
qed

lemma books_guarded:
  assumes "(if bad then (Inl e, b) else and_then (check_deadline b) k) = (x, b')"
    and "\<And>b1. k b1 = (x, b') \<Longrightarrow> \<not> bad \<Longrightarrow> books op (\<not> isl x) b1 b'"
  shows "books op (\<not> isl x) b b'"
proof (cases bad)
  case True
  then show ?thesis using assms(1) by (auto intro: books_same [OF same_accounts_refl])
next
  case False
  then have "and_then (check_deadline b) k = (x, b')" using assms(1) by simp
  then show ?thesis by (rule books_checked) (rule assms(2) [OF _ False])
qed

lemma books_reserve_requests: "reserve_requests n b = (x, b') \<Longrightarrow> books (Op_reserve_requests n) (\<not> isl x) b b'"
  unfolding reserve_requests_def by (erule books_guarded) (auto simp: books_def exceed_def Let_def split: if_splits)

lemma books_settle_requests: "settle_requests r i b = (x, b') \<Longrightarrow> books (Op_settle_requests r i) (\<not> isl x) b b'"
  by (auto simp: settle_requests_def books_def split: if_splits)

lemma books_check_fetched: "check_fetched_capacity n b = (x, b') \<Longrightarrow> books (Op_check_fetched n) (\<not> isl x) b b'"
  unfolding check_fetched_capacity_def by (erule books_guarded) (auto simp: books_def exceed_def Let_def split: if_splits)

lemma books_consume_fetched: "consume_fetched_bytes n b = (x, b') \<Longrightarrow> books (Op_consume_fetched n) (\<not> isl x) b b'"
  unfolding consume_fetched_bytes_def
  by (erule books_guarded, erule books_checked) (auto simp: books_def exceed_def Let_def split: if_splits)

lemma books_reserve_records: "reserve_extracted_records n b = (x, b') \<Longrightarrow> books (Op_reserve_records n) (\<not> isl x) b b'"
  unfolding reserve_extracted_records_def
  by (erule books_guarded, erule books_checked) (auto simp: books_def exceed_def Let_def split: if_splits)

lemma books_reserve_estimated: "reserve_estimated_result_bytes n b = (x, b') \<Longrightarrow> books (Op_reserve_estimated n) (\<not> isl x) b b'"
  unfolding reserve_estimated_result_bytes_def
  by (erule books_guarded, erule books_checked) (auto simp: books_def exceed_def Let_def split: if_splits)

lemma books_enforce_serialized: "enforce_serialized_result_bytes n b = (x, b') \<Longrightarrow> books (Op_enforce_serialized n) (\<not> isl x) b b'"
  unfolding enforce_serialized_result_bytes_def
  by (erule books_checked) (auto simp: books_def exceed_def Let_def split: if_splits)

lemma books_reserve_debug: "reserve_browser_debug_bytes n p b = (x, b') \<Longrightarrow> books (Op_reserve_debug n p) (\<not> isl x) b b'"
  unfolding reserve_browser_debug_bytes_def
  by (erule books_guarded, erule books_checked) (auto simp: books_def Let_def split: if_splits)

lemma books_release_debug: "release_browser_debug_bytes n b = (x, b') \<Longrightarrow> books (Op_release_debug n) (\<not> isl x) b b'"
  by (auto simp: release_browser_debug_bytes_def books_def split: if_splits)

lemma books_nothing:
  assumes "same_accounts b b'" and "request_amount op = 0" "fetched_amount op = 0" "record_amount op = 0" "estimated_amount op = 0"
  shows "books op ok b b'"
  using assms by (simp add: books_def same_accounts_def)

lemma returned_books:
  assumes "\<And>x b'. r = (x, b') \<Longrightarrow> books op (\<not> isl x) b b'" and "returned r = (ok, b')"
  shows "books op ok b b'"
  using assms by (cases r) (auto simp: returned_def)

lemma perform_books:
  assumes "perform op b = (ok, b')"
  shows "books op ok b b'"
proof (cases op)
  case Op_check_deadline
  with assms check_deadline_keeps show ?thesis by (cases "check_deadline b") (auto simp: returned_def intro!: books_nothing)
next
  case (Op_wait w)
  with assms wait_for_keeps show ?thesis by (cases "wait_for w b") (auto simp: returned_def intro!: books_nothing)
next
  case Op_exhaust_duration
  with assms exhaust_duration_keeps show ?thesis
    by (cases "exhaust_duration b :: unit budget_result") (auto simp: returned_def intro!: books_nothing)
qed (insert assms, (simp, erule returned_books [rotated], erule books_reserve_requests books_settle_requests books_check_fetched
    books_consume_fetched books_reserve_records books_reserve_estimated books_enforce_serialized books_reserve_debug books_release_debug)+)

interpretation requests: kept_account b_requests max_requests request_amount
  by unfold_locales (drule perform_books, simp add: books_def)+

interpretation fetched: kept_account b_fetched_bytes max_fetched_bytes fetched_amount
  by unfold_locales (drule perform_books, simp add: books_def)+

interpretation records: kept_account b_extracted_records max_extracted_records record_amount
  by unfold_locales (drule perform_books, simp add: books_def)+

interpretation estimated: kept_account b_estimated_result_bytes max_serialized_result_bytes estimated_amount
  by unfold_locales (drule perform_books, simp add: books_def)+

lemma debug_within:
  assumes "perform_all ops b = (granted, b')" and "0 \<le> b_browser_debug_bytes b" "b_browser_debug_bytes b \<le> max_browser_debug_bytes b"
  shows "0 \<le> b_browser_debug_bytes b' \<and> b_browser_debug_bytes b' \<le> max_browser_debug_bytes b"
  using assms
proof (induction ops arbitrary: b granted)
  case (Cons op ops)
  obtain ok b1 where one: "perform op b = (ok, b1)" by fastforce
  obtain rest where "perform_all ops b1 = (rest, b')" using Cons.prems(1) by (auto simp: one split: prod.splits)
  with Cons.IH [of b1] Cons.prems(2,3) perform_books [OF one] show ?case by (auto simp: books_def)
qed simp

section \<open>Properties\<close>

text \<open>
  Claim C25. Whatever calls a run makes on a fresh budget, in any mixture and order, each account is exactly what was granted less what
  was settled, and never above the smaller of the service's limit and the run's own limit: requests (reservations less the
  unused part that was settled), fetched bytes, extracted records and estimated result bytes; the browser debug bytes stay between 0
  and their limit. The limits are not negative.
\<close>

theorem budget_never_overspent:
  assumes "b = from_settings duration fetched records serialized debug reqs x clk"
    and "0 \<le> max_requests b" and "0 \<le> max_fetched_bytes b" and "0 \<le> max_extracted_records b"
    and "0 \<le> max_serialized_result_bytes b" and "0 \<le> debug"
    and "perform_all ops b = (granted, b')"
  shows "b_requests b' = sum_list (map request_amount granted) \<and> b_requests b' \<le> lower_limit reqs (x_max_requests x)
    \<and> b_fetched_bytes b' = sum_list (map fetched_amount granted) \<and> b_fetched_bytes b' \<le> lower_limit fetched (x_max_fetched_bytes x)
    \<and> b_extracted_records b' = sum_list (map record_amount granted)
    \<and> b_extracted_records b' \<le> lower_limit records (x_max_extracted_records x)
    \<and> b_estimated_result_bytes b' = sum_list (map estimated_amount granted)
    \<and> b_estimated_result_bytes b' \<le> lower_limit serialized (x_max_serialized_result_bytes x)
    \<and> 0 \<le> b_browser_debug_bytes b' \<and> b_browser_debug_bytes b' \<le> debug"
proof -
  have fresh: "b_requests b = 0" "b_fetched_bytes b = 0" "b_extracted_records b = 0" "b_estimated_result_bytes b = 0"
    "b_browser_debug_bytes b = 0" "max_browser_debug_bytes b = debug"
    "max_requests b = lower_limit reqs (x_max_requests x)"
    "max_fetched_bytes b = lower_limit fetched (x_max_fetched_bytes x)"
    "max_extracted_records b = lower_limit records (x_max_extracted_records x)"
    "max_serialized_result_bytes b = lower_limit serialized (x_max_serialized_result_bytes x)"
    by (simp_all add: assms(1) from_settings_def init_budget_def Let_def)
  show ?thesis
    using requests.account_is_sum [OF assms(7)] fetched.account_is_sum [OF assms(7)] records.account_is_sum [OF assms(7)]
      estimated.account_is_sum [OF assms(7)] debug_within [OF assms(7)] fresh assms(2-6) by simp
qed

text \<open>
  Exhaustion is final: once a limit or the deadline was exceeded, every later check, wait and
  reservation raises that same error and changes nothing.
\<close>

theorem exhaustion_is_sticky:
  assumes "exhausted b = Some x"
  shows "check_deadline b = (Inl (Budget_exceeded x), b)
    \<and> (n \<ge> 1 \<longrightarrow> reserve_requests n b = (Inl (Budget_exceeded x), b))
    \<and> (n \<ge> 0 \<longrightarrow> consume_fetched_bytes n b = (Inl (Budget_exceeded x), b)
         \<and> check_fetched_capacity n b = (Inl (Budget_exceeded x), b)
         \<and> reserve_extracted_records n b = (Inl (Budget_exceeded x), b)
         \<and> reserve_estimated_result_bytes n b = (Inl (Budget_exceeded x), b)
         \<and> reserve_browser_debug_bytes n p b = (Inl (Budget_exceeded x), b))
    \<and> enforce_serialized_result_bytes n b = (Inl (Budget_exceeded x), b)
    \<and> wait_for w b = (Inl (Budget_exceeded x), b) \<and> budget_sleep d f b = (Inl (Budget_exceeded x), b)
    \<and> exhaust_duration b = ((Inl (Budget_exceeded x), b) :: unit budget_result)"
proof -
  have "check_deadline b = (Inl (Budget_exceeded x), b)" by (simp add: check_deadline_def assms)
  then show ?thesis
    by (simp add: assms reserve_requests_def consume_fetched_bytes_def check_fetched_capacity_def
        reserve_extracted_records_def reserve_estimated_result_bytes_def reserve_browser_debug_bytes_def
        enforce_serialized_result_bytes_def wait_for_def budget_sleep_def exhaust_duration_def and_then_def)
qed

text \<open>
  A refused reservation reports the configured limit and the amount that would have been
  used, leaves the counter as it was, and marks the budget exhausted.
\<close>

theorem refused_reservation_reports:
  assumes "reserve_requests n b = (Inl (Budget_exceeded x), b')" and "exhausted b = None"
  shows "exhausted b' = Some x \<and> b_requests b' = b_requests b
    \<and> (limit_name x = Requests \<longrightarrow> configured_limit x = of_int (max_requests b)
         \<and> observed_amount x = of_int (b_requests b + n) \<and> b_requests b + n > max_requests b)"
proof -
  have cd: "exhausted b1 = (case r of Inl (Budget_exceeded y) \<Rightarrow> Some y | _ \<Rightarrow> exhausted b)
      \<and> (\<forall>y. r = Inl (Budget_exceeded y) \<longrightarrow> limit_name y = Run_duration_seconds)"
    if "check_deadline b = (r, b1)" for r b1
    using that assms(2) by (auto simp: check_deadline_def read_clock_def raise_duration_def elapsed_seconds_def exceed_def
        Let_def split: if_splits)
  from assms(1) have "n \<ge> 1" and "and_then (check_deadline b) (\<lambda>b. let observed = b_requests b + n
        in if observed > max_requests b then exceed Requests (of_int (max_requests b)) (of_int observed) b
           else (Inr (), b\<lparr>b_requests := observed\<rparr>)) = (Inl (Budget_exceeded x), b')"
    by (auto simp: reserve_requests_def split: if_splits)
  from this(2) show ?thesis
  proof (cases rule: and_then_cases)
    case (raised y)
    then show ?thesis using cd [OF raised(1)] check_deadline_keeps [OF raised(1)] by (auto simp: same_accounts_def)
  next
    case (passed b1)
    then show ?thesis
      using check_deadline_keeps [OF passed(1)] by (auto simp: same_accounts_def exceed_def Let_def split: if_splits)
  qed
qed

definition sample_budget :: run_budget where
  "sample_budget = from_settings 100 1000 10 1000 1000 5
     \<lparr>x_max_requests = Some 3, x_max_fetched_bytes = None, x_max_extracted_records = None, x_max_serialized_result_bytes = None\<rparr> of_nat"

definition sample_ops :: "budget_op list" where
  "sample_ops = [Op_reserve_requests 2, Op_settle_requests 2 1, Op_consume_fetched 400, Op_reserve_requests 2, Op_reserve_requests 1]"

theorem budget_never_overspent_witness:
  "fst (perform_all sample_ops sample_budget) = butlast sample_ops
   \<and> b_requests (snd (perform_all sample_ops sample_budget)) = 3 \<and> b_fetched_bytes (snd (perform_all sample_ops sample_budget)) \<le> 1000"
proof -
  have limits: "0 \<le> max_requests sample_budget" "0 \<le> max_fetched_bytes sample_budget" "0 \<le> max_extracted_records sample_budget"
    "0 \<le> max_serialized_result_bytes sample_budget" "0 \<le> (1000 :: int)" by code_simp+
  have granted: "fst (perform_all sample_ops sample_budget) = butlast sample_ops"
    by (simp add: sample_ops_def sample_budget_def from_settings_def init_budget_def lower_limit_def returned_def reserve_requests_def
        settle_requests_def consume_fetched_bytes_def and_then_def check_deadline_def read_clock_def exceed_def Let_def)
  have "sum_list (map request_amount (butlast sample_ops)) = 3" by (simp add: sample_ops_def)
  with granted show ?thesis
    using budget_never_overspent [OF sample_budget_def limits surjective_pairing, of sample_ops] by (simp add: lower_limit_def)
qed

definition sample_spent :: run_budget where
  "sample_spent = snd (reserve_requests 4 sample_budget)"

theorem exhaustion_is_sticky_witness: "\<exists>x. check_deadline sample_spent = (Inl (Budget_exceeded x), sample_spent)"
proof -
  have "exhausted sample_spent \<noteq> None" by code_simp
  then obtain x where "exhausted sample_spent = Some x" by auto
  from exhaustion_is_sticky [OF this] show ?thesis by blast
qed

theorem refused_reservation_reports_witness: "b_requests sample_spent = 0"
proof -
  have "case reserve_requests 4 sample_budget of (Inl (Budget_exceeded _), _) \<Rightarrow> True | _ \<Rightarrow> False" by code_simp
  then obtain x where x: "reserve_requests 4 sample_budget = (Inl (Budget_exceeded x), sample_spent)"
    by (auto simp: sample_spent_def split: prod.splits sum.splits budget_error.splits)
  have "exhausted sample_budget = None" "b_requests sample_budget = 0" by code_simp+
  with refused_reservation_reports [OF x] show ?thesis by simp
qed

end
