(* ===== verification/Resilience.thy ===== *)
theory Resilience
  imports Prelude
begin

text \<open>
  \<^verbatim>\<open>engine/resilience.py\<close>: the retry loop with its backoff, the result validator and the
  per-domain circuit breaker.

  The retried coroutine is a function of the attempt number. Cancellation checkpoints and
  the budgeted sleep are functions that say where they raise. The breaker's dictionary is an
  association list with distinct domains; every method takes the clock reading it makes.
  The validator is the one without a budget: with one, it also checks the deadline of
  \<^verbatim>\<open>common/budgets.py\<close> between records.
\<close>

section \<open>Retry\<close>

datatype backoff_strategy = Fixed | Linear | Exponential

record retry_config =
  rc_max_attempts :: nat
  rc_backoff :: backoff_strategy
  rc_backoff_max :: rat

datatype retry_error = Retryable_status int | URL_resolution_error | Transient_transport

datatype 'a attempt = Returned 'a | Raised_retryable retry_error | Raised_other string

datatype 'a retry_result =
    Retry_returned 'a
  | Retry_raised retry_error
  | Retry_failed string
  | Retry_cancelled string
  | Retry_budget_exceeded
  | Retry_runtime_error

record 'a retry_run =
  rr_result :: "'a retry_result"
  rr_calls :: nat
  rr_delays :: "rat list"

definition retry_delay :: "retry_config \<Rightarrow> nat \<Rightarrow> rat" where
  "retry_delay c attempt = min (case rc_backoff c of
       Fixed \<Rightarrow> 1 | Linear \<Rightarrow> of_nat (attempt + 1) | Exponential \<Rightarrow> 2 ^ attempt) (rc_backoff_max c)"

definition not_retried :: "retry_error \<Rightarrow> bool" where
  "not_retried x = (case x of Retryable_status s \<Rightarrow> s \<in> {401, 403, 407} | _ \<Rightarrow> False)"

definition retry_end :: "'a retry_result \<Rightarrow> nat \<Rightarrow> rat list \<Rightarrow> 'a retry_run" where
  "retry_end r n ds = \<lparr>rr_result = r, rr_calls = n, rr_delays = ds\<rparr>"

text \<open>
  The loop from attempt \<open>attempt\<close>: \<open>cancelled attempt stage\<close> is a checkpoint that raises,
  \<open>sleep_fails attempt\<close> a budgeted sleep that raises.
\<close>

function execute_from ::
    "retry_config \<Rightarrow> (nat \<Rightarrow> string \<Rightarrow> bool) \<Rightarrow> (nat \<Rightarrow> bool) \<Rightarrow> (nat \<Rightarrow> 'a attempt) \<Rightarrow> nat \<Rightarrow> retry_error option
     \<Rightarrow> nat \<Rightarrow> rat list \<Rightarrow> 'a retry_run" where
  "execute_from c cancelled sleep_fails fn attempt last_exc calls delays =
     (if attempt \<ge> rc_max_attempts c
      then (case last_exc of None \<Rightarrow> retry_end Retry_runtime_error calls delays
            | Some x \<Rightarrow> retry_end (Retry_raised x) calls delays)
      else if cancelled attempt ''before_retry_attempt''
      then retry_end (Retry_cancelled ''before_retry_attempt'') calls delays
      else case fn attempt of
        Returned v \<Rightarrow> if cancelled attempt ''after_retry_attempt''
            then retry_end (Retry_cancelled ''after_retry_attempt'') (Suc calls) delays
            else retry_end (Retry_returned v) (Suc calls) delays
      | Raised_other m \<Rightarrow> retry_end (Retry_failed m) (Suc calls) delays
      | Raised_retryable x \<Rightarrow>
          if not_retried x then retry_end (Retry_raised x) (Suc calls) delays
          else if attempt < rc_max_attempts c - 1
          then if cancelled attempt ''before_retry_backoff''
               then retry_end (Retry_cancelled ''before_retry_backoff'') (Suc calls) delays
               else if sleep_fails attempt then retry_end Retry_budget_exceeded (Suc calls) (delays @ [retry_delay c attempt])
               else if cancelled attempt ''after_retry_backoff''
               then retry_end (Retry_cancelled ''after_retry_backoff'') (Suc calls) (delays @ [retry_delay c attempt])
               else execute_from c cancelled sleep_fails fn (Suc attempt) (Some x) (Suc calls) (delays @ [retry_delay c attempt])
          else execute_from c cancelled sleep_fails fn (Suc attempt) (Some x) (Suc calls) delays)"
  by pat_completeness auto
termination
  by (relation "measure (\<lambda>(c, cancelled, sleep_fails, fn, attempt, last, calls, delays). rc_max_attempts c - attempt)") auto

declare execute_from.simps [simp del]

definition execute :: "retry_config \<Rightarrow> (nat \<Rightarrow> string \<Rightarrow> bool) \<Rightarrow> (nat \<Rightarrow> bool) \<Rightarrow> (nat \<Rightarrow> 'a attempt) \<Rightarrow> 'a retry_run" where
  "execute c cancelled sleep_fails fn = execute_from c cancelled sleep_fails fn 0 None 0 []"

section \<open>Result validation\<close>

datatype field_value = Absent | Text string | Items "field_value list" | Other

datatype on_empty_action = Oe_retry | Oe_warn | Oe_fail | Oe_skip

record validation_config =
  vc_required_fields :: "string list"
  vc_min_results :: nat
  vc_on_empty :: on_empty_action

datatype validation_failure = Too_few nat nat | Empty_field string nat

record validation_result =
  vr_passed :: bool
  vr_action :: on_empty_action
  vr_message :: "validation_failure option"

type_synonym scrape_record = "(string \<times> field_value) list"

definition is_blank_char :: "char \<Rightarrow> bool" where
  "is_blank_char ch \<longleftrightarrow> ch \<in> {CHR '' '', CHR 0x09, CHR 0x0A, CHR 0x0B, CHR 0x0C, CHR 0x0D, CHR 0x1C, CHR 0x1D, CHR 0x1E, CHR 0x1F, CHR 0x85, CHR 0xA0}"

definition has_text :: "string \<Rightarrow> bool" where
  "has_text s \<longleftrightarrow> list_ex (\<lambda>ch. \<not> is_blank_char ch) s"

definition item_present :: "field_value \<Rightarrow> bool" where
  "item_present v = (case v of Absent \<Rightarrow> False | Text s \<Rightarrow> has_text s | _ \<Rightarrow> True)"

definition field_present :: "field_value \<Rightarrow> bool" where
  "field_present v = (case v of Absent \<Rightarrow> False | Text s \<Rightarrow> has_text s
     | Items xs \<Rightarrow> list_ex item_present xs | Other \<Rightarrow> True)"

definition get_field :: "string \<Rightarrow> scrape_record \<Rightarrow> field_value" where
  "get_field f r = (case map_of r f of None \<Rightarrow> Absent | Some v \<Rightarrow> v)"

definition hidden_price_visibilities :: "string list" where
  "hidden_price_visibilities = [''map'', ''cart_only'', ''call_for_price'']"

definition has_required_field :: "string \<Rightarrow> scrape_record \<Rightarrow> bool" where
  "has_required_field f r \<longleftrightarrow> field_present (get_field f r)
     \<or> (f = ''price'' \<and> (case get_field ''pricing_visibility'' r of
            Text s \<Rightarrow> s \<in> set hidden_price_visibilities | _ \<Rightarrow> False))"

fun first_missing :: "string list \<Rightarrow> scrape_record list \<Rightarrow> (string \<times> nat) option" where
  "first_missing [] data = None"
| "first_missing (f # fs) data =
     (case List.find (\<lambda>i. \<not> has_required_field f (data ! i)) [0..<length data] of
        Some i \<Rightarrow> Some (f, i)
      | None \<Rightarrow> first_missing fs data)"

definition validate :: "validation_config \<Rightarrow> scrape_record list \<Rightarrow> validation_result" where
  "validate c data =
     (if length data < vc_min_results c
      then \<lparr>vr_passed = False, vr_action = vc_on_empty c, vr_message = Some (Too_few (vc_min_results c) (length data))\<rparr>
      else case first_missing (vc_required_fields c) data of
        Some (f, i) \<Rightarrow> \<lparr>vr_passed = False, vr_action = vc_on_empty c, vr_message = Some (Empty_field f i)\<rparr>
      | None \<Rightarrow> \<lparr>vr_passed = True, vr_action = vc_on_empty c, vr_message = None\<rparr>)"

section \<open>Circuit breaker\<close>

datatype circuit_state = Closed | Open | Half_open

record circuit_probe =
  pr_domain :: string
  pr_generation :: nat

record domain_circuit =
  cstate :: circuit_state
  failures :: nat
  opened_at :: rat
  generation :: nat
  last_accessed_at :: rat

record breaker =
  max_failures :: nat
  cooldown :: rat
  max_domains :: nat
  inactive_ttl :: rat
  circuits :: "(string \<times> domain_circuit) list"

definition init_breaker :: "int \<Rightarrow> rat \<Rightarrow> int \<Rightarrow> rat \<Rightarrow> string + breaker" where
  "init_breaker fails cool domains ttl =
     (if fails < 1 then Inl ''max_consecutive_failures must be positive''
      else if cool < 0 then Inl ''cooldown_seconds cannot be negative''
      else if domains < 1 then Inl ''max_domains must be positive''
      else if ttl \<le> 0 then Inl ''inactive_ttl_seconds must be positive''
      else Inr \<lparr>max_failures = nat fails, cooldown = cool, max_domains = nat domains,
             inactive_ttl = ttl, circuits = []\<rparr>)"

definition lookup :: "breaker \<Rightarrow> string \<Rightarrow> domain_circuit option" where
  "lookup b d = map_of (circuits b) d"

definition put :: "string \<Rightarrow> domain_circuit \<Rightarrow> breaker \<Rightarrow> breaker" where
  "put d x b = b\<lparr>circuits := (if d \<in> fst ` set (circuits b)
     then map (\<lambda>(k, y). if k = d then (k, x) else (k, y)) (circuits b) else circuits b @ [(d, x)])\<rparr>"

definition pop :: "string \<Rightarrow> breaker \<Rightarrow> breaker" where
  "pop d b = b\<lparr>circuits := filter (\<lambda>(k, _). k \<noteq> d) (circuits b)\<rparr>"

definition prune_inactive_closed :: "rat \<Rightarrow> breaker \<Rightarrow> breaker" where
  "prune_inactive_closed now b = b\<lparr>circuits :=
     filter (\<lambda>(_, x). \<not> (cstate x = Closed \<and> now - last_accessed_at x \<ge> inactive_ttl b)) (circuits b)\<rparr>"

definition make_room_for_closed_state :: "breaker \<Rightarrow> breaker" where
  "make_room_for_closed_state b =
     (if length (circuits b) < max_domains b then b
      else let candidates = map (\<lambda>(d, x). (last_accessed_at x, d)) (filter (\<lambda>(_, x). cstate x = Closed) (circuits b))
           in if candidates = [] then b else pop (snd (Min (set candidates))) b)"

definition probe_matches :: "domain_circuit \<Rightarrow> string \<Rightarrow> circuit_probe option \<Rightarrow> bool" where
  "probe_matches x d p = (cstate x = Half_open \<and> (case p of None \<Rightarrow> False
     | Some q \<Rightarrow> pr_domain q = d \<and> pr_generation q = generation x))"

datatype check_result = Admitted "circuit_probe option" | Circuit_open rat

definition check :: "string \<Rightarrow> rat \<Rightarrow> breaker \<Rightarrow> check_result \<times> breaker" where
  "check d now b0 = (let b = prune_inactive_closed now b0 in
     case lookup b d of
       None \<Rightarrow> (Admitted None, b)
     | Some x \<Rightarrow>
         if cstate x = Closed then (Admitted None, put d (x\<lparr>last_accessed_at := now\<rparr>) b)
         else let x1 = x\<lparr>last_accessed_at := now\<rparr>; elapsed = now - opened_at x
              in if cstate x = Open \<and> elapsed \<ge> cooldown b
                 then (Admitted (Some \<lparr>pr_domain = d, pr_generation = generation x + 1\<rparr>),
                       put d (x1\<lparr>cstate := Half_open, generation := generation x + 1\<rparr>) b)
                 else (Circuit_open (max 0 (cooldown b - elapsed)), put d x1 b))"

definition record_success :: "string \<Rightarrow> circuit_probe option \<Rightarrow> rat \<Rightarrow> breaker \<Rightarrow> breaker" where
  "record_success d p now b0 = (let b = prune_inactive_closed now b0 in
     case lookup b d of
       None \<Rightarrow> b
     | Some x \<Rightarrow> if cstate x = Closed then pop d b
         else if cstate x = Half_open \<and> probe_matches x d p then pop d b
         else put d (x\<lparr>last_accessed_at := now\<rparr>) b)"

definition record_failure :: "string \<Rightarrow> circuit_probe option \<Rightarrow> rat \<Rightarrow> breaker \<Rightarrow> breaker" where
  "record_failure d p now b0 = (let b = prune_inactive_closed now b0;
       fail = (\<lambda>x b. if cstate x = Half_open
           then (if \<not> probe_matches x d p then put d x b
                 else put d (x\<lparr>cstate := Open, failures := max_failures b, opened_at := now\<rparr>) b)
           else if cstate x = Open then put d x b
           else let x1 = x\<lparr>failures := failures x + 1\<rparr>
                in put d (if failures x1 \<ge> max_failures b then x1\<lparr>cstate := Open, opened_at := now\<rparr> else x1) b)
     in case lookup b d of
       Some x \<Rightarrow> fail (x\<lparr>last_accessed_at := now\<rparr>) b
     | None \<Rightarrow> (let b1 = make_room_for_closed_state b
         in if length (circuits b1) \<ge> max_domains b1 then b1
            else fail \<lparr>cstate = Closed, failures = 0, opened_at = 0, generation = 0, last_accessed_at = now\<rparr> b1))"

definition abort_probe :: "string \<Rightarrow> circuit_probe option \<Rightarrow> rat \<Rightarrow> breaker \<Rightarrow> breaker" where
  "abort_probe d p now b0 = (let b = prune_inactive_closed now b0 in
     case lookup b d of
       None \<Rightarrow> b
     | Some x \<Rightarrow> if \<not> probe_matches x d p then b
         else put d (x\<lparr>cstate := Open, last_accessed_at := now, opened_at := now - cooldown b\<rparr>) b)"

definition circuit_state_of :: "string \<Rightarrow> rat \<Rightarrow> breaker \<Rightarrow> circuit_state \<times> breaker" where
  "circuit_state_of d now b0 = (let b = prune_inactive_closed now b0 in
     (case lookup b d of None \<Rightarrow> Closed | Some x \<Rightarrow> cstate x, b))"

section \<open>Properties of the retry loop\<close>

lemma execute_from_calls:
  "attempt \<le> rc_max_attempts c \<Longrightarrow>
     rr_calls (execute_from c cancelled sf fn attempt x calls ds) \<le> calls + (rc_max_attempts c - attempt)"
proof (induction c cancelled sf fn attempt x calls ds rule: execute_from.induct)
  case (1 c cancelled sf fn attempt x calls ds)
  show ?case
    apply (subst execute_from.simps)
    using 1 by (auto simp: retry_end_def split: option.splits attempt.splits)
qed

lemma execute_from_delays:
  "\<forall>d \<in> set ds. d \<le> rc_backoff_max c \<Longrightarrow>
     \<forall>d \<in> set (rr_delays (execute_from c cancelled sf fn attempt x calls ds)). d \<le> rc_backoff_max c"
proof (induction c cancelled sf fn attempt x calls ds rule: execute_from.induct)
  case (1 c cancelled sf fn attempt x calls ds)
  show ?case
    apply (subst execute_from.simps)
    using 1 by (auto simp: retry_end_def retry_delay_def split: option.splits attempt.splits)
qed

text \<open>A run in which nothing cancels and no sleep raises, from an attempt on.\<close>

lemma execute_from_success:
  assumes "\<And>i s. \<not> cancelled i s" and "\<And>i. \<not> sf i" and "fn n = Returned v" and "n < rc_max_attempts c"
    and "\<And>i. i < n \<Longrightarrow> \<exists>x. fn i = Raised_retryable x \<and> \<not> not_retried x"
  shows "attempt \<le> n \<Longrightarrow> rr_result (execute_from c cancelled sf fn attempt x calls ds) = Retry_returned v
    \<and> rr_calls (execute_from c cancelled sf fn attempt x calls ds) = calls + (n - attempt) + 1
    \<and> rr_delays (execute_from c cancelled sf fn attempt x calls ds) = ds @ map (retry_delay c) [attempt..<n]"
proof (induction "n - attempt" arbitrary: attempt x calls ds)
  case 0
  then have "attempt = n" by simp
  then show ?case
    by (subst (1 2 3) execute_from.simps) (use assms in \<open>simp add: retry_end_def\<close>)
next
  case (Suc k)
  then have lt: "attempt < n" by simp
  obtain y where y: "fn attempt = Raised_retryable y" "\<not> not_retried y" using assms(5) [OF lt] by auto
  have step: "execute_from c cancelled sf fn attempt x calls ds =
      execute_from c cancelled sf fn (Suc attempt) (Some y) (Suc calls) (ds @ [retry_delay c attempt])"
    by (subst execute_from.simps) (use assms(1,2,4) y lt in simp)
  have "[attempt..<n] = attempt # [Suc attempt..<n]" using lt by (rule upt_conv_Cons)
  then show ?case
    unfolding step using Suc(1) [of "Suc attempt" "Some y" "Suc calls" "ds @ [retry_delay c attempt]"] Suc(2) lt by simp
qed

text \<open>
  If attempt \<open>n\<close> is the first to succeed and all earlier ones failed retryably, the retry loop
  returns its value after exactly \<open>n + 1\<close> calls and sleeps the configured backoff before each retry;
  it never makes more than the configured number of attempts and no delay exceeds the maximum.
\<close>

theorem retry_returns_first_success:
  assumes "\<And>i s. \<not> cancelled i s" and "\<And>i. \<not> sf i" and "fn n = Returned v" and "n < rc_max_attempts c"
    and "\<And>i. i < n \<Longrightarrow> \<exists>x. fn i = Raised_retryable x \<and> \<not> not_retried x"
  shows "execute c cancelled sf fn = \<lparr>rr_result = Retry_returned v, rr_calls = n + 1, rr_delays = map (retry_delay c) [0..<n]\<rparr>
    \<and> (\<forall>d \<in> set (rr_delays (execute c cancelled sf fn)). d \<le> rc_backoff_max c)"
proof -
  let ?r = "execute_from c cancelled sf fn 0 None 0 []"
  have "?r = \<lparr>rr_result = rr_result ?r, rr_calls = rr_calls ?r, rr_delays = rr_delays ?r\<rparr>" by simp
  then show ?thesis
    using execute_from_success [of cancelled sf fn n v c 0 None 0 "[]"] assms execute_from_delays [of "[]" c cancelled sf fn 0 None 0]
    by (simp add: execute_def)
qed

theorem retry_returns_first_success_witness:
  "execute \<lparr>rc_max_attempts = 3, rc_backoff = Exponential, rc_backoff_max = 60\<rparr> (\<lambda>_ _. False) (\<lambda>_. False)
     (\<lambda>i. if i = 2 then Returned ''page'' else Raised_retryable (Retryable_status 503))
   = \<lparr>rr_result = Retry_returned ''page'', rr_calls = 3, rr_delays = [1, 2]\<rparr>"
  using retry_returns_first_success [of "\<lambda>_ _. False" "\<lambda>_. False"
      "\<lambda>i. if i = 2 then Returned ''page'' else Raised_retryable (Retryable_status 503)" 2 "''page''"
      "\<lparr>rc_max_attempts = 3, rc_backoff = Exponential, rc_backoff_max = 60\<rparr>"]
  by (simp add: not_retried_def retry_delay_def upt_rec numeral_2_eq_2)

text \<open>
  The loop never calls the function more often than the configured number of attempts, and an
  authentication failure (401, 403, 407) is raised at once, without another attempt.
\<close>

theorem retry_attempts_bounded:
  "rr_calls (execute c cancelled sf fn) \<le> rc_max_attempts c
   \<and> (0 < rc_max_attempts c \<and> \<not> cancelled 0 ''before_retry_attempt'' \<and> fn 0 = Raised_retryable (Retryable_status s)
        \<and> s \<in> {401, 403, 407} \<longrightarrow>
      execute c cancelled sf fn = \<lparr>rr_result = Retry_raised (Retryable_status s), rr_calls = 1, rr_delays = []\<rparr>)"
proof -
  have "rr_calls (execute c cancelled sf fn) \<le> rc_max_attempts c"
    using execute_from_calls [of 0 c cancelled sf fn None 0 "[]"] by (simp add: execute_def)
  then show ?thesis
    unfolding execute_def by (subst (2) execute_from.simps) (auto simp: not_retried_def retry_end_def)
qed

theorem retry_attempts_bounded_witness:
  "rr_calls (execute \<lparr>rc_max_attempts = 3, rc_backoff = Fixed, rc_backoff_max = 5\<rparr> (\<lambda>_ _. False) (\<lambda>_. False)
     (\<lambda>_. Raised_retryable (Retryable_status 403) :: string attempt)) = 1"
  using retry_attempts_bounded [of "\<lparr>rc_max_attempts = 3, rc_backoff = Fixed, rc_backoff_max = 5\<rparr>" "\<lambda>_ _. False" "\<lambda>_. False"
      "\<lambda>_. Raised_retryable (Retryable_status 403) :: string attempt" 403] by simp

section \<open>Properties of the validator\<close>

lemma first_missing_None:
  "first_missing fs data = None \<longleftrightarrow> (\<forall>f \<in> set fs. \<forall>r \<in> set data. has_required_field f r)"
proof (induction fs)
  case (Cons f fs)
  have "(\<forall>i \<in> set [0..<length data]. has_required_field f (data ! i)) \<longleftrightarrow> (\<forall>r \<in> set data. has_required_field f r)"
    by (auto simp: all_set_conv_all_nth)
  then have "List.find (\<lambda>i. \<not> has_required_field f (data ! i)) [0..<length data] = None
      \<longleftrightarrow> (\<forall>r \<in> set data. has_required_field f r)"
    by (auto simp: find_None_iff)
  with Cons show ?case by (auto split: option.splits)
qed simp

text \<open>
  Validation passes exactly when there are enough records and every required field is
  present in every record.
\<close>

theorem validate_passes_iff:
  "vr_passed (validate c data) \<longleftrightarrow>
     vc_min_results c \<le> length data
     \<and> (\<forall>f \<in> set (vc_required_fields c). \<forall>r \<in> set data. has_required_field f r)"
  by (auto simp: validate_def first_missing_None [symmetric] split: option.splits)

theorem validate_passes_iff_witness:
  "vr_passed (validate \<lparr>vc_required_fields = [''price''], vc_min_results = 1, vc_on_empty = Oe_fail\<rparr>
     [[(''pricing_visibility'', Text ''map'')]])"
  by (subst validate_passes_iff) code_simp

end
