(* ===== verification/Circuit_Breaker.thy ===== *)
theory Circuit_Breaker
  imports Resilience
begin

text \<open>
  Correctness of the circuit breaker of \<open>Resilience\<close>: the memory bound, the protection of
  open circuits, the single half-open probe and the trip after consecutive failures.
  \<open>breaker_op\<close> lists the methods, so that the theorems hold for any interleaving of callers.
\<close>

datatype breaker_op =
    Op_check string
  | Op_success string "circuit_probe option"
  | Op_failure string "circuit_probe option"
  | Op_abort string "circuit_probe option"
  | Op_state string

definition apply_op :: "breaker_op \<times> rat \<Rightarrow> breaker \<Rightarrow> check_result option \<times> breaker" where
  "apply_op a b = (case a of
       (Op_check d, t) \<Rightarrow> (let (r, b') = check d t b in (Some r, b'))
     | (Op_success d p, t) \<Rightarrow> (None, record_success d p t b)
     | (Op_failure d p, t) \<Rightarrow> (None, record_failure d p t b)
     | (Op_abort d p, t) \<Rightarrow> (None, abort_probe d p t b)
     | (Op_state d, t) \<Rightarrow> (None, snd (circuit_state_of d t b)))"

definition op_domain :: "breaker_op \<Rightarrow> string" where
  "op_domain a = (case a of Op_check d \<Rightarrow> d | Op_success d _ \<Rightarrow> d | Op_failure d _ \<Rightarrow> d
     | Op_abort d _ \<Rightarrow> d | Op_state d \<Rightarrow> d)"

definition wf_breaker :: "breaker \<Rightarrow> bool" where
  "wf_breaker b \<longleftrightarrow> distinct (map fst (circuits b)) \<and> length (circuits b) \<le> max_domains b
     \<and> (\<forall>(d, x) \<in> set (circuits b). cstate x = Closed \<longrightarrow> failures x < max_failures b)
     \<and> 0 < max_domains b"

section \<open>The dictionary\<close>

lemma map_of_replace:
  "map_of (map (\<lambda>(k, y). if k = d then (k, x) else (k, y)) l) k =
     (if k = d then map_option (\<lambda>_. x) (map_of l d) else map_of l k)"
  by (induction l) auto

lemma lookup_put: "lookup (put d x b) k = (if k = d then Some x else lookup b k)"
proof (cases "map_of (circuits b) d")
  case None
  then have "d \<notin> fst ` set (circuits b)" by (simp add: map_of_eq_None_iff)
  with None show ?thesis by (auto simp: lookup_def put_def map_add_def split: option.splits)
next
  case (Some y)
  then have "d \<in> fst ` set (circuits b)" by (metis domI dom_map_of_conv_image_fst)
  then show ?thesis by (simp add: lookup_def put_def map_of_replace Some)
qed

lemma lookup_pop: "lookup (pop d b) k = (if k = d then None else lookup b k)"
proof -
  have "map_of (filter (\<lambda>(k, _). k \<noteq> d) l) k = (if k = d then None else map_of l k)" for l :: "(string \<times> domain_circuit) list"
    by (induction l) auto
  then show ?thesis by (simp add: lookup_def pop_def)
qed

lemma map_of_filter_snd:
  "distinct (map fst l) \<Longrightarrow> map_of (filter (\<lambda>(_, x). P x) l) k = (case map_of l k of None \<Rightarrow> None | Some x \<Rightarrow> if P x then Some x else None)"
  by (induction l) (auto split: option.splits simp: image_iff map_of_eq_None_iff)

lemma lookup_prune:
  "wf_breaker b \<Longrightarrow> lookup (prune_inactive_closed now b) k = (case lookup b k of None \<Rightarrow> None
     | Some x \<Rightarrow> if cstate x = Closed \<and> now - last_accessed_at x \<ge> inactive_ttl b then None else Some x)"
  unfolding lookup_def prune_inactive_closed_def wf_breaker_def
  by (auto simp: map_of_filter_snd split: option.splits)

lemma breaker_fields [simp]:
  "max_failures (put d x b) = max_failures b" "cooldown (put d x b) = cooldown b" "max_domains (put d x b) = max_domains b"
  "max_failures (pop d b) = max_failures b" "cooldown (pop d b) = cooldown b" "max_domains (pop d b) = max_domains b"
  "max_failures (prune_inactive_closed t b) = max_failures b" "cooldown (prune_inactive_closed t b) = cooldown b"
  "max_domains (prune_inactive_closed t b) = max_domains b" "inactive_ttl (prune_inactive_closed t b) = inactive_ttl b"
  "inactive_ttl (put d x b) = inactive_ttl b" "inactive_ttl (pop d b) = inactive_ttl b"
  "max_failures (make_room_for_closed_state b) = max_failures b" "max_domains (make_room_for_closed_state b) = max_domains b"
  "cooldown (make_room_for_closed_state b) = cooldown b" "inactive_ttl (make_room_for_closed_state b) = inactive_ttl b"
  by (simp_all add: put_def pop_def prune_inactive_closed_def make_room_for_closed_state_def Let_def)

lemma distinct_filter_keys: "distinct (map fst l) \<Longrightarrow> distinct (map fst (filter P l))"
  by (induction l) auto

lemma wf_pop: "wf_breaker b \<Longrightarrow> wf_breaker (pop d b)"
  by (auto simp: wf_breaker_def pop_def distinct_filter_keys intro: le_trans [OF length_filter_le])

lemma wf_prune: "wf_breaker b \<Longrightarrow> wf_breaker (prune_inactive_closed t b)"
  by (auto simp: wf_breaker_def prune_inactive_closed_def distinct_filter_keys intro: le_trans [OF length_filter_le])

lemma wf_make_room: "wf_breaker b \<Longrightarrow> wf_breaker (make_room_for_closed_state b)"
  by (simp add: make_room_for_closed_state_def wf_pop Let_def)

lemma map_fst_update: "map (fst \<circ> (\<lambda>(k, y). if k = d then (k, x) else (k, y))) l = map fst l"
  by (induction l) auto

lemma wf_put:
  assumes "wf_breaker b" and "cstate x = Closed \<longrightarrow> failures x < max_failures b"
    and "lookup b d = None \<longrightarrow> length (circuits b) < max_domains b"
  shows "wf_breaker (put d x b)"
proof (cases "d \<in> fst ` set (circuits b)")
  case True
  then show ?thesis using assms(1,2)
    by (auto simp: wf_breaker_def put_def map_fst_update split: if_splits)
next
  case False
  then have "length (circuits b) < max_domains b"
    using assms(3) by (simp add: lookup_def map_of_eq_None_iff)
  with False assms(1,2) show ?thesis by (auto simp: wf_breaker_def put_def)
qed

lemma wf_lookup: "wf_breaker b \<Longrightarrow> lookup b d = Some x \<Longrightarrow> cstate x = Closed \<longrightarrow> failures x < max_failures b"
  unfolding wf_breaker_def lookup_def by (auto dest!: map_of_SomeD)

section \<open>Every method keeps the breaker well-formed\<close>

lemma wf_check: "wf_breaker b \<Longrightarrow> wf_breaker (snd (check d t b))"
  by (auto simp: check_def Let_def wf_prune intro!: wf_put split: option.splits
      dest: wf_lookup [OF wf_prune])

lemma wf_record_success: "wf_breaker b \<Longrightarrow> wf_breaker (record_success d p t b)"
  by (auto simp: record_success_def Let_def wf_prune wf_pop intro!: wf_put split: option.splits
      dest: wf_lookup [OF wf_prune])

lemma wf_abort_probe: "wf_breaker b \<Longrightarrow> wf_breaker (abort_probe d p t b)"
  by (auto simp: abort_probe_def Let_def wf_prune intro!: wf_put split: option.splits)

lemma wf_record_failure: "wf_breaker b \<Longrightarrow> 0 < max_failures b \<Longrightarrow> wf_breaker (record_failure d p t b)"
  unfolding record_failure_def Let_def
  by (cases "lookup (prune_inactive_closed t b) d")
    (auto intro!: wf_put wf_make_room wf_prune dest: wf_lookup [OF wf_prune])

lemma wf_apply_op: "wf_breaker b \<Longrightarrow> 0 < max_failures b \<Longrightarrow> wf_breaker (snd (apply_op a b))"
  by (auto simp: apply_op_def circuit_state_of_def Let_def wf_prune wf_check wf_record_success wf_record_failure wf_abort_probe
      split: prod.splits breaker_op.splits)
    (metis snd_conv wf_check)

lemma apply_op_fields:
  "max_failures (snd (apply_op a b)) = max_failures b \<and> max_domains (snd (apply_op a b)) = max_domains b"
  by (auto simp: apply_op_def check_def record_success_def record_failure_def abort_probe_def circuit_state_of_def Let_def
      split: prod.splits breaker_op.splits option.splits)

lemma max_failures_apply_op: "max_failures (snd (apply_op a b)) = max_failures b"
  by (simp add: apply_op_fields)

interpretation breaker: invariant_system
  "\<lambda>b. \<exists>f c m t. init_breaker f c m t = Inr b"
  "\<lambda>b b'. \<exists>a. b' = snd (apply_op a b)"
  "\<lambda>b. wf_breaker b \<and> 0 < max_failures b"
proof
  fix b assume "\<exists>f c m t. init_breaker f c m t = Inr b"
  then show "wf_breaker b \<and> 0 < max_failures b"
    by (auto simp: init_breaker_def wf_breaker_def split: if_splits)
next
  fix b b' assume "wf_breaker b \<and> 0 < max_failures b" and "\<exists>a. b' = snd (apply_op a b)"
  then show "wf_breaker b' \<and> 0 < max_failures b'"
    by (auto simp: wf_apply_op max_failures_apply_op)
qed

section \<open>Properties\<close>

fun run_ops :: "(breaker_op \<times> rat) list \<Rightarrow> breaker \<Rightarrow> check_result list \<times> breaker" where
  "run_ops [] b = ([], b)"
| "run_ops (a # as) b = (let (r, b1) = apply_op a b; (rs, b2) = run_ops as b1
     in (case r of None \<Rightarrow> rs | Some x \<Rightarrow> x # rs, b2))"

lemma run_ops_reachable: "(\<lambda>b b'. \<exists>a. b' = snd (apply_op a b))\<^sup>*\<^sup>* b (snd (run_ops as b))"
proof (induction as arbitrary: b)
  case (Cons a as)
  have "snd (run_ops (a # as) b) = snd (run_ops as (snd (apply_op a b)))"
    by (simp add: Let_def split: prod.splits)
  then show ?case using Cons.IH [of "snd (apply_op a b)"]
    by (metis (mono_tags, lifting) converse_rtranclp_into_rtranclp)
qed simp

lemma run_ops_max_domains: "max_domains (snd (run_ops as b)) = max_domains b"
proof (induction as arbitrary: b)
  case (Cons a as)
  then show ?case using apply_op_fields [of a b] by (auto simp: Let_def split: prod.splits) (metis snd_conv)
qed simp

text \<open>
  The breaker remembers at most \<^verbatim>\<open>max_domains\<close> domains, whatever the callers do.
\<close>

theorem breaker_memory_bounded:
  assumes "init_breaker fails cool domains ttl = Inr b"
  shows "length (circuits (snd (run_ops as b))) \<le> nat domains"
proof -
  have "wf_breaker (snd (run_ops as b))"
    using breaker.reachable_inv [OF _ run_ops_reachable] assms by blast
  moreover have "max_domains (snd (run_ops as b)) = nat domains"
    using assms run_ops_max_domains [of as b] by (auto simp: init_breaker_def split: if_splits)
  ultimately show ?thesis by (simp add: wf_breaker_def)
qed

theorem breaker_memory_bounded_witness:
  "length (circuits (snd (run_ops [(Op_failure ''a'' None, 1), (Op_failure ''b'' None, 2), (Op_failure ''c'' None, 3)]
     \<lparr>max_failures = 2, cooldown = 5, max_domains = 2, inactive_ttl = 100, circuits = []\<rparr>))) \<le> 2"
proof -
  have "init_breaker 2 5 2 100 = Inr \<lparr>max_failures = 2, cooldown = 5, max_domains = 2, inactive_ttl = 100, circuits = []\<rparr>"
    by (simp add: init_breaker_def)
  from breaker_memory_bounded [OF this] show ?thesis by (simp del: run_ops.simps)
qed

text \<open>
  The half-open circuit of domain \<open>d\<close> at generation \<open>g\<close>, and the calls that may end it: those
  that present its probe.
\<close>

definition half_open_at :: "string \<Rightarrow> nat \<Rightarrow> breaker \<Rightarrow> bool" where
  "half_open_at d g b \<longleftrightarrow> (\<exists>x. lookup b d = Some x \<and> cstate x = Half_open \<and> generation x = g)"

definition presents :: "string \<Rightarrow> nat \<Rightarrow> breaker_op \<Rightarrow> bool" where
  "presents d g a \<longleftrightarrow> (\<exists>p. a \<in> {Op_success d (Some p), Op_failure d (Some p), Op_abort d (Some p)}
     \<and> pr_domain p = d \<and> pr_generation p = g)"

lemma half_open_prune: "wf_breaker b \<Longrightarrow> half_open_at d g b \<Longrightarrow> half_open_at d g (prune_inactive_closed t b)"
  by (auto simp: half_open_at_def lookup_prune)

lemma half_open_put: "half_open_at d g b \<Longrightarrow> (k = d \<longrightarrow> cstate x = Half_open \<and> generation x = g) \<Longrightarrow> half_open_at d g (put k x b)"
  by (auto simp: half_open_at_def lookup_put)

lemma half_open_pop: "half_open_at d g b \<Longrightarrow> k \<noteq> d \<Longrightarrow> half_open_at d g (pop k b)"
  by (auto simp: half_open_at_def lookup_pop)

lemma evicted_is_closed:
  assumes "map (\<lambda>(d, x). (last_accessed_at x, d)) (filter (\<lambda>(_, x). cstate x = Closed) (circuits b)) = cs" and "cs \<noteq> []"
    and "distinct (map fst (circuits b))"
  shows "\<exists>x. lookup b (snd (Min (set cs))) = Some x \<and> cstate x = Closed"
proof -
  have "Min (set cs) \<in> set cs" using assms(2) by (intro Min_in) auto
  then obtain d x where dx: "(d, x) \<in> set (circuits b)" "cstate x = Closed" "Min (set cs) = (last_accessed_at x, d)"
    by (auto simp: assms(1) [symmetric])
  then have "lookup b d = Some x" using assms(3) by (simp add: lookup_def)
  with dx show ?thesis by simp
qed

lemma half_open_make_room: "wf_breaker b \<Longrightarrow> half_open_at d g b \<Longrightarrow> half_open_at d g (make_room_for_closed_state b)"
proof (cases "length (circuits b) < max_domains b")
  case False
  define cs where "cs = map (\<lambda>(d, x). (last_accessed_at x, d)) (filter (\<lambda>(_, x). cstate x = Closed) (circuits b))"
  assume wf: "wf_breaker b" and h: "half_open_at d g b"
  have "snd (Min (set cs)) \<noteq> d" if "cs \<noteq> []"
    using evicted_is_closed [OF cs_def [symmetric] that] wf h by (auto simp: wf_breaker_def half_open_at_def)
  then show ?thesis
    using False h by (auto simp: make_room_for_closed_state_def Let_def cs_def [symmetric] intro: half_open_pop)
qed (simp add: make_room_for_closed_state_def)

lemma half_open_kept:
  assumes "wf_breaker b" and "half_open_at d g b" and "\<not> presents d g (fst a)"
  shows "half_open_at d g (snd (apply_op a b)) \<and> (\<forall>t. a = (Op_check d, t) \<longrightarrow> (\<exists>r. fst (apply_op a b) = Some (Circuit_open r)))"
proof -
  obtain op t where a: "a = (op, t)" by (cases a)
  let ?b = "prune_inactive_closed t b"
  have h: "half_open_at d g ?b" and wf: "wf_breaker ?b"
    using half_open_prune [OF assms(1,2)] wf_prune [OF assms(1)] by auto
  then obtain x where x: "lookup ?b d = Some x" "cstate x = Half_open" "generation x = g" by (auto simp: half_open_at_def)
  show ?thesis
  proof (cases op)
    case (Op_check k)
    then show ?thesis using h x
      by (auto simp: a apply_op_def check_def Let_def intro!: half_open_put split: option.splits)
  next
    case (Op_success k p)
    then show ?thesis using h x assms(3)
      by (auto simp: a apply_op_def record_success_def Let_def presents_def probe_matches_def
          intro!: half_open_put half_open_pop split: option.splits)
  next
    case (Op_failure k p)
    then show ?thesis using h x assms(3) half_open_make_room [OF wf h]
      by (auto simp: a apply_op_def record_failure_def Let_def presents_def probe_matches_def
          intro!: half_open_put split: option.splits)
  next
    case (Op_abort k p)
    then show ?thesis using h x assms(3)
      by (auto simp: a apply_op_def abort_probe_def Let_def presents_def probe_matches_def
          intro!: half_open_put split: option.splits)
  next
    case (Op_state k)
    then show ?thesis using h by (simp add: a apply_op_def circuit_state_of_def Let_def)
  qed
qed

lemma check_grants:
  assumes "check d t b = (Admitted (Some p), b')"
  shows "half_open_at d (pr_generation p) b' \<and> pr_domain p = d"
  using assms by (auto simp: check_def Let_def half_open_at_def lookup_put split: option.splits if_splits)

lemma half_open_kept_run:
  assumes "wf_breaker b" and "0 < max_failures b" and "half_open_at d g b" and "\<forall>a \<in> set as. \<not> presents d g (fst a)"
  shows "half_open_at d g (snd (run_ops as b)) \<and> wf_breaker (snd (run_ops as b))"
  using assms
proof (induction as arbitrary: b)
  case (Cons a as)
  have "half_open_at d g (snd (apply_op a b))" using half_open_kept [OF Cons.prems(1,3), of a] Cons.prems(4) by simp
  moreover have "snd (run_ops (a # as) b) = snd (run_ops as (snd (apply_op a b)))" by (simp add: Let_def split: prod.splits)
  ultimately show ?case
    using Cons.IH [of "snd (apply_op a b)"] Cons.prems by (simp add: wf_apply_op max_failures_apply_op)
qed simp

text \<open>
  Claim C26. A half-open circuit admits one caller: after a probe was granted, every further admission
  check of the domain is refused until some call presents that probe, whatever else the callers do.
\<close>

theorem sole_half_open_probe:
  assumes "wf_breaker b" and "0 < max_failures b" and "check d t b = (Admitted (Some p), b')"
    and "\<forall>a \<in> set as. \<not> presents d (pr_generation p) (fst a)"
  shows "\<exists>r. fst (check d t' (snd (run_ops as b'))) = Circuit_open r"
proof -
  have "wf_breaker b'" "max_failures b' = max_failures b"
    using wf_check [OF assms(1), of d t] apply_op_fields [of "(Op_check d, t)" b] assms(3)
    by (auto simp: apply_op_def)
  then have "half_open_at d (pr_generation p) (snd (run_ops as b')) \<and> wf_breaker (snd (run_ops as b'))"
    using half_open_kept_run [OF _ _ _ assms(4)] check_grants [OF assms(3)] assms(2) by simp
  then show ?thesis
    using half_open_kept [of "snd (run_ops as b')" d "pr_generation p" "(Op_check d, t')"]
    by (auto simp: presents_def apply_op_def split: prod.splits)
qed

definition sample_breaker :: breaker where
  "sample_breaker = snd (run_ops [(Op_failure ''d'' None, 1), (Op_failure ''d'' None, 2)]
     \<lparr>max_failures = 2, cooldown = 5, max_domains = 2, inactive_ttl = 100, circuits = []\<rparr>)"

theorem sole_half_open_probe_witness:
  "\<exists>r. fst (check ''d'' 50 (snd (run_ops [(Op_success ''d'' None, 9), (Op_failure ''e'' None, 9)] (snd (check ''d'' 8 sample_breaker)))))
     = Circuit_open r"
proof (rule sole_half_open_probe)
  show "check ''d'' 8 sample_breaker = (Admitted (Some \<lparr>pr_domain = ''d'', pr_generation = 1\<rparr>), snd (check ''d'' 8 sample_breaker))"
    by code_simp
  show "wf_breaker sample_breaker" "0 < max_failures sample_breaker" by code_simp+
  show "\<forall>a \<in> set [(Op_success ''d'' None, 9 :: rat), (Op_failure ''e'' None, 9)].
      \<not> presents ''d'' (pr_generation \<lparr>pr_domain = ''d'', pr_generation = 1\<rparr>) (fst a)"
    by (simp add: presents_def)
qed

section \<open>Tripping\<close>

definition fail_at :: "string \<Rightarrow> rat list \<Rightarrow> breaker \<Rightarrow> breaker" where
  "fail_at d ts b = fold (record_failure d None) ts b"

lemma fail_at_simps: "fail_at d [] b = b" "fail_at d (t # ts) b = fail_at d ts (record_failure d None t b)"
  by (simp_all add: fail_at_def)

lemma record_failure_closed:
  assumes "wf_breaker b" and "lookup b d = Some x" and "cstate x = Closed" and "t - last_accessed_at x < inactive_ttl b"
  shows "lookup (record_failure d None t b) d = Some (if failures x + 1 \<ge> max_failures b
      then x\<lparr>last_accessed_at := t, failures := failures x + 1, cstate := Open, opened_at := t\<rparr>
      else x\<lparr>last_accessed_at := t, failures := failures x + 1\<rparr>)"
proof -
  have "lookup (prune_inactive_closed t b) d = Some x" using assms by (simp add: lookup_prune)
  then show ?thesis using assms(3) by (simp add: record_failure_def Let_def lookup_put)
qed

lemma record_failure_fields:
  "inactive_ttl (record_failure d p t b) = inactive_ttl b \<and> max_failures (record_failure d p t b) = max_failures b
   \<and> max_domains (record_failure d p t b) = max_domains b \<and> cooldown (record_failure d p t b) = cooldown b"
  by (auto simp: record_failure_def Let_def split: option.splits)

lemma fail_chain:
  assumes "wf_breaker b" and "0 < max_failures b" and "lookup b d = Some x" and "cstate x = Closed"
    and "failures x + length ts = max_failures b" and "ts \<noteq> []"
    and "successively (\<lambda>s t. t - s < inactive_ttl b) (last_accessed_at x # ts)"
  shows "\<exists>y. lookup (fail_at d ts b) d = Some y \<and> cstate y = Open \<and> opened_at y = last ts \<and> cooldown (fail_at d ts b) = cooldown b
    \<and> wf_breaker (fail_at d ts b)"
  using assms
proof (induction ts arbitrary: b x)
  case (Cons t ts)
  let ?b = "record_failure d None t b"
  have gap: "t - last_accessed_at x < inactive_ttl b" using Cons.prems(7) by (cases ts) auto
  note look = record_failure_closed [OF Cons.prems(1,3,4) gap]
  have wf: "wf_breaker ?b" by (rule wf_record_failure [OF Cons.prems(1,2)])
  show ?case
  proof (cases ts)
    case Nil
    then show ?thesis using look wf Cons.prems(5) record_failure_fields [of d None t b] by (simp add: fail_at_simps)
  next
    case (Cons u us)
    then have "lookup ?b d = Some (x\<lparr>last_accessed_at := t, failures := failures x + 1\<rparr>)"
      using look Cons.prems(5) by simp
    from Cons.IH [OF wf _ this] show ?thesis
      using Cons.prems Cons record_failure_fields [of d None t b] by (simp add: fail_at_simps)
  qed
qed simp

text \<open>
  A domain trips after the configured number of consecutive failures: from an unknown domain with
  room for it, that many failures without an idle gap open the circuit, and admission is refused
  with the remaining cooldown until it has passed.
\<close>

theorem breaker_trips:
  assumes "wf_breaker b" and "lookup b d = None" and "length (circuits b) < max_domains b" and "0 < inactive_ttl b"
    and "length ts = max_failures b" and "ts \<noteq> []" and "successively (\<lambda>s t. t - s < inactive_ttl b) ts"
    and "now - last ts < cooldown b" and "last ts \<le> now"
  shows "fst (check d now (fail_at d ts b)) = Circuit_open (cooldown b - (now - last ts))"
proof -
  obtain t us where ts: "ts = t # us" using assms(6) by (cases ts) auto
  let ?b = "record_failure d None t b"
  have pos: "0 < max_failures b" using assms(5) ts by simp
  have room: "make_room_for_closed_state (prune_inactive_closed t b) = prune_inactive_closed t b"
    "length (circuits (prune_inactive_closed t b)) < max_domains b"
    using assms(3) le_less_trans [OF length_filter_le assms(3)]
    by (simp_all add: make_room_for_closed_state_def prune_inactive_closed_def)
  have none: "lookup (prune_inactive_closed t b) d = None" using assms(1,2) by (simp add: lookup_prune)
  define x where "x = \<lparr>cstate = Closed, failures = 0, opened_at = 0, generation = 0, last_accessed_at = t\<rparr>"
  have first: "lookup ?b d = Some (if 1 \<ge> max_failures b then x\<lparr>failures := 1, cstate := Open, opened_at := t\<rparr> else x\<lparr>failures := 1\<rparr>)"
    using room none by (simp add: record_failure_def Let_def lookup_put x_def)
  have wf: "wf_breaker ?b" by (rule wf_record_failure [OF assms(1) pos])
  note fields = record_failure_fields [of d None t b]
  have "\<exists>y. lookup (fail_at d ts b) d = Some y \<and> cstate y = Open \<and> opened_at y = last ts
      \<and> cooldown (fail_at d ts b) = cooldown b \<and> wf_breaker (fail_at d ts b)"
  proof (cases us)
    case Nil
    then show ?thesis using first wf fields assms(5) ts by (simp add: fail_at_simps)
  next
    case (Cons u vs)
    then have l: "lookup ?b d = Some (x\<lparr>failures := 1\<rparr>)" using first assms(5) ts by simp
    have "\<exists>y. lookup (fail_at d us ?b) d = Some y \<and> cstate y = Open \<and> opened_at y = last us
      \<and> cooldown (fail_at d us ?b) = cooldown ?b \<and> wf_breaker (fail_at d us ?b)"
      by (rule fail_chain [OF wf _ l]) (use pos fields assms(5,7) ts Cons in \<open>simp_all add: x_def\<close>)
    then show ?thesis using ts Cons fields by (simp add: fail_at_simps)
  qed
  then obtain y where y: "lookup (fail_at d ts b) d = Some y" "cstate y = Open" "opened_at y = last ts"
    "cooldown (fail_at d ts b) = cooldown b" "wf_breaker (fail_at d ts b)" by auto
  then have "lookup (prune_inactive_closed now (fail_at d ts b)) d = Some y" by (simp add: lookup_prune)
  then show ?thesis using y assms(8) by (simp add: check_def Let_def)
qed

theorem breaker_trips_witness:
  "fst (check ''d'' 4 (fail_at ''d'' [1, 2] \<lparr>max_failures = 2, cooldown = 5, max_domains = 2, inactive_ttl = 100, circuits = []\<rparr>))
     = Circuit_open 3"
proof -
  let ?b = "\<lparr>max_failures = 2, cooldown = 5, max_domains = 2, inactive_ttl = 100, circuits = []\<rparr>"
  have "wf_breaker ?b" "lookup ?b ''d'' = None" by (simp_all add: wf_breaker_def lookup_def)
  from breaker_trips [OF this, of "[1, 2]" 4] show ?thesis by simp
qed

end
