(* ===== verification/Timestamps.thy ===== *)
theory Timestamps
  imports Prelude
begin

text \<open>
  Stored timestamps, \<^verbatim>\<open>common/dt.py\<close>. \<open>fmt_dt\<close> writes the ISO text of an aware UTC
  \<^verbatim>\<open>datetime\<close> and \<open>parse_dt\<close> reads it back. SQLite compares the stored texts byte by
  byte; the theorems below show that this is the order of time, so that the stores' models may
  use \<open>instant\<close> for a stored timestamp.

  \<open>stamp\<close> holds the fields of a \<^verbatim>\<open>datetime\<close>, \<open>stamp_instant\<close> is its distance in microseconds
  from the first day of year 1 (the proleptic Gregorian ordinal of the Python library).
\<close>

record stamp =
  st_year :: nat
  st_month :: nat
  st_day :: nat
  st_hour :: nat
  st_minute :: nat
  st_second :: nat
  st_micro :: nat

definition leap_year :: "nat \<Rightarrow> bool" where
  "leap_year y \<longleftrightarrow> y mod 4 = 0 \<and> (y mod 100 \<noteq> 0 \<or> y mod 400 = 0)"

definition days_in_month :: "nat \<Rightarrow> nat \<Rightarrow> nat" where
  "days_in_month y m = (if m = 2 then (if leap_year y then 29 else 28) else if m \<in> {4, 6, 9, 11} then 30 else 31)"

definition days_before_year :: "nat \<Rightarrow> nat" where
  "days_before_year y = (let p = y - 1 in p * 365 + p div 4 + p div 400 - p div 100)"

fun days_before_month :: "nat \<Rightarrow> nat \<Rightarrow> nat" where
  "days_before_month y 0 = 0"
| "days_before_month y (Suc m) = (if m = 0 then 0 else days_before_month y m + days_in_month y m)"

definition wf_stamp :: "stamp \<Rightarrow> bool" where
  "wf_stamp s \<longleftrightarrow> 1 \<le> st_year s \<and> st_year s \<le> 9999 \<and> 1 \<le> st_month s \<and> st_month s \<le> 12
     \<and> 1 \<le> st_day s \<and> st_day s \<le> days_in_month (st_year s) (st_month s)
     \<and> st_hour s < 24 \<and> st_minute s < 60 \<and> st_second s < 60 \<and> st_micro s < 1000000"

definition ordinal_day :: "stamp \<Rightarrow> nat" where
  "ordinal_day s = days_before_year (st_year s) + days_before_month (st_year s) (st_month s) + st_day s"

definition stamp_instant :: "stamp \<Rightarrow> instant" where
  "stamp_instant s = int ((((ordinal_day s * 24 + st_hour s) * 60 + st_minute s) * 60 + st_second s) * 1000000 + st_micro s)"

section \<open>Text form\<close>

fun digits :: "nat \<Rightarrow> nat \<Rightarrow> string" where
  "digits 0 n = []"
| "digits (Suc w) n = digits w (n div 10) @ [char_of (48 + n mod 10)]"

definition micro_text :: "nat \<Rightarrow> string" where
  "micro_text u = (if u = 0 then [] else CHR ''.'' # digits 6 u) @ ''+00:00''"

definition isoformat :: "stamp \<Rightarrow> string" where
  "isoformat s = digits 4 (st_year s) @ CHR ''-'' # digits 2 (st_month s) @ CHR ''-'' # digits 2 (st_day s)
     @ CHR ''T'' # digits 2 (st_hour s) @ CHR '':'' # digits 2 (st_minute s) @ CHR '':'' # digits 2 (st_second s)
     @ micro_text (st_micro s)"

definition fmt_dt :: "stamp option \<Rightarrow> string option" where
  "fmt_dt v = map_option isoformat v"

definition digit_value :: "char \<Rightarrow> nat option" where
  "digit_value c = (let k = of_char c :: nat in if 48 \<le> k \<and> k \<le> 57 then Some (k - 48) else None)"

fun number_of :: "nat \<Rightarrow> string \<Rightarrow> nat option" where
  "number_of acc [] = Some acc"
| "number_of acc (c # cs) = (case digit_value c of None \<Rightarrow> None | Some d \<Rightarrow> number_of (10 * acc + d) cs)"

text \<open>
  \<^verbatim>\<open>datetime.fromisoformat\<close> on the extended format that \<^verbatim>\<open>isoformat\<close> writes: fixed-width
  fields, an optional fraction of six digits, the UTC offset. \<open>None\<close> is \<^verbatim>\<open>ValueError\<close>.
\<close>

definition field :: "nat \<Rightarrow> nat \<Rightarrow> string \<Rightarrow> nat option" where
  "field i w t = (if length (take w (drop i t)) = w then number_of 0 (take w (drop i t)) else None)"

definition parse_micro :: "string \<Rightarrow> nat option" where
  "parse_micro t = (if t = ''+00:00'' then Some 0
     else if take 1 t = ''.'' \<and> drop 7 t = ''+00:00'' then field 1 6 t else None)"

definition fromisoformat :: "string \<Rightarrow> stamp option" where
  "fromisoformat t =
     (if take 1 (drop 4 t) @ take 1 (drop 7 t) @ take 1 (drop 10 t) @ take 1 (drop 13 t) @ take 1 (drop 16 t) \<noteq> ''--T::''
      then None
      else case (field 0 4 t, field 5 2 t, field 8 2 t, field 11 2 t, field 14 2 t, field 17 2 t, parse_micro (drop 19 t)) of
        (Some y, Some m, Some d, Some h, Some n, Some s, Some u) \<Rightarrow>
          let v = \<lparr>st_year = y, st_month = m, st_day = d, st_hour = h, st_minute = n, st_second = s, st_micro = u\<rparr>
          in if wf_stamp v then Some v else None
      | _ \<Rightarrow> None)"

definition normalize_zulu :: "string \<Rightarrow> string" where
  "normalize_zulu t = (if t \<noteq> [] \<and> List.last t = CHR ''Z'' then butlast t @ ''+00:00'' else t)"

definition parse_dt :: "string option \<Rightarrow> stamp option option" where
  "parse_dt v = (case v of None \<Rightarrow> Some None | Some t \<Rightarrow> map_option Some (fromisoformat (normalize_zulu t)))"

section \<open>Fixed-width fields\<close>

lemma length_digits [simp]: "length (digits w n) = w"
  by (induction w arbitrary: n) simp_all

lemma digit_value_char [simp]: "digit_value (char_of (48 + n mod 10)) = Some (n mod 10)"
proof -
  have "n mod 10 \<le> 9" by (simp add: less_Suc_eq_le [symmetric])
  then have "(48 + n mod 10) mod 256 = 48 + n mod 10" by (intro mod_less) linarith
  with \<open>n mod 10 \<le> 9\<close> show ?thesis by (simp add: digit_value_def)
qed

lemma number_of_append:
  "number_of acc (xs @ [c]) = (case number_of acc xs of None \<Rightarrow> None
     | Some a \<Rightarrow> (case digit_value c of None \<Rightarrow> None | Some d \<Rightarrow> Some (10 * a + d)))"
  by (induction xs arbitrary: acc) (simp_all split: option.splits)

lemma number_of_digits: "n < 10 ^ w \<Longrightarrow> number_of 0 (digits w n) = Some n"
proof (induction w arbitrary: n)
  case (Suc w)
  then have "n div 10 < 10 ^ w" by (simp add: less_mult_imp_div_less mult.commute)
  from Suc.IH [OF this] show ?case by (simp add: number_of_append mult.commute)
qed simp

lemma digits_eq: "m < 10 ^ w \<Longrightarrow> n < 10 ^ w \<Longrightarrow> digits w m = digits w n \<longleftrightarrow> m = n"
  by (metis number_of_digits option.inject)

lemma lex_append:
  fixes a b x y :: "'a :: linorder list"
  assumes "length a = length b"
  shows "a @ x < b @ y \<longleftrightarrow> a < b \<or> a = b \<and> x < y"
  using assms by (induction a b rule: list_induct2) auto

lemma digits_less:
  assumes "m < 10 ^ w" and "n < 10 ^ w"
  shows "digits w m < digits w n \<longleftrightarrow> m < n"
  using assms
proof (induction w arbitrary: m n)
  case (Suc w)
  have bounds: "m div 10 < 10 ^ w" "n div 10 < 10 ^ w"
    using Suc.prems by (auto intro!: less_mult_imp_div_less simp: mult.commute)
  have eq: "digits w (m div 10) = digits w (n div 10) \<longleftrightarrow> m div 10 = n div 10"
    by (rule digits_eq [OF bounds])
  have char: "(char_of (48 + m mod 10) :: char) < char_of (48 + n mod 10) \<longleftrightarrow> m mod 10 < n mod 10"
  proof -
    have "m mod 10 \<le> 9" "n mod 10 \<le> 9" by (simp_all add: less_Suc_eq_le [symmetric])
    then have "(48 + m mod 10) mod 256 = 48 + m mod 10" "(48 + n mod 10) mod 256 = 48 + n mod 10"
      by (intro mod_less; linarith)+
    then show ?thesis by (simp add: less_char_def)
  qed
  have "digits (Suc w) m < digits (Suc w) n \<longleftrightarrow> m div 10 < n div 10 \<or> m div 10 = n div 10 \<and> m mod 10 < n mod 10"
    by (simp add: lex_append Suc.IH [OF bounds] eq char)
  also have "\<dots> \<longleftrightarrow> m < n"
    using div_mult_mod_eq [of m 10] div_mult_mod_eq [of n 10] pos_mod_bound [of 10 m] pos_mod_bound [of 10 n] by linarith
  finally show ?case .
qed simp


section \<open>The calendar\<close>

definition year_length :: "nat \<Rightarrow> nat" where
  "year_length y = (if leap_year y then 366 else 365)"

lemma div_step: "0 < k \<Longrightarrow> Suc n div k = n div k + (if Suc n mod k = 0 then 1 else 0)" for n k :: nat
  by (simp add: div_Suc)

lemma days_before_year_Suc:
  assumes "1 \<le> y"
  shows "days_before_year (Suc y) = days_before_year y + year_length y"
proof -
  obtain p where y: "y = Suc p" using assms by (cases y) auto
  have "(Suc p mod 400 = 0 \<longrightarrow> Suc p mod 100 = 0) \<and> (Suc p mod 100 = 0 \<longrightarrow> Suc p mod 4 = 0)" by presburger
  moreover have "p div 100 \<le> p" by simp
  ultimately show ?thesis
    unfolding y days_before_year_def year_length_def leap_year_def Let_def diff_Suc_1
      div_step [of 4 p, simplified] div_step [of 100 p, simplified] div_step [of 400 p, simplified]
    by (auto simp: ac_simps)
qed

lemma days_before_year_mono:
  assumes "1 \<le> y" and "y < z"
  shows "days_before_year y + year_length y \<le> days_before_year z"
  using assms(2,1)
proof (induction z rule: less_Suc_induct)
  case (2 i j k)
  then show ?case by (cases "1 \<le> j") auto
qed (simp add: days_before_year_Suc)

lemma days_before_month_mono:
  assumes "1 \<le> m" and "m < n"
  shows "days_before_month y m + days_in_month y m \<le> days_before_month y n"
  using assms(2,1)
proof (induction n rule: less_Suc_induct)
  case (2 i j k)
  then show ?case by auto
qed simp

lemma month_day_in_year:
  assumes "1 \<le> m" and "m \<le> 12" and "d \<le> days_in_month y m"
  shows "days_before_month y m + d \<le> year_length y"
proof -
  have twelve: "days_before_month y 12 + days_in_month y 12 = year_length y"
    by (simp add: numeral_eq_Suc days_in_month_def year_length_def)
  show ?thesis
  proof (cases "m = 12")
    case False
    with assms have "days_before_month y m + days_in_month y m \<le> days_before_month y 12"
      by (intro days_before_month_mono) auto
    with twelve assms(3) show ?thesis by linarith
  qed (use twelve assms(3) in simp)
qed

lemma pair_less: "(a, x) < (b, y) \<longleftrightarrow> a < b \<or> a = b \<and> x < y"
  for a b :: "'a :: linorder" and x y :: "'b :: ord"
  by auto

definition stamp_key :: "stamp \<Rightarrow> nat \<times> nat \<times> nat \<times> nat \<times> nat \<times> nat \<times> nat" where
  "stamp_key s = (st_year s, st_month s, st_day s, st_hour s, st_minute s, st_second s, st_micro s)"

lemma ordinal_day_mono:
  assumes "wf_stamp a" and "wf_stamp b" and "(st_year a, st_month a, st_day a) < (st_year b, st_month b, st_day b)"
  shows "ordinal_day a < ordinal_day b"
proof -
  have wf: "1 \<le> st_year a" "1 \<le> st_month a" "st_month a \<le> 12" "st_day a \<le> days_in_month (st_year a) (st_month a)" "1 \<le> st_day b"
    using assms(1,2) by (simp_all add: wf_stamp_def)
  consider (year) "st_year a < st_year b" | (month) "st_year a = st_year b" "st_month a < st_month b"
    | (day) "st_year a = st_year b" "st_month a = st_month b" "st_day a < st_day b"
    using assms(3) by (auto simp: pair_less simp del: less_prod_simp)
  then show ?thesis
  proof cases
    case year
    show ?thesis
      using days_before_year_mono [OF wf(1) year] month_day_in_year [OF wf(2-4)] wf(5) by (simp add: ordinal_day_def)
  next
    case month
    show ?thesis
      using days_before_month_mono [OF wf(2) month(2), of "st_year a"] wf(4,5) month(1) by (simp add: ordinal_day_def)
  qed (simp add: ordinal_day_def)
qed

lemma stamp_instant_mono:
  assumes "wf_stamp a" and "wf_stamp b" and "stamp_key a < stamp_key b"
  shows "stamp_instant a < stamp_instant b"
proof -
  have b: "st_hour a < 24" "st_minute a < 60" "st_second a < 60" "st_micro a < 1000000"
    "st_hour b < 24" "st_minute b < 60" "st_second b < 60" "st_micro b < 1000000"
    using assms(1,2) by (simp_all add: wf_stamp_def)
  have "(st_year a, st_month a, st_day a) < (st_year b, st_month b, st_day b)
    \<or> (st_year a, st_month a, st_day a) = (st_year b, st_month b, st_day b)
      \<and> (st_hour a, st_minute a, st_second a, st_micro a) < (st_hour b, st_minute b, st_second b, st_micro b)"
    using assms(3) by (auto simp: stamp_key_def)
  then show ?thesis
  proof
    assume "(st_year a, st_month a, st_day a) < (st_year b, st_month b, st_day b)"
    with assms(1,2) have "ordinal_day a < ordinal_day b" by (rule ordinal_day_mono)
    with b show ?thesis by (simp add: stamp_instant_def)
  next
    assume *: "(st_year a, st_month a, st_day a) = (st_year b, st_month b, st_day b)
      \<and> (st_hour a, st_minute a, st_second a, st_micro a) < (st_hour b, st_minute b, st_second b, st_micro b)"
    then have "ordinal_day a = ordinal_day b" by (simp add: ordinal_day_def)
    with * b show ?thesis by (auto simp: stamp_instant_def)
  qed
qed

lemma stamp_instant_less:
  assumes "wf_stamp a" and "wf_stamp b"
  shows "stamp_instant a < stamp_instant b \<longleftrightarrow> stamp_key a < stamp_key b"
proof -
  have "stamp_key a = stamp_key b \<Longrightarrow> stamp_instant a = stamp_instant b"
    by (simp add: stamp_key_def stamp_instant_def ordinal_day_def)
  then show ?thesis
    using stamp_instant_mono [OF assms] stamp_instant_mono [OF assms(2,1)] by (metis less_imp_not_less linorder_less_linear)
qed

section \<open>Order of the texts\<close>

lemma micro_text_less:
  assumes "u < 1000000" and "v < 1000000"
  shows "micro_text u < micro_text v \<longleftrightarrow> u < v"
proof -
  have "digits 6 u < digits 6 v \<longleftrightarrow> u < v" "digits 6 u = digits 6 v \<longleftrightarrow> u = v"
    using digits_less [of u 6 v] digits_eq [of u 6 v] assms by simp_all
  then have "CHR ''.'' # digits 6 u @ ''+00:00'' < CHR ''.'' # digits 6 v @ ''+00:00'' \<longleftrightarrow> u < v"
    by (auto simp: lex_append)
  moreover have "CHR ''+'' < CHR ''.''" by (simp add: less_char_def)
  moreover have "\<not> CHR ''.'' < CHR ''+''" by (simp add: less_char_def)
  ultimately show ?thesis by (auto simp: micro_text_def)
qed

lemma isoformat_less:
  assumes "wf_stamp a" and "wf_stamp b"
  shows "isoformat a < isoformat b \<longleftrightarrow> stamp_key a < stamp_key b"
proof -
  have day: "days_in_month y m \<le> 31" for y m by (simp add: days_in_month_def)
  have bound: "st_year s < 10 ^ 4" "st_month s < 10 ^ 2" "st_day s < 10 ^ 2" "st_hour s < 10 ^ 2" "st_minute s < 10 ^ 2"
      "st_second s < 10 ^ 2" "st_micro s < 1000000" if "wf_stamp s" for s
    using that day [of "st_year s" "st_month s"] by (auto simp: wf_stamp_def)
  note A = bound [OF assms(1)] and B = bound [OF assms(2)]
  note order = digits_less [OF A(1) B(1)] digits_less [OF A(2) B(2)] digits_less [OF A(3) B(3)] digits_less [OF A(4) B(4)]
    digits_less [OF A(5) B(5)] digits_less [OF A(6) B(6)] micro_text_less [OF A(7) B(7)]
  note same = digits_eq [OF A(1) B(1)] digits_eq [OF A(2) B(2)] digits_eq [OF A(3) B(3)] digits_eq [OF A(4) B(4)]
    digits_eq [OF A(5) B(5)] digits_eq [OF A(6) B(6)]
  show ?thesis
    unfolding isoformat_def stamp_key_def by (simp add: lex_append order same pair_less del: less_prod_simp)
qed

section \<open>Properties\<close>

text \<open>
  SQLite's comparison of two stored timestamp texts is the comparison of the times they denote,
  although \<open>isoformat\<close> leaves out a zero fraction, and equal texts denote the same time.
\<close>

theorem timestamp_text_order:
  assumes "wf_stamp a" and "wf_stamp b"
  shows "(isoformat a < isoformat b \<longleftrightarrow> stamp_instant a < stamp_instant b)
    \<and> (isoformat a = isoformat b \<longleftrightarrow> stamp_instant a = stamp_instant b)"
  using isoformat_less [OF assms] isoformat_less [OF assms(2,1)] stamp_instant_less [OF assms] stamp_instant_less [OF assms(2,1)]
  by (metis linorder_less_linear order_less_irrefl)

lemma last_micro_text: "micro_text u \<noteq> [] \<and> List.last (micro_text u) = CHR ''0''"
  by (simp add: micro_text_def)

lemma parse_micro_text: "u < 1000000 \<Longrightarrow> parse_micro (micro_text u) = Some u"
  using number_of_digits [of u 6] by (simp add: micro_text_def parse_micro_def field_def)

lemma fromisoformat_isoformat:
  assumes "wf_stamp s"
  shows "fromisoformat (isoformat s) = Some s"
proof -
  have "days_in_month (st_year s) (st_month s) \<le> 31" by (simp add: days_in_month_def)
  then have n: "number_of 0 (digits 4 (st_year s)) = Some (st_year s)" "number_of 0 (digits 2 (st_month s)) = Some (st_month s)"
    "number_of 0 (digits 2 (st_day s)) = Some (st_day s)" "number_of 0 (digits 2 (st_hour s)) = Some (st_hour s)"
    "number_of 0 (digits 2 (st_minute s)) = Some (st_minute s)" "number_of 0 (digits 2 (st_second s)) = Some (st_second s)"
    and u: "parse_micro (micro_text (st_micro s)) = Some (st_micro s)"
    using assms by (auto simp: wf_stamp_def intro!: number_of_digits parse_micro_text)
  show ?thesis
    unfolding fromisoformat_def isoformat_def field_def
    using assms by (simp add: n u Let_def wf_stamp_def)
qed

text \<open>
  A stored timestamp reads back as written, whether with the offset \<^verbatim>\<open>+00:00\<close> or the suffix
  \<^verbatim>\<open>Z\<close> in its place.
\<close>

theorem timestamp_round_trip:
  assumes "wf_stamp s"
  shows "parse_dt (fmt_dt None) = Some None \<and> parse_dt (fmt_dt (Some s)) = Some (Some s)
    \<and> parse_dt (Some (take (length (isoformat s) - 6) (isoformat s) @ ''Z'')) = Some (Some s)"
proof -
  have "isoformat s \<noteq> [] \<and> List.last (isoformat s) = CHR ''0''" by (simp add: isoformat_def last_micro_text)
  then have "normalize_zulu (isoformat s) = isoformat s" by (simp add: normalize_zulu_def)
  moreover have "isoformat s = take (length (isoformat s) - 6) (isoformat s) @ ''+00:00''"
    by (simp add: isoformat_def micro_text_def)
  then have "normalize_zulu (take (length (isoformat s) - 6) (isoformat s) @ ''Z'') = isoformat s"
    by (simp add: normalize_zulu_def)
  ultimately show ?thesis by (simp add: parse_dt_def fmt_dt_def fromisoformat_isoformat [OF assms])
qed

definition sample_stamp :: "nat \<Rightarrow> nat \<Rightarrow> stamp" where
  "sample_stamp s u = \<lparr>st_year = 2024, st_month = 2, st_day = 29, st_hour = 23, st_minute = 59, st_second = s, st_micro = u\<rparr>"

lemma wf_sample_stamp: "s < 60 \<Longrightarrow> u < 1000000 \<Longrightarrow> wf_stamp (sample_stamp s u)"
  by (simp add: sample_stamp_def wf_stamp_def days_in_month_def leap_year_def)

theorem timestamp_text_order_witness:
  "isoformat (sample_stamp 7 0) = ''2024-02-29T23:59:07+00:00'' \<and> isoformat (sample_stamp 7 1) = ''2024-02-29T23:59:07.000001+00:00''
    \<and> isoformat (sample_stamp 7 0) < isoformat (sample_stamp 7 1)"
proof -
  have "wf_stamp (sample_stamp 7 0)" "wf_stamp (sample_stamp 7 1)" by (simp_all add: wf_sample_stamp)
  moreover have "stamp_instant (sample_stamp 7 0) < stamp_instant (sample_stamp 7 1)"
    by (simp add: sample_stamp_def stamp_instant_def ordinal_day_def)
  ultimately have "isoformat (sample_stamp 7 0) < isoformat (sample_stamp 7 1)"
    using timestamp_text_order [of "sample_stamp 7 0" "sample_stamp 7 1"] by blast
  moreover have "isoformat (sample_stamp 7 0) = ''2024-02-29T23:59:07+00:00''" by code_simp
  moreover have "isoformat (sample_stamp 7 1) = ''2024-02-29T23:59:07.000001+00:00''" by code_simp
  ultimately show ?thesis by blast
qed

theorem timestamp_round_trip_witness: "parse_dt (fmt_dt (Some (sample_stamp 7 1))) = Some (Some (sample_stamp 7 1))"
proof -
  have "wf_stamp (sample_stamp 7 1)" by (simp add: wf_sample_stamp)
  from timestamp_round_trip [OF this] show ?thesis by blast
qed

end
