(* ===== verification/Delivery_Queue.thy ===== *)
theory Delivery_Queue
  imports Queue_Reconciliation "HOL-Library.AList"
begin

text \<open>
  The delivery queue of \<^verbatim>\<open>queue/pool.py\<close> and the admission policy of \<^verbatim>\<open>queue/priority.py\<close>:
  the three Lua scripts on Redis, the inspection of one delivery, the weighted admission and the
  cancellation of one run.

  \<^item> \<open>redis\<close> is the part of the Redis state the pool uses. A sorted set is the list of its
    (member, score) pairs in the order they were added; a score is counted in thousandths of a
    millisecond, the resolution of the \<^verbatim>\<open>%.3f\<close> fifo score, so the arithmetic is exact. A payload key
    holds its expiry time: \<open>clock\<close> is the time of the server in milliseconds.
  \<^item> A script runs atomically, so one script is one function on \<open>redis\<close>.
  \<^item> The arq worker is not part of the program: \<open>queue_step.arq\<close> lets it start, finish, expire and
    abort deliveries in any way that takes members out of the execution queue or changes their
    score and leaves the intake queues alone.
\<close>

section \<open>Priorities\<close>

datatype priority = High | Normal | Low

definition priorities :: "priority list" where
  "priorities = [High, Normal, Low]"

definition fair_admission_cycle :: "priority list" where
  "fair_admission_cycle = [High, High, High, High, Normal, Normal, Low]"

text \<open>\<open>WeightedPriorityPolicy\<close>: its state is the cursor.\<close>

definition preferred :: "nat \<Rightarrow> priority" where
  "preferred cursor = fair_admission_cycle ! cursor"

definition selection_order :: "nat \<Rightarrow> priority list" where
  "selection_order cursor = preferred cursor # filter (\<lambda>p. p \<noteq> preferred cursor) priorities"

definition admitted :: "nat \<Rightarrow> nat" where
  "admitted cursor = (cursor + 1) mod length fair_admission_cycle"

section \<open>The Redis state\<close>

text \<open>\<open>priority_queue_names\<close> gives each priority an intake queue; the worker's own queue is \<open>Execution\<close>.\<close>

datatype queue_name = Execution | Intake priority

definition known_queues :: "queue_name list" where
  "known_queues = Execution # map Intake priorities"

type_synonym zset = "(string \<times> int) list"

datatype queue_map = Queues zset zset zset zset

fun get_queue :: "queue_map \<Rightarrow> queue_name \<Rightarrow> zset" where
  "get_queue (Queues e h n l) Execution = e"
| "get_queue (Queues e h n l) (Intake High) = h"
| "get_queue (Queues e h n l) (Intake Normal) = n"
| "get_queue (Queues e h n l) (Intake Low) = l"

fun put_queue :: "queue_name \<Rightarrow> zset \<Rightarrow> queue_map \<Rightarrow> queue_map" where
  "put_queue Execution z (Queues e h n l) = Queues z h n l"
| "put_queue (Intake High) z (Queues e h n l) = Queues e z n l"
| "put_queue (Intake Normal) z (Queues e h n l) = Queues e h z l"
| "put_queue (Intake Low) z (Queues e h n l) = Queues e h n z"

record redis =
  payload_entries :: "(string \<times> (int \<times> string)) list"
  result_keys :: "string set"
  in_progress_keys :: "string set"
  queue_entries :: queue_map
  fifo_entries :: "(priority \<times> int) list"

definition empty_redis :: redis where
  "empty_redis = \<lparr>payload_entries = [], result_keys = {}, in_progress_keys = {}, queue_entries = Queues [] [] [] [], fifo_entries = []\<rparr>"

definition queues :: "redis \<Rightarrow> queue_name \<Rightarrow> zset" where
  "queues r = get_queue (queue_entries r)"

definition payload_keys :: "redis \<Rightarrow> string \<Rightarrow> (int \<times> string) option" where
  "payload_keys r = map_of (payload_entries r)"

definition fifo_score :: "redis \<Rightarrow> priority \<Rightarrow> int option" where
  "fifo_score r = map_of (fifo_entries r)"

definition set_payload :: "string \<Rightarrow> int \<times> string \<Rightarrow> redis \<Rightarrow> redis" where
  "set_payload rid v r = r\<lparr>payload_entries := AList.update rid v (payload_entries r)\<rparr>"

definition delete_payload :: "string \<Rightarrow> redis \<Rightarrow> redis" where
  "delete_payload rid r = r\<lparr>payload_entries := AList.delete rid (payload_entries r)\<rparr>"

definition set_fifo :: "priority \<Rightarrow> int \<Rightarrow> redis \<Rightarrow> redis" where
  "set_fifo p s r = r\<lparr>fifo_entries := AList.update p s (fifo_entries r)\<rparr>"

definition payload_exists :: "int \<Rightarrow> string \<Rightarrow> redis \<Rightarrow> bool" where
  "payload_exists clock rid r = (case payload_keys r rid of None \<Rightarrow> False | Some (deadline, _) \<Rightarrow> clock < deadline)"

definition zscore :: "string \<Rightarrow> zset \<Rightarrow> int option" where
  "zscore m z = map_of z m"

definition zrem :: "string \<Rightarrow> zset \<Rightarrow> zset" where
  "zrem m z = filter (\<lambda>e. fst e \<noteq> m) z"

definition zadd :: "string \<Rightarrow> int \<Rightarrow> zset \<Rightarrow> zset" where
  "zadd m s z = zrem m z @ [(m, s)]"

text \<open>\<^verbatim>\<open>ZRANGEBYSCORE -inf limit LIMIT 0 1\<close>: the lowest score, ties by member.\<close>

definition zfirst :: "int \<Rightarrow> zset \<Rightarrow> (string \<times> int) option" where
  "zfirst limit z = (case sort_key (\<lambda>e. (snd e, fst e)) (filter (\<lambda>e. snd e \<le> limit) z) of [] \<Rightarrow> None | e # _ \<Rightarrow> Some e)"

definition on_queue :: "queue_name \<Rightarrow> (zset \<Rightarrow> zset) \<Rightarrow> redis \<Rightarrow> redis" where
  "on_queue q f r = r\<lparr>queue_entries := put_queue q (f (queues r q)) (queue_entries r)\<rparr>"

definition drop_member :: "string \<Rightarrow> redis \<Rightarrow> redis" where
  "drop_member rid r = fold (\<lambda>q. on_queue q (zrem rid)) known_queues r"

section \<open>The scripts\<close>

definition ceil_ms :: "int \<Rightarrow> int" where
  "ceil_ms x = - ((- x) div 1000)"

definition enqueue_score :: "int \<Rightarrow> int option \<Rightarrow> int" where
  "enqueue_score enqueue_time_ms last_score = (let score = 1000 * enqueue_time_ms in
     case last_score of None \<Rightarrow> score | Some l \<Rightarrow> if l \<ge> score then l + 1 else score)"

definition atomic_enqueue :: "int \<Rightarrow> int \<Rightarrow> int \<Rightarrow> string \<Rightarrow> string \<Rightarrow> priority \<Rightarrow> redis \<Rightarrow> bool \<times> redis" where
  "atomic_enqueue clock enqueue_time_ms ttl_ms payload rid p r =
     (if rid \<in> result_keys r \<or> rid \<in> in_progress_keys r then (False, r)
      else let present = payload_exists clock rid r in
      if present \<and> (\<exists>q \<in> set known_queues. zscore rid (queues r q) \<noteq> None) then (False, r)
      else let r1 = (if present then r else drop_member rid r);
               score = enqueue_score enqueue_time_ms (fifo_score r1 p);
               ttl = ttl_ms + ceil_ms (max 0 (score - 1000 * enqueue_time_ms));
               r2 = on_queue (Intake p) (zadd rid score)
                      (set_payload rid (clock + ttl, payload) r1)
           in (True, set_fifo p score r2))"

function admit_from :: "int \<Rightarrow> int \<Rightarrow> nat \<Rightarrow> nat \<Rightarrow> queue_name list \<Rightarrow> redis \<Rightarrow> (string \<times> queue_name) option \<times> redis" where
  "admit_from clock now_ms removed limit [] r = (None, r)"
| "admit_from clock now_ms removed limit (q # qs) r =
     (case zfirst (1000 * now_ms) (queues r q) of
        None \<Rightarrow> admit_from clock now_ms removed limit qs r
      | Some (m, s) \<Rightarrow>
          let r1 = on_queue q (zrem m) r in
          if payload_exists clock m r1 then (Some (m, q), on_queue Execution (zadd m s) r1)
          else if removed + 1 \<ge> limit then (None, r1)
          else admit_from clock now_ms (removed + 1) limit (q # qs) r1)"
  by pat_completeness auto

lemma get_put_queue: "get_queue (put_queue q z m) q' = (if q' = q then z else get_queue m q')"
  by (cases m; cases "(q, z, m)" rule: put_queue.cases; cases "(m, q')" rule: get_queue.cases) auto

lemma queues_on_queue: "queues (on_queue q f r) q' = (if q' = q then f (queues r q) else queues r q')"
  by (simp add: queues_def on_queue_def get_put_queue)

lemma zfirst_in:
  assumes "zfirst limit z = Some e"
  shows "e \<in> set z" and "snd e \<le> limit" and "\<forall>e' \<in> set z. snd e' \<le> limit \<longrightarrow> (snd e, fst e) \<le> (snd e', fst e')"
proof -
  let ?l = "sort_key (\<lambda>e. (snd e, fst e)) (filter (\<lambda>e. snd e \<le> limit) z)"
  obtain es where l: "?l = e # es" using assms by (auto simp: zfirst_def split: list.splits)
  then have mem: "set (e # es) = {e \<in> set z. snd e \<le> limit}" by (metis set_filter set_sort)
  then show "e \<in> set z" "snd e \<le> limit" by auto
  have "sorted (map (\<lambda>e. (snd e, fst e)) (e # es))" using l by (metis sorted_sort_key)
  then have "\<forall>e' \<in> set (e # es). (snd e, fst e) \<le> (snd e', fst e')" by (auto simp del: less_eq_prod_simp)
  then show "\<forall>e' \<in> set z. snd e' \<le> limit \<longrightarrow> (snd e, fst e) \<le> (snd e', fst e')" unfolding mem by blast
qed

lemma zrem_shrinks: "e \<in> set z \<Longrightarrow> length (zrem (fst e) z) < length z"
  unfolding zrem_def by (rule length_filter_less [of e]) auto

termination admit_from
  by (relation "measures [\<lambda>(_, _, _, _, qs, _). length qs,
        \<lambda>(_, _, _, _, qs, r). case qs of [] \<Rightarrow> 0 | q # _ \<Rightarrow> length (queues r q)]")
    (auto simp: queues_on_queue dest!: zfirst_in(1) zrem_shrinks)

definition admit_one_script :: "int \<Rightarrow> int \<Rightarrow> queue_name list \<Rightarrow> redis \<Rightarrow> (string \<times> queue_name) option \<times> redis" where
  "admit_one_script clock now_ms order r = admit_from clock now_ms 0 100 order r"

definition remove_unstarted :: "string \<Rightarrow> redis \<Rightarrow> bool \<times> redis" where
  "remove_unstarted rid r =
     (if rid \<in> in_progress_keys r then (False, r)
      else if \<exists>q \<in> set known_queues. zscore rid (queues r q) \<noteq> None
      then (True, delete_payload rid (drop_member rid r))
      else (False, r))"

section \<open>The worker\<close>

definition admit_one :: "int \<Rightarrow> int \<Rightarrow> nat \<times> redis \<Rightarrow> (string \<times> queue_name) option \<times> nat \<times> redis" where
  "admit_one clock now_ms w = (let (cursor, r) = w in
     case admit_one_script clock now_ms (map Intake (selection_order cursor)) r of
       (None, r') \<Rightarrow> (None, cursor, r')
     | (Some a, r') \<Rightarrow> (Some a, admitted cursor, r'))"

text \<open>The admissions of \<open>_poll_iteration\<close>, without the polling of arq that follows them.\<close>

fun admit_up_to :: "int \<Rightarrow> int \<Rightarrow> nat \<Rightarrow> nat \<times> redis \<Rightarrow> (string \<times> queue_name) list \<times> nat \<times> redis" where
  "admit_up_to clock now_ms 0 w = ([], w)"
| "admit_up_to clock now_ms (Suc n) w = (case admit_one clock now_ms w of
       (None, w') \<Rightarrow> ([], w')
     | (Some a, w') \<Rightarrow> (case admit_up_to clock now_ms n w' of (as, w'') \<Rightarrow> (a # as, w'')))"

definition ready_members :: "int \<Rightarrow> redis \<Rightarrow> nat" where
  "ready_members now_ms r = length (filter (\<lambda>e. snd e \<le> 1000 * now_ms) (queues r Execution))"

definition poll_admissions :: "int \<Rightarrow> int \<Rightarrow> nat \<Rightarrow> nat \<Rightarrow> bool \<Rightarrow> bool \<Rightarrow> nat \<times> redis \<Rightarrow> (string \<times> queue_name) list \<times> nat \<times> redis" where
  "poll_admissions clock now_ms max_jobs job_counter allow_pick memory_available w =
     (if allow_pick \<and> job_counter < max_jobs \<and> memory_available
      then admit_up_to clock now_ms (max_jobs - ready_members now_ms (snd w)) w
      else ([], w))"

text \<open>\<open>_release_abandoned_deliveries\<close>, at the start of a process.\<close>

definition release_abandoned_deliveries :: "redis \<Rightarrow> redis" where
  "release_abandoned_deliveries r = r\<lparr>in_progress_keys := in_progress_keys r - set (map fst (queues r Execution))\<rparr>"

section \<open>Enqueueing and inspection\<close>

record pool_state =
  ps_started :: bool
  ps_stopping :: bool
  ps_connected :: bool
  ps_payload_ttl_ms :: int

datatype pool_error = Pool_runtime_error string | Pool_value_error string

definition parse_priority :: "string \<Rightarrow> priority option" where
  "parse_priority s = (if s = ''high'' then Some High else if s = ''normal'' then Some Normal
     else if s = ''low'' then Some Low else None)"

definition enqueue :: "pool_state \<Rightarrow> int \<Rightarrow> int \<Rightarrow> string \<Rightarrow> string option \<Rightarrow> string \<Rightarrow> redis \<Rightarrow> pool_error + redis" where
  "enqueue ps clock enqueue_time_ms prio run_id payload r =
     (if ps_stopping ps then Inl (Pool_runtime_error ''shutdown unresolved'')
      else if \<not> ps_started ps then Inl (Pool_runtime_error ''called before start'')
      else if \<not> ps_connected ps then Inl (Pool_runtime_error ''not connected'')
      else case parse_priority prio of
        None \<Rightarrow> Inl (Pool_value_error ''Unknown queue priority'')
      | Some p \<Rightarrow> (case run_id of
          None \<Rightarrow> Inl (Pool_runtime_error ''requires a run_id'')
        | Some rid \<Rightarrow> Inr (snd (atomic_enqueue clock enqueue_time_ms (ps_payload_ttl_ms ps) payload rid p r))))"

type_synonym located_state = "queue_delivery_state \<times> queue_name option"

definition queue_members :: "string \<Rightarrow> redis \<Rightarrow> (queue_name \<times> int) list" where
  "queue_members rid r = [(q, s). q \<leftarrow> known_queues, s \<leftarrow> (case zscore rid (queues r q) of None \<Rightarrow> [] | Some s \<Rightarrow> [s])]"

definition delivery_snapshot :: "int \<Rightarrow> int \<Rightarrow> string \<Rightarrow> redis \<Rightarrow> pool_error + located_state" where
  "delivery_snapshot clock now_ms rid r = (let members = queue_members rid r in
     if rid \<in> result_keys r then Inr (D_complete, None)
     else if length members > 1 then Inl (Pool_runtime_error ''exists in multiple configured queues'')
     else let located = (case members of [] \<Rightarrow> None | m # _ \<Rightarrow> Some (fst m)) in
     if rid \<in> in_progress_keys r then Inr (D_in_progress, located)
     else if \<not> payload_exists clock rid r then Inr (D_missing, None)
     else (case members of [] \<Rightarrow> Inr (D_missing, None)
       | (q, s) # _ \<Rightarrow> Inr (if s > 1000 * now_ms then D_deferred else D_queued, Some q)))"

definition inspect_delivery :: "int \<Rightarrow> int \<Rightarrow> string \<Rightarrow> redis \<Rightarrow> pool_error + queue_delivery_state" where
  "inspect_delivery clock now_ms rid r = map_sum id fst (delivery_snapshot clock now_ms rid r)"

definition queue_depths :: "redis \<Rightarrow> (priority \<times> nat) list" where
  "queue_depths r = map (\<lambda>p. (p, length (queues r (Intake p)))) priorities"

end
