(* ===== verification/Delivery_Order.thy ===== *)
theory Delivery_Order
  imports Delivery_Queue
begin

text \<open>
  Correctness of the delivery queue: a run is in at most one queue, the intake queues are first in,
  first out, the admission is fair between the priorities and never overfills the worker.
\<close>

section \<open>Sorted sets\<close>

definition members :: "redis \<Rightarrow> queue_name \<Rightarrow> string set" where
  "members r q = fst ` set (queues r q)"

lemma all_queues [simp]: "q \<in> set known_queues"
  by (cases q; cases "(case q of Intake p \<Rightarrow> p | Execution \<Rightarrow> High)") (auto simp: known_queues_def priorities_def)

lemma zscore_members: "zscore m (queues r q) \<noteq> None \<longleftrightarrow> m \<in> members r q"
  by (simp add: zscore_def members_def map_of_eq_None_iff)

lemma set_zrem [simp]: "set (zrem m z) = {e \<in> set z. fst e \<noteq> m}"
  by (auto simp: zrem_def)

lemma distinct_zrem: "distinct (map fst z) \<Longrightarrow> distinct (map fst (zrem m z))"
  by (simp add: zrem_def distinct_map_filter)

lemma distinct_zadd: "distinct (map fst z) \<Longrightarrow> distinct (map fst (zadd m s z))"
  by (auto simp: zadd_def distinct_zrem)

lemma sorted_wrt_zrem: "sorted_wrt P (map snd z) \<Longrightarrow> sorted_wrt P (map snd (zrem m z))"
  unfolding zrem_def sorted_wrt_map by (rule sorted_wrt_filter)

lemma set_zadd: "set (zadd m s z) = insert (m, s) {e \<in> set z. fst e \<noteq> m}"
  by (auto simp: zadd_def)

lemma redis_fields [simp]:
  "payload_keys (on_queue q f r) = payload_keys r" "result_keys (on_queue q f r) = result_keys r"
  "in_progress_keys (on_queue q f r) = in_progress_keys r" "fifo_score (on_queue q f r) = fifo_score r"
  "queues (set_payload rid v r) = queues r" "payload_keys (set_payload rid v r) = (payload_keys r)(rid \<mapsto> v)"
  "result_keys (set_payload rid v r) = result_keys r" "in_progress_keys (set_payload rid v r) = in_progress_keys r"
  "fifo_score (set_payload rid v r) = fifo_score r"
  "queues (delete_payload rid r) = queues r" "payload_keys (delete_payload rid r) = (payload_keys r)(rid := None)"
  "result_keys (delete_payload rid r) = result_keys r" "in_progress_keys (delete_payload rid r) = in_progress_keys r"
  "fifo_score (delete_payload rid r) = fifo_score r"
  "queues (set_fifo p s r) = queues r" "payload_keys (set_fifo p s r) = payload_keys r"
  "result_keys (set_fifo p s r) = result_keys r" "in_progress_keys (set_fifo p s r) = in_progress_keys r"
  "fifo_score (set_fifo p s r) = (fifo_score r)(p \<mapsto> s)"
  by (simp_all add: on_queue_def set_payload_def delete_payload_def set_fifo_def queues_def payload_keys_def fifo_score_def
      AList.update_conv' AList.delete_conv')

lemma drop_member_fields [simp]:
  "payload_keys (drop_member rid r) = payload_keys r" "fifo_score (drop_member rid r) = fifo_score r"
  "in_progress_keys (drop_member rid r) = in_progress_keys r" "result_keys (drop_member rid r) = result_keys r"
  by (simp_all add: drop_member_def known_queues_def priorities_def)

lemma queues_drop_member [simp]: "queues (drop_member rid r) q = zrem rid (queues r q)"
  by (cases q; cases "case q of Intake p \<Rightarrow> p | Execution \<Rightarrow> High")
    (simp_all add: drop_member_def known_queues_def priorities_def queues_on_queue)

lemma payload_exists_on_queue [simp]: "payload_exists c m (on_queue q f r) = payload_exists c m r"
  by (simp add: payload_exists_def)

section \<open>The invariant\<close>

definition queue_inv :: "redis \<Rightarrow> bool" where
  "queue_inv r \<longleftrightarrow> (\<forall>q. distinct (map fst (queues r q)))
     \<and> (\<forall>q q'. q \<noteq> q' \<longrightarrow> members r q \<inter> members r q' = {})
     \<and> (\<forall>p. sorted_wrt (<) (map snd (queues r (Intake p))))
     \<and> (\<forall>p. \<forall>e \<in> set (queues r (Intake p)). \<exists>l. fifo_score r p = Some l \<and> snd e \<le> l)"

lemma queue_invI:
  assumes "\<And>q. distinct (map fst (queues r q))"
    and "\<And>q q'. q \<noteq> q' \<Longrightarrow> members r q \<inter> members r q' = {}"
    and "\<And>p. sorted_wrt (<) (map snd (queues r (Intake p)))"
    and "\<And>p e. e \<in> set (queues r (Intake p)) \<Longrightarrow> \<exists>l. fifo_score r p = Some l \<and> snd e \<le> l"
  shows "queue_inv r"
  using assms by (auto simp: queue_inv_def)

lemma queue_invD:
  assumes "queue_inv r"
  shows "distinct (map fst (queues r q))" and "q \<noteq> q' \<Longrightarrow> members r q \<inter> members r q' = {}"
    and "sorted_wrt (<) (map snd (queues r (Intake p)))"
    and "e \<in> set (queues r (Intake p)) \<Longrightarrow> \<exists>l. fifo_score r p = Some l \<and> snd e \<le> l"
  using assms by (auto simp: queue_inv_def)

text \<open>Taking members out of queues keeps the invariant.\<close>

lemma queue_inv_shrink:
  assumes "queue_inv r" and "fifo_score r' = fifo_score r"
    and "\<And>p. \<exists>P. queues r' (Intake p) = filter P (queues r (Intake p))"
    and "distinct (map fst (queues r' Execution))" and "members r' Execution \<subseteq> members r Execution"
  shows "queue_inv r'"
proof (rule queue_invI)
  have sub: "members r' q \<subseteq> members r q" for q
  proof (cases q)
    case (Intake p)
    obtain P where "queues r' (Intake p) = filter P (queues r (Intake p))" using assms(3) by blast
    then show ?thesis by (auto simp: Intake members_def)
  qed (use assms(5) in simp)
  show "distinct (map fst (queues r' q))" for q
  proof (cases q)
    case (Intake p)
    with assms(3) [of p] queue_invD(1) [OF assms(1)] show ?thesis by (auto simp: distinct_map_filter)
  qed (simp add: assms(4))
  show "members r' q \<inter> members r' q' = {}" if "q \<noteq> q'" for q q'
    using queue_invD(2) [OF assms(1) that] sub by blast
  show "sorted_wrt (<) (map snd (queues r' (Intake p)))" for p
    using assms(3) [of p] queue_invD(3) [OF assms(1), of p] by (auto simp: sorted_wrt_map intro: sorted_wrt_filter)
  show "\<exists>l. fifo_score r' p = Some l \<and> snd e \<le> l" if "e \<in> set (queues r' (Intake p))" for p e
    using that assms(3) [of p] queue_invD(4) [OF assms(1), of e p] by (auto simp: assms(2))
qed

lemma queue_inv_zrem: "queue_inv r \<Longrightarrow> queue_inv (on_queue q (zrem m) r)"
proof (rule queue_inv_shrink)
  assume inv: "queue_inv r"
  show "\<exists>P. queues (on_queue q (zrem m) r) (Intake p) = filter P (queues r (Intake p))" for p
    by (cases "q = Intake p") (auto simp: queues_on_queue zrem_def intro: exI [of _ "\<lambda>_. True"])
  show "distinct (map fst (queues (on_queue q (zrem m) r) Execution))"
    using queue_invD(1) [OF inv] by (simp add: queues_on_queue distinct_zrem)
qed (auto simp: members_def queues_on_queue)

lemma queue_inv_drop_member: "queue_inv r \<Longrightarrow> queue_inv (drop_member m r)"
  by (rule queue_inv_shrink) (auto simp: members_def zrem_def queue_invD(1) distinct_map_filter)

text \<open>A member in no queue may be added to one.\<close>

lemma queue_inv_add_execution:
  assumes "queue_inv r" and "\<And>q. m \<notin> members r q"
  shows "queue_inv (on_queue Execution (zadd m s) r)"
proof (rule queue_invI)
  have mem: "members (on_queue Execution (zadd m s) r) q = (if q = Execution then insert m (members r q) else members r q)" for q
    using assms(2) by (force simp: members_def queues_on_queue set_zadd)
  show "distinct (map fst (queues (on_queue Execution (zadd m s) r) q))" for q
    using queue_invD(1) [OF assms(1)] by (simp add: queues_on_queue distinct_zadd)
  show "members (on_queue Execution (zadd m s) r) q \<inter> members (on_queue Execution (zadd m s) r) q' = {}" if "q \<noteq> q'" for q q'
    using queue_invD(2) [OF assms(1) that] assms(2) that by (auto simp: mem)
qed (use queue_invD(3,4) [OF assms(1)] in \<open>simp_all add: queues_on_queue\<close>)

lemma queue_inv_add_intake:
  assumes "queue_inv r" and "\<And>q. m \<notin> members r q" and "\<And>l. fifo_score r p = Some l \<Longrightarrow> l < s"
  shows "queue_inv (set_fifo p s (on_queue (Intake p) (zadd m s) r))" (is "queue_inv ?r")
proof (rule queue_invI)
  have fresh: "zrem m (queues r q) = queues r q" for q
    using assms(2) [of q] by (auto simp: zrem_def members_def filter_id_conv)
  have qs: "queues (on_queue (Intake p) (zadd m s) r) q = (if q = Intake p then queues r q @ [(m, s)] else queues r q)" for q
    by (simp add: queues_on_queue zadd_def fresh)
  have mem: "members ?r q = (if q = Intake p then insert m (members r q) else members r q)" for q
    by (auto simp: members_def qs)
  have low: "snd e < s" if "e \<in> set (queues r (Intake p))" for e
    using queue_invD(4) [OF assms(1) that] assms(3) by fastforce
  show "distinct (map fst (queues ?r q))" for q
    using queue_invD(1) [OF assms(1), of q] assms(2) [of q] by (auto simp: qs members_def)
  show "members ?r q \<inter> members ?r q' = {}" if "q \<noteq> q'" for q q'
    using queue_invD(2) [OF assms(1) that] assms(2) that by (auto simp: mem)
  show "sorted_wrt (<) (map snd (queues ?r (Intake p')))" for p'
    using queue_invD(3) [OF assms(1), of p'] low by (auto simp: qs sorted_wrt_append)
  show "\<exists>l. fifo_score ?r p' = Some l \<and> snd e \<le> l" if "e \<in> set (queues ?r (Intake p'))" for p' e
    using that queue_invD(4) [OF assms(1), of e p'] low [of e] by (cases "p' = p") (auto simp: qs)
qed

lemma on_queue_same: "f (queues r q) = queues r q \<Longrightarrow> on_queue q f r = r"
  by (cases "queue_entries r"; cases "(q, [] :: zset, queue_entries r)" rule: put_queue.cases) (auto simp: on_queue_def queues_def)

section \<open>Every operation keeps it\<close>

lemma enqueue_score_above: "l < enqueue_score t (Some l)"
  by (simp add: enqueue_score_def Let_def)

lemma atomic_enqueue_accepted:
  assumes "atomic_enqueue c t ttl pl rid p r = (True, r')"
  obtains d score where "rid \<notin> result_keys r" "rid \<notin> in_progress_keys r" "score = enqueue_score t (fifo_score r p)"
    "r' = set_fifo p score (on_queue (Intake p) (zadd rid score) (set_payload rid (d, pl) (drop_member rid r)))"
    "d = c + ttl + ceil_ms (max 0 (score - 1000 * t))"
proof -
  have gone: "drop_member rid r = r" if "\<forall>q. zscore rid (queues r q) = None"
  proof -
    have "zrem rid (queues r q) = queues r q" for q
      using that zscore_members [of rid r q] by (auto simp: zrem_def members_def filter_id_conv)
    then show ?thesis by (auto simp: drop_member_def known_queues_def priorities_def on_queue_same)
  qed
  show thesis
    using assms gone
    by (intro that [of "enqueue_score t (fifo_score r p)" "c + ttl + ceil_ms (max 0 (enqueue_score t (fifo_score r p) - 1000 * t))"])
      (auto simp: atomic_enqueue_def Let_def algebra_simps split: if_splits)
qed

lemma atomic_enqueue_refused: "atomic_enqueue c t ttl pl rid p r = (False, r') \<Longrightarrow> r' = r"
  by (auto simp: atomic_enqueue_def Let_def split: if_splits)

lemma queue_inv_payload: "queue_inv (set_payload rid v r) = queue_inv r" "queue_inv (delete_payload rid r) = queue_inv r"
  by (simp_all add: queue_inv_def members_def)

lemma members_payload [simp]: "members (set_payload rid v r) = members r"
  by (simp add: members_def fun_eq_iff)

lemma not_member_dropped [simp]: "rid \<notin> members (drop_member rid r) q"
  by (auto simp: members_def)

lemma atomic_enqueue_inv:
  assumes "atomic_enqueue c t ttl pl rid p r = (b, r')" and "queue_inv r"
  shows "queue_inv r'"
proof (cases b)
  case True
  have "atomic_enqueue c t ttl pl rid p r = (True, r')" using assms(1) True by simp
  then obtain d score
    where r': "r' = set_fifo p score (on_queue (Intake p) (zadd rid score) (set_payload rid (d, pl) (drop_member rid r)))" and score: "score = enqueue_score t (fifo_score r p)"
    by (rule atomic_enqueue_accepted)
  show ?thesis
    unfolding r'
    by (rule queue_inv_add_intake) (simp_all add: queue_inv_payload queue_inv_drop_member assms(2) score enqueue_score_above)
qed (use assms atomic_enqueue_refused [of c t ttl pl rid p r r'] in simp)

lemma admit_from_inv:
  assumes "queue_inv r" and "set qs \<subseteq> range Intake" and "admit_from c n k lm qs r = (a, r')"
  shows "queue_inv r'"
  using assms
proof (induction c n k lm qs r rule: admit_from.induct)
  case (2 c n k lm q qs r)
  show ?case
  proof (cases "zfirst (1000 * n) (queues r q)")
    case None
    with 2 show ?thesis by simp
  next
    case (Some e)
    obtain m s where e: "e = (m, s)" by (cases e)
    let ?r = "on_queue q (zrem m) r"
    have inv: "queue_inv ?r" by (rule queue_inv_zrem [OF "2.prems"(1)])
    have "m \<in> members r q" using zfirst_in(1) [OF Some] e by (force simp: members_def)
    then have gone: "m \<notin> members ?r q'" for q'
      using queue_invD(2) [OF "2.prems"(1), of q q'] by (auto simp: members_def queues_on_queue)
    show ?thesis
      using "2.prems"(3) inv queue_inv_add_execution [OF inv gone] "2.IH"(2) [OF Some e [symmetric] refl _ _ inv "2.prems"(2)]
      by (auto simp: Some e Let_def split: if_splits)
  qed
qed simp

lemma remove_unstarted_inv: "remove_unstarted rid r = (b, r') \<Longrightarrow> queue_inv r \<Longrightarrow> queue_inv r'"
  by (auto simp: remove_unstarted_def queue_inv_payload queue_inv_drop_member split: if_splits)

lemma queue_inv_release: "queue_inv (release_abandoned_deliveries r) = queue_inv r"
  by (simp add: queue_inv_def members_def release_abandoned_deliveries_def queues_def fifo_score_def)

text \<open>
  What can happen to the Redis state: the pool's scripts, its release at start, the expiry of keys, and
  the arq worker, which takes members out of the execution queue or rescores them there.
\<close>

inductive queue_step :: "redis \<Rightarrow> redis \<Rightarrow> bool" where
  enqueue: "atomic_enqueue c t ttl pl rid p r = (b, r') \<Longrightarrow> queue_step r r'"
| admit: "admit_one_script c n (map Intake ps) r = (a, r') \<Longrightarrow> queue_step r r'"
| remove: "remove_unstarted rid r = (b, r') \<Longrightarrow> queue_step r r'"
| release: "queue_step r (release_abandoned_deliveries r)"
| arq: "queues r' (Intake High) = queues r (Intake High) \<Longrightarrow> queues r' (Intake Normal) = queues r (Intake Normal)
    \<Longrightarrow> queues r' (Intake Low) = queues r (Intake Low) \<Longrightarrow> fifo_score r' = fifo_score r
    \<Longrightarrow> distinct (map fst (queues r' Execution)) \<Longrightarrow> members r' Execution \<subseteq> members r Execution \<Longrightarrow> queue_step r r'"

inductive_cases queue_stepE: "queue_step r r'"

lemma queue_inv_step: "queue_inv r \<Longrightarrow> queue_step r r' \<Longrightarrow> queue_inv r'"
proof (erule queue_stepE)
  fix c n ps a
  assume "queue_inv r" "admit_one_script c n (map Intake ps) r = (a, r')"
  then show "queue_inv r'" using admit_from_inv [of r "map Intake ps" c n 0 100 a r'] by (auto simp: admit_one_script_def)
next
  assume inv: "queue_inv r" and same: "queues r' (Intake High) = queues r (Intake High)"
    "queues r' (Intake Normal) = queues r (Intake Normal)" "queues r' (Intake Low) = queues r (Intake Low)"
    and rest: "fifo_score r' = fifo_score r" "distinct (map fst (queues r' Execution))" "members r' Execution \<subseteq> members r Execution"
  have "queues r' (Intake p) = filter (\<lambda>_. True) (queues r (Intake p))" for p using same by (cases p) simp_all
  then show "queue_inv r'" by (intro queue_inv_shrink [OF inv rest(1) _ rest(2,3)]) blast
qed (auto simp: queue_inv_release dest: atomic_enqueue_inv remove_unstarted_inv)

lemma empty_queue_map: "get_queue (Queues [] [] [] []) q = []"
  by (cases "(Queues [] [] [] [], q)" rule: get_queue.cases) auto

lemma queue_inv_empty: "queue_inv empty_redis"
  by (auto simp: queue_inv_def members_def empty_redis_def queues_def empty_queue_map)

interpretation queue: invariant_system "\<lambda>r. r = empty_redis" queue_step queue_inv
  by unfold_locales (auto intro: queue_inv_empty queue_inv_step)

lemma reachable_queue_inv: "queue_step\<^sup>*\<^sup>* empty_redis r \<Longrightarrow> queue_inv r"
  by (rule queue.reachable_inv) auto

section \<open>One queue per run\<close>

lemma queue_members_single:
  assumes "queue_inv r"
  shows "length (queue_members rid r) \<le> 1"
proof -
  have two: "zscore rid (queues r q) = None \<or> zscore rid (queues r q') = None" if "q \<noteq> q'" for q q'
    using queue_invD(2) [OF assms that] zscore_members [of rid r q] zscore_members [of rid r q'] by blast
  show ?thesis
    using two [of Execution "Intake High"] two [of Execution "Intake Normal"] two [of Execution "Intake Low"]
      two [of "Intake High" "Intake Normal"] two [of "Intake High" "Intake Low"] two [of "Intake Normal" "Intake Low"]
    by (auto simp: queue_members_def known_queues_def priorities_def split: option.splits)
qed

text \<open>
  Claim C30. In every reachable state of the queue a run is in at most one of the four queues, so the
  inspection of a delivery never finds it twice and always returns a state.
\<close>

theorem delivery_in_one_queue:
  assumes "queue_step\<^sup>*\<^sup>* empty_redis r"
  shows "(\<exists>s. inspect_delivery c n rid r = Inr s) \<and> (rid \<in> members r q \<and> rid \<in> members r q' \<longrightarrow> q = q')"
proof -
  have inv: "queue_inv r" by (rule reachable_queue_inv [OF assms])
  have "\<exists>s. delivery_snapshot c n rid r = Inr s"
    using queue_members_single [OF inv, of rid]
    by (auto simp: delivery_snapshot_def Let_def split: list.splits prod.splits)
  then show ?thesis using queue_invD(2) [OF inv, of q q'] by (auto simp: inspect_delivery_def)
qed

section \<open>First in, first out\<close>

lemma zfirst_head:
  assumes "zfirst limit z = Some e" and "sorted_wrt (<) (map snd z)"
  shows "\<exists>z'. z = e # z'"
proof (cases z)
  case (Cons h t)
  have "h = e"
  proof (rule ccontr)
    assume "h \<noteq> e"
    then have "e \<in> set t" using zfirst_in(1) [OF assms(1)] Cons by auto
    then have "snd h < snd e" using assms(2) Cons by auto
    moreover from this have "snd h \<le> limit" using zfirst_in(2) [OF assms(1)] by simp
    ultimately show False using zfirst_in(3) [OF assms(1)] Cons by auto
  qed
  with Cons show ?thesis by simp
qed (use zfirst_in(1) [OF assms(1)] in simp)

lemma zrem_head: "distinct (map fst (e # z)) \<Longrightarrow> zrem (fst e) (e # z) = z"
  unfolding zrem_def by (auto intro!: filter_True simp: image_iff)

definition oldest_live :: "int \<Rightarrow> string \<Rightarrow> queue_name \<Rightarrow> redis \<Rightarrow> bool" where
  "oldest_live c m q r \<longleftrightarrow> payload_exists c m r
     \<and> (\<exists>older s newer. queues r q = older @ (m, s) # newer \<and> (\<forall>e \<in> set older. \<not> payload_exists c (fst e) r))"

lemma admit_from_oldest:
  assumes "queue_inv r" and "set qs \<subseteq> range Intake" and "distinct qs" and "admit_from c n k lm qs r = (Some (m, q0), r')"
  shows "q0 \<in> set qs \<and> oldest_live c m q0 r"
  using assms
proof (induction c n k lm qs r rule: admit_from.induct)
  case (2 c n k lm q qs r)
  show ?case
  proof (cases "zfirst (1000 * n) (queues r q)")
    case None
    with 2 show ?thesis by simp
  next
    case (Some e)
    obtain m1 s1 where e: "e = (m1, s1)" by (cases e)
    let ?r = "on_queue q (zrem m1) r"
    have inv: "queue_inv ?r" by (rule queue_inv_zrem [OF "2.prems"(1)])
    have "sorted_wrt (<) (map snd (queues r q))" using "2.prems"(2) queue_invD(3) [OF "2.prems"(1)] by auto
    then obtain z where z: "queues r q = (m1, s1) # z" using zfirst_head [OF Some] e by blast
    have rest: "queues ?r q = z" "q' \<noteq> q \<Longrightarrow> queues ?r q' = queues r q'" for q'
      using zrem_head [of "(m1, s1)" z] queue_invD(1) [OF "2.prems"(1), of q] by (simp_all add: queues_on_queue z)
    show ?thesis
    proof (cases "payload_exists c m1 r")
      case True
      with "2.prems"(4) Some e have "m = m1" "q0 = q" by (auto simp: Let_def)
      moreover from z have "queues r q = [] @ (m1, s1) # z" by simp
      ultimately show ?thesis using True unfolding oldest_live_def by fastforce
    next
      case False
      have "q0 \<in> set (q # qs) \<and> oldest_live c m q0 ?r"
        using "2.prems"(4) False by (intro "2.IH"(2) [OF Some e [symmetric] refl _ _ inv "2.prems"(2,3)])
          (auto simp: Some e Let_def split: if_splits)
      then obtain older s newer where found: "q0 \<in> set (q # qs)" "payload_exists c m r"
        "queues ?r q0 = older @ (m, s) # newer" "\<forall>e \<in> set older. \<not> payload_exists c (fst e) r"
        by (auto simp: oldest_live_def)
      show ?thesis
      proof (cases "q0 = q")
        case True
        with found rest(1) z have "queues r q0 = ((m1, s1) # older) @ (m, s) # newer" by simp
        moreover have "\<forall>e \<in> set ((m1, s1) # older). \<not> payload_exists c (fst e) r" using found(4) False by simp
        ultimately show ?thesis using found(1,2) unfolding oldest_live_def by blast
      qed (use found rest(2) in \<open>auto simp: oldest_live_def\<close>)
    qed
  qed
qed simp

lemma selection_order_facts: "distinct (selection_order k) \<and> set (selection_order k) = {High, Normal, Low}"
  by (cases "preferred k") (auto simp: selection_order_def priorities_def)

lemma admit_one_script_order:
  "admit_one c n (k, r) = (out, k', r') \<Longrightarrow> admit_one_script c n (map Intake (selection_order k)) r = (out, r')"
  by (auto simp: admit_one_def split: prod.splits option.splits)

text \<open>
  Admission takes the oldest live delivery of an intake queue: every delivery enqueued before it in the
  same queue has lost its payload.
\<close>

theorem intake_fifo:
  assumes "queue_step\<^sup>*\<^sup>* empty_redis r" and "admit_one c n (k, r) = (Some (m, q), k', r')"
  shows "(\<exists>p. q = Intake p) \<and> oldest_live c m q r"
proof -
  have "admit_from c n 0 100 (map Intake (selection_order k)) r = (Some (m, q), r')"
    using admit_one_script_order [OF assms(2)] by (simp add: admit_one_script_def)
  then have "q \<in> set (map Intake (selection_order k)) \<and> oldest_live c m q r"
    by (rule admit_from_oldest [OF reachable_queue_inv [OF assms(1)], rotated 2])
      (auto simp: selection_order_facts distinct_map inj_on_def)
  then show ?thesis by auto
qed

section \<open>Fairness\<close>

definition live_ready :: "int \<Rightarrow> int \<Rightarrow> priority \<Rightarrow> redis \<Rightarrow> bool" where
  "live_ready c n p r \<longleftrightarrow> (\<exists>(m, s) \<in> set (queues r (Intake p)). s \<le> 1000 * n \<and> payload_exists c m r)"

lemma admit_from_first:
  assumes "admit_from c n k lm (q # qs) r = (Some (m, q0), r')" and "q = Intake p" and "live_ready c n p r"
  shows "q0 = q"
  using assms
proof (induction "length (queues r q)" arbitrary: k r rule: less_induct)
  case less
  obtain m2 s2 where live: "(m2, s2) \<in> set (queues r q)" "s2 \<le> 1000 * n" "payload_exists c m2 r"
    using less.prems(2,3) by (auto simp: live_ready_def)
  then obtain e where e: "zfirst (1000 * n) (queues r q) = Some e"
    by (cases "sort_key (\<lambda>e. (snd e, fst e)) (filter (\<lambda>e. snd e \<le> 1000 * n) (queues r q))")
      (auto simp: zfirst_def dest: arg_cong [where f = set])
  obtain m1 s1 where e1: "e = (m1, s1)" by (cases e)
  let ?r = "on_queue q (zrem m1) r"
  show ?case
  proof (cases "payload_exists c m1 r")
    case False
    then have "m2 \<noteq> m1" using live(3) by auto
    then have "live_ready c n p ?r" using live less.prems(2) by (auto simp: live_ready_def queues_on_queue)
    moreover have "length (queues ?r q) < length (queues r q)"
      using zrem_shrinks [OF zfirst_in(1) [OF e]] by (simp add: queues_on_queue e1)
    moreover have "admit_from c n (k + 1) lm (q # qs) ?r = (Some (m, q0), r')"
      using less.prems(1) False unfolding admit_from.simps(2) [of c n k] e e1 by (auto simp: Let_def split: if_splits)
    ultimately show ?thesis using less.hyps less.prems(2) by blast
  qed (use less.prems(1) in \<open>auto simp: e e1 Let_def\<close>)
qed

text \<open>
  A sequence of admissions: each event is the two clocks of one attempt and what happened to the queues
  since the previous one; the trace records the state each attempt found and what it admitted.
\<close>

fun admissions ::
    "(int \<times> int \<times> (redis \<Rightarrow> redis)) list \<Rightarrow> nat \<times> redis
     \<Rightarrow> (int \<times> int \<times> redis \<times> (string \<times> queue_name) option) list" where
  "admissions [] w = []"
| "admissions ((c, n, f) # es) (k, r) = (case admit_one c n (k, f r) of
     (out, w') \<Rightarrow> (c, n, f r, out) # admissions es w')"

definition share :: "priority \<Rightarrow> nat" where
  "share p = count_list fair_admission_cycle p"

definition from_queue :: "priority \<Rightarrow> int \<times> int \<times> redis \<times> (string \<times> queue_name) option \<Rightarrow> bool" where
  "from_queue p ev \<longleftrightarrow> (case ev of (_, _, _, Some (_, q)) \<Rightarrow> q = Intake p | _ \<Rightarrow> False)"

lemma admissions_share:
  assumes "\<forall>(c, n, r, out) \<in> set (admissions es (k, r)). out \<noteq> None \<and> live_ready c n p r" and "k < 7"
  shows "length (filter (from_queue p) (admissions es (k, r)))
    \<ge> length (filter (\<lambda>i. preferred i = p) (map (\<lambda>i. (k + i) mod 7) [0..<length es]))"
  using assms
proof (induction es arbitrary: k r)
  case (Cons ev es)
  obtain c n f where ev: "ev = (c, n, f)" by (cases ev)
  obtain out k' r' where run: "admit_one c n (k, f r) = (out, k', r')" by (cases "admit_one c n (k, f r)") auto
  from Cons.prems(1) obtain m q where out: "out = Some (m, q)" and live: "live_ready c n p (f r)" by (auto simp: ev run)
  have k': "k' = (k + 1) mod 7"
    using run out by (auto simp: admit_one_def admitted_def fair_admission_cycle_def split: prod.splits option.splits)
  have turn: "q = Intake p" if "preferred k = p"
  proof (rule admit_from_first [OF _ refl live])
    show "admit_from c n 0 100 (Intake p # map Intake (filter (\<lambda>x. x \<noteq> p) priorities)) (f r) = (Some (m, q), r')"
      using admit_one_script_order [OF run] that out by (simp add: admit_one_script_def selection_order_def)
  qed
  have rest: "length (filter (\<lambda>i. preferred i = p) (map (\<lambda>i. (k' + i) mod 7) [0..<length es]))
      \<le> length (filter (from_queue p) (admissions es (k', r')))"
    by (rule Cons.IH) (use Cons.prems(1) in \<open>simp_all add: ev run k'\<close>)
  have shift: "map (\<lambda>i. (k + i) mod 7) [0..<length (ev # es)] = k # map (\<lambda>i. (k' + i) mod 7) [0..<length es]"
    using Cons.prems(2) by (simp add: k' map_upt_Suc mod_simps del: upt_Suc)
  have "from_queue p (c, n, f r, out)" if "preferred k = p" using turn [OF that] out by (simp add: from_queue_def)
  with rest show ?case unfolding shift by (auto simp: ev run)
qed simp

text \<open>
  Claim C31. Admission is fair: whenever seven consecutive admissions succeed while a priority has a live
  ready delivery at each of them, at least its share of the seven comes from that priority, four
  for high, two for normal and one for low, wherever in the cycle the seven begin and whatever else
  happens to the queues in between.
\<close>

theorem admission_is_fair:
  assumes "length es = 7" and "k < 7"
    and "\<forall>(c, n, r, out) \<in> set (admissions es (k, r)). out \<noteq> None \<and> live_ready c n p r"
  shows "share p \<le> length (filter (from_queue p) (admissions es (k, r)))
    \<and> share High = 4 \<and> share Normal = 2 \<and> share Low = 1"
proof -
  have "list_all (\<lambda>k. list_all (\<lambda>p. length (filter (\<lambda>i. preferred i = p) (map (\<lambda>i. (k + i) mod 7) [0..<7])) = share p)
      [High, Normal, Low]) [0..<7]" by code_simp
  then have "length (filter (\<lambda>i. preferred i = p) (map (\<lambda>i. (k + i) mod 7) [0..<7])) = share p"
    using assms(2) by (cases p) (simp_all add: list_all_iff)
  then show ?thesis
    using admissions_share [OF assms(3,2)] by (simp add: assms(1)) (simp add: share_def fair_admission_cycle_def)
qed

section \<open>Capacity\<close>

lemma admit_from_execution:
  assumes "queue_inv r" and "set qs \<subseteq> range Intake" and "admit_from c n k lm qs r = (out, r')"
  shows "case out of None \<Rightarrow> queues r' Execution = queues r Execution
    | Some (m, q) \<Rightarrow> (\<exists>s. s \<le> 1000 * n \<and> queues r' Execution = queues r Execution @ [(m, s)])"
  using assms
proof (induction c n k lm qs r rule: admit_from.induct)
  case (2 c n k lm q qs r)
  show ?case
  proof (cases "zfirst (1000 * n) (queues r q)")
    case None
    with 2 show ?thesis by simp
  next
    case (Some e)
    obtain m1 s1 where e: "e = (m1, s1)" by (cases e)
    let ?r = "on_queue q (zrem m1) r"
    have inv: "queue_inv ?r" by (rule queue_inv_zrem [OF "2.prems"(1)])
    have q: "q \<noteq> Execution" using "2.prems"(2) by auto
    then have same: "queues ?r Execution = queues r Execution" by (simp add: queues_on_queue)
    have "m1 \<in> members r q" using zfirst_in(1) [OF Some] e by (force simp: members_def)
    then have "m1 \<notin> members r Execution" using queue_invD(2) [OF "2.prems"(1) q] by blast
    then have add: "zadd m1 s1 (queues r Execution) = queues r Execution @ [(m1, s1)]"
      by (auto simp: zadd_def zrem_def members_def filter_id_conv)
    show ?thesis
    proof (cases "payload_exists c m1 r \<or> k + 1 \<ge> lm")
      case True
      with "2.prems"(3) zfirst_in(2) [OF Some] q add show ?thesis
        by (auto simp: Some e Let_def queues_on_queue split: if_splits)
    next
      case False
      with "2.prems"(3) have "admit_from c n (k + 1) lm (q # qs) ?r = (out, r')"
        unfolding admit_from.simps(2) [of c n k] Some e by (simp add: Let_def)
      with False show ?thesis using "2.IH"(2) [OF Some e [symmetric] refl _ _ inv "2.prems"(2)] unfolding same by simp
    qed
  qed
qed simp

lemma admit_one_ready:
  assumes "queue_inv r" and "admit_one c n (k, r) = (out, k', r')"
  shows "ready_members n r' = ready_members n r + (if out = None then 0 else 1) \<and> queue_inv r'"
proof -
  have run: "admit_from c n 0 100 (map Intake (selection_order k)) r = (out, r')"
    using admit_one_script_order [OF assms(2)] by (simp add: admit_one_script_def)
  have sub: "set (map Intake (selection_order k)) \<subseteq> range Intake" by auto
  have "ready_members n r' = ready_members n r + (if out = None then 0 else 1)"
    using admit_from_execution [OF assms(1) sub run] by (cases out) (auto simp: ready_members_def)
  with admit_from_inv [OF assms(1) sub run] show ?thesis by blast
qed

lemma admit_up_to_ready:
  assumes "queue_inv (snd w)" and "admit_up_to c n j w = (as, w')"
  shows "ready_members n (snd w') = ready_members n (snd w) + length as \<and> length as \<le> j"
  using assms
proof (induction j arbitrary: w as)
  case (Suc j)
  obtain out k1 r1 where one: "admit_one c n w = (out, k1, r1)" by (cases "admit_one c n w") auto
  have step: "ready_members n r1 = ready_members n (snd w) + (if out = None then 0 else 1) \<and> queue_inv r1"
    by (rule admit_one_ready [of "snd w" c n "fst w"]) (use Suc.prems(1) one in simp_all)
  show ?case
  proof (cases out)
    case (Some a)
    obtain bs w2 where rest: "admit_up_to c n j (k1, r1) = (bs, w2)" by (cases "admit_up_to c n j (k1, r1)")
    show ?thesis using Suc.IH [of "(k1, r1)" bs] step rest Suc.prems(2) by (auto simp: one Some)
  qed (use step Suc.prems(2) in \<open>auto simp: one\<close>)
qed simp

text \<open>
  A poll never overfills the worker: as long as no more than \<open>max_jobs\<close> deliveries were ready for
  execution before the poll, no more are after its admissions, and each admission adds exactly one.
\<close>

theorem poll_respects_capacity:
  assumes "queue_step\<^sup>*\<^sup>* empty_redis r" and "poll_admissions c n max_jobs counter allow memory (k, r) = (as, k', r')"
    and "ready_members n r \<le> max_jobs"
  shows "ready_members n r' = ready_members n r + length as \<and> ready_members n r' \<le> max_jobs"
proof (cases "allow \<and> counter < max_jobs \<and> memory")
  case True
  with assms(2) have "admit_up_to c n (max_jobs - ready_members n r) (k, r) = (as, k', r')" by (simp add: poll_admissions_def)
  from admit_up_to_ready [OF _ this] reachable_queue_inv [OF assms(1)] assms(3) show ?thesis by auto
qed (use assms(2,3) in \<open>auto simp: poll_admissions_def\<close>)

section \<open>Enqueueing\<close>

text \<open>
  An accepted delivery is at the end of the intake queue of its priority and in no other, with its payload and
  a score above every other score of that queue; enqueueing the same run again while its payload lives changes nothing.
\<close>

theorem enqueue_once:
  assumes "queue_step\<^sup>*\<^sup>* empty_redis r" and "atomic_enqueue c t ttl pl rid p r = (True, r')" and "0 < ttl"
  shows "queues r' (Intake p) = zrem rid (queues r (Intake p)) @ [(rid, enqueue_score t (fifo_score r p))]
    \<and> (\<forall>e \<in> set (zrem rid (queues r (Intake p))). snd e < enqueue_score t (fifo_score r p))
    \<and> (\<forall>q. q \<noteq> Intake p \<longrightarrow> rid \<notin> members r' q) \<and> payload_exists c rid r'
    \<and> (c2 < c + ttl \<longrightarrow> atomic_enqueue c2 t2 ttl2 pl2 rid p2 r' = (False, r'))"
proof -
  let ?s = "enqueue_score t (fifo_score r p)"
  from assms(2) obtain d where r': "r' = set_fifo p ?s (on_queue (Intake p) (zadd rid ?s) (set_payload rid (d, pl) (drop_member rid r)))" and d: "d = c + ttl + ceil_ms (max 0 (?s - 1000 * t))"
      and free: "rid \<notin> result_keys r" "rid \<notin> in_progress_keys r"
    by (rule atomic_enqueue_accepted) blast
  have idem: "zrem rid (zrem rid z) = zrem rid z" for z by (simp add: zrem_def)
  have at: "queues r' (Intake p) = zrem rid (queues r (Intake p)) @ [(rid, ?s)]" and other: "q \<noteq> Intake p \<Longrightarrow> rid \<notin> members r' q" for q
    by (auto simp: r' queues_on_queue zadd_def idem members_def)
  have "0 \<le> ceil_ms (max 0 (?s - 1000 * t))" by (simp add: ceil_ms_def)
  then have pay: "payload_exists c2 rid r'" if "c2 < c + ttl" for c2 using that by (simp add: payload_exists_def r' d)
  have low: "snd e < ?s" if mem: "e \<in> set (zrem rid (queues r (Intake p)))" for e
  proof -
    obtain l where "fifo_score r p = Some l" "snd e \<le> l"
      using queue_invD(4) [OF reachable_queue_inv [OF assms(1)], of e p] mem by auto
    with enqueue_score_above [of l t] show ?thesis by simp
  qed
  have inq: "\<exists>q \<in> set known_queues. zscore rid (queues r' q) \<noteq> None"
    using at zscore_members [of rid r' "Intake p"] by (intro bexI [of _ "Intake p"]) (auto simp: members_def)
  have "atomic_enqueue c2 t2 ttl2 pl2 rid p2 r' = (False, r')" if "c2 < c + ttl"
    using inq pay [OF that] by (simp add: atomic_enqueue_def)
  then show ?thesis using at other pay [of c] low assms(3) by auto
qed

section \<open>Witnesses\<close>

text \<open>Eight deliveries of each priority, the first high one an orphan: its payload has expired at time 1000.\<close>

definition sample_ttl :: "string \<Rightarrow> int" where
  "sample_ttl rid = (if rid = ''h'' then 10 else 5000)"

definition enqueued :: "string \<Rightarrow> priority \<Rightarrow> redis \<Rightarrow> redis" where
  "enqueued rid p r = snd (atomic_enqueue 100 100 (sample_ttl rid) ''payload'' rid p r)"

definition sample_redis :: redis where
  "sample_redis = fold (\<lambda>(p, rid) r. enqueued rid p r)
     [(p, replicate i CHR ''x'' @ rid). i \<leftarrow> [0..<8], (p, rid) \<leftarrow> [(High, ''h''), (Normal, ''n''), (Low, ''l'')]] empty_redis"

lemma fold_enqueued: "queue_step\<^sup>*\<^sup>* r (fold (\<lambda>(p, rid) r. enqueued rid p r) es r)"
proof (induction es arbitrary: r)
  case (Cons e es)
  obtain p rid where e: "e = (p, rid)" by (cases e)
  have "queue_step r (enqueued rid p r)"
    unfolding enqueued_def by (rule queue_step.enqueue [OF surjective_pairing])
  with Cons.IH [of "enqueued rid p r"] show ?case by (simp add: e)
qed simp

lemma sample_redis_reachable: "queue_step\<^sup>*\<^sup>* empty_redis sample_redis"
  unfolding sample_redis_def by (rule fold_enqueued)

theorem delivery_in_one_queue_witness:
  "(\<exists>s. inspect_delivery 1000 1000 ''n'' sample_redis = Inr s) \<and> ''n'' \<in> members sample_redis (Intake Normal)
     \<and> ''n'' \<notin> members sample_redis Execution"
proof -
  have "''n'' \<in> set (map fst (queues sample_redis (Intake Normal)))" by code_simp
  then have mem: "''n'' \<in> members sample_redis (Intake Normal)" by (simp add: members_def)
  with delivery_in_one_queue [OF sample_redis_reachable, of 1000 1000 "''n''" "Intake Normal" Execution] show ?thesis by blast
qed

theorem intake_fifo_witness:
  "\<exists>k' r'. admit_one 1000 1000 (0, sample_redis) = (Some (''xh'', Intake High), k', r') \<and> oldest_live 1000 ''xh'' (Intake High) sample_redis"
proof -
  have "fst (admit_one 1000 1000 (0, sample_redis)) = Some (''xh'', Intake High)" by code_simp
  then obtain k' r' where run: "admit_one 1000 1000 (0, sample_redis) = (Some (''xh'', Intake High), k', r')"
    by (metis prod.collapse)
  from intake_fifo [OF sample_redis_reachable run] run show ?thesis by blast
qed

theorem admission_is_fair_witness:
  "share Low \<le> length (filter (from_queue Low) (admissions (replicate 7 (1000, 1000, \<lambda>r. r)) (3, sample_redis)))"
proof -
  have "list_all (\<lambda>(c, n, r, out). out \<noteq> None \<and> list_ex (\<lambda>(m, s). s \<le> 1000 * n \<and> payload_exists c m r) (queues r (Intake Low)))
      (admissions (replicate 7 (1000, 1000, \<lambda>r. r)) (3, sample_redis))" by code_simp
  then have "\<forall>(c, n, r, out) \<in> set (admissions (replicate 7 (1000, 1000, \<lambda>r. r)) (3, sample_redis)). out \<noteq> None \<and> live_ready c n Low r"
    by (auto simp: list_all_iff list_ex_iff live_ready_def)
  from admission_is_fair [OF _ _ this] show ?thesis by simp
qed

theorem poll_respects_capacity_witness:
  "\<exists>as k' r'. poll_admissions 1000 1000 3 0 True True (0, sample_redis) = (as, k', r') \<and> length as = 3 \<and> ready_members 1000 r' \<le> 3"
proof -
  obtain as k' r' where run: "poll_admissions 1000 1000 3 0 True True (0, sample_redis) = (as, k', r')"
    by (metis prod.collapse)
  have "length (fst (poll_admissions 1000 1000 3 0 True True (0, sample_redis))) = 3" "ready_members 1000 sample_redis \<le> 3" by code_simp+
  with poll_respects_capacity [OF sample_redis_reachable run] run show ?thesis by auto
qed

theorem enqueue_once_witness:
  "\<exists>r'. atomic_enqueue 100 100 50 ''payload'' ''z'' Low sample_redis = (True, r') \<and> payload_exists 100 ''z'' r'
     \<and> atomic_enqueue 120 120 50 ''payload'' ''z'' High r' = (False, r')"
proof -
  have "fst (atomic_enqueue 100 100 50 ''payload'' ''z'' Low sample_redis)" by code_simp
  then obtain r' where run: "atomic_enqueue 100 100 50 ''payload'' ''z'' Low sample_redis = (True, r')"
    by (cases "atomic_enqueue 100 100 50 ''payload'' ''z'' Low sample_redis") auto
  from enqueue_once [OF sample_redis_reachable run, of 120 120 50 "''payload''" High] run show ?thesis by auto
qed

end
