(* ===== verification/Run_Cancellation.thy ===== *)
theory Run_Cancellation
  imports Delivery_Order
begin

text \<open>
  Cancelling and deleting a job, which span the job store and the delivery queue: \<open>cancel_run\<close> of
  \<^verbatim>\<open>queue/pool.py\<close>, and \<open>cancel_current_job\<close> and \<open>delete_reserved_job\<close> of \<^verbatim>\<open>api/job_lifecycle.py\<close>.

  \<open>cancel_port\<close> is what happens around the calls of \<open>cancel_run\<close>: whether Redis is connected, which
  of the calls raise, the clocks each inspection reads, what other tasks do to Redis between two calls,
  and arq's \<^verbatim>\<open>Job.abort\<close>, which is not part of the program. \<open>deletion_port\<close> does the same for
  the deletion: the outcome of the inspection and of the clean-up of the other two stores.
\<close>

section \<open>Cancelling a run in the queue\<close>












section \<open>Cancelling a job\<close>

datatype lifecycle_error = Lifecycle_error nat


section \<open>Deleting a job\<close>

record 'x deletion_port =
  lp_inspect :: "string \<Rightarrow> queue_delivery_state option"
  lp_delete_errors :: "string \<Rightarrow> 'x \<Rightarrow> bool \<times> 'x"
  lp_delete_results :: "string \<Rightarrow> string list \<Rightarrow> 'x \<Rightarrow> bool \<times> 'x"

definition reservation_status :: "deletion_reservation_action \<Rightarrow> nat option" where
  "reservation_status a = (if a \<in> {Dr_active_conflict, Dr_policy_conflict, Dr_pending_webhook_conflict} then Some 409 else None)"

definition deletion_cleanup :: "'x deletion_port \<Rightarrow> string \<Rightarrow> bool \<Rightarrow> string list \<Rightarrow> 'x \<Rightarrow> bool \<times> 'x" where
  "deletion_cleanup p jid delete_results owned x = (case lp_delete_errors p jid x of
       (False, x') \<Rightarrow> (False, x')
     | (True, x') \<Rightarrow> if delete_results then lp_delete_results p jid owned x' else (True, x'))"

definition delete_reserved_job ::
    "'x deletion_port \<Rightarrow> string \<Rightarrow> bool \<Rightarrow> instant \<Rightarrow> jobs_db \<times> 'x \<times> string set
     \<Rightarrow> (lifecycle_error + unit) \<times> jobs_db \<times> 'x \<times> string set" where
  "delete_reserved_job p jid delete_results t s = (let (db, x, sched) = s in
     case reserve_job_deletion jid delete_results t db of
       Inl _ \<Rightarrow> (Inl (Lifecycle_error 500), db, x, sched)
     | Inr (res, db1) \<Rightarrow>
         if dr_action res = Dr_missing then (Inr (), db1, x, sched)
         else (case reservation_status (dr_action res) of
           Some code \<Rightarrow> (Inl (Lifecycle_error code), db1, x, sched)
         | None \<Rightarrow>
           (let sched1 = sched - {jid};
                idle = (case dr_run_id res of None \<Rightarrow> True
                  | Some rid \<Rightarrow> (case lp_inspect p rid of None \<Rightarrow> False | Some st \<Rightarrow> st \<notin> set active_delivery_states))
            in if \<not> idle then (Inl (Lifecycle_error 503), db1, x, sched1)
               else (case deletion_cleanup p jid delete_results (dr_owned_run_ids res) x of
                   (False, x1) \<Rightarrow> (Inl (Lifecycle_error 500), db1, x1, sched1)
                 | (True, x1) \<Rightarrow>
                   (case finalize_job_deletion jid delete_results None db1 of
                      Inl _ \<Rightarrow> (Inl (Lifecycle_error 500), db1, x1, sched1)
                    | Inr (f, db2) \<Rightarrow>
                        if df_action f \<in> {Df_pending_webhook_conflict, Df_policy_conflict, Df_not_reserved}
                        then (Inl (Lifecycle_error 409), db2, x1, sched1)
                        else (Inr (), db2, x1, sched1))))))"

section \<open>A cancelled run is quiescent\<close>









section \<open>Cancelling a job\<close>



section \<open>Deleting a job\<close>

definition deletes :: "'x deletion_port \<Rightarrow> bool" where
  "deletes p \<longleftrightarrow> (\<forall>rid. \<exists>st. lp_inspect p rid = Some st \<and> st \<notin> set active_delivery_states)
     \<and> (\<forall>jid x. fst (lp_delete_errors p jid x)) \<and> (\<forall>jid owned x. fst (lp_delete_results p jid owned x))"

lemma deletion_cleanup_deletes: "deletes p \<Longrightarrow> fst (deletion_cleanup p jid pol owned x)"
  by (auto simp: deletes_def deletion_cleanup_def split: prod.splits bool.splits) (metis fst_conv)+

lemma reserved_row:
  assumes "reserve_job_deletion jid pol t db = Inr (res, db1)" and "dr_action res \<in> {Dr_created, Dr_resumed}" and "wf_db db"
  shows "\<exists>j. find_job db1 jid = Some j \<and> j_status j = Deleting \<and> j_delete_results_on_delete j = Some pol"
    and "\<not> has_pending_webhook db1 jid" and "wf_db db1"
proof -
  have "(\<exists>j. find_job db1 jid = Some j \<and> j_status j = Deleting \<and> j_delete_results_on_delete j = Some pol)
      \<and> \<not> has_pending_webhook db1 jid"
    using assms(1)
  proof (cases rule: reserve_job_deletionE)
    case keep
    with assms(1,2) show ?thesis
      by (auto simp: reserve_job_deletion_def reservation_def Let_def split: option.splits if_splits)
  next
    case (reserved st r P)
    define f where "f = (\<lambda>x :: job_row. x\<lparr>j_status := Deleting, j_schedule_enabled := False,
        j_updated_at := Some t, j_deletion_requested_at := Some t, j_delete_results_on_delete := Some pol\<rparr>)"
    from assms(3) reserved(4) obtain j where j: "j \<in> set (jobs db)" "P j" "j_job_id j = jid"
      by (rule owned_job [where jid = jid]) (auto simp: reserved(1))
    have "find_job (update_jobs P f db) (j_job_id j) = Some (f j)"
      by (rule find_job_updated [where P = P and f = f, OF assms(3) j(1,2)]) (simp add: f_def)
    then have "find_job db1 jid = Some (f j)" by (simp add: reserved(6) f_def j(3))
    moreover have "\<not> has_pending_webhook db1 jid"
      using reserved(3) by (simp add: reserved(6) has_pending_webhook_def update_jobs_def)
    ultimately show ?thesis by (simp add: f_def)
  qed
  then show "\<exists>j. find_job db1 jid = Some j \<and> j_status j = Deleting \<and> j_delete_results_on_delete j = Some pol"
    "\<not> has_pending_webhook db1 jid" by auto
  show "wf_db db1" using reserve_job_deletion_sim [OF assms(1,3)] by (simp add: simulated_def)
qed

lemma reserved_deletion_succeeds:
  assumes "wf_db db" and "find_job db jid = Some j" and "j_status j = Deleting" and "j_delete_results_on_delete j = Some pol"
    and "\<not> has_pending_webhook db jid" and "deletes p"
  shows "\<exists>db' x'. delete_reserved_job p jid pol t (db, x, sched) = (Inr (), db', x', sched - {jid}) \<and> find_job db' jid = None"
proof -
  have res: "reserve_job_deletion jid pol t db = Inr (reservation Dr_resumed jid (j_current_run_id j) (Some Deleting) pol
      (owned_run_ids db jid (j_current_run_id j)), db)"
    using assms(2-5) by (simp add: reserve_job_deletion_def Let_def)
  obtain x1 where clean: "deletion_cleanup p jid pol (owned_run_ids db jid (j_current_run_id j)) x = (True, x1)"
    using deletion_cleanup_deletes [OF assms(6)] by (metis prod.collapse)
  have idle: "(case j_current_run_id j of None \<Rightarrow> True
      | Some rid \<Rightarrow> (case lp_inspect p rid of None \<Rightarrow> False | Some st \<Rightarrow> st \<notin> set active_delivery_states))"
    using assms(6) by (auto simp: deletes_def split: option.splits) (metis option.inject option.distinct(1))+
  let ?P = "\<lambda>x. j_job_id x = jid \<and> j_status x = Deleting \<and> j_delete_results_on_delete x = Some pol"
  have j: "j \<in> set (jobs db)" "j_job_id j = jid" using find_job_Some [OF assms(2)] by auto
  have P: "?P k \<longleftrightarrow> j_job_id k = jid" if "k \<in> set (jobs db)" for k
    using unique_onD [OF wf_dbD(1) [OF assms(1)] that j(1)] assms(3,4) j(2) by auto
  have same: "jobs (remove_job_rows jid db) = jobs db" by (simp add: remove_job_rows_def)
  have "rowcount ?P (jobs db) = 1"
    by (subst rowcount_key_1 [OF wf_dbD(1) [OF assms(1)]]) (use j assms(3,4) in auto)
  then have fin: "finalize_job_deletion jid pol None db = Inr (finalization Df_deleted jid, delete_jobs ?P (remove_job_rows jid db))"
    using assms(2-5) by (simp add: finalize_job_deletion_def same)
  have "find_job (delete_jobs ?P (remove_job_rows jid db)) jid = None"
    unfolding find_job_def sql_first_None delete_jobs_def same by simp (use P in blast)
  moreover have "delete_reserved_job p jid pol t (db, x, sched) = (Inr (), delete_jobs ?P (remove_job_rows jid db), x1, sched - {jid})"
    using idle clean fin by (simp add: delete_reserved_job_def res reservation_def reservation_status_def finalization_def)
  ultimately show ?thesis by blast
qed

text \<open>
  Claim C33. A deletion that fails after its reservation can be resumed: the job stays reserved for deletion with the policy of
  the request, and repeating the request when the queue is idle and the other stores answer removes the job.
\<close>

theorem failed_deletion_resumes:
  assumes "wf_db db" and "reserve_job_deletion jid pol t db = Inr (res, db0)" and "dr_action res \<in> {Dr_created, Dr_resumed}"
    and "delete_reserved_job p jid pol t (db, x, sched) = (Inl e, db1, x1, sched1)" and "deletes p2"
  shows "(\<exists>j. find_job db1 jid = Some j \<and> j_status j = Deleting \<and> j_delete_results_on_delete j = Some pol)
    \<and> (\<exists>db2 x2. delete_reserved_job p2 jid pol t2 (db1, x1, sched1) = (Inr (), db2, x2, sched1) \<and> find_job db2 jid = None)"
proof -
  note row = reserved_row [OF assms(2,3,1)]
  have "finalize_job_deletion jid pol None db0 = Inr (f, db2) \<Longrightarrow>
      df_action f \<notin> {Df_pending_webhook_conflict, Df_policy_conflict, Df_not_reserved}" for f db2
    using row(1,2) by (auto simp: finalize_job_deletion_def finalization_def Let_def split: if_splits option.splits)
  with assms(2-4) have "db1 = db0 \<and> sched1 = sched - {jid}"
    by (auto simp: delete_reserved_job_def reservation_status_def Let_def split: option.splits if_splits prod.splits bool.splits sum.splits)
  moreover obtain j where "find_job db0 jid = Some j" "j_status j = Deleting" "j_delete_results_on_delete j = Some pol"
    using row(1) by blast
  ultimately show ?thesis
    using reserved_deletion_succeeds [where p = p2 and t = t2 and x = x1 and sched = "sched - {jid}", OF row(3) _ _ _ row(2) assms(5)]
    by auto
qed

section \<open>Witnesses\<close>




definition sample_deletion_port :: "bool \<Rightarrow> nat deletion_port" where
  "sample_deletion_port ok = \<lparr>lp_inspect = (\<lambda>_. Some D_missing), lp_delete_errors = (\<lambda>_ n. (True, n + 1)),
     lp_delete_results = (\<lambda>_ _ n. (ok, n + 1))\<rparr>"

theorem failed_deletion_resumes_witness:
  "\<exists>db1 x1 sched1 db2 x2. delete_reserved_job (sample_deletion_port False) ''j'' True 12 (sample_done, 0, {''j''})
       = (Inl (Lifecycle_error 500), db1, x1, sched1)
     \<and> (\<exists>j. find_job db1 ''j'' = Some j \<and> j_status j = Deleting \<and> j_delete_results_on_delete j = Some True)
     \<and> delete_reserved_job (sample_deletion_port True) ''j'' True 13 (db1, x1, sched1) = (Inr (), db2, x2, sched1) \<and> find_job db2 ''j'' = None"
proof -
  have "fst (delete_reserved_job (sample_deletion_port False) ''j'' True 12 (sample_done, 0, {''j''})) = Inl (Lifecycle_error 500)"
    by code_simp
  then obtain db1 x1 sched1 where failed: "delete_reserved_job (sample_deletion_port False) ''j'' True 12 (sample_done, 0, {''j''})
       = (Inl (Lifecycle_error 500), db1, x1, sched1)" by (metis prod.collapse)
  have "reserve_job_deletion ''j'' True 12 sample_done =
      Inr (reservation Dr_created ''j'' (Some ''r'') (Some Complete) True [''r''], sample_deleting)" by code_simp
  moreover have "deletes (sample_deletion_port True)"
    by (simp add: deletes_def sample_deletion_port_def active_delivery_states_def)
  ultimately show ?thesis
    using failed_deletion_resumes [OF reachable_wf [OF sample_done_reachable] _ _ failed] failed
    by (fastforce simp: reservation_def)
qed

end
