(* ===== verification/Webhook_Dispatcher.thy ===== *)
theory Webhook_Dispatcher
  imports Outbox_Contract
begin

text \<open>
  Delivery of webhooks, \<^verbatim>\<open>webhook/dispatcher.py\<close>: the classification of one HTTP attempt, the
  processing of one delivery against the outbox, the coordinator and its bounded queue, and the
  cache of HTTP clients.

  \<^item> \<open>row_to_webhook_delivery\<close> decodes a stored row; \<open>loads_json\<close> and \<open>text_of\<close> are Python's
    \<^verbatim>\<open>json.loads\<close> and \<^verbatim>\<open>str\<close> on its values.
  \<^item> \<open>http_exchange\<close> is what the network does with one request: it is a parameter of an attempt.
  \<^item> A delay is a rational number of seconds; \<open>to_micros\<close> is the rounding of \<^verbatim>\<open>timedelta\<close>.
\<close>

section \<open>Decoding a stored delivery\<close>

record webhook_delivery =
  wd_delivery_id :: string
  wd_url :: string
  wd_headers :: "(string \<times> string) list"
  wd_timeout_seconds :: seconds
  wd_payload :: "(string \<times> json) list"
  wd_status :: delivery_status
  wd_attempts :: int
  wd_next_attempt_at :: instant
  wd_created_at :: instant

definition loads_dict :: "(string \<Rightarrow> json option) \<Rightarrow> string \<Rightarrow> (string \<times> json) list option" where
  "loads_dict loads_json s = (case loads_json s of Some (JObj kvs) \<Rightarrow> Some kvs | _ \<Rightarrow> None)"

definition loads_headers :: "(string \<Rightarrow> json option) \<Rightarrow> (json \<Rightarrow> string) \<Rightarrow> string \<Rightarrow> (string \<times> string) list option" where
  "loads_headers loads_json text_of s = map_option (map (\<lambda>(k, v). (k, text_of v))) (loads_dict loads_json s)"

text \<open>The columns are read in the order of the constructor's arguments; the first exception wins.\<close>

definition row_to_webhook_delivery ::
    "env \<Rightarrow> (string \<Rightarrow> json option) \<Rightarrow> (json \<Rightarrow> string) \<Rightarrow> delivery_row \<Rightarrow> store_error + webhook_delivery" where
  "row_to_webhook_delivery e loads_json text_of d =
     (let reveal = (\<lambda>column v. reveal_text e (webhook_purpose column (d_delivery_id d)) v);
          not_object = ValueError ''Stored webhook JSON payload is not an object'' in
      case reveal ''url'' (d_url d) of None \<Rightarrow> Inl SecretDecryptionError | Some url \<Rightarrow>
      (case reveal ''headers_json'' (d_headers_json d) of None \<Rightarrow> Inl SecretDecryptionError | Some headers \<Rightarrow>
      (case loads_headers loads_json text_of headers of None \<Rightarrow> Inl not_object | Some hs \<Rightarrow>
      (case reveal ''payload_json'' (d_payload_json d) of None \<Rightarrow> Inl SecretDecryptionError | Some payload \<Rightarrow>
      (case loads_dict loads_json payload of None \<Rightarrow> Inl not_object | Some p \<Rightarrow>
      (case (case d_last_error d of None \<Rightarrow> Some [] | Some x \<Rightarrow> reveal ''last_error'' x) of
         None \<Rightarrow> Inl SecretDecryptionError
       | Some _ \<Rightarrow> Inr \<lparr>wd_delivery_id = d_delivery_id d, wd_url = url, wd_headers = hs,
           wd_timeout_seconds = d_timeout_seconds d, wd_payload = p, wd_status = d_status d, wd_attempts = d_attempts d,
           wd_next_attempt_at = d_next_attempt_at d, wd_created_at = d_created_at d\<rparr>))))))"

text \<open>
  \<open>_decode_webhook_delivery\<close>: \<^verbatim>\<open>KeyError\<close>, \<^verbatim>\<open>TypeError\<close> and \<^verbatim>\<open>ValueError\<close> are caught and make a malformed row
  (\<open>Inr None\<close>); \<^verbatim>\<open>SecretDecryptionError\<close> is a \<^verbatim>\<open>RuntimeError\<close> and is not caught.
\<close>

definition decode_webhook_delivery ::
    "env \<Rightarrow> (string \<Rightarrow> json option) \<Rightarrow> (json \<Rightarrow> string) \<Rightarrow> delivery_row \<Rightarrow> store_error + webhook_delivery option" where
  "decode_webhook_delivery e loads_json text_of d =
     (case row_to_webhook_delivery e loads_json text_of d of
        Inr w \<Rightarrow> Inr (Some w)
      | Inl (ValueError _) \<Rightarrow> Inr None
      | Inl (KeyError _) \<Rightarrow> Inr None
      | Inl x \<Rightarrow> Inl x)"

section \<open>One HTTP attempt\<close>

record dispatcher_config =
  dc_max_delivery_attempts :: int
  dc_max_delivery_age :: int
  dc_dispatch_concurrency :: nat
  dc_dispatch_batch_size :: nat
  dc_backoff_base :: seconds
  dc_backoff_max :: seconds

definition valid_dispatcher :: "dispatcher_config \<Rightarrow> bool" where
  "valid_dispatcher c \<longleftrightarrow> 1 \<le> dc_max_delivery_attempts c \<and> 1000000 \<le> dc_max_delivery_age c
     \<and> 1 \<le> dc_dispatch_concurrency c \<and> dc_dispatch_concurrency c \<le> dc_dispatch_batch_size c"

definition backoff_delay :: "dispatcher_config \<Rightarrow> nat \<Rightarrow> seconds" where
  "backoff_delay c attempt_index = min (dc_backoff_base c * 2 ^ min attempt_index 62) (dc_backoff_max c)"

definition is_retryable_status :: "int \<Rightarrow> bool" where
  "is_retryable_status code \<longleftrightarrow> code \<ge> 500 \<or> code = 429"

definition is_success_status :: "int \<Rightarrow> bool" where
  "is_success_status code \<longleftrightarrow> 200 \<le> code \<and> code \<le> 299"

text \<open>
  The value of a \<^verbatim>\<open>Retry-After\<close> header: ASCII digits, or what \<^verbatim>\<open>parsedate_to_datetime\<close> makes of the text: an
  instant, a date without a zone, or nothing.
\<close>

datatype retry_after_value = Delta_seconds nat | Http_date instant | Naive_date | Malformed_value

definition float_overflow :: nat where
  "float_overflow = 2 ^ 1024 - 2 ^ 970"

definition parse_retry_after :: "int \<Rightarrow> retry_after_value option \<Rightarrow> instant \<Rightarrow> seconds option" where
  "parse_retry_after code header now = (case header of
       None \<Rightarrow> None
     | Some v \<Rightarrow> if code \<notin> {429, 503} then None
         else (case v of
             Delta_seconds n \<Rightarrow> if n \<ge> float_overflow then None else Some (of_nat n)
           | Http_date t \<Rightarrow> if t - now \<le> 0 then None else Some (of_int (t - now) / 1000000)
           | _ \<Rightarrow> None))"

datatype dispatch_status = Dispatch_delivered | Dispatch_retryable_failed | Dispatch_permanent_failed

datatype dispatch_reason = Dr_retryable_http_response | Dr_transport_failure | Dr_permanent_http_response
  | Dr_unsafe_url | Dr_non_retryable_failure

record dispatch_result =
  dp_status :: dispatch_status
  dp_last_error :: "string option"
  dp_reason :: "dispatch_reason option"
  dp_retry_after :: "seconds option"

text \<open>What becomes of a request: the URL is refused, the transport fails, a response arrives, or something else is raised.\<close>

datatype http_exchange = Unsafe_target | Transport_error string | Response int "retry_after_value option" | Raised string

definition dispatch_outcome ::
    "dispatch_status \<Rightarrow> string option \<Rightarrow> dispatch_reason option \<Rightarrow> seconds option \<Rightarrow> dispatch_result" where
  "dispatch_outcome s err reason retry_after = \<lparr>dp_status = s, dp_last_error = err, dp_reason = reason, dp_retry_after = retry_after\<rparr>"

definition send_once :: "http_exchange \<Rightarrow> instant \<Rightarrow> string + dispatch_result" where
  "send_once x now = (case x of
       Unsafe_target \<Rightarrow> Inr (dispatch_outcome Dispatch_permanent_failed (Some ''Webhook URL is unsafe or non-public'') (Some Dr_unsafe_url) None)
     | Transport_error ty \<Rightarrow> Inr (dispatch_outcome Dispatch_retryable_failed (Some (''Transport failure: '' @ ty)) (Some Dr_transport_failure) None)
     | Raised ty \<Rightarrow> Inl ty
     | Response code retry_after \<Rightarrow>
         if is_success_status code then Inr (dispatch_outcome Dispatch_delivered None None None)
         else if \<not> is_retryable_status code
         then Inr (dispatch_outcome Dispatch_permanent_failed (Some (''HTTP '' @ int_text code)) (Some Dr_permanent_http_response) None)
         else Inr (dispatch_outcome Dispatch_retryable_failed (Some (''HTTP '' @ int_text code)) (Some Dr_retryable_http_response)
                (parse_retry_after code retry_after now)))"

definition terminal_reason :: "dispatch_reason option \<Rightarrow> failure_reason" where
  "terminal_reason r = (if r = Some Dr_permanent_http_response then Permanent_http_response
     else if r = Some Dr_unsafe_url then Unsafe_url else Non_retryable_failure)"

section \<open>Processing a delivery\<close>

definition delivery_deadline :: "dispatcher_config \<Rightarrow> webhook_delivery \<Rightarrow> instant" where
  "delivery_deadline c w = wd_created_at w + dc_max_delivery_age c"

definition fail_delivery :: "env \<Rightarrow> webhook_delivery \<Rightarrow> instant \<Rightarrow> failure_reason \<Rightarrow> string \<Rightarrow> jobs_db \<Rightarrow> jobs_db" where
  "fail_delivery e w t reason err db = snd (mark_failed e (wd_delivery_id w) t reason (Some err) (Some (wd_attempts w)) 0 db)"

definition exhaustion :: "dispatcher_config \<Rightarrow> webhook_delivery \<Rightarrow> instant \<Rightarrow> failure_reason option" where
  "exhaustion c w now = (if wd_attempts w \<ge> dc_max_delivery_attempts c then Some Attempt_exhausted
     else if now \<ge> delivery_deadline c w then Some Age_exhausted else None)"

definition fail_if_exhausted :: "env \<Rightarrow> dispatcher_config \<Rightarrow> webhook_delivery \<Rightarrow> instant \<Rightarrow> jobs_db \<Rightarrow> bool \<times> jobs_db" where
  "fail_if_exhausted e c w now db = (case exhaustion c w now of
       None \<Rightarrow> (False, db)
     | Some reason \<Rightarrow> (True, fail_delivery e w now reason
         (if reason = Attempt_exhausted then ''Maximum total webhook delivery attempts reached''
          else ''Maximum webhook delivery age reached'') db))"

text \<open>Rounding to whole microseconds, ties to the even one.\<close>

definition to_micros :: "seconds \<Rightarrow> int" where
  "to_micros s = (let x = s * 1000000; f = \<lfloor>x\<rfloor>; r = x - of_int f in
     if r < 1 / 2 then f else if r > 1 / 2 then f + 1 else if even f then f else f + 1)"

definition retry_delay_of :: "dispatcher_config \<Rightarrow> webhook_delivery \<Rightarrow> dispatch_result \<Rightarrow> seconds" where
  "retry_delay_of c w res = max (backoff_delay c (nat (max (wd_attempts w - 1) 0)))
     (case dp_retry_after res of None \<Rightarrow> 0 | Some s \<Rightarrow> s)"

definition or_message :: "string option \<Rightarrow> string \<Rightarrow> string" where
  "or_message m d = (case m of None \<Rightarrow> d | Some [] \<Rightarrow> d | Some x \<Rightarrow> x)"

text \<open>What follows the attempt: \<open>w\<close> is the delivery as reserved, with the attempt counted.\<close>

definition complete_attempt ::
    "env \<Rightarrow> dispatcher_config \<Rightarrow> webhook_delivery \<Rightarrow> dispatch_result \<Rightarrow> instant \<Rightarrow> jobs_db \<Rightarrow> jobs_db" where
  "complete_attempt e c w res completed_at db =
     (case dp_status res of
        Dispatch_delivered \<Rightarrow> snd (mark_delivered (wd_delivery_id w) completed_at (Some (wd_attempts w)) 1 db)
      | Dispatch_permanent_failed \<Rightarrow> snd (mark_failed e (wd_delivery_id w) completed_at (terminal_reason (dp_reason res))
            (Some (or_message (dp_last_error res) ''Non-retryable webhook failure'')) (Some (wd_attempts w)) 0 db)
      | Dispatch_retryable_failed \<Rightarrow>
          if wd_attempts w \<ge> dc_max_delivery_attempts c
          then fail_delivery e w completed_at Attempt_exhausted ''Maximum total webhook delivery attempts reached'' db
          else if completed_at \<ge> delivery_deadline c w
          then fail_delivery e w completed_at Age_exhausted ''Maximum webhook delivery age reached after retryable failure'' db
          else let delay = retry_delay_of c w res;
                   remaining = (of_int (delivery_deadline c w - completed_at) / 1000000 :: seconds)
               in if delay \<ge> remaining
                  then fail_delivery e w completed_at Age_exhausted ''Next retry cannot occur before maximum delivery age'' db
                  else snd (mark_retryable_failure e (wd_delivery_id w) completed_at (completed_at + to_micros delay)
                         (or_message (dp_last_error res) ''Retryable webhook delivery failure'') (Some (wd_attempts w)) 1 db))"

definition attempt_result :: "http_exchange \<Rightarrow> instant \<Rightarrow> dispatch_result" where
  "attempt_result x now = (case send_once x now of
       Inr res \<Rightarrow> res
     | Inl ty \<Rightarrow> dispatch_outcome Dispatch_permanent_failed (Some (''Non-retryable dispatcher failure: '' @ ty))
         (Some Dr_non_retryable_failure) None)"

text \<open>
  The first half of \<open>_process_delivery\<close> reserves the attempt, the second records what the network answered; other tasks
  may run in between. \<open>Some w\<close> is a reservation, so an HTTP request follows.
\<close>

definition start_delivery ::
    "env \<Rightarrow> (delivery_row \<Rightarrow> store_error + webhook_delivery option) \<Rightarrow> dispatcher_config \<Rightarrow> webhook_delivery \<Rightarrow> instant \<Rightarrow> jobs_db
     \<Rightarrow> (store_error + webhook_delivery option) \<times> jobs_db" where
  "start_delivery e decode c w now db = (case fail_if_exhausted e c w now db of
       (True, db') \<Rightarrow> (Inr None, db')
     | (False, db') \<Rightarrow> begin_attempt decode (wd_delivery_id w) (wd_attempts w) now db')"

definition process_delivery ::
    "env \<Rightarrow> (delivery_row \<Rightarrow> store_error + webhook_delivery option) \<Rightarrow> dispatcher_config \<Rightarrow> webhook_delivery \<Rightarrow> instant
     \<Rightarrow> http_exchange \<Rightarrow> instant \<Rightarrow> (jobs_db \<Rightarrow> jobs_db) \<Rightarrow> jobs_db \<Rightarrow> (store_error + webhook_delivery option) \<times> jobs_db" where
  "process_delivery e decode c w now x completed_at meanwhile db =
     (case start_delivery e decode c w now db of
        (Inr (Some reserved), db1) \<Rightarrow>
          (Inr (Some reserved), complete_attempt e c reserved (attempt_result x completed_at) completed_at (meanwhile db1))
      | (res, db1) \<Rightarrow> (res, db1))"

section \<open>The coordinator and its queue\<close>

record dispatcher =
  di_queue :: "webhook_delivery list"
  di_scheduled :: "string list"
  di_active :: "string list"

definition init_dispatcher :: dispatcher where
  "init_dispatcher = \<lparr>di_queue = [], di_scheduled = [], di_active = []\<rparr>"

fun fail_exhausted :: "env \<Rightarrow> dispatcher_config \<Rightarrow> string list \<Rightarrow> instant \<Rightarrow> webhook_delivery list \<Rightarrow> jobs_db \<Rightarrow> nat \<times> jobs_db" where
  "fail_exhausted e c scheduled now [] db = (0, db)"
| "fail_exhausted e c scheduled now (w # ws) db =
     (if wd_delivery_id w \<in> set scheduled then fail_exhausted e c scheduled now ws db
      else let (b, db1) = fail_if_exhausted e c w now db; (n, db2) = fail_exhausted e c scheduled now ws db1
           in ((if b then 1 else 0) + n, db2))"

fun schedule_due :: "nat \<Rightarrow> webhook_delivery list \<Rightarrow> dispatcher \<Rightarrow> nat \<times> dispatcher" where
  "schedule_due maxsize [] s = (0, s)"
| "schedule_due maxsize (w # ws) s =
     (if wd_delivery_id w \<in> set (di_scheduled s) then schedule_due maxsize ws s
      else if length (di_queue s) \<ge> maxsize then (0, s)
      else let (n, s') = schedule_due maxsize ws (s\<lparr>di_queue := di_queue s @ [w],
                             di_scheduled := di_scheduled s @ [wd_delivery_id w]\<rparr>)
           in (n + 1, s'))"

text \<open>
  One round of \<open>_coordinator_loop\<close> up to its waiting: the counts of exhausted and queued deliveries, or the exception of the
  store, after which the loop starts over.
\<close>

definition coordinator_pass ::
    "env \<Rightarrow> (delivery_row \<Rightarrow> store_error + webhook_delivery option) \<Rightarrow> dispatcher_config \<Rightarrow> instant \<Rightarrow> dispatcher \<times> jobs_db
     \<Rightarrow> (store_error + (nat \<times> nat)) \<times> dispatcher \<times> jobs_db" where
  "coordinator_pass e decode c now sdb = (let (s, db) = sdb in
     case list_exhausted_pending decode now (dc_max_delivery_attempts c) (now - dc_max_delivery_age c)
            (int (dc_dispatch_batch_size c)) db of
       Inl x \<Rightarrow> (Inl x, s, db)
     | Inr (exhausted, db1) \<Rightarrow>
         (let (failed, db2) = fail_exhausted e c (di_scheduled s) now exhausted db1 in
          case list_due_pending decode now now (int (dc_dispatch_batch_size c)) db2 of
            Inl x \<Rightarrow> (Inl x, s, db2)
          | Inr (due, db3) \<Rightarrow>
              (let (queued, s') = schedule_due (dc_dispatch_batch_size c) due s in (Inr (failed, queued), s', db3))))"

text \<open>\<open>_worker_loop\<close>: taking a delivery off the queue, and the clean-up after it was processed, however that ended.\<close>

definition take_delivery :: "dispatcher \<Rightarrow> (webhook_delivery \<times> dispatcher) option" where
  "take_delivery s = (case di_queue s of [] \<Rightarrow> None
     | w # ws \<Rightarrow> Some (w, s\<lparr>di_queue := ws, di_active := wd_delivery_id w # di_active s\<rparr>))"

definition finish_delivery :: "string \<Rightarrow> dispatcher \<Rightarrow> dispatcher" where
  "finish_delivery did s = s\<lparr>di_active := filter (\<lambda>x. x \<noteq> did) (di_active s),
     di_scheduled := filter (\<lambda>x. x \<noteq> did) (di_scheduled s)\<rparr>"

definition pending_tasks :: "dispatcher \<Rightarrow> nat" where
  "pending_tasks s = length (di_queue s) + length (di_active s)"

section \<open>The cache of HTTP clients\<close>

record client_entry =
  ce_client :: nat
  ce_last_used_at :: seconds
  ce_in_flight :: nat

type_synonym client_cache = "(string \<times> client_entry) list"

datatype acquire_result = Leased nat "nat option" | Must_wait | Factory_error

definition idle_entries :: "client_cache \<Rightarrow> (seconds \<times> string) list" where
  "idle_entries cs = [(ce_last_used_at x, h). (h, x) \<leftarrow> cs, ce_in_flight x = 0]"

definition without :: "string \<Rightarrow> client_cache \<Rightarrow> client_cache" where
  "without h cs = filter (\<lambda>e. fst e \<noteq> h) cs"

definition with_entry :: "string \<Rightarrow> client_entry \<Rightarrow> client_cache \<Rightarrow> client_cache" where
  "with_entry h x cs = map (\<lambda>e. if fst e = h then (h, x) else e) cs"

definition make_room :: "nat \<Rightarrow> client_cache \<Rightarrow> (nat option \<times> client_cache) option" where
  "make_room max_size cs =
     (if length cs < max_size then Some (None, cs)
      else case sort (idle_entries cs) of
        [] \<Rightarrow> None
      | (_, h) # _ \<Rightarrow> Some (map_option ce_client (map_of cs h), without h cs))"

definition acquire_client :: "nat \<Rightarrow> nat \<Rightarrow> string \<Rightarrow> seconds \<Rightarrow> client_cache \<Rightarrow> acquire_result \<times> client_cache" where
  "acquire_client max_size new_client host now cs =
     (case map_of cs host of
        Some x \<Rightarrow> (Leased (ce_client x) None, with_entry host (x\<lparr>ce_in_flight := ce_in_flight x + 1, ce_last_used_at := now\<rparr>) cs)
      | None \<Rightarrow> (case make_room max_size cs of
            None \<Rightarrow> (Must_wait, cs)
          | Some (evicted, cs') \<Rightarrow>
              if evicted = Some new_client \<or> new_client \<in> ce_client ` snd ` set cs' then (Factory_error, cs')
              else (Leased new_client evicted,
                    cs' @ [(host, \<lparr>ce_client = new_client, ce_last_used_at = now, ce_in_flight = 1\<rparr>)])))"

definition release_client :: "string \<Rightarrow> nat \<Rightarrow> seconds \<Rightarrow> client_cache \<Rightarrow> client_cache" where
  "release_client host client now cs = (case map_of cs host of
       None \<Rightarrow> cs
     | Some x \<Rightarrow> if ce_client x \<noteq> client then cs
         else with_entry host (x\<lparr>ce_in_flight := ce_in_flight x - 1, ce_last_used_at := now\<rparr>) cs)"

definition expire_idle_client :: "string \<Rightarrow> nat \<Rightarrow> client_cache \<Rightarrow> client_cache" where
  "expire_idle_client host client cs = (case map_of cs host of
       None \<Rightarrow> cs
     | Some x \<Rightarrow> if ce_client x \<noteq> client \<or> ce_in_flight x \<noteq> 0 then cs else without host cs)"

end
