(* ===== verification/Webhook_Delivery.thy ===== *)
theory Webhook_Delivery
  imports Webhook_Dispatcher Sample
begin

text \<open>
  Correctness of the webhook dispatcher: how often a delivery is posted, that it is settled in the end, that
  no delivery is processed twice at the same time, and that the client cache is bounded and keeps every client in use.
\<close>

section \<open>The decoder\<close>

locale delivery_decoder =
  fixes decode :: "delivery_row \<Rightarrow> store_error + webhook_delivery option"
  assumes decoded: "decode d = Inr (Some w) \<Longrightarrow>
    wd_delivery_id w = d_delivery_id d \<and> wd_attempts w = d_attempts d \<and> wd_created_at w = d_created_at d
    \<and> wd_status w = d_status d"

interpretation stored: delivery_decoder "decode_webhook_delivery e loads_json text_of" for e loads_json text_of
  by unfold_locales (auto simp: decode_webhook_delivery_def row_to_webhook_delivery_def Let_def
      split: sum.splits option.splits prod.splits store_error.splits)

section \<open>The row of a delivery\<close>

definition row_of :: "string \<Rightarrow> jobs_db \<Rightarrow> delivery_row option" where
  "row_of did db = sql_first (\<lambda>d. d_delivery_id d = did) (webhook_deliveries db)"

definition unique_deliveries :: "jobs_db \<Rightarrow> bool" where
  "unique_deliveries db \<longleftrightarrow> unique_on d_delivery_id (webhook_deliveries db)"

lemma row_of_update:
  assumes "\<And>d. d_delivery_id (f d) = d_delivery_id d"
  shows "row_of did (update_deliveries P f db) = map_option (\<lambda>d. if P d then f d else d) (row_of did db)"
proof -
  have "List.find (\<lambda>d. d_delivery_id d = did) (sql_update P f t) =
      map_option (\<lambda>d. if P d then f d else d) (List.find (\<lambda>d. d_delivery_id d = did) t)" for t
    by (induction t) (simp_all add: sql_update_Cons assms)
  then show ?thesis by (simp add: row_of_def sql_first_def update_deliveries_def)
qed

lemma unique_deliveries_update:
  assumes "\<And>d. d_delivery_id (f d) = d_delivery_id d"
  shows "unique_deliveries (update_deliveries P f db) = unique_deliveries db"
  using sql_update_cong_key [of d_delivery_id f P "webhook_deliveries db"] assms
  by (simp add: unique_deliveries_def unique_on_def update_deliveries_def)

lemma row_of_in:
  assumes "unique_deliveries db"
  shows "row_of did db = Some d \<longleftrightarrow> d \<in> set (webhook_deliveries db) \<and> d_delivery_id d = did"
proof
  show "row_of did db = Some d \<Longrightarrow> d \<in> set (webhook_deliveries db) \<and> d_delivery_id d = did"
    by (auto simp: row_of_def dest: sql_first_Some)
  show "d \<in> set (webhook_deliveries db) \<and> d_delivery_id d = did \<Longrightarrow> row_of did db = Some d"
    unfolding row_of_def by (rule sql_first_key [where key = d_delivery_id]) (use assms in \<open>auto simp: unique_deliveries_def\<close>)
qed

lemma rowcount_row:
  assumes "unique_deliveries db" and "\<And>d. P d \<Longrightarrow> d_delivery_id d = did"
  shows "rowcount P (webhook_deliveries db) = 1 \<longleftrightarrow> (\<exists>d. row_of did db = Some d \<and> P d)"
proof -
  have "rowcount P (webhook_deliveries db) = 1 \<longleftrightarrow> (\<exists>d \<in> set (webhook_deliveries db). P d)"
    by (rule rowcount_key_1 [where key = d_delivery_id]) (use assms in \<open>auto simp: unique_deliveries_def\<close>)
  then show ?thesis using row_of_in [OF assms(1)] assms(2) by metis
qed

lemma pending_update_row:
  assumes "\<And>d. d_delivery_id (f d) = d_delivery_id d"
  shows "row_of k (snd (pending_update did f (Some n) db)) =
    map_option (\<lambda>d. if d_delivery_id d = did \<and> d_status d = Pending \<and> d_attempts d = n then f d else d) (row_of k db)"
    and "unique_deliveries (snd (pending_update did f (Some n) db)) = unique_deliveries db"
  by (simp_all add: pending_update_def Let_def row_of_update unique_deliveries_update assms)

section \<open>Attempts\<close>

text \<open>
  What happens to the outbox, one transaction at a time: an intent is stored, a worker starts on a delivery it read earlier,
  records the answer of an attempt, or retention scrubs.
\<close>

datatype outbox_event =
    Ev_store delivery_create instant
  | Ev_start webhook_delivery instant
  | Ev_complete webhook_delivery http_exchange instant
  | Ev_scrub instant instant instant int

text \<open>The reservation that an attempt to start has made, if any: an exception reserves nothing to be posted.\<close>

definition reserved_of :: "store_error + webhook_delivery option \<Rightarrow> webhook_delivery option" where
  "reserved_of res = (case res of Inl _ \<Rightarrow> None | Inr r \<Rightarrow> r)"

lemma reserved_of_simps [simp]: "reserved_of (Inl x) = None" "reserved_of (Inr r) = r"
  by (simp_all add: reserved_of_def)

fun apply_event ::
    "env \<Rightarrow> (delivery_row \<Rightarrow> store_error + webhook_delivery option) \<Rightarrow> dispatcher_config \<Rightarrow> outbox_event \<Rightarrow> jobs_db \<Rightarrow> webhook_delivery option \<times> jobs_db" where
  "apply_event e decode c (Ev_store w t) db = (None, case enqueue_delivery e w t db of Inl _ \<Rightarrow> db | Inr (_, db') \<Rightarrow> db')"
| "apply_event e decode c (Ev_start w t) db = (let (res, db') = start_delivery e decode c w t db in (reserved_of res, db'))"
| "apply_event e decode c (Ev_complete w x t) db = (None, complete_attempt e c w (attempt_result x t) t db)"
| "apply_event e decode c (Ev_scrub a b t n) db = (None, case scrub_terminal_deliveries a b t n db of Inl _ \<Rightarrow> db | Inr (_, db') \<Rightarrow> db')"

text \<open>The deliveries posted by a sequence of events: each reservation is followed by one HTTP request.\<close>

fun posts ::
    "env \<Rightarrow> (delivery_row \<Rightarrow> store_error + webhook_delivery option) \<Rightarrow> dispatcher_config \<Rightarrow> outbox_event list \<Rightarrow> jobs_db \<Rightarrow> string list \<times> jobs_db" where
  "posts e decode c [] db = ([], db)"
| "posts e decode c (ev # evs) db = (let (res, db1) = apply_event e decode c ev db; (ps, db2) = posts e decode c evs db1
     in (case res of None \<Rightarrow> ps | Some w \<Rightarrow> wd_delivery_id w # ps, db2))"

definition attempts_of :: "string \<Rightarrow> jobs_db \<Rightarrow> int" where
  "attempts_of did db = (case row_of did db of None \<Rightarrow> 0 | Some d \<Rightarrow> d_attempts d)"

text \<open>A transaction that counts no attempt.\<close>

definition sound :: "jobs_db \<Rightarrow> bool" where
  "sound db \<longleftrightarrow> unique_deliveries db \<and> (\<forall>d \<in> set (webhook_deliveries db). 0 \<le> d_attempts d)"

definition counts_nothing :: "jobs_db \<Rightarrow> jobs_db \<Rightarrow> bool" where
  "counts_nothing db db' \<longleftrightarrow> (sound db \<longrightarrow> sound db' \<and> (\<forall>did. attempts_of did db' = attempts_of did db))"

lemma counts_nothing_refl [simp]: "counts_nothing db db"
  by (simp add: counts_nothing_def)

lemma counts_nothing_trans: "counts_nothing a b \<Longrightarrow> counts_nothing b c \<Longrightarrow> counts_nothing a c"
  by (simp add: counts_nothing_def)

lemma counts_nothing_update:
  assumes "\<And>d. d_delivery_id (f d) = d_delivery_id d" and "\<And>d. d_attempts d \<ge> 0 \<Longrightarrow> d_attempts (f d) = d_attempts d"
  shows "counts_nothing db (update_deliveries P f db)"
proof -
  have "sound (update_deliveries P f db)" if "sound db"
    using that assms(2) unfolding sound_def unique_deliveries_update [of f, OF assms(1)]
    by (auto simp: update_deliveries_def in_sql_update)
  moreover have "attempts_of did (update_deliveries P f db) = attempts_of did db" if "sound db" for did
  proof (cases "row_of did db")
    case (Some d)
    with that row_of_in [of db did d] have "0 \<le> d_attempts d" by (simp add: sound_def)
    with Some assms(2) show ?thesis by (simp add: attempts_of_def row_of_update [of f, OF assms(1)])
  qed (simp add: attempts_of_def row_of_update [of f, OF assms(1)])
  ultimately show ?thesis by (simp add: counts_nothing_def)
qed

lemma counts_nothing_pending_update:
  assumes "\<And>d. d_delivery_id (f d) = d_delivery_id d" and "\<And>d. d_attempts (f d) = d_attempts d"
  shows "counts_nothing db (snd (pending_update did f n db))"
  unfolding pending_update_def Let_def snd_conv by (rule counts_nothing_update) (simp_all add: assms)

lemma fail_delivery_counts: "counts_nothing db (fail_delivery e w t reason err db)"
  unfolding fail_delivery_def mark_failed_def by (rule counts_nothing_pending_update) (simp_all add: Let_def)

lemma complete_attempt_counts: "counts_nothing db (complete_attempt e c w res t db)"
  unfolding complete_attempt_def mark_failed_def mark_delivered_def mark_retryable_failure_def Let_def
  by (auto simp: counted_attempts_def fail_delivery_counts intro!: counts_nothing_pending_update split: dispatch_status.splits)

lemma scrub_ids_counts: "counts_nothing db (scrub_ids t ids db)"
  unfolding scrub_ids_def by (rule counts_nothing_update) (simp_all add: scrub_row_def)

lemma quarantine_counts: "counts_nothing db (snd (quarantine_malformed_row k t db))"
  by (cases k) (auto simp: quarantine_malformed_row_def Let_def quarantine_row_def intro!: counts_nothing_update)

lemma scrub_counts: "scrub_terminal_deliveries a b t n db = Inr (x, db') \<Longrightarrow> counts_nothing db db'"
  by (auto simp: scrub_terminal_deliveries_def Let_def intro: counts_nothing_trans scrub_ids_counts split: if_splits)

lemma find_snoc: "List.find P (xs @ [x]) = (case List.find P xs of Some y \<Rightarrow> Some y | None \<Rightarrow> if P x then Some x else None)"
  by (induction xs) simp_all

lemma store_counts: "enqueue_delivery e w t db = Inr (x, db') \<Longrightarrow> counts_nothing db db'"
proof -
  assume store: "enqueue_delivery e w t db = Inr (x, db')"
  show ?thesis
  proof (cases "db' = db")
    case False
    with store have fresh: "\<forall>d \<in> set (webhook_deliveries db). d_delivery_id d \<noteq> w_delivery_id w"
      and db': "webhook_deliveries db' = webhook_deliveries db @ [new_delivery_row e w t]"
      by (auto simp: enqueue_delivery_def insert_webhook_delivery_def sql_exists_iff split: if_splits sum.splits)
    have "sound db' \<and> (\<forall>did. attempts_of did db' = attempts_of did db)" if snd: "sound db"
    proof -
      have uniq: "unique_deliveries db'"
        using snd fresh by (auto simp: sound_def unique_deliveries_def unique_on_def db' new_delivery_row_def)
      moreover have "row_of did db' = (case row_of did db of Some d \<Rightarrow> Some d
          | None \<Rightarrow> if did = w_delivery_id w then Some (new_delivery_row e w t) else None)" for did
        by (auto simp: row_of_def sql_first_def db' find_snoc new_delivery_row_def split: option.splits)
      then have "attempts_of did db' = attempts_of did db" for did
        by (simp add: attempts_of_def new_delivery_row_def split: option.splits)
      ultimately show ?thesis using snd by (auto simp: sound_def db' new_delivery_row_def)
    qed
    then show ?thesis by (simp add: counts_nothing_def)
  qed simp
qed

text \<open>A reservation counts exactly one attempt, and only from the count that it expected.\<close>

definition counts_one :: "string \<Rightarrow> int \<Rightarrow> string option \<Rightarrow> jobs_db \<Rightarrow> jobs_db \<Rightarrow> bool" where
  "counts_one did n posted db db' \<longleftrightarrow> (sound db \<longrightarrow> sound db'
     \<and> (\<forall>k. attempts_of k db' = attempts_of k db \<or> k = did \<and> attempts_of k db = n \<and> attempts_of k db' = n + 1)
     \<and> (\<forall>k. posted = Some k \<longrightarrow> attempts_of k db' = attempts_of k db + 1))"

lemma counts_oneI: "counts_nothing db db' \<Longrightarrow> counts_one did n None db db'"
  by (simp add: counts_nothing_def counts_one_def)

context delivery_decoder
begin

lemma begin_attempt_counts:
  assumes "begin_attempt decode did n t db = (res, db')"
  shows "counts_one did n (map_option wd_delivery_id (reserved_of res)) db db'"
proof -
  define P where "P = (\<lambda>d :: delivery_row. d_delivery_id d = did \<and> d_status d = Pending \<and> d_attempts d = n)"
  define f where "f = (\<lambda>d :: delivery_row. d\<lparr>d_attempts := d_attempts d + 1, d_last_attempt_at := Some t, d_updated_at := t\<rparr>)"
  define db1 where "db1 = update_deliveries P f db"
  have id: "d_delivery_id (f d) = d_delivery_id d" for d by (simp add: f_def)
  note run = assms [unfolded begin_attempt_def Let_def, folded P_def, folded f_def, folded db1_def]
  show ?thesis
  proof (cases "sound db \<and> rowcount P (webhook_deliveries db) = 1")
    case False
    with run show ?thesis by (auto simp: counts_one_def)
  next
    case True
    then obtain d where d: "row_of did db = Some d" "P d"
      using rowcount_row [of db P did] by (auto simp: sound_def P_def)
    have row1: "row_of k db1 = map_option (\<lambda>d. if P d then f d else d) (row_of k db)" for k
      unfolding db1_def by (rule row_of_update) (rule id)
    have "sound db1"
      using True unfolding sound_def db1_def unique_deliveries_update [of f, OF id]
      by (auto simp: update_deliveries_def in_sql_update f_def)
    moreover have "attempts_of did db = n" "attempts_of did db1 = n + 1"
      using d row1 [of did] by (simp_all add: attempts_of_def f_def P_def)
    moreover have "attempts_of k db1 = attempts_of k db" if "k \<noteq> did" for k
    proof (cases "row_of k db")
      case (Some x)
      with True row_of_in [of db k x] have "d_delivery_id x = k" by (simp add: sound_def)
      with that Some row1 show ?thesis by (simp add: attempts_of_def P_def)
    qed (simp add: attempts_of_def row1)
    ultimately have one: "counts_one did n p db db1" if "p \<in> {None, Some did}" for p
      using that unfolding counts_one_def by (auto; metis)
    have here: "sql_first (\<lambda>d. d_delivery_id d = did) (webhook_deliveries db1) = Some (f d)"
      using d row1 [of did] by (simp add: row_of_def)
    show ?thesis
    proof (cases "decode (f d)")
      case (Inl x)
      then have "res = Inl x" "db' = db1" using run True by (auto simp: here)
      then show ?thesis using one [of None] by simp
    next
      case (Inr r)
      show ?thesis
      proof (cases r)
        case None
        have "counts_one did n None db (snd (quarantine_malformed_row k t db1))" for k
          using one [of None] quarantine_counts [of db1 k t] by (simp add: counts_one_def counts_nothing_def)
        moreover have "res = Inr None" "db' = snd (quarantine_malformed_row (Some (d_delivery_id (f d))) t db1)"
          using run True Inr None by (auto simp: here quarantine_malformed_delivery_def)
        ultimately show ?thesis by simp
      next
        case (Some w)
        have "wd_delivery_id w = did" using decoded [OF Inr [unfolded Some]] d(2) by (simp add: id P_def)
        moreover have "res = Inr (Some w)" "db' = db1" using run True Inr Some by (auto simp: here)
        ultimately show ?thesis using one [of "Some did"] by simp
      qed
    qed
  qed
qed

lemma apply_event_counts:
  assumes "apply_event e decode c ev db = (res, db')" and "sound db"
  shows "sound db'" and "attempts_of k db \<le> dc_max_delivery_attempts c \<Longrightarrow> attempts_of k db' \<le> dc_max_delivery_attempts c"
    and "attempts_of k db + (if map_option wd_delivery_id res = Some k then 1 else 0) \<le> attempts_of k db'"
proof -
  have "\<exists>did n. n < dc_max_delivery_attempts c \<and> counts_one did n (map_option wd_delivery_id res) db db'"
  proof (cases ev)
    case (Ev_start w t)
    show ?thesis
    proof (cases "exhaustion c w t")
      case None
      then have "wd_attempts w < dc_max_delivery_attempts c" by (auto simp: exhaustion_def split: if_splits)
      moreover obtain res1 where "begin_attempt decode (wd_delivery_id w) (wd_attempts w) t db = (res1, db')" "res = reserved_of res1"
        using assms(1) None by (auto simp: Ev_start start_delivery_def fail_if_exhausted_def split: prod.splits)
      ultimately show ?thesis using begin_attempt_counts by blast
    next
      case (Some r)
      with assms(1) have "res = None" "counts_nothing db db'"
        by (auto simp: Ev_start start_delivery_def fail_if_exhausted_def fail_delivery_counts)
      then show ?thesis
        by (intro exI [of _ "[]"] exI [of _ "dc_max_delivery_attempts c - 1"]) (simp add: counts_oneI)
    qed
  next
    case (Ev_store w t)
    with assms(1) have "res = None" "counts_nothing db db'" by (auto dest: store_counts split: sum.splits)
    then show ?thesis by (intro exI [of _ "[]"] exI [of _ "dc_max_delivery_attempts c - 1"]) (simp add: counts_oneI)
  next
    case (Ev_complete w x t)
    with assms(1) have "res = None" "counts_nothing db db'" by (auto simp: complete_attempt_counts)
    then show ?thesis by (intro exI [of _ "[]"] exI [of _ "dc_max_delivery_attempts c - 1"]) (simp add: counts_oneI)
  next
    case (Ev_scrub a b t n)
    with assms(1) have "res = None" "counts_nothing db db'" by (auto dest: scrub_counts split: sum.splits)
    then show ?thesis by (intro exI [of _ "[]"] exI [of _ "dc_max_delivery_attempts c - 1"]) (simp add: counts_oneI)
  qed
  then obtain did n where n: "n < dc_max_delivery_attempts c" "counts_one did n (map_option wd_delivery_id res) db db'" by blast
  then have "attempts_of k db' = attempts_of k db \<or> k = did \<and> attempts_of k db = n \<and> attempts_of k db' = n + 1"
    "map_option wd_delivery_id res = Some k \<Longrightarrow> attempts_of k db' = attempts_of k db + 1" "sound db'"
    using assms(2) unfolding counts_one_def by blast+
  with n(1) show "sound db'" and "attempts_of k db \<le> dc_max_delivery_attempts c \<Longrightarrow> attempts_of k db' \<le> dc_max_delivery_attempts c"
    and "attempts_of k db + (if map_option wd_delivery_id res = Some k then 1 else 0) \<le> attempts_of k db'"
    by auto
qed

lemma posts_bounded:
  assumes "posts e decode c evs db = (ps, db')" and "sound db" and "attempts_of k db \<le> dc_max_delivery_attempts c"
  shows "attempts_of k db + int (count_list ps k) \<le> dc_max_delivery_attempts c"
  using assms
proof (induction evs arbitrary: db ps)
  case (Cons ev evs)
  obtain res db1 where ev: "apply_event e decode c ev db = (res, db1)" by (cases "apply_event e decode c ev db")
  obtain qs db2 where rest: "posts e decode c evs db1 = (qs, db2)" by (cases "posts e decode c evs db1")
  note one = apply_event_counts(1) [OF ev Cons.prems(2)] apply_event_counts(2,3) [OF ev Cons.prems(2), of k]
  have "attempts_of k db1 + int (count_list qs k) \<le> dc_max_delivery_attempts c"
    using Cons.IH [OF _ one(1)] rest Cons.prems(1,3) one(2) by (auto simp: ev)
  with one(3) Cons.prems(1) rest show ?case by (auto simp: ev split: option.splits if_splits)
qed simp

end

section \<open>Settling\<close>

lemma to_micros_bound:
  assumes "s < of_int n / 1000000"
  shows "to_micros s \<le> n"
proof -
  have "s * 1000000 < of_int n" using assms by (simp add: field_simps)
  then have "\<lfloor>s * 1000000\<rfloor> < n" by (simp add: floor_less_iff)
  then show ?thesis by (simp add: to_micros_def Let_def)
qed

text \<open>What an attempt leaves of the encrypted columns: all of them, but the error text may be a new one.\<close>

definition secrets_kept :: "env \<Rightarrow> delivery_row \<Rightarrow> delivery_row \<Rightarrow> bool" where
  "secrets_kept e d d' \<longleftrightarrow> d_delivery_id d' = d_delivery_id d \<and> d_url d' = d_url d \<and> d_headers_json d' = d_headers_json d
     \<and> d_payload_json d' = d_payload_json d
     \<and> (d_last_error d' = d_last_error d
        \<or> (\<exists>err. d_last_error d' = Some (protect_text e (webhook_purpose ''last_error'' (d_delivery_id d)) err)))"

lemma secrets_kept_refl: "secrets_kept e d d"
  by (simp add: secrets_kept_def)

lemma secrets_kept_trans: "secrets_kept e a b \<Longrightarrow> secrets_kept e b c \<Longrightarrow> secrets_kept e a c"
  by (auto simp: secrets_kept_def)

text \<open>One round: the delivery is terminal, or has one more attempt, attempts left, and its next try before its deadline.\<close>

definition advanced :: "env \<Rightarrow> dispatcher_config \<Rightarrow> delivery_row \<Rightarrow> delivery_row \<Rightarrow> bool" where
  "advanced e c d d' \<longleftrightarrow> d_status d' \<noteq> Pending \<or> secrets_kept e d d' \<and> d_attempts d' = d_attempts d + 1 \<and> d_attempts d' < dc_max_delivery_attempts c
     \<and> d_created_at d' = d_created_at d \<and> d_next_attempt_at d' \<le> d_created_at d + dc_max_delivery_age c"

lemma fail_delivery_row:
  assumes "row_of did db = Some d" and "d_delivery_id d = did" and "d_status d = Pending"
    and "wd_delivery_id w = did" and "wd_attempts w = d_attempts d"
  shows "\<exists>d'. row_of did (fail_delivery e w t reason err db) = Some d' \<and> d_status d' \<noteq> Pending"
  unfolding fail_delivery_def mark_failed_def using assms
  by (subst pending_update_row(1)) (auto simp: Let_def)

lemma complete_attempt_row:
  assumes "row_of did db = Some d" and "d_delivery_id d = did" and "d_status d = Pending"
    and "wd_delivery_id w = did" and "wd_attempts w = d_attempts d" and "wd_created_at w = d_created_at d"
  shows "\<exists>d'. row_of did (complete_attempt e c w res t db) = Some d' \<and> (d_status d' \<noteq> Pending
    \<or> secrets_kept e d d' \<and> d_attempts d' = d_attempts d \<and> d_attempts d < dc_max_delivery_attempts c
      \<and> d_created_at d' = d_created_at d \<and> d_next_attempt_at d' \<le> d_created_at d + dc_max_delivery_age c)"
proof -
  note fail = fail_delivery_row [OF assms(1-5)]
  have delivered: "\<exists>d'. row_of did (snd (mark_delivered did t (Some (d_attempts d)) 1 db)) = Some d' \<and> d_status d' \<noteq> Pending"
    unfolding mark_delivered_def using assms by (subst pending_update_row(1)) (auto simp: counted_attempts_def)
  have dead: "\<exists>d'. row_of did (snd (mark_failed e did t reason err (Some (d_attempts d)) 0 db)) = Some d' \<and> d_status d' \<noteq> Pending" for reason err
    unfolding mark_failed_def using assms by (subst pending_update_row(1)) (auto simp: Let_def)
  have retry: "\<exists>d'. row_of did (snd (mark_retryable_failure e did t nx err (Some (d_attempts d)) 1 db)) = Some d'
      \<and> secrets_kept e d d' \<and> d_attempts d' = d_attempts d \<and> d_created_at d' = d_created_at d \<and> d_next_attempt_at d' = nx" for err nx
    unfolding mark_retryable_failure_def using assms
    by (subst pending_update_row(1)) (auto simp: counted_attempts_def secrets_kept_def)
  have due: "t + to_micros s \<le> d_created_at d + dc_max_delivery_age c"
    if "\<not> s \<ge> of_int (d_created_at d + dc_max_delivery_age c - t) / 1000000" for s
    using to_micros_bound [of s "d_created_at d + dc_max_delivery_age c - t"] that by simp
  show ?thesis
  proof (cases "dp_status res")
    case Dispatch_retryable_failed
    show ?thesis
      using fail retry [of "t + to_micros (retry_delay_of c w res)"] due [of "retry_delay_of c w res"]
      unfolding complete_attempt_def Dispatch_retryable_failed delivery_deadline_def assms(4-6) Let_def
      by (simp add: not_le) (metis not_le)
  qed (use delivered dead assms(4,5) in \<open>auto simp: complete_attempt_def\<close>)
qed

text \<open>Processing a delivery again and again: each round reads it afresh, as the coordinator does.\<close>

fun settle ::
    "env \<Rightarrow> (delivery_row \<Rightarrow> store_error + webhook_delivery option) \<Rightarrow> dispatcher_config \<Rightarrow> (instant \<times> http_exchange \<times> instant) list \<Rightarrow> string
     \<Rightarrow> jobs_db \<Rightarrow> jobs_db" where
  "settle e decode c [] did db = db"
| "settle e decode c ((now, x, t) # rounds) did db = (case get_delivery decode now did db of
      (Inr (Some w), db1) \<Rightarrow> settle e decode c rounds did
         (if wd_status w = Pending then snd (process_delivery e decode c w now x t (\<lambda>d. d) db1) else db1)
    | (_, db1) \<Rightarrow> settle e decode c rounds did db1)"

lemma quarantine_row_of:
  "row_of did (snd (quarantine_malformed_row (Some k) t db)) =
     map_option (\<lambda>d. if d_delivery_id d = k \<and> d_status d = Pending then quarantine_row t d else d) (row_of did db)"
  unfolding quarantine_malformed_row_def by (simp add: Let_def row_of_update quarantine_row_def)

context delivery_decoder
begin

text \<open>The decoder does not raise on the row, nor on what attempts make of it.\<close>

definition opens :: "env \<Rightarrow> delivery_row \<Rightarrow> bool" where
  "opens e d \<longleftrightarrow> (\<forall>d'. secrets_kept e d d' \<longrightarrow> \<not> isl (decode d'))"

lemma opens_kept: "opens e d \<Longrightarrow> secrets_kept e d d' \<Longrightarrow> opens e d'"
  unfolding opens_def using secrets_kept_trans by blast

lemma opened: "opens e d \<Longrightarrow> secrets_kept e d d' \<Longrightarrow> \<exists>r. decode d' = Inr r"
  unfolding opens_def by (cases "decode d'") auto

lemma begin_attempt_row:
  assumes "sound db" and "row_of did db = Some d" and "d_status d = Pending" and "opens e d"
  shows "(\<exists>r d1. begin_attempt decode did (d_attempts d) t db = (Inr (Some r), snd (begin_attempt decode did (d_attempts d) t db))
      \<and> row_of did (snd (begin_attempt decode did (d_attempts d) t db)) = Some d1 \<and> d_delivery_id d1 = did \<and> d_status d1 = Pending
      \<and> wd_delivery_id r = did \<and> wd_attempts r = d_attempts d + 1 \<and> d_attempts d1 = d_attempts d + 1
      \<and> wd_created_at r = d_created_at d \<and> d_created_at d1 = d_created_at d \<and> secrets_kept e d d1)
    \<or> (\<exists>d1. fst (begin_attempt decode did (d_attempts d) t db) = Inr None
         \<and> row_of did (snd (begin_attempt decode did (d_attempts d) t db)) = Some d1 \<and> d_status d1 \<noteq> Pending)"
proof -
  define P where "P = (\<lambda>x :: delivery_row. d_delivery_id x = did \<and> d_status x = Pending \<and> d_attempts x = d_attempts d)"
  define f where "f = (\<lambda>x :: delivery_row. x\<lparr>d_attempts := d_attempts x + 1, d_last_attempt_at := Some t, d_updated_at := t\<rparr>)"
  define db1 where "db1 = update_deliveries P f db"
  have did: "d_delivery_id d = did" using assms(1,2) row_of_in by (auto simp: sound_def)
  have P: "P d" using did assms(3) by (simp add: P_def)
  have id: "d_delivery_id (f d) = d_delivery_id d" by (simp add: f_def)
  have kept: "secrets_kept e d (f d)" by (simp add: secrets_kept_def f_def)
  have one: "rowcount P (webhook_deliveries db) = 1"
    using rowcount_row [of db P did] assms(1,2) P by (auto simp: sound_def P_def)
  have row1: "row_of did db1 = Some (f d)"
    unfolding db1_def by (subst row_of_update) (simp_all add: assms(2) P, simp add: f_def)
  then have first: "sql_first (\<lambda>x. d_delivery_id x = did) (webhook_deliveries db1) = Some (f d)" by (simp add: row_of_def)
  obtain r where r: "decode (f d) = Inr r" using opened [OF assms(4) kept] by blast
  have run: "begin_attempt decode did (d_attempts d) t db = (case r of Some r \<Rightarrow> (Inr (Some r), db1)
      | None \<Rightarrow> (Inr None, snd (quarantine_malformed_row (Some did) t db1)))"
    unfolding begin_attempt_def Let_def P_def [symmetric] f_def [symmetric] db1_def [symmetric] quarantine_malformed_delivery_def
    using one did id by (simp add: first r split: option.splits)
  show ?thesis
  proof (cases r)
    case None
    have "row_of did (snd (quarantine_malformed_row (Some did) t db1)) = Some (quarantine_row t (f d))"
      using did assms(3) by (simp add: quarantine_row_of row1) (simp add: f_def)
    with None show ?thesis by (simp add: run quarantine_row_def)
  next
    case (Some w)
    with decoded [OF r [unfolded Some]] row1 did assms(3) kept show ?thesis by (simp add: run f_def)
  qed
qed

lemma process_delivery_row:
  assumes "sound db" and "row_of did db = Some d" and "d_status d = Pending" and "opens e d"
    and "wd_delivery_id w = did" and "wd_attempts w = d_attempts d" and "wd_created_at w = d_created_at d"
  shows "\<exists>d'. row_of did (snd (process_delivery e decode c w now x t (\<lambda>d. d) db)) = Some d' \<and> advanced e c d d'"
proof -
  have did: "d_delivery_id d = did" using assms(1,2) row_of_in by (auto simp: sound_def)
  show ?thesis
  proof (cases "exhaustion c w now")
    case (Some r)
    then obtain err where "snd (process_delivery e decode c w now x t (\<lambda>d. d) db) = fail_delivery e w now r err db"
      by (simp add: process_delivery_def start_delivery_def fail_if_exhausted_def)
    with fail_delivery_row [OF assms(2) did assms(3,5,6), of e now r err] show ?thesis by (auto simp: advanced_def)
  next
    case None
    then have run: "process_delivery e decode c w now x t (\<lambda>d. d) db =
        (case begin_attempt decode did (d_attempts d) now db of
            (Inr (Some r), db1) \<Rightarrow> (Inr (Some r), complete_attempt e c r (attempt_result x t) t db1)
          | (res, db1) \<Rightarrow> (res, db1))"
      by (simp add: process_delivery_def start_delivery_def fail_if_exhausted_def assms(5,6))
    from begin_attempt_row [OF assms(1-4), of now] show ?thesis
    proof (elim disjE exE conjE)
      fix r d1
      let ?db1 = "snd (begin_attempt decode did (d_attempts d) now db)"
      assume *: "begin_attempt decode did (d_attempts d) now db = (Inr (Some r), ?db1)" "row_of did ?db1 = Some d1"
        "d_delivery_id d1 = did" "d_status d1 = Pending" "wd_delivery_id r = did" "wd_attempts r = d_attempts d + 1"
        "d_attempts d1 = d_attempts d + 1" "wd_created_at r = d_created_at d" "d_created_at d1 = d_created_at d" "secrets_kept e d d1"
      have "snd (process_delivery e decode c w now x t (\<lambda>d. d) db) = complete_attempt e c r (attempt_result x t) t ?db1"
        unfolding run by (subst *(1)) simp
      then show ?thesis
        using complete_attempt_row [OF *(2-5), of e c "attempt_result x t" t] *(6-9) secrets_kept_trans [OF *(10)]
        by (auto simp: advanced_def)
    next
      fix d1
      assume "fst (begin_attempt decode did (d_attempts d) now db) = Inr None"
        "row_of did (snd (begin_attempt decode did (d_attempts d) now db)) = Some d1" "d_status d1 \<noteq> Pending"
      then show ?thesis unfolding run by (auto simp: advanced_def split: prod.splits)
    qed
  qed
qed

lemma process_delivery_sound:
  assumes "sound db"
  shows "sound (snd (process_delivery e decode c w now x t (\<lambda>d. d) db))"
proof -
  obtain res db1 where st: "start_delivery e decode c w now db = (res, db1)" by (cases "start_delivery e decode c w now db")
  have "sound db1" by (rule apply_event_counts(1) [of e c "Ev_start w now" db "reserved_of res"]) (use st assms in simp_all)
  with complete_attempt_counts show ?thesis
    by (auto simp: process_delivery_def st counts_nothing_def split: option.splits sum.splits)
qed

lemma settle_terminal:
  assumes "row_of did db = Some d" and "d_status d \<noteq> Pending"
  shows "row_of did (settle e decode c rounds did db) = Some d"
  using assms(1)
proof (induction rounds arbitrary: db)
  case (Cons round rounds)
  obtain now x t where round: "round = (now, x, t)" by (cases round)
  have first: "sql_first (\<lambda>d. d_delivery_id d = did) (webhook_deliveries db) = Some d" using Cons.prems by (simp add: row_of_def)
  have "row_of did (snd (quarantine_malformed_row (Some k) now db)) = Some d" for k
    using Cons.prems assms(2) by (simp add: quarantine_row_of)
  with Cons show ?case
    by (auto simp: round get_delivery_def first assms(2) dest: decoded split: option.splits sum.splits)
qed simp

lemma settle_ends:
  assumes "sound db" and "row_of did db = Some d" and "nat (dc_max_delivery_attempts c - d_attempts d) \<le> length rounds" and "rounds \<noteq> []"
    and "opens e d"
  shows "\<exists>d'. row_of did (settle e decode c rounds did db) = Some d' \<and> d_status d' \<noteq> Pending"
  using assms
proof (induction rounds arbitrary: db d)
  case (Cons round rounds)
  obtain now x t where round: "round = (now, x, t)" by (cases round)
  have did: "d_delivery_id d = did" using Cons.prems(1,2) row_of_in by (auto simp: sound_def)
  have first: "sql_first (\<lambda>d. d_delivery_id d = did) (webhook_deliveries db) = Some d" using Cons.prems(2) by (simp add: row_of_def)
  show ?case
  proof (cases "d_status d = Pending")
    case False
    with settle_terminal [OF Cons.prems(2)] show ?thesis by blast
  next
    case True
    obtain r where r: "decode d = Inr r" using opened [OF Cons.prems(5) secrets_kept_refl] by blast
    show ?thesis
    proof (cases r)
      case None
      have "row_of did (snd (quarantine_malformed_row (Some did) now db)) = Some (quarantine_row now d)"
        using Cons.prems(2) did True by (simp add: quarantine_row_of)
      from settle_terminal [OF this] None show ?thesis
        by (auto simp: round get_delivery_def first did r quarantine_row_def)
    next
      case (Some w)
      let ?db1 = "snd (process_delivery e decode c w now x t (\<lambda>d. d) db)"
      have w: "wd_delivery_id w = did" "wd_attempts w = d_attempts d" "wd_created_at w = d_created_at d" "wd_status w = Pending"
        using decoded [OF r [unfolded Some]] did True by auto
      obtain d' where d': "row_of did ?db1 = Some d'" "advanced e c d d'"
        using process_delivery_row [OF Cons.prems(1,2) True Cons.prems(5) w(1-3)] by blast
      have snd1: "sound ?db1" by (rule process_delivery_sound [OF Cons.prems(1)])
      have step: "settle e decode c (round # rounds) did db = settle e decode c rounds did ?db1"
        using Some w(4) r by (simp add: round get_delivery_def first)
      show ?thesis
      proof (cases "d_status d' = Pending")
        case False
        with settle_terminal [OF d'(1)] step show ?thesis by auto
      next
        case pending: True
        then have a: "d_attempts d' = d_attempts d + 1" "d_attempts d' < dc_max_delivery_attempts c" "secrets_kept e d d'"
          using d'(2) by (auto simp: advanced_def)
        then have "nat (dc_max_delivery_attempts c - d_attempts d') \<le> length rounds" "rounds \<noteq> []"
          using Cons.prems(3) by auto
        from Cons.IH [OF snd1 d'(1) this opens_kept [OF Cons.prems(5) a(3)]] step show ?thesis by simp
      qed
    qed
  qed
qed simp

end

section \<open>Properties\<close>

text \<open>
  Claim C34. Whatever the workers do and however their transactions interleave, a delivery is posted at most
  \<open>max_delivery_attempts\<close> times, also when workers act on stale copies of it, or stop before they record the answer.
\<close>

theorem webhook_posts_bounded:
  assumes "sound db" and "attempts_of did db \<le> dc_max_delivery_attempts c"
    and "posts e (decode_webhook_delivery e loads text) c evs db = (ps, db')"
  shows "attempts_of did db + int (count_list ps did) \<le> dc_max_delivery_attempts c"
  by (rule stored.posts_bounded [OF assms(3,1,2)])





section \<open>A delivery that cannot be opened\<close>

lemma decode_rows_raises:
  assumes "d \<in> set rows" and "decode d = Inl x"
  shows "\<exists>y. decode_rows decode now rows acc m db = Inl y"
  using assms
proof (induction rows arbitrary: acc m db)
  case (Cons r rows)
  then show ?case by (cases "decode r"; cases "projr (decode r)") auto
qed simp

lemma fetch_limited_raises:
  assumes "d \<in> set (take lmt (select_rows P k db))" and "decode d = Inl x"
  shows "\<exists>y. fetch_limited decode now P k lmt 0 [] db = Inl y"
proof -
  let ?rows = "take lmt (select_rows P k db)"
  have "0 < lmt" "?rows \<noteq> []" using assms(1) by (cases lmt, auto)+
  moreover obtain y where "decode_rows decode now ?rows [] 0 db = Inl y" using decode_rows_raises [of d _ decode x, OF assms] by blast
  ultimately show ?thesis by (subst fetch_limited.simps) (auto simp: sql_limit_def Let_def)
qed

text \<open>
  One delivery that cannot be opened stops all of them: if the URL of one of the first deliveries that are due cannot be
  decrypted with the configured keys, and no pending delivery is exhausted, a round of the coordinator raises an error and queues
  nothing, whatever else is due, and the database stays as it is, so the next round fails in the same way.
\<close>

theorem undecryptable_delivery_blocks_all:
  assumes "valid_dispatcher c"
    and "d \<in> set (take (dc_dispatch_batch_size c)
           (select_rows (\<lambda>r. d_status r = Pending \<and> d_next_attempt_at r \<le> now) due_key db))"
    and "reveal_text e (webhook_purpose ''url'' (d_delivery_id d)) (d_url d) = None"
    and "\<forall>r \<in> set (webhook_deliveries db). d_status r = Pending \<longrightarrow>
           d_attempts r < dc_max_delivery_attempts c \<and> now - dc_max_delivery_age c < d_created_at r"
  shows "\<exists>x. coordinator_pass e (decode_webhook_delivery e loads text) c now (s, db) = (Inl x, s, db)"
proof -
  let ?decode = "decode_webhook_delivery e loads text" and ?n = "dc_dispatch_batch_size c"
  have n: "1 \<le> ?n" using assms(1) by (simp add: valid_dispatcher_def)
  have "?decode d = Inl SecretDecryptionError"
    using assms(3) by (simp add: decode_webhook_delivery_def row_to_webhook_delivery_def)
  from fetch_limited_raises [of d _ _ _ _ ?decode, OF assms(2) this] obtain x where
    due: "list_due_pending ?decode now now (int ?n) db = Inl x"
    using n by (auto simp: list_due_pending_def fetch_deliveries_def)
  have none: "select_rows (\<lambda>r. d_status r = Pending \<and> (d_attempts r \<ge> dc_max_delivery_attempts c
      \<or> d_created_at r \<le> now - dc_max_delivery_age c)) (\<lambda>r. (d_created_at r, d_delivery_id r)) db = []"
  proof -
    have "filter (\<lambda>r. d_status r = Pending \<and> (d_attempts r \<ge> dc_max_delivery_attempts c
      \<or> d_created_at r \<le> now - dc_max_delivery_age c)) (webhook_deliveries db) = []"
      using assms(4) by (auto simp: filter_empty_conv)
    then show ?thesis by (simp add: select_rows_def sql_order_def)
  qed
  have "list_exhausted_pending ?decode now (dc_max_delivery_attempts c) (now - dc_max_delivery_age c) (int ?n) db = Inr ([], db)"
    using n by (simp add: list_exhausted_pending_def fetch_deliveries_def fetch_limited.simps [of _ _ _ _ _ 0 "[]"] none sql_limit_def)
  with due show ?thesis by (simp add: coordinator_pass_def)
qed

section \<open>The bounded queue\<close>

inductive dispatcher_step :: "dispatcher_config \<Rightarrow> dispatcher \<Rightarrow> dispatcher \<Rightarrow> bool" for c where
  schedule: "schedule_due (dc_dispatch_batch_size c) due s = (n, s') \<Longrightarrow> dispatcher_step c s s'"
| take_next: "length (di_active s) < dc_dispatch_concurrency c \<Longrightarrow> take_delivery s = Some (w, s') \<Longrightarrow> dispatcher_step c s s'"
| finish: "did \<in> set (di_active s) \<Longrightarrow> dispatcher_step c s (finish_delivery did s)"

definition in_hand :: "dispatcher \<Rightarrow> string list" where
  "in_hand s = map wd_delivery_id (di_queue s) @ di_active s"

definition dispatcher_inv :: "dispatcher_config \<Rightarrow> dispatcher \<Rightarrow> bool" where
  "dispatcher_inv c s \<longleftrightarrow> distinct (in_hand s) \<and> set (di_scheduled s) = set (in_hand s)
     \<and> length (di_queue s) \<le> dc_dispatch_batch_size c \<and> length (di_active s) \<le> dc_dispatch_concurrency c"

lemma schedule_due_inv:
  assumes "schedule_due (dc_dispatch_batch_size c) due s = (n, s')" and "dispatcher_inv c s"
  shows "dispatcher_inv c s'"
  using assms
proof (induction due arbitrary: s n)
  case (Cons w ws)
  let ?s = "s\<lparr>di_queue := di_queue s @ [w], di_scheduled := di_scheduled s @ [wd_delivery_id w]\<rparr>"
  show ?case
  proof (cases "wd_delivery_id w \<in> set (di_scheduled s) \<or> length (di_queue s) \<ge> dc_dispatch_batch_size c")
    case True
    with Cons show ?thesis by (auto split: if_splits)
  next
    case False
    with Cons.prems(2) have "dispatcher_inv c ?s" by (auto simp: dispatcher_inv_def in_hand_def)
    with Cons.IH [of ?s] Cons.prems(1) False show ?thesis by (auto simp: Let_def split: prod.splits)
  qed
qed simp

lemma dispatcher_inv_step:
  assumes "dispatcher_step c s s'" and "dispatcher_inv c s"
  shows "dispatcher_inv c s'"
  using assms(1)
proof cases
  case (schedule due n)
  then show ?thesis using schedule_due_inv assms(2) by blast
next
  case (take_next w)
  then obtain ws where ws: "di_queue s = w # ws" "s' = s\<lparr>di_queue := ws, di_active := wd_delivery_id w # di_active s\<rparr>"
    by (auto simp: take_delivery_def split: list.splits)
  have "distinct (in_hand s') = distinct (in_hand s)" "set (in_hand s') = set (in_hand s)"
    using ws by (auto simp: in_hand_def)
  with ws take_next assms(2) show ?thesis by (simp add: dispatcher_inv_def)
next
  case (finish did)
  have "length (filter (\<lambda>x. x \<noteq> did) (di_active s)) \<le> dc_dispatch_concurrency c"
    using assms(2) order_trans [OF length_filter_le] by (auto simp: dispatcher_inv_def)
  with finish assms(2) show ?thesis by (auto simp: dispatcher_inv_def in_hand_def finish_delivery_def)
qed

lemma dispatcher_inv_init: "dispatcher_inv c init_dispatcher"
  by (simp add: dispatcher_inv_def in_hand_def init_dispatcher_def)

interpretation dispatching: invariant_system "\<lambda>s. s = init_dispatcher" "dispatcher_step c" "dispatcher_inv c" for c
  by unfold_locales (auto intro: dispatcher_inv_step dispatcher_inv_init)

text \<open>
  No delivery is in the queue or in the hands of a worker twice, and no more than a batch plus one delivery per
  worker is held in memory, however the coordinator and the workers take turns.
\<close>

theorem dispatcher_exclusive_and_bounded:
  assumes "(dispatcher_step c)\<^sup>*\<^sup>* init_dispatcher s"
  shows "distinct (in_hand s) \<and> pending_tasks s \<le> dc_dispatch_batch_size c + dc_dispatch_concurrency c"
  using dispatching.reachable_inv [OF refl assms] by (auto simp: dispatcher_inv_def pending_tasks_def)

section \<open>The client cache\<close>

datatype cache_op = Acquire string nat seconds | Release string nat seconds | Expire string nat

definition apply_cache_op :: "nat \<Rightarrow> cache_op \<Rightarrow> client_cache \<Rightarrow> client_cache" where
  "apply_cache_op m op cs = (case op of
       Acquire h k t \<Rightarrow> snd (acquire_client m k h t cs)
     | Release h k t \<Rightarrow> release_client h k t cs
     | Expire h k \<Rightarrow> expire_idle_client h k cs)"

definition wf_cache :: "nat \<Rightarrow> client_cache \<Rightarrow> bool" where
  "wf_cache m cs \<longleftrightarrow> length cs \<le> m \<and> distinct (map fst cs) \<and> distinct (map (ce_client \<circ> snd) cs)"

definition in_use :: "client_cache \<Rightarrow> (string \<times> nat) set" where
  "in_use cs = {(h, ce_client x) | h x. (h, x) \<in> set cs \<and> ce_in_flight x > 0}"

lemma in_useI: "(h, x) \<in> set cs \<Longrightarrow> 0 < ce_in_flight x \<Longrightarrow> ce_client x = k \<Longrightarrow> (h, k) \<in> in_use cs"
  by (auto simp: in_use_def)

lemma in_useE:
  assumes "(h, k) \<in> in_use cs"
  obtains x where "(h, x) \<in> set cs" "0 < ce_in_flight x" "ce_client x = k"
  using assms by (auto simp: in_use_def)

lemma with_entry_keys: "map fst (with_entry h x cs) = map fst cs"
  by (induction cs) (auto simp: with_entry_def)

lemma with_entry_clients:
  assumes "map_of cs h = Some y" and "ce_client x = ce_client y" and "distinct (map fst cs)"
  shows "map (ce_client \<circ> snd) (with_entry h x cs) = map (ce_client \<circ> snd) cs"
  using assms by (auto simp: with_entry_def map_of_eq_Some_iff) (metis map_of_eq_Some_iff option.inject assms(1))

lemma wf_with_entry:
  assumes "wf_cache m cs" and "map_of cs h = Some y" and "ce_client x = ce_client y"
  shows "wf_cache m (with_entry h x cs)"
  using assms with_entry_clients [OF assms(2,3)] by (simp add: wf_cache_def with_entry_keys) (simp add: with_entry_def)

lemma wf_without: "wf_cache m cs \<Longrightarrow> wf_cache m (without h cs)"
  by (auto simp: wf_cache_def without_def distinct_map_filter comp_def intro: order_trans [OF length_filter_le])

lemma make_room_facts:
  assumes "make_room m cs = Some (ev, cs')" and "wf_cache m cs" and "1 \<le> m"
  shows "wf_cache m cs'" and "length cs' < m" and "in_use cs \<subseteq> in_use cs'" and "set cs' \<subseteq> set cs"
proof -
  have "wf_cache m cs' \<and> length cs' < m \<and> in_use cs \<subseteq> in_use cs' \<and> set cs' \<subseteq> set cs"
  proof (cases "length cs < m")
    case True
    with assms show ?thesis by (simp add: make_room_def)
  next
    case False
    then obtain t h rest where idle: "sort (idle_entries cs) = (t, h) # rest"
      using assms(1) by (auto simp: make_room_def split: list.splits)
    then have "(t, h) \<in> set (idle_entries cs)" by (metis list.set_intros(1) set_sort)
    then obtain x where x: "(h, x) \<in> set cs" "ce_in_flight x = 0" by (auto simp: idle_entries_def split: if_splits)
    have cs': "cs' = without h cs" using assms(1) False idle by (simp add: make_room_def)
    have "y = x" if "(h, y) \<in> set cs" for y
      using that x(1) assms(2) by (auto simp: wf_cache_def dest: eq_key_imp_eq_value)
    note same = this
    have "(h', k') \<in> in_use cs'" if "(h', k') \<in> in_use cs" for h' k'
    proof -
      from that obtain y where y: "(h', y) \<in> set cs" "0 < ce_in_flight y" "ce_client y = k'" by (rule in_useE)
      with same x(2) have "h' \<noteq> h" by auto
      with y show ?thesis by (intro in_useI [of _ y]) (auto simp: cs' without_def)
    qed
    then have "in_use cs \<subseteq> in_use cs'" by auto
    moreover have "length cs' < length cs"
      unfolding cs' without_def by (rule length_filter_less [OF x(1)]) simp
    ultimately show ?thesis
      using wf_without [OF assms(2)] assms(2) by (auto simp: cs' without_def wf_cache_def)
  qed
  then show "wf_cache m cs'" "length cs' < m" "in_use cs \<subseteq> in_use cs'" "set cs' \<subseteq> set cs" by auto
qed

lemma in_use_with_entry:
  assumes "map_of cs h = Some y" and "ce_client x = ce_client y" and "distinct (map fst cs)" and "0 < ce_in_flight x"
  shows "in_use cs \<subseteq> in_use (with_entry h x cs)"
proof clarify
  fix k c
  assume "(k, c) \<in> in_use cs"
  then obtain z where z: "(k, z) \<in> set cs" "0 < ce_in_flight z" "ce_client z = c" by (rule in_useE)
  show "(k, c) \<in> in_use (with_entry h x cs)"
  proof (cases "k = h")
    case True
    with z(1) have "map_of cs h = Some z" using map_of_is_SomeI [OF assms(3)] by simp
    with assms(1) have "z = y" by simp
    moreover have "(h, x) \<in> set (with_entry h x cs)" using z(1) True by (force simp: with_entry_def)
    ultimately show ?thesis using z True assms(2,4) by (intro in_useI [of _ x]) auto
  next
    case False
    then have "(k, z) \<in> set (with_entry h x cs)" using z(1) by (force simp: with_entry_def)
    with z show ?thesis by (intro in_useI [of _ z]) auto
  qed
qed

lemma acquire_client_safe:
  assumes "wf_cache m cs" and "1 \<le> m" and "acquire_client m k h t cs = (res, cs')"
  shows "wf_cache m cs' \<and> in_use cs \<subseteq> in_use cs' \<and> (\<forall>n ev. res = Leased n ev \<longrightarrow> (h, n) \<in> in_use cs')"
proof (cases "map_of cs h")
  case (Some y)
  let ?x = "y\<lparr>ce_in_flight := ce_in_flight y + 1, ce_last_used_at := t\<rparr>"
  have res: "res = Leased (ce_client y) None" "cs' = with_entry h ?x cs"
    using assms(3) Some by (simp_all add: acquire_client_def)
  have "(h, ?x) \<in> set (with_entry h ?x cs)"
    using map_of_SomeD [OF Some] by (force simp: with_entry_def)
  then have "(h, ce_client y) \<in> in_use cs'" unfolding res(2) by (rule in_useI) simp_all
  moreover have "in_use cs \<subseteq> in_use cs'"
    unfolding res(2) by (rule in_use_with_entry [OF Some]) (use assms(1) in \<open>simp_all add: wf_cache_def\<close>)
  ultimately show ?thesis using wf_with_entry [OF assms(1) Some, of ?x] res by simp
next
  case None
  show ?thesis
  proof (cases "make_room m cs")
    case no_room: None
    with None assms show ?thesis by (simp add: acquire_client_def)
  next
    case (Some p)
    obtain ev cs1 where p: "p = (ev, cs1)" by (cases p)
    note room = make_room_facts [OF Some [unfolded p] assms(1,2)]
    have fresh: "h \<notin> fst ` set cs1" using None room(4) by (force simp: map_of_eq_None_iff)
    show ?thesis
    proof (cases "ev = Some k \<or> k \<in> ce_client ` snd ` set cs1")
      case True
      with assms(3) None Some p room show ?thesis by (auto simp: acquire_client_def)
    next
      case False
      with assms(3) None Some p
      have res: "res = Leased k ev" "cs' = cs1 @ [(h, \<lparr>ce_client = k, ce_last_used_at = t, ce_in_flight = 1\<rparr>)]"
        by (auto simp: acquire_client_def)
      have "wf_cache m cs'" using room(1,2) fresh False by (auto simp: res(2) wf_cache_def)
      moreover have "in_use cs1 \<subseteq> in_use cs'" by (auto simp: res(2) elim!: in_useE intro!: in_useI)
      moreover have "(h, k) \<in> in_use cs'"
        by (rule in_useI [of _ "\<lparr>ce_client = k, ce_last_used_at = t, ce_in_flight = 1\<rparr>"]) (simp_all add: res(2))
      ultimately show ?thesis using room(3) res(1) by auto
    qed
  qed
qed

text \<open>
  The client cache never holds more than \<open>client_cache_max_size\<close> clients, one per hostname and no client for two
  hostnames; only the release of a client can take it out of use, so a client with a request in flight is neither evicted nor expired.
\<close>

theorem client_cache_safe:
  assumes "wf_cache m cs" and "1 \<le> m"
  shows "wf_cache m (apply_cache_op m op cs)
    \<and> (\<forall>h k. (h, k) \<in> in_use cs \<and> (\<forall>t. op \<noteq> Release h k t) \<longrightarrow> (h, k) \<in> in_use (apply_cache_op m op cs))"
proof (cases op)
  case (Acquire h k t)
  with acquire_client_safe [OF assms, of k h t] show ?thesis
    by (cases "acquire_client m k h t cs") (auto simp: apply_cache_op_def)
next
  case (Release h k t)
  show ?thesis
  proof (cases "map_of cs h")
    case None
    with assms(1) Release show ?thesis by (simp add: apply_cache_op_def release_client_def)
  next
    case (Some y)
    let ?x = "y\<lparr>ce_in_flight := ce_in_flight y - 1, ce_last_used_at := t\<rparr>"
    have other: "(h', k') \<in> in_use (with_entry h ?x cs)" if "(h', k') \<in> in_use cs" "(h', k') \<noteq> (h, k)" "ce_client y = k" for h' k'
    proof -
      from that(1) obtain z where z: "(h', z) \<in> set cs" "ce_client z = k'" "0 < ce_in_flight z" by (auto simp: in_use_def)
      have "h' \<noteq> h"
        using z that(2,3) Some assms(1) by (auto simp: wf_cache_def map_of_eq_Some_iff dest: eq_key_imp_eq_value)
      with z show ?thesis by (force simp: in_use_def with_entry_def)
    qed
    show ?thesis
      using Some assms(1) other wf_with_entry [OF assms(1) Some, of ?x] Release
      by (auto simp: apply_cache_op_def release_client_def)
  qed
next
  case (Expire h k)
  have "(h', k') \<in> in_use (without h cs)" if "(h', k') \<in> in_use cs" "map_of cs h = Some y" "ce_in_flight y = 0" for h' k' y
    using that assms(1) by (auto simp: in_use_def without_def wf_cache_def map_of_eq_Some_iff dest: eq_key_imp_eq_value)
  with assms(1) wf_without Expire show ?thesis
    by (auto simp: apply_cache_op_def expire_idle_client_def split: option.splits)
qed

section \<open>Witnesses\<close>

definition sample_dispatcher :: dispatcher_config where
  "sample_dispatcher = \<lparr>dc_max_delivery_attempts = 2, dc_max_delivery_age = 900000000, dc_dispatch_concurrency = 1,
     dc_dispatch_batch_size = 2, dc_backoff_base = 1, dc_backoff_max = 60\<rparr>"

definition sample_intent :: delivery_create where
  "sample_intent = \<lparr>w_delivery_id = ''w'', w_job_id = ''j'', w_run_id = None, w_event = ''job.complete'', w_url = ''u'',
     w_headers = [], w_timeout_seconds = 5, w_payload = [(''delivery_id'', JStr ''w'')], w_next_attempt_at = 10\<rparr>"

definition sample_outbox :: jobs_db where
  "sample_outbox = after (enqueue_delivery sample_env sample_intent 10 empty_db)"

definition sample_decode :: "delivery_row \<Rightarrow> store_error + webhook_delivery option" where
  "sample_decode = decode_webhook_delivery sample_env (\<lambda>_. Some (JObj [])) (\<lambda>_. [])"

lemma sample_sound: "sound sample_outbox"
proof -
  have "map d_delivery_id (webhook_deliveries sample_outbox) = [''w'']" "list_all (\<lambda>d. 0 \<le> d_attempts d) (webhook_deliveries sample_outbox)"
    by code_simp+
  then show ?thesis by (simp add: sound_def unique_deliveries_def unique_on_def list_all_iff)
qed

text \<open>Two workers hold the same copy of the delivery; the network answers 503 each time.\<close>

definition sample_events :: "outbox_event list" where
  "sample_events = (case row_of ''w'' sample_outbox of None \<Rightarrow> [] | Some d \<Rightarrow> (case reserved_of (sample_decode d) of None \<Rightarrow> []
     | Some w \<Rightarrow> [Ev_start w 20, Ev_start w 21, Ev_complete (w\<lparr>wd_attempts := 1\<rparr>) (Response 503 None) 30,
         Ev_start w 40, Ev_start (w\<lparr>wd_attempts := 1\<rparr>) 50, Ev_start (w\<lparr>wd_attempts := 2\<rparr>) 60]))"

theorem webhook_posts_bounded_witness:
  "count_list (fst (posts sample_env sample_decode sample_dispatcher sample_events sample_outbox)) ''w'' = 2"
proof -
  have "fst (posts sample_env sample_decode sample_dispatcher sample_events sample_outbox) = [''w'', ''w'']" by code_simp
  moreover have "attempts_of ''w'' sample_outbox = 0" "dc_max_delivery_attempts sample_dispatcher = 2" by code_simp+
  ultimately show ?thesis
    using webhook_posts_bounded [OF sample_sound, of "''w''" sample_dispatcher sample_env "\<lambda>_. Some (JObj [])" "\<lambda>_. []" sample_events,
        folded sample_decode_def, OF _ surjective_pairing] by simp
qed


text \<open>Two deliveries are due; the URL of the first was protected under another key.\<close>

definition sample_blocked :: jobs_db where
  "sample_blocked = (let db = after (enqueue_delivery sample_env (sample_intent\<lparr>w_delivery_id := ''x'', w_payload := [(''delivery_id'', JStr ''x'')],
       w_next_attempt_at := 11\<rparr>) 11 sample_outbox)
     in update_deliveries (\<lambda>d. d_delivery_id d = ''w'') (\<lambda>d. d\<lparr>d_url := ''?''\<rparr>) db)"

theorem undecryptable_delivery_blocks_all_witness:
  "\<exists>x. coordinator_pass sample_env sample_decode sample_dispatcher 20 (init_dispatcher, sample_blocked) = (Inl x, init_dispatcher, sample_blocked)"
proof -
  have "map (\<lambda>d. (d_delivery_id d, reveal_text sample_env (webhook_purpose ''url'' (d_delivery_id d)) (d_url d)))
     (take (dc_dispatch_batch_size sample_dispatcher)
        (select_rows (\<lambda>r. d_status r = Pending \<and> d_next_attempt_at r \<le> 20) due_key sample_blocked)) = [(''w'', None), (''x'', Some ''u'')]"
    by code_simp
  then obtain d where d: "d \<in> set (take (dc_dispatch_batch_size sample_dispatcher)
        (select_rows (\<lambda>r. d_status r = Pending \<and> d_next_attempt_at r \<le> 20) due_key sample_blocked))"
    "reveal_text sample_env (webhook_purpose ''url'' (d_delivery_id d)) (d_url d) = None"
    by (auto simp: map_eq_Cons_conv) (metis (no_types, lifting))
  have "list_all (\<lambda>r. d_status r = Pending \<longrightarrow> d_attempts r < dc_max_delivery_attempts sample_dispatcher
      \<and> 20 - dc_max_delivery_age sample_dispatcher < d_created_at r) (webhook_deliveries sample_blocked)" by code_simp
  moreover have "valid_dispatcher sample_dispatcher" by (simp add: valid_dispatcher_def sample_dispatcher_def)
  ultimately show ?thesis
    using undecryptable_delivery_blocks_all [OF _ d, of "\<lambda>_. Some (JObj [])" "\<lambda>_. []" init_dispatcher, folded sample_decode_def]
    by (simp add: list_all_iff)
qed

theorem dispatcher_exclusive_and_bounded_witness:
  "\<exists>s. (dispatcher_step sample_dispatcher)\<^sup>*\<^sup>* init_dispatcher s \<and> in_hand s = [''w''] \<and> pending_tasks s \<le> 3"
proof -
  have "map_option wd_delivery_id (Option.bind (row_of ''w'' sample_outbox) (reserved_of \<circ> sample_decode)) = Some ''w''" by code_simp
  then obtain w :: webhook_delivery where w: "wd_delivery_id w = ''w''" by auto
  define s where "s = snd (schedule_due 2 [w, w] init_dispatcher)"
  have "dispatcher_step sample_dispatcher init_dispatcher s"
    by (rule dispatcher_step.schedule [where due = "[w, w]" and n = "fst (schedule_due 2 [w, w] init_dispatcher)"])
      (simp add: s_def sample_dispatcher_def)
  then have "(dispatcher_step sample_dispatcher)\<^sup>*\<^sup>* init_dispatcher s" by blast
  moreover have "in_hand s = [''w'']" by (simp add: s_def init_dispatcher_def in_hand_def w)
  ultimately show ?thesis using dispatcher_exclusive_and_bounded [of sample_dispatcher s] by (auto simp: sample_dispatcher_def)
qed

definition sample_clients :: client_cache where
  "sample_clients = [(''a'', \<lparr>ce_client = 1, ce_last_used_at = 3, ce_in_flight = 1\<rparr>), (''b'', \<lparr>ce_client = 2, ce_last_used_at = 4, ce_in_flight = 0\<rparr>)]"

theorem client_cache_safe_witness:
  "(''a'', 1) \<in> in_use (apply_cache_op 2 (Acquire ''c'' 3 9) sample_clients)
     \<and> map fst (apply_cache_op 2 (Acquire ''c'' 3 9) sample_clients) = [''a'', ''c'']"
proof -
  have "wf_cache 2 sample_clients" by (simp add: wf_cache_def sample_clients_def)
  moreover have "(''a'', 1) \<in> in_use sample_clients" by (rule in_useI) (auto simp: sample_clients_def)
  moreover have "map fst (apply_cache_op 2 (Acquire ''c'' 3 9) sample_clients) = [''a'', ''c'']" by code_simp
  ultimately show ?thesis using client_cache_safe [of 2 sample_clients "Acquire ''c'' 3 9"] by auto
qed

end
