(* ===== verification/Domain_Guard.thy ===== *)
theory Domain_Guard
  imports Timestamps "HOL-Library.AList"
begin

text \<open>
  Page budgets and cooldowns per host, \<^verbatim>\<open>engine/domain_guard.py\<close>. The protocol \<open>DomainGuard\<close> is a record of
  operations, so that \<open>admit\<close> and \<open>record_denial\<close> of \<open>RunDomainPolicy\<close> are written once and run on either guard:

  \<^item> \<open>local_domain_guard\<close> keeps two dictionaries in the process;
  \<^item> \<open>redis_domain_guard\<close> keeps one counter and one cooldown key per host in Redis, with their expiry times.

  A clock reading is a \<open>stamp\<close>, in microseconds: \<open>time.time()\<close> is the microsecond \<open>now_us\<close>, Redis counts in the
  millisecond \<open>now_ms\<close>, and \<open>utc_day\<close> is the text of the day. The process and Redis read the same clock; the rounding of
  floating-point seconds is not modelled. A remaining time is a number of microseconds. The host of a URL (\<open>canonical_url_origin\<close> and \<open>url_host_label\<close>) is an argument.
\<close>

type_synonym host = string

type_synonym clock = stamp

definition now_us :: "clock \<Rightarrow> int" where
  "now_us c = stamp_instant c"

definition now_ms :: "clock \<Rightarrow> int" where
  "now_ms c = stamp_instant c div 1000"

definition utc_day :: "clock \<Rightarrow> string" where
  "utc_day c = digits 4 (st_year c) @ digits 2 (st_month c) @ digits 2 (st_day c)"

text \<open>\<open>None\<close> as the answer of \<open>consume_page\<close> is \<open>DomainDailyLimitReached\<close>.\<close>

record 's domain_guard =
  consume_page :: "clock \<Rightarrow> host \<Rightarrow> int \<Rightarrow> 's \<Rightarrow> int option \<times> 's"
  cooldown_remaining :: "clock \<Rightarrow> host \<Rightarrow> 's \<Rightarrow> int \<times> 's"
  start_cooldown :: "clock \<Rightarrow> host \<Rightarrow> int \<Rightarrow> 's \<Rightarrow> 's"
  guard_status :: "clock \<Rightarrow> host \<Rightarrow> 's \<Rightarrow> (int \<times> int) \<times> 's"
  guard_clear :: "clock \<Rightarrow> host \<Rightarrow> 's \<Rightarrow> 's"

definition domain_guard_host :: "string option \<Rightarrow> string \<Rightarrow> host" where
  "domain_guard_host origin_host label = (let h = (case origin_host of Some x \<Rightarrow> x | None \<Rightarrow> label) in
     if take 4 h = ''www.'' then drop 4 h else h)"

definition effective_daily_page_limit :: "int \<Rightarrow> int option \<Rightarrow> int" where
  "effective_daily_page_limit service_limit job_limit = (case job_limit of
       None \<Rightarrow> service_limit
     | Some j \<Rightarrow> if service_limit \<le> 0 then j else min service_limit j)"

section \<open>The guard in the process\<close>

record local_guard =
  lg_pages :: "((host \<times> string) \<times> int) list"
  lg_cooldowns :: "(host \<times> int) list"

definition local_pages :: "clock \<Rightarrow> host \<Rightarrow> local_guard \<Rightarrow> int" where
  "local_pages c h s = (case map_of (lg_pages s) (h, utc_day c) of None \<Rightarrow> 0 | Some n \<Rightarrow> n)"

definition local_consume_page :: "clock \<Rightarrow> host \<Rightarrow> int \<Rightarrow> local_guard \<Rightarrow> int option \<times> local_guard" where
  "local_consume_page c h limit s = (let count = local_pages c h s in
     if limit > 0 \<and> count \<ge> limit then (None, s)
     else (Some (count + 1), s\<lparr>lg_pages := AList.update (h, utc_day c) (count + 1) (lg_pages s)\<rparr>))"

definition local_cooldown_remaining :: "clock \<Rightarrow> host \<Rightarrow> local_guard \<Rightarrow> int \<times> local_guard" where
  "local_cooldown_remaining c h s = (case map_of (lg_cooldowns s) h of
       None \<Rightarrow> (0, s)
     | Some until \<Rightarrow> let remaining = until - now_us c in
         if remaining \<le> 0 then (0, s\<lparr>lg_cooldowns := AList.delete h (lg_cooldowns s)\<rparr>) else (remaining, s))"

definition local_start_cooldown :: "clock \<Rightarrow> host \<Rightarrow> int \<Rightarrow> local_guard \<Rightarrow> local_guard" where
  "local_start_cooldown c h seconds s =
     (if seconds > 0 then s\<lparr>lg_cooldowns := AList.update h (now_us c + 1000000 * seconds) (lg_cooldowns s)\<rparr> else s)"

definition local_status :: "clock \<Rightarrow> host \<Rightarrow> local_guard \<Rightarrow> (int \<times> int) \<times> local_guard" where
  "local_status c h s = (let (remaining, s') = local_cooldown_remaining c h s in ((local_pages c h s, remaining), s'))"

definition local_clear :: "clock \<Rightarrow> host \<Rightarrow> local_guard \<Rightarrow> local_guard" where
  "local_clear c h s = s\<lparr>lg_cooldowns := AList.delete h (lg_cooldowns s), lg_pages := filter (\<lambda>((k, _), _). k \<noteq> h) (lg_pages s)\<rparr>"

definition local_domain_guard :: "local_guard domain_guard" where
  "local_domain_guard = \<lparr>consume_page = local_consume_page, cooldown_remaining = local_cooldown_remaining,
     start_cooldown = local_start_cooldown, guard_status = local_status, guard_clear = local_clear\<rparr>"

definition empty_local_guard :: local_guard where
  "empty_local_guard = \<lparr>lg_pages = [], lg_cooldowns = []\<rparr>"

section \<open>The guard in Redis\<close>

text \<open>An integer value with the millisecond at which it expires; Redis drops a key once the clock is past it.\<close>

type_synonym redis_kv = "(string \<times> int \<times> int option) list"

definition redis_get :: "int \<Rightarrow> string \<Rightarrow> redis_kv \<Rightarrow> (int \<times> int option) option" where
  "redis_get now k s = (case map_of s k of
       None \<Rightarrow> None
     | Some (v, None) \<Rightarrow> Some (v, None)
     | Some (v, Some e) \<Rightarrow> if now > e then None else Some (v, Some e))"

definition redis_incr :: "int \<Rightarrow> string \<Rightarrow> redis_kv \<Rightarrow> int \<times> redis_kv" where
  "redis_incr now k s = (case redis_get now k s of
       None \<Rightarrow> (1, AList.update k (1, None) s)
     | Some (v, e) \<Rightarrow> (v + 1, AList.update k (v + 1, e) s))"

definition redis_expire :: "int \<Rightarrow> string \<Rightarrow> int \<Rightarrow> redis_kv \<Rightarrow> redis_kv" where
  "redis_expire now k seconds s = (case redis_get now k s of
       None \<Rightarrow> s
     | Some (v, _) \<Rightarrow> AList.update k (v, Some (now + 1000 * seconds)) s)"

definition redis_pttl :: "int \<Rightarrow> string \<Rightarrow> redis_kv \<Rightarrow> int" where
  "redis_pttl now k s = (case redis_get now k s of None \<Rightarrow> - 2 | Some (_, None) \<Rightarrow> - 1 | Some (_, Some e) \<Rightarrow> e - now)"

definition day_key_ttl_seconds :: int where
  "day_key_ttl_seconds = 2 * 86400"

definition pages_key :: "host \<Rightarrow> string \<Rightarrow> string" where
  "pages_key h day = ''scrapeyard:domain:pages:'' @ h @ '':'' @ day"

definition cooldown_key :: "host \<Rightarrow> string" where
  "cooldown_key h = ''scrapeyard:domain:cooldown:'' @ h"

definition lua_consume :: "int \<Rightarrow> string \<Rightarrow> int \<Rightarrow> int \<Rightarrow> redis_kv \<Rightarrow> (bool \<times> int) \<times> redis_kv" where
  "lua_consume now k limit ttl s =
     (let current = (case redis_get now k s of None \<Rightarrow> 0 | Some (v, _) \<Rightarrow> v) in
      if limit > 0 \<and> current \<ge> limit then ((False, current), s)
      else let (count, s1) = redis_incr now k s
           in ((True, count), if count = 1 then redis_expire now k ttl s1 else s1))"

definition redis_consume_page :: "clock \<Rightarrow> host \<Rightarrow> int \<Rightarrow> redis_kv \<Rightarrow> int option \<times> redis_kv" where
  "redis_consume_page c h limit s =
     (case lua_consume (now_ms c) (pages_key h (utc_day c)) (max limit 0) day_key_ttl_seconds s of
        ((ok, count), s') \<Rightarrow> (if ok then Some count else None, s'))"

definition redis_cooldown_remaining :: "clock \<Rightarrow> host \<Rightarrow> redis_kv \<Rightarrow> int \<times> redis_kv" where
  "redis_cooldown_remaining c h s = (let ms = redis_pttl (now_ms c) (cooldown_key h) s in (if ms > 0 then 1000 * ms else 0, s))"

definition redis_start_cooldown :: "clock \<Rightarrow> host \<Rightarrow> int \<Rightarrow> redis_kv \<Rightarrow> redis_kv" where
  "redis_start_cooldown c h seconds s =
     (if seconds > 0 then AList.update (cooldown_key h) (1, Some (now_ms c + 1000 * seconds)) s else s)"

definition redis_pages :: "clock \<Rightarrow> host \<Rightarrow> redis_kv \<Rightarrow> int" where
  "redis_pages c h s = (case redis_get (now_ms c) (pages_key h (utc_day c)) s of None \<Rightarrow> 0 | Some (v, _) \<Rightarrow> v)"

definition redis_status :: "clock \<Rightarrow> host \<Rightarrow> redis_kv \<Rightarrow> (int \<times> int) \<times> redis_kv" where
  "redis_status c h s = (let (remaining, s') = redis_cooldown_remaining c h s in ((redis_pages c h s, remaining), s'))"

definition redis_clear :: "clock \<Rightarrow> host \<Rightarrow> redis_kv \<Rightarrow> redis_kv" where
  "redis_clear c h s = AList.delete (cooldown_key h) (AList.delete (pages_key h (utc_day c)) s)"

definition redis_domain_guard :: "redis_kv domain_guard" where
  "redis_domain_guard = \<lparr>consume_page = redis_consume_page, cooldown_remaining = redis_cooldown_remaining,
     start_cooldown = redis_start_cooldown, guard_status = redis_status, guard_clear = redis_clear\<rparr>"

section \<open>The policy of a run\<close>

type_synonym tally = "(host \<times> nat) list"

definition count_up :: "host \<Rightarrow> tally \<Rightarrow> tally" where
  "count_up h m = AList.update h ((case map_of m h of None \<Rightarrow> 0 | Some n \<Rightarrow> n) + 1) m"

record guard_usage =
  gu_pages_admitted :: tally
  gu_daily_limit_stops :: tally
  gu_cooldown_stops :: tally
  gu_cooldowns_started :: "host list"

record run_domain_policy =
  rp_daily_page_limit :: int
  rp_cooldown_seconds :: int
  rp_usage :: guard_usage

datatype scrape_stop = Domain_cooldown_active host int | Domain_daily_limit_reached host int

definition consume_for_run ::
    "'s domain_guard \<Rightarrow> clock \<Rightarrow> host \<Rightarrow> run_domain_policy \<times> 's \<Rightarrow> (scrape_stop + unit) \<times> run_domain_policy \<times> 's" where
  "consume_for_run g c h ps = (let (p, s) = ps in case consume_page g c h (rp_daily_page_limit p) s of
       (None, s') \<Rightarrow> (Inl (Domain_daily_limit_reached h (rp_daily_page_limit p)),
          p\<lparr>rp_usage := (rp_usage p)\<lparr>gu_daily_limit_stops := count_up h (gu_daily_limit_stops (rp_usage p))\<rparr>\<rparr>, s')
     | (Some _, s') \<Rightarrow> (Inr (),
          p\<lparr>rp_usage := (rp_usage p)\<lparr>gu_pages_admitted := count_up h (gu_pages_admitted (rp_usage p))\<rparr>\<rparr>, s'))"

text \<open>
  \<open>admit\<close> awaits the guard twice: \<open>admit_check\<close> is its first half and \<open>consume_for_run\<close> its second. \<open>meanwhile\<close> is what other
  targets of the run and other runs do to the policy and the guard in between.
\<close>

definition admit_check ::
    "'s domain_guard \<Rightarrow> clock \<Rightarrow> host \<Rightarrow> run_domain_policy \<times> 's \<Rightarrow> (scrape_stop + unit) \<times> run_domain_policy \<times> 's" where
  "admit_check g c h ps = (let (p, s) = ps in
     if rp_cooldown_seconds p > 0 then
       (case cooldown_remaining g c h s of (remaining, s1) \<Rightarrow>
          if remaining > 0
          then (Inl (Domain_cooldown_active h remaining),
                p\<lparr>rp_usage := (rp_usage p)\<lparr>gu_cooldown_stops := count_up h (gu_cooldown_stops (rp_usage p))\<rparr>\<rparr>, s1)
          else (Inr (), p, s1))
     else (Inr (), p, s))"

definition admit ::
    "'s domain_guard \<Rightarrow> clock \<Rightarrow> (run_domain_policy \<times> 's \<Rightarrow> run_domain_policy \<times> 's) \<Rightarrow> clock \<Rightarrow> host \<Rightarrow> run_domain_policy \<times> 's
     \<Rightarrow> (scrape_stop + unit) \<times> run_domain_policy \<times> 's" where
  "admit g c meanwhile c' h ps = (case admit_check g c h ps of
       (Inl x, ps1) \<Rightarrow> (Inl x, ps1)
     | (Inr _, ps1) \<Rightarrow> consume_for_run g c' h (if rp_cooldown_seconds (fst ps) > 0 then meanwhile ps1 else ps1))"

definition record_denial :: "'s domain_guard \<Rightarrow> clock \<Rightarrow> host \<Rightarrow> run_domain_policy \<times> 's \<Rightarrow> run_domain_policy \<times> 's" where
  "record_denial g c h ps = (let (p, s) = ps in
     if rp_cooldown_seconds p \<le> 0 then (p, s)
     else (p\<lparr>rp_usage := (rp_usage p)\<lparr>gu_cooldowns_started := (if h \<in> set (gu_cooldowns_started (rp_usage p))
              then gu_cooldowns_started (rp_usage p) else gu_cooldowns_started (rp_usage p) @ [h])\<rparr>\<rparr>,
           start_cooldown g c h (rp_cooldown_seconds p) s))"

definition admit_page ::
    "'s domain_guard \<Rightarrow> clock \<Rightarrow> (run_domain_policy \<times> 's \<Rightarrow> run_domain_policy \<times> 's) \<Rightarrow> clock \<Rightarrow> host
     \<Rightarrow> run_domain_policy option \<times> 's \<Rightarrow> (scrape_stop + unit) \<times> run_domain_policy option \<times> 's" where
  "admit_page g c meanwhile c' h ps = (case ps of
       (None, s) \<Rightarrow> (Inr (), None, s)
     | (Some p, s) \<Rightarrow> (case admit g c meanwhile c' h (p, s) of (res, p', s') \<Rightarrow> (res, Some p', s')))"

end
