(* ===== verification/Guard_Contract.thy ===== *)
theory Guard_Contract
  imports Domain_Guard
begin

text \<open>
  The contract of a domain guard and its two implementations. \<open>spec_guard tick\<close> is the abstract guard: a page count per host
  and calendar day and the end of the cooldown per host, on a clock that \<open>tick\<close> reads from the microsecond. The locale
  \<open>guard_refinement\<close> relates an implementation to it at a point in time, and its client lemma carries whole histories of several
  runs over. Both guards of the code are interpretations, with the resolution of their clocks: microseconds in the process,
  milliseconds in Redis.
\<close>

section \<open>The abstract guard\<close>

record guard_abs =
  ga_pages :: "host \<Rightarrow> nat \<Rightarrow> int"
  ga_until :: "host \<Rightarrow> int"

definition spec_guard :: "(int \<Rightarrow> int) \<Rightarrow> guard_abs domain_guard" where
  "spec_guard tick = \<lparr>
     consume_page = (\<lambda>c h limit a. let n = ga_pages a h (ordinal_day c) in
       if 0 < limit \<and> limit \<le> n then (None, a)
       else (Some (n + 1), a\<lparr>ga_pages := (ga_pages a)(h := (ga_pages a h)(ordinal_day c := n + 1))\<rparr>)),
     cooldown_remaining = (\<lambda>c h a. (max 0 (ga_until a h - tick (now_us c)), a)),
     start_cooldown = (\<lambda>c h seconds a. if seconds > 0 then a\<lparr>ga_until := (ga_until a)(h := tick (now_us c) + 1000000 * seconds)\<rparr> else a),
     guard_status = (\<lambda>c h a. ((ga_pages a h (ordinal_day c), max 0 (ga_until a h - tick (now_us c))), a)),
     guard_clear = (\<lambda>c h a. a\<lparr>ga_until := (ga_until a)(h := tick (now_us c)), ga_pages := (ga_pages a)(h := \<lambda>_. 0)\<rparr>)\<rparr>"

definition empty_abs :: guard_abs where
  "empty_abs = \<lparr>ga_pages = \<lambda>_ _. 0, ga_until = \<lambda>_. 0\<rparr>"

text \<open>The clock of Redis: the microsecond at which the current millisecond began.\<close>

definition whole_ms :: "int \<Rightarrow> int" where
  "whole_ms u = 1000 * (u div 1000)"

lemma whole_ms_mono: "n \<le> m \<Longrightarrow> whole_ms n \<le> whole_ms m"
  by (simp add: whole_ms_def zdiv_mono1)

lemma whole_ms_now: "whole_ms (now_us c) = 1000 * now_ms c" and whole_ms_div: "whole_ms (now_us c) div 1000 = now_ms c"
  by (simp_all add: whole_ms_def now_us_def now_ms_def)

section \<open>Histories\<close>

text \<open>
  Runs, given by their policies, share one guard; an operator reads the status of a host or clears it. The two halves of an
  admission are events of their own, so that anything can happen between them.
\<close>

datatype guard_event = Ev_check nat host | Ev_consume nat host | Ev_denial nat host | Ev_status host | Ev_clear host

datatype guard_answer = Passed | Admitted | Stopped scrape_stop | Status int int | Done

fun apply_guard_event ::
    "'s domain_guard \<Rightarrow> clock \<Rightarrow> guard_event \<Rightarrow> run_domain_policy list \<times> 's \<Rightarrow> guard_answer \<times> run_domain_policy list \<times> 's" where
  "apply_guard_event g c (Ev_check i h) (ps, s) = (if i < length ps
     then (case admit_check g c h (ps ! i, s) of (r, p, s') \<Rightarrow> (case r of Inl x \<Rightarrow> Stopped x | Inr _ \<Rightarrow> Passed, ps[i := p], s'))
     else (Done, ps, s))"
| "apply_guard_event g c (Ev_consume i h) (ps, s) = (if i < length ps
     then (case consume_for_run g c h (ps ! i, s) of (r, p, s') \<Rightarrow> (case r of Inl x \<Rightarrow> Stopped x | Inr _ \<Rightarrow> Admitted, ps[i := p], s'))
     else (Done, ps, s))"
| "apply_guard_event g c (Ev_denial i h) (ps, s) = (if i < length ps
     then (case record_denial g c h (ps ! i, s) of (p, s') \<Rightarrow> (Done, ps[i := p], s')) else (Done, ps, s))"
| "apply_guard_event g c (Ev_status h) (ps, s) = (case guard_status g c h s of ((n, r), s') \<Rightarrow> (Status n r, ps, s'))"
| "apply_guard_event g c (Ev_clear h) (ps, s) = (Done, ps, guard_clear g c h s)"

fun answers ::
    "'s domain_guard \<Rightarrow> (clock \<times> guard_event) list \<Rightarrow> run_domain_policy list \<times> 's \<Rightarrow> guard_answer list \<times> run_domain_policy list" where
  "answers g [] (ps, s) = ([], ps)"
| "answers g ((c, ev) # tr) (ps, s) = (case apply_guard_event g c ev (ps, s) of
     (r, ps', s') \<Rightarrow> (case answers g tr (ps', s') of (rs, qs) \<Rightarrow> (r # rs, qs)))"

text \<open>Valid clock readings that do not go back.\<close>

fun clocked :: "int \<Rightarrow> (clock \<times> guard_event) list \<Rightarrow> bool" where
  "clocked n [] \<longleftrightarrow> True"
| "clocked n ((c, ev) # tr) \<longleftrightarrow> wf_stamp c \<and> n \<le> now_us c \<and> clocked (now_us c) tr"

text \<open>An admission with nothing in between is its two events in a row.\<close>

lemma admit_as_events:
  assumes "i < length ps" and "admit g c (\<lambda>x. x) c' h (ps ! i, s) = (Inr (), p, s')"
  shows "answers g [(c, Ev_check i h), (c', Ev_consume i h)] (ps, s) = ([Passed, Admitted], ps[i := p])"
  using assms by (auto simp: admit_def consume_for_run_def Let_def split: sum.splits prod.splits option.splits if_splits)

section \<open>Refinement\<close>

locale guard_refinement =
  fixes g :: "'s domain_guard" and tick :: "int \<Rightarrow> int" and R :: "int \<Rightarrow> 's \<Rightarrow> guard_abs \<Rightarrow> bool"
  assumes mono: "n \<le> m \<Longrightarrow> tick n \<le> tick m"
    and later: "R n s a \<Longrightarrow> n \<le> m \<Longrightarrow> R m s a"
    and consume: "wf_stamp c \<Longrightarrow> R (tick (now_us c)) s a \<Longrightarrow>
      fst (consume_page g c h limit s) = fst (consume_page (spec_guard tick) c h limit a)
      \<and> R (tick (now_us c)) (snd (consume_page g c h limit s)) (snd (consume_page (spec_guard tick) c h limit a))"
    and remaining: "wf_stamp c \<Longrightarrow> R (tick (now_us c)) s a \<Longrightarrow>
      fst (cooldown_remaining g c h s) = fst (cooldown_remaining (spec_guard tick) c h a) \<and> R (tick (now_us c)) (snd (cooldown_remaining g c h s)) a"
    and start: "wf_stamp c \<Longrightarrow> R (tick (now_us c)) s a \<Longrightarrow>
      R (tick (now_us c)) (start_cooldown g c h n s) (start_cooldown (spec_guard tick) c h n a)"
    and status: "wf_stamp c \<Longrightarrow> R (tick (now_us c)) s a \<Longrightarrow>
      fst (guard_status g c h s) = fst (guard_status (spec_guard tick) c h a) \<and> R (tick (now_us c)) (snd (guard_status g c h s)) a"
    and clear: "wf_stamp c \<Longrightarrow> R (tick (now_us c)) s a \<Longrightarrow> R (tick (now_us c)) (guard_clear g c h s) (guard_clear (spec_guard tick) c h a)"
begin

lemma consume_for_run_refines:
  assumes "wf_stamp c" and "R (tick (now_us c)) s a" and "consume_for_run (spec_guard tick) c h (p, a) = (r, q, a')"
  shows "\<exists>s'. consume_for_run g c h (p, s) = (r, q, s') \<and> R (tick (now_us c)) s' a'"
proof -
  obtain k s' where s': "consume_page g c h (rp_daily_page_limit p) s = (k, s')" by fastforce
  obtain k' b where b: "consume_page (spec_guard tick) c h (rp_daily_page_limit p) a = (k', b)" by fastforce
  have "k' = k" "R (tick (now_us c)) s' b"
    using consume [OF assms(1,2), of h "rp_daily_page_limit p"] by (simp_all add: s' b)
  with assms(3) show ?thesis by (auto simp: consume_for_run_def s' b split: option.splits)
qed

lemma admit_check_refines:
  assumes "wf_stamp c" and "R (tick (now_us c)) s a" and "admit_check (spec_guard tick) c h (p, a) = (r, q, a')"
  shows "\<exists>s'. admit_check g c h (p, s) = (r, q, s') \<and> R (tick (now_us c)) s' a'"
proof -
  obtain k s1 where s1: "cooldown_remaining g c h s = (k, s1)" by fastforce
  have "cooldown_remaining (spec_guard tick) c h a = (k, a)" "R (tick (now_us c)) s1 a"
    using remaining [OF assms(1,2), of h] s1 by (simp_all add: spec_guard_def)
  with s1 assms(2,3) show ?thesis by (auto simp: admit_check_def split: if_splits)
qed

lemma event_refines:
  assumes "wf_stamp c" and "R (tick (now_us c)) s a" and "apply_guard_event (spec_guard tick) c ev (ps, a) = (r, qs, a')"
  shows "\<exists>s'. apply_guard_event g c ev (ps, s) = (r, qs, s') \<and> R (tick (now_us c)) s' a'"
proof (cases ev)
  case (Ev_check i h)
  show ?thesis
  proof (cases "i < length ps")
    case True
    obtain x q b where spec: "admit_check (spec_guard tick) c h (ps ! i, a) = (x, q, b)" by (metis prod_cases3)
    from admit_check_refines [OF assms(1,2) this] True assms(3) show ?thesis by (auto simp: Ev_check spec)
  qed (use assms in \<open>simp add: Ev_check\<close>)
next
  case (Ev_consume i h)
  show ?thesis
  proof (cases "i < length ps")
    case True
    obtain x q b where spec: "consume_for_run (spec_guard tick) c h (ps ! i, a) = (x, q, b)" by (metis prod_cases3)
    from consume_for_run_refines [OF assms(1,2) this] True assms(3) show ?thesis by (auto simp: Ev_consume spec)
  qed (use assms in \<open>simp add: Ev_consume\<close>)
next
  case (Ev_denial i h)
  with assms(3) start [OF assms(1,2)] assms(2) show ?thesis by (auto simp: record_denial_def Let_def split: if_splits)
next
  case (Ev_status h)
  obtain x s' where "guard_status g c h s = (x, s')" by fastforce
  with status [OF assms(1,2), of h] assms(3) show ?thesis by (cases x) (auto simp: Ev_status spec_guard_def)
next
  case (Ev_clear h)
  with clear [OF assms(1,2)] assms(3) show ?thesis by auto
qed

lemma answers_refine:
  assumes "clocked n tr" and "R (tick n) s a"
  shows "answers g tr (ps, s) = answers (spec_guard tick) tr (ps, a)"
  using assms
proof (induction tr arbitrary: n s a ps)
  case (Cons e tr)
  obtain c ev where e: "e = (c, ev)" by (cases e)
  obtain r qs a' where spec: "apply_guard_event (spec_guard tick) c ev (ps, a) = (r, qs, a')" by (metis prod_cases3)
  have c: "wf_stamp c" "clocked (now_us c) tr" "R (tick (now_us c)) s a" using Cons.prems later mono e by auto
  obtain s' where s': "apply_guard_event g c ev (ps, s) = (r, qs, s')" "R (tick (now_us c)) s' a'"
    using event_refines [OF c(1,3) spec] by blast
  from Cons.IH [OF c(2) s'(2)] show ?case by (simp add: e spec s')
qed simp

end

text \<open>Clocks that agree on every reading of the history give the same answers.\<close>

lemma answers_same_tick:
  assumes "\<forall>(c, ev) \<in> set tr. tick (now_us c) = tock (now_us c)"
  shows "answers (spec_guard tick) tr x = answers (spec_guard tock) tr x"
  using assms
proof (induction tr arbitrary: x)
  case (Cons e tr)
  obtain c ev where e: "e = (c, ev)" by (cases e)
  obtain ps a where x: "x = (ps, a)" by (cases x)
  have "apply_guard_event (spec_guard tick) c ev (ps, a) = apply_guard_event (spec_guard tock) c ev (ps, a)"
    using Cons.prems by (cases ev) (simp_all add: e admit_check_def consume_for_run_def record_denial_def spec_guard_def)
  with Cons show ?case by (simp add: e x)
next
  case Nil
  then show ?case by (cases x) simp
qed

section \<open>Days and keys\<close>

definition day_ms :: int where
  "day_ms = 86400000"

lemma same_day:
  assumes "wf_stamp a" and "wf_stamp b"
  shows "utc_day a = utc_day b \<longleftrightarrow> ordinal_day a = ordinal_day b"
proof
  have "st_year s < 10 ^ 4 \<and> st_month s < 10 ^ 2 \<and> st_day s < 10 ^ 2" if "wf_stamp s" for s
  proof -
    have "days_in_month (st_year s) (st_month s) \<le> 31" by (simp add: days_in_month_def)
    with that show ?thesis by (simp add: wf_stamp_def)
  qed
  note bounds = this [OF assms(1)] this [OF assms(2)]
  show "ordinal_day a = ordinal_day b" if "utc_day a = utc_day b"
    using that bounds by (simp add: utc_day_def digits_eq ordinal_day_def)
  show "utc_day a = utc_day b" if "ordinal_day a = ordinal_day b"
  proof -
    have "(st_year a, st_month a, st_day a) = (st_year b, st_month b, st_day b)"
      using that ordinal_day_mono [OF assms] ordinal_day_mono [OF assms(2,1)] by (metis less_irrefl linorder_cases)
    then show ?thesis by (simp add: utc_day_def)
  qed
qed

lemma length_utc_day [simp]: "length (utc_day c) = 8"
  by (simp add: utc_day_def)

lemma now_in_day:
  assumes "wf_stamp c"
  shows "day_ms * int (ordinal_day c) \<le> now_ms c" and "now_ms c < day_ms * (int (ordinal_day c) + 1)" and "0 \<le> now_ms c"
proof -
  define x where "x = (int (st_hour c) * 60 + int (st_minute c)) * 60 + int (st_second c)"
  have x: "0 \<le> x" "x < 86400" using assms by (auto simp: x_def wf_stamp_def)
  have u: "0 \<le> int (st_micro c)" "int (st_micro c) < 1000000" using assms by (auto simp: wf_stamp_def)
  have i: "stamp_instant c = 86400000000 * int (ordinal_day c) + 1000000 * x + int (st_micro c)"
    by (simp add: stamp_instant_def x_def algebra_simps)
  define o_day where "o_day = int (ordinal_day c)"
  define u where "u = int (st_micro c) div 1000"
  have u: "0 \<le> u" "u < 1000" using u by (simp_all add: u_def div_less_iff_less_mult)
  have n: "now_ms c = 86400000 * o_day + 1000 * x + u"
    using div_mult_self1 [of 1000 "int (st_micro c)" "86400000 * o_day + 1000 * x"]
    by (simp add: now_ms_def i o_day_def u_def algebra_simps)
  have "86400000 * o_day \<le> now_ms c" "now_ms c < 86400000 * o_day + 86400000" "0 \<le> now_ms c"
    using x u by (simp_all add: n o_day_def)
  then show "day_ms * int (ordinal_day c) \<le> now_ms c" "now_ms c < day_ms * (int (ordinal_day c) + 1)" "0 \<le> now_ms c"
    by (simp_all add: day_ms_def o_day_def algebra_simps)
qed

lemma day_of_now:
  assumes "wf_stamp c" and "day_ms * int d \<le> now_ms c" and "now_ms c < day_ms * (int d + 1)"
  shows "d = ordinal_day c"
proof -
  have "day_ms * int d < day_ms * (int (ordinal_day c) + 1)" "day_ms * int (ordinal_day c) < day_ms * (int d + 1)"
    using now_in_day(1,2) [OF assms(1)] assms(2,3) by (simp_all only: order_le_less_trans)
  then show ?thesis by (simp add: day_ms_def)
qed

lemma pages_key_eq:
  assumes "length d = length e"
  shows "pages_key h d = pages_key k e \<longleftrightarrow> h = k \<and> d = e"
  using append_eq_append_conv [of "'':'' @ d" "'':'' @ e" h k] assms by (auto simp: pages_key_def)

lemma cooldown_key_eq: "cooldown_key h = cooldown_key k \<longleftrightarrow> h = k"
  by (simp add: cooldown_key_def)

lemma key_kinds: "pages_key h d \<noteq> cooldown_key k" "cooldown_key k \<noteq> pages_key h d"
  by (simp_all add: pages_key_def cooldown_key_def)

lemmas guard_keys = pages_key_eq [of "utc_day c" "utc_day d" for c d, simplified] cooldown_key_eq key_kinds

section \<open>The two guards refine the contract\<close>

text \<open>The end of a cooldown, as far as a clock at \<open>n\<close> or later can tell.\<close>

definition ends :: "int \<Rightarrow> int option \<Rightarrow> int \<Rightarrow> bool" where
  "ends n e u \<longleftrightarrow> max n (case e of None \<Rightarrow> n | Some t \<Rightarrow> t) = max n u"

lemma ends_later: "ends n e u \<Longrightarrow> n \<le> m \<Longrightarrow> ends m e u"
  by (auto simp: ends_def max_def split: option.splits if_splits)

lemma ends_Some [simp]: "ends n (Some t) t"
  by (simp add: ends_def)

lemma ends_None [simp]: "ends n None u \<longleftrightarrow> u \<le> n"
  by (auto simp: ends_def max_def)

lemma ends_remaining: "ends n (Some e) u \<Longrightarrow> max 0 (e - n) = max 0 (u - n)"
  by (auto simp: ends_def max_def split: if_splits)

definition local_rel :: "int \<Rightarrow> local_guard \<Rightarrow> guard_abs \<Rightarrow> bool" where
  "local_rel n s a \<longleftrightarrow> (\<forall>c h. wf_stamp c \<longrightarrow> local_pages c h s = ga_pages a h (ordinal_day c))
     \<and> (\<forall>h. ends n (map_of (lg_cooldowns s) h) (ga_until a h))"

lemma map_of_filter_host: "map_of (filter (\<lambda>((k, _), _). k \<noteq> h) xs) (k, d) = (if k = h then None else map_of xs (k, d))"
  by (induction xs) auto

interpretation in_process: guard_refinement local_domain_guard "\<lambda>u. u" local_rel
proof
  fix n m :: int and s a c h limit k
  show "n \<le> m \<Longrightarrow> n \<le> m" .
  show "local_rel n s a \<Longrightarrow> n \<le> m \<Longrightarrow> local_rel m s a" by (auto simp: local_rel_def intro: ends_later)
  assume c: "wf_stamp c" and rel: "local_rel (now_us c) s a"
  have pages: "local_pages c h s = ga_pages a h (ordinal_day c)" using c rel by (simp add: local_rel_def)
  have "ends (now_us c) (map_of (lg_cooldowns s) h) (ga_until a h)" using rel by (simp add: local_rel_def)
  then have left: "fst (local_cooldown_remaining c h s) = max 0 (ga_until a h - now_us c)"
    by (auto simp: local_cooldown_remaining_def Let_def ends_def max_def split: option.splits if_splits)
  have dropped: "ends (now_us c) (map_of (AList.delete h (lg_cooldowns s)) k) (ga_until a k)"
    if "map_of (lg_cooldowns s) h = Some u" "u \<le> now_us c" for u k
    using that rel by (auto simp: local_rel_def delete_conv' restrict_map_def ends_def max_def split: if_splits option.splits dest: spec [of _ h])
  have left_rel: "local_rel (now_us c) (snd (local_cooldown_remaining c h s)) a"
    using rel dropped by (simp add: local_rel_def local_cooldown_remaining_def Let_def local_pages_def split: option.splits)
  show "fst (consume_page local_domain_guard c h limit s) = fst (consume_page (spec_guard (\<lambda>u. u)) c h limit a)
      \<and> local_rel (now_us c) (snd (consume_page local_domain_guard c h limit s)) (snd (consume_page (spec_guard (\<lambda>u. u)) c h limit a))"
    using rel pages same_day [OF _ c]
    by (auto simp: local_domain_guard_def local_consume_page_def spec_guard_def Let_def local_rel_def local_pages_def update_conv')
  show "fst (cooldown_remaining local_domain_guard c h s) = fst (cooldown_remaining (spec_guard (\<lambda>u. u)) c h a)
      \<and> local_rel (now_us c) (snd (cooldown_remaining local_domain_guard c h s)) a"
    using left left_rel by (simp add: local_domain_guard_def spec_guard_def)
  show "local_rel (now_us c) (start_cooldown local_domain_guard c h k s) (start_cooldown (spec_guard (\<lambda>u. u)) c h k a)"
    using rel by (auto simp: local_domain_guard_def spec_guard_def local_start_cooldown_def local_rel_def local_pages_def update_conv')
  show "fst (guard_status local_domain_guard c h s) = fst (guard_status (spec_guard (\<lambda>u. u)) c h a)
      \<and> local_rel (now_us c) (snd (guard_status local_domain_guard c h s)) a"
    using left left_rel pages
    by (cases "local_cooldown_remaining c h s") (simp add: local_domain_guard_def spec_guard_def local_status_def)
  show "local_rel (now_us c) (guard_clear local_domain_guard c h s) (guard_clear (spec_guard (\<lambda>u. u)) c h a)"
    using rel by (auto simp: local_domain_guard_def spec_guard_def local_clear_def local_rel_def local_pages_def
        map_of_filter_host delete_conv' restrict_map_def)
qed

definition page_entry :: "int \<Rightarrow> nat \<Rightarrow> (int \<times> int option) option \<Rightarrow> int \<Rightarrow> bool" where
  "page_entry n d x count \<longleftrightarrow> (case x of
       None \<Rightarrow> count = 0
     | Some (v, e) \<Rightarrow> v = count \<and> 1 \<le> v \<and> day_ms * int d \<le> n \<and> (\<exists>t. e = Some t \<and> day_ms * (int d + 1) \<le> t))"

definition cooldown_entry :: "int \<Rightarrow> (int \<times> int option) option \<Rightarrow> int \<Rightarrow> bool" where
  "cooldown_entry n x u \<longleftrightarrow> (case x of None \<Rightarrow> u \<le> 1000 * n | Some (_, None) \<Rightarrow> False
     | Some (_, Some e) \<Rightarrow> ends (1000 * n) (Some (1000 * e)) u)"

lemma cooldown_entry_some [simp]: "cooldown_entry n (Some (v, Some e)) (1000 * e)"
  by (simp add: cooldown_entry_def)

definition redis_rel :: "int \<Rightarrow> redis_kv \<Rightarrow> guard_abs \<Rightarrow> bool" where
  "redis_rel n s a \<longleftrightarrow>
     (\<forall>c h. wf_stamp c \<and> n < day_ms * (int (ordinal_day c) + 1) \<longrightarrow>
        page_entry n (ordinal_day c) (map_of s (pages_key h (utc_day c))) (ga_pages a h (ordinal_day c)))
     \<and> (\<forall>h. cooldown_entry n (map_of s (cooldown_key h)) (ga_until a h))"

lemma page_entry_later: "page_entry n d x count \<Longrightarrow> n \<le> m \<Longrightarrow> page_entry m d x count"
  by (auto simp: page_entry_def split: option.splits)

lemma cooldown_entry_later: "cooldown_entry n x u \<Longrightarrow> n \<le> m \<Longrightarrow> cooldown_entry m x u"
  by (auto simp: cooldown_entry_def split: option.splits intro: ends_later [of "1000 * n"])

lemma redis_rel_later: "redis_rel n s a \<Longrightarrow> n \<le> m \<Longrightarrow> redis_rel m s a"
  unfolding redis_rel_def by (meson page_entry_later cooldown_entry_later order_le_less_trans)

lemma redis_entry:
  assumes "wf_stamp c" and "redis_rel (now_ms c) s a"
  shows "page_entry (now_ms c) (ordinal_day c) (map_of s (pages_key h (utc_day c))) (ga_pages a h (ordinal_day c))"
    and "redis_get (now_ms c) (pages_key h (utc_day c)) s = map_of s (pages_key h (utc_day c))"
    and "redis_pages c h s = ga_pages a h (ordinal_day c)"
proof -
  show entry: "page_entry (now_ms c) (ordinal_day c) (map_of s (pages_key h (utc_day c))) (ga_pages a h (ordinal_day c))"
    using assms now_in_day(2) [OF assms(1)] by (simp add: redis_rel_def)
  then show get: "redis_get (now_ms c) (pages_key h (utc_day c)) s = map_of s (pages_key h (utc_day c))"
    using now_in_day(2) [OF assms(1)] by (auto simp: redis_get_def page_entry_def split: option.splits prod.splits)
  show "redis_pages c h s = ga_pages a h (ordinal_day c)"
    unfolding redis_pages_def get using entry by (auto simp: page_entry_def split: option.splits prod.splits)
qed

lemma redis_remaining:
  assumes "redis_rel (now_ms c) s a"
  shows "redis_cooldown_remaining c h s = (max 0 (ga_until a h - 1000 * now_ms c), s)"
proof -
  have "cooldown_entry (now_ms c) (map_of s (cooldown_key h)) (ga_until a h)" using assms by (simp add: redis_rel_def)
  then show ?thesis
    unfolding redis_cooldown_remaining_def redis_pttl_def redis_get_def cooldown_entry_def
    by (auto simp: ends_def max_def split: option.splits if_splits)
qed

lemma redis_consume:
  assumes "wf_stamp c" and "redis_rel (now_ms c) s a"
  shows "fst (redis_consume_page c h limit s) = fst (consume_page (spec_guard whole_ms) c h limit a)"
    and "redis_rel (now_ms c) (snd (redis_consume_page c h limit s)) (snd (consume_page (spec_guard whole_ms) c h limit a))"
proof -
  let ?k = "pages_key h (utc_day c)" and ?n = "ga_pages a h (ordinal_day c)"
  note entry = redis_entry [OF assms, of h]
  define s' where "s' = snd (redis_consume_page c h limit s)"
  show "fst (redis_consume_page c h limit s) = fst (consume_page (spec_guard whole_ms) c h limit a)"
    using entry(1) by (auto simp: redis_consume_page_def lua_consume_def entry(2) spec_guard_def redis_incr_def Let_def page_entry_def
        split: option.splits prod.splits)
  show "redis_rel (now_ms c) (snd (redis_consume_page c h limit s)) (snd (consume_page (spec_guard whole_ms) c h limit a))"
  proof (cases "0 < limit \<and> limit \<le> ?n")
    case True
    then have "snd (redis_consume_page c h limit s) = s" "snd (consume_page (spec_guard whole_ms) c h limit a) = a"
      using entry(1) by (auto simp: redis_consume_page_def lua_consume_def entry(2) spec_guard_def Let_def page_entry_def
        split: option.splits prod.splits)
    with assms(2) show ?thesis by simp
  next
    case False
    then have a': "snd (consume_page (spec_guard whole_ms) c h limit a) = a\<lparr>ga_pages := (ga_pages a)(h := (ga_pages a h)(ordinal_day c := ?n + 1))\<rparr>"
      by (auto simp: spec_guard_def Let_def)
    obtain t where t: "map_of s' = (map_of s)(?k \<mapsto> (?n + 1, Some t))" "day_ms * (int (ordinal_day c) + 1) \<le> t"
    proof (cases "map_of s ?k")
      case None
      with False entry(1) have "s' = redis_expire (now_ms c) ?k day_key_ttl_seconds (AList.update ?k (1, None) s)" "?n = 0"
        by (auto simp: s'_def redis_consume_page_def lua_consume_def entry(2) redis_incr_def page_entry_def)
      then have "map_of s' = (map_of s)(?k \<mapsto> (?n + 1, Some (now_ms c + 1000 * day_key_ttl_seconds)))"
        by (simp add: redis_expire_def redis_get_def update_conv')
      moreover have "day_ms * (int (ordinal_day c) + 1) \<le> now_ms c + 1000 * day_key_ttl_seconds"
        using now_in_day(1) [OF assms(1)] by (simp add: day_ms_def day_key_ttl_seconds_def)
      ultimately show thesis by (rule that)
    next
      case (Some x)
      with entry(1) obtain t where x: "x = (?n, Some t)" "1 \<le> ?n" "day_ms * (int (ordinal_day c) + 1) \<le> t"
        by (auto simp: page_entry_def split: prod.splits)
      with False Some have "s' = AList.update ?k (?n + 1, Some t) s"
        by (auto simp: s'_def redis_consume_page_def lua_consume_def entry(2) redis_incr_def Let_def)
      with x(3) show thesis by (intro that [of t]) (simp_all add: update_conv')
    qed
    have "page_entry (now_ms c) (ordinal_day d) (map_of s' (pages_key k (utc_day d)))
        (((ga_pages a)(h := (ga_pages a h)(ordinal_day c := ?n + 1))) k (ordinal_day d))"
      if "wf_stamp d" "now_ms c < day_ms * (int (ordinal_day d) + 1)" for d k
    proof (cases "k = h \<and> ordinal_day d = ordinal_day c")
      case True
      then have "map_of s' (pages_key k (utc_day d)) = Some (?n + 1, Some t)" using same_day [OF that(1) assms(1)] t(1) by simp
      moreover have "0 \<le> ?n" using entry(1) by (auto simp: page_entry_def split: option.splits)
      ultimately show ?thesis using True t(2) now_in_day(1) [OF assms(1)] by (simp add: page_entry_def)
    next
      case False
      then have "map_of s' (pages_key k (utc_day d)) = map_of s (pages_key k (utc_day d))"
        using same_day [OF that(1) assms(1)] by (auto simp: t(1) guard_keys)
      with False that assms(2) show ?thesis by (auto simp: redis_rel_def)
    qed
    then show ?thesis using assms(2) unfolding a' s'_def [symmetric] by (auto simp: redis_rel_def t(1) guard_keys)
  qed
qed

lemma redis_clears:
  assumes "wf_stamp c" and "redis_rel (now_ms c) s a"
  shows "redis_rel (now_ms c) (redis_clear c h s) (guard_clear (spec_guard whole_ms) c h a)"
proof -
  have "page_entry (now_ms c) (ordinal_day d) (map_of (redis_clear c h s) (pages_key k (utc_day d))) (((ga_pages a)(h := \<lambda>_. 0)) k (ordinal_day d))"
    if d: "wf_stamp d" "now_ms c < day_ms * (int (ordinal_day d) + 1)" for d k
  proof -
    have old: "page_entry (now_ms c) (ordinal_day d) (map_of s (pages_key k (utc_day d))) (ga_pages a k (ordinal_day d))"
      using assms(2) d by (simp add: redis_rel_def)
    have "utc_day d = utc_day c" if "day_ms * int (ordinal_day d) \<le> now_ms c"
      using day_of_now [OF assms(1) that d(2)] same_day [OF d(1) assms(1)] by simp
    with old show ?thesis
      by (auto simp: redis_clear_def delete_conv' restrict_map_def guard_keys page_entry_def split: option.splits)
  qed
  moreover have "cooldown_entry (now_ms c) (map_of (redis_clear c h s) (cooldown_key k)) (((ga_until a)(h := whole_ms (now_us c))) k)" for k
    using assms(2) by (auto simp: redis_clear_def delete_conv' restrict_map_def guard_keys redis_rel_def cooldown_entry_def whole_ms_now)
  ultimately show ?thesis by (simp add: redis_rel_def spec_guard_def)
qed

interpretation shared: guard_refinement redis_domain_guard whole_ms "\<lambda>n. redis_rel (n div 1000)"
proof
  fix n m s a c h limit k
  show "n \<le> m \<Longrightarrow> whole_ms n \<le> whole_ms m" by (rule whole_ms_mono)
  show "redis_rel (n div 1000) s a \<Longrightarrow> n \<le> m \<Longrightarrow> redis_rel (m div 1000) s a" using redis_rel_later zdiv_mono1 [of n m 1000] by simp
  assume c: "wf_stamp c" and "redis_rel (whole_ms (now_us c) div 1000) s a"
  then have rel: "redis_rel (now_ms c) s a" by (simp add: whole_ms_div)
  show "fst (consume_page redis_domain_guard c h limit s) = fst (consume_page (spec_guard whole_ms) c h limit a)
      \<and> redis_rel (whole_ms (now_us c) div 1000) (snd (consume_page redis_domain_guard c h limit s)) (snd (consume_page (spec_guard whole_ms) c h limit a))"
    using redis_consume [OF c rel] by (simp add: redis_domain_guard_def whole_ms_div)
  show "fst (cooldown_remaining redis_domain_guard c h s) = fst (cooldown_remaining (spec_guard whole_ms) c h a)
      \<and> redis_rel (whole_ms (now_us c) div 1000) (snd (cooldown_remaining redis_domain_guard c h s)) a"
    using rel by (simp add: redis_domain_guard_def spec_guard_def redis_remaining whole_ms_div whole_ms_now)
  show "redis_rel (whole_ms (now_us c) div 1000) (start_cooldown redis_domain_guard c h k s) (start_cooldown (spec_guard whole_ms) c h k a)"
    using rel cooldown_entry_some [of "now_ms c" 1 "now_ms c + 1000 * k"]
    by (simp add: redis_domain_guard_def spec_guard_def redis_start_cooldown_def redis_rel_def update_conv' guard_keys
        whole_ms_div whole_ms_now algebra_simps del: cooldown_entry_some)
  show "fst (guard_status redis_domain_guard c h s) = fst (guard_status (spec_guard whole_ms) c h a)
      \<and> redis_rel (whole_ms (now_us c) div 1000) (snd (guard_status redis_domain_guard c h s)) a"
    using rel redis_entry(3) [OF c rel]
    by (simp add: redis_domain_guard_def spec_guard_def redis_status_def redis_remaining whole_ms_div whole_ms_now)
  show "redis_rel (whole_ms (now_us c) div 1000) (guard_clear redis_domain_guard c h s) (guard_clear (spec_guard whole_ms) c h a)"
    using redis_clears [OF c rel] by (simp add: redis_domain_guard_def whole_ms_div)
qed

end
