(* ===== verification/Guard_Properties.thy ===== *)
theory Guard_Properties
  imports Guard_Contract
begin

text \<open>
  Properties of the domain guard, proved once on the abstract guard and carried over to both implementations: they answer
  alike, the daily page budget of a host holds over all runs that share the guard, and a denial stops every run for
  the whole cooldown.
\<close>

lemma empty_related: "local_rel 0 empty_local_guard empty_abs" "redis_rel (whole_ms 0 div 1000) [] empty_abs"
  by (simp_all add: local_rel_def redis_rel_def empty_local_guard_def empty_abs_def local_pages_def page_entry_def
      cooldown_entry_def whole_ms_def)

lemmas local_answers = in_process.answers_refine [OF _ empty_related(1)]
lemmas redis_answers = shared.answers_refine [OF _ empty_related(2)]

section \<open>Equivalence\<close>

text \<open>
  Claim C36. On clock readings in whole milliseconds that do not go back, the guard kept in the process and the guard kept in Redis
  cannot be told apart: on every history of admissions (each in its two awaited halves), denials, status requests and resets by any
  number of runs they give the same answers and leave the runs the same usage reports, also across midnight and when Redis drops
  expired keys. Both read the same clock. Readings between two
  milliseconds are not covered: the guard in the process counts microseconds.
\<close>

theorem guards_equivalent:
  assumes "clocked 0 tr" and "\<forall>(c, ev) \<in> set tr. now_us c mod 1000 = 0"
  shows "answers local_domain_guard tr (ps, empty_local_guard) = answers redis_domain_guard tr (ps, [])"
proof -
  have "\<forall>(c, ev) \<in> set tr. now_us c = whole_ms (now_us c)"
    using assms(2) by (auto simp: whole_ms_def)
  then show ?thesis using answers_same_tick [of tr "\<lambda>u. u" whole_ms] local_answers [OF assms(1)] redis_answers [OF assms(1)] by simp
qed

section \<open>The daily page budget\<close>

definition admitted_pages :: "host \<Rightarrow> nat \<Rightarrow> (clock \<times> guard_event) list \<Rightarrow> guard_answer list \<Rightarrow> nat" where
  "admitted_pages h d tr rs = length (filter (\<lambda>((c, ev), r). (case ev of Ev_consume _ k \<Rightarrow> k = h | _ \<Rightarrow> False) \<and> ordinal_day c = d \<and> r = Admitted) (zip tr rs))"

definition no_clear :: "host \<Rightarrow> (clock \<times> guard_event) list \<Rightarrow> bool" where
  "no_clear h tr \<longleftrightarrow> (\<forall>e \<in> set tr. snd e \<noteq> Ev_clear h)"

text \<open>What a policy is set to: admissions and denials change its usage only.\<close>

definition settings :: "run_domain_policy list \<Rightarrow> (int \<times> int) list" where
  "settings ps = map (\<lambda>p. (rp_daily_page_limit p, rp_cooldown_seconds p)) ps"

lemma check_cases:
  assumes "admit_check (spec_guard tick) c h (p, a) = (r, q, a')"
  obtains (cooling) "0 < rp_cooldown_seconds p" "tick (now_us c) < ga_until a h"
      "r = Inl (Domain_cooldown_active h (ga_until a h - tick (now_us c)))" "a' = a"
    | (free) "0 < rp_cooldown_seconds p \<longrightarrow> ga_until a h \<le> tick (now_us c)" "r = Inr ()" "a' = a"
proof -
  have remaining: "cooldown_remaining (spec_guard tick) c h a = (max 0 (ga_until a h - tick (now_us c)), a)" by (simp add: spec_guard_def)
  show thesis
    by (cases "0 < rp_cooldown_seconds p \<and> tick (now_us c) < ga_until a h")
      (use assms in \<open>auto simp: admit_check_def remaining split: if_splits intro: cooling free\<close>)
qed

lemma consume_cases:
  assumes "consume_for_run (spec_guard tick) c h (p, a) = (r, q, a')"
  obtains (spent) "0 < rp_daily_page_limit p" "rp_daily_page_limit p \<le> ga_pages a h (ordinal_day c)"
      "r = Inl (Domain_daily_limit_reached h (rp_daily_page_limit p))" "a' = a"
    | (ok) "0 < rp_daily_page_limit p \<longrightarrow> ga_pages a h (ordinal_day c) < rp_daily_page_limit p" "r = Inr ()"
      "a' = a\<lparr>ga_pages := (ga_pages a)(h := (ga_pages a h)(ordinal_day c := ga_pages a h (ordinal_day c) + 1))\<rparr>"
proof -
  have pages: "consume_page (spec_guard tick) c h (rp_daily_page_limit p) a =
      (if 0 < rp_daily_page_limit p \<and> rp_daily_page_limit p \<le> ga_pages a h (ordinal_day c) then (None, a)
       else (Some (ga_pages a h (ordinal_day c) + 1),
         a\<lparr>ga_pages := (ga_pages a)(h := (ga_pages a h)(ordinal_day c := ga_pages a h (ordinal_day c) + 1))\<rparr>))"
    by (simp add: spec_guard_def Let_def)
  show thesis
    by (cases "0 < rp_daily_page_limit p \<and> rp_daily_page_limit p \<le> ga_pages a h (ordinal_day c)")
      (use assms in \<open>auto simp: consume_for_run_def pages intro: spent ok\<close>)
qed

lemma check_settings:
  "admit_check g c h (p, s) = (r, q, s') \<Longrightarrow> rp_daily_page_limit q = rp_daily_page_limit p \<and> rp_cooldown_seconds q = rp_cooldown_seconds p"
  by (auto simp: admit_check_def Let_def split: if_splits prod.splits)

lemma consume_settings:
  "consume_for_run g c h (p, s) = (r, q, s') \<Longrightarrow> rp_daily_page_limit q = rp_daily_page_limit p \<and> rp_cooldown_seconds q = rp_cooldown_seconds p"
  by (auto simp: consume_for_run_def Let_def split: option.splits prod.splits)

lemma settings_update:
  "i < length ps \<Longrightarrow> rp_daily_page_limit q = rp_daily_page_limit (ps ! i) \<and> rp_cooldown_seconds q = rp_cooldown_seconds (ps ! i) \<Longrightarrow>
     settings (ps[i := q]) = settings ps"
  by (simp add: settings_def map_update list_update_same_conv)

lemma event_settings:
  assumes "apply_guard_event g c ev (ps, s) = (r, qs, s')"
  shows "settings qs = settings ps"
proof (cases ev)
  case (Ev_check i h)
  with assms show ?thesis
    by (cases "i < length ps"; cases "admit_check g c h (ps ! i, s)") (auto intro: settings_update dest: check_settings)
next
  case (Ev_consume i h)
  with assms show ?thesis
    by (cases "i < length ps"; cases "consume_for_run g c h (ps ! i, s)") (auto intro: settings_update dest: consume_settings)
next
  case (Ev_denial i h)
  with assms show ?thesis
    by (auto simp: record_denial_def settings_def map_update list_update_same_conv Let_def split: if_splits)
qed (use assms in \<open>auto split: prod.splits\<close>)

lemma settings_nth:
  "settings qs = settings ps \<Longrightarrow> i < length ps \<Longrightarrow> i < length qs
     \<and> rp_daily_page_limit (qs ! i) = rp_daily_page_limit (ps ! i) \<and> rp_cooldown_seconds (qs ! i) = rp_cooldown_seconds (ps ! i)"
  by (auto simp: settings_def list_eq_iff_nth_eq)

lemma event_pages:
  assumes "apply_guard_event (spec_guard tick) c ev (ps, a) = (r, qs, a')" and "ev \<noteq> Ev_clear h"
  shows "ga_pages a' h d = ga_pages a h d + (if (\<exists>i. ev = Ev_consume i h) \<and> ordinal_day c = d \<and> r = Admitted then 1 else 0)"
proof (cases ev)
  case (Ev_check i k)
  show ?thesis
  proof (cases "i < length ps")
    case True
    obtain x q b where run: "admit_check (spec_guard tick) c k (ps ! i, a) = (x, q, b)" by (metis prod_cases3)
    then have "a' = b" using True assms(1) by (auto simp: Ev_check)
    with run show ?thesis by (cases rule: check_cases) (auto simp: Ev_check)
  qed (use assms in \<open>auto simp: Ev_check\<close>)
next
  case (Ev_consume i k)
  show ?thesis
  proof (cases "i < length ps")
    case True
    obtain x q b where run: "consume_for_run (spec_guard tick) c k (ps ! i, a) = (x, q, b)" by (metis prod_cases3)
    then have res: "r = (case x of Inl y \<Rightarrow> Stopped y | Inr _ \<Rightarrow> Admitted)" "a' = b" using True assms(1) by (auto simp: Ev_consume)
    from run show ?thesis by (cases rule: consume_cases) (auto simp: Ev_consume res)
  qed (use assms in \<open>auto simp: Ev_consume\<close>)
qed (use assms in \<open>auto simp: spec_guard_def record_denial_def Let_def split: if_splits\<close>)

lemma admitted_within_limit:
  assumes "apply_guard_event (spec_guard tick) c (Ev_consume i h) (ps, a) = (Admitted, qs, a')"
    and "\<forall>p \<in> set ps. 0 < rp_daily_page_limit p \<and> rp_daily_page_limit p \<le> L"
  shows "ga_pages a h (ordinal_day c) < L"
proof -
  obtain x q b where run: "consume_for_run (spec_guard tick) c h (ps ! i, a) = (x, q, b)" by (metis prod_cases3)
  have i: "i < length ps" using assms(1) by (auto split: if_splits)
  with assms(1) have "x = Inr ()" by (auto simp: run split: sum.splits)
  with run have "0 < rp_daily_page_limit (ps ! i) \<longrightarrow> ga_pages a h (ordinal_day c) < rp_daily_page_limit (ps ! i)"
    by (cases rule: consume_cases) auto
  with assms(2) i show ?thesis by (meson nth_mem less_le_trans)
qed

lemma limits_settings:
  "(\<forall>p \<in> set ps. 0 < rp_daily_page_limit p \<and> rp_daily_page_limit p \<le> L) \<longleftrightarrow> (\<forall>x \<in> set (settings ps). 0 < fst x \<and> fst x \<le> L)"
  by (auto simp: settings_def)

lemma cooldown_settings:
  "(\<forall>p \<in> set ps. rp_cooldown_seconds p = n) \<longleftrightarrow> (\<forall>x \<in> set (settings ps). snd x = n)"
  by (auto simp: settings_def)

lemma spec_daily_limit:
  assumes "answers (spec_guard tick) tr (ps, a) = (rs, qs)" and "no_clear h tr"
    and "\<forall>p \<in> set ps. 0 < rp_daily_page_limit p \<and> rp_daily_page_limit p \<le> L"
    and "ga_pages a h d \<le> L"
  shows "ga_pages a h d + int (admitted_pages h d tr rs) \<le> L"
  using assms
proof (induction tr arbitrary: ps a rs)
  case Nil
  then show ?case by (simp add: admitted_pages_def)
next
  case (Cons e tr)
  obtain c ev where e: "e = (c, ev)" by (cases e)
  obtain r ps' a' where ev: "apply_guard_event (spec_guard tick) c ev (ps, a) = (r, ps', a')" by (metis prod_cases3)
  obtain rs' where rest: "answers (spec_guard tick) tr (ps', a') = (rs', qs)" "rs = r # rs'"
    using Cons.prems(1) by (auto simp: e ev split: prod.splits)
  have clear: "ev \<noteq> Ev_clear h" "no_clear h tr" using Cons.prems(2) by (auto simp: no_clear_def e)
  have limits: "\<forall>p \<in> set ps'. 0 < rp_daily_page_limit p \<and> rp_daily_page_limit p \<le> L"
    using Cons.prems(3) event_settings [OF ev] by (simp only: limits_settings)
  let ?one = "(\<exists>i. ev = Ev_consume i h) \<and> ordinal_day c = d \<and> r = Admitted"
  note pages = event_pages [OF ev clear(1), of d]
  have "?one \<Longrightarrow> ga_pages a h d < L" using admitted_within_limit Cons.prems(3) ev by blast
  then have "ga_pages a' h d \<le> L" using pages Cons.prems(4) by (auto split: if_splits)
  from Cons.IH [OF rest(1) clear(2) limits this] pages show ?case
    by (auto simp: admitted_pages_def e rest(2) split: guard_event.splits if_splits)
qed

text \<open>
  Claim C37. The daily page budget of a host holds over all runs: when every run that shares the guard has a limit of at most
  \<open>L\<close>, at most \<open>L\<close> pages of a host are admitted on one day, however the runs interleave, also between the two halves of an
  admission, for the guard in the process and for the guard in Redis. Conditions: the clock does not go back, and no operator resets
  the host (a reset gives a new budget).
\<close>

theorem daily_page_budget_shared:
  assumes "clocked 0 tr" and "no_clear h tr" and "\<forall>p \<in> set ps. 0 < rp_daily_page_limit p \<and> rp_daily_page_limit p \<le> L"
    and "0 \<le> L"
  shows "int (admitted_pages h d tr (fst (answers redis_domain_guard tr (ps, [])))) \<le> L
    \<and> int (admitted_pages h d tr (fst (answers local_domain_guard tr (ps, empty_local_guard)))) \<le> L"
proof -
  have "int (admitted_pages h d tr (fst (answers (spec_guard tick) tr (ps, empty_abs)))) \<le> L" for tick
  proof -
    obtain rs qs where run: "answers (spec_guard tick) tr (ps, empty_abs) = (rs, qs)" by fastforce
    from spec_daily_limit [OF run assms(2,3), of d] assms(4) show ?thesis unfolding run by (simp add: empty_abs_def)
  qed
  then show ?thesis by (simp add: local_answers [OF assms(1)] redis_answers [OF assms(1)])
qed

section \<open>Cooldowns\<close>

text \<open>Until \<open>u\<close>, an admission of the host by a run with cooldowns is stopped, and says for how long.\<close>

definition stopped_until :: "(int \<Rightarrow> int) \<Rightarrow> int \<Rightarrow> host \<Rightarrow> (clock \<times> guard_event) list \<Rightarrow> guard_answer list \<Rightarrow> bool" where
  "stopped_until tick u h tr rs \<longleftrightarrow> (\<forall>((c, ev), r) \<in> set (zip tr rs). case ev of
      Ev_check i k \<Rightarrow> k = h \<and> tick (now_us c) < u \<longrightarrow> (\<exists>left. u - tick (now_us c) \<le> left \<and> r = Stopped (Domain_cooldown_active h left)) | _ \<Rightarrow> True)"

definition known_runs :: "nat \<Rightarrow> (clock \<times> guard_event) list \<Rightarrow> bool" where
  "known_runs n tr \<longleftrightarrow> (\<forall>e \<in> set tr. case snd e of Ev_check i _ \<Rightarrow> i < n | _ \<Rightarrow> True)"

lemma event_until:
  assumes "apply_guard_event (spec_guard tick) c ev (ps, a) = (r, qs, a')" and "ev \<noteq> Ev_clear h"
    and "\<forall>p \<in> set ps. rp_cooldown_seconds p = n" and "u \<le> ga_until a h" and "u \<le> t + 1000000 * n" and "t \<le> tick (now_us c)"
  shows "u \<le> ga_until a' h"
proof (cases ev)
  case (Ev_check i k)
  show ?thesis
  proof (cases "i < length ps")
    case True
    obtain x q b where run: "admit_check (spec_guard tick) c k (ps ! i, a) = (x, q, b)" by (metis prod_cases3)
    then have "a' = b" using True assms(1) by (auto simp: Ev_check)
    with run assms(4) show ?thesis by (cases rule: check_cases) auto
  qed (use assms in \<open>auto simp: Ev_check\<close>)
next
  case (Ev_consume i k)
  show ?thesis
  proof (cases "i < length ps")
    case True
    obtain x q b where run: "consume_for_run (spec_guard tick) c k (ps ! i, a) = (x, q, b)" by (metis prod_cases3)
    then have "a' = b" using True assms(1) by (auto simp: Ev_consume)
    with run assms(4) show ?thesis by (cases rule: consume_cases) auto
  qed (use assms in \<open>auto simp: Ev_consume\<close>)
next
  case (Ev_denial i k)
  have "i < length ps \<Longrightarrow> rp_cooldown_seconds (ps ! i) = n" using assms(3) by simp
  with Ev_denial assms show ?thesis
    by (auto simp: spec_guard_def record_denial_def Let_def split: if_splits)
qed (use assms in \<open>auto simp: spec_guard_def\<close>)

lemma spec_cooldown:
  assumes "answers (spec_guard tick) tr (ps, a) = (rs, qs)" and "no_clear h tr" and "known_runs (length ps) tr"
    and "\<forall>p \<in> set ps. rp_cooldown_seconds p = n" and "0 < n"
    and "u \<le> ga_until a h" and "u \<le> tick t + 1000000 * n" and "clocked t tr" and mono: "\<And>n m. n \<le> m \<Longrightarrow> tick n \<le> tick m"
  shows "stopped_until tick u h tr rs"
  using assms(1-8)
proof (induction tr arbitrary: ps a rs t)
  case Nil
  then show ?case by (simp add: stopped_until_def)
next
  case (Cons e tr)
  obtain c ev where e: "e = (c, ev)" by (cases e)
  obtain r ps' a' where ev: "apply_guard_event (spec_guard tick) c ev (ps, a) = (r, ps', a')" by (metis prod_cases3)
  obtain rs' where rest: "answers (spec_guard tick) tr (ps', a') = (rs', qs)" "rs = r # rs'"
    using Cons.prems(1) by (auto simp: e ev split: prod.splits)
  have clear: "ev \<noteq> Ev_clear h" "no_clear h tr" using Cons.prems(2) by (auto simp: no_clear_def e)
  have "length ps' = length ps" using event_settings [OF ev] by (metis length_map settings_def)
  then have known: "known_runs (length ps') tr" using Cons.prems(3) by (simp add: known_runs_def)
  have same: "\<forall>p \<in> set ps'. rp_cooldown_seconds p = n"
    using Cons.prems(4) event_settings [OF ev] by (simp only: cooldown_settings)
  have clock: "tick t \<le> tick (now_us c)" "clocked (now_us c) tr" using Cons.prems(8) mono by (auto simp: e)
  have until: "u \<le> ga_until a' h"
    by (rule event_until [OF ev clear(1) Cons.prems(4,6,7) clock(1)])
  have later: "u \<le> tick (now_us c) + 1000000 * n" using Cons.prems(7) clock(1) by simp
  have "stopped_until tick u h tr rs'" by (rule Cons.IH [OF rest(1) clear(2) known same Cons.prems(5) until later clock(2)])
  moreover have "\<exists>left. u - tick (now_us c) \<le> left \<and> r = Stopped (Domain_cooldown_active h left)"
    if adm: "ev = Ev_check i h" "tick (now_us c) < u" for i
  proof -
    have i: "i < length ps" using Cons.prems(3) by (simp add: known_runs_def e adm(1))
    obtain x q b where run: "admit_check (spec_guard tick) c h (ps ! i, a) = (x, q, b)" by (metis prod_cases3)
    have cool: "rp_cooldown_seconds (ps ! i) = n" using Cons.prems(4) i by simp
    have "x = Inl (Domain_cooldown_active h (ga_until a h - tick (now_us c)))"
      using run by (cases rule: check_cases) (use cool Cons.prems(5,6) adm(2) in auto)
    with ev i have "r = Stopped (Domain_cooldown_active h (ga_until a h - tick (now_us c)))" by (auto simp: adm(1) run)
    with Cons.prems(6) show ?thesis by auto
  qed
  ultimately show ?case by (auto simp: stopped_until_def e rest(2) split: guard_event.splits)
qed

text \<open>
  A denial recorded by one run stops every run: until the cooldown of \<open>n\<close> seconds has passed, each admission of that
  host is refused at its first half with the time that is left, for both guards, whatever the runs do in between.
\<close>

theorem denial_stops_all_runs:
  assumes "clocked 0 ((c, Ev_denial i h) # tr)" and "no_clear h tr" and "known_runs (length ps) tr" and "i < length ps"
    and "\<forall>p \<in> set ps. rp_cooldown_seconds p = n" and "0 < n"
  shows "stopped_until whole_ms (whole_ms (now_us c) + 1000000 * n) h tr (tl (fst (answers redis_domain_guard ((c, Ev_denial i h) # tr) (ps, []))))
    \<and> stopped_until (\<lambda>u. u) (now_us c + 1000000 * n) h tr (tl (fst (answers local_domain_guard ((c, Ev_denial i h) # tr) (ps, empty_local_guard))))"
proof -
  let ?tr = "(c, Ev_denial i h) # tr"
  have "stopped_until tick (tick (now_us c) + 1000000 * n) h tr (tl (fst (answers (spec_guard tick) ?tr (ps, empty_abs))))"
    if mono: "\<And>n m. n \<le> m \<Longrightarrow> tick n \<le> tick m" for tick
  proof -
    obtain r ps' a' where ev: "apply_guard_event (spec_guard tick) c (Ev_denial i h) (ps, empty_abs) = (r, ps', a')" by (metis prod_cases3)
    obtain rs qs where run: "answers (spec_guard tick) tr (ps', a') = (rs, qs)" by fastforce
    have "settings ps' = settings ps" by (rule event_settings [OF ev])
    then have ps': "length ps' = length ps" "\<forall>p \<in> set ps'. rp_cooldown_seconds p = n"
      using assms(5) by (metis length_map settings_def, simp only: cooldown_settings)
    have "rp_cooldown_seconds (ps ! i) = n" using assms(4,5) by simp
    with ev assms(4,6) have until: "ga_until a' h = tick (now_us c) + 1000000 * n"
      by (auto simp: record_denial_def spec_guard_def Let_def)
    have clock: "clocked (now_us c) tr" using assms(1) by simp
    have known: "known_runs (length ps') tr" using assms(3) ps'(1) by simp
    have "stopped_until tick (tick (now_us c) + 1000000 * n) h tr rs"
      by (rule spec_cooldown [OF run assms(2) known ps'(2) assms(6) _ _ clock mono]) (simp_all add: until)
    then show ?thesis by (simp only: answers.simps ev run prod.case fst_conv list.sel)
  qed
  from this [of whole_ms] this [of "\<lambda>u. u"] whole_ms_mono show ?thesis
    by (simp add: local_answers [OF assms(1)] redis_answers [OF assms(1)] del: answers.simps)
qed

section \<open>Witnesses\<close>

lemma stamp_instant_code [code]:
  "stamp_instant s = (((int (ordinal_day s) * 24 + int (st_hour s)) * 60 + int (st_minute s)) * 60 + int (st_second s)) * 1000000 + int (st_micro s)"
  by (simp add: stamp_instant_def)

definition sample_clock :: "nat \<Rightarrow> nat \<Rightarrow> clock" where
  "sample_clock d s = \<lparr>st_year = 1, st_month = 1, st_day = d, st_hour = 0, st_minute = 0, st_second = s, st_micro = 0\<rparr>"

lemma sample_wf: "1 \<le> d \<Longrightarrow> d \<le> 31 \<Longrightarrow> s < 60 \<Longrightarrow> wf_stamp (sample_clock d s)"
  by (simp add: wf_stamp_def sample_clock_def days_in_month_def)

lemma sample_now: "now_us (sample_clock d s) = (86400 * int d + int s) * 1000000"
  by (simp add: now_us_def stamp_instant_def sample_clock_def ordinal_day_def days_before_year_def)

definition sample_policy :: "int \<Rightarrow> run_domain_policy" where
  "sample_policy n = \<lparr>rp_daily_page_limit = n, rp_cooldown_seconds = 60,
     rp_usage = \<lparr>gu_pages_admitted = [], gu_daily_limit_stops = [], gu_cooldown_stops = [], gu_cooldowns_started = []\<rparr>\<rparr>"

definition sample_history :: "(clock \<times> guard_event) list" where
  "sample_history = [(sample_clock 2 1, Ev_check 0 ''h''), (sample_clock 2 1, Ev_check 1 ''h''), (sample_clock 2 1, Ev_consume 0 ''h''),
     (sample_clock 2 2, Ev_consume 1 ''h''), (sample_clock 2 3, Ev_check 0 ''h''), (sample_clock 2 3, Ev_consume 0 ''h''),
     (sample_clock 3 1, Ev_consume 0 ''h''), (sample_clock 3 2, Ev_status ''h'')]"

lemma sample_clocked: "clocked 0 sample_history"
  by (simp add: sample_history_def sample_wf sample_now)

theorem guards_equivalent_witness:
  "fst (answers local_domain_guard sample_history ([sample_policy 2, sample_policy 1], empty_local_guard)) =
     [Passed, Passed, Admitted, Stopped (Domain_daily_limit_reached ''h'' 1), Passed, Admitted, Admitted, Status 1 0]
   \<and> answers local_domain_guard sample_history ([sample_policy 2, sample_policy 1], empty_local_guard) =
     answers redis_domain_guard sample_history ([sample_policy 2, sample_policy 1], [])"
proof -
  have "fst (answers local_domain_guard sample_history ([sample_policy 2, sample_policy 1], empty_local_guard)) =
     [Passed, Passed, Admitted, Stopped (Domain_daily_limit_reached ''h'' 1), Passed, Admitted, Admitted, Status 1 0]" by code_simp
  moreover have "\<forall>(c, ev) \<in> set sample_history. now_us c mod 1000 = 0" by (simp add: sample_history_def sample_now)
  ultimately show ?thesis using guards_equivalent [OF sample_clocked] by simp
qed

theorem daily_page_budget_shared_witness:
  "admitted_pages ''h'' (ordinal_day (sample_clock 2 0)) sample_history
     (fst (answers redis_domain_guard sample_history ([sample_policy 2, sample_policy 1], []))) = 2"
proof -
  have "no_clear ''h'' sample_history" by code_simp
  moreover have "\<forall>p \<in> set [sample_policy 2, sample_policy 1]. 0 < rp_daily_page_limit p \<and> rp_daily_page_limit p \<le> 2" by code_simp
  moreover have "admitted_pages ''h'' (ordinal_day (sample_clock 2 0)) sample_history
     (fst (answers redis_domain_guard sample_history ([sample_policy 2, sample_policy 1], []))) \<ge> 2" by code_simp
  ultimately show ?thesis
    using daily_page_budget_shared [OF sample_clocked, of "''h''" "[sample_policy 2, sample_policy 1]" 2 "ordinal_day (sample_clock 2 0)"]
    by linarith
qed

theorem denial_stops_all_runs_witness:
  "fst (answers local_domain_guard [(sample_clock 2 3, Ev_denial 0 ''h''), (sample_clock 2 5, Ev_check 2 ''h'')] ([sample_policy 2, sample_policy 2, sample_policy 2], empty_local_guard))
     = [Done, Stopped (Domain_cooldown_active ''h'' 58000000)]
   \<and> stopped_until (\<lambda>u. u) (now_us (sample_clock 2 3) + 60000000) ''h'' [(sample_clock 2 5, Ev_check 2 ''h'')]
     [Stopped (Domain_cooldown_active ''h'' 58000000)]"
proof -
  have run: "fst (answers local_domain_guard [(sample_clock 2 3, Ev_denial 0 ''h''), (sample_clock 2 5, Ev_check 2 ''h'')]
      ([sample_policy 2, sample_policy 2, sample_policy 2], empty_local_guard)) = [Done, Stopped (Domain_cooldown_active ''h'' 58000000)]" by code_simp
  have "clocked 0 [(sample_clock 2 3, Ev_denial 0 ''h''), (sample_clock 2 5, Ev_check 2 ''h'')]" by (simp add: sample_wf sample_now)
  moreover have "no_clear ''h'' [(sample_clock 2 5, Ev_check 2 ''h'')]" by code_simp
  moreover have "known_runs (length [sample_policy 2, sample_policy 2, sample_policy 2]) [(sample_clock 2 5, Ev_check 2 ''h'')]" by code_simp
  moreover have "\<forall>p \<in> set [sample_policy 2, sample_policy 2, sample_policy 2]. rp_cooldown_seconds p = 60" by code_simp
  ultimately show ?thesis
    using denial_stops_all_runs [of "sample_clock 2 3" 0 "''h''" "[(sample_clock 2 5, Ev_check 2 ''h'')]" "[sample_policy 2, sample_policy 2, sample_policy 2]" 60]
    by (simp add: run del: answers.simps)
qed

end
