(* ===== verification/Rate_Limiter.thy ===== *)
theory Rate_Limiter
  imports Prelude
begin

text \<open>
  Spacing of requests to a domain, \<open>RedisDomainRateLimiter\<close> of \<^verbatim>\<open>engine/rate_limiter.py\<close>. All jobs share one Redis
  key per domain: the time of the last request, as the text Lua's \<^verbatim>\<open>tostring\<close> makes of it, and the key's expiry.

  \<^item> The Redis clock is in microseconds. \<^verbatim>\<open>tostring\<close> keeps 14 significant digits, so a Unix time in seconds keeps four
    decimals: \<open>stored\<close> rounds to the next multiple of 100 microseconds.
  \<^item> Expiry is in milliseconds, and a key is gone once the clock is past it.
  \<^item> \<open>acquire\<close> is the loop of one caller: \<open>extras\<close> says how much longer than asked each sleep takes, and bounds the attempts.
\<close>

record rate_key =
  rk_last :: int
  rk_expires_ms :: int

definition stored :: "int \<Rightarrow> int" where
  "stored now = ((now + 50) div 100) * 100"

definition rate_ttl :: "seconds \<Rightarrow> int" where
  "rate_ttl m = max (\<lfloor>m\<rfloor> + 1) 2"

definition rate_get :: "int \<Rightarrow> rate_key option \<Rightarrow> int option" where
  "rate_get now k = (case k of None \<Rightarrow> None | Some x \<Rightarrow> if now div 1000 > rk_expires_ms x then None else Some (rk_last x))"

definition rate_set :: "int \<Rightarrow> int \<Rightarrow> rate_key option" where
  "rate_set now ttl = Some \<lparr>rk_last = stored now, rk_expires_ms = now div 1000 + 1000 * ttl\<rparr>"

definition in_seconds :: "int \<Rightarrow> seconds" where
  "in_seconds us = of_int us / 1000000"

definition lua_acquire :: "seconds \<Rightarrow> int \<Rightarrow> int \<Rightarrow> rate_key option \<Rightarrow> (bool \<times> int) \<times> rate_key option" where
  "lua_acquire m ttl now k = (case rate_get now k of
       None \<Rightarrow> ((True, 0), rate_set now ttl)
     | Some t \<Rightarrow> let elapsed = in_seconds (now - t) in
         if elapsed < 0 then ((False, \<lceil>m * 1000\<rceil>), rate_set now ttl)
         else if elapsed \<ge> m then ((True, 0), rate_set now ttl)
         else ((False, \<lceil>(m - elapsed) * 1000\<rceil>), k))"

definition rate_wait :: "seconds \<Rightarrow> int \<Rightarrow> seconds" where
  "rate_wait m remaining_ms = min m (max 0 (of_int remaining_ms / 1000))"

text \<open>One attempt of a caller with interval \<open>m\<close>.\<close>

definition try_acquire :: "seconds \<Rightarrow> int \<Rightarrow> rate_key option \<Rightarrow> (bool \<times> int) \<times> rate_key option" where
  "try_acquire m now k = lua_acquire m (rate_ttl m) now k"

fun acquire_loop :: "seconds \<Rightarrow> nat list \<Rightarrow> int \<Rightarrow> rate_key option \<Rightarrow> (int \<times> rate_key option) option" where
  "acquire_loop m extras now k = (case try_acquire m now k of
       ((True, _), k') \<Rightarrow> Some (now, k')
     | ((False, remaining), k') \<Rightarrow> (case extras of
           [] \<Rightarrow> None
         | x # xs \<Rightarrow> acquire_loop m xs (now + \<lceil>rate_wait m remaining * 1000000\<rceil> + int x) k'))"

definition acquire :: "seconds \<Rightarrow> nat list \<Rightarrow> int \<Rightarrow> rate_key option \<Rightarrow> (int \<times> rate_key option) option" where
  "acquire m extras now k = (if m \<le> 0 then Some (now, k) else acquire_loop m extras now k)"

section \<open>Rounding\<close>

lemma stored_bounds: "t - 50 < stored t + 1" "stored t \<le> t + 50"
  unfolding stored_def by linarith+

lemma ttl_covers: "m < of_int (rate_ttl m)"
proof -
  have "m < of_int (\<lfloor>m\<rfloor> + 1)" by (simp add: less_floor_iff [symmetric]) linarith
  also have "\<dots> \<le> (of_int (rate_ttl m) :: rat)" by (simp only: of_int_le_iff rate_ttl_def max.cobounded1)
  finally show ?thesis .
qed

lemma in_seconds_le [simp]: "in_seconds a \<le> in_seconds b \<longleftrightarrow> a \<le> b"
  by (simp add: in_seconds_def divide_le_cancel)

lemma in_seconds_less_0 [simp]: "in_seconds a < 0 \<longleftrightarrow> a < 0"
  by (simp add: in_seconds_def)

lemma in_seconds_ge_0 [simp]: "0 \<le> in_seconds a \<longleftrightarrow> 0 \<le> a"
  by (simp add: in_seconds_def)

lemma in_seconds_gt_0 [simp]: "0 < in_seconds a \<longleftrightarrow> 0 < a"
  by (simp add: in_seconds_def)

lemma in_seconds_add: "in_seconds a + in_seconds b = in_seconds (a + b)"
  by (simp add: in_seconds_def add_divide_distrib)

section \<open>Spacing\<close>

text \<open>The times at which a sequence of attempts on one domain, by any callers, is granted.\<close>

fun grants :: "(int \<times> seconds) list \<Rightarrow> rate_key option \<Rightarrow> int list" where
  "grants [] k = []"
| "grants ((now, m) # cs) k = (case try_acquire m now k of
     ((ok, _), k') \<Rightarrow> (if ok then [now] else []) @ grants cs k')"

text \<open>After a grant at \<open>t0\<close> to a caller with interval \<open>m\<close>, the key remembers it.\<close>

definition remembers :: "seconds \<Rightarrow> int \<Rightarrow> rate_key option \<Rightarrow> bool" where
  "remembers m t0 k \<longleftrightarrow> (\<exists>x. k = Some x \<and> t0 - 50 \<le> rk_last x \<and> t0 div 1000 + 1000 * rate_ttl m \<le> rk_expires_ms x)"

lemma remembers_set: "t0 \<le> now \<Longrightarrow> remembers m t0 (rate_set now (rate_ttl m))"
  using stored_bounds(1) [of now] by (simp add: remembers_def rate_set_def zdiv_mono1)

lemma remembers_step:
  assumes "remembers m t0 k" and "t0 \<le> now" and "try_acquire m now k = ((ok, w), k')"
  shows "remembers m t0 k'" and "ok \<Longrightarrow> m - in_seconds 50 \<le> in_seconds (now - t0)"
proof -
  obtain x where x: "k = Some x" "t0 - 50 \<le> rk_last x" "t0 div 1000 + 1000 * rate_ttl m \<le> rk_expires_ms x"
    using assms(1) by (auto simp: remembers_def)
  show "remembers m t0 k'"
    using assms remembers_set [OF assms(2)]
    by (auto simp: try_acquire_def lua_acquire_def Let_def split: option.splits if_splits)
  show "m - in_seconds 50 \<le> in_seconds (now - t0)" if ok
  proof (cases "rate_get now k")
    case None
    then have "now div 1000 > t0 div 1000 + 1000 * rate_ttl m" using x by (auto simp: rate_get_def split: if_splits)
    then have "1000000 * rate_ttl m \<le> now - t0" by linarith
    then have "of_int (rate_ttl m) \<le> in_seconds (now - t0)"
      unfolding in_seconds_def using of_int_le_iff [of "1000000 * rate_ttl m" "now - t0", where 'a = rat] by (simp add: le_divide_eq)
    with ttl_covers [of m] show ?thesis by (simp add: in_seconds_def)
  next
    case (Some t)
    then have "t = rk_last x" using x(1) by (auto simp: rate_get_def split: if_splits)
    moreover have "m \<le> in_seconds (now - t)"
      using assms(3) that Some by (auto simp: try_acquire_def lua_acquire_def Let_def split: if_splits)
    moreover have "in_seconds (now - t) \<le> in_seconds (now - t0) + in_seconds 50"
      using x(2) calculation(1) by (simp add: in_seconds_add)
    ultimately show ?thesis by simp
  qed
qed

fun spaced :: "seconds \<Rightarrow> int list \<Rightarrow> bool" where
  "spaced d (a # b # ts) \<longleftrightarrow> d \<le> in_seconds (b - a) \<and> spaced d (b # ts)"
| "spaced d ts \<longleftrightarrow> True"

lemma grants_after:
  assumes "remembers m t0 k" and "sorted (t0 # map fst cs)" and "\<forall>c \<in> set cs. snd c = m"
  shows "spaced (m - in_seconds 50) (t0 # grants cs k)"
  using assms
proof (induction cs arbitrary: t0 k)
  case (Cons c cs)
  obtain now where c: "c = (now, m)" using Cons.prems(3) by (cases c) auto
  obtain ok w k' where run: "try_acquire m now k = ((ok, w), k')" by (metis surj_pair)
  have le: "t0 \<le> now" "sorted (now # map fst cs)" "sorted (t0 # map fst cs)" using Cons.prems(2) by (auto simp: c)
  note step = remembers_step [OF Cons.prems(1) le(1) run]
  show ?case
  proof (cases ok)
    case True
    have "remembers m now k'"
      using True run remembers_set [of now now m]
      by (auto simp: try_acquire_def lua_acquire_def Let_def split: option.splits if_splits)
    from Cons.IH [OF this le(2)] Cons.prems(3) step(2) [OF True] show ?thesis by (simp add: c run True)
  next
    case False
    from Cons.IH [OF step(1) le(3)] Cons.prems(3) show ?thesis by (simp add: c run False)
  qed
qed simp

text \<open>
  Claim C38. Requests to a domain keep their distance over all jobs: when the callers share one interval, two grants are never
  closer than that interval, up to the 50 microseconds that the stored time is rounded by, however the attempts interleave
  and whether or not the key has expired in between.
\<close>

theorem rate_limit_spacing:
  assumes "sorted (map fst cs)" and "\<forall>c \<in> set cs. snd c = m"
  shows "spaced (m - in_seconds 50) (grants cs None)"
proof (cases cs)
  case (Cons c cs')
  obtain now where c: "c = (now, m)" using assms(2) Cons by (cases c) auto
  have "grants cs None = now # grants cs' (rate_set now (rate_ttl m))"
    by (simp add: Cons c try_acquire_def lua_acquire_def rate_get_def)
  moreover have "spaced (m - in_seconds 50) (now # grants cs' (rate_set now (rate_ttl m)))"
    by (rule grants_after [OF remembers_set]) (use assms Cons c in auto)
  ultimately show ?thesis by simp
qed simp

text \<open>
  Claim C39. The interval of a caller is not kept against a job with a shorter one: the key lives only as long as the interval of
  the job that wrote it, so a caller with a longer interval is granted a request as soon as that key has expired,
  although its own interval since the last request has not passed.
\<close>

theorem longer_interval_not_kept:
  assumes "0 \<le> t" and "of_int (rate_ttl a) + in_seconds 1000 < b"
  defines "t' \<equiv> t + 1000000 * rate_ttl a + 1000"
  shows "grants [(t, a), (t', b)] None = [t, t'] \<and> in_seconds (t' - t) < b"
proof -
  have "t' div 1000 = t div 1000 + 1000 * rate_ttl a + 1" unfolding t'_def by linarith
  then have "rate_get t' (rate_set t (rate_ttl a)) = None" by (simp add: rate_get_def rate_set_def)
  moreover have "in_seconds (t' - t) = of_int (rate_ttl a) + in_seconds 1000"
    by (simp add: t'_def in_seconds_def add_divide_distrib)
  ultimately show ?thesis using assms(2) by (simp add: try_acquire_def lua_acquire_def rate_get_def)
qed

section \<open>The loop ends\<close>

lemma wait_enough:
  assumes "0 \<le> e" and "e < m"
  shows "m - e \<le> rate_wait m \<lceil>(m - e) * 1000\<rceil>"
proof -
  have "(m - e) * 1000 \<le> of_int \<lceil>(m - e) * 1000\<rceil>" by (rule le_of_int_ceiling)
  then have "m - e \<le> of_int \<lceil>(m - e) * 1000\<rceil> / 1000" by (simp add: le_divide_eq)
  with assms show ?thesis by (simp add: rate_wait_def)
qed

lemma slept: "s \<le> in_seconds \<lceil>s * 1000000\<rceil>"
  using le_of_int_ceiling [of "s * 1000000"] by (simp add: in_seconds_def le_divide_eq)

lemma granted_after_wait:
  assumes "try_acquire m now k = ((False, w), k')" and "rate_get now k = Some t" and "t \<le> now"
    and "now + \<lceil>rate_wait m w * 1000000\<rceil> \<le> now'"
  shows "k' = k" and "\<exists>v k''. try_acquire m now' k = ((True, v), k'')"
proof -
  have e: "in_seconds (now - t) < m" "w = \<lceil>(m - in_seconds (now - t)) * 1000\<rceil>" and k': "k' = k"
    using assms(1-3) by (auto simp: try_acquire_def lua_acquire_def Let_def split: if_splits)
  have "0 \<le> in_seconds (now - t)" using assms(3) by simp
  then have "m - in_seconds (now - t) \<le> in_seconds \<lceil>rate_wait m w * 1000000\<rceil>"
    using wait_enough [OF _ e(1)] slept [of "rate_wait m w"] e(2) by simp
  moreover have "in_seconds (now - t) + in_seconds \<lceil>rate_wait m w * 1000000\<rceil> \<le> in_seconds (now' - t)"
    using assms(4) by (simp only: in_seconds_add in_seconds_le)
  ultimately have m: "m \<le> in_seconds (now' - t)" by simp
  moreover have "rate_get now' k \<in> {None, Some t}"
    using assms(2) by (auto simp: rate_get_def split: option.splits if_splits)
  moreover have "\<not> now' < t"
  proof -
    have "0 < in_seconds (now' - t)" using m e(1) \<open>0 \<le> in_seconds (now - t)\<close> by linarith
    then show ?thesis by simp
  qed
  ultimately show "k' = k" and "\<exists>v k''. try_acquire m now' k = ((True, v), k'')"
    using k' by (auto simp: try_acquire_def lua_acquire_def Let_def)
qed

lemma refused_get: "try_acquire m now k = ((False, w), k') \<Longrightarrow> \<exists>t. rate_get now k = Some t"
  by (auto simp: try_acquire_def lua_acquire_def split: option.splits)

text \<open>A clock that went back, or a rounded time just ahead of it: the key is written anew and the whole interval is waited.\<close>

lemma restarted:
  assumes "try_acquire m now k = ((False, w), k')" and "rate_get now k = Some t" and "now < t"
    and "in_seconds 50 \<le> m" and "now + \<lceil>rate_wait m w * 1000000\<rceil> \<le> now'"
  shows "\<And>u. rate_get now' k' = Some u \<Longrightarrow> u \<le> now'"
proof -
  have k': "k' = rate_set now (rate_ttl m)" "w = \<lceil>m * 1000\<rceil>"
    using assms(1-3) by (auto simp: try_acquire_def lua_acquire_def Let_def split: if_splits)
  have "0 < m" using assms(4) by (simp add: in_seconds_def)
  then have "m \<le> in_seconds \<lceil>rate_wait m w * 1000000\<rceil>"
    using wait_enough [of 0 m] slept [of "rate_wait m w"] k'(2) by simp
  then have "in_seconds 50 \<le> in_seconds \<lceil>rate_wait m w * 1000000\<rceil>" using assms(4) by linarith
  then have "50 \<le> \<lceil>rate_wait m w * 1000000\<rceil>" by (simp only: in_seconds_le)
  then have "now + 50 \<le> now'" using assms(5) by linarith
  then show "u \<le> now'" if "rate_get now' k' = Some u" for u
    using that stored_bounds(2) [of now] by (auto simp: k'(1) rate_get_def rate_set_def split: if_splits)
qed

text \<open>
  A caller gets its turn: if no other job writes the key meanwhile, \<open>acquire\<close> returns after at most three
  attempts, however much longer than asked its sleeps take, also when the Redis clock went back.
\<close>

theorem acquire_returns:
  assumes "in_seconds 50 \<le> m" and "length extras = 2"
  shows "\<exists>t k'. acquire m extras now k = Some (t, k') \<and> now \<le> t"
proof -
  obtain x y where extras: "extras = [x, y]" using assms(2) by (auto simp: length_Suc_conv numeral_2_eq_2)
  have "0 < m" using assms(1) by (simp add: in_seconds_def)
  then have loop: "acquire m extras now k = acquire_loop m [x, y] now k" by (simp add: acquire_def extras)
  have nonneg: "0 \<le> \<lceil>rate_wait m w * 1000000\<rceil>" for w using \<open>0 < m\<close> by (simp add: rate_wait_def)
  obtain ok w k1 where one: "try_acquire m now k = ((ok, w), k1)" by (metis surj_pair)
  show ?thesis
  proof (cases ok)
    case True
    with one show ?thesis by (simp add: loop)
  next
    case False
    let ?n1 = "now + \<lceil>rate_wait m w * 1000000\<rceil> + int x"
    have one: "try_acquire m now k = ((False, w), k1)" using one False by simp
    obtain t where t: "rate_get now k = Some t" using refused_get [OF one] by blast
    obtain ok2 w2 k2 where two: "try_acquire m ?n1 k1 = ((ok2, w2), k2)" by (metis surj_pair)
    let ?n2 = "?n1 + \<lceil>rate_wait m w2 * 1000000\<rceil> + int y"
    note order = nonneg [of w] nonneg [of w2]
    show ?thesis
    proof (cases ok2)
      case True
      with one two order show ?thesis by (simp add: loop)
    next
      case refused: False
      then have two: "try_acquire m ?n1 k1 = ((False, w2), k2)" using two by simp
      obtain u where u: "rate_get ?n1 k1 = Some u" using refused_get [OF two] by blast
      have "\<not> t \<le> now"
      proof
        assume le: "t \<le> now"
        from granted_after_wait [OF one t le, of ?n1] two show False by auto
      qed
      then have "u \<le> ?n1" using restarted [OF one t _ assms(1), of ?n1 u] u by simp
      note again = granted_after_wait [OF two u this, of ?n2]
      from again obtain v k3 where "try_acquire m ?n2 k2 = ((True, v), k3)" by auto
      with one two order show ?thesis by (simp add: loop)
    qed
  qed
qed

section \<open>Witnesses\<close>

text \<open>Two jobs with an interval of one second: the second is refused, then granted after the interval.\<close>

theorem rate_limit_spacing_witness:
  "grants [(500, 1), (700, 1), (1000500, 1)] None = [500, 1000500] \<and> spaced (1 - in_seconds 50) [500, 1000500]"
proof -
  have "grants [(500, 1), (700, 1), (1000500, 1)] None = [500, 1000500]" by code_simp
  then show ?thesis using rate_limit_spacing [of "[(500, 1), (700, 1), (1000500, 1)]" 1] by simp
qed

theorem longer_interval_not_kept_witness:
  "grants [(0, 1), (2001000, 10)] None = [0, 2001000] \<and> in_seconds 2001000 < 10"
proof -
  have "rate_ttl 1 = 2" by (simp add: rate_ttl_def)
  with longer_interval_not_kept [of 0 1 10] show ?thesis by (simp add: in_seconds_def)
qed

theorem acquire_returns_witness:
  "\<exists>t k'. acquire 1 [0, 3] 700 (rate_set 800 2) = Some (t, k') \<and> 700 \<le> t"
proof -
  have "in_seconds 50 \<le> 1" by (simp add: in_seconds_def)
  from acquire_returns [OF this, of "[0, 3]" 700 "rate_set 800 2"] show ?thesis by simp
qed

end
