(* ===== verification/Secret_Envelope.thy ===== *)
theory Secret_Envelope
  imports Webhook_Outbox
begin

text \<open>
  Encryption of stored secrets, \<^verbatim>\<open>storage/secret_envelope.py\<close>: the keyring and its settings, the envelope
  text, and the migration that rotates every stored envelope to the active key.

  \<^item> A byte string is a \<open>string\<close>, a list of 8-bit characters; text stands for its UTF-8 bytes.
  \<^item> \<open>b64encode\<close> and \<open>b64decode\<close> are Python's URL-safe base64 with validation.
  \<^item> \<open>aead\<close> is \<^verbatim>\<open>AESGCM\<close> of the cryptography package: its \<open>None\<close> is \<^verbatim>\<open>InvalidTag\<close>, and \<open>aead_ok\<close> is what its
    documentation promises. \<open>nonce\<close> gives the random bytes drawn for a purpose.
  \<^item> \<open>paged_rows\<close> is the keyset paging of the migration; \<open>rewrite_rows\<close> issues one \<^verbatim>\<open>UPDATE\<close> per row that was read.
\<close>

section \<open>Base64\<close>

definition b64_alphabet :: string where
  "b64_alphabet = ''ABCDEFGHIJKLMNOPQRSTUVWXYZabcdefghijklmnopqrstuvwxyz0123456789-_''"

definition b64_char :: "nat \<Rightarrow> char" where
  "b64_char n = b64_alphabet ! n"

definition b64_value :: "char \<Rightarrow> nat option" where
  "b64_value c = map_of (zip b64_alphabet [0..<64]) c"

fun b64encode :: "string \<Rightarrow> string" where
  "b64encode (a # b # c # rest) = b64_char (of_char a div 4) # b64_char (of_char a mod 4 * 16 + of_char b div 16)
     # b64_char (of_char b mod 16 * 4 + of_char c div 64) # b64_char (of_char c mod 64) # b64encode rest"
| "b64encode [a, b] = [b64_char (of_char a div 4), b64_char (of_char a mod 4 * 16 + of_char b div 16),
     b64_char (of_char b mod 16 * 4), CHR ''='']"
| "b64encode [a] = [b64_char (of_char a div 4), b64_char (of_char a mod 4 * 16), CHR ''='', CHR ''='']"
| "b64encode [] = []"

fun b64decode :: "string \<Rightarrow> string option" where
  "b64decode (w # x # y # z # rest) =
     (if rest = [] \<and> z = CHR ''='' \<and> y = CHR ''='' then
        (case (b64_value w, b64_value x) of
           (Some i, Some j) \<Rightarrow> Some [char_of (i * 4 + j div 16)] | _ \<Rightarrow> None)
      else if rest = [] \<and> z = CHR ''='' then
        (case (b64_value w, b64_value x, b64_value y) of
           (Some i, Some j, Some k) \<Rightarrow> Some [char_of (i * 4 + j div 16), char_of (j mod 16 * 16 + k div 4)] | _ \<Rightarrow> None)
      else (case (b64_value w, b64_value x, b64_value y, b64_value z) of
           (Some i, Some j, Some k, Some l) \<Rightarrow>
             map_option (\<lambda>bs. char_of (i * 4 + j div 16) # char_of (j mod 16 * 16 + k div 4) # char_of (k mod 4 * 64 + l) # bs)
               (b64decode rest)
         | _ \<Rightarrow> None))"
| "b64decode s = (if s = [] then Some [] else None)"

section \<open>Keyring\<close>

datatype secret_error = Key_configuration_error string | Decryption_error string | Missing_key string

record keyring =
  kr_keys :: "(string \<times> string) list"
  kr_active :: string

definition is_alnum :: "char \<Rightarrow> bool" where
  "is_alnum c \<longleftrightarrow> (let n = of_char c :: nat in (48 \<le> n \<and> n \<le> 57) \<or> (65 \<le> n \<and> n \<le> 90) \<or> (97 \<le> n \<and> n \<le> 122))"

definition valid_key_id :: "string \<Rightarrow> bool" where
  "valid_key_id s \<longleftrightarrow> (case s of [] \<Rightarrow> False
     | c # cs \<Rightarrow> is_alnum c \<and> length cs \<le> 63 \<and> list_all (\<lambda>x. is_alnum x \<or> x \<in> {CHR ''.'', CHR ''_'', CHR ''-''}) cs)"

definition parse_key :: "string \<times> json \<Rightarrow> secret_error + (string \<times> string)" where
  "parse_key kv = (case kv of (key_id, encoded) \<Rightarrow>
     if \<not> valid_key_id key_id then Inl (Key_configuration_error ''Encryption key IDs must be safe names'')
     else (case encoded of
         JStr text \<Rightarrow> (case b64decode text of
             None \<Rightarrow> Inl (Key_configuration_error ''Encryption key is not valid URL-safe base64'')
           | Some key \<Rightarrow> if length key \<noteq> 32 then Inl (Key_configuration_error ''Encryption key must decode to exactly 32 bytes'')
               else Inr (key_id, key))
       | _ \<Rightarrow> Inl (Key_configuration_error ''Encryption keys must be base64 strings'')))"

fun parse_keys :: "(string \<times> json) list \<Rightarrow> secret_error + (string \<times> string) list" where
  "parse_keys [] = Inr []"
| "parse_keys (kv # kvs) = (case parse_key kv of
       Inl x \<Rightarrow> Inl x
     | Inr k \<Rightarrow> (case parse_keys kvs of Inl x \<Rightarrow> Inl x | Inr ks \<Rightarrow> Inr (k # ks)))"

text \<open>\<open>raw\<close> and \<open>active\<close> are the two settings without surrounding blanks, \<open>loads_json\<close> is \<^verbatim>\<open>json.loads\<close>.\<close>

definition keyring_from_settings ::
    "(string \<Rightarrow> json option) \<Rightarrow> string \<Rightarrow> string \<Rightarrow> bool \<Rightarrow> secret_error + keyring option" where
  "keyring_from_settings loads_json raw active required =
     (if raw = [] \<and> active = [] \<and> \<not> required then Inr None
      else if raw = [] \<or> active = [] then Inl (Key_configuration_error ''keys must be configured together'')
      else (case loads_json raw of
          Some (JObj (kv # kvs)) \<Rightarrow> (case parse_keys (kv # kvs) of
              Inl x \<Rightarrow> Inl x
            | Inr keys \<Rightarrow> if map_of keys active = None then Inl (Key_configuration_error ''active key is absent from the keyring'')
                else Inr (Some \<lparr>kr_keys = keys, kr_active = active\<rparr>))
        | _ \<Rightarrow> Inl (Key_configuration_error ''SCRAPEYARD_ENCRYPTION_KEYS must be a non-empty JSON object'')))"

section \<open>Envelopes\<close>

record aead =
  ae_encrypt :: "string \<Rightarrow> string \<Rightarrow> string \<Rightarrow> string \<Rightarrow> string"
  ae_decrypt :: "string \<Rightarrow> string \<Rightarrow> string \<Rightarrow> string \<Rightarrow> string option"

definition aead_ok :: "aead \<Rightarrow> bool" where
  "aead_ok c \<longleftrightarrow> (\<forall>key n text purpose. length key = 32 \<and> length n = 12 \<longrightarrow>
     ae_decrypt c key n (ae_encrypt c key n text purpose) purpose = Some text
     \<and> length (ae_encrypt c key n text purpose) = length text + 16)"

definition envelope_prefix :: string where
  "envelope_prefix = ''syenc:v1:''"

primrec split_max :: "char \<Rightarrow> nat \<Rightarrow> string \<Rightarrow> string list" where
  "split_max c 0 s = [s]"
| "split_max c (Suc n) s = (case dropWhile (\<lambda>x. x \<noteq> c) s of
     [] \<Rightarrow> [s] | _ # rest \<Rightarrow> takeWhile (\<lambda>x. x \<noteq> c) s # split_max c n rest)"

definition envelope_key_id :: "string \<Rightarrow> secret_error + string option" where
  "envelope_key_id v = (if take (length envelope_prefix) v \<noteq> envelope_prefix then Inr None
     else let parts = split_max (CHR '':'') 3 v in
       if length parts \<noteq> 4 \<or> parts ! 2 = [] \<or> parts ! 3 = []
       then Inl (Decryption_error ''Persisted secret envelope is malformed'')
       else Inr (Some (parts ! 2)))"

definition protect :: "aead \<Rightarrow> (string \<Rightarrow> string) \<Rightarrow> keyring \<Rightarrow> string \<Rightarrow> string \<Rightarrow> secret_error + string" where
  "protect c nonce k purpose text = (case map_of (kr_keys k) (kr_active k) of
       None \<Rightarrow> Inl (Missing_key (kr_active k))
     | Some key \<Rightarrow> Inr (envelope_prefix @ kr_active k @ '':''
         @ b64encode (nonce purpose @ ae_encrypt c key (nonce purpose) text purpose)))"

definition reveal :: "aead \<Rightarrow> keyring \<Rightarrow> string \<Rightarrow> string \<Rightarrow> secret_error + string" where
  "reveal c k purpose v = (case envelope_key_id v of
       Inl x \<Rightarrow> Inl x
     | Inr None \<Rightarrow> Inr v
     | Inr (Some key_id) \<Rightarrow> (case map_of (kr_keys k) key_id of
           None \<Rightarrow> Inl (Decryption_error ''Persisted secret requires unavailable encryption key'')
         | Some key \<Rightarrow> (case b64decode (split_max (CHR '':'') 3 v ! 3) of
               None \<Rightarrow> Inl (Decryption_error ''Persisted secret envelope failed authentication'')
             | Some combined \<Rightarrow>
                 if length combined < 12 + 16 then Inl (Decryption_error ''Persisted secret envelope failed authentication'')
                 else (case ae_decrypt c key (take 12 combined) (drop 12 combined) purpose of
                     None \<Rightarrow> Inl (Decryption_error ''Persisted secret envelope failed authentication'')
                   | Some text \<Rightarrow> Inr text))))"

section \<open>Paging\<close>

function paged_rows :: "('r \<Rightarrow> string) \<Rightarrow> nat \<Rightarrow> 'r table \<Rightarrow> string \<Rightarrow> 'r list" where
  "paged_rows key n t after = (let rows = sql_limit n 0 (sql_order key (filter (\<lambda>r. key r > after) t)) in
     if length rows < n \<or> rows = [] then rows else rows @ paged_rows key n t (key (List.last rows)))"
  by pat_completeness auto
termination
proof (relation "measure (\<lambda>(key, n, t, after). length (filter (\<lambda>r. key r > after) t))", goal_cases)
  case (2 key n t after rows)
  then have "List.last rows \<in> set (sql_order key (filter (\<lambda>r. key r > after) t))"
    by (metis append_take_drop_id drop_0 last_in_set sql_limit_def in_set_takeD)
  then have l: "List.last rows \<in> set t" "key (List.last rows) > after" by (auto simp: sql_order_def)
  have "filter (\<lambda>r. key r > key (List.last rows)) t = filter (\<lambda>r. key r > key (List.last rows)) (filter (\<lambda>r. key r > after) t)"
    using l(2) by (simp add: conj_commute) (metis (mono_tags) filter_cong order_less_trans)
  moreover have "List.last rows \<in> set (filter (\<lambda>r. key r > after) t)" using l by simp
  ultimately show ?case
    by (simp only: in_measure prod.case) (metis (mono_tags, lifting) length_filter_less order_less_irrefl)
qed simp

definition migration_page_rows :: nat where
  "migration_page_rows = 100"

fun rewrite_rows :: "('r \<Rightarrow> string) \<Rightarrow> ('r \<Rightarrow> 'e + 'r) \<Rightarrow> 'r list \<Rightarrow> 'r table \<Rightarrow> 'e + 'r table" where
  "rewrite_rows key f [] t = Inr t"
| "rewrite_rows key f (r # rs) t = (case f r of
     Inl x \<Rightarrow> Inl x | Inr r' \<Rightarrow> rewrite_rows key f rs (sql_update (\<lambda>q. key q = key r) (\<lambda>_. r') t))"

definition migrate_table :: "('r \<Rightarrow> string) \<Rightarrow> ('r \<Rightarrow> bool) \<Rightarrow> ('r \<Rightarrow> 'e + 'r) \<Rightarrow> 'r table \<Rightarrow> 'e + 'r table" where
  "migrate_table key P f t = rewrite_rows key f (paged_rows key migration_page_rows (filter P t) []) t"

section \<open>Migration\<close>

definition rotate_text ::
    "aead \<Rightarrow> (string \<Rightarrow> string) \<Rightarrow> keyring \<Rightarrow> string \<Rightarrow> string \<Rightarrow> secret_error + (string \<times> string)" where
  "rotate_text c nonce k purpose v = (case envelope_key_id v of
       Inl x \<Rightarrow> Inl x
     | Inr key_id \<Rightarrow> (case reveal c k purpose v of
           Inl x \<Rightarrow> Inl x
         | Inr text \<Rightarrow> if key_id = Some (kr_active k) then Inr (text, v)
             else (case protect c nonce k purpose text of Inl x \<Rightarrow> Inl x | Inr v' \<Rightarrow> Inr (text, v'))))"

definition migrate_job :: "env \<Rightarrow> aead \<Rightarrow> (string \<Rightarrow> string) \<Rightarrow> keyring \<Rightarrow> job_row \<Rightarrow> secret_error + job_row" where
  "migrate_job e c nonce k j = (case rotate_text c nonce k (jobs_purpose (j_job_id j)) (j_config_yaml j) of
       Inl x \<Rightarrow> Inl x
     | Inr (text, v) \<Rightarrow> Inr (j\<lparr>j_config_yaml := v, j_config_hash := sha256 e text\<rparr>))"

definition migrate_run :: "aead \<Rightarrow> (string \<Rightarrow> string) \<Rightarrow> keyring \<Rightarrow> run_row \<Rightarrow> secret_error + run_row" where
  "migrate_run c nonce k r = (case r_config_yaml r of
       None \<Rightarrow> Inr r
     | Some stored \<Rightarrow> (case rotate_text c nonce k (runs_purpose (r_run_id r)) stored of
           Inl x \<Rightarrow> Inl x | Inr (_, v) \<Rightarrow> Inr (r\<lparr>r_config_yaml := Some v\<rparr>)))"

definition backfill_run :: "env \<Rightarrow> aead \<Rightarrow> (string \<Rightarrow> string) \<Rightarrow> keyring \<Rightarrow> jobs_db \<Rightarrow> run_row \<Rightarrow> secret_error + run_row" where
  "backfill_run e c nonce k db r = (case find_job db (r_job_id r) of
       None \<Rightarrow> Inr r
     | Some j \<Rightarrow> (case reveal c k (jobs_purpose (r_job_id r)) (j_config_yaml j) of
           Inl x \<Rightarrow> Inl x
         | Inr text \<Rightarrow> if sha256 e text \<noteq> r_config_hash r then Inr r
             else (case protect c nonce k (runs_purpose (r_run_id r)) text of
                 Inl x \<Rightarrow> Inl x | Inr v \<Rightarrow> Inr (r\<lparr>r_config_yaml := Some v\<rparr>))))"

definition backfillable :: "jobs_db \<Rightarrow> run_row \<Rightarrow> bool" where
  "backfillable db r \<longleftrightarrow> r_config_yaml r = None \<and> r_failure_code r = None \<and> find_job db (r_job_id r) \<noteq> None"

definition migrate_snapshot :: "env \<Rightarrow> aead \<Rightarrow> (string \<Rightarrow> string) \<Rightarrow> keyring \<Rightarrow> snapshot_row \<Rightarrow> secret_error + snapshot_row" where
  "migrate_snapshot e c nonce k q = (case rotate_text c nonce k (queued_purpose (q_run_id q)) (q_config_yaml q) of
       Inl x \<Rightarrow> Inl x
     | Inr (text, v) \<Rightarrow> Inr (q\<lparr>q_config_yaml := v, q_config_hash := sha256 e text\<rparr>))"

definition migrate_error :: "aead \<Rightarrow> (string \<Rightarrow> string) \<Rightarrow> keyring \<Rightarrow> delivery_row \<Rightarrow> secret_error + delivery_row" where
  "migrate_error c nonce k d = (case d_last_error d of
       None \<Rightarrow> Inr d
     | Some stored \<Rightarrow> (case rotate_text c nonce k (webhook_purpose ''last_error'' (d_delivery_id d)) stored of
           Inl x \<Rightarrow> Inl x | Inr (_, v) \<Rightarrow> Inr (d\<lparr>d_last_error := Some v\<rparr>)))"

definition migrate_delivery :: "aead \<Rightarrow> (string \<Rightarrow> string) \<Rightarrow> keyring \<Rightarrow> delivery_row \<Rightarrow> secret_error + delivery_row" where
  "migrate_delivery c nonce k d = (let purpose = (\<lambda>column. webhook_purpose column (d_delivery_id d)) in
     case rotate_text c nonce k (purpose ''url'') (d_url d) of Inl x \<Rightarrow> Inl x
     | Inr (_, url) \<Rightarrow> (case rotate_text c nonce k (purpose ''headers_json'') (d_headers_json d) of Inl x \<Rightarrow> Inl x
       | Inr (_, headers) \<Rightarrow> (case rotate_text c nonce k (purpose ''payload_json'') (d_payload_json d) of Inl x \<Rightarrow> Inl x
         | Inr (_, payload) \<Rightarrow>
             migrate_error c nonce k (d\<lparr>d_url := url, d_headers_json := headers, d_payload_json := payload\<rparr>))))"

definition holds_secrets :: "jobs_db \<Rightarrow> bool" where
  "holds_secrets db \<longleftrightarrow> jobs db \<noteq> [] \<or> sql_exists (\<lambda>d. d_scrubbed_at d = None) (webhook_deliveries db)
     \<or> sql_exists (\<lambda>r. r_config_yaml r \<noteq> None) (job_runs db) \<or> queued_run_snapshots db \<noteq> []"

definition migrate_persisted_secrets ::
    "env \<Rightarrow> aead \<Rightarrow> (string \<Rightarrow> string) \<Rightarrow> keyring option \<Rightarrow> jobs_db \<Rightarrow> secret_error + jobs_db" where
  "migrate_persisted_secrets e c nonce kr db = (case kr of
       None \<Rightarrow> if holds_secrets db
         then Inl (Key_configuration_error ''Persisted jobs or webhook requests require deployment encryption keys'') else Inr db
     | Some k \<Rightarrow> (case migrate_table j_job_id (\<lambda>_. True) (migrate_job e c nonce k) (jobs db) of Inl x \<Rightarrow> Inl x
       | Inr js \<Rightarrow> (case migrate_table r_run_id (\<lambda>r. r_config_yaml r \<noteq> None) (migrate_run c nonce k) (job_runs db) of Inl x \<Rightarrow> Inl x
         | Inr rs \<Rightarrow> let db1 = db\<lparr>jobs := js, job_runs := rs\<rparr> in
           (case migrate_table r_run_id (backfillable db1) (backfill_run e c nonce k db1) rs of Inl x \<Rightarrow> Inl x
           | Inr rs2 \<Rightarrow> (case migrate_table q_run_id (\<lambda>_. True) (migrate_snapshot e c nonce k) (queued_run_snapshots db) of Inl x \<Rightarrow> Inl x
             | Inr qs \<Rightarrow> (case migrate_table d_delivery_id (\<lambda>d. d_scrubbed_at d = None) (migrate_delivery c nonce k) (webhook_deliveries db) of Inl x \<Rightarrow> Inl x
               | Inr ds \<Rightarrow> Inr (db1\<lparr>job_runs := rs2, queued_run_snapshots := qs, webhook_deliveries := ds\<rparr>)))))))"

end
