(* ===== verification/Secret_Properties.thy ===== *)
theory Secret_Properties
  imports Secret_Envelope Sample
begin

text \<open>
  Correctness of the envelopes and of their migration: base64 and the envelope text round-trip, so that the contract
  \<open>envelope_ok\<close> which the job store relies on holds for every configured keyring; paging visits exactly the selected rows;
  and the migration keeps every plaintext, leaves nothing under an old key, and changes nothing the second time.
\<close>

section \<open>Base64 round trip\<close>

lemma b64_value_char: "n < 64 \<Longrightarrow> b64_value (b64_char n) = Some n"
proof -
  have "list_all (\<lambda>n. b64_value (b64_char n) = Some n) [0..<64]" by code_simp
  then show "n < 64 \<Longrightarrow> ?thesis" by (simp add: list_all_iff)
qed

lemma b64_char_not_pad: "n < 64 \<Longrightarrow> b64_char n \<noteq> CHR ''=''"
proof -
  have "list_all (\<lambda>n. b64_char n \<noteq> CHR ''='') [0..<64]" by code_simp
  then show "n < 64 \<Longrightarrow> ?thesis" by (simp add: list_all_iff)
qed

lemma char_bound: "(of_char c :: nat) < 256"
  by (rule nat_of_char_less_256)

lemma sextets:
  fixes a b c :: nat
  assumes "a < 256" and "b < 256" and "c < 256"
  shows "a div 4 < 64" "a mod 4 * 16 + b div 16 < 64" "b mod 16 * 4 + c div 64 < 64" "c mod 64 < 64"
    "a div 4 * 4 + (a mod 4 * 16 + b div 16) div 16 = a"
    "(a mod 4 * 16 + b div 16) mod 16 * 16 + (b mod 16 * 4 + c div 64) div 4 = b"
    "(b mod 16 * 4 + c div 64) mod 4 * 64 + c mod 64 = c"
proof -
  have q: "b div 16 < 16" "c div 64 < 4" using assms by (simp_all add: div_less_iff_less_mult)
  have m: "a mod 4 < 4" "b mod 16 < 16" by simp_all
  show "a div 4 < 64" "c mod 64 < 64" using assms by (simp_all add: div_less_iff_less_mult)
  show "a mod 4 * 16 + b div 16 < 64" "b mod 16 * 4 + c div 64 < 64" using q m by linarith+
  show "a div 4 * 4 + (a mod 4 * 16 + b div 16) div 16 = a"
    "(a mod 4 * 16 + b div 16) mod 16 * 16 + (b mod 16 * 4 + c div 64) div 4 = b"
    "(b mod 16 * 4 + c div 64) mod 4 * 64 + c mod 64 = c"
    using q by (simp_all add: div_mult_mod_eq)
qed

lemma b64_round_trip: "b64decode (b64encode s) = Some s"
proof (induction s rule: b64encode.induct)
  case (1 a b c rest)
  note n = sextets [OF char_bound [of a] char_bound [of b] char_bound [of c]]
  show ?case using 1 n(5-7) by (simp add: b64_value_char b64_char_not_pad n(1-4))
next
  case (2 a b)
  note n = sextets [OF char_bound [of a] char_bound [of b], of 0, simplified]
  show ?case using n by (simp add: b64_value_char b64_char_not_pad)
next
  case (3 a)
  note n = sextets [OF char_bound [of a], of 0 0, simplified]
  show ?case using n by (simp add: b64_value_char)
qed simp

lemma b64encode_Nil [simp]: "b64encode s = [] \<longleftrightarrow> s = []"
  by (cases s rule: b64encode.cases) simp_all

section \<open>Envelope round trip\<close>

lemma split_max_Suc:
  assumes "c \<notin> set a"
  shows "split_max c (Suc n) (a @ c # b) = a # split_max c n b"
proof -
  have "takeWhile (\<lambda>x. x \<noteq> c) (a @ c # b) = a" "dropWhile (\<lambda>x. x \<noteq> c) (a @ c # b) = c # b"
    using assms by (induction a) auto
  then show ?thesis by simp
qed

lemma split_envelope:
  assumes "CHR '':'' \<notin> set i"
  shows "split_max (CHR '':'') 3 (envelope_prefix @ i @ '':'' @ t) = [''syenc'', ''v1'', i, t]"
  using split_max_Suc [of "CHR '':''" "''syenc''" 2 "''v1:'' @ i @ '':'' @ t"] split_max_Suc [of "CHR '':''" "''v1''" 1 "i @ '':'' @ t"]
    split_max_Suc [OF assms, of 0 t]
  by (simp add: envelope_prefix_def numeral_3_eq_3 numeral_2_eq_2)

definition wf_keyring :: "keyring \<Rightarrow> bool" where
  "wf_keyring k \<longleftrightarrow> (\<exists>key. map_of (kr_keys k) (kr_active k) = Some key \<and> length key = 32) \<and> kr_active k \<noteq> [] \<and> CHR '':'' \<notin> set (kr_active k)"

lemma alnum_not_colon: "is_alnum c \<Longrightarrow> c \<noteq> CHR '':''"
  by (auto simp: is_alnum_def)

lemma valid_key_id_safe: "valid_key_id s \<Longrightarrow> s \<noteq> [] \<and> CHR '':'' \<notin> set s"
  using alnum_not_colon by (fastforce simp: valid_key_id_def list_all_iff split: list.splits)

lemma parse_keys_valid:
  "parse_keys kvs = Inr ks \<Longrightarrow> (i, key) \<in> set ks \<Longrightarrow> valid_key_id i \<and> length key = 32"
  by (induction kvs arbitrary: ks) (auto simp: parse_key_def split: sum.splits prod.splits if_splits json.splits option.splits)

lemma settings_wf: "keyring_from_settings loads raw active required = Inr (Some k) \<Longrightarrow> wf_keyring k"
proof -
  assume "keyring_from_settings loads raw active required = Inr (Some k)"
  then obtain kvs ks where ks: "parse_keys kvs = Inr ks" "map_of ks active \<noteq> None" "k = \<lparr>kr_keys = ks, kr_active = active\<rparr>"
    by (auto simp: keyring_from_settings_def simp del: parse_keys.simps split: if_splits option.splits json.splits list.splits sum.splits)
  then obtain key where "map_of ks active = Some key" by auto
  with parse_keys_valid [OF ks(1) map_of_SomeD [OF this]] valid_key_id_safe show ?thesis
    by (auto simp: wf_keyring_def ks(3))
qed

lemma protected_form:
  assumes "wf_keyring k" and "protect c nonce k purpose text = Inr v" and "length (nonce purpose) = 12"
  shows "envelope_key_id v = Inr (Some (kr_active k))"
    and "\<And>k' key. map_of (kr_keys k) (kr_active k) = Some key \<Longrightarrow> map_of (kr_keys k') (kr_active k) = Some key \<Longrightarrow> aead_ok c \<Longrightarrow>
      length key = 32 \<Longrightarrow> reveal c k' purpose v = Inr text"
proof -
  obtain key where key: "map_of (kr_keys k) (kr_active k) = Some key" using assms(1) by (auto simp: wf_keyring_def)
  let ?t = "nonce purpose @ ae_encrypt c key (nonce purpose) text purpose"
  have v: "v = envelope_prefix @ kr_active k @ '':'' @ b64encode ?t" using assms(2) key by (simp add: protect_def)
  have parts: "split_max (CHR '':'') 3 v = [''syenc'', ''v1'', kr_active k, b64encode ?t]"
    unfolding v by (rule split_envelope) (use assms(1) in \<open>simp add: wf_keyring_def\<close>)
  have "nonce purpose \<noteq> []" using assms(3) by auto
  then show id: "envelope_key_id v = Inr (Some (kr_active k))"
    using assms(1) unfolding envelope_key_id_def parts by (simp add: v wf_keyring_def)
  show "reveal c k' purpose v = Inr text"
    if "map_of (kr_keys k) (kr_active k) = Some key'" "map_of (kr_keys k') (kr_active k) = Some key'" "aead_ok c" "length key' = 32" for k' key'
  proof -
    have "key' = key" using that(1) key by simp
    moreover have "ae_decrypt c key (nonce purpose) (ae_encrypt c key (nonce purpose) text purpose) purpose = Some text"
      "length (ae_encrypt c key (nonce purpose) text purpose) = length text + 16"
      using that assms(3) calculation by (simp_all add: aead_ok_def)
    ultimately show ?thesis using that(2) assms(3) by (simp add: reveal_def id parts b64_round_trip)
  qed
qed

lemma protect_defined: "wf_keyring k \<Longrightarrow> \<exists>v. protect c nonce k purpose text = Inr v"
  by (auto simp: wf_keyring_def protect_def)

text \<open>The environment of the stores when the envelopes are those of a keyring.\<close>

definition keyring_env :: "aead \<Rightarrow> (string \<Rightarrow> string) \<Rightarrow> keyring \<Rightarrow> env \<Rightarrow> env" where
  "keyring_env c nonce k e = e\<lparr>protect_text := \<lambda>purpose x. (case protect c nonce k purpose x of Inr v \<Rightarrow> v | Inl _ \<Rightarrow> []),
     reveal_text := \<lambda>purpose v. (case reveal c k purpose v of Inr x \<Rightarrow> Some x | Inl _ \<Rightarrow> None)\<rparr>"

text \<open>
  What a configured deployment stores it can read back: for every keyring that the settings accept, a protected text
  reveals to itself under the same purpose, with the keyring that wrote it and with every later keyring that keeps its key,
  whatever key is active then. In particular the contract that the job store assumes of its envelopes holds.
\<close>

theorem envelope_round_trip:
  assumes "keyring_from_settings loads raw active required = Inr (Some k)" and "aead_ok c" and "\<forall>p. length (nonce p) = 12"
  shows "envelope_ok (keyring_env c nonce k e)
    \<and> (\<exists>v. protect c nonce k purpose text = Inr v
        \<and> (\<forall>k'. map_of (kr_keys k') (kr_active k) = map_of (kr_keys k) (kr_active k) \<longrightarrow> reveal c k' purpose v = Inr text))"
proof -
  have wf: "wf_keyring k" by (rule settings_wf [OF assms(1)])
  then obtain key where key: "map_of (kr_keys k) (kr_active k) = Some key" "length key = 32" by (auto simp: wf_keyring_def)
  have round: "\<exists>v. protect c nonce k p x = Inr v
      \<and> (\<forall>k'. map_of (kr_keys k') (kr_active k) = map_of (kr_keys k) (kr_active k) \<longrightarrow> reveal c k' p v = Inr x)" for p x
  proof -
    obtain v where v: "protect c nonce k p x = Inr v" using protect_defined [OF wf] by blast
    have n: "length (nonce p) = 12" using assms(3) by blast
    show ?thesis using protected_form(2) [OF wf v n key(1) _ assms(2) key(2)] v key(1) by auto
  qed
  have "reveal_text (keyring_env c nonce k e) p (protect_text (keyring_env c nonce k e) p x) = Some x" for p x
  proof -
    obtain v where "protect c nonce k p x = Inr v" "reveal c k p v = Inr x" using round by blast
    then show ?thesis by (simp add: keyring_env_def)
  qed
  with round show ?thesis by (simp add: envelope_ok_def)
qed

section \<open>Paging\<close>

lemma filter_above:
  assumes "sorted (map key s)" and "distinct (map key s)" and "n < length s"
  shows "filter (\<lambda>r. key r > key (s ! n)) s = drop (Suc n) s"
proof -
  have split: "s = take n s @ s ! n # drop (Suc n) s" using assms(3) by (rule id_take_nth_drop)
  have "sorted (map key (take n s @ s ! n # drop (Suc n) s))" "distinct (map key (take n s @ s ! n # drop (Suc n) s))"
    using assms(1,2) split by simp_all
  then have "\<forall>r \<in> set (take n s). \<not> key r > key (s ! n)" "\<forall>r \<in> set (drop (Suc n) s). key r > key (s ! n)"
    by (auto simp: sorted_append less_le)
  then have "filter (\<lambda>r. key r > key (s ! n)) (take n s @ s ! n # drop (Suc n) s) = drop (Suc n) s" by simp
  with split show ?thesis by simp
qed

lemma paged_rows_all:
  assumes "distinct (map key t)" and "0 < n"
  shows "paged_rows key n t low = sql_order key (filter (\<lambda>r. key r > low) t)"
  using assms
proof (induction key n t low rule: paged_rows.induct)
  case (1 key n t low)
  define s where "s = sql_order key (filter (\<lambda>r. key r > low) t)"
  have s: "sorted (map key s)" "distinct (map key s)" using 1(2) by (simp_all add: s_def sql_order_def distinct_map distinct_filter inj_on_def)
  have rows: "sql_limit n 0 s = take n s" by (simp add: sql_limit_def)
  show ?case
  proof (cases "n \<le> length s")
    case False
    then have "paged_rows key n t low = s" by (subst paged_rows.simps) (simp add: s_def [symmetric] rows)
    then show ?thesis by (simp add: s_def)
  next
    case True
    then have l: "take n s \<noteq> []" "n - 1 < length s" using 1(3) by auto
    then have l: "List.last (take n s) = s ! (n - 1)" "n - 1 < length s" "take n s \<noteq> []"
      using 1(3) True last_conv_nth [OF l(1)] by (simp_all add: min_absorb2)
    have "key (s ! (n - 1)) > low" using nth_mem [OF l(2)] by (simp add: s_def sql_order_def)
    then have f: "filter (\<lambda>r. key r > key (s ! (n - 1))) t = filter (\<lambda>r. key r > key (s ! (n - 1))) (filter (\<lambda>r. key r > low) t)"
      by (induction t) auto
    have "paged_rows key n t (key (List.last (take n s))) = sql_order key (filter (\<lambda>r. key r > key (s ! (n - 1))) t)"
      using 1(1) [OF refl _ 1(2,3)] l True unfolding s_def [symmetric] rows by simp
    also have "\<dots> = filter (\<lambda>r. key r > key (s ! (n - 1))) s"
      unfolding f by (simp only: s_def sql_order_def filter_sort)
    also have "\<dots> = drop n s" using filter_above [OF s l(2)] 1(3) by simp
    finally have "paged_rows key n t low = take n s @ drop n s"
      using True l by (subst paged_rows.simps) (simp add: s_def [symmetric] rows Let_def)
    then show ?thesis by (simp add: s_def)
  qed
qed

text \<open>
  Keyset paging is the full query: whatever the page size, reading page after page from the last key of the page before
  returns every selected row once, in key order.
\<close>

theorem paging_is_full_query:
  assumes "distinct (map key t)" and "0 < n"
  shows "paged_rows key n t low = sql_order key (filter (\<lambda>r. key r > low) t)"
  using assms by (rule paged_rows_all)

section \<open>Migration of a table\<close>

lemma rewrite_rows_map:
  assumes "rewrite_rows key f rs t = Inr t'" and "distinct (map key t)" and "distinct (map key rs)"
    and "\<And>r. r \<in> set rs \<Longrightarrow> r \<in> set t" and "\<And>r r'. f r = Inr r' \<Longrightarrow> key r' = key r"
  shows "(\<forall>r \<in> set rs. \<exists>r'. f r = Inr r') \<and> t' = map (\<lambda>r. if r \<in> set rs then projr (f r) else r) t"
  using assms
proof (induction rs arbitrary: t)
  case (Cons r rs)
  obtain r' where r': "f r = Inr r'" using Cons.prems(1) by (cases "f r") auto
  let ?t = "sql_update (\<lambda>q. key q = key r) (\<lambda>_. r') t"
  have same: "key q = key r \<longleftrightarrow> q = r" if "q \<in> set t" for q
    using that Cons.prems(2) Cons.prems(4) [of r] by (auto simp: distinct_map dest: inj_onD)
  have t: "?t = map (\<lambda>q. if q = r then r' else q) t" using same by (auto simp: sql_update_def)
  have keys: "map key ?t = map key t" using Cons.prems(5) [OF r'] unfolding t by auto
  have fresh: "r' \<notin> set rs"
  proof
    assume "r' \<in> set rs"
    then have "key r' \<in> set (map key rs)" by simp
    with Cons.prems(3,5) r' show False by auto
  qed
  have mem: "q \<in> set ?t" if "q \<in> set rs" for q
  proof -
    have "q \<noteq> r" using that Cons.prems(3) by auto
    with that Cons.prems(4) show ?thesis unfolding t by auto
  qed
  have run: "rewrite_rows key f rs ?t = Inr t'" using Cons.prems(1) r' by simp
  have dist: "distinct (map key ?t)" "distinct (map key rs)" using Cons.prems(2,3) by (simp_all add: keys del: map_map)
  have "(\<forall>r \<in> set rs. \<exists>r'. f r = Inr r') \<and> t' = map (\<lambda>q. if q \<in> set rs then projr (f q) else q) ?t"
    by (rule Cons.IH [OF run dist mem Cons.prems(5)])
  with fresh show ?case unfolding t by (auto simp: r')
qed simp

definition nonempty_keys :: "('r \<Rightarrow> string) \<Rightarrow> 'r table \<Rightarrow> bool" where
  "nonempty_keys key t \<longleftrightarrow> distinct (map key t) \<and> (\<forall>r \<in> set t. key r \<noteq> [])"

lemma migrate_table_map:
  assumes "migrate_table key P f t = Inr t'" and "nonempty_keys key t" and "\<And>r r'. f r = Inr r' \<Longrightarrow> key r' = key r"
  shows "(\<forall>r \<in> set t. P r \<longrightarrow> (\<exists>r'. f r = Inr r')) \<and> t' = map (\<lambda>r. if P r then projr (f r) else r) t"
proof -
  have dist: "distinct (map key (filter P t))" using assms(2) by (simp add: nonempty_keys_def distinct_map_filter)
  have pos: "filter (\<lambda>r. key r > []) (filter P t) = filter P t"
    using assms(2) by (intro filter_True) (auto simp: nonempty_keys_def neq_Nil_conv)
  have "paged_rows key migration_page_rows (filter P t) [] = sql_order key (filter P t)"
    using paged_rows_all [OF dist, of migration_page_rows "[]"] pos by (simp add: migration_page_rows_def)
  then have run: "rewrite_rows key f (sql_order key (filter P t)) t = Inr t'" using assms(1) by (simp add: migrate_table_def)
  have rows: "set (sql_order key (filter P t)) = {r \<in> set t. P r}" "distinct (map key (sql_order key (filter P t)))"
    using dist by (auto simp: sql_order_def distinct_map inj_on_def)
  have "(\<forall>r \<in> {r \<in> set t. P r}. \<exists>r'. f r = Inr r') \<and> t' = map (\<lambda>r. if r \<in> {r \<in> set t. P r} then projr (f r) else r) t"
    using rewrite_rows_map [OF run _ rows(2) _ assms(3)] assms(2) rows(1) by (auto simp: nonempty_keys_def)
  then show ?thesis by auto
qed

lemma migrate_table_id:
  assumes "nonempty_keys key t" and "\<And>r. r \<in> set t \<Longrightarrow> P r \<Longrightarrow> f r = Inr r"
  shows "migrate_table key P f t = Inr t"
proof -
  have "rewrite_rows key f rs t = Inr t" if "set rs \<subseteq> {r \<in> set t. P r}" for rs
    using that
  proof (induction rs)
    case (Cons r rs)
    have "sql_update (\<lambda>q. key q = key r) (\<lambda>_. r) t = t"
      using Cons.prems assms(1) by (auto simp: sql_update_def nonempty_keys_def distinct_map intro!: map_idI dest: inj_onD)
    with Cons assms(2) show ?case by simp
  qed simp
  moreover have "set (paged_rows key migration_page_rows (filter P t) []) \<subseteq> {r \<in> set t. P r}"
    using paged_rows_all [of key "filter P t" migration_page_rows "[]"] assms(1)
    by (auto simp: migration_page_rows_def nonempty_keys_def distinct_map_filter sql_order_def)
  ultimately show ?thesis by (simp add: migrate_table_def)
qed

section \<open>What the migration keeps\<close>

definition kept :: "aead \<Rightarrow> keyring \<Rightarrow> string \<Rightarrow> string \<Rightarrow> string \<Rightarrow> string \<Rightarrow> bool" where
  "kept c k purpose text old new \<longleftrightarrow> reveal c k purpose old = Inr text \<and> reveal c k purpose new = Inr text
     \<and> envelope_key_id new = Inr (Some (kr_active k))"

definition job_migrated :: "env \<Rightarrow> aead \<Rightarrow> keyring \<Rightarrow> job_row \<Rightarrow> job_row \<Rightarrow> bool" where
  "job_migrated e c k j j' \<longleftrightarrow> (\<exists>text v. kept c k (jobs_purpose (j_job_id j)) text (j_config_yaml j) v
     \<and> j' = j\<lparr>j_config_yaml := v, j_config_hash := sha256 e text\<rparr>)"

definition snapshot_migrated :: "env \<Rightarrow> aead \<Rightarrow> keyring \<Rightarrow> snapshot_row \<Rightarrow> snapshot_row \<Rightarrow> bool" where
  "snapshot_migrated e c k q q' \<longleftrightarrow> (\<exists>text v. kept c k (queued_purpose (q_run_id q)) text (q_config_yaml q) v
     \<and> q' = q\<lparr>q_config_yaml := v, q_config_hash := sha256 e text\<rparr>)"

text \<open>A run keeps its configuration; one without takes that of its job only if the hash proves it to be the one it ran.\<close>

definition run_migrated :: "env \<Rightarrow> aead \<Rightarrow> keyring \<Rightarrow> jobs_db \<Rightarrow> run_row \<Rightarrow> run_row \<Rightarrow> bool" where
  "run_migrated e c k db r r' \<longleftrightarrow> (case r_config_yaml r of
       Some old \<Rightarrow> (\<exists>text v. kept c k (runs_purpose (r_run_id r)) text old v \<and> r' = r\<lparr>r_config_yaml := Some v\<rparr>)
     | None \<Rightarrow> r' = r \<or> (\<exists>j text v. find_job db (r_job_id r) = Some j \<and> reveal c k (jobs_purpose (r_job_id r)) (j_config_yaml j) = Inr text
         \<and> sha256 e text = r_config_hash r \<and> reveal c k (runs_purpose (r_run_id r)) v = Inr text
         \<and> envelope_key_id v = Inr (Some (kr_active k)) \<and> r' = r\<lparr>r_config_yaml := Some v\<rparr>))"

definition error_migrated :: "aead \<Rightarrow> keyring \<Rightarrow> string \<Rightarrow> string option \<Rightarrow> string option \<Rightarrow> bool" where
  "error_migrated c k did old new \<longleftrightarrow> (case old of None \<Rightarrow> new = None
     | Some x \<Rightarrow> (\<exists>text v. new = Some v \<and> kept c k (webhook_purpose ''last_error'' did) text x v))"

definition delivery_migrated :: "aead \<Rightarrow> keyring \<Rightarrow> delivery_row \<Rightarrow> delivery_row \<Rightarrow> bool" where
  "delivery_migrated c k d d' \<longleftrightarrow> (if d_scrubbed_at d \<noteq> None then d' = d
     else (\<exists>a b p u h y err. kept c k (webhook_purpose ''url'' (d_delivery_id d)) a (d_url d) u
       \<and> kept c k (webhook_purpose ''headers_json'' (d_delivery_id d)) b (d_headers_json d) h
       \<and> kept c k (webhook_purpose ''payload_json'' (d_delivery_id d)) p (d_payload_json d) y
       \<and> error_migrated c k (d_delivery_id d) (d_last_error d) err
       \<and> d' = d\<lparr>d_url := u, d_headers_json := h, d_payload_json := y, d_last_error := err\<rparr>))"

definition keyed :: "jobs_db \<Rightarrow> bool" where
  "keyed db \<longleftrightarrow> nonempty_keys j_job_id (jobs db) \<and> nonempty_keys r_run_id (job_runs db)
     \<and> nonempty_keys q_run_id (queued_run_snapshots db) \<and> nonempty_keys d_delivery_id (webhook_deliveries db)"

definition cipher_ready :: "aead \<Rightarrow> (string \<Rightarrow> string) \<Rightarrow> keyring \<Rightarrow> bool" where
  "cipher_ready c nonce k \<longleftrightarrow> wf_keyring k \<and> aead_ok c \<and> (\<forall>p. length (nonce p) = 12)"

lemma protect_reveals:
  assumes "cipher_ready c nonce k" and "protect c nonce k purpose text = Inr v"
  shows "envelope_key_id v = Inr (Some (kr_active k)) \<and> reveal c k purpose v = Inr text"
  using assms protected_form [OF _ assms(2)] by (auto simp: cipher_ready_def wf_keyring_def)

lemma rotate_kept:
  assumes "cipher_ready c nonce k" and "rotate_text c nonce k purpose old = Inr (text, v)"
  shows "kept c k purpose text old v"
  using assms protect_reveals [OF assms(1)]
  by (auto simp: rotate_text_def kept_def split: sum.splits if_splits)

lemma rotate_again: "kept c k purpose text old v \<Longrightarrow> rotate_text c nonce k purpose v = Inr (text, v)"
  by (simp add: kept_def rotate_text_def)

lemma migrate_job_kept:
  assumes "cipher_ready c nonce k" and "migrate_job e c nonce k j = Inr j'"
  shows "job_migrated e c k j j' \<and> migrate_job e c nonce k j' = Inr j'"
proof -
  obtain tx v where v: "rotate_text c nonce k (jobs_purpose (j_job_id j)) (j_config_yaml j) = Inr (tx, v)"
      "j' = j\<lparr>j_config_yaml := v, j_config_hash := sha256 e tx\<rparr>"
    using assms(2) by (auto simp: migrate_job_def split: sum.splits)
  note kept = rotate_kept [OF assms(1) v(1)]
  with v(2) rotate_again [OF kept] show ?thesis by (auto simp: job_migrated_def migrate_job_def)
qed

lemma migrate_snapshot_kept:
  assumes "cipher_ready c nonce k" and "migrate_snapshot e c nonce k q = Inr q'"
  shows "snapshot_migrated e c k q q' \<and> migrate_snapshot e c nonce k q' = Inr q'"
proof -
  obtain tx v where v: "rotate_text c nonce k (queued_purpose (q_run_id q)) (q_config_yaml q) = Inr (tx, v)"
      "q' = q\<lparr>q_config_yaml := v, q_config_hash := sha256 e tx\<rparr>"
    using assms(2) by (auto simp: migrate_snapshot_def split: sum.splits)
  note kept = rotate_kept [OF assms(1) v(1)]
  with v(2) rotate_again [OF kept] show ?thesis by (auto simp: snapshot_migrated_def migrate_snapshot_def)
qed

lemma migrate_run_kept:
  assumes "cipher_ready c nonce k" and "migrate_run c nonce k r = Inr r'"
  shows "(case r_config_yaml r of None \<Rightarrow> r' = r | Some old \<Rightarrow>
      \<exists>text v. kept c k (runs_purpose (r_run_id r)) text old v \<and> r' = r\<lparr>r_config_yaml := Some v\<rparr>) \<and> migrate_run c nonce k r' = Inr r'"
proof (cases "r_config_yaml r")
  case (Some old)
  obtain tx v where v: "rotate_text c nonce k (runs_purpose (r_run_id r)) old = Inr (tx, v)" "r' = r\<lparr>r_config_yaml := Some v\<rparr>"
    using assms(2) Some by (auto simp: migrate_run_def split: sum.splits)
  note kept = rotate_kept [OF assms(1) v(1)]
  with v(2) rotate_again [OF kept] Some show ?thesis by (auto simp: migrate_run_def)
qed (use assms in \<open>simp add: migrate_run_def\<close>)

lemma backfill_run_kept:
  assumes "cipher_ready c nonce k" and "backfill_run e c nonce k db r = Inr r'" and "r_config_yaml r = None"
  shows "run_migrated e c k db r r' \<and> (r_config_yaml r' = None \<longrightarrow> r' = r) \<and> (r_config_yaml r' \<noteq> None \<longrightarrow> migrate_run c nonce k r' = Inr r')"
proof -
  have "r' = r \<or> (\<exists>j tx v. find_job db (r_job_id r) = Some j \<and> reveal c k (jobs_purpose (r_job_id r)) (j_config_yaml j) = Inr tx
         \<and> sha256 e tx = r_config_hash r \<and> protect c nonce k (runs_purpose (r_run_id r)) tx = Inr v \<and> r' = r\<lparr>r_config_yaml := Some v\<rparr>)"
    using assms(2) by (auto simp: backfill_run_def split: option.splits sum.splits if_splits)
  then show ?thesis
  proof
    assume "\<exists>j tx v. find_job db (r_job_id r) = Some j \<and> reveal c k (jobs_purpose (r_job_id r)) (j_config_yaml j) = Inr tx
         \<and> sha256 e tx = r_config_hash r \<and> protect c nonce k (runs_purpose (r_run_id r)) tx = Inr v \<and> r' = r\<lparr>r_config_yaml := Some v\<rparr>"
    then obtain j tx v where v: "find_job db (r_job_id r) = Some j" "reveal c k (jobs_purpose (r_job_id r)) (j_config_yaml j) = Inr tx"
         "sha256 e tx = r_config_hash r" "protect c nonce k (runs_purpose (r_run_id r)) tx = Inr v" "r' = r\<lparr>r_config_yaml := Some v\<rparr>" by blast
    note new = protect_reveals [OF assms(1) v(4)]
    then have "rotate_text c nonce k (runs_purpose (r_run_id r)) v = Inr (tx, v)" by (simp add: rotate_text_def)
    with v new assms(3) show ?thesis by (auto simp: run_migrated_def migrate_run_def)
  qed (use assms(3) in \<open>simp add: run_migrated_def\<close>)
qed

lemma migrate_delivery_kept:
  assumes "cipher_ready c nonce k" and "migrate_delivery c nonce k d = Inr d'" and "d_scrubbed_at d = None"
  shows "delivery_migrated c k d d' \<and> migrate_delivery c nonce k d' = Inr d'"
proof -
  let ?p = "\<lambda>column. webhook_purpose column (d_delivery_id d)"
  obtain a u b h p y err where parts: "rotate_text c nonce k (?p ''url'') (d_url d) = Inr (a, u)"
      "rotate_text c nonce k (?p ''headers_json'') (d_headers_json d) = Inr (b, h)" "rotate_text c nonce k (?p ''payload_json'') (d_payload_json d) = Inr (p, y)"
      and err: "(d_last_error d = None \<and> err = None) \<or> (\<exists>x text v. d_last_error d = Some x \<and> err = Some v \<and> rotate_text c nonce k (?p ''last_error'') x = Inr (text, v))"
      and d': "d' = d\<lparr>d_url := u, d_headers_json := h, d_payload_json := y, d_last_error := err\<rparr>"
    using assms(2) by (auto simp: migrate_delivery_def migrate_error_def Let_def split: sum.splits option.splits prod.splits)
  note kept = parts [THEN rotate_kept [OF assms(1)]]
  note again = kept [THEN rotate_again, of nonce]
  have "error_migrated c k (d_delivery_id d) (d_last_error d) err"
    using err rotate_kept [OF assms(1)] by (fastforce simp: error_migrated_def)
  moreover have "migrate_error c nonce k d' = Inr d'"
    using err rotate_again [OF rotate_kept [OF assms(1)]] by (auto simp: migrate_error_def d')
  moreover have "d'\<lparr>d_url := u, d_headers_json := h, d_payload_json := y\<rparr> = d'" by (simp add: d')
  moreover have "migrate_delivery c nonce k d' = migrate_error c nonce k (d'\<lparr>d_url := u, d_headers_json := h, d_payload_json := y\<rparr>)"
    by (simp add: migrate_delivery_def again d')
  ultimately show ?thesis
    unfolding delivery_migrated_def using kept assms(3) d' by (simp only: if_False simp_thms) blast
qed

lemma nonempty_keys_map:
  assumes "nonempty_keys key t" and "\<And>r. r \<in> set t \<Longrightarrow> key (g r) = key r"
  shows "nonempty_keys key (map g t)"
proof -
  have "map key (map g t) = map key t" using assms(2) by simp
  with assms show ?thesis by (auto simp: nonempty_keys_def simp del: map_map)
qed

text \<open>A table after its migration: its rows are related one by one, and a second migration changes none of them.\<close>

lemma migrated_table:
  assumes "migrate_table key P f t = Inr t'" and "nonempty_keys key t" and "\<And>r r'. f r = Inr r' \<Longrightarrow> key r' = key r"
    and "\<And>r r'. P r \<Longrightarrow> f r = Inr r' \<Longrightarrow> Q r r' \<and> f r' = Inr r'" and "\<And>r. \<not> P r \<Longrightarrow> Q r r"
  shows "list_all2 Q t t'" and "nonempty_keys key t'" and "(\<And>r r'. Q r r' \<Longrightarrow> P r' \<Longrightarrow> P r) \<Longrightarrow> migrate_table key P f t' = Inr t'"
proof -
  define g where "g = (\<lambda>r. if P r then projr (f r) else r)"
  note map = migrate_table_map [OF assms(1-3), folded g_def]
  have g: "Q r (g r) \<and> key (g r) = key r \<and> (P r \<longrightarrow> f (g r) = Inr (g r))" if r: "r \<in> set t" for r
  proof (cases "P r")
    case True
    with map r obtain r' where "f r = Inr r'" by blast
    with True assms(3,4) show ?thesis by (auto simp: g_def)
  qed (use assms(5) in \<open>simp add: g_def\<close>)
  have t': "t' = map g t" using map by blast
  show "list_all2 Q t t'" unfolding t' using g by (simp add: list_all2_map2 list.rel_refl_strong list_all2_conv_all_nth)
  show keys: "nonempty_keys key t'" unfolding t' by (rule nonempty_keys_map [OF assms(2)]) (use g in blast)
  show "migrate_table key P f t' = Inr t'" if "\<And>r r'. Q r r' \<Longrightarrow> P r' \<Longrightarrow> P r"
    by (rule migrate_table_id [OF keys]) (use g that in \<open>auto simp: t'\<close>)
qed

lemma migrate_keys:
  "migrate_job e c nonce k j = Inr j' \<Longrightarrow> j_job_id j' = j_job_id j"
  "migrate_run c nonce k r = Inr r' \<Longrightarrow> r_run_id r' = r_run_id r"
  "backfill_run e c nonce k db r = Inr r' \<Longrightarrow> r_run_id r' = r_run_id r"
  "migrate_snapshot e c nonce k q = Inr q' \<Longrightarrow> q_run_id q' = q_run_id q"
  "migrate_delivery c nonce k d = Inr d' \<Longrightarrow> d_delivery_id d' = d_delivery_id d"
  by (auto simp: migrate_job_def migrate_run_def backfill_run_def migrate_snapshot_def migrate_delivery_def migrate_error_def Let_def
      split: sum.splits option.splits if_splits)

lemma migrate_runs:
  assumes ready: "cipher_ready c nonce k" and keys: "nonempty_keys r_run_id rs"
    and one: "migrate_table r_run_id (\<lambda>r. r_config_yaml r \<noteq> None) (migrate_run c nonce k) rs = Inr rs1"
    and two: "migrate_table r_run_id (backfillable db) (backfill_run e c nonce k db) rs1 = Inr rs2"
  shows "list_all2 (run_migrated e c k db) rs rs2" and "nonempty_keys r_run_id rs2"
    and "migrate_table r_run_id (\<lambda>r. r_config_yaml r \<noteq> None) (migrate_run c nonce k) rs2 = Inr rs2"
    and "migrate_table r_run_id (backfillable db) (backfill_run e c nonce k db) rs2 = Inr rs2"
proof -
  define g1 where "g1 = (\<lambda>r. if r_config_yaml r \<noteq> None then projr (migrate_run c nonce k r) else r)"
  define g2 where "g2 = (\<lambda>r. if backfillable db r then projr (backfill_run e c nonce k db r) else r)"
  note first = migrate_table_map [OF one keys migrate_keys(2) [of c nonce k], folded g1_def]
  have g1: "r_run_id (g1 r) = r_run_id r" if "r \<in> set rs" for r
    using that first migrate_keys(2) [of c nonce k r] by (fastforce simp: g1_def)
  have keys1: "nonempty_keys r_run_id rs1" using first nonempty_keys_map [OF keys g1] by simp
  note second = migrate_table_map [OF two keys1 migrate_keys(3) [of e c nonce k db], folded g2_def]
  have row: "run_migrated e c k db r (g2 (g1 r)) \<and> r_run_id (g2 (g1 r)) = r_run_id r
      \<and> (r_config_yaml (g2 (g1 r)) \<noteq> None \<longrightarrow> migrate_run c nonce k (g2 (g1 r)) = Inr (g2 (g1 r)))
      \<and> (backfillable db (g2 (g1 r)) \<longrightarrow> backfill_run e c nonce k db (g2 (g1 r)) = Inr (g2 (g1 r)))" if r: "r \<in> set rs" for r
  proof (cases "r_config_yaml r")
    case (Some old)
    then obtain r1 where r1: "migrate_run c nonce k r = Inr r1" using first r by blast
    note kept = migrate_run_kept [OF ready r1]
    then have "r_config_yaml r1 \<noteq> None" by (auto simp: Some)
    then have "g2 (g1 r) = r1" "\<not> backfillable db r1" by (auto simp: g1_def g2_def Some r1 backfillable_def)
    with kept Some migrate_keys(2) [OF r1] show ?thesis by (simp add: run_migrated_def)
  next
    case None
    then have g1: "g1 r = r" by (simp add: g1_def)
    then have mem: "r \<in> set rs1" using first r by (metis image_eqI set_map)
    show ?thesis
    proof (cases "backfillable db r")
      case True
      then obtain r2 where r2: "backfill_run e c nonce k db r = Inr r2" using second mem by blast
      note kept = backfill_run_kept [OF ready r2 None]
      have "backfillable db r2 \<Longrightarrow> r2 = r" using kept by (simp add: backfillable_def)
      with kept r2 migrate_keys(3) [OF r2] True show ?thesis by (auto simp: g1 g2_def)
    qed (simp add: g1 g2_def None run_migrated_def)
  qed
  have rs2: "rs2 = map (\<lambda>r. g2 (g1 r)) rs" using first second by simp
  show "list_all2 (run_migrated e c k db) rs rs2" unfolding rs2 using row by (simp add: list_all2_conv_all_nth)
  show keys2: "nonempty_keys r_run_id rs2" unfolding rs2 by (rule nonempty_keys_map [OF keys]) (use row in blast)
  show "migrate_table r_run_id (\<lambda>r. r_config_yaml r \<noteq> None) (migrate_run c nonce k) rs2 = Inr rs2"
    by (rule migrate_table_id [OF keys2]) (use row in \<open>auto simp: rs2\<close>)
  show "migrate_table r_run_id (backfillable db) (backfill_run e c nonce k db) rs2 = Inr rs2"
    by (rule migrate_table_id [OF keys2]) (use row in \<open>auto simp: rs2\<close>)
qed

text \<open>
  Claim C40. Key rotation loses nothing: after a migration that succeeds every configuration, queued snapshot and webhook request reads as
  before, every envelope is under the active key, the configuration hash of each job and of each queued snapshot is the hash of its
  text (that of a run is left as it is), a run without a configuration takes its job's only if the hash proves it to be the one it
  ran, scrubbed deliveries are untouched, and a second migration changes nothing. The cipher opens what it sealed under the active
  key, and the keys of the rows are distinct and not empty.
\<close>

theorem migration_keeps_secrets:
  assumes "cipher_ready c nonce k" and "keyed db" and "migrate_persisted_secrets e c nonce (Some k) db = Inr db'"
  shows "list_all2 (job_migrated e c k) (jobs db) (jobs db')
    \<and> list_all2 (run_migrated e c k db') (job_runs db) (job_runs db')
    \<and> list_all2 (snapshot_migrated e c k) (queued_run_snapshots db) (queued_run_snapshots db')
    \<and> list_all2 (delivery_migrated c k) (webhook_deliveries db) (webhook_deliveries db')
    \<and> migrate_persisted_secrets e c nonce (Some k) db' = Inr db'"
proof -
  obtain js rs1 rs2 qs ds where
    js: "migrate_table j_job_id (\<lambda>_. True) (migrate_job e c nonce k) (jobs db) = Inr js" and
    rs1: "migrate_table r_run_id (\<lambda>r. r_config_yaml r \<noteq> None) (migrate_run c nonce k) (job_runs db) = Inr rs1" and
    rs2: "migrate_table r_run_id (backfillable (db\<lparr>jobs := js, job_runs := rs1\<rparr>)) (backfill_run e c nonce k (db\<lparr>jobs := js, job_runs := rs1\<rparr>)) rs1 = Inr rs2" and
    qs: "migrate_table q_run_id (\<lambda>_. True) (migrate_snapshot e c nonce k) (queued_run_snapshots db) = Inr qs" and
    ds: "migrate_table d_delivery_id (\<lambda>d. d_scrubbed_at d = None) (migrate_delivery c nonce k) (webhook_deliveries db) = Inr ds" and
    db': "db' = db\<lparr>jobs := js, job_runs := rs2, queued_run_snapshots := qs, webhook_deliveries := ds\<rparr>"
    using assms(3) by (auto simp: migrate_persisted_secrets_def Let_def split: sum.splits)
  have keys: "nonempty_keys j_job_id (jobs db)" "nonempty_keys r_run_id (job_runs db)" "nonempty_keys q_run_id (queued_run_snapshots db)"
    "nonempty_keys d_delivery_id (webhook_deliveries db)" using assms(2) by (simp_all add: keyed_def)
  have same_jobs: "backfillable (d\<lparr>jobs := js, job_runs := x\<rparr>) = backfillable db'" "backfill_run e c nonce k (d\<lparr>jobs := js, job_runs := x\<rparr>) = backfill_run e c nonce k db'" for d x
    by (auto simp: fun_eq_iff backfillable_def backfill_run_def find_job_def db')
  note job = migrated_table [OF js keys(1) migrate_keys(1) [of e c nonce k], where Q = "job_migrated e c k"]
  have j: "list_all2 (job_migrated e c k) (jobs db) js" "migrate_table j_job_id (\<lambda>_. True) (migrate_job e c nonce k) js = Inr js"
    by (rule job(1), use migrate_job_kept [OF assms(1)] in simp_all) (rule job(3), use migrate_job_kept [OF assms(1)] in simp_all)
  note snap = migrated_table [OF qs keys(3) migrate_keys(4) [of e c nonce k], where Q = "snapshot_migrated e c k"]
  have q: "list_all2 (snapshot_migrated e c k) (queued_run_snapshots db) qs" "migrate_table q_run_id (\<lambda>_. True) (migrate_snapshot e c nonce k) qs = Inr qs"
    by (rule snap(1), use migrate_snapshot_kept [OF assms(1)] in simp_all) (rule snap(3), use migrate_snapshot_kept [OF assms(1)] in simp_all)
  note del = migrated_table [OF ds keys(4) migrate_keys(5) [of c nonce k], where Q = "delivery_migrated c k"]
  have unscrubbed: "delivery_migrated c k d d' \<Longrightarrow> d_scrubbed_at d' = None \<Longrightarrow> d_scrubbed_at d = None" for d d'
    by (auto simp: delivery_migrated_def split: if_splits)
  have scrubbed: "d_scrubbed_at d \<noteq> None \<Longrightarrow> delivery_migrated c k d d" for d by (simp add: delivery_migrated_def)
  have row: "d_scrubbed_at d = None \<Longrightarrow> migrate_delivery c nonce k d = Inr d' \<Longrightarrow> delivery_migrated c k d d' \<and> migrate_delivery c nonce k d' = Inr d'" for d d'
    using migrate_delivery_kept [OF assms(1)] by blast
  have d: "list_all2 (delivery_migrated c k) (webhook_deliveries db) ds"
    by (rule del(1)) (use row scrubbed in blast)+
  have d2: "migrate_table d_delivery_id (\<lambda>d. d_scrubbed_at d = None) (migrate_delivery c nonce k) ds = Inr ds"
    by (rule del(3)) (use row scrubbed unscrubbed in blast)+
  note r = migrate_runs [OF assms(1) keys(2) rs1 rs2, unfolded same_jobs]
  have "run_migrated e c k (db\<lparr>jobs := js, job_runs := rs1\<rparr>) = run_migrated e c k db'"
  proof (intro ext)
    fix x y
    have f: "find_job (db\<lparr>jobs := js, job_runs := rs1\<rparr>) i = find_job db' i" for i by (simp add: find_job_def db')
    show "run_migrated e c k (db\<lparr>jobs := js, job_runs := rs1\<rparr>) x y = run_migrated e c k db' x y" unfolding run_migrated_def f by (rule refl)
  qed
  with r j q d d2 show ?thesis
    by (simp add: db' migrate_persisted_secrets_def same_jobs [unfolded db'] Let_def)
qed

section \<open>Witnesses\<close>

text \<open>A toy cipher that adds sixteen bytes to the text.\<close>

definition sample_aead :: aead where
  "sample_aead = \<lparr>ae_encrypt = (\<lambda>key n text purpose. text @ replicate 16 (CHR ''t'')),
     ae_decrypt = (\<lambda>key n v purpose. Some (take (length v - 16) v))\<rparr>"

definition sample_nonce :: "string \<Rightarrow> string" where
  "sample_nonce p = replicate 12 (CHR ''n'')"

definition sample_settings :: "string \<Rightarrow> json option" where
  "sample_settings raw = Some (JObj [(''k1'', JStr (b64encode (replicate 32 (CHR ''a'')))), (''k2'', JStr (b64encode (replicate 32 (CHR ''b''))))])"

definition sample_keyring :: keyring where
  "sample_keyring = \<lparr>kr_keys = [(''k1'', replicate 32 (CHR ''a'')), (''k2'', replicate 32 (CHR ''b''))], kr_active = ''k2''\<rparr>"

lemma sample_aead_ok: "aead_ok sample_aead"
  by (simp add: aead_ok_def sample_aead_def)

lemma sample_keyring_settings: "keyring_from_settings sample_settings ''json'' ''k2'' True = Inr (Some sample_keyring)"
  by code_simp

lemma sample_ready: "cipher_ready sample_aead sample_nonce sample_keyring"
  using settings_wf [OF sample_keyring_settings] by (simp add: cipher_ready_def sample_aead_ok sample_nonce_def)

theorem envelope_round_trip_witness:
  "envelope_ok (keyring_env sample_aead sample_nonce sample_keyring sample_env)
     \<and> (\<exists>v. protect sample_aead sample_nonce sample_keyring ''p'' ''secret'' = Inr v \<and> reveal sample_aead sample_keyring ''p'' v = Inr ''secret'')"
proof -
  have "\<forall>p. length (sample_nonce p) = 12" by (simp add: sample_nonce_def)
  from envelope_round_trip [OF sample_keyring_settings sample_aead_ok this, of sample_env "''p''" "''secret''"] show ?thesis by blast
qed

theorem paging_is_full_query_witness:
  "paged_rows (\<lambda>s. s) 2 [''d'', ''a'', ''c'', ''b'', ''e''] [] = [''a'', ''b'', ''c'', ''d'', ''e'']"
proof -
  have "sql_order (\<lambda>s. s) (filter (\<lambda>s. s > []) [''d'', ''a'', ''c'', ''b'', ''e'']) = [''a'', ''b'', ''c'', ''d'', ''e'']" by code_simp
  with paging_is_full_query [of "\<lambda>s. s" "[''d'', ''a'', ''c'', ''b'', ''e'']" 2 "[]"] show ?thesis by simp
qed

text \<open>A job stored as legacy text and one under the old key.\<close>

definition sample_legacy :: jobs_db where
  "sample_legacy = (let old = (case protect sample_aead sample_nonce (sample_keyring\<lparr>kr_active := ''k1''\<rparr>) (jobs_purpose ''j2'') ''y2'' of Inr v \<Rightarrow> v | Inl _ \<Rightarrow> []);
      row = (\<lambda>i v. new_job_row sample_env (sample_job i None) None\<lparr>j_config_yaml := v\<rparr>) in
      empty_db\<lparr>jobs := [row ''j2'' old, row ''j1'' ''y1'']\<rparr>)"

definition sample_migrated :: jobs_db where
  "sample_migrated = (case migrate_persisted_secrets sample_env sample_aead sample_nonce (Some sample_keyring) sample_legacy of
     Inr db \<Rightarrow> db | Inl _ \<Rightarrow> empty_db)"

lemma sample_migration: "migrate_persisted_secrets sample_env sample_aead sample_nonce (Some sample_keyring) sample_legacy = Inr sample_migrated"
proof -
  have "(case migrate_persisted_secrets sample_env sample_aead sample_nonce (Some sample_keyring) sample_legacy of Inr db \<Rightarrow> True | Inl _ \<Rightarrow> False)"
    by code_simp
  then show ?thesis by (simp add: sample_migrated_def split: sum.splits)
qed

theorem migration_keeps_secrets_witness:
  "length (jobs sample_migrated) = 2
     \<and> list_all2 (job_migrated sample_env sample_aead sample_keyring) (jobs sample_legacy) (jobs sample_migrated)
     \<and> migrate_persisted_secrets sample_env sample_aead sample_nonce (Some sample_keyring) sample_migrated = Inr sample_migrated"
proof -
  have "map j_job_id (jobs sample_legacy) = [''j2'', ''j1'']" "job_runs sample_legacy = []" "queued_run_snapshots sample_legacy = []"
    "webhook_deliveries sample_legacy = []" by code_simp+
  then have "keyed sample_legacy" by (auto simp: keyed_def nonempty_keys_def)
  from migration_keeps_secrets [OF sample_ready this sample_migration] show ?thesis
    using list_all2_lengthD by (force simp: sample_legacy_def Let_def)
qed

end
