(* ===== verification/Webhook_Payload.thy ===== *)
theory Webhook_Payload
  imports Job_Terminal Sample
begin

text \<open>
  Construction of terminal webhooks, \<^verbatim>\<open>webhook/payload.py\<close>: when a webhook fires, its deterministic delivery id,
  its payload and its outbox row. \<open>sha\<close> is SHA-256 as hexadecimal text; \<open>redact\<close> is \<^verbatim>\<open>redact_sensitive_mapping\<close>
  with the secrets of the job, and \<open>isoformat\<close> is \<^verbatim>\<open>datetime.isoformat\<close>.
\<close>

record webhook_config =
  wc_url :: string
  wc_on :: "job_status list"
  wc_headers :: "(string \<times> string) list"
  wc_timeout :: seconds

record scrape_config =
  sc_project :: string
  sc_name :: string
  sc_webhook :: "webhook_config option"

definition should_fire :: "webhook_config \<Rightarrow> job_status \<Rightarrow> bool" where
  "should_fire c s = list_ex (\<lambda>x. status_value x = status_value s) (wc_on c)"

section \<open>Delivery ids\<close>

primrec to_bytes :: "nat \<Rightarrow> nat \<Rightarrow> string" where
  "to_bytes 0 n = []"
| "to_bytes (Suc w) n = to_bytes w (n div 256) @ [char_of n]"

definition framed :: "string \<Rightarrow> string" where
  "framed s = to_bytes 8 (length s) @ s"

definition delivery_preimage :: "string \<Rightarrow> string option \<Rightarrow> string \<Rightarrow> string" where
  "delivery_preimage jid rid event = ''scrapeyard:webhook-delivery:v1'' @ framed jid @ framed (or_else rid []) @ framed event"

definition deterministic_delivery_id :: "(string \<Rightarrow> string) \<Rightarrow> string \<Rightarrow> string option \<Rightarrow> string \<Rightarrow> string" where
  "deterministic_delivery_id sha jid rid event = ''whv1_'' @ sha (delivery_preimage jid rid event)"

section \<open>Payload\<close>

definition opt_json :: "('a \<Rightarrow> json) \<Rightarrow> 'a option \<Rightarrow> json" where
  "opt_json f x = (case x of None \<Rightarrow> JNull | Some y \<Rightarrow> f y)"

definition build_webhook_payload ::
    "(string \<Rightarrow> string) \<Rightarrow> string \<Rightarrow> string \<Rightarrow> string \<Rightarrow> job_status \<Rightarrow> string option \<Rightarrow> string option \<Rightarrow> int option \<Rightarrow> int
     \<Rightarrow> string \<Rightarrow> string \<Rightarrow> string option \<Rightarrow> (string \<times> json) list" where
  "build_webhook_payload sha jid proj nm s rid result_path result_count error_count started completed config_hash =
     (let event = terminal_event s in
      [(''delivery_id'', JStr (deterministic_delivery_id sha jid rid event)), (''event'', JStr event), (''job_id'', JStr jid),
       (''project'', JStr proj), (''name'', JStr nm), (''status'', JStr (status_value s)),
       (''run_id'', opt_json JStr rid), (''result_path'', opt_json JStr result_path),
       (''results_url'', case rid of None \<Rightarrow> JNull | Some [] \<Rightarrow> JNull
          | Some r \<Rightarrow> JStr (''/results/'' @ jid @ ''?run_id='' @ r @ ''&latest=false'')),
       (''result_count'', opt_json JInt result_count), (''error_count'', JInt error_count),
       (''started_at'', JStr started), (''completed_at'', JStr completed)]
      @ (case config_hash of None \<Rightarrow> [] | Some x \<Rightarrow> [(''config_hash'', JStr x)]))"

text \<open>\<^verbatim>\<open>str(payload.get(key) or "")\<close>, for the keys that hold text.\<close>

definition payload_text :: "(string \<times> json) list \<Rightarrow> string \<Rightarrow> string" where
  "payload_text p k = (case map_of p k of Some (JStr x) \<Rightarrow> x | _ \<Rightarrow> [])"

definition set_key :: "string \<Rightarrow> json \<Rightarrow> (string \<times> json) list \<Rightarrow> (string \<times> json) list" where
  "set_key k v p = (if map_of p k = None then p @ [(k, v)] else map (\<lambda>(x, y). if x = k then (x, v) else (x, y)) p)"

definition webhook_delivery_from_payload ::
    "(string \<Rightarrow> string) \<Rightarrow> webhook_config \<Rightarrow> (string \<times> json) list \<Rightarrow> instant \<Rightarrow> delivery_create" where
  "webhook_delivery_from_payload sha c p next_attempt_at =
     (let jid = payload_text p ''job_id'';
          rid = (case map_of p ''run_id'' of Some (JStr r) \<Rightarrow> Some r | _ \<Rightarrow> None);
          event = (if payload_text p ''event'' = [] then ''webhook'' else payload_text p ''event'');
          did = (if payload_text p ''delivery_id'' = [] then deterministic_delivery_id sha jid rid event else payload_text p ''delivery_id'')
      in \<lparr>w_delivery_id = did, w_job_id = jid, w_run_id = rid, w_event = event, w_url = wc_url c, w_headers = wc_headers c,
          w_timeout_seconds = wc_timeout c, w_payload = set_key ''delivery_id'' (JStr did) p, w_next_attempt_at = next_attempt_at\<rparr>)"

definition build_terminal_webhook_delivery ::
    "(string \<Rightarrow> string) \<Rightarrow> ((string \<times> json) list \<Rightarrow> (string \<times> json) list) \<Rightarrow> (instant \<Rightarrow> string) \<Rightarrow> scrape_config \<Rightarrow> string \<Rightarrow> job_status
     \<Rightarrow> string \<Rightarrow> string option \<Rightarrow> int option \<Rightarrow> int \<Rightarrow> instant \<Rightarrow> instant \<Rightarrow> string option \<Rightarrow> delivery_create option" where
  "build_terminal_webhook_delivery sha redact isoformat cfg jid s rid result_path result_count error_count started completed config_hash =
     (case sc_webhook cfg of
        None \<Rightarrow> None
      | Some c \<Rightarrow> if \<not> should_fire c s then None
          else Some (webhook_delivery_from_payload sha c
            (redact (build_webhook_payload sha jid (sc_project cfg) (sc_name cfg) s (Some rid) result_path result_count error_count
               (isoformat started) (isoformat completed) config_hash)) completed))"

section \<open>Properties\<close>

lemma length_to_bytes [simp]: "length (to_bytes w n) = w"
  by (induction w arbitrary: n) simp_all

lemma to_bytes_eq: "m < 256 ^ w \<Longrightarrow> n < 256 ^ w \<Longrightarrow> to_bytes w m = to_bytes w n \<longleftrightarrow> m = n"
proof (induction w arbitrary: m n)
  case (Suc w)
  have "m div 256 < 256 ^ w" "n div 256 < 256 ^ w" using Suc.prems by (simp_all add: div_less_iff_less_mult mult.commute)
  with Suc.IH show ?case by (auto simp: char_of_eq_iff take_bit_eq_mod) (metis div_mult_mod_eq)
qed simp

lemma framed_eq:
  assumes "length a < 2 ^ 64" and "length b < 2 ^ 64"
  shows "framed a @ x = framed b @ y \<longleftrightarrow> a = b \<and> x = y"
proof -
  have "to_bytes 8 (length a) = to_bytes 8 (length b) \<longleftrightarrow> length a = length b"
    by (rule to_bytes_eq) (use assms in simp_all)
  then show ?thesis by (auto simp: framed_def)
qed

text \<open>
  Delivery ids are unambiguous: different runs or events never hash the same text, whatever characters their ids
  contain, so two deliveries share an id only if SHA-256 collides.
\<close>

theorem delivery_id_unambiguous:
  assumes "\<forall>s \<in> {jid, or_else rid [], event, jid', or_else rid' [], event'}. length s < 2 ^ 64"
    and "deterministic_delivery_id sha jid rid event = deterministic_delivery_id sha jid' rid' event'"
    and "sha (delivery_preimage jid rid event) = sha (delivery_preimage jid' rid' event') \<longrightarrow> delivery_preimage jid rid event = delivery_preimage jid' rid' event'"
  shows "jid = jid' \<and> or_else rid [] = or_else rid' [] \<and> event = event'"
proof -
  have "delivery_preimage jid rid event = delivery_preimage jid' rid' event'"
    using assms(2,3) by (simp add: deterministic_delivery_id_def)
  moreover have "framed event = framed event' \<longleftrightarrow> event = event'"
    using framed_eq [of event event' "[]" "[]"] assms(1) by simp
  ultimately show ?thesis using assms(1) by (simp add: delivery_preimage_def framed_eq)
qed

text \<open>The redaction of a payload leaves the fields that identify the run.\<close>

definition keeps_identity :: "((string \<times> json) list \<Rightarrow> (string \<times> json) list) \<Rightarrow> bool" where
  "keeps_identity redact \<longleftrightarrow> (\<forall>p k. k \<in> {''delivery_id'', ''event'', ''job_id'', ''status'', ''run_id''} \<longrightarrow> map_of (redact p) k = map_of p k)"

lemma map_of_set_key: "map_of (set_key k v p) x = (if x = k then Some v else map_of p x)"
proof (cases "map_of p k")
  case None
  then show ?thesis by (auto simp: set_key_def map_add_def split: option.splits)
next
  case (Some y)
  have "map_of p k \<noteq> None \<longrightarrow> map_of (map (\<lambda>(x, y). if x = k then (x, v) else (x, y)) p) k = Some v"
    by (induction p) auto
  moreover have "x \<noteq> k \<longrightarrow> map_of (map (\<lambda>(x, y). if x = k then (x, v) else (x, y)) p) x = map_of p x"
    by (induction p) auto
  ultimately have "map_of (map (\<lambda>(x, y). if x = k then (x, v) else (x, y)) p) x = (if x = k then Some v else map_of p x)"
    using Some by auto
  with Some show ?thesis by (simp add: set_key_def)
qed

lemma built_delivery_accepted:
  assumes "keeps_identity redact"
    and "build_terminal_webhook_delivery sha redact isoformat cfg jid s rid path n errs started completed hash = Some w"
  shows "validate_terminal_delivery w jid rid s = Inr ()" and "map_of (w_payload w) ''delivery_id'' = Some (JStr (w_delivery_id w))"
    and "w_delivery_id w = deterministic_delivery_id sha jid (Some rid) (terminal_event s)"
proof -
  obtain c p where p: "p = build_webhook_payload sha jid (sc_project cfg) (sc_name cfg) s (Some rid) path n errs (isoformat started) (isoformat completed) hash"
      "w = webhook_delivery_from_payload sha c (redact p) completed"
    using assms(2) by (auto simp: build_terminal_webhook_delivery_def split: option.splits if_splits)
  have get: "map_of (redact p) k = map_of p k" if "k \<in> {''delivery_id'', ''event'', ''job_id'', ''status'', ''run_id''}" for k
    using assms(1) that unfolding keeps_identity_def by blast
  have fields: "map_of (redact p) ''delivery_id'' = Some (JStr (deterministic_delivery_id sha jid (Some rid) (terminal_event s)))"
    "map_of (redact p) ''event'' = Some (JStr (terminal_event s))" "map_of (redact p) ''job_id'' = Some (JStr jid)"
    "map_of (redact p) ''status'' = Some (JStr (status_value s))" "map_of (redact p) ''run_id'' = Some (JStr rid)"
    by (subst get; simp add: p(1) build_webhook_payload_def Let_def opt_json_def)+
  show "validate_terminal_delivery w jid rid s = Inr ()" "map_of (w_payload w) ''delivery_id'' = Some (JStr (w_delivery_id w))"
    "w_delivery_id w = deterministic_delivery_id sha jid (Some rid) (terminal_event s)"
    by (simp_all add: p(2) webhook_delivery_from_payload_def Let_def payload_text_def fields map_of_set_key validate_terminal_delivery_def
        terminal_event_def deterministic_delivery_id_def)
qed

theorem delivery_id_unambiguous_witness:
  "deterministic_delivery_id (\<lambda>x. x) ''ab'' (Some ''c'') ''e'' \<noteq> deterministic_delivery_id (\<lambda>x. x) ''a'' (Some ''bc'') ''e''"
  using delivery_id_unambiguous [of "''ab''" "Some ''c''" "''e''" "''a''" "Some ''bc''" "''e''" "\<lambda>x. x"] by (auto simp: or_else_def)

end
