(* ===== verification/Statements.thy ===== *)
theory Statements
  imports Prelude
begin

text \<open>
  Imperative code with exceptions. A statement is a function from the state to a raised exception or a value, and the new state:
  \<open>m_then\<close> is sequencing, \<open>m_try\<close> an \<^verbatim>\<open>except\<close> clause, and an exception keeps the changes made before it. A triple has one
  postcondition for results and one for exceptions.
\<close>

section \<open>Statements\<close>

type_synonym ('w, 'e, 'a) statement = "'w \<Rightarrow> ('e + 'a) \<times> 'w"

definition m_ret :: "'a \<Rightarrow> ('w, 'e, 'a) statement" where
  "m_ret x w = (Inr x, w)"

definition m_raise :: "'e \<Rightarrow> ('w, 'e, 'a) statement" where
  "m_raise e w = (Inl e, w)"

definition m_then :: "('w, 'e, 'a) statement \<Rightarrow> ('a \<Rightarrow> ('w, 'e, 'b) statement) \<Rightarrow> ('w, 'e, 'b) statement" where
  "m_then m k w = (case m w of (Inl e, w') \<Rightarrow> (Inl e, w') | (Inr x, w') \<Rightarrow> k x w')"

definition m_try :: "('w, 'e, 'a) statement \<Rightarrow> ('e \<Rightarrow> ('w, 'e, 'a) statement) \<Rightarrow> ('w, 'e, 'a) statement" where
  "m_try m h w = (case m w of (Inl e, w') \<Rightarrow> h e w' | (Inr x, w') \<Rightarrow> (Inr x, w'))"

definition m_set :: "('w \<Rightarrow> 'w) \<Rightarrow> ('w, 'e, unit) statement" where
  "m_set f w = (Inr (), f w)"

definition m_get :: "('w \<Rightarrow> 'a) \<Rightarrow> ('w, 'e, 'a) statement" where
  "m_get f w = (Inr (f w), w)"

section \<open>Triples\<close>

definition triple :: "('w \<Rightarrow> bool) \<Rightarrow> ('w, 'e, 'a) statement \<Rightarrow> ('a \<Rightarrow> 'w \<Rightarrow> bool) \<Rightarrow> ('e \<Rightarrow> 'w \<Rightarrow> bool) \<Rightarrow> bool" where
  "triple P m Q E \<longleftrightarrow> (\<forall>w. P w \<longrightarrow> (case m w of (Inr x, w') \<Rightarrow> Q x w' | (Inl e, w') \<Rightarrow> E e w'))"

lemma tripleI: "(\<And>w. P w \<Longrightarrow> case m w of (Inr x, w') \<Rightarrow> Q x w' | (Inl e, w') \<Rightarrow> E e w') \<Longrightarrow> triple P m Q E"
  by (simp add: triple_def)

lemma t_weaken:
  assumes "triple P m Q E" and "\<And>w. P' w \<Longrightarrow> P w" and "\<And>x w. Q x w \<Longrightarrow> Q' x w" and "\<And>e w. E e w \<Longrightarrow> E' e w"
  shows "triple P' m Q' E'"
  using assms unfolding triple_def by (fastforce split: prod.splits sum.splits)

lemma t_ret: "(\<And>w. P w \<Longrightarrow> Q x w) \<Longrightarrow> triple P (m_ret x) Q E"
  by (simp add: triple_def m_ret_def)

lemma t_raise: "(\<And>w. P w \<Longrightarrow> E e w) \<Longrightarrow> triple P (m_raise e) Q E"
  by (simp add: triple_def m_raise_def)

lemma t_set: "(\<And>w. P w \<Longrightarrow> Q () (f w)) \<Longrightarrow> triple P (m_set f) Q E"
  by (simp add: triple_def m_set_def)

lemma t_get: "(\<And>w. P w \<Longrightarrow> Q (f w) w) \<Longrightarrow> triple P (m_get f) Q E"
  by (simp add: triple_def m_get_def)

lemma t_then: "triple P m R E \<Longrightarrow> (\<And>x. triple (R x) (k x) Q E) \<Longrightarrow> triple P (m_then m k) Q E"
  unfolding triple_def m_then_def by (fastforce split: prod.splits sum.splits)

lemma t_try: "triple P m Q R \<Longrightarrow> (\<And>e. triple (R e) (h e) Q E) \<Longrightarrow> triple P (m_try m h) Q E"
  unfolding triple_def m_try_def by (fastforce split: prod.splits sum.splits)

lemma t_if: "(b \<Longrightarrow> triple P m Q E) \<Longrightarrow> (\<not> b \<Longrightarrow> triple P n Q E) \<Longrightarrow> triple P (if b then m else n) Q E"
  by simp

lemma t_pre: "(\<And>w. P w \<Longrightarrow> A) \<Longrightarrow> (A \<Longrightarrow> triple P m Q E) \<Longrightarrow> triple P m Q E"
  by (cases "\<exists>w. P w") (auto simp: triple_def)

lemma t_false: "(\<And>w. \<not> P w) \<Longrightarrow> triple P m Q E"
  by (simp add: triple_def)

lemma t_conj:
  assumes "triple P m Q E" and "triple P' m Q' E'"
  shows "triple (\<lambda>w. P w \<and> P' w) m (\<lambda>x w. Q x w \<and> Q' x w) (\<lambda>e w. E e w \<and> E' e w)"
  using assms unfolding triple_def by (fastforce split: prod.splits sum.splits)

lemma t_run: "triple P m Q E \<Longrightarrow> P w \<Longrightarrow> m w = (r, w') \<Longrightarrow> (case r of Inr x \<Rightarrow> Q x w' | Inl e \<Rightarrow> E e w')"
  unfolding triple_def by (fastforce split: sum.splits)

end
