(* ===== verification/Python_Text.thy ===== *)
theory Python_Text
  imports Resilience Webhook_Outbox
begin

text \<open>
  The operations of Python's \<^verbatim>\<open>str\<close> that the sources use, on texts of code points below 256: case folding, stripping,
  splitting and the classification of characters.
\<close>

definition lower_char :: "char \<Rightarrow> char" where
  "lower_char c = (let n = of_char c :: nat in
     if 65 \<le> n \<and> n \<le> 90 \<or> 192 \<le> n \<and> n \<le> 222 \<and> n \<noteq> 215 then char_of (n + 32) else c)"

definition lower :: "string \<Rightarrow> string" where
  "lower = map lower_char"

definition is_digit_char :: "char \<Rightarrow> bool" where
  "is_digit_char c \<longleftrightarrow> (let n = of_char c :: nat in 48 \<le> n \<and> n \<le> 57)"

definition is_lower_letter :: "char \<Rightarrow> bool" where
  "is_lower_letter c \<longleftrightarrow> (let n = of_char c :: nat in 97 \<le> n \<and> n \<le> 122)"

definition is_upper_letter :: "char \<Rightarrow> bool" where
  "is_upper_letter c \<longleftrightarrow> (let n = of_char c :: nat in 65 \<le> n \<and> n \<le> 90)"

definition is_letter :: "char \<Rightarrow> bool" where
  "is_letter c \<longleftrightarrow> is_lower_letter c \<or> is_upper_letter c"

text \<open>\<^verbatim>\<open>\w\<close> of \<^verbatim>\<open>re\<close>: letters, digits, the underscore, and the alphanumerics of Latin-1.\<close>

definition is_word_char :: "char \<Rightarrow> bool" where
  "is_word_char c \<longleftrightarrow> is_letter c \<or> is_digit_char c \<or> c = CHR ''_''
     \<or> (let n = of_char c :: nat in n \<in> {170, 178, 179, 181, 185, 186, 188, 189, 190} \<or> 192 \<le> n \<and> n \<noteq> 215 \<and> n \<noteq> 247)"

definition strip :: "string \<Rightarrow> string" where
  "strip s = rev (dropWhile is_blank_char (rev (dropWhile is_blank_char s)))"

definition starts_with :: "string \<Rightarrow> string \<Rightarrow> bool" where
  "starts_with p s \<longleftrightarrow> take (length p) s = p"

definition or_empty :: "string option \<Rightarrow> string" where
  "or_empty x = (case x of None \<Rightarrow> [] | Some s \<Rightarrow> s)"

fun join :: "string \<Rightarrow> string list \<Rightarrow> string" where
  "join sep [] = []"
| "join sep [x] = x"
| "join sep (x # xs) = x @ sep @ join sep xs"

lemma strip_blank: "strip s = [] \<longleftrightarrow> \<not> has_text s"
proof -
  have "strip s = [] \<longleftrightarrow> (\<forall>c \<in> set (dropWhile is_blank_char s). is_blank_char c)"
    by (simp add: strip_def dropWhile_eq_Nil_conv)
  also have "\<dots> \<longleftrightarrow> dropWhile is_blank_char s = []"
  proof (cases "dropWhile is_blank_char s")
    case (Cons c cs)
    then have "\<not> is_blank_char c" using hd_dropWhile [of is_blank_char s] by (metis list.distinct(1) list.sel(1))
    then show ?thesis unfolding Cons by auto
  qed (simp only: list.set ball_empty simp_thms)
  finally show ?thesis by (auto simp: has_text_def list_ex_iff dropWhile_eq_Nil_conv)
qed

lemma lower_idem: "lower (lower s) = lower s"
proof -
  have "lower_char (lower_char c) = lower_char c" for c
    by (auto simp: lower_char_def Let_def)
  then show ?thesis by (simp add: lower_def)
qed

end
