(* ===== verification/Fetch_Classifier.thy ===== *)
theory Fetch_Classifier
  imports Python_Text
begin

text \<open>
  \<^verbatim>\<open>engine/fetch_classifier.py\<close> with the result model of \<^verbatim>\<open>engine/scrape_models.py\<close>: which error type a failed fetch
  or a rendered page is reported as.

  The debug dictionary of a page is a record of the keys that the classifiers read; an absent key is \<open>None\<close> or empty. An
  exception is its class as far as the classifier tells classes apart, its name, its text and its debug dictionary.
\<close>

section \<open>Results of a target\<close>

datatype target_status = Target_success | Target_failed

datatype debug_entry = Entry_fields "string option list" | Entry_text string

record page_debug =
  dbg_page_title :: "string option"
  dbg_html_excerpt :: "string option"
  dbg_console_messages :: "debug_entry list"
  dbg_request_failures :: "debug_entry list"
  dbg_selector_counts :: "(string \<times> int) list"
  dbg_item_selector_count :: "int option"
  dbg_classification :: "string option"

type_synonym data_row = "(string \<times> json) list"

datatype stop_reason = Stop_unknown | Not_configured | Exhausted | Max_pages | Repeated_url | Repeated_page | Unsafe_next_url
  | Invalid_next_link | Stop_domain_guard | Stop_cache_miss

record target_result =
  tr_url :: string
  tr_status :: target_status
  tr_data :: "data_row list"
  tr_errors :: "string list"
  tr_pages_scraped :: int
  tr_error_type :: "error_type option"
  tr_http_status :: "int option"
  tr_error_detail :: "string option"
  tr_debug :: "page_debug option"
  tr_stop_reason :: stop_reason
  tr_recorded_at :: "string option"

text \<open>\<^verbatim>\<open>TargetResult(url=...)\<close> with every default.\<close>

definition new_result :: "string \<Rightarrow> target_status \<Rightarrow> string list \<Rightarrow> target_result" where
  "new_result url s errors = \<lparr>tr_url = url, tr_status = s, tr_data = [], tr_errors = errors, tr_pages_scraped = 0, tr_error_type = None,
     tr_http_status = None, tr_error_detail = None, tr_debug = None, tr_stop_reason = Stop_unknown, tr_recorded_at = None\<rparr>"

definition is_success :: "target_result \<Rightarrow> bool" where
  "is_success r \<longleftrightarrow> tr_status r = Target_success"

definition self_imposed_error_types :: "error_type list" where
  "self_imposed_error_types = [Cache_miss, Domain_daily_limit, Domain_cooldown]"

definition access_denial_types :: "error_type list" where
  "access_denial_types = [Blocked_response, Challenge_page, Consent_gate, Login_gate]"

fun error_type_value :: "error_type \<Rightarrow> string" where
  "error_type_value Content_empty = ''content_empty''"
| "error_type_value Blocked_response = ''blocked_response''"
| "error_type_value Challenge_page = ''challenge_page''"
| "error_type_value Consent_gate = ''consent_gate''"
| "error_type_value Login_gate = ''login_gate''"
| "error_type_value Rendered_empty = ''rendered_empty''"
| "error_type_value Selector_miss = ''selector_miss''"
| "error_type_value Selector_engine_error = ''selector_engine_error''"
| "error_type_value Navigation_timeout = ''navigation_timeout''"
| "error_type_value Proxy_rejected = ''proxy_rejected''"
| "error_type_value Http_not_found = ''http_not_found''"
| "error_type_value Http_error = ''http_error''"
| "error_type_value Network_error = ''network_error''"
| "error_type_value Browser_error = ''browser_error''"
| "error_type_value error_type.Timeout = ''timeout''"
| "error_type_value error_type.Budget_exceeded = ''budget_exceeded''"
| "error_type_value Cache_miss = ''cache_miss''"
| "error_type_value Domain_daily_limit = ''domain_daily_limit''"
| "error_type_value Domain_cooldown = ''domain_cooldown''"

definition all_error_types :: "error_type list" where
  "all_error_types = [Content_empty, Blocked_response, Challenge_page, Consent_gate, Login_gate, Rendered_empty, Selector_miss,
     Selector_engine_error, Navigation_timeout, Proxy_rejected, Http_not_found, Http_error, Network_error, Browser_error,
     error_type.Timeout, error_type.Budget_exceeded, Cache_miss, Domain_daily_limit, Domain_cooldown]"

text \<open>\<^verbatim>\<open>ErrorType(value)\<close>: \<open>None\<close> is the \<^verbatim>\<open>ValueError\<close>.\<close>

definition error_type_of :: "string \<Rightarrow> error_type option" where
  "error_type_of v = List.find (\<lambda>t. error_type_value t = v) all_error_types"

section \<open>Markers\<close>

definition challenge_markers :: "string list" where
  "challenge_markers = [''captcha'', ''cf-challenge'', ''challenge page'', ''verify you are human'', ''press and hold'',
     ''security check'', ''bot verification'', ''powered and protected by akamai'', ''akam-sw.js'', ''service worker bootstrap'',
     ''sec-if-cpt-container'', ''akamai'']"

definition consent_markers :: "string list" where
  "consent_markers = [''cookie consent'', ''consent'', ''privacy settings'', ''accept cookies'', ''your privacy choices'']"

definition login_markers :: "string list" where
  "login_markers = [''sign in'', ''log in'', ''my account'', ''login required'']"

definition block_markers :: "string list" where
  "block_markers = [''access denied'', ''access blocked'', ''temporarily blocked'', ''request blocked'', ''forbidden'']"

definition proxy_markers :: "string list" where
  "proxy_markers = [''proxy'', ''tunnel'', ''authentication required'', ''econnrefused'', ''connection refused'']"

definition browser_error_markers :: "string list" where
  "browser_error_markers = [''playwright'', ''browser'', ''page.goto'', ''target page'', ''executable'', ''chromium'', ''webkit'', ''firefox'']"

definition network_error_markers :: "string list" where
  "network_error_markers = [''connection'', ''dns'', ''tls'', ''ssl'', ''certificate'', ''network'', ''socket'']"

definition token_match :: "string \<Rightarrow> string list \<Rightarrow> bool" where
  "token_match txt tokens = list_ex (\<lambda>tok. str_contains tok txt) tokens"

section \<open>Page signals\<close>

definition entry_parts :: "debug_entry \<Rightarrow> string list" where
  "entry_parts e = (case e of Entry_fields fs \<Rightarrow> map or_empty fs | Entry_text s \<Rightarrow> [s])"

definition debug_signal_blob :: "page_debug \<Rightarrow> string" where
  "debug_signal_blob d = (let parts = [or_empty (dbg_page_title d), or_empty (dbg_html_excerpt d)]
       @ concat (map entry_parts (dbg_console_messages d)) @ concat (map entry_parts (dbg_request_failures d))
     in join [CHR 0x0A] (map lower (filter (\<lambda>s. s \<noteq> []) parts)))"

definition classify_page_signals :: "page_debug \<Rightarrow> error_type option" where
  "classify_page_signals d = (let blob = debug_signal_blob d in
     if blob = [] then None
     else if token_match blob challenge_markers then Some Challenge_page
     else if token_match blob consent_markers then Some Consent_gate
     else if token_match blob login_markers then Some Login_gate
     else if token_match blob block_markers then Some Blocked_response
     else None)"

definition any_selector_matched :: "page_debug \<Rightarrow> bool" where
  "any_selector_matched d = list_ex (\<lambda>(_, n). n > 0) (dbg_selector_counts d)"

definition page_shows_expected_content :: "page_debug \<Rightarrow> bool" where
  "page_shows_expected_content d = (if dbg_item_selector_count d = Some 0 then False else any_selector_matched d)"

fun has_extracted_value :: "json \<Rightarrow> bool" where
  "has_extracted_value JNull = False"
| "has_extracted_value (JStr s) = (strip s \<noteq> [])"
| "has_extracted_value (JList xs) = list_ex has_extracted_value xs"
| "has_extracted_value _ = True"

definition classify_rendered_outcome :: "page_debug \<Rightarrow> data_row list \<Rightarrow> bool \<Rightarrow> error_type option" where
  "classify_rendered_outcome d data has_item_selector =
     (let signal = classify_page_signals d in
      if signal \<noteq> None \<and> \<not> page_shows_expected_content d then signal
      else if has_item_selector then
        (case dbg_item_selector_count d of
           None \<Rightarrow> None
         | Some n \<Rightarrow> if n = 0 then Some Rendered_empty else if \<not> any_selector_matched d then Some Selector_miss else None)
      else if dbg_selector_counts d \<noteq> [] \<and> \<not> any_selector_matched d then Some Rendered_empty
      else if list_ex (\<lambda>row. list_ex (\<lambda>(_, v). has_extracted_value v) row) data then None
      else if dbg_selector_counts d \<noteq> [] \<and> any_selector_matched d then Some Selector_miss
      else Some Rendered_empty)"

section \<open>Exceptions\<close>

datatype fetcher_type = Basic | Stealthy | Dynamic

datatype exception_class = Scrape_stop error_type | Retryable_error int | Fetch_error int | Transform_limit | Timeout_class | Connection_or_OS | Other_class

record fetch_exception =
  ex_class :: exception_class
  ex_name :: string
  ex_text :: string
  ex_debug :: "page_debug option"

definition scheme_char :: "char \<Rightarrow> bool" where
  "scheme_char c \<longleftrightarrow> is_lower_letter c \<or> is_digit_char c \<or> c \<in> {CHR ''+'', CHR ''.'', CHR ''-''}"

text \<open>The text after a match of \<^verbatim>\<open>[a-z][a-z0-9+.-]*://\S+\<close> at the beginning.\<close>

definition url_rest :: "string \<Rightarrow> string option" where
  "url_rest s = (case s of [] \<Rightarrow> None | c # cs \<Rightarrow>
     if \<not> is_lower_letter c then None
     else let rest = dropWhile scheme_char cs in
       if starts_with ''://'' rest \<and> takeWhile (\<lambda>x. \<not> is_blank_char x) (drop 3 rest) \<noteq> []
       then Some (dropWhile (\<lambda>x. \<not> is_blank_char x) (drop 3 rest)) else None)"

lemma url_rest_shorter: "url_rest s = Some r \<Longrightarrow> length r < length s"
  by (auto simp: url_rest_def Let_def split: list.splits if_splits
      intro!: le_imp_less_Suc le_trans [OF length_dropWhile_le] diff_le_self le_trans [OF diff_le_self])

text \<open>\<^verbatim>\<open>_URL.sub("", text)\<close>: the first argument says whether the character before is a word character.\<close>

function drop_urls :: "bool \<Rightarrow> string \<Rightarrow> string" where
  "drop_urls after_word [] = []"
| "drop_urls after_word (c # cs) = (if after_word then c # drop_urls (is_word_char c) cs
     else case url_rest (c # cs) of
       Some rest \<Rightarrow> drop_urls False rest
     | None \<Rightarrow> c # drop_urls (is_word_char c) cs)"
  by pat_completeness auto
termination
  by (relation "measure (\<lambda>(_, s). length s)") (auto dest: url_rest_shorter)

definition classify_status_error :: "int \<Rightarrow> error_type \<Rightarrow> error_type \<times> int option" where
  "classify_status_error n denied = (if n = 404 then (Http_not_found, Some n)
     else if n \<in> {401, 403, 429} then (denied, Some n) else (Http_error, Some n))"

definition signal_in :: "error_type list \<Rightarrow> page_debug option \<Rightarrow> error_type option" where
  "signal_in types dbg = (case dbg of None \<Rightarrow> None | Some d \<Rightarrow> (case classify_page_signals d of
       Some t \<Rightarrow> if t \<in> set types then Some t else None | None \<Rightarrow> None))"

definition classify_by_text :: "fetch_exception \<Rightarrow> fetcher_type \<Rightarrow> error_type" where
  "classify_by_text x f = (let detail = drop_urls False (lower (ex_name x @ '': '' @ ex_text x)) in
     if token_match detail proxy_markers then Proxy_rejected
     else if f \<noteq> Basic \<and> token_match detail browser_error_markers then Browser_error
     else if ex_class x = Connection_or_OS \<or> token_match detail network_error_markers then Network_error
     else Http_error)"

definition classify_fetch_exception :: "fetch_exception \<Rightarrow> fetcher_type \<Rightarrow> error_type \<times> int option \<times> page_debug option" where
  "classify_fetch_exception x f = (case ex_class x of
       Scrape_stop t \<Rightarrow> (t, None, ex_debug x)
     | Retryable_error n \<Rightarrow>
         (let (t, s) = classify_status_error n (case signal_in [Challenge_page] (ex_debug x) of Some t \<Rightarrow> t | None \<Rightarrow> Blocked_response)
          in (t, s, ex_debug x))
     | Fetch_error n \<Rightarrow>
         (case (if n = 0 \<or> n < 400 then signal_in access_denial_types (ex_debug x) else None) of
            Some t \<Rightarrow> (t, Some n, ex_debug x)
          | None \<Rightarrow> let (t, s) = classify_status_error n
                (case signal_in [Challenge_page, Consent_gate, Login_gate] (ex_debug x) of Some t \<Rightarrow> t | None \<Rightarrow> Blocked_response)
              in (t, s, ex_debug x))
     | Transform_limit \<Rightarrow> (Selector_engine_error, None, ex_debug x)
     | Timeout_class \<Rightarrow> (if f \<noteq> Basic then Navigation_timeout else error_type.Timeout, None, ex_debug x)
     | _ \<Rightarrow> (classify_by_text x f, None, ex_debug x))"

lemma error_type_of_value: "error_type_of (error_type_value t) = Some t"
  by (cases t) (simp_all add: error_type_of_def all_error_types_def)

text \<open>A denial of access is reported only for a denying status or for a page, fetched with a status below 400, that shows one.\<close>

lemma denial_sources:
  assumes "classify_fetch_exception x f = (t, s, d)" and "t \<in> set access_denial_types" and "\<forall>u. ex_class x = Scrape_stop u \<longrightarrow> u \<notin> set access_denial_types"
  shows "\<exists>n. s = Some n \<and> (n \<in> {401, 403, 429} \<or> (n < 400 \<and> ex_class x = Fetch_error n \<and> (\<exists>p. d = Some p \<and> classify_page_signals p = Some t)))"
  using assms
  by (auto simp: classify_fetch_exception_def classify_status_error_def classify_by_text_def signal_in_def access_denial_types_def Let_def
      split: exception_class.splits if_splits option.splits)

end
