(* ===== verification/Worker.thy ===== *)
theory Worker
  imports Statements Fetch_Classifier Webhook_Payload Budgets
begin

text \<open>
  One execution of a delivery by a worker, \<^verbatim>\<open>queue/worker.py\<close> with \<^verbatim>\<open>queue/run_lifecycle.py\<close> and the activity guard of
  \<^verbatim>\<open>queue/cancellation.py\<close>.

  \<^item> \<open>world\<close> is what the task reads and writes: \<^verbatim>\<open>jobs.db\<close>, the saved result artifacts, the logged errors, and the local
    variables of \<open>scrape_task\<close> that its exception handlers use.
  \<^item> A statement is one of \<open>Statements\<close> over \<open>world\<close>, raising \<open>exn\<close>.
  \<^item> \<open>await\<close> is one \<^verbatim>\<open>await\<close>. While the task waits, the rest of the system changes \<^verbatim>\<open>jobs.db\<close> by \<open>p_env\<close>: other workers, the
    reconcilers, the API and the heartbeat of this run. Then the operation runs, or the port injects a fault: \<open>Before e\<close> raises
    \<open>e\<close> without the operation, \<open>Committed e\<close> raises \<open>e\<close> although the operation took effect, as a cancellation that interrupts
    the await of a transaction does.
  \<^item> \<open>p_lost n\<close> says whether the heartbeat has reported the loss of its lease by step \<open>n\<close>.

  The scraping of the targets is one \<open>await\<close> whose results the port gives; domain policy, page cache, browser pool, metrics and
  log lines do not decide the outcome of a run and are left out.
\<close>

section \<open>Configuration\<close>

datatype fail_strategy = Partial_results | All_or_nothing | Continue

record run_config = scrape_config +
  rc_fail_strategy :: fail_strategy
  rc_limits :: execution_limits
  rc_deadline_at :: "instant option"

record execution_context =
  x_config :: run_config
  x_config_hash :: string
  x_job :: job
  x_started_at :: instant
  x_run_id :: string

section \<open>Statements\<close>

datatype exn = Budget_stop budget_exceeded | Cancelled_error | Lease_lost | Store_raised store_error | Other_error

datatype fault = Before exn | Committed exn

datatype label = Get_job | Load_config | Queue_run | Claim_run | Run_is_active | Process_targets | Materialize | Save_result
  | Count_errors | Log_error | Finalize | Fail_run | Get_job_run | Delete_result | Notify | Heartbeat_stop

record world =
  wd_db :: jobs_db
  wd_results :: "(string \<times> string) list"
  wd_errors :: "string list"
  wd_tick :: nat
  wd_budget :: run_budget
  wd_context :: "execution_context option"
  wd_active_run :: "string option"
  wd_heartbeat :: bool
  wd_beating :: bool
  wd_completed_at :: "instant option"
  wd_shield :: bool

record port =
  p_store :: env
  p_env :: "nat \<Rightarrow> jobs_db \<Rightarrow> jobs_db"
  p_fault :: "label \<Rightarrow> nat \<Rightarrow> fault option"
  p_now :: "nat \<Rightarrow> instant"
  p_lost :: "nat \<Rightarrow> bool"
  p_new_run_id :: string
  p_load :: "string \<Rightarrow> run_config"
  p_budget :: "execution_limits \<Rightarrow> run_budget"
  p_targets :: "target_result list"
  p_target_errors :: nat
  p_spend :: "run_budget \<Rightarrow> run_budget"
  p_output :: "run_budget \<Rightarrow> (budget_exceeded + unit) \<times> run_budget"
  p_path :: string
  p_timeout :: int
  p_dispatcher :: bool
  p_redact :: "(string \<times> json) list \<Rightarrow> (string \<times> json) list"
  p_isoformat :: "instant \<Rightarrow> string"

type_synonym 'a stmt = "(world, exn, 'a) statement"

text \<open>\<^verbatim>\<open>except Exception\<close>: a cancellation is no \<^verbatim>\<open>Exception\<close>.\<close>

definition on_exception :: "(exn \<Rightarrow> 'a stmt) \<Rightarrow> exn \<Rightarrow> 'a stmt" where
  "on_exception h e = (if e = Cancelled_error then m_raise e else h e)"

definition on_cancelled :: "'a stmt \<Rightarrow> exn \<Rightarrow> 'a stmt" where
  "on_cancelled h e = (if e = Cancelled_error then h else m_raise e)"

fun is_ownership :: "exn \<Rightarrow> bool" where
  "is_ownership (Store_raised (RunOwnershipError _ _ _)) = True"
| "is_ownership _ = False"

fun fault_exn :: "fault \<Rightarrow> exn" where
  "fault_exn (Before e) = e"
| "fault_exn (Committed e) = e"

text \<open>
  The environment acts first. Under \<^verbatim>\<open>shield\<close> the first cancellation reaches only the waiting task, not the shielded work.
\<close>

definition interfere :: "port \<Rightarrow> world \<Rightarrow> world" where
  "interfere p w = w\<lparr>wd_tick := Suc (wd_tick w), wd_db := p_env p (wd_tick w) (wd_db w)\<rparr>"

definition await :: "port \<Rightarrow> label \<Rightarrow> 'a stmt \<Rightarrow> 'a stmt" where
  "await p l f w = (let w1 = interfere p w in
     case p_fault p l (wd_tick w) of
       None \<Rightarrow> f w1
     | Some ft \<Rightarrow> if fault_exn ft = Cancelled_error \<and> wd_shield w then f (w1\<lparr>wd_shield := False\<rparr>)
         else (case ft of Before e \<Rightarrow> (Inl e, w1) | Committed e \<Rightarrow> (Inl e, snd (f w1))))"

definition on_db :: "(jobs_db \<Rightarrow> store_error + ('a \<times> jobs_db)) \<Rightarrow> 'a stmt" where
  "on_db f w = (case f (wd_db w) of
       Inl x \<Rightarrow> (Inl (Store_raised x), w)
     | Inr (a, db) \<Rightarrow> (Inr a, w\<lparr>wd_db := db\<rparr>))"

definition reads :: "(jobs_db \<Rightarrow> store_error + 'a) \<Rightarrow> 'a stmt" where
  "reads f = on_db (\<lambda>db. case f db of Inl x \<Rightarrow> Inl x | Inr a \<Rightarrow> Inr (a, db))"

definition utc_now :: "port \<Rightarrow> instant stmt" where
  "utc_now p = m_get (\<lambda>w. p_now p (wd_tick w))"

definition check_run_deadline :: "unit stmt" where
  "check_run_deadline w = (case check_deadline (wd_budget w) of
       (Inl (Budget_exceeded x), b) \<Rightarrow> (Inl (Budget_stop x), w\<lparr>wd_budget := b\<rparr>)
     | (Inl _, b) \<Rightarrow> (Inl Other_error, w\<lparr>wd_budget := b\<rparr>)
     | (Inr _, b) \<Rightarrow> (Inr (), w\<lparr>wd_budget := b\<rparr>))"

section \<open>Activity guard and heartbeat\<close>

definition checkpoint :: "port \<Rightarrow> string \<Rightarrow> string \<Rightarrow> string \<Rightarrow> unit stmt" where
  "checkpoint p jid rid nm = m_then (await p Run_is_active (reads (\<lambda>db. Inr (run_is_active jid rid db))))
     (\<lambda>active. if active then m_ret () else m_raise (Store_raised (RunOwnershipError nm jid rid)))"

definition start_heartbeat :: "unit stmt" where
  "start_heartbeat = m_set (\<lambda>w. w\<lparr>wd_heartbeat := True, wd_beating := True\<rparr>)"

definition ownership_lost :: "port \<Rightarrow> bool stmt" where
  "ownership_lost p = m_get (\<lambda>w. p_lost p (wd_tick w))"

definition ensure_owned :: "port \<Rightarrow> unit stmt" where
  "ensure_owned p = m_then (ownership_lost p) (\<lambda>lost. if lost then m_raise Lease_lost else m_ret ())"

text \<open>Stopping awaits the heartbeat task and swallows whatever that await raises.\<close>

definition heartbeat_stop :: "port \<Rightarrow> unit stmt" where
  "heartbeat_stop p = m_then (m_get wd_beating) (\<lambda>b. if \<not> b then m_ret () else
     m_then (m_set (\<lambda>w. w\<lparr>wd_beating := False\<rparr>)) (\<lambda>_.
     m_try (await p Heartbeat_stop (m_ret ())) (\<lambda>_. m_ret ())))"

section \<open>Run lifecycle helpers\<close>

definition save_run_result :: "port \<Rightarrow> string \<Rightarrow> string \<Rightarrow> unit stmt" where
  "save_run_result p jid rid = await p Save_result
     (m_set (\<lambda>w. w\<lparr>wd_results := (jid, rid) # wd_results w\<rparr>))"

definition delete_result :: "port \<Rightarrow> string \<Rightarrow> string \<Rightarrow> bool stmt" where
  "delete_result p jid rid = await p Delete_result (\<lambda>w.
     (Inr ((jid, rid) \<in> set (wd_results w)), w\<lparr>wd_results := filter (\<lambda>x. x \<noteq> (jid, rid)) (wd_results w)\<rparr>))"

definition count_errors_for_run :: "port \<Rightarrow> string \<Rightarrow> int stmt" where
  "count_errors_for_run p rid = await p Count_errors (m_get (\<lambda>w. int (length (filter (\<lambda>r. r = rid) (wd_errors w)))))"

definition log_error :: "port \<Rightarrow> string \<Rightarrow> unit stmt" where
  "log_error p rid = await p Log_error (m_set (\<lambda>w. w\<lparr>wd_errors := wd_errors w @ [rid]\<rparr>))"

definition dispatch_webhook :: "port \<Rightarrow> run_config \<Rightarrow> delivery_create option \<Rightarrow> unit stmt" where
  "dispatch_webhook p cfg delivery =
     (if \<not> p_dispatcher p \<or> sc_webhook cfg = None \<or> delivery = None then m_ret ()
      else m_try (await p Notify (m_ret ())) (on_exception (\<lambda>_. m_ret ())))"

definition handle_crash ::
    "port \<Rightarrow> string \<Rightarrow> string option \<Rightarrow> instant \<Rightarrow> instant option \<Rightarrow> int \<Rightarrow> delivery_create option \<Rightarrow> bool stmt" where
  "handle_crash p jid rid failed_at cutoff errors delivery = (case rid of
       None \<Rightarrow> m_ret False
     | Some r \<Rightarrow> m_try (m_then (await p Fail_run (on_db (fail_owned_run (p_store p) jid r failed_at cutoff errors delivery))) (\<lambda>_. m_ret True))
         (on_exception (\<lambda>_. m_ret False)))"

section \<open>Loading and claiming\<close>

definition run_superseded :: "job \<Rightarrow> string option \<Rightarrow> bool" where
  "run_superseded j rid \<longleftrightarrow> rid \<noteq> None \<and> current_run_id j \<noteq> None \<and> current_run_id j \<noteq> rid"

definition should_skip_delivery :: "job \<Rightarrow> string \<Rightarrow> bool" where
  "should_skip_delivery j rid \<longleftrightarrow> run_superseded j (Some rid)
     \<or> status j \<in> {Complete, Partial, Failed, Cancelled, Deleting} \<or> status j = Running"

definition truthy_or :: "string option \<Rightarrow> string \<Rightarrow> string" where
  "truthy_or x y = (case x of Some (c # cs) \<Rightarrow> c # cs | _ \<Rightarrow> y)"

definition deadline_budget :: "run_config \<Rightarrow> instant \<Rightarrow> run_budget \<Rightarrow> run_budget" where
  "deadline_budget cfg started b = (case rc_deadline_at cfg of
       None \<Rightarrow> b
     | Some d \<Rightarrow> let m = min (max_duration_seconds b) (max 0 (of_int (d - started) / 1000000))
         in b\<lparr>max_duration_seconds := m, deadline_monotonic := started_monotonic b + m\<rparr>)"

definition load_job_execution_context ::
    "port \<Rightarrow> string \<Rightarrow> string \<Rightarrow> string option \<Rightarrow> execution_context option stmt" where
  "load_job_execution_context p jid yaml rid =
     m_then (await p Get_job (reads (get_job (p_store p) jid))) (\<lambda>j.
     let r = truthy_or rid (truthy_or (current_run_id j) (p_new_run_id p)) in
     if should_skip_delivery j r then m_ret None else
     m_then (await p Load_config (m_ret (p_load p yaml))) (\<lambda>cfg.
     m_then (utc_now p) (\<lambda>started.
     m_then (m_set (\<lambda>w. w\<lparr>wd_budget := deadline_budget cfg started (p_budget p (rc_limits cfg))\<rparr>)) (\<lambda>_.
     m_ret (Some \<lparr>x_config = cfg, x_config_hash = sha256 (p_store p) yaml, x_job = j, x_started_at = started, x_run_id = r\<rparr>)))))"

definition claim_and_check :: "port \<Rightarrow> execution_context \<Rightarrow> string \<Rightarrow> string \<Rightarrow> bool stmt" where
  "claim_and_check p x jid trig =
     m_then (await p Claim_run (on_db (claim_run (p_store p) (x_run_id x) jid trig (x_config_hash x) (x_started_at x)))) (\<lambda>claimed.
     if \<not> claimed then m_ret False else m_then check_run_deadline (\<lambda>_. m_ret True))"

definition mark_run_started :: "port \<Rightarrow> execution_context \<Rightarrow> string \<Rightarrow> string \<Rightarrow> bool stmt" where
  "mark_run_started p x jid trig =
     (if current_run_id (x_job x) = None then
        m_then (await p Queue_run (on_db (queue_run (p_store p) jid Queued None (x_run_id x) trig (x_started_at x) None None False))) (\<lambda>queued.
        if \<not> queued then m_ret False else claim_and_check p x jid trig)
      else claim_and_check p x jid trig)"

section \<open>Results\<close>

definition collect_result_payload :: "target_result list \<Rightarrow> data_row list \<times> string list" where
  "collect_result_payload rs = (concat (map tr_data rs), concat (map tr_errors rs))"

definition determine_final_status :: "fail_strategy \<Rightarrow> target_result list \<Rightarrow> data_row list \<Rightarrow> job_status" where
  "determine_final_status strategy rs flat =
     (let failed = length (filter (\<lambda>r. tr_status r = Target_failed) rs) in
      case strategy of
        All_or_nothing \<Rightarrow> if failed > 0 then Failed else Complete
      | Continue \<Rightarrow> if flat \<noteq> [] then Complete else Failed
      | Partial_results \<Rightarrow> if failed = length rs \<or> flat = [] then Failed
          else if failed > 0 then Partial else Complete)"

record persisted_result =
  pr_final_status :: job_status
  pr_flat_data :: "data_row list"

definition process_all_targets :: "port \<Rightarrow> string \<Rightarrow> target_result list stmt" where
  "process_all_targets p rid = await p Process_targets (\<lambda>w.
     (Inr (p_targets p), w\<lparr>wd_errors := wd_errors w @ replicate (p_target_errors p) rid, wd_budget := p_spend p (wd_budget w)\<rparr>))"

definition materialize_output :: "port \<Rightarrow> unit stmt" where
  "materialize_output p = await p Materialize (\<lambda>w. case p_output p (wd_budget w) of
       (Inl x, b) \<Rightarrow> (Inl (Budget_stop x), w\<lparr>wd_budget := b\<rparr>)
     | (Inr _, b) \<Rightarrow> (Inr (), w\<lparr>wd_budget := b\<rparr>))"

definition persist_job_results :: "port \<Rightarrow> execution_context \<Rightarrow> string \<Rightarrow> target_result list \<Rightarrow> persisted_result stmt" where
  "persist_job_results p x jid rs =
     m_then (checkpoint p jid (x_run_id x) ''before_result_persistence'') (\<lambda>_.
     m_then check_run_deadline (\<lambda>_.
     let flat = fst (collect_result_payload rs);
         s = determine_final_status (rc_fail_strategy (x_config x)) rs flat;
         publish = \<not> (s = Failed \<and> rc_fail_strategy (x_config x) = All_or_nothing);
         kept = (if publish then flat else [])
     in m_then (materialize_output p) (\<lambda>_.
     m_then check_run_deadline (\<lambda>_.
     m_then (save_run_result p jid (x_run_id x)) (\<lambda>_.
     m_then (checkpoint p jid (x_run_id x) ''after_result_persistence'') (\<lambda>_.
     m_ret \<lparr>pr_final_status = s, pr_flat_data = kept\<rparr>))))))"

section \<open>Finalisation\<close>

definition terminal_delivery ::
    "port \<Rightarrow> execution_context \<Rightarrow> string \<Rightarrow> job_status \<Rightarrow> string option \<Rightarrow> int option \<Rightarrow> int \<Rightarrow> instant \<Rightarrow> delivery_create option" where
  "terminal_delivery p x jid s path n errors completed =
     build_terminal_webhook_delivery (sha256 (p_store p)) (p_redact p) (p_isoformat p) (scrape_config.truncate (x_config x)) jid s
       (x_run_id x) path n errors (x_started_at x) completed (Some (x_config_hash x))"

definition finalize_job_execution :: "port \<Rightarrow> execution_context \<Rightarrow> string \<Rightarrow> persisted_result \<Rightarrow> unit stmt" where
  "finalize_job_execution p x jid r =
     m_then (checkpoint p jid (x_run_id x) ''before_terminal_finalization'') (\<lambda>_.
     m_then (utc_now p) (\<lambda>completed.
     m_then (count_errors_for_run p (x_run_id x)) (\<lambda>errors.
     let n = int (length (pr_flat_data r));
         delivery = terminal_delivery p x jid (pr_final_status r) (Some (p_path p)) (Some n) errors completed
     in m_then (m_set (\<lambda>w. w\<lparr>wd_completed_at := Some completed\<rparr>)) (\<lambda>_.
     m_then (await p Finalize (on_db (finalize_owned_run (p_store p) jid (x_run_id x) (pr_final_status r) n errors completed
               (completed - p_timeout p) delivery))) (\<lambda>_.
     dispatch_webhook p (x_config x) delivery)))))"

section \<open>Failure handling\<close>

definition heartbeat_cutoff :: "port \<Rightarrow> execution_context option \<Rightarrow> instant option stmt" where
  "heartbeat_cutoff p x = (case x of
       None \<Rightarrow> m_ret None
     | Some _ \<Rightarrow> m_then (utc_now p) (\<lambda>t. m_ret (Some (t - p_timeout p))))"

definition error_count_snapshot :: "port \<Rightarrow> string option \<Rightarrow> int stmt" where
  "error_count_snapshot p rid = (case rid of
       None \<Rightarrow> m_ret 0
     | Some r \<Rightarrow> m_try (count_errors_for_run p r) (on_exception (\<lambda>_. m_ret 0)))"

definition failed_webhook_delivery ::
    "port \<Rightarrow> execution_context option \<Rightarrow> string \<Rightarrow> string option \<Rightarrow> int \<Rightarrow> instant \<Rightarrow> delivery_create option" where
  "failed_webhook_delivery p x jid rid errors failed_at = (case (x, rid) of
       (Some c, Some r) \<Rightarrow> terminal_delivery p (c\<lparr>x_run_id := r\<rparr>) jid Failed None (Some 0) errors failed_at
     | _ \<Rightarrow> None)"

definition handle_execution_crash ::
    "port \<Rightarrow> execution_context option \<Rightarrow> string \<Rightarrow> string option \<Rightarrow> unit stmt" where
  "handle_execution_crash p x jid rid =
     m_then (utc_now p) (\<lambda>failed_at.
     m_then (error_count_snapshot p rid) (\<lambda>errors.
     let delivery = failed_webhook_delivery p x jid rid errors failed_at in
     m_then (heartbeat_cutoff p x) (\<lambda>cutoff.
     m_then (handle_crash p jid rid failed_at cutoff errors delivery) (\<lambda>committed.
     case x of
       Some c \<Rightarrow> if committed then dispatch_webhook p (x_config c) delivery else m_ret ()
     | None \<Rightarrow> m_ret ()))))"

definition run_finalized_by_owner :: "port \<Rightarrow> string \<Rightarrow> string \<Rightarrow> bool stmt" where
  "run_finalized_by_owner p jid rid =
     m_try (m_then (await p Get_job_run (reads (\<lambda>db. Inr (find_run db jid rid)))) (\<lambda>run. case run of
         None \<Rightarrow> m_ret False
       | Some r \<Rightarrow> m_then (m_get (\<lambda>w. case wd_context w of None \<Rightarrow> None | Some _ \<Rightarrow> wd_completed_at w)) (\<lambda>owner.
           m_ret (r_status r \<in> {Complete, Partial} \<or> (owner \<noteq> None \<and> r_completed_at r = owner)))))
       (on_exception (\<lambda>_. m_ret False))"

definition discard_unowned_result :: "port \<Rightarrow> string \<Rightarrow> string option \<Rightarrow> unit stmt" where
  "discard_unowned_result p jid rid = (case rid of
       None \<Rightarrow> m_ret ()
     | Some r \<Rightarrow> m_then (run_finalized_by_owner p jid r) (\<lambda>finalized.
         if finalized then m_ret ()
         else m_try (m_then (delete_result p jid r) (\<lambda>_. m_ret ())) (on_exception (\<lambda>_. m_ret ()))))"

definition handle_worker_cancellation :: "port \<Rightarrow> string \<Rightarrow> bool stmt" where
  "handle_worker_cancellation p jid =
     m_then (m_get wd_active_run) (\<lambda>rid. m_then (m_get wd_context) (\<lambda>x. m_then (m_get wd_heartbeat) (\<lambda>hb.
     m_then (ownership_lost p) (\<lambda>lost.
     m_then (heartbeat_stop p) (\<lambda>_.
     if hb \<and> lost then m_then (discard_unowned_result p jid rid) (\<lambda>_. m_ret False) else
     m_then (case rid of
         None \<Rightarrow> m_ret False
       | Some r \<Rightarrow> m_try (await p Run_is_active (reads (\<lambda>db. Inr (run_is_active jid r db)))) (on_exception (\<lambda>_. m_ret True))) (\<lambda>active.
     m_then (discard_unowned_result p jid rid) (\<lambda>_.
     if \<not> active then m_ret True else
     m_then (m_set (\<lambda>w. w\<lparr>wd_shield := True\<rparr>)) (\<lambda>_.
     m_then (handle_execution_crash p x jid rid) (\<lambda>_.
     m_then (m_set (\<lambda>w. w\<lparr>wd_shield := False\<rparr>)) (\<lambda>_. m_ret True))))))))))"

section \<open>Run limits\<close>

text \<open>What follows a budget failure once its result is saved or could not be: the last three arguments are the completion
  time, whether the result was saved, and the number of errors.\<close>

definition finalize_budget_failure ::
    "port \<Rightarrow> execution_context \<Rightarrow> string \<Rightarrow> instant \<Rightarrow> bool \<Rightarrow> int \<Rightarrow> unit stmt" where
  "finalize_budget_failure p x jid completed saved errors =
     (let delivery = terminal_delivery p x jid Failed (if saved then Some (p_path p) else None) (Some 0) errors completed in
      m_then (m_set (\<lambda>w. w\<lparr>wd_completed_at := Some completed\<rparr>)) (\<lambda>_.
      m_then (m_try (m_then (await p Finalize (on_db (finalize_owned_run (p_store p) jid (x_run_id x) Failed 0 errors completed
                 (completed - p_timeout p) delivery))) (\<lambda>_. m_ret True))
          (on_exception (\<lambda>e. m_then (discard_unowned_result p jid (Some (x_run_id x))) (\<lambda>_.
             if is_ownership e then m_ret False
             else m_then (handle_execution_crash p (Some x) jid (Some (x_run_id x))) (\<lambda>_. m_ret False))))) (\<lambda>finalized.
      if finalized then dispatch_webhook p (x_config x) delivery else m_ret ())))"

text \<open>
  Saving the artifact of a budget failure: \<open>None\<close> when ownership was lost and the artifact discarded, otherwise whether the save
  returned.
\<close>

definition save_budget_result :: "port \<Rightarrow> string \<Rightarrow> string \<Rightarrow> bool option stmt" where
  "save_budget_result p jid rid =
     (let failed = (\<lambda>saved. on_exception (\<lambda>e. if is_ownership e
            then m_then (discard_unowned_result p jid (Some rid)) (\<lambda>_. m_ret None) else m_ret (Some saved)))
      in m_try (m_then (checkpoint p jid rid ''before_budget_result_persistence'') (\<lambda>_.
                m_then (save_run_result p jid rid) (\<lambda>_.
                m_try (m_then (checkpoint p jid rid ''after_budget_result_persistence'') (\<lambda>_. m_ret (Some True))) (failed True))))
           (failed False))"

definition finish_budget_failure :: "port \<Rightarrow> execution_context \<Rightarrow> string \<Rightarrow> instant \<Rightarrow> bool \<Rightarrow> unit stmt" where
  "finish_budget_failure p x jid completed saved =
     m_then (m_get wd_heartbeat) (\<lambda>hb. m_then (ownership_lost p) (\<lambda>lost.
     if hb \<and> lost then m_then (heartbeat_stop p) (\<lambda>_. discard_unowned_result p jid (Some (x_run_id x))) else
     m_then (heartbeat_stop p) (\<lambda>_.
     m_then (error_count_snapshot p (Some (x_run_id x))) (\<lambda>errors.
     finalize_budget_failure p x jid completed saved errors))))"

definition handle_budget_exhaustion :: "port \<Rightarrow> execution_context \<Rightarrow> string \<Rightarrow> unit stmt" where
  "handle_budget_exhaustion p x jid = (let rid = x_run_id x in
     m_then (m_try (m_then (checkpoint p jid rid ''before_budget_failure_persistence'') (\<lambda>_. m_ret True))
         (\<lambda>e. if is_ownership e then m_then (discard_unowned_result p jid (Some rid)) (\<lambda>_. m_ret False) else m_raise e)) (\<lambda>owned.
     if \<not> owned then m_ret () else
     m_then (m_try (m_then (checkpoint p jid rid ''before_budget_error_flush'') (\<lambda>_. log_error p rid)) (on_exception (\<lambda>_. m_ret ()))) (\<lambda>_.
     m_then (utc_now p) (\<lambda>completed.
     m_then (save_budget_result p jid rid) (\<lambda>saved. case saved of
         None \<Rightarrow> m_ret ()
       | Some b \<Rightarrow> finish_budget_failure p x jid completed b)))))"

definition handle_budget_stop :: "port \<Rightarrow> string \<Rightarrow> unit stmt" where
  "handle_budget_stop p jid = m_then (m_get wd_context) (\<lambda>c. case c of
       None \<Rightarrow> m_then (m_get wd_active_run) (\<lambda>rid. handle_execution_crash p None jid rid)
     | Some x \<Rightarrow> m_try (handle_budget_exhaustion p x jid) (on_exception (\<lambda>_.
         m_then (heartbeat_stop p) (\<lambda>_.
         m_then (discard_unowned_result p jid (Some (x_run_id x))) (\<lambda>_.
         handle_execution_crash p (Some x) jid (Some (x_run_id x)))))))"

section \<open>The task\<close>

definition run_claimed :: "port \<Rightarrow> execution_context \<Rightarrow> string \<Rightarrow> unit stmt" where
  "run_claimed p x jid =
     m_then start_heartbeat (\<lambda>_.
     m_then (checkpoint p jid (x_run_id x) ''before_targets'') (\<lambda>_.
     m_then (process_all_targets p (x_run_id x)) (\<lambda>rs.
     m_then (persist_job_results p x jid rs) (\<lambda>r.
     m_then (ensure_owned p) (\<lambda>_.
     m_then (heartbeat_stop p) (\<lambda>_.
     finalize_job_execution p x jid r))))))"

definition task_body :: "port \<Rightarrow> string \<Rightarrow> string \<Rightarrow> string option \<Rightarrow> string \<Rightarrow> unit stmt" where
  "task_body p jid yaml rid trig =
     m_then (load_job_execution_context p jid yaml rid) (\<lambda>c. case c of
       None \<Rightarrow> m_ret ()
     | Some x \<Rightarrow> m_then (m_set (\<lambda>w. w\<lparr>wd_context := Some x, wd_active_run := Some (x_run_id x)\<rparr>)) (\<lambda>_.
         m_then (mark_run_started p x jid trig) (\<lambda>claimed.
         if \<not> claimed then m_ret () else run_claimed p x jid)))"

definition cancel_or_raise :: "port \<Rightarrow> string \<Rightarrow> unit stmt" where
  "cancel_or_raise p jid = m_then (handle_worker_cancellation p jid) (\<lambda>propagate.
     if propagate then m_raise Cancelled_error else m_ret ())"

definition stop_and_discard :: "port \<Rightarrow> string \<Rightarrow> unit stmt" where
  "stop_and_discard p jid = m_then (heartbeat_stop p) (\<lambda>_. m_then (m_get wd_active_run) (\<lambda>rid. discard_unowned_result p jid rid))"

definition task_handler :: "port \<Rightarrow> string \<Rightarrow> exn \<Rightarrow> unit stmt" where
  "task_handler p jid e = (case e of
       Budget_stop _ \<Rightarrow> m_try (handle_budget_stop p jid) (on_cancelled (cancel_or_raise p jid))
     | Cancelled_error \<Rightarrow> cancel_or_raise p jid
     | Lease_lost \<Rightarrow> stop_and_discard p jid
     | _ \<Rightarrow> if is_ownership e then stop_and_discard p jid
         else m_try (m_then (stop_and_discard p jid) (\<lambda>_. m_then (m_get wd_context) (\<lambda>x. m_then (m_get wd_active_run) (\<lambda>rid.
                handle_execution_crash p x jid rid)))) (on_cancelled (cancel_or_raise p jid)))"

text \<open>The \<^verbatim>\<open>finally\<close> clause stops the heartbeat, after a result and after an exception.\<close>

definition scrape_task :: "port \<Rightarrow> string \<Rightarrow> string \<Rightarrow> string option \<Rightarrow> string \<Rightarrow> unit stmt" where
  "scrape_task p jid yaml rid trig w =
     (case m_try (m_then (m_set (\<lambda>w. w\<lparr>wd_active_run := rid\<rparr>)) (\<lambda>_. task_body p jid yaml rid trig)) (task_handler p jid) w of
        (res, w1) \<Rightarrow> (case heartbeat_stop p w1 of (_, w2) \<Rightarrow> (res, w2)))"

end
