(* ===== verification/Worker_Logic.thy ===== *)
theory Worker_Logic
  imports Worker Store_Properties
begin

text \<open>
  What the store operations of a worker do to the ownership of its run, and the assumptions on its environment.
\<close>

section \<open>Ownership of a run in the store\<close>

lemma active_rows:
  "run_is_active jid rid db \<longleftrightarrow> (\<exists>j \<in> set (jobs db). \<exists>r \<in> set (job_runs db). j_job_id j = jid \<and> j_current_run_id j = Some rid
     \<and> j_status j = Running \<and> r_job_id r = jid \<and> r_run_id r = rid \<and> r_status r = Running)"
  unfolding run_is_active_def sql_exists_iff by (auto; fastforce)

lemma active_state:
  assumes "wf_db db"
  shows "run_is_active jid rid db \<longleftrightarrow>
    job_state (abs_db db) jid = Some (Running, Some rid) \<and> run_state (abs_db db) rid = Some (jid, Running)"
proof
  assume "run_is_active jid rid db"
  then show "job_state (abs_db db) jid = Some (Running, Some rid) \<and> run_state (abs_db db) rid = Some (jid, Running)"
    using job_state_in [OF assms] run_state_in [OF assms] by (fastforce simp: active_rows)
next
  assume a: "job_state (abs_db db) jid = Some (Running, Some rid) \<and> run_state (abs_db db) rid = Some (jid, Running)"
  then obtain j where "j \<in> set (jobs db)" "j_job_id j = jid" "j_status j = Running" "j_current_run_id j = Some rid"
    using tmap_SomeD [of j_job_id job_view "jobs db" jid] by (auto simp: abs_db_def job_view_def)
  moreover from a obtain r where "r \<in> set (job_runs db)" "r_run_id r = rid" "r_job_id r = jid" "r_status r = Running"
    using tmap_SomeD [of r_run_id run_view "job_runs db" rid] by (auto simp: abs_db_def run_view_def)
  ultimately show "run_is_active jid rid db" by (auto simp: active_rows)
qed

lemma no_owner_inactive:
  assumes "\<And>j. j \<in> set (jobs db) \<Longrightarrow> \<not> (j_job_id j = jid \<and> j_current_run_id j = Some rid \<and> j_status j = Running)"
  shows "\<not> run_is_active jid rid db"
  using assms by (auto simp: active_rows)

lemma settled_inactive:
  assumes "settle_owned_parent op jid rid from st t db = Inr db'" and "wf_db db" and "st \<noteq> Running"
  shows "\<not> run_is_active jid rid db'"
proof (rule no_owner_inactive)
  fix j assume j: "j \<in> set (jobs db')"
  note p = settle_owned_parentE [OF assms(1)]
  from assms(2) p(1) obtain h where h: "h \<in> set (jobs db)" "j_job_id h = jid" "j_status h = from" "j_current_run_id h = Some rid"
    by (rule owned_job [where jid = jid]) auto
  from j obtain i where i: "i \<in> set (jobs db)" "j = (if j_job_id i = jid \<and> j_status i = from \<and> j_current_run_id i = Some rid
      then i\<lparr>j_status := st, j_updated_at := Some t\<rparr> else i)"
    by (auto simp: p(2) update_jobs_def in_sql_update)
  show "\<not> (j_job_id j = jid \<and> j_current_run_id j = Some rid \<and> j_status j = Running)"
    using i h unique_onD [OF wf_dbD(1) [OF assms(2)] i(1) h(1)] assms(3) by (auto split: if_splits)
qed

text \<open>The heartbeat of a running run is newer than \<open>lo\<close>.\<close>

definition beats :: "string \<Rightarrow> instant \<Rightarrow> jobs_db \<Rightarrow> bool" where
  "beats rid lo db \<longleftrightarrow> (\<forall>r \<in> set (job_runs db). r_run_id r = rid \<and> r_status r = Running \<longrightarrow> null_gt (r_heartbeat_at r) lo)"

lemma beats_mono: "beats rid lo db \<Longrightarrow> lo' \<le> lo \<Longrightarrow> beats rid lo' db"
  unfolding beats_def null_gt_def by (fastforce split: option.splits)

text \<open>A terminal delivery the store accepts.\<close>

definition accepted :: "delivery_create option \<Rightarrow> string \<Rightarrow> string \<Rightarrow> job_status \<Rightarrow> bool" where
  "accepted d jid rid s \<longleftrightarrow> validate_optional_delivery d jid rid s = Inr ()
     \<and> (\<forall>w. d = Some w \<longrightarrow> map_of (w_payload w) ''delivery_id'' = Some (JStr (w_delivery_id w)))"

lemma commit_accepted: "accepted d jid rid s \<Longrightarrow> \<exists>db'. commit_terminal_intent e d t db = Inr ((), db')"
  by (auto simp: accepted_def commit_terminal_intent_def insert_webhook_delivery_def split: option.splits)

lemma active_rowcounts:
  assumes "wf_db db" and "run_is_active jid rid db"
  shows "beats rid lo db \<Longrightarrow> rowcount (\<lambda>r. r_job_id r = jid \<and> r_run_id r = rid \<and> r_status r = Running \<and> null_gt (r_heartbeat_at r) lo) (job_runs db) = 1"
    and "rowcount (\<lambda>r. r_job_id r = jid \<and> r_run_id r = rid \<and> r_status r = Running) (job_runs db) = 1"
    and "rowcount (\<lambda>j. j_job_id j = jid \<and> j_status j = Running \<and> j_current_run_id j = Some rid) (jobs db) = 1"
proof -
  obtain j r where jr: "j \<in> set (jobs db)" "r \<in> set (job_runs db)" "j_job_id j = jid" "j_current_run_id j = Some rid"
    "j_status j = Running" "r_job_id r = jid" "r_run_id r = rid" "r_status r = Running"
    using assms(2) by (auto simp: active_rows)
  then have "null_gt (r_heartbeat_at r) lo" if "beats rid lo db" using that by (simp add: beats_def)
  with jr show "beats rid lo db \<Longrightarrow> rowcount (\<lambda>r. r_job_id r = jid \<and> r_run_id r = rid \<and> r_status r = Running \<and> null_gt (r_heartbeat_at r) lo) (job_runs db) = 1"
    by (subst rowcount_key_1 [OF wf_dbD(3) [OF assms(1)]]) auto
  show "rowcount (\<lambda>r. r_job_id r = jid \<and> r_run_id r = rid \<and> r_status r = Running) (job_runs db) = 1"
    using jr by (subst rowcount_key_1 [OF wf_dbD(3) [OF assms(1)]]) auto
  show "rowcount (\<lambda>j. j_job_id j = jid \<and> j_status j = Running \<and> j_current_run_id j = Some rid) (jobs db) = 1"
    using jr by (subst rowcount_key_1 [OF wf_dbD(1) [OF assms(1)]]) auto
qed

lemma settle_after_runs:
  assumes "rowcount (\<lambda>j. j_job_id j = jid \<and> j_status j = from \<and> j_current_run_id j = Some rid) (jobs db) = 1"
  shows "\<exists>db'. settle_owned_parent op jid rid from st t (update_runs R g db) = Inr db'"
  using assms by (simp add: settle_owned_parent_def Let_def)

text \<open>Either the run is no longer active, or the terminal transition commits and ends it.\<close>

lemma finalize_ends:
  assumes "wf_db db" and "beats rid cutoff db" and "accepted d jid rid s" and "terminal s"
  shows "case finalize_owned_run e jid rid s n errs t cutoff d db of
      Inl _ \<Rightarrow> \<not> run_is_active jid rid db | Inr (_, db') \<Rightarrow> wf_db db' \<and> \<not> run_is_active jid rid db'"
proof (cases "finalize_owned_run e jid rid s n errs t cutoff d db")
  case (Inl x)
  have "\<not> run_is_active jid rid db"
  proof
    assume a: "run_is_active jid rid db"
    note rc = active_rowcounts(1) [OF assms(1) a assms(2)] active_rowcounts(2,3) [OF assms(1) a]
    obtain db2 where "settle_owned_parent ''finalize'' jid rid Running s t
        (update_runs (\<lambda>r. r_job_id r = jid \<and> r_run_id r = rid \<and> r_status r = Running \<and> null_gt (r_heartbeat_at r) cutoff)
          (\<lambda>r. r\<lparr>r_status := s, r_completed_at := Some t, r_record_count := Some n, r_error_count := errs,
             r_webhook_reconciled_at := Some t\<rparr>) db) = Inr db2"
      using settle_after_runs [OF rc(3)] by blast
    moreover obtain db3 where "commit_terminal_intent e d t db2 = Inr ((), db3)" using commit_accepted [OF assms(3)] by blast
    ultimately have "finalize_owned_run e jid rid s n errs t cutoff d db = Inr ((), db3)"
      using assms(3,4) rc(1) by (simp add: finalize_owned_run_def accepted_def Let_def)
    with Inl show False by simp
  qed
  with Inl show ?thesis by simp
next
  case (Inr y)
  obtain u db' where y: "y = (u, db')" by (cases y)
  have wf': "wf_db db'" using finalize_owned_run_sim [OF Inr [unfolded y] assms(1)] by (simp add: simulated_def)
  from Inr [unfolded y] have "\<not> run_is_active jid rid db'"
  proof (cases rule: finalize_owned_runE)
    case (1 R g db2)
    have "wf_db (update_runs R g db)" using assms(1) by (simp add: wf_update_runs 1(4))
    with 1(5) have "\<not> run_is_active jid rid db2" by (rule settled_inactive) (use assms(4) in \<open>auto simp: terminal_run_statuses_def\<close>)
    then show ?thesis using commit_terminal_intent_tables [OF 1(6)] by (simp add: run_is_active_def)
  qed
  with Inr y wf' show ?thesis by simp
qed

lemma fail_ends:
  assumes "wf_db db" and "\<forall>c. cutoff = Some c \<longrightarrow> beats rid c db" and "accepted d jid rid Failed"
  shows "case fail_owned_run e jid rid t cutoff errs d db of
      Inl _ \<Rightarrow> \<not> run_is_active jid rid db | Inr (_, db') \<Rightarrow> wf_db db' \<and> \<not> run_is_active jid rid db'"
proof (cases "fail_owned_run e jid rid t cutoff errs d db")
  case (Inl x)
  have "\<not> run_is_active jid rid db"
  proof
    assume a: "run_is_active jid rid db"
    then obtain j where j: "j \<in> set (jobs db)" "j_job_id j = jid" "j_current_run_id j = Some rid" "j_status j = Running"
      by (auto simp: active_rows)
    have first: "sql_first (\<lambda>j. j_job_id j = jid \<and> j_current_run_id j = Some rid) (jobs db) = Some j"
      using j by (intro sql_first_key [OF wf_dbD(1) [OF assms(1)]]) auto
    define R where "R = (\<lambda>r :: run_row. r_job_id r = jid \<and> r_run_id r = rid \<and> r_status r = Running
                            \<and> (case cutoff of None \<Rightarrow> True | Some c \<Rightarrow> null_gt (r_heartbeat_at r) c))"
    have R: "rowcount R (job_runs db) = 1"
    proof (cases cutoff)
      case None
      then show ?thesis using active_rowcounts(2) [OF assms(1) a] by (simp add: R_def)
    next
      case (Some c)
      with assms(2) active_rowcounts(1) [OF assms(1) a, of c] show ?thesis by (simp add: R_def)
    qed
    have P: "rowcount (\<lambda>j. j_job_id j = jid \<and> j_status j = Running \<and> j_current_run_id j = Some rid) (jobs db) = 1"
      by (rule active_rowcounts(3) [OF assms(1) a])
    obtain db2 where "settle_owned_parent ''fail'' jid rid Running Failed t
        (update_runs R (\<lambda>r. r\<lparr>r_status := Failed, r_completed_at := Some t,
                              r_record_count := sql_coalesce (r_record_count r) (Some 0),
                              r_error_count := errs, r_webhook_reconciled_at := Some t\<rparr>) db) = Inr db2"
      using settle_after_runs [OF P] by blast
    moreover obtain db3 where "commit_terminal_intent e d t db2 = Inr ((), db3)" using commit_accepted [OF assms(3)] by blast
    ultimately have "fail_owned_run e jid rid t cutoff errs d db = Inr ((), db3)"
      using assms(3) R j(4) by (simp add: fail_owned_run_def accepted_def Let_def first R_def [symmetric])
    with Inl show False by simp
  qed
  with Inl show ?thesis by simp
next
  case (Inr y)
  obtain u db' where y: "y = (u, db')" by (cases y)
  have wf': "wf_db db'" using fail_owned_run_sim [OF Inr [unfolded y] assms(1)] by (simp add: simulated_def)
  from Inr [unfolded y] have "\<not> run_is_active jid rid db'"
  proof (cases rule: fail_owned_runE)
    case (queued db1 db2)
    have "\<not> run_is_active jid rid db2"
      by (rule settled_inactive [OF queued(2) insert_failed_queued_run_abs(1) [OF queued(1) assms(1)]]) simp
    then show ?thesis using commit_terminal_intent_tables [OF queued(3)] by (simp add: run_is_active_def)
  next
    case (running R g db2)
    have "wf_db (update_runs R g db)" using assms(1) by (simp add: wf_update_runs running(3))
    with running(4) have "\<not> run_is_active jid rid db2" by (rule settled_inactive) simp
    then show ?thesis using commit_terminal_intent_tables [OF running(5)] by (simp add: run_is_active_def)
  qed
  with Inr y wf' show ?thesis by simp
qed

lemma claim_keeps:
  assumes "wf_db db" and "claim_run e rid jid trig h t db = Inr (b, db')"
  shows "wf_db db'" and "\<not> b \<Longrightarrow> db' = db"
proof -
  show "wf_db db'" using claim_run_sim [OF assms(2,1)] by (simp add: simulated_def)
  show "db' = db" if "\<not> b" using assms(2) that by (cases rule: claim_runE) simp_all
qed

lemma queue_keeps:
  assumes "wf_db db" and "queue_run e jid Queued None rid trig t sb ey req db = Inr (b, db')" and "\<not> run_is_active jid' rid' db"
  shows "wf_db db'" and "\<not> run_is_active jid' rid' db'"
proof -
  have sim: "simulated (workers_max_accepted_runs e) db db'" by (rule queue_run_sim [OF assms(2,1)]) simp_all
  then show wf': "wf_db db'" by (simp add: simulated_def)
  show "\<not> run_is_active jid' rid' db'"
    using assms(2)
  proof (cases rule: queue_runE)
    case (2 P f q)
    have "jobs db' = sql_update P f (jobs db)" "job_runs db' = job_runs db"
      using insert_snapshot_rowE [OF 2(9)] by (simp_all add: update_jobs_def)
    then show ?thesis using assms(3) by (auto simp: active_rows in_sql_update 2(4))
  qed (use assms(3) in simp)
qed

section \<open>The environment of a task\<close>

text \<open>
  What the rest of the system does while a task waits. It keeps the constraints of the tables and never makes this run the
  active one, since only this worker claims it; and as long as the run is running, its heartbeat is newer than the heartbeat
  timeout. Time does not go backwards.
\<close>

definition sound_env :: "port \<Rightarrow> string \<Rightarrow> string \<Rightarrow> bool" where
  "sound_env p jid rid \<longleftrightarrow> (\<forall>n. p_now p n \<le> p_now p (Suc n)) \<and> 0 \<le> p_timeout p
     \<and> (\<forall>n db. wf_db db \<longrightarrow> wf_db (p_env p n db) \<and> (run_is_active jid rid (p_env p n db) \<longrightarrow> run_is_active jid rid db)
          \<and> beats rid (p_now p n - p_timeout p) (p_env p n db))"

text \<open>
  The faults still to come from step \<open>n\<close> on: none, at most one cancellation, or first one fault of any kind and then, unless it
  was a cancellation, at most one cancellation.
\<close>

definition quiet_from :: "port \<Rightarrow> nat \<Rightarrow> bool" where
  "quiet_from p n \<longleftrightarrow> (\<forall>m \<ge> n. \<forall>l. p_fault p l m = None)"

definition calm_from :: "port \<Rightarrow> nat \<Rightarrow> bool" where
  "calm_from p n \<longleftrightarrow> (\<exists>k. (\<forall>m \<ge> n. m \<noteq> k \<longrightarrow> (\<forall>l. p_fault p l m = None))
     \<and> (\<forall>l ft. p_fault p l k = Some ft \<longrightarrow> fault_exn ft = Cancelled_error))"

definition rough_from :: "port \<Rightarrow> nat \<Rightarrow> bool" where
  "rough_from p n \<longleftrightarrow> (\<exists>k. (\<forall>m \<ge> n. m < k \<longrightarrow> (\<forall>l. p_fault p l m = None)) \<and> calm_from p (Suc k)
     \<and> (\<forall>l ft. p_fault p l k = Some ft \<and> fault_exn ft = Cancelled_error \<longrightarrow> quiet_from p (Suc k)))"

definition faults_left :: "port \<Rightarrow> nat \<Rightarrow> nat \<Rightarrow> bool" where
  "faults_left p k n = (if k = 0 then quiet_from p n else if k = 1 then calm_from p n else rough_from p n)"

lemma quiet_calm: "quiet_from p n \<Longrightarrow> calm_from p n"
  unfolding quiet_from_def calm_from_def by (intro exI [of _ n]) auto

lemma quiet_later: "quiet_from p n \<Longrightarrow> n \<le> m \<Longrightarrow> quiet_from p m"
  by (auto simp: quiet_from_def)

lemma calm_later: "calm_from p n \<Longrightarrow> n \<le> m \<Longrightarrow> calm_from p m"
  unfolding calm_from_def by (meson order_trans)

lemma calm_fault: "calm_from p n \<Longrightarrow> p_fault p l n = Some ft \<Longrightarrow> fault_exn ft = Cancelled_error \<and> quiet_from p (Suc n)"
  unfolding calm_from_def quiet_from_def by (metis not_None_eq not_less_eq_eq order_refl Suc_leD)

lemma calm_rough: "calm_from p n \<Longrightarrow> rough_from p n"
  unfolding rough_from_def using calm_fault [of p n] calm_later [of p n "Suc n"] by (intro exI [of _ n]) auto

lemma rough_fault:
  assumes "rough_from p n" and "p_fault p l n = Some ft"
  shows "if fault_exn ft = Cancelled_error then quiet_from p (Suc n) else calm_from p (Suc n)"
proof -
  obtain k where k: "\<forall>m \<ge> n. m < k \<longrightarrow> (\<forall>l. p_fault p l m = None)" "calm_from p (Suc k)"
    "\<forall>l ft. p_fault p l k = Some ft \<and> fault_exn ft = Cancelled_error \<longrightarrow> quiet_from p (Suc k)"
    using assms(1) by (auto simp: rough_from_def)
  have "k \<le> n" using k(1) assms(2) by (metis leI option.distinct(1) order_refl)
  show ?thesis
  proof (cases "k = n")
    case True
    with k assms(2) show ?thesis by auto
  next
    case False
    with \<open>k \<le> n\<close> calm_later [OF k(2), of n] have "calm_from p n" by simp
    with calm_fault [OF this assms(2)] show ?thesis by simp
  qed
qed

lemma rough_later: "rough_from p n \<Longrightarrow> rough_from p (Suc n)"
proof -
  assume "rough_from p n"
  then obtain k where k: "\<forall>m \<ge> n. m < k \<longrightarrow> (\<forall>l. p_fault p l m = None)" "calm_from p (Suc k)"
    "\<forall>l ft. p_fault p l k = Some ft \<and> fault_exn ft = Cancelled_error \<longrightarrow> quiet_from p (Suc k)"
    by (auto simp: rough_from_def)
  show ?thesis
  proof (cases "Suc n \<le> k")
    case True
    then show ?thesis unfolding rough_from_def by (intro exI [of _ k]) (use k in auto)
  next
    case False
    then show ?thesis by (intro calm_rough calm_later [OF k(2)]) simp
  qed
qed

lemma faults_left_later: "faults_left p k n \<Longrightarrow> faults_left p k (Suc n)"
  by (auto simp: faults_left_def intro: quiet_later calm_later rough_later split: if_splits)

lemma faults_left_more: "faults_left p i n \<Longrightarrow> i \<le> k \<Longrightarrow> faults_left p k n"
  by (auto simp: faults_left_def intro: quiet_calm calm_rough split: if_splits)

lemma faults_left_fault:
  assumes "faults_left p k n" and "p_fault p l n = Some ft"
  shows "(k \<ge> 2 \<and> fault_exn ft \<noteq> Cancelled_error \<and> faults_left p 1 (Suc n))
    \<or> (k \<ge> 1 \<and> fault_exn ft = Cancelled_error \<and> faults_left p 0 (Suc n))"
  using assms rough_fault [of p n l ft] calm_fault [of p n l ft]
  by (cases "k = 0"; cases "k = 1") (auto simp: faults_left_def quiet_from_def split: if_splits)

end
