(* ===== verification/Worker_Settles.thy ===== *)
theory Worker_Settles
  imports Worker_Logic
begin

text \<open>
  A task never leaves its run active behind it. The assertion \<open>st p jid rid X b t k\<close> says that the tables keep their constraints,
  the task works on run \<open>rid\<close> in the context \<open>X\<close>, \<open>t\<close> is a past reading of the clock, the faults of level \<open>k\<close> are still to come, and, unless \<open>b\<close>,
  the run is not active. Each statement of the task gets a triple over it; \<open>hit\<close> is what holds after an injected fault.
\<close>

text \<open>An injected fault does not claim that the lease or the ownership of the run is lost.\<close>

definition claims_loss :: "exn \<Rightarrow> bool" where
  "claims_loss e \<longleftrightarrow> is_ownership e \<or> e = Lease_lost"

definition sound_port :: "port \<Rightarrow> string \<Rightarrow> string \<Rightarrow> bool" where
  "sound_port p jid rid \<longleftrightarrow> sound_env p jid rid \<and> keeps_identity (p_redact p) \<and> (\<forall>n. \<not> p_lost p n)
     \<and> (\<forall>l n ft. p_fault p l n = Some ft \<longrightarrow> \<not> claims_loss (fault_exn ft))"

definition st :: "port \<Rightarrow> string \<Rightarrow> string \<Rightarrow> execution_context option \<Rightarrow> bool \<Rightarrow> instant \<Rightarrow> nat \<Rightarrow> world \<Rightarrow> bool" where
  "st p jid rid X b t k w \<longleftrightarrow> wf_db (wd_db w) \<and> wd_context w = X \<and> (\<forall>x. X = Some x \<longrightarrow> x_run_id x = rid) \<and> wd_active_run w = Some rid
     \<and> t \<le> p_now p (wd_tick w) \<and> faults_left p k (wd_tick w) \<and> (b \<or> \<not> run_is_active jid rid (wd_db w))"

definition hit :: "port \<Rightarrow> string \<Rightarrow> string \<Rightarrow> execution_context option \<Rightarrow> bool \<Rightarrow> instant \<Rightarrow> nat \<Rightarrow> exn \<Rightarrow> world \<Rightarrow> bool" where
  "hit p jid rid X b t k e w \<longleftrightarrow> (k \<ge> 2 \<and> e \<noteq> Cancelled_error \<and> \<not> claims_loss e \<and> st p jid rid X b t 1 w)
     \<or> (k \<ge> 1 \<and> e = Cancelled_error \<and> st p jid rid X b t 0 w)"

text \<open>A cancellation, the only thing a best-effort step lets through.\<close>

definition hit_cancel :: "port \<Rightarrow> string \<Rightarrow> string \<Rightarrow> execution_context option \<Rightarrow> bool \<Rightarrow> instant \<Rightarrow> nat \<Rightarrow> exn \<Rightarrow> world \<Rightarrow> bool" where
  "hit_cancel p jid rid X b t k e w \<longleftrightarrow> k \<ge> 1 \<and> e = Cancelled_error \<and> st p jid rid X b t 0 w"

lemma st_more: "st p jid rid X b t i w \<Longrightarrow> (b \<longrightarrow> c) \<Longrightarrow> i \<le> k \<Longrightarrow> st p jid rid X c t k w"
  using faults_left_more by (auto simp: st_def)

lemma st_zero: "st p jid rid X b t 0 w \<Longrightarrow> st p jid rid X b t k w"
  by (erule st_more) simp_all

lemma st_one: "st p jid rid X b t (Suc 0) w \<Longrightarrow> 1 \<le> k \<Longrightarrow> st p jid rid X b t k w"
  by (erule st_more) simp_all

lemma st_flag: "st p jid rid X False t k w \<Longrightarrow> st p jid rid X b t k w"
  by (auto simp: st_def)

lemma st_inactive: "st p jid rid X b t k w \<Longrightarrow> \<not> run_is_active jid rid (wd_db w) \<Longrightarrow> st p jid rid X False t k w"
  by (simp add: st_def)

lemma hit_st: "hit p jid rid X b t k e w \<Longrightarrow> st p jid rid X b t k w"
  by (auto simp: hit_def intro: st_zero st_one)

lemma hit_more: "hit p jid rid X b t k e w \<Longrightarrow> (b \<longrightarrow> c) \<Longrightarrow> hit p jid rid X c t k e w"
  by (cases b; cases c) (auto simp: hit_def intro: st_flag)

lemma hit_cancel_hit: "hit_cancel p jid rid X b t k e w \<Longrightarrow> hit p jid rid X b t k e w"
  by (simp add: hit_cancel_def hit_def)

lemma hit_cancel_more: "hit_cancel p jid rid X b t k e w \<Longrightarrow> (b \<longrightarrow> c) \<Longrightarrow> hit_cancel p jid rid X c t k e w"
  by (cases b; cases c) (auto simp: hit_cancel_def intro: st_flag)

lemma st_fields [simp]:
  "st p jid rid X b t k (w\<lparr>wd_results := r\<rparr>) = st p jid rid X b t k w"
  "st p jid rid X b t k (w\<lparr>wd_errors := er\<rparr>) = st p jid rid X b t k w"
  "st p jid rid X b t k (w\<lparr>wd_budget := bu\<rparr>) = st p jid rid X b t k w"
  "st p jid rid X b t k (w\<lparr>wd_heartbeat := h\<rparr>) = st p jid rid X b t k w"
  "st p jid rid X b t k (w\<lparr>wd_beating := h\<rparr>) = st p jid rid X b t k w"
  "st p jid rid X b t k (w\<lparr>wd_completed_at := c\<rparr>) = st p jid rid X b t k w"
  "st p jid rid X b t k (w\<lparr>wd_shield := h\<rparr>) = st p jid rid X b t k w"
  by (simp_all add: st_def)

lemma st_interfere:
  assumes "sound_port p jid rid" and "st p jid rid X b t k w" and "faults_left p i (Suc (wd_tick w))"
  shows "st p jid rid X b t i (interfere p w)" and "beats rid (t - p_timeout p) (wd_db (interfere p w))"
proof -
  have e: "wf_db (wd_db w) \<Longrightarrow> wf_db (p_env p (wd_tick w) (wd_db w))
      \<and> (run_is_active jid rid (p_env p (wd_tick w) (wd_db w)) \<longrightarrow> run_is_active jid rid (wd_db w))
      \<and> beats rid (p_now p (wd_tick w) - p_timeout p) (p_env p (wd_tick w) (wd_db w))"
    "p_now p (wd_tick w) \<le> p_now p (Suc (wd_tick w))"
    using assms(1) by (auto simp: sound_port_def sound_env_def)
  show "st p jid rid X b t i (interfere p w)"
    using assms(2,3) e by (auto simp: st_def interfere_def)
  show "beats rid (t - p_timeout p) (wd_db (interfere p w))"
    using assms(2) e(1) by (auto simp: st_def interfere_def intro!: beats_mono [where lo = "p_now p (wd_tick w) - p_timeout p"])
qed

section \<open>Awaits\<close>

lemma t_await:
  assumes "sound_port p jid rid" and "b \<longrightarrow> c"
    and "\<And>w. st p jid rid X b t k w \<Longrightarrow> beats rid (t - p_timeout p) (wd_db w) \<Longrightarrow>
      case f w of (Inr x, w') \<Rightarrow> Q x w' | (Inl e, w') \<Rightarrow> E e w'"
    and "\<And>w i. st p jid rid X b t i w \<Longrightarrow> beats rid (t - p_timeout p) (wd_db w) \<Longrightarrow> st p jid rid X c t i (snd (f w))"
    and "\<And>e w. hit p jid rid X c t k e w \<Longrightarrow> E e w"
  shows "triple (st p jid rid X b t k) (await p l f) Q E"
proof (rule tripleI)
  fix w assume w: "st p jid rid X b t k w"
  then have "faults_left p k (wd_tick w)" by (simp add: st_def)
  then have left: "faults_left p k (Suc (wd_tick w))" by (rule faults_left_later)
  note w1 = st_interfere [OF assms(1) w]
  show "case await p l f w of (Inr x, w') \<Rightarrow> Q x w' | (Inl e, w') \<Rightarrow> E e w'"
  proof (cases "p_fault p l (wd_tick w)")
    case None
    with assms(3) [OF w1(1) w1(2)] left show ?thesis by (simp add: await_def Let_def)
  next
    case (Some ft)
    have "case f ((interfere p w)\<lparr>wd_shield := False\<rparr>) of (Inr x, w') \<Rightarrow> Q x w' | (Inl e, w') \<Rightarrow> E e w'"
      by (rule assms(3)) (use w1 left in simp_all)
    moreover have "E (fault_exn ft) (interfere p w)" "E (fault_exn ft) (snd (f (interfere p w)))"
    proof -
      from faults_left_fault [OF \<open>faults_left p k (wd_tick w)\<close> Some] consider
        "k \<ge> 2" "fault_exn ft \<noteq> Cancelled_error" "faults_left p 1 (Suc (wd_tick w))"
        | "k \<ge> 1" "fault_exn ft = Cancelled_error" "faults_left p 0 (Suc (wd_tick w))" by blast
      moreover have "\<not> claims_loss (fault_exn ft)" using assms(1) Some by (auto simp: sound_port_def)
      ultimately have "hit p jid rid X c t k (fault_exn ft) (interfere p w)" "hit p jid rid X c t k (fault_exn ft) (snd (f (interfere p w)))"
        by (cases; use w1 assms(4) st_more [OF w1(1) assms(2) order_refl] in \<open>simp add: hit_def\<close>)+
      then show "E (fault_exn ft) (interfere p w)" "E (fault_exn ft) (snd (f (interfere p w)))" by (blast intro: assms(5))+
    qed
    ultimately show ?thesis using Some by (cases ft) (auto simp: await_def Let_def)
  qed
qed

text \<open>An operation that does not touch the store.\<close>

lemma t_await_inert:
  assumes "sound_port p jid rid" and "\<And>w. \<exists>x w'. f w = (Inr x, w') \<and> (\<forall>i. st p jid rid X b t i w \<longrightarrow> st p jid rid X b t i w')"
  shows "triple (st p jid rid X b t k) (await p l f) (\<lambda>_. st p jid rid X b t k) (hit p jid rid X b t k)"
  by (rule t_await [OF assms(1), where c = b]) (use assms(2) in \<open>fastforce split: prod.splits sum.splits\<close>)+

lemma t_read:
  assumes "sound_port p jid rid"
  shows "triple (st p jid rid X b t k) (await p l (reads (\<lambda>db. Inr (g db)))) (\<lambda>x w. st p jid rid X b t k w \<and> x = g (wd_db w)) (hit p jid rid X b t k)"
  by (rule t_await [OF assms, where c = b]) (auto simp: reads_def on_db_def)

lemma t_except:
  assumes "triple P m Q (hit p jid rid X b t k)" and "\<And>e w. k \<ge> 2 \<Longrightarrow> st p jid rid X b t 1 w \<Longrightarrow> Q d w"
  shows "triple P (m_try m (on_exception (\<lambda>_. m_ret d))) Q (hit_cancel p jid rid X b t k)"
  by (rule t_try [OF assms(1)])
    (auto simp: triple_def on_exception_def m_raise_def m_ret_def hit_def hit_cancel_def intro: assms(2))

lemma t_disj: "triple P m Q E \<Longrightarrow> triple P' m Q E \<Longrightarrow> triple (\<lambda>w. P w \<or> P' w) m Q E"
  by (auto simp: triple_def)

lemma st_earlier: "st p jid rid X b t k w \<Longrightarrow> s \<le> t \<Longrightarrow> st p jid rid X b s k w"
  by (auto simp: st_def)

lemma hit_earlier: "hit p jid rid X b t k e w \<Longrightarrow> s \<le> t \<Longrightarrow> hit p jid rid X b s k e w"
  by (auto simp: hit_def intro: st_earlier)

lemma hit_cancel_earlier: "hit_cancel p jid rid X b t k e w \<Longrightarrow> s \<le> t \<Longrightarrow> hit_cancel p jid rid X b s k e w"
  by (auto simp: hit_cancel_def intro: st_earlier)

section \<open>Best-effort steps\<close>

lemma t_heartbeat_stop:
  assumes "sound_port p jid rid"
  shows "triple (st p jid rid X b t k) (heartbeat_stop p) (\<lambda>_. st p jid rid X b t k) E"
proof -
  have "triple (st p jid rid X b t k) (m_try (await p Heartbeat_stop (m_ret ())) (\<lambda>_. m_ret ())) (\<lambda>_. st p jid rid X b t k) E"
    by (rule t_try [OF t_await_inert [OF assms]])
      (auto simp: m_ret_def triple_def intro: hit_st)
  then show ?thesis unfolding heartbeat_stop_def
    by (intro t_then [OF t_get [where Q = "\<lambda>_. st p jid rid X b t k"]] t_if t_ret
        t_then [OF t_set [where Q = "\<lambda>_. st p jid rid X b t k"]]) simp_all
qed

lemma t_count:
  assumes "sound_port p jid rid"
  shows "triple (st p jid rid X b t k) (count_errors_for_run p r) (\<lambda>_. st p jid rid X b t k) (hit p jid rid X b t k)"
  unfolding count_errors_for_run_def by (rule t_await_inert [OF assms]) (simp add: m_get_def)

lemma t_error_count:
  assumes "sound_port p jid rid"
  shows "triple (st p jid rid X b t k) (error_count_snapshot p (Some r)) (\<lambda>_. st p jid rid X b t k) (hit_cancel p jid rid X b t k)"
  unfolding error_count_snapshot_def option.case by (rule t_except [OF t_count [OF assms]]) (simp add: st_one)

lemma t_dispatch:
  assumes "sound_port p jid rid"
  shows "triple (st p jid rid X b t k) (dispatch_webhook p cfg d) (\<lambda>_. st p jid rid X b t k) (hit_cancel p jid rid X b t k)"
  unfolding dispatch_webhook_def
  by (intro t_if t_ret t_except [OF t_await_inert [OF assms]]) (auto simp: m_ret_def intro: st_one)

lemma t_run_finalized:
  assumes "sound_port p jid rid"
  shows "triple (st p jid rid X b t k) (run_finalized_by_owner p jid r) (\<lambda>_. st p jid rid X b t k) (hit_cancel p jid rid X b t k)"
  unfolding run_finalized_by_owner_def
  by (rule t_except, rule t_then [where R = "\<lambda>_. st p jid rid X b t k"], rule t_weaken [OF t_read [OF assms]])
    (auto simp: triple_def m_ret_def m_then_def m_get_def intro: st_one split: option.splits)

lemma t_discard:
  assumes "sound_port p jid rid"
  shows "triple (st p jid rid X b t k) (discard_unowned_result p jid r) (\<lambda>_. st p jid rid X b t k) (hit_cancel p jid rid X b t k)"
proof (cases r)
  case None
  then show ?thesis by (simp add: discard_unowned_result_def t_ret)
next
  case (Some q)
  have "triple (st p jid rid X b t k) (delete_result p jid q) (\<lambda>_. st p jid rid X b t k) (hit p jid rid X b t k)"
    unfolding delete_result_def by (rule t_await_inert [OF assms]) simp
  then have "triple (st p jid rid X b t k) (m_then (delete_result p jid q) (\<lambda>_. m_ret ())) (\<lambda>_. st p jid rid X b t k) (hit p jid rid X b t k)"
    by (rule t_then) (simp add: t_ret)
  from t_except [OF this] show ?thesis unfolding discard_unowned_result_def Some option.case
    by (intro t_then [OF t_run_finalized [OF assms]] t_if) (simp_all add: t_ret st_one)
qed

section \<open>Ending the run\<close>

lemma delivery_accepted:
  assumes "keeps_identity (p_redact p)"
  shows "accepted (terminal_delivery p x jid s path n errs c) jid (x_run_id x) s"
  using built_delivery_accepted [OF assms]
  by (auto simp: accepted_def terminal_delivery_def validate_optional_delivery_def split: option.splits)

lemma failed_delivery_accepted:
  "keeps_identity (p_redact p) \<Longrightarrow> accepted (failed_webhook_delivery p x jid (Some rid) errs c) jid rid Failed"
  using delivery_accepted [of p "the x\<lparr>x_run_id := rid\<rparr>" jid Failed None "Some 0" errs c]
  by (cases x) (simp_all add: failed_webhook_delivery_def accepted_def validate_optional_delivery_def)

lemma on_db_ends:
  assumes "st p jid rid X b t k w"
    and "case g (wd_db w) of Inl _ \<Rightarrow> \<not> run_is_active jid rid (wd_db w) | Inr (_, db') \<Rightarrow> wf_db db' \<and> \<not> run_is_active jid rid db'"
  shows "case on_db g w of (Inr x, w') \<Rightarrow> st p jid rid X False t k w' | (Inl e, w') \<Rightarrow> e \<noteq> Cancelled_error \<and> st p jid rid X False t k w'"
    and "st p jid rid X False t k (snd (on_db g w))"
  using assms by (auto simp: on_db_def st_def split: sum.splits prod.splits)

text \<open>What holds when an exception leaves a step: an injected fault, or the run is no longer active.\<close>

definition ended :: "port \<Rightarrow> string \<Rightarrow> string \<Rightarrow> execution_context option \<Rightarrow> bool \<Rightarrow> instant \<Rightarrow> nat \<Rightarrow> exn \<Rightarrow> world \<Rightarrow> bool" where
  "ended p jid rid X b t k e w \<longleftrightarrow> hit p jid rid X b t k e w \<or> (e \<noteq> Cancelled_error \<and> st p jid rid X False t k w)"

lemma hit_ended: "hit p jid rid X b t k e w \<Longrightarrow> ended p jid rid X b t k e w"
  by (simp add: ended_def)

lemma ended_more: "ended p jid rid X b t k e w \<Longrightarrow> (b \<longrightarrow> c) \<Longrightarrow> ended p jid rid X c t k e w"
  by (auto simp: ended_def intro: hit_more)

lemma ended_earlier: "ended p jid rid X b t k e w \<Longrightarrow> s \<le> t \<Longrightarrow> ended p jid rid X b s k e w"
  by (auto simp: ended_def intro: hit_earlier st_earlier)

lemma t_ends:
  assumes "sound_port p jid rid"
    and "\<And>db. wf_db db \<Longrightarrow> beats rid (t - p_timeout p) db \<Longrightarrow>
      case g db of Inl _ \<Rightarrow> \<not> run_is_active jid rid db | Inr (_, db') \<Rightarrow> wf_db db' \<and> \<not> run_is_active jid rid db'"
  shows "triple (st p jid rid X b t k) (await p l (on_db g)) (\<lambda>_. st p jid rid X False t k) (ended p jid rid X b t k)"
proof (rule t_await [OF assms(1), where c = b])
  fix w assume w: "st p jid rid X b t k w" "beats rid (t - p_timeout p) (wd_db w)"
  then have "wf_db (wd_db w)" by (simp add: st_def)
  note on_db_ends(1) [where g = g, OF w(1) assms(2) [OF this w(2)]]
  then show "case on_db g w of (Inr x, w') \<Rightarrow> st p jid rid X False t k w' | (Inl e, w') \<Rightarrow> ended p jid rid X b t k e w'"
    by (auto simp: ended_def split: prod.splits sum.splits)
next
  fix w i assume w: "st p jid rid X b t i w" "beats rid (t - p_timeout p) (wd_db w)"
  then have "wf_db (wd_db w)" by (simp add: st_def)
  from on_db_ends(2) [where g = g, OF w(1) assms(2) [OF this w(2)]] show "st p jid rid X b t i (snd (on_db g w))" by (rule st_flag)
qed (simp_all add: ended_def)

lemma t_finalize:
  assumes "sound_port p jid rid" and "accepted d jid rid s" and "terminal s"
  shows "triple (st p jid rid X b t k) (await p l (on_db (finalize_owned_run e jid rid s n errs c (t - p_timeout p) d)))
    (\<lambda>_. st p jid rid X False t k) (ended p jid rid X b t k)"
  by (rule t_ends [OF assms(1)], rule finalize_ends) (use assms in auto)

lemma t_handle_crash:
  assumes "sound_port p jid rid" and "accepted d jid rid Failed" and "\<forall>c. cutoff = Some c \<longrightarrow> c \<le> t - p_timeout p" and "k \<le> 1 \<or> \<not> b"
  shows "triple (st p jid rid X b t k) (handle_crash p jid (Some rid) fa cutoff errs d) (\<lambda>_. st p jid rid X False t k) (hit_cancel p jid rid X b t k)"
proof -
  have "triple (st p jid rid X b t k) (await p Fail_run (on_db (fail_owned_run (p_store p) jid rid fa cutoff errs d)))
      (\<lambda>_. st p jid rid X False t k) (ended p jid rid X b t k)"
    by (rule t_ends [OF assms(1)], rule fail_ends) (use assms(2,3) beats_mono in auto)
  then show ?thesis unfolding handle_crash_def option.case
    by (rule t_try [OF t_then [OF _ t_ret]])
      (use assms(4) in \<open>auto simp: triple_def on_exception_def m_raise_def m_ret_def ended_def hit_def hit_cancel_def intro: st_one\<close>)
qed

lemma t_execution_crash:
  assumes "sound_port p jid rid" and "k \<le> 1 \<or> \<not> b"
  shows "triple (st p jid rid X b t k) (handle_execution_crash p x jid (Some rid)) (\<lambda>_. st p jid rid X False t k) (hit_cancel p jid rid X b t k)"
proof -
  have keeps: "keeps_identity (p_redact p)" using assms(1) by (simp add: sound_port_def)
  define R where "R = (\<lambda>cutoff w. st p jid rid X b t k w \<and> (\<forall>c. cutoff = Some c \<longrightarrow> t \<le> c + p_timeout p \<and> st p jid rid X b (c + p_timeout p) k w))"
  have cutoff: "triple (st p jid rid X b t k) (heartbeat_cutoff p x) R (hit_cancel p jid rid X b t k)"
    by (cases x) (auto simp: heartbeat_cutoff_def utc_now_def triple_def m_ret_def m_then_def m_get_def R_def st_def)
  have crash: "triple (R c) (handle_crash p jid (Some rid) fa c errs (failed_webhook_delivery p x jid (Some rid) errs fa))
      (\<lambda>_. st p jid rid X False t k) (hit_cancel p jid rid X b t k)" for fa errs c
  proof (cases c)
    case None
    show ?thesis unfolding None
      by (rule t_weaken [OF t_handle_crash [OF assms(1) failed_delivery_accepted [OF keeps] _ assms(2)]]) (auto simp: R_def)
  next
    case (Some s)
    have "triple (\<lambda>w. t \<le> s + p_timeout p \<and> st p jid rid X b (s + p_timeout p) k w)
        (handle_crash p jid (Some rid) fa c errs (failed_webhook_delivery p x jid (Some rid) errs fa))
        (\<lambda>_. st p jid rid X False t k) (hit_cancel p jid rid X b t k)"
      by (rule t_pre [of _ "t \<le> s + p_timeout p"], simp)
        (rule t_weaken [OF t_handle_crash [OF assms(1) failed_delivery_accepted [OF keeps] _ assms(2), where t = "s + p_timeout p"]],
          auto simp: Some intro: st_earlier hit_cancel_earlier)
    then show ?thesis by (rule t_weaken) (auto simp: R_def Some)
  qed
  have last: "triple (st p jid rid X False t k)
      (case x of Some c \<Rightarrow> if ok then dispatch_webhook p (x_config c) d else m_ret () | None \<Rightarrow> m_ret ())
      (\<lambda>_. st p jid rid X False t k) (hit_cancel p jid rid X b t k)" for ok d
    by (cases x) (auto intro!: t_ret t_weaken [OF t_dispatch [OF assms(1)]] dest: hit_cancel_more)
  show ?thesis unfolding handle_execution_crash_def Let_def
    by (rule t_then [where R = "\<lambda>_. st p jid rid X b t k"], simp add: utc_now_def t_get,
        rule t_then [OF t_error_count [OF assms(1)]], rule t_then [OF cutoff], rule t_then [OF crash last])
qed

section \<open>Cancellation of the task\<close>

lemma t_worker_cancellation:
  assumes "sound_port p jid rid"
  shows "triple (st p jid rid X b t 0) (handle_worker_cancellation p jid) (\<lambda>_. st p jid rid X False t 0) E"
proof -
  let ?S = "\<lambda>b. st p jid rid X b t 0"
  have no_hit: "hit_cancel p jid rid X b t 0 e w \<Longrightarrow> E e w" "hit p jid rid X b t 0 e w \<Longrightarrow> E' e w" for b e w E'
    by (simp_all add: hit_cancel_def hit_def)
  have active: "triple (?S b) (m_try (await p Run_is_active (reads (\<lambda>db. Inr (run_is_active jid rid db)))) (on_exception (\<lambda>_. m_ret True)))
      (\<lambda>a. ?S a) E"
    by (rule t_try [where R = "\<lambda>_ _. False", OF t_weaken [OF t_read [OF assms, where X = X and b = b and t = t and k = 0]] t_false]) (auto simp: st_def hit_def)
  have finish: "triple (?S a) (m_then (discard_unowned_result p jid (Some rid)) (\<lambda>_.
       if \<not> a then m_ret True else m_then (m_set (\<lambda>w. w\<lparr>wd_shield := True\<rparr>)) (\<lambda>_. m_then (handle_execution_crash p x jid (Some rid)) (\<lambda>_.
         m_then (m_set (\<lambda>w. w\<lparr>wd_shield := False\<rparr>)) (\<lambda>_. m_ret True))))) (\<lambda>_. ?S False) E" for a x
  proof -
    have d: "triple (?S a) (discard_unowned_result p jid (Some rid)) (\<lambda>_. ?S a) E"
      by (rule t_weaken [OF t_discard [OF assms, where b = a and k = 0 and t = t and X = X]]) (auto intro: no_hit(1))
    have c: "triple (?S True) (handle_execution_crash p x jid (Some rid)) (\<lambda>_. ?S False) E"
      by (rule t_weaken [OF t_execution_crash [OF assms, where b = True and k = 0 and t = t and X = X]]) (auto intro: no_hit(1))
    have "triple (?S True) (m_then (m_set (\<lambda>w. w\<lparr>wd_shield := True\<rparr>)) (\<lambda>_. m_then (handle_execution_crash p x jid (Some rid)) (\<lambda>_.
         m_then (m_set (\<lambda>w. w\<lparr>wd_shield := False\<rparr>)) (\<lambda>_. m_ret True)))) (\<lambda>_. ?S False) E"
      by (rule t_then [where R = "\<lambda>_. ?S True"], rule t_set, simp, rule t_then [OF c],
          rule t_then [where R = "\<lambda>_. ?S False"], rule t_set, simp, rule t_ret)
    then show ?thesis by (intro t_then [OF d]) (cases a; simp add: t_ret)
  qed
  have lost: "triple (?S b) (ownership_lost p) (\<lambda>l w. ?S b w \<and> \<not> l) E" for b
    unfolding ownership_lost_def by (rule t_get) (use assms in \<open>simp add: sound_port_def\<close>)
  let ?M = "\<lambda>r x hb lost. m_then (heartbeat_stop p) (\<lambda>_.
       if hb \<and> lost then m_then (discard_unowned_result p jid r) (\<lambda>_. m_ret False) else
       m_then (case r of None \<Rightarrow> m_ret False
         | Some q \<Rightarrow> m_try (await p Run_is_active (reads (\<lambda>db. Inr (run_is_active jid q db)))) (on_exception (\<lambda>_. m_ret True))) (\<lambda>active.
       m_then (discard_unowned_result p jid r) (\<lambda>_.
       if \<not> active then m_ret True else m_then (m_set (\<lambda>w. w\<lparr>wd_shield := True\<rparr>)) (\<lambda>_. m_then (handle_execution_crash p x jid r) (\<lambda>_.
         m_then (m_set (\<lambda>w. w\<lparr>wd_shield := False\<rparr>)) (\<lambda>_. m_ret True))))))"
  have rest: "triple (\<lambda>w. ?S b w \<and> \<not> l) (?M (Some rid) x hb l) (\<lambda>_. ?S False) E" for hb l x
  proof (rule t_pre [of _ "\<not> l"])
    assume "\<not> l"
    then have "triple (?S b) (?M (Some rid) x hb l) (\<lambda>_. ?S False) E"
      unfolding option.case by (intro t_then [OF t_heartbeat_stop [OF assms]] t_if t_then [OF active finish]) simp
    then show "triple (\<lambda>w. ?S b w \<and> \<not> l) (?M (Some rid) x hb l) (\<lambda>_. ?S False) E" by (rule t_weaken) simp_all
  qed simp
  show ?thesis unfolding handle_worker_cancellation_def
  proof (rule t_then [where R = "\<lambda>r w. ?S b w \<and> r = Some rid"])
    show "triple (?S b) (m_get wd_active_run) (\<lambda>r w. ?S b w \<and> r = Some rid) E" by (rule t_get) (simp add: st_def)
  next
    fix r
    have "triple (?S b) (m_then (m_get wd_context) (\<lambda>x. m_then (m_get wd_heartbeat) (\<lambda>hb. m_then (ownership_lost p) (\<lambda>l. ?M (Some rid) x hb l))))
        (\<lambda>_. ?S False) E"
      by (rule t_then [where R = "\<lambda>_. ?S b"], rule t_get, simp, rule t_then [where R = "\<lambda>_. ?S b"], rule t_get, simp, rule t_then [OF lost rest])
    then show "triple (\<lambda>w. ?S b w \<and> r = Some rid)
        (m_then (m_get wd_context) (\<lambda>x. m_then (m_get wd_heartbeat) (\<lambda>hb. m_then (ownership_lost p) (\<lambda>l. ?M r x hb l)))) (\<lambda>_. ?S False) E"
      by (cases "r = Some rid") (auto simp: triple_def)
  qed
qed

end
