(* ===== verification/Worker_Task.thy ===== *)
theory Worker_Task
  imports Worker_Settles
begin

text \<open>
  The budget-failure path, the body of the task and its handlers, over the assertion \<open>st\<close> of \<open>Worker_Settles\<close>; then the property
  that a claimed run is not abandoned.
\<close>

definition refused :: "port \<Rightarrow> string \<Rightarrow> string \<Rightarrow> execution_context option \<Rightarrow> bool \<Rightarrow> instant \<Rightarrow> nat \<Rightarrow> exn \<Rightarrow> world \<Rightarrow> bool" where
  "refused p jid rid X b t k e w \<longleftrightarrow> hit p jid rid X b t k e w \<or> (is_ownership e \<and> st p jid rid X False t k w)"

lemma refused_ended: "refused p jid rid X b t k e w \<Longrightarrow> ended p jid rid X b t k e w"
  by (auto simp: refused_def ended_def)

lemma st_true: "st p jid rid X b t k w \<Longrightarrow> st p jid rid X True t k w"
  by (auto simp: st_def)

lemma hit_cancel_true: "hit_cancel p jid rid X b t i e w \<Longrightarrow> i \<le> k \<Longrightarrow> hit_cancel p jid rid X True t k e w"
  by (auto simp: hit_cancel_def intro: st_true)

lemma t_checkpoint:
  assumes "sound_port p jid rid"
  shows "triple (st p jid rid X b t k) (checkpoint p jid rid nm) (\<lambda>_. st p jid rid X b t k) (refused p jid rid X b t k)"
proof -
  have "triple (\<lambda>w. st p jid rid X b t k w \<and> a = run_is_active jid rid (wd_db w))
      (if a then m_ret () else m_raise (Store_raised (RunOwnershipError nm jid rid))) (\<lambda>_. st p jid rid X b t k) (refused p jid rid X b t k)" for a
    by (intro t_if t_ret t_raise) (auto simp: refused_def intro: st_inactive)
  note act = this
  show ?thesis unfolding checkpoint_def
    by (rule t_then [OF t_weaken [OF t_read [OF assms, where X = X and b = b and t = t and k = k]] act]) (auto simp: refused_def)
qed

lemma t_now:
  assumes "\<And>c. t \<le> c \<Longrightarrow> triple (st p jid rid X b c k) (m c) Q E"
  shows "triple (st p jid rid X b t k) (m_then (utc_now p) m) Q E"
proof (rule t_then [where R = "\<lambda>c w. t \<le> c \<and> st p jid rid X b c k w"])
  show "triple (st p jid rid X b t k) (utc_now p) (\<lambda>c w. t \<le> c \<and> st p jid rid X b c k w) E"
    unfolding utc_now_def by (rule t_get) (simp add: st_def)
  show "triple (\<lambda>w. t \<le> c \<and> st p jid rid X b c k w) (m c) Q E" for c
    using assms by (cases "t \<le> c") (auto simp: triple_def)
qed

lemma t_save:
  assumes "sound_port p jid rid"
  shows "triple (st p jid rid X b t k) (save_run_result p jid r) (\<lambda>_. st p jid rid X b t k) (hit p jid rid X b t k)"
  unfolding save_run_result_def by (rule t_await_inert [OF assms]) (simp add: m_set_def)

lemma t_log:
  assumes "sound_port p jid rid"
  shows "triple (st p jid rid X b t k) (log_error p r) (\<lambda>_. st p jid rid X b t k) (hit p jid rid X b t k)"
  unfolding log_error_def by (rule t_await_inert [OF assms]) (simp add: m_set_def)

section \<open>Run limits\<close>

lemma t_finalize_budget:
  assumes "sound_port p jid rid" and "x_run_id x = rid"
  shows "triple (st p jid rid X b t k) (finalize_budget_failure p x jid t saved errs) (\<lambda>_. st p jid rid X False t k) (hit_cancel p jid rid X True t k)"
proof -
  let ?d = "terminal_delivery p x jid Failed (if saved then Some (p_path p) else None) (Some 0) errs t"
  have acc: "accepted ?d jid rid Failed"
    using delivery_accepted [of p x jid Failed] assms by (simp add: sound_port_def)
  have fin: "triple (st p jid rid X b t k) (m_then (await p Finalize (on_db (finalize_owned_run (p_store p) jid rid Failed 0 errs t (t - p_timeout p) ?d)))
      (\<lambda>_. m_ret True)) (\<lambda>_. st p jid rid X False t k) (ended p jid rid X b t k)"
    by (rule t_then [OF t_finalize [OF assms(1) acc] t_ret]) (simp_all add: terminal_run_statuses_def)
  have crash: "triple (st p jid rid X c t i) (m_then (discard_unowned_result p jid (Some rid)) (\<lambda>_.
       if is_ownership e then m_ret False else m_then (handle_execution_crash p (Some x) jid (Some rid)) (\<lambda>_. m_ret False)))
      (\<lambda>_. st p jid rid X False t i) (hit_cancel p jid rid X c t i)" if "i \<le> 1 \<or> \<not> c" "is_ownership e \<longrightarrow> \<not> c" for c i e
    using that by (intro t_then [OF t_discard [OF assms(1)]] t_if t_then [OF t_execution_crash [OF assms(1)]] t_ret) (auto simp: st_def)
  have handler: "triple (ended p jid rid X b t k e) (on_exception (\<lambda>e. m_then (discard_unowned_result p jid (Some rid)) (\<lambda>_.
       if is_ownership e then m_ret False else m_then (handle_execution_crash p (Some x) jid (Some rid)) (\<lambda>_. m_ret False))) e)
      (\<lambda>_. st p jid rid X False t k) (hit_cancel p jid rid X True t k)" for e
  proof (cases "e = Cancelled_error")
    case True
    then show ?thesis by (auto simp: on_exception_def triple_def m_raise_def ended_def hit_def hit_cancel_def intro: st_true)
  next
    case False
    have "triple (\<lambda>w. (k \<ge> 2 \<and> \<not> claims_loss e) \<and> st p jid rid X b t 1 w) (m_then (discard_unowned_result p jid (Some rid)) (\<lambda>_.
       if is_ownership e then m_ret False else m_then (handle_execution_crash p (Some x) jid (Some rid)) (\<lambda>_. m_ret False)))
      (\<lambda>_. st p jid rid X False t k) (hit_cancel p jid rid X True t k)"
      by (rule t_pre [of _ "k \<ge> 2 \<and> \<not> claims_loss e"], simp, rule t_weaken [OF crash [of 1 b e]])
        (auto simp: claims_loss_def intro: st_one hit_cancel_true)
    moreover have "triple (st p jid rid X False t k) (m_then (discard_unowned_result p jid (Some rid)) (\<lambda>_.
       if is_ownership e then m_ret False else m_then (handle_execution_crash p (Some x) jid (Some rid)) (\<lambda>_. m_ret False)))
      (\<lambda>_. st p jid rid X False t k) (hit_cancel p jid rid X True t k)"
      by (rule t_weaken [OF crash [of k False e]]) (auto intro: hit_cancel_true)
    ultimately show ?thesis
      using t_weaken [OF t_disj] False unfolding on_exception_def by (simp add: ended_def hit_def triple_def)
  qed
  show ?thesis unfolding finalize_budget_failure_def Let_def assms(2)
    by (rule t_then [where R = "\<lambda>_. st p jid rid X b t k"], rule t_set, simp, rule t_then [OF t_try [OF fin handler]], rule t_if,
        rule t_weaken [OF t_dispatch [OF assms(1), where b = False]]) (auto intro: hit_cancel_true t_ret)
qed

lemma t_save_budget:
  assumes "sound_port p jid rid"
  shows "triple (st p jid rid X b t k) (save_budget_result p jid rid)
    (\<lambda>saved w. st p jid rid X b t k w \<and> (saved = None \<longrightarrow> st p jid rid X False t k w)) (hit_cancel p jid rid X b t k)"
proof -
  let ?Q = "\<lambda>saved w. st p jid rid X b t k w \<and> (saved = None \<longrightarrow> st p jid rid X False t k w)"
  have handler: "triple (refused p jid rid X b t k e) (on_exception (\<lambda>e. if is_ownership e
      then m_then (discard_unowned_result p jid (Some rid)) (\<lambda>_. m_ret None) else m_ret (Some s)) e) ?Q (hit_cancel p jid rid X b t k)" for e s
  proof (cases "is_ownership e")
    case True
    have d: "triple (st p jid rid X False t k) (m_then (discard_unowned_result p jid (Some rid)) (\<lambda>_. m_ret None)) ?Q (hit_cancel p jid rid X b t k)"
      by (rule t_then [OF t_weaken [OF t_discard [OF assms, where b = False]] t_ret]) (auto intro: hit_cancel_more st_flag)
    from True have "e \<noteq> Cancelled_error" by auto
    with True show ?thesis
      by (auto simp: on_exception_def refused_def hit_def claims_loss_def intro!: t_weaken [OF d])
  next
    case False
    then show ?thesis
      by (auto simp: on_exception_def triple_def refused_def hit_def hit_cancel_def m_raise_def m_ret_def intro: st_one)
  qed
  have after: "triple (st p jid rid X b t k) (m_then (checkpoint p jid rid nm) (\<lambda>_. m_ret (Some True))) ?Q (refused p jid rid X b t k)" for nm
    by (rule t_then [OF t_checkpoint [OF assms] t_ret]) simp
  have body: "triple (st p jid rid X b t k) (m_then (checkpoint p jid rid nm) (\<lambda>_. m_then (save_run_result p jid rid) (\<lambda>_.
      m_try (m_then (checkpoint p jid rid nm') (\<lambda>_. m_ret (Some True))) (on_exception (\<lambda>e. if is_ownership e
        then m_then (discard_unowned_result p jid (Some rid)) (\<lambda>_. m_ret None) else m_ret (Some True)))))) ?Q (refused p jid rid X b t k)" for nm nm'
    by (rule t_then [OF t_checkpoint [OF assms]], rule t_then [OF t_weaken [OF t_save [OF assms]]],
        assumption, assumption, simp add: refused_def, rule t_weaken [OF t_try [OF after handler]])
      (auto simp: refused_def intro: hit_cancel_hit)
  show ?thesis unfolding save_budget_result_def Let_def by (rule t_try [OF body handler])
qed

lemma t_finish_budget:
  assumes "sound_port p jid rid" and "x_run_id x = rid"
  shows "triple (st p jid rid X b t k) (finish_budget_failure p x jid t saved) (\<lambda>_. st p jid rid X False t k) (hit_cancel p jid rid X True t k)"
proof -
  have lost: "triple (st p jid rid X b t k) (ownership_lost p) (\<lambda>l w. st p jid rid X b t k w \<and> \<not> l) E" for E
    unfolding ownership_lost_def by (rule t_get) (use assms(1) in \<open>simp add: sound_port_def\<close>)
  have rest: "triple (st p jid rid X b t k) (m_then (heartbeat_stop p) (\<lambda>_. m_then (error_count_snapshot p (Some rid)) (\<lambda>errs.
       finalize_budget_failure p x jid t saved errs))) (\<lambda>_. st p jid rid X False t k) (hit_cancel p jid rid X True t k)"
    by (rule t_then [OF t_heartbeat_stop [OF assms(1)]], rule t_then [OF t_weaken [OF t_error_count [OF assms(1), where b = b]] t_finalize_budget [OF assms]])
      (auto intro: hit_cancel_true)
  show ?thesis unfolding finish_budget_failure_def assms(2)
    by (rule t_then [where R = "\<lambda>_. st p jid rid X b t k"], rule t_get, simp, rule t_then [OF lost])
      (use rest in \<open>auto simp: triple_def\<close>)
qed

lemma t_budget_exhaustion:
  assumes "sound_port p jid rid" and "x_run_id x = rid"
  shows "triple (st p jid rid X b t k) (handle_budget_exhaustion p x jid) (\<lambda>_. st p jid rid X False t k) (hit p jid rid X True t k)"
proof -
  have first: "triple (st p jid rid X b t k) (m_try (m_then (checkpoint p jid rid nm) (\<lambda>_. m_ret True))
      (\<lambda>e. if is_ownership e then m_then (discard_unowned_result p jid (Some rid)) (\<lambda>_. m_ret False) else m_raise e))
      (\<lambda>owned w. st p jid rid X b t k w \<and> (\<not> owned \<longrightarrow> st p jid rid X False t k w)) (hit p jid rid X True t k)" for nm
  proof (rule t_try [OF t_then [OF t_checkpoint [OF assms(1)] t_ret]])
    fix e
    have "triple (st p jid rid X False t k) (m_then (discard_unowned_result p jid (Some rid)) (\<lambda>_. m_ret False))
        (\<lambda>owned w. st p jid rid X b t k w \<and> (\<not> owned \<longrightarrow> st p jid rid X False t k w)) (hit p jid rid X True t k)"
      by (rule t_then [OF t_weaken [OF t_discard [OF assms(1), where b = False]] t_ret]) (auto intro: hit_cancel_hit hit_cancel_true st_flag)
    then show "triple (refused p jid rid X b t k e) (if is_ownership e then m_then (discard_unowned_result p jid (Some rid)) (\<lambda>_. m_ret False) else m_raise e)
        (\<lambda>owned w. st p jid rid X b t k w \<and> (\<not> owned \<longrightarrow> st p jid rid X False t k w)) (hit p jid rid X True t k)"
      by (auto simp: triple_def refused_def claims_loss_def hit_def m_raise_def intro: st_true)
  qed simp
  have flush: "triple (st p jid rid X b t k) (m_try (m_then (checkpoint p jid rid nm) (\<lambda>_. log_error p rid)) (on_exception (\<lambda>_. m_ret ())))
      (\<lambda>_. st p jid rid X b t k) (hit p jid rid X True t k)" for nm
    by (rule t_try [OF t_then [OF t_checkpoint [OF assms(1)] t_weaken [OF t_log [OF assms(1)]]]])
      (auto simp: refused_def triple_def on_exception_def m_raise_def m_ret_def hit_def intro: st_one st_flag st_true)
  have finish: "triple (\<lambda>w. st p jid rid X b c k w \<and> (saved = None \<longrightarrow> st p jid rid X False c k w))
      (case saved of None \<Rightarrow> m_ret () | Some s \<Rightarrow> finish_budget_failure p x jid c s) (\<lambda>_. st p jid rid X False t k) (hit p jid rid X True t k)"
    if "t \<le> c" for saved c
    by (cases saved; insert that) (auto intro!: t_ret t_weaken [OF t_finish_budget [OF assms, where b = b]]
        intro: st_earlier hit_cancel_hit hit_earlier [OF hit_cancel_hit])
  have rest: "triple (st p jid rid X b t k) (m_then (utc_now p) (\<lambda>c. m_then (save_budget_result p jid rid) (\<lambda>saved.
      case saved of None \<Rightarrow> m_ret () | Some s \<Rightarrow> finish_budget_failure p x jid c s))) (\<lambda>_. st p jid rid X False t k) (hit p jid rid X True t k)"
    by (rule t_now, rule t_then [OF t_weaken [OF t_save_budget [OF assms(1)]] finish])
      (auto intro: hit_earlier [OF hit_cancel_hit] hit_cancel_true)
  show ?thesis unfolding handle_budget_exhaustion_def Let_def assms(2)
    by (rule t_then [OF first]) (use t_then [OF flush rest] in \<open>auto simp: triple_def m_ret_def\<close>)
qed

lemma t_budget_stop:
  assumes "sound_port p jid rid"
  shows "triple (\<lambda>w. st p jid rid X b t k w \<and> (k \<le> 1 \<or> \<not> b \<or> X \<noteq> None)) (handle_budget_stop p jid)
    (\<lambda>_. st p jid rid X False t k) (hit_cancel p jid rid X True t k)"
proof (rule t_pre [of _ "(k \<le> 1 \<or> \<not> b \<or> X \<noteq> None) \<and> (\<forall>x. X = Some x \<longrightarrow> x_run_id x = rid)"])
  assume pre: "(k \<le> 1 \<or> \<not> b \<or> X \<noteq> None) \<and> (\<forall>x. X = Some x \<longrightarrow> x_run_id x = rid)"
  let ?H = "\<lambda>x. m_then (heartbeat_stop p) (\<lambda>_. m_then (discard_unowned_result p jid (Some rid)) (\<lambda>_. handle_execution_crash p (Some x) jid (Some rid)))"
  have recover: "triple (st p jid rid X True t 1) (?H x) (\<lambda>_. st p jid rid X False t 1) (hit_cancel p jid rid X True t 1)" for x
    by (rule t_then [OF t_heartbeat_stop [OF assms]], rule t_then [OF t_discard [OF assms] t_execution_crash [OF assms]]) simp
  have handler: "triple (hit p jid rid X True t k e) (on_exception (\<lambda>_. ?H x) e) (\<lambda>_. st p jid rid X False t k) (hit_cancel p jid rid X True t k)" for x e
  proof (cases "e = Cancelled_error")
    case True
    then show ?thesis by (auto simp: on_exception_def triple_def m_raise_def hit_def hit_cancel_def)
  next
    case False
    have "triple (\<lambda>w. k \<ge> 2 \<and> st p jid rid X True t 1 w) (?H x) (\<lambda>_. st p jid rid X False t k) (hit_cancel p jid rid X True t k)"
      by (rule t_pre [of _ "k \<ge> 2"], simp, rule t_weaken [OF recover]) (auto intro: st_one hit_cancel_true)
    with False show ?thesis by (auto simp: on_exception_def triple_def hit_def)
  qed
  have "triple (st p jid rid X b t k) (handle_budget_stop p jid) (\<lambda>_. st p jid rid X False t k) (hit_cancel p jid rid X True t k)"
    unfolding handle_budget_stop_def
  proof (rule t_then [where R = "\<lambda>c w. st p jid rid X b t k w \<and> c = X"])
    show "triple (st p jid rid X b t k) (m_get wd_context) (\<lambda>c w. st p jid rid X b t k w \<and> c = X) (hit_cancel p jid rid X True t k)"
      by (rule t_get) (simp add: st_def)
  next
    fix c
    have some: "triple (st p jid rid X b t k) (m_try (handle_budget_exhaustion p x jid) (on_exception (\<lambda>_. ?H x))) (\<lambda>_. st p jid rid X False t k)
        (hit_cancel p jid rid X True t k)" if "X = Some x" for x
      by (rule t_try [OF t_budget_exhaustion [OF assms] handler]) (use pre that in simp)
    have none: "triple (st p jid rid X b t k) (m_then (m_get wd_active_run) (\<lambda>r. handle_execution_crash p None jid r)) (\<lambda>_. st p jid rid X False t k)
        (hit_cancel p jid rid X True t k)" if "X = None"
    proof (rule t_then [where R = "\<lambda>r w. st p jid rid X b t k w \<and> r = Some rid"])
      show "triple (st p jid rid X b t k) (m_get wd_active_run) (\<lambda>r w. st p jid rid X b t k w \<and> r = Some rid) (hit_cancel p jid rid X True t k)"
        by (rule t_get) (simp add: st_def)
      show "triple (\<lambda>w. st p jid rid X b t k w \<and> r = Some rid) (handle_execution_crash p None jid r) (\<lambda>_. st p jid rid X False t k)
          (hit_cancel p jid rid X True t k)" for r
        by (rule t_pre [of _ "r = Some rid"], simp, simp, rule t_weaken [OF t_execution_crash [OF assms, where b = b]])
          (use pre that in \<open>auto intro: hit_cancel_true\<close>)
    qed
    show "triple (\<lambda>w. st p jid rid X b t k w \<and> c = X) (case c of None \<Rightarrow> m_then (m_get wd_active_run) (\<lambda>r. handle_execution_crash p None jid r)
        | Some x \<Rightarrow> m_try (handle_budget_exhaustion p x jid) (on_exception (\<lambda>_. m_then (heartbeat_stop p) (\<lambda>_.
            m_then (discard_unowned_result p jid (Some (x_run_id x))) (\<lambda>_. handle_execution_crash p (Some x) jid (Some (x_run_id x)))))))
        (\<lambda>_. st p jid rid X False t k) (hit_cancel p jid rid X True t k)"
      using some none pre by (cases c; cases "c = X") (auto simp: triple_def)
  qed
  then show ?thesis by (rule t_weaken) simp_all
qed (simp add: st_def)

end
