(* ===== verification/Worker_Sample.thy ===== *)
theory Worker_Sample
  imports Worker_Settles Sample
begin

text \<open>
  A concrete worker: the heartbeat of the run beats at every await, one target succeeds with one record, and the given
  label raises a transient error at the given step, or the task is cancelled there.
\<close>

definition sample_config :: run_config where
  "sample_config = \<lparr>sc_project = ''p'', sc_name = ''j'', sc_webhook = None, rc_fail_strategy = Partial_results,
     rc_limits = \<lparr>x_max_requests = None, x_max_fetched_bytes = None, x_max_extracted_records = None, x_max_serialized_result_bytes = None\<rparr>,
     rc_deadline_at = None\<rparr>"

definition sample_port :: "(label \<Rightarrow> nat \<Rightarrow> fault option) \<Rightarrow> port" where
  "sample_port f = \<lparr>p_store = sample_env,
     p_env = (\<lambda>n. update_runs (\<lambda>r. r_run_id r = ''r'') (\<lambda>r. r\<lparr>r_heartbeat_at := Some (100 + int n)\<rparr>)),
     p_fault = f, p_now = (\<lambda>n. 100 + int n), p_lost = (\<lambda>_. False), p_new_run_id = ''new'', p_load = (\<lambda>_. sample_config),
     p_budget = (\<lambda>_. init_budget 600 1000 1000 1000 1000 1000 (\<lambda>_. 0)),
     p_targets = [(new_result ''u'' Target_success [])\<lparr>tr_data := [[(''title'', JStr ''d'')]]\<rparr>], p_target_errors = 0,
     p_spend = (\<lambda>b. b), p_output = (\<lambda>b. (Inr (), b)), p_path = ''r.json'', p_timeout = 30, p_dispatcher = False, p_redact = (\<lambda>x. x),
     p_isoformat = (\<lambda>_. ''t'')\<rparr>"

definition sample_world :: world where
  "sample_world = \<lparr>wd_db = sample_queued, wd_results = [], wd_errors = [], wd_tick = 0,
     wd_budget = init_budget 600 1000 1000 1000 1000 1000 (\<lambda>_. 0), wd_context = None, wd_active_run = None, wd_heartbeat = False,
     wd_beating = False, wd_completed_at = None, wd_shield = False\<rparr>"

definition sample_run :: "(label \<Rightarrow> nat \<Rightarrow> fault option) \<Rightarrow> (exn + unit) \<times> world" where
  "sample_run f = scrape_task (sample_port f) ''j'' ''y'' (Some ''r'') ''adhoc'' sample_world"

lemma exists_after_update:
  assumes "\<And>x y. Q (x, f y) = Q (x, y)"
  shows "sql_exists Q (List.product xs (sql_update P f ys)) = sql_exists Q (List.product xs ys)"
proof -
  have "list_ex Q (map (Pair x) (sql_update P f ys)) = list_ex Q (map (Pair x) ys)" for x
    using assms by (induction ys) (simp_all add: sql_update_def)
  then show ?thesis by (induction xs) (simp_all add: sql_exists_def)
qed

lemma sample_env_keeps:
  "wf_db db \<Longrightarrow> wf_db (p_env (sample_port f) n db)"
  "run_is_active jid rid (p_env (sample_port f) n db) = run_is_active jid rid db"
proof -
  show "wf_db db \<Longrightarrow> wf_db (p_env (sample_port f) n db)" by (simp add: sample_port_def wf_update_runs)
  show "run_is_active jid rid (p_env (sample_port f) n db) = run_is_active jid rid db"
    by (simp add: sample_port_def run_is_active_def update_runs_def exists_after_update)
qed

lemma sample_port_sound:
  assumes "\<And>l n ft. f l n = Some ft \<Longrightarrow> \<not> claims_loss (fault_exn ft)"
  shows "sound_port (sample_port f) jid ''r''"
proof -
  have "beats ''r'' (p_now (sample_port f) n - p_timeout (sample_port f)) (p_env (sample_port f) n db)" for n db
    by (auto simp: sample_port_def beats_def update_runs_def sql_update_def null_gt_def)
  then have "sound_env (sample_port f) jid ''r''"
    unfolding sound_env_def using sample_env_keeps by (simp add: sample_port_def)
  then show ?thesis using assms by (simp add: sound_port_def keeps_identity_def) (simp add: sample_port_def)
qed

end
