(* ===== verification/Worker_Properties.thy ===== *)
theory Worker_Properties
  imports Worker_Task Worker_Sample
begin

text \<open>Properties of one execution of a delivery: the run is not abandoned, and the status of a run follows its strategy.\<close>

section \<open>The body of the task\<close>

definition stopped :: "port \<Rightarrow> string \<Rightarrow> string \<Rightarrow> execution_context option \<Rightarrow> instant \<Rightarrow> nat \<Rightarrow> exn \<Rightarrow> world \<Rightarrow> bool" where
  "stopped p jid rid X t k e w \<longleftrightarrow> ended p jid rid X True t k e w
     \<or> (X \<noteq> None \<and> (\<exists>y. e = Budget_stop y) \<and> st p jid rid X True t k w)"

lemma ended_stopped: "ended p jid rid X b t k e w \<Longrightarrow> stopped p jid rid X t k e w"
  by (auto simp: stopped_def intro: ended_more)

lemma hit_stopped: "hit p jid rid X b t k e w \<Longrightarrow> stopped p jid rid X t k e w"
  by (rule ended_stopped, rule hit_ended)

lemma refused_stopped: "refused p jid rid X b t k e w \<Longrightarrow> stopped p jid rid X t k e w"
  by (rule ended_stopped, rule refused_ended)

lemma hit_cancel_stopped: "hit_cancel p jid rid X b t k e w \<Longrightarrow> stopped p jid rid X t k e w"
  by (rule hit_stopped, rule hit_cancel_hit)

lemma stopped_earlier: "stopped p jid rid X t k e w \<Longrightarrow> s \<le> t \<Longrightarrow> stopped p jid rid X s k e w"
  by (auto simp: stopped_def intro: ended_earlier st_earlier)

lemma check_deadline_error: "check_deadline b = (Inl e, b') \<Longrightarrow> \<exists>x. e = Budget_exceeded x"
  by (auto simp: check_deadline_def raise_duration_def exceed_def Let_def split: option.splits prod.splits if_splits)

lemma t_deadline:
  assumes "X \<noteq> None"
  shows "triple (st p jid rid X True t k) check_run_deadline (\<lambda>_. st p jid rid X True t k) (stopped p jid rid X t k)"
  by (rule tripleI) (use assms in \<open>auto simp: check_run_deadline_def stopped_def split: prod.splits sum.splits budget_error.splits dest: check_deadline_error\<close>)

lemma t_reads:
  assumes "sound_port p jid rid"
  shows "triple (st p jid rid X False t k) (await p l (reads f)) (\<lambda>_. st p jid rid X False t k) (ended p jid rid X False t k)"
  by (rule t_await [OF assms, where c = False]) (auto simp: reads_def on_db_def ended_def split: sum.splits)

lemma t_load:
  assumes "sound_port p jid rid" and "rid \<noteq> []"
  shows "triple (st p jid rid None False t k) (load_job_execution_context p jid yaml (Some rid))
    (\<lambda>c w. st p jid rid None False t k w \<and> (\<forall>x. c = Some x \<longrightarrow> x_run_id x = rid)) (stopped p jid rid None t k)"
proof -
  let ?S = "st p jid rid None False t k"
  have r: "truthy_or (Some rid) y = rid" for y using assms(2) by (cases rid) (simp_all add: truthy_or_def)
  have cfg: "triple ?S (await p Load_config (m_ret c)) (\<lambda>_. ?S) (stopped p jid rid None t k)" for c :: run_config
    by (rule t_weaken [OF t_await_inert [OF assms(1)]]) (auto simp: m_ret_def intro: hit_stopped)
  show ?thesis unfolding load_job_execution_context_def r Let_def
    by (rule t_then [OF t_weaken [OF t_reads [OF assms(1)]]], assumption, assumption, rule ended_stopped, assumption,
        rule t_if, rule t_ret, simp, rule t_then [OF cfg], rule t_then [where R = "\<lambda>_. ?S"], simp add: utc_now_def t_get,
        rule t_then [where R = "\<lambda>_. ?S"], rule t_set, simp, rule t_ret, simp)
qed

lemma t_claim:
  assumes "sound_port p jid rid"
  shows "triple (st p jid rid X False t k) (await p l (on_db (claim_run e rid jid trig h s))) (\<lambda>c. st p jid rid X c t k) (ended p jid rid X True t k)"
proof (rule t_await [OF assms, where c = True])
  fix w assume w: "st p jid rid X False t k w"
  then have wf: "wf_db (wd_db w)" by (simp add: st_def)
  have "claim_run e rid jid trig h s (wd_db w) = Inr (False, db') \<Longrightarrow> db' = wd_db w" for db'
    using claim_keeps(2) [OF wf] by blast
  with claim_keeps(1) [OF wf] w
  show "case on_db (claim_run e rid jid trig h s) w of (Inr c, w') \<Rightarrow> st p jid rid X c t k w' | (Inl x, w') \<Rightarrow> ended p jid rid X True t k x w'"
    by (auto simp: on_db_def ended_def st_def split: sum.splits prod.splits)
next
  fix w i assume w: "st p jid rid X False t i w"
  then have "wf_db (wd_db w)" by (simp add: st_def)
  from claim_keeps(1) [OF this] w show "st p jid rid X True t i (snd (on_db (claim_run e rid jid trig h s) w))"
    by (auto simp: on_db_def st_def split: sum.splits prod.splits)
qed (simp_all add: ended_def)

lemma t_queue:
  assumes "sound_port p jid rid"
  shows "triple (st p jid rid X False t k) (await p l (on_db (queue_run e jid Queued None rid trig s sb ey req)))
    (\<lambda>_. st p jid rid X False t k) (ended p jid rid X False t k)"
proof -
  have keep: "case on_db (queue_run e jid Queued None rid trig s sb ey req) w of
      (Inr c, w') \<Rightarrow> st p jid rid X False t i w' | (Inl x, w') \<Rightarrow> x \<noteq> Cancelled_error \<and> w' = w"
    if w: "st p jid rid X False t i w" for w i
  proof -
    have "wf_db (wd_db w)" "\<not> run_is_active jid rid (wd_db w)" using w by (simp_all add: st_def)
    from queue_keeps [OF this(1) _ this(2)] w show ?thesis
      by (auto simp: on_db_def st_def split: sum.splits prod.splits)
  qed
  show ?thesis
    by (rule t_await [OF assms, where c = False]) (use keep in \<open>fastforce simp: ended_def split: prod.splits sum.splits\<close>)+
qed

lemma t_mark_started:
  assumes "sound_port p jid rid" and "x_run_id x = rid"
  shows "triple (st p jid rid (Some x) False t k) (mark_run_started p x jid trig) (\<lambda>c. st p jid rid (Some x) c t k) (stopped p jid rid (Some x) t k)"
proof -
  have claim: "triple (st p jid rid (Some x) False t k) (claim_and_check p x jid trig) (\<lambda>c. st p jid rid (Some x) c t k) (stopped p jid rid (Some x) t k)"
  proof -
    have branch: "triple (st p jid rid (Some x) c t k) (if \<not> c then m_ret False else m_then check_run_deadline (\<lambda>_. m_ret True))
        (\<lambda>c. st p jid rid (Some x) c t k) (stopped p jid rid (Some x) t k)" for c
      by (cases c) (auto intro: t_ret t_then [OF t_deadline])
    show ?thesis unfolding claim_and_check_def assms(2)
      by (rule t_then [OF t_weaken [OF t_claim [OF assms(1)]] branch]) (auto intro: ended_stopped)
  qed
  have queue: "triple (st p jid rid (Some x) False t k) (await p l (on_db (queue_run e jid Queued None rid trig s None None False)))
      (\<lambda>_. st p jid rid (Some x) False t k) (stopped p jid rid (Some x) t k)" for l e s
    by (rule t_weaken [OF t_queue [OF assms(1)]]) (auto intro: ended_stopped)
  have branch: "triple (st p jid rid (Some x) False t k) (if \<not> q then m_ret False else claim_and_check p x jid trig)
      (\<lambda>c. st p jid rid (Some x) c t k) (stopped p jid rid (Some x) t k)" for q
    using claim by (cases q) (auto intro: t_ret)
  show ?thesis unfolding mark_run_started_def assms(2)
    by (rule t_if) (rule t_then [OF queue branch], rule claim)
qed

lemma terminal_final_status: "terminal (determine_final_status s rs flat)"
  by (cases s) (simp_all add: determine_final_status_def Let_def terminal_run_statuses_def)

lemma t_persist:
  assumes "sound_port p jid rid" and "x_run_id x = rid"
  shows "triple (st p jid rid (Some x) True t k) (persist_job_results p x jid rs)
    (\<lambda>r w. st p jid rid (Some x) True t k w \<and> terminal (pr_final_status r)) (stopped p jid rid (Some x) t k)"
proof -
  let ?S = "st p jid rid (Some x) True t k" and ?E = "stopped p jid rid (Some x) t k"
  have check: "triple ?S (checkpoint p jid rid nm) (\<lambda>_. ?S) ?E" for nm
    by (rule t_weaken [OF t_checkpoint [OF assms(1)]]) (auto intro: refused_stopped)
  have out: "triple ?S (materialize_output p) (\<lambda>_. ?S) ?E" unfolding materialize_output_def
    by (rule t_await [OF assms(1), where c = True]) (auto simp: stopped_def ended_def split: prod.splits sum.splits)
  have save: "triple ?S (save_run_result p jid rid) (\<lambda>_. ?S) ?E"
    by (rule t_weaken [OF t_save [OF assms(1)]]) (auto intro: hit_stopped)
  show ?thesis unfolding persist_job_results_def Let_def assms(2)
    by (rule t_then [OF check], rule t_then [OF t_deadline], simp, rule t_then [OF out], rule t_then [OF t_deadline], simp,
        rule t_then [OF save], rule t_then [OF check], rule t_ret) (simp add: terminal_final_status)
qed

lemma t_finalize_job:
  assumes "sound_port p jid rid" and "x_run_id x = rid" and "terminal (pr_final_status r)"
  shows "triple (st p jid rid (Some x) True t k) (finalize_job_execution p x jid r) (\<lambda>_. st p jid rid (Some x) False t k) (stopped p jid rid (Some x) t k)"
proof -
  have check: "triple (st p jid rid (Some x) True t k) (checkpoint p jid rid nm) (\<lambda>_. st p jid rid (Some x) True t k) (stopped p jid rid (Some x) t k)" for nm
    by (rule t_weaken [OF t_checkpoint [OF assms(1)]]) (auto intro: refused_stopped)
  have rest: "triple (st p jid rid (Some x) True c k) (m_then (count_errors_for_run p rid) (\<lambda>errs.
      m_then (m_set (\<lambda>w. w\<lparr>wd_completed_at := Some c\<rparr>)) (\<lambda>_.
      m_then (await p Finalize (on_db (finalize_owned_run (p_store p) jid rid (pr_final_status r) n errs c (c - p_timeout p)
          (terminal_delivery p x jid (pr_final_status r) path m errs c)))) (\<lambda>_.
        dispatch_webhook p cfg (terminal_delivery p x jid (pr_final_status r) path m errs c)))))
      (\<lambda>_. st p jid rid (Some x) False t k) (stopped p jid rid (Some x) t k)" if "t \<le> c" for c n m path cfg
  proof -
    have acc: "accepted (terminal_delivery p x jid (pr_final_status r) path m errs c) jid rid (pr_final_status r)" for errs
      using delivery_accepted [of p x jid] assms(1,2) by (simp add: sound_port_def)
    have count: "triple (st p jid rid (Some x) True c k) (count_errors_for_run p rid) (\<lambda>_. st p jid rid (Some x) True c k) (stopped p jid rid (Some x) t k)"
      by (rule t_weaken [OF t_count [OF assms(1)]]) (use that in \<open>auto intro: stopped_earlier [OF hit_stopped]\<close>)
    have fin: "triple (st p jid rid (Some x) True c k) (await p Finalize (on_db (finalize_owned_run (p_store p) jid rid (pr_final_status r) n errs c
        (c - p_timeout p) (terminal_delivery p x jid (pr_final_status r) path m errs c)))) (\<lambda>_. st p jid rid (Some x) False c k) (stopped p jid rid (Some x) t k)" for errs
      by (rule t_weaken [OF t_finalize [OF assms(1) acc assms(3)]]) (use that in \<open>auto intro: stopped_earlier [OF ended_stopped]\<close>)
    have disp: "triple (st p jid rid (Some x) False c k) (dispatch_webhook p cfg d) (\<lambda>_. st p jid rid (Some x) False t k) (stopped p jid rid (Some x) t k)" for d
      by (rule t_weaken [OF t_dispatch [OF assms(1)]]) (use that in \<open>auto intro: st_earlier stopped_earlier [OF hit_cancel_stopped]\<close>)
    show ?thesis
      by (rule t_then [OF count], rule t_then [where R = "\<lambda>_. st p jid rid (Some x) True c k"], rule t_set, simp, rule t_then [OF fin disp])
  qed
  show ?thesis unfolding finalize_job_execution_def Let_def assms(2)
    by (rule t_then [OF check], rule t_now, rule rest)
qed

lemma t_run_claimed:
  assumes "sound_port p jid rid" and "x_run_id x = rid"
  shows "triple (st p jid rid (Some x) True t k) (run_claimed p x jid) (\<lambda>_. st p jid rid (Some x) False t k) (stopped p jid rid (Some x) t k)"
proof -
  let ?S = "st p jid rid (Some x) True t k" and ?E = "stopped p jid rid (Some x) t k"
  have check: "triple ?S (checkpoint p jid rid nm) (\<lambda>_. ?S) ?E" for nm
    by (rule t_weaken [OF t_checkpoint [OF assms(1)]]) (auto intro: refused_stopped)
  have targets: "triple ?S (process_all_targets p rid) (\<lambda>_. ?S) ?E"
    unfolding process_all_targets_def by (rule t_weaken [OF t_await_inert [OF assms(1)]]) (auto intro: hit_stopped)
  have owned: "triple ?S (ensure_owned p) (\<lambda>_. ?S) ?E"
    using assms(1) by (auto simp: ensure_owned_def ownership_lost_def triple_def m_then_def m_get_def m_ret_def sound_port_def)
  have tail: "triple (\<lambda>w. ?S w \<and> terminal (pr_final_status r)) (m_then (ensure_owned p) (\<lambda>_. m_then (heartbeat_stop p) (\<lambda>_. finalize_job_execution p x jid r)))
      (\<lambda>_. st p jid rid (Some x) False t k) ?E" for r
    by (rule t_pre [of _ "terminal (pr_final_status r)"], simp)
      (rule t_weaken [OF t_then [OF owned t_then [OF t_heartbeat_stop [OF assms(1)] t_finalize_job [OF assms]]]], auto)
  show ?thesis unfolding run_claimed_def start_heartbeat_def assms(2)
    by (rule t_then [where R = "\<lambda>_. ?S"], rule t_set, simp, rule t_then [OF check], rule t_then [OF targets], rule t_then [OF t_persist [OF assms] tail])
qed

lemma t_task_body:
  assumes "sound_port p jid rid" and "rid \<noteq> []"
  shows "triple (st p jid rid None False t k) (task_body p jid yaml (Some rid) trig)
    (\<lambda>_ w. \<exists>X. st p jid rid X False t k w) (\<lambda>e w. \<exists>X. stopped p jid rid X t k e w)"
proof -
  let ?Q = "\<lambda>_ w. \<exists>X. st p jid rid X False t k w" and ?E = "\<lambda>e w. \<exists>X. stopped p jid rid X t k e w"
  have main: "triple (\<lambda>w. st p jid rid None False t k w \<and> x_run_id x = rid)
      (m_then (m_set (\<lambda>w. w\<lparr>wd_context := Some x, wd_active_run := Some (x_run_id x)\<rparr>)) (\<lambda>_. m_then (mark_run_started p x jid trig) (\<lambda>claimed.
         if \<not> claimed then m_ret () else run_claimed p x jid))) ?Q ?E" for x
  proof (rule t_pre [of _ "x_run_id x = rid"])
    assume x: "x_run_id x = rid"
    have branch: "triple (st p jid rid (Some x) c t k) (if \<not> c then m_ret () else run_claimed p x jid) ?Q ?E" for c
      by (cases c) (auto intro!: t_ret t_weaken [OF t_run_claimed [OF assms(1) x]])
    show "triple (\<lambda>w. st p jid rid None False t k w \<and> x_run_id x = rid)
      (m_then (m_set (\<lambda>w. w\<lparr>wd_context := Some x, wd_active_run := Some (x_run_id x)\<rparr>)) (\<lambda>_. m_then (mark_run_started p x jid trig) (\<lambda>claimed.
         if \<not> claimed then m_ret () else run_claimed p x jid))) ?Q ?E"
      by (rule t_then [where R = "\<lambda>_. st p jid rid (Some x) False t k"], rule t_set, simp add: st_def,
          rule t_then [OF t_weaken [OF t_mark_started [OF assms(1) x]] branch]) auto
  qed simp
  have branch: "triple (\<lambda>w. st p jid rid None False t k w \<and> (\<forall>x. c = Some x \<longrightarrow> x_run_id x = rid)) (case c of None \<Rightarrow> m_ret ()
      | Some x \<Rightarrow> m_then (m_set (\<lambda>w. w\<lparr>wd_context := Some x, wd_active_run := Some (x_run_id x)\<rparr>)) (\<lambda>_. m_then (mark_run_started p x jid trig) (\<lambda>claimed.
         if \<not> claimed then m_ret () else run_claimed p x jid))) ?Q ?E" for c
    using main by (cases c) (auto intro: t_ret)
  show ?thesis unfolding task_body_def
    by (rule t_then [OF t_weaken [OF t_load [OF assms]] branch]) auto
qed

section \<open>The handlers\<close>

lemma stmt_snd: "triple P m (\<lambda>_. Q) (\<lambda>_. Q) \<Longrightarrow> P w \<Longrightarrow> Q (snd (m w))"
  by (cases "m w") (auto simp: triple_def split: sum.splits)

lemma t_cancel_or_raise:
  assumes "sound_port p jid rid"
  shows "triple (st p jid rid X b t 0) (cancel_or_raise p jid) (\<lambda>_. st p jid rid X False t 0) (\<lambda>_. st p jid rid X False t 0)"
  unfolding cancel_or_raise_def by (rule t_then [OF t_worker_cancellation [OF assms]]) (auto intro: t_if t_raise t_ret)

lemma t_stop_and_discard:
  assumes "sound_port p jid rid"
  shows "triple (st p jid rid X b t k) (stop_and_discard p jid) (\<lambda>_. st p jid rid X b t k) (hit_cancel p jid rid X b t k)"
  unfolding stop_and_discard_def
  by (rule t_then [OF t_heartbeat_stop [OF assms]], rule t_then [where R = "\<lambda>_. st p jid rid X b t k"], rule t_get, simp, rule t_discard [OF assms])

lemma t_on_cancelled:
  assumes "sound_port p jid rid" and "triple P m (\<lambda>_. st p jid rid X False t k) (hit_cancel p jid rid X b t k)"
  shows "triple P (m_try m (on_cancelled (cancel_or_raise p jid))) (\<lambda>_ w. \<exists>k. st p jid rid X False t k w) (\<lambda>_ w. \<exists>k. st p jid rid X False t k w)"
proof -
  have handler: "triple (hit_cancel p jid rid X b t k e) (on_cancelled (cancel_or_raise p jid) e) (\<lambda>_ w. \<exists>k. st p jid rid X False t k w) (\<lambda>_ w. \<exists>k. st p jid rid X False t k w)" for e
    unfolding on_cancelled_def
    by (intro t_if t_weaken [OF t_cancel_or_raise [OF assms(1), where b = b and t = t and X = X]] t_false) (auto simp: hit_cancel_def)
  show ?thesis by (rule t_try [OF t_weaken [OF assms(2)] handler]) auto
qed

lemma t_crash_branch:
  assumes "sound_port p jid rid" and "k \<le> 1 \<or> \<not> b"
  shows "triple (st p jid rid X b t k) (m_then (stop_and_discard p jid) (\<lambda>_. m_then (m_get wd_context) (\<lambda>x. m_then (m_get wd_active_run) (\<lambda>r.
      handle_execution_crash p x jid r)))) (\<lambda>_. st p jid rid X False t k) (hit_cancel p jid rid X b t k)"
proof -
  have crash: "triple (\<lambda>w. st p jid rid X b t k w \<and> r = Some rid) (handle_execution_crash p x jid r) (\<lambda>_. st p jid rid X False t k) (hit_cancel p jid rid X b t k)" for x r
    by (rule t_pre [of _ "r = Some rid"], simp, simp, rule t_weaken [OF t_execution_crash [OF assms]]) auto
  show ?thesis
    by (rule t_then [OF t_stop_and_discard [OF assms(1)]], rule t_then [where R = "\<lambda>_. st p jid rid X b t k"], rule t_get, simp,
        rule t_then [OF t_get crash], simp add: st_def)
qed

lemma t_handler:
  assumes "sound_port p jid rid"
  shows "triple (stopped p jid rid X t 2 e) (task_handler p jid e) (\<lambda>_ w. \<exists>k. st p jid rid X False t k w) (\<lambda>_ w. \<exists>k. st p jid rid X False t k w)"
    (is "triple ?P _ ?Q ?E")
proof -
  have discard: "triple (st p jid rid X False t 2) (stop_and_discard p jid) ?Q ?E"
    by (rule t_weaken [OF t_stop_and_discard [OF assms]]) (auto simp: hit_cancel_def)
  have crash: "triple (st p jid rid X b t i) (m_try (m_then (stop_and_discard p jid) (\<lambda>_. m_then (m_get wd_context) (\<lambda>x. m_then (m_get wd_active_run) (\<lambda>r.
      handle_execution_crash p x jid r)))) (on_cancelled (cancel_or_raise p jid))) ?Q ?E" if "i \<le> 1 \<or> \<not> b" for b i
    by (rule t_on_cancelled [OF assms t_crash_branch [OF assms that]])
  have budget: "triple (\<lambda>w. st p jid rid X b t i w \<and> (i \<le> 1 \<or> \<not> b \<or> X \<noteq> None)) (m_try (handle_budget_stop p jid) (on_cancelled (cancel_or_raise p jid))) ?Q ?E" for b i
    by (rule t_on_cancelled [OF assms t_budget_stop [OF assms]])
  have cancel: "triple (st p jid rid X True t 0) (cancel_or_raise p jid) ?Q ?E"
    by (rule t_weaken [OF t_cancel_or_raise [OF assms]]) auto
  show ?thesis
  proof (cases "e = Cancelled_error \<or> (\<exists>y. e = Budget_stop y) \<or> claims_loss e")
    case True
    then show ?thesis
      using cancel discard budget [of True 1] budget [of True 2] budget [of False 2]
      by (cases e) (auto simp: triple_def task_handler_def stopped_def ended_def hit_def claims_loss_def st_true)
  next
    case False
    then have "task_handler p jid e = m_try (m_then (stop_and_discard p jid) (\<lambda>_. m_then (m_get wd_context) (\<lambda>x. m_then (m_get wd_active_run) (\<lambda>r.
      handle_execution_crash p x jid r)))) (on_cancelled (cancel_or_raise p jid))"
      by (cases e) (auto simp: task_handler_def claims_loss_def)
    then show ?thesis using False crash [of 1 True] crash [of 2 False]
      by (auto simp: triple_def stopped_def ended_def hit_def)
  qed
qed

text \<open>
  Claim C5. A worker does not abandon the run it claimed. One exception of any kind interrupts the task at any await, before or
  after the interrupted operation took effect; if it is not a cancellation, one cancellation may follow at any later await, also
  while the exception is handled. Then the run is not active when the task ends. Assumed: after a first cancellation there is no
  further fault (a second cancellation while the first is handled is not covered, nor is a third fault); no fault reports the
  lease or the ownership as lost, and the heartbeat never reports the lease lost; other transactions keep the database well formed
  and do not start this run, its heartbeat stays fresh and the clock does not go back; redaction keeps the identity of a run; the
  task starts with a well-formed database, no earlier context, and a non-empty run id whose run is not yet active.
\<close>

theorem claimed_run_not_abandoned:
  assumes "sound_port p jid rid" and "rough_from p (wd_tick w)" and "rid \<noteq> []"
    and "wf_db (wd_db w)" and "\<not> run_is_active jid rid (wd_db w)" and "wd_context w = None"
  shows "\<not> run_is_active jid rid (wd_db (snd (scrape_task p jid yaml (Some rid) trig w)))"
proof -
  let ?t = "p_now p (wd_tick w)"
  let ?m = "m_try (m_then (m_set (\<lambda>w. w\<lparr>wd_active_run := Some rid\<rparr>)) (\<lambda>_. task_body p jid yaml (Some rid) trig)) (task_handler p jid)"
  have start: "triple (\<lambda>v. v = w) (m_set (\<lambda>w. w\<lparr>wd_active_run := Some rid\<rparr>)) (\<lambda>_. st p jid rid None False ?t 2) E" for E
    by (rule t_set) (use assms in \<open>auto simp: st_def faults_left_def\<close>)
  have handle: "triple (\<lambda>w. \<exists>X. stopped p jid rid X ?t 2 e w) (task_handler p jid e) (\<lambda>_ w. \<exists>X k. st p jid rid X False ?t k w) (\<lambda>_ w. \<exists>X k. st p jid rid X False ?t k w)" for e
    using t_handler [OF assms(1)] by (fastforce simp: triple_def split: prod.splits sum.splits)
  have "triple (\<lambda>v. v = w) ?m (\<lambda>_ w. \<exists>X k. st p jid rid X False ?t k w) (\<lambda>_ w. \<exists>X k. st p jid rid X False ?t k w)"
    by (rule t_try [OF t_weaken [OF t_then [OF start t_task_body [OF assms(1,3)]]] handle]) auto
  from stmt_snd [OF this refl] obtain X k where "st p jid rid X False ?t k (snd (?m w))" by blast
  then have "st p jid rid X False ?t k (snd (heartbeat_stop p (snd (?m w))))"
    by (rule stmt_snd [OF t_heartbeat_stop [OF assms(1)]])
  then have "\<not> run_is_active jid rid (wd_db (snd (heartbeat_stop p (snd (?m w)))))" by (simp add: st_def)
  then show ?thesis by (simp add: scrape_task_def split_beta)
qed

text \<open>
  In the witness the claim of the run commits while the await of it is cancelled, at step 2.
\<close>

theorem claimed_run_not_abandoned_witness:
  "\<not> run_is_active ''j'' ''r'' (wd_db (snd (sample_run (\<lambda>l n. if l = Claim_run \<and> n = 2 then Some (Committed Cancelled_error) else None))))"
  unfolding sample_run_def
proof (rule claimed_run_not_abandoned)
  let ?f = "\<lambda>l n. if l = Claim_run \<and> n = (2::nat) then Some (Committed Cancelled_error) else None"
  show "sound_port (sample_port ?f) ''j'' ''r''" by (rule sample_port_sound) (auto simp: claims_loss_def split: if_splits)
  show "rough_from (sample_port ?f) (wd_tick sample_world)"
    unfolding rough_from_def calm_from_def quiet_from_def by (intro exI [of _ 2]) (auto simp: sample_port_def)
  show "wf_db (wd_db sample_world)" by code_simp
  show "\<not> run_is_active ''j'' ''r'' (wd_db sample_world)" by code_simp
qed (simp_all add: sample_world_def)

end
