(* ===== verification/Worker_Artifacts.thy ===== *)
theory Worker_Artifacts
  imports Worker_Sample
begin

text \<open>
  The result artifact of a run. A worker that stops on an error deletes the artifact it may have saved, unless its own
  finalisation has committed; the property is that a run recorded complete or partial keeps its artifact, under any faults.
  \<open>keeps k m\<close> says that \<open>m\<close> preserves the relation \<open>k\<close> between \<^verbatim>\<open>jobs.db\<close> and the saved artifacts, also when it raises.
\<close>

definition holds :: "(jobs_db \<Rightarrow> (string \<times> string) list \<Rightarrow> bool) \<Rightarrow> world \<Rightarrow> bool" where
  "holds k w \<longleftrightarrow> k (wd_db w) (wd_results w)"

definition keeps :: "(jobs_db \<Rightarrow> (string \<times> string) list \<Rightarrow> bool) \<Rightarrow> 'a stmt \<Rightarrow> bool" where
  "keeps k m \<longleftrightarrow> triple (holds k) m (\<lambda>_. holds k) (\<lambda>_. holds k)"

definition env_keeps :: "port \<Rightarrow> (jobs_db \<Rightarrow> (string \<times> string) list \<Rightarrow> bool) \<Rightarrow> bool" where
  "env_keeps p k \<longleftrightarrow> (\<forall>n db rs. k db rs \<longrightarrow> k (p_env p n db) rs)"

named_theorems keep_rules \<open>statements that keep a relation between database and artifacts\<close>

lemma k_ret [keep_rules]: "keeps k (m_ret x)" and k_raise [keep_rules]: "keeps k (m_raise e)" and k_get [keep_rules]: "keeps k (m_get f)"
  by (simp_all add: keeps_def t_ret t_raise t_get)

lemma k_then [keep_rules]: "keeps k m \<Longrightarrow> (\<And>x. keeps k (n x)) \<Longrightarrow> keeps k (m_then m n)"
  unfolding keeps_def by (rule t_then)

lemma k_try [keep_rules]: "keeps k m \<Longrightarrow> (\<And>e. keeps k (h e)) \<Longrightarrow> keeps k (m_try m h)"
  unfolding keeps_def by (rule t_try)

lemma k_if [keep_rules]: "(b \<Longrightarrow> keeps k m) \<Longrightarrow> (\<not> b \<Longrightarrow> keeps k n) \<Longrightarrow> keeps k (if b then m else n)"
  by simp

lemma k_on_exception [keep_rules]: "(\<And>e. keeps k (h e)) \<Longrightarrow> keeps k (on_exception h e)"
  by (simp add: on_exception_def k_raise)

lemma k_on_cancelled [keep_rules]: "keeps k h \<Longrightarrow> keeps k (on_cancelled h e)"
  by (simp add: on_cancelled_def k_raise)

lemma k_option [keep_rules]: "keeps k m \<Longrightarrow> (\<And>x. keeps k (n x)) \<Longrightarrow> keeps k (case v of None \<Rightarrow> m | Some x \<Rightarrow> n x)"
  by (cases v) simp_all

lemma k_set: "(\<And>w. wd_db (f w) = wd_db w \<and> wd_results (f w) = wd_results w) \<Longrightarrow> keeps k (m_set f)"
  unfolding keeps_def by (rule t_set) (simp add: holds_def)

lemma holds_interfere: "env_keeps p k \<Longrightarrow> holds k w \<Longrightarrow> holds k (interfere p w)"
  by (simp add: env_keeps_def holds_def interfere_def)

lemma await_triple:
  assumes "\<And>w. P w \<Longrightarrow> P' (interfere p w) \<and> P' ((interfere p w)\<lparr>wd_shield := False\<rparr>)"
    and "triple P' f Q E" and "\<And>w e. P' w \<Longrightarrow> E e w" and "\<And>w e. P' w \<Longrightarrow> E e (snd (f w))"
  shows "triple P (await p l f) Q E"
proof (rule tripleI)
  fix w assume "P w"
  with assms have w: "P' (interfere p w)" "P' ((interfere p w)\<lparr>wd_shield := False\<rparr>)" by auto
  note q = assms(2) [unfolded triple_def, rule_format]
  show "case await p l f w of (Inr x, w') \<Rightarrow> Q x w' | (Inl e, w') \<Rightarrow> E e w'"
    using q [OF w(1)] q [OF w(2)] assms(3,4) [OF w(1)]
    by (cases "p_fault p l (wd_tick w)") (auto simp: await_def Let_def split: fault.splits)
qed

lemma keeps_snd: "keeps k m \<Longrightarrow> holds k w \<Longrightarrow> holds k (snd (m w))"
  by (cases "m w") (auto simp: keeps_def triple_def split: sum.splits)

lemma k_await [keep_rules]:
  assumes "env_keeps p k" and "keeps k f"
  shows "keeps k (await p l f)"
  unfolding keeps_def
  by (rule await_triple [where P' = "holds k"])
    (use assms holds_interfere keeps_snd in \<open>auto simp: keeps_def holds_def interfere_def env_keeps_def\<close>)

lemma k_reads [keep_rules]: "keeps k (reads f)"
  by (auto simp: keeps_def triple_def reads_def on_db_def split: sum.splits)

lemma k_deadline [keep_rules]: "keeps k check_run_deadline"
  by (auto simp: keeps_def triple_def check_run_deadline_def holds_def split: prod.splits sum.splits budget_error.splits)

lemma k_quiet [keep_rules]:
  assumes "env_keeps p k"
  shows "keeps k (checkpoint p jid rid nm)" "keeps k (heartbeat_stop p)" "keeps k (count_errors_for_run p rid)" "keeps k (log_error p rid)"
    "keeps k (dispatch_webhook p cfg d)" "keeps k (utc_now p)" "keeps k (ownership_lost p)" "keeps k (ensure_owned p)" "keeps k start_heartbeat"
    "keeps k (materialize_output p)" "keeps k (process_all_targets p rid)" "keeps k (error_count_snapshot p r)" "keeps k (heartbeat_cutoff p x)"
proof -
  show base: "keeps k (count_errors_for_run p rid)" "keeps k (ownership_lost p)" "keeps k (utc_now p)" for rid
    unfolding count_errors_for_run_def ownership_lost_def utc_now_def by (intro keep_rules assms)+
  show "keeps k (checkpoint p jid rid nm)" "keeps k (dispatch_webhook p cfg d)" "keeps k (ensure_owned p)" "keeps k (error_count_snapshot p r)"
    "keeps k (heartbeat_cutoff p x)"
    unfolding checkpoint_def dispatch_webhook_def ensure_owned_def error_count_snapshot_def heartbeat_cutoff_def by (intro keep_rules assms base)+
  show "keeps k (heartbeat_stop p)" "keeps k (log_error p rid)" "keeps k start_heartbeat"
    unfolding heartbeat_stop_def log_error_def start_heartbeat_def by ((intro keep_rules assms k_set; simp)+)
  show "keeps k (materialize_output p)" "keeps k (process_all_targets p rid)"
    unfolding materialize_output_def process_all_targets_def
    by (rule k_await [OF assms]; auto simp: keeps_def triple_def holds_def split: prod.splits sum.splits)+
qed

section \<open>Runs finalised by their owner\<close>

definition owner_final :: "string \<Rightarrow> string \<Rightarrow> jobs_db \<Rightarrow> bool" where
  "owner_final jid rid db \<longleftrightarrow> (case find_run db jid rid of None \<Rightarrow> False | Some r \<Rightarrow> r_status r \<in> {Complete, Partial})"

lemma owner_final_iff: "owner_final jid rid db \<longleftrightarrow> (\<exists>r. find_run db jid rid = Some r \<and> r_status r \<in> {Complete, Partial})"
  by (simp add: owner_final_def split: option.splits)

definition has_artifact :: "string \<Rightarrow> string \<Rightarrow> jobs_db \<Rightarrow> (string \<times> string) list \<Rightarrow> bool" where
  "has_artifact jid rid db rs \<longleftrightarrow> wf_db db \<and> (owner_final jid rid db \<longrightarrow> (jid, rid) \<in> set rs)"

definition saved :: "string \<Rightarrow> string \<Rightarrow> string \<Rightarrow> jobs_db \<Rightarrow> (string \<times> string) list \<Rightarrow> bool" where
  "saved jid rid r db rs \<longleftrightarrow> has_artifact jid rid db rs \<and> (jid, r) \<in> set rs"

lemma owner_final_rows:
  assumes "wf_db db"
  shows "owner_final jid rid db \<longleftrightarrow> (\<exists>r \<in> set (job_runs db). r_job_id r = jid \<and> r_run_id r = rid \<and> r_status r \<in> {Complete, Partial})"
  using find_run_in [OF assms] find_run_Some unfolding owner_final_iff by blast

lemma fewer_final:
  assumes "wf_db db" and "wf_db db'"
    and "\<And>r. r \<in> set (job_runs db') \<Longrightarrow> r_status r \<in> {Complete, Partial} \<Longrightarrow> r_job_id r = jid \<Longrightarrow> r_run_id r = rid \<Longrightarrow> r \<in> set (job_runs db) \<or> ok"
    and "owner_final jid rid db'"
  shows "owner_final jid rid db \<or> ok"
  using assms(3,4) unfolding owner_final_rows [OF assms(1)] owner_final_rows [OF assms(2)] by blast

lemma claim_final:
  assumes "wf_db db" and "claim_run e r j trig h t db = Inr (b, db')" and "owner_final jid rid db'"
  shows "owner_final jid rid db"
  using assms(2)
proof (cases rule: claim_runE)
  case (2 P f n)
  have "owner_final jid rid db \<or> False"
    by (rule fewer_final [OF assms(1) claim_keeps(1) [OF assms(1,2)] _ assms(3)])
      (use 2(7) in \<open>auto simp: 2(9) delete_snapshots_def add_run_row_def update_jobs_def\<close>)
  then show ?thesis by simp
qed (use assms(3) in simp)

lemma queue_final:
  assumes "wf_db db" and "queue_run e j Queued None r trig t sb ey req db = Inr (b, db')" and "owner_final jid rid db'"
  shows "wf_db db'" and "owner_final jid rid db"
proof -
  have sim: "simulated (workers_max_accepted_runs e) db db'" by (rule queue_run_sim [OF assms(2,1)]) simp_all
  then show "wf_db db'" by (simp add: simulated_def)
  show "owner_final jid rid db"
    using assms(2)
  proof (cases rule: queue_runE)
    case (2 P f q)
    have "job_runs db' = job_runs db" using insert_snapshot_rowE [OF 2(9)] by (simp add: update_jobs_def)
    then show ?thesis using assms(3) by (simp add: owner_final_iff find_run_def)
  qed (use assms(3) in simp)
qed

lemma settle_runs: "settle_owned_parent op j r from s t db = Inr db' \<Longrightarrow> job_runs db' = job_runs db"
  by (auto simp: settle_owned_parent_def Let_def update_jobs_def split: if_splits)

lemma finalize_final:
  assumes "wf_db db" and "finalize_owned_run e j r s n errs t cutoff d db = Inr (u, db')"
  shows "wf_db db'" and "owner_final jid rid db' \<Longrightarrow> owner_final jid rid db \<or> (j = jid \<and> r = rid \<and> s \<noteq> Failed)"
proof -
  show wf': "wf_db db'" using finalize_owned_run_sim [OF assms(2,1)] by (simp add: simulated_def)
  assume f: "owner_final jid rid db'"
  from assms(2) show "owner_final jid rid db \<or> (j = jid \<and> r = rid \<and> s \<noteq> Failed)"
  proof (cases rule: finalize_owned_runE)
    case (1 R g db2)
    have runs: "job_runs db' = sql_update R g (job_runs db)"
      using commit_terminal_intent_tables(2) [OF 1(6)] settle_runs [OF 1(5)] by (simp add: update_runs_def)
    show ?thesis
      by (rule fewer_final [OF assms(1) wf' _ f]) (auto simp: runs in_sql_update 1(3,4))
  qed
qed

lemma fail_final:
  assumes "wf_db db" and "fail_owned_run e j r t cutoff errs d db = Inr (u, db')"
  shows "wf_db db'" and "owner_final jid rid db' \<Longrightarrow> owner_final jid rid db"
proof -
  show wf': "wf_db db'" using fail_owned_run_sim [OF assms(2,1)] by (simp add: simulated_def)
  assume f: "owner_final jid rid db'"
  have "owner_final jid rid db \<or> False"
    using assms(2)
  proof (cases rule: fail_owned_runE)
    case (queued db1 db2)
    from queued(1) obtain m where m: "r_status m = Failed" "job_runs db1 = job_runs db @ [m]"
      by (rule insert_failed_queued_runE) (simp add: delete_snapshots_def add_run_row_def)
    have "job_runs db' = job_runs db @ [m]"
      using commit_terminal_intent_tables(2) [OF queued(3)] settle_runs [OF queued(2)] m(2) by simp
    then show ?thesis by (intro fewer_final [OF assms(1) wf' _ f]) (use m(1) in auto)
  next
    case (running R g db2)
    have runs: "job_runs db' = sql_update R g (job_runs db)"
      using commit_terminal_intent_tables(2) [OF running(5)] settle_runs [OF running(4)] by (simp add: update_runs_def)
    show ?thesis by (rule fewer_final [OF assms(1) wf' _ f]) (auto simp: runs in_sql_update running(2,3))
  qed
  then show "owner_final jid rid db" by simp
qed

section \<open>The environment\<close>

text \<open>
  Only the worker that owns a run records it complete or partial, and the row of the run can be read: the read that precedes a
  deletion may be cancelled, but does not fail.
\<close>

definition honest_env :: "port \<Rightarrow> string \<Rightarrow> string \<Rightarrow> bool" where
  "honest_env p jid rid \<longleftrightarrow> (\<forall>n db. wf_db db \<longrightarrow> wf_db (p_env p n db) \<and> (owner_final jid rid (p_env p n db) \<longrightarrow> owner_final jid rid db))"

definition readable :: "port \<Rightarrow> bool" where
  "readable p \<longleftrightarrow> (\<forall>n ft. p_fault p Get_job_run n = Some ft \<longrightarrow> fault_exn ft = Cancelled_error)"

lemma stable_artifact: "honest_env p jid rid \<Longrightarrow> env_keeps p (has_artifact jid rid)" "honest_env p jid rid \<Longrightarrow> env_keeps p (saved jid rid r)"
  by (auto simp: env_keeps_def has_artifact_def saved_def honest_env_def)

lemma k_on_db:
  assumes "\<And>db a db'. wf_db db \<Longrightarrow> g db = Inr (a, db') \<Longrightarrow> wf_db db'"
    and "\<And>db a db'. wf_db db \<Longrightarrow> g db = Inr (a, db') \<Longrightarrow> owner_final jid rid db' \<Longrightarrow> owner_final jid rid db"
  shows "keeps (has_artifact jid rid) (on_db g)"
  unfolding keeps_def by (rule tripleI) (use assms in \<open>auto simp: holds_def has_artifact_def on_db_def split: sum.splits prod.splits\<close>)

lemma k_fail: "keeps (has_artifact jid rid) (on_db (fail_owned_run e j r t cutoff errs d))"
  by (rule k_on_db) (auto intro: fail_final)

lemma k_claim: "keeps (has_artifact jid rid) (on_db (claim_run e r j trig h t))"
  by (rule k_on_db) (auto intro: claim_keeps(1) claim_final)

lemma k_queue: "keeps (has_artifact jid rid) (on_db (queue_run e j Queued None r trig t sb ey req))"
proof (rule k_on_db)
  show "wf_db db'" if "wf_db db" "queue_run e j Queued None r trig t sb ey req db = Inr (a, db')" for db a db'
    using queue_run_sim [OF that(2,1)] by (simp add: simulated_def)
qed (rule queue_final(2))

lemma k_finalize_failed: "keeps (has_artifact jid rid) (on_db (finalize_owned_run e j r Failed n errs t cutoff d))"
  by (rule k_on_db) (auto intro: finalize_final(1) dest: finalize_final(2))

lemma k_save: "env_keeps p (has_artifact jid rid) \<Longrightarrow> keeps (has_artifact jid rid) (save_run_result p j r)"
  unfolding save_run_result_def
  by (rule k_await) (auto simp: keeps_def triple_def m_set_def holds_def has_artifact_def)

section \<open>Discarding an artifact\<close>

lemma t_finalized_by_owner:
  assumes "honest_env p jid rid" and "readable p"
  shows "triple (holds (has_artifact jid rid)) (run_finalized_by_owner p jid r)
    (\<lambda>f w. holds (has_artifact jid rid) w \<and> (f \<or> r \<noteq> rid \<or> \<not> owner_final jid rid (wd_db w))) (\<lambda>_. holds (has_artifact jid rid))"
proof -
  let ?H = "holds (has_artifact jid rid)"
  have read: "triple ?H (await p Get_job_run (reads (\<lambda>db. Inr (find_run db jid r)))) (\<lambda>run w. ?H w \<and> run = find_run (wd_db w) jid r)
      (\<lambda>e w. ?H w \<and> e = Cancelled_error)"
  proof (rule tripleI)
    fix w assume "?H w"
    then have w: "?H (interfere p w)" by (rule holds_interfere [OF stable_artifact(1) [OF assms(1)]])
    then have "?H ((interfere p w)\<lparr>wd_shield := False\<rparr>)" by (simp add: holds_def)
    moreover have "x = Cancelled_error" if "p_fault p Get_job_run (wd_tick w) = Some (Before x) \<or> p_fault p Get_job_run (wd_tick w) = Some (Committed x)" for x
      using that assms(2) unfolding readable_def by (metis fault_exn.simps)
    ultimately show "case await p Get_job_run (reads (\<lambda>db. Inr (find_run db jid r))) w of
        (Inr run, w') \<Rightarrow> ?H w' \<and> run = find_run (wd_db w') jid r | (Inl e, w') \<Rightarrow> ?H w' \<and> e = Cancelled_error"
      using w by (cases "p_fault p Get_job_run (wd_tick w)")
        (auto simp: await_def Let_def reads_def on_db_def split: fault.splits)
  qed
  show ?thesis unfolding run_finalized_by_owner_def
    by (rule t_try [OF t_then [OF read]])
      (auto simp: triple_def m_ret_def m_then_def m_get_def m_raise_def on_exception_def owner_final_iff split: option.splits)
qed

lemma k_discard:
  assumes "honest_env p jid rid" and "readable p"
  shows "keeps (has_artifact jid rid) (discard_unowned_result p jid r)"
proof (cases r)
  case None
  then show ?thesis by (simp add: discard_unowned_result_def k_ret)
next
  case (Some q)
  let ?H = "holds (has_artifact jid rid)" and ?P = "\<lambda>w. holds (has_artifact jid rid) w \<and> (q \<noteq> rid \<or> \<not> owner_final jid rid (wd_db w))"
  have delete: "triple ?P (delete_result p jid q) (\<lambda>_. ?H) (\<lambda>_. ?H)"
    unfolding delete_result_def
    by (rule await_triple [where P' = ?P])
      (use assms(1) in \<open>auto simp: triple_def holds_def has_artifact_def interfere_def honest_env_def\<close>)
  have "triple ?P (m_try (m_then (delete_result p jid q) (\<lambda>_. m_ret ())) (on_exception (\<lambda>_. m_ret ()))) (\<lambda>_. ?H) (\<lambda>_. ?H)"
    by (rule t_try [OF t_then [OF delete]]) (auto intro: t_ret simp: on_exception_def t_raise)
  then show ?thesis unfolding keeps_def discard_unowned_result_def Some option.case
    by (intro t_then [OF t_finalized_by_owner [OF assms]] t_if t_ret) (auto elim: t_weaken)
qed

section \<open>The task\<close>

lemma k_failure_paths:
  assumes "honest_env p jid rid" and "readable p"
  shows "keeps (has_artifact jid rid) (handle_execution_crash p x jid r)"
    and "keeps (has_artifact jid rid) (handle_worker_cancellation p jid)"
    and "keeps (has_artifact jid rid) (handle_budget_stop p jid)"
    and "keeps (has_artifact jid rid) (stop_and_discard p jid)"
proof -
  note s = stable_artifact(1) [OF assms(1)] and d = k_discard [OF assms]
  show crash: "keeps (has_artifact jid rid) (handle_execution_crash p x jid r)" for x r
    unfolding handle_execution_crash_def handle_crash_def Let_def by (intro keep_rules s k_fail)
  show "keeps (has_artifact jid rid) (handle_worker_cancellation p jid)"
    unfolding handle_worker_cancellation_def by (intro keep_rules s d crash k_set) simp_all
  show "keeps (has_artifact jid rid) (stop_and_discard p jid)"
    unfolding stop_and_discard_def by (intro keep_rules s d)
  show "keeps (has_artifact jid rid) (handle_budget_stop p jid)"
    unfolding handle_budget_stop_def handle_budget_exhaustion_def save_budget_result_def finish_budget_failure_def finalize_budget_failure_def Let_def
    by (intro keep_rules s d crash k_save k_finalize_failed k_set) simp_all
qed

lemma k_start:
  assumes "honest_env p jid rid"
  shows "keeps (has_artifact jid rid) (load_job_execution_context p jid yaml r)" "keeps (has_artifact jid rid) (mark_run_started p x jid trig)"
proof -
  note s = stable_artifact(1) [OF assms]
  show "keeps (has_artifact jid rid) (load_job_execution_context p jid yaml r)"
    unfolding load_job_execution_context_def Let_def by (intro keep_rules s k_set) simp_all
  show "keeps (has_artifact jid rid) (mark_run_started p x jid trig)"
    unfolding mark_run_started_def claim_and_check_def by (intro keep_rules s k_claim k_queue)
qed

lemma t_persist_saves:
  assumes "honest_env p jid rid"
  shows "triple (holds (has_artifact jid rid)) (persist_job_results p x jid rs) (\<lambda>_. holds (saved jid rid (x_run_id x))) (\<lambda>_. holds (has_artifact jid rid))"
proof -
  let ?H = "holds (has_artifact jid rid)" and ?S = "holds (saved jid rid (x_run_id x))"
  note s = stable_artifact [OF assms]
  have check: "triple ?H (checkpoint p jid (x_run_id x) nm) (\<lambda>_. ?H) (\<lambda>_. ?H)" "triple ?H check_run_deadline (\<lambda>_. ?H) (\<lambda>_. ?H)"
    "triple ?H (materialize_output p) (\<lambda>_. ?H) (\<lambda>_. ?H)" for nm
    using k_quiet [OF s(1)] k_deadline by (auto simp: keeps_def)
  have save: "triple ?H (save_run_result p jid (x_run_id x)) (\<lambda>_. ?S) (\<lambda>_. ?H)"
    unfolding save_run_result_def
    by (rule await_triple [where P' = ?H])
      (use assms in \<open>auto simp: triple_def m_set_def holds_def has_artifact_def saved_def interfere_def honest_env_def\<close>)
  have after: "triple ?S (checkpoint p jid (x_run_id x) nm) (\<lambda>_. ?S) (\<lambda>_. ?H)" for nm
    using k_quiet(1) [OF s(2)] unfolding keeps_def by (rule t_weaken) (auto simp: holds_def saved_def)
  show ?thesis unfolding persist_job_results_def Let_def
    by (rule t_then [OF check(1)], rule t_then [OF check(2)], rule t_then [OF check(3)], rule t_then [OF check(2)],
        rule t_then [OF save], rule t_then [OF after], rule t_ret)
qed

lemma t_finalize_saved:
  assumes "honest_env p jid rid"
  shows "triple (holds (saved jid rid (x_run_id x))) (finalize_job_execution p x jid r) (\<lambda>_. holds (has_artifact jid rid)) (\<lambda>_. holds (has_artifact jid rid))"
proof -
  let ?H = "holds (has_artifact jid rid)" and ?S = "holds (saved jid rid (x_run_id x))"
  note s = stable_artifact [OF assms]
  have weak: "triple ?S m (\<lambda>_. ?S) (\<lambda>_. ?H)" if "keeps (saved jid rid (x_run_id x)) m" for m :: "'a stmt"
    using that unfolding keeps_def by (rule t_weaken) (auto simp: holds_def saved_def)
  note quiet = k_quiet [OF s(2) [of "x_run_id x"]]
  have db: "triple ?S (on_db (finalize_owned_run e jid (x_run_id x) st n errs t c d)) (\<lambda>_. ?H) (\<lambda>_. ?H)" for e st n errs t c d
    by (rule tripleI)
      (auto simp: on_db_def holds_def saved_def has_artifact_def split: sum.splits prod.splits dest: finalize_final(1) finalize_final(2) [where rid = rid and jid = jid])
  have fin: "triple ?S (await p Finalize (on_db (finalize_owned_run e jid (x_run_id x) st n errs t c d))) (\<lambda>_. ?H) (\<lambda>_. ?H)" for e st n errs t c d
  proof (rule await_triple [where P' = ?S, OF _ db])
    show "?H (snd (on_db (finalize_owned_run e jid (x_run_id x) st n errs t c d) w))" if "?S w" for w
      using db [of e st n errs t c d] that by (cases "on_db (finalize_owned_run e jid (x_run_id x) st n errs t c d) w") (auto simp: triple_def split: sum.splits)
  qed (use holds_interfere [OF s(2)] in \<open>auto simp: holds_def saved_def\<close>)
  have disp: "triple ?H (dispatch_webhook p cfg d) (\<lambda>_. ?H) (\<lambda>_. ?H)" for cfg d
    using k_quiet(5) [OF s(1)] by (simp add: keeps_def)
  show ?thesis unfolding finalize_job_execution_def Let_def
    by (rule t_then [OF weak [OF quiet(1)]], rule t_then [OF weak [OF quiet(6)]], rule t_then [OF weak [OF quiet(3)]],
        rule t_then [OF weak [OF k_set]], simp, rule t_then [OF fin disp])
qed

lemma k_body:
  assumes "honest_env p jid rid"
  shows "keeps (has_artifact jid rid) (task_body p jid yaml r trig)"
proof -
  let ?H = "holds (has_artifact jid rid)"
  note s = stable_artifact [OF assms]
  have tail: "triple (holds (saved jid rid (x_run_id x))) (m_then (ensure_owned p) (\<lambda>_. m_then (heartbeat_stop p) (\<lambda>_. finalize_job_execution p x jid q)))
      (\<lambda>_. ?H) (\<lambda>_. ?H)" for x q
  proof -
    have "triple (holds (saved jid rid (x_run_id x))) m (\<lambda>_. holds (saved jid rid (x_run_id x))) (\<lambda>_. ?H)"
      if "keeps (saved jid rid (x_run_id x)) m" for m :: "unit stmt"
      using that unfolding keeps_def by (rule t_weaken) (auto simp: holds_def saved_def)
    then show ?thesis using k_quiet [OF s(2) [of "x_run_id x"]] by (intro t_then [OF _ t_then [OF _ t_finalize_saved [OF assms]]]) auto
  qed
  have persist: "keeps (has_artifact jid rid) (m_then (persist_job_results p x jid rs) (\<lambda>q. m_then (ensure_owned p) (\<lambda>_. m_then (heartbeat_stop p) (\<lambda>_.
      finalize_job_execution p x jid q))))" for x rs
    unfolding keeps_def by (rule t_then [OF t_persist_saves [OF assms] tail])
  note quiet = k_quiet [OF s(1)]
  have claimed: "keeps (has_artifact jid rid) (run_claimed p x jid)" for x
    unfolding run_claimed_def by (rule k_then [OF quiet(9)], rule k_then [OF quiet(1)], rule k_then [OF quiet(11)], rule persist)
  show ?thesis unfolding task_body_def
    by (intro k_then k_start [OF assms] k_option k_ret k_if claimed k_set) simp_all
qed

text \<open>
  Claim C6. A run recorded complete or partial has its result artifact: exceptions and cancellations may interrupt the task, however
  many and at whichever awaits, and the clean-up of a stopped worker does not delete the artifact of a run whose finalisation
  committed, and no run is finalised complete or partial before its artifact is saved. Assumed: the read of the run row that
  precedes the deletion of an artifact may be cancelled but raises no other error (when it does, the worker takes the run as not
  finalised and deletes the artifact), other transactions do not record this run complete or partial, they keep the database well
  formed, and at the start of the task a run that is already recorded so has its artifact.
\<close>

theorem finalized_run_keeps_artifact:
  assumes "honest_env p jid rid" and "readable p" and "has_artifact jid rid (wd_db w) (wd_results w)"
    and "scrape_task p jid yaml r trig w = (res, w')" and "owner_final jid rid (wd_db w')"
  shows "(jid, rid) \<in> set (wd_results w')"
proof -
  let ?m = "m_try (m_then (m_set (\<lambda>w. w\<lparr>wd_active_run := r\<rparr>)) (\<lambda>_. task_body p jid yaml r trig)) (task_handler p jid)"
  have cancel: "keeps (has_artifact jid rid) (cancel_or_raise p jid)"
    unfolding cancel_or_raise_def by (intro keep_rules k_failure_paths(2) [OF assms(1,2)])
  have handler: "keeps (has_artifact jid rid) (task_handler p jid e)" for e
    unfolding task_handler_def using cancel k_failure_paths [OF assms(1,2)]
    by (cases e) (auto intro!: keep_rules)
  have "keeps (has_artifact jid rid) ?m"
    by (intro keep_rules k_set k_body [OF assms(1)] handler) simp_all
  from keeps_snd [OF this] assms(3) have "holds (has_artifact jid rid) (snd (?m w))" by (simp add: holds_def)
  from keeps_snd [OF k_quiet(2) [OF stable_artifact(1) [OF assms(1)]] this]
  have "holds (has_artifact jid rid) w'" using assms(4) by (auto simp: scrape_task_def split: prod.splits)
  then show ?thesis using assms(5) by (simp add: holds_def has_artifact_def)
qed

text \<open>
  In the witness the finalisation commits while the await of it is cancelled.
\<close>

theorem finalized_run_keeps_artifact_witness:
  "(''j'', ''r'') \<in> set (wd_results (snd (sample_run (\<lambda>l n. if l = Finalize then Some (Committed Cancelled_error) else None))))"
proof -
  let ?f = "\<lambda>l (n::nat). if l = Finalize then Some (Committed Cancelled_error) else None"
  have env: "owner_final jid rid (p_env (sample_port f) n db) \<Longrightarrow> owner_final jid rid db" if "wf_db db" for f n db jid rid
    unfolding owner_final_rows [OF that] owner_final_rows [OF sample_env_keeps(1) [OF that]]
    by (fastforce simp: sample_port_def update_runs_def in_sql_update)
  show ?thesis unfolding sample_run_def
  proof (rule finalized_run_keeps_artifact [OF _ _ _ prod.collapse [symmetric]])
    show "honest_env (sample_port ?f) ''j'' ''r''" by (auto simp: honest_env_def sample_env_keeps env)
    show "readable (sample_port ?f)" by (simp add: readable_def sample_port_def)
    show "has_artifact ''j'' ''r'' (wd_db sample_world) (wd_results sample_world)"
      by code_simp
    show "owner_final ''j'' ''r'' (wd_db (snd (scrape_task (sample_port ?f) ''j'' ''y'' (Some ''r'') ''adhoc'' sample_world)))"
      by code_simp
  qed
qed

end
