(* ===== verification/Target_Flow.thy ===== *)
theory Target_Flow
  imports Statements Fetch_Classifier Circuit_Breaker Domain_Guard
begin

text \<open>
  The processing of one target of a run: \<^verbatim>\<open>queue/target_execution.py\<close>, \<^verbatim>\<open>queue/error_records.py\<close>,
  \<^verbatim>\<open>queue/validation_policy.py\<close> and the target functions of \<^verbatim>\<open>queue/worker.py\<close>.

  \<^item> \<open>target_world\<close> holds what the task of one target reads and writes: the circuit breaker and the denied hosts, which it
    shares with the other targets, its pending errors, and the fields of its \<open>TargetRuntimeContext\<close> that change.
    \<open>tw_history\<close> lists every operation on the breaker, by this task and by others, in their order.
  \<^item> \<open>t_await\<close> is one \<^verbatim>\<open>await\<close>: the other tasks act, then the awaited operation runs or raises. Calls of the breaker do not wait.
  \<^item> The scraping of the pages is the function \<open>tp_scrape\<close> of the port: a result or an exception, and whether a response arrived.
  \<^item> Timestamps of error records, log lines and metrics are left out.
\<close>

section \<open>Configuration and errors\<close>

record target_config =
  tc_url :: string
  tc_fetcher :: fetcher_type
  tc_proxy :: "string option"

record flow_config =
  fc_project :: string
  fc_adaptive :: "bool option"
  fc_scheduled :: bool
  fc_proxy :: "string option"
  fc_validation :: validation_config
  fc_delay_between :: rat
  fc_post_target_delay :: rat

record error_record =
  er_job_id :: string
  er_run_id :: string
  er_project :: string
  er_target_url :: string
  er_attempt :: nat
  er_error_type :: error_type
  er_http_status :: "int option"
  er_fetcher_used :: string
  er_error_message :: "string option"
  er_action_taken :: action_taken
  er_resolved :: bool

datatype target_exn = T_cancelled | T_ownership | T_budget | T_raised fetch_exception

datatype target_label = L_semaphore | L_checkpoint string | L_lock | L_sleep | L_deadline | L_slot | L_scrape | L_validate | L_log | L_denial

record target_runtime =
  rt_domain :: string
  rt_adaptive :: bool
  rt_proxy_url :: "string option"
  rt_artifacts_dir :: "string option"

record 's target_world =
  tw_breaker :: breaker
  tw_history :: "(breaker_op \<times> rat) list"
  tw_denied :: "string list"
  tw_guard :: "run_domain_policy option \<times> 's"
  tw_pending :: "error_record list"
  tw_logged :: "error_record list"
  tw_probe :: "circuit_probe option"
  tw_observed :: bool
  tw_scrapes :: nat
  tw_next_start :: rat
  tw_tick :: nat

record 's target_port =
  tp_env :: "nat \<Rightarrow> (breaker_op \<times> rat) list"
  tp_env_denied :: "nat \<Rightarrow> string list"
  tp_fault :: "target_label \<Rightarrow> nat \<Rightarrow> target_exn option"
  tp_now :: "nat \<Rightarrow> rat"
  tp_scrape :: "nat \<Rightarrow> target_config \<Rightarrow> bool \<Rightarrow> string option \<Rightarrow> string option \<Rightarrow> (target_exn + target_result) \<times> bool"
  tp_guard :: "'s domain_guard"
  tp_clock :: "nat \<Rightarrow> clock"
  tp_job_id :: string
  tp_run_id :: "string option"
  tp_config :: flow_config
  tp_service_proxy :: string
  tp_run_artifacts_dir :: "string option"
  tp_proxy_session :: string
  tp_limited :: bool
  tp_replay :: bool
  tp_target_count :: nat
  tp_host_label :: "string \<Rightarrow> string"
  tp_guard_host :: "string \<Rightarrow> string"
  tp_redact_url :: "string \<Rightarrow> string"
  tp_redact_text :: "string \<Rightarrow> string"
  tp_safe_part :: "string \<Rightarrow> bool"
  tp_repr :: "string \<Rightarrow> string"
  tp_fixed :: "rat \<Rightarrow> string"

type_synonym ('s, 'a) task = "('s target_world, target_exn, 'a) statement"

section \<open>Waiting\<close>

definition t_interfere :: "'s target_port \<Rightarrow> 's target_world \<Rightarrow> 's target_world" where
  "t_interfere p w = w\<lparr>tw_tick := Suc (tw_tick w), tw_breaker := snd (run_ops (tp_env p (tw_tick w)) (tw_breaker w)),
     tw_history := tw_history w @ tp_env p (tw_tick w), tw_denied := tp_env_denied p (tw_tick w) @ tw_denied w\<rparr>"

definition t_await :: "'s target_port \<Rightarrow> target_label \<Rightarrow> ('s, 'a) task \<Rightarrow> ('s, 'a) task" where
  "t_await p l f w = (let w1 = t_interfere p w in
     case tp_fault p l (tw_tick w) of Some e \<Rightarrow> (Inl e, w1) | None \<Rightarrow> f w1)"

definition t_checkpoint :: "'s target_port \<Rightarrow> string \<Rightarrow> ('s, unit) task" where
  "t_checkpoint p nm = t_await p (L_checkpoint nm) (m_ret ())"

definition t_check_deadline :: "'s target_port \<Rightarrow> ('s, unit) task" where
  "t_check_deadline p w = (case tp_fault p L_deadline (tw_tick w) of Some e \<Rightarrow> (Inl e, w) | None \<Rightarrow> (Inr (), w\<lparr>tw_tick := Suc (tw_tick w)\<rparr>))"

text \<open>A call of the breaker, at the time of the clock.\<close>

definition breaker_call :: "'s target_port \<Rightarrow> breaker_op \<Rightarrow> ('s, check_result option) task" where
  "breaker_call p a w = (let t = tp_now p (tw_tick w); (r, b) = apply_op (a, t) (tw_breaker w)
     in (Inr r, w\<lparr>tw_tick := Suc (tw_tick w), tw_breaker := b, tw_history := tw_history w @ [(a, t)]\<rparr>))"

definition breaker_do :: "'s target_port \<Rightarrow> breaker_op \<Rightarrow> ('s, unit) task" where
  "breaker_do p a = m_then (breaker_call p a) (\<lambda>_. m_ret ())"

section \<open>Error records\<close>

definition fetcher_value :: "fetcher_type \<Rightarrow> string" where
  "fetcher_value f = (case f of Basic \<Rightarrow> ''basic'' | Stealthy \<Rightarrow> ''stealthy'' | Dynamic \<Rightarrow> ''dynamic'')"

definition validation_error_type :: "target_result \<Rightarrow> error_type" where
  "validation_error_type r = (case tr_error_type r of
       Some t \<Rightarrow> t
     | None \<Rightarrow> (case tr_debug r of
         Some d \<Rightarrow> (case dbg_classification d of
             Some v \<Rightarrow> (case error_type_of v of Some t \<Rightarrow> t | None \<Rightarrow> Content_empty)
           | None \<Rightarrow> Content_empty)
       | None \<Rightarrow> Content_empty))"

definition build_error_record ::
    "'s target_port \<Rightarrow> string \<Rightarrow> nat \<Rightarrow> error_type \<Rightarrow> int option \<Rightarrow> string \<Rightarrow> action_taken \<Rightarrow> string option \<Rightarrow> error_record" where
  "build_error_record p url attempt t http fetcher action message =
     \<lparr>er_job_id = tp_job_id p, er_run_id = or_empty (tp_run_id p), er_project = fc_project (tp_config p), er_target_url = tp_redact_url p url,
      er_attempt = attempt, er_error_type = t, er_http_status = http, er_fetcher_used = fetcher,
      er_error_message = map_option (tp_redact_text p) message, er_action_taken = action, er_resolved = False\<rparr>"

definition truthy :: "string option \<Rightarrow> string \<Rightarrow> string" where
  "truthy x y = (case x of Some (c # cs) \<Rightarrow> c # cs | _ \<Rightarrow> y)"

definition build_target_result_error_records ::
    "'s target_port \<Rightarrow> string \<Rightarrow> nat \<Rightarrow> string \<Rightarrow> action_taken \<Rightarrow> target_result \<Rightarrow> bool \<Rightarrow> error_record list" where
  "build_target_result_error_records p url attempt fetcher action r combine =
     (let messages = (if combine \<and> tr_errors r \<noteq> [] then [truthy (tr_error_detail r) (join ''; '' (tr_errors r))]
          else if tr_errors r \<noteq> [] then tr_errors r else [truthy (tr_error_detail r) ''unknown scrape failure''])
      in map (\<lambda>m. build_error_record p url attempt (case tr_error_type r of Some t \<Rightarrow> t | None \<Rightarrow> Http_error) (tr_http_status r) fetcher action (Some m)) messages)"

definition add_errors :: "error_record list \<Rightarrow> ('s, unit) task" where
  "add_errors es = m_set (\<lambda>w. w\<lparr>tw_pending := tw_pending w @ es\<rparr>)"

definition circuit_breaker_failure :: "target_result \<Rightarrow> bool" where
  "circuit_breaker_failure r = (case tr_http_status r of
       Some s \<Rightarrow> s = 429 \<or> (500 \<le> s \<and> s \<le> 599)
     | None \<Rightarrow> tr_error_type r \<in> {Some Network_error, Some error_type.Timeout, Some Navigation_timeout})"

definition record_circuit_break :: "'s target_port \<Rightarrow> string \<Rightarrow> ('s, unit) task" where
  "record_circuit_break p url = add_errors [build_error_record p url 0 Network_error None ''circuit_breaker'' Circuit_break None]"

definition record_target_success :: "'s target_port \<Rightarrow> string \<Rightarrow> circuit_probe option \<Rightarrow> ('s, unit) task" where
  "record_target_success p domain probe = breaker_do p (Op_success domain probe)"

definition record_target_failure ::
    "'s target_port \<Rightarrow> string \<Rightarrow> target_config \<Rightarrow> target_result \<Rightarrow> nat \<Rightarrow> bool \<Rightarrow> circuit_probe option \<Rightarrow> bool \<Rightarrow> ('s, unit) task" where
  "record_target_failure p domain c r attempt combine probe update_circuit =
     m_then (add_errors (build_target_result_error_records p (tc_url c) attempt (fetcher_value (tc_fetcher c)) Fail r combine)) (\<lambda>_.
     if \<not> update_circuit then m_ret ()
     else if circuit_breaker_failure r then breaker_do p (Op_failure domain probe)
     else if probe \<noteq> None then breaker_do p (Op_success domain probe)
     else m_ret ())"

definition record_uncounted_failure :: "'s target_port \<Rightarrow> target_config \<Rightarrow> target_result \<Rightarrow> ('s, unit) task" where
  "record_uncounted_failure p c r = add_errors (build_target_result_error_records p (tc_url c) 1 (fetcher_value (tc_fetcher c)) Skip r False)"

text \<open>The record is an object of the pending list: its position stands for it.\<close>

definition record_validation_failure :: "'s target_port \<Rightarrow> target_config \<Rightarrow> nat \<Rightarrow> target_result \<Rightarrow> action_taken \<Rightarrow> string \<Rightarrow> ('s, nat) task" where
  "record_validation_failure p c attempt r action message =
     m_then (m_get (\<lambda>w. length (tw_pending w))) (\<lambda>i.
     m_then (add_errors [build_error_record p (tc_url c) attempt (validation_error_type r) None (fetcher_value (tc_fetcher c)) action (Some message)]) (\<lambda>_.
     m_ret i))"

definition resolve_record :: "nat \<Rightarrow> ('s, unit) task" where
  "resolve_record i = m_set (\<lambda>w. w\<lparr>tw_pending := (tw_pending w)[i := (tw_pending w ! i)\<lparr>er_resolved := True\<rparr>]\<rparr>)"

section \<open>Validation of a result\<close>

fun field_of_json :: "json \<Rightarrow> field_value" where
  "field_of_json JNull = Absent"
| "field_of_json (JStr s) = Text s"
| "field_of_json (JList xs) = Items (map field_of_json xs)"
| "field_of_json _ = Other"

definition as_record :: "data_row \<Rightarrow> scrape_record" where
  "as_record row = map (\<lambda>(k, v). (k, field_of_json v)) row"

definition validation_message :: "'s target_port \<Rightarrow> validation_failure option \<Rightarrow> string" where
  "validation_message p m = (case m of
       None \<Rightarrow> []
     | Some (Too_few need got) \<Rightarrow> ''Expected at least '' @ int_text (int need) @ '' results, got '' @ int_text (int got)
     | Some (Empty_field f i) \<Rightarrow> ''Required field '' @ tp_repr p f @ '' is empty in record '' @ int_text (int i))"

definition validate_result :: "'s target_port \<Rightarrow> data_row list \<Rightarrow> ('s, validation_result) task" where
  "validate_result p data = t_await p L_validate (m_ret (validate (fc_validation (tp_config p)) (map as_record data)))"

definition build_validation_failed_result :: "target_config \<Rightarrow> target_result \<Rightarrow> string \<Rightarrow> target_result" where
  "build_validation_failed_result c r message =
     (new_result (tc_url c) Target_failed [message])\<lparr>tr_pages_scraped := tr_pages_scraped r, tr_error_type := Some (validation_error_type r),
        tr_error_detail := Some message, tr_debug := tr_debug r\<rparr>"

definition handle_warn_action :: "target_result \<Rightarrow> string \<Rightarrow> target_result" where
  "handle_warn_action r message = r\<lparr>tr_errors := tr_errors r @ [message]\<rparr>"

definition handle_skip_action :: "target_config \<Rightarrow> target_result \<Rightarrow> string \<Rightarrow> target_result" where
  "handle_skip_action c r message =
     (new_result (tc_url c) Target_success [message])\<lparr>tr_pages_scraped := tr_pages_scraped r, tr_debug := tr_debug r\<rparr>"

definition action_of :: "on_empty_action \<Rightarrow> action_taken" where
  "action_of a = (case a of Oe_retry \<Rightarrow> Retry | Oe_warn \<Rightarrow> Warn | Oe_fail \<Rightarrow> Fail | Oe_skip \<Rightarrow> Skip)"

definition scrape_target :: "'s target_port \<Rightarrow> target_config \<Rightarrow> target_runtime \<Rightarrow> string option \<Rightarrow> bool \<Rightarrow> ('s, target_result) task" where
  "scrape_target p c rt artifacts observe = t_await p L_scrape (\<lambda>w.
     let (res, seen) = tp_scrape p (tw_tick w) c (rt_adaptive rt) (rt_proxy_url rt) artifacts
     in (res, w\<lparr>tw_scrapes := Suc (tw_scrapes w), tw_observed := tw_observed w \<or> (observe \<and> seen)\<rparr>))"

definition pad4 :: "nat \<Rightarrow> string" where
  "pad4 n = (let s = int_text (int n) in replicate (4 - length s) CHR ''0'' @ s)"

text \<open>\<^verbatim>\<open>Path(dir) / part / ...\<close>: \<open>None\<close> is the \<^verbatim>\<open>ValueError\<close> of an unsafe part.\<close>

definition attempt_dir :: "'s target_port \<Rightarrow> string \<Rightarrow> nat \<Rightarrow> string \<Rightarrow> string option option" where
  "attempt_dir p domain i attempt = (case tp_run_artifacts_dir p of
       None \<Rightarrow> Some None
     | Some d \<Rightarrow> if tp_safe_part p domain then Some (Some (join ''/'' [d, domain, ''target-'' @ pad4 (i + 1), attempt])) else None)"

definition unsafe_part :: fetch_exception where
  "unsafe_part = \<lparr>ex_class = Other_class, ex_name = ''ValueError'', ex_text = ''Unsafe target domain'', ex_debug = None\<rparr>"

definition retry_after_validation_failure ::
    "'s target_port \<Rightarrow> target_config \<Rightarrow> target_runtime \<Rightarrow> nat \<Rightarrow> nat \<Rightarrow> ('s, target_result) task" where
  "retry_after_validation_failure p c rt i retry_error = (case attempt_dir p (rt_domain rt) i ''attempt-2'' of
       None \<Rightarrow> m_raise (T_raised unsafe_part)
     | Some dir \<Rightarrow>
     m_then (scrape_target p c rt dir False) (\<lambda>r.
     m_then (t_checkpoint p ''after_validation_retry'') (\<lambda>_.
     if \<not> is_success r then
       m_then (record_target_failure p (rt_domain rt) c r 2 True None (\<not> tp_replay p)) (\<lambda>_. m_ret r)
     else m_then (if \<not> tp_replay p then record_target_success p (rt_domain rt) None else m_ret ()) (\<lambda>_.
       m_then (validate_result p (tr_data r)) (\<lambda>v.
       if vr_passed v then m_then (resolve_record retry_error) (\<lambda>_. m_ret r)
       else let message = validation_message p (vr_message v) in
         m_then (record_validation_failure p c 2 r Fail message) (\<lambda>_.
         m_ret (build_validation_failed_result c r message)))))))"

definition apply_validation :: "'s target_port \<Rightarrow> target_config \<Rightarrow> target_runtime \<Rightarrow> nat \<Rightarrow> target_result \<Rightarrow> ('s, target_result) task" where
  "apply_validation p c rt i r =
     (if \<not> is_success r then m_ret r else
      m_then (validate_result p (tr_data r)) (\<lambda>v.
      if vr_passed v then m_ret r else
      let message = validation_message p (vr_message v) in
      if validation_error_type r \<in> set access_denial_types then
        m_then (record_validation_failure p c 1 r Fail message) (\<lambda>_. m_ret (build_validation_failed_result c r message))
      else m_then (record_validation_failure p c 1 r (action_of (vr_action v)) message) (\<lambda>retry_error.
        case vr_action v of
          Oe_warn \<Rightarrow> m_ret (handle_warn_action r message)
        | Oe_skip \<Rightarrow> m_ret (handle_skip_action c r message)
        | Oe_fail \<Rightarrow> m_ret (build_validation_failed_result c r message)
        | Oe_retry \<Rightarrow> m_then (t_checkpoint p ''before_validation_retry'') (\<lambda>_. retry_after_validation_failure p c rt i retry_error))))"

section \<open>Execution of a target\<close>

function replace_all :: "string \<Rightarrow> string \<Rightarrow> string \<Rightarrow> string" where
  "replace_all old new [] = []"
| "replace_all old new (c # cs) = (if old \<noteq> [] \<and> starts_with old (c # cs) then new @ replace_all old new (drop (length old - 1) cs)
     else c # replace_all old new cs)"
  by pat_completeness auto
termination
  by (relation "measure (\<lambda>(_, _, s). length s)") auto

definition apply_proxy_session :: "string option \<Rightarrow> string \<Rightarrow> string option" where
  "apply_proxy_session url tok = (case url of
       None \<Rightarrow> None
     | Some u \<Rightarrow> if \<not> str_contains ''{session}'' u then Some u else Some (replace_all ''{session}'' tok u))"

definition direct_or :: "string \<Rightarrow> string option" where
  "direct_or u = (if u = ''direct'' then None else Some u)"

definition resolve_proxy :: "string option \<Rightarrow> string option \<Rightarrow> string \<Rightarrow> string option" where
  "resolve_proxy target_proxy job_proxy service = (case target_proxy of
       Some u \<Rightarrow> direct_or u
     | None \<Rightarrow> (case job_proxy of
         Some u \<Rightarrow> direct_or u
       | None \<Rightarrow> if service \<noteq> [] then direct_or (strip service) else None))"

definition resolve_target_runtime_context :: "'s target_port \<Rightarrow> target_config \<Rightarrow> nat \<Rightarrow> ('s, target_runtime) task" where
  "resolve_target_runtime_context p c i = (let domain = tp_host_label p (tc_url c); cfg = tp_config p in
     case attempt_dir p domain i ''attempt-1'' of
       None \<Rightarrow> m_raise (T_raised unsafe_part)
     | Some dir \<Rightarrow> m_ret \<lparr>rt_domain = domain,
         rt_adaptive = (case fc_adaptive cfg of Some b \<Rightarrow> b | None \<Rightarrow> fc_scheduled cfg),
         rt_proxy_url = apply_proxy_session (resolve_proxy (tc_proxy c) (fc_proxy cfg) (tp_service_proxy p)) (tp_proxy_session p),
         rt_artifacts_dir = dir\<rparr>)"

definition set_probe :: "circuit_probe option \<Rightarrow> ('s, unit) task" where
  "set_probe x = m_set (\<lambda>w. w\<lparr>tw_probe := x\<rparr>)"

definition circuit_open_text :: "'s target_port \<Rightarrow> string \<Rightarrow> rat \<Rightarrow> string" where
  "circuit_open_text p domain remaining = ''Circuit open for '' @ domain @ '' ('' @ tp_fixed p remaining @ ''s remaining)''"

definition guard_target_execution :: "'s target_port \<Rightarrow> target_runtime \<Rightarrow> target_config \<Rightarrow> ('s, string option) task" where
  "guard_target_execution p rt c = m_then (breaker_call p (Op_check (rt_domain rt))) (\<lambda>r. case r of
       Some (Circuit_open remaining) \<Rightarrow> m_then (record_circuit_break p (tc_url c)) (\<lambda>_. m_ret (Some (circuit_open_text p (rt_domain rt) remaining)))
     | Some (Admitted probe) \<Rightarrow> m_then (set_probe probe) (\<lambda>_. m_ret None)
     | None \<Rightarrow> m_ret None)"

definition record_failed_target :: "'s target_port \<Rightarrow> target_runtime \<Rightarrow> target_result \<Rightarrow> target_config \<Rightarrow> ('s, unit) task" where
  "record_failed_target p rt r c = m_then (m_get tw_probe) (\<lambda>probe.
     m_then (record_target_failure p (rt_domain rt) c r 1 False probe True) (\<lambda>_. set_probe None))"

definition abort_and_clear :: "'s target_port \<Rightarrow> string \<Rightarrow> ('s, unit) task" where
  "abort_and_clear p domain = m_then (m_get tw_probe) (\<lambda>probe.
     m_then (breaker_do p (Op_abort domain probe)) (\<lambda>_. set_probe None))"

definition scrape_and_validate_target ::
    "'s target_port \<Rightarrow> target_config \<Rightarrow> target_runtime \<Rightarrow> nat \<Rightarrow> ('s, target_result) task" where
  "scrape_and_validate_target p c rt i =
     m_then (scrape_target p c rt (rt_artifacts_dir rt) True) (\<lambda>r.
     m_then (t_checkpoint p ''after_target_fetch'') (\<lambda>_.
     if \<not> is_success r then
       (if tp_replay p \<or> (\<exists>t \<in> set self_imposed_error_types. tr_error_type r = Some t) then
          m_then (abort_and_clear p (rt_domain rt)) (\<lambda>_. m_then (record_uncounted_failure p c r) (\<lambda>_. m_ret r))
        else m_then (record_failed_target p rt r c) (\<lambda>_. m_ret r))
     else m_then (if \<not> tp_replay p then m_then (m_get tw_probe) (record_target_success p (rt_domain rt)) else m_ret ()) (\<lambda>_.
       m_then (set_probe None) (\<lambda>_. apply_validation p c rt i r))))"

definition exception_detail :: "'s target_port \<Rightarrow> fetch_exception \<Rightarrow> string" where
  "exception_detail p x = tp_redact_text p (if ex_text x \<noteq> [] then ex_name x @ '': '' @ ex_text x else ex_name x)"

definition target_exception_result :: "'s target_port \<Rightarrow> target_runtime \<Rightarrow> target_config \<Rightarrow> fetch_exception \<Rightarrow> ('s, target_result) task" where
  "target_exception_result p rt c x = (let (t, http, dbg) = classify_fetch_exception x (tc_fetcher c); detail = exception_detail p x;
       r = (new_result (tc_url c) Target_failed [detail])\<lparr>tr_error_type := Some t, tr_http_status := http, tr_error_detail := Some detail, tr_debug := dbg\<rparr>
     in m_then (record_failed_target p rt r c) (\<lambda>_. m_ret r))"

definition target_except :: "'s target_port \<Rightarrow> target_runtime \<Rightarrow> target_config \<Rightarrow> target_exn \<Rightarrow> ('s, target_result) task" where
  "target_except p rt c e = (case e of
       T_raised x \<Rightarrow> target_exception_result p rt c x
     | T_budget \<Rightarrow> m_then (m_get tw_observed) (\<lambda>seen. m_then (m_get tw_probe) (\<lambda>probe.
         m_then (if seen then record_target_success p (rt_domain rt) probe else breaker_do p (Op_abort (rt_domain rt) probe)) (\<lambda>_.
         m_then (set_probe None) (\<lambda>_. m_raise e))))
     | _ \<Rightarrow> m_then (abort_and_clear p (rt_domain rt)) (\<lambda>_. m_raise e))"

definition fetch_and_validate_target :: "'s target_port \<Rightarrow> target_config \<Rightarrow> nat \<Rightarrow> ('s, target_result) task" where
  "fetch_and_validate_target p c i =
     m_then (resolve_target_runtime_context p c i) (\<lambda>rt.
     m_then (if tp_replay p then m_ret None else guard_target_execution p rt c) (\<lambda>circuit_open. case circuit_open of
       Some message \<Rightarrow> m_ret (new_result (tc_url c) Target_failed [message])
     | None \<Rightarrow> m_try
         (if tc_fetcher c \<noteq> Basic \<and> \<not> tp_replay p \<and> tp_limited p
          then m_then (t_await p L_slot (m_ret ())) (\<lambda>_. scrape_and_validate_target p c rt i)
          else scrape_and_validate_target p c rt i)
         (target_except p rt c)))"

section \<open>Processing a target of the run\<close>

definition flush_errors :: "'s target_port \<Rightarrow> ('s, unit) task" where
  "flush_errors p = m_then (m_get tw_pending) (\<lambda>es. if es = [] then m_ret () else
     m_then (t_checkpoint p ''before_error_flush'') (\<lambda>_.
     m_then (t_await p L_log (m_set (\<lambda>w. w\<lparr>tw_logged := tw_logged w @ es\<rparr>))) (\<lambda>_.
     t_checkpoint p ''after_error_flush'')))"

definition pace_start :: "'s target_port \<Rightarrow> ('s, unit) task" where
  "pace_start p = (let delay = fc_delay_between (tp_config p) in
     if tp_replay p \<or> delay \<le> 0 then m_ret () else
     m_then (t_await p L_lock (m_ret ())) (\<lambda>_.
     m_then (m_get (\<lambda>w. max 0 (tw_next_start w - tp_now p (tw_tick w)))) (\<lambda>wait.
     m_then (if wait > 0 then m_then (t_await p L_sleep (m_ret ())) (\<lambda>_. t_checkpoint p ''after_target_delay'') else m_ret ()) (\<lambda>_.
     m_then (t_check_deadline p) (\<lambda>_.
     m_set (\<lambda>w. w\<lparr>tw_next_start := tp_now p (tw_tick w) + delay\<rparr>))))))"

definition is_denial :: "target_result \<Rightarrow> bool" where
  "is_denial r \<longleftrightarrow> (\<exists>t \<in> set access_denial_types. tr_error_type r = Some t) \<or> (\<exists>s \<in> {401, 403, 407}. tr_http_status r = Some s)"

definition record_run_denial :: "'s target_port \<Rightarrow> target_config \<Rightarrow> ('s, unit) task" where
  "record_run_denial p c = m_then (m_get tw_guard) (\<lambda>g. case g of
       (None, _) \<Rightarrow> m_ret ()
     | (Some pol, _) \<Rightarrow> t_await p L_denial (m_set (\<lambda>w. case tw_guard w of
           (Some pol, s) \<Rightarrow> (let (pol', s') = record_denial (tp_guard p) (tp_clock p (tw_tick w)) (tp_guard_host p (tc_url c)) (pol, s)
              in w\<lparr>tw_guard := (Some pol', s')\<rparr>)
         | (None, _) \<Rightarrow> w)))"

definition after_target :: "'s target_port \<Rightarrow> target_config \<Rightarrow> nat \<Rightarrow> target_result \<Rightarrow> ('s, target_result) task" where
  "after_target p c i r =
     m_then (if is_denial r then
         m_then (m_set (\<lambda>w. w\<lparr>tw_denied := tp_guard_host p (tc_url c) # tw_denied w\<rparr>)) (\<lambda>_.
         if tp_replay p \<or> tr_http_status r = Some 407 then m_ret () else record_run_denial p c)
       else m_ret ()) (\<lambda>_.
     m_then (if \<not> tp_replay p \<and> fc_post_target_delay (tp_config p) > 0 \<and> i + 1 < tp_target_count p
       then m_then (m_get (\<lambda>w. fst (circuit_state_of (tp_host_label p (tc_url c)) (tp_now p (tw_tick w)) (tw_breaker w)))) (\<lambda>st.
         m_then (breaker_do p (Op_state (tp_host_label p (tc_url c)))) (\<lambda>_.
         if st = Open then m_ret () else
         m_then (t_await p L_sleep (m_ret ())) (\<lambda>_. t_checkpoint p ''after_post_target_delay'')))
       else m_ret ()) (\<lambda>_. m_ret r))"

definition not_attempted :: string where
  "not_attempted = ''Not attempted: an earlier target on this host was denied or challenged''"

definition process_in_slot :: "'s target_port \<Rightarrow> target_config \<Rightarrow> nat \<Rightarrow> ('s, target_result) task" where
  "process_in_slot p c i =
     m_then (t_await p L_semaphore (m_ret ())) (\<lambda>_.
     m_then (t_checkpoint p ''before_target_fetch'') (\<lambda>_.
     m_then (pace_start p) (\<lambda>_.
     m_then (t_check_deadline p) (\<lambda>_.
     m_then (m_get (\<lambda>w. tp_guard_host p (tc_url c) \<in> set (tw_denied w))) (\<lambda>denied.
     if denied then m_ret ((new_result (tc_url c) Target_failed [not_attempted])\<lparr>tr_error_detail := Some not_attempted\<rparr>)
     else m_then (fetch_and_validate_target p c i) (after_target p c i))))))"

text \<open>The \<^verbatim>\<open>finally\<close> clause logs the pending errors unless the task was cancelled; an exception of the logging replaces the outcome.\<close>

definition process_one :: "'s target_port \<Rightarrow> target_config \<Rightarrow> nat \<Rightarrow> ('s, target_result) task" where
  "process_one p c i w = (case process_in_slot p c i w of
       (Inl T_cancelled, w1) \<Rightarrow> (Inl T_cancelled, w1\<lparr>tw_pending := []\<rparr>)
     | (res, w1) \<Rightarrow> (case flush_errors p w1 of (Inl e, w2) \<Rightarrow> (Inl e, w2) | (Inr _, w2) \<Rightarrow> (res, w2)))"

end
