(* ===== verification/Target_Properties.thy ===== *)
theory Target_Properties
  imports Target_Flow
begin

text \<open>
  Correctness of the processing of one target, under any exceptions and any operations of the other tasks on the shared
  breaker: the half-open probe is handed back exactly once, a published result is valid, and a failed target is recorded.
\<close>

section \<open>The probe of a half-open circuit\<close>

lemma run_ops_Cons: "snd (run_ops (a # as) b) = snd (run_ops as (snd (apply_op a b)))"
  by (simp add: Let_def split: prod.splits)

lemma run_ops_append: "snd (run_ops (as @ bs) b) = snd (run_ops bs (snd (run_ops as b)))"
  by (induction as arbitrary: b) (simp_all only: append_Nil append_Cons run_ops_Cons run_ops.simps(1) snd_conv)

lemma run_ops_single: "snd (run_ops [a] b) = snd (apply_op a b)"
  by (simp only: run_ops_Cons run_ops.simps(1) snd_conv)

lemma presents_settles:
  assumes "wf_breaker b" and "half_open_at d g b" and "presents d g op"
  shows "\<not> half_open_at d g (snd (apply_op (op, t) b))"
proof -
  have "half_open_at d g (prune_inactive_closed t b)" by (rule half_open_prune [OF assms(1,2)])
  then obtain x where x: "lookup (prune_inactive_closed t b) d = Some x" "cstate x = Half_open" "generation x = g"
    by (auto simp: half_open_at_def)
  then show ?thesis using assms(3)
    by (auto simp: presents_def apply_op_def record_success_def record_failure_def abort_probe_def probe_matches_def Let_def
        half_open_at_def lookup_pop lookup_put)
qed

text \<open>
  Since the check that granted a probe for \<open>d\<close> with generation \<open>g\<close>: the operations \<open>s\<close> that followed, how many of them
  present the probe, and the probe that the task still holds.
\<close>

definition trace :: "string \<Rightarrow> nat \<Rightarrow> (breaker_op \<times> rat) list \<Rightarrow> breaker \<Rightarrow> nat \<Rightarrow> circuit_probe option \<Rightarrow> 's target_world \<Rightarrow> bool" where
  "trace d g H b k x w \<longleftrightarrow> tw_probe w = x \<and> (\<exists>s. tw_history w = H @ s \<and> tw_breaker w = snd (run_ops s b)
     \<and> length (filter (\<lambda>a. presents d g (fst a)) s) = k)"

definition discreet :: "'s target_port \<Rightarrow> string \<Rightarrow> nat \<Rightarrow> bool" where
  "discreet p d g \<longleftrightarrow> (\<forall>n. \<forall>a \<in> set (tp_env p n). \<not> presents d g (fst a))"

definition steady :: "('s target_world \<Rightarrow> bool) \<Rightarrow> ('s, 'a) task \<Rightarrow> bool" where
  "steady P m \<longleftrightarrow> triple P m (\<lambda>_. P) (\<lambda>_. P)"

named_theorems steady_rules \<open>statements that keep a predicate\<close>

lemma s_ret [steady_rules]: "steady P (m_ret x)" and s_raise [steady_rules]: "steady P (m_raise e)" and s_get [steady_rules]: "steady P (m_get f)"
  by (simp_all add: steady_def t_ret t_raise t_get)

lemma s_then [steady_rules]: "steady P m \<Longrightarrow> (\<And>x. steady P (n x)) \<Longrightarrow> steady P (m_then m n)"
  unfolding steady_def by (rule t_then)

lemma s_if [steady_rules]: "(b \<Longrightarrow> steady P m) \<Longrightarrow> (\<not> b \<Longrightarrow> steady P n) \<Longrightarrow> steady P (if b then m else n)"
  by simp

lemma s_option [steady_rules]: "steady P m \<Longrightarrow> (\<And>x. steady P (n x)) \<Longrightarrow> steady P (case v of None \<Rightarrow> m | Some x \<Rightarrow> n x)"
  by (cases v) simp_all

lemma s_action [steady_rules]:
  "steady P a \<Longrightarrow> steady P b \<Longrightarrow> steady P c \<Longrightarrow> steady P d \<Longrightarrow> steady P (case v of Oe_retry \<Rightarrow> a | Oe_warn \<Rightarrow> b | Oe_fail \<Rightarrow> c | Oe_skip \<Rightarrow> d)"
  by (cases v) simp_all

lemma s_set: "(\<And>w. P w \<Longrightarrow> P (f w)) \<Longrightarrow> steady P (m_set f)"
  unfolding steady_def by (rule t_set)

lemma s_await:
  assumes "\<And>w. P w \<Longrightarrow> P (t_interfere p w)" and "steady P f"
  shows "steady P (t_await p l f)"
  using assms by (auto simp: steady_def triple_def t_await_def Let_def split: option.splits)

section \<open>Which statements keep the trace\<close>

lemma trace_interfere: "discreet p d g \<Longrightarrow> trace d g H b k x w \<Longrightarrow> trace d g H b k x (t_interfere p w)"
  by (auto simp: trace_def t_interfere_def discreet_def run_ops_append)

lemma trace_await [steady_rules]: "discreet p d g \<Longrightarrow> steady (trace d g H b k x) f \<Longrightarrow> steady (trace d g H b k x) (t_await p l f)"
  by (rule s_await) (rule trace_interfere)

lemma trace_call:
  fixes p :: "'s target_port"
  shows "triple (trace d g H b k x) (breaker_call p a) (\<lambda>_. trace d g H b (k + (if presents d g a then 1 else 0)) x) E"
proof (rule tripleI)
  fix w :: "'s target_world" assume "trace d g H b k x w"
  then obtain s where s: "tw_probe w = x" "tw_history w = H @ s" "tw_breaker w = snd (run_ops s b)"
      "length (filter (\<lambda>a. presents d g (fst a)) s) = k" by (auto simp: trace_def)
  let ?o = "(a, tp_now p (tw_tick w))"
  have "snd (run_ops (s @ [?o]) b) = snd (apply_op ?o (tw_breaker w))" by (simp only: run_ops_append run_ops_single s)
  with s show "case breaker_call p a w of (Inr y, w') \<Rightarrow> trace d g H b (k + (if presents d g a then 1 else 0)) x w' | (Inl e, w') \<Rightarrow> E e w'"
    by (auto simp: breaker_call_def Let_def trace_def split: prod.splits intro!: exI [of _ "s @ [?o]"])
qed

lemma trace_do:
  "triple (trace d g H b k x) (breaker_do p a) (\<lambda>_. trace d g H b (k + (if presents d g a then 1 else 0)) x) E"
  unfolding breaker_do_def by (rule t_then [OF trace_call t_ret])

lemma trace_quiet_do [steady_rules]: "\<not> presents d g a \<Longrightarrow> steady (trace d g H b k x) (breaker_do p a)"
  using trace_do [of d g H b k x p a] by (simp add: steady_def)

lemma presents_op:
  "presents d g (Op_success e y) \<longleftrightarrow> e = d \<and> (\<exists>q. y = Some q \<and> pr_domain q = d \<and> pr_generation q = g)"
  "presents d g (Op_failure e y) \<longleftrightarrow> e = d \<and> (\<exists>q. y = Some q \<and> pr_domain q = d \<and> pr_generation q = g)"
  "presents d g (Op_abort e y) \<longleftrightarrow> e = d \<and> (\<exists>q. y = Some q \<and> pr_domain q = d \<and> pr_generation q = g)"
  "\<not> presents d g (Op_state e)" "\<not> presents d g (Op_check e)"
  by (auto simp: presents_def)

lemma trace_quiet_set:
  "(\<And>w. tw_probe (f w) = tw_probe w \<and> tw_history (f w) = tw_history w \<and> tw_breaker (f w) = tw_breaker w) \<Longrightarrow> steady (trace d g H b k x) (m_set f)"
  by (rule s_set) (simp add: trace_def)

lemma trace_errors [steady_rules]: "steady (trace d g H b k x) (add_errors es)"
  unfolding add_errors_def by (rule trace_quiet_set) simp

lemma trace_resolve [steady_rules]: "steady (trace d g H b k x) (resolve_record i)"
  unfolding resolve_record_def by (rule trace_quiet_set) simp

lemma trace_scrape:
  assumes "discreet p d g"
  shows "steady (trace d g H b k x) (scrape_target p c rt dir obs)"
  unfolding scrape_target_def
  by (rule trace_await [OF assms]) (auto simp: steady_def triple_def trace_def split: prod.splits sum.splits)

lemma trace_validate:
  assumes "discreet p d g"
  shows "steady (trace d g H b k None) (apply_validation p c rt i r)"
  unfolding apply_validation_def retry_after_validation_failure_def record_validation_failure_def validate_result_def t_checkpoint_def Let_def
    record_target_failure_def record_target_success_def
  by (intro steady_rules trace_scrape assms) (simp_all add: presents_op)

section \<open>The probe is handed back once\<close>

definition held :: "string \<Rightarrow> nat \<Rightarrow> circuit_probe option" where
  "held d g = Some \<lparr>pr_domain = d, pr_generation = g\<rparr>"

lemma t_hand_back:
  assumes "\<And>y. presents d g (f y) \<longleftrightarrow> (\<exists>q. y = Some q \<and> pr_domain q = d \<and> pr_generation q = g)"
  shows "triple (trace d g H b 0 (held d g)) (breaker_do p (f (held d g))) (\<lambda>_. trace d g H b 1 (held d g)) E"
  using trace_do [of d g H b 0 "held d g" p "f (held d g)"] assms by (simp add: held_def)

lemma t_clear: "triple (trace d g H b k x) (set_probe None) (\<lambda>_. trace d g H b k None) E"
  unfolding set_probe_def by (rule t_set) (simp add: trace_def)

lemma t_probe: "triple (trace d g H b k x) (m_get tw_probe) (\<lambda>y w. y = x \<and> trace d g H b k x w) E"
  by (rule t_get) (simp add: trace_def)

lemma t_fact: "(A \<Longrightarrow> triple P m Q E) \<Longrightarrow> triple (\<lambda>w. A \<and> P w) m Q E"
  by (auto simp: triple_def)

lemma t_with_probe:
  assumes "triple (trace d g H b k x) (f x) Q E"
  shows "triple (trace d g H b k x) (m_then (m_get tw_probe) f) Q E"
  by (rule t_then [OF t_probe]) (use assms in \<open>auto intro: t_fact\<close>)

lemma t_then_clear:
  assumes "triple (trace d g H b 0 (held d g)) m (\<lambda>_. trace d g H b 1 (held d g)) E"
  shows "triple (trace d g H b 0 (held d g)) (m_then m (\<lambda>_. set_probe None)) (\<lambda>_. trace d g H b 1 None) E"
  by (rule t_then [OF assms t_clear])

lemma t_abort_and_clear:
  "triple (trace d g H b 0 (held d g)) (abort_and_clear p d) (\<lambda>_. trace d g H b 1 None) E"
  unfolding abort_and_clear_def by (intro t_with_probe t_then_clear t_hand_back) (simp add: presents_op)

lemma t_record_failed:
  assumes "rt_domain rt = d"
  shows "triple (trace d g H b 0 (held d g)) (record_failed_target p rt r c) (\<lambda>_. trace d g H b 1 None) E"
proof -
  have "triple (trace d g H b 0 (held d g)) (if circuit_breaker_failure r then breaker_do p (Op_failure d (held d g))
      else if held d g \<noteq> None then breaker_do p (Op_success d (held d g)) else m_ret ()) (\<lambda>_. trace d g H b 1 (held d g)) E"
    using t_hand_back [of d g "Op_failure d" H b p E] t_hand_back [of d g "Op_success d" H b p E] by (simp add: presents_op held_def)
  moreover have "triple (trace d g H b 0 (held d g)) (add_errors es) (\<lambda>_. trace d g H b 0 (held d g)) E" for es
    unfolding add_errors_def by (rule t_set) (simp add: trace_def)
  ultimately show ?thesis
    unfolding record_failed_target_def record_target_failure_def assms
    by (intro t_with_probe t_then_clear t_then [of _ _ "\<lambda>_. trace d g H b 0 (held d g)"]) auto
qed

text \<open>The state in which an exception leaves the body: still holding the probe, or having handed it back.\<close>

definition either_way :: "string \<Rightarrow> nat \<Rightarrow> (breaker_op \<times> rat) list \<Rightarrow> breaker \<Rightarrow> 's target_world \<Rightarrow> bool" where
  "either_way d g H b w \<longleftrightarrow> trace d g H b 0 (held d g) w \<or> trace d g H b 1 None w"

lemma t_hold_or:
  "steady (trace d g H b 0 (held d g)) m \<Longrightarrow> triple (trace d g H b 0 (held d g)) m (\<lambda>_. trace d g H b 0 (held d g)) (\<lambda>_. either_way d g H b)"
  unfolding steady_def by (erule t_weaken) (auto simp: either_way_def)

lemma t_done_or: "steady (trace d g H b 1 None) m \<Longrightarrow> triple (trace d g H b 1 None) m (\<lambda>_. trace d g H b 1 None) (\<lambda>_. either_way d g H b)"
  unfolding steady_def by (erule t_weaken) (auto simp: either_way_def)

lemma t_body:
  assumes "discreet p d g" and "rt_domain rt = d" and "\<not> tp_replay p"
  shows "triple (trace d g H b 0 (held d g)) (scrape_and_validate_target p c rt i) (\<lambda>_. trace d g H b 1 None) (\<lambda>_. either_way d g H b)"
proof -
  have check: "steady (trace d g H b 0 (held d g)) (t_checkpoint p nm)" for nm
    unfolding t_checkpoint_def by (intro steady_rules assms)
  have success: "triple (trace d g H b 0 (held d g)) (m_then (m_get tw_probe) (record_target_success p d)) (\<lambda>_. trace d g H b 1 (held d g)) E" for E
    unfolding record_target_success_def by (intro t_with_probe t_hand_back) (simp add: presents_op)
  have uncounted: "steady (trace d g H b 1 None) (m_then (record_uncounted_failure p c r) (\<lambda>_. m_ret r))" for r
    unfolding record_uncounted_failure_def by (intro steady_rules)
  have publish: "triple (trace d g H b 0 (held d g)) (m_then (m_then (m_get tw_probe) (record_target_success p d)) (\<lambda>_. m_then (set_probe None) (\<lambda>_.
      apply_validation p c rt i r))) (\<lambda>_. trace d g H b 1 None) (\<lambda>_. either_way d g H b)" for r
    by (rule t_then [OF success t_then [OF t_clear t_done_or [OF trace_validate [OF assms(1)]]]])
  show ?thesis
    unfolding scrape_and_validate_target_def assms(2)
    by (rule t_then [OF t_hold_or [OF trace_scrape [OF assms(1)]]], rule t_then [OF t_hold_or [OF check]],
        intro t_if t_then [OF t_abort_and_clear t_done_or [OF uncounted]] t_then [OF t_record_failed t_ret])
      (use assms in \<open>simp_all only: if_True if_False refl not_False_eq_True publish\<close>)
qed

lemma t_quiet_do: "\<not> presents d g a \<Longrightarrow> triple (trace d g H b k x) (breaker_do p a) (\<lambda>_. trace d g H b k x) E"
  using trace_do [of d g H b k x p a] by simp

lemma t_released:
  "triple (trace d g H b k None) (abort_and_clear p e) (\<lambda>_. trace d g H b k None) E"
  "triple (trace d g H b k None) (record_failed_target p rt r c) (\<lambda>_. trace d g H b k None) E"
proof -
  show "triple (trace d g H b k None) (abort_and_clear p e) (\<lambda>_. trace d g H b k None) E"
    unfolding abort_and_clear_def by (intro t_with_probe t_then [OF t_quiet_do t_clear]) (simp add: presents_op)
  have "triple (trace d g H b k None) (add_errors es) (\<lambda>_. trace d g H b k None) E" for es
    unfolding add_errors_def by (rule t_set) (simp add: trace_def)
  then show "triple (trace d g H b k None) (record_failed_target p rt r c) (\<lambda>_. trace d g H b k None) E"
    unfolding record_failed_target_def record_target_failure_def
    by (intro t_with_probe t_then [OF t_then t_clear]) (auto intro!: t_quiet_do t_ret simp: presents_op)
qed

lemma f_budget_stop:
  assumes "\<And>f. f = Op_success d \<or> f = Op_abort d \<Longrightarrow> triple (trace d g H b k x) (breaker_do p (f x)) (\<lambda>_. trace d g H b n x) (\<lambda>_. trace d g H b n None)"
  shows "triple (trace d g H b k x) (m_then (m_get tw_observed) (\<lambda>seen. m_then (m_get tw_probe) (\<lambda>probe.
      m_then (if seen then record_target_success p d probe else breaker_do p (Op_abort d probe)) (\<lambda>_. m_then (set_probe None) (\<lambda>_. m_raise e)))))
    Q (\<lambda>_. trace d g H b n None)"
  by (rule t_then [OF t_get [where Q = "\<lambda>_. trace d g H b k x"]], assumption, rule t_with_probe,
      rule t_then [where R = "\<lambda>_. trace d g H b n x", OF _ t_then [OF t_clear t_raise]])
    (use assms in \<open>auto simp: record_target_success_def\<close>)

lemma f_except:
  fixes p :: "'s target_port"
  assumes "rt_domain rt = d"
  shows "triple (either_way d g H b) (target_except p rt c e) (\<lambda>_. trace d g H b 1 None) (\<lambda>_. trace d g H b 1 None)"
proof -
  have cases: "triple (trace d g H b k x) (target_except p rt c e) (\<lambda>_. trace d g H b 1 None) (\<lambda>_. trace d g H b 1 None)"
    if "\<And>E. triple (trace d g H b k x) (abort_and_clear p d) (\<lambda>_. trace d g H b 1 None) E"
      and "\<And>r E. triple (trace d g H b k x) (record_failed_target p rt r c) (\<lambda>_. trace d g H b 1 None) E"
      and "\<And>f E. f = Op_success d \<or> f = Op_abort d \<Longrightarrow> triple (trace d g H b k x) (breaker_do p (f x)) (\<lambda>_. trace d g H b 1 x) E" for k x
  proof (cases e)
    case T_budget
    show ?thesis unfolding target_except_def assms T_budget target_exn.case by (rule f_budget_stop) (rule that(3))
  next
    case (T_raised y)
    then show ?thesis unfolding target_except_def target_exception_result_def Let_def
      by (auto intro!: t_then [OF that(2)] t_ret split: prod.splits)
  qed (auto simp: target_except_def assms intro!: t_then [OF that(1)] t_raise)
  have "triple (trace d g H b 0 (held d g)) (target_except p rt c e) (\<lambda>_. trace d g H b 1 None) (\<lambda>_. trace d g H b 1 None)"
    by (rule cases) (use assms in \<open>auto intro: t_abort_and_clear t_record_failed t_hand_back simp: presents_op simp del: One_nat_def\<close>)
  moreover have "triple (trace d g H b 1 None) (target_except p rt c e) (\<lambda>_. trace d g H b 1 None) (\<lambda>_. trace d g H b 1 None)"
    by (rule cases) (auto intro: t_released t_quiet_do simp: presents_op)
  ultimately show ?thesis by (auto simp: triple_def either_way_def)
qed

lemma probe_trace:
  assumes "discreet p d g" and "tp_host_label p (tc_url c) = d" and "\<not> tp_replay p"
    and "check d (tp_now p (tw_tick w)) (tw_breaker w) = (Admitted (held d g), b)" and "tp_run_artifacts_dir p = None \<or> tp_safe_part p d"
    and "fetch_and_validate_target p c i w = (res, w')"
  shows "trace d g (tw_history w @ [(Op_check d, tp_now p (tw_tick w))]) b 1 None w'"
proof -
  let ?H = "tw_history w @ [(Op_check d, tp_now p (tw_tick w))]"
  obtain dir where "attempt_dir p d i ''attempt-1'' = Some dir"
    using assms(5) by (cases "tp_run_artifacts_dir p") (auto simp: attempt_dir_def)
  then obtain rt where rt: "resolve_target_runtime_context p c i w = (Inr rt, w)" "rt_domain rt = d"
    using assms(2) by (simp add: resolve_target_runtime_context_def m_ret_def Let_def)
  let ?w = "w\<lparr>tw_tick := Suc (tw_tick w), tw_breaker := b, tw_history := ?H, tw_probe := held d g\<rparr>"
  have guard: "guard_target_execution p rt c w = (Inr None, ?w)"
    using assms(4) rt(2) by (simp add: guard_target_execution_def breaker_call_def apply_op_def m_then_def set_probe_def m_set_def m_ret_def)
  let ?m = "m_try (if tc_fetcher c \<noteq> Basic \<and> \<not> tp_replay p \<and> tp_limited p
      then m_then (t_await p L_slot (m_ret ())) (\<lambda>_. scrape_and_validate_target p c rt i) else scrape_and_validate_target p c rt i) (target_except p rt c)"
  have run: "?m ?w = (res, w')"
    using assms(3,6) rt(1) guard by (simp add: fetch_and_validate_target_def m_then_def)
  have slot: "steady (trace d g ?H b 0 (held d g)) (t_await p L_slot (m_ret ()))" by (intro steady_rules assms)
  have "triple (trace d g ?H b 0 (held d g)) ?m (\<lambda>_. trace d g ?H b 1 None) (\<lambda>_. trace d g ?H b 1 None)"
    by (rule t_try [OF _ f_except [OF rt(2)]], intro t_if t_then [OF t_hold_or [OF slot]] t_body assms rt)
  moreover have "trace d g ?H b 0 (held d g) ?w" by (auto simp: trace_def)
  ultimately have "case res of Inr _ \<Rightarrow> trace d g ?H b 1 None w' | Inl _ \<Rightarrow> trace d g ?H b 1 None w'"
    using run by (rule t_run)
  then show ?thesis by (auto split: sum.splits)
qed

text \<open>
  Claim C27. The probe of a half-open circuit is never leaked. A task that was granted the probe of its domain hands it back
  exactly once before it ends, whatever is raised at whichever await and whatever the other tasks do to the breaker meanwhile; at
  that moment the circuit leaves the half-open state, in which it refuses every other task.
\<close>

theorem probe_handed_back_once:
  assumes "discreet p d g" and "tp_host_label p (tc_url c) = d" and "\<not> tp_replay p"
    and "check d (tp_now p (tw_tick w)) (tw_breaker w) = (Admitted (held d g), b)" and "tp_run_artifacts_dir p = None \<or> tp_safe_part p d"
    and "fetch_and_validate_target p c i w = (res, w')" and "wf_breaker (tw_breaker w)" and "0 < max_failures (tw_breaker w)"
  shows "\<exists>before a after. tw_history w' = tw_history w @ (Op_check d, tp_now p (tw_tick w)) # before @ a # after
     \<and> presents d g (fst a) \<and> (\<forall>a' \<in> set before \<union> set after. \<not> presents d g (fst a'))
     \<and> half_open_at d g (snd (run_ops before b)) \<and> \<not> half_open_at d g (snd (run_ops (before @ [a]) b))"
proof -
  from probe_trace [OF assms(1-6)] obtain s where s: "tw_history w' = tw_history w @ (Op_check d, tp_now p (tw_tick w)) # s"
    "length (filter (\<lambda>a. presents d g (fst a)) s) = 1" by (auto simp: trace_def)
  from s(2) obtain a where "filter (\<lambda>a. presents d g (fst a)) s = [a]" by (auto simp: length_Suc_conv)
  then obtain bef aft where split: "s = bef @ a # aft" "\<forall>a' \<in> set bef. \<not> presents d g (fst a')" "presents d g (fst a)"
    "filter (\<lambda>a. presents d g (fst a)) aft = []" by (auto simp: filter_eq_Cons_iff)
  have b: "wf_breaker b" "0 < max_failures b" "half_open_at d g b"
    using wf_check [OF assms(7), of d "tp_now p (tw_tick w)"] apply_op_fields [of "(Op_check d, tp_now p (tw_tick w))" "tw_breaker w"]
      check_grants [of d "tp_now p (tw_tick w)" "tw_breaker w" "\<lparr>pr_domain = d, pr_generation = g\<rparr>" b] assms(4,8)
    by (auto simp: apply_op_def held_def)
  have kept: "half_open_at d g (snd (run_ops bef b)) \<and> wf_breaker (snd (run_ops bef b))"
    by (rule half_open_kept_run [OF b split(2)])
  then have "\<not> half_open_at d g (snd (run_ops (bef @ [a]) b))"
    unfolding run_ops_append run_ops_single using presents_settles [of "snd (run_ops bef b)" d g "fst a" "snd a"] split(3) by simp
  moreover have "\<forall>a' \<in> set bef \<union> set aft. \<not> presents d g (fst a')" using split(2,4) by (auto simp: filter_empty_conv)
  ultimately show ?thesis using s(1) split(1,3) kept by blast
qed

definition sample_circuit :: breaker where
  "sample_circuit = \<lparr>max_failures = 2, cooldown = 5, max_domains = 2, inactive_ttl = 100,
     circuits = [(''d'', \<lparr>cstate = Open, failures = 2, opened_at = 1, generation = 3, last_accessed_at = 1\<rparr>)]\<rparr>"

definition sample_flow :: "(nat \<Rightarrow> (breaker_op \<times> rat) list) \<Rightarrow> (target_label \<Rightarrow> nat \<Rightarrow> target_exn option) \<Rightarrow> validation_config \<Rightarrow> unit target_port" where
  "sample_flow ops f v = \<lparr>tp_env = ops, tp_env_denied = (\<lambda>_. []), tp_fault = f,
     tp_now = (\<lambda>_. 10), tp_scrape = (\<lambda>_ c _ _ _. (Inr ((new_result (tc_url c) Target_success [])\<lparr>tr_data := [[(''title'', JStr '' '')]]\<rparr>), True)),
     tp_guard = \<lparr>consume_page = (\<lambda>_ _ _ s. (Some 0, s)), cooldown_remaining = (\<lambda>_ _ s. (0, s)), start_cooldown = (\<lambda>_ _ _ s. s),
       guard_status = (\<lambda>_ _ s. ((0, 0), s)), guard_clear = (\<lambda>_ _ s. s)\<rparr>,
     tp_clock = (\<lambda>_. \<lparr>st_year = 2024, st_month = 1, st_day = 1, st_hour = 0, st_minute = 0, st_second = 0, st_micro = 0\<rparr>),
     tp_job_id = ''j'', tp_run_id = Some ''r'', tp_config = \<lparr>fc_project = ''p'', fc_adaptive = None, fc_scheduled = False, fc_proxy = None,
       fc_validation = v, fc_delay_between = 0, fc_post_target_delay = 0\<rparr>, tp_service_proxy = [], tp_run_artifacts_dir = None, tp_proxy_session = ''t'',
     tp_limited = True, tp_replay = False, tp_target_count = 1, tp_host_label = (\<lambda>_. ''d''), tp_guard_host = (\<lambda>_. ''d''), tp_redact_url = (\<lambda>x. x),
     tp_redact_text = (\<lambda>x. x), tp_safe_part = (\<lambda>_. True), tp_repr = (\<lambda>x. x), tp_fixed = (\<lambda>_. ''0'')\<rparr>"

definition sample_target :: target_config where
  "sample_target = \<lparr>tc_url = ''https://d/'', tc_fetcher = Dynamic, tc_proxy = None\<rparr>"

definition sample_start :: "unit target_world" where
  "sample_start = \<lparr>tw_breaker = sample_circuit, tw_history = [], tw_denied = [], tw_guard = (None, ()), tw_pending = [], tw_logged = [],
     tw_probe = None, tw_observed = False, tw_scrapes = 0, tw_next_start = 0, tw_tick = 0\<rparr>"

definition sample_validation :: "on_empty_action \<Rightarrow> validation_config" where
  "sample_validation a = \<lparr>vc_required_fields = [''title''], vc_min_results = 1, vc_on_empty = a\<rparr>"

text \<open>In the witness the task is cancelled while it waits for a browser.\<close>

theorem probe_handed_back_once_witness:
  "\<exists>w'. snd (fetch_and_validate_target (sample_flow (\<lambda>_. [(Op_check ''d'', 11), (Op_failure ''e'' None, 12)]) (\<lambda>l _. if l = L_slot then Some T_cancelled else None) (sample_validation Oe_fail)) sample_target 0 sample_start) = w'
     \<and> (\<exists>before a after. tw_history w' = [] @ (Op_check ''d'', 10) # before @ a # after \<and> presents ''d'' 4 (fst a)
        \<and> \<not> half_open_at ''d'' 4 (snd (run_ops (before @ [a]) (snd (check ''d'' 10 sample_circuit)))))"
proof -
  let ?p = "sample_flow (\<lambda>_. [(Op_check ''d'', 11), (Op_failure ''e'' None, 12)]) (\<lambda>l _. if l = L_slot then Some T_cancelled else None) (sample_validation Oe_fail)"
  let ?r = "fetch_and_validate_target ?p sample_target 0 sample_start"
  have "\<exists>before a after. tw_history (snd ?r) = tw_history sample_start @ (Op_check ''d'', tp_now ?p (tw_tick sample_start)) # before @ a # after
     \<and> presents ''d'' 4 (fst a) \<and> (\<forall>a' \<in> set before \<union> set after. \<not> presents ''d'' 4 (fst a'))
     \<and> half_open_at ''d'' 4 (snd (run_ops before (snd (check ''d'' 10 sample_circuit))))
     \<and> \<not> half_open_at ''d'' 4 (snd (run_ops (before @ [a]) (snd (check ''d'' 10 sample_circuit))))"
  proof (rule probe_handed_back_once [OF _ _ _ _ _ prod.collapse [symmetric]])
    show "discreet ?p ''d'' 4" by (simp add: discreet_def sample_flow_def presents_op)
    show "check ''d'' (tp_now ?p (tw_tick sample_start)) (tw_breaker sample_start) = (Admitted (held ''d'' 4), snd (check ''d'' 10 sample_circuit))"
      by code_simp
    show "wf_breaker (tw_breaker sample_start)" "0 < max_failures (tw_breaker sample_start)" by code_simp+
  qed (simp_all add: sample_flow_def)
  then show ?thesis by (auto simp: sample_flow_def sample_start_def)
qed

section \<open>Validity of a published result\<close>

definition yields :: "('a \<Rightarrow> bool) \<Rightarrow> ('s, 'a) task \<Rightarrow> bool" where
  "yields Q m \<longleftrightarrow> triple (\<lambda>_. True) m (\<lambda>x _. Q x) (\<lambda>_ _. True)"

lemma y_ret: "Q x \<Longrightarrow> yields Q (m_ret x)" and y_raise: "yields Q (m_raise e)"
  by (simp_all add: yields_def t_ret t_raise)

lemma y_then: "yields R m \<Longrightarrow> (\<And>x. R x \<Longrightarrow> yields Q (k x)) \<Longrightarrow> yields Q (m_then m k)"
  by (fastforce simp: yields_def triple_def m_then_def split: prod.splits sum.splits)

lemma y_any: "(\<And>x. yields Q (k x)) \<Longrightarrow> yields Q (m_then m k)"
  by (rule y_then [where R = "\<lambda>_. True"]) (auto simp: yields_def triple_def split: prod.splits sum.splits)

lemma y_try: "yields Q m \<Longrightarrow> (\<And>e. yields Q (h e)) \<Longrightarrow> yields Q (m_try m h)"
  by (fastforce simp: yields_def triple_def m_try_def split: prod.splits sum.splits)

lemma y_validate: "yields (\<lambda>v. v = validate (fc_validation (tp_config p)) (map as_record data)) (validate_result p data)"
  by (auto simp: yields_def triple_def validate_result_def t_await_def m_ret_def Let_def split: option.splits)

lemma validate_action: "vr_action (validate c data) = vc_on_empty c"
  by (auto simp: validate_def split: option.splits)

definition valid_result :: "'s target_port \<Rightarrow> target_result \<Rightarrow> bool" where
  "valid_result p r \<longleftrightarrow> (let vc = fc_validation (tp_config p); v = validate vc (map as_record (tr_data r)) in
     vr_passed v \<or> (vc_on_empty vc = Oe_warn \<and> validation_message p (vr_message v) \<in> set (tr_errors r)) \<or> (vc_on_empty vc = Oe_skip \<and> tr_data r = []))"

lemma failed_is_failed: "\<not> is_success (build_validation_failed_result c r m)"
  by (simp add: build_validation_failed_result_def new_result_def is_success_def)

lemma y_retry: "yields (\<lambda>r. is_success r \<longrightarrow> valid_result p r) (retry_after_validation_failure p c rt i n)"
  unfolding retry_after_validation_failure_def Let_def
  by (auto intro!: y_any y_raise y_ret y_then [OF y_validate] simp: valid_result_def Let_def failed_is_failed split: option.splits)

lemma y_apply: "yields (\<lambda>r. is_success r \<longrightarrow> valid_result p r) (apply_validation p c rt i r)"
proof (cases "is_success r")
  case True
  have warn: "valid_result p (handle_warn_action r (validation_message p (vr_message (validate (fc_validation (tp_config p)) (map as_record (tr_data r))))))"
    if "vc_on_empty (fc_validation (tp_config p)) = Oe_warn"
    using that by (simp add: valid_result_def handle_warn_action_def Let_def)
  have skip: "valid_result p (handle_skip_action c r m)" if "vc_on_empty (fc_validation (tp_config p)) = Oe_skip" for m
    using that by (simp add: valid_result_def handle_skip_action_def new_result_def Let_def)
  have passed: "valid_result p r" if "vr_passed (validate (fc_validation (tp_config p)) (map as_record (tr_data r)))"
    using that by (simp add: valid_result_def Let_def)
  show ?thesis unfolding apply_validation_def if_not_P [OF not_not [THEN iffD2, OF True]]
    by (rule y_then [OF y_validate])
      (auto intro!: y_any y_ret y_retry warn skip passed simp: Let_def failed_is_failed validate_action split: on_empty_action.splits)
next
  case False
  then show ?thesis by (simp add: apply_validation_def y_ret)
qed

lemma y_fetch: "yields (\<lambda>r. is_success r \<longrightarrow> valid_result p r) (fetch_and_validate_target p c i)"
proof -
  have body: "yields (\<lambda>r. is_success r \<longrightarrow> valid_result p r) (scrape_and_validate_target p c rt i)" for rt
    unfolding scrape_and_validate_target_def by (auto intro!: y_any y_ret y_apply)
  have "yields (\<lambda>r. is_success r \<longrightarrow> valid_result p r) (target_except p rt c e)" for rt e
    unfolding target_except_def target_exception_result_def Let_def
    by (auto intro!: y_any y_ret y_raise simp: new_result_def is_success_def split: target_exn.splits prod.splits)
  with body show ?thesis unfolding fetch_and_validate_target_def
    by (auto intro!: y_any y_ret y_try simp: new_result_def is_success_def split: option.splits)
qed

text \<open>
  Claim C28. A target is published as successful only if its records satisfy the configured validation, or the policy says to
  publish them with a warning, which is then among its errors, or to skip them, and then it has no records. This holds after the
  validation retry too.
\<close>

theorem successful_target_is_valid:
  assumes "fetch_and_validate_target p c i w = (Inr r, w')" and "is_success r"
  shows "vr_passed (validate (fc_validation (tp_config p)) (map as_record (tr_data r)))
    \<or> (vc_on_empty (fc_validation (tp_config p)) = Oe_warn
         \<and> validation_message p (vr_message (validate (fc_validation (tp_config p)) (map as_record (tr_data r)))) \<in> set (tr_errors r))
    \<or> (vc_on_empty (fc_validation (tp_config p)) = Oe_skip \<and> tr_data r = [])"
proof -
  have "valid_result p r" using t_run [OF y_fetch [of p c i, unfolded yields_def] TrueI assms(1)] assms(2) by simp
  then show ?thesis by (simp add: valid_result_def Let_def)
qed

theorem successful_target_is_valid_witness:
  "\<exists>r. fst (fetch_and_validate_target (sample_flow (\<lambda>_. []) (\<lambda>_ _. None) (sample_validation Oe_warn)) sample_target 0 sample_start) = Inr r
     \<and> (vr_passed (validate (sample_validation Oe_warn) (map as_record (tr_data r))) \<or> tr_errors r \<noteq> [])"
proof -
  let ?p = "sample_flow (\<lambda>_. []) (\<lambda>_ _. None) (sample_validation Oe_warn)"
  let ?x = "fetch_and_validate_target ?p sample_target 0 sample_start"
  have "case fst ?x of Inr r \<Rightarrow> is_success r | Inl _ \<Rightarrow> False" by code_simp
  then obtain r where r: "fst ?x = Inr r" "is_success r" by (auto split: sum.splits)
  then have "?x = (Inr r, snd ?x)" by (simp add: prod_eq_iff)
  from successful_target_is_valid [OF this r(2)] r(1) show ?thesis by (auto simp: sample_flow_def sample_validation_def)
qed

section \<open>A failed target is recorded\<close>

definition reports :: "'s target_port \<Rightarrow> target_config \<Rightarrow> error_record list \<Rightarrow> bool" where
  "reports p c es \<longleftrightarrow> (\<exists>e \<in> set es. er_target_url e = tp_redact_url p (tc_url c) \<and> er_job_id e = tp_job_id p \<and> \<not> er_resolved e)"

text \<open>Nothing was logged yet, and the pending errors report the target.\<close>

definition noted :: "'s target_port \<Rightarrow> target_config \<Rightarrow> error_record list \<Rightarrow> 's target_world \<Rightarrow> bool" where
  "noted p c l w \<longleftrightarrow> tw_logged w = l \<and> reports p c (tw_pending w)"

definition unlogged :: "error_record list \<Rightarrow> 's target_world \<Rightarrow> bool" where
  "unlogged l w \<longleftrightarrow> tw_logged w = l"

lemma built_reports:
  "reports p c (ps @ [build_error_record p (tc_url c) n t h f a m])"
  "reports p c (ps @ build_target_result_error_records p (tc_url c) n f a r comb)"
proof -
  have "build_target_result_error_records p (tc_url c) n f a r comb \<noteq> []"
    by (simp add: build_target_result_error_records_def Let_def)
  moreover have "e \<in> set (build_target_result_error_records p (tc_url c) n f a r comb) \<Longrightarrow>
      er_target_url e = tp_redact_url p (tc_url c) \<and> er_job_id e = tp_job_id p \<and> \<not> er_resolved e" for e
    by (auto simp: build_target_result_error_records_def Let_def build_error_record_def)
  ultimately show "reports p c (ps @ build_target_result_error_records p (tc_url c) n f a r comb)"
    unfolding reports_def by (metis UnI2 last_in_set set_append)
  show "reports p c (ps @ [build_error_record p (tc_url c) n t h f a m])"
    by (auto simp: reports_def build_error_record_def)
qed

lemma steady_calls [steady_rules]:
  "steady (noted p c l) (breaker_call q a)" "steady (noted p c l) (breaker_do q a)" "steady (noted p c l) (set_probe x)"
  "steady (unlogged l) (breaker_call q a)" "steady (unlogged l) (breaker_do q a)" "steady (unlogged l) (set_probe x)"
  "steady (unlogged l) (add_errors es)" "steady (unlogged l) (resolve_record i)"
  by (auto simp: steady_def triple_def noted_def unlogged_def breaker_do_def breaker_call_def set_probe_def add_errors_def resolve_record_def
      m_then_def m_set_def m_ret_def Let_def split: prod.splits)

lemma noted_interfere: "noted p c l w \<Longrightarrow> noted p c l (t_interfere q w)" "unlogged l w \<Longrightarrow> unlogged l (t_interfere q w)"
  by (simp_all add: noted_def unlogged_def t_interfere_def)

lemma steady_awaits [steady_rules]:
  "steady (noted p c l) f \<Longrightarrow> steady (noted p c l) (t_await q lb f)" "steady (unlogged l) f \<Longrightarrow> steady (unlogged l) (t_await q lb f)"
  by (rule s_await; simp add: noted_interfere)+

lemma steady_scrape [steady_rules]: "steady (unlogged l) (scrape_target q c rt dir obs)"
  unfolding scrape_target_def by (intro steady_rules) (auto simp: steady_def triple_def unlogged_def split: prod.splits sum.splits)

lemma steady_checks [steady_rules]:
  "steady (noted p c l) (t_checkpoint q nm)" "steady (unlogged l) (t_checkpoint q nm)"
  "steady (noted p c l) (t_check_deadline q)" "steady (unlogged l) (t_check_deadline q)"
  by (auto simp: t_checkpoint_def intro!: steady_rules)
    (auto simp: steady_def triple_def noted_def unlogged_def t_check_deadline_def split: option.splits)

text \<open>A failed value comes with a report.\<close>

abbreviation reported :: "'s target_port \<Rightarrow> target_config \<Rightarrow> error_record list \<Rightarrow> ('s, target_result) task \<Rightarrow> bool" where
  "reported p c l m \<equiv> triple (unlogged l) m (\<lambda>r w. unlogged l w \<and> (is_success r \<or> noted p c l w)) (\<lambda>_. unlogged l)"

lemma r_then: "steady (unlogged l) m \<Longrightarrow> (\<And>x. reported p c l (k x)) \<Longrightarrow> reported p c l (m_then m k)"
  unfolding steady_def by (rule t_then)

lemma r_success: "is_success r \<Longrightarrow> reported p c l (m_ret r)"
  by (rule t_ret) simp

abbreviation marks :: "'s target_port \<Rightarrow> target_config \<Rightarrow> error_record list \<Rightarrow> ('s, 'a) task \<Rightarrow> bool" where
  "marks p c l m \<equiv> triple (unlogged l) m (\<lambda>_. noted p c l) (\<lambda>_. unlogged l)"

lemma n_add: "(\<And>ps. reports p c (ps @ es)) \<Longrightarrow> marks p c l (add_errors es)"
  unfolding add_errors_def by (rule t_set) (simp add: noted_def unlogged_def)

lemma n_after: "steady (unlogged l) m \<Longrightarrow> (\<And>x. marks p c l (k x)) \<Longrightarrow> marks p c l (m_then m k)"
  unfolding steady_def by (rule t_then)

lemma n_before:
  assumes "marks p c l m" and "\<And>x. steady (noted p c l) (k x)"
  shows "marks p c l (m_then m k)"
proof (rule t_then [OF assms(1)])
  show "triple (noted p c l) (k x) (\<lambda>_. noted p c l) (\<lambda>_. unlogged l)" for x
    using assms(2) [of x] unfolding steady_def by (rule t_weaken) (auto simp: noted_def unlogged_def)
qed

lemma r_notes: "marks p c l m \<Longrightarrow> reported p c l (m_then m (\<lambda>_. m_ret r))"
  by (rule t_then, assumption, rule t_ret) (simp add: noted_def unlogged_def)

lemma n_records:
  "marks p c l (record_target_failure p d c r n comb x u)" "marks p c l (record_failed_target p rt r c)"
  "marks p c l (record_uncounted_failure p c r)" "marks p c l (record_circuit_break p (tc_url c))"
  "marks p c l (record_validation_failure p c n r a m)"
proof -
  show failure: "marks p c l (record_target_failure p d c r n comb x u)" for d n comb x u
    unfolding record_target_failure_def by (intro n_before n_add built_reports steady_rules)
  show "marks p c l (record_failed_target p rt r c)"
    unfolding record_failed_target_def by (intro n_after n_before failure steady_rules)
  show "marks p c l (record_uncounted_failure p c r)" "marks p c l (record_circuit_break p (tc_url c))"
    unfolding record_uncounted_failure_def record_circuit_break_def by (intro n_add built_reports)+
  show "marks p c l (record_validation_failure p c n r a m)"
    unfolding record_validation_failure_def by (intro n_after n_before n_add built_reports steady_rules)
qed

lemma r_apply:
  assumes "is_success r"
  shows "reported p c l (apply_validation p c rt i r)"
proof -
  have resolved: "reported p c l (m_then (resolve_record n) (\<lambda>_. m_ret r))" if "is_success r" for n r
    using that by (intro r_then steady_rules r_success)
  have retry: "reported p c l (retry_after_validation_failure p c rt i n)" for n
    unfolding retry_after_validation_failure_def validate_result_def record_target_success_def Let_def
    by (auto intro!: resolved r_notes [OF n_records(1)] r_notes [OF n_records(5)] r_then steady_rules t_raise split: option.splits)
  have warn: "is_success (handle_warn_action r m)" and skip: "is_success (handle_skip_action c r m)" for m
    using assms by (simp_all add: handle_warn_action_def handle_skip_action_def new_result_def is_success_def)
  have act: "reported p c l (m_then (record_validation_failure p c 1 r (action_of a) m) (\<lambda>n. case a of
      Oe_warn \<Rightarrow> m_ret (handle_warn_action r m) | Oe_skip \<Rightarrow> m_ret (handle_skip_action c r m)
    | Oe_fail \<Rightarrow> m_ret (build_validation_failed_result c r m)
    | Oe_retry \<Rightarrow> m_then (t_checkpoint p ''before_validation_retry'') (\<lambda>_. retry_after_validation_failure p c rt i n)))" for a m
  proof (cases a)
    case Oe_retry
    then show ?thesis unfolding record_validation_failure_def by (auto intro!: r_then steady_rules retry)
  next
    case Oe_fail
    then show ?thesis by (auto intro!: r_notes n_records)
  qed (auto intro!: r_then steady_rules r_success warn skip simp: record_validation_failure_def)
  show ?thesis
    unfolding apply_validation_def validate_result_def Let_def
    by (auto intro!: r_then [OF steady_awaits(2) [OF s_ret]] r_success assms act r_notes n_records simp del: One_nat_def)
qed

lemma r_fetch: "reported p c l (fetch_and_validate_target p c i)"
proof -
  have body: "reported p c l (scrape_and_validate_target p c rt i)" for rt
    unfolding scrape_and_validate_target_def abort_and_clear_def record_target_success_def
    by (auto intro!: r_then steady_rules r_notes n_records r_apply)
  have handler: "triple (unlogged l) (target_except p rt c e) (\<lambda>r w. unlogged l w \<and> (is_success r \<or> noted p c l w)) (\<lambda>_. unlogged l)" for rt e
    unfolding target_except_def target_exception_result_def abort_and_clear_def record_target_success_def Let_def
    by (auto intro!: r_then steady_rules r_notes n_records t_raise split: target_exn.splits prod.splits)
  have resolve: "steady (unlogged l) (resolve_target_runtime_context p c i)"
    unfolding resolve_target_runtime_context_def Let_def by (auto intro!: steady_rules split: option.splits)
  have guarded: "triple (unlogged l) (if tp_replay p then m_ret None else guard_target_execution p rt c)
      (\<lambda>x w. unlogged l w \<and> (x = None \<or> noted p c l w)) (\<lambda>_. unlogged l)" for rt
  proof -
    have "triple (unlogged l) (m_then (record_circuit_break p (tc_url c)) (\<lambda>_. m_ret (Some m))) (\<lambda>x w. unlogged l w \<and> (x = None \<or> noted p c l w)) (\<lambda>_. unlogged l)" for m
      by (rule t_then [OF n_records(4)], rule t_ret) (simp add: noted_def unlogged_def)
    moreover have "triple (unlogged l) (m_then (set_probe y) (\<lambda>_. m_ret None)) (\<lambda>x w. unlogged l w \<and> (x = None \<or> noted p c l w)) (\<lambda>_. unlogged l)" for y
      by (rule t_then [OF steady_calls(6) [unfolded steady_def]], rule t_ret) simp
    ultimately show ?thesis unfolding guard_target_execution_def
      by (auto intro!: t_ret t_then [OF steady_calls(4) [unfolded steady_def]] split: option.splits check_result.splits)
  qed
  have slot: "reported p c l (m_try (if b then m_then (t_await p L_slot (m_ret ())) (\<lambda>_. scrape_and_validate_target p c rt i)
      else scrape_and_validate_target p c rt i) (target_except p rt c))" for b rt
    by (rule t_try [OF _ handler]) (auto intro!: body r_then steady_rules)
  show ?thesis
    unfolding fetch_and_validate_target_def
  proof (rule r_then [OF resolve], rule t_then [OF guarded])
    show "triple (\<lambda>w. unlogged l w \<and> (x = None \<or> noted p c l w)) (case x of None \<Rightarrow> m_try (if tc_fetcher c \<noteq> Basic \<and> \<not> tp_replay p \<and> tp_limited p
        then m_then (t_await p L_slot (m_ret ())) (\<lambda>_. scrape_and_validate_target p c rt i) else scrape_and_validate_target p c rt i) (target_except p rt c)
      | Some message \<Rightarrow> m_ret (new_result (tc_url c) Target_failed [message]))
      (\<lambda>r w. unlogged l w \<and> (is_success r \<or> noted p c l w)) (\<lambda>_. unlogged l)" for x rt
      using slot [of "tc_fetcher c \<noteq> Basic \<and> \<not> tp_replay p \<and> tp_limited p" rt] by (cases x) (auto intro!: t_ret)
  qed
qed

lemma steady_end:
  "steady (noted p c l) (after_target p c i r)" "steady (unlogged l) (after_target p c i r)" "steady (unlogged l) (pace_start p)"
proof -
  have set: "steady (noted p c l) (m_set f)" "steady (unlogged l) (m_set f)"
    if "\<And>w. tw_logged (f w) = tw_logged w \<and> tw_pending (f w) = tw_pending w" for f
    using that by (auto intro!: s_set simp: noted_def unlogged_def)
  have denial: "steady (noted p c l) (record_run_denial p c)" "steady (unlogged l) (record_run_denial p c)"
    unfolding record_run_denial_def
    by (auto intro!: steady_rules set simp: Let_def split: prod.splits option.splits)
  show "steady (noted p c l) (after_target p c i r)" "steady (unlogged l) (after_target p c i r)"
    unfolding after_target_def by (auto intro!: steady_rules set denial)
  show "steady (unlogged l) (pace_start p)"
    unfolding pace_start_def Let_def by (auto intro!: steady_rules set)
qed

lemma t_process:
  "triple (unlogged l) (process_in_slot p c i) (\<lambda>r w. unlogged l w \<and> (is_success r \<or> tr_error_detail r = Some not_attempted \<or> noted p c l w)) (\<lambda>_. unlogged l)"
proof -
  let ?Q = "\<lambda>r w. unlogged l w \<and> (is_success r \<or> tr_error_detail r = Some not_attempted \<or> noted p c l w)"
  have keep: "after_target p c i r w = (Inr r', w') \<Longrightarrow> r' = r" for r r' w w'
    by (auto simp: after_target_def m_then_def m_ret_def split: prod.splits sum.splits)
  have fin: "triple (\<lambda>w. unlogged l w \<and> (is_success r \<or> noted p c l w)) (after_target p c i r) ?Q (\<lambda>_. unlogged l)" for r
  proof (rule tripleI)
    fix w assume w: "unlogged l w \<and> (is_success r \<or> noted p c l w)"
    obtain res w' where run: "after_target p c i r w = (res, w')" by force
    have "case res of Inr _ \<Rightarrow> unlogged l w' | Inl _ \<Rightarrow> unlogged l w'"
      by (rule t_run [OF steady_end(2) [unfolded steady_def] _ run]) (use w in simp)
    moreover have "case res of Inr _ \<Rightarrow> noted p c l w' | Inl _ \<Rightarrow> noted p c l w'" if "\<not> is_success r"
      by (rule t_run [OF steady_end(1) [unfolded steady_def] _ run]) (use w that in simp)
    ultimately show "case after_target p c i r w of (Inr x, w') \<Rightarrow> ?Q x w' | (Inl e, w') \<Rightarrow> unlogged l w'"
      using keep [of r w] run by (auto split: sum.splits)
  qed
  have skip: "triple (unlogged l) (m_ret ((new_result (tc_url c) Target_failed [not_attempted])\<lparr>tr_error_detail := Some not_attempted\<rparr>)) ?Q E" for E
    by (rule t_ret) simp
  have s: "triple (unlogged l) m (\<lambda>_. unlogged l) (\<lambda>_. unlogged l)" if "steady (unlogged l) m" for m :: "('b, 'c) task"
    using that by (simp add: steady_def)
  show ?thesis unfolding process_in_slot_def
    by (rule t_then [OF s], intro steady_rules, rule t_then [OF s], intro steady_rules, rule t_then [OF s [OF steady_end(3)]],
        rule t_then [OF s], intro steady_rules, rule t_then [OF s], intro steady_rules, intro t_if skip t_then [OF r_fetch fin])
qed

text \<open>
  Claim C29. No target fails silently: when the processing of a target returns a failed result, then an unresolved error record of
  this target has been logged, unless the target was not attempted at all because its host had denied access before.
\<close>

theorem failed_target_is_logged:
  assumes "process_one p c i w = (Inr r, w')" and "\<not> is_success r" and "tr_error_detail r \<noteq> Some not_attempted"
  shows "\<exists>es. tw_logged w' = tw_logged w @ es
    \<and> (\<exists>e \<in> set es. er_target_url e = tp_redact_url p (tc_url c) \<and> er_job_id e = tp_job_id p \<and> \<not> er_resolved e)"
proof -
  obtain w1 where slot: "process_in_slot p c i w = (Inr r, w1)" and fl: "flush_errors p w1 = (Inr (), w')"
    using assms(1) by (auto simp: process_one_def split: prod.splits sum.splits target_exn.splits)
  have "noted p c (tw_logged w) w1"
    using t_run [OF t_process [of "tw_logged w" p c i] _ slot] assms(2,3) by (simp add: unlogged_def)
  then have l: "tw_logged w1 = tw_logged w" "reports p c (tw_pending w1)" by (auto simp: noted_def)
  then have "tw_pending w1 \<noteq> []" by (auto simp: reports_def)
  with fl l(1) have "tw_logged w' = tw_logged w @ tw_pending w1"
    by (auto simp: flush_errors_def m_then_def m_get_def m_set_def m_ret_def t_checkpoint_def t_await_def t_interfere_def Let_def
        split: option.splits prod.splits)
  with l(2) show ?thesis unfolding reports_def by blast
qed

theorem failed_target_is_logged_witness:
  "\<exists>w' es. snd (process_one (sample_flow (\<lambda>_. []) (\<lambda>_ _. None) (sample_validation Oe_fail)) sample_target 0 sample_start) = w'
     \<and> tw_logged w' = es \<and> (\<exists>e \<in> set es. er_target_url e = ''https://d/'')"
proof -
  let ?p = "sample_flow (\<lambda>_. []) (\<lambda>_ _. None) (sample_validation Oe_fail)"
  let ?x = "process_one ?p sample_target 0 sample_start"
  have "case fst ?x of Inr r \<Rightarrow> \<not> is_success r \<and> tr_error_detail r \<noteq> Some not_attempted | Inl _ \<Rightarrow> False" by code_simp
  then obtain r where r: "fst ?x = Inr r" "\<not> is_success r" "tr_error_detail r \<noteq> Some not_attempted" by (auto split: sum.splits)
  then have "?x = (Inr r, snd ?x)" by (simp add: prod_eq_iff)
  from failed_target_is_logged [OF this r(2,3)] show ?thesis by (auto simp: sample_flow_def sample_target_def sample_start_def)
qed

end
