(* ===== verification/IP_Policy.thy ===== *)
theory IP_Policy
  imports Prelude "HOL-Library.Word"
begin

text \<open>
  \<^verbatim>\<open>engine/ip_policy.py\<close>: which connected addresses the service refuses. Addresses are words of 32 and 128 bits, a network
  is an address with a prefix length, and the tables are those of the source. \<open>firewall_policy_entries\<close> renders the same
  policy as an ordered rule list for a host firewall; the theorem at the end says that both refuse the same addresses.
\<close>

unbundle bit_operations_syntax

section \<open>Addresses and networks\<close>

datatype ip_address = V4 "32 word" | V6 "128 word"

datatype ip_network = Net4 "32 word" nat | Net6 "128 word" nat

definition quad :: "int \<Rightarrow> int \<Rightarrow> int \<Rightarrow> int \<Rightarrow> 32 word" where
  "quad a b c d = word_of_int (((a * 256 + b) * 256 + c) * 256 + d)"

text \<open>The leading hextets of an IPv6 address, the others being zero.\<close>

definition hextets :: "int list \<Rightarrow> 128 word" where
  "hextets xs = word_of_int (foldl (\<lambda>n x. n * 65536 + x) 0 (take 8 (xs @ replicate 8 0)))"

definition same_prefix :: "nat \<Rightarrow> 'a::len word \<Rightarrow> 'a word \<Rightarrow> bool" where
  "same_prefix l n a \<longleftrightarrow> drop_bit (LENGTH('a) - l) a = drop_bit (LENGTH('a) - l) n"

fun in_network :: "ip_address \<Rightarrow> ip_network \<Rightarrow> bool" where
  "in_network (V4 a) (Net4 n l) = same_prefix l n a"
| "in_network (V6 a) (Net6 n l) = same_prefix l n a"
| "in_network _ _ = False"

definition public_address_exceptions :: "ip_network list" where
  "public_address_exceptions = [
     Net6 (hextets [0x2001, 1, 0, 0, 0, 0, 0, 1]) 128, Net6 (hextets [0x2001, 1, 0, 0, 0, 0, 0, 2]) 128,
     Net6 (hextets [0x2001, 1, 0, 0, 0, 0, 0, 3]) 128, Net6 (hextets [0x2001, 3]) 32, Net6 (hextets [0x2001, 4, 0x112]) 48,
     Net6 (hextets [0x2001, 0x20]) 28, Net6 (hextets [0x2001, 0x30]) 28]"

definition denied_ipv4_networks :: "ip_network list" where
  "denied_ipv4_networks = [
     Net4 (quad 0 0 0 0) 8, Net4 (quad 10 0 0 0) 8, Net4 (quad 100 64 0 0) 10, Net4 (quad 127 0 0 0) 8, Net4 (quad 169 254 0 0) 16,
     Net4 (quad 172 16 0 0) 12, Net4 (quad 192 0 0 0) 24, Net4 (quad 192 0 2 0) 24, Net4 (quad 192 88 99 0) 24,
     Net4 (quad 192 168 0 0) 16, Net4 (quad 198 18 0 0) 15, Net4 (quad 198 51 100 0) 24, Net4 (quad 203 0 113 0) 24,
     Net4 (quad 224 0 0 0) 4, Net4 (quad 240 0 0 0) 4]"

definition denied_ipv6_networks :: "ip_network list" where
  "denied_ipv6_networks = [
     Net6 (hextets []) 96, Net6 (hextets [0, 0, 0, 0, 0xFFFF]) 96, Net6 (hextets [0x64, 0xFF9B, 1]) 48, Net6 (hextets [0x100]) 64,
     Net6 (hextets [0x100, 0, 0, 1]) 64, Net6 (hextets [0x2001]) 23, Net6 (hextets [0x2001, 0xDB8]) 32, Net6 (hextets [0x2002]) 16,
     Net6 (hextets [0x3FFF]) 20, Net6 (hextets [0x5F00]) 16, Net6 (hextets [0xFC00]) 7, Net6 (hextets [0xFE80]) 10,
     Net6 (hextets [0xFEC0]) 10, Net6 (hextets [0xFF00]) 8]"

definition denied_address_networks :: "ip_network list" where
  "denied_address_networks = denied_ipv4_networks @ denied_ipv6_networks"

section \<open>Embedded addresses\<close>

text \<open>The properties \<^verbatim>\<open>ipv4_mapped\<close>, \<^verbatim>\<open>sixtofour\<close> and \<^verbatim>\<open>teredo\<close> of \<^verbatim>\<open>ipaddress.IPv6Address\<close>.\<close>

definition ipv4_mapped :: "128 word \<Rightarrow> 32 word option" where
  "ipv4_mapped a = (if drop_bit 32 a = 0xFFFF then Some (ucast a) else None)"

definition sixtofour :: "128 word \<Rightarrow> 32 word option" where
  "sixtofour a = (if drop_bit 112 a = 0x2002 then Some (ucast (drop_bit 80 a)) else None)"

definition teredo :: "128 word \<Rightarrow> (32 word \<times> 32 word) option" where
  "teredo a = (if drop_bit 96 a = 0x20010000 then Some (ucast (drop_bit 64 a), ucast (NOT a)) else None)"

definition ipv4_embedding_prefixes :: "ip_network list" where
  "ipv4_embedding_prefixes = [Net6 (hextets [0x64, 0xFF9B]) 96, Net6 (hextets [0x64, 0xFF9B, 1]) 48]"

definition embedded_ipv4_addresses :: "128 word \<Rightarrow> 32 word list" where
  "embedded_ipv4_addresses a =
     (case ipv4_mapped a of None \<Rightarrow> [] | Some x \<Rightarrow> [x]) @ (case sixtofour a of None \<Rightarrow> [] | Some x \<Rightarrow> [x])
     @ (case teredo a of None \<Rightarrow> [] | Some (x, y) \<Rightarrow> [x, y])
     @ map (\<lambda>_. ucast a) (filter (in_network (V6 a)) ipv4_embedding_prefixes)"

definition ipv4_is_blocked :: "32 word \<Rightarrow> bool" where
  "ipv4_is_blocked a = (if list_ex (in_network (V4 a)) public_address_exceptions then False
     else list_ex (in_network (V4 a)) denied_address_networks)"

fun ip_is_blocked :: "ip_address \<Rightarrow> bool" where
  "ip_is_blocked (V4 a) = ipv4_is_blocked a"
| "ip_is_blocked (V6 a) = (if list_ex (in_network (V6 a)) public_address_exceptions then False
     else if list_ex (in_network (V6 a)) denied_address_networks then True
     else list_ex ipv4_is_blocked (embedded_ipv4_addresses a))"

section \<open>The host firewall\<close>

datatype firewall_action = Allow | Deny

definition embedded_ipv4_firewall_networks :: "128 word \<Rightarrow> ip_network list \<Rightarrow> ip_network list" where
  "embedded_ipv4_firewall_networks prefix networks =
     List.map_filter (\<lambda>n. case n of Net4 x l \<Rightarrow> Some (Net6 (prefix OR ucast x) (96 + l)) | Net6 _ _ \<Rightarrow> None) networks"

definition firewall_policy_entries :: "(firewall_action \<times> ip_network) list" where
  "firewall_policy_entries = map (Pair Allow) public_address_exceptions @ map (Pair Deny) denied_address_networks
     @ concat (map (\<lambda>p. map (Pair Deny) (embedded_ipv4_firewall_networks p denied_ipv4_networks))
          [hextets [0, 0, 0, 0, 0, 0xFFFF], hextets [0x64, 0xFF9B]])"

text \<open>A firewall applies the first rule that matches, and lets pass what no rule matches.\<close>

definition firewall_denies :: "(firewall_action \<times> ip_network) list \<Rightarrow> ip_address \<Rightarrow> bool" where
  "firewall_denies rules a = (case List.find (\<lambda>(_, n). in_network a n) rules of Some (Deny, _) \<Rightarrow> True | _ \<Rightarrow> False)"

section \<open>Prefixes\<close>

lemma same_prefix_iff: "same_prefix l n a \<longleftrightarrow> (\<forall>i < LENGTH('a). LENGTH('a) - l \<le> i \<longrightarrow> bit a i = bit n i)" for a n :: "'a::len word"
proof -
  have "drop_bit k a = drop_bit k n \<longleftrightarrow> (\<forall>i < LENGTH('a). k \<le> i \<longrightarrow> bit a i = bit n i)" for k
  proof
    assume "drop_bit k a = drop_bit k n"
    then have "bit (drop_bit k a) (i - k) = bit (drop_bit k n) (i - k)" for i by simp
    then have "bit a (k + (i - k)) = bit n (k + (i - k))" for i by (simp only: bit_drop_bit_eq comp_def)
    then show "\<forall>i < LENGTH('a). k \<le> i \<longrightarrow> bit a i = bit n i" by (metis le_add_diff_inverse)
  next
    assume "\<forall>i < LENGTH('a). k \<le> i \<longrightarrow> bit a i = bit n i"
    then show "drop_bit k a = drop_bit k n"
      by (auto simp: bit_eq_iff bit_drop_bit_eq dest: bit_imp_le_length)
  qed
  then show ?thesis by (simp add: same_prefix_def)
qed

lemma same_prefix_shorter: "same_prefix l n a \<Longrightarrow> k \<le> l \<Longrightarrow> same_prefix k m n \<Longrightarrow> same_prefix k m a" for a n m :: "'a::len word"
  unfolding same_prefix_iff by (metis diff_le_mono2 le_trans)

lemma embedded_network:
  fixes p a :: "128 word" and n :: "32 word"
  assumes "\<And>i. i < 32 \<Longrightarrow> \<not> bit p i" and "l \<le> 32"
  shows "same_prefix (96 + l) (p OR ucast n) a \<longleftrightarrow> same_prefix 96 p a \<and> same_prefix l n (ucast a :: 32 word)"
proof -
  have bits: "bit (p OR ucast n) i \<longleftrightarrow> (if i < 32 then bit n i else bit p i)" if "i < 128" for i
    using assms(1) [of i] that by (auto simp: bit_or_iff bit_ucast_iff dest: bit_imp_le_length)
  have split: "(\<forall>i < 128. 32 - l \<le> i \<longrightarrow> bit a i = bit (p OR ucast n) i) \<longleftrightarrow>
      (\<forall>i < 128. 32 \<le> i \<longrightarrow> bit a i = bit p i) \<and> (\<forall>i < 32. 32 - l \<le> i \<longrightarrow> bit a i = bit n i)" (is "?L \<longleftrightarrow> ?R1 \<and> ?R2")
  proof
    assume L: ?L
    have "bit a i = bit p i" if "i < 128" "32 \<le> i" for i using L [rule_format, of i] bits [OF that(1)] that by simp
    moreover have "bit a i = bit n i" if "i < 32" "32 - l \<le> i" for i using L [rule_format, of i] bits [of i] that by simp
    ultimately show "?R1 \<and> ?R2" by blast
  next
    assume R: "?R1 \<and> ?R2"
    have "bit a i = bit (p OR ucast n) i" if "i < 128" "32 - l \<le> i" for i using R bits [OF that(1)] that by (cases "i < 32") auto
    then show ?L by blast
  qed
  have "128 - (96 + l) = 32 - l" by simp
  then show ?thesis using split by (simp add: same_prefix_iff bit_ucast_iff)
qed

section \<open>Both consumers agree\<close>

lemma find_deny:
  "firewall_denies (map (Pair Allow) xs @ map (Pair Deny) ys) a \<longleftrightarrow> \<not> list_ex (in_network a) xs \<and> list_ex (in_network a) ys"
proof -
  have deny: "firewall_denies (map (Pair Deny) ys) a \<longleftrightarrow> list_ex (in_network a) ys"
    by (induction ys) (auto simp: firewall_denies_def)
  show ?thesis using deny by (induction xs) (auto simp: firewall_denies_def)
qed

lemma v4_exceptions: "\<not> list_ex (in_network (V4 a)) public_address_exceptions"
  by (simp add: public_address_exceptions_def)

lemma v4_denied: "list_ex (in_network (V4 a)) denied_address_networks \<longleftrightarrow> list_ex (in_network (V4 a)) denied_ipv4_networks"
  by (simp add: denied_address_networks_def denied_ipv6_networks_def)

lemma v6_denied: "list_ex (in_network (V6 a)) denied_address_networks \<longleftrightarrow> list_ex (in_network (V6 a)) denied_ipv6_networks"
  by (simp add: denied_address_networks_def denied_ipv4_networks_def)

lemma embedded_denied:
  assumes "\<And>i. i < 32 \<Longrightarrow> \<not> bit p i" and "\<And>n. n \<in> set ns \<Longrightarrow> \<exists>x l. n = Net4 x l \<and> l \<le> 32"
  shows "list_ex (in_network (V6 a)) (embedded_ipv4_firewall_networks p ns) \<longleftrightarrow> same_prefix 96 p a \<and> list_ex (in_network (V4 (ucast a))) ns"
  using assms(2)
proof (induction ns)
  case (Cons n ns)
  from Cons.prems [of n] obtain x l where n: "n = Net4 x l" "l \<le> 32" by auto
  have "list_ex (in_network (V6 a)) (embedded_ipv4_firewall_networks p (n # ns)) \<longleftrightarrow>
      same_prefix (96 + l) (p OR ucast x) a \<or> list_ex (in_network (V6 a)) (embedded_ipv4_firewall_networks p ns)"
    by (simp add: embedded_ipv4_firewall_networks_def n(1) List.map_filter_simps)
  then show ?case using Cons embedded_network [OF assms(1) n(2)] n(1) by auto
qed (simp add: embedded_ipv4_firewall_networks_def List.map_filter_simps)

lemma v4_networks: "n \<in> set denied_ipv4_networks \<Longrightarrow> \<exists>x l. n = Net4 x l \<and> l \<le> 32"
  by (auto simp: denied_ipv4_networks_def)

lemma transition_denied:
  assumes "\<not> list_ex (in_network (V6 a)) denied_ipv6_networks"
  shows "sixtofour a = None" and "teredo a = None" and "\<not> in_network (V6 a) (Net6 (hextets [0x64, 0xFF9B, 1]) 48)"
proof -
  have no: "\<not> same_prefix 16 (hextets [0x2002]) a" "\<not> same_prefix 23 (hextets [0x2001]) a" "\<not> same_prefix 48 (hextets [0x64, 0xFF9B, 1]) a"
    using assms by (simp_all add: denied_ipv6_networks_def)
  have "drop_bit 112 (hextets [0x2002]) = 0x2002" "drop_bit 96 (hextets [0x2001]) = 0x20010000" by code_simp+
  then have "drop_bit 112 a \<noteq> 0x2002" "\<not> same_prefix 32 (hextets [0x2001]) a \<longrightarrow> drop_bit 96 a \<noteq> 0x20010000"
    using no(1) by (auto simp: same_prefix_def)
  moreover have "\<not> same_prefix 32 (hextets [0x2001]) a"
    using same_prefix_shorter [of 32 "hextets [0x2001]" a 23 "hextets [0x2001]"] no(2) by (auto simp: same_prefix_def)
  ultimately show "sixtofour a = None" "teredo a = None" by (simp_all add: sixtofour_def teredo_def)
  show "\<not> in_network (V6 a) (Net6 (hextets [0x64, 0xFF9B, 1]) 48)" using no(3) by simp
qed

lemma mapped_prefix: "ipv4_mapped a = (if same_prefix 96 (hextets [0, 0, 0, 0, 0, 0xFFFF]) a then Some (ucast a) else None)"
proof -
  have "drop_bit 32 (hextets [0, 0, 0, 0, 0, 0xFFFF]) = 0xFFFF" by code_simp
  then show ?thesis by (simp add: ipv4_mapped_def same_prefix_def)
qed

lemma low_bits: "take_bit 32 p = 0 \<Longrightarrow> i < 32 \<Longrightarrow> \<not> bit p i" for p :: "128 word"
  by (metis bit_take_bit_iff bit_0_eq bot_apply bot_bool_def)

lemma v6_embedded:
  assumes "\<not> list_ex (in_network (V6 a)) denied_ipv6_networks"
  shows "list_ex ipv4_is_blocked (embedded_ipv4_addresses a) \<longleftrightarrow>
    (same_prefix 96 (hextets [0, 0, 0, 0, 0, 0xFFFF]) a \<or> same_prefix 96 (hextets [0x64, 0xFF9B]) a) \<and> list_ex (in_network (V4 (ucast a))) denied_ipv4_networks"
proof -
  have "ipv4_is_blocked x \<longleftrightarrow> list_ex (in_network (V4 x)) denied_ipv4_networks" for x
    by (simp add: ipv4_is_blocked_def v4_exceptions v4_denied)
  then show ?thesis
    unfolding embedded_ipv4_addresses_def ipv4_embedding_prefixes_def using transition_denied [OF assms]
    by (auto simp: mapped_prefix)
qed

text \<open>
  Claim C11. The host firewall and the URL guard enforce the same policy: of all IPv4 and IPv6 addresses, the ordered rules that
  are rendered for the firewall refuse exactly those that the guard refuses, with the public exceptions inside refused blocks and
  with the IPv4 addresses embedded in IPv6 ones.
\<close>

theorem firewall_enforces_guard_policy: "firewall_denies firewall_policy_entries a \<longleftrightarrow> ip_is_blocked a"
proof -
  let ?m = "embedded_ipv4_firewall_networks (hextets [0, 0, 0, 0, 0, 0xFFFF]) denied_ipv4_networks"
  let ?n = "embedded_ipv4_firewall_networks (hextets [0x64, 0xFF9B]) denied_ipv4_networks"
  have "firewall_policy_entries = map (Pair Allow) public_address_exceptions @ map (Pair Deny) (denied_address_networks @ ?m @ ?n)"
    by (simp add: firewall_policy_entries_def)
  then have deny: "firewall_denies firewall_policy_entries a \<longleftrightarrow> \<not> list_ex (in_network a) public_address_exceptions
      \<and> (list_ex (in_network a) denied_address_networks \<or> list_ex (in_network a) ?m \<or> list_ex (in_network a) ?n)"
    using find_deny [of public_address_exceptions "denied_address_networks @ ?m @ ?n" a] by simp
  show ?thesis
  proof (cases a)
    case (V4 x)
    have "\<not> list_ex (in_network (V4 x)) (embedded_ipv4_firewall_networks p ns)" for p ns
      by (induction ns) (auto simp: embedded_ipv4_firewall_networks_def List.map_filter_simps split: ip_network.splits)
    then show ?thesis using deny V4 v4_exceptions [of x] by (simp add: ipv4_is_blocked_def)
  next
    case (V6 x)
    have "take_bit 32 (hextets [0, 0, 0, 0, 0, 0xFFFF]) = 0" "take_bit 32 (hextets [0x64, 0xFF9B]) = 0" by code_simp+
    then have "list_ex (in_network a) ?m \<longleftrightarrow> same_prefix 96 (hextets [0, 0, 0, 0, 0, 0xFFFF]) x \<and> list_ex (in_network (V4 (ucast x))) denied_ipv4_networks"
      "list_ex (in_network a) ?n \<longleftrightarrow> same_prefix 96 (hextets [0x64, 0xFF9B]) x \<and> list_ex (in_network (V4 (ucast x))) denied_ipv4_networks"
      unfolding V6 by (auto simp: embedded_denied [OF low_bits v4_networks])
    then show ?thesis using deny V6 v6_embedded [of x] by (auto simp: v6_denied)
  qed
qed

end
