(* ===== verification/URL_Text.thy ===== *)
theory URL_Text
  imports Python_Text IP_Policy
begin

text \<open>
  What the sources use of \<^verbatim>\<open>urllib.parse\<close> and \<^verbatim>\<open>ipaddress\<close> (Python 3.12): splitting and joining URLs, the host and the port
  of a network location, and the textual forms of IP addresses. \<open>None\<close> is a \<^verbatim>\<open>ValueError\<close>. On texts of code points below 256
  the NFKC check of a network location never refuses.
\<close>

section \<open>Splitting texts\<close>

definition before_first :: "char \<Rightarrow> string \<Rightarrow> string" where
  "before_first c s = takeWhile (\<lambda>x. x \<noteq> c) s"

definition after_first :: "char \<Rightarrow> string \<Rightarrow> string" where
  "after_first c s = drop 1 (dropWhile (\<lambda>x. x \<noteq> c) s)"

text \<open>\<^verbatim>\<open>s.rpartition(c)[2]\<close> and \<^verbatim>\<open>s.rpartition(c)[0]\<close>.\<close>

definition after_last :: "char \<Rightarrow> string \<Rightarrow> string" where
  "after_last c s = rev (takeWhile (\<lambda>x. x \<noteq> c) (rev s))"

definition before_last :: "char \<Rightarrow> string \<Rightarrow> string" where
  "before_last c s = rev (drop 1 (dropWhile (\<lambda>x. x \<noteq> c) (rev s)))"

fun split_on :: "char \<Rightarrow> string \<Rightarrow> string list" where
  "split_on c [] = [[]]"
| "split_on c (x # xs) = (if x = c then [] # split_on c xs else case split_on c xs of [] \<Rightarrow> [[x]] | y # ys \<Rightarrow> (x # y) # ys)"

definition rstrip_char :: "char \<Rightarrow> string \<Rightarrow> string" where
  "rstrip_char c s = rev (dropWhile (\<lambda>x. x = c) (rev s))"

definition strip_char :: "char \<Rightarrow> string \<Rightarrow> string" where
  "strip_char c s = rstrip_char c (dropWhile (\<lambda>x. x = c) s)"

definition is_ascii :: "string \<Rightarrow> bool" where
  "is_ascii s = list_all (\<lambda>c. (of_char c :: nat) < 128) s"

definition is_hex_char :: "char \<Rightarrow> bool" where
  "is_hex_char c \<longleftrightarrow> is_digit_char c \<or> (let n = of_char c :: nat in 97 \<le> n \<and> n \<le> 102 \<or> 65 \<le> n \<and> n \<le> 70)"

definition char_value :: "char \<Rightarrow> int" where
  "char_value c = (let n = of_char c :: int in if n \<le> 57 then n - 48 else if n \<le> 70 then n - 55 else n - 87)"

definition number_in :: "int \<Rightarrow> string \<Rightarrow> int" where
  "number_in radix s = foldl (\<lambda>n c. n * radix + char_value c) 0 s"

section \<open>URLs\<close>

record split_url =
  u_scheme :: string
  u_netloc :: string
  u_path :: string
  u_params :: string
  u_query :: string
  u_fragment :: string

definition uses_params :: "string list" where
  "uses_params = ['''', ''ftp'', ''hdl'', ''prospero'', ''http'', ''imap'', ''https'', ''shttp'', ''rtsp'', ''rtsps'', ''rtspu'',
     ''sip'', ''sips'', ''mms'', ''sftp'', ''tel'']"

definition uses_netloc :: "string list" where
  "uses_netloc = ['''', ''ftp'', ''http'', ''gopher'', ''nntp'', ''telnet'', ''imap'', ''wais'', ''file'', ''mms'', ''https'', ''shttp'',
     ''snews'', ''prospero'', ''rtsp'', ''rtsps'', ''rtspu'', ''rsync'', ''svn'', ''svn+ssh'', ''sftp'', ''nfs'', ''git'', ''git+ssh'', ''ws'', ''wss'']"

definition scheme_text_char :: "char \<Rightarrow> bool" where
  "scheme_text_char c \<longleftrightarrow> is_letter c \<or> is_digit_char c \<or> c \<in> {CHR ''+'', CHR ''-'', CHR ''.''}"

definition c0_or_space :: "char \<Rightarrow> bool" where
  "c0_or_space c \<longleftrightarrow> (of_char c :: nat) \<le> 32"

definition split_scheme :: "string \<Rightarrow> string \<times> string" where
  "split_scheme url = (case url of [] \<Rightarrow> ([], [])
     | c # _ \<Rightarrow> if CHR '':'' \<in> set url \<and> is_letter c \<and> list_all scheme_text_char (before_first CHR '':'' url)
         then (lower (before_first CHR '':'' url), after_first CHR '':'' url) else ([], url))"

definition is_netloc_char :: "char \<Rightarrow> bool" where
  "is_netloc_char c \<longleftrightarrow> c \<notin> {CHR ''/'', CHR ''?'', CHR ''#''}"

section \<open>Addresses as text\<close>

definition parse_octet :: "string \<Rightarrow> int option" where
  "parse_octet s = (if s = [] \<or> \<not> list_all is_digit_char s \<or> length s > 3 \<or> (s \<noteq> ''0'' \<and> hd s = CHR ''0'') \<or> number_in 10 s > 255
     then None else Some (number_in 10 s))"

definition parse_ipv4 :: "string \<Rightarrow> 32 word option" where
  "parse_ipv4 s = (case map parse_octet (split_on CHR ''.'' s) of
       [Some a, Some b, Some c, Some d] \<Rightarrow> Some (quad a b c d)
     | _ \<Rightarrow> None)"

definition parse_hextet :: "string \<Rightarrow> int option" where
  "parse_hextet s = (if s = [] \<or> \<not> list_all is_hex_char s \<or> length s > 4 then None else Some (number_in 16 s))"

fun all_some :: "'a option list \<Rightarrow> 'a list option" where
  "all_some [] = Some []"
| "all_some (None # xs) = None"
| "all_some (Some x # xs) = map_option (Cons x) (all_some xs)"

definition hex_text :: "int \<Rightarrow> string" where
  "hex_text n = (let ds = map (\<lambda>i. hex_digit (nat (n div 16 ^ i mod 16))) [3, 2, 1, 0]
     in if dropWhile (\<lambda>c. c = CHR ''0'') ds = [] then ''0'' else dropWhile (\<lambda>c. c = CHR ''0'') ds)"

text \<open>A trailing dotted quad stands for two hextets.\<close>

definition expand_ipv4_part :: "string list \<Rightarrow> string list option" where
  "expand_ipv4_part parts = (if CHR ''.'' \<in> set (last parts)
     then (case parse_ipv4 (last parts) of None \<Rightarrow> None
       | Some a \<Rightarrow> Some (butlast parts @ [hex_text (uint a div 65536), hex_text (uint a mod 65536)]))
     else Some parts)"

definition gaps :: "string list \<Rightarrow> nat list" where
  "gaps parts = filter (\<lambda>i. parts ! i = []) [1..<length parts - 1]"

definition hextets_of :: "string list \<Rightarrow> int list option" where
  "hextets_of parts = (case gaps parts of
       [] \<Rightarrow> if length parts \<noteq> 8 then None else all_some (map parse_hextet parts)
     | [i] \<Rightarrow>
         (let hi = (if hd parts = [] then i - 1 else i); lo0 = length parts - i - 1; lo = (if last parts = [] then lo0 - 1 else lo0) in
          if hd parts = [] \<and> hi \<noteq> 0 \<or> last parts = [] \<and> lo \<noteq> 0 \<or> hi + lo \<ge> 8 then None
          else map_option (\<lambda>(xs, ys). xs @ replicate (8 - (hi + lo)) 0 @ ys)
            (case (all_some (map parse_hextet (take hi parts)), all_some (map parse_hextet (drop (length parts - lo) parts))) of
               (Some xs, Some ys) \<Rightarrow> Some (xs, ys) | _ \<Rightarrow> None))
     | _ \<Rightarrow> None)"

definition parse_ipv6 :: "string \<Rightarrow> 128 word option" where
  "parse_ipv6 s = (let parts = split_on CHR '':'' s in
     if s = [] \<or> length parts < 3 then None
     else case expand_ipv4_part parts of
       None \<Rightarrow> None
     | Some ps \<Rightarrow> if length ps > 9 then None else map_option hextets (hextets_of ps))"

text \<open>\<^verbatim>\<open>ipaddress.ip_address(text)\<close>; a scope identifier does not change the address.\<close>

definition ip_address :: "string \<Rightarrow> ip_address option" where
  "ip_address s = (if CHR ''/'' \<in> set s then None
     else case parse_ipv4 s of
       Some a \<Rightarrow> Some (V4 a)
     | None \<Rightarrow>
         if CHR ''%'' \<in> set s \<and> (after_first CHR ''%'' s = [] \<or> CHR ''%'' \<in> set (after_first CHR ''%'' s)) then None
         else map_option V6 (parse_ipv6 (before_first CHR ''%'' s)))"

definition octet :: "nat \<Rightarrow> 32 word \<Rightarrow> int" where
  "octet i a = uint a div 256 ^ i mod 256"

definition ipv4_text :: "32 word \<Rightarrow> string" where
  "ipv4_text a = join ''.'' (map (\<lambda>i. int_text (octet i a)) [3, 2, 1, 0])"

definition hextet :: "nat \<Rightarrow> 128 word \<Rightarrow> int" where
  "hextet i a = uint a div 65536 ^ i mod 65536"

text \<open>The first longest run of at least two zero hextets becomes \<^verbatim>\<open>::\<close>.\<close>

definition zero_run :: "int list \<Rightarrow> nat \<Rightarrow> nat" where
  "zero_run xs i = length (takeWhile (\<lambda>x. x = 0) (drop i xs))"

definition longest_run :: "int list \<Rightarrow> nat \<times> nat" where
  "longest_run xs = foldl (\<lambda>(i, l) k. if zero_run xs k > l then (k, zero_run xs k) else (i, l)) (0, 0) [0..<length xs]"

definition ipv6_text :: "128 word \<Rightarrow> string" where
  "ipv6_text a = (let xs = map (\<lambda>i. hextet i a) [7, 6, 5, 4, 3, 2, 1, 0]; (i, l) = longest_run xs in
     if l > 1 then join '':'' (map hex_text (take i xs)) @ ''::'' @ join '':'' (map hex_text (drop (i + l) xs))
     else join '':'' (map hex_text xs))"

fun ip_text :: "ip_address \<Rightarrow> string" where
  "ip_text (V4 a) = ipv4_text a"
| "ip_text (V6 a) = ipv6_text a"

section \<open>Parsing a URL\<close>

definition bracketed_host_ok :: "string \<Rightarrow> bool" where
  "bracketed_host_ok h = (case h of
       c # rest \<Rightarrow> if c = CHR ''v'' then (let hex = takeWhile is_hex_char rest; r = dropWhile is_hex_char rest in
             hex \<noteq> [] \<and> r \<noteq> [] \<and> hd r = CHR ''.'' \<and> tl r \<noteq> [] \<and> CHR 0x0A \<notin> set (tl r))
         else (case ip_address h of Some (V6 _) \<Rightarrow> True | _ \<Rightarrow> False)
     | [] \<Rightarrow> False)"

definition netloc_ok :: "string \<Rightarrow> bool" where
  "netloc_ok n \<longleftrightarrow> (CHR ''['' \<in> set n) = (CHR '']'' \<in> set n)
     \<and> (CHR ''['' \<in> set n \<longrightarrow> bracketed_host_ok (before_first CHR '']'' (after_first CHR ''['' n)))"

definition split_path_params :: "string \<Rightarrow> string \<Rightarrow> string \<times> string" where
  "split_path_params scheme path = (if scheme \<in> set uses_params \<and> CHR '';'' \<in> set path
     then (let seg = after_last CHR ''/'' path; hd_part = take (length path - length seg) path in
        if CHR '';'' \<in> set seg then (hd_part @ before_first CHR '';'' seg, after_first CHR '';'' seg) else (path, []))
     else (path, []))"

definition urlparse :: "string \<Rightarrow> split_url option" where
  "urlparse text0 = (let url0 = filter (\<lambda>c. c \<notin> {CHR 0x09, CHR 0x0A, CHR 0x0D}) (dropWhile c0_or_space text0);
       (scheme, url1) = split_scheme url0;
       (netloc, url2) = (if starts_with ''//'' url1 then (takeWhile is_netloc_char (drop 2 url1), dropWhile is_netloc_char (drop 2 url1)) else ([], url1));
       fragment = after_first CHR ''#'' url2; url3 = before_first CHR ''#'' url2;
       query = after_first CHR ''?'' url3; url4 = before_first CHR ''?'' url3;
       (path, params) = split_path_params scheme url4
     in if \<not> netloc_ok netloc then None
        else Some \<lparr>u_scheme = scheme, u_netloc = netloc, u_path = path, u_params = params, u_query = query, u_fragment = fragment\<rparr>)"

definition urlunparse :: "split_url \<Rightarrow> string" where
  "urlunparse u = (let path = (if u_params u \<noteq> [] then u_path u @ '';'' @ u_params u else u_path u);
       located = (if u_netloc u \<noteq> [] \<or> (u_scheme u \<noteq> [] \<and> u_scheme u \<in> set uses_netloc) \<or> starts_with ''//'' path
         then ''//'' @ u_netloc u @ (if path \<noteq> [] \<and> \<not> starts_with ''/'' path then ''/'' @ path else path) else path);
       schemed = (if u_scheme u \<noteq> [] then u_scheme u @ '':'' @ located else located);
       queried = (if u_query u \<noteq> [] then schemed @ ''?'' @ u_query u else schemed)
     in if u_fragment u \<noteq> [] then queried @ ''#'' @ u_fragment u else queried)"

definition hostinfo :: "split_url \<Rightarrow> string \<times> string" where
  "hostinfo u = (let h = after_last CHR ''@'' (u_netloc u) in
     if CHR ''['' \<in> set h then (let b = after_first CHR ''['' h in (before_first CHR '']'' b, after_first CHR '':'' (after_first CHR '']'' b)))
     else (before_first CHR '':'' h, after_first CHR '':'' h))"

definition url_hostname :: "split_url \<Rightarrow> string option" where
  "url_hostname u = (let h = fst (hostinfo u) in if h = [] then None
     else Some (lower (before_first CHR ''%'' h) @ drop (length (before_first CHR ''%'' h)) h))"

text \<open>The port: \<open>None\<close> is the \<^verbatim>\<open>ValueError\<close>, \<open>Some None\<close> is no port.\<close>

definition url_port :: "split_url \<Rightarrow> int option option" where
  "url_port u = (let p = snd (hostinfo u) in
     if p = [] then Some None
     else if \<not> list_all is_digit_char p \<or> number_in 10 p > 65535 then None
     else Some (Some (number_in 10 p)))"

end
