(* ===== verification/URL_Guard.thy ===== *)
theory URL_Guard
  imports URL_Text
begin

text \<open>
  The destination checks of \<^verbatim>\<open>engine/url_guard.py\<close>: hosts, addresses and DNS answers that a URL may lead to.

  \<^item> \<open>net\<close> holds what lies outside the program: the answer of \<^verbatim>\<open>getaddrinfo\<close>, which nothing is assumed about, and the two IDNA
    encoders on names that are not ASCII. On ASCII names Python's \<^verbatim>\<open>idna\<close> codec only checks the lengths of the labels.
  \<^item> \<open>Unsafe\<close> is \<open>UnsafeURLError\<close>, \<open>Unresolved\<close> is \<open>URLResolutionError\<close>; their messages leave out quoted values.
\<close>

datatype url_error = Unsafe string | Unresolved string

datatype dns_answer = Dns_failed | Dns_bad_name | Dns_addresses "string list"

record net =
  getaddrinfo :: "string \<Rightarrow> dns_answer"
  idna2003 :: "string \<Rightarrow> string option"
  idna2008 :: "string \<Rightarrow> string option"

section \<open>Hostnames\<close>

definition disallowed_hosts :: "string list" where
  "disallowed_hosts = [''broadcasthost'', ''ip6-localhost'', ''ip6-loopback'', ''metadata.google.internal'', ''metadata.goog'', ''metadata'',
     ''instance-data'', ''instance-data.ec2.internal'', ''localhost'', ''localhost.localdomain'', ''localhost6'', ''localhost6.localdomain6'']"

definition ends_with :: "string \<Rightarrow> string \<Rightarrow> bool" where
  "ends_with e s \<longleftrightarrow> drop (length s - length e) s = e"

definition hostname_is_blocked :: "string \<Rightarrow> bool" where
  "hostname_is_blocked host = (let name = rstrip_char CHR ''.'' (lower host) in name \<in> set disallowed_hosts \<or> ends_with ''.localhost'' name)"

definition max_hostname_chars :: nat where
  "max_hostname_chars = 253"

definition ascii_labels_ok :: "string \<Rightarrow> bool" where
  "ascii_labels_ok s \<longleftrightarrow> s = [] \<or> (let labels = split_on CHR ''.'' s in
     list_all (\<lambda>l. 0 < length l \<and> length l < 64) (butlast labels) \<and> length (last labels) < 64)"

definition encode_idna :: "net \<Rightarrow> string \<Rightarrow> string option" where
  "encode_idna e s = (if is_ascii s then (if ascii_labels_ok s then Some s else None) else idna2003 e s)"

definition idna2003_hostname :: "net \<Rightarrow> string \<Rightarrow> url_error + string" where
  "idna2003_hostname e host = (if length (rstrip_char CHR ''.'' host) > max_hostname_chars then Inl (Unsafe ''URL hostname is longer than 253 characters'')
     else case encode_idna e host of None \<Rightarrow> Inl (Unsafe ''URL hostname is invalid'') | Some s \<Rightarrow> Inr (rstrip_char CHR ''.'' (lower s)))"

definition require_one_reading :: "net \<Rightarrow> string \<Rightarrow> string \<Rightarrow> url_error + unit" where
  "require_one_reading e host canonical = (if is_ascii host then
       (if list_ex (\<lambda>c. c \<in> {CHR ''<'', CHR ''>'', CHR 0x5E}) host then Inl (Unsafe ''URL hostname contains a character HTTP clients escape'') else Inr ())
     else if map_option (\<lambda>s. rstrip_char CHR ''.'' (lower s)) (idna2008 e (lower host)) \<noteq> Some canonical
     then Inl (Unsafe ''URL hostname is read differently by IDNA 2003 and IDNA 2008'') else Inr ())"

definition canonical_hostname :: "net \<Rightarrow> string \<Rightarrow> url_error + string" where
  "canonical_hostname e host = (case idna2003_hostname e host of Inl x \<Rightarrow> Inl x
     | Inr canonical \<Rightarrow> (case require_one_reading e host canonical of Inl x \<Rightarrow> Inl x | Inr _ \<Rightarrow> Inr canonical))"

section \<open>Numbers as hosts\<close>

definition ipv4_number :: "string \<Rightarrow> int option" where
  "ipv4_number part = (if part = [] then None
     else let (digits, radix) = (if length part \<ge> 2 \<and> (take 2 part = ''0x'' \<or> take 2 part = ''0X'') then (drop 2 part, 16)
              else if length part \<ge> 2 \<and> hd part = CHR ''0'' then (drop 1 part, 8) else (part, 10 :: int))
          in if digits = [] then Some 0
             else if list_ex (\<lambda>c. \<not> (if radix = 16 then is_hex_char c else is_digit_char c \<and> char_value c < radix)) digits then None
             else Some (number_in radix digits))"

definition host_parts :: "string \<Rightarrow> string list" where
  "host_parts host = (let parts = split_on CHR ''.'' host in if last parts = [] \<and> length parts > 1 then butlast parts else parts)"

definition ends_in_a_number :: "string \<Rightarrow> bool" where
  "ends_in_a_number host = (let l = last (host_parts host) in (l \<noteq> [] \<and> list_all is_digit_char l) \<or> ipv4_number l \<noteq> None)"

definition legacy_ipv4_address :: "string \<Rightarrow> 32 word option" where
  "legacy_ipv4_address host = (if host = [] \<or> \<not> ends_in_a_number host then None
     else let parts = host_parts host in
       if length parts > 4 then None
       else case all_some (map ipv4_number parts) of
         None \<Rightarrow> None
       | Some vs \<Rightarrow> if list_ex (\<lambda>v. v > 255) (butlast vs) \<or> last vs \<ge> 256 ^ (5 - length vs) then None
           else Some (word_of_int (last vs + sum_list (map (\<lambda>(i, v). v * 256 ^ (3 - i)) (List.enumerate 0 (butlast vs))))))"

definition folded_ip :: "string \<Rightarrow> ip_address option" where
  "folded_ip host = (case ip_address host of
       None \<Rightarrow> map_option V4 (legacy_ipv4_address host)
     | Some (V6 a) \<Rightarrow> (case ipv4_mapped a of Some b \<Rightarrow> Some (V4 b) | None \<Rightarrow> Some (V6 a))
     | Some (V4 a) \<Rightarrow> Some (V4 a))"

definition address_of_name :: "string \<Rightarrow> ip_address option" where
  "address_of_name s = (case ip_address s of Some a \<Rightarrow> Some a | None \<Rightarrow> map_option V4 (legacy_ipv4_address s))"

definition canonical_url_origin :: "net \<Rightarrow> string \<Rightarrow> (string \<times> string \<times> int) option" where
  "canonical_url_origin e url = (case urlparse url of
       None \<Rightarrow> None
     | Some u \<Rightarrow> (case url_port u of
         None \<Rightarrow> None
       | Some port0 \<Rightarrow>
           (let scheme = lower (u_scheme u);
                port = (case port0 of Some n \<Rightarrow> n | None \<Rightarrow> if scheme = ''https'' then 443 else if scheme = ''http'' then 80 else - 1)
            in case url_hostname u of
              None \<Rightarrow> None
            | Some raw \<Rightarrow> if scheme = [] then None
                else case folded_ip (rstrip_char CHR ''.'' raw) of
                  Some a \<Rightarrow> Some (scheme, ip_text a, port)
                | None \<Rightarrow> (case canonical_hostname e raw of
                    Inl _ \<Rightarrow> None
                  | Inr host \<Rightarrow> (case folded_ip host of
                      Some a \<Rightarrow> Some (scheme, ip_text a, port)
                    | None \<Rightarrow> Some (scheme, host, port))))))"

section \<open>The lexical checks\<close>

text \<open>\<open>Inr None\<close> is an IP literal, \<open>Inr (Some h)\<close> a name that DNS has yet to confirm.\<close>

definition check_host :: "net \<Rightarrow> string \<Rightarrow> url_error + string option" where
  "check_host e host = (let ip_host = rstrip_char CHR ''.'' host in
     case address_of_name ip_host of
       Some a \<Rightarrow> if ip_is_blocked a then Inl (Unsafe ''URL points at non-public IP'') else Inr None
     | None \<Rightarrow> (case idna2003_hostname e host of
         Inl x \<Rightarrow> Inl x
       | Inr canonical \<Rightarrow>
           if hostname_is_blocked canonical then Inl (Unsafe ''Hostname is blocked'')
           else (let literal = address_of_name canonical in
             if (case literal of Some a \<Rightarrow> ip_is_blocked a | None \<Rightarrow> False) then Inl (Unsafe ''URL points at non-public IP'')
             else if literal = None \<and> ends_in_a_number (rstrip_char CHR ''.'' canonical)
             then Inl (Unsafe ''URL hostname ends in a number but is not an IPv4 address'')
             else case require_one_reading e host canonical of
               Inl x \<Rightarrow> Inl x
             | Inr _ \<Rightarrow> Inr (if literal \<noteq> None then None else Some canonical))))"

definition is_control :: "char \<Rightarrow> bool" where
  "is_control c \<longleftrightarrow> (of_char c :: nat) < 32 \<or> (of_char c :: nat) = 127"

definition public_dns_hostname :: "net \<Rightarrow> string list \<Rightarrow> string \<Rightarrow> url_error + string option" where
  "public_dns_hostname e allowed_schemes url =
     (if CHR 0x5C \<in> set url then Inl (Unsafe ''URL must not contain backslashes'')
      else if list_ex is_blank_char url then Inl (Unsafe ''URL must not contain whitespace'')
      else if list_ex is_control url then Inl (Unsafe ''URL must not contain control characters'')
      else case urlparse url of
        None \<Rightarrow> Inl (Unsafe ''URL is malformed'')
      | Some u \<Rightarrow>
          if lower (u_scheme u) \<notin> set allowed_schemes then Inl (Unsafe ''URL scheme is not allowed'')
          else case url_hostname u of
            None \<Rightarrow> Inl (Unsafe ''URL has no hostname'')
          | Some host \<Rightarrow>
              if strip_char CHR ''.'' host = [] then Inl (Unsafe ''URL has no hostname'')
              else if CHR ''%'' \<in> set host then Inl (Unsafe ''URL hostname must not contain percent escapes'')
              else if url_port u = None then Inl (Unsafe ''URL port is invalid'')
              else check_host e host)"

section \<open>The DNS checks\<close>

definition answer_addresses :: "string list \<Rightarrow> ip_address list" where
  "answer_addresses texts = List.map_filter ip_address texts"

definition http_schemes :: "string list" where
  "http_schemes = [''http'', ''https'']"

definition assert_public_url :: "net \<Rightarrow> string list \<Rightarrow> bool \<Rightarrow> bool \<Rightarrow> string \<Rightarrow> url_error + unit" where
  "assert_public_url e allowed_schemes resolve_dns allow_unresolved url = (case public_dns_hostname e allowed_schemes url of
       Inl x \<Rightarrow> Inl x
     | Inr None \<Rightarrow> Inr ()
     | Inr (Some host) \<Rightarrow> if \<not> resolve_dns then Inr ()
         else (case getaddrinfo e host of
           Dns_bad_name \<Rightarrow> Inl (Unsafe ''URL hostname is invalid'')
         | Dns_failed \<Rightarrow> if allow_unresolved then Inr () else Inl (Unresolved ''Hostname could not be resolved'')
         | Dns_addresses texts \<Rightarrow> if list_ex ip_is_blocked (answer_addresses texts)
             then Inl (Unsafe ''Hostname resolves to non-public address'') else Inr ()))"

record resolved_public_url =
  connect_url :: string
  host_header :: string
  sni_hostname :: string

definition resolve_address :: "net \<Rightarrow> string \<Rightarrow> url_error + ip_address" where
  "resolve_address e host = (case address_of_name host of
       Some a \<Rightarrow> Inr a
     | None \<Rightarrow> (case getaddrinfo e host of
         Dns_failed \<Rightarrow> Inl (Unresolved ''Hostname could not be resolved'')
       | Dns_bad_name \<Rightarrow> Inl (Unsafe ''URL hostname is invalid'')
       | Dns_addresses texts \<Rightarrow> if list_ex ip_is_blocked (answer_addresses texts) then Inl (Unsafe ''Hostname resolves to non-public address'')
           else (case answer_addresses texts of [] \<Rightarrow> Inl (Unresolved ''Hostname resolved to no usable address'') | a # _ \<Rightarrow> Inr a)))"

definition authority :: "string \<Rightarrow> int option \<Rightarrow> string" where
  "authority host port = (case port of None \<Rightarrow> host | Some n \<Rightarrow> host @ '':'' @ int_text n)"

definition bracketed :: "ip_address \<Rightarrow> string" where
  "bracketed a = (case a of V6 _ \<Rightarrow> ''['' @ ip_text a @ '']'' | V4 _ \<Rightarrow> ip_text a)"

definition resolve_public_url :: "net \<Rightarrow> string \<Rightarrow> url_error + resolved_public_url" where
  "resolve_public_url e url = (case assert_public_url e http_schemes False True url of
       Inl x \<Rightarrow> Inl x
     | Inr _ \<Rightarrow> (case urlparse url of
         None \<Rightarrow> Inl (Unsafe ''URL is malformed'')
       | Some u \<Rightarrow> (case url_hostname u of
           None \<Rightarrow> Inl (Unsafe ''URL has no hostname'')
         | Some original \<Rightarrow> (case canonical_hostname e original of
             Inl x \<Rightarrow> Inl x
           | Inr host \<Rightarrow> (case resolve_address e host of
               Inl x \<Rightarrow> Inl x
             | Inr literal \<Rightarrow>
                 (let port = (case url_port u of Some p \<Rightarrow> p | None \<Rightarrow> None);
                      userinfo = (if CHR ''@'' \<in> set (u_netloc u) then before_last CHR ''@'' (u_netloc u) @ ''@'' else [])
                  in Inr \<lparr>connect_url = urlunparse (u\<lparr>u_netloc := userinfo @ authority (bracketed literal) port\<rparr>),
                       host_header = authority (if CHR '':'' \<in> set host then ''['' @ host @ '']'' else host) port,
                       sni_hostname = host\<rparr>))))))"

definition url_host_label :: "net \<Rightarrow> string \<Rightarrow> url_error + string" where
  "url_host_label e url = (case urlparse url of
       None \<Rightarrow> Inl (Unsafe ''URL is malformed'')
     | Some u \<Rightarrow> (case url_hostname u of
         None \<Rightarrow> Inr ''unknown-host''
       | Some raw \<Rightarrow> (case canonical_hostname e raw of
           Inl x \<Rightarrow> Inl x
         | Inr host0 \<Rightarrow>
             (let host1 = (case ip_address host0 of Some a \<Rightarrow> ip_text a | None \<Rightarrow> host0);
                  host = (if CHR '':'' \<in> set host1 then ''['' @ host1 @ '']'' else host1);
                  port = (case url_port u of Some p \<Rightarrow> p | None \<Rightarrow> None)
              in Inr (if port = None \<or> (lower (u_scheme u), port) \<in> {(''http'', Some 80), (''https'', Some 443)} then host
                   else authority host port)))))"

end
