(* ===== verification/Address_Text.thy ===== *)
theory Address_Text
  imports URL_Guard
begin

text \<open>
  The textual forms of addresses: printing and parsing an address are inverse, the strict and the browser's reading of a dotted
  quad agree, and an address is spelled in ASCII.
\<close>

section \<open>Splitting and joining\<close>

lemma split_on_ne [simp]: "split_on c s \<noteq> []"
  by (cases s) (auto split: list.splits)

lemma split_on_none: "c \<notin> set s \<Longrightarrow> split_on c s = [s]"
  by (induction s) auto

lemma split_on_append: "c \<notin> set s \<Longrightarrow> split_on c (s @ c # t) = s # split_on c t"
  by (induction s) (auto split: list.splits)

lemma split_join: "xs \<noteq> [] \<Longrightarrow> (\<And>x. x \<in> set xs \<Longrightarrow> c \<notin> set x) \<Longrightarrow> split_on c (join [c] xs) = xs"
proof (induction xs)
  case (Cons x xs)
  then show ?case by (cases xs) (auto simp: split_on_none split_on_append)
qed simp

lemma split_on_set: "set s \<subseteq> insert c (\<Union> (set ` set (split_on c s)))"
proof (induction s)
  case (Cons x s)
  then show ?case by (cases "split_on c s") (auto simp: subset_iff)
qed simp

section \<open>Numbers\<close>

lemma number_in_snoc: "number_in r (s @ [c]) = number_in r s * r + char_value c"
  by (simp add: number_in_def)

lemma hex_digit_table: "list_all (\<lambda>n. char_value (hex_digit n) = int n \<and> is_hex_char (hex_digit n) \<and> hex_digit n \<noteq> CHR '':'' \<and> hex_digit n \<noteq> CHR ''.''
    \<and> (hex_digit n = CHR ''0'' \<longleftrightarrow> n = 0)) [0..<16]"
  by code_simp

lemma hex_digit_value:
  assumes "n < 16"
  shows "char_value (hex_digit n) = int n" and "is_hex_char (hex_digit n)" and "hex_digit n \<noteq> CHR '':''" and "hex_digit n \<noteq> CHR ''.''"
    and "hex_digit n = CHR ''0'' \<longleftrightarrow> n = 0"
  using hex_digit_table assms by (auto simp: list_all_iff)

lemma zero_char: "char_value CHR ''0'' = 0" "is_hex_char CHR ''0''" "is_digit_char CHR ''0''"
  by code_simp+

lemma number_in_zeros: "(\<And>c. c \<in> set z \<Longrightarrow> c = CHR ''0'') \<Longrightarrow> number_in r (z @ s) = number_in r s"
proof (induction z)
  case (Cons c z)
  have "c = CHR ''0''" using Cons.prems [of c] by simp
  then have "number_in r ((c # z) @ s) = number_in r (z @ s)" by (simp add: number_in_def zero_char)
  then show ?case using Cons by simp
qed simp

lemma number_in_strip: "number_in r (dropWhile (\<lambda>c. c = CHR ''0'') s) = number_in r s"
proof -
  have "number_in r (takeWhile (\<lambda>c. c = CHR ''0'') s @ dropWhile (\<lambda>c. c = CHR ''0'') s) = number_in r (dropWhile (\<lambda>c. c = CHR ''0'') s)"
    by (rule number_in_zeros) (auto dest: set_takeWhileD)
  then show ?thesis by simp
qed

definition hex_digits :: "int \<Rightarrow> string" where
  "hex_digits n = map (\<lambda>i. hex_digit (nat (n div 16 ^ i mod 16))) [3, 2, 1, 0]"

lemma hex_digits_value:
  assumes "0 \<le> n" and "n < 65536"
  shows "number_in 16 (hex_digits n) = n"
proof -
  have d: "char_value (hex_digit (nat (n div 16 ^ i mod 16))) = n div 16 ^ i mod 16" for i
    using hex_digit_value(1) [of "nat (n div 16 ^ i mod 16)"] by simp
  have "number_in 16 (hex_digits n) = ((n div 16 ^ 3 mod 16 * 16 + n div 16 ^ 2 mod 16) * 16 + n div 16 ^ 1 mod 16) * 16 + n div 16 ^ 0 mod 16"
    by (simp only: number_in_def hex_digits_def list.map foldl_Cons foldl_Nil d mult_zero_left add_0)
  also have "\<dots> = ((n div 4096 mod 16 * 16 + n div 256 mod 16) * 16 + n div 16 mod 16) * 16 + n mod 16" by simp
  also have "\<dots> = n"
  proof -
    have "n div 256 = n div 16 div 16" "n div 4096 = n div 16 div 16 div 16" by (simp_all flip: zdiv_zmult2_eq)
    moreover have "n div 16 div 16 div 16 mod 16 = n div 16 div 16 div 16" using assms by (simp flip: zdiv_zmult2_eq)
    moreover have "((q3 * 16 + r2) * 16 + r1) * 16 + r0 = m" if "m = 16 * q1 + r0" "q1 = 16 * q2 + r1" "q2 = 16 * q3 + r2" for m q1 q2 q3 r0 r1 r2 :: int
      using that by simp
    ultimately show ?thesis
      using mult_div_mod_eq [of 16 n] mult_div_mod_eq [of 16 "n div 16"] mult_div_mod_eq [of 16 "n div 16 div 16"] by metis
  qed
  finally show ?thesis .
qed

lemma hex_text_def': "hex_text n = (if dropWhile (\<lambda>c. c = CHR ''0'') (hex_digits n) = [] then ''0'' else dropWhile (\<lambda>c. c = CHR ''0'') (hex_digits n))"
  by (simp add: hex_text_def hex_digits_def Let_def)

lemma hex_text_chars: "c \<in> set (hex_text n) \<Longrightarrow> is_hex_char c \<and> c \<noteq> CHR '':'' \<and> c \<noteq> CHR ''.''"
proof -
  have "c \<in> set (hex_digits n) \<Longrightarrow> is_hex_char c \<and> c \<noteq> CHR '':'' \<and> c \<noteq> CHR ''.''" for c
    using hex_digit_value by (auto simp: hex_digits_def)
  then show "c \<in> set (hex_text n) \<Longrightarrow> is_hex_char c \<and> c \<noteq> CHR '':'' \<and> c \<noteq> CHR ''.''"
    using zero_char by (auto simp: hex_text_def' split: if_splits dest: set_dropWhileD)
qed

lemma hex_text_round:
  assumes "0 \<le> n" and "n < 65536"
  shows "parse_hextet (hex_text n) = Some n" and "hex_text n \<noteq> []"
proof -
  let ?d = "dropWhile (\<lambda>c. c = CHR ''0'') (hex_digits n)"
  have v: "number_in 16 ?d = n" by (simp add: number_in_strip hex_digits_value [OF assms])
  have len: "length ?d \<le> 4" using length_dropWhile_le [of _ "hex_digits n"] by (simp add: hex_digits_def)
  show ne: "hex_text n \<noteq> []" by (simp add: hex_text_def')
  have "number_in 16 ''0'' = 0" "number_in 16 [] = 0" by (simp_all add: number_in_def zero_char)
  then have "number_in 16 (hex_text n) = n" using v by (cases "?d = []") (auto simp: hex_text_def')
  moreover have "length (hex_text n) \<le> 4" using len by (simp add: hex_text_def')
  moreover have "list_all is_hex_char (hex_text n)" using hex_text_chars by (auto simp: list_all_iff)
  ultimately show "parse_hextet (hex_text n) = Some n" using ne by (simp add: parse_hextet_def)
qed

lemma digits_rebuild: "0 < b \<Longrightarrow> foldl (\<lambda>n x. n * b + x) (u div b ^ k) (map (\<lambda>i. u div b ^ i mod b) (rev [0..<k])) = u" for u b :: int
proof (induction k)
  case (Suc k)
  have "u div b ^ Suc k = u div b ^ k div b" using Suc.prems by (simp only: power_Suc2 zdiv_zmult2_eq less_imp_le)
  then have "u div b ^ Suc k * b + u div b ^ k mod b = u div b ^ k" by (simp only: div_mult_mod_eq)
  then show ?case using Suc by simp
qed simp

section \<open>IPv4\<close>

lemma digit_table: "list_all (\<lambda>n. is_digit_char (char_of (48 + n)) \<and> char_value (char_of (48 + n)) = int n \<and> (char_of (48 + n) = CHR ''0'' \<longleftrightarrow> n = 0)) [0..<10]"
  by code_simp

lemma digit_char:
  assumes "n < 10"
  shows "is_digit_char (char_of (48 + n))" and "char_value (char_of (48 + n)) = int n" and "char_of (48 + n) = CHR ''0'' \<longleftrightarrow> n = 0"
  using digit_table assms by (auto simp: list_all_iff)

lemma digits_of_value: "list_all is_digit_char (digits_of n) \<and> number_in 10 (digits_of n) = int n \<and> digits_of n \<noteq> [] \<and> (0 < n \<longrightarrow> hd (digits_of n) \<noteq> CHR ''0'')"
proof (induction n rule: digits_of.induct)
  case (1 n)
  show ?case
  proof (cases "n < 10")
    case True
    then show ?thesis by (simp add: digits_of.simps [of n] digit_char number_in_def)
  next
    case False
    then have "0 < n div 10" by (simp add: div_greater_zero_iff)
    moreover have "int (n div 10) * 10 + int (n mod 10) = int n" using div_mult_mod_eq [of n 10] by linarith
    ultimately show ?thesis using 1 [OF False] False digit_char [of "n mod 10"]
      by (simp add: digits_of.simps [of n] number_in_snoc)
  qed
qed

lemma digits_of_length:
  assumes "n < 1000"
  shows "length (digits_of n) \<le> 3"
proof -
  have one: "length (digits_of k) = 1" if "k < 10" for k using that by (simp add: digits_of.simps)
  have two: "length (digits_of k) \<le> 2" if "k < 100" for k
    using one [of "k div 10"] that by (simp add: digits_of.simps [of k])
  show ?thesis using two [of "n div 10"] assms by (simp add: digits_of.simps [of n])
qed

lemma octet_round:
  "parse_octet (int_text (octet i a)) = Some (octet i a)" "CHR ''.'' \<notin> set (int_text (octet i a))" "CHR ''/'' \<notin> set (int_text (octet i a))"
proof -
  define n where "n = nat (octet i a)"
  have n: "octet i a = int n" "n < 256" by (simp_all add: n_def octet_def nat_less_iff)
  have t: "int_text (octet i a) = digits_of n" by (simp add: n int_text_def)
  note d = digits_of_value [of n]
  have "digits_of n \<noteq> ''0'' \<longrightarrow> hd (digits_of n) \<noteq> CHR ''0''" using d by (cases "n = 0") (auto simp: digits_of.simps)
  moreover have "length (digits_of n) \<le> 3" using digits_of_length [of n] n(2) by simp
  ultimately have "parse_octet (digits_of n) = Some (int n)" using d n(2) by (auto simp: parse_octet_def)
  then show "parse_octet (int_text (octet i a)) = Some (octet i a)" unfolding t by (simp only: n(1))
  have "\<not> is_digit_char CHR ''.''" "\<not> is_digit_char CHR ''/''" by code_simp+
  then show "CHR ''.'' \<notin> set (int_text (octet i a))" "CHR ''/'' \<notin> set (int_text (octet i a))" using d unfolding t by (auto simp: list_all_iff)
qed

lemma ipv4_round: "parse_ipv4 (ipv4_text a) = Some a"
proof -
  have split: "split_on CHR ''.'' (ipv4_text a) = map (\<lambda>i. int_text (octet i a)) [3, 2, 1, 0]"
    unfolding ipv4_text_def by (rule split_join) (auto simp: octet_round)
  have zero: "uint a div 256 ^ 4 = 0" using uint_bounded [of a] by simp
  have ks: "rev [0..<4] = [3, 2, 1, 0 :: nat]" by (simp add: upt_rec)
  have "foldl (\<lambda>n x. n * 256 + x) 0 (map (\<lambda>i. octet i a) [3, 2, 1, 0]) = uint a"
    using digits_rebuild [of 256 "uint a" 4, OF zero_less_numeral] unfolding zero ks octet_def .
  then have "quad (octet 3 a) (octet 2 a) (octet 1 a) (octet 0 a) = a" by (simp add: quad_def)
  then show ?thesis by (simp add: parse_ipv4_def split octet_round)
qed

section \<open>IPv6\<close>

lemma hextets_rebuild: "hextets (map (\<lambda>i. hextet i a) [7, 6, 5, 4, 3, 2, 1, 0]) = a"
proof -
  have zero: "uint a div 65536 ^ 8 = 0" using uint_bounded [of a] by simp
  have ks: "rev [0..<8] = [7, 6, 5, 4, 3, 2, 1, 0 :: nat]" by (simp add: upt_rec)
  have "foldl (\<lambda>n x. n * 65536 + x) 0 (map (\<lambda>i. hextet i a) [7, 6, 5, 4, 3, 2, 1, 0]) = uint a"
    using digits_rebuild [of 65536 "uint a" 8, OF zero_less_numeral] unfolding zero ks hextet_def .
  then show ?thesis by (simp add: hextets_def)
qed

lemma zero_run_zeros: "l \<le> zero_run xs i \<Longrightarrow> take l (drop i xs) = replicate l 0"
proof -
  assume "l \<le> zero_run xs i"
  then have "take l (drop i xs) = take l (takeWhile (\<lambda>x. x = 0) (drop i xs))"
    by (metis zero_run_def takeWhile_eq_take take_take min.absorb1)
  also have "takeWhile (\<lambda>x. x = 0) (drop i xs) = replicate (zero_run xs i) 0"
    unfolding zero_run_def by (rule replicate_eqI) (auto dest: set_takeWhileD)
  finally show ?thesis using \<open>l \<le> zero_run xs i\<close> by simp
qed

lemma longest_run_zeros:
  assumes "longest_run xs = (i, l)"
  shows "l \<le> zero_run xs i" and "i \<le> length xs"
proof -
  have "case foldl (\<lambda>(i, l) k. if zero_run xs k > l then (k, zero_run xs k) else (i, l)) (0, 0) [0..<n] of (i, l) \<Rightarrow> l \<le> zero_run xs i \<and> i \<le> n" for n
    by (induction n) (auto split: prod.splits if_splits)
  from this [of "length xs"] show "l \<le> zero_run xs i" "i \<le> length xs" using assms by (auto simp: longest_run_def)
qed

lemma run_split:
  assumes "longest_run xs = (i, l)"
  shows "xs = take i xs @ replicate l 0 @ drop (i + l) xs" and "i + l \<le> length xs"
proof -
  note z = zero_run_zeros [OF longest_run_zeros(1) [OF assms]]
  have "xs = take i xs @ take l (drop i xs) @ drop l (drop i xs)" by (simp only: append_take_drop_id)
  then show "xs = take i xs @ replicate l 0 @ drop (i + l) xs" by (simp add: z add.commute)
  have "length (replicate l (0::int)) \<le> length (drop i xs)" unfolding z [symmetric] by simp
  then show "i + l \<le> length xs" using longest_run_zeros(2) [OF assms] by simp
qed

definition padded :: "string list \<Rightarrow> string list" where
  "padded xs = (if xs = [] then [[]] else xs)"

lemma split_join_more:
  "(\<And>x. x \<in> set xs \<Longrightarrow> c \<notin> set x) \<Longrightarrow> split_on c (join [c] xs @ c # t) = padded xs @ split_on c t"
proof (induction xs)
  case (Cons x xs)
  then show ?case by (cases xs) (auto simp: split_on_append padded_def)
qed (simp add: padded_def)

lemma split_compressed:
  assumes "\<And>x. x \<in> set xs \<union> set ys \<Longrightarrow> c \<notin> set x"
  shows "split_on c (join [c] xs @ [c, c] @ join [c] ys) = padded xs @ [[]] @ padded ys"
proof -
  have "split_on c (join [c] ys) = padded ys" using split_join [of ys c] assms by (auto simp: padded_def)
  then show ?thesis using split_join_more [of xs c "c # join [c] ys"] assms by simp
qed

lemma all_some_round: "(\<And>x. x \<in> set xs \<Longrightarrow> f (g x) = Some x) \<Longrightarrow> all_some (map f (map g xs)) = Some xs"
  by (induction xs) auto

lemma gaps_compressed:
  assumes "[] \<notin> set xs" and "[] \<notin> set ys"
  shows "gaps (padded xs @ [[]] @ padded ys) = [length (padded xs)]"
proof -
  let ?p = "padded xs @ [[]] @ padded ys" and ?n = "length (padded xs)"
  have n: "1 \<le> ?n" and m: "1 \<le> length (padded ys)" by (simp_all add: padded_def Suc_le_eq)
  have "[1..<length ?p - 1] = [1..<?n] @ ?n # [Suc ?n..<length ?p - 1]"
  proof -
    have "?n < length ?p - 1" using m by (cases "padded ys") simp_all
    then show ?thesis using n upt_add_eq_append [of 1 ?n "length ?p - 1 - ?n"] upt_conv_Cons [of ?n "length ?p - 1"] by simp
  qed
  moreover have "?p ! k \<noteq> []" if "1 \<le> k" "k < ?n" for k
  proof -
    have "xs \<noteq> []" using that by (auto simp: padded_def)
    then have "?p ! k = xs ! k" "k < length xs" using that by (auto simp: nth_append padded_def)
    then show ?thesis using assms(1) nth_mem by metis
  qed
  moreover have "?p ! k \<noteq> []" if "Suc ?n \<le> k" "k < length ?p - 1" for k
  proof -
    have "ys \<noteq> []" using that by (auto simp: padded_def)
    then have "?p ! k = ys ! (k - Suc ?n)" "k - Suc ?n < length ys" using that by (auto simp: nth_append padded_def nth_Cons')
    then show ?thesis using assms(2) nth_mem by metis
  qed
  ultimately show ?thesis by (auto simp: gaps_def nth_append filter_empty_conv)
qed

lemma hextet_bounds: "0 \<le> hextet i a" "hextet i a < 65536"
  by (simp_all add: hextet_def)

lemma hextets_of_compressed:
  assumes "length xs + length ys < 8" and "\<And>x. x \<in> set xs \<union> set ys \<Longrightarrow> 0 \<le> x \<and> x < 65536"
  shows "hextets_of (padded (map hex_text xs) @ [[]] @ padded (map hex_text ys)) = Some (xs @ replicate (8 - (length xs + length ys)) 0 @ ys)"
proof -
  let ?A = "map hex_text xs" and ?B = "map hex_text ys"
  have ne: "[] \<notin> set ?A" "[] \<notin> set ?B" using hex_text_round(2) assms(2) by fastforce+
  have all: "all_some (map parse_hextet ?A) = Some xs" "all_some (map parse_hextet ?B) = Some ys"
    by (rule all_some_round; use hex_text_round(1) assms(2) in auto)+
  let ?p = "padded ?A @ [[]] @ padded ?B"
  have ends: "hd ?A \<noteq> []" if "xs \<noteq> []" using that ne by (cases xs) auto
  have ends': "last ?B \<noteq> []" if "ys \<noteq> []" using that ne by (cases ys rule: rev_cases) auto
  have hd: "hd ?p = [] \<longleftrightarrow> xs = []" using ne by (cases xs) (auto simp: padded_def)
  have last: "last ?p = [] \<longleftrightarrow> ys = []" using ne by (cases ys rule: rev_cases) (auto simp: padded_def)
  have take: "take (length xs) ?p = ?A" by (simp add: padded_def)
  have drop: "drop (length ?p - length ys) ?p = ?B" by (simp add: padded_def)
  show ?thesis
    unfolding hextets_of_def gaps_compressed [OF ne] using assms(1) all take drop
    by (cases "xs = []"; cases "ys = []") (simp_all add: hd last Let_def, simp_all add: padded_def ends ends')
qed

lemma parse_ipv6_parts:
  "split_on CHR '':'' s = ps \<Longrightarrow> 3 \<le> length ps \<Longrightarrow> length ps \<le> 9 \<Longrightarrow> CHR ''.'' \<notin> set (last ps) \<Longrightarrow> hextets_of ps = Some xs
    \<Longrightarrow> parse_ipv6 s = Some (hextets xs)"
  by (cases "s = []") (auto simp: parse_ipv6_def expand_ipv4_part_def)

lemma no_sep_in_hex: "CHR '':'' \<notin> set (hex_text n)" "CHR ''.'' \<notin> set (hex_text n)"
  using hex_text_chars by auto

lemma parse_compressed:
  assumes "length xs + length ys < 8" and "\<And>x. x \<in> set xs \<union> set ys \<Longrightarrow> 0 \<le> x \<and> x < 65536"
  shows "parse_ipv6 (join '':'' (map hex_text xs) @ ''::'' @ join '':'' (map hex_text ys))
    = Some (hextets (xs @ replicate (8 - (length xs + length ys)) 0 @ ys))"
proof (rule parse_ipv6_parts [OF split_compressed])
  let ?p = "padded (map hex_text xs) @ [[]] @ padded (map hex_text ys)"
  show "CHR '':'' \<notin> set x" if "x \<in> set (map hex_text xs) \<union> set (map hex_text ys)" for x using that no_sep_in_hex by auto
  show "3 \<le> length ?p" "length ?p \<le> 9" using assms(1) by (cases xs; cases ys; simp add: padded_def)+
  show "CHR ''.'' \<notin> set (last ?p)" using no_sep_in_hex by (auto simp: padded_def last_map)
  show "hextets_of ?p = Some (xs @ replicate (8 - (length xs + length ys)) 0 @ ys)" by (rule hextets_of_compressed [OF assms])
qed

lemma parse_full:
  assumes "length xs = 8" and "\<And>x. x \<in> set xs \<Longrightarrow> 0 \<le> x \<and> x < 65536"
  shows "parse_ipv6 (join '':'' (map hex_text xs)) = Some (hextets xs)"
proof (rule parse_ipv6_parts [OF split_join])
  have "gaps (map hex_text xs) = []" using assms hex_text_round(2) by (auto simp: gaps_def filter_empty_conv nth_map)
  moreover have "all_some (map parse_hextet (map hex_text xs)) = Some xs" by (rule all_some_round) (use hex_text_round(1) assms(2) in auto)
  ultimately show "hextets_of (map hex_text xs) = Some xs" using assms(1) by (simp add: hextets_of_def)
  show "CHR ''.'' \<notin> set (last (map hex_text xs))" using assms(1) no_sep_in_hex(2) by (cases xs rule: rev_cases) auto
qed (use assms(1) no_sep_in_hex in auto)

lemma ipv6_round: "parse_ipv6 (ipv6_text a) = Some a"
proof -
  define xs where "xs = map (\<lambda>i. hextet i a) [7, 6, 5, 4, 3, 2, 1, 0]"
  obtain i l where run: "longest_run xs = (i, l)" by force
  have len: "length xs = 8" and a: "hextets xs = a" using hextets_rebuild [of a] by (simp_all add: xs_def)
  have bounds: "0 \<le> x \<and> x < 65536" if "x \<in> set xs" for x using that hextet_bounds by (auto simp: xs_def)
  have spelled: "ipv6_text a = (if l > 1 then join '':'' (map hex_text (take i xs)) @ ''::'' @ join '':'' (map hex_text (drop (i + l) xs))
      else join '':'' (map hex_text xs))"
    unfolding ipv6_text_def Let_def xs_def [symmetric] run by simp
  show ?thesis
  proof (cases "l > 1")
    case True
    note r = run_split [OF run]
    have l: "8 - (length (take i xs) + length (drop (i + l) xs)) = l" using r(2) len by simp
    have "parse_ipv6 (ipv6_text a) = Some (hextets (take i xs @ replicate (8 - (length (take i xs) + length (drop (i + l) xs))) 0 @ drop (i + l) xs))"
      unfolding spelled if_P [OF True]
    proof (rule parse_compressed)
      show "length (take i xs) + length (drop (i + l) xs) < 8" using True r(2) len by simp
      show "0 \<le> x \<and> x < 65536" if "x \<in> set (take i xs) \<union> set (drop (i + l) xs)" for x
        using that by (meson UnE bounds in_set_dropD in_set_takeD)
    qed
    then show ?thesis unfolding l r(1) [symmetric] a .
  next
    case False
    then show ?thesis using parse_full [OF len bounds] a unfolding spelled by simp
  qed
qed

section \<open>Addresses\<close>

lemma join_chars: "c \<in> set (join s xs) \<Longrightarrow> c \<in> set s \<or> (\<exists>x \<in> set xs. c \<in> set x)"
  by (induction s xs rule: join.induct) auto

lemma ipv6_text_chars: "c \<in> set (ipv6_text a) \<Longrightarrow> is_hex_char c \<or> c = CHR '':''"
  by (auto simp: ipv6_text_def Let_def split: prod.splits if_splits dest!: join_chars dest: hex_text_chars)

lemma parse_ipv4_dot: "parse_ipv4 s = Some a \<Longrightarrow> CHR ''.'' \<in> set s"
proof (rule ccontr)
  assume "parse_ipv4 s = Some a" and "CHR ''.'' \<notin> set s"
  then show False by (simp add: parse_ipv4_def split_on_none split: option.splits)
qed

lemma before_first_none: "c \<notin> set s \<Longrightarrow> before_first c s = s"
  unfolding before_first_def by (rule takeWhile_eq_all_conv [THEN iffD2]) auto

lemma address_of_text: "ip_address (ip_text a) = Some a"
proof (cases a)
  case (V4 b)
  have "CHR ''/'' \<notin> set (ipv4_text b)" using octet_round(3) [of _ b] by (auto simp: ipv4_text_def dest!: join_chars)
  then show ?thesis by (simp add: V4 ip_address_def ipv4_round)
next
  case (V6 b)
  have "\<not> is_hex_char CHR ''/''" "\<not> is_hex_char CHR ''.''" "\<not> is_hex_char CHR ''%''" by code_simp+
  then have "CHR ''/'' \<notin> set (ipv6_text b)" "CHR ''.'' \<notin> set (ipv6_text b)" "CHR ''%'' \<notin> set (ipv6_text b)"
    using ipv6_text_chars by fastforce+
  moreover from this(2) have "parse_ipv4 (ipv6_text b) = None" using parse_ipv4_dot by (cases "parse_ipv4 (ipv6_text b)") auto
  ultimately show ?thesis by (simp add: V6 ip_address_def before_first_none ipv6_round)
qed

end
