(* ===== verification/URL_Safety.thy ===== *)
theory URL_Safety
  imports Address_Text
begin

text \<open>
  What the destination checks of \<^verbatim>\<open>engine/url_guard.py\<close> promise: an address that the URL is rewritten to is public, and the browser's
  reading of a dotted quad is that of the strict parser.
\<close>

section \<open>Addresses are spelled in ASCII\<close>

definition ascii :: "char \<Rightarrow> bool" where
  "ascii c \<longleftrightarrow> (of_char c :: nat) < 128"

lemma digit_ascii: "is_digit_char c \<Longrightarrow> ascii c"
  by (simp add: ascii_def is_digit_char_def Let_def)

lemma hex_ascii: "is_hex_char c \<Longrightarrow> ascii c"
  using digit_ascii [of c] by (auto simp: ascii_def is_hex_char_def Let_def)

lemma ascii_chars: "ascii CHR ''.''" "ascii CHR '':''" "ascii CHR ''0''" "ascii CHR ''x''" "ascii CHR ''X''"
  by code_simp+

lemma is_ascii_iff: "is_ascii s \<longleftrightarrow> (\<forall>c \<in> set s. ascii c)"
  by (simp add: is_ascii_def ascii_def list_all_iff)

lemma split_ascii: "ascii c \<Longrightarrow> (\<And>p. p \<in> set (split_on c s) \<Longrightarrow> is_ascii p) \<Longrightarrow> is_ascii s"
  using split_on_set [of s c] by (fastforce simp: is_ascii_iff)

lemma parse_octet_ascii: "parse_octet s = Some n \<Longrightarrow> is_ascii s"
  using digit_ascii by (auto simp: parse_octet_def is_ascii_iff list_all_iff split: if_splits)

lemma parse_ipv4_parts:
  assumes "parse_ipv4 s = Some a"
  obtains p q r t i j k l where "split_on CHR ''.'' s = [p, q, r, t]" "map parse_octet [p, q, r, t] = [Some i, Some j, Some k, Some l]" "a = quad i j k l"
  using assms by (auto simp: parse_ipv4_def split: list.splits option.splits)

lemma parse_ipv4_ascii: "parse_ipv4 s = Some a \<Longrightarrow> is_ascii s"
  by (rule split_ascii [OF ascii_chars(1)], erule parse_ipv4_parts) (auto dest: parse_octet_ascii)

lemma parse_hextet_ascii: "parse_hextet s = Some n \<Longrightarrow> is_ascii s"
  using hex_ascii by (auto simp: parse_hextet_def is_ascii_iff list_all_iff split: if_splits)

lemma all_some_map: "all_some (map f xs) = Some ys \<Longrightarrow> x \<in> set xs \<Longrightarrow> \<exists>y. f x = Some y"
proof (induction xs arbitrary: ys)
  case (Cons z zs)
  then show ?case by (cases "f z") auto
qed simp

lemma gap_index: "gaps ps = [i] \<Longrightarrow> 1 \<le> i \<and> Suc i < length ps \<and> ps ! i = []"
proof -
  assume "gaps ps = [i]"
  then have "i \<in> set (filter (\<lambda>i. ps ! i = []) [1..<length ps - 1])" by (simp add: gaps_def)
  then show ?thesis by auto
qed

lemma hextets_of_ascii:
  assumes "hextets_of ps = Some xs" and "p \<in> set ps"
  shows "is_ascii p"
proof (cases "gaps ps")
  case Nil
  then show ?thesis using assms by (auto simp: hextets_of_def dest: all_some_map parse_hextet_ascii split: if_splits)
next
  case (Cons i js)
  then have one: "gaps ps = [i]" using assms(1) by (cases js) (auto simp: hextets_of_def)
  note i = gap_index [OF one]
  let ?hi = "if hd ps = [] then i - 1 else i" and ?lo = "if last ps = [] then length ps - i - 1 - 1 else length ps - i - 1"
  have ends: "hd ps = [] \<Longrightarrow> ?hi = 0" "last ps = [] \<Longrightarrow> ?lo = 0"
    and parts: "\<exists>ys. all_some (map parse_hextet (take ?hi ps)) = Some ys" "\<exists>ys. all_some (map parse_hextet (drop (length ps - ?lo) ps)) = Some ys"
    using assms(1) one by (auto simp: hextets_of_def Let_def split: if_splits option.splits)
  obtain k where k: "k < length ps" "ps ! k = p" using assms(2) by (auto simp: in_set_conv_nth)
  have p: "is_ascii p" if "p \<in> set (take ?hi ps) \<union> set (drop (length ps - ?lo) ps)"
    using that parts by (auto dest: all_some_map parse_hextet_ascii)
  consider "k < i" | "k = i" | "i < k" by linarith
  then show ?thesis
  proof cases
    case 1
    show ?thesis
    proof (cases "hd ps = []")
      case True
      then have "k = 0" using 1 ends(1) i by simp
      then show ?thesis using True k by (simp add: hd_conv_nth is_ascii_iff)
    next
      case False
      then have "p \<in> set (take ?hi ps)" using 1 k by (auto simp: in_set_conv_nth)
      then show ?thesis using p by simp
    qed
  next
    case 2
    then show ?thesis using i k by (simp add: is_ascii_iff)
  next
    case 3
    show ?thesis
    proof (cases "last ps = []")
      case True
      then have "k = length ps - 1" "ps \<noteq> []" using 3 ends(2) i k by auto
      then have "p = last ps" using k by (simp add: last_conv_nth)
      then show ?thesis using True by (simp add: is_ascii_iff)
    next
      case False
      then have "p = drop (length ps - ?lo) ps ! (k - Suc i)" "k - Suc i < length (drop (length ps - ?lo) ps)" using 3 k by auto
      then have "p \<in> set (drop (length ps - ?lo) ps)" using nth_mem by metis
      then show ?thesis using p by simp
    qed
  qed
qed

lemma parse_ipv6_ascii:
  assumes "parse_ipv6 s = Some a"
  shows "is_ascii s"
proof (rule split_ascii [OF ascii_chars(2)])
  let ?ps = "split_on CHR '':'' s"
  obtain ps xs where ps: "expand_ipv4_part ?ps = Some ps" "hextets_of ps = Some xs"
    using assms by (auto simp: parse_ipv6_def Let_def split: if_splits option.splits)
  fix p
  assume p: "p \<in> set ?ps"
  show "is_ascii p"
  proof (cases "p \<in> set ps")
    case True
    then show ?thesis using hextets_of_ascii ps(2) by blast
  next
    case False
    have "set ?ps = insert (last ?ps) (set (butlast ?ps))" by (metis append_butlast_last_id split_on_ne list.simps(15) rotate1.simps(2) set_rotate1)
    then have "p = last ?ps" "\<exists>b. parse_ipv4 (last ?ps) = Some b"
      using ps(1) p False by (auto simp: expand_ipv4_part_def split: if_splits option.splits)
    then show ?thesis using parse_ipv4_ascii by auto
  qed
qed

lemma ip_address_ascii: "ip_address s = Some a \<Longrightarrow> CHR ''%'' \<notin> set s \<Longrightarrow> is_ascii s"
  by (auto simp: ip_address_def before_first_none dest: parse_ipv4_ascii parse_ipv6_ascii split: if_splits option.splits)

lemma ipv4_number_ascii:
  assumes "ipv4_number s = Some n"
  shows "is_ascii s"
proof -
  have digit: "c \<in> set ds \<Longrightarrow> ascii c" if "\<not> list_ex (\<lambda>c. \<not> (if r = (16 :: int) then is_hex_char c else is_digit_char c \<and> char_value c < r)) ds" for ds c r
    using that hex_ascii digit_ascii by (auto simp: list_ex_iff split: if_splits)
  show ?thesis
  proof (cases "2 \<le> length s \<and> (take 2 s = ''0x'' \<or> take 2 s = ''0X'')")
    case True
    then have "s = take 2 s @ drop 2 s" "is_ascii (take 2 s)" using ascii_chars by (auto simp: is_ascii_iff)
    moreover have "is_ascii (drop 2 s)" using assms True digit [of 16 "drop 2 s"] by (fastforce simp: ipv4_number_def is_ascii_iff split: if_splits)
    ultimately show ?thesis by (metis append_take_drop_id is_ascii_iff set_append UnE)
  next
    case False
    show ?thesis
    proof (cases "2 \<le> length s \<and> hd s = CHR ''0''")
      case True
      then have "is_ascii (drop 1 s)" using assms False digit [of 8 "drop 1 s"] by (fastforce simp: ipv4_number_def is_ascii_iff split: if_splits)
      then show ?thesis using True ascii_chars by (cases s) (auto simp: is_ascii_iff)
    next
      case no: False
      then show ?thesis using assms False digit [of 10 s] by (fastforce simp: ipv4_number_def is_ascii_iff split: if_splits)
    qed
  qed
qed

lemma host_parts_set: "set (split_on CHR ''.'' s) \<subseteq> insert [] (set (host_parts s))"
proof -
  let ?ps = "split_on CHR ''.'' s"
  have "?ps = butlast ?ps @ [last ?ps]" by simp
  then have "set ?ps = insert (last ?ps) (set (butlast ?ps))" by (metis Un_insert_right boolean_algebra.disj_zero_right list.simps(15) set_append set_empty2)
  then show ?thesis by (auto simp: host_parts_def Let_def)
qed

lemma legacy_ascii:
  assumes "legacy_ipv4_address s = Some a"
  shows "is_ascii s"
proof (rule split_ascii [OF ascii_chars(1)])
  fix p
  assume "p \<in> set (split_on CHR ''.'' s)"
  then consider "p = []" | "p \<in> set (host_parts s)" using host_parts_set [of s] by auto
  then show "is_ascii p"
  proof cases
    case 2
    have "\<exists>vs. all_some (map ipv4_number (host_parts s)) = Some vs"
      using assms by (auto simp: legacy_ipv4_address_def Let_def split: if_splits option.splits)
    then show ?thesis using 2 by (auto dest: all_some_map ipv4_number_ascii)
  qed (simp add: is_ascii_iff)
qed

lemma address_of_name_ascii: "address_of_name s = Some a \<Longrightarrow> CHR ''%'' \<notin> set s \<Longrightarrow> is_ascii s"
  by (auto simp: address_of_name_def dest: ip_address_ascii legacy_ascii split: option.splits)

section \<open>The address that a URL is rewritten to\<close>

lemma lower_hex_table: "list_all (\<lambda>n. lower_char (hex_digit n) = hex_digit n) [0..<16]"
  by (simp add: upt_rec hex_digit_def lower_char_def)

lemma digit_lower: "is_digit_char c \<Longrightarrow> lower_char c = c"
  by (auto simp: is_digit_char_def lower_char_def Let_def)

lemma lower_chars: "lower_char CHR ''.'' = CHR ''.''" "lower_char CHR '':'' = CHR '':''" "lower_char CHR ''0'' = CHR ''0''"
  by code_simp+

lemma lower_id: "lower s = s \<longleftrightarrow> (\<forall>c \<in> set s. lower_char c = c)"
  by (induction s) (auto simp: lower_def)

lemma lower_idem_char: "lower_char (lower_char c) = lower_char c"
proof -
  have "(of_char (char_of (n + 32) :: char) :: nat) = n + 32" if "n < 224" for n :: nat using that by simp
  then show ?thesis by (auto simp: lower_char_def Let_def)
qed

lemma lower_twice [simp]: "lower (lower s) = lower s"
  by (simp add: lower_def lower_idem_char)

lemma hex_text_lower: "c \<in> set (hex_text n) \<Longrightarrow> lower_char c = c"
proof -
  have "lower_char c = c" if "c \<in> set (hex_digits n)" for c
    using that lower_hex_table by (auto simp: hex_digits_def list_all_iff)
  then show "c \<in> set (hex_text n) \<Longrightarrow> lower_char c = c"
    using lower_chars by (auto simp: hex_text_def' split: if_splits dest: set_dropWhileD)
qed

lemma int_text_digits: "0 \<le> n \<Longrightarrow> c \<in> set (int_text n) \<Longrightarrow> is_digit_char c"
  using digits_of_value [of "nat n"] by (auto simp: int_text_def list_all_iff)

lemma octet_nonneg: "0 \<le> octet i a"
  by (simp add: octet_def)

lemma ipv4_text_chars: "c \<in> set (ipv4_text a) \<Longrightarrow> is_digit_char c \<or> c = CHR ''.''"
  using int_text_digits [OF octet_nonneg] by (auto simp: ipv4_text_def dest!: join_chars)

lemma ip_text_lower: "lower (ip_text a) = ip_text a"
proof (cases a)
  case (V4 b)
  then show ?thesis using ipv4_text_chars digit_lower lower_chars by (auto simp: lower_id)
next
  case (V6 b)
  then show ?thesis using hex_text_lower lower_chars
    by (auto simp: lower_id ipv6_text_def Let_def split: prod.splits if_splits dest!: join_chars)
qed

lemma ip_text_chars: "c \<in> set (ip_text a) \<Longrightarrow> is_hex_char c \<or> c = CHR ''.'' \<or> c = CHR '':''"
  using ipv4_text_chars ipv6_text_chars by (cases a) (auto simp: is_hex_char_def)

lemma not_hex: "\<not> is_hex_char CHR ''@''" "\<not> is_hex_char CHR ''[''" "\<not> is_hex_char CHR '']''" "\<not> is_hex_char CHR ''%''"
    "\<not> is_digit_char CHR '':''" "\<not> is_digit_char CHR ''@''" "\<not> is_digit_char CHR ''[''" "\<not> is_digit_char CHR '']''"
  by code_simp+

lemma ip_text_without: "CHR ''@'' \<notin> set (ip_text a)" "CHR ''['' \<notin> set (ip_text a)" "CHR '']'' \<notin> set (ip_text a)" "CHR ''%'' \<notin> set (ip_text a)"
  using ip_text_chars not_hex by fastforce+

lemma ipv4_text_without: "CHR '':'' \<notin> set (ipv4_text a)"
  using ipv4_text_chars not_hex(5) by fastforce

lemma takeWhile_none: "c \<notin> set s \<Longrightarrow> takeWhile (\<lambda>x. x \<noteq> c) (s @ c # t) = s" "c \<notin> set s \<Longrightarrow> dropWhile (\<lambda>x. x \<noteq> c) (s @ c # t) = c # t"
    "c \<notin> set s \<Longrightarrow> takeWhile (\<lambda>x. x \<noteq> c) s = s" "c \<notin> set s \<Longrightarrow> dropWhile (\<lambda>x. x \<noteq> c) s = []"
  by (induction s) auto

lemma before_first_at: "c \<notin> set s \<Longrightarrow> before_first c (s @ c # t) = s" "c \<notin> set s \<Longrightarrow> after_first c (s @ c # t) = t" "c \<notin> set s \<Longrightarrow> after_first c s = []"
  by (simp_all add: before_first_def after_first_def takeWhile_none)

lemma after_last_at: "c \<notin> set t \<Longrightarrow> after_last c (s @ c # t) = t" "c \<notin> set t \<Longrightarrow> after_last c t = t"
  by (simp_all add: after_last_def takeWhile_none)

definition port_text :: "int option \<Rightarrow> string" where
  "port_text p = (case p of None \<Rightarrow> [] | Some n \<Rightarrow> int_text n)"

lemma authority_hostinfo:
  assumes "after_last CHR ''@'' (u_netloc v) = authority (bracketed a) port" and "\<And>n. port = Some n \<Longrightarrow> 0 \<le> n"
  shows "hostinfo v = (ip_text a, port_text port)"
proof -
  have digits: "CHR '':'' \<notin> set (port_text port)" "CHR ''['' \<notin> set (port_text port)"
    using assms(2) int_text_digits not_hex by (fastforce simp: port_text_def split: option.splits)+
  show ?thesis
  proof (cases a)
    case (V4 b)
    then show ?thesis using assms(1) digits ip_text_without [of a] ipv4_text_without
      by (cases port) (auto simp: hostinfo_def authority_def bracketed_def port_text_def before_first_at before_first_none)
  next
    case (V6 b)
    have "after_first CHR ''['' (CHR ''['' # s) = s" "after_first CHR '':'' (CHR '':'' # s) = s" for s by (simp_all add: after_first_def)
    then show ?thesis using V6 assms(1) digits ip_text_without [of a]
      by (cases port) (auto simp: hostinfo_def authority_def bracketed_def port_text_def before_first_at)
  qed
qed

lemma port_text_round:
  assumes "snd (hostinfo v) = port_text p" and "\<And>n. p = Some n \<Longrightarrow> 0 \<le> n \<and> n \<le> 65535"
  shows "url_port v = Some p"
proof (cases p)
  case None
  then show ?thesis using assms(1) by (simp add: url_port_def port_text_def)
next
  case (Some n)
  then show ?thesis using assms digits_of_value [of "nat n"] by (simp add: url_port_def port_text_def int_text_def)
qed

lemma number_in_nonneg: "list_all is_digit_char s \<Longrightarrow> 0 \<le> number_in 10 s"
proof (induction s rule: rev_induct)
  case (snoc c s)
  have "(of_char c :: int) = int (of_char c)" by (rule of_nat_of_char [symmetric])
  then have "0 \<le> char_value c" using snoc.prems by (auto simp: char_value_def is_digit_char_def Let_def)
  then show ?case using snoc by (simp add: number_in_snoc)
qed (simp add: number_in_def)

lemma url_port_bounds: "url_port u = Some (Some n) \<Longrightarrow> 0 \<le> n \<and> n \<le> 65535"
  using number_in_nonneg by (auto simp: url_port_def Let_def split: if_splits)

lemma url_hostname_ip:
  assumes "fst (hostinfo v) = ip_text a"
  shows "url_hostname v = Some (ip_text a)"
proof -
  have "ip_text a \<noteq> []"
  proof
    assume "ip_text a = []"
    then have "ip_address [] = Some a" using address_of_text [of a] by simp
    then show False by (simp add: ip_address_def parse_ipv4_def parse_octet_def parse_ipv6_def before_first_def)
  qed
  then show ?thesis using assms ip_text_without(4) [of a] by (simp add: url_hostname_def Let_def before_first_none ip_text_lower)
qed

lemma rewritten_netloc:
  assumes "v = u\<lparr>u_netloc := (if CHR ''@'' \<in> set n then before_last CHR ''@'' n @ ''@'' else []) @ authority (bracketed a) p\<rparr>"
    and "url_port u = Some p"
  shows "url_hostname v = Some (ip_text a)" and "url_port v = Some p"
proof -
  have digits: "CHR ''@'' \<notin> set (authority (bracketed a) p)"
    using ip_text_without [of a] url_port_bounds [of u] assms(2) int_text_digits not_hex
    by (cases a) (fastforce simp: authority_def bracketed_def split: option.splits)+
  then have "after_last CHR ''@'' (u_netloc v) = authority (bracketed a) p"
    using after_last_at(1) [OF digits, of "before_last CHR ''@'' n"] after_last_at(2) [OF digits] by (auto simp: assms(1))
  then have "hostinfo v = (ip_text a, port_text p)" by (rule authority_hostinfo) (use assms(2) url_port_bounds [of u] in auto)
  then show "url_hostname v = Some (ip_text a)" "url_port v = Some p"
    using url_hostname_ip [of v a] port_text_round [of v p] assms(2) url_port_bounds [of u] by auto
qed

lemma rstrip_lower: "lower s = s \<Longrightarrow> rstrip_char CHR ''.'' (lower s) = rstrip_char CHR ''.'' s"
  by simp

lemma rstrip_set: "set (rstrip_char c s) \<subseteq> set s" "set s \<subseteq> insert c (set (rstrip_char c s))"
proof -
  have "s = rev (dropWhile (\<lambda>x. x = c) (rev s)) @ rev (takeWhile (\<lambda>x. x = c) (rev s))"
    by (metis rev_append rev_rev_ident takeWhile_dropWhile_id)
  moreover have "set (takeWhile (\<lambda>x. x = c) (rev s)) \<subseteq> {c}" by (auto dest: set_takeWhileD)
  ultimately show "set (rstrip_char c s) \<subseteq> set s" "set s \<subseteq> insert c (set (rstrip_char c s))"
    unfolding rstrip_char_def by (metis Un_upper1 set_append set_rev, metis (no_types, lifting) Un_commute Un_mono insert_is_Un order_refl set_append set_rev)
qed

text \<open>A host that passed the lexical checks and reads as an address in its canonical form reads as a public one.\<close>

lemma checked_literal_public:
  assumes "check_host e host = Inr lit" and "canonical_hostname e host = Inr c" and "address_of_name c = Some a"
    and "CHR ''%'' \<notin> set host" and "lower host = host"
  shows "\<not> ip_is_blocked a"
proof (cases "address_of_name (rstrip_char CHR ''.'' host)")
  case None
  then show ?thesis using assms(1-3) by (auto simp: check_host_def canonical_hostname_def Let_def split: sum.splits if_splits option.splits)
next
  case (Some b)
  then have "is_ascii (rstrip_char CHR ''.'' host)" using address_of_name_ascii rstrip_set(1) assms(4) by blast
  then have "is_ascii host" using rstrip_set(2) [of host "CHR ''.''"] ascii_chars(1) by (auto simp: is_ascii_iff)
  then have "c = rstrip_char CHR ''.'' host"
    using assms(2,5) by (auto simp: canonical_hostname_def idna2003_hostname_def encode_idna_def split: sum.splits if_splits)
  then show ?thesis using assms(1,3) Some by (auto simp: check_host_def split: if_splits)
qed

lemma resolved_address_public:
  assumes "check_host e host = Inr lit" and "canonical_hostname e host = Inr c" and "resolve_address e c = Inr a"
    and "CHR ''%'' \<notin> set host" and "lower host = host"
  shows "\<not> ip_is_blocked a"
proof (cases "address_of_name c")
  case None
  then show ?thesis using assms(3) by (auto simp: resolve_address_def list_ex_iff split: dns_answer.splits if_splits list.splits)
next
  case (Some b)
  then show ?thesis using assms checked_literal_public by (simp add: resolve_address_def)
qed

lemma url_hostname_lower: "url_hostname u = Some h \<Longrightarrow> CHR ''%'' \<notin> set h \<Longrightarrow> lower h = h"
proof -
  assume h: "url_hostname u = Some h" "CHR ''%'' \<notin> set h"
  let ?r = "fst (hostinfo u)" and ?b = "before_first CHR ''%'' (fst (hostinfo u))"
  have eq: "h = lower ?b @ drop (length ?b) ?r" using h(1) by (auto simp: url_hostname_def Let_def split: if_splits)
  have "drop (length ?b) ?r = dropWhile (\<lambda>x. x \<noteq> CHR ''%'') ?r" by (simp add: before_first_def dropWhile_eq_drop)
  moreover have "dropWhile (\<lambda>x. x \<noteq> CHR ''%'') ?r = []"
  proof (cases "dropWhile (\<lambda>x. x \<noteq> CHR ''%'') ?r")
    case (Cons c cs)
    then have "c = CHR ''%''" by (simp add: dropWhile_eq_Cons_conv)
    then show ?thesis using h(2) eq calculation Cons by simp
  qed
  ultimately show "lower h = h" using eq by simp
qed

text \<open>
  Claim C10. Whatever DNS answers, a URL that \<open>resolve_public_url\<close> accepts is rewritten to connect to the text of an address that
  is not blocked, and nothing of the URL but its authority changes: a private literal in any spelling, a name that resolves to a
  private address among others, or an answer that changes between the check and the connection cannot be reached.
\<close>

theorem resolved_url_is_public:
  assumes "resolve_public_url e url = Inr r"
  shows "\<exists>u v a. urlparse url = Some u \<and> connect_url r = urlunparse v \<and> (\<exists>n. v = u\<lparr>u_netloc := n\<rparr>)
    \<and> url_hostname v = Some (ip_text a) \<and> url_port v = url_port u \<and> ip_address (ip_text a) = Some a \<and> \<not> ip_is_blocked a"
proof -
  obtain u host c a where u: "urlparse url = Some u" and host: "url_hostname u = Some host" and c: "canonical_hostname e host = Inr c"
    and a: "resolve_address e c = Inr a"
    and r: "connect_url r = urlunparse (u\<lparr>u_netloc := (if CHR ''@'' \<in> set (u_netloc u) then before_last CHR ''@'' (u_netloc u) @ ''@'' else [])
        @ authority (bracketed a) (case url_port u of Some p \<Rightarrow> p | None \<Rightarrow> None)\<rparr>)"
    using assms by (auto simp: resolve_public_url_def Let_def split: sum.splits option.splits)
  obtain lit where "public_dns_hostname e http_schemes url = Inr lit"
    using assms by (auto simp: resolve_public_url_def assert_public_url_def split: sum.splits)
  then obtain p where lit: "check_host e host = Inr lit" and pct: "CHR ''%'' \<notin> set host" and p: "url_port u = Some p"
    using u host by (auto simp: public_dns_hostname_def split: if_splits)
  have "\<not> ip_is_blocked a" by (rule resolved_address_public [OF lit c a pct]) (rule url_hostname_lower [OF host pct])
  then show ?thesis using u r p rewritten_netloc [OF refl p, of "u_netloc u" a] address_of_text [of a] by fastforce
qed

definition sample_net :: net where
  "sample_net = \<lparr>getaddrinfo = (\<lambda>h. if h = ''shop.test'' then Dns_addresses [''1.1.1.1'', ''2606:4700::1''] else Dns_failed),
     idna2003 = (\<lambda>_. None), idna2008 = (\<lambda>_. None)\<rparr>"

definition sample_resolved :: resolved_public_url where
  "sample_resolved = \<lparr>connect_url = ''http://u@1.1.1.1:81/p'', host_header = ''shop.test:81'', sni_hostname = ''shop.test''\<rparr>"

lemma sample_net_resolves: "resolve_public_url sample_net ''http://u@Shop.test:81/p'' = Inr sample_resolved"
  by code_simp

theorem resolved_url_is_public_witness:
  "\<exists>u v a. urlparse ''http://u@Shop.test:81/p'' = Some u \<and> connect_url sample_resolved = urlunparse v \<and> (\<exists>n. v = u\<lparr>u_netloc := n\<rparr>)
    \<and> url_hostname v = Some (ip_text a) \<and> url_port v = url_port u \<and> ip_address (ip_text a) = Some a \<and> \<not> ip_is_blocked a"
  by (rule resolved_url_is_public [OF sample_net_resolves])

end
