(* ===== verification/JSON_Encoding.thy ===== *)
theory JSON_Encoding
  imports Python_Text Webhook_Outbox
begin

text \<open>
  Incremental JSON encoding, \<^verbatim>\<open>common/json_encoding.py\<close>.

  \<^item> \<open>doc\<close> is a value that the encoder takes: the Python types that the code tells apart, with \<open>D_other\<close> for a value that
    \<^verbatim>\<open>default=str\<close> turns into a text. \<open>encode\<close> is the C encoder with compact separators, and \<open>esc\<close> its encoding of a string, which
    depends on the option \<^verbatim>\<open>ensure_ascii\<close>.
  \<^item> \<open>iter_json_bytes\<close> walks the outer containers itself and cuts the text into chunks; \<open>compact_json_size\<close> sums sizes in the same
    way. Both are shown to agree with \<open>encode\<close>.
\<close>

section \<open>The encoder\<close>

datatype dkey = Str_key string | Int_key int | Float_key string | Bool_key bool | None_key

datatype doc = D_null | D_bool bool | D_int int | D_float string | D_str string | D_other string
  | D_tuple "doc list" | D_list "doc list" | D_dict "(dkey \<times> doc) list"

fun key_text :: "dkey \<Rightarrow> string" where
  "key_text (Str_key s) = s"
| "key_text (Int_key i) = int_text i"
| "key_text (Float_key t) = t"
| "key_text (Bool_key b) = (if b then ''true'' else ''false'')"
| "key_text None_key = ''null''"

fun encode :: "(string \<Rightarrow> string) \<Rightarrow> doc \<Rightarrow> string" where
  "encode esc D_null = ''null''"
| "encode esc (D_bool b) = (if b then ''true'' else ''false'')"
| "encode esc (D_int i) = int_text i"
| "encode esc (D_float t) = t"
| "encode esc (D_str s) = esc s"
| "encode esc (D_other s) = esc s"
| "encode esc (D_tuple xs) = ''['' @ join '','' (map (encode esc) xs) @ '']''"
| "encode esc (D_list xs) = ''['' @ join '','' (map (encode esc) xs) @ '']''"
| "encode esc (D_dict kvs) = ''{'' @ join '','' (map (\<lambda>(k, v). esc (key_text k) @ '':'' @ encode esc v) kvs) @ ''}''"

definition is_container :: "doc \<Rightarrow> bool" where
  "is_container d \<longleftrightarrow> (case d of D_list _ \<Rightarrow> True | D_dict _ \<Rightarrow> True | _ \<Rightarrow> False)"

definition inner :: "string \<Rightarrow> string" where
  "inner s = butlast (drop 1 s)"

section \<open>The text of the walk\<close>

definition json_text_chunk_chars :: nat where
  "json_text_chunk_chars = 16 * 1024"

definition encode_max_batch :: nat where
  "encode_max_batch = 256"

definition encode_walk_depth :: nat where
  "encode_walk_depth = 4"

function walk_list :: "(string \<Rightarrow> string) \<Rightarrow> string \<Rightarrow> nat \<Rightarrow> doc list \<Rightarrow> string list" where
  "walk_list esc separator batch xs = (if xs = [] then ['']'']
     else let part = (if batch \<le> 1 then encode esc (hd xs) else inner (encode esc (D_list (take batch xs))))
       in separator # part # walk_list esc '',''
            (if length part < json_text_chunk_chars then min (batch * 2) encode_max_batch else 1) (drop (max 1 batch) xs))"
  by pat_completeness auto

termination
  by (relation "measure (\<lambda>(esc, separator, batch, xs). length xs)") (auto simp: neq_Nil_conv max_def)

declare walk_list.simps [simp del]

fun iter_json_text :: "(string \<Rightarrow> string) \<Rightarrow> nat \<Rightarrow> doc \<Rightarrow> string list" where
  "iter_json_text esc depth (D_list xs) = (if depth > 0 \<and> xs \<noteq> [] then walk_list esc ''['' 1 xs else [encode esc (D_list xs)])"
| "iter_json_text esc (Suc depth) (D_dict kvs) = (if kvs = [] then [encode esc (D_dict kvs)]
     else concat (map (\<lambda>(separator, k, v). case k of
         Str_key s \<Rightarrow> if is_container v then (separator @ esc s @ '':'') # iter_json_text esc depth v
           else [separator @ inner (encode esc (D_dict [(k, v)]))]
       | _ \<Rightarrow> [separator @ inner (encode esc (D_dict [(k, v)]))])
       (zip (''{'' # replicate (length kvs - 1) '','') kvs)) @ [''}''])"
| "iter_json_text esc depth d = [encode esc d]"

section \<open>Cutting into chunks\<close>

function full_slices :: "nat \<Rightarrow> string \<Rightarrow> string list \<times> string" where
  "full_slices n s = (if 0 < n \<and> n \<le> length s then (case full_slices n (drop n s) of (cs, r) \<Rightarrow> (take n s # cs, r)) else ([], s))"
  by pat_completeness auto

termination
  by (relation "measure (\<lambda>(n, s). length s)") auto

declare full_slices.simps [simp del]

fun chunk_texts :: "nat \<Rightarrow> string \<Rightarrow> string list \<Rightarrow> string list" where
  "chunk_texts n pending [] = (if pending = [] then [] else [pending])"
| "chunk_texts n pending (t # ts) = (if length pending + length t < n then chunk_texts n (pending @ t) ts
     else let offset = n - length pending; (cs, r) = full_slices n (drop offset t)
       in (pending @ take offset t) # cs @ chunk_texts n r ts)"

definition iter_json_bytes :: "(string \<Rightarrow> string) \<Rightarrow> doc \<Rightarrow> string list" where
  "iter_json_bytes esc data = chunk_texts json_text_chunk_chars [] (iter_json_text esc encode_walk_depth data)"

definition compact_json_bytes :: "doc \<Rightarrow> string" where
  "compact_json_bytes data = concat (iter_json_bytes json_string data)"

section \<open>Sizes\<close>

definition size_walk_depth :: nat where
  "size_walk_depth = 4"

fun json_size :: "nat \<Rightarrow> doc \<Rightarrow> int" where
  "json_size depth (D_list xs) = (case depth of
       Suc d \<Rightarrow> if xs \<noteq> [] then int (length xs) + 1 + sum_list (map (json_size d) xs) else int (length (encode json_string (D_list xs)))
     | 0 \<Rightarrow> int (length (encode json_string (D_list xs))))"
| "json_size depth (D_dict kvs) = (case depth of
       Suc d \<Rightarrow> if kvs \<noteq> [] \<and> list_ex (\<lambda>(k, v). is_container v) kvs
         then int (length kvs) + 1 + sum_list (map (\<lambda>(k, v). case k of
             Str_key s \<Rightarrow> int (length (json_string s)) + 1 + json_size d v
           | _ \<Rightarrow> int (length (encode json_string (D_dict [(k, v)]))) - 2) kvs)
         else int (length (encode json_string (D_dict kvs)))
     | 0 \<Rightarrow> int (length (encode json_string (D_dict kvs))))"
| "json_size depth d = int (length (encode json_string d))"

definition compact_json_size :: "doc \<Rightarrow> int" where
  "compact_json_size data = json_size size_walk_depth data"

section \<open>Agreement with the encoder\<close>

lemma join_append: "xs \<noteq> [] \<Longrightarrow> ys \<noteq> [] \<Longrightarrow> join s (xs @ ys) = join s xs @ s @ join s ys"
proof (induction xs)
  case (Cons x xs)
  then show ?case by (cases xs; cases ys) auto
qed simp

lemma inner_bracket [simp]: "inner (a # s @ [b]) = s"
  by (simp add: inner_def)

lemma walk_list_text: "xs \<noteq> [] \<Longrightarrow> concat (walk_list esc separator batch xs) = separator @ join '','' (map (encode esc) xs) @ '']''"
proof (induction esc separator batch xs rule: walk_list.induct)
  case (1 esc separator batch xs)
  define part where "part = (if batch \<le> 1 then encode esc (hd xs) else inner (encode esc (D_list (take batch xs))))"
  define rest where "rest = drop (max 1 batch) xs"
  have part: "part = join '','' (map (encode esc) (take (max 1 batch) xs))"
    using 1(2) by (cases xs) (auto simp: part_def max_def take_Suc)
  have split: "map (encode esc) xs = map (encode esc) (take (max 1 batch) xs) @ map (encode esc) rest"
    by (simp add: rest_def flip: map_append)
  have ne: "take (max 1 batch) xs \<noteq> []" using 1(2) by (cases xs) (auto simp: max_def)
  note unfold = walk_list.simps [of esc separator batch xs] part_def [symmetric] rest_def [symmetric] Let_def
  show ?case
  proof (cases "rest = []")
    case True
    then show ?thesis using 1(2) split unfolding unfold by (simp add: part walk_list.simps [of _ _ _ "[]"])
  next
    case False
    then show ?thesis using 1(1) [OF 1(2) part_def, folded rest_def, OF False] 1(2) ne unfolding unfold split
      by (simp add: join_append part)
  qed
qed

lemma zip_texts:
  "length ss = length kvs \<Longrightarrow> (\<And>s k v. (s, k, v) \<in> set (zip ss kvs) \<Longrightarrow> concat (f (s, k, v)) = s @ g (k, v))
    \<Longrightarrow> concat (concat (map f (zip ss kvs))) = concat (map (\<lambda>(s, kv). s @ g kv) (zip ss kvs))"
  by (induction ss kvs rule: list_induct2) auto

lemma join_zip: "concat (map (\<lambda>(s, kv). s @ g kv) (zip (a # replicate n c) (kv # kvs))) = a @ join c (map g (kv # kvs))" if "length kvs = n"
  using that
proof (induction kvs arbitrary: kv a n)
  case (Cons k ks)
  then obtain m where "n = Suc m" "length ks = m" by auto
  then show ?case using Cons.IH [of m c k] by simp
qed simp

lemma dict_item_text: "inner (encode esc (D_dict [(k, v)])) = esc (key_text k) @ '':'' @ encode esc v"
  using inner_bracket [of "CHR ''{''" "esc (key_text k) @ '':'' @ encode esc v" "CHR ''}''"] by simp

lemma iter_json_text_encode: "concat (iter_json_text esc depth d) = encode esc d"
proof (induction esc depth d rule: iter_json_text.induct)
  case (1 esc depth xs)
  then show ?case by (simp add: walk_list_text)
next
  case (2 esc depth kvs)
  show ?case
  proof (cases kvs)
    case (Cons kv rest)
    let ?g = "\<lambda>(k, v). esc (key_text k) @ '':'' @ encode esc v"
    let ?ss = "''{'' # replicate (length kvs - 1) '',''"
    have item: "concat (case k of Str_key s \<Rightarrow> if is_container v then (sep @ esc s @ '':'') # iter_json_text esc depth v
           else [sep @ inner (encode esc (D_dict [(k, v)]))] | _ \<Rightarrow> [sep @ inner (encode esc (D_dict [(k, v)]))]) = sep @ ?g (k, v)"
      if "(sep, k, v) \<in> set (zip ?ss kvs)" for sep k v
      using 2 [OF _ that refl refl] Cons dict_item_text [of esc k v] by (cases k) (auto simp del: encode.simps)
    have "concat (map (\<lambda>(s, kv). s @ ?g kv) (zip ?ss kvs)) = ''{'' @ join '','' (map ?g kvs)"
      using join_zip [of rest "length rest" ?g "''{''" "'',''" kv] Cons by simp
    then show ?thesis using Cons zip_texts [of ?ss kvs "\<lambda>(separator, k, v). case k of
         Str_key s \<Rightarrow> if is_container v then (separator @ esc s @ '':'') # iter_json_text esc depth v
           else [separator @ inner (encode esc (D_dict [(k, v)]))]
       | _ \<Rightarrow> [separator @ inner (encode esc (D_dict [(k, v)]))]" ?g] item by simp
  qed simp
qed simp_all

lemma full_slices_text:
  "full_slices n s = (cs, r) \<Longrightarrow> 0 < n \<Longrightarrow> concat cs @ r = s \<and> list_all (\<lambda>c. length c = n) cs \<and> length r < n"
proof (induction n s arbitrary: cs r rule: full_slices.induct)
  case (1 n s)
  show ?case
  proof (cases "n \<le> length s")
    case True
    obtain ds q where rest: "full_slices n (drop n s) = (ds, q)" by force
    then have "cs = take n s # ds" "r = q" using 1(2,3) True full_slices.simps [of n s] by auto
    then show ?thesis using 1(1) [OF _ rest] 1(3) True by simp
  next
    case False
    then show ?thesis using 1(2) by (simp add: full_slices.simps [of n s])
  qed
qed

lemma list_all_butlast_append: "list_all P xs \<Longrightarrow> list_all P (butlast ys) \<Longrightarrow> list_all P (butlast (xs @ ys))"
  by (auto simp: butlast_append list_all_iff dest: in_set_butlastD)

lemma chunk_texts_text:
  "0 < n \<Longrightarrow> length pending < n \<Longrightarrow> concat (chunk_texts n pending ts) = pending @ concat ts
    \<and> list_all (\<lambda>c. length c = n) (butlast (chunk_texts n pending ts))
    \<and> list_all (\<lambda>c. 0 < length c \<and> length c \<le> n) (chunk_texts n pending ts)"
proof (induction ts arbitrary: pending)
  case (Cons t ts)
  show ?case
  proof (cases "length pending + length t < n")
    case True
    then show ?thesis using Cons.IH [of "pending @ t"] Cons.prems by simp
  next
    case False
    let ?k = "n - length pending"
    obtain cs r where slices: "full_slices n (drop ?k t) = (cs, r)" by force
    note s = full_slices_text [OF slices Cons.prems(1)]
    have len: "length (pending @ take ?k t) = n" using False Cons.prems by simp
    have chunks: "chunk_texts n pending (t # ts) = (pending @ take ?k t) # cs @ chunk_texts n r ts" using False slices by simp
    note ih = Cons.IH [of r, OF Cons.prems(1)]
    have "concat (chunk_texts n pending (t # ts)) = pending @ take ?k t @ (concat cs @ r) @ concat ts"
      unfolding chunks using ih s by simp
    also have "\<dots> = pending @ concat (t # ts)" using s by simp
    finally have whole: "concat (chunk_texts n pending (t # ts)) = pending @ concat (t # ts)" .
    have full: "list_all (\<lambda>c. length c = n) ((pending @ take ?k t) # cs)" using len s by simp
    then have "list_all (\<lambda>c. length c = n) (butlast (((pending @ take ?k t) # cs) @ chunk_texts n r ts))"
      by (rule list_all_butlast_append) (use ih s in blast)
    moreover have "list_all (\<lambda>c. 0 < length c \<and> length c \<le> n) (((pending @ take ?k t) # cs) @ chunk_texts n r ts)"
      using full ih s Cons.prems(1) by (auto simp: list_all_iff)
    ultimately show ?thesis using whole chunks by simp
  qed
qed auto

text \<open>
  Claim C14. The chunks that \<open>iter_json_bytes\<close> yields, put together, are byte for byte the text of the encoder, whatever the document,
  its nesting and the batches it was encoded in; every chunk but the last has exactly 16384 characters, and the last is not empty.
\<close>

theorem iter_json_is_encode:
  "concat (iter_json_bytes esc data) = encode esc data
    \<and> list_all (\<lambda>c. length c = json_text_chunk_chars) (butlast (iter_json_bytes esc data))
    \<and> list_all (\<lambda>c. 0 < length c \<and> length c \<le> json_text_chunk_chars) (iter_json_bytes esc data)"
  using chunk_texts_text [of json_text_chunk_chars "[]" "iter_json_text esc encode_walk_depth data"]
  by (simp add: iter_json_bytes_def iter_json_text_encode json_text_chunk_chars_def)

lemma length_join: "xs \<noteq> [] \<Longrightarrow> int (length (join [c] xs)) = int (length xs) - 1 + sum_list (map (\<lambda>x. int (length x)) xs)"
proof (induction xs)
  case (Cons x xs)
  then show ?case by (cases xs) auto
qed simp

lemma json_size_encode: "json_size depth d = int (length (encode json_string d))"
proof (induction depth d rule: json_size.induct)
  case (1 depth xs)
  show ?case
  proof (cases depth)
    case (Suc k)
    have "sum_list (map (json_size k) xs) = sum_list (map (\<lambda>x. int (length x)) (map (encode json_string) xs))"
      using 1 [OF Suc] by (cases "xs = []") (auto simp: comp_def intro!: arg_cong [where f = sum_list])
    then show ?thesis using Suc length_join [of "map (encode json_string) xs" "CHR '',''"] by (simp del: map_map)
  qed simp
next
  case (2 depth kvs)
  show ?case
  proof (cases depth)
    case (Suc k)
    let ?g = "\<lambda>(k, v). json_string (key_text k) @ '':'' @ encode json_string v"
    have item: "(case ky of Str_key s \<Rightarrow> int (length (json_string s)) + 1 + json_size k v
           | _ \<Rightarrow> int (length (encode json_string (D_dict [(ky, v)]))) - 2) = int (length (?g (ky, v)))"
      if "(ky, v) \<in> set kvs" "list_ex (\<lambda>(k, v). is_container v) kvs" for ky v
      using 2 [OF Suc _ that(1) refl] that by (cases ky; cases "kvs = []") auto
    show ?thesis
    proof (cases "kvs \<noteq> [] \<and> list_ex (\<lambda>(k, v). is_container v) kvs")
      case True
      have "sum_list (map (\<lambda>(ky, v). case ky of Str_key s \<Rightarrow> int (length (json_string s)) + 1 + json_size k v
           | _ \<Rightarrow> int (length (encode json_string (D_dict [(ky, v)]))) - 2) kvs) = sum_list (map (\<lambda>x. int (length x)) (map ?g kvs))"
        using item True by (auto intro!: arg_cong [where f = sum_list])
      then show ?thesis using Suc True length_join [of "map ?g kvs" "CHR '',''"] by (simp del: map_map)
    next
      case False
      then show ?thesis using Suc by (auto split: if_splits)
    qed
  qed simp
qed simp_all

text \<open>
  Claim C15. The size that a document is charged with, computed without building its text, is the length of the text that is written.
\<close>

theorem compact_size_is_length: "compact_json_size data = int (length (compact_json_bytes data))"
proof -
  have "concat (iter_json_bytes json_string data) = encode json_string data"
    using chunk_texts_text [of json_text_chunk_chars "[]" "iter_json_text json_string encode_walk_depth data"]
    by (simp add: iter_json_bytes_def iter_json_text_encode json_text_chunk_chars_def)
  then show ?thesis by (simp add: compact_json_size_def compact_json_bytes_def json_size_encode)
qed

end
