(* ===== verification/Result_Files.thy ===== *)
theory Result_Files
  imports URL_Text JSON_Encoding
begin

text \<open>
  Paths and files of the result store: \<^verbatim>\<open>common/paths.py\<close>, \<^verbatim>\<open>storage/filesystem.py\<close> and the path checks of
  \<^verbatim>\<open>storage/result_store.py\<close>.

  \<^item> A file system is an association list from the components below the results directory to nodes, without entries below a file
    or a link. A file has its bytes, the number that stands for its device, inode and times, and its modification time.
  \<^item> Texts hold Latin-1 characters, so that \<open>isprintable\<close> and the UTF-8 length are those of such texts.
  \<^item> \<open>rs_exn\<close> names the exceptions that the code tells apart; \<open>R_os\<close> carries the class name of an \<open>OSError\<close>.
\<close>

section \<open>Exceptions\<close>

datatype rs_exn = R_value string | R_key | R_artifact string | R_budget int int | R_deadline_budget | R_os string
  | R_json_size int | R_file_size | R_entries | R_decode | R_stop | R_cancelled | R_runtime string

definition not_found :: rs_exn where
  "not_found = R_os ''FileNotFoundError''"

text \<open>\<open>FilesystemDeadlineReached\<close> is a \<open>TimeoutError\<close>, hence an \<open>OSError\<close>; the size and decoding errors are \<open>ValueError\<close>s.\<close>

definition is_os_error :: "rs_exn \<Rightarrow> bool" where
  "is_os_error e \<longleftrightarrow> (case e of R_os _ \<Rightarrow> True | R_stop \<Rightarrow> True | _ \<Rightarrow> False)"

definition is_value_error :: "rs_exn \<Rightarrow> bool" where
  "is_value_error e \<longleftrightarrow> (case e of R_value _ \<Rightarrow> True | R_json_size _ \<Rightarrow> True | R_file_size \<Rightarrow> True | R_entries \<Rightarrow> True | R_decode \<Rightarrow> True | _ \<Rightarrow> False)"

definition is_exception :: "rs_exn \<Rightarrow> bool" where
  "is_exception e \<longleftrightarrow> e \<noteq> R_cancelled"

definition exn_name :: "rs_exn \<Rightarrow> string" where
  "exn_name e = (case e of R_value _ \<Rightarrow> ''ValueError'' | R_key \<Rightarrow> ''KeyError'' | R_artifact _ \<Rightarrow> ''ResultArtifactReadError''
     | R_budget _ _ \<Rightarrow> ''BudgetExceeded'' | R_deadline_budget \<Rightarrow> ''BudgetExceeded'' | R_os n \<Rightarrow> n | R_json_size _ \<Rightarrow> ''JsonFileSizeLimitExceeded''
     | R_file_size \<Rightarrow> ''FileSizeLimitExceeded'' | R_entries \<Rightarrow> ''DirectoryEntryLimitExceeded'' | R_decode \<Rightarrow> ''JSONDecodeError''
     | R_stop \<Rightarrow> ''FilesystemDeadlineReached'' | R_cancelled \<Rightarrow> ''CancelledError'' | R_runtime _ \<Rightarrow> ''RuntimeError'')"

section \<open>Path components\<close>

definition is_printable :: "char \<Rightarrow> bool" where
  "is_printable c = (let n = of_char c :: nat in 32 \<le> n \<and> n \<le> 126 \<or> 161 \<le> n \<and> n \<noteq> 173)"

definition utf8_length :: "string \<Rightarrow> nat" where
  "utf8_length s = sum_list (map (\<lambda>c. if (of_char c :: nat) < 128 then 1 else 2) s)"

definition max_path_part_bytes :: nat where
  "max_path_part_bytes = 255"

definition safe_path_part :: "string \<Rightarrow> rs_exn + string" where
  "safe_path_part s = (if strip s = [] then Inl (R_value ''Unsafe path component: value must not be blank'')
     else if s = ''.'' \<or> s = ''..'' \<or> CHR ''/'' \<in> set s \<or> CHR 0x5C \<in> set s \<or> CHR 0x00 \<in> set s \<or> \<not> list_all is_printable s
     then Inl (R_value ''Unsafe path component'')
     else if utf8_length s > max_path_part_bytes then Inl (R_value ''Unsafe path component: value must be at most 255 bytes'')
     else Inr s)"

fun safe_join :: "string \<Rightarrow> string list \<Rightarrow> rs_exn + string" where
  "safe_join base [] = Inr base"
| "safe_join base (p # ps) = (case safe_path_part p of Inl e \<Rightarrow> Inl e | Inr s \<Rightarrow> safe_join (if base = [] then s else base @ ''/'' @ s) ps)"

section \<open>Absolute paths\<close>

definition path_parts :: "string \<Rightarrow> string list" where
  "path_parts s = filter (\<lambda>p. p \<noteq> [] \<and> p \<noteq> ''.'') (split_on CHR ''/'' s)"

text \<open>POSIX keeps exactly two leading slashes apart from one.\<close>

definition double_root :: "string \<Rightarrow> bool" where
  "double_root s \<longleftrightarrow> starts_with ''//'' s \<and> \<not> starts_with ''///'' s"

definition collapse :: "string list \<Rightarrow> string list" where
  "collapse ps = foldl (\<lambda>acc p. if p = ''..'' then butlast acc else acc @ [p]) [] ps"

definition abspath :: "string list \<Rightarrow> string \<Rightarrow> bool \<times> string list" where
  "abspath cwd s = (double_root s, collapse (if starts_with ''/'' s then path_parts s else cwd @ path_parts s))"

definition path_text :: "string list \<Rightarrow> string" where
  "path_text ps = ''/'' @ join ''/'' ps"

section \<open>Files\<close>

datatype node = Dir rat | Regular string nat rat | Link rat

type_synonym fs = "(string list \<times> node) list"

fun node_mtime :: "node \<Rightarrow> rat" where
  "node_mtime (Dir t) = t"
| "node_mtime (Regular _ _ t) = t"
| "node_mtime (Link t) = t"

definition is_dir :: "node \<Rightarrow> bool" where
  "is_dir n \<longleftrightarrow> (case n of Dir _ \<Rightarrow> True | _ \<Rightarrow> False)"

definition fs_put :: "string list \<Rightarrow> node \<Rightarrow> fs \<Rightarrow> fs" where
  "fs_put p n f = (p, n) # filter (\<lambda>(q, _). q \<noteq> p) f"

definition fs_drop :: "string list \<Rightarrow> fs \<Rightarrow> fs" where
  "fs_drop p f = filter (\<lambda>(q, _). q \<noteq> p) f"

definition below :: "string list \<Rightarrow> string list \<Rightarrow> bool" where
  "below d q \<longleftrightarrow> take (length d) q = d"

definition children :: "fs \<Rightarrow> string list \<Rightarrow> string list" where
  "children f d = map (\<lambda>(q, _). last q) (filter (\<lambda>(q, _). q \<noteq> [] \<and> butlast q = d) f)"

definition lstat :: "fs \<Rightarrow> string list \<Rightarrow> rs_exn + node" where
  "lstat f p = (if list_ex (\<lambda>k. case map_of f (take k p) of Some (Regular _ _ _) \<Rightarrow> True | _ \<Rightarrow> False) [0..<length p]
     then Inl (R_os ''NotADirectoryError'')
     else case map_of f p of None \<Rightarrow> Inl not_found | Some n \<Rightarrow> Inr n)"

definition make_dirs :: "string list \<Rightarrow> rat \<Rightarrow> fs \<Rightarrow> fs" where
  "make_dirs p t f = foldl (\<lambda>g k. if map_of g (take k p) = None then fs_put (take k p) (Dir t) g else g) f [0..<Suc (length p)]"

definition ensure_directory :: "string list \<Rightarrow> rat \<Rightarrow> fs \<Rightarrow> rs_exn + fs" where
  "ensure_directory p t f = (case lstat f p of
       Inr n \<Rightarrow> if is_dir n then Inr f else Inl (R_os ''FileExistsError'')
     | Inl e \<Rightarrow> if e = not_found then Inr (make_dirs p t f) else Inl e)"

text \<open>A write that succeeds has replaced the target and touched its directory.\<close>

definition write_file :: "string list \<Rightarrow> string \<Rightarrow> nat \<Rightarrow> rat \<Rightarrow> fs \<Rightarrow> rs_exn + fs" where
  "write_file p content ident t f = (case lstat f (butlast p) of
       Inl e \<Rightarrow> Inl e
     | Inr d \<Rightarrow> if \<not> is_dir d then Inl (R_os ''NotADirectoryError'')
         else if (case map_of f p of Some n \<Rightarrow> is_dir n | None \<Rightarrow> False) then Inl (R_os ''IsADirectoryError'')
         else Inr (fs_put p (Regular content ident t) (fs_put (butlast p) (Dir t) f)))"

text \<open>The size is enforced chunk by chunk: the observed size is that of the first chunk that crosses the limit.\<close>

fun bounded_chunks :: "int \<Rightarrow> int \<Rightarrow> string list \<Rightarrow> rs_exn + int" where
  "bounded_chunks limit n [] = Inr n"
| "bounded_chunks limit n (c # cs) = (if n + int (length c) > limit then Inl (R_json_size (n + int (length c)))
     else bounded_chunks limit (n + int (length c)) cs)"

definition write_json_file_bounded :: "string list \<Rightarrow> doc \<Rightarrow> int \<Rightarrow> nat \<Rightarrow> rat \<Rightarrow> fs \<Rightarrow> rs_exn + int \<times> fs" where
  "write_json_file_bounded p data limit ident t f = (if limit < 0 then Inl (R_value ''max_bytes must not be negative'')
     else case bounded_chunks limit 0 (iter_json_bytes json_string data) of
       Inl e \<Rightarrow> Inl e
     | Inr n \<Rightarrow> (case write_file p (compact_json_bytes data) ident t f of Inl e \<Rightarrow> Inl e | Inr g \<Rightarrow> Inr (n, g)))"

definition read_bytes_file_no_follow :: "string list \<Rightarrow> int option \<Rightarrow> fs \<Rightarrow> rs_exn + string" where
  "read_bytes_file_no_follow p limit f = (case lstat f p of
       Inl e \<Rightarrow> Inl e
     | Inr (Link _) \<Rightarrow> Inl (R_os ''OSError'')
     | Inr (Dir _) \<Rightarrow> Inl (R_value ''Artifact is not a regular file'')
     | Inr (Regular content _ _) \<Rightarrow>
         if (case limit of Some m \<Rightarrow> int (length content) > m | None \<Rightarrow> False) then Inl R_file_size else Inr content)"

definition read_json_file_no_follow :: "(string \<Rightarrow> doc option) \<Rightarrow> string list \<Rightarrow> int option \<Rightarrow> fs \<Rightarrow> rs_exn + doc" where
  "read_json_file_no_follow loads p limit f = (case read_bytes_file_no_follow p limit f of
       Inl e \<Rightarrow> Inl e
     | Inr content \<Rightarrow> (case loads content of Some d \<Rightarrow> Inr d | None \<Rightarrow> Inl R_decode))"

definition remove_tree :: "string list \<Rightarrow> fs \<Rightarrow> fs" where
  "remove_tree d f = filter (\<lambda>(q, _). \<not> below d q) f"

definition remove_directory :: "fs \<Rightarrow> string list \<Rightarrow> fs" where
  "remove_directory f d = (case lstat f d of Inr (Dir _) \<Rightarrow> remove_tree d f | _ \<Rightarrow> f)"

definition remove_directories :: "string list list \<Rightarrow> fs \<Rightarrow> fs" where
  "remove_directories ds f = foldl remove_directory f ds"

definition remove_empty :: "string list \<Rightarrow> fs \<Rightarrow> fs" where
  "remove_empty d f = (case lstat f d of Inr (Dir _) \<Rightarrow> if children f d = [] then fs_drop d f else f | _ \<Rightarrow> f)"

section \<open>The checked directory of a run\<close>

definition result_run_dir_depth :: nat where
  "result_run_dir_depth = 3"

definition link_on_path :: "fs \<Rightarrow> string list \<Rightarrow> nat \<Rightarrow> rs_exn + unit" where
  "link_on_path f p k = (case lstat f (take k p) of
       Inr (Link _) \<Rightarrow> Inl (R_value ''Unsafe symlinked result path may resolve outside results_dir'')
     | Inr _ \<Rightarrow> Inr ()
     | Inl e \<Rightarrow> if e = not_found then Inr () else Inl e)"

fun first_error :: "(rs_exn + unit) list \<Rightarrow> rs_exn + unit" where
  "first_error [] = Inr ()"
| "first_error (Inl e # xs) = Inl e"
| "first_error (Inr _ # xs) = first_error xs"

text \<open>The result is the path of the run directory below the root.\<close>

definition checked_result_dir :: "string list \<Rightarrow> bool \<times> string list \<Rightarrow> string \<Rightarrow> fs \<Rightarrow> rs_exn + string list" where
  "checked_result_dir cwd base file_path f = (if ''..'' \<in> set (path_parts file_path) then Inl (R_value ''Unsafe result path outside results_dir'')
     else let (dbl, ps) = abspath cwd file_path in
       if dbl \<noteq> fst base \<or> \<not> below (snd base) ps then Inl (R_value ''Unsafe result path outside results_dir'')
       else let rel = drop (length (snd base)) ps in
         if length rel \<noteq> result_run_dir_depth then Inl (R_value ''Unsafe result path must identify a project/job/run directory'')
         else if list_ex (\<lambda>p. CHR 0x00 \<in> set p) rel then Inl (R_value ''embedded null byte'')
         else case first_error (map (link_on_path f rel) [1, 2, 3]) of Inl e \<Rightarrow> Inl e | Inr _ \<Rightarrow> Inr rel)"

end
