(* ===== verification/Result_Store.thy ===== *)
theory Result_Store
  imports Result_Files Statements
begin

text \<open>
  The store of results, \<^verbatim>\<open>storage/result_store.py\<close> and \<^verbatim>\<open>storage/result_queries.py\<close>: rows of \<^verbatim>\<open>results_meta\<close> and one directory per run.

  \<^item> \<open>rs_world\<close> holds the rows, the sequence of \<^verbatim>\<open>AUTOINCREMENT\<close>, the files below the results directory, the cursors of the
    reconciliation, its counters and the artifacts that have parsed.
  \<^item> \<open>r_io\<close> is one awaited operation: the other tasks act (\<open>rp_env\<close>), then the operation succeeds, fails, or takes effect although the
    caller sees an exception (\<open>Finishes\<close>: a thread that is cancelled is waited for, and SQLite executes a commit whose
    awaiting task was cancelled). A removal that fails may have removed a part of the tree, which \<open>rp_survives\<close> chooses.
  \<^item> The per-run save lock is a condition on the environment in the theorems. \<open>json.loads\<close> is the function \<open>rp_loads\<close>.
  \<^item> A stored timestamp is an \<open>instant\<close>, as in the job store.
\<close>

section \<open>State\<close>

record result_row =
  rr_id :: int
  rr_job_id :: string
  rr_project :: string
  rr_run_id :: string
  rr_status :: string
  rr_record_count :: "int option"
  rr_file_path :: string
  rr_created_at :: instant

type_synonym fingerprint = "string list \<times> nat \<times> nat"

type_synonym run_cursor = "string \<times> string \<times> string"

datatype artifact_failure_kind = Af_missing | Af_corrupt | Af_unreadable | Af_unsafe

record artifact_failure =
  af_job_id :: string
  af_run_id :: string
  af_kind :: artifact_failure_kind
  af_error_type :: "string option"

record operation_failure =
  of_action :: string
  of_identifier :: string
  of_error_type :: string

text \<open>The counters and failures of one reconciliation pass, \<open>_ReconciliationState\<close>.\<close>

record reconciliation_state =
  rc_rows_inspected :: nat
  rc_valid :: nat
  rc_missing :: nat
  rc_corrupt :: nat
  rc_unreadable :: nat
  rc_unsafe :: nat
  rc_entries_inspected :: nat
  rc_run_dirs_inspected :: nat
  rc_malformed :: nat
  rc_orphans :: nat
  rc_recent_skipped :: nat
  rc_active_skipped :: nat
  rc_metadata_races :: nat
  rc_active_races :: nat
  rc_stale_temps :: nat
  rc_dirs_would_remove :: nat
  rc_files_would_remove :: nat
  rc_dirs_removed :: nat
  rc_files_removed :: nat
  rc_removed_bytes :: int
  rc_artifact_failures :: "artifact_failure list"
  rc_operation_failures :: "operation_failure list"

record rs_world =
  rw_rows :: "result_row list"
  rw_next_id :: int
  rw_fs :: fs
  rw_cursors :: "(int \<times> run_cursor option) option"
  rw_validated :: "(int \<times> fingerprint) list"
  rw_rec :: reconciliation_state
  rw_tick :: nat

datatype rs_label = S_lookup | S_lock | S_mkdir | S_previous | S_write | S_budget | S_commit | S_unlink | S_restore | S_rmdir
  | S_select | S_read | S_remove | S_delete_rows | S_active | S_scan | S_validate | S_prune | S_cursor

datatype rs_fault = Fails rs_exn | Finishes rs_exn

record rs_port =
  rp_results_dir :: string
  rp_cwd :: "string list"
  rp_job_lookup :: "nat \<Rightarrow> string \<Rightarrow> rs_exn + string \<times> string"
  rp_active :: "(nat \<Rightarrow> string list \<Rightarrow> rs_exn + bool) option"
  rp_max_result_bytes :: int
  rp_max_tree_bytes :: int
  rp_max_tree_entries :: int
  rp_env :: "nat \<Rightarrow> rs_world \<Rightarrow> rs_world"
  rp_fault :: "rs_label \<Rightarrow> nat \<Rightarrow> rs_fault option"
  rp_survives :: "nat \<Rightarrow> string list \<Rightarrow> bool"
  rp_loads :: "string \<Rightarrow> doc option"
  rp_now :: "nat \<Rightarrow> instant"
  rp_mtime :: "nat \<Rightarrow> rat"
  rp_ident :: "nat \<Rightarrow> nat"
  rp_new_run_id :: "nat \<Rightarrow> string"
  rp_stopped :: "nat \<Rightarrow> bool"
  rp_deny :: "nat \<Rightarrow> string list \<Rightarrow> string option"

type_synonym 'a action = "(rs_world, rs_exn, 'a) statement"

section \<open>Awaited operations\<close>

definition r_interfere :: "rs_port \<Rightarrow> rs_world \<Rightarrow> rs_world" where
  "r_interfere p w = (rp_env p (rw_tick w) w)\<lparr>rw_tick := Suc (rw_tick w)\<rparr>"

definition r_io :: "rs_port \<Rightarrow> rs_label \<Rightarrow> (nat \<Rightarrow> rs_world \<Rightarrow> rs_world) \<Rightarrow> (nat \<Rightarrow> 'a action) \<Rightarrow> 'a action" where
  "r_io p l part f w = (let t = rw_tick w; w1 = r_interfere p w in case rp_fault p l t of
       None \<Rightarrow> f t w1
     | Some (Fails e) \<Rightarrow> (Inl e, part t w1)
     | Some (Finishes e) \<Rightarrow> (Inl e, snd (f t w1)))"

definition unchanged :: "nat \<Rightarrow> rs_world \<Rightarrow> rs_world" where
  "unchanged t w = w"

text \<open>An operation between two awaits.\<close>

definition r_now :: "rs_port \<Rightarrow> rs_label \<Rightarrow> 'a action \<Rightarrow> 'a action" where
  "r_now p l f w = (let t = rw_tick w; w1 = w\<lparr>rw_tick := Suc t\<rparr> in case rp_fault p l t of
       None \<Rightarrow> f w1 | Some (Fails e) \<Rightarrow> (Inl e, w1) | Some (Finishes e) \<Rightarrow> (Inl e, snd (f w1)))"

definition on_files :: "(fs \<Rightarrow> rs_exn + 'a \<times> fs) \<Rightarrow> 'a action" where
  "on_files g w = (case g (rw_fs w) of Inl e \<Rightarrow> (Inl e, w) | Inr (x, f) \<Rightarrow> (Inr x, w\<lparr>rw_fs := f\<rparr>))"

definition of_sum :: "rs_exn + 'a \<Rightarrow> 'a action" where
  "of_sum r w = (r, w)"

section \<open>Paths\<close>

definition store_root :: "rs_port \<Rightarrow> bool \<times> string list" where
  "store_root p = abspath (rp_cwd p) (rp_results_dir p)"

definition store_path :: "rs_port \<Rightarrow> string list \<Rightarrow> string" where
  "store_path p rel = (if fst (store_root p) then ''/'' else []) @ path_text (snd (store_root p) @ rel)"

definition checked_dir :: "rs_port \<Rightarrow> string \<Rightarrow> fs \<Rightarrow> rs_exn + string list" where
  "checked_dir p file_path f = checked_result_dir (rp_cwd p) (store_root p) file_path f"

definition checked_run_dir :: "rs_port \<Rightarrow> string \<Rightarrow> string \<Rightarrow> string \<Rightarrow> fs \<Rightarrow> rs_exn + string list" where
  "checked_run_dir p proj nm rid f = (case safe_join (rp_results_dir p) [proj, nm, rid] of Inl e \<Rightarrow> Inl e | Inr s \<Rightarrow> checked_dir p s f)"

definition checked_dirs :: "rs_port \<Rightarrow> result_row list \<Rightarrow> fs \<Rightarrow> rs_exn + string list list" where
  "checked_dirs p rows f = foldr (\<lambda>r acc. case checked_dir p (rr_file_path r) f of
       Inr d \<Rightarrow> (case acc of Inl e \<Rightarrow> Inl e | Inr ds \<Rightarrow> Inr (d # ds))
     | Inl e \<Rightarrow> if is_value_error e then acc else Inl e) rows (Inr [])"

definition artifact :: "string list \<Rightarrow> string list" where
  "artifact d = d @ [''results.json'']"

section \<open>Queries\<close>

definition row_key :: "result_row \<Rightarrow> instant \<times> int" where
  "row_key r = (rr_created_at r, rr_id r)"

definition lookup_row :: "string \<Rightarrow> string option \<Rightarrow> result_row list \<Rightarrow> result_row option" where
  "lookup_row jid rid rows = (case rid of
       Some r \<Rightarrow> sql_first (\<lambda>x. rr_job_id x = jid \<and> rr_run_id x = r) rows
     | None \<Rightarrow> (case rev (sql_order row_key (filter (\<lambda>x. rr_job_id x = jid) rows)) of [] \<Rightarrow> None | x # _ \<Rightarrow> Some x))"

definition expired_results :: "instant \<Rightarrow> nat \<Rightarrow> result_row list \<Rightarrow> result_row list" where
  "expired_results cutoff limit rows = take limit (sql_order row_key (filter (\<lambda>r. rr_created_at r < cutoff) rows))"

text \<open>\<^verbatim>\<open>ROW_NUMBER\<close> of a row among those of its job, the newest first.\<close>

definition row_rank :: "result_row list \<Rightarrow> result_row \<Rightarrow> nat" where
  "row_rank rows r = Suc (length (filter (\<lambda>s. rr_job_id s = rr_job_id r \<and> row_key r < row_key s) rows))"

definition excess_results :: "nat \<Rightarrow> nat \<Rightarrow> result_row list \<Rightarrow> result_row list" where
  "excess_results keep limit rows = take limit (sql_order row_key (filter (\<lambda>r. row_rank rows r > keep) rows))"

text \<open>\<^verbatim>\<open>INSERT OR REPLACE\<close> under the unique index on job and run.\<close>

definition replace_row :: "result_row \<Rightarrow> rs_world \<Rightarrow> rs_world" where
  "replace_row r w = w\<lparr>rw_rows := sql_delete (\<lambda>x. rr_job_id x = rr_job_id r \<and> rr_run_id x = rr_run_id r) (rw_rows w) @ [r\<lparr>rr_id := rw_next_id w\<rparr>],
     rw_next_id := rw_next_id w + 1\<rparr>"

definition delete_metadata_ids :: "int list \<Rightarrow> rs_world \<Rightarrow> rs_world" where
  "delete_metadata_ids ids w = w\<lparr>rw_rows := sql_delete (\<lambda>x. rr_id x \<in> set ids) (rw_rows w),
     rw_validated := filter (\<lambda>(i, _). i \<notin> set ids) (rw_validated w)\<rparr>"

section \<open>Saving\<close>

record save_result_meta =
  sm_run_id :: string
  sm_file_path :: string
  sm_record_count :: "int option"
  sm_serialized_bytes :: int

definition unlink :: "string list \<Rightarrow> fs \<Rightarrow> rs_exn + unit \<times> fs" where
  "unlink q f = (case lstat f q of
       Inl e \<Rightarrow> if e = not_found then Inr ((), f) else Inl e
     | Inr (Dir _) \<Rightarrow> Inl (R_os ''IsADirectoryError'')
     | Inr _ \<Rightarrow> Inr ((), fs_drop q f))"

definition restore_previous :: "rs_port \<Rightarrow> string list \<Rightarrow> bool \<Rightarrow> string option \<Rightarrow> unit action" where
  "restore_previous p d existed previous = m_then
     (case previous of
        None \<Rightarrow> r_now p S_unlink (on_files (unlink (artifact d)))
      | Some content \<Rightarrow> r_io p S_restore unchanged (\<lambda>t. on_files (\<lambda>f. case write_file (artifact d) content (rp_ident p t) (rp_mtime p t) f of
            Inl e \<Rightarrow> Inl e | Inr g \<Rightarrow> Inr ((), g))))
     (\<lambda>_. if existed then m_ret () else m_try (r_now p S_rmdir (m_set (\<lambda>w. w\<lparr>rw_fs := remove_empty d (rw_fs w)\<rparr>)))
        (\<lambda>e. if is_os_error e then m_ret () else m_raise e))"

definition check_budget :: "rs_port \<Rightarrow> int option \<Rightarrow> unit action" where
  "check_budget p budget = (case budget of None \<Rightarrow> m_ret () | Some _ \<Rightarrow> r_now p S_budget (m_ret ()))"

definition effective_limit :: "rs_port \<Rightarrow> int option \<Rightarrow> int option \<Rightarrow> int" where
  "effective_limit p budget max_bytes = (case budget of Some n \<Rightarrow> n | None \<Rightarrow> (case max_bytes of Some n \<Rightarrow> n | None \<Rightarrow> rp_max_result_bytes p))"

definition insert_row :: "rs_port \<Rightarrow> string \<Rightarrow> string \<Rightarrow> string \<Rightarrow> string \<Rightarrow> int option \<Rightarrow> string list \<Rightarrow> nat \<Rightarrow> unit action" where
  "insert_row p jid proj rid outcome count d t = m_set (replace_row \<lparr>rr_id = 0, rr_job_id = jid, rr_project = proj, rr_run_id = rid,
     rr_status = outcome, rr_record_count = count, rr_file_path = store_path p d, rr_created_at = rp_now p t\<rparr>)"

text \<open>The body of the \<^verbatim>\<open>try\<close> up to \<open>metadata_committed = True\<close>.\<close>

definition write_and_commit :: "rs_port \<Rightarrow> string \<Rightarrow> string \<Rightarrow> string \<Rightarrow> doc \<Rightarrow> string \<Rightarrow> int option \<Rightarrow> int option \<Rightarrow> int \<Rightarrow> string list \<Rightarrow> int action" where
  "write_and_commit p jid proj rid data outcome count budget limit d =
     m_then (r_io p S_write unchanged (\<lambda>t. on_files (write_json_file_bounded (artifact d) data limit (rp_ident p t) (rp_mtime p t)))) (\<lambda>n.
     m_then (check_budget p budget) (\<lambda>_.
     m_then (r_io p S_commit unchanged (insert_row p jid proj rid outcome count d)) (\<lambda>_. m_ret n)))"

definition save_failed :: "rs_port \<Rightarrow> string list \<Rightarrow> bool \<Rightarrow> string option \<Rightarrow> int \<Rightarrow> rs_exn \<Rightarrow> 'a action" where
  "save_failed p d existed previous limit e = m_then (restore_previous p d existed previous) (\<lambda>_.
     case e of R_json_size n \<Rightarrow> m_raise (R_budget limit n) | _ \<Rightarrow> m_raise e)"

definition read_previous :: "rs_port \<Rightarrow> string list \<Rightarrow> string option action" where
  "read_previous p d = m_try (r_io p S_previous unchanged (\<lambda>t w. (case read_bytes_file_no_follow (artifact d) None (rw_fs w) of
       Inl e \<Rightarrow> Inl e | Inr s \<Rightarrow> Inr (Some s), w))) (\<lambda>e. if e = not_found then m_ret None else m_raise e)"

definition save_locked ::
    "rs_port \<Rightarrow> string \<Rightarrow> string \<Rightarrow> string \<Rightarrow> doc \<Rightarrow> string \<Rightarrow> int option \<Rightarrow> int option \<Rightarrow> int \<Rightarrow> string list \<Rightarrow> save_result_meta action" where
  "save_locked p jid proj rid data outcome count budget limit d =
     m_then (m_get (\<lambda>w. map_of (rw_fs w) d \<noteq> None)) (\<lambda>existed.
     m_then (r_io p S_mkdir unchanged (\<lambda>t. on_files (\<lambda>f. case ensure_directory d (rp_mtime p t) f of Inl e \<Rightarrow> Inl e | Inr g \<Rightarrow> Inr ((), g)))) (\<lambda>_.
     m_then (read_previous p d) (\<lambda>previous.
     m_then (m_try (write_and_commit p jid proj rid data outcome count budget limit d) (save_failed p d existed previous limit)) (\<lambda>n.
     m_then (check_budget p budget) (\<lambda>_.
     m_ret \<lparr>sm_run_id = rid, sm_file_path = store_path p d, sm_record_count = count, sm_serialized_bytes = n\<rparr>)))))"

definition job_lookup :: "rs_port \<Rightarrow> string \<Rightarrow> (string \<times> string) action" where
  "job_lookup p jid = r_io p S_lookup unchanged (\<lambda>t. of_sum (rp_job_lookup p t jid))"

definition save_result ::
    "rs_port \<Rightarrow> string \<Rightarrow> doc \<Rightarrow> string option \<Rightarrow> string \<Rightarrow> int option \<Rightarrow> int option \<Rightarrow> int option \<Rightarrow> save_result_meta action" where
  "save_result p jid data run outcome count budget max_bytes =
     m_then (job_lookup p jid) (\<lambda>(proj, nm).
     m_then (m_get (\<lambda>w. case run of Some r \<Rightarrow> if r = [] then rp_new_run_id p (rw_tick w) else r | None \<Rightarrow> rp_new_run_id p (rw_tick w))) (\<lambda>rid.
     m_then (\<lambda>w. (checked_run_dir p proj nm rid (rw_fs w), w)) (\<lambda>d.
     m_then (r_io p S_lock unchanged (\<lambda>t. m_ret ())) (\<lambda>_.
     save_locked p jid proj rid data outcome count budget (effective_limit p budget max_bytes) d))))"

section \<open>Reading\<close>

record result_payload =
  pl_run_id :: string
  pl_data :: doc
  pl_status :: string

definition select :: "rs_port \<Rightarrow> (result_row list \<Rightarrow> 'a) \<Rightarrow> 'a action" where
  "select p q = r_io p S_select unchanged (\<lambda>t. m_get (\<lambda>w. q (rw_rows w)))"

definition identity_field :: "result_row \<Rightarrow> (dkey \<times> doc) list \<Rightarrow> string \<Rightarrow> bool" where
  "identity_field row kvs fld = (case map_of kvs (Str_key fld) of None \<Rightarrow> True
     | Some v \<Rightarrow> v = D_str (if fld = ''job_id'' then rr_job_id row else if fld = ''run_id'' then rr_run_id row else rr_project row))"

definition check_identity :: "result_row \<Rightarrow> doc \<Rightarrow> rs_exn + unit" where
  "check_identity row data = (case data of
       D_dict kvs \<Rightarrow> (case List.find (\<lambda>fld. \<not> identity_field row kvs fld) [''job_id'', ''run_id'', ''project''] of
           Some fld \<Rightarrow> Inl (R_artifact (''Result artifact identity mismatch: '' @ fld)) | None \<Rightarrow> Inr ())
     | _ \<Rightarrow> Inr ())"

definition get_result :: "rs_port \<Rightarrow> string \<Rightarrow> string option \<Rightarrow> result_payload action" where
  "get_result p jid rid = m_then (select p (lookup_row jid rid)) (\<lambda>row. case row of
       None \<Rightarrow> m_raise R_key
     | Some r \<Rightarrow>
         m_then (\<lambda>w. (checked_dir p (rr_file_path r) (rw_fs w), w)) (\<lambda>d.
         m_then (m_try (r_io p S_read unchanged (\<lambda>t w. (read_json_file_no_follow (rp_loads p) (artifact d) (Some (rp_max_result_bytes p)) (rw_fs w), w)))
             (\<lambda>e. if e = R_file_size \<or> e = R_decode then m_raise (R_artifact ''Result artifact is unavailable'') else m_raise e)) (\<lambda>data.
         m_then (of_sum (check_identity r data)) (\<lambda>_.
         m_ret \<lparr>pl_run_id = rr_run_id r, pl_data = data, pl_status = rr_status r\<rparr>))))"

definition get_result_metadata :: "rs_port \<Rightarrow> string \<Rightarrow> string option \<Rightarrow> result_row option action" where
  "get_result_metadata p jid rid = select p (lookup_row jid rid)"

section \<open>Deleting\<close>

definition remove_dirs :: "rs_port \<Rightarrow> string list list \<Rightarrow> unit action" where
  "remove_dirs p ds = r_io p S_remove
     (\<lambda>t w. w\<lparr>rw_fs := filter (\<lambda>(q, _). list_ex (\<lambda>d. below d q) ds \<longrightarrow> rp_survives p t q) (rw_fs w)\<rparr>)
     (\<lambda>t. m_set (\<lambda>w. w\<lparr>rw_fs := remove_directories ds (rw_fs w)\<rparr>))"

definition delete_rows :: "rs_port \<Rightarrow> result_row list \<Rightarrow> unit action" where
  "delete_rows p rows = r_io p S_delete_rows
     (\<lambda>t w. w\<lparr>rw_validated := filter (\<lambda>(i, _). i \<in> rr_id ` set rows \<longrightarrow> rp_survives p t []) (rw_validated w)\<rparr>)
     (\<lambda>t. m_set (delete_metadata_ids (map rr_id rows)))"

fun all_checked :: "(rs_exn + 'a) list \<Rightarrow> rs_exn + 'a list" where
  "all_checked [] = Inr []"
| "all_checked (Inl e # xs) = Inl e"
| "all_checked (Inr x # xs) = (case all_checked xs of Inl e \<Rightarrow> Inl e | Inr ys \<Rightarrow> Inr (x # ys))"

definition delete_files_then_ids :: "rs_port \<Rightarrow> result_row list \<Rightarrow> string list \<Rightarrow> nat action" where
  "delete_files_then_ids p rows extra = (if rows = [] \<and> extra = [] then m_ret 0
     else m_then (\<lambda>w. (all_checked (map (\<lambda>s. checked_dir p s (rw_fs w)) (map rr_file_path rows @ extra)), w)) (\<lambda>ds.
       m_then (remove_dirs p (rev (remdups (rev ds)))) (\<lambda>_.
       m_then (if rows = [] then m_ret () else delete_rows p rows) (\<lambda>_. m_ret (length rows)))))"

definition delete_results :: "rs_port \<Rightarrow> string \<Rightarrow> string list \<Rightarrow> unit action" where
  "delete_results p jid owned = m_then (job_lookup p jid) (\<lambda>(proj, nm).
     m_then (of_sum (all_checked (map (\<lambda>rid. safe_join (rp_results_dir p) [proj, nm, rid]) owned))) (\<lambda>expected.
     m_then (select p (filter (\<lambda>x. rr_job_id x = jid))) (\<lambda>rows.
     m_then (delete_files_then_ids p rows expected) (\<lambda>_. m_ret ()))))"

definition delete_result :: "rs_port \<Rightarrow> string \<Rightarrow> string \<Rightarrow> bool action" where
  "delete_result p jid rid = m_then (select p (filter (\<lambda>x. rr_job_id x = jid \<and> rr_run_id x = rid))) (\<lambda>rows.
     m_then (delete_files_then_ids p rows []) (\<lambda>n.
     if n > 0 then m_ret True
     else m_then (job_lookup p jid) (\<lambda>(proj, nm).
       m_then (\<lambda>w. (checked_run_dir p proj nm rid (rw_fs w), w)) (\<lambda>d.
       m_then (m_get (\<lambda>w. case lstat (rw_fs w) d of Inr n \<Rightarrow> is_dir n | Inl _ \<Rightarrow> False)) (\<lambda>existed.
       m_then (remove_dirs p [d]) (\<lambda>_. m_ret existed))))))"

section \<open>Retention\<close>

definition active_run :: "rs_port \<Rightarrow> string list \<Rightarrow> bool action" where
  "active_run p ident = (case rp_active p of None \<Rightarrow> m_ret False | Some f \<Rightarrow> r_io p S_active unchanged (\<lambda>t. of_sum (f t ident)))"

fun inactive_rows :: "rs_port \<Rightarrow> result_row list \<Rightarrow> result_row list action" where
  "inactive_rows p [] = m_ret []"
| "inactive_rows p (r # rs) = m_then (\<lambda>w. (case checked_dir p (rr_file_path r) (rw_fs w) of
         Inr d \<Rightarrow> Inr (Some d) | Inl e \<Rightarrow> if is_os_error e \<or> is_value_error e then Inr None else Inl e, w)) (\<lambda>d.
     m_then (case d of
         None \<Rightarrow> m_ret True
       | Some d \<Rightarrow> m_try (m_then (active_run p d) (\<lambda>a. m_ret (\<not> a))) (\<lambda>e. if is_exception e then m_ret False else m_raise e)) (\<lambda>keep.
     m_then (inactive_rows p rs) (\<lambda>rest. m_ret (if keep then r # rest else rest))))"

definition delete_retention_batch :: "rs_port \<Rightarrow> (result_row list \<Rightarrow> result_row list) \<Rightarrow> nat action" where
  "delete_retention_batch p q = m_then (select p q) (\<lambda>rows.
     m_then (inactive_rows p rows) (\<lambda>gone.
     if gone = [] then m_ret 0
     else m_then (delete_rows p gone) (\<lambda>_.
       m_then (\<lambda>w. (checked_dirs p gone (rw_fs w), w)) (\<lambda>ds.
       m_then (remove_dirs p ds) (\<lambda>_. m_ret (length gone))))))"

definition day_micros :: int where
  "day_micros = 24 * 3600 * 1000000"

definition delete_expired :: "rs_port \<Rightarrow> int \<Rightarrow> int \<Rightarrow> nat action" where
  "delete_expired p retention_days limit = (if retention_days < 1 then m_raise (R_value ''result retention days must be positive'')
     else if limit < 1 then m_raise (R_value ''result cleanup limit must be positive'')
     else m_then (m_get (\<lambda>w. rp_now p (rw_tick w) - retention_days * day_micros)) (\<lambda>cutoff.
       delete_retention_batch p (expired_results cutoff (nat limit))))"

definition prune_excess_per_job :: "rs_port \<Rightarrow> int \<Rightarrow> int \<Rightarrow> nat action" where
  "prune_excess_per_job p keep limit = (if keep < 1 then m_raise (R_value ''maximum results per job must be positive'')
     else if limit < 1 then m_raise (R_value ''result cleanup limit must be positive'')
     else delete_retention_batch p (excess_results (nat keep) (nat limit)))"

definition oldest :: "result_row list \<Rightarrow> instant option" where
  "oldest rows = (case map rr_created_at rows of [] \<Rightarrow> None | t # ts \<Rightarrow> Some (fold min ts t))"

definition summarize_cleanup_backlog :: "rs_port \<Rightarrow> instant \<Rightarrow> int \<Rightarrow> ((nat \<times> instant option) \<times> (nat \<times> instant option)) action" where
  "summarize_cleanup_backlog p before keep = select p (\<lambda>rows.
     let expired = filter (\<lambda>r. rr_created_at r < before) rows; excess = filter (\<lambda>r. int (row_rank rows r) > keep) rows
     in ((length expired, oldest expired), (length excess, oldest excess)))"

end
