(* ===== verification/Result_Reconciliation.thy ===== *)
theory Result_Reconciliation
  imports Result_Store
begin

text \<open>
  The reconciliation of rows and directories, the second half of \<^verbatim>\<open>storage/result_store.py\<close>.

  \<^item> \<open>stopped\<close> is a call of \<open>deadline_reached\<close>; a blocking function asks it once before each file or directory that it looks at. The
    denials \<open>rp_deny\<close> are the \<open>OSError\<close>s of looking at a path.
  \<^item> The generator \<open>namespace_leaves\<close> is a worklist: \<open>Expand\<close> is a directory that is listed when its turn comes, \<open>Leaf\<close> a value
    that the generator yields. Its consumer is \<open>scan_leaf\<close>.
\<close>

section \<open>Deadlines and failures\<close>

definition stopped :: "rs_port \<Rightarrow> bool action" where
  "stopped p w = (Inr (rp_stopped p (rw_tick w)), w\<lparr>rw_tick := Suc (rw_tick w)\<rparr>)"

definition bump :: "(reconciliation_state \<Rightarrow> reconciliation_state) \<Rightarrow> unit action" where
  "bump f = m_set (\<lambda>w. w\<lparr>rw_rec := f (rw_rec w)\<rparr>)"

definition run_identifier :: "string list \<Rightarrow> string" where
  "run_identifier parts = join ''/'' (map (take 80) parts)"

definition operation_failed :: "string \<Rightarrow> string \<Rightarrow> string \<Rightarrow> unit action" where
  "operation_failed nm ident e = bump (\<lambda>s. s\<lparr>rc_operation_failures := rc_operation_failures s @
     [\<lparr>of_action = nm, of_identifier = ident, of_error_type = e\<rparr>]\<rparr>)"

definition record_artifact_failure :: "result_row \<Rightarrow> artifact_failure_kind \<Rightarrow> string option \<Rightarrow> unit action" where
  "record_artifact_failure row kind e = bump (\<lambda>s.
     let s1 = (case kind of Af_missing \<Rightarrow> s\<lparr>rc_missing := rc_missing s + 1\<rparr> | Af_corrupt \<Rightarrow> s\<lparr>rc_corrupt := rc_corrupt s + 1\<rparr>
         | Af_unreadable \<Rightarrow> s\<lparr>rc_unreadable := rc_unreadable s + 1\<rparr> | Af_unsafe \<Rightarrow> s\<lparr>rc_unsafe := rc_unsafe s + 1\<rparr>)
     in s1\<lparr>rc_artifact_failures := rc_artifact_failures s1 @
         [\<lparr>af_job_id = take 128 (rr_job_id row), af_run_id = take 128 (rr_run_id row), af_kind = kind, af_error_type = e\<rparr>]\<rparr>)"

section \<open>Validating rows\<close>

definition artifact_stat :: "rs_port \<Rightarrow> string list \<Rightarrow> nat \<Rightarrow> fs \<Rightarrow> rs_exn + node \<times> node" where
  "artifact_stat p d t f = (case rp_deny p t d of
       Some e \<Rightarrow> Inl (R_os e)
     | None \<Rightarrow> (case lstat f d of Inl e \<Rightarrow> Inl e | Inr n \<Rightarrow> (case lstat f (artifact d) of Inl e \<Rightarrow> Inl e | Inr m \<Rightarrow> Inr (n, m))))"

definition accept_artifact :: "int \<Rightarrow> fingerprint \<Rightarrow> unit action" where
  "accept_artifact i fp = m_then (m_set (\<lambda>w. w\<lparr>rw_validated := (i, fp) # filter (\<lambda>(j, _). j \<noteq> i) (rw_validated w)\<rparr>))
     (\<lambda>_. bump (\<lambda>s. s\<lparr>rc_valid := rc_valid s + 1\<rparr>))"

definition reread_artifact :: "rs_port \<Rightarrow> result_row \<Rightarrow> string list \<Rightarrow> fingerprint \<Rightarrow> unit action" where
  "reread_artifact p row d fp = m_then (stopped p) (\<lambda>stop. if stop then m_raise R_stop
     else m_then (m_get (\<lambda>w. read_json_file_no_follow (rp_loads p) (artifact d) (Some (rp_max_result_bytes p)) (rw_fs w))) (\<lambda>r. case r of
         Inr _ \<Rightarrow> accept_artifact (rr_id row) fp
       | Inl e \<Rightarrow> if e = not_found then record_artifact_failure row Af_missing (Some (exn_name e))
           else if e = R_file_size \<or> e = R_decode then record_artifact_failure row Af_corrupt (Some (exn_name e))
           else if is_os_error e then record_artifact_failure row Af_unreadable (Some (exn_name e))
           else m_raise e))"

definition validate_metadata_row :: "rs_port \<Rightarrow> result_row \<Rightarrow> unit action" where
  "validate_metadata_row p row =
     m_then (m_get (\<lambda>w. map_of (rw_validated w) (rr_id row))) (\<lambda>validated.
     m_then (m_set (\<lambda>w. w\<lparr>rw_validated := filter (\<lambda>(j, _). j \<noteq> rr_id row) (rw_validated w)\<rparr>)) (\<lambda>_.
     m_then (m_get (\<lambda>w. checked_dir p (rr_file_path row) (rw_fs w))) (\<lambda>r. case r of
         Inl e \<Rightarrow> if is_os_error e \<or> is_value_error e then record_artifact_failure row Af_unsafe (Some (exn_name e)) else m_raise e
       | Inr d \<Rightarrow> m_then (m_get (\<lambda>w. artifact_stat p d (rw_tick w) (rw_fs w))) (\<lambda>st. case st of
             Inl e \<Rightarrow> if e = not_found then record_artifact_failure row Af_missing (Some (exn_name e))
               else record_artifact_failure row Af_unreadable (Some (exn_name e))
           | Inr (Dir _, Regular content ident _) \<Rightarrow>
               if validated = Some (d, ident, length content) then accept_artifact (rr_id row) (d, ident, length content)
               else reread_artifact p row d (d, ident, length content)
           | Inr _ \<Rightarrow> record_artifact_failure row Af_unsafe None))))"

fun validate_metadata_rows :: "rs_port \<Rightarrow> result_row list \<Rightarrow> nat action" where
  "validate_metadata_rows p [] = m_ret 0"
| "validate_metadata_rows p (r # rs) = m_then (stopped p) (\<lambda>stop. if stop then m_ret 0
     else m_then (m_try (m_then (validate_metadata_row p r) (\<lambda>_. m_ret True)) (\<lambda>e. if e = R_stop then m_ret False else m_raise e)) (\<lambda>ok.
       if \<not> ok then m_ret 0
       else m_then (bump (\<lambda>s. s\<lparr>rc_rows_inspected := rc_rows_inspected s + 1\<rparr>)) (\<lambda>_.
         m_then (validate_metadata_rows p rs) (\<lambda>n. m_ret (Suc n)))))"

definition forget_unlisted_artifacts :: "int \<Rightarrow> result_row list \<Rightarrow> bool \<Rightarrow> unit action" where
  "forget_unlisted_artifacts after_id rows exhausted = m_set (\<lambda>w.
     let upper = (if rows = [] then after_id else rr_id (last rows))
     in w\<lparr>rw_validated := filter (\<lambda>(i, _). \<not> (i > after_id \<and> (exhausted \<or> i \<le> upper) \<and> i \<notin> rr_id ` set rows)) (rw_validated w)\<rparr>)"

section \<open>Snapshots of a run directory\<close>

definition atomic_prefixes :: "string list" where
  "atomic_prefixes = [''.results.json.'', ''.dynamic-main.png.'', ''.stealthy-main.png.'']"

definition is_lower_hex :: "char \<Rightarrow> bool" where
  "is_lower_hex c \<longleftrightarrow> is_digit_char c \<or> (let n = of_char c :: nat in 97 \<le> n \<and> n \<le> 102)"

definition atomic_temp_name :: "string \<Rightarrow> bool" where
  "atomic_temp_name s = list_ex (\<lambda>x. starts_with x s \<and> (let r = drop (length x) s; pid = takeWhile is_digit_char r; rest = dropWhile is_digit_char r in
     pid \<noteq> [] \<and> hd pid \<noteq> CHR ''0'' \<and> length rest = 37 \<and> hd rest = CHR ''.'' \<and> list_all is_lower_hex (take 32 (drop 1 rest)) \<and> drop 33 rest = ''.tmp''))
     atomic_prefixes"

type_synonym temp_file = "string list \<times> int \<times> rat"

record tree_totals =
  tt_bytes :: int
  tt_entries :: int
  tt_newest :: rat
  tt_temps :: "temp_file list"
  tt_pending :: "string list list"

definition directory_entries :: "fs \<Rightarrow> string list \<Rightarrow> int \<Rightarrow> rs_exn + (string \<times> node) list" where
  "directory_entries f d limit = (let names = sort (children f d) in
     if int (length names) > limit then Inl R_entries
     else Inr (map (\<lambda>n. (n, the (map_of f (d @ [n])))) names))"

fun snapshot_entries :: "rs_port \<Rightarrow> string list \<Rightarrow> nat \<Rightarrow> (string \<times> node) list \<Rightarrow> tree_totals \<Rightarrow> rs_exn + tree_totals" where
  "snapshot_entries p d t [] s = Inr s"
| "snapshot_entries p d t ((nm, n) # es) s = (if rp_stopped p t then Inl R_stop
     else let s1 = s\<lparr>tt_entries := tt_entries s + 1, tt_newest := max (tt_newest s) (node_mtime n)\<rparr> in
       case n of
         Link _ \<Rightarrow> snapshot_entries p d (Suc t) es s1
       | Dir _ \<Rightarrow> snapshot_entries p d (Suc t) es (s1\<lparr>tt_pending := (d @ [nm]) # tt_pending s1\<rparr>)
       | Regular content _ m \<Rightarrow>
           let s2 = s1\<lparr>tt_bytes := tt_bytes s1 + int (length content)\<rparr> in
           if tt_bytes s2 > rp_max_tree_bytes p then Inl R_file_size
           else snapshot_entries p d (Suc t) es
             (if atomic_temp_name nm then s2\<lparr>tt_temps := tt_temps s2 @ [(d @ [nm], int (length content), m)]\<rparr> else s2))"

lemma snapshot_entries_count:
  "snapshot_entries p d t es s = Inr s' \<Longrightarrow> tt_entries s' = tt_entries s + int (length es) \<and> (es = [] \<longrightarrow> tt_pending s' = tt_pending s)"
  by (induction p d t es s rule: snapshot_entries.induct) (auto simp: Let_def split: if_splits node.splits)

text \<open>The stack \<^verbatim>\<open>pending\<close> has its top first. The entry ceiling bounds the loop.\<close>

function snapshot_loop :: "rs_port \<Rightarrow> fs \<Rightarrow> nat \<Rightarrow> tree_totals \<Rightarrow> rs_exn + tree_totals" where
  "snapshot_loop p f t s = (case tt_pending s of
       [] \<Rightarrow> Inr s
     | d # ds \<Rightarrow> if rp_stopped p t then Inl R_stop
         else case directory_entries f d (rp_max_tree_entries p - tt_entries s) of
           Inl e \<Rightarrow> Inl e
         | Inr es \<Rightarrow> (case snapshot_entries p d (Suc t) es (s\<lparr>tt_pending := ds\<rparr>) of
             Inl e \<Rightarrow> Inl e
           | Inr s' \<Rightarrow> snapshot_loop p f (Suc t + length es) s'))"
  by pat_completeness auto

termination
proof (relation "measures [\<lambda>(p, f, t, s). nat (rp_max_tree_entries p - tt_entries s), \<lambda>(p, f, t, s). length (tt_pending s)]", goal_cases)
  case (2 p f t s d ds es s')
  have len: "int (length es) \<le> rp_max_tree_entries p - tt_entries s" using 2(3) by (auto simp: directory_entries_def Let_def split: if_splits)
  note c = snapshot_entries_count [OF 2(4)]
  show ?case
  proof (cases "es = []")
    case True
    then show ?thesis using c 2(1) by simp
  next
    case False
    then have "0 < int (length es)" by simp
    then have "tt_entries s < rp_max_tree_entries p" using len by linarith
    then show ?thesis using c False by simp
  qed
qed simp

declare snapshot_loop.simps [simp del]

definition tree_snapshot :: "rs_port \<Rightarrow> string list \<Rightarrow> nat \<Rightarrow> fs \<Rightarrow> rs_exn + int \<times> rat \<times> temp_file list" where
  "tree_snapshot p d t f = (if rp_stopped p t then Inl R_stop
     else case rp_deny p t d of
       Some e \<Rightarrow> Inl (R_os e)
     | None \<Rightarrow> (case lstat f d of
         Inl e \<Rightarrow> Inl e
       | Inr n \<Rightarrow> if \<not> is_dir n then Inl (R_value ''run candidate is not a regular directory'')
           else (case snapshot_loop p f (Suc t) \<lparr>tt_bytes = 0, tt_entries = 0, tt_newest = node_mtime n, tt_temps = [], tt_pending = [d]\<rparr> of
             Inl e \<Rightarrow> Inl e
           | Inr s \<Rightarrow> Inr (tt_bytes s, tt_newest s, sort_key (\<lambda>(q, _). join ''/'' q) (tt_temps s)))))"

section \<open>Scanning the namespace\<close>

record run_candidate =
  ca_dir :: "string list"
  ca_size :: int
  ca_recent :: bool

record scanned_entry =
  se_cursor :: run_cursor
  se_run :: "run_candidate option"
  se_temps :: "temp_file list"

datatype scan_item = Expand "string list" | Leaf "string list"

definition cursor_of :: "string list \<Rightarrow> run_cursor" where
  "cursor_of parts = (case parts of [] \<Rightarrow> ([], [], []) | [a] \<Rightarrow> (a, [], []) | [a, b] \<Rightarrow> (a, b, []) | a # b # c # _ \<Rightarrow> (a, b, c))"

definition cursor_parts :: "run_cursor \<Rightarrow> string list" where
  "cursor_parts c = (case c of (a, b, c) \<Rightarrow> [a, b, c])"

definition names_after :: "run_cursor option \<Rightarrow> string list \<Rightarrow> string list \<Rightarrow> string list" where
  "names_after after_cursor parts names = filter (\<lambda>n. case after_cursor of None \<Rightarrow> True
     | Some c \<Rightarrow> parts @ [n] \<ge> take (Suc (length parts)) (cursor_parts c)) names"

definition child_item :: "string list \<Rightarrow> scan_item" where
  "child_item parts = (if length parts = result_run_dir_depth then Leaf parts else Expand parts)"

definition leaf_of :: "string list \<Rightarrow> scan_item list" where
  "leaf_of parts = (if parts = [] then [] else [Leaf parts])"

definition scan_failure_name :: "nat \<Rightarrow> string" where
  "scan_failure_name k = (if k = 0 then ''scan_root'' else if k = 1 then ''scan_project'' else ''scan_job'')"

definition expand :: "rs_port \<Rightarrow> nat \<Rightarrow> run_cursor option \<Rightarrow> string list \<Rightarrow> scan_item list action" where
  "expand p limit after_cursor parts = m_then (stopped p) (\<lambda>stop. if stop then m_raise R_stop
     else m_then (m_get (\<lambda>w. case rp_deny p (rw_tick w) parts of Some e \<Rightarrow> Inl (R_os e) | None \<Rightarrow> lstat (rw_fs w) parts)) (\<lambda>st. case st of
         Inl e \<Rightarrow> if e = not_found then m_ret (leaf_of parts)
           else m_then (operation_failed (scan_failure_name (length parts)) (if parts = [] then ''.'' else run_identifier parts) (exn_name e))
             (\<lambda>_. m_ret (leaf_of parts))
       | Inr n \<Rightarrow> if parts \<noteq> [] \<and> \<not> is_dir n then m_then (bump (\<lambda>s. s\<lparr>rc_malformed := rc_malformed s + 1\<rparr>)) (\<lambda>_. m_ret [Leaf parts])
           else m_get (\<lambda>w. let names = take (limit + 2) (sort (names_after after_cursor parts (children (rw_fs w) parts)))
             in if names = [] then leaf_of parts else map (\<lambda>n. child_item (parts @ [n])) names)))"

definition plain_entry :: "string list \<Rightarrow> scanned_entry" where
  "plain_entry parts = \<lparr>se_cursor = cursor_of parts, se_run = None, se_temps = []\<rparr>"

definition inspected :: "scanned_entry \<Rightarrow> scanned_entry action" where
  "inspected e = m_then (bump (\<lambda>s. s\<lparr>rc_entries_inspected := rc_entries_inspected s + 1\<rparr>)) (\<lambda>_. m_ret e)"

definition stale_temps :: "rat \<Rightarrow> bool \<Rightarrow> temp_file list \<Rightarrow> temp_file list action" where
  "stale_temps cutoff recent temps = (let stale = filter (\<lambda>(_, _, m). \<not> (m \<ge> cutoff \<or> recent)) temps in
     m_then (bump (\<lambda>s. s\<lparr>rc_recent_skipped := rc_recent_skipped s + (length temps - length stale),
         rc_stale_temps := rc_stale_temps s + length stale\<rparr>)) (\<lambda>_. m_ret stale))"

text \<open>One leaf, once it is known to lie after the cursor and within the limit.\<close>

definition scan_run :: "rs_port \<Rightarrow> rat \<Rightarrow> string list \<Rightarrow> scanned_entry action" where
  "scan_run p cutoff parts = (if length parts < result_run_dir_depth then inspected (plain_entry parts)
     else m_then (m_get (\<lambda>w. case rp_deny p (rw_tick w) parts of Some e \<Rightarrow> Inl (R_os e) | None \<Rightarrow> lstat (rw_fs w) parts)) (\<lambda>st. case st of
         Inl e \<Rightarrow> m_then (operation_failed ''scan_run'' (run_identifier parts) (exn_name e)) (\<lambda>_. inspected (plain_entry parts))
       | Inr n \<Rightarrow> if \<not> is_dir n then m_then (bump (\<lambda>s. s\<lparr>rc_malformed := rc_malformed s + 1\<rparr>)) (\<lambda>_. inspected (plain_entry parts))
           else m_then (m_get (\<lambda>w. case checked_dir p (store_path p parts) (rw_fs w) of Inl e \<Rightarrow> Inl e
               | Inr d \<Rightarrow> (case tree_snapshot p d (rw_tick w) (rw_fs w) of Inl e \<Rightarrow> Inl e | Inr s \<Rightarrow> Inr (d, s)))) (\<lambda>r. case r of
             Inl e \<Rightarrow> if e = R_stop then m_raise R_stop
               else if is_os_error e \<or> is_value_error e
               then m_then (operation_failed ''scan_run'' (run_identifier parts) (exn_name e)) (\<lambda>_. inspected (plain_entry parts))
               else m_raise e
           | Inr (d, bytes, newest, temps) \<Rightarrow>
               m_then (bump (\<lambda>s. s\<lparr>rc_entries_inspected := rc_entries_inspected s + 1, rc_run_dirs_inspected := rc_run_dirs_inspected s + 1\<rparr>)) (\<lambda>_.
               m_then (stale_temps cutoff (newest \<ge> cutoff) temps) (\<lambda>stale.
               m_ret \<lparr>se_cursor = cursor_of parts, se_run = Some \<lparr>ca_dir = d, ca_size = bytes, ca_recent = (newest \<ge> cutoff)\<rparr>, se_temps = stale\<rparr>)))))"

definition scan_weight :: "nat \<Rightarrow> scan_item \<Rightarrow> nat" where
  "scan_weight limit i = (case i of Leaf _ \<Rightarrow> 1 | Expand parts \<Rightarrow> (limit + 4) ^ (4 - length parts))"

lemma expand_weight:
  assumes "expand p limit after_cursor parts w = (Inr items, w')" and "length parts < 3"
  shows "sum_list (map (scan_weight limit) items) < scan_weight limit (Expand parts)"
proof -
  let ?b = "limit + 4" and ?k = "length parts"
  have one: "1 \<le> ?b ^ n" for n by simp
  have bound: "sum_list (map (scan_weight limit) items) \<le> (limit + 2) * ?b ^ (3 - ?k)"
  proof -
    have "items = [] \<or> items = [Leaf parts] \<or> (\<exists>ns. length ns \<le> limit + 2 \<and> items = map (\<lambda>n. child_item (parts @ [n])) ns)"
      using assms(1) by (auto simp: expand_def m_then_def m_get_def m_ret_def m_raise_def m_set_def stopped_def bump_def operation_failed_def leaf_of_def Let_def
          split: if_splits prod.splits sum.splits option.splits intro: exI [of _ "take (limit + 2) xs" for xs])
    then consider "items = []" | "items = [Leaf parts]" | ns where "length ns \<le> limit + 2" "items = map (\<lambda>n. child_item (parts @ [n])) ns" by blast
    then show ?thesis
    proof cases
      case 2
      then show ?thesis using one [of "3 - ?k"] by (simp add: scan_weight_def trans_le_add1)
    next
      case (3 ns)
      have "scan_weight limit (child_item (parts @ [n])) \<le> ?b ^ (3 - ?k)" for n
        using one by (simp add: scan_weight_def child_item_def)
      then have "sum_list (map (scan_weight limit) items) \<le> sum_list (map (\<lambda>_. ?b ^ (3 - ?k)) ns)"
        unfolding 3(2) map_map comp_def by (intro sum_list_mono) simp
      also have "\<dots> \<le> (limit + 2) * ?b ^ (3 - ?k)" using 3(1) unfolding sum_list_triv by (intro mult_le_mono1) simp
      finally show ?thesis .
    qed simp
  qed
  also have "(limit + 2) * ?b ^ (3 - ?k) < ?b * ?b ^ (3 - ?k)" by (rule mult_strict_right_mono) simp_all
  also have "\<dots> = scan_weight limit (Expand parts)" using assms(2) by (simp add: scan_weight_def Suc_diff_le flip: power_Suc)
  finally show ?thesis .
qed

text \<open>Directories are expanded at depths 0 to 2 only; the guard on the depth is for termination.\<close>

function scan_loop :: "rs_port \<Rightarrow> rat \<Rightarrow> nat \<Rightarrow> run_cursor option \<Rightarrow> scan_item list \<Rightarrow> scanned_entry list \<Rightarrow> (scanned_entry list \<times> bool) action" where
  "scan_loop p cutoff limit after_cursor items found w = (case items of
       [] \<Rightarrow> (Inr (found, True), w)
     | Expand parts # rest \<Rightarrow> if length parts \<ge> 3 then scan_loop p cutoff limit after_cursor rest found w
         else (case expand p limit after_cursor parts w of
           (Inl e, w') \<Rightarrow> if e = R_stop then (Inr (found, False), w') else (Inl e, w')
         | (Inr new, w') \<Rightarrow> scan_loop p cutoff limit after_cursor (new @ rest) found w')
     | Leaf parts # rest \<Rightarrow> if (case after_cursor of None \<Rightarrow> False | Some c \<Rightarrow> cursor_of parts \<le> c) then scan_loop p cutoff limit after_cursor rest found w
         else (case stopped p w of
           (Inl e, w1) \<Rightarrow> (Inl e, w1)
         | (Inr stop, w1) \<Rightarrow> if stop \<or> length found \<ge> limit then (Inr (found, False), w1)
             else (case scan_run p cutoff parts w1 of
               (Inl e, w2) \<Rightarrow> if e = R_stop then (Inr (found, False), w2) else (Inl e, w2)
             | (Inr entry, w2) \<Rightarrow> scan_loop p cutoff limit after_cursor rest (found @ [entry]) w2)))"
  by pat_completeness auto

termination
proof (relation "measure (\<lambda>(p, cutoff, limit, after_cursor, items, found, w). sum_list (map (scan_weight limit) items))", goal_cases)
  case (3 p cutoff limit after_cursor items found w i rest parts r w' new)
  then show ?case using expand_weight [of p limit after_cursor parts w new w'] by simp
qed (auto simp: scan_weight_def)

declare scan_loop.simps [simp del]

definition scan_artifacts :: "rs_port \<Rightarrow> rat \<Rightarrow> nat \<Rightarrow> run_cursor option \<Rightarrow> (scanned_entry list \<times> bool) action" where
  "scan_artifacts p cutoff limit after_cursor = scan_loop p cutoff limit after_cursor [Expand []] []"

section \<open>Removing\<close>

definition prune_empty_namespace :: "string list \<Rightarrow> fs \<Rightarrow> fs" where
  "prune_empty_namespace parts f = (let g = (if length parts = 2 then remove_empty parts f else f) in
     if length parts = 2 \<and> map_of g parts \<noteq> None \<or> length parts = 2 \<and> map_of f parts = None then g
     else remove_empty (take 1 parts) g)"

datatype removal = Removed | Missing | Recent

definition snapshot_now :: "rs_port \<Rightarrow> bool \<Rightarrow> string list \<Rightarrow> nat \<Rightarrow> fs \<Rightarrow> rs_exn + int \<times> rat \<times> temp_file list" where
  "snapshot_now p timed d t f = tree_snapshot (if timed then p else p\<lparr>rp_stopped := \<lambda>_. False\<rparr>) d t f"

definition remove_run_candidate :: "rs_port \<Rightarrow> rat \<Rightarrow> bool \<Rightarrow> run_candidate \<Rightarrow> (removal \<times> int) action" where
  "remove_run_candidate p cutoff timed c = r_io p S_remove
     (\<lambda>t w. w\<lparr>rw_fs := filter (\<lambda>(q, _). below (ca_dir c) q \<longrightarrow> rp_survives p t q) (rw_fs w)\<rparr>)
     (\<lambda>t. on_files (\<lambda>f. case checked_dir p (store_path p (ca_dir c)) f of
         Inl e \<Rightarrow> Inl e
       | Inr d \<Rightarrow> (case snapshot_now p timed d t f of
           Inl e \<Rightarrow> if e = not_found then Inr ((Missing, 0), f) else Inl e
         | Inr (bytes, newest, _) \<Rightarrow> if newest \<ge> cutoff then Inr ((Recent, 0), f)
             else Inr ((Removed, bytes), prune_empty_namespace (take 2 d) (remove_tree d f)))))"

definition temp_parents :: "string list \<Rightarrow> string list \<Rightarrow> fs \<Rightarrow> rs_exn + unit" where
  "temp_parents d q f = first_error (map (\<lambda>k. case lstat f (take k q) of
       Inl e \<Rightarrow> Inl e | Inr n \<Rightarrow> if is_dir n then Inr () else Inl (R_value ''symlinked temporary parent'')) [Suc (length d)..<length q])"

definition check_temp :: "rat \<Rightarrow> rat \<Rightarrow> string list \<Rightarrow> fs \<Rightarrow> rs_exn + (removal \<times> int) \<times> fs" where
  "check_temp cutoff newest q f = (case lstat f q of
       Inl e \<Rightarrow> Inl e
     | Inr (Regular content _ m) \<Rightarrow>
         if \<not> atomic_temp_name (last q) then Inl (R_value ''unsafe temporary candidate'')
         else if newest \<ge> cutoff \<or> m \<ge> cutoff then Inr ((Recent, 0), f)
         else Inr ((Removed, int (length content)), fs_drop q f)
     | Inr _ \<Rightarrow> Inl (R_value ''unsafe temporary candidate''))"

definition missing_ok :: "fs \<Rightarrow> rs_exn + (removal \<times> int) \<times> fs \<Rightarrow> rs_exn + (removal \<times> int) \<times> fs" where
  "missing_ok f r = (case r of Inl e \<Rightarrow> if e = not_found then Inr ((Missing, 0), f) else Inl e | Inr x \<Rightarrow> Inr x)"

definition remove_temp_candidate :: "rs_port \<Rightarrow> rat \<Rightarrow> bool \<Rightarrow> string list \<Rightarrow> temp_file \<Rightarrow> (removal \<times> int) action" where
  "remove_temp_candidate p cutoff timed run tmp = r_io p S_remove unchanged (\<lambda>t. on_files (\<lambda>f. case checked_dir p (store_path p run) f of
         Inl e \<Rightarrow> Inl e
       | Inr d \<Rightarrow> missing_ok f (case snapshot_now p timed d t f of
           Inl e \<Rightarrow> Inl e
         | Inr (_, newest, _) \<Rightarrow>
             if \<not> below d (fst tmp) \<or> fst tmp = d then Inl (R_value ''unsafe temporary path'')
             else (case temp_parents d (fst tmp) f of Inl e \<Rightarrow> Inl e | Inr _ \<Rightarrow> check_temp cutoff newest (fst tmp) f))))"

section \<open>One scanned entry\<close>

definition metadata_references :: "rs_port \<Rightarrow> string list \<Rightarrow> bool action" where
  "metadata_references p d = m_then (select p (filter (\<lambda>r. rr_project r = d ! 0 \<and> rr_run_id r = d ! 2))) (\<lambda>rows.
     m_get (\<lambda>w. list_ex (\<lambda>r. checked_dir p (rr_file_path r) (rw_fs w) = Inr d) rows))"

definition active_or_failed :: "rs_port \<Rightarrow> string list \<Rightarrow> string \<Rightarrow> bool action" where
  "active_or_failed p d nm = m_try (active_run p d) (\<lambda>e. if is_exception e
     then m_then (operation_failed nm (run_identifier d) (exn_name e)) (\<lambda>_. m_ret True) else m_raise e)"

definition stop_requested :: "rs_port \<Rightarrow> bool \<Rightarrow> bool action" where
  "stop_requested p timed = (if timed then stopped p else m_ret False)"

text \<open>The outcome of a removal: \<open>False\<close> stops the pass.\<close>

definition settle_removal :: "string \<Rightarrow> string list \<Rightarrow> (nat \<Rightarrow> reconciliation_state \<Rightarrow> reconciliation_state) \<Rightarrow> (removal \<times> int) action \<Rightarrow> bool action" where
  "settle_removal nm d count m = m_try (m_then m (\<lambda>(r, bytes). m_then (case r of
       Removed \<Rightarrow> bump (\<lambda>s. count 1 (s\<lparr>rc_removed_bytes := rc_removed_bytes s + bytes\<rparr>))
     | Recent \<Rightarrow> bump (\<lambda>s. s\<lparr>rc_recent_skipped := rc_recent_skipped s + 1\<rparr>)
     | Missing \<Rightarrow> m_ret ()) (\<lambda>_. m_ret True)))
     (\<lambda>e. if e = R_stop then m_ret False
        else if is_exception e then m_then (operation_failed nm (run_identifier d) (exn_name e)) (\<lambda>_. m_ret True) else m_raise e)"

fun reconcile_temps :: "rs_port \<Rightarrow> rat \<Rightarrow> bool \<Rightarrow> bool \<Rightarrow> string list \<Rightarrow> temp_file list \<Rightarrow> bool action" where
  "reconcile_temps p cutoff dry timed d [] = m_ret True"
| "reconcile_temps p cutoff dry timed d (x # xs) = m_then (stop_requested p timed) (\<lambda>stop. if stop then m_ret False
     else m_then (active_or_failed p d ''check_active_temp'') (\<lambda>active.
       if active then m_then (bump (\<lambda>s. s\<lparr>rc_active_skipped := rc_active_skipped s + 1\<rparr>)) (\<lambda>_. reconcile_temps p cutoff dry timed d xs)
       else m_then (bump (\<lambda>s. s\<lparr>rc_files_would_remove := rc_files_would_remove s + 1\<rparr>)) (\<lambda>_.
         if dry then reconcile_temps p cutoff dry timed d xs
         else m_then (active_or_failed p d ''recheck_active_temp'') (\<lambda>again.
           if again then m_then (bump (\<lambda>s. s\<lparr>rc_active_races := rc_active_races s + 1\<rparr>)) (\<lambda>_. reconcile_temps p cutoff dry timed d xs)
           else m_then (settle_removal ''remove_temp'' d (\<lambda>n s. s\<lparr>rc_files_removed := rc_files_removed s + n\<rparr>)
               (remove_temp_candidate p cutoff timed d x)) (\<lambda>go.
             if go then reconcile_temps p cutoff dry timed d xs else m_ret False)))))"

definition reconcile_orphan :: "rs_port \<Rightarrow> rat \<Rightarrow> bool \<Rightarrow> bool \<Rightarrow> run_candidate \<Rightarrow> bool action" where
  "reconcile_orphan p cutoff dry timed c =
     (if ca_recent c then m_then (bump (\<lambda>s. s\<lparr>rc_recent_skipped := rc_recent_skipped s + 1\<rparr>)) (\<lambda>_. m_ret True)
      else m_then (bump (\<lambda>s. s\<lparr>rc_orphans := rc_orphans s + 1\<rparr>)) (\<lambda>_.
        m_then (active_or_failed p (ca_dir c) ''check_active_run'') (\<lambda>active.
        if active then m_then (bump (\<lambda>s. s\<lparr>rc_active_skipped := rc_active_skipped s + 1\<rparr>)) (\<lambda>_. m_ret True)
        else m_then (bump (\<lambda>s. s\<lparr>rc_dirs_would_remove := rc_dirs_would_remove s + 1\<rparr>)) (\<lambda>_.
        if dry then m_ret True
        else m_then (metadata_references p (ca_dir c)) (\<lambda>referenced.
        if referenced then m_then (bump (\<lambda>s. s\<lparr>rc_metadata_races := rc_metadata_races s + 1\<rparr>)) (\<lambda>_. m_ret True)
        else m_then (active_or_failed p (ca_dir c) ''recheck_active_run'') (\<lambda>again.
        if again then m_then (bump (\<lambda>s. s\<lparr>rc_active_races := rc_active_races s + 1\<rparr>)) (\<lambda>_. m_ret True)
        else settle_removal ''remove_run'' (ca_dir c) (\<lambda>n s. s\<lparr>rc_dirs_removed := rc_dirs_removed s + n\<rparr>)
          (remove_run_candidate p cutoff timed c)))))))"

definition reconcile_scanned_entry :: "rs_port \<Rightarrow> rat \<Rightarrow> bool \<Rightarrow> bool \<Rightarrow> scanned_entry \<Rightarrow> bool action" where
  "reconcile_scanned_entry p cutoff dry timed entry = (case se_run entry of
       None \<Rightarrow> if \<not> dry \<and> snd (snd (se_cursor entry)) = []
         then m_then (r_io p S_prune unchanged (\<lambda>t. m_set (\<lambda>w. w\<lparr>rw_fs := prune_empty_namespace (filter (\<lambda>x. x \<noteq> []) (cursor_parts (se_cursor entry))) (rw_fs w)\<rparr>)))
           (\<lambda>_. m_ret True)
         else m_ret True
     | Some c \<Rightarrow> m_then (metadata_references p (ca_dir c)) (\<lambda>referenced.
         if referenced then reconcile_temps p cutoff dry timed (ca_dir c) (se_temps entry)
         else reconcile_orphan p cutoff dry timed c))"

section \<open>One page\<close>

definition load_cursors :: "rs_port \<Rightarrow> (int \<times> run_cursor option) action" where
  "load_cursors p = r_io p S_cursor unchanged (\<lambda>t w. (case rw_cursors w of
       None \<Rightarrow> Inl (R_runtime ''Result reconciliation cursor state is missing'') | Some c \<Rightarrow> Inr c, w))"

definition save_cursors :: "rs_port \<Rightarrow> int \<Rightarrow> run_cursor option \<Rightarrow> unit action" where
  "save_cursors p m c = r_io p S_cursor unchanged (\<lambda>t w. case rw_cursors w of
       None \<Rightarrow> (Inl (R_runtime ''Result reconciliation cursor state is missing''), w)
     | Some _ \<Rightarrow> (Inr (), w\<lparr>rw_cursors := Some (m, c)\<rparr>))"

definition rows_page :: "int \<Rightarrow> nat \<Rightarrow> result_row list \<Rightarrow> result_row list" where
  "rows_page cursor n rows = take n (sql_order rr_id (filter (\<lambda>r. rr_id r > cursor) rows))"

text \<open>The next metadata cursor, and whether the rows are exhausted.\<close>

definition metadata_page :: "rs_port \<Rightarrow> nat \<Rightarrow> int \<Rightarrow> (int \<times> bool) action" where
  "metadata_page p limit cursor = (if limit = 0 then m_ret (cursor, True)
     else m_then (stopped p) (\<lambda>stop. if stop then m_ret (cursor, False)
       else m_then (select p (rows_page cursor (limit + 1))) (\<lambda>fetched.
         let rows = take limit fetched in
         m_then (r_io p S_validate unchanged (\<lambda>t. validate_metadata_rows p rows)) (\<lambda>n.
         let exhausted = (length fetched \<le> limit \<and> n = length rows) in
         m_then (forget_unlisted_artifacts cursor (take n rows) exhausted) (\<lambda>_.
         m_ret (if exhausted then 0 else if n > 0 then rr_id (rows ! (n - 1)) else cursor, exhausted))))))"

text \<open>The first entry is finished even when the deadline has passed.\<close>

fun reconcile_entries :: "rs_port \<Rightarrow> rat \<Rightarrow> bool \<Rightarrow> bool \<Rightarrow> scanned_entry list \<Rightarrow> run_cursor option \<Rightarrow> (run_cursor option \<times> bool) action" where
  "reconcile_entries p cutoff dry later [] cursor = m_ret (cursor, True)"
| "reconcile_entries p cutoff dry later (e # es) cursor = m_then (stop_requested p later) (\<lambda>stop. if stop then m_ret (cursor, False)
     else m_then (reconcile_scanned_entry p cutoff dry later e) (\<lambda>completed.
       if \<not> completed then m_ret (cursor, False)
       else reconcile_entries p cutoff dry True es (Some (se_cursor e))))"

definition filesystem_page :: "rs_port \<Rightarrow> rat \<Rightarrow> bool \<Rightarrow> nat \<Rightarrow> run_cursor option \<Rightarrow> (run_cursor option \<times> bool) action" where
  "filesystem_page p cutoff dry limit cursor = (if limit = 0 then m_ret (cursor, True)
     else m_then (stopped p) (\<lambda>stop.
       m_then (if stop then m_ret ([], False) else r_io p S_scan unchanged (\<lambda>t. scan_artifacts p cutoff limit cursor)) (\<lambda>(entries, all_scanned).
       m_then (reconcile_entries p cutoff dry False entries cursor) (\<lambda>(next_cursor, all_done).
       m_ret (if all_scanned \<and> all_done then None else next_cursor, all_scanned \<and> all_done)))))"

record reconciliation_report =
  rt_dry_run :: bool
  rt_metadata_exhausted :: bool
  rt_filesystem_exhausted :: bool
  rt_state :: reconciliation_state

definition zero_state :: reconciliation_state where
  "zero_state = \<lparr>rc_rows_inspected = 0, rc_valid = 0, rc_missing = 0, rc_corrupt = 0, rc_unreadable = 0, rc_unsafe = 0, rc_entries_inspected = 0,
     rc_run_dirs_inspected = 0, rc_malformed = 0, rc_orphans = 0, rc_recent_skipped = 0, rc_active_skipped = 0, rc_metadata_races = 0, rc_active_races = 0,
     rc_stale_temps = 0, rc_dirs_would_remove = 0, rc_files_would_remove = 0, rc_dirs_removed = 0, rc_files_removed = 0, rc_removed_bytes = 0,
     rc_artifact_failures = [], rc_operation_failures = []\<rparr>"

definition reconcile_artifact_page :: "rs_port \<Rightarrow> rat \<Rightarrow> bool \<Rightarrow> nat \<Rightarrow> nat \<Rightarrow> reconciliation_report action" where
  "reconcile_artifact_page p cutoff dry metadata_limit filesystem_limit =
     m_then (m_set (\<lambda>w. w\<lparr>rw_rec := zero_state\<rparr>)) (\<lambda>_.
     m_then (load_cursors p) (\<lambda>(metadata_cursor, filesystem_cursor).
     m_then (metadata_page p metadata_limit metadata_cursor) (\<lambda>(next_metadata, metadata_exhausted).
     m_then (filesystem_page p cutoff dry filesystem_limit filesystem_cursor) (\<lambda>(next_filesystem, filesystem_exhausted).
     m_then (if metadata_limit > 0 \<or> filesystem_limit > 0 then save_cursors p next_metadata next_filesystem else m_ret ()) (\<lambda>_.
     m_get (\<lambda>w. \<lparr>rt_dry_run = dry, rt_metadata_exhausted = metadata_exhausted, rt_filesystem_exhausted = filesystem_exhausted, rt_state = rw_rec w\<rparr>))))))"

definition reconcile_artifacts :: "rs_port \<Rightarrow> int \<Rightarrow> bool \<Rightarrow> rat \<Rightarrow> int \<Rightarrow> int option \<Rightarrow> int option \<Rightarrow> reconciliation_report action" where
  "reconcile_artifacts p grace_seconds dry now batch_size metadata_scan_limit filesystem_scan_limit =
     (if grace_seconds < 1 then m_raise (R_value ''grace_seconds must be at least 1'')
      else if batch_size < 1 then m_raise (R_value ''result reconciliation batch_size must be positive'')
      else let metadata_limit = (case metadata_scan_limit of None \<Rightarrow> batch_size | Some n \<Rightarrow> n);
               filesystem_limit = (case filesystem_scan_limit of None \<Rightarrow> batch_size | Some n \<Rightarrow> n)
        in if metadata_limit < 0 \<or> filesystem_limit < 0 then m_raise (R_value ''result reconciliation scan limits must not be negative'')
           else reconcile_artifact_page p (now - of_int grace_seconds) dry (nat metadata_limit) (nat filesystem_limit))"

end
