(* ===== verification/Result_Safety.thy ===== *)
theory Result_Safety
  imports Result_Store Address_Text
begin

text \<open>
  Lemmas on the paths and files of the result store: a checked run directory has the components it was asked for, the text of a
  path is read back, and the file operations change no other file.
\<close>

section \<open>Paths\<close>

definition plain_part :: "string \<Rightarrow> bool" where
  "plain_part s \<longleftrightarrow> s \<noteq> [] \<and> s \<noteq> ''.'' \<and> s \<noteq> ''..'' \<and> CHR ''/'' \<notin> set s"

lemma safe_part_plain: "safe_path_part s = Inr t \<Longrightarrow> t = s \<and> plain_part s"
proof -
  assume h: "safe_path_part s = Inr t"
  have "strip [] = []" by code_simp
  then have "s \<noteq> []" using h by (auto simp: safe_path_part_def)
  then show ?thesis using h by (auto simp: safe_path_part_def plain_part_def split: if_splits)
qed

lemma split_on_snoc: "split_on c (s @ c # t) = split_on c s @ split_on c t"
proof (induction s)
  case (Cons x s)
  then show ?case by (cases "split_on c s") auto
qed simp

lemma path_parts_join: "path_parts (s @ ''/'' @ t) = path_parts s @ path_parts t"
  by (simp add: path_parts_def split_on_snoc)

lemma path_parts_Nil [simp]: "path_parts [] = []"
  by (simp add: path_parts_def)

lemma path_parts_plain: "plain_part s \<Longrightarrow> path_parts s = [s]"
  by (simp add: path_parts_def split_on_none plain_part_def)

lemma path_parts_joined: "list_all plain_part ps \<Longrightarrow> path_parts (join ''/'' ps) = ps"
proof (induction ps)
  case Nil
  then show ?case by (simp add: path_parts_def)
next
  case (Cons x xs)
  then show ?case using path_parts_join [of x "join ''/'' xs"] by (cases xs) (simp_all add: path_parts_plain)
qed

lemma path_parts_text: "list_all plain_part ps \<Longrightarrow> path_parts (path_text ps) = ps"
  using path_parts_join [of "[]" "join ''/'' ps"] path_parts_joined [of ps] by (simp add: path_text_def path_parts_def)

lemma collapse_plain: "''..'' \<notin> set ps \<Longrightarrow> collapse ps = ps"
proof -
  have "''..'' \<notin> set ps \<Longrightarrow> foldl (\<lambda>acc p. if p = ''..'' then butlast acc else acc @ [p]) acc ps = acc @ ps" for acc
    by (induction ps arbitrary: acc) auto
  then show "''..'' \<notin> set ps \<Longrightarrow> collapse ps = ps" by (simp add: collapse_def)
qed

lemma collapse_set: "set (collapse ps) \<subseteq> set ps - {''..''}"
proof -
  have "set (foldl (\<lambda>acc p. if p = ''..'' then butlast acc else acc @ [p]) acc ps) \<subseteq> set acc \<union> (set ps - {''..''})" for acc
  proof (induction ps arbitrary: acc)
    case (Cons x xs)
    show ?case using Cons [of "butlast acc"] Cons [of "acc @ [x]"] in_set_butlastD [of _ acc] by (cases "x = ''..''") (simp, blast, simp, blast)
  qed simp
  from this [of "[]"] show ?thesis by (simp add: collapse_def)
qed

lemma path_parts_ok: "x \<in> set (path_parts s) \<Longrightarrow> x \<noteq> [] \<and> x \<noteq> ''.'' \<and> CHR ''/'' \<notin> set x"
proof -
  have "CHR ''/'' \<notin> set x" if "x \<in> set (split_on CHR ''/'' s)" for x
    using that by (induction s arbitrary: x) (auto split: list.splits if_splits)
  then show "x \<in> set (path_parts s) \<Longrightarrow> x \<noteq> [] \<and> x \<noteq> ''.'' \<and> CHR ''/'' \<notin> set x" by (auto simp: path_parts_def)
qed

lemma abspath_plain: "list_all plain_part cwd \<Longrightarrow> list_all plain_part (snd (abspath cwd s))"
  using collapse_set [of "if starts_with ''/'' s then path_parts s else cwd @ path_parts s"] path_parts_ok [of _ s]
  by (fastforce simp: abspath_def list_all_iff plain_part_def)

lemma safe_join3:
  assumes "safe_join s [a, b, c] = Inr t"
  shows "t = (if s = [] then a else s @ ''/'' @ a) @ ''/'' @ b @ ''/'' @ c" and "list_all plain_part [a, b, c]"
  using assms by (auto simp: plain_part_def split: sum.splits if_splits dest!: safe_part_plain)

lemma checked_components:
  assumes "checked_run_dir p a b c f = Inr d"
  shows "d = [a, b, c]" and "list_all plain_part [a, b, c]"
proof -
  let ?s = "rp_results_dir p"
  obtain t where join: "safe_join ?s [a, b, c] = Inr t" and checked: "checked_dir p t f = Inr d"
    using assms by (auto simp: checked_run_dir_def split: sum.splits)
  note t = safe_join3 [OF join]
  show plain: "list_all plain_part [a, b, c]" by (rule t(2))
  have parts: "path_parts t = path_parts ?s @ [a, b, c]"
    unfolding t(1) path_parts_join using plain path_parts_join [of ?s a] by (cases "?s = []") (simp_all add: path_parts_plain)
  have dots: "''..'' \<notin> set (path_parts ?s)" using checked by (auto simp: checked_dir_def checked_result_dir_def parts split: if_splits)
  have slash: "starts_with ''/'' t = starts_with ''/'' ?s" using plain by (cases ?s; cases a) (auto simp: t(1) starts_with_def plain_part_def)
  have "snd (abspath (rp_cwd p) t) = snd (store_root p) @ [a, b, c]"
  proof -
    have "collapse (xs @ [a, b, c]) = collapse xs @ [a, b, c]" for xs
      using plain by (simp add: collapse_def plain_part_def)
    from this [of "path_parts ?s"] this [of "rp_cwd p @ path_parts ?s"] show ?thesis
      using slash by (simp add: abspath_def store_root_def parts)
  qed
  then show "d = [a, b, c]" using checked
    by (auto simp: checked_dir_def checked_result_dir_def Let_def split: if_splits prod.splits sum.splits)
qed

text \<open>The text of a run directory leads back to it.\<close>

lemma store_path_abspath:
  assumes "list_all plain_part (rp_cwd p)" and "list_all plain_part d"
  shows "abspath (rp_cwd p) (store_path p d) = (fst (store_root p), snd (store_root p) @ d)" and "''..'' \<notin> set (path_parts (store_path p d))"
proof -
  let ?ps = "snd (store_root p) @ d"
  have plain: "list_all plain_part ?ps" using abspath_plain [OF assms(1)] assms(2) by (simp add: store_root_def)
  have parts: "path_parts (store_path p d) = ?ps"
    using path_parts_text [OF plain] path_parts_join [of "[]" "path_text ?ps"] by (auto simp: store_path_def)
  have dots: "''..'' \<notin> set ?ps" using plain by (auto simp: list_all_iff plain_part_def)
  then show "''..'' \<notin> set (path_parts (store_path p d))" using parts by simp
  have "starts_with ''/'' (store_path p d)" by (simp add: store_path_def path_text_def starts_with_def)
  moreover have "double_root (store_path p d) = fst (store_root p)"
  proof -
    have "join ''/'' ?ps = [] \<or> hd (join ''/'' ?ps) \<noteq> CHR ''/''"
    proof (cases ?ps)
      case (Cons x xs)
      then have "plain_part x" using plain by simp
      then show ?thesis using Cons by (cases x; cases xs) (auto simp: plain_part_def)
    qed simp
    then show ?thesis by (cases "join ''/'' ?ps") (auto simp: double_root_def store_path_def path_text_def starts_with_def)
  qed
  ultimately show "abspath (rp_cwd p) (store_path p d) = (fst (store_root p), ?ps)"
    using collapse_plain [OF dots] parts by (simp add: abspath_def)
qed

lemma checked_store_path:
  assumes "list_all plain_part (rp_cwd p)" and "list_all plain_part d" and "length d = 3" and "\<not> list_ex (\<lambda>x. CHR 0x00 \<in> set x) d"
    and "first_error (map (link_on_path f d) [1, 2, 3]) = Inr ()"
  shows "checked_dir p (store_path p d) f = Inr d"
  using assms store_path_abspath [OF assms(1,2)]
  by (simp add: checked_dir_def checked_result_dir_def Let_def below_def result_run_dir_depth_def)

lemma checked_length: "checked_dir p s f = Inr d \<Longrightarrow> length d = 3"
  by (auto simp: checked_dir_def checked_result_dir_def Let_def result_run_dir_depth_def split: if_splits prod.splits sum.splits)

section \<open>Files\<close>

lemma map_of_fs_put [simp]: "map_of (fs_put q n f) r = (if r = q then Some n else map_of f r)"
proof -
  have "map_of (filter (\<lambda>(q', _). q' \<noteq> q) f) r = map_of f r" if "r \<noteq> q" using that by (induction f) auto
  then show ?thesis by (auto simp: fs_put_def)
qed

lemma map_of_filter_path: "map_of (filter (\<lambda>(q, _). P q) f) r = (if P r then map_of f r else None)"
  by (induction f) auto

lemma map_of_fs_drop [simp]: "map_of (fs_drop q f) r = (if r = q then None else map_of f r)"
  using map_of_filter_path [of "\<lambda>x. x \<noteq> q" f r] by (simp add: fs_drop_def)

definition wf_fs :: "fs \<Rightarrow> bool" where
  "wf_fs f \<longleftrightarrow> (\<forall>q n. map_of f q = Some n \<longrightarrow> (if q = [] then is_dir n else \<exists>t. map_of f (butlast q) = Some (Dir t)))"

definition dir_at :: "fs \<Rightarrow> string list \<Rightarrow> bool" where
  "dir_at f q \<longleftrightarrow> (\<exists>t. map_of f q = Some (Dir t))"

lemma wf_parent: "wf_fs f \<Longrightarrow> map_of f q = Some n \<Longrightarrow> q \<noteq> [] \<Longrightarrow> dir_at f (butlast q)"
  by (auto simp: wf_fs_def dir_at_def)

lemma wf_prefix_dir: "wf_fs f \<Longrightarrow> map_of f (take k q) \<noteq> None \<Longrightarrow> j < k \<Longrightarrow> k \<le> length q \<Longrightarrow> dir_at f (take j q)"
proof (induction k)
  case (Suc k)
  obtain n where "map_of f (take (Suc k) q) = Some n" using Suc.prems by blast
  moreover have "butlast (take (Suc k) q) = take k q" "take (Suc k) q \<noteq> []" using Suc.prems by (auto simp: butlast_take)
  ultimately have dir: "dir_at f (take k q)" using wf_parent [OF Suc.prems(1)] by metis
  show ?case
  proof (cases "j = k")
    case False
    then show ?thesis using Suc.IH [OF Suc.prems(1)] dir Suc.prems by (auto simp: dir_at_def)
  qed (simp add: dir)
qed simp

lemma lstat_present:
  assumes "wf_fs f" and "map_of f q = Some n"
  shows "lstat f q = Inr n"
proof -
  have "dir_at f (take k q)" if "k < length q" for k using wf_prefix_dir [OF assms(1), of "length q" q k] assms(2) that by simp
  then show ?thesis using assms(2) by (fastforce simp: lstat_def list_ex_iff dir_at_def)
qed

lemma lstat_absent:
  assumes "\<And>k. k < length q \<Longrightarrow> map_of f (take k q) = None \<or> dir_at f (take k q)" and "map_of f q = None"
  shows "lstat f q = Inl not_found"
  using assms by (fastforce simp: lstat_def list_ex_iff dir_at_def)

lemma lstat_Inr: "lstat f q = Inr n \<Longrightarrow> map_of f q = Some n"
  by (auto simp: lstat_def split: if_splits option.splits)

end
