(* ===== verification/Result_Save.thy ===== *)
theory Result_Save
  imports Result_Safety
begin

text \<open>
  Saving a result replaces the artifact and its row together, or neither, and a saved result is read back.

  \<^item> \<open>undisturbed\<close> is what the save lock and the reconciliation promise a save: other tasks neither touch the artifact and the row of
    the run, nor put anything but directories on the path to it.
\<close>

section \<open>The rules of awaited operations\<close>

lemma t_io:
  assumes "\<And>w. P w \<Longrightarrow> R (r_interfere p w)"
    and "\<And>t. triple (\<lambda>w. R w) (f t) Q F"
    and "\<And>t e w. R w \<Longrightarrow> rp_fault p l t = Some (Fails e) \<Longrightarrow> E e (part t w)"
    and "\<And>t e w x. F e w \<Longrightarrow> E e w"
    and "\<And>t e e' w. rp_fault p l t = Some (Finishes e) \<Longrightarrow> F e' w \<Longrightarrow> E e w"
    and "\<And>t e x w. rp_fault p l t = Some (Finishes e) \<Longrightarrow> Q x w \<Longrightarrow> E e w"
  shows "triple P (r_io p l part f) Q E"
proof (rule tripleI)
  fix w
  assume "P w"
  then have R: "R (r_interfere p w)" by (rule assms(1))
  let ?t = "rw_tick w"
  obtain r w' where run: "f ?t (r_interfere p w) = (r, w')" by force
  note post = t_run [OF assms(2) R run]
  show "case r_io p l part f w of (Inl e, w') \<Rightarrow> E e w' | (Inr x, w') \<Rightarrow> Q x w'"
  proof (cases "rp_fault p l ?t")
    case None
    then show ?thesis using post run assms(4) by (auto simp: r_io_def Let_def split: sum.splits)
  next
    case (Some fault)
    show ?thesis
    proof (cases fault)
      case (Fails e)
      then show ?thesis using Some assms(3) [OF R] by (simp add: r_io_def Let_def)
    next
      case (Finishes e)
      then show ?thesis using Some run post assms(5,6) by (auto simp: r_io_def Let_def split: sum.splits)
    qed
  qed
qed

lemma t_at_once:
  assumes "\<And>w n. P w \<Longrightarrow> P (w\<lparr>rw_tick := n\<rparr>)" and "triple P f Q F"
    and "\<And>t e w. P w \<Longrightarrow> rp_fault p l t = Some (Fails e) \<Longrightarrow> E e w" and "\<And>e w. F e w \<Longrightarrow> E e w"
    and "\<And>t e e' w. rp_fault p l t = Some (Finishes e) \<Longrightarrow> F e' w \<Longrightarrow> E e w"
    and "\<And>t e x w. rp_fault p l t = Some (Finishes e) \<Longrightarrow> Q x w \<Longrightarrow> E e w"
  shows "triple P (r_now p l f) Q E"
proof (rule tripleI)
  fix w
  assume "P w"
  let ?t = "rw_tick w"
  have P: "P (w\<lparr>rw_tick := Suc ?t\<rparr>)" by (rule assms(1) [OF \<open>P w\<close>])
  obtain r w' where run: "f (w\<lparr>rw_tick := Suc ?t\<rparr>) = (r, w')" by force
  note post = t_run [OF assms(2) P run]
  show "case r_now p l f w of (Inl e, w') \<Rightarrow> E e w' | (Inr x, w') \<Rightarrow> Q x w'"
    using post run assms(3) [OF P] assms(4,5,6)
    by (cases "rp_fault p l ?t"; simp add: r_now_def Let_def split: sum.splits rs_fault.splits) blast+
qed

lemma t_files:
  assumes "\<And>w x f. P w \<Longrightarrow> g (rw_fs w) = Inr (x, f) \<Longrightarrow> Q x (w\<lparr>rw_fs := f\<rparr>)" and "\<And>w e. P w \<Longrightarrow> g (rw_fs w) = Inl e \<Longrightarrow> E e w"
  shows "triple P (on_files g) Q E"
  using assms by (auto simp: triple_def on_files_def split: sum.splits prod.splits)

section \<open>The run that is saved\<close>

definition row_of :: "string \<Rightarrow> string \<Rightarrow> rs_world \<Rightarrow> result_row list" where
  "row_of jid rid w = filter (\<lambda>r. rr_job_id r = jid \<and> rr_run_id r = rid) (rw_rows w)"

definition content_at :: "fs \<Rightarrow> string list \<Rightarrow> string option" where
  "content_at f q = (case map_of f q of Some (Regular c _ _) \<Rightarrow> Some c | _ \<Rightarrow> None)"

text \<open>What may become of a node on the path to the artifact.\<close>

definition path_step :: "node option \<Rightarrow> node option \<Rightarrow> bool" where
  "path_step a b = (case a of
       None \<Rightarrow> (case b of None \<Rightarrow> True | Some n \<Rightarrow> is_dir n)
     | Some n \<Rightarrow> if is_dir n then (case b of None \<Rightarrow> False | Some m \<Rightarrow> is_dir m) else b = a)"

definition keeps_save :: "string list \<Rightarrow> string \<Rightarrow> string \<Rightarrow> rs_world \<Rightarrow> rs_world \<Rightarrow> bool" where
  "keeps_save d jid rid w w' \<longleftrightarrow> (wf_fs (rw_fs w) \<longrightarrow> wf_fs (rw_fs w')) \<and> row_of jid rid w' = row_of jid rid w
     \<and> map_of (rw_fs w') (artifact d) = map_of (rw_fs w) (artifact d)
     \<and> list_all (\<lambda>k. path_step (map_of (rw_fs w) (take k d)) (map_of (rw_fs w') (take k d))) [0, 1, 2, 3]"

definition undisturbed :: "rs_port \<Rightarrow> string list \<Rightarrow> string \<Rightarrow> string \<Rightarrow> bool" where
  "undisturbed p d jid rid \<longleftrightarrow> (\<forall>n w. keeps_save d jid rid w (rp_env p n w))"

text \<open>The lookup of the job answers with one project and name.\<close>

definition looked_up :: "rs_port \<Rightarrow> string \<Rightarrow> string \<Rightarrow> string \<Rightarrow> bool" where
  "looked_up p jid proj nm \<longleftrightarrow> (\<forall>t x. rp_job_lookup p t jid = Inr x \<longrightarrow> x = (proj, nm))"

text \<open>
  The restoration is not prevented, a commit that reports an error has not taken effect, and a file that exists is not reported
  missing.
\<close>

definition restorable :: "rs_port \<Rightarrow> bool" where
  "restorable p \<longleftrightarrow> (\<forall>t e. rp_fault p S_unlink t \<noteq> Some (Fails e) \<and> rp_fault p S_restore t \<noteq> Some (Fails e) \<and> rp_fault p S_commit t \<noteq> Some (Finishes e)
     \<and> rp_fault p S_previous t \<notin> {Some (Fails not_found), Some (Finishes not_found)})"

lemma restorableD:
  assumes "restorable p"
  shows "rp_fault p S_unlink t \<noteq> Some (Fails e)" and "rp_fault p S_restore t \<noteq> Some (Fails e)" and "rp_fault p S_commit t \<noteq> Some (Finishes e)"
    and "rp_fault p S_previous t \<noteq> Some (Fails not_found)" and "rp_fault p S_previous t \<noteq> Some (Finishes not_found)"
  using assms by (auto simp: restorable_def)

section \<open>The operations keep the tree well formed\<close>

lemma wf_fsI: "(\<And>n. map_of f [] = Some n \<Longrightarrow> is_dir n) \<Longrightarrow> (\<And>q n. map_of f q = Some n \<Longrightarrow> q \<noteq> [] \<Longrightarrow> dir_at f (butlast q)) \<Longrightarrow> wf_fs f"
  unfolding wf_fs_def dir_at_def by auto

lemma wf_top: "wf_fs f \<Longrightarrow> map_of f [] = Some n \<Longrightarrow> is_dir n"
  unfolding wf_fs_def by (metis (full_types))

lemma dir_at_put [simp]: "dir_at (fs_put q n f) r \<longleftrightarrow> (if r = q then is_dir n else dir_at f r)"
  by (auto simp: dir_at_def is_dir_def split: node.splits)

lemma dir_at_drop [simp]: "dir_at (fs_drop q f) r \<longleftrightarrow> r \<noteq> q \<and> dir_at f r"
  by (auto simp: dir_at_def)

lemma is_dir_Dir [simp]: "is_dir (Dir t)" "\<not> is_dir (Regular c i t)" "\<not> is_dir (Link t)"
  by (simp_all add: is_dir_def)

lemma wf_put_dir: "wf_fs f \<Longrightarrow> (q \<noteq> [] \<Longrightarrow> dir_at f (butlast q)) \<Longrightarrow> wf_fs (fs_put q (Dir t) f)"
  by (rule wf_fsI) (auto split: if_splits dest: wf_top wf_parent)

lemma wf_put_file: "wf_fs f \<Longrightarrow> q \<noteq> [] \<Longrightarrow> dir_at f (butlast q) \<Longrightarrow> \<not> dir_at f q \<Longrightarrow> wf_fs (fs_put q (Regular c i t) f)"
  by (rule wf_fsI) (auto split: if_splits dest: wf_top wf_parent)

lemma wf_drop_file: "wf_fs f \<Longrightarrow> (\<And>r. map_of f r \<noteq> None \<Longrightarrow> r \<noteq> [] \<Longrightarrow> butlast r \<noteq> q) \<Longrightarrow> wf_fs (fs_drop q f)"
  by (rule wf_fsI) (auto split: if_splits dest: wf_top wf_parent)

lemma wf_drop_leaf: "wf_fs f \<Longrightarrow> \<not> dir_at f q \<Longrightarrow> wf_fs (fs_drop q f)"
  by (rule wf_drop_file) (auto dest: wf_parent)

lemma children_none: "children f d = [] \<Longrightarrow> map_of f r \<noteq> None \<Longrightarrow> r \<noteq> [] \<Longrightarrow> butlast r \<noteq> d"
  by (auto simp: children_def filter_empty_conv dest!: map_of_SomeD)

lemma wf_remove_empty: "wf_fs f \<Longrightarrow> wf_fs (remove_empty d f)"
  using wf_drop_file [of f d] children_none [of f d] by (auto simp: remove_empty_def split: sum.splits node.splits)

lemma remove_empty_keeps: "q \<noteq> d \<Longrightarrow> map_of (remove_empty d f) q = map_of f q"
  by (auto simp: remove_empty_def split: sum.splits node.splits)

section \<open>Making the run directory\<close>

definition open_path :: "fs \<Rightarrow> string list \<Rightarrow> bool" where
  "open_path f d \<longleftrightarrow> (\<forall>k < length d. map_of f (take k d) = None \<or> dir_at f (take k d))"

lemma take_eq_iff: "j \<le> length d \<Longrightarrow> k \<le> length d \<Longrightarrow> take j d = take k d \<longleftrightarrow> j = k"
  by (metis length_take min.absorb2)

lemma make_dirs_result:
  assumes "wf_fs f" and "open_path f d" and "map_of f d = None"
  shows "wf_fs (make_dirs d t f) \<and> (\<forall>k \<le> length d. dir_at (make_dirs d t f) (take k d)) \<and> (\<forall>q. (\<forall>k \<le> length d. q \<noteq> take k d) \<longrightarrow> map_of (make_dirs d t f) q = map_of f q)"
proof -
  let ?g = "\<lambda>n. foldl (\<lambda>g k. if map_of g (take k d) = None then fs_put (take k d) (Dir t) g else g) f [0..<n]"
  have "n \<le> Suc (length d) \<Longrightarrow> wf_fs (?g n) \<and> (\<forall>k < n. dir_at (?g n) (take k d))
      \<and> (\<forall>k. n \<le> k \<longrightarrow> k \<le> length d \<longrightarrow> map_of (?g n) (take k d) = map_of f (take k d)) \<and> (\<forall>q. (\<forall>k \<le> length d. q \<noteq> take k d) \<longrightarrow> map_of (?g n) q = map_of f q)" for n
  proof (induction n)
    case (Suc n)
    let ?h = "?g n"
    have ih: "wf_fs ?h" "\<And>k. k < n \<Longrightarrow> dir_at ?h (take k d)" "\<And>k. n \<le> k \<Longrightarrow> k \<le> length d \<Longrightarrow> map_of ?h (take k d) = map_of f (take k d)"
      "\<And>q. (\<forall>k \<le> length d. q \<noteq> take k d) \<Longrightarrow> map_of ?h q = map_of f q" using Suc by auto
    have n: "n \<le> length d" using Suc.prems by simp
    have new: "map_of ?h (take n d) = None \<or> dir_at ?h (take n d)"
    proof (cases "n = length d")
      case False
      then show ?thesis using assms(2) ih(3) [of n] n by (simp add: open_path_def dir_at_def)
    qed (use ih(3) [of n] assms(3) in simp)
    have step: "?g (Suc n) = (if map_of ?h (take n d) = None then fs_put (take n d) (Dir t) ?h else ?h)" by simp
    have wf: "wf_fs (fs_put (take n d) (Dir t) ?h)"
    proof (rule wf_put_dir [OF ih(1)])
      have "butlast (take n d) = take (n - 1) d" using n by (simp add: butlast_take)
      then show "dir_at ?h (butlast (take n d))" if "take n d \<noteq> []" using ih(2) [of "n - 1"] n that by (cases n) auto
    qed
    have dirs: "dir_at (?g (Suc n)) (take k d)" if "k < Suc n" for k
    proof (cases "k = n")
      case True
      then show ?thesis using new step by (auto simp: dir_at_def)
    next
      case False
      then show ?thesis using that ih(2) [of k] step by (auto simp: dir_at_def)
    qed
    show ?case
      using wf dirs ih step n by (auto simp: take_eq_iff)
  qed (use assms in simp)
  from this [of "Suc (length d)"] show ?thesis by (simp add: make_dirs_def less_Suc_eq_le)
qed

lemma ensure_directory_result:
  assumes "wf_fs f" and "\<And>k. k \<le> length d \<Longrightarrow> \<not> (\<exists>t. map_of f (take k d) = Some (Link t))" and "ensure_directory d t f = Inr g"
  shows "wf_fs g" and "k \<le> length d \<Longrightarrow> dir_at g (take k d)" and "(\<And>k. k \<le> length d \<Longrightarrow> q \<noteq> take k d) \<Longrightarrow> map_of g q = map_of f q"
proof -
  have "wf_fs g \<and> (\<forall>k \<le> length d. dir_at g (take k d)) \<and> (\<forall>q. (\<forall>k \<le> length d. q \<noteq> take k d) \<longrightarrow> map_of g q = map_of f q)"
  proof (cases "lstat f d")
    case (Inr n)
    then have "g = f" "is_dir n" "map_of f d = Some n" using assms(3) lstat_Inr by (auto simp: ensure_directory_def split: if_splits)
    moreover from this have "dir_at f (take k d)" if "k \<le> length d" for k
      using that wf_prefix_dir [OF assms(1), of "length d" d k] by (cases "k = length d") (auto simp: dir_at_def is_dir_def split: node.splits)
    ultimately show ?thesis using assms(1) by simp
  next
    case (Inl e)
    then have nf: "lstat f d = Inl not_found" "g = make_dirs d t f" using assms(3) by (auto simp: ensure_directory_def split: if_splits)
    have none: "map_of f d = None" using nf(1) by (auto simp: lstat_def not_found_def split: if_splits option.splits)
    have "map_of f (take k d) = None \<or> dir_at f (take k d)" if "k < length d" for k
    proof -
      have "\<not> list_ex (\<lambda>k. case map_of f (take k d) of Some (Regular _ _ _) \<Rightarrow> True | _ \<Rightarrow> False) [0..<length d]"
        using nf(1) by (auto simp: lstat_def not_found_def split: if_splits)
      then have "\<not> (case map_of f (take k d) of Some (Regular _ _ _) \<Rightarrow> True | _ \<Rightarrow> False)" using that by (auto simp: list_ex_iff)
      then show ?thesis using assms(2) [of k] that by (auto simp: dir_at_def split: option.splits node.splits)
    qed
    then show ?thesis using make_dirs_result [OF assms(1) _ none] nf(2) by (simp add: open_path_def)
  qed
  then show "wf_fs g" "k \<le> length d \<Longrightarrow> dir_at g (take k d)" "(\<And>k. k \<le> length d \<Longrightarrow> q \<noteq> take k d) \<Longrightarrow> map_of g q = map_of f q" by blast+
qed

section \<open>Assertions on the way of a save\<close>

text \<open>
  \<open>before d jid rid c r\<close>: the artifact has the content \<open>c\<close> and the run the rows \<open>r\<close>, and no link is on the path;
  \<open>ready\<close>: in addition, the run directory exists and the artifact is a file or absent.
\<close>

definition no_links :: "fs \<Rightarrow> string list \<Rightarrow> bool" where
  "no_links f d \<longleftrightarrow> (\<forall>k \<le> 3. \<not> (\<exists>t. map_of f (take k d) = Some (Link t)))"

definition before :: "string list \<Rightarrow> string \<Rightarrow> string \<Rightarrow> string option \<Rightarrow> result_row list \<Rightarrow> rs_world \<Rightarrow> bool" where
  "before d jid rid c r w \<longleftrightarrow> wf_fs (rw_fs w) \<and> no_links (rw_fs w) d \<and> content_at (rw_fs w) (artifact d) = c \<and> row_of jid rid w = r"

definition dirs_made :: "fs \<Rightarrow> string list \<Rightarrow> bool" where
  "dirs_made f d \<longleftrightarrow> (\<forall>k \<le> 3. dir_at f (take k d))"

definition ready :: "string list \<Rightarrow> string \<Rightarrow> string \<Rightarrow> result_row list \<Rightarrow> rs_world \<Rightarrow> bool" where
  "ready d jid rid r w \<longleftrightarrow> wf_fs (rw_fs w) \<and> dirs_made (rw_fs w) d \<and> row_of jid rid w = r
     \<and> (map_of (rw_fs w) (artifact d) = None \<or> content_at (rw_fs w) (artifact d) \<noteq> None)"

lemma artifact_path: "length d = 3 \<Longrightarrow> k \<le> 3 \<Longrightarrow> artifact d \<noteq> take k d" "artifact d \<noteq> []" "butlast (artifact d) = d" "artifact d \<noteq> d"
  by (auto simp: artifact_def dest: arg_cong [where f = length])

lemma keeps_nodes:
  assumes "keeps_save d jid rid w w'" and "k \<le> 3"
  shows "path_step (map_of (rw_fs w) (take k d)) (map_of (rw_fs w') (take k d))"
  using assms by (auto simp: keeps_save_def le_Suc_eq numeral_3_eq_3 numeral_2_eq_2)

lemma path_step_dir: "path_step a b \<Longrightarrow> a = Some (Dir t) \<Longrightarrow> \<exists>t. b = Some (Dir t)"
  by (auto simp: path_step_def is_dir_def split: option.splits node.splits)

lemma path_step_link: "path_step a b \<Longrightarrow> b = Some (Link t) \<Longrightarrow> a = Some (Link t)"
  by (auto simp: path_step_def is_dir_def split: option.splits node.splits if_splits)

lemma before_keeps:
  assumes "before d jid rid c r w" and "keeps_save d jid rid w w'"
  shows "before d jid rid c r (w'\<lparr>rw_tick := n\<rparr>)"
proof -
  have "no_links (rw_fs w') d"
    unfolding no_links_def using assms(1) path_step_link keeps_nodes [OF assms(2)] unfolding before_def no_links_def by metis
  then show ?thesis using assms by (simp add: before_def keeps_save_def content_at_def row_of_def)
qed

lemma ready_keeps:
  assumes "ready d jid rid r w" and "keeps_save d jid rid w w'"
  shows "ready d jid rid r (w'\<lparr>rw_tick := n\<rparr>)"
proof -
  have "dirs_made (rw_fs w') d"
    unfolding dirs_made_def dir_at_def using assms(1) path_step_dir keeps_nodes [OF assms(2)] unfolding ready_def dirs_made_def dir_at_def by metis
  then show ?thesis using assms by (simp add: ready_def keeps_save_def content_at_def row_of_def)
qed

lemma content_keeps: "keeps_save d jid rid w w' \<Longrightarrow> content_at (rw_fs (w'\<lparr>rw_tick := n\<rparr>)) (artifact d) = content_at (rw_fs w) (artifact d)"
  by (simp add: keeps_save_def content_at_def)

lemma tick_irrelevant [simp]:
  "before d jid rid c r (w\<lparr>rw_tick := n\<rparr>) = before d jid rid c r w" "ready d jid rid r (w\<lparr>rw_tick := n\<rparr>) = ready d jid rid r w"
  "row_of jid rid (w\<lparr>rw_tick := n\<rparr>) = row_of jid rid w" "row_of jid rid (w\<lparr>rw_fs := f\<rparr>) = row_of jid rid w"
  by (simp_all add: before_def ready_def row_of_def)

lemma env_before: "undisturbed p d jid rid \<Longrightarrow> before d jid rid c r w \<Longrightarrow> before d jid rid c r (r_interfere p w)"
  unfolding r_interfere_def undisturbed_def using before_keeps by blast

lemma env_dirs:
  assumes "undisturbed p d jid rid" and "dirs_made (rw_fs w) d"
  shows "dirs_made (rw_fs (r_interfere p w)) d"
  unfolding dirs_made_def
proof (intro allI impI)
  fix k :: nat
  assume "k \<le> 3"
  moreover have "keeps_save d jid rid w (rp_env p (rw_tick w) w)" using assms(1) by (auto simp: undisturbed_def)
  ultimately have "path_step (map_of (rw_fs w) (take k d)) (map_of (rw_fs (r_interfere p w)) (take k d))"
    using keeps_nodes by (simp add: r_interfere_def)
  then show "dir_at (rw_fs (r_interfere p w)) (take k d)" using path_step_dir assms(2) \<open>k \<le> 3\<close> by (auto simp: dirs_made_def dir_at_def)
qed

lemma env_ready:
  assumes "undisturbed p d jid rid" and "ready d jid rid r w"
  shows "ready d jid rid r (r_interfere p w)" and "content_at (rw_fs (r_interfere p w)) (artifact d) = content_at (rw_fs w) (artifact d)"
proof -
  have k: "keeps_save d jid rid w (rp_env p (rw_tick w) w)" using assms(1) by (auto simp: undisturbed_def)
  show "ready d jid rid r (r_interfere p w)" unfolding r_interfere_def by (rule ready_keeps [OF assms(2) k])
  show "content_at (rw_fs (r_interfere p w)) (artifact d) = content_at (rw_fs w) (artifact d)"
    unfolding r_interfere_def by (rule content_keeps [OF k])
qed

lemma ready_lstat:
  assumes "ready d jid rid r w" and "length d = 3"
  shows "lstat (rw_fs w) (artifact d) = (case map_of (rw_fs w) (artifact d) of None \<Rightarrow> Inl not_found | Some n \<Rightarrow> Inr n)"
proof (cases "map_of (rw_fs w) (artifact d)")
  case None
  have "dir_at (rw_fs w) (take k (artifact d))" if "k < length (artifact d)" for k
    using that assms by (auto simp: ready_def dirs_made_def artifact_def)
  then show ?thesis using None lstat_absent [of "artifact d" "rw_fs w"] by auto
next
  case (Some n)
  then show ?thesis using lstat_present assms(1) by (auto simp: ready_def)
qed

lemma ready_write:
  assumes "ready d jid rid r w" and "length d = 3" and "write_file (artifact d) s i t (rw_fs w) = Inr g"
  shows "ready d jid rid r (w\<lparr>rw_fs := g\<rparr>)" and "content_at g (artifact d) = Some s"
proof -
  let ?f = "rw_fs w"
  have wf: "wf_fs ?f" and dirs: "\<And>k. k \<le> 3 \<Longrightarrow> dir_at ?f (take k d)" using assms(1) by (auto simp: ready_def dirs_made_def)
  have d: "dir_at ?f d" using dirs [of 3] assms(2) by simp
  have nd: "\<not> dir_at ?f (artifact d)" using assms(1) by (auto simp: ready_def dir_at_def content_at_def)
  have g: "g = fs_put (artifact d) (Regular s i t) (fs_put d (Dir t) ?f)"
    using assms(3) by (auto simp: write_file_def artifact_path split: sum.splits if_splits)
  have "dir_at ?f (butlast d)" if "d \<noteq> []" using d wf_parent [OF wf _ that] by (auto simp: dir_at_def)
  then have "wf_fs (fs_put d (Dir t) ?f)" by (intro wf_put_dir wf)
  then have "wf_fs g" unfolding g using nd artifact_path by (intro wf_put_file) (auto simp: artifact_path(4))
  moreover have "dir_at g (take k d)" if "k \<le> 3" for k
    using dirs [OF that] artifact_path(1) [OF assms(2) that] by (auto simp: g)
  moreover show "content_at g (artifact d) = Some s" by (simp add: g content_at_def)
  ultimately show "ready d jid rid r (w\<lparr>rw_fs := g\<rparr>)" using assms(1) by (auto simp: ready_def dirs_made_def)
qed

lemma ready_write_succeeds: "ready d jid rid r w \<Longrightarrow> length d = 3 \<Longrightarrow> \<exists>g. write_file (artifact d) s i t (rw_fs w) = Inr g"
proof -
  assume h: "ready d jid rid r w" "length d = 3"
  obtain u where "map_of (rw_fs w) d = Some (Dir u)" using h by (auto simp: ready_def dirs_made_def dir_at_def)
  then have "lstat (rw_fs w) d = Inr (Dir u)" using lstat_present h(1) by (auto simp: ready_def)
  moreover have "\<not> (case map_of (rw_fs w) (artifact d) of Some n \<Rightarrow> is_dir n | None \<Rightarrow> False)"
    using h(1) by (auto simp: ready_def content_at_def is_dir_def split: option.splits node.splits)
  ultimately show ?thesis by (simp add: write_file_def artifact_path)
qed

definition saved :: "rs_port \<Rightarrow> string list \<Rightarrow> string \<Rightarrow> string \<Rightarrow> string \<Rightarrow> string \<Rightarrow> doc \<Rightarrow> rs_world \<Rightarrow> bool" where
  "saved p d jid proj rid outcome data w \<longleftrightarrow> (\<exists>r. ready d jid rid [r] w \<and> rr_project r = proj \<and> rr_status r = outcome \<and> rr_file_path r = store_path p d)
     \<and> content_at (rw_fs w) (artifact d) = Some (compact_json_bytes data)"

definition as_before :: "string list \<Rightarrow> string \<Rightarrow> string \<Rightarrow> string option \<Rightarrow> result_row list \<Rightarrow> rs_world \<Rightarrow> bool" where
  "as_before d jid rid c r w \<longleftrightarrow> content_at (rw_fs w) (artifact d) = c \<and> row_of jid rid w = r"

lemma before_as_before: "before d jid rid c r w \<Longrightarrow> as_before d jid rid c r w"
  by (simp add: before_def as_before_def)

section \<open>The statements of a save\<close>

lemma t_mkdir:
  assumes "undisturbed p d jid rid" and "length d = 3"
  shows "triple (before d jid rid c r) (r_io p S_mkdir unchanged (\<lambda>t. on_files (\<lambda>f. case ensure_directory d (rp_mtime p t) f of Inl e \<Rightarrow> Inl e | Inr g \<Rightarrow> Inr ((), g))))
    (\<lambda>_ w. before d jid rid c r w \<and> dirs_made (rw_fs w) d) (\<lambda>_. before d jid rid c r)"
proof (rule t_io [where R = "before d jid rid c r" and F = "\<lambda>_. before d jid rid c r"])
  show "triple (before d jid rid c r) (on_files (\<lambda>f. case ensure_directory d (rp_mtime p t) f of Inl e \<Rightarrow> Inl e | Inr g \<Rightarrow> Inr ((), g)))
    (\<lambda>_ w. before d jid rid c r w \<and> dirs_made (rw_fs w) d) (\<lambda>_. before d jid rid c r)" for t
  proof (rule t_files)
    fix w x g
    assume h: "before d jid rid c r w" "(case ensure_directory d (rp_mtime p t) (rw_fs w) of Inl e \<Rightarrow> Inl e | Inr g \<Rightarrow> Inr ((), g)) = Inr (x, g)"
    have made: "ensure_directory d (rp_mtime p t) (rw_fs w) = Inr g" using h(2) by (auto split: sum.splits)
    have links: "\<not> (\<exists>t. map_of (rw_fs w) (take k d) = Some (Link t))" if "k \<le> length d" for k using h(1) that assms(2) by (auto simp: before_def no_links_def)
    have wf: "wf_fs (rw_fs w)" using h(1) by (simp add: before_def)
    note e = ensure_directory_result [OF wf links made]
    have dirs: "dirs_made g d" using e(2) assms(2) by (simp add: dirs_made_def)
    then have "no_links g d" by (auto simp: no_links_def dirs_made_def dir_at_def)
    moreover have "map_of g (artifact d) = map_of (rw_fs w) (artifact d)" by (rule e(3)) (use artifact_path(1) assms(2) in auto)
    ultimately show "before d jid rid c r (w\<lparr>rw_fs := g\<rparr>) \<and> dirs_made (rw_fs (w\<lparr>rw_fs := g\<rparr>)) d"
      using h(1) e(1) dirs by (simp add: before_def content_at_def)
  qed simp
qed (use env_before [OF assms(1)] in \<open>auto simp: unchanged_def\<close>)

lemma t_previous:
  assumes "undisturbed p d jid rid" and "length d = 3" and "restorable p"
  shows "triple (\<lambda>w. before d jid rid c r w \<and> dirs_made (rw_fs w) d) (read_previous p d)
    (\<lambda>previous w. before d jid rid c r w \<and> previous = c \<and> ready d jid rid r w \<and> content_at (rw_fs w) (artifact d) = c) (\<lambda>_. before d jid rid c r)"
  unfolding read_previous_def
proof (rule t_try)
  let ?P = "\<lambda>w. before d jid rid c r w \<and> dirs_made (rw_fs w) d"
  let ?Q = "\<lambda>previous w. before d jid rid c r w \<and> previous = c \<and> ready d jid rid r w \<and> content_at (rw_fs w) (artifact d) = c"
  let ?F = "\<lambda>e w. before d jid rid c r w \<and> (e = not_found \<longrightarrow> ?Q None w)"
  show "triple ?P (r_io p S_previous unchanged (\<lambda>t w. (case read_bytes_file_no_follow (artifact d) None (rw_fs w) of Inl e \<Rightarrow> Inl e | Inr s \<Rightarrow> Inr (Some s), w))) 
      (\<lambda>x w. ?Q x w) ?F"
  proof (rule t_io [where R = ?P and F = ?F])
    fix w
    assume h: "?P w"
    then show "?P (r_interfere p w)" using env_before [OF assms(1)] env_dirs [OF assms(1)] by simp
  next
    fix t
    show "triple ?P (\<lambda>w. (case read_bytes_file_no_follow (artifact d) None (rw_fs w) of Inl e \<Rightarrow> Inl e | Inr s \<Rightarrow> Inr (Some s), w)) (\<lambda>x w. ?Q x w) ?F"
    proof (rule tripleI)
      fix w
      assume h: "?P w"
      let ?n = "map_of (rw_fs w) (artifact d)"
      have ready: "ready d jid rid r w" if "?n = None \<or> (\<exists>s i m. ?n = Some (Regular s i m))"
        using h that by (auto simp: ready_def before_def content_at_def)
      have wf: "wf_fs (rw_fs w)" using h by (simp add: before_def)
      have c: "content_at (rw_fs w) (artifact d) = c" using h by (simp add: before_def)
      have "lstat (rw_fs w) (artifact d) = Inr n" if "?n = Some n" for n using lstat_present [OF wf that] .
      moreover have "lstat (rw_fs w) (artifact d) = Inl not_found" if "?n = None" using ready_lstat [OF ready assms(2)] that by simp
      ultimately show "case (case read_bytes_file_no_follow (artifact d) None (rw_fs w) of Inl e \<Rightarrow> Inl e | Inr s \<Rightarrow> Inr (Some s), w) of
          (Inl e, w') \<Rightarrow> ?F e w' | (Inr x, w') \<Rightarrow> ?Q x w'"
        using h ready c by (cases ?n) (auto simp: read_bytes_file_no_follow_def content_at_def not_found_def split: node.splits)
    qed
  qed (use restorableD(4,5) [OF assms(3)] in \<open>auto simp: unchanged_def\<close>)
  show "triple (?F e) (if e = not_found then m_ret None else m_raise e) (\<lambda>x w. ?Q x w) (\<lambda>_. before d jid rid c r)" for e
    by (auto intro: t_ret t_raise)
qed

lemma bounded_chunks_total: "bounded_chunks limit n cs = Inr m \<Longrightarrow> n \<le> limit \<Longrightarrow> m = n + int (length (concat cs)) \<and> m \<le> limit"
  by (induction limit n cs rule: bounded_chunks.induct) (auto split: if_splits)

lemma write_json_result:
  assumes "write_json_file_bounded q data limit i t f = Inr (n, g)"
  shows "write_file q (compact_json_bytes data) i t f = Inr g" and "int (length (compact_json_bytes data)) \<le> limit"
  using assms bounded_chunks_total [of limit 0 "iter_json_bytes json_string data"]
  by (auto simp: write_json_file_bounded_def compact_json_bytes_def split: if_splits sum.splits)

lemma t_write:
  assumes "undisturbed p d jid rid" and "length d = 3"
  shows "triple (ready d jid rid r) (r_io p S_write unchanged (\<lambda>t. on_files (write_json_file_bounded (artifact d) data limit (rp_ident p t) (rp_mtime p t))))
    (\<lambda>_ w. ready d jid rid r w \<and> content_at (rw_fs w) (artifact d) = Some (compact_json_bytes data) \<and> int (length (compact_json_bytes data)) \<le> limit)
    (\<lambda>_. ready d jid rid r)"
proof (rule t_io [where R = "ready d jid rid r" and F = "\<lambda>_. ready d jid rid r"])
  show "triple (ready d jid rid r) (on_files (write_json_file_bounded (artifact d) data limit (rp_ident p t) (rp_mtime p t)))
    (\<lambda>_ w. ready d jid rid r w \<and> content_at (rw_fs w) (artifact d) = Some (compact_json_bytes data) \<and> int (length (compact_json_bytes data)) \<le> limit)
    (\<lambda>_. ready d jid rid r)" for t
  proof (rule t_files)
    fix w n g
    assume h: "ready d jid rid r w" "write_json_file_bounded (artifact d) data limit (rp_ident p t) (rp_mtime p t) (rw_fs w) = Inr (n, g)"
    show "ready d jid rid r (w\<lparr>rw_fs := g\<rparr>) \<and> content_at (rw_fs (w\<lparr>rw_fs := g\<rparr>)) (artifact d) = Some (compact_json_bytes data)
        \<and> int (length (compact_json_bytes data)) \<le> limit"
      using ready_write [OF h(1) assms(2) write_json_result(1) [OF h(2)]] write_json_result(2) [OF h(2)] by simp
  qed
qed (use env_ready(1) [OF assms(1)] in \<open>auto simp: unchanged_def\<close>)

lemma t_budget: "(\<And>w n. P (w\<lparr>rw_tick := n\<rparr>) = P w) \<Longrightarrow> triple P (check_budget p b) (\<lambda>_. P) (\<lambda>_. P)"
  unfolding check_budget_def by (cases b) (auto intro!: t_ret t_at_once [where F = "\<lambda>_. P"])

lemma row_of_replace:
  "rr_job_id x = jid \<Longrightarrow> rr_run_id x = rid \<Longrightarrow> row_of jid rid (replace_row x w) = [x\<lparr>rr_id := rw_next_id w\<rparr>]"
  by (auto simp: row_of_def replace_row_def sql_delete_def)

lemma t_commit:
  assumes "undisturbed p d jid rid" and "restorable p"
  shows "triple (\<lambda>w. ready d jid rid r w \<and> content_at (rw_fs w) (artifact d) = Some (compact_json_bytes data))
    (r_io p S_commit unchanged (insert_row p jid proj rid outcome count d)) (\<lambda>_. saved p d jid proj rid outcome data) (\<lambda>_. ready d jid rid r)"
proof (rule t_io [where R = "\<lambda>w. ready d jid rid r w \<and> content_at (rw_fs w) (artifact d) = Some (compact_json_bytes data)" and F = "\<lambda>_ _. False"])
  show "triple (\<lambda>w. ready d jid rid r w \<and> content_at (rw_fs w) (artifact d) = Some (compact_json_bytes data)) (insert_row p jid proj rid outcome count d t)
    (\<lambda>_. saved p d jid proj rid outcome data) (\<lambda>_ _. False)" for t
    unfolding insert_row_def
  proof (rule t_set)
    fix w
    let ?x = "\<lparr>rr_id = 0, rr_job_id = jid, rr_project = proj, rr_run_id = rid, rr_status = outcome, rr_record_count = count, rr_file_path = store_path p d,
        rr_created_at = rp_now p t\<rparr>"
    assume h: "ready d jid rid r w \<and> content_at (rw_fs w) (artifact d) = Some (compact_json_bytes data)"
    have "row_of jid rid (replace_row ?x w) = [?x\<lparr>rr_id := rw_next_id w\<rparr>]" by (rule row_of_replace) simp_all
    moreover have "rw_fs (replace_row ?x w) = rw_fs w" by (simp add: replace_row_def)
    ultimately show "saved p d jid proj rid outcome data (replace_row ?x w)"
      using h unfolding saved_def ready_def by (intro conjI exI [of _ "?x\<lparr>rr_id := rw_next_id w\<rparr>"]) simp_all
  qed
  show "ready d jid rid r w" if "rp_fault p S_commit t = Some (Finishes e)" for t e w using that restorableD(3) [OF assms(2)] by simp
qed (use env_ready [OF assms(1)] restorableD(3) [OF assms(2)] in \<open>auto simp: unchanged_def\<close>)

lemma t_restore:
  assumes "undisturbed p d jid rid" and "length d = 3" and "restorable p"
  shows "triple (ready d jid rid r) (restore_previous p d existed c) (\<lambda>_. as_before d jid rid c r) (\<lambda>_. as_before d jid rid c r)"
  unfolding restore_previous_def
proof (rule t_then)
  let ?m = "case c of None \<Rightarrow> r_now p S_unlink (on_files (unlink (artifact d)))
      | Some s \<Rightarrow> r_io p S_restore unchanged (\<lambda>t. on_files (\<lambda>f. case write_file (artifact d) s (rp_ident p t) (rp_mtime p t) f of Inl e \<Rightarrow> Inl e | Inr g \<Rightarrow> Inr ((), g)))"
  show "triple (ready d jid rid r) ?m (\<lambda>_. as_before d jid rid c r) (\<lambda>_. as_before d jid rid c r)"
  proof (cases c)
    case None
    have "triple (ready d jid rid r) (on_files (unlink (artifact d))) (\<lambda>_. as_before d jid rid None r) (\<lambda>_ _. False)"
      by (rule t_files) (auto simp: unlink_def ready_lstat assms(2) as_before_def content_at_def ready_def split: option.splits node.splits)
    then show ?thesis using assms(3) unfolding None option.case
      by (intro t_at_once [where F = "\<lambda>_ _. False"]) (auto simp: restorableD [OF assms(3)])
  next
    case (Some s)
    have "triple (ready d jid rid r) (on_files (\<lambda>f. case write_file (artifact d) s (rp_ident p t) (rp_mtime p t) f of Inl e \<Rightarrow> Inl e | Inr g \<Rightarrow> Inr ((), g)))
        (\<lambda>_. as_before d jid rid (Some s) r) (\<lambda>_ _. False)" for t
    proof (rule t_files)
      fix w x g
      assume h: "ready d jid rid r w" "(case write_file (artifact d) s (rp_ident p t) (rp_mtime p t) (rw_fs w) of Inl e \<Rightarrow> Inl e | Inr g \<Rightarrow> Inr ((), g)) = Inr (x, g)"
      then have "write_file (artifact d) s (rp_ident p t) (rp_mtime p t) (rw_fs w) = Inr g" by (auto split: sum.splits)
      from ready_write [OF h(1) assms(2) this] show "as_before d jid rid (Some s) r (w\<lparr>rw_fs := g\<rparr>)" by (simp add: as_before_def ready_def)
    next
      fix w e
      assume "ready d jid rid r w" "(case write_file (artifact d) s (rp_ident p t) (rp_mtime p t) (rw_fs w) of Inl e \<Rightarrow> Inl e | Inr g \<Rightarrow> Inr ((), g)) = Inl e"
      then show False using ready_write_succeeds [OF _ assms(2), of jid rid r w s "rp_ident p t" "rp_mtime p t"] by auto
    qed
    then show ?thesis using env_ready(1) [OF assms(1)] assms(3) unfolding Some option.case
      by (intro t_io [where F = "\<lambda>_ _. False" and R = "ready d jid rid r"]) (auto simp: restorableD [OF assms(3)])
  qed
  let ?P = "as_before d jid rid c r"
  have "triple ?P (r_now p S_rmdir (m_set (\<lambda>w. w\<lparr>rw_fs := remove_empty d (rw_fs w)\<rparr>))) (\<lambda>_. ?P) (\<lambda>_. ?P)"
    by (rule t_at_once [where F = "\<lambda>_. ?P"]) (auto intro!: t_set simp: as_before_def content_at_def remove_empty_keeps artifact_path(4))
  then show "triple ?P (if existed then m_ret () else m_try (r_now p S_rmdir (m_set (\<lambda>w. w\<lparr>rw_fs := remove_empty d (rw_fs w)\<rparr>)))
        (\<lambda>e. if is_os_error e then m_ret () else m_raise e)) (\<lambda>_. ?P) (\<lambda>_. ?P)"
    by (intro t_if) (auto intro!: t_ret t_raise t_try)
qed

section \<open>The whole save\<close>

lemma saved_tick [simp]: "saved p d jid proj rid outcome data (w\<lparr>rw_tick := n\<rparr>) = saved p d jid proj rid outcome data w"
  by (simp add: saved_def)

definition settled :: "rs_port \<Rightarrow> string list \<Rightarrow> string \<Rightarrow> string \<Rightarrow> string \<Rightarrow> string \<Rightarrow> doc \<Rightarrow> string option \<Rightarrow> result_row list \<Rightarrow> rs_world \<Rightarrow> bool" where
  "settled p d jid proj rid outcome data c r w \<longleftrightarrow> as_before d jid rid c r w \<or> saved p d jid proj rid outcome data w"

lemma t_write_and_commit:
  assumes "undisturbed p d jid rid" and "length d = 3" and "restorable p"
  shows "triple (ready d jid rid r) (write_and_commit p jid proj rid data outcome count budget limit d)
    (\<lambda>_ w. saved p d jid proj rid outcome data w \<and> int (length (compact_json_bytes data)) \<le> limit) (\<lambda>_. ready d jid rid r)"
proof -
  let ?N = "int (length (compact_json_bytes data)) \<le> limit"
  let ?W = "\<lambda>w. ready d jid rid r w \<and> content_at (rw_fs w) (artifact d) = Some (compact_json_bytes data) \<and> ?N"
  have budget: "triple ?W (check_budget p budget) (\<lambda>_. ?W) (\<lambda>_. ready d jid rid r)"
    by (rule t_weaken [OF t_budget [of ?W]]) auto
  have commit: "triple ?W (r_io p S_commit unchanged (insert_row p jid proj rid outcome count d))
      (\<lambda>_ w. saved p d jid proj rid outcome data w \<and> ?N) (\<lambda>_. ready d jid rid r)"
    using t_commit [OF assms(1,3), of r data proj outcome count] by (cases ?N) (simp_all add: t_false)
  have fin: "triple (\<lambda>w. saved p d jid proj rid outcome data w \<and> ?N) (m_ret n) (\<lambda>_ w. saved p d jid proj rid outcome data w \<and> ?N) (\<lambda>_. ready d jid rid r)" for n
    by (rule t_ret) simp
  show ?thesis unfolding write_and_commit_def by (rule t_then [OF t_write [OF assms(1,2)] t_then [OF budget t_then [OF commit fin]]])
qed

lemma t_save_failed:
  assumes "undisturbed p d jid rid" and "length d = 3" and "restorable p"
  shows "triple (ready d jid rid r) (save_failed p d existed c limit e) Q (\<lambda>_. as_before d jid rid c r)"
  unfolding save_failed_def
  by (rule t_then [OF t_restore [OF assms]]) (auto intro!: t_raise split: rs_exn.splits)

lemma t_save_locked:
  assumes "undisturbed p d jid rid" and "length d = 3" and "restorable p"
  shows "triple (before d jid rid c r) (save_locked p jid proj rid data outcome count budget limit d)
    (\<lambda>m w. saved p d jid proj rid outcome data w \<and> int (length (compact_json_bytes data)) \<le> limit \<and> sm_run_id m = rid) (\<lambda>_. settled p d jid proj rid outcome data c r)"
  unfolding save_locked_def
proof (rule t_then [OF t_get [where Q = "\<lambda>_. before d jid rid c r"]], assumption)
  fix existed
  let ?E = "\<lambda>_. settled p d jid proj rid outcome data c r"
  let ?S = "\<lambda>w. saved p d jid proj rid outcome data w \<and> int (length (compact_json_bytes data)) \<le> limit"
  have to_E: "before d jid rid c r w \<Longrightarrow> settled p d jid proj rid outcome data c r w" for w by (simp add: settled_def before_as_before)
  have mkdir: "triple (before d jid rid c r) (r_io p S_mkdir unchanged (\<lambda>t. on_files (\<lambda>f. case ensure_directory d (rp_mtime p t) f of Inl e \<Rightarrow> Inl e | Inr g \<Rightarrow> Inr ((), g))))
      (\<lambda>_ w. before d jid rid c r w \<and> dirs_made (rw_fs w) d) ?E"
    by (rule t_weaken [OF t_mkdir [OF assms(1,2)]]) (auto simp: to_E)
  have prev: "triple (\<lambda>w. before d jid rid c r w \<and> dirs_made (rw_fs w) d) (read_previous p d) (\<lambda>previous w. previous = c \<and> ready d jid rid r w) ?E"
    by (rule t_weaken [OF t_previous [OF assms]]) (auto simp: to_E)
  have body: "triple (\<lambda>w. previous = c \<and> ready d jid rid r w) (m_try (write_and_commit p jid proj rid data outcome count budget limit d) (save_failed p d existed previous limit))
      (\<lambda>_. ?S) ?E" for previous
  proof (rule t_pre [of _ "previous = c"])
    assume "previous = c"
    then show ?thesis
      by (intro t_try [OF t_weaken [OF t_write_and_commit [OF assms, of r]]] t_weaken [OF t_save_failed [OF assms, of r]]) (auto simp: settled_def)
  qed simp
  have check: "triple ?S (check_budget p budget) (\<lambda>_. ?S) ?E" by (rule t_weaken [OF t_budget [of ?S]]) (auto simp: settled_def)
  show "triple (before d jid rid c r) (m_then (r_io p S_mkdir unchanged (\<lambda>t. on_files (\<lambda>f. case ensure_directory d (rp_mtime p t) f of Inl e \<Rightarrow> Inl e | Inr g \<Rightarrow> Inr ((), g)))) (\<lambda>_.
     m_then (read_previous p d) (\<lambda>previous.
     m_then (m_try (write_and_commit p jid proj rid data outcome count budget limit d) (save_failed p d existed previous limit)) (\<lambda>n.
     m_then (check_budget p budget) (\<lambda>_.
     m_ret \<lparr>sm_run_id = rid, sm_file_path = store_path p d, sm_record_count = count, sm_serialized_bytes = n\<rparr>)))))
     (\<lambda>m w. saved p d jid proj rid outcome data w \<and> int (length (compact_json_bytes data)) \<le> limit \<and> sm_run_id m = rid) ?E"
    by (rule t_then [OF mkdir], rule t_then [OF prev], rule t_then [OF body], rule t_then [OF check]) (rule t_ret, simp)
qed

text \<open>The conditions of a save, before its directory has been checked.\<close>

definition at_start :: "string list \<Rightarrow> string \<Rightarrow> string \<Rightarrow> string option \<Rightarrow> result_row list \<Rightarrow> rs_world \<Rightarrow> bool" where
  "at_start d jid rid c r w \<longleftrightarrow> wf_fs (rw_fs w) \<and> as_before d jid rid c r w"

lemma env_at_start: "undisturbed p d jid rid \<Longrightarrow> at_start d jid rid c r w \<Longrightarrow> at_start d jid rid c r (r_interfere p w)"
  by (simp add: undisturbed_def keeps_save_def at_start_def as_before_def r_interfere_def content_at_def)

lemma first_error_Inr: "first_error xs = Inr () \<Longrightarrow> x \<in> set xs \<Longrightarrow> x = Inr ()"
  by (induction xs rule: first_error.induct) auto

lemma checked_no_links:
  assumes "wf_fs f" and "checked_dir p s f = Inr d"
  shows "no_links f d"
  unfolding no_links_def
proof (intro allI impI notI)
  fix k
  assume k: "k \<le> 3" and "\<exists>t. map_of f (take k d) = Some (Link t)"
  then obtain t where link: "map_of f (take k d) = Some (Link t)" by blast
  have "first_error (map (link_on_path f d) [1, 2, 3]) = Inr ()"
    using assms(2) by (auto simp: checked_dir_def checked_result_dir_def Let_def split: if_splits prod.splits sum.splits)
  then have "k \<noteq> 0 \<Longrightarrow> link_on_path f d k = Inr ()" using first_error_Inr k by (fastforce simp: le_Suc_eq numeral_3_eq_3 numeral_2_eq_2)
  moreover have "link_on_path f d k \<noteq> Inr ()" using lstat_present [OF assms(1) link] by (simp add: link_on_path_def)
  moreover have "k \<noteq> 0" using link wf_top [OF assms(1)] by (cases k) auto
  ultimately show False by blast
qed

definition clean_dir :: "string list \<Rightarrow> bool" where
  "clean_dir d \<longleftrightarrow> length d = 3 \<and> list_all plain_part d \<and> \<not> list_ex (\<lambda>x. CHR 0x00 \<in> set x) d"

lemma checked_clean: "checked_run_dir p a b c f = Inr d \<Longrightarrow> clean_dir d \<and> d = [a, b, c]"
proof -
  assume h: "checked_run_dir p a b c f = Inr d"
  have "\<not> list_ex (\<lambda>x. CHR 0x00 \<in> set x) d"
    using h by (auto simp: checked_run_dir_def checked_dir_def checked_result_dir_def Let_def split: if_splits prod.splits sum.splits)
  then show ?thesis using checked_components [OF h] by (simp add: clean_dir_def)
qed

lemma m_get_const: "m_then (m_get (\<lambda>_. x)) k = k x"
  by (simp add: m_then_def m_get_def fun_eq_iff)

lemma t_save_result:
  assumes "undisturbed p [proj, nm, rid] jid rid" and "restorable p" and "rid \<noteq> []" and "looked_up p jid proj nm"
  shows "triple (at_start [proj, nm, rid] jid rid c r) (save_result p jid data (Some rid) outcome count budget max_bytes)
    (\<lambda>m w. saved p [proj, nm, rid] jid proj rid outcome data w \<and> clean_dir [proj, nm, rid] \<and> int (length (compact_json_bytes data)) \<le> effective_limit p budget max_bytes \<and> sm_run_id m = rid)
    (\<lambda>_. settled p [proj, nm, rid] jid proj rid outcome data c r)"
proof -
  let ?d = "[proj, nm, rid]"
  let ?E = "\<lambda>_. settled p ?d jid proj rid outcome data c r"
  let ?A = "at_start ?d jid rid c r"
  let ?Q = "\<lambda>m w. saved p ?d jid proj rid outcome data w \<and> clean_dir ?d \<and> int (length (compact_json_bytes data)) \<le> effective_limit p budget max_bytes \<and> sm_run_id m = rid"
  have to_E: "?A w \<Longrightarrow> ?E e w" for e w by (simp add: settled_def at_start_def)
  have lookup: "triple ?A (job_lookup p jid) (\<lambda>x w. x = (proj, nm) \<and> ?A w) ?E"
    unfolding job_lookup_def
    by (rule t_io [where R = ?A and F = "\<lambda>_. ?A"])
      (use env_at_start [OF assms(1)] assms(4) to_E in \<open>auto simp: looked_up_def triple_def of_sum_def unchanged_def split: sum.splits\<close>)
  have checked: "triple ?A (\<lambda>w. (checked_run_dir p proj nm rid (rw_fs w), w)) (\<lambda>d w. d = ?d \<and> clean_dir ?d \<and> before ?d jid rid c r w) ?E"
  proof (rule tripleI)
    fix w
    assume A: "?A w"
    show "case (checked_run_dir p proj nm rid (rw_fs w), w) of (Inl e, w') \<Rightarrow> ?E e w' | (Inr d, w') \<Rightarrow> d = ?d \<and> clean_dir ?d \<and> before ?d jid rid c r w'"
    proof (cases "checked_run_dir p proj nm rid (rw_fs w)")
      case (Inl e)
      then show ?thesis using to_E [OF A] by simp
    next
      case (Inr d)
      note c = checked_clean [OF Inr]
      obtain s where "checked_dir p s (rw_fs w) = Inr d" using Inr by (auto simp: checked_run_dir_def split: sum.splits)
      then have "no_links (rw_fs w) d" using checked_no_links A by (auto simp: at_start_def)
      then show ?thesis using Inr c A by (auto simp: before_def at_start_def as_before_def)
    qed
  qed
  have lock: "triple (\<lambda>w. d = ?d \<and> clean_dir ?d \<and> before ?d jid rid c r w) (r_io p S_lock unchanged (\<lambda>t. m_ret ()))
      (\<lambda>_ w. d = ?d \<and> clean_dir ?d \<and> before ?d jid rid c r w) ?E" for d
    by (rule t_io [where R = "\<lambda>w. d = ?d \<and> clean_dir ?d \<and> before ?d jid rid c r w" and F = "\<lambda>_ _. False"])
      (use env_before [OF assms(1)] in \<open>auto simp: unchanged_def settled_def before_as_before intro!: t_ret\<close>)
  have locked: "triple (\<lambda>w. d = ?d \<and> clean_dir ?d \<and> before ?d jid rid c r w)
      (save_locked p jid proj rid data outcome count budget (effective_limit p budget max_bytes) d) ?Q ?E" for d
  proof (rule t_pre [of _ "d = ?d \<and> clean_dir ?d"])
    assume "d = ?d \<and> clean_dir ?d"
    then show ?thesis using t_save_locked [OF assms(1) _ assms(2), of c r proj data outcome count budget "effective_limit p budget max_bytes"]
      by (auto elim!: t_weaken)
  qed simp
  have rest: "triple (\<lambda>w. x = (proj, nm) \<and> ?A w) (case x of (proj, nm) \<Rightarrow>
     m_then (m_get (\<lambda>w. case Some rid of Some r \<Rightarrow> if r = [] then rp_new_run_id p (rw_tick w) else r | None \<Rightarrow> rp_new_run_id p (rw_tick w))) (\<lambda>rid.
     m_then (\<lambda>w. (checked_run_dir p proj nm rid (rw_fs w), w)) (\<lambda>d.
     m_then (r_io p S_lock unchanged (\<lambda>t. m_ret ())) (\<lambda>_.
     save_locked p jid proj rid data outcome count budget (effective_limit p budget max_bytes) d)))) ?Q ?E" for x
  proof (rule t_pre [of _ "x = (proj, nm)"])
    assume "x = (proj, nm)"
    then show ?thesis
      unfolding \<open>x = (proj, nm)\<close> prod.case option.case if_not_P [OF assms(3)] m_get_const
      by (intro t_weaken [OF t_then [OF checked t_then [OF lock locked]]]) auto
  qed simp
  show ?thesis unfolding save_result_def by (rule t_then [OF lookup rest])
qed

text \<open>
  Claim C8. A save is atomic. The lookup, the directory, the write, a deadline or the transaction may fail or be cancelled: a save
  that returns has replaced both the artifact and the row of the run, and a save that raises has left either both as they were,
  the previous artifact included, or both replaced. Assumed: a commit that raises, cancelled or not, has not taken effect;
  the restoration of the previous artifact and the removal of the new one do not fail before they act; an existing artifact
  is not reported missing; other tasks may act at every await, but leave the row and the artifact of this run and the directories
  above it in place; the job keeps its project and name; the run id is given, and the tree is well formed at the start.
\<close>

theorem save_is_atomic:
  assumes "undisturbed p [proj, nm, rid] jid rid" and "restorable p" and "rid \<noteq> []" and "looked_up p jid proj nm"
    and "wf_fs (rw_fs w)"
  shows "case save_result p jid data (Some rid) outcome count budget max_bytes w of
      (Inr m, w') \<Rightarrow> saved p [proj, nm, rid] jid proj rid outcome data w' \<and> sm_run_id m = rid
    | (Inl e, w') \<Rightarrow> as_before [proj, nm, rid] jid rid (content_at (rw_fs w) (artifact [proj, nm, rid])) (row_of jid rid w) w'
        \<or> saved p [proj, nm, rid] jid proj rid outcome data w'"
proof -
  let ?c = "content_at (rw_fs w) (artifact [proj, nm, rid])" and ?r = "row_of jid rid w"
  have start: "at_start [proj, nm, rid] jid rid ?c ?r w" using assms(5) by (simp add: at_start_def as_before_def)
  obtain res w' where run: "save_result p jid data (Some rid) outcome count budget max_bytes w = (res, w')" by force
  from t_run [OF t_save_result [OF assms(1-4)] start run] show ?thesis unfolding run
    by (cases res) (auto simp: settled_def)
qed

section \<open>Reading back\<close>

lemma find_filter: "List.find P xs = (case filter P xs of [] \<Rightarrow> None | x # _ \<Rightarrow> Some x)"
  by (induction xs) auto

lemma saved_keeps: "undisturbed p d jid rid \<Longrightarrow> saved p d jid proj rid outcome data w \<Longrightarrow> saved p d jid proj rid outcome data (r_interfere p w)"
  using env_ready by (fastforce simp: saved_def)

lemma saved_checked:
  assumes "saved p d jid proj rid outcome data w" and "list_all plain_part (rp_cwd p)" and "clean_dir d"
  shows "checked_dir p (store_path p d) (rw_fs w) = Inr d"
proof (rule checked_store_path [OF assms(2)])
  have wf: "wf_fs (rw_fs w)" and dirs: "\<And>k. k \<le> 3 \<Longrightarrow> dir_at (rw_fs w) (take k d)"
    using assms(1) by (auto simp: saved_def ready_def dirs_made_def)
  have "link_on_path (rw_fs w) d k = Inr ()" if "k \<le> 3" for k
    using dirs [OF that] lstat_present [OF wf] by (auto simp: link_on_path_def dir_at_def)
  then show "first_error (map (link_on_path (rw_fs w) d) [1, 2, 3]) = Inr ()" by simp
qed (use assms(3) in \<open>simp_all add: clean_dir_def\<close>)

lemma saved_read:
  assumes "saved p d jid proj rid outcome data w" and "clean_dir d" and "int (length (compact_json_bytes data)) \<le> limit" and "loads (compact_json_bytes data) = Some data"
  shows "read_json_file_no_follow loads (artifact d) (Some limit) (rw_fs w) = Inr data"
proof -
  obtain r where ready: "ready d jid rid r w" and "content_at (rw_fs w) (artifact d) = Some (compact_json_bytes data)" using assms(1) by (auto simp: saved_def)
  then obtain i t where "map_of (rw_fs w) (artifact d) = Some (Regular (compact_json_bytes data) i t)"
    by (auto simp: content_at_def split: option.splits node.splits)
  then show ?thesis using ready_lstat [OF ready] assms(2-4) by (simp add: read_json_file_no_follow_def read_bytes_file_no_follow_def clean_dir_def)
qed

lemma saved_lookup:
  "saved p d jid proj rid outcome data w \<Longrightarrow> \<exists>r. lookup_row jid (Some rid) (rw_rows w) = Some r \<and> rr_job_id r = jid \<and> rr_run_id r = rid \<and> rr_project r = proj
    \<and> rr_status r = outcome \<and> rr_file_path r = store_path p d"
proof -
  assume "saved p d jid proj rid outcome data w"
  then obtain r where r: "row_of jid rid w = [r]" "rr_project r = proj" "rr_status r = outcome" "rr_file_path r = store_path p d"
    by (auto simp: saved_def ready_def)
  have "r \<in> set (row_of jid rid w)" using r(1) by simp
  then have "rr_job_id r = jid" "rr_run_id r = rid" by (auto simp: row_of_def)
  then show ?thesis using r by (simp add: lookup_row_def sql_first_def find_filter row_of_def)
qed

text \<open>The document does not contradict the row in the fields that a reader compares.\<close>

definition owned_doc :: "string \<Rightarrow> string \<Rightarrow> string \<Rightarrow> doc \<Rightarrow> bool" where
  "owned_doc jid rid proj data = (case data of
       D_dict kvs \<Rightarrow> map_of kvs (Str_key ''job_id'') \<in> {None, Some (D_str jid)} \<and> map_of kvs (Str_key ''run_id'') \<in> {None, Some (D_str rid)}
         \<and> map_of kvs (Str_key ''project'') \<in> {None, Some (D_str proj)}
     | _ \<Rightarrow> True)"

lemma owned_identity: "owned_doc (rr_job_id r) (rr_run_id r) (rr_project r) data \<Longrightarrow> check_identity r data = Inr ()"
  by (auto simp: owned_doc_def check_identity_def identity_field_def split: doc.splits)

text \<open>
  Claim C13. What was saved is read back: after a save has returned, the result of the run is the document that was given with the
  status that was given. Provided that the effective limit of the save is at most the configured result limit, so that the size
  check of the writer implies that of the reader; that the JSON decoder inverts the encoder on this document; that the document
  does not name another job, run or project; that neither read fails; that the working directory has no dot parts; and, as for the atomicity of a save,
  that a commit that raises has not taken effect, that the clean-up steps do not fail and a file is not reported missing,
  that other tasks leave the row, the artifact and the directories of this run in place, that the job keeps its project and name,
  that the run id is given, and that the tree is well formed at the start.
\<close>

theorem saved_result_is_read_back:
  assumes "undisturbed p [proj, nm, rid] jid rid" and "restorable p" and "rid \<noteq> []" and "looked_up p jid proj nm"
    and "wf_fs (rw_fs w)" and "list_all plain_part (rp_cwd p)" and "effective_limit p budget max_bytes \<le> rp_max_result_bytes p"
    and "rp_loads p (compact_json_bytes data) = Some data" and "owned_doc jid rid proj data"
    and "\<And>t. rp_fault p S_select t = None" and "\<And>t. rp_fault p S_read t = None"
    and "save_result p jid data (Some rid) outcome count budget max_bytes w = (Inr m, w')"
  shows "fst (get_result p jid (Some rid) w') = Inr \<lparr>pl_run_id = rid, pl_data = data, pl_status = outcome\<rparr>"
proof -
  let ?d = "[proj, nm, rid]"
  let ?c = "content_at (rw_fs w) (artifact ?d)" and ?r = "row_of jid rid w"
  have start: "at_start ?d jid rid ?c ?r w" using assms(5) by (simp add: at_start_def as_before_def)
  from t_run [OF t_save_result [OF assms(1-4)] start assms(12)]
  have s0: "saved p ?d jid proj rid outcome data w'" and clean: "clean_dir ?d" and small: "int (length (compact_json_bytes data)) \<le> rp_max_result_bytes p"
    using assms(7) by auto
  let ?w1 = "r_interfere p w'"
  have s1: "saved p ?d jid proj rid outcome data ?w1" by (rule saved_keeps [OF assms(1) s0])
  have s2: "saved p ?d jid proj rid outcome data (r_interfere p ?w1)" by (rule saved_keeps [OF assms(1) s1])
  obtain r where r: "lookup_row jid (Some rid) (rw_rows ?w1) = Some r" "rr_job_id r = jid" "rr_run_id r = rid" "rr_project r = proj"
    "rr_status r = outcome" "rr_file_path r = store_path p ?d" using saved_lookup [OF s1] by blast
  have "check_identity r data = Inr ()" using owned_identity [of r data] assms(9) r by simp
  then show ?thesis using r saved_checked [OF s1 assms(6) clean] saved_read [OF s2 clean small, of "rp_loads p", OF assms(8)]
    by (simp add: get_result_def select_def m_then_def m_get_def m_try_def m_ret_def of_sum_def r_io_def Let_def assms(10,11))
qed

section \<open>Runs of a save\<close>

text \<open>The run \<open>r\<close> of the job \<open>j\<close> already has a result; \<open>flt\<close> chooses what goes wrong.\<close>

definition sample_store :: "(rs_label \<Rightarrow> nat \<Rightarrow> rs_fault option) \<Rightarrow> rs_port" where
  "sample_store flt = \<lparr>rp_results_dir = ''/d'', rp_cwd = [], rp_job_lookup = (\<lambda>_ _. Inr (''p'', ''n'')), rp_active = None, rp_max_result_bytes = 100,
     rp_max_tree_bytes = 100, rp_max_tree_entries = 100, rp_env = (\<lambda>_ w. w), rp_fault = flt, rp_survives = (\<lambda>_ _. True),
     rp_loads = (\<lambda>s. if s = ''null'' then Some D_null else None), rp_now = int, rp_mtime = (\<lambda>_. 0), rp_ident = (\<lambda>t. t),
     rp_new_run_id = (\<lambda>_. ''x''), rp_stopped = (\<lambda>_. False), rp_deny = (\<lambda>_ _. None)\<rparr>"

definition sample_files :: fs where
  "sample_files = [([], Dir 0), ([''p''], Dir 0), ([''p'', ''n''], Dir 0), ([''p'', ''n'', ''r''], Dir 0), ([''p'', ''n'', ''r'', ''results.json''], Regular ''1'' 0 0)]"

definition sample_rs :: "fs \<Rightarrow> rs_world" where
  "sample_rs f = \<lparr>rw_rows = [], rw_next_id = 1, rw_fs = f, rw_cursors = Some (0, None), rw_validated = [], rw_rec = undefined, rw_tick = 0\<rparr>"

lemma sample_undisturbed: "undisturbed (sample_store flt) d jid rid"
  by (auto simp: undisturbed_def keeps_save_def sample_store_def path_step_def split: option.splits)

lemma sample_looked_up: "looked_up (sample_store flt) jid ''p'' ''n''"
  by (simp add: looked_up_def sample_store_def)

lemma sample_files_wf: "wf_fs sample_files"
  by (rule wf_fsI) (auto simp: sample_files_def dir_at_def split: if_splits)

text \<open>In the witness the write is cancelled after it has replaced the artifact.\<close>

theorem save_is_atomic_witness:
  "case save_result (sample_store (\<lambda>l t. if l = S_write then Some (Finishes R_cancelled) else None)) ''j'' D_null (Some ''r'') ''complete'' None None None (sample_rs sample_files) of
      (Inr m, w') \<Rightarrow> saved (sample_store (\<lambda>l t. if l = S_write then Some (Finishes R_cancelled) else None)) [''p'', ''n'', ''r''] ''j'' ''p'' ''r'' ''complete'' D_null w' \<and> sm_run_id m = ''r''
    | (Inl e, w') \<Rightarrow> as_before [''p'', ''n'', ''r''] ''j'' ''r'' (content_at (rw_fs (sample_rs sample_files)) (artifact [''p'', ''n'', ''r''])) (row_of ''j'' ''r'' (sample_rs sample_files)) w'
        \<or> saved (sample_store (\<lambda>l t. if l = S_write then Some (Finishes R_cancelled) else None)) [''p'', ''n'', ''r''] ''j'' ''p'' ''r'' ''complete'' D_null w'"
proof (rule save_is_atomic [OF sample_undisturbed _ _ sample_looked_up])
  show "restorable (sample_store (\<lambda>l t. if l = S_write then Some (Finishes R_cancelled) else None))" by (simp add: restorable_def sample_store_def)
qed (simp_all add: sample_rs_def sample_files_wf)

text \<open>The size of the chunks matters only for the number that a refused document is reported with.\<close>

lemma compact_code [code]: "compact_json_bytes data = encode json_string data"
  using chunk_texts_text [of json_text_chunk_chars "[]" "iter_json_text json_string encode_walk_depth data"]
  by (simp add: compact_json_bytes_def iter_json_bytes_def iter_json_text_encode json_text_chunk_chars_def)

lemma bounded_chunks_small: "n + int (length (concat cs)) \<le> limit \<Longrightarrow> bounded_chunks limit n cs = Inr (n + int (length (concat cs)))"
  by (induction limit n cs rule: bounded_chunks.induct) auto

lemma write_json_code [code]:
  "write_json_file_bounded q data limit i t f = (let s = encode json_string data in
     if limit < 0 then Inl (R_value ''max_bytes must not be negative'')
     else if int (length s) \<le> limit then (case write_file q s i t f of Inl e \<Rightarrow> Inl e | Inr g \<Rightarrow> Inr (int (length s), g))
     else case bounded_chunks limit 0 (iter_json_bytes json_string data) of
       Inl e \<Rightarrow> Inl e | Inr n \<Rightarrow> (case write_file q s i t f of Inl e \<Rightarrow> Inl e | Inr g \<Rightarrow> Inr (n, g)))"
proof -
  have "concat (iter_json_bytes json_string data) = encode json_string data" using compact_code [of data] by (simp add: compact_json_bytes_def)
  then show ?thesis using bounded_chunks_small [of 0 "iter_json_bytes json_string data" limit]
    unfolding write_json_file_bounded_def Let_def compact_code by simp
qed

lemma sample_saves: "\<not> isl (fst (save_result (sample_store (\<lambda>_ _. None)) ''j'' D_null (Some ''r'') ''complete'' None None None (sample_rs sample_files)))"
  by code_simp

theorem saved_result_is_read_back_witness:
  "fst (get_result (sample_store (\<lambda>_ _. None)) ''j'' (Some ''r'') (snd (save_result (sample_store (\<lambda>_ _. None)) ''j'' D_null (Some ''r'') ''complete'' None None None (sample_rs sample_files))))
    = Inr \<lparr>pl_run_id = ''r'', pl_data = D_null, pl_status = ''complete''\<rparr>"
proof -
  let ?p = "sample_store (\<lambda>_ _. None)"
  obtain m w' where run: "save_result ?p ''j'' D_null (Some ''r'') ''complete'' None None None (sample_rs sample_files) = (Inr m, w')"
    using sample_saves by (metis isl_def prod.collapse sum.exhaust_sel)
  have "fst (get_result ?p ''j'' (Some ''r'') w') = Inr \<lparr>pl_run_id = ''r'', pl_data = D_null, pl_status = ''complete''\<rparr>"
  proof (rule saved_result_is_read_back [OF sample_undisturbed _ _ sample_looked_up _ _ _ _ _ _ _ run])
    show "restorable ?p" by (simp add: restorable_def sample_store_def)
    show "rp_loads ?p (compact_json_bytes D_null) = Some D_null" by (simp add: compact_code sample_store_def)
  qed (simp_all add: sample_rs_def sample_files_wf sample_store_def effective_limit_def owned_doc_def)
  then show ?thesis by (simp add: run)
qed

text \<open>
  The condition on the commit is needed: when the task is cancelled while it awaits a commit that SQLite then executes, the row of
  the new result is stored and its artifact is removed.
\<close>

lemma cancelled_commit_loses_artifact:
  "let p = sample_store (\<lambda>l t. if l = S_commit then Some (Finishes R_cancelled) else None);
     (res, w') = save_result p ''j'' D_null (Some ''r'') ''complete'' None None None (sample_rs [])
   in res = Inl R_cancelled \<and> row_of ''j'' ''r'' w' \<noteq> [] \<and> content_at (rw_fs w') (artifact [''p'', ''n'', ''r'']) = None"
  by code_simp

end
