(* ===== verification/Result_Scan.thy ===== *)
theory Result_Scan
  imports Result_Reconciliation Result_Save
begin

text \<open>
  One page of the scan of the results directory is the next page of the sorted list of all its entries, although the scan keeps only
  a few names of each directory.

  \<^item> \<open>is_leaf\<close> holds of what the scan is to list: entries at the depth of a run, and shallower ones without entries below them.
  \<^item> \<open>tree_leaves\<close> walks the whole tree in order; \<open>page_leaves\<close> walks what the scan keeps of it.
\<close>

section \<open>Orders\<close>

lemma less_append: "length xs = length ys \<Longrightarrow> xs < ys \<Longrightarrow> xs @ us < ys @ vs" for xs ys us vs :: "'a::linorder list"
  by (induction xs ys rule: list_induct2) auto

lemma append_le_iff: "xs @ us \<le> xs @ vs \<longleftrightarrow> us \<le> vs" "xs @ us < xs @ vs \<longleftrightarrow> us < vs" for xs us vs :: "'a::linorder list"
  by (induction xs) auto

lemma blanks_least: "length ys = n \<Longrightarrow> replicate n [] \<le> ys" for ys :: "'a::linorder list list"
proof (induction n arbitrary: ys)
  case (Suc n)
  then obtain a zs where "ys = a # zs" "length zs = n" by (cases ys) auto
  then show ?case using Suc.IH by (cases a) auto
qed simp

definition padded_path :: "string list \<Rightarrow> string list" where
  "padded_path q = q @ replicate (3 - length q) []"

lemma cursor_parts_of: "length q \<le> 3 \<Longrightarrow> cursor_parts (cursor_of q) = padded_path q"
  by (auto simp: cursor_of_def cursor_parts_def padded_path_def numeral_3_eq_3 split: list.splits)

lemma cursor_less: "c < c' \<longleftrightarrow> cursor_parts c < cursor_parts c'" "c \<le> c' \<longleftrightarrow> cursor_parts c \<le> cursor_parts c'"
  by (cases c; cases c'; auto simp: cursor_parts_def less_prod_def less_eq_prod_def)+

lemma parts_length: "length (cursor_parts c) = 3"
  by (cases c) (simp add: cursor_parts_def)

text \<open>A path below \<open>x\<close> lies before or after a cursor as \<open>x\<close> does, unless \<open>x\<close> leads to the cursor.\<close>

lemma below_before:
  assumes "below x q" and "length q \<le> 3" and "x < take (length x) (cursor_parts c)"
  shows "cursor_of q < c"
proof -
  have x: "length x \<le> 3" using assms(1,2) by (metis below_def length_take min.absorb_iff2 nat_le_linear order_trans)
  obtain r where "padded_path q = x @ r" using assms(1) by (metis below_def append_take_drop_id append.assoc padded_path_def)
  moreover have "x @ r < take (length x) (cursor_parts c) @ drop (length x) (cursor_parts c)"
    by (rule less_append [OF _ assms(3)]) (use x parts_length [of c] in simp)
  ultimately show ?thesis using cursor_parts_of [OF assms(2)] by (simp add: cursor_less)
qed

lemma below_after:
  assumes "below x q" and "length q \<le> 3" and "take (length x) (cursor_parts c) < x"
  shows "c < cursor_of q"
proof -
  have x: "length x \<le> 3" using assms(1,2) by (metis below_def length_take min.absorb_iff2 nat_le_linear order_trans)
  obtain r where "padded_path q = x @ r" using assms(1) by (metis below_def append_take_drop_id append.assoc padded_path_def)
  moreover have "take (length x) (cursor_parts c) @ drop (length x) (cursor_parts c) < x @ r"
    by (rule less_append [OF _ assms(3)]) (use x parts_length [of c] in simp)
  ultimately show ?thesis using cursor_parts_of [OF assms(2)] by (simp add: cursor_less)
qed

lemma parent_before:
  assumes "length x < 3" and "x @ [n] < take (Suc (length x)) (cursor_parts c)"
  shows "cursor_of x \<le> c"
proof -
  let ?k = "length x" and ?cp = "cursor_parts c"
  have len: "length x = length (take ?k ?cp)" using assms(1) parts_length [of c] by simp
  have "\<not> take ?k ?cp < x"
  proof
    assume "take ?k ?cp < x"
    then have "take ?k ?cp @ [?cp ! ?k] < x @ [n]" using less_append len by metis
    then show False using assms parts_length [of c] by (simp add: take_Suc_conv_app_nth)
  qed
  then consider "x < take ?k ?cp" | "x = take ?k ?cp" by force
  then have "padded_path x \<le> ?cp"
  proof cases
    case 1
    then have "x @ replicate (3 - ?k) [] < take ?k ?cp @ drop ?k ?cp" by (rule less_append [OF len])
    then show ?thesis by (simp add: padded_path_def)
  next
    case 2
    have "replicate (3 - ?k) [] \<le> drop ?k ?cp" by (rule blanks_least) (simp add: parts_length)
    then have "x @ replicate (3 - ?k) [] \<le> x @ drop ?k ?cp" by (simp add: append_le_iff)
    then show ?thesis using 2 by (metis append_take_drop_id padded_path_def)
  qed
  then show ?thesis using cursor_parts_of [of x] assms(1) by (simp add: cursor_less)
qed

section \<open>The leaves of the tree\<close>

definition useful :: "run_cursor option \<Rightarrow> string list list \<Rightarrow> string list list" where
  "useful after_cursor qs = filter (\<lambda>q. case after_cursor of None \<Rightarrow> True | Some c \<Rightarrow> c < cursor_of q) qs"

lemma useful_append: "useful a (xs @ ys) = useful a xs @ useful a ys"
  by (simp add: useful_def)

lemma useful_concat: "useful a (concat (map g xs)) = concat (map (\<lambda>x. useful a (g x)) xs)"
  by (induction xs) (simp_all add: useful_def)

lemma sort_Nil_iff [simp]: "sort xs = [] \<longleftrightarrow> xs = []"
  by (metis set_empty set_sort)

fun tree_leaves :: "fs \<Rightarrow> nat \<Rightarrow> string list \<Rightarrow> string list list" where
  "tree_leaves f 0 parts = [parts]"
| "tree_leaves f (Suc n) parts = (let names = sort (children f parts) in
     if names = [] then (if parts = [] then [] else [parts]) else concat (map (\<lambda>x. tree_leaves f n (parts @ [x])) names))"

fun page_leaves :: "fs \<Rightarrow> nat \<Rightarrow> run_cursor option \<Rightarrow> nat \<Rightarrow> string list \<Rightarrow> string list list" where
  "page_leaves f limit after_cursor 0 parts = [parts]"
| "page_leaves f limit after_cursor (Suc n) parts = (let names = take (limit + 2) (sort (names_after after_cursor parts (children f parts))) in
     if names = [] then (if parts = [] then [] else [parts]) else concat (map (\<lambda>x. page_leaves f limit after_cursor n (parts @ [x])) names))"

lemma below_trans: "below (d @ [x]) q \<Longrightarrow> below d q"
  by (metis append_eq_append_conv_if below_def append_take_drop_id length_append_singleton take_Suc_conv_app_nth take_take
      append_same_eq butlast_snoc butlast_take diff_Suc_1 length_take min.absorb_iff2 nat_le_linear take_all_iff)

lemma tree_leaves_below: "q \<in> set (tree_leaves f n parts) \<Longrightarrow> below parts q \<and> length q \<le> length parts + n"
proof (induction n arbitrary: parts q)
  case (Suc n)
  show ?case
  proof (cases "children f parts = []")
    case True
    then show ?thesis using Suc.prems by (auto simp: below_def split: if_splits)
  next
    case False
    then obtain x where "q \<in> set (tree_leaves f n (parts @ [x]))" using Suc.prems by (auto simp: Let_def split: if_splits)
    from Suc.IH [OF this] show ?thesis using below_trans by force
  qed
qed (simp add: below_def)

lemma tree_leaves_ne: "parts \<noteq> [] \<Longrightarrow> tree_leaves f n parts \<noteq> []"
proof (induction n arbitrary: parts)
  case (Suc n)
  show ?case
  proof (cases "sort (children f parts)")
    case (Cons x xs)
    have "tree_leaves f n (parts @ [x]) \<noteq> []" by (rule Suc.IH) simp
    then show ?thesis using Cons by (simp add: Let_def)
  qed (use Suc.prems in simp)
qed simp

section \<open>Taking from concatenations\<close>

lemma take_concat_cong: "(\<And>x. x \<in> set xs \<Longrightarrow> take m (g x) = take m (h x)) \<Longrightarrow> take m (concat (map g xs)) = take m (concat (map h xs))"
proof (induction xs arbitrary: m)
  case (Cons x xs)
  have x: "take m (g x) = take m (h x)" using Cons.prems by simp
  show ?case
  proof (cases "length (g x) < m")
    case True
    then have "h x = g x" using x by (metis take_all_iff length_take less_imp_le min_less_iff_conj nat_less_le linorder_not_le take_all)
    moreover have "take (m - length (g x)) (concat (map g xs)) = take (m - length (g x)) (concat (map h xs))"
    proof (rule Cons.IH)
      fix y
      assume "y \<in> set xs"
      then have "take m (g y) = take m (h y)" using Cons.prems by simp
      then have "take (m - length (g x)) (take m (g y)) = take (m - length (g x)) (take m (h y))" by simp
      then show "take (m - length (g x)) (g y) = take (m - length (g x)) (h y)" by (simp add: min.absorb1)
    qed
    ultimately show ?thesis by simp
  next
    case False
    then have "m \<le> length (g x)" "m \<le> length (h x)" using x by (auto dest: arg_cong [where f = length])
    then show ?thesis using x by simp
  qed
qed simp

lemma take_concat_take: "(\<And>x. x \<in> set xs \<Longrightarrow> g x \<noteq> []) \<Longrightarrow> take m (concat (map g (take m xs))) = take m (concat (map g xs))"
proof (induction xs arbitrary: m)
  case (Cons x xs)
  show ?case
  proof (cases m)
    case (Suc k)
    have "take (m - length (g x)) (concat (map g (take k xs))) = take (m - length (g x)) (concat (map g xs))"
    proof -
      have le: "m - length (g x) \<le> k" using Cons.prems [of x] Suc by (cases "g x") auto
      have "take k (concat (map g (take k xs))) = take k (concat (map g xs))" by (rule Cons.IH) (use Cons.prems in simp)
      then have "take (m - length (g x)) (take k (concat (map g (take k xs)))) = take (m - length (g x)) (take k (concat (map g xs)))" by simp
      then show ?thesis using le by (simp add: min.absorb1)
    qed
    then show ?thesis using Suc by simp
  qed simp
qed simp

section \<open>A page is a page of the tree\<close>

definition kept :: "run_cursor option \<Rightarrow> string list \<Rightarrow> string \<Rightarrow> bool" where
  "kept after_cursor parts x = (case after_cursor of None \<Rightarrow> True | Some c \<Rightarrow> take (Suc (length parts)) (cursor_parts c) \<le> parts @ [x])"

lemma names_kept: "sort (names_after a parts names) = filter (kept a parts) (sort names)"
proof -
  have "names_after a parts names = filter (kept a parts) names" unfolding names_after_def by (rule filter_cong) (simp_all add: kept_def)
  then show ?thesis by (simp add: filter_sort)
qed

lemma dropped_useless:
  assumes "\<not> kept a parts x" and "length parts + Suc n \<le> 3"
  shows "useful a (tree_leaves f n (parts @ [x])) = []"
proof -
  obtain c where c: "a = Some c" "parts @ [x] < take (length (parts @ [x])) (cursor_parts c)" using assms(1) by (auto simp: kept_def not_le split: option.splits)
  have "cursor_of q < c" if "q \<in> set (tree_leaves f n (parts @ [x]))" for q
    using tree_leaves_below [OF that] assms(2) by (intro below_before [OF _ _ c(2)]) auto
  then show ?thesis using c(1) by (auto simp: useful_def filter_empty_conv dest: less_imp_not_less)
qed

lemma later_useful:
  assumes "kept a parts x" and "x < y" and "length parts + Suc n \<le> 3"
  shows "useful a (tree_leaves f n (parts @ [y])) \<noteq> []"
proof (cases a)
  case None
  then show ?thesis using tree_leaves_ne [of "parts @ [y]" f n] by (simp add: useful_def)
next
  case (Some c)
  have "parts @ [x] < parts @ [y]" using assms(2) by (simp add: append_le_iff)
  then have after: "take (length (parts @ [y])) (cursor_parts c) < parts @ [y]" using assms(1) Some by (simp add: kept_def)
  have "c < cursor_of q" if "q \<in> set (tree_leaves f n (parts @ [y]))" for q
    using tree_leaves_below [OF that] assms(3) by (intro below_after [OF _ _ after]) auto
  then show ?thesis using tree_leaves_ne [of "parts @ [y]" f n] Some by (auto simp: useful_def filter_empty_conv)
qed

lemma parent_useless:
  assumes "\<not> kept a parts x" and "length parts < 3"
  shows "useful a [parts] = []"
proof -
  obtain c where c: "a = Some c" "parts @ [x] < take (Suc (length parts)) (cursor_parts c)" using assms(1) by (auto simp: kept_def not_le split: option.splits)
  then show ?thesis using parent_before [OF assms(2) c(2)] by (simp add: useful_def)
qed

lemma concat_filter: "(\<And>x. x \<in> set xs \<Longrightarrow> \<not> P x \<Longrightarrow> g x = []) \<Longrightarrow> concat (map g (filter P xs)) = concat (map g xs)"
  by (induction xs) auto

text \<open>One directory: of its names the first \<open>limit + 2\<close> are enough for \<open>limit + 1\<close> leaves after the cursor.\<close>

lemma first_names_enough:
  assumes "distinct names" and "sorted names" and "length parts + Suc n \<le> 3"
  shows "take (Suc limit) (concat (map (\<lambda>x. useful a (tree_leaves f n (parts @ [x]))) (take (limit + 2) (filter (kept a parts) names))))
    = take (Suc limit) (concat (map (\<lambda>x. useful a (tree_leaves f n (parts @ [x]))) names))"
proof -
  let ?g = "\<lambda>x. useful a (tree_leaves f n (parts @ [x]))"
  have all: "concat (map ?g (filter (kept a parts) names)) = concat (map ?g names)"
    by (rule concat_filter) (use dropped_useless assms(3) in auto)
  show ?thesis
  proof (cases "filter (kept a parts) names")
    case Nil
    then show ?thesis using all by simp
  next
    case (Cons x xs)
    have "sorted (x # xs)" "distinct (x # xs)" using assms(1,2) sorted_filter [of id names] by (simp_all flip: Cons)
    then have "x < y" if "y \<in> set xs" for y using that by (auto simp: less_le)
    moreover have "kept a parts x" using Cons filter_eq_ConsD [OF Cons] by blast
    ultimately have ne: "?g y \<noteq> []" if "y \<in> set xs" for y using later_useful assms(3) that by blast
    have "take (Suc limit - length (?g x)) (concat (map ?g (take (Suc limit) xs))) = take (Suc limit - length (?g x)) (concat (map ?g xs))"
      using arg_cong [OF take_concat_take [of xs ?g "Suc limit", OF ne], of "take (Suc limit - length (?g x))"] by (simp add: min.absorb1)
    then have "take (Suc limit) (concat (map ?g (take (limit + 2) (x # xs)))) = take (Suc limit) (concat (map ?g (x # xs)))" by simp
    then show ?thesis using all by (simp flip: Cons)
  qed
qed

lemma distinct_children:
  assumes "distinct (map fst f)"
  shows "distinct (children f parts)"
proof -
  let ?es = "filter (\<lambda>(q, _). q \<noteq> [] \<and> butlast q = parts) f"
  have "inj_on last {q. q \<noteq> [] \<and> butlast q = parts}"
  proof (rule inj_onI)
    fix q r
    assume "q \<in> {q. q \<noteq> [] \<and> butlast q = parts}" "r \<in> {q. q \<noteq> [] \<and> butlast q = parts}" "last q = last r"
    then show "q = r" using append_butlast_last_id [of q] append_butlast_last_id [of r] by simp
  qed
  moreover have "distinct (map fst ?es)" using assms by (rule distinct_map_filter)
  moreover have "set (map fst ?es) \<subseteq> {q. q \<noteq> [] \<and> butlast q = parts}" by auto
  ultimately have "distinct (map last (map fst ?es))" unfolding distinct_map [of last] using inj_on_subset by blast
  moreover have "map last (map fst ?es) = children f parts" unfolding children_def by (simp add: split_def)
  ultimately show ?thesis by simp
qed

lemma page_is_tree:
  assumes "distinct (map fst f)" and "length parts + n \<le> 3"
  shows "take (Suc limit) (useful a (page_leaves f limit a n parts)) = take (Suc limit) (useful a (tree_leaves f n parts))"
  using assms(2)
proof (induction n arbitrary: parts)
  case (Suc n)
  let ?all = "sort (children f parts)"
  let ?names = "take (limit + 2) (filter (kept a parts) ?all)"
  have dist: "distinct ?all" using distinct_children [OF assms(1)] by simp
  show ?case
  proof (cases "?names = []")
    case True
    then have none: "filter (kept a parts) ?all = []" by simp
    show ?thesis
    proof (cases "?all = []")
      case True
      then show ?thesis by (simp add: names_kept)
    next
      case False
      then obtain x where x: "x \<in> set ?all" "\<not> kept a parts x" using none by (metis filter_empty_conv last_in_set)
      have "useful a (tree_leaves f (Suc n) parts) = []"
        using False none dropped_useless [of a parts _ n f] Suc.prems by (auto simp: useful_concat Let_def filter_empty_conv)
      moreover have "useful a (page_leaves f limit a (Suc n) parts) = []"
        using none parent_useless [OF x(2)] Suc.prems by (simp add: names_kept Let_def useful_def)
      ultimately show ?thesis by simp
    qed
  next
    case False
    then have ne: "?all \<noteq> []" by auto
    have "take (Suc limit) (useful a (page_leaves f limit a (Suc n) parts)) = take (Suc limit) (concat (map (\<lambda>x. useful a (page_leaves f limit a n (parts @ [x]))) ?names))"
      using False by (simp add: names_kept Let_def useful_concat)
    also have "\<dots> = take (Suc limit) (concat (map (\<lambda>x. useful a (tree_leaves f n (parts @ [x]))) ?names))"
      by (rule take_concat_cong) (use Suc.IH Suc.prems in simp)
    also have "\<dots> = take (Suc limit) (concat (map (\<lambda>x. useful a (tree_leaves f n (parts @ [x]))) ?all))"
      by (rule first_names_enough) (use dist Suc.prems in auto)
    also have "\<dots> = take (Suc limit) (useful a (tree_leaves f (Suc n) parts))" using ne by (simp add: Let_def useful_concat)
    finally show ?thesis .
  qed
qed simp

section \<open>The leaves in order\<close>

definition is_leaf :: "fs \<Rightarrow> string list \<Rightarrow> bool" where
  "is_leaf f q \<longleftrightarrow> q \<noteq> [] \<and> (length q = 3 \<or> length q < 3 \<and> children f q = [])"

definition listed_leaves :: "fs \<Rightarrow> string list list" where
  "listed_leaves f = sort (filter (is_leaf f) (map fst f))"

lemma in_children: "x \<in> set (children f d) \<longleftrightarrow> map_of f (d @ [x]) \<noteq> None"
proof
  assume "x \<in> set (children f d)"
  then obtain q n where "(q, n) \<in> set f" "q \<noteq> []" "butlast q = d" "last q = x" by (auto simp: children_def)
  then have "(d @ [x], n) \<in> set f" by (metis append_butlast_last_id)
  then show "map_of f (d @ [x]) \<noteq> None" by (auto dest: weak_map_of_SomeI)
next
  assume "map_of f (d @ [x]) \<noteq> None"
  then obtain n where "(d @ [x], n) \<in> set f" by (auto dest: map_of_SomeD)
  then show "x \<in> set (children f d)" by (force simp: children_def image_iff)
qed

lemma sorted_wrt_concat:
  "sorted_wrt P xs \<Longrightarrow> (\<And>x. x \<in> set xs \<Longrightarrow> sorted_wrt R (g x)) \<Longrightarrow> (\<And>x y q r. P x y \<Longrightarrow> q \<in> set (g x) \<Longrightarrow> r \<in> set (g y) \<Longrightarrow> R q r) \<Longrightarrow> sorted_wrt R (concat (map g xs))"
proof (induction xs)
  case (Cons x xs)
  have "sorted_wrt R (concat (map g xs))" by (rule Cons.IH) (use Cons.prems in auto)
  then show ?case using Cons.prems by (auto simp: sorted_wrt_append)
qed simp

lemma below_Cons: "below (d @ [x]) q \<Longrightarrow> \<exists>r. q = d @ x # r"
  by (metis append.assoc append_Cons append_Nil append_take_drop_id below_def)

lemma tree_leaves_sorted:
  assumes "distinct (map fst f)"
  shows "sorted_wrt (<) (tree_leaves f n parts)"
proof (induction n arbitrary: parts)
  case (Suc n)
  have "sorted_wrt (<) (concat (map (\<lambda>x. tree_leaves f n (parts @ [x])) (sort (children f parts))))"
  proof (rule sorted_wrt_concat [where P = "(<)"])
    show "sorted_wrt (<) (sort (children f parts))" using distinct_children [OF assms] by (simp add: strict_sorted_iff)
    show "q < r" if xy: "x < y" "q \<in> set (tree_leaves f n (parts @ [x]))" "r \<in> set (tree_leaves f n (parts @ [y]))" for x y q r
    proof -
      obtain u v where "q = parts @ x # u" "r = parts @ y # v" using below_Cons tree_leaves_below xy(2,3) by metis
      then show ?thesis using xy(1) by (simp add: append_le_iff)
    qed
  qed (rule Suc.IH)
  then show ?case by (simp add: Let_def)
qed simp

lemma tree_leaves_set:
  assumes "wf_fs f"
  shows "length parts + n = 3 \<Longrightarrow> parts = [] \<or> map_of f parts \<noteq> None \<Longrightarrow> q \<in> set (tree_leaves f n parts) \<longleftrightarrow> map_of f q \<noteq> None \<and> is_leaf f q \<and> below parts q"
proof (induction n arbitrary: parts)
  case 0
  have "below parts q \<and> is_leaf f q \<Longrightarrow> q = parts" using 0 by (auto simp: below_def is_leaf_def)
  moreover have "parts \<noteq> []" using 0 by auto
  ultimately show ?case using 0 by (auto simp: is_leaf_def below_def)
next
  case (Suc n)
  have ih: "q \<in> set (tree_leaves f n (parts @ [x])) \<longleftrightarrow> map_of f q \<noteq> None \<and> is_leaf f q \<and> below (parts @ [x]) q" if "x \<in> set (children f parts)" for x
    by (rule Suc.IH) (use Suc.prems that in \<open>auto simp: in_children\<close>)
  show ?case
  proof (cases "children f parts = []")
    case True
    have "q = parts" if "map_of f q \<noteq> None" "below parts q"
    proof (rule ccontr)
      assume "q \<noteq> parts"
      then have len: "length parts < length q" using that(2) by (metis below_def leI take_all)
      let ?k = "Suc (length parts)"
      have "map_of f (take ?k q) \<noteq> None"
        using wf_prefix_dir [OF assms, of "length q" q ?k] that(1) len by (cases "?k = length q") (auto simp: dir_at_def)
      moreover have "take ?k q = parts @ [q ! length parts]" using len that(2) by (simp add: take_Suc_conv_app_nth below_def)
      ultimately show False using True in_children [of "q ! length parts" f parts] by simp
    qed
    then show ?thesis using True Suc.prems by (auto simp: is_leaf_def below_def)
  next
    case False
    have "\<exists>x \<in> set (children f parts). below (parts @ [x]) q" if h: "map_of f q \<noteq> None" "is_leaf f q" "below parts q"
    proof -
      have "q \<noteq> parts" using h(2) False Suc.prems by (auto simp: is_leaf_def)
      then have len: "length parts < length q" using h(3) by (metis below_def leI take_all)
      let ?k = "Suc (length parts)"
      have "map_of f (take ?k q) \<noteq> None"
        using wf_prefix_dir [OF assms, of "length q" q ?k] h(1) len by (cases "?k = length q") (auto simp: dir_at_def)
      moreover have "take ?k q = parts @ [q ! length parts]" using len h(3) by (simp add: take_Suc_conv_app_nth below_def)
      ultimately show ?thesis using in_children [of "q ! length parts" f parts] by (intro bexI [of _ "q ! length parts"]) (auto simp: below_def)
    qed
    then show ?thesis using False ih below_trans by (fastforce simp: Let_def)
  qed
qed

lemma tree_is_listed:
  assumes "wf_fs f" and "distinct (map fst f)"
  shows "tree_leaves f 3 [] = listed_leaves f"
proof (rule sorted_distinct_set_unique)
  show "sorted (tree_leaves f 3 [])" "distinct (tree_leaves f 3 [])" using tree_leaves_sorted [OF assms(2), of 3 "[]"] by (simp_all add: strict_sorted_iff)
  show "sorted (listed_leaves f)" "distinct (listed_leaves f)" using assms(2) by (simp_all add: listed_leaves_def)
  show "set (tree_leaves f 3 []) = set (listed_leaves f)"
    using tree_leaves_set [OF assms(1), of "[]" 3] by (auto simp: listed_leaves_def below_def map_of_eq_None_iff)
qed

section \<open>The scan\<close>

text \<open>No deadline passes and nothing is unreadable.\<close>

definition quiet :: "rs_port \<Rightarrow> bool" where
  "quiet p \<longleftrightarrow> (\<forall>t q. \<not> rp_stopped p t \<and> rp_deny p t q = None)"

fun item_leaves :: "fs \<Rightarrow> nat \<Rightarrow> run_cursor option \<Rightarrow> scan_item \<Rightarrow> string list list" where
  "item_leaves f limit a (Leaf parts) = [parts]"
| "item_leaves f limit a (Expand parts) = page_leaves f limit a (3 - length parts) parts"

lemma item_leaves_child: "length parts \<le> 3 \<Longrightarrow> item_leaves f limit a (child_item parts) = page_leaves f limit a (3 - length parts) parts"
  by (auto simp: child_item_def result_run_dir_depth_def)

lemma children_of_dir: "wf_fs f \<Longrightarrow> \<not> dir_at f parts \<Longrightarrow> children f parts = []"
proof (rule ccontr)
  assume h: "wf_fs f" "\<not> dir_at f parts" "children f parts \<noteq> []"
  then obtain x where "x \<in> set (children f parts)" by (meson last_in_set)
  then obtain n where "map_of f (parts @ [x]) = Some n" by (auto simp: in_children)
  then show False using wf_parent [OF h(1), of "parts @ [x]"] h(2) by simp
qed

lemma expand_leaves:
  assumes "quiet p" and "wf_fs (rw_fs w)" and "length parts < 3"
  shows "\<exists>items w'. expand p limit a parts w = (Inr items, w') \<and> rw_fs w' = rw_fs w
    \<and> concat (map (item_leaves (rw_fs w) limit a) items) = page_leaves (rw_fs w) limit a (3 - length parts) parts"
proof -
  let ?f = "rw_fs w"
  obtain n where n: "3 - length parts = Suc n" using assms(3) by (metis Suc_diff_Suc)
  have names: "item_leaves ?f limit a (child_item (parts @ [x])) = page_leaves ?f limit a n (parts @ [x])" for x
  proof -
    have "3 - length (parts @ [x]) = n" using n by simp
    then show ?thesis using item_leaves_child [of "parts @ [x]" ?f limit a] assms(3) by simp
  qed
  have leaf: "concat (map (item_leaves ?f limit a) (leaf_of parts)) = page_leaves ?f limit a (Suc n) parts" if "children ?f parts = []"
    using that by (simp add: leaf_of_def names_after_def)
  have run: "expand p limit a parts w = (case lstat ?f parts of
         Inl e \<Rightarrow> (if e = not_found then m_ret (leaf_of parts)
           else m_then (operation_failed (scan_failure_name (length parts)) (if parts = [] then ''.'' else run_identifier parts) (exn_name e)) (\<lambda>_. m_ret (leaf_of parts)))
       | Inr n \<Rightarrow> (if parts \<noteq> [] \<and> \<not> is_dir n then m_then (bump (\<lambda>s. s\<lparr>rc_malformed := rc_malformed s + 1\<rparr>)) (\<lambda>_. m_ret [Leaf parts])
           else m_get (\<lambda>w. let names = take (limit + 2) (sort (names_after a parts (children (rw_fs w) parts)))
             in if names = [] then leaf_of parts else map (\<lambda>n. child_item (parts @ [n])) names))) (w\<lparr>rw_tick := Suc (rw_tick w)\<rparr>)"
    using assms(1) by (simp add: expand_def m_then_def [of "stopped p"] stopped_def quiet_def m_then_def [of "m_get _"] m_get_def split: sum.splits)
  show ?thesis
  proof (cases "lstat ?f parts")
    case (Inl e)
    then have "map_of ?f parts = None" using lstat_present [OF assms(2), of parts] by (cases "map_of ?f parts") auto
    then have "children ?f parts = []" using children_of_dir [OF assms(2)] by (simp add: dir_at_def)
    then show ?thesis using leaf n Inl unfolding run by (auto simp: m_ret_def m_then_def operation_failed_def bump_def m_set_def)
  next
    case (Inr m)
    show ?thesis
    proof (cases "parts \<noteq> [] \<and> \<not> is_dir m")
      case True
      then have "\<not> dir_at ?f parts" using lstat_Inr [OF Inr] by (auto simp: dir_at_def)
      then have "children ?f parts = []" by (rule children_of_dir [OF assms(2)])
      then show ?thesis using True Inr n unfolding run by (simp add: m_ret_def m_then_def bump_def m_set_def names_after_def)
    next
      case False
      let ?names = "take (limit + 2) (sort (names_after a parts (children ?f parts)))"
      have "concat (map (item_leaves ?f limit a) (if ?names = [] then leaf_of parts else map (\<lambda>n. child_item (parts @ [n])) ?names)) = page_leaves ?f limit a (Suc n) parts"
        by (simp add: names comp_def leaf_of_def Let_def)
      moreover have "expand p limit a parts w = (Inr (if ?names = [] then leaf_of parts else map (\<lambda>n. child_item (parts @ [n])) ?names), w\<lparr>rw_tick := Suc (rw_tick w)\<rparr>)"
        unfolding run Inr sum.case if_not_P [OF False] m_get_def Let_def by simp
      ultimately show ?thesis unfolding n by (intro exI conjI) (assumption, simp, assumption)
    qed
  qed
qed

lemma snapshot_entries_errors: "quiet p \<Longrightarrow> snapshot_entries p d t es s = Inl e \<Longrightarrow> e = R_file_size"
  by (induction p d t es s rule: snapshot_entries.induct) (auto simp: quiet_def Let_def split: if_splits node.splits)

lemma snapshot_loop_errors: "quiet p \<Longrightarrow> snapshot_loop p f t s = Inl e \<Longrightarrow> is_value_error e"
proof (induction p f t s rule: snapshot_loop.induct)
  case (1 p f t s)
  show ?case
  proof (cases "tt_pending s")
    case Nil
    then show ?thesis using 1(3) by (simp add: snapshot_loop.simps)
  next
    case (Cons d ds)
    have stop: "\<not> rp_stopped p t" using 1(2) by (simp add: quiet_def)
    show ?thesis
    proof (cases "directory_entries f d (rp_max_tree_entries p - tt_entries s)")
      case (Inl x)
      then have "x = R_entries" by (auto simp: directory_entries_def Let_def split: if_splits)
      then show ?thesis using 1(3) Cons stop Inl by (simp add: snapshot_loop.simps is_value_error_def)
    next
      case (Inr es)
      show ?thesis
      proof (cases "snapshot_entries p d (Suc t) es (s\<lparr>tt_pending := ds\<rparr>)")
        case err: (Inl x)
        then show ?thesis using 1(3) Cons stop Inr snapshot_entries_errors [OF 1(2) err] by (simp add: snapshot_loop.simps is_value_error_def)
      next
        case ok: (Inr s')
        then show ?thesis using 1(1) [OF Cons stop Inr ok 1(2)] 1(3) Cons stop Inr by (simp add: snapshot_loop.simps [of p f t s])
      qed
    qed
  qed
qed

lemma lstat_errors: "lstat f q = Inl e \<Longrightarrow> \<exists>n. e = R_os n"
  by (auto simp: lstat_def not_found_def split: if_splits option.splits)

lemma first_error_Inl: "first_error xs = Inl e \<Longrightarrow> Inl e \<in> set xs"
  by (induction xs rule: first_error.induct) auto

lemma checked_errors: "checked_dir p s f = Inl e \<Longrightarrow> is_value_error e \<or> (\<exists>n. e = R_os n)"
proof -
  assume h: "checked_dir p s f = Inl e"
  have link: "link_on_path f q k = Inl x \<Longrightarrow> is_value_error x \<or> (\<exists>n. x = R_os n)" for q k x
    using lstat_errors [of f "take k q"] by (auto simp: link_on_path_def is_value_error_def split: sum.splits node.splits if_splits)
  have "first_error (map (link_on_path f q) ks) = Inl x \<Longrightarrow> is_value_error x \<or> (\<exists>n. x = R_os n)" for q ks x
    using link first_error_Inl [of "map (link_on_path f q) ks" x] by (metis (no_types, lifting) imageE image_set)
  then show ?thesis using h by (auto simp: checked_dir_def checked_result_dir_def Let_def is_value_error_def simp del: list.map split: if_splits prod.splits sum.splits)
qed

lemma error_classes: "\<not> is_value_error R_stop" "is_value_error (R_value m)" "is_os_error (R_os m)"
  by (simp_all add: is_value_error_def is_os_error_def)

lemma scan_run_entry:
  assumes "quiet p"
  shows "\<exists>entry w'. scan_run p cutoff parts w = (Inr entry, w') \<and> se_cursor entry = cursor_of parts \<and> rw_fs w' = rw_fs w"
proof -
  have plain: "\<exists>entry w'. inspected (plain_entry parts) v = (Inr entry, w') \<and> se_cursor entry = cursor_of parts \<and> rw_fs w' = rw_fs v" for v
    by (simp add: inspected_def m_then_def bump_def m_set_def m_ret_def plain_entry_def)
  have after: "\<exists>entry w'. m_then (bump g) (\<lambda>_. inspected (plain_entry parts)) v = (Inr entry, w') \<and> se_cursor entry = cursor_of parts \<and> rw_fs w' = rw_fs v" for g v
    using plain [of "v\<lparr>rw_rec := g (rw_rec v)\<rparr>"] by (simp add: m_then_def bump_def m_set_def)
  show ?thesis
  proof (cases "length parts < result_run_dir_depth")
    case True
    then show ?thesis using plain by (simp add: scan_run_def)
  next
    case deep: False
    let ?snap = "case checked_dir p (store_path p parts) (rw_fs w) of Inl e \<Rightarrow> Inl e
        | Inr d \<Rightarrow> (case tree_snapshot p d (rw_tick w) (rw_fs w) of Inl e \<Rightarrow> Inl e | Inr s \<Rightarrow> Inr (d, s))"
    have deny: "rp_deny p t q = None" for t q using assms by (simp add: quiet_def)
    show ?thesis
    proof (cases "lstat (rw_fs w) parts")
      case (Inl e)
      then show ?thesis using after deep deny
        by (simp add: scan_run_def m_then_def [of "m_get _"] m_get_def operation_failed_def)
    next
      case (Inr n)
      show ?thesis
      proof (cases "is_dir n")
        case False
        then show ?thesis using after deep deny Inr by (simp add: scan_run_def m_then_def [of "m_get _"] m_get_def)
      next
        case dir: True
        show ?thesis
        proof (cases ?snap)
          case err: (Inl e)
          have "e \<noteq> R_stop \<and> (is_os_error e \<or> is_value_error e)"
          proof (cases "checked_dir p (store_path p parts) (rw_fs w)")
            case (Inl x)
            then show ?thesis using err checked_errors [OF Inl] by (auto simp: is_os_error_def is_value_error_def)
          next
            case (Inr d)
            then have "tree_snapshot p d (rw_tick w) (rw_fs w) = Inl e" using err by (auto split: sum.splits)
            then show ?thesis using assms by (auto simp: tree_snapshot_def quiet_def error_classes split: if_splits sum.splits
                  dest: lstat_errors snapshot_loop_errors [OF assms])
          qed
          then show ?thesis using after deep deny Inr dir err
            by (simp add: scan_run_def m_then_def [of "m_get _"] m_get_def operation_failed_def)
        next
          case ok: (Inr x)
          obtain d bytes newest temps where x: "x = (d, bytes, newest, temps)" by (cases x)
          show ?thesis using deep deny Inr dir ok unfolding x
            by (simp add: scan_run_def m_then_def m_get_def bump_def m_set_def m_ret_def stale_temps_def Let_def)
        qed
      qed
    qed
  qed
qed

definition page_result :: "run_cursor list \<Rightarrow> nat \<Rightarrow> string list list \<Rightarrow> run_cursor list \<times> bool" where
  "page_result found limit qs = (take limit (found @ map cursor_of qs), length (found @ map cursor_of qs) \<le> limit)"

lemma scan_loop_pages:
  "quiet p \<Longrightarrow> wf_fs (rw_fs w) \<Longrightarrow> length found \<le> limit \<Longrightarrow>
    \<exists>res w'. scan_loop p cutoff limit a items found w = (Inr res, w') \<and> rw_fs w' = rw_fs w \<and>
      (list_all (\<lambda>i. case i of Expand parts \<Rightarrow> length parts < 3 | Leaf _ \<Rightarrow> True) items \<longrightarrow>
       (map se_cursor (fst res), snd res) = page_result (map se_cursor found) limit (useful a (concat (map (item_leaves (rw_fs w) limit a) items))))"
proof (induction p cutoff limit a items found w rule: scan_loop.induct)
  case (1 p cutoff limit a items found w)
  note prems = 1(5-7)
  show ?case
  proof (cases items)
    case Nil
    then show ?thesis using prems by (simp add: scan_loop.simps [of p] page_result_def useful_def)
  next
    case (Cons i rest)
    show ?thesis
    proof (cases i)
      case (Expand parts)
      show ?thesis
      proof (cases "3 \<le> length parts")
        case True
        then have run: "scan_loop p cutoff limit a items found w = scan_loop p cutoff limit a rest found w"
          using Cons Expand by (simp add: scan_loop.simps [of p cutoff limit a "Expand parts # rest"])
        obtain res w' where "scan_loop p cutoff limit a rest found w = (Inr res, w')" "rw_fs w' = rw_fs w"
          using 1(1) [OF Cons Expand True prems] by blast
        then show ?thesis using True Cons Expand unfolding run by auto
      next
        case False
        obtain new w1 where new: "expand p limit a parts w = (Inr new, w1)" "rw_fs w1 = rw_fs w"
          "concat (map (item_leaves (rw_fs w) limit a) new) = page_leaves (rw_fs w) limit a (3 - length parts) parts"
          using expand_leaves [OF prems(1,2), of parts limit a] False by auto
        have shallow: "list_all (\<lambda>i. case i of Expand parts \<Rightarrow> length parts < 3 | Leaf _ \<Rightarrow> True) new"
          using new(1) False prems(1)
          by (auto simp: expand_def m_then_def m_get_def m_ret_def m_raise_def m_set_def stopped_def bump_def operation_failed_def leaf_of_def Let_def child_item_def
              result_run_dir_depth_def list_all_iff quiet_def split: if_splits prod.splits sum.splits option.splits)
        have run: "scan_loop p cutoff limit a items found w = scan_loop p cutoff limit a (new @ rest) found w1"
          using Cons Expand False new(1) by (simp add: scan_loop.simps [of p cutoff limit a "Expand parts # rest"])
        show ?thesis using 1(2) [OF Cons Expand False new(1) [symmetric] refl prems(1) _ prems(3)] prems(2) new shallow Cons Expand unfolding run
          by (auto simp: useful_append)
      qed
    next
      case (Leaf parts)
      show ?thesis
      proof (cases "case a of None \<Rightarrow> False | Some c \<Rightarrow> cursor_of parts \<le> c")
        case True
        then have "useful a [parts] = []" by (auto simp: useful_def split: option.splits)
        then show ?thesis using 1(3) [OF Cons Leaf True prems] True Cons Leaf
          by (simp add: scan_loop.simps [of p cutoff limit a "Leaf parts # rest"] useful_def split: if_splits)
      next
        case False
        then have keep: "useful a [parts] = [parts]" by (auto simp: useful_def split: option.splits)
        let ?w1 = "w\<lparr>rw_tick := Suc (rw_tick w)\<rparr>"
        have stop: "stopped p w = (Inr False, ?w1)" using prems(1) by (simp add: stopped_def quiet_def)
        have split: "useful a (concat (map (item_leaves (rw_fs w) limit a) items)) = parts # useful a (concat (map (item_leaves (rw_fs w) limit a) rest))"
          using keep Cons Leaf useful_append [of a "[parts]"] by simp
        show ?thesis
        proof (cases "length found \<ge> limit")
          case True
          then have "scan_loop p cutoff limit a items found w = (Inr (found, False), ?w1)"
            using Cons Leaf False stop by (simp add: scan_loop.simps [of p cutoff limit a "Leaf parts # rest"] split: option.splits)
          then show ?thesis using True prems(3) unfolding split by (simp add: page_result_def)
        next
          case room: False
          obtain entry w2 where entry: "scan_run p cutoff parts ?w1 = (Inr entry, w2)" "se_cursor entry = cursor_of parts" "rw_fs w2 = rw_fs ?w1"
            using scan_run_entry [OF prems(1)] by blast
          have run: "scan_loop p cutoff limit a items found w = scan_loop p cutoff limit a rest (found @ [entry]) w2"
            using Cons Leaf False stop room entry(1) by (simp add: scan_loop.simps [of p cutoff limit a "Leaf parts # rest"] split: option.splits)
          have cond: "\<not> (False \<or> limit \<le> length found)" using room by simp
          show ?thesis using 1(4) [OF Cons Leaf False stop [symmetric] refl cond entry(1) [symmetric] refl prems(1)] prems room entry(2,3) Cons Leaf
            unfolding run split by (auto simp: page_result_def)
        qed
      qed
    qed
  qed
qed

text \<open>
  Claim C12. A page of the scan loses and repeats nothing. With no deadline and nothing unreadable, the entries that one scan returns
  are exactly the first \<open>limit\<close> of the sorted list of all leaves of the results directory that lie after the cursor, although the
  scan keeps only \<open>limit + 2\<close> names of every directory; and it reports the end exactly when no further leaf is left.
\<close>

theorem scan_page_is_reference:
  assumes "quiet p" and "wf_fs (rw_fs w)" and "distinct (map fst (rw_fs w))"
  shows "\<exists>entries exhausted w'. scan_artifacts p cutoff limit after_cursor w = (Inr (entries, exhausted), w') \<and> rw_fs w' = rw_fs w
    \<and> map se_cursor entries = take limit (map cursor_of (useful after_cursor (listed_leaves (rw_fs w))))
    \<and> (exhausted \<longleftrightarrow> length (useful after_cursor (listed_leaves (rw_fs w))) \<le> limit)"
proof -
  let ?f = "rw_fs w"
  let ?page = "useful after_cursor (page_leaves ?f limit after_cursor 3 [])" and ?all = "useful after_cursor (listed_leaves ?f)"
  have same: "take (Suc limit) ?page = take (Suc limit) ?all"
    using page_is_tree [OF assms(3), of "[]" 3 limit after_cursor] tree_is_listed [OF assms(2,3)] by simp
  then have "take limit (take (Suc limit) ?page) = take limit (take (Suc limit) ?all)" by simp
  then have "take limit ?page = take limit ?all" by (simp add: min.absorb1)
  then have pages: "take limit (map cursor_of ?page) = take limit (map cursor_of ?all)" by (simp add: take_map)
  have lengths: "length ?page \<le> limit \<longleftrightarrow> length ?all \<le> limit" using arg_cong [OF same, of length] by (auto simp: min_def split: if_splits)
  obtain res w' where run: "scan_loop p cutoff limit after_cursor [Expand []] [] w = (Inr res, w')" "rw_fs w' = ?f"
    "(map se_cursor (fst res), snd res) = page_result [] limit ?page"
    using scan_loop_pages [OF assms(1,2), of "[]" limit cutoff after_cursor "[Expand []]"] by auto
  then show ?thesis using pages lengths by (cases res) (auto simp: scan_artifacts_def page_result_def)
qed

text \<open>In the witness a page of one entry is read from two runs.\<close>

definition scan_files :: fs where
  "scan_files = ([''p'', ''n'', ''s''], Dir 0) # sample_files"

theorem scan_page_is_reference_witness:
  "\<exists>entries exhausted w'. scan_artifacts (sample_store (\<lambda>_ _. None)) 0 1 None (sample_rs scan_files) = (Inr (entries, exhausted), w') \<and> rw_fs w' = rw_fs (sample_rs scan_files)
    \<and> map se_cursor entries = take 1 (map cursor_of (useful None (listed_leaves (rw_fs (sample_rs scan_files)))))
    \<and> (exhausted \<longleftrightarrow> length (useful None (listed_leaves (rw_fs (sample_rs scan_files)))) \<le> 1)"
proof (rule scan_page_is_reference)
  show "quiet (sample_store (\<lambda>_ _. None))" by (simp add: quiet_def sample_store_def)
  show "wf_fs (rw_fs (sample_rs scan_files))"
    by (rule wf_fsI) (auto simp: sample_rs_def scan_files_def sample_files_def dir_at_def split: if_splits)
  show "distinct (map fst (rw_fs (sample_rs scan_files)))" by (simp add: sample_rs_def scan_files_def sample_files_def)
qed

end
