(* ===== verification/Result_Survival.thy ===== *)
theory Result_Survival
  imports Result_Scan
begin

text \<open>
  The reconciliation never removes a result that is indexed or whose run is active, whatever fails, is cancelled or runs out of time,
  and whatever it is told to remove.
\<close>

section \<open>Statements that leave rows and files alone\<close>

definition frame :: "'a action \<Rightarrow> bool" where
  "frame m \<longleftrightarrow> (\<forall>w. rw_rows (snd (m w)) = rw_rows w \<and> rw_fs (snd (m w)) = rw_fs w)"

lemma frameD: "frame m \<Longrightarrow> m w = (r, w') \<Longrightarrow> rw_rows w' = rw_rows w \<and> rw_fs w' = rw_fs w"
  by (metis frame_def snd_conv)

named_theorems framed \<open>statements that leave rows and files alone\<close>

lemma frame_then [framed]: "frame m \<Longrightarrow> (\<And>x. frame (k x)) \<Longrightarrow> frame (m_then m k)"
  by (auto simp: frame_def m_then_def split_def split: sum.splits)

lemma frame_try [framed]: "frame m \<Longrightarrow> (\<And>e. frame (h e)) \<Longrightarrow> frame (m_try m h)"
  by (auto simp: frame_def m_try_def split_def split: sum.splits)

lemma frame_basic [framed]: "frame (m_ret x)" "frame (m_raise e)" "frame (m_get f)" "frame (stopped p)" "frame (bump g)" "frame (of_sum s)"
  "frame (\<lambda>w. (f1 w, w))"
  by (simp_all add: frame_def m_ret_def m_raise_def m_get_def stopped_def bump_def m_set_def of_sum_def)

lemma frame_set: "(\<And>w. rw_rows (g w) = rw_rows w \<and> rw_fs (g w) = rw_fs w) \<Longrightarrow> frame (m_set g)"
  by (simp add: frame_def m_set_def)

lemma frame_if [framed]: "(b \<Longrightarrow> frame m) \<Longrightarrow> (\<not> b \<Longrightarrow> frame n) \<Longrightarrow> frame (if b then m else n)"
  by simp

lemma frame_failures [framed]: "frame (operation_failed a i e)" "frame (record_artifact_failure r k e')"
  unfolding operation_failed_def record_artifact_failure_def by (rule frame_basic)+

lemma frame_validate: "frame (validate_metadata_row p row)"
  unfolding validate_metadata_row_def accept_artifact_def reread_artifact_def
  by (auto intro!: framed frame_set split: sum.splits node.splits prod.splits)

lemma frame_validate_rows [framed]: "frame (validate_metadata_rows p rows)"
  by (induction rows) (auto intro!: framed frame_validate)

lemma frame_forget [framed]: "frame (forget_unlisted_artifacts a rows ex)"
  unfolding forget_unlisted_artifacts_def by (rule frame_set) (simp add: Let_def)

lemma frame_expand: "frame (expand p limit a parts)"
  unfolding expand_def by (auto intro!: framed split: sum.splits)

lemma frame_scan_run: "frame (scan_run p cutoff parts)"
  unfolding scan_run_def inspected_def stale_temps_def Let_def by (auto intro!: framed split: sum.splits prod.splits)

definition entry_ok :: "scanned_entry \<Rightarrow> bool" where
  "entry_ok e = (case se_run e of None \<Rightarrow> True | Some c \<Rightarrow> length (ca_dir c) = 3 \<and> list_all plain_part (ca_dir c))"

lemma checked_plain: "list_all plain_part (rp_cwd p) \<Longrightarrow> checked_dir p s f = Inr d \<Longrightarrow> length d = 3 \<and> list_all plain_part d"
  using abspath_plain [of "rp_cwd p" s] by (auto simp: checked_dir_def checked_result_dir_def Let_def result_run_dir_depth_def list_all_iff
      split: if_splits prod.splits sum.splits dest: in_set_dropD)

lemma scan_run_ok: "list_all plain_part (rp_cwd p) \<Longrightarrow> scan_run p cutoff parts w = (Inr e, w') \<Longrightarrow> entry_ok e"
  by (auto simp: scan_run_def inspected_def stale_temps_def Let_def m_then_def m_get_def m_ret_def m_raise_def bump_def m_set_def operation_failed_def entry_ok_def plain_entry_def
      split: if_splits sum.splits prod.splits dest: checked_plain)

lemma scan_loop_frame:
  "scan_loop p cutoff limit a items found w = (res, w') \<Longrightarrow> list_all plain_part (rp_cwd p) \<Longrightarrow> list_all entry_ok found \<Longrightarrow>
    rw_rows w' = rw_rows w \<and> rw_fs w' = rw_fs w \<and> (case res of Inl _ \<Rightarrow> True | Inr (entries, _) \<Rightarrow> list_all entry_ok entries)"
proof (induction p cutoff limit a items found w arbitrary: res w' rule: scan_loop.induct)
  case (1 p cutoff limit a items found w)
  note run = 1(5) and ok = 1(6,7)
  show ?case
  proof (cases items)
    case Nil
    then show ?thesis using run ok by (auto simp: scan_loop.simps [of p cutoff limit a "[]"])
  next
    case (Cons i rest)
    show ?thesis
    proof (cases i)
      case (Expand parts)
      note unfold = scan_loop.simps [of p cutoff limit a "Expand parts # rest"]
      obtain r w1 where e: "expand p limit a parts w = (r, w1)" by force
      have same: "rw_rows w1 = rw_rows w" "rw_fs w1 = rw_fs w" using frameD [OF frame_expand e] by blast+
      show ?thesis
      proof (cases "3 \<le> length parts")
        case True
        then have "scan_loop p cutoff limit a items found w = scan_loop p cutoff limit a rest found w" using Cons Expand by (simp add: unfold)
        then show ?thesis using 1(1) [OF Cons Expand True _ ok] run by metis
      next
        case False
        show ?thesis
        proof (cases r)
          case (Inl x)
          then show ?thesis using run ok Cons Expand False e same by (auto simp: unfold split: if_splits)
        next
          case (Inr new)
          then have "scan_loop p cutoff limit a items found w = scan_loop p cutoff limit a (new @ rest) found w1" using Cons Expand False e by (simp add: unfold)
          then show ?thesis using 1(2) [OF Cons Expand False e [symmetric] Inr _ ok] run same by metis
        qed
      qed
    next
      case (Leaf parts)
      note unfold = scan_loop.simps [of p cutoff limit a "Leaf parts # rest"]
      show ?thesis
      proof (cases "case a of None \<Rightarrow> False | Some c \<Rightarrow> cursor_of parts \<le> c")
        case True
        then have "scan_loop p cutoff limit a items found w = scan_loop p cutoff limit a rest found w" using Cons Leaf by (simp add: unfold)
        then show ?thesis using 1(3) [OF Cons Leaf True _ ok] run by metis
      next
        case False
        let ?stop = "rp_stopped p (rw_tick w)" and ?w1 = "w\<lparr>rw_tick := Suc (rw_tick w)\<rparr>"
        have stop: "stopped p w = (Inr ?stop, ?w1)" by (simp add: stopped_def)
        show ?thesis
        proof (cases "?stop \<or> limit \<le> length found")
          case True
          then show ?thesis using run ok Cons Leaf False stop by (auto simp: unfold split: option.splits)
        next
          case room: False
          obtain r w2 where e: "scan_run p cutoff parts ?w1 = (r, w2)" by force
          have same: "rw_rows w2 = rw_rows w" "rw_fs w2 = rw_fs w" using frameD [OF frame_scan_run e] by simp_all
          show ?thesis
          proof (cases r)
            case (Inl x)
            then show ?thesis using run ok Cons Leaf False stop room e same by (auto simp: unfold split: option.splits if_splits)
          next
            case (Inr entry)
            then have "list_all entry_ok (found @ [entry])" using scan_run_ok [OF ok(1)] e ok(2) by auto
            moreover have "scan_loop p cutoff limit a items found w = scan_loop p cutoff limit a rest (found @ [entry]) w2"
              using Cons Leaf False stop room e Inr by (simp add: unfold split: option.splits)
            ultimately show ?thesis using 1(4) [OF Cons Leaf False stop [symmetric] refl room e [symmetric] Inr _ ok(1)] run same by metis
          qed
        qed
      qed
    qed
  qed
qed

section \<open>What is protected\<close>

text \<open>
  The directory \<open>d\<close> holds an artifact with the bytes \<open>c\<close>; with \<open>ref = Some r\<close>, the row \<open>r\<close> is stored. \<open>guarded\<close> says why the
  reconciliation must leave it: the row names the directory, or else the run is active.
\<close>

definition prot :: "string list \<Rightarrow> result_row option \<Rightarrow> string \<Rightarrow> rs_world \<Rightarrow> bool" where
  "prot d ref c w \<longleftrightarrow> set_option ref \<subseteq> set (rw_rows w) \<and> dirs_made (rw_fs w) d \<and> content_at (rw_fs w) (artifact d) = Some c"

definition guarded :: "rs_port \<Rightarrow> string list \<Rightarrow> result_row option \<Rightarrow> bool" where
  "guarded p d ref = (case ref of
       Some r \<Rightarrow> rr_project r = d ! 0 \<and> rr_run_id r = d ! 2 \<and> (\<exists>f. checked_dir p (rr_file_path r) f = Inr d)
     | None \<Rightarrow> length d = 3 \<and> (case rp_active p of None \<Rightarrow> False | Some h \<Rightarrow> \<forall>t. h t d \<noteq> Inr False))"

lemma guarded_length: "guarded p d ref \<Longrightarrow> length d = 3"
  by (auto simp: guarded_def checked_length split: option.splits)

lemma prot_fields [simp]:
  "prot d ref c (w\<lparr>rw_tick := n\<rparr>) = prot d ref c w" "prot d ref c (w\<lparr>rw_rec := s\<rparr>) = prot d ref c w"
  "prot d ref c (w\<lparr>rw_cursors := k\<rparr>) = prot d ref c w" "prot d ref c (w\<lparr>rw_validated := v\<rparr>) = prot d ref c w"
  by (simp_all add: prot_def)

lemma prot_fs:
  assumes "prot d ref c w" and "\<And>k. k \<le> 3 \<Longrightarrow> map_of g (take k d) = map_of (rw_fs w) (take k d)" and "map_of g (artifact d) = map_of (rw_fs w) (artifact d)"
  shows "prot d ref c (w\<lparr>rw_fs := g\<rparr>)"
  using assms by (simp add: prot_def dirs_made_def dir_at_def content_at_def)

lemma prot_paths:
  assumes "prot d ref c w" and "length d = 3"
  shows "k \<le> 3 \<Longrightarrow> dir_at (rw_fs w) (take k d)" and "\<exists>i t. map_of (rw_fs w) (artifact d) = Some (Regular c i t)"
  using assms by (auto simp: prot_def dirs_made_def content_at_def split: option.splits node.splits)

lemma checked_again:
  assumes "checked_dir p s f = Inr d" and "dirs_made g d"
  shows "checked_dir p s g = Inr d"
proof -
  have "link_on_path g d k = Inr ()" if "k \<le> 3" for k
  proof -
    have "lstat g (take k d) = Inr n \<Longrightarrow> is_dir n" for n using lstat_Inr [of g "take k d" n] assms(2) that by (fastforce simp: dirs_made_def dir_at_def)
    moreover have "lstat g (take k d) \<noteq> Inl e" if "e \<noteq> not_found" for e
    proof -
      have "dir_at g (take j (take k d))" if "j < length (take k d)" for j
        using assms(2) \<open>k \<le> 3\<close> that by (auto simp: dirs_made_def min_def)
      then have "\<not> list_ex (\<lambda>j. case map_of g (take j (take k d)) of Some (Regular _ _ _) \<Rightarrow> True | _ \<Rightarrow> False) [0..<length (take k d)]"
        by (fastforce simp: list_ex_iff dir_at_def)
      then show ?thesis using \<open>e \<noteq> not_found\<close> unfolding lstat_def by (auto split: option.splits)
    qed
    ultimately show ?thesis by (fastforce simp: link_on_path_def is_dir_def split: sum.splits node.splits)
  qed
  then have "first_error (map (link_on_path g d) [1, 2, 3]) = Inr ()" by simp
  then show ?thesis using assms(1) by (auto simp: checked_dir_def checked_result_dir_def Let_def simp del: list.map split: if_splits prod.splits sum.splits)
qed

section \<open>Files that are removed\<close>

lemma prot_remove_empty:
  assumes "prot d ref c w" and "length d = 3"
  shows "prot d ref c (w\<lparr>rw_fs := remove_empty q (rw_fs w)\<rparr>)"
proof (cases "(\<exists>k \<le> 3. q = take k d) \<or> q = artifact d")
  case False
  then show ?thesis using remove_empty_keeps by (intro prot_fs [OF assms(1)]) metis+
next
  case True
  note paths = prot_paths [OF assms]
  have "remove_empty q (rw_fs w) = rw_fs w"
  proof (cases "q = artifact d")
    case True
    then show ?thesis using paths(2) by (auto simp: remove_empty_def dest: lstat_Inr split: sum.splits node.splits)
  next
    case False
    then obtain k where k: "k \<le> 3" "q = take k d" using True by blast
    have "map_of (rw_fs w) (if k = 3 then artifact d else take (Suc k) d) \<noteq> None" (is "map_of _ ?r \<noteq> None")
      using paths(2) paths(1) [of "Suc k"] k by (auto simp: dir_at_def)
    moreover have "?r \<noteq> []" "butlast ?r = q" using k assms(2) artifact_path(2,3) by (auto simp: butlast_take)
    ultimately have "children (rw_fs w) q \<noteq> []" using children_none by blast
    then show ?thesis by (simp add: remove_empty_def split: sum.splits node.splits)
  qed
  then show ?thesis using assms(1) by (simp add: prot_def)
qed

lemma prot_prune: "prot d ref c w \<Longrightarrow> length d = 3 \<Longrightarrow> prot d ref c (w\<lparr>rw_fs := prune_empty_namespace q (rw_fs w)\<rparr>)"
  using prot_remove_empty [of d ref c w] prot_remove_empty [of d ref c "w\<lparr>rw_fs := remove_empty q (rw_fs w)\<rparr>" "take 1 q"]
  by (simp add: prune_empty_namespace_def Let_def)

lemma other_run:
  assumes "length d = 3" and "length q = 3" and "q \<noteq> d"
  shows "k \<le> 3 \<Longrightarrow> \<not> below q (take k d)" and "\<not> below q (artifact d)"
proof -
  assume "k \<le> 3"
  show "\<not> below q (take k d)"
  proof
    assume "below q (take k d)"
    then have "take 3 (take k d) = q" using assms(2) by (simp add: below_def)
    moreover have "length (take 3 (take k d)) = 3" using calculation assms(2) by simp
    ultimately show False using assms \<open>k \<le> 3\<close> by (auto simp: min_def split: if_splits)
  qed
next
  show "\<not> below q (artifact d)" using assms by (simp add: below_def artifact_def)
qed

lemma prot_filter:
  assumes "prot d ref c w" and "\<And>k. k \<le> 3 \<Longrightarrow> P (take k d)" and "P (artifact d)"
  shows "prot d ref c (w\<lparr>rw_fs := filter (\<lambda>(q, _). P q) (rw_fs w)\<rparr>)"
  using assms by (intro prot_fs) (simp_all add: map_of_filter_path)

lemma temp_name_is_not_result: "\<not> atomic_temp_name ''results.json''"
  by code_simp

lemma prot_temp:
  assumes "prot d ref c w" and "length d = 3" and "check_temp cutoff newest q (rw_fs w) = Inr (x, g)"
  shows "prot d ref c (w\<lparr>rw_fs := g\<rparr>)"
proof (cases "g = rw_fs w")
  case True
  then show ?thesis using assms(1) by (simp add: prot_def)
next
  case False
  then obtain s i t where q: "map_of (rw_fs w) q = Some (Regular s i t)" "atomic_temp_name (last q)" "g = fs_drop q (rw_fs w)"
    using assms(3) by (auto simp: check_temp_def dest!: lstat_Inr split: sum.splits node.splits if_splits)
  have "q \<noteq> take k d" if "k \<le> 3" for k using prot_paths(1) [OF assms(1,2) that] q(1) by (auto simp: dir_at_def)
  moreover have "q \<noteq> artifact d" using q(2) temp_name_is_not_result by (auto simp: artifact_def)
  ultimately show ?thesis using assms(1) unfolding q(3) by (intro prot_fs) auto
qed


section \<open>Statements that keep what is protected\<close>

definition preserves :: "(rs_world \<Rightarrow> bool) \<Rightarrow> 'a action \<Rightarrow> bool" where
  "preserves I m \<longleftrightarrow> triple I m (\<lambda>_. I) (\<lambda>_. I)"

named_theorems kept \<open>statements that keep the protected run\<close>

lemma preserves_then [kept]: "preserves I m \<Longrightarrow> (\<And>x. preserves I (k x)) \<Longrightarrow> preserves I (m_then m k)"
  unfolding preserves_def by (rule t_then)

lemma preserves_try [kept]: "preserves I m \<Longrightarrow> (\<And>e. preserves I (h e)) \<Longrightarrow> preserves I (m_try m h)"
  unfolding preserves_def by (rule t_try)

lemma preserves_basic [kept]: "preserves I (m_ret x)" "preserves I (m_raise e)" "preserves I (m_get f)" "preserves I (of_sum s)"
  by (simp_all add: preserves_def triple_def m_ret_def m_raise_def m_get_def of_sum_def split: sum.splits)

lemma preserves_if [kept]: "(b \<Longrightarrow> preserves I m) \<Longrightarrow> (\<not> b \<Longrightarrow> preserves I n) \<Longrightarrow> preserves I (if b then m else n)"
  by simp

lemma preserves_option [kept]: "(x = None \<Longrightarrow> preserves I m) \<Longrightarrow> (\<And>y. x = Some y \<Longrightarrow> preserves I (k y)) \<Longrightarrow> preserves I (case x of None \<Rightarrow> m | Some y \<Rightarrow> k y)"
  by (cases x) simp_all

lemma preserves_pair [kept]: "(\<And>a b. x = (a, b) \<Longrightarrow> preserves I (k a b)) \<Longrightarrow> preserves I (case x of (a, b) \<Rightarrow> k a b)"
  by (cases x) simp

lemma preserves_frame: "frame m \<Longrightarrow> preserves (prot d ref c) m"
  unfolding preserves_def triple_def by (auto dest: frameD simp: prot_def split: prod.splits sum.splits)

lemma preserves_set: "(\<And>w. prot d ref c w \<Longrightarrow> prot d ref c (g w)) \<Longrightarrow> preserves (prot d ref c) (m_set g)"
  by (simp add: preserves_def triple_def m_set_def)

lemma preserves_files: "(\<And>w x f. prot d ref c w \<Longrightarrow> g (rw_fs w) = Inr (x, f) \<Longrightarrow> prot d ref c (w\<lparr>rw_fs := f\<rparr>)) \<Longrightarrow> preserves (prot d ref c) (on_files g)"
  unfolding preserves_def by (rule t_files)

lemma preserves_small [kept]: "preserves (prot d ref c) (bump g)" "preserves (prot d ref c) (stopped p)" "preserves (prot d ref c) (operation_failed a i e)"
  "preserves (prot d ref c) (stop_requested p timed)" "preserves (prot d ref c) (forget_unlisted_artifacts n rows ex)"
  unfolding stop_requested_def by (rule preserves_frame, intro framed)+

text \<open>The environment: no other task removes the artifact or the row.\<close>

definition spares :: "rs_port \<Rightarrow> string list \<Rightarrow> result_row option \<Rightarrow> string \<Rightarrow> bool" where
  "spares p d ref c \<longleftrightarrow> (\<forall>t w. prot d ref c w \<longrightarrow> prot d ref c (rp_env p t w))"

lemma spares_step: "spares p d ref c \<Longrightarrow> prot d ref c w \<Longrightarrow> prot d ref c (r_interfere p w)"
  by (simp add: spares_def r_interfere_def)

lemma preserves_io:
  assumes "spares p d ref c" and "\<And>t. preserves (prot d ref c) (f t)" and "\<And>t w. prot d ref c w \<Longrightarrow> prot d ref c (part t w)"
  shows "preserves (prot d ref c) (r_io p l part f)"
  unfolding preserves_def
  by (rule t_io [where R = "prot d ref c" and F = "\<lambda>_. prot d ref c"]) (use assms(2) [unfolded preserves_def] assms(3) spares_step [OF assms(1)] in auto)

lemma preserves_unchanged: "spares p d ref c \<Longrightarrow> (\<And>t. preserves (prot d ref c) (f t)) \<Longrightarrow> preserves (prot d ref c) (r_io p l unchanged f)"
  by (rule preserves_io) (simp_all add: unchanged_def)

section \<open>The answers that protect\<close>

lemma t_referenced:
  assumes "spares p d (Some r) c" and "guarded p d (Some r)"
  shows "triple (prot d (Some r) c) (metadata_references p d) (\<lambda>yes w. prot d (Some r) c w \<and> yes) (\<lambda>_. prot d (Some r) c)"
  unfolding metadata_references_def
proof (rule t_then [where R = "\<lambda>rows w. prot d (Some r) c w \<and> r \<in> set rows"])
  have row: "rr_project r = d ! 0" "rr_run_id r = d ! 2" using assms(2) by (simp_all add: guarded_def)
  show "triple (prot d (Some r) c) (select p (filter (\<lambda>r. rr_project r = d ! 0 \<and> rr_run_id r = d ! 2))) (\<lambda>rows w. prot d (Some r) c w \<and> r \<in> set rows) (\<lambda>_. prot d (Some r) c)"
    unfolding select_def
  proof (rule t_io [where R = "prot d (Some r) c" and F = "\<lambda>_. prot d (Some r) c"])
    show "triple (prot d (Some r) c) (m_get (\<lambda>w. filter (\<lambda>r. rr_project r = d ! 0 \<and> rr_run_id r = d ! 2) (rw_rows w)))
        (\<lambda>rows w. prot d (Some r) c w \<and> r \<in> set rows) (\<lambda>_. prot d (Some r) c)" for t :: nat
      by (rule t_get) (simp add: prot_def row)
  qed (use spares_step [OF assms(1)] in \<open>simp_all add: unchanged_def\<close>)
  fix rows
  obtain f where f: "checked_dir p (rr_file_path r) f = Inr d" using assms(2) by (auto simp: guarded_def)
  show "triple (\<lambda>w. prot d (Some r) c w \<and> r \<in> set rows) (m_get (\<lambda>w. list_ex (\<lambda>r. checked_dir p (rr_file_path r) (rw_fs w) = Inr d) rows))
      (\<lambda>yes w. prot d (Some r) c w \<and> yes) (\<lambda>_. prot d (Some r) c)"
    by (rule t_get) (use checked_again [OF f] in \<open>auto simp: list_ex_iff prot_def\<close>)
qed

lemma t_active:
  assumes "spares p d None c" and "guarded p d None"
  shows "triple (prot d None c) (active_or_failed p d nm) (\<lambda>yes w. prot d None c w \<and> yes) (\<lambda>_. prot d None c)"
proof -
  obtain h where h: "rp_active p = Some h" "\<And>t. h t d \<noteq> Inr False" using assms(2) by (auto simp: guarded_def split: option.splits)
  have one: "triple (prot d None c) (of_sum (h t d)) (\<lambda>yes w. prot d None c w \<and> yes) (\<lambda>_. prot d None c)" for t
    using h(2) [of t] by (auto simp: triple_def of_sum_def split: sum.splits)
  have "triple (prot d None c) (active_run p d) (\<lambda>yes w. prot d None c w \<and> yes) (\<lambda>_. prot d None c)"
    unfolding active_run_def h(1) option.case
    by (rule t_io [where R = "prot d None c" and F = "\<lambda>_. prot d None c"]) (use spares_step [OF assms(1)] one in \<open>auto simp: unchanged_def\<close>)
  then show ?thesis unfolding active_or_failed_def
    by (rule t_try) (auto intro!: t_then [where R = "\<lambda>_. prot d None c"] t_ret t_raise preserves_small(3) [unfolded preserves_def])
qed


section \<open>The reconciliation\<close>

lemma preserves_reference: "spares p d ref c \<Longrightarrow> preserves (prot d ref c) (metadata_references p q)"
  unfolding metadata_references_def select_def by (intro kept preserves_unchanged)

lemma preserves_active: "spares p d ref c \<Longrightarrow> preserves (prot d ref c) (active_or_failed p q nm)"
  unfolding active_or_failed_def active_run_def by (intro kept preserves_unchanged)

lemma preserves_settle: "preserves (prot d ref c) m \<Longrightarrow> preserves (prot d ref c) (settle_removal nm q count m)"
  unfolding settle_removal_def by (intro kept) (auto intro!: kept split: removal.splits)

lemma preserves_remove_run:
  assumes "spares p d ref c" and "length d = 3" and "list_all plain_part (rp_cwd p)" and "length (ca_dir x) = 3" and "list_all plain_part (ca_dir x)" and "ca_dir x \<noteq> d"
  shows "preserves (prot d ref c) (remove_run_candidate p cutoff timed x)"
  unfolding remove_run_candidate_def
proof (rule preserves_io [OF assms(1)])
  note other = other_run [OF assms(2,4,6)]
  fix t w
  assume "prot d ref c w"
  then show "prot d ref c (w\<lparr>rw_fs := filter (\<lambda>(q, _). below (ca_dir x) q \<longrightarrow> rp_survives p t q) (rw_fs w)\<rparr>)"
    using other by (intro prot_filter [where P = "\<lambda>q. below (ca_dir x) q \<longrightarrow> rp_survives p t q"]) auto
next
  note other = other_run [OF assms(2,4,6)]
  fix t
  have same: "q = ca_dir x" if "checked_dir p (store_path p (ca_dir x)) f = Inr q" for q f
    using that store_path_abspath [OF assms(3,5)] by (auto simp: checked_dir_def checked_result_dir_def Let_def split: if_splits sum.splits)
  have removed: "prot d ref c (w\<lparr>rw_fs := prune_empty_namespace q (remove_tree (ca_dir x) (rw_fs w))\<rparr>)" if "prot d ref c w" for w q
    using prot_prune [OF prot_filter [OF that, where P = "\<lambda>q. \<not> below (ca_dir x) q"] assms(2)] other by (simp add: remove_tree_def)
  show "preserves (prot d ref c) (on_files (\<lambda>f. case checked_dir p (store_path p (ca_dir x)) f of
         Inl e \<Rightarrow> Inl e
       | Inr d \<Rightarrow> (case snapshot_now p timed d t f of
           Inl e \<Rightarrow> if e = not_found then Inr ((Missing, 0), f) else Inl e
         | Inr (bytes, newest, _) \<Rightarrow> if newest \<ge> cutoff then Inr ((Recent, 0), f)
             else Inr ((Removed, bytes), prune_empty_namespace (take 2 d) (remove_tree d f)))))"
    by (rule preserves_files) (auto dest!: same simp: removed split: sum.splits if_splits)
qed

lemma preserves_remove_temp:
  assumes "spares p d ref c" and "length d = 3"
  shows "preserves (prot d ref c) (remove_temp_candidate p cutoff timed q tmp)"
  unfolding remove_temp_candidate_def
  by (rule preserves_unchanged [OF assms(1)], rule preserves_files)
    (auto simp: missing_ok_def split: sum.splits if_splits dest: prot_temp [OF _ assms(2)])

lemma preserves_temps:
  assumes "spares p d ref c" and "length d = 3"
  shows "preserves (prot d ref c) (reconcile_temps p cutoff dry timed q temps)"
  by (induction temps) (auto intro!: kept preserves_active preserves_settle preserves_remove_temp assms)

text \<open>In the protected directory, one of the checks stops the removal.\<close>

lemma preserves_orphan:
  assumes "spares p d ref c" and "guarded p d ref" and "list_all plain_part (rp_cwd p)" and "length (ca_dir x) = 3" and "list_all plain_part (ca_dir x)"
  shows "preserves (prot d ref c) (reconcile_orphan p cutoff dry timed x)"
proof (cases "ca_dir x = d")
  case False
  note len = guarded_length [OF assms(2)]
  show ?thesis unfolding reconcile_orphan_def
    by (intro kept preserves_active preserves_reference preserves_settle preserves_remove_run assms len False)
next
  case True
  let ?I = "prot d ref c"
  have stop: "triple (\<lambda>w. ?I w \<and> yes) (if yes then m else n) (\<lambda>_. ?I) (\<lambda>_. ?I)" if "preserves ?I m" for yes and m n :: "bool action"
    using that by (cases yes) (auto simp: preserves_def intro: t_false)
  show ?thesis
  proof (cases ref)
    case None
    have act: "preserves ?I (m_then (active_or_failed p d nm) (\<lambda>yes. if yes then m else n yes))" if "preserves ?I m" for nm m and n :: "bool \<Rightarrow> bool action"
      unfolding preserves_def using t_active assms(1,2) stop [OF that] None by (intro t_then [where R = "\<lambda>yes w. ?I w \<and> yes"]) auto
    show ?thesis unfolding reconcile_orphan_def True by (intro kept act)
  next
    case (Some r)
    have refd: "preserves ?I (m_then (metadata_references p d) (\<lambda>yes. if yes then m else n yes))" if "preserves ?I m" for m and n :: "bool \<Rightarrow> bool action"
      unfolding preserves_def using t_referenced assms(1,2) stop [OF that] Some by (intro t_then [where R = "\<lambda>yes w. ?I w \<and> yes"]) auto
    show ?thesis unfolding reconcile_orphan_def True by (intro preserves_if preserves_then [OF preserves_small(1)] preserves_then [OF preserves_active [OF assms(1)]] refd preserves_basic)
  qed
qed

lemma preserves_entry:
  assumes "spares p d ref c" and "guarded p d ref" and "list_all plain_part (rp_cwd p)" and "entry_ok e"
  shows "preserves (prot d ref c) (reconcile_scanned_entry p cutoff dry timed e)"
  unfolding reconcile_scanned_entry_def
proof (rule preserves_option)
  assume "se_run e = None"
  show "preserves (prot d ref c) (if \<not> dry \<and> snd (snd (se_cursor e)) = []
         then m_then (r_io p S_prune unchanged (\<lambda>t. m_set (\<lambda>w. w\<lparr>rw_fs := prune_empty_namespace (filter (\<lambda>x. x \<noteq> []) (cursor_parts (se_cursor e))) (rw_fs w)\<rparr>)))
           (\<lambda>_. m_ret True)
         else m_ret True)"
    by (intro kept preserves_unchanged preserves_set prot_prune assms guarded_length [OF assms(2)])
next
  fix x
  assume "se_run e = Some x"
  then have "length (ca_dir x) = 3" "list_all plain_part (ca_dir x)" using assms(4) by (simp_all add: entry_ok_def)
  then show "preserves (prot d ref c) (m_then (metadata_references p (ca_dir x)) (\<lambda>referenced.
         if referenced then reconcile_temps p cutoff dry timed (ca_dir x) (se_temps e) else reconcile_orphan p cutoff dry timed x))"
    by (intro kept preserves_reference preserves_temps preserves_orphan assms guarded_length [OF assms(2)])
qed

lemma preserves_entries:
  assumes "spares p d ref c" and "guarded p d ref" and "list_all plain_part (rp_cwd p)"
  shows "list_all entry_ok es \<Longrightarrow> preserves (prot d ref c) (reconcile_entries p cutoff dry later es cursor)"
  by (induction es arbitrary: later cursor) (auto intro!: kept preserves_entry assms)

lemma t_scan:
  assumes "spares p d ref c" and "list_all plain_part (rp_cwd p)"
  shows "triple (prot d ref c) (r_io p S_scan unchanged (\<lambda>t. scan_artifacts p cutoff limit cursor))
     (\<lambda>(es, _) w. prot d ref c w \<and> list_all entry_ok es) (\<lambda>_. prot d ref c)"
proof (rule t_io [where R = "prot d ref c" and F = "\<lambda>_. prot d ref c"])
  fix t
  show "triple (prot d ref c) (scan_artifacts p cutoff limit cursor) (\<lambda>(es, _) w. prot d ref c w \<and> list_all entry_ok es) (\<lambda>_. prot d ref c)"
    unfolding triple_def scan_artifacts_def
    by (auto simp: prot_def split: prod.splits sum.splits dest!: scan_loop_frame [OF _ assms(2)])
qed (use spares_step [OF assms(1)] in \<open>auto simp: unchanged_def split: prod.splits\<close>)

lemma preserves_filesystem_page:
  assumes "spares p d ref c" and "guarded p d ref" and "list_all plain_part (rp_cwd p)"
  shows "preserves (prot d ref c) (filesystem_page p cutoff dry limit cursor)"
proof -
  let ?I = "prot d ref c"
  have scan: "triple ?I (if stop then m_ret ([], False) else r_io p S_scan unchanged (\<lambda>t. scan_artifacts p cutoff limit cursor))
      (\<lambda>(es, _) w. ?I w \<and> list_all entry_ok es) (\<lambda>_. ?I)" for stop
    using t_scan [OF assms(1,3)] by (auto intro!: t_ret)
  have rest: "triple (case x of (es, _) \<Rightarrow> \<lambda>w. ?I w \<and> list_all entry_ok es) (case x of (entries, all_scanned) \<Rightarrow>
       m_then (reconcile_entries p cutoff dry False entries cursor) (\<lambda>(next_cursor, all_done).
       m_ret (if all_scanned \<and> all_done then None else next_cursor, all_scanned \<and> all_done))) (\<lambda>_. ?I) (\<lambda>_. ?I)" for x
  proof (cases x)
    case (Pair es all)
    have "list_all entry_ok es \<Longrightarrow> preserves ?I (m_then (reconcile_entries p cutoff dry False es cursor) (\<lambda>(next_cursor, all_done).
       m_ret (if all \<and> all_done then None else next_cursor, all \<and> all_done)))"
      by (intro kept preserves_entries assms)
    then show ?thesis unfolding Pair preserves_def prod.case by (cases "list_all entry_ok es") (simp_all add: t_false)
  qed
  show ?thesis unfolding filesystem_page_def
    by (intro preserves_if preserves_basic preserves_then [OF preserves_small(2)])
      (use scan rest in \<open>unfold preserves_def, intro t_then [OF scan], simp add: case_prod_unfold\<close>)
qed

lemma preserves_metadata_page: "spares p d ref c \<Longrightarrow> preserves (prot d ref c) (metadata_page p limit cursor)"
  unfolding metadata_page_def select_def Let_def by (intro kept preserves_unchanged preserves_frame [OF frame_validate_rows])

lemma preserves_cursors: "spares p d ref c \<Longrightarrow> preserves (prot d ref c) (load_cursors p)" "spares p d ref c \<Longrightarrow> preserves (prot d ref c) (save_cursors p m k)"
  unfolding load_cursors_def save_cursors_def
  by (intro preserves_unchanged, simp, simp add: preserves_def triple_def split: option.splits)+

lemma preserves_reconciliation:
  assumes "spares p d ref c" and "guarded p d ref" and "list_all plain_part (rp_cwd p)"
  shows "preserves (prot d ref c) (reconcile_artifacts p grace dry now batch ml fl)"
  unfolding reconcile_artifacts_def reconcile_artifact_page_def Let_def
  by (intro kept preserves_cursors preserves_metadata_page preserves_filesystem_page preserves_set assms) simp


text \<open>
  Claim C9. The reconciliation never loses a live result. A run directory whose artifact is indexed by a stored row, or whose run the
  job store reports as active (or cannot tell), keeps its directories, its row and the bytes of its artifact through
  \<open>reconcile_artifacts\<close>, for every limit, deadline, fault and cancellation at any statement, and every interleaving of other tasks
  that do not themselves remove it.
\<close>

theorem indexed_result_survives:
  assumes "spares p d ref c" and "guarded p d ref" and "list_all plain_part (rp_cwd p)" and "prot d ref c w"
  shows "prot d ref c (snd (reconcile_artifacts p grace dry now batch metadata_limit filesystem_limit w))"
proof -
  obtain r w' where run: "reconcile_artifacts p grace dry now batch metadata_limit filesystem_limit w = (r, w')" by force
  then show ?thesis using t_run [OF preserves_reconciliation [OF assms(1-3), unfolded preserves_def] assms(4) run] by (auto split: sum.splits)
qed

text \<open>In the witness the row names the old run directory of the sample, and every removal fails half way.\<close>

definition sample_row :: result_row where
  "sample_row = \<lparr>rr_id = 1, rr_job_id = ''j'', rr_project = ''p'', rr_run_id = ''r'', rr_status = ''complete'', rr_record_count = None,
     rr_file_path = ''/d/p/n/r'', rr_created_at = 0\<rparr>"

definition broken_store :: rs_port where
  "broken_store = sample_store (\<lambda>l _. if l = S_remove then Some (Fails (R_os ''OSError'')) else None)"

theorem indexed_result_survives_witness:
  "prot [''p'', ''n'', ''r''] (Some sample_row) ''1'' (snd (reconcile_artifacts broken_store 1 False 1000 10 None None ((sample_rs scan_files)\<lparr>rw_rows := [sample_row]\<rparr>)))"
proof (rule indexed_result_survives)
  show "spares broken_store [''p'', ''n'', ''r''] (Some sample_row) ''1''" by (simp add: spares_def broken_store_def sample_store_def)
  have "checked_dir broken_store ''/d/p/n/r'' [] = Inr [''p'', ''n'', ''r'']" by code_simp
  then show "guarded broken_store [''p'', ''n'', ''r''] (Some sample_row)" by (auto simp: guarded_def sample_row_def)
  show "list_all plain_part (rp_cwd broken_store)" by (simp add: broken_store_def sample_store_def)
  show "prot [''p'', ''n'', ''r''] (Some sample_row) ''1'' ((sample_rs scan_files)\<lparr>rw_rows := [sample_row]\<rparr>)"
    by (auto simp: prot_def dirs_made_def dir_at_def content_at_def artifact_def sample_rs_def scan_files_def sample_files_def le_Suc_eq numeral_3_eq_3)
qed

end
