(* ===== verification/Pagination.thy ===== *)
theory Pagination
  imports URL_Guard Fetch_Classifier Statements
begin

text \<open>
  Following the pages of a listing, \<^verbatim>\<open>engine/pagination.py\<close>.

  \<^item> \<open>page_world\<close> holds the result that is filled in, and the history of the loop: the URLs that were fetched and the pages that
    were added to the result, each with the key of its final URL and its records.
  \<^item> The port has what the loop calls: fetching a page (with its retries, pacing and guards), selecting and extracting on a run thread,
    SHA-256, the checkpoints and deadlines (\<open>pp_fault\<close>), and the DNS of the URL guard, at each step of the task's clock. A page is a
    value of any type. An element is what its two attribute lookups answer for \<^verbatim>\<open>href\<close>; an outer \<open>None\<close> is a lookup that does not
    exist.
  \<^item> \<open>PG_stop\<close> is a \<open>ScrapeStop\<close>: Scrapeyard itself refused to make the request.
\<close>

section \<open>URLs of pages\<close>

text \<open>\<^verbatim>\<open>urlsplit\<close> and \<^verbatim>\<open>urlparse\<close> with a default scheme, and \<^verbatim>\<open>urljoin\<close>, of \<^verbatim>\<open>urllib.parse\<close>.\<close>

definition urlsplit_from :: "string \<Rightarrow> string \<Rightarrow> split_url option" where
  "urlsplit_from dflt text0 = (let url0 = filter (\<lambda>c. c \<notin> {CHR 0x09, CHR 0x0A, CHR 0x0D}) (dropWhile c0_or_space text0);
       (scheme0, url1) = split_scheme url0; scheme = (if scheme0 = [] then dflt else scheme0);
       (netloc, url2) = (if starts_with ''//'' url1 then (takeWhile is_netloc_char (drop 2 url1), dropWhile is_netloc_char (drop 2 url1)) else ([], url1));
       fragment = after_first CHR ''#'' url2; url3 = before_first CHR ''#'' url2;
       query = after_first CHR ''?'' url3; path = before_first CHR ''?'' url3
     in if \<not> netloc_ok netloc then None
        else Some \<lparr>u_scheme = scheme, u_netloc = netloc, u_path = path, u_params = [], u_query = query, u_fragment = fragment\<rparr>)"

definition urlsplit :: "string \<Rightarrow> split_url option" where
  "urlsplit url = urlsplit_from [] url"

definition urlparse_from :: "string \<Rightarrow> string \<Rightarrow> split_url option" where
  "urlparse_from dflt url = map_option (\<lambda>u. let (path, params) = split_path_params (u_scheme u) (u_path u)
     in u\<lparr>u_path := path, u_params := params\<rparr>) (urlsplit_from dflt url)"

definition uses_relative :: "string list" where
  "uses_relative = ['''', ''ftp'', ''http'', ''gopher'', ''nntp'', ''imap'', ''wais'', ''file'', ''https'', ''shttp'', ''mms'', ''prospero'',
     ''rtsp'', ''rtsps'', ''rtspu'', ''sftp'', ''svn'', ''svn+ssh'', ''ws'', ''wss'']"

text \<open>The segments of a joined path: empty ones between the first and the last are dropped, and dots are resolved.\<close>

definition joined_segments :: "string \<Rightarrow> string \<Rightarrow> string list" where
  "joined_segments bpath path = (if starts_with ''/'' path then split_on CHR ''/'' path
     else let parts = split_on CHR ''/'' bpath; base = (if last parts \<noteq> [] then butlast parts else parts);
              segments = base @ split_on CHR ''/'' path
          in take 1 segments @ filter (\<lambda>s. s \<noteq> []) (butlast (drop 1 segments)) @ (if length segments > 1 then [last segments] else []))"

definition resolve_dots :: "string list \<Rightarrow> string list" where
  "resolve_dots segments = foldl (\<lambda>acc s. if s = ''..'' then butlast acc else if s = ''.'' then acc else acc @ [s]) [] segments
     @ (if last segments \<in> {''.'', ''..''} then [[]] else [])"

definition urljoin :: "string \<Rightarrow> string \<Rightarrow> string option" where
  "urljoin base url = (if base = [] then Some url else if url = [] then Some base
     else case urlparse base of
       None \<Rightarrow> None
     | Some b \<Rightarrow> (case urlparse_from (u_scheme b) url of
         None \<Rightarrow> None
       | Some u \<Rightarrow>
           if u_scheme u \<noteq> u_scheme b \<or> u_scheme u \<notin> set uses_relative then Some url
           else if u_scheme u \<in> set uses_netloc \<and> u_netloc u \<noteq> [] then Some (urlunparse u)
           else let v = (if u_scheme u \<in> set uses_netloc then u\<lparr>u_netloc := u_netloc b\<rparr> else u) in
             if u_path v = [] \<and> u_params v = []
             then Some (urlunparse (v\<lparr>u_path := u_path b, u_params := u_params b, u_query := if u_query v = [] then u_query b else u_query v\<rparr>))
             else let path = join ''/'' (resolve_dots (joined_segments (u_path b) (u_path v)))
               in Some (urlunparse (v\<lparr>u_path := if path = [] then ''/'' else path\<rparr>))))"

lemma urlparse_is_urlparse_from: "urlparse url = urlparse_from [] url"
  by (auto simp: urlparse_def urlparse_from_def urlsplit_from_def Let_def split_def)

text \<open>Percent escapes as bytes: two texts are equal once unquoted if their bytes are.\<close>

definition utf8_bytes :: "char \<Rightarrow> nat list" where
  "utf8_bytes c = (let n = of_char c :: nat in if n < 128 then [n] else [192 + n div 64, 128 + n mod 64])"

fun unquoted_bytes :: "string \<Rightarrow> nat list" where
  "unquoted_bytes [] = []"
| "unquoted_bytes (c # s) = (if c = CHR ''%'' \<and> length s \<ge> 2 \<and> is_hex_char (s ! 0) \<and> is_hex_char (s ! 1)
     then nat (char_value (s ! 0) * 16 + char_value (s ! 1)) # unquoted_bytes (drop 2 s)
     else utf8_bytes c @ unquoted_bytes s)"

definition plus_is_space :: "string \<Rightarrow> string" where
  "plus_is_space s = map (\<lambda>c. if c = CHR ''+'' then CHR '' '' else c) s"

definition upper_hex :: "nat \<Rightarrow> char" where
  "upper_hex n = (if n < 10 then char_of (48 + n) else char_of (55 + n))"

definition quote_char :: "string \<Rightarrow> char \<Rightarrow> string" where
  "quote_char safe c = (if is_letter c \<or> is_digit_char c \<or> c \<in> {CHR ''_'', CHR ''.'', CHR ''-'', CHR 0x7E} \<or> c \<in> set safe then [c]
     else concat (map (\<lambda>b. [CHR ''%'', upper_hex (b div 16), upper_hex (b mod 16)]) (utf8_bytes c)))"

definition quote_plus :: "string \<Rightarrow> string \<Rightarrow> string" where
  "quote_plus safe s = concat (map (\<lambda>c. if c = CHR '' '' then ''+'' else quote_char safe c) s)"

definition segment_key_is :: "string \<Rightarrow> string \<Rightarrow> bool" where
  "segment_key_is nm segment \<longleftrightarrow> unquoted_bytes (plus_is_space (before_first CHR ''='' segment)) = concat (map utf8_bytes nm)"

fun rebuilt_segments :: "string \<Rightarrow> string \<Rightarrow> bool \<Rightarrow> string list \<Rightarrow> string list" where
  "rebuilt_segments nm replacement replaced [] = (if replaced then [] else [replacement])"
| "rebuilt_segments nm replacement replaced (s # ss) = (if segment_key_is nm s
     then (if replaced then rebuilt_segments nm replacement True ss else replacement # rebuilt_segments nm replacement True ss)
     else s # rebuilt_segments nm replacement replaced ss)"

definition with_query_param :: "string \<Rightarrow> string \<Rightarrow> int \<Rightarrow> string option" where
  "with_query_param url nm v = map_option (\<lambda>u.
     let segments = filter (\<lambda>s. s \<noteq> []) (split_on CHR ''&'' (u_query u));
         replacement = quote_plus ''[]'' nm @ ''='' @ int_text v
     in urlunparse (u\<lparr>u_query := join ''&'' (rebuilt_segments nm replacement False segments), u_fragment := []\<rparr>)) (urlsplit url)"

definition pagination_url_key :: "net \<Rightarrow> string \<Rightarrow> url_error + string" where
  "pagination_url_key e url = (case urlsplit url of
       None \<Rightarrow> Inl (Unsafe ''URL is malformed'')
     | Some u \<Rightarrow> (case url_host_label e url of
         Inl x \<Rightarrow> Inl x
       | Inr label \<Rightarrow> Inr (urlunparse (u\<lparr>u_scheme := lower (u_scheme u), u_netloc := label,
           u_path := if u_path u = [] then ''/'' else u_path u, u_fragment := []\<rparr>))))"

section \<open>State\<close>

datatype pagination_mode = Link_mode | Click_mode

record pagination_config =
  pg_mode :: pagination_mode
  pg_next :: "string option"
  pg_page_param :: "string option"
  pg_page_first :: int
  pg_page_step :: int
  pg_max_pages :: nat

datatype page_exn = PG_cancelled | PG_budget | PG_raised string | PG_stop stop_reason string

record element =
  el_attrib :: "string option option"
  el_attributes :: "string option option"

record 'p fetch_outcome =
  fo_page :: 'p
  fo_final_url :: "string option"
  fo_recorded_at :: "string option"

record click_result =
  cr_pages :: nat
  cr_stop_reason :: stop_reason
  cr_stop_detail :: "string option"

datatype page_label = PL_checkpoint string | PL_deadline | PL_select | PL_extract | PL_check | PL_fetch

record page_world =
  pw_result :: target_result
  pw_fetched :: "string list"
  pw_pages :: "(string \<times> data_row list) list"
  pw_tick :: nat

record 'p page_port =
  pp_fault :: "page_label \<Rightarrow> nat \<Rightarrow> page_exn option"
  pp_select :: "nat \<Rightarrow> 'p \<Rightarrow> string \<Rightarrow> element list"
  pp_extract :: "nat \<Rightarrow> 'p \<Rightarrow> data_row list"
  pp_fetch :: "nat \<Rightarrow> string \<Rightarrow> page_exn + 'p fetch_outcome"
  pp_click :: "'p \<Rightarrow> click_result option"
  pp_click_page :: "'p \<Rightarrow> nat \<Rightarrow> 'p"
  pp_net :: "nat \<Rightarrow> net"
  pp_fresh :: "nat \<Rightarrow> string \<Rightarrow> bool"
  pp_replay :: bool
  pp_sha256 :: "string \<Rightarrow> string"
  pp_first_url :: string

type_synonym 'a paging = "(page_world, page_exn, 'a) statement"

section \<open>Steps\<close>

text \<open>One await or one check: it fails or goes on, and time passes.\<close>

definition pg_step :: "'p page_port \<Rightarrow> page_label \<Rightarrow> (nat \<Rightarrow> 'a) \<Rightarrow> 'a paging" where
  "pg_step p l f w = (let t = pw_tick w; w1 = w\<lparr>pw_tick := Suc t\<rparr> in
     case pp_fault p l t of Some e \<Rightarrow> (Inl e, w1) | None \<Rightarrow> (Inr (f t), w1))"

definition pg_checkpoint :: "'p page_port \<Rightarrow> string \<Rightarrow> unit paging" where
  "pg_checkpoint p nm = pg_step p (PL_checkpoint nm) (\<lambda>_. ())"

definition pg_deadline :: "'p page_port \<Rightarrow> unit paging" where
  "pg_deadline p = pg_step p PL_deadline (\<lambda>_. ())"

definition url_raise :: "url_error + 'a \<Rightarrow> 'a paging" where
  "url_raise r = (case r of Inl (Unsafe m) \<Rightarrow> m_raise (PG_raised m) | Inl (Unresolved m) \<Rightarrow> m_raise (PG_raised m) | Inr x \<Rightarrow> m_ret x)"

definition set_stop :: "stop_reason \<Rightarrow> unit paging" where
  "set_stop r = m_set (\<lambda>w. w\<lparr>pw_result := (pw_result w)\<lparr>tr_stop_reason := r\<rparr>\<rparr>)"

definition resolve_href :: "element \<Rightarrow> string \<Rightarrow> string option option" where
  "resolve_href el base = (let href = (case el_attrib el of
         Some (Some h) \<Rightarrow> Some h
       | _ \<Rightarrow> (case el_attributes el of None \<Rightarrow> None | Some h \<Rightarrow> h))
     in case href of None \<Rightarrow> Some None
        | Some h \<Rightarrow> if h = [] then Some None else (case urljoin base h of None \<Rightarrow> None | Some u \<Rightarrow> Some (Some u)))"

text \<open>A fresh verdict of the run stands in for the lookup; the lexical checks always run.\<close>

definition public_in_run :: "'p page_port \<Rightarrow> nat \<Rightarrow> string \<Rightarrow> url_error + unit" where
  "public_in_run p t url = (case public_dns_hostname (pp_net p t) http_schemes url of
       Inr (Some host) \<Rightarrow> if pp_fresh p t host then Inr () else assert_public_url (pp_net p t) http_schemes True False url
     | _ \<Rightarrow> assert_public_url (pp_net p t) http_schemes True False url)"

definition pagination_url_is_safe :: "'p page_port \<Rightarrow> string \<Rightarrow> bool paging" where
  "pagination_url_is_safe p url =
     (if pp_replay p then (\<lambda>w. (Inr (case public_dns_hostname (pp_net p (pw_tick w)) http_schemes url of Inl _ \<Rightarrow> False | Inr _ \<Rightarrow> True), w))
      else m_then (pg_checkpoint p ''before_pagination_dns_validation'') (\<lambda>_.
        m_then (pg_deadline p) (\<lambda>_.
        m_then (pg_step p PL_check (\<lambda>t. public_in_run p t url)) (\<lambda>r. case r of
            Inl (Unsafe _) \<Rightarrow> m_ret False
          | Inl (Unresolved _) \<Rightarrow> m_ret True
          | Inr _ \<Rightarrow> m_then (pg_checkpoint p ''after_pagination_dns_validation'') (\<lambda>_.
              m_then (pg_deadline p) (\<lambda>_. m_ret True))))))"

definition earliest_recorded_at :: "string option \<Rightarrow> string option \<Rightarrow> string option" where
  "earliest_recorded_at current candidate = (if or_empty candidate = [] then current
     else if or_empty current = [] then candidate else Some (min (or_empty current) (or_empty candidate)))"

definition note_recorded_at :: "string option \<Rightarrow> unit paging" where
  "note_recorded_at t = m_set (\<lambda>w. w\<lparr>pw_result := (pw_result w)\<lparr>tr_recorded_at := earliest_recorded_at (tr_recorded_at (pw_result w)) t\<rparr>\<rparr>)"

definition record_self_imposed_stop :: "stop_reason \<Rightarrow> string \<Rightarrow> unit paging" where
  "record_self_imposed_stop r message = m_set (\<lambda>w. w\<lparr>pw_result := (pw_result w)\<lparr>tr_stop_reason := r, tr_errors := tr_errors (pw_result w) @ [message]\<rparr>\<rparr>)"

definition page_data_fingerprint :: "(string \<Rightarrow> string) \<Rightarrow> data_row list \<Rightarrow> string" where
  "page_data_fingerprint sha rows = sha (dumps_json (JList (map JObj rows)))"

definition fetch_follow_on_page :: "'p page_port \<Rightarrow> string \<Rightarrow> 'p fetch_outcome paging" where
  "fetch_follow_on_page p url =
     m_then (m_set (\<lambda>w. w\<lparr>pw_fetched := pw_fetched w @ [url]\<rparr>)) (\<lambda>_.
     m_then (pg_step p PL_fetch (\<lambda>t. pp_fetch p t url)) (\<lambda>r. case r of
         Inl e \<Rightarrow> m_raise e
       | Inr outcome \<Rightarrow> m_then (pg_checkpoint p ''after_pagination_fetch'') (\<lambda>_. m_ret outcome)))"

text \<open>The \<^verbatim>\<open>try\<close> around it: \<open>None\<close> once the stop is recorded.\<close>

definition try_fetch :: "'p page_port \<Rightarrow> string \<Rightarrow> 'p fetch_outcome option paging" where
  "try_fetch p url = m_try (m_then (fetch_follow_on_page p url) (\<lambda>x. m_ret (Some x)))
     (\<lambda>e. case e of PG_stop r message \<Rightarrow> m_then (record_self_imposed_stop r message) (\<lambda>_. m_ret None) | _ \<Rightarrow> m_raise e)"

definition add_page :: "string \<Rightarrow> data_row list \<Rightarrow> unit paging" where
  "add_page key rows = m_set (\<lambda>w. w\<lparr>pw_pages := pw_pages w @ [(key, rows)],
     pw_result := (pw_result w)\<lparr>tr_data := tr_data (pw_result w) @ rows, tr_pages_scraped := tr_pages_scraped (pw_result w) + 1\<rparr>\<rparr>)"

text \<open>
  From a next URL to its page: the common part of the two loops. \<open>None\<close> ends the loop with the reason set; otherwise the page, its
  final URL and the key of that URL.
\<close>

definition next_page :: "'p page_port \<Rightarrow> string list \<Rightarrow> string \<Rightarrow> ('p \<times> string \<times> string) option paging" where
  "next_page p seen next_url =
     m_then (pagination_url_is_safe p next_url) (\<lambda>safe.
     if \<not> safe then m_then (set_stop Unsafe_next_url) (\<lambda>_. m_ret None)
     else m_then (m_get (\<lambda>w. pagination_url_key (pp_net p (pw_tick w)) next_url)) (\<lambda>k. m_then (url_raise k) (\<lambda>key.
     if key \<in> set seen then m_then (set_stop Repeated_url) (\<lambda>_. m_ret None)
     else m_then (try_fetch p next_url) (\<lambda>fetched. case fetched of
         None \<Rightarrow> m_ret None
       | Some outcome \<Rightarrow>
           m_then (note_recorded_at (fo_recorded_at outcome)) (\<lambda>_.
           let final_url = (if or_empty (fo_final_url outcome) = [] then next_url else or_empty (fo_final_url outcome)) in
           m_then (m_get (\<lambda>w. pagination_url_key (pp_net p (pw_tick w)) final_url)) (\<lambda>k. m_then (url_raise k) (\<lambda>final_key.
           if final_key \<in> set seen then m_then (set_stop Repeated_url) (\<lambda>_. m_ret None)
           else m_ret (Some (fo_page outcome, final_url, final_key)))))))))"

section \<open>The loops\<close>

fun follow_links :: "'p page_port \<Rightarrow> pagination_config \<Rightarrow> string \<Rightarrow> nat list \<Rightarrow> 'p \<Rightarrow> string \<Rightarrow> string list \<Rightarrow> unit paging" where
  "follow_links p cfg selector [] page current_url seen = m_ret ()"
| "follow_links p cfg selector (n # ns) page current_url seen =
     m_then (pg_checkpoint p ''before_pagination_page'') (\<lambda>_.
     m_then (pg_deadline p) (\<lambda>_.
     m_then (pg_step p PL_select (\<lambda>t. pp_select p t page selector)) (\<lambda>links.
     if links = [] then set_stop Exhausted
     else case resolve_href (hd links) current_url of
       None \<Rightarrow> m_raise (PG_raised ''ValueError'')
     | Some href \<Rightarrow>
         if or_empty href = [] then set_stop Invalid_next_link
         else if n = pg_max_pages cfg then set_stop Max_pages
         else m_then (next_page p seen (or_empty href)) (\<lambda>r. case r of
             None \<Rightarrow> m_ret ()
           | Some (page', final_url, final_key) \<Rightarrow>
               m_then (pg_step p PL_extract (\<lambda>t. pp_extract p t page')) (\<lambda>rows.
               m_then (add_page final_key rows) (\<lambda>_.
               m_then (pg_checkpoint p ''after_pagination_page'') (\<lambda>_.
               follow_links p cfg selector ns page' final_url (final_key # seen))))))))"

text \<open>Whether the configured next element, if any, is on the page.\<close>

definition has_next :: "'p page_port \<Rightarrow> pagination_config \<Rightarrow> 'p \<Rightarrow> bool paging" where
  "has_next p cfg page = (case pg_next cfg of
       None \<Rightarrow> m_ret True
     | Some selector \<Rightarrow> m_then (pg_step p PL_select (\<lambda>t. pp_select p t page selector)) (\<lambda>links. m_ret (links \<noteq> [])))"

fun number_pages ::
    "'p page_port \<Rightarrow> pagination_config \<Rightarrow> string \<Rightarrow> string \<Rightarrow> nat list \<Rightarrow> 'p \<Rightarrow> string list \<Rightarrow> string list \<Rightarrow> unit paging" where
  "number_pages p cfg param base_url [] page seen prints = m_ret ()"
| "number_pages p cfg param base_url (n # ns) page seen prints =
     m_then (pg_checkpoint p ''before_pagination_page'') (\<lambda>_.
     m_then (pg_deadline p) (\<lambda>_.
     m_then (has_next p cfg page) (\<lambda>more_pages.
     if \<not> more_pages then set_stop Exhausted
     else if n = pg_max_pages cfg then set_stop Max_pages
     else case with_query_param base_url param (pg_page_first cfg + int n * pg_page_step cfg) of
       None \<Rightarrow> m_raise (PG_raised ''ValueError'')
     | Some next_url \<Rightarrow> m_then (next_page p seen next_url) (\<lambda>r. case r of
           None \<Rightarrow> m_ret ()
         | Some (page', final_url, final_key) \<Rightarrow>
             m_then (pg_step p PL_extract (\<lambda>t. pp_extract p t page')) (\<lambda>rows.
             if rows = [] then m_then (add_page final_key []) (\<lambda>_. set_stop Exhausted)
             else if page_data_fingerprint (pp_sha256 p) rows \<in> set prints then set_stop Repeated_page
             else m_then (add_page final_key rows) (\<lambda>_.
               m_then (pg_checkpoint p ''after_pagination_page'') (\<lambda>_.
               number_pages p cfg param base_url ns page' (final_key # seen) (page_data_fingerprint (pp_sha256 p) rows # prints))))))))"

fun click_pages :: "'p page_port \<Rightarrow> 'p \<Rightarrow> nat list \<Rightarrow> unit paging" where
  "click_pages p page [] = m_ret ()"
| "click_pages p page (i # is) =
     m_then (pg_checkpoint p ''before_pagination_page'') (\<lambda>_.
     m_then (pg_deadline p) (\<lambda>_.
     m_then (pg_step p PL_extract (\<lambda>t. pp_extract p t (pp_click_page p page i))) (\<lambda>rows.
     m_then (add_page [] rows) (\<lambda>_.
     m_then (pg_checkpoint p ''after_pagination_page'') (\<lambda>_. click_pages p page is)))))"

definition extract_click_pages :: "'p page_port \<Rightarrow> 'p \<Rightarrow> unit paging" where
  "extract_click_pages p page = (case pp_click p page of
       None \<Rightarrow> set_stop Stop_unknown
     | Some c \<Rightarrow> m_then (click_pages p page [0..<cr_pages c]) (\<lambda>_.
         m_then (set_stop (cr_stop_reason c)) (\<lambda>_.
         if or_empty (cr_stop_detail c) = [] then m_ret ()
         else m_set (\<lambda>w. w\<lparr>pw_result := (pw_result w)\<lparr>tr_errors := tr_errors (pw_result w) @ [or_empty (cr_stop_detail c)]\<rparr>\<rparr>))))"

text \<open>\<open>pp_first_url\<close> is the final URL of the first page, or the URL of the target.\<close>

definition paginate_target :: "'p page_port \<Rightarrow> pagination_config option \<Rightarrow> 'p \<Rightarrow> unit paging" where
  "paginate_target p pagination page = (case pagination of
       None \<Rightarrow> set_stop Not_configured
     | Some cfg \<Rightarrow>
         if pg_mode cfg = Click_mode then extract_click_pages p page
         else case pg_page_param cfg of
           Some param \<Rightarrow>
             m_then (m_get (\<lambda>w. pagination_url_key (pp_net p (pw_tick w)) (pp_first_url p))) (\<lambda>k. m_then (url_raise k) (\<lambda>key.
             m_then (m_get (\<lambda>w. page_data_fingerprint (pp_sha256 p) (tr_data (pw_result w)))) (\<lambda>first.
             number_pages p cfg param (pp_first_url p) [1..<Suc (pg_max_pages cfg)] page [key] [first])))
         | None \<Rightarrow>
             m_then (m_get (\<lambda>w. pagination_url_key (pp_net p (pw_tick w)) (pp_first_url p))) (\<lambda>k. m_then (url_raise k) (\<lambda>key.
             case pg_next cfg of
               None \<Rightarrow> m_raise (PG_raised ''AssertionError'')
             | Some selector \<Rightarrow> follow_links p cfg selector [1..<Suc (pg_max_pages cfg)] page (pp_first_url p) [key])))"

end
