(* ===== verification/Pagination_Properties.thy ===== *)
theory Pagination_Properties
  imports Pagination
begin

text \<open>
  A listing is followed within its limits: the number of requests, the destinations, and the pages that end up in the result.
\<close>

section \<open>The lexical checks\<close>

definition lexically_public :: "'p page_port \<Rightarrow> string \<Rightarrow> bool" where
  "lexically_public p url \<longleftrightarrow> (\<exists>t h. public_dns_hostname (pp_net p t) http_schemes url = Inr h)"

lemma lexical_errors: "public_dns_hostname e schemes url = Inl x \<Longrightarrow> \<exists>m. x = Unsafe m"
  by (auto simp: public_dns_hostname_def check_host_def idna2003_hostname_def require_one_reading_def Let_def
      split: if_splits option.splits sum.splits)

lemma unresolved_is_lexical: "public_in_run p t url = Inl (Unresolved m) \<Longrightarrow> lexically_public p url"
  by (auto simp: public_in_run_def assert_public_url_def lexically_public_def split: sum.splits option.splits if_splits dest: lexical_errors)

lemma public_is_lexical: "public_in_run p t url = Inr x \<Longrightarrow> lexically_public p url"
  by (auto simp: public_in_run_def assert_public_url_def lexically_public_def split: sum.splits option.splits if_splits)

section \<open>What every step keeps\<close>

text \<open>
  The result holds what the first page gave and then the pages of the history, in their order; no page of the history is the first page
  or one before it; every fetched URL has passed the lexical checks; at most \<open>k\<close> requests were made.
\<close>

definition listed :: "'p page_port \<Rightarrow> int \<Rightarrow> data_row list \<Rightarrow> string \<Rightarrow> nat \<Rightarrow> page_world \<Rightarrow> bool" where
  "listed p n0 d0 key0 k w \<longleftrightarrow> tr_data (pw_result w) = d0 @ concat (map snd (pw_pages w))
     \<and> tr_pages_scraped (pw_result w) = n0 + int (length (pw_pages w))
     \<and> distinct (key0 # map fst (pw_pages w))
     \<and> list_all (lexically_public p) (pw_fetched w) \<and> length (pw_fetched w) \<le> k \<and> length (pw_pages w) \<le> length (pw_fetched w)"

definition seen_is :: "string \<Rightarrow> string list \<Rightarrow> page_world \<Rightarrow> bool" where
  "seen_is key0 seen w \<longleftrightarrow> set seen = set (key0 # map fst (pw_pages w))"

definition stopped_early :: "page_world \<Rightarrow> bool" where
  "stopped_early w \<longleftrightarrow> tr_stop_reason (pw_result w) \<notin> {Stop_unknown, Max_pages}"

lemma listed_fields [simp]:
  "listed p n0 d0 key0 k (w\<lparr>pw_tick := t\<rparr>) = listed p n0 d0 key0 k w" "seen_is key0 seen (w\<lparr>pw_tick := t\<rparr>) = seen_is key0 seen w"
  "listed p n0 d0 key0 k (w\<lparr>pw_result := (pw_result w)\<lparr>tr_stop_reason := r\<rparr>\<rparr>) = listed p n0 d0 key0 k w"
  "listed p n0 d0 key0 k (w\<lparr>pw_result := (pw_result w)\<lparr>tr_stop_reason := r, tr_errors := es\<rparr>\<rparr>) = listed p n0 d0 key0 k w"
  "listed p n0 d0 key0 k (w\<lparr>pw_result := (pw_result w)\<lparr>tr_recorded_at := a\<rparr>\<rparr>) = listed p n0 d0 key0 k w"
  "seen_is key0 seen (w\<lparr>pw_result := x\<rparr>) = seen_is key0 seen w"
  by (simp_all add: listed_def seen_is_def)

lemma listed_mono: "listed p n0 d0 key0 k w \<Longrightarrow> k \<le> m \<Longrightarrow> listed p n0 d0 key0 m w"
  by (simp add: listed_def)

lemma listed_add:
  assumes "listed p n0 d0 key0 k w" and "seen_is key0 seen w" and "key \<notin> set seen" and "length (pw_pages w) < length (pw_fetched w)"
  shows "listed p n0 d0 key0 k (w\<lparr>pw_pages := pw_pages w @ [(key, rows)], pw_result := (pw_result w)\<lparr>tr_data := tr_data (pw_result w) @ rows, tr_pages_scraped := tr_pages_scraped (pw_result w) + 1\<rparr>\<rparr>)"
  using assms by (auto simp: listed_def seen_is_def)

lemma t_pg_step: "(\<And>w t. P w \<Longrightarrow> P (w\<lparr>pw_tick := t\<rparr>)) \<Longrightarrow> triple P (pg_step p l f) (\<lambda>x w. P w \<and> (\<exists>t. x = f t)) (\<lambda>_. P)"
  by (auto simp: triple_def pg_step_def Let_def split: option.splits)

lemma t_quiet: "(\<And>w t. P w \<Longrightarrow> P (w\<lparr>pw_tick := t\<rparr>)) \<Longrightarrow> triple P (pg_step p l f) (\<lambda>_. P) (\<lambda>_. P)"
  by (rule t_weaken [OF t_pg_step]) auto

lemma t_url_raise: "triple P (url_raise r) (\<lambda>_. P) (\<lambda>_. P)"
  by (auto simp: url_raise_def intro!: t_ret t_raise split: sum.splits url_error.splits)

lemma t_safe:
  assumes "\<And>w t. P w \<Longrightarrow> P (w\<lparr>pw_tick := t\<rparr>)"
  shows "triple P (pagination_url_is_safe p url) (\<lambda>safe w. P w \<and> (safe \<longrightarrow> lexically_public p url)) (\<lambda>_. P)"
proof (cases "pp_replay p")
  case True
  then show ?thesis by (auto simp: triple_def pagination_url_is_safe_def lexically_public_def split: sum.splits)
next
  case False
  note quiet = t_quiet [where P = P, OF assms]
  have settle: "triple (\<lambda>w. P w \<and> (\<exists>t. r = public_in_run p t url)) (case r of Inl (Unsafe _) \<Rightarrow> m_ret False | Inl (Unresolved _) \<Rightarrow> m_ret True
      | Inr _ \<Rightarrow> m_then (pg_checkpoint p ''after_pagination_dns_validation'') (\<lambda>_. m_then (pg_deadline p) (\<lambda>_. m_ret True)))
      (\<lambda>safe w. P w \<and> (safe \<longrightarrow> lexically_public p url)) (\<lambda>_. P)" for r
  proof (rule t_pre [where A = "\<exists>t. r = public_in_run p t url"])
    assume "\<exists>t. r = public_in_run p t url"
    then obtain t where r: "r = public_in_run p t url" by blast
    show "triple (\<lambda>w. P w \<and> (\<exists>t. r = public_in_run p t url)) (case r of Inl (Unsafe _) \<Rightarrow> m_ret False | Inl (Unresolved _) \<Rightarrow> m_ret True
      | Inr _ \<Rightarrow> m_then (pg_checkpoint p ''after_pagination_dns_validation'') (\<lambda>_. m_then (pg_deadline p) (\<lambda>_. m_ret True)))
      (\<lambda>safe w. P w \<and> (safe \<longrightarrow> lexically_public p url)) (\<lambda>_. P)"
    proof (cases r)
      case (Inl x)
      then show ?thesis using r unresolved_is_lexical [of p t url] by (cases x) (auto intro!: t_ret)
    next
      case (Inr x)
      then have "lexically_public p url" using r public_is_lexical by metis
      then show ?thesis unfolding Inr sum.case pg_checkpoint_def pg_deadline_def
        by (intro t_then [where R = "\<lambda>_. P"] t_ret) (auto intro: quiet t_weaken [OF quiet])
    qed
  qed auto
  have calls: "triple P (pg_checkpoint p nm) (\<lambda>_. P) (\<lambda>_. P)" "triple P (pg_deadline p) (\<lambda>_. P) (\<lambda>_. P)" for nm
    unfolding pg_checkpoint_def pg_deadline_def by (rule quiet, assumption)+
  show ?thesis unfolding pagination_url_is_safe_def if_not_P [OF False]
    by (rule t_then [OF calls(1)], rule t_then [OF calls(2)], rule t_then [OF t_pg_step [where P = P, OF assms]], assumption, rule settle)
qed

section \<open>One further page\<close>

text \<open>A stop that Scrapeyard imposes on itself has a reason of its own.\<close>

definition stops_named :: "'p page_port \<Rightarrow> bool" where
  "stops_named p \<longleftrightarrow> (\<forall>t url r m. pp_fetch p t url = Inl (PG_stop r m) \<longrightarrow> r \<notin> {Stop_unknown, Max_pages})
     \<and> (\<forall>l t r m. pp_fault p l t = Some (PG_stop r m) \<longrightarrow> r \<notin> {Stop_unknown, Max_pages})"

definition named :: "page_exn \<Rightarrow> bool" where
  "named e = (case e of PG_stop r _ \<Rightarrow> r \<notin> {Stop_unknown, Max_pages} | _ \<Rightarrow> True)"

lemma stops_fetch: "stops_named p \<Longrightarrow> pp_fetch p t url = Inl e \<Longrightarrow> named e"
  by (auto simp: stops_named_def named_def split: page_exn.splits)

lemma t_named_step:
  assumes "stops_named p" and "\<And>w t. P w \<Longrightarrow> P (w\<lparr>pw_tick := t\<rparr>)"
  shows "triple P (pg_step p l f) (\<lambda>x w. P w \<and> (\<exists>t. x = f t)) (\<lambda>e w. P w \<and> named e)"
  using assms by (auto simp: triple_def pg_step_def Let_def named_def stops_named_def split: option.splits page_exn.splits)

lemma t_fetch:
  assumes "stops_named p" and "\<And>w t. P w \<Longrightarrow> P (w\<lparr>pw_tick := t\<rparr>)" and "\<And>w. Q w \<Longrightarrow> P (w\<lparr>pw_fetched := pw_fetched w @ [url]\<rparr>)"
  shows "triple Q (fetch_follow_on_page p url) (\<lambda>_. P) (\<lambda>e w. P w \<and> named e)"
proof -
  note step = t_named_step [where P = P, OF assms(1,2)]
  have settle: "triple (\<lambda>w. P w \<and> (\<exists>t. r = pp_fetch p t url)) (case r of Inl e \<Rightarrow> m_raise e
       | Inr outcome \<Rightarrow> m_then (pg_checkpoint p ''after_pagination_fetch'') (\<lambda>_. m_ret outcome)) (\<lambda>_. P) (\<lambda>e w. P w \<and> named e)" for r
  proof (cases r)
    case (Inl e)
    have "named e" if "r = pp_fetch p t url" for t using that Inl stops_fetch [OF assms(1)] by metis
    then show ?thesis unfolding Inl sum.case using Inl by (intro t_raise) auto
  next
    case (Inr x)
    then show ?thesis unfolding Inr sum.case pg_checkpoint_def
      by (intro t_then [where R = "\<lambda>_. P"] t_ret t_weaken [OF step]) auto
  qed
  show ?thesis unfolding fetch_follow_on_page_def
    by (rule t_then [where R = "\<lambda>_. P"], rule t_set, erule assms(3), rule t_then [OF step], assumption, rule settle)
qed

lemma t_try_fetch:
  assumes "stops_named p" and "\<And>w t. P w \<Longrightarrow> P (w\<lparr>pw_tick := t\<rparr>)" and "\<And>w. Q w \<Longrightarrow> P (w\<lparr>pw_fetched := pw_fetched w @ [url]\<rparr>)"
    and "\<And>w r es. P w \<Longrightarrow> P (w\<lparr>pw_result := (pw_result w)\<lparr>tr_stop_reason := r, tr_errors := es\<rparr>\<rparr>)"
  shows "triple Q (try_fetch p url) (\<lambda>x w. P w \<and> (x = None \<longrightarrow> stopped_early w)) (\<lambda>_. P)"
  unfolding try_fetch_def
proof (rule t_try [where R = "\<lambda>e w. P w \<and> named e"])
  show "triple Q (m_then (fetch_follow_on_page p url) (\<lambda>x. m_ret (Some x))) (\<lambda>x w. P w \<and> (x = None \<longrightarrow> stopped_early w)) (\<lambda>e w. P w \<and> named e)"
    by (rule t_then [OF t_fetch [where P = P, OF assms(1-3)]]) (auto intro: t_ret)
  show "triple (\<lambda>w. P w \<and> named e) (case e of PG_stop r message \<Rightarrow> m_then (record_self_imposed_stop r message) (\<lambda>_. m_ret None) | _ \<Rightarrow> m_raise e)
      (\<lambda>x w. P w \<and> (x = None \<longrightarrow> stopped_early w)) (\<lambda>_. P)" for e
    by (cases e) (auto intro!: t_raise t_then [where R = "\<lambda>_ w. P w \<and> stopped_early w"] t_ret t_set assms(4)
        simp: record_self_imposed_stop_def named_def stopped_early_def)
qed

text \<open>The state between two pages, and what remains true whatever happens then.\<close>

definition between :: "'p page_port \<Rightarrow> int \<Rightarrow> data_row list \<Rightarrow> string \<Rightarrow> nat \<Rightarrow> string list \<Rightarrow> nat \<Rightarrow> page_world \<Rightarrow> bool" where
  "between p n0 d0 key0 k seen m w \<longleftrightarrow> listed p n0 d0 key0 k w \<and> seen_is key0 seen w \<and> length (pw_pages w) = m"

lemma between_fields [simp]:
  "between p n0 d0 key0 k seen m (w\<lparr>pw_tick := t\<rparr>) = between p n0 d0 key0 k seen m w"
  "between p n0 d0 key0 k seen m (w\<lparr>pw_result := (pw_result w)\<lparr>tr_stop_reason := r\<rparr>\<rparr>) = between p n0 d0 key0 k seen m w"
  "between p n0 d0 key0 k seen m (w\<lparr>pw_result := (pw_result w)\<lparr>tr_stop_reason := r, tr_errors := es\<rparr>\<rparr>) = between p n0 d0 key0 k seen m w"
  "between p n0 d0 key0 k seen m (w\<lparr>pw_result := (pw_result w)\<lparr>tr_recorded_at := a\<rparr>\<rparr>) = between p n0 d0 key0 k seen m w"
  by (simp_all add: between_def)

lemma between_fetch:
  "between p n0 d0 key0 k seen m w \<Longrightarrow> lexically_public p url \<Longrightarrow>
    between p n0 d0 key0 (Suc k) seen m (w\<lparr>pw_fetched := pw_fetched w @ [url]\<rparr>) \<and> m < length (pw_fetched w @ [url])"
  by (auto simp: between_def listed_def seen_is_def)

lemma t_stop: "(\<And>w. P w \<Longrightarrow> Q (w\<lparr>pw_result := (pw_result w)\<lparr>tr_stop_reason := r\<rparr>\<rparr>)) \<Longrightarrow> triple P (set_stop r) (\<lambda>_. Q) E"
  unfolding set_stop_def by (rule t_set)

lemma t_next_page:
  assumes "stops_named p"
  shows "triple (between p n0 d0 key0 k seen m) (next_page p seen url)
    (\<lambda>r w. case r of None \<Rightarrow> between p n0 d0 key0 (Suc k) seen m w \<and> stopped_early w
       | Some (_, _, key) \<Rightarrow> between p n0 d0 key0 (Suc k) seen m w \<and> m < length (pw_fetched w) \<and> key \<notin> set seen)
    (\<lambda>_. between p n0 d0 key0 (Suc k) seen m)" (is "triple ?P _ ?Q ?E")
proof -
  let ?B = "\<lambda>w. between p n0 d0 key0 (Suc k) seen m w \<and> m < length (pw_fetched w)"
  have more: "?P w \<Longrightarrow> between p n0 d0 key0 (Suc k) seen m w" for w by (auto simp: between_def listed_def)
  have halt: "triple P (m_then (set_stop r) (\<lambda>_. m_ret None)) ?Q ?E"
    if "\<And>w. P w \<Longrightarrow> between p n0 d0 key0 (Suc k) seen m w" and "r \<notin> {Stop_unknown, Max_pages}" for P r
    by (rule t_then [where R = "\<lambda>_ w. between p n0 d0 key0 (Suc k) seen m w \<and> stopped_early w"])
      (auto intro!: t_stop t_ret simp: that(1) stopped_early_def, use that(2) in auto)
  have tail: "triple ?B (m_then (note_recorded_at a) (\<lambda>_. m_then (m_get (\<lambda>w. pagination_url_key (pp_net p (pw_tick w)) final)) (\<lambda>k. m_then (url_raise k) (\<lambda>final_key.
      if final_key \<in> set seen then m_then (set_stop Repeated_url) (\<lambda>_. m_ret None) else m_ret (Some (pg, final, final_key)))))) ?Q ?E" for a final pg
    unfolding note_recorded_at_def
    by (rule t_then [where R = "\<lambda>_. ?B"], rule t_set, simp, rule t_then [where R = "\<lambda>_. ?B"], rule t_get, assumption,
        rule t_then [where R = "\<lambda>_. ?B"], rule t_weaken [OF t_url_raise], assumption, assumption, simp, rule t_if, rule halt, simp, simp, rule t_ret, simp)
  have fetched: "triple (\<lambda>w. ?B w \<and> (x = None \<longrightarrow> stopped_early w)) (case x of None \<Rightarrow> m_ret None
       | Some outcome \<Rightarrow> m_then (note_recorded_at (fo_recorded_at outcome)) (\<lambda>_.
           let final_url = (if or_empty (fo_final_url outcome) = [] then url else or_empty (fo_final_url outcome)) in
           m_then (m_get (\<lambda>w. pagination_url_key (pp_net p (pw_tick w)) final_url)) (\<lambda>k. m_then (url_raise k) (\<lambda>final_key.
           if final_key \<in> set seen then m_then (set_stop Repeated_url) (\<lambda>_. m_ret None)
           else m_ret (Some (fo_page outcome, final_url, final_key)))))) ?Q ?E" for x
  proof (cases x)
    case None
    then show ?thesis by (auto intro: t_ret)
  next
    case (Some outcome)
    then show ?thesis unfolding Some option.case Let_def by (intro t_weaken [OF tail]) auto
  qed
  have get: "triple (\<lambda>w. ?P w \<and> lexically_public p url) (try_fetch p url) (\<lambda>x w. ?B w \<and> (x = None \<longrightarrow> stopped_early w)) (\<lambda>_. ?B)"
    by (intro t_try_fetch [OF assms]) (auto dest: between_fetch)
  have key: "triple (\<lambda>w. ?P w \<and> lexically_public p url) (m_then (m_get (\<lambda>w. pagination_url_key (pp_net p (pw_tick w)) url)) (\<lambda>k. m_then (url_raise k) (\<lambda>key.
     if key \<in> set seen then m_then (set_stop Repeated_url) (\<lambda>_. m_ret None)
     else m_then (try_fetch p url) (\<lambda>fetched. case fetched of
         None \<Rightarrow> m_ret None
       | Some outcome \<Rightarrow>
           m_then (note_recorded_at (fo_recorded_at outcome)) (\<lambda>_.
           let final_url = (if or_empty (fo_final_url outcome) = [] then url else or_empty (fo_final_url outcome)) in
           m_then (m_get (\<lambda>w. pagination_url_key (pp_net p (pw_tick w)) final_url)) (\<lambda>k. m_then (url_raise k) (\<lambda>final_key.
           if final_key \<in> set seen then m_then (set_stop Repeated_url) (\<lambda>_. m_ret None)
           else m_ret (Some (fo_page outcome, final_url, final_key))))))))) ?Q ?E"
    by (rule t_then [where R = "\<lambda>_ w. ?P w \<and> lexically_public p url"], rule t_get, assumption,
        rule t_then [where R = "\<lambda>_ w. ?P w \<and> lexically_public p url"], rule t_weaken [OF t_url_raise], assumption, assumption, simp add: more,
        rule t_if, rule halt, simp add: more, simp, rule t_then [OF t_weaken [OF get]], assumption, assumption, simp, rule fetched)
  show ?thesis unfolding next_page_def
    by (rule t_then [OF t_weaken [OF t_safe [where P = ?P]]], simp, assumption, assumption, simp add: more, rule t_if, rule halt, simp add: more, simp)
      (intro t_weaken [OF key], auto)
qed

section \<open>The loops\<close>

definition finished :: "'p page_port \<Rightarrow> int \<Rightarrow> data_row list \<Rightarrow> string \<Rightarrow> nat \<Rightarrow> page_world \<Rightarrow> bool" where
  "finished p n0 d0 key0 k w \<longleftrightarrow> listed p n0 d0 key0 k w
     \<and> (stopped_early w \<or> tr_stop_reason (pw_result w) = Max_pages \<and> length (pw_pages w) = k)"

lemma between_listed: "between p n0 d0 key0 k seen m w \<Longrightarrow> k \<le> l \<Longrightarrow> listed p n0 d0 key0 l w"
  by (auto simp: between_def intro: listed_mono)

lemma t_early_stop: "k \<le> l \<Longrightarrow> r \<notin> {Stop_unknown, Max_pages} \<Longrightarrow> triple (between p n0 d0 key0 k seen m) (set_stop r) (\<lambda>_. finished p n0 d0 key0 l) E"
  by (rule t_stop) (auto simp: finished_def stopped_early_def dest: between_listed)

lemma t_last_stop: "triple (between p n0 d0 key0 k seen k) (set_stop Max_pages) (\<lambda>_. finished p n0 d0 key0 k) E"
  by (rule t_stop) (auto simp: finished_def between_def)

lemma t_between_step: "k \<le> l \<Longrightarrow> triple (between p n0 d0 key0 k seen m) (pg_step p lb f) (\<lambda>_. between p n0 d0 key0 k seen m) (\<lambda>_. listed p n0 d0 key0 l)"
  by (rule t_weaken [OF t_quiet [where P = "between p n0 d0 key0 k seen m"]]) (auto intro: between_listed)

lemma t_between_calls:
  assumes "k \<le> l"
  shows "triple (between p n0 d0 key0 k seen m) (pg_checkpoint p nm) (\<lambda>_. between p n0 d0 key0 k seen m) (\<lambda>_. listed p n0 d0 key0 l)"
    and "triple (between p n0 d0 key0 k seen m) (pg_deadline p) (\<lambda>_. between p n0 d0 key0 k seen m) (\<lambda>_. listed p n0 d0 key0 l)"
  unfolding pg_checkpoint_def pg_deadline_def by (rule t_between_step [OF assms])+

text \<open>A page is added, then the loop goes on with its key among those seen.\<close>

definition got_page :: "'p page_port \<Rightarrow> int \<Rightarrow> data_row list \<Rightarrow> string \<Rightarrow> nat \<Rightarrow> string list \<Rightarrow> nat \<Rightarrow> string \<Rightarrow> page_world \<Rightarrow> bool" where
  "got_page p n0 d0 key0 k seen m key w \<longleftrightarrow> between p n0 d0 key0 k seen m w \<and> m < length (pw_fetched w) \<and> key \<notin> set seen"

lemma t_add_page: "triple (got_page p n0 d0 key0 k seen m key) (add_page key rows) (\<lambda>_. between p n0 d0 key0 k (key # seen) (Suc m)) E"
  unfolding add_page_def
  by (rule t_set) (auto simp: got_page_def between_def seen_is_def intro!: listed_add [where seen = seen])

lemma t_got_step: "k \<le> l \<Longrightarrow> triple (got_page p n0 d0 key0 k seen m key) (pg_step p lb f) (\<lambda>_. got_page p n0 d0 key0 k seen m key) (\<lambda>_. listed p n0 d0 key0 l)"
  by (rule t_weaken [OF t_quiet [where P = "got_page p n0 d0 key0 k seen m key"]]) (auto simp: got_page_def intro: between_listed)

lemma t_next_or:
  assumes "stops_named p" and "Suc k \<le> l"
    and "\<And>pg final key. triple (got_page p n0 d0 key0 (Suc k) seen m key) (f pg final key) (\<lambda>_. finished p n0 d0 key0 l) (\<lambda>_. listed p n0 d0 key0 l)"
  shows "triple (between p n0 d0 key0 k seen m) (m_then (next_page p seen url) (\<lambda>r. case r of None \<Rightarrow> m_ret () | Some (pg, final, key) \<Rightarrow> f pg final key))
    (\<lambda>_. finished p n0 d0 key0 l) (\<lambda>_. listed p n0 d0 key0 l)"
proof (rule t_then)
  let ?R = "\<lambda>r w. case r of None \<Rightarrow> between p n0 d0 key0 (Suc k) seen m w \<and> stopped_early w | Some (_, _, key) \<Rightarrow> got_page p n0 d0 key0 (Suc k) seen m key w"
  show "triple (between p n0 d0 key0 k seen m) (next_page p seen url) ?R (\<lambda>_. listed p n0 d0 key0 l)"
    by (rule t_weaken [OF t_next_page [OF assms(1)]]) (auto simp: got_page_def between_listed [OF _ assms(2)] split: option.splits)
  show "triple (?R r) (case r of None \<Rightarrow> m_ret () | Some (pg, final, key) \<Rightarrow> f pg final key) (\<lambda>_. finished p n0 d0 key0 l) (\<lambda>_. listed p n0 d0 key0 l)" for r
  proof (cases r)
    case None
    then show ?thesis by (auto intro!: t_ret simp: finished_def between_listed [OF _ assms(2)])
  next
    case (Some x)
    then show ?thesis using assms(3) by (cases x) simp
  qed
qed

lemma t_follow_links:
  assumes "stops_named p"
  shows "0 < n \<Longrightarrow> n \<le> pg_max_pages cfg \<Longrightarrow> triple (between p n0 d0 key0 (n - 1) seen (n - 1))
    (follow_links p cfg selector [n..<Suc (pg_max_pages cfg)] page url seen)
    (\<lambda>_. finished p n0 d0 key0 (pg_max_pages cfg - 1)) (\<lambda>_. listed p n0 d0 key0 (pg_max_pages cfg - 1))"
proof (induction "pg_max_pages cfg - n" arbitrary: n page url seen)
  case (0 n)
  then have n: "n = pg_max_pages cfg" by simp
  have le: "n - 1 \<le> pg_max_pages cfg - 1" using n by simp
  have list: "[n..<Suc (pg_max_pages cfg)] = [n]" using n by simp
  show ?case unfolding list follow_links.simps
    by (rule t_then [OF t_between_calls(1) [OF le]], rule t_then [OF t_between_calls(2) [OF le]], rule t_then [OF t_between_step [OF le]])
      (auto simp: n intro!: t_if t_early_stop t_last_stop t_raise between_listed split: option.splits)
next
  case (Suc x n)
  have le: "n - 1 \<le> pg_max_pages cfg - 1" "Suc (n - 1) \<le> pg_max_pages cfg - 1" using Suc(2-4) by simp_all
  have nx: "x = pg_max_pages cfg - Suc n" "Suc n \<le> pg_max_pages cfg" "Suc (n - 1) = n" using Suc(2-4) by simp_all
  have list: "[n..<Suc (pg_max_pages cfg)] = n # [Suc n..<Suc (pg_max_pages cfg)]" using Suc(4) by (simp add: upt_rec)
  have rest: "triple (between p n0 d0 key0 (Suc (n - 1)) (key # seen) (Suc (n - 1))) (follow_links p cfg selector [Suc n..<Suc (pg_max_pages cfg)] pg final (key # seen))
      (\<lambda>_. finished p n0 d0 key0 (pg_max_pages cfg - 1)) (\<lambda>_. listed p n0 d0 key0 (pg_max_pages cfg - 1))" for pg final key
    using Suc(1) [OF nx(1)] nx(2,3) by (simp del: upt_Suc)
  have step: "triple (got_page p n0 d0 key0 (Suc (n - 1)) seen (n - 1) key)
      (m_then (pg_step p PL_extract (\<lambda>t. pp_extract p t pg)) (\<lambda>rows. m_then (add_page key rows) (\<lambda>_. m_then (pg_checkpoint p ''after_pagination_page'') (\<lambda>_.
         follow_links p cfg selector [Suc n..<Suc (pg_max_pages cfg)] pg final (key # seen)))))
      (\<lambda>_. finished p n0 d0 key0 (pg_max_pages cfg - 1)) (\<lambda>_. listed p n0 d0 key0 (pg_max_pages cfg - 1))" for pg final key
    by (rule t_then [OF t_got_step [OF le(2)]], rule t_then [OF t_add_page], rule t_then [OF t_between_calls(1) [OF le(2)]], rule rest)
  show ?case unfolding list follow_links.simps
    by (rule t_then [OF t_between_calls(1) [OF le(1)]], rule t_then [OF t_between_calls(2) [OF le(1)]], rule t_then [OF t_between_step [OF le(1)]])
      (use Suc(2) le in \<open>auto simp del: upt_Suc One_nat_def intro!: t_if t_early_stop t_raise between_listed t_next_or [OF assms] step split: option.splits\<close>)
qed

lemma t_has_next: "k \<le> l \<Longrightarrow> triple (between p n0 d0 key0 k seen m) (has_next p cfg page) (\<lambda>_. between p n0 d0 key0 k seen m) (\<lambda>_. listed p n0 d0 key0 l)"
  unfolding has_next_def by (auto split: option.splits intro!: t_ret t_then [OF t_between_step])

lemma t_number_pages:
  assumes "stops_named p"
  shows "0 < n \<Longrightarrow> n \<le> pg_max_pages cfg \<Longrightarrow> triple (between p n0 d0 key0 (n - 1) seen (n - 1))
    (number_pages p cfg param base [n..<Suc (pg_max_pages cfg)] page seen prints)
    (\<lambda>_. finished p n0 d0 key0 (pg_max_pages cfg - 1)) (\<lambda>_. listed p n0 d0 key0 (pg_max_pages cfg - 1))"
proof (induction "pg_max_pages cfg - n" arbitrary: n page seen prints)
  case (0 n)
  then have n: "n = pg_max_pages cfg" by simp
  have le: "n - 1 \<le> pg_max_pages cfg - 1" using n by simp
  have list: "[n..<Suc (pg_max_pages cfg)] = [n]" using n by simp
  show ?case unfolding list number_pages.simps
    by (rule t_then [OF t_between_calls(1) [OF le]], rule t_then [OF t_between_calls(2) [OF le]], rule t_then [OF t_has_next [OF le]])
      (auto simp: n intro!: t_if t_early_stop t_last_stop)
next
  case (Suc x n)
  have le: "n - 1 \<le> pg_max_pages cfg - 1" "Suc (n - 1) \<le> pg_max_pages cfg - 1" using Suc(2-4) by simp_all
  have nx: "x = pg_max_pages cfg - Suc n" "Suc n \<le> pg_max_pages cfg" "Suc (n - 1) = n" using Suc(2-4) by simp_all
  have list: "[n..<Suc (pg_max_pages cfg)] = n # [Suc n..<Suc (pg_max_pages cfg)]" using Suc(4) by (simp add: upt_rec)
  have rest: "triple (between p n0 d0 key0 (Suc (n - 1)) (key # seen) (Suc (n - 1))) (number_pages p cfg param base [Suc n..<Suc (pg_max_pages cfg)] pg (key # seen) ps)
      (\<lambda>_. finished p n0 d0 key0 (pg_max_pages cfg - 1)) (\<lambda>_. listed p n0 d0 key0 (pg_max_pages cfg - 1))" for pg key ps
    using Suc(1) [OF nx(1)] nx(2,3) by (simp del: upt_Suc)
  let ?print = "page_data_fingerprint (pp_sha256 p)"
  have empty: "triple (got_page p n0 d0 key0 (Suc (n - 1)) seen (n - 1) key) (m_then (add_page key []) (\<lambda>_. set_stop Exhausted))
      (\<lambda>_. finished p n0 d0 key0 (pg_max_pages cfg - 1)) (\<lambda>_. listed p n0 d0 key0 (pg_max_pages cfg - 1))" for key
    by (rule t_then [OF t_add_page], rule t_early_stop [OF le(2)], simp)
  have again: "triple (got_page p n0 d0 key0 (Suc (n - 1)) seen (n - 1) key) (set_stop Repeated_page)
      (\<lambda>_. finished p n0 d0 key0 (pg_max_pages cfg - 1)) (\<lambda>_. listed p n0 d0 key0 (pg_max_pages cfg - 1))" for key
    by (rule t_weaken [OF t_early_stop [OF le(2), of Repeated_page p n0 d0 key0 seen "n - 1"]]) (auto simp: got_page_def)
  have new: "triple (got_page p n0 d0 key0 (Suc (n - 1)) seen (n - 1) key) (m_then (add_page key rows) (\<lambda>_. m_then (pg_checkpoint p ''after_pagination_page'') (\<lambda>_.
         number_pages p cfg param base [Suc n..<Suc (pg_max_pages cfg)] pg (key # seen) (?print rows # prints))))
      (\<lambda>_. finished p n0 d0 key0 (pg_max_pages cfg - 1)) (\<lambda>_. listed p n0 d0 key0 (pg_max_pages cfg - 1))" for pg key rows
    by (rule t_then [OF t_add_page], rule t_then [OF t_between_calls(1) [OF le(2)]], rule rest)
  have step: "triple (got_page p n0 d0 key0 (Suc (n - 1)) seen (n - 1) key)
      (m_then (pg_step p PL_extract (\<lambda>t. pp_extract p t pg)) (\<lambda>rows. if rows = [] then m_then (add_page key []) (\<lambda>_. set_stop Exhausted)
             else if ?print rows \<in> set prints then set_stop Repeated_page
             else m_then (add_page key rows) (\<lambda>_. m_then (pg_checkpoint p ''after_pagination_page'') (\<lambda>_.
               number_pages p cfg param base [Suc n..<Suc (pg_max_pages cfg)] pg (key # seen) (?print rows # prints)))))
      (\<lambda>_. finished p n0 d0 key0 (pg_max_pages cfg - 1)) (\<lambda>_. listed p n0 d0 key0 (pg_max_pages cfg - 1))" for pg key
    by (rule t_then [OF t_got_step [OF le(2)]], rule t_if, rule empty, rule t_if, rule again, rule new)
  show ?case unfolding list number_pages.simps
    by (rule t_then [OF t_between_calls(1) [OF le(1)]], rule t_then [OF t_between_calls(2) [OF le(1)]], rule t_then [OF t_has_next [OF le(1)]])
      (use Suc(2) le in \<open>auto simp del: upt_Suc One_nat_def intro!: t_if t_early_stop t_raise between_listed t_next_or [OF assms] step split: option.splits\<close>)
qed

section \<open>Following a listing\<close>

lemma t_start:
  fixes p :: "'p page_port" and url :: string and t0 :: nat
  defines "K \<equiv> pagination_url_key (pp_net p t0) url"
  assumes "\<And>key. K = Inr key \<Longrightarrow> triple (between p (tr_pages_scraped r0) (tr_data r0) key 0 [key] 0) (f key) Q E"
    and "\<And>w e. pw_result w = r0 \<Longrightarrow> pw_fetched w = [] \<Longrightarrow> pw_pages w = [] \<Longrightarrow> E e w"
  shows "triple (\<lambda>w. pw_result w = r0 \<and> pw_fetched w = [] \<and> pw_pages w = [] \<and> pw_tick w = t0)
     (m_then (m_get (\<lambda>w. pagination_url_key (pp_net p (pw_tick w)) url)) (\<lambda>k. m_then (url_raise k) f)) Q E"
proof -
  let ?P = "\<lambda>w. pw_result w = r0 \<and> pw_fetched w = [] \<and> pw_pages w = [] \<and> pw_tick w = t0"
  have raised: "triple ?P (m_then (url_raise (Inl x)) f) Q E" for x
    by (rule t_then [where R = "\<lambda>_ _. False"]) (auto simp: url_raise_def triple_def m_raise_def assms(3) split: url_error.splits)
  have ret: "triple ?P (m_then (url_raise K) f) Q E"
  proof (cases K)
    case (Inr key)
    have "triple ?P (f key) Q E"
      by (rule t_weaken [OF assms(2) [OF Inr]]) (auto simp: between_def listed_def seen_is_def)
    then show ?thesis by (simp add: Inr url_raise_def triple_def m_then_def m_ret_def)
  qed (use raised in simp)
  show ?thesis
    using ret by (auto simp: triple_def m_then_def m_get_def K_def split: prod.splits sum.splits)
qed

lemma t_paginate:
  assumes "stops_named p" and "pg_mode cfg = Link_mode" and "0 < pg_max_pages cfg"
  shows "triple (\<lambda>w. pw_result w = r0 \<and> pw_fetched w = [] \<and> pw_pages w = [] \<and> pw_tick w = t0) (paginate_target p (Some cfg) page)
    (\<lambda>_ w. \<exists>key0. pagination_url_key (pp_net p t0) (pp_first_url p) = Inr key0
       \<and> finished p (tr_pages_scraped r0) (tr_data r0) key0 (pg_max_pages cfg - 1) w)
    (\<lambda>_ w. \<exists>key0. (\<forall>key. pagination_url_key (pp_net p t0) (pp_first_url p) = Inr key \<longrightarrow> key = key0)
       \<and> listed p (tr_pages_scraped r0) (tr_data r0) key0 (pg_max_pages cfg - 1) w)" (is "triple ?P _ ?Q ?E")
proof -
  let ?K = "pagination_url_key (pp_net p t0) (pp_first_url p)"
  have blank: "?E e w" if "pw_result w = r0" "pw_fetched w = []" "pw_pages w = []" for w e
    using that by (cases ?K) (auto simp: listed_def)
  have numbers: "triple (between p (tr_pages_scraped r0) (tr_data r0) key 0 [key] 0)
      (m_then (m_get (\<lambda>w. page_data_fingerprint (pp_sha256 p) (tr_data (pw_result w)))) (\<lambda>first.
         number_pages p cfg param (pp_first_url p) [1..<Suc (pg_max_pages cfg)] page [key] [first])) ?Q ?E" if "?K = Inr key" for key param
    by (rule t_then [OF t_get], assumption, rule t_weaken [OF t_number_pages [OF assms(1), of 1 cfg "tr_pages_scraped r0" "tr_data r0" key]])
      (use assms(3) that in auto)
  have links: "triple (between p (tr_pages_scraped r0) (tr_data r0) key 0 [key] 0) (case pg_next cfg of
               None \<Rightarrow> m_raise (PG_raised ''AssertionError'')
             | Some selector \<Rightarrow> follow_links p cfg selector [1..<Suc (pg_max_pages cfg)] page (pp_first_url p) [key]) ?Q ?E" if K: "?K = Inr key" for key
  proof (cases "pg_next cfg")
    case None
    then show ?thesis using K by (auto intro!: t_raise dest: between_listed)
  next
    case (Some selector)
    show ?thesis unfolding Some option.case
      by (rule t_weaken [OF t_follow_links [OF assms(1), of 1 cfg "tr_pages_scraped r0" "tr_data r0" key]]) (use assms(3) K in auto)
  qed
  have mode: "(pg_mode cfg = Click_mode) = False" using assms(2) by simp
  show ?thesis
  proof (cases "pg_page_param cfg")
    case None
    show ?thesis unfolding paginate_target_def option.case mode if_False None by (rule t_start [OF links blank])
  next
    case (Some param)
    show ?thesis unfolding paginate_target_def option.case mode if_False Some by (rule t_start [OF numbers blank])
  qed
qed

text \<open>
  Claim C16. Following a listing by links or page numbers (not in click mode) stays within its limits, whatever its pages link to and
  whatever fails or is cancelled on the way. At most \<open>max_pages - 1\<close> further pages are requested, each of them at a URL that has
  passed the lexical checks of the URL guard; the result holds the records of the first page and then those of the pages that were
  added, in their order and each page once (no added page has the key of another or of the first one), and \<open>pages_scraped\<close> counts
  them. When the function returns, the reason why it stopped is recorded, and it is \<open>max_pages\<close> only if that many pages have been
  read. Assumed: a stop that the fetch imposes has a reason other than unknown or \<open>max_pages\<close>, and at least one page is allowed.
\<close>

theorem pagination_stays_in_bounds:
  assumes "stops_named p" and "pg_mode cfg = Link_mode" and "0 < pg_max_pages cfg" and "pw_fetched w = []" and "pw_pages w = []"
    and "paginate_target p (Some cfg) page w = (res, w')"
  shows "length (pw_fetched w') \<le> pg_max_pages cfg - 1 \<and> list_all (lexically_public p) (pw_fetched w')
    \<and> tr_data (pw_result w') = tr_data (pw_result w) @ concat (map snd (pw_pages w'))
    \<and> tr_pages_scraped (pw_result w') = tr_pages_scraped (pw_result w) + int (length (pw_pages w'))
    \<and> distinct (map fst (pw_pages w'))
    \<and> (\<forall>key. pagination_url_key (pp_net p (pw_tick w)) (pp_first_url p) = Inr key \<longrightarrow> key \<notin> set (map fst (pw_pages w')))
    \<and> (\<not> isl res \<longrightarrow> tr_stop_reason (pw_result w') \<noteq> Stop_unknown
        \<and> (tr_stop_reason (pw_result w') = Max_pages \<longrightarrow> length (pw_pages w') = pg_max_pages cfg - 1))"
proof -
  note run = t_run [OF t_paginate [OF assms(1-3)] _ assms(6), of "pw_result w" "pw_tick w"]
  obtain key0 where l: "listed p (tr_pages_scraped (pw_result w)) (tr_data (pw_result w)) key0 (pg_max_pages cfg - 1) w'"
    and k: "\<forall>key. pagination_url_key (pp_net p (pw_tick w)) (pp_first_url p) = Inr key \<longrightarrow> key = key0"
    and f: "\<not> isl res \<longrightarrow> finished p (tr_pages_scraped (pw_result w)) (tr_data (pw_result w)) key0 (pg_max_pages cfg - 1) w'"
    using run assms(4,5) by (cases res) (auto simp: finished_def)
  then show ?thesis by (auto simp: listed_def finished_def stopped_early_def)
qed

text \<open>In the witness page \<open>n\<close> links to page \<open>n + 1\<close> without end and two pages are allowed.\<close>

definition sample_listing :: "nat page_port" where
  "sample_listing = \<lparr>pp_fault = (\<lambda>_ _. None), pp_select = (\<lambda>_ n _. [\<lparr>el_attrib = Some (Some (int_text (int n + 1))), el_attributes = None\<rparr>]),
     pp_extract = (\<lambda>_ n. [[(''n'', JInt (int n))]]),
     pp_fetch = (\<lambda>_ url. Inr \<lparr>fo_page = nat (number_in 10 (after_last CHR ''/'' url)), fo_final_url = None, fo_recorded_at = None\<rparr>),
     pp_click = (\<lambda>_. None), pp_click_page = (\<lambda>pg _. pg), pp_net = (\<lambda>_. \<lparr>getaddrinfo = (\<lambda>_. Dns_addresses [''8.8.8.8'']), idna2003 = (\<lambda>_. None), idna2008 = (\<lambda>_. None)\<rparr>),
     pp_fresh = (\<lambda>_ _. True), pp_replay = False, pp_sha256 = (\<lambda>s. s), pp_first_url = ''http://a.example/list/1''\<rparr>"

definition sample_pagination :: pagination_config where
  "sample_pagination = \<lparr>pg_mode = Link_mode, pg_next = Some ''a'', pg_page_param = None, pg_page_first = 1, pg_page_step = 1, pg_max_pages = 2\<rparr>"

definition sample_page_world :: page_world where
  "sample_page_world = \<lparr>pw_result = (new_result ''http://a.example/list/1'' Target_success [])\<lparr>tr_pages_scraped := 1\<rparr>, pw_fetched = [], pw_pages = [], pw_tick = 0\<rparr>"

theorem pagination_stays_in_bounds_witness:
  "let (res, w') = paginate_target sample_listing (Some sample_pagination) 1 sample_page_world
   in length (pw_fetched w') \<le> 1 \<and> tr_pages_scraped (pw_result w') = 1 + int (length (pw_pages w')) \<and> distinct (map fst (pw_pages w'))"
proof -
  obtain res w' where run: "paginate_target sample_listing (Some sample_pagination) 1 sample_page_world = (res, w')" by force
  have ok: "stops_named sample_listing" "pg_mode sample_pagination = Link_mode" "0 < pg_max_pages sample_pagination" "pw_fetched sample_page_world = []"
    "pw_pages sample_page_world = []"
    by (simp_all add: stops_named_def sample_listing_def sample_pagination_def sample_page_world_def)
  have start: "tr_pages_scraped (pw_result sample_page_world) = 1" "pg_max_pages sample_pagination = 2" by (simp_all add: sample_page_world_def sample_pagination_def)
  show ?thesis unfolding run Let_def prod.case using pagination_stays_in_bounds [OF ok run] unfolding start by simp
qed

end
