(* ===== verification/Transforms.thy ===== *)
theory Transforms
  imports Result_Files
begin

text \<open>
  The transforms of selector values, \<^verbatim>\<open>config/transforms.py\<close>: splitting a pipeline, parsing its steps and applying them under a
  byte limit.

  \<^item> The third-party \<^verbatim>\<open>regex\<close> module is a parameter: whether a pattern compiles, the nodes it expands to, whether a replacement fits a
    pattern, and the matches of a search; a search may run out of its time.
  \<^item> \<^verbatim>\<open>str.upper\<close> leaves the characters of the model and is a parameter too.
  \<^item> The budget of one configuration for regex nodes is threaded through the parser; \<open>None\<close> is no budget.
\<close>

section \<open>Splitting a pipeline\<close>

datatype transform_error = Bad_value string | Regex_timeout string | Output_limit int

record split_state =
  sp_steps :: "string list"
  sp_start :: nat
  sp_quote :: bool
  sp_parens :: nat
  sp_class :: bool
  sp_prefix_end :: int
  sp_pattern_end :: int

text \<open>The match of \<^verbatim>\<open>\s*(?:(extract:|regex:)|\w+\s*\()\<close> at the start of a text: the colon name, if it is one, and the end.\<close>

definition pipeline_prefix :: "string \<Rightarrow> (string option \<times> nat) option" where
  "pipeline_prefix s = (let blanks = length (takeWhile is_blank_char s); r = dropWhile is_blank_char s;
       nm = takeWhile is_word_char r; r1 = dropWhile is_word_char r; gap = length (takeWhile is_blank_char r1); r2 = dropWhile is_blank_char r1
     in if starts_with ''extract:'' r then Some (Some ''extract:'', blanks + 8)
        else if starts_with ''regex:'' r then Some (Some ''regex:'', blanks + 6)
        else if nm \<noteq> [] \<and> starts_with ''('' r2 then Some (None, blanks + length nm + gap + 1)
        else None)"

definition find_colon :: "string \<Rightarrow> nat \<Rightarrow> nat" where
  "find_colon raw i = (let k = length (takeWhile (\<lambda>c. c \<noteq> CHR '':'') (drop i raw)) in i + k)"

definition classify_step :: "string \<Rightarrow> nat \<Rightarrow> split_state \<Rightarrow> split_state" where
  "classify_step raw i st = (if i \<noteq> sp_start st then st
     else case pipeline_prefix (drop i raw) of
       None \<Rightarrow> st\<lparr>sp_prefix_end := - 1, sp_pattern_end := - 1\<rparr>
     | Some (kind, e) \<Rightarrow> st\<lparr>sp_prefix_end := int (i + e),
         sp_pattern_end := (if kind = Some ''extract:'' then int (length raw)
           else if kind = Some ''regex:'' then int (min (find_colon raw (i + e)) (length raw)) else - 1)\<rparr>)"

definition split_char :: "string \<Rightarrow> nat \<Rightarrow> char \<Rightarrow> split_state \<Rightarrow> split_state" where
  "split_char raw i c st = (let colon = int i \<le> sp_pattern_end st in
     if c = CHR 0x22 \<and> sp_parens st > 0 then st\<lparr>sp_quote := True\<rparr>
     else if c = CHR ''['' \<and> colon then st\<lparr>sp_class := True\<rparr>
     else if c = CHR '']'' \<and> sp_class st then st\<lparr>sp_class := False\<rparr>
     else if sp_class st then st
     else if c = CHR ''('' then (if sp_parens st > 0 \<or> colon \<or> int i + 1 = sp_prefix_end st then st\<lparr>sp_parens := Suc (sp_parens st)\<rparr> else st)
     else if c = CHR '')'' then st\<lparr>sp_parens := sp_parens st - 1\<rparr>
     else if c = CHR ''|'' \<and> sp_parens st = 0 then st\<lparr>sp_steps := sp_steps st @ [strip (drop (sp_start st) (take i raw))], sp_start := Suc i\<rparr>
     else st)"

text \<open>How far the index moves, and the new state.\<close>

definition split_step :: "string \<Rightarrow> nat \<Rightarrow> split_state \<Rightarrow> nat \<times> split_state" where
  "split_step raw i st0 = (let st = classify_step raw i st0; c = raw ! i in
     if sp_quote st then
       (if c = CHR 0x22 then (if i + 1 < length raw \<and> raw ! (i + 1) = CHR 0x22 then (2, st) else (1, st\<lparr>sp_quote := False\<rparr>)) else (1, st))
     else if c = CHR 0x5C then (2, st)
     else (1, split_char raw i c st))"

lemma split_step_moves: "split_step raw i st = (k, st') \<Longrightarrow> 0 < k"
  by (auto simp: split_step_def Let_def split: if_splits)

function split_loop :: "string \<Rightarrow> nat \<Rightarrow> split_state \<Rightarrow> split_state" where
  "split_loop raw i st = (if i < length raw then (let (k, st') = split_step raw i st in split_loop raw (i + k) st') else st)"
  by pat_completeness auto

termination
  by (relation "measure (\<lambda>(raw, i, st). length raw - i)") (auto dest!: split_step_moves [OF sym])

declare split_loop.simps [simp del]

definition split_transform_pipeline :: "string \<Rightarrow> transform_error + string list" where
  "split_transform_pipeline raw = (let st = split_loop raw 0 \<lparr>sp_steps = [], sp_start = 0, sp_quote = False, sp_parens = 0, sp_class = False,
       sp_prefix_end = - 1, sp_pattern_end = - 1\<rparr> in
     if sp_quote st then Inl (Bad_value ''Unbalanced quote in selector transform pipeline'')
     else if sp_parens st > 0 then Inl (Bad_value ''Unbalanced parentheses in selector transform pipeline'')
     else if sp_class st then Inl (Bad_value ''Unbalanced character class in selector transform pipeline'')
     else Inr (sp_steps st @ [strip (drop (sp_start st) raw)]))"

section \<open>Arguments\<close>

text \<open>\<^verbatim>\<open>csv.reader\<close> on one line, with \<^verbatim>\<open>skipinitialspace\<close> and \<^verbatim>\<open>strict\<close>.\<close>

datatype csv_mode = Start_record | Start_field | In_field | In_quoted | Quote_in_quoted | Eat_newline

definition csv_newline :: "char \<Rightarrow> bool" where
  "csv_newline c \<longleftrightarrow> c = CHR 0x0A \<or> c = CHR 0x0D"

fun csv_fields :: "csv_mode \<Rightarrow> string \<Rightarrow> string \<Rightarrow> string list option" where
  "csv_fields m field [] = (case m of Start_record \<Rightarrow> Some [] | Eat_newline \<Rightarrow> Some [] | In_quoted \<Rightarrow> None | _ \<Rightarrow> Some [field])"
| "csv_fields m field (c # s) = (case m of
       Start_record \<Rightarrow> if csv_newline c then csv_fields Eat_newline [] s
         else if c = CHR 0x22 then csv_fields In_quoted [] s
         else if c = CHR '' '' then csv_fields Start_field [] s
         else if c = CHR '','' then map_option (Cons []) (csv_fields Start_field [] s)
         else csv_fields In_field [c] s
     | Start_field \<Rightarrow> if csv_newline c then map_option (Cons []) (csv_fields Eat_newline [] s)
         else if c = CHR 0x22 then csv_fields In_quoted [] s
         else if c = CHR '' '' then csv_fields Start_field [] s
         else if c = CHR '','' then map_option (Cons []) (csv_fields Start_field [] s)
         else csv_fields In_field [c] s
     | In_field \<Rightarrow> if csv_newline c then map_option (Cons field) (csv_fields Eat_newline [] s)
         else if c = CHR '','' then map_option (Cons field) (csv_fields Start_field [] s)
         else csv_fields In_field (field @ [c]) s
     | In_quoted \<Rightarrow> if c = CHR 0x22 then csv_fields Quote_in_quoted field s else csv_fields In_quoted (field @ [c]) s
     | Quote_in_quoted \<Rightarrow> if c = CHR 0x22 then csv_fields In_quoted (field @ [c]) s
         else if c = CHR '','' then map_option (Cons field) (csv_fields Start_field [] s)
         else if csv_newline c then map_option (Cons field) (csv_fields Eat_newline [] s)
         else None
     | Eat_newline \<Rightarrow> if csv_newline c then csv_fields Eat_newline [] s else None)"

definition csv_field_limit :: nat where
  "csv_field_limit = 131072"

definition csv_row :: "string \<Rightarrow> string list option" where
  "csv_row s = (case csv_fields Start_record [] s of
       None \<Rightarrow> None | Some fs \<Rightarrow> if list_ex (\<lambda>f. length f > csv_field_limit) fs then None else Some fs)"

text \<open>
  The fields of \<^verbatim>\<open>(?:^|,)( *"(?:[^"]|"")*"|[^,]*)\<close>: whether each is quoted. After the opening quote, \<open>after_quoted\<close> is what remains
  once the longest quoted text is matched.
\<close>

fun after_quoted :: "string \<Rightarrow> string option" where
  "after_quoted [] = None"
| "after_quoted [c] = (if c = CHR 0x22 then Some [] else None)"
| "after_quoted (c # d # s) = (if c = CHR 0x22
     then (if d = CHR 0x22 then (case after_quoted s of Some r \<Rightarrow> Some r | None \<Rightarrow> Some (d # s)) else Some (d # s))
     else after_quoted (d # s))"

lemma after_quoted_shorter: "after_quoted s = Some r \<Longrightarrow> length r < length s"
  by (induction s arbitrary: r rule: after_quoted.induct) (fastforce split: if_splits option.splits)+

definition quoted_field :: "string \<Rightarrow> string option" where
  "quoted_field s = (case dropWhile (\<lambda>c. c = CHR '' '') s of [] \<Rightarrow> None | c # r \<Rightarrow> if c = CHR 0x22 then after_quoted r else None)"

definition after_field :: "string \<Rightarrow> string" where
  "after_field s = dropWhile (\<lambda>c. c \<noteq> CHR '','') (case quoted_field s of Some r \<Rightarrow> r | None \<Rightarrow> s)"

lemma after_field_shorter: "after_field s = c # r \<Longrightarrow> length r < length s"
proof -
  assume h: "after_field s = c # r"
  have len: "length (after_field s) \<le> length s"
  proof (cases "quoted_field s")
    case (Some x)
    then have "length x \<le> length s"
      using after_quoted_shorter length_dropWhile_le [of "\<lambda>c. c = CHR '' ''" s]
      by (fastforce simp: quoted_field_def split: list.splits if_splits)
    then show ?thesis using Some length_dropWhile_le [of "\<lambda>c. c \<noteq> CHR '',''" x] by (simp add: after_field_def)
  qed (simp add: after_field_def length_dropWhile_le)
  then show ?thesis using h by simp
qed

definition is_quoted_group :: "string \<Rightarrow> bool" where
  "is_quoted_group s = (case quoted_field s of Some _ \<Rightarrow> True
     | None \<Rightarrow> starts_with [CHR 0x22] (dropWhile (\<lambda>c. c = CHR '' '') (takeWhile (\<lambda>c. c \<noteq> CHR '','') s)))"

function quoted_marks :: "string \<Rightarrow> bool list" where
  "quoted_marks s = is_quoted_group s # (case after_field s of [] \<Rightarrow> [] | _ # r \<Rightarrow> quoted_marks r)"
  by pat_completeness auto

termination
  by (relation "measure length") (auto dest: after_field_shorter)

declare quoted_marks.simps [simp del]

definition parse_args :: "string \<Rightarrow> transform_error + string list" where
  "parse_args raw = (if raw = [] then Inr []
     else case csv_row raw of
       None \<Rightarrow> Inl (Bad_value ''Invalid transform arguments'')
     | Some parts \<Rightarrow> if length parts \<noteq> length (quoted_marks raw) then Inl (Bad_value ''zip() arguments differ in length'')
         else Inr (map (\<lambda>(part, quoted). if quoted then part else strip part) (zip parts (quoted_marks raw))))"

section \<open>Steps\<close>

datatype transform = Trim | Collapse_whitespace | Lowercase | Uppercase | Prepend string | Append string | Replace string string
  | Remove string | Strip_prefix string | Strip_suffix string | Extract string | Default string | Regex string string

record regex_engine =
  rx_compiles :: "string \<Rightarrow> bool"
  rx_expansion :: "string \<Rightarrow> int option"
  rx_replacement_ok :: "string \<Rightarrow> string \<Rightarrow> bool"
  rx_search :: "string \<Rightarrow> string \<Rightarrow> string option option"
  rx_matches :: "string \<Rightarrow> string \<Rightarrow> string \<Rightarrow> ((nat \<times> nat) \<times> string) list option"
  rx_max_pattern_bytes :: int
  tr_upper :: "string \<Rightarrow> string"
  tr_value_limit :: int
  tr_pipeline_limit :: nat

definition max_regex_expansion :: int where
  "max_regex_expansion = 10000"

definition max_config_regex_expansion :: int where
  "max_config_regex_expansion = 100000"

text \<open>\<open>rx_expansion\<close> is \<open>None\<close> for a pattern that is nested too deeply, and 0 for one that does not parse.\<close>

definition compile_regex :: "regex_engine \<Rightarrow> string \<Rightarrow> int option \<Rightarrow> (transform_error + unit) \<times> int option" where
  "compile_regex e pat budget = (if int (utf8_length pat) > rx_max_pattern_bytes e then (Inl (Bad_value ''Regex transform pattern exceeds its limit''), budget)
     else case rx_expansion e pat of
       None \<Rightarrow> (Inl (Bad_value ''Invalid regular expression: nested too deeply''), budget)
     | Some n \<Rightarrow>
         if n > max_regex_expansion then (Inl (Bad_value ''Regex transform pattern repeats too much''), budget)
         else let b = map_option (\<lambda>m. m - n) budget in
           if (case b of None \<Rightarrow> False | Some m \<Rightarrow> m < 0) then (Inl (Bad_value ''Regex transform patterns repeat too much together''), b)
           else if \<not> rx_compiles e pat then (Inl (Bad_value ''Invalid regular expression''), b)
           else (Inr (), b))"

definition transform_arity :: "(string \<times> nat) list" where
  "transform_arity = [(''trim'', 0), (''collapse_whitespace'', 0), (''lowercase'', 0), (''uppercase'', 0), (''prepend'', 1), (''append'', 1),
     (''remove'', 1), (''strip_prefix'', 1), (''strip_suffix'', 1), (''extract'', 1), (''default'', 1), (''replace'', 2), (''regex'', 2)]"

text \<open>The match of \<^verbatim>\<open>^(\w+)\((.*)\)$\<close>, in which \<^verbatim>\<open>$\<close> also matches before a final newline.\<close>

definition func_call :: "string \<Rightarrow> (string \<times> string) option" where
  "func_call raw = (let s = (if raw \<noteq> [] \<and> last raw = CHR 0x0A then butlast raw else raw);
       nm = takeWhile is_word_char s; r = dropWhile is_word_char s
     in if nm \<noteq> [] \<and> starts_with ''('' r \<and> length r \<ge> 2 \<and> last r = CHR '')'' \<and> CHR 0x0A \<notin> set (butlast (drop 1 r)) then Some (nm, butlast (drop 1 r)) else None)"

definition split_colon :: "string \<Rightarrow> string \<times> string list" where
  "split_colon raw = (before_first CHR '':'' raw, if CHR '':'' \<notin> set raw then []
     else let r = after_first CHR '':'' raw in if CHR '':'' \<in> set r then [before_first CHR '':'' r, after_first CHR '':'' r] else [r])"

definition build_transform :: "regex_engine \<Rightarrow> string \<Rightarrow> string list \<Rightarrow> int option \<Rightarrow> (transform_error + transform) \<times> int option" where
  "build_transform e nm args b =
     (if nm = ''trim'' then (Inr Trim, b) else if nm = ''collapse_whitespace'' then (Inr Collapse_whitespace, b)
      else if nm = ''lowercase'' then (Inr Lowercase, b) else if nm = ''uppercase'' then (Inr Uppercase, b)
      else if nm = ''prepend'' then (Inr (Prepend (args ! 0)), b) else if nm = ''append'' then (Inr (Append (args ! 0)), b)
      else if nm = ''replace'' then (Inr (Replace (args ! 0) (args ! 1)), b) else if nm = ''remove'' then (Inr (Remove (args ! 0)), b)
      else if nm = ''strip_prefix'' then (Inr (Strip_prefix (args ! 0)), b) else if nm = ''strip_suffix'' then (Inr (Strip_suffix (args ! 0)), b)
      else if nm = ''extract'' then (case compile_regex e (args ! 0) b of (Inl x, b') \<Rightarrow> (Inl x, b') | (Inr _, b') \<Rightarrow> (Inr (Extract (args ! 0)), b'))
      else if nm = ''default'' then (Inr (Default (args ! 0)), b)
      else if nm = ''regex'' then (case compile_regex e (args ! 0) b of
          (Inl x, b') \<Rightarrow> (Inl x, b')
        | (Inr _, b') \<Rightarrow> (if rx_replacement_ok e (args ! 0) (args ! 1) then Inr (Regex (args ! 0) (args ! 1)) else Inl (Bad_value ''Invalid regex replacement''), b'))
      else if nm = ''join'' then (Inl (Bad_value ''join is a list-level operation not supported as a per-value transform''), b)
      else (Inl (Bad_value ''Unknown transform''), b))"

definition parse_transform :: "regex_engine \<Rightarrow> string \<Rightarrow> int option \<Rightarrow> (transform_error + transform) \<times> int option" where
  "parse_transform e raw b = (case (case func_call raw of
         Some (nm, args) \<Rightarrow> (case parse_args args of Inl x \<Rightarrow> Inl x | Inr xs \<Rightarrow> Inr (nm, xs))
       | None \<Rightarrow> Inr (split_colon raw)) of
       Inl x \<Rightarrow> (Inl x, b)
     | Inr (nm, args) \<Rightarrow> if (case map_of transform_arity nm of Some k \<Rightarrow> length args \<noteq> k | None \<Rightarrow> False)
         then (Inl (Bad_value ''wrong number of arguments''), b) else build_transform e nm args b)"

fun parse_steps :: "regex_engine \<Rightarrow> string list \<Rightarrow> int option \<Rightarrow> (transform_error + transform list) \<times> int option" where
  "parse_steps e [] b = (Inr [], b)"
| "parse_steps e (s # ss) b = (case parse_transform e s b of
       (Inl x, b') \<Rightarrow> (Inl x, b')
     | (Inr t, b') \<Rightarrow> (case parse_steps e ss b' of (Inl x, b'') \<Rightarrow> (Inl x, b'') | (Inr ts, b'') \<Rightarrow> (Inr (t # ts), b'')))"

definition parse_transform_pipeline :: "regex_engine \<Rightarrow> string \<Rightarrow> int option \<Rightarrow> (transform_error + transform list) \<times> int option" where
  "parse_transform_pipeline e raw b = (case split_transform_pipeline raw of
       Inl x \<Rightarrow> (Inl x, b)
     | Inr steps \<Rightarrow> if length steps > tr_pipeline_limit e then (Inl (Bad_value ''Selector transform pipeline exceeds its steps''), b)
         else if [] \<in> set steps then (Inl (Bad_value ''Selector transform steps must not be blank''), b)
         else parse_steps e steps b)"

section \<open>Applying\<close>

definition checked_selector_value_size :: "regex_engine \<Rightarrow> string \<Rightarrow> transform_error + int" where
  "checked_selector_value_size e v = (if int (length v) > tr_value_limit e then Inl (Output_limit (int (length v)))
     else if int (utf8_length v) > tr_value_limit e then Inl (Output_limit (int (utf8_length v))) else Inr (int (utf8_length v)))"

definition bounded_concat :: "regex_engine \<Rightarrow> string \<Rightarrow> string \<Rightarrow> bool \<Rightarrow> transform_error + string" where
  "bounded_concat e v addition prepend = (case checked_selector_value_size e v of
       Inl x \<Rightarrow> Inl x
     | Inr n \<Rightarrow> if n + int (utf8_length addition) > tr_value_limit e then Inl (Output_limit (n + int (utf8_length addition)))
         else Inr (if prepend then addition @ v else v @ addition))"

text \<open>\<^verbatim>\<open>str.count\<close> and \<^verbatim>\<open>str.replace\<close>; the empty text occurs before every character and at the end.\<close>

function count_text :: "string \<Rightarrow> string \<Rightarrow> nat" where
  "count_text old s = (if old = [] then Suc (length s) else if s = [] then 0
     else if starts_with old s then Suc (count_text old (drop (length old) s)) else count_text old (tl s))"
  by pat_completeness auto

termination
  by (relation "measure (\<lambda>(old, s). length s)") auto

declare count_text.simps [simp del]

function replace_text :: "string \<Rightarrow> string \<Rightarrow> string \<Rightarrow> string" where
  "replace_text old new s = (if old = [] then concat (map (\<lambda>c. new @ [c]) s) @ new else if s = [] then []
     else if starts_with old s then new @ replace_text old new (drop (length old) s) else hd s # replace_text old new (tl s))"
  by pat_completeness auto

termination
  by (relation "measure (\<lambda>(old, new, s). length s)") auto

declare replace_text.simps [simp del]

definition bounded_literal_replace :: "regex_engine \<Rightarrow> string \<Rightarrow> string \<Rightarrow> string \<Rightarrow> transform_error + string" where
  "bounded_literal_replace e v old new = (case checked_selector_value_size e v of
       Inl x \<Rightarrow> Inl x
     | Inr n \<Rightarrow> let predicted = n + int (count_text old v) * (int (utf8_length new) - int (utf8_length old)) in
         if predicted > tr_value_limit e then Inl (Output_limit predicted) else Inr (replace_text old new v))"

text \<open>The replacement is built match by match; the limit is checked before each piece is written.\<close>

fun replace_matches :: "int \<Rightarrow> string \<Rightarrow> ((nat \<times> nat) \<times> string) list \<Rightarrow> nat \<Rightarrow> int \<Rightarrow> string \<Rightarrow> transform_error + string" where
  "replace_matches limit v [] last_end n out = (let tail = drop last_end v; n' = n + int (utf8_length tail) in
     if n' > limit then Inl (Output_limit n') else Inr (out @ tail))"
| "replace_matches limit v (((a, b), expanded) # ms) last_end n out =
     (let kept = drop last_end (take a v); n' = n + int (utf8_length kept) + int (utf8_length expanded) in
      if n' > limit then Inl (Output_limit n') else replace_matches limit v ms b n' (out @ kept @ expanded))"

definition bounded_regex_replace :: "regex_engine \<Rightarrow> string \<Rightarrow> string \<Rightarrow> string \<Rightarrow> transform_error + string" where
  "bounded_regex_replace e pat replacement v = (case checked_selector_value_size e v of
       Inl x \<Rightarrow> Inl x
     | Inr _ \<Rightarrow> (case rx_matches e pat replacement v of
         None \<Rightarrow> Inl (Regex_timeout ''Regex replacement transform timed out'')
       | Some ms \<Rightarrow> replace_matches (tr_value_limit e) v ms 0 0 []))"

fun collapse_blanks :: "bool \<Rightarrow> string \<Rightarrow> string" where
  "collapse_blanks b [] = []"
| "collapse_blanks b (c # s) = (if is_blank_char c then (if b then collapse_blanks True s else CHR '' '' # collapse_blanks True s)
     else c # collapse_blanks False s)"

definition remove_prefix :: "string \<Rightarrow> string \<Rightarrow> string" where
  "remove_prefix p s = (if starts_with p s then drop (length p) s else s)"

definition remove_suffix :: "string \<Rightarrow> string \<Rightarrow> string" where
  "remove_suffix p s = (if p \<noteq> [] \<and> length p \<le> length s \<and> drop (length s - length p) s = p then take (length s - length p) s else s)"

text \<open>\<open>rx_search\<close>: the outer \<open>None\<close> is a timeout, the inner one no match; otherwise the first group, or the whole match.\<close>

definition transform_value :: "regex_engine \<Rightarrow> transform \<Rightarrow> string \<Rightarrow> transform_error + string" where
  "transform_value e t v = (case t of
       Trim \<Rightarrow> Inr (strip v)
     | Collapse_whitespace \<Rightarrow> Inr (strip (collapse_blanks False v))
     | Lowercase \<Rightarrow> Inr (lower v)
     | Uppercase \<Rightarrow> Inr (tr_upper e v)
     | Prepend s \<Rightarrow> bounded_concat e v s True
     | Append s \<Rightarrow> bounded_concat e v s False
     | Replace old new \<Rightarrow> bounded_literal_replace e v old new
     | Remove s \<Rightarrow> bounded_literal_replace e v s []
     | Strip_prefix s \<Rightarrow> Inr (remove_prefix s v)
     | Strip_suffix s \<Rightarrow> Inr (remove_suffix s v)
     | Extract pat \<Rightarrow> (case rx_search e pat v of
         None \<Rightarrow> Inl (Regex_timeout ''Regex extract transform timed out'') | Some None \<Rightarrow> Inr [] | Some (Some s) \<Rightarrow> Inr s)
     | Default s \<Rightarrow> if strip v \<noteq> [] then Inr v else bounded_concat e [] s False
     | Regex pat replacement \<Rightarrow> bounded_regex_replace e pat replacement v)"

definition bounded :: "regex_engine \<Rightarrow> (string \<Rightarrow> transform_error + string) \<Rightarrow> string \<Rightarrow> transform_error + string" where
  "bounded e f v = (case checked_selector_value_size e v of
       Inl x \<Rightarrow> Inl x
     | Inr _ \<Rightarrow> (case f v of Inl x \<Rightarrow> Inl x | Inr r \<Rightarrow> (case checked_selector_value_size e r of Inl x \<Rightarrow> Inl x | Inr _ \<Rightarrow> Inr r)))"

fun apply_each :: "regex_engine \<Rightarrow> transform list \<Rightarrow> string \<Rightarrow> transform_error + string" where
  "apply_each e [] v = Inr v"
| "apply_each e (t # ts) v = (case bounded e (transform_value e t) v of
       Inl x \<Rightarrow> Inl x
     | Inr r \<Rightarrow> (case checked_selector_value_size e r of Inl x \<Rightarrow> Inl x | Inr _ \<Rightarrow> apply_each e ts r))"

definition apply_transforms :: "regex_engine \<Rightarrow> string \<Rightarrow> transform list \<Rightarrow> transform_error + string" where
  "apply_transforms e v ts = (case checked_selector_value_size e v of Inl x \<Rightarrow> Inl x | Inr _ \<Rightarrow> apply_each e ts v)"

end
