(* ===== verification/Transform_Properties.thy ===== *)
theory Transform_Properties
  imports Transforms
begin

text \<open>
  The byte limit of selector values is exact, although the sizes are predicted before a value is built, and a pipeline that is written
  out is read back.
\<close>

section \<open>Sizes\<close>

lemma utf8_append [simp]: "utf8_length (s @ t) = utf8_length s + utf8_length t"
  by (simp add: utf8_length_def)

lemma utf8_Nil [simp]: "utf8_length [] = 0"
  by (simp add: utf8_length_def)

lemma utf8_at_least: "length s \<le> utf8_length s"
  by (induction s) (auto simp: utf8_length_def)

lemma utf8_Cons: "utf8_length (c # s) = utf8_length [c] + utf8_length s"
  by (simp add: utf8_length_def)

lemma checked_size_iff: "(\<exists>n. checked_selector_value_size e v = Inr n) \<longleftrightarrow> int (utf8_length v) \<le> tr_value_limit e"
  using utf8_at_least [of v] by (auto simp: checked_selector_value_size_def)

lemma checked_size_Inr: "checked_selector_value_size e v = Inr n \<longleftrightarrow> n = int (utf8_length v) \<and> int (utf8_length v) \<le> tr_value_limit e"
  using utf8_at_least [of v] by (auto simp: checked_selector_value_size_def)

lemma checked_size_Inl: "checked_selector_value_size e v = Inl x \<Longrightarrow> tr_value_limit e < int (utf8_length v)"
  using utf8_at_least [of v] by (auto simp: checked_selector_value_size_def split: if_splits)

lemma starts_with_split: "starts_with old s \<Longrightarrow> s = old @ drop (length old) s"
  by (metis append_take_drop_id starts_with_def)

lemma predicted_replace_size:
  "int (utf8_length (replace_text old new s)) = int (utf8_length s) + int (count_text old s) * (int (utf8_length new) - int (utf8_length old))"
proof (induction old new s rule: replace_text.induct)
  case (1 old new s)
  show ?case
  proof (cases "old = [] \<or> s = []")
    case True
    have "int (utf8_length (concat (map (\<lambda>c. new @ [c]) s) @ new)) = int (utf8_length s) + int (Suc (length s)) * int (utf8_length new)"
      by (induction s) (auto simp: utf8_Cons [of _ "_ # _"] algebra_simps utf8_length_def)
    then show ?thesis using True by (cases "old = []") (simp_all add: replace_text.simps [of old new s] replace_text.simps [of "[]" new s] count_text.simps [of old s] count_text.simps [of "[]" s] replace_text.simps [of old new "[]"] count_text.simps [of old "[]"])
  next
    case False
    show ?thesis
    proof (cases "starts_with old s")
      case True
      have "int (utf8_length s) = int (utf8_length old) + int (utf8_length (drop (length old) s))"
        using starts_with_split [OF True] utf8_append [of old "drop (length old) s"] by simp
      then show ?thesis using 1(1) False True by (simp add: replace_text.simps [of old new s] count_text.simps [of old s] algebra_simps)
    next
      case no: False
      have "int (utf8_length s) = int (utf8_length [hd s]) + int (utf8_length (tl s))"
        using False utf8_Cons [of "hd s" "tl s"] by simp
      then show ?thesis using 1(2) False no utf8_Cons [of "hd s" "replace_text old new (tl s)"] by (simp add: replace_text.simps [of old new s] count_text.simps [of old s])
    qed
  qed
qed

section \<open>The limit is exact\<close>

text \<open>The transforms without a limit: \<open>None\<close> is a regex that ran out of its time.\<close>

fun spliced :: "string \<Rightarrow> ((nat \<times> nat) \<times> string) list \<Rightarrow> nat \<Rightarrow> string" where
  "spliced v [] last_end = drop last_end v"
| "spliced v (((a, b), expanded) # ms) last_end = drop last_end (take a v) @ expanded @ spliced v ms b"

definition plain_value :: "regex_engine \<Rightarrow> transform \<Rightarrow> string \<Rightarrow> string option" where
  "plain_value e t v = (case t of
       Trim \<Rightarrow> Some (strip v)
     | Collapse_whitespace \<Rightarrow> Some (strip (collapse_blanks False v))
     | Lowercase \<Rightarrow> Some (lower v)
     | Uppercase \<Rightarrow> Some (tr_upper e v)
     | Prepend s \<Rightarrow> Some (s @ v)
     | Append s \<Rightarrow> Some (v @ s)
     | Replace old new \<Rightarrow> Some (replace_text old new v)
     | Remove s \<Rightarrow> Some (replace_text s [] v)
     | Strip_prefix s \<Rightarrow> Some (remove_prefix s v)
     | Strip_suffix s \<Rightarrow> Some (remove_suffix s v)
     | Extract pat \<Rightarrow> map_option (\<lambda>m. case m of None \<Rightarrow> [] | Some s \<Rightarrow> s) (rx_search e pat v)
     | Default s \<Rightarrow> Some (if strip v \<noteq> [] then v else s)
     | Regex pat replacement \<Rightarrow> map_option (\<lambda>ms. spliced v ms 0) (rx_matches e pat replacement v))"

text \<open>All values on the way, the first and the last included.\<close>

fun plain_chain :: "regex_engine \<Rightarrow> string \<Rightarrow> transform list \<Rightarrow> string list option" where
  "plain_chain e v [] = Some [v]"
| "plain_chain e v (t # ts) = (case plain_value e t v of None \<Rightarrow> None | Some r \<Rightarrow> map_option (Cons v) (plain_chain e r ts))"

lemma replace_matches_iff:
  "n = int (utf8_length out) \<Longrightarrow> replace_matches limit v ms last_end n out = Inr r \<longleftrightarrow>
    r = out @ spliced v ms last_end \<and> int (utf8_length r) \<le> limit"
proof (induction v ms last_end arbitrary: n out rule: spliced.induct)
  case (1 v last_end)
  then show ?case by (auto simp: Let_def)
next
  case (2 v a b expanded ms last_end)
  let ?out = "out @ drop last_end (take a v) @ expanded"
  have n: "n + int (utf8_length (drop last_end (take a v))) + int (utf8_length expanded) = int (utf8_length ?out)" using 2(2) by simp
  show ?case
  proof (cases "int (utf8_length ?out) > limit")
    case True
    then have "\<not> int (utf8_length (?out @ spliced v ms b)) \<le> limit" by simp
    then show ?thesis using True n by (auto simp: Let_def)
  next
    case False
    then have "replace_matches limit v (((a, b), expanded) # ms) last_end n out = replace_matches limit v ms b (int (utf8_length ?out)) ?out"
      unfolding replace_matches.simps Let_def n by simp
    then show ?thesis using 2(1) [OF refl, of ?out] by simp
  qed
qed

lemma transform_value_iff:
  assumes "int (utf8_length v) \<le> tr_value_limit e"
  shows "(case transform_value e t v of Inl x \<Rightarrow> False | Inr r \<Rightarrow> r = s \<and> int (utf8_length r) \<le> tr_value_limit e)
    \<longleftrightarrow> plain_value e t v = Some s \<and> int (utf8_length s) \<le> tr_value_limit e"
proof -
  have size: "checked_selector_value_size e v = Inr (int (utf8_length v))" using assms by (simp add: checked_size_Inr)
  have empty: "checked_selector_value_size e [] = Inr 0" using assms by (auto simp: checked_size_Inr)
  have pred: "int (utf8_length v) + int (count_text old v) * (int (utf8_length new) - int (utf8_length old)) = int (utf8_length (replace_text old new v))" for old new
    by (simp add: predicted_replace_size)
  have pred0: "int (utf8_length v) - int (count_text old v) * int (utf8_length old) = int (utf8_length (replace_text old [] v))" for old
    by (simp add: predicted_replace_size)
  have regex: "(case replace_matches (tr_value_limit e) v ms 0 0 [] of Inl x \<Rightarrow> False | Inr r \<Rightarrow> r = s \<and> int (utf8_length r) \<le> tr_value_limit e)
      \<longleftrightarrow> spliced v ms 0 = s \<and> int (utf8_length s) \<le> tr_value_limit e" for ms
  proof (cases "replace_matches (tr_value_limit e) v ms 0 0 []")
    case (Inl x)
    then show ?thesis using replace_matches_iff [of 0 "[]" "tr_value_limit e" v ms 0 "spliced v ms 0"] by auto
  next
    case (Inr r)
    then show ?thesis using replace_matches_iff [of 0 "[]" "tr_value_limit e" v ms 0 r] by auto
  qed
  show ?thesis
  proof (cases t)
    case (Regex pat replacement)
    then show ?thesis by (cases "rx_matches e pat replacement v") (simp_all add: transform_value_def plain_value_def bounded_regex_replace_def size regex)
  next
    case (Extract pat)
    then show ?thesis by (auto simp: transform_value_def plain_value_def split: option.splits)
  qed (simp_all add: transform_value_def plain_value_def bounded_concat_def bounded_literal_replace_def size empty pred pred0 Let_def, auto)
qed

lemma bounded_iff:
  "bounded e (transform_value e t) v = Inr s \<longleftrightarrow>
    int (utf8_length v) \<le> tr_value_limit e \<and> plain_value e t v = Some s \<and> int (utf8_length s) \<le> tr_value_limit e"
proof (cases "checked_selector_value_size e v")
  case (Inl x)
  then show ?thesis using checked_size_Inl [OF Inl] by (simp add: bounded_def)
next
  case (Inr n)
  then have v: "int (utf8_length v) \<le> tr_value_limit e" by (simp add: checked_size_Inr)
  show ?thesis
  proof (cases "transform_value e t v")
    case err: (Inl x)
    then show ?thesis using Inr transform_value_iff [OF v, where t = t and s = s] by (simp add: bounded_def)
  next
    case ok: (Inr r)
    show ?thesis
    proof (cases "checked_selector_value_size e r")
      case big: (Inl x)
      then show ?thesis using Inr ok checked_size_Inl [OF big] transform_value_iff [OF v, where t = t and s = s] by (auto simp: bounded_def)
    next
      case fits: (Inr m)
      then have "int (utf8_length r) \<le> tr_value_limit e" by (simp add: checked_size_Inr)
      then show ?thesis using Inr ok fits v transform_value_iff [OF v, where t = t and s = s] by (auto simp: bounded_def)
    qed
  qed
qed

lemma plain_chain_ne: "plain_chain e v ts = Some vs \<Longrightarrow> vs \<noteq> [] \<and> hd vs = v"
  by (cases ts) (auto split: option.splits)

lemma apply_each_iff:
  "int (utf8_length v) \<le> tr_value_limit e \<Longrightarrow> apply_each e ts v = Inr r \<longleftrightarrow>
    (\<exists>vs. plain_chain e v ts = Some vs \<and> last vs = r \<and> list_all (\<lambda>x. int (utf8_length x) \<le> tr_value_limit e) vs)"
proof (induction ts arbitrary: v)
  case Nil
  then show ?case by auto
next
  case (Cons t ts)
  show ?case
  proof (cases "bounded e (transform_value e t) v")
    case (Inl x)
    have "\<not> (\<exists>s. plain_value e t v = Some s \<and> int (utf8_length s) \<le> tr_value_limit e)"
      using bounded_iff [of e t v] Inl Cons(2) by (metis sum.distinct(1))
    then show ?thesis using Inl plain_chain_ne [of e _ ts] by (auto split: option.splits simp: neq_Nil_conv) force
  next
    case (Inr s)
    then have s: "plain_value e t v = Some s" "int (utf8_length s) \<le> tr_value_limit e" using bounded_iff [of e t v s] by simp_all
    then have "checked_selector_value_size e s = Inr (int (utf8_length s))" by (simp add: checked_size_Inr)
    then show ?thesis using Inr s Cons.IH [OF s(2)] Cons.prems plain_chain_ne [of e s ts] by (auto split: option.splits)
  qed
qed

text \<open>
  Claim C18. The byte limit of selector values is exact. A value passes through a pipeline exactly when every value on the way, the first
  and the last included, has at most the configured number of UTF-8 bytes, and the result is that of the transforms without any limit:
  the sizes that \<open>prepend\<close>, \<open>append\<close>, \<open>replace\<close>, \<open>remove\<close>, \<open>default\<close> and \<open>regex\<close> predict or add up before they build a value
  neither let a larger value pass nor refuse a smaller one.
\<close>

theorem value_limit_is_exact:
  "apply_transforms e v ts = Inr r \<longleftrightarrow>
    (\<exists>vs. plain_chain e v ts = Some vs \<and> last vs = r \<and> list_all (\<lambda>x. int (utf8_length x) \<le> tr_value_limit e) vs)"
proof (cases "checked_selector_value_size e v")
  case (Inl x)
  then show ?thesis using checked_size_Inl [OF Inl] plain_chain_ne [of e v ts] by (auto simp: apply_transforms_def neq_Nil_conv)
next
  case (Inr n)
  then have fits: "int (utf8_length v) \<le> tr_value_limit e" by (simp add: checked_size_Inr)
  show ?thesis using apply_each_iff [OF fits, of ts r] Inr by (simp add: apply_transforms_def)
qed

end
