(* ===== verification/Transform_Text.thy ===== *)
theory Transform_Text
  imports Transform_Properties
begin

text \<open>Writing a pipeline out in the function-call syntax, and that it is read back.\<close>

section \<open>Writing\<close>

definition doubled :: "string \<Rightarrow> string" where
  "doubled s = concat (map (\<lambda>c. if c = CHR 0x22 then [c, c] else [c]) s)"

definition argument_text :: "string \<Rightarrow> string" where
  "argument_text s = CHR 0x22 # doubled s @ [CHR 0x22]"

fun transform_name :: "transform \<Rightarrow> string" where
  "transform_name Trim = ''trim''"
| "transform_name Collapse_whitespace = ''collapse_whitespace''"
| "transform_name Lowercase = ''lowercase''"
| "transform_name Uppercase = ''uppercase''"
| "transform_name (Prepend s) = ''prepend''"
| "transform_name (Append s) = ''append''"
| "transform_name (Replace a b) = ''replace''"
| "transform_name (Remove s) = ''remove''"
| "transform_name (Strip_prefix s) = ''strip_prefix''"
| "transform_name (Strip_suffix s) = ''strip_suffix''"
| "transform_name (Extract p) = ''extract''"
| "transform_name (Default s) = ''default''"
| "transform_name (Regex p r) = ''regex''"

fun transform_args :: "transform \<Rightarrow> string list" where
  "transform_args (Prepend s) = [s]"
| "transform_args (Append s) = [s]"
| "transform_args (Replace a b) = [a, b]"
| "transform_args (Remove s) = [s]"
| "transform_args (Strip_prefix s) = [s]"
| "transform_args (Strip_suffix s) = [s]"
| "transform_args (Extract p) = [p]"
| "transform_args (Default s) = [s]"
| "transform_args (Regex p r) = [p, r]"
| "transform_args _ = []"

definition transform_text :: "transform \<Rightarrow> string" where
  "transform_text t = transform_name t @ ''('' @ join '','' (map argument_text (transform_args t)) @ '')''"

section \<open>Arguments\<close>

lemma doubled_simps [simp]: "doubled [] = []" "doubled (c # s) = (if c = CHR 0x22 then [c, c] else [c]) @ doubled s"
  by (simp_all add: doubled_def)

lemma csv_quoted: "csv_fields In_quoted field (doubled s @ CHR 0x22 # rest) = csv_fields Quote_in_quoted (field @ s) rest"
  by (induction s arbitrary: field) auto

lemma csv_written:
  "xs \<noteq> [] \<Longrightarrow> csv_fields Start_field [] (join '','' (map argument_text xs)) = Some xs \<and> csv_fields Start_record [] (join '','' (map argument_text xs)) = Some xs"
proof (induction xs)
  case (Cons x xs)
  show ?case
  proof (cases xs)
    case Nil
    then show ?thesis by (simp add: argument_text_def csv_quoted csv_newline_def)
  next
    case (Cons y ys)
    then have "join '','' (map argument_text (x # xs)) = CHR 0x22 # doubled x @ CHR 0x22 # CHR '','' # join '','' (map argument_text xs)"
      by (simp add: argument_text_def)
    then show ?thesis using Cons.IH Cons by (simp add: csv_quoted csv_newline_def)
  qed
qed simp

lemma after_quoted_other: "c \<noteq> CHR 0x22 \<Longrightarrow> t \<noteq> [] \<Longrightarrow> after_quoted (c # t) = after_quoted t"
  by (cases t) auto

lemma after_quoted_written: "rest = [] \<or> hd rest \<noteq> CHR 0x22 \<Longrightarrow> after_quoted (doubled s @ CHR 0x22 # rest) = Some rest"
proof (induction s)
  case Nil
  then show ?case by (cases rest) auto
next
  case (Cons c s)
  then show ?case by (cases "c = CHR 0x22") (simp_all add: after_quoted_other)
qed

lemma quoted_field_written: "rest = [] \<or> hd rest \<noteq> CHR 0x22 \<Longrightarrow> quoted_field (argument_text s @ rest) = Some rest"
  using after_quoted_written [of rest s] by (simp add: quoted_field_def argument_text_def)

lemma quoted_marks_written: "xs \<noteq> [] \<Longrightarrow> quoted_marks (join '','' (map argument_text xs)) = replicate (length xs) True"
proof (induction xs)
  case (Cons x xs)
  show ?case
  proof (cases xs)
    case Nil
    then show ?thesis using quoted_field_written [of "[]" x]
      by (simp add: quoted_marks.simps [of "argument_text x"] is_quoted_group_def after_field_def)
  next
    case (Cons y ys)
    then have written: "join '','' (map argument_text (x # xs)) = argument_text x @ CHR '','' # join '','' (map argument_text xs)" by simp
    have quoted: "quoted_field (argument_text x @ CHR '','' # join '','' (map argument_text xs)) = Some (CHR '','' # join '','' (map argument_text xs))"
      by (rule quoted_field_written) simp
    show ?thesis unfolding written using quoted Cons.IH Cons
      by (subst quoted_marks.simps) (simp add: is_quoted_group_def after_field_def)
  qed
qed simp

lemma parse_args_written:
  assumes "list_all (\<lambda>x. length x \<le> csv_field_limit) xs"
  shows "parse_args (join '','' (map argument_text xs)) = Inr xs"
proof (cases "xs = []")
  case True
  then show ?thesis by (simp add: parse_args_def)
next
  case False
  have ne: "join '','' (map argument_text xs) \<noteq> []"
    using False by (cases xs rule: list.exhaust; cases "tl xs") (auto simp: argument_text_def)
  have row: "csv_row (join '','' (map argument_text xs)) = Some xs"
    using csv_written [OF False] assms by (auto simp: csv_row_def list_all_iff list_ex_iff)
  have "map (\<lambda>(part, quoted). if quoted then part else strip part) (zip xs (replicate (length xs) True)) = xs" by (induction xs) auto
  then show ?thesis using ne row quoted_marks_written [OF False] by (simp add: parse_args_def)
qed

section \<open>One step\<close>

lemma name_chars: "list_all (\<lambda>c. is_word_char c \<and> c \<notin> {CHR 0x22, CHR 0x5C, CHR ''['', CHR '']'', CHR ''('', CHR '')'', CHR ''|''}) (transform_name t)"
  by (cases t) (simp_all only: transform_name.simps, code_simp+)

lemma name_ne: "transform_name t \<noteq> []" "\<not> is_blank_char (hd (transform_name t))"
  by (cases t; simp only: transform_name.simps; code_simp)+

lemma name_split: "takeWhile is_word_char (transform_name t @ CHR ''('' # r) = transform_name t" "dropWhile is_word_char (transform_name t @ CHR ''('' # r) = CHR ''('' # r"
proof -
  have "\<not> is_word_char CHR ''(''" by code_simp
  moreover have "\<forall>c \<in> set (transform_name t). is_word_char c" using name_chars [of t] by (simp add: list_all_iff)
  ultimately show "takeWhile is_word_char (transform_name t @ CHR ''('' # r) = transform_name t" "dropWhile is_word_char (transform_name t @ CHR ''('' # r) = CHR ''('' # r"
    by (simp_all add: takeWhile_append2 dropWhile_append2)
qed

lemma doubled_set: "set (doubled s) = set s"
  by (induction s) auto

lemma join_set: "set (join sep xs) \<subseteq> (\<Union>x \<in> set xs. set x) \<union> set sep"
  by (induction sep xs rule: join.induct) auto

lemma func_call_written:
  assumes "list_all (\<lambda>x. CHR 0x0A \<notin> set x) (transform_args t)"
  shows "func_call (transform_text t) = Some (transform_name t, join '','' (map argument_text (transform_args t)))"
proof -
  let ?args = "join '','' (map argument_text (transform_args t))"
  have "CHR 0x0A \<notin> set ?args"
    using join_set [of "'',''" "map argument_text (transform_args t)"] assms by (fastforce simp: argument_text_def doubled_set list_all_iff)
  moreover have "last (transform_text t) = CHR '')''" "transform_text t \<noteq> []" by (simp_all add: transform_text_def)
  moreover have "transform_text t = transform_name t @ CHR ''('' # ?args @ '')''" by (simp add: transform_text_def)
  ultimately show ?thesis using name_ne(1) [of t] name_split [of t "?args @ '')''"]
    by (simp add: func_call_def Let_def starts_with_def butlast_append)
qed

text \<open>The patterns of the step compile on their own.\<close>

definition usable :: "regex_engine \<Rightarrow> transform \<Rightarrow> bool" where
  "usable e t = (list_all (\<lambda>x. CHR 0x0A \<notin> set x \<and> length x \<le> csv_field_limit) (transform_args t) \<and> (case t of
       Extract p \<Rightarrow> compile_regex e p None = (Inr (), None)
     | Regex p r \<Rightarrow> compile_regex e p None = (Inr (), None) \<and> rx_replacement_ok e p r
     | _ \<Rightarrow> True))"

lemma build_written: "usable e t \<Longrightarrow> build_transform e (transform_name t) (transform_args t) None = (Inr t, None)"
  by (cases t) (simp_all add: build_transform_def usable_def)

lemma arity_written: "map_of transform_arity (transform_name t) = Some (length (transform_args t))"
  by (cases t) (simp_all add: transform_arity_def)

lemma parse_written:
  assumes "usable e t"
  shows "parse_transform e (transform_text t) None = (Inr t, None)"
proof -
  have "list_all (\<lambda>x. CHR 0x0A \<notin> set x) (transform_args t)" "list_all (\<lambda>x. length x \<le> csv_field_limit) (transform_args t)"
    using assms by (simp_all add: usable_def list_all_iff)
  then show ?thesis using func_call_written parse_args_written build_written [OF assms] arity_written by (simp add: parse_transform_def)
qed

section \<open>Splitting a written pipeline\<close>

definition plain_char :: "char \<Rightarrow> bool" where
  "plain_char c \<longleftrightarrow> c \<notin> {CHR 0x22, CHR 0x5C, CHR ''['', CHR '']'', CHR ''('', CHR '')'', CHR ''|''}"

lemma at_drop: "drop i raw = c # s \<Longrightarrow> i < length raw \<and> raw ! i = c \<and> drop (Suc i) raw = s"
  by (metis Cons_nth_drop_Suc drop_eq_Nil2 leI list.distinct(1) list.inject)

lemma drop_over: "drop i raw = w @ s \<Longrightarrow> drop (i + length w) raw = s"
  by (metis add.commute append_eq_conv_conj drop_drop)

lemma loop_step:
  assumes "drop i raw = c # s" "split_step raw i st = (k, st')"
  shows "split_loop raw i st = split_loop raw (i + k) st'"
  using at_drop [OF assms(1)] assms(2) by (subst split_loop.simps) simp

lemma classify_twice [simp]: "classify_step raw i (classify_step raw i st) = classify_step raw i st"
  by (auto simp: classify_step_def split: option.splits)

lemma classify_later: "sp_start st < i \<Longrightarrow> classify_step raw i st = st"
  by (simp add: classify_step_def)

lemma loop_classify: "split_loop raw i st = split_loop raw i (classify_step raw i st)" if "drop i raw = c # s"
  using at_drop [OF that] by (subst (1 2) split_loop.simps) (simp add: split_step_def)

lemma walk_plain:
  assumes "sp_start st \<le> i" "classify_step raw i st = st" "\<not> sp_quote st" "\<not> sp_class st" "drop i raw = w @ s" "list_all plain_char w"
  shows "split_loop raw i st = split_loop raw (i + length w) st"
  using assms
proof (induction w arbitrary: i)
  case (Cons c w)
  have at: "raw ! i = c" "drop (Suc i) raw = w @ s" using at_drop [of i raw c "w @ s"] Cons.prems(5) by simp_all
  have "split_step raw i st = (1, st)"
    using Cons.prems at by (simp add: split_step_def split_char_def plain_char_def Let_def)
  then have "split_loop raw i st = split_loop raw (Suc i) st" using loop_step [of i raw c "w @ s" st 1 st] Cons.prems(5) by simp
  moreover have "classify_step raw (Suc i) st = st" using Cons.prems(1) by (intro classify_later) simp
  ultimately show ?case using Cons.IH [of "Suc i"] Cons.prems at by simp
qed simp

lemma walk_quoted:
  assumes "sp_start st < i" "sp_quote st" "drop i raw = doubled x @ CHR 0x22 # s" "s = [] \<or> hd s \<noteq> CHR 0x22"
  shows "split_loop raw i st = split_loop raw (i + length (doubled x) + 1) (st\<lparr>sp_quote := False\<rparr>)"
  using assms
proof (induction x arbitrary: i)
  case Nil
  have at: "raw ! i = CHR 0x22" "drop (Suc i) raw = s" using at_drop [of i raw "CHR 0x22" s] Nil.prems(3) by simp_all
  have "\<not> (Suc i < length raw \<and> raw ! Suc i = CHR 0x22)"
    using at(2) Nil.prems(4) by (auto simp: hd_drop_conv_nth)
  then have "split_step raw i st = (1, st\<lparr>sp_quote := False\<rparr>)"
    using Nil.prems at classify_later [of st i raw] by (simp add: split_step_def Let_def)
  then show ?case using loop_step [of i raw "CHR 0x22" s st] Nil.prems(3) by simp
next
  case (Cons c x)
  show ?case
  proof (cases "c = CHR 0x22")
    case True
    let ?r = "doubled x @ CHR 0x22 # s"
    have at: "raw ! i = CHR 0x22" "drop (Suc i) raw = CHR 0x22 # ?r"
      using at_drop [of i raw "CHR 0x22" "CHR 0x22 # ?r"] Cons.prems(3) True by simp_all
    have at2: "Suc i < length raw" "raw ! Suc i = CHR 0x22" "drop (Suc (Suc i)) raw = ?r"
      using at_drop [of "Suc i" raw "CHR 0x22" ?r] at(2) by simp_all
    have "split_step raw i st = (2, st)"
      using Cons.prems at at2 classify_later [of st i raw] by (simp add: split_step_def Let_def)
    then have "split_loop raw i st = split_loop raw (Suc (Suc i)) st"
      using loop_step [of i raw "CHR 0x22" "CHR 0x22 # ?r" st 2 st] Cons.prems(3) True by simp
    then show ?thesis using Cons.IH [of "Suc (Suc i)"] Cons.prems at2 True by simp
  next
    case False
    let ?r = "doubled x @ CHR 0x22 # s"
    have at: "raw ! i = c" "drop (Suc i) raw = ?r" using at_drop [of i raw c ?r] Cons.prems(3) False by simp_all
    have "split_step raw i st = (1, st)"
      using Cons.prems at False classify_later [of st i raw] by (simp add: split_step_def Let_def)
    then have "split_loop raw i st = split_loop raw (Suc i) st" using loop_step [of i raw c ?r st 1 st] Cons.prems(3) False by simp
    then show ?thesis using Cons.IH [of "Suc i"] Cons.prems at False by simp
  qed
qed

lemma walk_argument:
  assumes "sp_start st < i" "\<not> sp_quote st" "sp_parens st > 0" "drop i raw = argument_text x @ s" "s = [] \<or> hd s \<noteq> CHR 0x22"
  shows "split_loop raw i st = split_loop raw (i + length (argument_text x)) st"
proof -
  let ?r = "doubled x @ CHR 0x22 # s"
  have head: "drop i raw = CHR 0x22 # ?r" using assms(4) by (simp add: argument_text_def)
  then have at: "raw ! i = CHR 0x22" "drop (Suc i) raw = ?r" using at_drop [OF head] by simp_all
  have "split_step raw i st = (1, st\<lparr>sp_quote := True\<rparr>)"
    using assms at classify_later [of st i raw] by (simp add: split_step_def split_char_def Let_def)
  then have "split_loop raw i st = split_loop raw (Suc i) (st\<lparr>sp_quote := True\<rparr>)" using loop_step [OF head] by simp
  also have "\<dots> = split_loop raw (Suc i + length (doubled x) + 1) (st\<lparr>sp_quote := True\<rparr>\<lparr>sp_quote := False\<rparr>)"
    by (rule walk_quoted) (use assms at in simp_all)
  also have "st\<lparr>sp_quote := True\<rparr>\<lparr>sp_quote := False\<rparr> = st" using assms(2) by (cases st) simp
  finally show ?thesis by (simp add: argument_text_def)
qed

lemma walk_arguments:
  assumes "sp_start st < i" "\<not> sp_quote st" "\<not> sp_class st" "sp_parens st > 0" "drop i raw = join '','' (map argument_text xs) @ CHR '')'' # s"
  shows "split_loop raw i st = split_loop raw (i + length (join '','' (map argument_text xs))) st"
  using assms
proof (induction xs arbitrary: i)
  case (Cons x xs)
  show ?case
  proof (cases xs)
    case Nil
    then show ?thesis using walk_argument [of st i raw x "CHR '')'' # s"] Cons.prems by simp
  next
    case (Cons y ys)
    let ?rest = "join '','' (map argument_text xs) @ CHR '')'' # s"
    have joined: "join '','' (map argument_text (x # xs)) = argument_text x @ CHR '','' # join '','' (map argument_text xs)" using Cons by simp
    let ?j = "i + length (argument_text x)"
    have at: "drop i raw = argument_text x @ CHR '','' # ?rest" using Cons.prems(5) unfolding joined by simp
    have at_j: "drop ?j raw = '','' @ ?rest" using drop_over [OF at] by simp
    then have at_k: "drop (?j + 1) raw = ?rest" using at_drop [of ?j raw "CHR '',''" ?rest] by simp
    have "split_loop raw i st = split_loop raw ?j st"
      using walk_argument [OF _ _ _ at] Cons.prems by simp
    also have "\<dots> = split_loop raw (?j + length '','') st"
      by (rule walk_plain [OF _ _ _ _ at_j]) (use Cons.prems in \<open>simp_all add: classify_later plain_char_def\<close>)
    also have "\<dots> = split_loop raw (?j + 1 + length (join '','' (map argument_text xs))) st"
      using Cons.IH [of "?j + 1"] Cons.prems at_k by simp
    finally show ?thesis unfolding joined by (simp add: add.assoc)
  qed
qed simp

lemma prefix_written: "pipeline_prefix (transform_text t @ s) = Some (None, length (transform_name t) + 1)"
proof -
  let ?r = "join '','' (map argument_text (transform_args t)) @ '')'' @ s"
  have r: "transform_text t @ s = transform_name t @ CHR ''('' # ?r" by (simp add: transform_text_def)
  have "\<not> is_blank_char (hd (transform_name t @ CHR ''('' # ?r))" using name_ne [of t] by simp
  then have no_blanks: "takeWhile is_blank_char (transform_name t @ CHR ''('' # ?r) = []" "dropWhile is_blank_char (transform_name t @ CHR ''('' # ?r) = transform_name t @ CHR ''('' # ?r"
    using name_ne [of t] by (cases "transform_name t"; simp)+
  have "\<not> starts_with ''extract:'' (transform_name t @ CHR ''('' # ?r)" "\<not> starts_with ''regex:'' (transform_name t @ CHR ''('' # ?r)"
    by (cases t; simp add: starts_with_def)+
  moreover have "\<not> is_blank_char CHR ''(''" by code_simp
  ultimately show ?thesis unfolding r pipeline_prefix_def Let_def no_blanks name_split
    using name_ne(1) [of t] by (simp add: starts_with_def)
qed

lemma walk_transform:
  assumes "drop i raw = transform_text t @ s" "sp_start st = i" "\<not> sp_quote st" "\<not> sp_class st" "sp_parens st = 0"
  shows "split_loop raw i st = split_loop raw (i + length (transform_text t))
    (st\<lparr>sp_prefix_end := int (i + length (transform_name t) + 1), sp_pattern_end := - 1\<rparr>)"
proof -
  let ?st = "st\<lparr>sp_prefix_end := int (i + length (transform_name t) + 1), sp_pattern_end := - 1\<rparr>"
  let ?args = "join '','' (map argument_text (transform_args t))" and ?j = "i + length (transform_name t)"
  have at_i: "drop i raw = transform_name t @ CHR ''('' # ?args @ CHR '')'' # s" using assms(1) by (simp add: transform_text_def)
  have at_j: "drop ?j raw = CHR ''('' # ?args @ CHR '')'' # s" by (rule drop_over [OF at_i])
  then have j: "raw ! ?j = CHR ''(''" and at_k: "drop (?j + 1) raw = ?args @ CHR '')'' # s" using at_drop [OF at_j] by simp_all
  let ?l = "?j + 1 + length ?args"
  have at_l: "drop ?l raw = CHR '')'' # s" by (rule drop_over [OF at_k])
  have l: "raw ! ?l = CHR '')''" using at_drop [OF at_l] by simp
  have start: "classify_step raw i st = ?st" using prefix_written [of t s] assms(1,2) by (simp add: classify_step_def)
  have "sp_start st < ?j" using assms(2) name_ne(1) [of t] by simp
  have "split_loop raw i st = split_loop raw i ?st"
    using loop_classify [of i raw "hd (drop i raw)" "tl (drop i raw)" st] start at_i by simp
  also have "\<dots> = split_loop raw ?j ?st"
  proof (rule walk_plain [OF _ _ _ _ at_i])
    show "classify_step raw i ?st = ?st" using classify_twice [of raw i st] start by simp
    show "list_all plain_char (transform_name t)" using name_chars [of t] by (simp add: list_all_iff plain_char_def)
  qed (use assms in simp_all)
  also have "\<dots> = split_loop raw (?j + 1) (?st\<lparr>sp_parens := 1\<rparr>)"
  proof (rule loop_step [OF at_j])
    show "split_step raw ?j ?st = (1, ?st\<lparr>sp_parens := 1\<rparr>)"
      using assms \<open>sp_start st < ?j\<close> classify_later [of ?st ?j raw] j by (simp add: split_step_def split_char_def Let_def)
  qed
  also have "\<dots> = split_loop raw ?l (?st\<lparr>sp_parens := 1\<rparr>)"
    by (rule walk_arguments [OF _ _ _ _ at_k]) (use assms in simp_all)
  also have "\<dots> = split_loop raw (?l + 1) ?st"
  proof (rule loop_step [OF at_l])
    have "?st\<lparr>sp_parens := 1\<rparr>\<lparr>sp_parens := 0\<rparr> = ?st" using assms(5) by (cases st) simp
    then show "split_step raw ?l (?st\<lparr>sp_parens := 1\<rparr>) = (1, ?st)"
      using assms \<open>sp_start st < ?j\<close> classify_later [of "?st\<lparr>sp_parens := 1\<rparr>" ?l raw] l by (simp add: split_step_def split_char_def Let_def)
  qed
  finally show ?thesis by (simp add: transform_text_def add.assoc)
qed

lemma strip_written: "strip (transform_text t) = transform_text t"
proof -
  have "hd (transform_text t) = hd (transform_name t)" using name_ne(1) [of t] by (simp add: transform_text_def)
  then have "dropWhile is_blank_char (transform_text t) = transform_text t"
    using name_ne(2) [of t] by (cases "transform_text t") simp_all
  moreover have "rev (transform_text t) = CHR '')'' # rev (butlast (transform_text t))" by (simp add: transform_text_def butlast_append)
  moreover have "\<not> is_blank_char CHR '')''" by code_simp
  ultimately show ?thesis unfolding strip_def by (metis dropWhile.simps(2) rev_rev_ident)
qed

definition split_end :: "string \<Rightarrow> split_state \<Rightarrow> bool \<times> bool \<times> nat \<times> string list" where
  "split_end raw st = (sp_quote st, sp_class st, sp_parens st, sp_steps st @ [strip (drop (sp_start st) raw)])"

lemma walk_pipeline:
  assumes "ts \<noteq> []" "drop i raw = join ''|'' (map transform_text ts)" "sp_start st = i" "\<not> sp_quote st" "\<not> sp_class st" "sp_parens st = 0"
  shows "split_end raw (split_loop raw i st) = (False, False, 0, sp_steps st @ map transform_text ts)"
  using assms
proof (induction ts arbitrary: i st)
  case (Cons t ts)
  let ?st = "st\<lparr>sp_prefix_end := int (i + length (transform_name t) + 1), sp_pattern_end := - 1\<rparr>" and ?j = "i + length (transform_text t)"
  show ?case
  proof (cases "ts = []")
    case True
    then have at: "drop i raw = transform_text t @ []" using Cons.prems by simp
    have "split_loop raw ?j ?st = ?st" using drop_over [OF at] by (subst split_loop.simps) simp
    then show ?thesis using walk_transform [OF at] Cons.prems True by (simp add: split_end_def strip_written)
  next
    case False
    then have at: "drop i raw = transform_text t @ CHR ''|'' # join ''|'' (map transform_text ts)" using Cons.prems by (cases ts) simp_all
    let ?st' = "?st\<lparr>sp_steps := sp_steps st @ [transform_text t], sp_start := Suc ?j\<rparr>"
    have at_j: "drop ?j raw = CHR ''|'' # join ''|'' (map transform_text ts)" by (rule drop_over [OF at])
    then have j: "raw ! ?j = CHR ''|''" and at_k: "drop (Suc ?j) raw = join ''|'' (map transform_text ts)" using at_drop [OF at_j] by simp_all
    have cut: "drop i (take ?j raw) = transform_text t" using at by (simp add: drop_take)
    have "i < ?j" using name_ne(1) [of t] by (simp add: transform_text_def)
    then have "split_step raw ?j ?st = (1, ?st')"
      using Cons.prems classify_later [of ?st ?j raw] j cut by (simp add: split_step_def split_char_def Let_def strip_written)
    then have "split_loop raw i st = split_loop raw (Suc ?j) ?st'"
      using walk_transform [OF at] loop_step [OF at_j, of ?st 1 ?st'] Cons.prems by simp
    then show ?thesis using Cons.IH [OF False at_k, of ?st'] Cons.prems by simp
  qed
qed simp

lemma split_written: "ts \<noteq> [] \<Longrightarrow> split_transform_pipeline (join ''|'' (map transform_text ts)) = Inr (map transform_text ts)"
  using walk_pipeline [of ts 0 "join ''|'' (map transform_text ts)" "\<lparr>sp_steps = [], sp_start = 0, sp_quote = False, sp_parens = 0, sp_class = False, sp_prefix_end = - 1, sp_pattern_end = - 1\<rparr>"]
  by (simp add: split_transform_pipeline_def split_end_def Let_def)

lemma parse_steps_written: "list_all (usable e) ts \<Longrightarrow> parse_steps e (map transform_text ts) None = (Inr ts, None)"
  by (induction ts) (simp_all add: parse_written)

section \<open>The round trip\<close>

text \<open>
  Claim C17. A pipeline that is written out is read back. Every non-empty sequence of transforms, each written as a call with quoted arguments in
  which quotes are doubled, and joined by pipes, is split at exactly those pipes and parsed into the same transforms: a pipe, a comma, a
  quote, a bracket or a backslash in an argument never ends a step or an argument early. The arguments have no newline and are within the
  field limit of the CSV reader, their patterns compile within the limits when no regex budget is shared with other selectors, and the
  pipeline has at most the configured number of steps.
\<close>

theorem pipeline_text_round_trip:
  assumes "ts \<noteq> []" "length ts \<le> tr_pipeline_limit e" "list_all (usable e) ts"
  shows "parse_transform_pipeline e (join ''|'' (map transform_text ts)) None = (Inr ts, None)"
proof -
  have "[] \<notin> set (map transform_text ts)" by (auto simp: transform_text_def)
  then show ?thesis using split_written [OF assms(1)] parse_steps_written [OF assms(3)] assms(2)
    by (simp add: parse_transform_pipeline_def)
qed

definition sample_engine :: regex_engine where
  "sample_engine = \<lparr>rx_compiles = (\<lambda>p. True), rx_expansion = (\<lambda>p. Some (int (length p))), rx_replacement_ok = (\<lambda>p r. True),
     rx_search = (\<lambda>p v. Some None), rx_matches = (\<lambda>p r v. Some []), rx_max_pattern_bytes = 256, tr_upper = (\<lambda>s. s),
     tr_value_limit = 1048576, tr_pipeline_limit = 32\<rparr>"

theorem pipeline_text_round_trip_witness:
  "parse_transform_pipeline sample_engine (join ''|'' (map transform_text [Trim, Replace ''a|b'' [CHR 0x22, CHR '')''], Extract ''[0-9]+'']))  None
    = (Inr [Trim, Replace ''a|b'' [CHR 0x22, CHR '')''], Extract ''[0-9]+''], None)"
  by (rule pipeline_text_round_trip)
    (simp_all add: sample_engine_def usable_def compile_regex_def utf8_length_def max_regex_expansion_def csv_field_limit_def)

end
