(* ===== verification/Terminal_Reconciliation.thy ===== *)
theory Terminal_Reconciliation
  imports Webhook_Payload Store_Effects
begin

text \<open>
  The repair of terminal webhooks, \<^verbatim>\<open>queue/terminal_reconciliation.py\<close>, and the periodic repair of runs whose worker died,
  \<^verbatim>\<open>queue/running_reconciliation.py\<close>.

  \<^item> \<open>terminal_port\<close> has what a pass calls: loading a configuration and reading its YAML, the row of the result, the redaction and the
    printing of dates. \<open>None\<close> is an exception. \<open>tp_store_fails\<close> and \<open>tp_mark_fails\<close> are failures of the transactions of a run, and
    \<open>tp_other\<close> what other tasks commit before the transaction of a run; a pass has one transaction per run, and one more if it fails.
  \<^item> An exception of a candidate is a \<open>store_error\<close>; the counters it has changed stay changed.
  \<^item> The log lines are left out.
\<close>

section \<open>A candidate\<close>

record terminal_port =
  tp_load_config :: "string \<Rightarrow> scrape_config option"
  tp_yaml_webhook :: "string \<Rightarrow> bool option"
  tp_metadata :: "string \<Rightarrow> string \<Rightarrow> (string \<times> int option) option option"
  tp_redact :: "(string \<times> json) list \<Rightarrow> (string \<times> json) list"
  tp_isoformat :: "instant \<Rightarrow> string"
  tp_store_fails :: "string \<Rightarrow> bool"
  tp_mark_fails :: "string \<Rightarrow> bool"
  tp_other :: "string \<Rightarrow> jobs_db \<Rightarrow> jobs_db"
  tp_now :: "string \<Rightarrow> instant"

record terminal_summary =
  ts_inspected :: nat
  ts_required :: nat
  ts_existing :: nat
  ts_repaired :: nat
  ts_not_required :: nat
  ts_race_noop :: nat
  ts_metadata_missing :: nat
  ts_parent_converged :: nat

definition candidate_event :: "terminal_candidate \<Rightarrow> string" where
  "candidate_event c = ''job.'' @ status_value (tc_status c)"

definition candidate_delivery_id :: "(string \<Rightarrow> string) \<Rightarrow> terminal_candidate \<Rightarrow> string" where
  "candidate_delivery_id sha c = deterministic_delivery_id sha (tc_job_id c) (Some (tc_run_id c)) (candidate_event c)"

definition load_result_metadata :: "terminal_port \<Rightarrow> terminal_candidate \<Rightarrow> (string \<times> int option) option \<times> bool" where
  "load_result_metadata p c = (case tp_metadata p (tc_job_id c) (tc_run_id c) of
       None \<Rightarrow> (None, True) | Some None \<Rightarrow> (None, True) | Some (Some m) \<Rightarrow> (Some m, False))"

definition declares_webhook :: "terminal_port \<Rightarrow> string \<Rightarrow> bool" where
  "declares_webhook p yaml = (case tp_yaml_webhook p yaml of None \<Rightarrow> True | Some b \<Rightarrow> b)"

definition load_terminal_config :: "terminal_port \<Rightarrow> terminal_candidate \<Rightarrow> store_error + scrape_config option" where
  "load_terminal_config p c = (case tp_load_config p (tc_config_yaml c) of
       Some cfg \<Rightarrow> Inr (Some cfg)
     | None \<Rightarrow> if declares_webhook p (tc_config_yaml c) then Inl (ValueError ''configuration'') else Inr None)"

text \<open>The delivery that the run owes, and the counters.\<close>

definition owed_delivery ::
    "(string \<Rightarrow> string) \<Rightarrow> terminal_port \<Rightarrow> terminal_candidate \<Rightarrow> scrape_config option \<Rightarrow> terminal_summary \<Rightarrow> delivery_create option \<times> terminal_summary" where
  "owed_delivery sha p c config s = (case config of
       None \<Rightarrow> (None, s)
     | Some cfg \<Rightarrow> (case sc_webhook cfg of
         None \<Rightarrow> (None, s)
       | Some wc \<Rightarrow> if \<not> should_fire wc (tc_status c) then (None, s)
           else let (metadata, missing) = load_result_metadata p c in
             (build_terminal_webhook_delivery sha (tp_redact p) (tp_isoformat p) cfg (tc_job_id c) (tc_status c) (tc_run_id c)
                (map_option fst metadata)
                (case metadata of None \<Rightarrow> tc_record_count c | Some (_, n) \<Rightarrow> (case n of None \<Rightarrow> tc_record_count c | Some k \<Rightarrow> Some k))
                (tc_error_count c) (tc_started_at c) (candidate_time c) (Some (tc_config_hash c)),
              s\<lparr>ts_required := ts_required s + 1, ts_metadata_missing := ts_metadata_missing s + (if missing then 1 else 0)\<rparr>)))"

definition count_action :: "bool \<Rightarrow> terminal_intent_result \<Rightarrow> terminal_summary \<Rightarrow> terminal_summary" where
  "count_action known r s0 = (let s = s0\<lparr>ts_parent_converged := ts_parent_converged s0 + (if ti_parent_converged r then 1 else 0)\<rparr> in
     if ti_action r = Ti_existing then s\<lparr>ts_existing := ts_existing s + 1\<rparr>
     else if \<not> known \<and> ti_action r = Ti_created then s\<lparr>ts_repaired := ts_repaired s + 1\<rparr>
     else if \<not> known \<and> ti_action r = Ti_not_required then s\<lparr>ts_not_required := ts_not_required s + 1\<rparr>
     else s\<lparr>ts_race_noop := ts_race_noop s + 1\<rparr>)"

definition settle_candidate ::
    "env \<Rightarrow> terminal_port \<Rightarrow> terminal_candidate \<Rightarrow> bool \<Rightarrow> delivery_create option \<Rightarrow> terminal_summary \<Rightarrow> jobs_db
     \<Rightarrow> store_error option \<times> terminal_summary \<times> jobs_db" where
  "settle_candidate e p c known w s db0 = (let db = tp_other p (tc_run_id c) db0 in
     if tp_store_fails p (tc_run_id c) then (Some (RuntimeError ''store''), s, db)
     else case reconcile_terminal_webhook_candidate e c w db of
       Inl x \<Rightarrow> (Some x, s, db)
     | Inr (r, db') \<Rightarrow> (None, count_action known r s, db'))"

definition reconcile_candidate ::
    "env \<Rightarrow> terminal_port \<Rightarrow> terminal_candidate \<Rightarrow> terminal_summary \<Rightarrow> jobs_db \<Rightarrow> store_error option \<times> terminal_summary \<times> jobs_db" where
  "reconcile_candidate e p c s db = (if tc_existing_delivery c \<noteq> None
     then settle_candidate e p c True None (s\<lparr>ts_required := ts_required s + 1\<rparr>) db
     else if sha256 e (tc_config_yaml c) \<noteq> tc_config_hash c
     then (Some (ValueError ''Persisted job config no longer matches the terminal run config hash''), s, db)
     else case load_terminal_config p c of
       Inl x \<Rightarrow> (Some x, s, db)
     | Inr config \<Rightarrow> (case owed_delivery (sha256 e) p c config s of (w, s1) \<Rightarrow> settle_candidate e p c False w s1 db))"

section \<open>A pass\<close>

fun reconcile_candidates ::
    "env \<Rightarrow> terminal_port \<Rightarrow> terminal_candidate list \<Rightarrow> terminal_candidate option \<Rightarrow> terminal_summary \<Rightarrow> jobs_db
     \<Rightarrow> terminal_candidate option \<times> terminal_summary \<times> jobs_db" where
  "reconcile_candidates e p [] first_failure s db = (first_failure, s, db)"
| "reconcile_candidates e p (c # cs) first_failure s db = (case reconcile_candidate e p c s db of
       (None, s1, db1) \<Rightarrow> reconcile_candidates e p cs first_failure s1 db1
     | (Some x, s1, db1) \<Rightarrow> reconcile_candidates e p cs (if first_failure = None then Some c else first_failure) s1
         (if tp_mark_fails p (tc_run_id c) then db1
          else snd (mark_terminal_webhook_reconciliation_failure (tc_job_id c) (tc_run_id c) (tp_now p (tc_run_id c)) db1)))"

datatype terminal_error = Terminal_intent_failure string string | Terminal_store_failure store_error

definition zero_summary :: "nat \<Rightarrow> terminal_summary" where
  "zero_summary n = \<lparr>ts_inspected = n, ts_required = 0, ts_existing = 0, ts_repaired = 0, ts_not_required = 0, ts_race_noop = 0,
     ts_metadata_missing = 0, ts_parent_converged = 0\<rparr>"

definition reconcile_terminal_webhook_intents ::
    "env \<Rightarrow> terminal_port \<Rightarrow> int option \<Rightarrow> jobs_db \<Rightarrow> (terminal_error + terminal_summary) \<times> jobs_db" where
  "reconcile_terminal_webhook_intents e p batch db = (case list_terminal_webhook_candidates e batch db of
       Inl x \<Rightarrow> (Inl (Terminal_store_failure x), db)
     | Inr cs \<Rightarrow> (case reconcile_candidates e p cs None (zero_summary (length cs)) db of
         (None, s, db') \<Rightarrow> (Inr s, db')
       | (Some c, s, db') \<Rightarrow> (Inl (Terminal_intent_failure (tc_job_id c) (tc_run_id c)), db')))"

record running_summary =
  ru_recovered :: nat
  ru_terminal_intents :: terminal_summary
  ru_notified :: bool

definition reconcile_stale_running_jobs ::
    "env \<Rightarrow> terminal_port \<Rightarrow> int \<Rightarrow> int \<Rightarrow> instant \<Rightarrow> jobs_db \<Rightarrow> (terminal_error + running_summary) \<times> jobs_db" where
  "reconcile_stale_running_jobs e p timeout_us batch recovered_at db =
     (case recover_stale_running_jobs (recovered_at - timeout_us) recovered_at (Some batch) db of
        Inl x \<Rightarrow> (Inl (Terminal_store_failure x), db)
      | Inr (recs, db1) \<Rightarrow> (case reconcile_terminal_webhook_intents e p (Some batch) db1 of
          (Inl x, db2) \<Rightarrow> (Inl x, db2)
        | (Inr s, db2) \<Rightarrow> (Inr \<lparr>ru_recovered = length recs, ru_terminal_intents = s, ru_notified = (ts_repaired s > 0)\<rparr>, db2)))"

end
