(* ===== verification/Terminal_Properties.thy ===== *)
theory Terminal_Properties
  imports Terminal_Reconciliation
begin

text \<open>
  A pass over the terminal runs settles every candidate it can, whatever fails for the others, and leaves exactly the rest.

  \<^item> \<open>settled S db db'\<close>: from \<open>db\<close> to \<open>db'\<close> the runs in \<open>S\<close> are marked and their parents converge, and nothing else changes that a
    candidate depends on.
  \<^item> \<open>ids_unshared\<close> is what SHA-256 is relied on for: a delivery id belongs to one event of one run.
\<close>

section \<open>Settling runs\<close>

definition run_settles :: "(string \<times> string) set \<Rightarrow> run_row \<Rightarrow> run_row \<Rightarrow> bool" where
  "run_settles S r r' \<longleftrightarrow> r_run_id r' = r_run_id r \<and> r_job_id r' = r_job_id r \<and> r_status r' = r_status r \<and> r_config_hash r' = r_config_hash r
     \<and> r_config_yaml r' = r_config_yaml r
     \<and> (r_webhook_reconciled_at r' = None \<longleftrightarrow> r_webhook_reconciled_at r = None \<and> (r_job_id r, r_run_id r) \<notin> S)"

definition job_settles :: "(string \<times> string) set \<Rightarrow> job_row \<Rightarrow> job_row \<Rightarrow> bool" where
  "job_settles S j j' \<longleftrightarrow> j_job_id j' = j_job_id j \<and> j_config_yaml j' = j_config_yaml j \<and> j_current_run_id j' = j_current_run_id j
     \<and> (j_status j' = Deleting \<longleftrightarrow> j_status j = Deleting)
     \<and> (j_status j' = Running \<longleftrightarrow> j_status j = Running \<and> (\<forall>rid. j_current_run_id j = Some rid \<longrightarrow> (j_job_id j, rid) \<notin> S))"

definition settled :: "(string \<times> string) set \<Rightarrow> jobs_db \<Rightarrow> jobs_db \<Rightarrow> bool" where
  "settled S db db' \<longleftrightarrow> list_all2 (run_settles S) (job_runs db) (job_runs db') \<and> list_all2 (job_settles S) (jobs db) (jobs db')
     \<and> (\<exists>new. webhook_deliveries db' = webhook_deliveries db @ new)"

lemma run_settles_trans: "run_settles S a b \<Longrightarrow> run_settles T b c \<Longrightarrow> run_settles (S \<union> T) a c"
  by (auto simp: run_settles_def)

lemma job_settles_trans: "job_settles S a b \<Longrightarrow> job_settles T b c \<Longrightarrow> job_settles (S \<union> T) a c"
  by (auto simp: job_settles_def)

lemma settled_trans:
  assumes "settled S a b" and "settled T b c"
  shows "settled (S \<union> T) a c"
proof -
  have r: "list_all2 (run_settles S) (job_runs a) (job_runs b)" "list_all2 (run_settles T) (job_runs b) (job_runs c)"
    and j: "list_all2 (job_settles S) (jobs a) (jobs b)" "list_all2 (job_settles T) (jobs b) (jobs c)"
    using assms by (simp_all add: settled_def)
  have "list_all2 (run_settles (S \<union> T)) (job_runs a) (job_runs c)"
    using list_all2_trans [OF _ r] run_settles_trans by metis
  moreover have "list_all2 (job_settles (S \<union> T)) (jobs a) (jobs c)"
    using list_all2_trans [OF _ j] job_settles_trans by metis
  ultimately show ?thesis using assms by (auto simp: settled_def)
qed

lemma settled_refl: "settled {} db db"
  by (auto simp: settled_def run_settles_def job_settles_def intro!: list_all2_refl)

lemma settled_wf: "settled S db db' \<Longrightarrow> map r_run_id (job_runs db') = map r_run_id (job_runs db) \<and> map j_job_id (jobs db') = map j_job_id (jobs db)"
  unfolding settled_def by (auto simp: list_all2_conv_all_nth run_settles_def job_settles_def intro!: nth_equalityI)

lemma settled_run: "settled S db db' \<Longrightarrow> r \<in> set (job_runs db) \<Longrightarrow> \<exists>r' \<in> set (job_runs db'). run_settles S r r'"
  unfolding settled_def by (metis in_set_conv_nth list_all2_conv_all_nth)


lemma settled_job: "settled S db db' \<Longrightarrow> j \<in> set (jobs db) \<Longrightarrow> \<exists>j' \<in> set (jobs db'). job_settles S j j'"
  unfolding settled_def by (metis in_set_conv_nth list_all2_conv_all_nth)






section \<open>One candidate\<close>

definition has_delivery :: "jobs_db \<Rightarrow> string \<Rightarrow> string \<Rightarrow> string \<Rightarrow> bool" where
  "has_delivery db jid rid event \<longleftrightarrow> (\<exists>d \<in> set (webhook_deliveries db). d_job_id d = jid \<and> d_run_id d = Some rid \<and> d_event d = event)"

lemma first_delivery_None: "first_delivery db jid rid event = None \<longleftrightarrow> \<not> has_delivery db jid rid event"
proof -
  let ?xs = "filter (\<lambda>d. d_job_id d = jid \<and> d_run_id d = Some rid \<and> d_event d = event) (webhook_deliveries db)"
  have "first_delivery db jid rid event = None \<longleftrightarrow> sql_order (\<lambda>d. (d_created_at d, d_delivery_id d)) ?xs = []"
    by (simp add: first_delivery_def split: list.splits)
  also have "\<dots> \<longleftrightarrow> ?xs = []" unfolding sql_order_def by (simp only: flip: length_0_conv) simp
  finally show ?thesis by (auto simp: has_delivery_def filter_empty_conv)
qed

definition run_delivery_id :: "(string \<Rightarrow> string) \<Rightarrow> run_row \<Rightarrow> string" where
  "run_delivery_id sha r = deterministic_delivery_id sha (r_job_id r) (Some (r_run_id r)) (terminal_event (r_status r))"

definition ids_unshared :: "(string \<Rightarrow> string) \<Rightarrow> jobs_db \<Rightarrow> bool" where
  "ids_unshared sha db \<longleftrightarrow>
     list_all (\<lambda>d. list_all (\<lambda>r. terminal (r_status r) \<longrightarrow> d_delivery_id d = run_delivery_id sha r \<longrightarrow>
        d_job_id d = r_job_id r \<and> d_run_id d = Some (r_run_id r) \<and> d_event d = terminal_event (r_status r)) (job_runs db)) (webhook_deliveries db)
     \<and> list_all (\<lambda>r. list_all (\<lambda>s. terminal (r_status r) \<longrightarrow> terminal (r_status s) \<longrightarrow>
         run_delivery_id sha r = run_delivery_id sha s \<longrightarrow> r_run_id r = r_run_id s) (job_runs db)) (job_runs db)"

text \<open>The candidate describes the run and its parent as they are stored.\<close>

definition describes :: "env \<Rightarrow> terminal_candidate \<Rightarrow> run_row \<Rightarrow> job_row \<Rightarrow> bool" where
  "describes e c r j \<longleftrightarrow> tc_job_id c = r_job_id r \<and> tc_run_id c = r_run_id r \<and> tc_status c = r_status r \<and> tc_config_hash c = r_config_hash r
     \<and> r_job_id r = j_job_id j \<and> tc_has_config_snapshot c = (r_config_yaml r \<noteq> None)
     \<and> (case r_config_yaml r of None \<Rightarrow> reveal_text e (jobs_purpose (j_job_id j)) (j_config_yaml j)
          | Some stored \<Rightarrow> reveal_text e (runs_purpose (r_run_id r)) stored) = Some (tc_config_yaml c)"

lemma describes_listed: "terminal_webhook_candidate e db (r, j) = Inr c \<Longrightarrow> r_job_id r = j_job_id j \<Longrightarrow> describes e c r j"
  by (auto simp: terminal_webhook_candidate_def describes_def Let_def split: option.splits)

lemma describes_settled: "describes e c r j \<Longrightarrow> run_settles S r r' \<Longrightarrow> job_settles T j j' \<Longrightarrow> describes e c r' j'"
  by (auto simp: describes_def run_settles_def job_settles_def split: option.splits)

lemma describes_config: "describes e c r j \<Longrightarrow> candidate_config_matches e c r j = Inr True"
  by (auto simp: describes_def candidate_config_matches_def split: option.splits)

lemma settled_jobs_only:
  assumes "wf_db db" and "j \<in> set (jobs db)" and "j_job_id j = jid"
    and "b \<longleftrightarrow> j_current_run_id j = Some rid \<and> j_status j = Running" and "s \<notin> {Running, Deleting}"
  shows "list_all2 (job_settles {(jid, rid)}) (jobs db) (if b then sql_update (\<lambda>x. j_job_id x = jid \<and> j_status x = Running \<and> j_current_run_id x = Some rid)
     (\<lambda>x. x\<lparr>j_status := s, j_updated_at := u\<rparr>) (jobs db) else jobs db)"
proof (cases b)
  case True
  have "list_all2 (job_settles {(jid, rid)}) xs (sql_update (\<lambda>x. j_job_id x = jid \<and> j_status x = Running \<and> j_current_run_id x = Some rid)
     (\<lambda>x. x\<lparr>j_status := s, j_updated_at := u\<rparr>) xs)" for xs
    using assms(5) by (induction xs) (auto simp: sql_update_Cons job_settles_def)
  then show ?thesis using True by simp
next
  case False
  have "x = j" if "x \<in> set (jobs db)" "j_job_id x = jid" for x using unique_onD [OF wf_dbD(1) [OF assms(1)] that(1) assms(2)] that(2) assms(3) by simp
  then have "job_settles {(jid, rid)} x x" if "x \<in> set (jobs db)" for x using that False assms(4) by (auto simp: job_settles_def)
  then show ?thesis using False by (auto simp: list_all2_same)
qed

lemma mark_settles:
  assumes "wf_db db" and "r \<in> set (job_runs db)" and "tc_job_id c = r_job_id r" "tc_run_id c = r_run_id r" "tc_status c = r_status r" "tc_config_hash c = r_config_hash r"
  shows "\<exists>runs. mark_terminal_webhook_reconciled c db = Inr (db\<lparr>job_runs := runs\<rparr>) \<and> list_all2 (run_settles {(r_job_id r, r_run_id r)}) (job_runs db) runs"
proof -
  define P where "P = (\<lambda>x :: run_row. r_job_id x = tc_job_id c \<and> r_run_id x = tc_run_id c \<and> r_status x = tc_status c \<and> r_config_hash x = tc_config_hash c)"
  define f where "f = (\<lambda>x :: run_row. x\<lparr>r_webhook_reconciled_at := sql_coalesce (r_webhook_reconciled_at x) (Some (candidate_time c))\<rparr>)"
  have only: "x = r" if "x \<in> set (job_runs db)" "r_run_id x = r_run_id r" for x using unique_onD [OF wf_dbD(3) [OF assms(1)] that(1) assms(2) that(2)] .
  have "rowcount P (job_runs db) = 1"
    using rowcount_key_1 [OF wf_dbD(3) [OF assms(1)], of P] assms(2-6) by (auto simp: P_def)
  then have "mark_terminal_webhook_reconciled c db = Inr (db\<lparr>job_runs := sql_update P f (job_runs db)\<rparr>)"
    by (simp add: mark_terminal_webhook_reconciled_def P_def f_def update_runs_def)
  moreover have "run_settles {(r_job_id r, r_run_id r)} x (if P x then f x else x)" if "x \<in> set (job_runs db)" for x
    using only [OF that] assms(3-6) by (auto simp: run_settles_def P_def f_def sql_coalesce_def split: option.splits)
  then have "list_all2 (run_settles {(r_job_id r, r_run_id r)}) (job_runs db) (sql_update P f (job_runs db))"
    by (auto simp: sql_update_def list_all2_map2 list_all2_same)
  ultimately show ?thesis by blast
qed

lemma ids_unsharedD:
  assumes "ids_unshared sha db"
  shows "r \<in> set (job_runs db) \<Longrightarrow> s \<in> set (job_runs db) \<Longrightarrow> terminal (r_status r) \<Longrightarrow> terminal (r_status s) \<Longrightarrow> run_delivery_id sha r = run_delivery_id sha s
      \<Longrightarrow> r_run_id r = r_run_id s"
    and "d \<in> set (webhook_deliveries db) \<Longrightarrow> r \<in> set (job_runs db) \<Longrightarrow> terminal (r_status r) \<Longrightarrow> d_delivery_id d = run_delivery_id sha r
      \<Longrightarrow> d_job_id d = r_job_id r \<and> d_run_id d = Some (r_run_id r) \<and> d_event d = terminal_event (r_status r)"
  using assms unfolding ids_unshared_def list_all_iff by blast+

lemma ids_unshared_settled:
  assumes "ids_unshared sha db" and "list_all2 (run_settles S) (job_runs db) (job_runs db')" and "webhook_deliveries db' = webhook_deliveries db"
  shows "ids_unshared sha db'"
proof -
  have origin: "\<exists>r \<in> set (job_runs db). run_settles S r r'" if "r' \<in> set (job_runs db')" for r'
    using assms(2) that by (metis in_set_conv_nth list_all2_conv_all_nth)
  have same: "run_delivery_id sha r' = run_delivery_id sha r" if "run_settles S r r'" for r r'
    using that by (simp add: run_settles_def run_delivery_id_def)
  show ?thesis unfolding ids_unshared_def assms(3) list_all_iff
  proof (intro conjI ballI impI)
    fix r' s' assume h: "r' \<in> set (job_runs db')" "s' \<in> set (job_runs db')" "terminal (r_status r')" "terminal (r_status s')" "run_delivery_id sha r' = run_delivery_id sha s'"
    obtain r s where r: "r \<in> set (job_runs db)" "run_settles S r r'" "s \<in> set (job_runs db)" "run_settles S s s'" using origin [OF h(1)] origin [OF h(2)] by auto
    have "r_run_id r = r_run_id s"
      by (rule ids_unsharedD(1) [OF assms(1) r(1,3)]) (use h r same [OF r(2)] same [OF r(4)] in \<open>simp_all add: run_settles_def\<close>)
    then show "r_run_id r' = r_run_id s'" using r(2,4) by (simp add: run_settles_def)
  next
    fix d r' assume h: "d \<in> set (webhook_deliveries db)" "r' \<in> set (job_runs db')" "terminal (r_status r')" "d_delivery_id d = run_delivery_id sha r'"
    obtain r where r: "r \<in> set (job_runs db)" "run_settles S r r'" using origin [OF h(2)] by auto
    have "d_job_id d = r_job_id r \<and> d_run_id d = Some (r_run_id r) \<and> d_event d = terminal_event (r_status r)"
      by (rule ids_unsharedD(2) [OF assms(1) h(1) r(1)]) (use h r same [OF r(2)] in \<open>simp_all add: run_settles_def\<close>)
    then show "d_job_id d = r_job_id r'" "d_run_id d = Some (r_run_id r')" "d_event d = terminal_event (r_status r')" using r(2) by (auto simp: run_settles_def)
  qed
qed

lemma ids_unshared_add:
  assumes "ids_unshared sha db" and "wf_db db" and "r \<in> set (job_runs db)" and "terminal (r_status r)"
    and "d_delivery_id d = run_delivery_id sha r" "d_job_id d = r_job_id r" "d_run_id d = Some (r_run_id r)" "d_event d = terminal_event (r_status r)"
  shows "ids_unshared sha (db\<lparr>webhook_deliveries := webhook_deliveries db @ [d]\<rparr>)"
proof -
  have "d_job_id d = r_job_id s \<and> d_run_id d = Some (r_run_id s) \<and> d_event d = terminal_event (r_status s)"
    if s: "s \<in> set (job_runs db)" "terminal (r_status s)" "d_delivery_id d = run_delivery_id sha s" for s
  proof -
    have "r_run_id r = r_run_id s" by (rule ids_unsharedD(1) [OF assms(1,3) s(1) assms(4) s(2)]) (use assms(5) s(3) in simp)
    then have "r = s" by (rule unique_onD [OF wf_dbD(3) [OF assms(2)] assms(3) s(1)])
    then show ?thesis using assms(6-8) by simp
  qed
  then have "list_all (\<lambda>s. terminal (r_status s) \<longrightarrow> d_delivery_id d = run_delivery_id sha s \<longrightarrow>
        d_job_id d = r_job_id s \<and> d_run_id d = Some (r_run_id s) \<and> d_event d = terminal_event (r_status s)) (job_runs db)"
    unfolding list_all_iff by blast
  then show ?thesis using assms(1) unfolding ids_unshared_def by simp
qed

text \<open>What one transaction achieves for a candidate that describes its run.\<close>

definition proper :: "(string \<Rightarrow> string) \<Rightarrow> run_row \<Rightarrow> delivery_create \<Rightarrow> bool" where
  "proper sha r w \<longleftrightarrow> validate_terminal_delivery w (r_job_id r) (r_run_id r) (r_status r) = Inr ()
     \<and> map_of (w_payload w) ''delivery_id'' = Some (JStr (w_delivery_id w)) \<and> w_delivery_id w = run_delivery_id sha r"

lemma insert_proper:
  assumes "proper sha r w" and "ids_unshared sha db" and "wf_db db" and "r \<in> set (job_runs db)" and "terminal (r_status r)"
    and "\<not> has_delivery db (r_job_id r) (r_run_id r) (terminal_event (r_status r))"
  shows "\<exists>d. insert_webhook_delivery e w t db = Inr (True, db\<lparr>webhook_deliveries := webhook_deliveries db @ [d]\<rparr>)
    \<and> wf_db (db\<lparr>webhook_deliveries := webhook_deliveries db @ [d]\<rparr>) \<and> ids_unshared sha (db\<lparr>webhook_deliveries := webhook_deliveries db @ [d]\<rparr>)
    \<and> has_delivery (db\<lparr>webhook_deliveries := webhook_deliveries db @ [d]\<rparr>) (r_job_id r) (r_run_id r) (terminal_event (r_status r))"
proof -
  let ?d = "new_delivery_row e w t"
  have w: "w_job_id w = r_job_id r" "w_run_id w = Some (r_run_id r)" "w_event w = terminal_event (r_status r)"
    using assms(1) by (auto simp: proper_def validate_terminal_delivery_def Let_def split: if_splits)
  have row: "d_delivery_id ?d = w_delivery_id w" "d_job_id ?d = w_job_id w" "d_run_id ?d = w_run_id w" "d_event ?d = w_event w"
    by (simp_all add: new_delivery_row_def)
  have id: "w_delivery_id w = run_delivery_id sha r" using assms(1) by (simp add: proper_def)
  have fresh: "d_delivery_id d \<noteq> w_delivery_id w" if "d \<in> set (webhook_deliveries db)" for d
    using ids_unsharedD(2) [OF assms(2) that assms(4,5)] id assms(6) that by (auto simp: has_delivery_def)
  then have "insert_webhook_delivery e w t db = Inr (True, db\<lparr>webhook_deliveries := webhook_deliveries db @ [?d]\<rparr>)"
    using assms(1) by (auto simp: insert_webhook_delivery_def sql_exists_iff proper_def)
  moreover have "wf_db (db\<lparr>webhook_deliveries := webhook_deliveries db @ [?d]\<rparr>)"
    using assms(3) fresh row(1) by (auto simp: wf_db_def unique_on_append)
  moreover have "ids_unshared sha (db\<lparr>webhook_deliveries := webhook_deliveries db @ [?d]\<rparr>)"
    by (rule ids_unshared_add [OF assms(2-5)]) (use row w id in simp_all)
  moreover have "has_delivery (db\<lparr>webhook_deliveries := webhook_deliveries db @ [?d]\<rparr>) (r_job_id r) (r_run_id r) (terminal_event (r_status r))"
    using row w by (auto simp: has_delivery_def)
  ultimately show ?thesis by blast
qed

lemma ensure_settles:
  assumes wf: "wf_db db" and r: "r \<in> set (job_runs db)" and t: "terminal (r_status r)" and ids: "ids_unshared sha db"
    and c: "tc_job_id c = r_job_id r" "tc_run_id c = r_run_id r" "tc_status c = r_status r" "tc_config_hash c = r_config_hash r"
    and w: "\<And>x. w = Some x \<Longrightarrow> proper sha r x"
  shows "\<exists>res runs new. ensure_terminal_intent e c w b db = Inr (res, db\<lparr>webhook_deliveries := webhook_deliveries db @ new, job_runs := runs\<rparr>)
    \<and> list_all2 (run_settles {(r_job_id r, r_run_id r)}) (job_runs db) runs
    \<and> wf_db (db\<lparr>webhook_deliveries := webhook_deliveries db @ new\<rparr>) \<and> ids_unshared sha (db\<lparr>webhook_deliveries := webhook_deliveries db @ new\<rparr>)
    \<and> (w \<noteq> None \<or> has_delivery db (r_job_id r) (r_run_id r) (terminal_event (r_status r)) \<longrightarrow>
        has_delivery (db\<lparr>webhook_deliveries := webhook_deliveries db @ new\<rparr>) (r_job_id r) (r_run_id r) (terminal_event (r_status r)))"
proof (cases "w = None \<or> has_delivery db (r_job_id r) (r_run_id r) (terminal_event (r_status r))")
  case True
  obtain runs where m: "mark_terminal_webhook_reconciled c db = Inr (db\<lparr>job_runs := runs\<rparr>)" "list_all2 (run_settles {(r_job_id r, r_run_id r)}) (job_runs db) runs"
    using mark_settles [OF wf r c] by blast
  obtain res where "ensure_terminal_intent e c w b db = Inr (res, db\<lparr>job_runs := runs\<rparr>)"
    using True m(1) first_delivery_None [of db "r_job_id r" "r_run_id r" "terminal_event (r_status r)"]
    by (cases "first_delivery db (r_job_id r) (r_run_id r) (terminal_event (r_status r))") (auto simp: ensure_terminal_intent_def c Let_def)
  moreover have "w \<noteq> None \<longrightarrow> has_delivery db (r_job_id r) (r_run_id r) (terminal_event (r_status r))" using True by blast
  ultimately show ?thesis using m(2) wf ids by (intro exI [of _ res] exI [of _ runs] exI [of _ "[]"]) simp
next
  case False
  then obtain x where x: "w = Some x" and no: "\<not> has_delivery db (r_job_id r) (r_run_id r) (terminal_event (r_status r))" by auto
  obtain d where d: "insert_webhook_delivery e x (candidate_time c) db = Inr (True, db\<lparr>webhook_deliveries := webhook_deliveries db @ [d]\<rparr>)"
    "wf_db (db\<lparr>webhook_deliveries := webhook_deliveries db @ [d]\<rparr>)" "ids_unshared sha (db\<lparr>webhook_deliveries := webhook_deliveries db @ [d]\<rparr>)"
    "has_delivery (db\<lparr>webhook_deliveries := webhook_deliveries db @ [d]\<rparr>) (r_job_id r) (r_run_id r) (terminal_event (r_status r))"
    using insert_proper [OF w [OF x] ids wf r t no] by blast
  obtain runs where m: "mark_terminal_webhook_reconciled c (db\<lparr>webhook_deliveries := webhook_deliveries db @ [d]\<rparr>) = Inr (db\<lparr>webhook_deliveries := webhook_deliveries db @ [d], job_runs := runs\<rparr>)"
    "list_all2 (run_settles {(r_job_id r, r_run_id r)}) (job_runs db) runs"
    using mark_settles [OF d(2) _ c] r by auto
  have "first_delivery db (r_job_id r) (r_run_id r) (terminal_event (r_status r)) = None" using no by (simp add: first_delivery_None)
  then obtain res where "ensure_terminal_intent e c w b db = Inr (res, db\<lparr>webhook_deliveries := webhook_deliveries db @ [d], job_runs := runs\<rparr>)"
    using w [OF x] d(1) m(1) by (auto simp: ensure_terminal_intent_def c Let_def x proper_def)
  then show ?thesis using m(2) d(2-4) by (intro exI [of _ res] exI [of _ runs] exI [of _ "[d]"]) simp
qed

lemma has_delivery_cong: "webhook_deliveries db = webhook_deliveries db' \<Longrightarrow> has_delivery db jid rid ev = has_delivery db' jid rid ev"
  by (simp add: has_delivery_def)

lemma has_delivery_settled: "settled S db db' \<Longrightarrow> has_delivery db jid rid ev \<Longrightarrow> has_delivery db' jid rid ev"
  by (auto simp: settled_def has_delivery_def)

lemma settled_constraints: "settled S db db' \<Longrightarrow> wf_db db \<Longrightarrow> unique_on j_job_id (jobs db') \<and> unique_on r_run_id (job_runs db')"
  using settled_wf [of S db db'] by (simp add: wf_db_def unique_on_def)

definition settles_run :: "(string \<Rightarrow> string) \<Rightarrow> run_row \<Rightarrow> jobs_db \<Rightarrow> jobs_db \<Rightarrow> bool" where
  "settles_run sha r db db' \<longleftrightarrow> settled {(r_job_id r, r_run_id r)} db db' \<and> wf_db db' \<and> ids_unshared sha db'"

lemma reconcile_settles:
  assumes wf: "wf_db db" and r: "r \<in> set (job_runs db)" and j: "j \<in> set (jobs db)" and t: "terminal (r_status r)" and ids: "ids_unshared sha db"
    and c: "describes e c r j" and alive: "j_status j \<noteq> Deleting" and w: "\<And>x. w = Some x \<Longrightarrow> proper sha r x"
  shows "\<exists>res db'. reconcile_terminal_webhook_candidate e c w db = Inr (res, db') \<and> settles_run sha r db db'
    \<and> (w \<noteq> None \<or> has_delivery db (r_job_id r) (r_run_id r) (terminal_event (r_status r)) \<longrightarrow>
        has_delivery db' (r_job_id r) (r_run_id r) (terminal_event (r_status r)))"
proof -
  let ?k = "(r_job_id r, r_run_id r)"
  define b where "b \<longleftrightarrow> j_current_run_id j = Some (r_run_id r) \<and> j_status j = Running"
  define P where "P = (\<lambda>x :: job_row. j_job_id x = r_job_id r \<and> j_status x = Running \<and> j_current_run_id x = Some (r_run_id r))"
  define f where "f = (\<lambda>x :: job_row. x\<lparr>j_status := tc_status c, j_updated_at := Some (candidate_time c)\<rparr>)"
  define db1 where "db1 = (if b then update_jobs P f db else db)"
  have cd: "tc_job_id c = r_job_id r" "tc_run_id c = r_run_id r" "tc_status c = r_status r" "tc_config_hash c = r_config_hash r" "r_job_id r = j_job_id j"
    using c by (simp_all add: describes_def)
  have st: "tc_status c \<notin> {Running, Deleting}" using t cd(3) by (auto simp: terminal_run_statuses_def)
  have found: "find_run db (r_job_id r) (r_run_id r) = Some r" "find_job db (r_job_id r) = Some j"
    using find_run_in [OF wf r] find_job_in [OF wf j] cd(5) by simp_all
  have jobs1: "list_all2 (job_settles {?k}) (jobs db) (jobs db1)"
  proof -
    have "jobs db1 = (if b then sql_update P f (jobs db) else jobs db)" by (simp add: db1_def update_jobs_def)
    then show ?thesis unfolding P_def f_def using settled_jobs_only [OF wf j cd(5) [symmetric] b_def st] by (simp only:)
  qed
  have same: "job_runs db1 = job_runs db" "webhook_deliveries db1 = webhook_deliveries db" by (simp_all add: db1_def update_jobs_def)
  have r1: "r \<in> set (job_runs db1)" using r same(1) by simp
  have wf1: "wf_db db1" using wf wf_update_jobs [OF wf, of f P] by (simp add: db1_def f_def)
  have ids1: "ids_unshared sha db1" using ids same by (simp add: ids_unshared_def)
  have "b \<Longrightarrow> rowcount P (jobs db) = 1"
    using rowcount_key_1 [OF wf_dbD(1) [OF wf], of P] j cd(5) by (auto simp: P_def b_def)
  then have step: "reconcile_terminal_webhook_candidate e c w db = ensure_terminal_intent e c w b db1"
    using found alive t describes_config [OF c]
    by (cases b) (simp_all add: reconcile_terminal_webhook_candidate_def cd(1-4) b_def [symmetric] db1_def P_def f_def Let_def)
  obtain res runs new where out: "ensure_terminal_intent e c w b db1 = Inr (res, db1\<lparr>webhook_deliveries := webhook_deliveries db1 @ new, job_runs := runs\<rparr>)"
    "list_all2 (run_settles {?k}) (job_runs db1) runs"
    "wf_db (db1\<lparr>webhook_deliveries := webhook_deliveries db1 @ new\<rparr>)" "ids_unshared sha (db1\<lparr>webhook_deliveries := webhook_deliveries db1 @ new\<rparr>)"
    "w \<noteq> None \<or> has_delivery db1 (r_job_id r) (r_run_id r) (terminal_event (r_status r)) \<longrightarrow>
        has_delivery (db1\<lparr>webhook_deliveries := webhook_deliveries db1 @ new\<rparr>) (r_job_id r) (r_run_id r) (terminal_event (r_status r))"
    using ensure_settles [where e = e and b = b and w = w, OF wf1 r1 t ids1 cd(1-4) w] by blast
  let ?db' = "db1\<lparr>webhook_deliveries := webhook_deliveries db1 @ new, job_runs := runs\<rparr>"
  have settled: "settled {?k} db ?db'" using jobs1 out(2) same by (auto simp: settled_def)
  have "unique_on r_run_id runs" using settled_constraints [OF settled wf] by simp
  then have "wf_db ?db'" using out(3) by (simp add: wf_db_def)
  moreover have "ids_unshared sha ?db'" by (rule ids_unshared_settled [OF out(4)]) (use out(2) in simp_all)
  moreover have "w \<noteq> None \<or> has_delivery db (r_job_id r) (r_run_id r) (terminal_event (r_status r)) \<longrightarrow>
        has_delivery ?db' (r_job_id r) (r_run_id r) (terminal_event (r_status r))"
    using out(5) same by (simp add: has_delivery_def)
  ultimately show ?thesis using step out(1) settled by (auto simp: settles_run_def)
qed

section \<open>A pass\<close>

text \<open>
  A candidate is \<open>repairable\<close> if its own processing cannot fail: its transaction does not fail and, unless the delivery is there
  already, its configuration is the one the run was started with, and loads or declares no webhook.
\<close>

definition repairable :: "env \<Rightarrow> terminal_port \<Rightarrow> terminal_candidate \<Rightarrow> bool" where
  "repairable e p c \<longleftrightarrow> \<not> tp_store_fails p (tc_run_id c)
     \<and> (tc_existing_delivery c \<noteq> None
        \<or> sha256 e (tc_config_yaml c) = tc_config_hash c
          \<and> (tp_load_config p (tc_config_yaml c) \<noteq> None \<or> \<not> declares_webhook p (tc_config_yaml c)))"

text \<open>The configuration of the run asks for a webhook on its status.\<close>

definition owes_webhook :: "terminal_port \<Rightarrow> terminal_candidate \<Rightarrow> bool" where
  "owes_webhook p c = (case tp_load_config p (tc_config_yaml c) of None \<Rightarrow> False
     | Some cfg \<Rightarrow> (case sc_webhook cfg of None \<Rightarrow> False | Some wc \<Rightarrow> should_fire wc (tc_status c)))"

lemma owed_proper:
  assumes "keeps_identity (tp_redact p)" and "describes e c r j" and "owed_delivery sha p c config s = (Some w, s')"
  shows "proper sha r w"
proof -
  obtain cfg path n where "build_terminal_webhook_delivery sha (tp_redact p) (tp_isoformat p) cfg (tc_job_id c) (tc_status c) (tc_run_id c)
      path n (tc_error_count c) (tc_started_at c) (candidate_time c) (Some (tc_config_hash c)) = Some w"
    using assms(3) by (auto simp: owed_delivery_def Let_def split: option.splits if_splits prod.splits)
  from built_delivery_accepted [OF assms(1) this] show ?thesis
    using assms(2) by (simp add: proper_def describes_def run_delivery_id_def)
qed

lemma owed_exists: "owes_webhook p c \<Longrightarrow> load_terminal_config p c = Inr config \<Longrightarrow> owed_delivery sha p c config s = (w, s') \<Longrightarrow> w \<noteq> None"
  by (auto simp: owes_webhook_def load_terminal_config_def owed_delivery_def build_terminal_webhook_delivery_def Let_def split: option.splits if_splits prod.splits)

lemma candidate_settles:
  assumes wf: "wf_db db" and r: "r \<in> set (job_runs db)" and j: "j \<in> set (jobs db)" and t: "terminal (r_status r)" and ids: "ids_unshared (sha256 e) db"
    and c: "describes e c r j" and alive: "j_status j \<noteq> Deleting" and redact: "keeps_identity (tp_redact p)"
    and others: "tp_other p (tc_run_id c) db = db"
    and known: "tc_existing_delivery c \<noteq> None \<Longrightarrow> has_delivery db (r_job_id r) (r_run_id r) (terminal_event (r_status r))"
  shows "case reconcile_candidate e p c s db of
      (None, s', db') \<Rightarrow> repairable e p c \<and> settles_run (sha256 e) r db db'
        \<and> (owes_webhook p c \<longrightarrow> has_delivery db' (r_job_id r) (r_run_id r) (terminal_event (r_status r)))
    | (Some x, s', db') \<Rightarrow> \<not> repairable e p c \<and> db' = db"
proof -
  have settle: "case settle_candidate e p c b w s0 db of
        (None, s', db') \<Rightarrow> \<not> tp_store_fails p (tc_run_id c) \<and> settles_run (sha256 e) r db db'
          \<and> (w \<noteq> None \<or> has_delivery db (r_job_id r) (r_run_id r) (terminal_event (r_status r)) \<longrightarrow>
              has_delivery db' (r_job_id r) (r_run_id r) (terminal_event (r_status r)))
      | (Some x, s', db') \<Rightarrow> tp_store_fails p (tc_run_id c) \<and> db' = db"
    if w: "\<And>x. w = Some x \<Longrightarrow> proper (sha256 e) r x" for b w s0
  proof -
    obtain res db' where "reconcile_terminal_webhook_candidate e c w db = Inr (res, db')" "settles_run (sha256 e) r db db'"
      "w \<noteq> None \<or> has_delivery db (r_job_id r) (r_run_id r) (terminal_event (r_status r)) \<longrightarrow>
        has_delivery db' (r_job_id r) (r_run_id r) (terminal_event (r_status r))"
      using reconcile_settles [OF wf r j t ids c alive, of w] w by blast
    then show ?thesis by (simp add: settle_candidate_def others Let_def)
  qed
  show ?thesis
  proof (cases "tc_existing_delivery c = None")
    case False
    then show ?thesis using settle [of None True "s\<lparr>ts_required := ts_required s + 1\<rparr>"] known
      by (auto simp: reconcile_candidate_def repairable_def split: prod.splits option.splits)
  next
    case None: True
    show ?thesis
    proof (cases "sha256 e (tc_config_yaml c) = tc_config_hash c")
      case hash: True
      show ?thesis
      proof (cases "load_terminal_config p c")
        case (Inl x)
        then show ?thesis using None hash by (auto simp: reconcile_candidate_def repairable_def load_terminal_config_def split: option.splits if_splits)
      next
        case (Inr config)
        obtain w s1 where w: "owed_delivery (sha256 e) p c config s = (w, s1)" by force
        have "tp_load_config p (tc_config_yaml c) \<noteq> None \<or> \<not> declares_webhook p (tc_config_yaml c)"
          using Inr by (auto simp: load_terminal_config_def split: option.splits if_splits)
        moreover have "owes_webhook p c \<Longrightarrow> w \<noteq> None" using owed_exists [OF _ Inr w] .
        moreover have "proper (sha256 e) r x" if "w = Some x" for x using owed_proper [OF redact c] w that by blast
        ultimately show ?thesis using settle [of w False s1] None hash Inr w by (auto simp: reconcile_candidate_def repairable_def split: prod.splits option.splits)
      qed
    qed (use None in \<open>simp add: reconcile_candidate_def repairable_def\<close>)
  qed
qed

definition pending :: "env \<Rightarrow> jobs_db \<Rightarrow> terminal_candidate \<Rightarrow> bool" where
  "pending e db c \<longleftrightarrow> (\<exists>r \<in> set (job_runs db). \<exists>j \<in> set (jobs db). describes e c r j \<and> terminal (r_status r) \<and> j_status j \<noteq> Deleting)
     \<and> (tc_existing_delivery c \<noteq> None \<longrightarrow> has_delivery db (tc_job_id c) (tc_run_id c) (terminal_event (tc_status c)))"

lemma pending_settled:
  assumes "pending e db c" and "settled S db db'"
  shows "pending e db' c"
proof -
  obtain r j where r: "r \<in> set (job_runs db)" "j \<in> set (jobs db)" "describes e c r j" "terminal (r_status r)" "j_status j \<noteq> Deleting"
    using assms(1) by (auto simp: pending_def)
  obtain r' j' where r': "r' \<in> set (job_runs db')" "j' \<in> set (jobs db')" "run_settles S r r'" "job_settles S j j'"
    using settled_run [OF assms(2) r(1)] settled_job [OF assms(2) r(2)] by auto
  have "describes e c r' j'" by (rule describes_settled [OF r(3) r'(3,4)])
  moreover have "terminal (r_status r')" "j_status j' \<noteq> Deleting" using r(4,5) r'(3,4) by (simp_all add: run_settles_def job_settles_def)
  ultimately show ?thesis using r'(1,2) assms(1) has_delivery_settled [OF assms(2)] unfolding pending_def by blast
qed

lemma mark_failure_settles:
  fixes jid rid :: string and t :: instant
  assumes "wf_db db" and "ids_unshared sha db"
  defines "db' \<equiv> snd (mark_terminal_webhook_reconciliation_failure jid rid t db)"
  shows "settled {} db db' \<and> wf_db db' \<and> ids_unshared sha db'"
proof -
  have eq: "db' = update_runs (\<lambda>r. r_job_id r = jid \<and> r_run_id r = rid \<and> terminal (r_status r) \<and> r_webhook_reconciled_at r = None)
      (\<lambda>r. r\<lparr>r_webhook_reconciliation_failed_at := Some t\<rparr>) db"
    by (simp add: db'_def mark_terminal_webhook_reconciliation_failure_def Let_def)
  have runs: "list_all2 (run_settles {}) (job_runs db) (job_runs db')"
    by (auto simp: eq update_runs_def sql_update_def list_all2_map2 list_all2_same run_settles_def)
  have same: "jobs db' = jobs db" "webhook_deliveries db' = webhook_deliveries db" by (simp_all add: eq update_runs_def)
  have "list_all2 (job_settles {}) (jobs db) (jobs db')" by (auto simp: same list_all2_same job_settles_def)
  then have "settled {} db db'" using runs same by (simp add: settled_def)
  moreover have "wf_db db'" unfolding eq by (rule wf_update_runs [OF assms(1)]) simp
  moreover have "ids_unshared sha db'" by (rule ids_unshared_settled [OF assms(2) runs same(2)])
  ultimately show ?thesis by blast
qed

definition quiet_port :: "terminal_port \<Rightarrow> bool" where
  "quiet_port p \<longleftrightarrow> (\<forall>rid db. tp_other p rid db = db)"

definition repaired :: "env \<Rightarrow> terminal_port \<Rightarrow> terminal_candidate list \<Rightarrow> (string \<times> string) set" where
  "repaired e p cs = (\<lambda>c. (tc_job_id c, tc_run_id c)) ` {c \<in> set cs. repairable e p c}"

lemma pass_settles:
  assumes "keeps_identity (tp_redact p)" and "quiet_port p"
    and "reconcile_candidates e p cs ff s db = (ff', s', db')"
    and "wf_db db" and "ids_unshared (sha256 e) db" and "\<forall>c \<in> set cs. pending e db c"
  shows "settled (repaired e p cs) db db' \<and> wf_db db'
    \<and> (\<forall>c \<in> set cs. repairable e p c \<longrightarrow> owes_webhook p c \<longrightarrow> has_delivery db' (tc_job_id c) (tc_run_id c) (terminal_event (tc_status c)))
    \<and> (ff' = None \<longleftrightarrow> ff = None \<and> (\<forall>c \<in> set cs. repairable e p c))"
  using assms(3-6)
proof (induction cs arbitrary: ff s db)
  case Nil
  then show ?case by (simp add: settled_refl repaired_def)
next
  case (Cons c cs)
  obtain r j where r: "r \<in> set (job_runs db)" "j \<in> set (jobs db)" "describes e c r j" "terminal (r_status r)" "j_status j \<noteq> Deleting"
    and known: "tc_existing_delivery c \<noteq> None \<longrightarrow> has_delivery db (tc_job_id c) (tc_run_id c) (terminal_event (tc_status c))"
    using Cons.prems(4) by (auto simp: pending_def)
  have key: "r_job_id r = tc_job_id c" "r_run_id r = tc_run_id c" "r_status r = tc_status c" using r(3) by (simp_all add: describes_def)
  obtain err s1 db1 where one: "reconcile_candidate e p c s db = (err, s1, db1)" using prod_cases3 by blast
  note step = candidate_settles [OF Cons.prems(2) r(1,2,4) Cons.prems(3) r(3,5) assms(1), of s, unfolded one key]
  have other: "tp_other p (tc_run_id c) db = db" using assms(2) by (simp add: quiet_port_def)
  show ?case
  proof (cases err)
    case None
    have good: "repairable e p c" "settled {(tc_job_id c, tc_run_id c)} db db1" "wf_db db1" "ids_unshared (sha256 e) db1"
      "owes_webhook p c \<longrightarrow> has_delivery db1 (tc_job_id c) (tc_run_id c) (terminal_event (tc_status c))"
      using step [OF other] known None by (auto simp: settles_run_def key)
    have rest: "reconcile_candidates e p cs ff s1 db1 = (ff', s', db')" using Cons.prems(1) one None by simp
    have pend: "\<forall>x \<in> set cs. pending e db1 x" using Cons.prems(4) pending_settled [OF _ good(2)] by simp
    note ih = Cons.IH [OF rest good(3,4) pend]
    have set: "repaired e p (c # cs) = {(tc_job_id c, tc_run_id c)} \<union> repaired e p cs" using good(1) by (auto simp: repaired_def)
    have "settled (repaired e p (c # cs)) db db'" unfolding set by (rule settled_trans [OF good(2)]) (use ih in simp)
    moreover have "owes_webhook p c \<longrightarrow> has_delivery db' (tc_job_id c) (tc_run_id c) (terminal_event (tc_status c))"
      using good(5) has_delivery_settled ih by blast
    ultimately show ?thesis using ih good(1) by simp
  next
    case (Some x)
    have bad: "\<not> repairable e p c" "db1 = db" using step [OF other] known Some by auto
    define db2 where "db2 = (if tp_mark_fails p (tc_run_id c) then db1
          else snd (mark_terminal_webhook_reconciliation_failure (tc_job_id c) (tc_run_id c) (tp_now p (tc_run_id c)) db1))"
    have two: "settled {} db db2" "wf_db db2" "ids_unshared (sha256 e) db2"
      using mark_failure_settles [OF Cons.prems(2,3)] settled_refl [of db] Cons.prems(2,3) bad(2) by (auto simp: db2_def)
    have rest: "reconcile_candidates e p cs (if ff = None then Some c else ff) s1 db2 = (ff', s', db')"
      using Cons.prems(1) one Some by (simp add: db2_def)
    have pend: "\<forall>x \<in> set cs. pending e db2 x" using Cons.prems(4) pending_settled [OF _ two(1)] by simp
    note ih = Cons.IH [OF rest two(2,3) pend]
    have set: "repaired e p (c # cs) = {} \<union> repaired e p cs" using bad(1) by (auto simp: repaired_def)
    have "settled (repaired e p (c # cs)) db db'" unfolding set by (rule settled_trans [OF two(1)]) (use ih in simp)
    then show ?thesis using ih bad(1) by (auto split: if_splits)
  qed
qed

lemma listed_in: "terminal_webhook_candidates e db rows = Inr cs \<Longrightarrow> c \<in> set cs \<Longrightarrow> \<exists>rj \<in> set rows. terminal_webhook_candidate e db rj = Inr c"
  by (induction rows arbitrary: cs) (auto split: sum.splits)

lemma listed_all: "terminal_webhook_candidates e db rows = Inr cs \<Longrightarrow> rj \<in> set rows \<Longrightarrow> \<exists>c \<in> set cs. terminal_webhook_candidate e db rj = Inr c"
  by (induction rows arbitrary: cs) (auto split: sum.splits)

lemma candidate_rows_in: "terminal_webhook_candidate_rows batch db = Inr rows \<Longrightarrow> set rows \<subseteq> set (candidate_pairs db)"
  by (auto simp: terminal_webhook_candidate_rows_def sql_limit_def dest: in_set_takeD split: option.splits if_splits)

lemma candidate_pairs_in: "(r, j) \<in> set (candidate_pairs db) \<longleftrightarrow> r \<in> set (job_runs db) \<and> j \<in> set (jobs db) \<and> is_terminal_candidate r j"
  by (auto simp: candidate_pairs_def sql_order_def)

lemma existing_delivery: "terminal_webhook_candidate e db (r, j) = Inr c \<Longrightarrow> tc_existing_delivery c = first_delivery db (tc_job_id c) (tc_run_id c) (terminal_event (tc_status c))"
  by (auto simp: terminal_webhook_candidate_def Let_def split: option.splits)

lemma listed_pending:
  assumes "list_terminal_webhook_candidates e batch db = Inr cs" and "c \<in> set cs"
  shows "pending e db c"
proof -
  obtain r j where rj: "(r, j) \<in> set (candidate_pairs db)" "terminal_webhook_candidate e db (r, j) = Inr c"
    using assms listed_in [of e db _ cs c] candidate_rows_in [of batch db]
    by (fastforce simp: list_terminal_webhook_candidates_def split: sum.splits)
  then have in_db: "r \<in> set (job_runs db)" "j \<in> set (jobs db)" "terminal (r_status r)" "j_status j \<noteq> Deleting" "r_job_id r = j_job_id j"
    by (auto simp: candidate_pairs_in is_terminal_candidate_def)
  then have "describes e c r j" using describes_listed [OF rj(2)] by simp
  moreover have "has_delivery db (tc_job_id c) (tc_run_id c) (terminal_event (tc_status c))" if "tc_existing_delivery c \<noteq> None"
    using existing_delivery [OF rj(2)] that first_delivery_None [of db "tc_job_id c" "tc_run_id c" "terminal_event (tc_status c)"] by simp
  ultimately show ?thesis using in_db unfolding pending_def by blast
qed

lemma pass_result:
  assumes "wf_db db" and "ids_unshared (sha256 e) db" and "keeps_identity (tp_redact p)" and "quiet_port p"
    and "list_terminal_webhook_candidates e batch db = Inr cs"
    and "reconcile_terminal_webhook_intents e p batch db = (res, db')"
  shows "settled (repaired e p cs) db db'"
    and "\<forall>c \<in> set cs. repairable e p c \<longrightarrow> owes_webhook p c \<longrightarrow> has_delivery db' (tc_job_id c) (tc_run_id c) (terminal_event (tc_status c))"
    and "isl res \<longleftrightarrow> (\<exists>c \<in> set cs. \<not> repairable e p c)"
proof -
  obtain ff s where run: "reconcile_candidates e p cs None (zero_summary (length cs)) db = (ff, s, db')"
    and res: "isl res \<longleftrightarrow> ff \<noteq> None"
    using assms(5,6) by (auto simp: reconcile_terminal_webhook_intents_def split: prod.splits option.splits)
  from pass_settles [OF assms(3,4) run assms(1,2)] listed_pending [OF assms(5)] res
  show "settled (repaired e p cs) db db'" "isl res \<longleftrightarrow> (\<exists>c \<in> set cs. \<not> repairable e p c)"
    "\<forall>c \<in> set cs. repairable e p c \<longrightarrow> owes_webhook p c \<longrightarrow> has_delivery db' (tc_job_id c) (tc_run_id c) (terminal_event (tc_status c))"
    by auto
qed


definition sample_failed :: jobs_db where
  "sample_failed = after (recover_stale_running_jobs 7 8 None sample_running)"

definition sample_webhook :: webhook_config where
  "sample_webhook = \<lparr>wc_url = ''https://h.example/'', wc_on = [Failed], wc_headers = [], wc_timeout = 10\<rparr>"

definition sample_terminal_port :: terminal_port where
  "sample_terminal_port = \<lparr>tp_load_config = (\<lambda>_. Some \<lparr>sc_project = ''p'', sc_name = ''j'', sc_webhook = Some sample_webhook\<rparr>),
     tp_yaml_webhook = (\<lambda>_. Some True), tp_metadata = (\<lambda>_ _. None), tp_redact = (\<lambda>p. p), tp_isoformat = (\<lambda>_. ''t''),
     tp_store_fails = (\<lambda>_. False), tp_mark_fails = (\<lambda>_. False), tp_other = (\<lambda>_ db. db), tp_now = (\<lambda>_. 9)\<rparr>"

lemma sample_port_ok: "keeps_identity (tp_redact sample_terminal_port)" "quiet_port sample_terminal_port"
  by (simp_all add: keeps_identity_def quiet_port_def sample_terminal_port_def)

lemma sample_recovery: "\<exists>recs. recover_stale_running_jobs 7 8 None sample_running = Inr (recs, sample_failed)"
proof -
  have "\<not> isl (recover_stale_running_jobs 7 8 None sample_running)" by code_simp
  then show ?thesis by (cases "recover_stale_running_jobs 7 8 None sample_running") (auto simp: sample_failed_def after_def)
qed

lemma sample_failed_wf: "wf_db sample_failed"
  using sample_recovery reachable_wf [of 2 sample_failed] sample_running_reachable store_step.recover_all rtranclp.rtrancl_into_rtrancl by metis

lemma sample_failed_ids: "ids_unshared (sha256 sample_env) sample_failed"
proof -
  have "length (job_runs sample_failed) = 1" "webhook_deliveries sample_failed = []" by code_simp+
  then show ?thesis by (auto simp: ids_unshared_def length_Suc_conv)
qed

lemma sample_candidate:
  obtains c where "list_terminal_webhook_candidates sample_env (Some 5) sample_failed = Inr [c]" "tc_job_id c = ''j''" "tc_run_id c = ''r''"
    "tc_status c = Failed" "repairable sample_env sample_terminal_port c" "owes_webhook sample_terminal_port c"
proof -
  have "(case list_terminal_webhook_candidates sample_env (Some 5) sample_failed of Inl x \<Rightarrow> False
     | Inr cs \<Rightarrow> map (\<lambda>c. (tc_job_id c, tc_run_id c, tc_status c, repairable sample_env sample_terminal_port c, owes_webhook sample_terminal_port c)) cs
         = [(''j'', ''r'', Failed, True, True)])" by code_simp
  then show thesis using that by (auto split: sum.splits)
qed


section \<open>Runs whose worker died\<close>

lemma recover_enough:
  assumes "1 \<le> n" and "length (jobs db) \<le> nat n"
  shows "recover_stale_running_jobs cutoff t (Some n) db = recover_stale_running_jobs cutoff t None db"
proof -
  have "length (filter P (jobs db)) \<le> nat n" for P using length_filter_le [of P "jobs db"] assms(2) by linarith
  then show ?thesis using assms(1) by (simp add: recover_stale_running_jobs_def Let_def sql_limit_def sql_order_def)
qed

lemma recovered_parent:
  assumes "(store_step N)\<^sup>*\<^sup>* empty_db db" and "owns_lease (abs_db db) r"
    and "recover_stale_running_jobs cutoff t None db = Inr (recs, db1)"
  shows "\<exists>j \<in> set (jobs db1). j_job_id j = r_job_id r \<and> j_status j \<noteq> Deleting"
proof -
  note wf = reachable_wf [OF assms(1)] and lease = reachable_lease [OF assms(1)]
  have "job_state (abs_db db) (r_job_id r) = Some (Running, Some (r_run_id r))"
    using assms(2) by (simp add: owns_lease_def)
  moreover obtain F where F: "abs_db db1 = fail_running F (abs_db db)" "wf_db db1"
    using recover_each_sweep [OF _ wf lease] assms(3) by (fastforce simp: recover_stale_running_jobs_def Let_def)
  ultimately have "\<exists>st rid. job_state (abs_db db1) (r_job_id r) = Some (st, rid) \<and> st \<noteq> Deleting"
    by (auto simp: fail_running_def)
  then show ?thesis by (auto simp: job_state_Some [OF F(2)])
qed

lemma candidates_le_runs:
  assumes "wf_db db"
  shows "length (candidate_pairs db) \<le> length (job_runs db)"
proof -
  let ?xs = "filter (\<lambda>(r, j). is_terminal_candidate r j) (List.product (job_runs db) (jobs db))"
  have d: "distinct (job_runs db)" "distinct (jobs db)"
    using wf_dbD(1,3) [OF assms] by (simp_all add: unique_on_def distinct_map)
  then have "distinct ?xs" by (intro distinct_filter distinct_product)
  then have "length ?xs = card (set ?xs)" by (rule distinct_card [symmetric])
  also have "\<dots> = card (fst ` set ?xs)"
    by (rule card_image [symmetric], rule inj_onI)
      (auto simp: is_terminal_candidate_def dest: unique_onD [OF wf_dbD(1) [OF assms]])
  also have "\<dots> \<le> card (set (job_runs db))" by (rule card_mono) auto
  finally show ?thesis using d by (simp add: candidate_pairs_def sql_order_def distinct_card)
qed

text \<open>
  The run of a worker that died is failed and announced. If the last heartbeat of the current run of a running job is older
  than the timeout, one round of the periodic reconciliation that ends without an error and whose batch holds all jobs and runs leaves the
  run failed and reconciled, and if its configuration asks for a webhook on failure, the delivery is stored. Assumed: no other task
  writes during the round, redaction keeps the identity fields of a payload, and no two owed deliveries share an id.
\<close>

theorem dead_worker_run_is_announced:
  assumes "(store_step N)\<^sup>*\<^sup>* empty_db db"
    and r: "r \<in> set (job_runs db)" "r_status r = Running" "r_webhook_reconciled_at r = None" "heartbeat_is_stale (r_heartbeat_at r) (now - timeout_us)"
    and j: "find_job db (r_job_id r) = Some j" "j_status j = Running" "j_current_run_id j = Some (r_run_id r)"
    and batch: "1 \<le> batch" "length (jobs db) \<le> nat batch" "length (job_runs db) \<le> nat batch"
    and ids: "\<forall>recs db1. recover_stale_running_jobs (now - timeout_us) now (Some batch) db = Inr (recs, db1) \<longrightarrow> ids_unshared (sha256 e) db1"
    and port: "keeps_identity (tp_redact p)" "quiet_port p"
    and run: "reconcile_stale_running_jobs e p timeout_us batch now db = (Inr s, db')"
  shows "(\<exists>r' \<in> set (job_runs db'). r_run_id r' = r_run_id r \<and> r_job_id r' = r_job_id r \<and> r_status r' = Failed \<and> r_webhook_reconciled_at r' \<noteq> None)
    \<and> (\<forall>stored yaml cfg wc. r_config_yaml r = Some stored \<and> reveal_text e (runs_purpose (r_run_id r)) stored = Some yaml
         \<and> tp_load_config p yaml = Some cfg \<and> sc_webhook cfg = Some wc \<and> should_fire wc Failed
       \<longrightarrow> has_delivery db' (r_job_id r) (r_run_id r) (terminal_event Failed))"
proof -
  let ?cutoff = "now - timeout_us" and ?r = "r\<lparr>r_status := Failed, r_completed_at := Some now\<rparr>"
  note wf = reachable_wf [OF assms(1)]
  have own: "owns_lease (abs_db db) r" using find_job_state [OF wf j(1)] j(2,3) by (simp add: owns_lease_def)
  obtain recs db1 where rec: "recover_stale_running_jobs ?cutoff now None db = Inr (recs, db1)"
    and runs: "job_runs db1 = sql_update (\<lambda>r. stale_running ?cutoff r \<and> owns_lease (abs_db db) r) (abandon now) (job_runs db)"
    using recovery_exact [OF wf reachable_lease [OF assms(1)], of ?cutoff now] by blast
  have rec_n: "recover_stale_running_jobs ?cutoff now (Some batch) db = Inr (recs, db1)" using recover_enough [OF batch(1,2)] rec by simp
  have wf1: "wf_db db1" using reachable_wf [OF rtranclp.rtrancl_into_rtrancl [OF assms(1) store_step.recover_all [OF rec]]] .
  have r1: "?r \<in> set (job_runs db1)" using r own unfolding runs by (force simp: in_sql_update stale_running_def abandon_def)
  obtain j1 where j1: "j1 \<in> set (jobs db1)" "j_job_id j1 = r_job_id r" "j_status j1 \<noteq> Deleting"
    using recovered_parent [OF assms(1) own rec] by blast
  have pair: "(?r, j1) \<in> set (candidate_pairs db1)"
    using r1 j1 r(3) by (simp add: candidate_pairs_in is_terminal_candidate_def terminal_run_statuses_def)
  have "length (candidate_pairs db1) \<le> nat batch" using candidates_le_runs [OF wf1] batch(3) runs by (simp add: sql_update_def)
  then have rows: "terminal_webhook_candidate_rows (Some batch) db1 = Inr (candidate_pairs db1)"
    using batch(1) by (simp add: terminal_webhook_candidate_rows_def sql_limit_def)
  obtain s1 where pass: "reconcile_terminal_webhook_intents e p (Some batch) db1 = (Inr s1, db')"
    using run rec_n by (auto simp: reconcile_stale_running_jobs_def split: prod.splits sum.splits)
  then obtain cs where cs: "list_terminal_webhook_candidates e (Some batch) db1 = Inr cs"
    by (cases "list_terminal_webhook_candidates e (Some batch) db1") (auto simp: reconcile_terminal_webhook_intents_def)
  then obtain c where c: "c \<in> set cs" "terminal_webhook_candidate e db1 (?r, j1) = Inr c"
    using listed_all [OF _ pair, of e] rows by (auto simp: list_terminal_webhook_candidates_def)
  have d: "describes e c ?r j1" by (rule describes_listed [OF c(2)]) (use j1 in simp)
  note out = pass_result [OF wf1 ids [rule_format, OF rec_n] port cs pass]
  have rep: "repairable e p c" using out(3) c(1) by simp
  have key: "tc_job_id c = r_job_id r" "tc_run_id c = r_run_id r" "tc_status c = Failed" using d by (simp_all add: describes_def)
  obtain r' where "r' \<in> set (job_runs db')" "run_settles (repaired e p cs) ?r r'" using settled_run [OF out(1) r1] by blast
  moreover have "(r_job_id r, r_run_id r) \<in> repaired e p cs" using c(1) rep key by (force simp: repaired_def)
  moreover have "has_delivery db' (r_job_id r) (r_run_id r) (terminal_event Failed)"
    if "r_config_yaml r = Some stored" "reveal_text e (runs_purpose (r_run_id r)) stored = Some yaml"
      "tp_load_config p yaml = Some cfg" "sc_webhook cfg = Some wc" "should_fire wc Failed" for stored yaml cfg wc
  proof -
    have "owes_webhook p c" using that d by (simp add: owes_webhook_def describes_def)
    then show ?thesis using out(2) c(1) rep key by fastforce
  qed
  ultimately show ?thesis unfolding run_settles_def by fastforce
qed

theorem dead_worker_run_is_announced_witness:
  "\<exists>s db'. map r_status (job_runs sample_running) = [Running]
    \<and> reconcile_stale_running_jobs sample_env sample_terminal_port 1 5 8 sample_running = (Inr s, db')
    \<and> (\<exists>r' \<in> set (job_runs db'). r_run_id r' = ''r'' \<and> r_status r' = Failed) \<and> has_delivery db' ''j'' ''r'' ''job.failed''"
proof -
  have sizes: "length (jobs sample_running) = 1" "length (job_runs sample_running) = 1" by code_simp+
  have row: "map (\<lambda>r. (r_run_id r, r_job_id r, r_status r, r_webhook_reconciled_at r, heartbeat_is_stale (r_heartbeat_at r) 7, r_config_yaml r)) (job_runs sample_running)
     = [(''r'', ''j'', Running, None, True, Some (runs_purpose ''r'' @ ''y''))]" by code_simp
  then obtain r where r: "job_runs sample_running = [r]" "r_run_id r = ''r''" "r_job_id r = ''j''" "r_status r = Running" "r_webhook_reconciled_at r = None"
    "heartbeat_is_stale (r_heartbeat_at r) (8 - 1)" "r_config_yaml r = Some (runs_purpose ''r'' @ ''y'')" by (auto simp: map_eq_Cons_conv)
  obtain recs where rec: "recover_stale_running_jobs (8 - 1) 8 (Some 5) sample_running = Inr (recs, sample_failed)"
    using sample_recovery recover_enough [of 5 sample_running 7 8] sizes by auto
  obtain res db' where pass: "reconcile_terminal_webhook_intents sample_env sample_terminal_port (Some 5) sample_failed = (res, db')" by force
  have "\<not> isl res" using pass_result(3) [OF sample_failed_wf sample_failed_ids sample_port_ok _ pass] sample_candidate by (metis empty_iff empty_set set_ConsD)
  then obtain s where run: "reconcile_stale_running_jobs sample_env sample_terminal_port 1 5 8 sample_running = (Inr s, db')"
    using rec pass by (cases res) (auto simp: reconcile_stale_running_jobs_def)
  have ids: "\<forall>recs db1. recover_stale_running_jobs (8 - 1) 8 (Some 5) sample_running = Inr (recs, db1) \<longrightarrow> ids_unshared (sha256 sample_env) db1"
    using rec sample_failed_ids by simp
  have r_in: "r \<in> set (job_runs sample_running)" using r(1) by simp
  have "map_option (\<lambda>j. (j_status j, j_current_run_id j)) (find_job sample_running ''j'') = Some (Running, Some ''r'')" by code_simp
  then obtain j where j: "find_job sample_running (r_job_id r) = Some j" "j_status j = Running" "j_current_run_id j = Some (r_run_id r)"
    using r(2,3) by auto
  have enough: "1 \<le> (5::int)" "length (jobs sample_running) \<le> nat 5" "length (job_runs sample_running) \<le> nat 5" using sizes by simp_all
  note out = dead_worker_run_is_announced [OF sample_running_reachable r_in r(4-6) j enough ids sample_port_ok run]
  have "terminal_event Failed = ''job.failed''" by code_simp
  moreover have "reveal_text sample_env (runs_purpose ''r'') (runs_purpose ''r'' @ ''y'') = Some ''y''" "should_fire sample_webhook Failed" by code_simp+
  then have "has_delivery db' ''j'' ''r'' (terminal_event Failed)"
    using out r(2,3,7) by (auto simp: sample_terminal_port_def)
  ultimately show ?thesis using out r(1-4) run by auto
qed

end
